(* ===== verification/GoPrelude.thy ===== *)
theory GoPrelude
  imports Main "HOL-Library.Word" "HOL-Library.AList"
begin

text \<open>
  Shared ground of the development: Go's fixed-width integers, the error values of the
  modules under \<open>src/internal\<close>, the shape of a Go method (a state transformer that
  returns a value or an error), and the lemmas on association lists the in-memory stores use.

  Unsigned Go integers (\<open>uint8\<close> to \<open>uint64\<close>, and the identifiers built on them) are words, so
  that \<open>+\<close> and \<open>-\<close> wrap as in Go. Signed ones are \<open>int\<close> kept in range by \<open>i16\<close>, \<open>i32\<close>, \<open>i64\<close>,
  which are written wherever the Go expression converts or may wrap; \<open>int32(u)\<close> of an unsigned
  \<open>u\<close> is \<open>sint u\<close> and \<open>uint32(i)\<close> is \<open>word_of_int i\<close>. Go's \<open>int\<close> is 64 bits wide and is only
  used for counts and indices here, so it is an unbounded \<open>int\<close> or \<open>nat\<close>.

  A Go map that the code ranges over is an association list with distinct keys: the list order
  stands for the (unspecified) iteration order, and a theorem for every list is a theorem for
  every order. A map that is only indexed is a HOL map.
\<close>

section \<open>Machine integers\<close>

type_synonym u8 = "8 word"
type_synonym u16 = "16 word"
type_synonym u32 = "32 word"
type_synonym u64 = "64 word"

text \<open>Conversion to \<open>int16\<close> and \<open>int32\<close>: two's complement truncation.\<close>

definition i16 :: "int \<Rightarrow> int" where
  "i16 x = signed_take_bit 15 x"

definition i32 :: "int \<Rightarrow> int" where
  "i32 x = signed_take_bit 31 x"

definition i64 :: "int \<Rightarrow> int" where
  "i64 x = signed_take_bit 63 x"

definition in_i16 :: "int \<Rightarrow> bool" where
  "in_i16 x \<longleftrightarrow> -32768 \<le> x \<and> x \<le> 32767"

definition in_i32 :: "int \<Rightarrow> bool" where
  "in_i32 x \<longleftrightarrow> -2147483648 \<le> x \<and> x \<le> 2147483647"

text \<open>Go's integer division truncates towards zero.\<close>

definition go_div :: "int \<Rightarrow> int \<Rightarrow> int" where
  "go_div a b = sgn a * sgn b * (\<bar>a\<bar> div \<bar>b\<bar>)"

lemma in_i32_i32 [simp]: "in_i32 (i32 x)"
  using signed_take_bit_int_less_exp [of 31 x] signed_take_bit_int_greater_eq_minus_exp [of 31 x]
  by (auto simp: in_i32_def i32_def)

lemma in_i16_i16 [simp]: "in_i16 (i16 x)"
  using signed_take_bit_int_less_exp [of 15 x] signed_take_bit_int_greater_eq_minus_exp [of 15 x]
  by (auto simp: in_i16_def i16_def)

lemma i32_id: "in_i32 x \<Longrightarrow> i32 x = x"
  unfolding in_i32_def i32_def by (rule signed_take_bit_int_eq_self) simp_all

lemma i16_id: "in_i16 x \<Longrightarrow> i16 x = x"
  unfolding in_i16_def i16_def by (rule signed_take_bit_int_eq_self) simp_all

lemma i64_id: "\<bar>x\<bar> < 2 ^ 63 \<Longrightarrow> i64 x = x"
  unfolding i64_def by (rule signed_take_bit_int_eq_self) simp_all

lemma go_div_nonneg: "0 \<le> a \<Longrightarrow> 0 < b \<Longrightarrow> go_div a b = a div b"
  by (cases "a = 0") (auto simp: go_div_def sgn_if)

lemma sint_u32_range: "in_i32 (sint (w :: u32))"
  using sint_ge [of w] sint_lt [of w] by (auto simp: in_i32_def)

lemma sint_u32_eq_uint: "uint (w :: u32) < 2 ^ 31 \<Longrightarrow> sint w = uint w"
  using signed_take_bit_int_eq_self [of 31 "uint w"] order_trans [OF _ uint_ge_0, of "- 2147483648" w]
  by (simp add: sint_uint)

lemma sint_u32_high: "2 ^ 31 \<le> uint (w :: u32) \<Longrightarrow> sint w = uint w - 2 ^ 32"
proof -
  assume h: "2 ^ 31 \<le> uint w"
  have lt: "uint w < 2 ^ 32"
    using uint_lt2p [of w] by simp
  have "signed_take_bit 31 (uint w) = signed_take_bit 31 (uint w - 2 ^ 32)"
    by (simp add: signed_take_bit_eq_iff_take_bit_eq take_bit_eq_mod)
  also have "\<dots> = uint w - 2 ^ 32"
    using h lt by (intro signed_take_bit_int_eq_self) simp_all
  finally show ?thesis by (simp add: sint_uint)
qed

lemma sint_u32_nonneg_iff: "0 \<le> sint (w :: u32) \<longleftrightarrow> uint w < 2 ^ 31"
  using sint_u32_eq_uint [of w] sint_u32_high [of w] uint_lt2p [of w] by (cases "uint w < 2 ^ 31") auto

lemma uint_word_of_int_u32: "0 \<le> x \<Longrightarrow> x < 2 ^ 32 \<Longrightarrow> uint (word_of_int x :: u32) = x"
  by (simp add: uint_word_of_int_eq take_bit_int_eq_self)

lemma uint_minus_u32:
  assumes "y \<le> uint (w :: u32)" and "0 \<le> y"
  shows "uint (w - word_of_int y) = uint w - y"
proof -
  have lt: "uint w < 2 ^ 32"
    using uint_lt2p [of w] by simp
  then have "uint (word_of_int y :: u32) = y"
    using assms by (intro uint_word_of_int_u32) simp_all
  then have "uint (w - word_of_int y) = (uint w - y) mod 2 ^ 32"
    by (simp add: uint_word_ariths)
  also have "\<dots> = uint w - y"
    using assms lt by (intro mod_pos_pos_trivial) simp_all
  finally show ?thesis .
qed

section \<open>Strings\<close>

text \<open>\<open>strings.ToLower\<close> and \<open>strings.EqualFold\<close>, on the ASCII strings the data files use.\<close>

definition lower_char :: "char \<Rightarrow> char" where
  "lower_char c = (let n = of_char c :: nat in if 65 \<le> n \<and> n \<le> 90 then char_of (n + 32) else c)"

definition ToLower :: "string \<Rightarrow> string" where
  "ToLower s = map lower_char s"

definition EqualFold :: "string \<Rightarrow> string \<Rightarrow> bool" where
  "EqualFold s t \<longleftrightarrow> ToLower s = ToLower t"

section \<open>Errors\<close>

text \<open>
  The sentinel errors of the modules, one enumeration per module and one constructor per
  \<open>errors.New\<close> value the code names; the abbreviations give them their Go names.
  \<open>fmt.Errorf("...: %w", err)\<close> keeps the sentinel (\<open>errors.Is\<close> looks through it), so a single
  wrap is the wrapped error itself; a wrap of two errors, which the trade service uses, is
  \<open>Joined\<close>. \<open>ErrText\<close> is an anonymous \<open>errors.New\<close> or \<open>fmt.Errorf\<close> without \<open>%w\<close>.
\<close>

datatype econ_err =
    InsufficientFunds | Overflow | LedgerAppendFailed | LedgerInvalid

datatype char_err =
    CharacterNotFound | NameTaken | SlotTaken | InvalidSession | SessionNotFound

datatype inv_err =
    ItemNotFound | InsufficientAmount

datatype storage_err =
    StorageItemNotFound | StorageRepoFull | StorageInsufficientAmount | StorageIndexOutOfRange | StorageInsufficient
  | StorageEquipped | StorageRowMissing

datatype gear_err =
    NotEquippable | WrongSlot | EquipRowNotFound | ItemUseNotFound | NotUsable

datatype trade_err =
    TradeSelf | TradeAlreadyTrading | TradeTargetOffline | TradeDifferentMap | TradeNotActive
  | TradeLocked | TradeItemOutOfRange | TradeItemInsufficient | TradeItemEquipped | TradeConcludeFailed

datatype world_err =
    EntityNotFound | EntityAlreadyExists | UnknownStat | StatCapped | NoStatusPoints

datatype skill_err =
    SkillNotLearned | SkillLevelInsufficient | UnknownSkill | InvalidLevel | SkillOutOfRange
  | InsufficientSP | NoSkillPoints | SkillNotInTree | SkillMaxLevel | SkillLocked

datatype aoi_err =
    AoiExists | AoiMissing | AoiOutOfBounds

datatype mail_err =
    MailNotFound | RecipientNotFound | MailHasAttachment | InboxFull | ZenyOverflow

datatype party_err =
    PartyNotFound | PartyFull | AlreadyInParty | NotInParty | NotLeader
  | EmptyPartyName

datatype guild_err =
    GuildNotFound | GuildFull | AlreadyInGuild | NotInGuild | NotMaster
  | EmptyGuildName | GuildNameExists | CantExpelMaster | BreakNameMismatch | MembersOnline

datatype friend_err =
    FriendNotFound | FriendExists | FriendListFull | AcceptorListFull | FriendSelf

datatype account_err =
    AccountNotFound | InvalidPassword | AccountBanned

datatype packet_err =
    LastLoginTooLong | TokenTooLong | CharServerNameTooLong | UnblockTimeTooLong | CharNameTooLong
  | CALoginUsernameTooLong | CALoginPasswordTooLong | MapNameTooLong | DomainTooLong | ExtensionTooLong | PacketTooLong

datatype misc_err =
    QuestInvalidName | NoPath

datatype err =
    EconErr econ_err
  | CharErr char_err
  | InvErr inv_err
  | StorageErr storage_err
  | GearErr gear_err
  | TradeErr trade_err
  | WorldErr world_err
  | SkillErr skill_err
  | AoiErr aoi_err
  | MailErr mail_err
  | PartyErr party_err
  | GuildErr guild_err
  | FriendErr friend_err
  | AccountErr account_err
  | PacketErr packet_err
  | MiscErr misc_err
  | ErrText string
  | Joined err err

abbreviation ErrInsufficientFunds :: err where "ErrInsufficientFunds \<equiv> EconErr InsufficientFunds"
abbreviation ErrOverflow :: err where "ErrOverflow \<equiv> EconErr Overflow"
abbreviation ErrLedgerAppendFailed :: err where "ErrLedgerAppendFailed \<equiv> EconErr LedgerAppendFailed"
abbreviation ErrLedgerInvalid :: err where "ErrLedgerInvalid \<equiv> EconErr LedgerInvalid"
abbreviation ErrCharacterNotFound :: err where "ErrCharacterNotFound \<equiv> CharErr CharacterNotFound"
abbreviation ErrNameTaken :: err where "ErrNameTaken \<equiv> CharErr NameTaken"
abbreviation ErrSlotTaken :: err where "ErrSlotTaken \<equiv> CharErr SlotTaken"
abbreviation ErrInvalidSession :: err where "ErrInvalidSession \<equiv> CharErr InvalidSession"
abbreviation ErrSessionNotFound :: err where "ErrSessionNotFound \<equiv> CharErr SessionNotFound"
abbreviation ErrItemNotFound :: err where "ErrItemNotFound \<equiv> InvErr ItemNotFound"
abbreviation ErrInsufficientAmount :: err where "ErrInsufficientAmount \<equiv> InvErr InsufficientAmount"
abbreviation ErrStorageItemNotFound :: err where "ErrStorageItemNotFound \<equiv> StorageErr StorageItemNotFound"
abbreviation ErrStorageRepoFull :: err where "ErrStorageRepoFull \<equiv> StorageErr StorageRepoFull"
abbreviation ErrStorageInsufficientAmount :: err where "ErrStorageInsufficientAmount \<equiv> StorageErr StorageInsufficientAmount"
abbreviation ErrStorageIndexOutOfRange :: err where "ErrStorageIndexOutOfRange \<equiv> StorageErr StorageIndexOutOfRange"
abbreviation ErrStorageInsufficient :: err where "ErrStorageInsufficient \<equiv> StorageErr StorageInsufficient"
abbreviation ErrStorageEquipped :: err where "ErrStorageEquipped \<equiv> StorageErr StorageEquipped"
abbreviation ErrStorageRowMissing :: err where "ErrStorageRowMissing \<equiv> StorageErr StorageRowMissing"
abbreviation ErrNotEquippable :: err where "ErrNotEquippable \<equiv> GearErr NotEquippable"
abbreviation ErrWrongSlot :: err where "ErrWrongSlot \<equiv> GearErr WrongSlot"
abbreviation ErrEquipRowNotFound :: err where "ErrEquipRowNotFound \<equiv> GearErr EquipRowNotFound"
abbreviation ErrItemUseNotFound :: err where "ErrItemUseNotFound \<equiv> GearErr ItemUseNotFound"
abbreviation ErrNotUsable :: err where "ErrNotUsable \<equiv> GearErr NotUsable"
abbreviation ErrTradeSelf :: err where "ErrTradeSelf \<equiv> TradeErr TradeSelf"
abbreviation ErrTradeAlreadyTrading :: err where "ErrTradeAlreadyTrading \<equiv> TradeErr TradeAlreadyTrading"
abbreviation ErrTradeTargetOffline :: err where "ErrTradeTargetOffline \<equiv> TradeErr TradeTargetOffline"
abbreviation ErrTradeDifferentMap :: err where "ErrTradeDifferentMap \<equiv> TradeErr TradeDifferentMap"
abbreviation ErrTradeNotActive :: err where "ErrTradeNotActive \<equiv> TradeErr TradeNotActive"
abbreviation ErrTradeLocked :: err where "ErrTradeLocked \<equiv> TradeErr TradeLocked"
abbreviation ErrTradeItemOutOfRange :: err where "ErrTradeItemOutOfRange \<equiv> TradeErr TradeItemOutOfRange"
abbreviation ErrTradeItemInsufficient :: err where "ErrTradeItemInsufficient \<equiv> TradeErr TradeItemInsufficient"
abbreviation ErrTradeItemEquipped :: err where "ErrTradeItemEquipped \<equiv> TradeErr TradeItemEquipped"
abbreviation ErrTradeConcludeFailed :: err where "ErrTradeConcludeFailed \<equiv> TradeErr TradeConcludeFailed"
abbreviation ErrEntityNotFound :: err where "ErrEntityNotFound \<equiv> WorldErr EntityNotFound"
abbreviation ErrEntityAlreadyExists :: err where "ErrEntityAlreadyExists \<equiv> WorldErr EntityAlreadyExists"
abbreviation ErrUnknownStat :: err where "ErrUnknownStat \<equiv> WorldErr UnknownStat"
abbreviation ErrStatCapped :: err where "ErrStatCapped \<equiv> WorldErr StatCapped"
abbreviation ErrNoStatusPoints :: err where "ErrNoStatusPoints \<equiv> WorldErr NoStatusPoints"
abbreviation ErrSkillNotLearned :: err where "ErrSkillNotLearned \<equiv> SkillErr SkillNotLearned"
abbreviation ErrSkillLevelInsufficient :: err where "ErrSkillLevelInsufficient \<equiv> SkillErr SkillLevelInsufficient"
abbreviation ErrUnknownSkill :: err where "ErrUnknownSkill \<equiv> SkillErr UnknownSkill"
abbreviation ErrInvalidLevel :: err where "ErrInvalidLevel \<equiv> SkillErr InvalidLevel"
abbreviation ErrSkillOutOfRange :: err where "ErrSkillOutOfRange \<equiv> SkillErr SkillOutOfRange"
abbreviation ErrInsufficientSP :: err where "ErrInsufficientSP \<equiv> SkillErr InsufficientSP"
abbreviation ErrNoSkillPoints :: err where "ErrNoSkillPoints \<equiv> SkillErr NoSkillPoints"
abbreviation ErrSkillNotInTree :: err where "ErrSkillNotInTree \<equiv> SkillErr SkillNotInTree"
abbreviation ErrSkillMaxLevel :: err where "ErrSkillMaxLevel \<equiv> SkillErr SkillMaxLevel"
abbreviation ErrSkillLocked :: err where "ErrSkillLocked \<equiv> SkillErr SkillLocked"
abbreviation ErrAoiExists :: err where "ErrAoiExists \<equiv> AoiErr AoiExists"
abbreviation ErrAoiMissing :: err where "ErrAoiMissing \<equiv> AoiErr AoiMissing"
abbreviation ErrAoiOutOfBounds :: err where "ErrAoiOutOfBounds \<equiv> AoiErr AoiOutOfBounds"
abbreviation ErrMailNotFound :: err where "ErrMailNotFound \<equiv> MailErr MailNotFound"
abbreviation ErrRecipientNotFound :: err where "ErrRecipientNotFound \<equiv> MailErr RecipientNotFound"
abbreviation ErrMailHasAttachment :: err where "ErrMailHasAttachment \<equiv> MailErr MailHasAttachment"
abbreviation ErrInboxFull :: err where "ErrInboxFull \<equiv> MailErr InboxFull"
abbreviation errZenyOverflow :: err where "errZenyOverflow \<equiv> MailErr ZenyOverflow"
abbreviation ErrPartyNotFound :: err where "ErrPartyNotFound \<equiv> PartyErr PartyNotFound"
abbreviation ErrPartyFull :: err where "ErrPartyFull \<equiv> PartyErr PartyFull"
abbreviation ErrAlreadyInParty :: err where "ErrAlreadyInParty \<equiv> PartyErr AlreadyInParty"
abbreviation ErrNotInParty :: err where "ErrNotInParty \<equiv> PartyErr NotInParty"
abbreviation ErrNotLeader :: err where "ErrNotLeader \<equiv> PartyErr NotLeader"
abbreviation ErrEmptyPartyName :: err where "ErrEmptyPartyName \<equiv> PartyErr EmptyPartyName"
abbreviation ErrGuildNotFound :: err where "ErrGuildNotFound \<equiv> GuildErr GuildNotFound"
abbreviation ErrGuildFull :: err where "ErrGuildFull \<equiv> GuildErr GuildFull"
abbreviation ErrAlreadyInGuild :: err where "ErrAlreadyInGuild \<equiv> GuildErr AlreadyInGuild"
abbreviation ErrNotInGuild :: err where "ErrNotInGuild \<equiv> GuildErr NotInGuild"
abbreviation ErrNotMaster :: err where "ErrNotMaster \<equiv> GuildErr NotMaster"
abbreviation ErrEmptyGuildName :: err where "ErrEmptyGuildName \<equiv> GuildErr EmptyGuildName"
abbreviation ErrNameExists :: err where "ErrNameExists \<equiv> GuildErr GuildNameExists"
abbreviation ErrCantExpelMaster :: err where "ErrCantExpelMaster \<equiv> GuildErr CantExpelMaster"
abbreviation ErrBreakNameMismatch :: err where "ErrBreakNameMismatch \<equiv> GuildErr BreakNameMismatch"
abbreviation ErrMembersOnline :: err where "ErrMembersOnline \<equiv> GuildErr MembersOnline"
abbreviation ErrFriendNotFound :: err where "ErrFriendNotFound \<equiv> FriendErr FriendNotFound"
abbreviation ErrFriendExists :: err where "ErrFriendExists \<equiv> FriendErr FriendExists"
abbreviation ErrFriendListFull :: err where "ErrFriendListFull \<equiv> FriendErr FriendListFull"
abbreviation ErrAcceptorListFull :: err where "ErrAcceptorListFull \<equiv> FriendErr AcceptorListFull"
abbreviation ErrFriendSelf :: err where "ErrFriendSelf \<equiv> FriendErr FriendSelf"
abbreviation ErrAccountNotFound :: err where "ErrAccountNotFound \<equiv> AccountErr AccountNotFound"
abbreviation ErrInvalidPassword :: err where "ErrInvalidPassword \<equiv> AccountErr InvalidPassword"
abbreviation ErrAccountBanned :: err where "ErrAccountBanned \<equiv> AccountErr AccountBanned"
abbreviation ErrLastLoginTooLong :: err where "ErrLastLoginTooLong \<equiv> PacketErr LastLoginTooLong"
abbreviation ErrTokenTooLong :: err where "ErrTokenTooLong \<equiv> PacketErr TokenTooLong"
abbreviation ErrCharServerNameTooLong :: err where "ErrCharServerNameTooLong \<equiv> PacketErr CharServerNameTooLong"
abbreviation ErrUnblockTimeTooLong :: err where "ErrUnblockTimeTooLong \<equiv> PacketErr UnblockTimeTooLong"
abbreviation ErrCharNameTooLong :: err where "ErrCharNameTooLong \<equiv> PacketErr CharNameTooLong"
abbreviation ErrCALoginUsernameTooLong :: err where "ErrCALoginUsernameTooLong \<equiv> PacketErr CALoginUsernameTooLong"
abbreviation ErrCALoginPasswordTooLong :: err where "ErrCALoginPasswordTooLong \<equiv> PacketErr CALoginPasswordTooLong"
abbreviation ErrMapNameTooLong :: err where "ErrMapNameTooLong \<equiv> PacketErr MapNameTooLong"
abbreviation ErrDomainTooLong :: err where "ErrDomainTooLong \<equiv> PacketErr DomainTooLong"
abbreviation ErrExtensionTooLong :: err where "ErrExtensionTooLong \<equiv> PacketErr ExtensionTooLong"
abbreviation ErrPacketTooLong :: err where "ErrPacketTooLong \<equiv> PacketErr PacketTooLong"
abbreviation ErrQuestInvalidName :: err where "ErrQuestInvalidName \<equiv> MiscErr QuestInvalidName"
abbreviation ErrNoPath :: err where "ErrNoPath \<equiv> MiscErr NoPath"

fun errors_is :: "err \<Rightarrow> err \<Rightarrow> bool" where
  "errors_is (Joined a b) t \<longleftrightarrow> Joined a b = t \<or> errors_is a t \<or> errors_is b t"
| "errors_is e t \<longleftrightarrow> e = t"

section \<open>Methods\<close>

text \<open>
  A Go method on a pointer receiver that returns \<open>(T, error)\<close> takes the state and returns the
  result with the new state; \<open>and_then\<close> is the \<open>if err != nil { return err }\<close> idiom.
\<close>

type_synonym 'a res = "err + 'a"
type_synonym ('a, 's) out = "'a res \<times> 's"

fun and_then :: "('a, 's) out \<Rightarrow> ('a \<Rightarrow> 's \<Rightarrow> ('b, 's) out) \<Rightarrow> ('b, 's) out" where
  "and_then (Inl e, s) f = (Inl e, s)"
| "and_then (Inr x, s) f = f x s"

fun on_err :: "('a, 's) out \<Rightarrow> (err \<Rightarrow> err) \<Rightarrow> ('a, 's) out" where
  "on_err (Inl e, s) f = (Inl (f e), s)"
| "on_err (Inr x, s) f = (Inr x, s)"

lemma and_then_Inr_iff:
  "and_then r f = (Inr y, t) \<longleftrightarrow> (\<exists>x s. r = (Inr x, s) \<and> f x s = (Inr y, t))"
  by (cases "(r, f)" rule: and_then.cases) auto

lemma and_then_Inl_iff:
  "and_then r f = (Inl e, t) \<longleftrightarrow> r = (Inl e, t) \<or> (\<exists>x s. r = (Inr x, s) \<and> f x s = (Inl e, t))"
  by (cases "(r, f)" rule: and_then.cases) auto

lemma on_err_Inr_iff [simp]: "on_err r f = (Inr y, t) \<longleftrightarrow> r = (Inr y, t)"
  by (cases "(r, f)" rule: on_err.cases) auto

lemma on_err_Inl_iff: "on_err r f = (Inl e, t) \<longleftrightarrow> (\<exists>e'. r = (Inl e', t) \<and> e = f e')"
  by (cases "(r, f)" rule: on_err.cases) auto

lemma snd_on_err [simp]: "snd (on_err r f) = snd r"
  by (cases "(r, f)" rule: on_err.cases) auto

text \<open>A part \<open>f\<close> of the state that every step leaves alone is left alone by the sequence.\<close>

lemma and_then_keep:
  assumes "f (snd r) = f s" and "\<And>x s'. f (snd (g x s')) = f s'"
  shows "f (snd (and_then r g)) = f s"
  using assms by (cases "(r, g)" rule: and_then.cases) auto

lemmas method_simps = and_then_Inr_iff and_then_Inl_iff on_err_Inl_iff

text \<open>
  A component that is a field of a larger state: \<open>zoom\<close> runs its method on the field and writes
  the field back.
\<close>

definition zoom :: "('s \<Rightarrow> 't) \<Rightarrow> ('t \<Rightarrow> 's \<Rightarrow> 's) \<Rightarrow> ('t \<Rightarrow> ('a, 't) out) \<Rightarrow> 's \<Rightarrow> ('a, 's) out" where
  "zoom get put f s = (case f (get s) of (r, t) \<Rightarrow> (r, put t s))"

locale field_of =
  fixes get :: "'s \<Rightarrow> 't" and put :: "'t \<Rightarrow> 's \<Rightarrow> 's"
  assumes get_put [simp]: "get (put t s) = t"
    and put_get [simp]: "put (get s) s = s"
begin

lemma zoom_eq: "zoom get put f s = (r, s') \<longleftrightarrow> (\<exists>t. f (get s) = (r, t) \<and> s' = put t s)"
  by (auto simp: zoom_def split: prod.splits)

lemma zoom_id: "f (get s) = (r, get s) \<Longrightarrow> zoom get put f s = (r, s)"
  by (simp add: zoom_def)

lemma zoom_same: "(r, t) = f (get s) \<Longrightarrow> t = get s \<Longrightarrow> zoom get put f s = (r, s)"
  by (metis zoom_id)

end

named_theorems inv_intro \<open>preservation of the component invariants\<close>

section \<open>Association lists as Go maps\<close>

abbreviation keys :: "('k \<times> 'v) list \<Rightarrow> 'k list" where
  "keys al \<equiv> map fst al"

lemma map_of_update_key [simp]: "map_of (AList.update k v al) = (map_of al)(k \<mapsto> v)"
  by (rule update_conv')

lemma map_of_delete_key [simp]: "map_of (AList.delete k al) = (map_of al)(k := None)"
  by (rule delete_conv')

lemma distinct_keys_update [simp]: "distinct (keys (AList.update k v al)) = distinct (keys al)"
  by (induction al) (auto simp: update_keys)

lemma distinct_keys_delete [simp]: "distinct (keys al) \<Longrightarrow> distinct (keys (AList.delete k al))"
  by (rule distinct_delete)

lemma map_of_in_set: "distinct (keys al) \<Longrightarrow> map_of al k = Some v \<longleftrightarrow> (k, v) \<in> set al"
  by (rule map_of_eq_Some_iff)

lemma update_new_append: "map_of al k = None \<Longrightarrow> AList.update k v al = al @ [(k, v)]"
  by (induction al) (auto split: if_splits)

lemma map_update_same:
  "map_of al k = Some w \<Longrightarrow> f w = f v \<Longrightarrow> map (f \<circ> snd) (AList.update k v al) = map (f \<circ> snd) al"
  by (induction al) (auto split: if_splits)

lemma set_update_subset: "set (AList.update k v al) \<subseteq> insert (k, v) (set al)"
  by (induction al) (auto split: if_splits)

lemma set_delete_subset: "set (AList.delete k al) \<subseteq> set al"
  by (auto simp: AList.delete_eq)

text \<open>Summing a measure of the values: how one update or deletion changes it.\<close>

definition alist_sum :: "('v \<Rightarrow> int) \<Rightarrow> ('k \<times> 'v) list \<Rightarrow> int" where
  "alist_sum f al = sum_list (map (f \<circ> snd) al)"

lemma alist_sum_Nil [simp]: "alist_sum f [] = 0"
  by (simp add: alist_sum_def)

lemma alist_sum_Cons [simp]: "alist_sum f ((k, v) # al) = f v + alist_sum f al"
  by (simp add: alist_sum_def)

lemma alist_sum_update_new: "map_of al k = None \<Longrightarrow> alist_sum f (AList.update k v al) = alist_sum f al + f v"
  by (induction al) (auto split: if_splits)

lemma alist_sum_update:
  "distinct (keys al) \<Longrightarrow> map_of al k = Some w \<Longrightarrow>
     alist_sum f (AList.update k v al) = alist_sum f al - f w + f v"
  by (induction al) (auto split: if_splits)

lemma alist_sum_delete:
  "distinct (keys al) \<Longrightarrow> map_of al k = Some w \<Longrightarrow> alist_sum f (AList.delete k al) = alist_sum f al - f w"
proof (induction al)
  case (Cons p al)
  show ?case
  proof (cases "fst p = k")
    case True
    with Cons.prems(1) have "k \<notin> fst ` set al"
      by auto
    then have "AList.delete k al = al"
      by (rule delete_id)
    with True Cons.prems show ?thesis by (cases p) simp
  next
    case False
    with Cons show ?thesis by (cases p) simp
  qed
qed simp

end
