(* ===== verification/GoText.thy ===== *)
theory GoText
  imports GoPrelude
begin

text \<open>
  The parts of Go's \<open>strings\<close> and \<open>strconv\<close> the text-handling components use, on ASCII strings:
  \<open>TrimSpace\<close>, \<open>FormatInt(v, 10)\<close> and \<open>ParseInt(s, 10, 64)\<close>, with the decimal round trip.
\<close>

definition space_char :: "char \<Rightarrow> bool" where
  "space_char c = (let n = of_char c :: nat in 9 \<le> n \<and> n \<le> 13 \<or> n = 32)"

definition TrimSpace :: "string \<Rightarrow> string" where
  "TrimSpace s = rev (dropWhile space_char (rev (dropWhile space_char s)))"

section \<open>Decimal numbers\<close>

definition digit_char :: "nat \<Rightarrow> char" where
  "digit_char d = char_of (48 + d)"

definition digit_value :: "char \<Rightarrow> nat option" where
  "digit_value c = (let n = of_char c :: nat in if 48 \<le> n \<and> n \<le> 57 then Some (n - 48) else None)"

fun format_nat :: "nat \<Rightarrow> string" where
  "format_nat n = (if n < 10 then [digit_char n] else format_nat (n div 10) @ [digit_char (n mod 10)])"

declare format_nat.simps [simp del]

definition FormatInt :: "int \<Rightarrow> string" where
  "FormatInt v = (if v < 0 then CHR ''-'' # format_nat (nat (- v)) else format_nat (nat v))"

fun parse_digits :: "nat \<Rightarrow> string \<Rightarrow> nat option" where
  "parse_digits acc [] = Some acc"
| "parse_digits acc (c # cs) =
     (case digit_value c of None \<Rightarrow> None | Some d \<Rightarrow> parse_digits (10 * acc + d) cs)"

text \<open>\<open>ParseInt\<close>: an optional sign, at least one digit, and a range error outside \<open>int64\<close>.\<close>

definition ParseInt :: "string \<Rightarrow> int option" where
  "ParseInt s =
     (let (neg, body) = (case s of c # cs \<Rightarrow> if c = CHR ''-'' then (True, cs) else if c = CHR ''+'' then (False, cs) else (False, s)
                         | [] \<Rightarrow> (False, []))
      in if body = [] then None
         else case parse_digits 0 body of
           None \<Rightarrow> None
         | Some n \<Rightarrow>
             if neg then (if n \<le> 2 ^ 63 then Some (- int n) else None)
             else (if n < 2 ^ 63 then Some (int n) else None))"

lemma of_char_digit: "d < 10 \<Longrightarrow> (of_char (digit_char d) :: nat) = 48 + d"
  by (simp add: digit_char_def)

lemma digit_value_char [simp]: "d < 10 \<Longrightarrow> digit_value (digit_char d) = Some d"
  by (simp add: digit_value_def Let_def of_char_digit)

lemma digit_char_sign: "d < 10 \<Longrightarrow> digit_char d \<noteq> CHR ''-'' \<and> digit_char d \<noteq> CHR ''+''"
  using of_char_digit [of d] by (auto dest: arg_cong [where f = "of_char :: char \<Rightarrow> nat"])

lemma parse_digits_append:
  "parse_digits acc (xs @ [c]) =
     (case parse_digits acc xs of None \<Rightarrow> None
      | Some n \<Rightarrow> (case digit_value c of None \<Rightarrow> None | Some d \<Rightarrow> Some (10 * n + d)))"
  by (induction xs arbitrary: acc) (auto split: option.split)

lemma parse_format_nat: "parse_digits 0 (format_nat n) = Some n"
proof (induction n rule: format_nat.induct)
  case (1 n)
  show ?case
  proof (cases "n < 10")
    case True
    then show ?thesis by (subst format_nat.simps) simp
  next
    case False
    then show ?thesis
      using 1 by (subst format_nat.simps) (simp add: parse_digits_append)
  qed
qed

lemma format_nat_head: "\<exists>d cs. d < 10 \<and> format_nat n = digit_char d # cs"
proof (induction n rule: format_nat.induct)
  case (1 n)
  show ?case
  proof (cases "n < 10")
    case True
    then show ?thesis by (subst format_nat.simps) auto
  next
    case False
    then obtain d cs where "d < 10" "format_nat (n div 10) = digit_char d # cs"
      using 1 by auto
    then show ?thesis
      using False by (subst format_nat.simps) auto
  qed
qed

lemma ParseInt_FormatInt:
  assumes "- (2 ^ 63) \<le> v" and "v < 2 ^ 63"
  shows "ParseInt (FormatInt v) = Some v"
proof (cases "v < 0")
  case True
  obtain d cs where d: "d < 10" "format_nat (nat (- v)) = digit_char d # cs"
    using format_nat_head by blast
  have "nat (- v) \<le> 2 ^ 63"
    using assms(1) by (simp add: nat_le_iff)
  then show ?thesis
    using True d parse_format_nat [of "nat (- v)"] by (simp add: ParseInt_def FormatInt_def)
next
  case False
  obtain d cs where d: "d < 10" "format_nat (nat v) = digit_char d # cs"
    using format_nat_head by blast
  have "nat v < 2 ^ 63"
    using assms(2) False by (simp add: nat_less_iff)
  then show ?thesis
    using False d digit_char_sign [OF d(1)] parse_format_nat [of "nat v"] by (simp add: ParseInt_def FormatInt_def)
qed

section \<open>Identifier counters and tables\<close>

declare map_of_eq_Some_iff [simp del]

lemma map_of_filter_value:
  "distinct (keys al) \<Longrightarrow> map_of (filter (\<lambda>(k, v). v \<noteq> x) al) d = (if map_of al d = Some x then None else map_of al d)"
  by (induction al) (auto simp: map_of_eq_None_iff image_iff)

lemma length_filter_filter: "length (filter P (filter Q xs)) \<le> length (filter P xs)"
  by (induction xs) auto

lemma filter_update_new: "map_of al k = None \<Longrightarrow> filter P (AList.update k v al) = filter P al @ (if P (k, v) then [(k, v)] else [])"
  by (simp add: update_new_append)

lemma length_filter_delete: "length (filter P (AList.delete k al)) \<le> length (filter P al)"
  by (induction al) auto

lemma next_id: "uint (x :: u32) + 1 < 2 ^ 32 \<Longrightarrow> x < x + 1"
  by (simp add: word_less_def uint_word_ariths)

end
