(* ===== verification/Wire.thy ===== *)
theory Wire
  imports GoText "HOL-Library.Word"
begin

text \<open>
  Bytes on the wire (\<open>pkg/ro/packet\<close>): little-endian words at fixed offsets of a frame, as
  \<open>encoding/binary\<close> reads and writes them, NUL-padded name fields, and the packed three-byte map
  position of \<open>coords.go\<close>. A frame is written by filling a zeroed buffer: \<open>fill n ws\<close> applies the
  writes \<open>ws\<close>, each an offset with its bytes, in the order of the code. Writing to a socket cannot fail
  here: the encoders write to memory.
\<close>

unbundle bit_operations_syntax

type_synonym byte = "8 word"
type_synonym frame = "byte list"
type_synonym wire_write = "nat \<times> byte list"

text \<open>A fixed array of a Go struct is a list; \<open>concat\<close> of its elements is what the loop over it writes.\<close>

lemma length_concat_map: "(\<And>x. length (f x) = k) \<Longrightarrow> length (concat (map f xs)) = k * length xs"
  by (induction xs) simp_all

section \<open>Little-endian words\<close>

definition le16 :: "16 word \<Rightarrow> byte list" where
  "le16 w = [ucast w, ucast (drop_bit 8 w)]"

definition le32 :: "32 word \<Rightarrow> byte list" where
  "le32 w = [ucast w, ucast (drop_bit 8 w), ucast (drop_bit 16 w), ucast (drop_bit 24 w)]"

definition le64 :: "64 word \<Rightarrow> byte list" where
  "le64 w = le32 (ucast w) @ le32 (ucast (drop_bit 32 w))"

definition dec16 :: "byte list \<Rightarrow> 16 word" where
  "dec16 bs = ucast (bs ! 0) OR push_bit 8 (ucast (bs ! 1))"

definition dec32 :: "byte list \<Rightarrow> 32 word" where
  "dec32 bs = ucast (bs ! 0) OR push_bit 8 (ucast (bs ! 1)) OR push_bit 16 (ucast (bs ! 2)) OR push_bit 24 (ucast (bs ! 3))"

definition dec64 :: "byte list \<Rightarrow> 64 word" where
  "dec64 bs = ucast (dec32 bs) OR push_bit 32 (ucast (dec32 (drop 4 bs)))"

lemma length_le [simp]: "length (le16 v) = 2" "length (le32 x) = 4" "length (le64 y) = 8"
  by (simp_all add: le16_def le32_def le64_def)

lemma dec_le16 [simp]: "dec16 (le16 w) = w"
  by (rule bit_word_eqI) (auto simp: dec16_def le16_def bit_simps)

lemma dec_le32 [simp]: "dec32 (le32 w) = w"
proof (rule bit_word_eqI)
  fix n
  assume "n < LENGTH(32)"
  then consider "n < 8" | "8 \<le> n" "n < 16" | "16 \<le> n" "n < 24" | "24 \<le> n" "n < 32"
    by fastforce
  then show "bit (dec32 (le32 w)) n = bit w n"
    by cases (auto simp: dec32_def le32_def bit_simps)
qed

lemma dec_le64 [simp]: "dec64 (le64 w) = w"
proof -
  have "dec32 (le64 w) = ucast w"
    using dec_le32 [of "ucast w"] by (simp add: le64_def dec32_def le32_def)
  then show ?thesis
    by (intro bit_word_eqI) (auto simp: dec64_def le64_def le32_def [symmetric] bit_simps)
qed

section \<open>Frames\<close>

definition slice :: "nat \<Rightarrow> nat \<Rightarrow> frame \<Rightarrow> byte list" where
  "slice k n f = take n (drop k f)"

definition u8_at :: "nat \<Rightarrow> frame \<Rightarrow> byte" where
  "u8_at k f = f ! k"

definition u16_at :: "nat \<Rightarrow> frame \<Rightarrow> 16 word" where
  "u16_at k f = dec16 (slice k 2 f)"

definition u32_at :: "nat \<Rightarrow> frame \<Rightarrow> 32 word" where
  "u32_at k f = dec32 (slice k 4 f)"

definition u64_at :: "nat \<Rightarrow> frame \<Rightarrow> 64 word" where
  "u64_at k f = dec64 (slice k 8 f)"

definition zeros :: "nat \<Rightarrow> frame" where
  "zeros n = replicate n 0"

definition put8 :: "nat \<Rightarrow> byte \<Rightarrow> wire_write" where "put8 k b = (k, [b])"
definition put16 :: "nat \<Rightarrow> 16 word \<Rightarrow> wire_write" where "put16 k w = (k, le16 w)"
definition put32 :: "nat \<Rightarrow> 32 word \<Rightarrow> wire_write" where "put32 k w = (k, le32 w)"
definition put64 :: "nat \<Rightarrow> 64 word \<Rightarrow> wire_write" where "put64 k w = (k, le64 w)"

definition put_bytes :: "wire_write \<Rightarrow> frame \<Rightarrow> frame" where
  "put_bytes w f = (case w of (k, bs) \<Rightarrow> take k f @ bs @ drop (k + length bs) f)"

definition fill :: "nat \<Rightarrow> wire_write list \<Rightarrow> frame" where
  "fill n ws = fold put_bytes ws (zeros n)"

text \<open>The writes follow each other inside the buffer; \<open>exact\<close> is when they leave no byte out.\<close>

fun ascending :: "nat \<Rightarrow> nat \<Rightarrow> wire_write list \<Rightarrow> bool" where
  "ascending lo n [] \<longleftrightarrow> lo \<le> n"
| "ascending lo n ((k, bs) # ws) \<longleftrightarrow> lo \<le> k \<and> ascending (k + length bs) n ws"

fun exact :: "nat \<Rightarrow> nat \<Rightarrow> wire_write list \<Rightarrow> bool" where
  "exact lo n [] \<longleftrightarrow> lo = n"
| "exact lo n ((k, bs) # ws) \<longleftrightarrow> lo = k \<and> exact (k + length bs) n ws"

lemmas puts = put8_def put16_def put32_def put64_def

lemma ascending_le: "ascending lo n ws \<Longrightarrow> lo \<le> n"
  by (induction lo n ws rule: ascending.induct) auto

lemma ascending_weaken: "ascending lo n ws \<Longrightarrow> lo' \<le> lo \<Longrightarrow> ascending lo' n ws"
  by (cases ws) auto

lemma exact_ascending: "exact lo n ws \<Longrightarrow> ascending lo n ws"
  by (induction lo n ws rule: exact.induct) auto

lemma length_put_bytes: "k + length bs \<le> length f \<Longrightarrow> length (put_bytes (k, bs) f) = length f"
  by (simp add: put_bytes_def)

lemma length_fold_put: "ascending lo (length f) ws \<Longrightarrow> length (fold put_bytes ws f) = length f"
proof (induction ws arbitrary: lo f)
  case (Cons w ws)
  obtain k bs where w: "w = (k, bs)"
    by (cases w)
  then have a: "ascending (k + length bs) (length f) ws"
    using Cons.prems by simp
  then show ?case
    using Cons.IH [of "k + length bs" "put_bytes (k, bs) f"] ascending_le [OF a] w by (simp add: length_put_bytes)
qed simp

lemma length_fill: "ascending 0 n ws \<Longrightarrow> length (fill n ws) = n"
  using length_fold_put [of 0 "zeros n" ws] by (simp add: fill_def zeros_def)

lemma slice_put_below: "k + n \<le> j \<Longrightarrow> j + length bs \<le> length f \<Longrightarrow> slice k n (put_bytes (j, bs) f) = slice k n f"
proof -
  assume a: "k + n \<le> j" "j + length bs \<le> length f"
  then have "drop k (take j f @ bs @ drop (j + length bs) f) = take (j - k) (drop k f) @ bs @ drop (j + length bs) f"
    by (simp add: drop_take)
  moreover have "length (take (j - k) (drop k f)) = j - k"
    using a by simp
  ultimately show ?thesis
    using a by (simp add: slice_def put_bytes_def min_absorb1)
qed

lemma slice_put_same: "k + length bs \<le> length f \<Longrightarrow> slice k (length bs) (put_bytes (k, bs) f) = bs"
  by (simp add: slice_def put_bytes_def)

lemma slice_fold_below:
  "ascending lo (length f) ws \<Longrightarrow> k + n \<le> lo \<Longrightarrow> slice k n (fold put_bytes ws f) = slice k n f"
proof (induction ws arbitrary: lo f)
  case (Cons w ws)
  obtain j bs where w: "w = (j, bs)"
    by (cases w)
  then have a: "ascending (j + length bs) (length f) ws" "lo \<le> j"
    using Cons.prems by simp_all
  have l: "length (put_bytes (j, bs) f) = length f"
    using ascending_le [OF a(1)] by (simp add: length_put_bytes)
  show ?case
    using Cons.IH [of "j + length bs" "put_bytes (j, bs) f"] a l Cons.prems(2) ascending_le [OF a(1)] w
    by (simp add: slice_put_below)
qed simp

lemma slice_fold:
  "ascending lo (length f) ws \<Longrightarrow> map_of ws k = Some bs \<Longrightarrow> slice k (length bs) (fold put_bytes ws f) = bs"
proof (induction ws arbitrary: lo f)
  case (Cons w ws)
  obtain j cs where w: "w = (j, cs)"
    by (cases w)
  then have a: "ascending (j + length cs) (length f) ws" "lo \<le> j"
    using Cons.prems by simp_all
  have l: "length (put_bytes (j, cs) f) = length f"
    using ascending_le [OF a(1)] by (simp add: length_put_bytes)
  show ?case
  proof (cases "k = j")
    case True
    then have "bs = cs"
      using Cons.prems(2) w by simp
    then show ?thesis
      using slice_fold_below [of "j + length cs" "put_bytes (j, cs) f" ws j "length cs"] a l True w ascending_le [OF a(1)]
      by (simp add: slice_put_same)
  next
    case False
    then show ?thesis
      using Cons.IH [of "j + length cs" "put_bytes (j, cs) f"] Cons.prems(2) a l w by simp
  qed
qed simp

lemma slice_fill:
  "ascending 0 n ws \<Longrightarrow> map_of ws k \<noteq> None \<Longrightarrow> length (the (map_of ws k)) = m \<Longrightarrow> slice k m (fill n ws) = the (map_of ws k)"
  using slice_fold [of 0 "zeros n" ws k] by (auto simp: fill_def zeros_def)

lemma u8_at_slice: "k < length f \<Longrightarrow> u8_at k f = hd (slice k 1 f)"
  by (simp add: u8_at_def slice_def hd_drop_conv_nth take_Suc hd_conv_nth)

lemma u8_at_fill:
  "ascending 0 n ws \<Longrightarrow> map_of ws k \<noteq> None \<Longrightarrow> length (the (map_of ws k)) = 1 \<Longrightarrow> k < n \<Longrightarrow> u8_at k (fill n ws) = hd (the (map_of ws k))"
  by (simp add: u8_at_slice length_fill slice_fill)

lemmas at_fill = u16_at_def u32_at_def u64_at_def u8_at_fill slice_fill length_fill puts


section \<open>Text fields\<close>

definition bytes_of :: "string \<Rightarrow> byte list" where
  "bytes_of s = map of_char s"

definition string_of :: "byte list \<Rightarrow> string" where
  "string_of bs = map (\<lambda>b. char_of (unat b)) bs"

definition until_nul :: "byte list \<Rightarrow> byte list" where
  "until_nul bs = takeWhile (\<lambda>b. b \<noteq> 0) bs"

text \<open>\<open>bytes.TrimRight(bs, "\x00")\<close>.\<close>

definition trim_nul :: "byte list \<Rightarrow> byte list" where
  "trim_nul bs = rev (dropWhile (\<lambda>b. b = 0) (rev bs))"

text \<open>A field of a zeroed buffer after \<open>copy\<close>: as much of the text as fits, the rest still zero.\<close>

definition pad :: "nat \<Rightarrow> byte list \<Rightarrow> byte list" where
  "pad n bs = take n bs @ zeros (n - length bs)"

definition put_text :: "nat \<Rightarrow> nat \<Rightarrow> string \<Rightarrow> wire_write" where
  "put_text k n s = (k, pad n (bytes_of s))"

text \<open>\<open>writeNameField\<close> and \<open>writeFixedString\<close> (whose callers validate the length first).\<close>

definition writeNameField :: "nat \<Rightarrow> string \<Rightarrow> wire_write" where
  "writeNameField off name = put_text off 24 name"

definition writeFixedString :: "nat \<Rightarrow> nat \<Rightarrow> string \<Rightarrow> wire_write" where
  "writeFixedString off n src = put_text off n src"

definition readNameField :: "frame \<Rightarrow> nat \<Rightarrow> nat \<Rightarrow> string" where
  "readNameField buf off width =
     (if off \<ge> length buf then []
      else string_of (until_nul (slice off (min (off + width) (length buf) - off) buf)))"

text \<open>\<open>cstr\<close>: the text up to the first NUL, or all of it.\<close>

definition cstr :: "byte list \<Rightarrow> string" where
  "cstr bs = string_of (until_nul bs)"

text \<open>A text that survives a field of \<open>n\<close> bytes.\<close>

definition fits :: "nat \<Rightarrow> string \<Rightarrow> bool" where
  "fits n s \<longleftrightarrow> length s \<le> n \<and> CHR 0x00 \<notin> set s"

lemmas text_puts = put_text_def writeNameField_def writeFixedString_def

lemma length_bytes_of [simp]: "length (bytes_of s) = length s"
  by (simp add: bytes_of_def)

lemma length_pad [simp]: "length (pad n bs) = n"
  by (simp add: pad_def zeros_def)

lemma unat_of_char_byte: "unat (of_char c :: byte) = of_char c"
proof -
  have "(of_char c :: byte) = word_of_nat (of_char c)"
    by (rule of_nat_of_char [symmetric])
  then show ?thesis
    using nat_of_char_less_256 [of c] by (simp add: unat_of_nat take_bit_eq_mod del: of_nat_of_char)
qed

lemma string_of_bytes_of [simp]: "string_of (bytes_of s) = s"
  by (simp add: string_of_def bytes_of_def comp_def unat_of_char_byte)

lemma of_char_byte_eq_0: "(of_char c :: byte) = 0 \<longleftrightarrow> c = CHR 0x00"
proof
  assume "(of_char c :: byte) = 0"
  then have "(of_char c :: nat) = 0"
    using unat_of_char_byte [of c] by simp
  then have "(of_char c :: nat) = of_char (CHR 0x00)"
    by simp
  then show "c = CHR 0x00"
    by (simp only: of_char_eq_iff)
qed (simp add: of_char_def)

lemma until_nul_text: "CHR 0x00 \<notin> set s \<Longrightarrow> until_nul (bytes_of s @ zeros n) = bytes_of s"
  by (induction s) (auto simp: until_nul_def bytes_of_def zeros_def of_char_byte_eq_0 takeWhile_replicate)

lemma trim_nul_text: "CHR 0x00 \<notin> set s \<Longrightarrow> trim_nul (bytes_of s @ zeros n) = bytes_of s"
proof -
  assume s: "CHR 0x00 \<notin> set s"
  have "dropWhile (\<lambda>b. b = 0) (zeros n @ rev (bytes_of s)) = dropWhile (\<lambda>b. b = 0) (rev (bytes_of s))"
    by (simp add: zeros_def dropWhile_append)
  also have "\<dots> = rev (bytes_of s)"
  proof (cases s rule: rev_cases)
    case (snoc t c)
    then show ?thesis
      using s by (auto simp: bytes_of_def of_char_byte_eq_0)
  qed (simp add: bytes_of_def)
  finally show ?thesis
    by (simp add: trim_nul_def zeros_def)
qed

lemma pad_text: "fits n s \<Longrightarrow> pad n (bytes_of s) = bytes_of s @ zeros (n - length s)"
  by (simp add: pad_def fits_def)

lemma until_nul_pad [simp]: "fits n s \<Longrightarrow> string_of (until_nul (pad n (bytes_of s))) = s"
  by (simp add: pad_text until_nul_text fits_def)

lemma trim_nul_pad [simp]: "fits n s \<Longrightarrow> string_of (trim_nul (pad n (bytes_of s))) = s"
  by (simp add: pad_text trim_nul_text fits_def)

lemma readNameField_slice: "readNameField buf off width = string_of (until_nul (slice off width buf))"
proof (cases "off < length buf")
  case True
  then have "slice off (min (off + width) (length buf) - off) buf = slice off width buf"
    by (auto simp: slice_def min_def not_le)
  with True show ?thesis
    by (simp add: readNameField_def)
qed (simp add: readNameField_def slice_def until_nul_def string_of_def)

section \<open>The packed position\<close>

text \<open>
  Two ten-bit coordinates and a four-bit direction in three bytes (\<open>coords.go\<close>). Go's \<open>int16\<close>
  coordinates are reinterpreted as unsigned words before they are packed, so they are words here.
\<close>

definition encodePos :: "u16 \<Rightarrow> u16 \<Rightarrow> byte \<Rightarrow> byte list" where
  "encodePos x y dir =
     [ucast (drop_bit 2 x),
      ucast (push_bit 6 x OR (drop_bit 4 y AND 0x3f)),
      ucast (push_bit 4 y OR ucast (dir AND 0x0f))]"

definition decodePos :: "byte list \<Rightarrow> u16 \<times> u16 \<times> byte" where
  "decodePos src =
     (push_bit 2 (ucast (src ! 0)) OR drop_bit 6 (ucast (src ! 1)),
      push_bit 4 (ucast (src ! 1 AND 0x3f)) OR drop_bit 4 (ucast (src ! 2)),
      src ! 2 AND 0x0f)"

definition put_pos :: "nat \<Rightarrow> u16 \<Rightarrow> u16 \<Rightarrow> byte \<Rightarrow> wire_write" where
  "put_pos k x y dir = (k, encodePos x y dir)"

lemma length_encodePos [simp]: "length (encodePos x y d) = 3"
  by (simp add: encodePos_def)

lemma low_mask_bits: "(0x3f :: 'a :: len word) = mask 6" "(0x3ff :: 'a word) = mask 10" "(0x0f :: 'a word) = mask 4"
  by (simp_all add: mask_eq_exp_minus_1)

lemma decode_encodePos: "decodePos (encodePos x y d) = (x AND 0x3ff, y AND 0x3ff, d AND 0xf)"
proof -
  have [simp]: "Suc (Suc (n - 2)) = n" if "2 \<le> n" for n
    using that by simp
  have "push_bit 2 (ucast (encodePos x y d ! 0)) OR drop_bit 6 (ucast (encodePos x y d ! 1)) = x AND mask 10"
    by (rule bit_word_eqI) (auto simp: encodePos_def low_mask_bits bit_simps)
  moreover have "push_bit 4 (ucast (encodePos x y d ! 1 AND mask 6)) OR drop_bit 4 (ucast (encodePos x y d ! 2)) = y AND mask 10"
    by (rule bit_word_eqI) (auto simp: encodePos_def low_mask_bits bit_simps)
  moreover have "encodePos x y d ! 2 AND mask 4 = d AND mask 4"
    by (rule bit_word_eqI) (auto simp: encodePos_def low_mask_bits bit_simps)
  ultimately show ?thesis
    by (simp add: decodePos_def low_mask_bits)
qed

section \<open>Decoding and encoding errors\<close>

text \<open>
  Every \<open>fmt.Errorf\<close> of the codecs is a value of this type; \<open>OutOfRange\<close> is the run-time panic of a
  slice expression past the capacity.
\<close>

datatype packet_error =
    ShortFrame | WrongSize | UnexpectedCmd | BadLength | EmptyText | Misaligned | MessageTooLong | OutOfRange
  | ErrCALoginUsernameTooLong | ErrCALoginPasswordTooLong | ErrLastLoginTooLong | ErrTokenTooLong
  | ErrCharServerNameTooLong | ErrUnblockTimeTooLong | TooManyCharServers | ErrCharNameTooLong
  | ErrMapNameTooLong | ErrDomainTooLong | ErrExtensionTooLong | ErrPacketTooLong

text \<open>
  The two guards every parser opens with: at least (or exactly) \<open>n\<close> bytes, then the command word.
\<close>

definition of_frame :: "nat \<Rightarrow> u16 \<Rightarrow> frame \<Rightarrow> 'a \<Rightarrow> packet_error + 'a" where
  "of_frame n cmd f x =
     (if length f < n then Inl ShortFrame
      else if u16_at 0 f \<noteq> cmd then Inl UnexpectedCmd
      else Inr x)"

definition of_exact :: "nat \<Rightarrow> u16 \<Rightarrow> frame \<Rightarrow> 'a \<Rightarrow> packet_error + 'a" where
  "of_exact n cmd f x =
     (if length f \<noteq> n then Inl WrongSize
      else if u16_at 0 f \<noteq> cmd then Inl UnexpectedCmd
      else Inr x)"

text \<open>A length-prefixed frame around a body; the first form refuses what the length field cannot hold,
  the second wraps.\<close>

definition wrapped_frame :: "u16 \<Rightarrow> byte list \<Rightarrow> frame" where
  "wrapped_frame cmd body = le16 cmd @ le16 (of_nat (4 + length body)) @ body"

definition var_frame :: "u16 \<Rightarrow> byte list \<Rightarrow> packet_error + frame" where
  "var_frame cmd body = (if 4 + length body > 0xffff then Inl MessageTooLong else Inr (wrapped_frame cmd body))"

definition wire_flag :: "bool \<Rightarrow> byte" where "wire_flag b = (if b then 1 else 0)"

section \<open>What a reader of the stream sees\<close>

text \<open>A fixed frame carries its command and has the given length; a sized one carries its own length.\<close>

definition framed :: "u16 \<Rightarrow> nat \<Rightarrow> frame \<Rightarrow> bool" where
  "framed cmd n f \<longleftrightarrow> length f = n \<and> 2 \<le> n \<and> u16_at 0 f = cmd"

definition sized :: "u16 \<Rightarrow> frame \<Rightarrow> bool" where
  "sized cmd f \<longleftrightarrow> 4 \<le> length f \<and> u16_at 0 f = cmd \<and> unat (u16_at 2 f) = length f"

lemmas wire_puts = puts text_puts put_pos_def

lemmas wire_reads = u16_at_def u32_at_def u64_at_def u8_at_fill slice_fill length_fill readNameField_slice cstr_def

named_theorems framings \<open>the frames with a fixed size and their commands\<close>

definition within :: "nat \<Rightarrow> nat \<Rightarrow> wire_write list \<Rightarrow> bool" where
  "within lo n ws \<longleftrightarrow> list_all (\<lambda>w. lo \<le> fst w \<and> fst w + length (snd w) \<le> n) ws"

lemma within_simps [simp]:
  "within lo n []"
  "within lo n ((k, bs) # ws) \<longleftrightarrow> lo \<le> k \<and> k + length bs \<le> n \<and> within lo n ws"
  by (simp_all add: within_def)

lemma fold_within:
  "within lo (length f) ws \<Longrightarrow> k + m \<le> lo \<Longrightarrow>
   length (fold put_bytes ws f) = length f \<and> slice k m (fold put_bytes ws f) = slice k m f"
proof (induction ws arbitrary: f)
  case (Cons w ws)
  then show ?case
    by (cases w) (simp add: length_put_bytes slice_put_below)
qed simp

lemma framed_fill:
  assumes "within 2 n ws" and "2 \<le> n"
  shows "framed cmd n (fill n (put16 0 cmd # ws))"
proof -
  let ?f = "put_bytes (0, le16 cmd) (zeros n)"
  have l: "length ?f = n"
    using assms(2) by (simp add: length_put_bytes zeros_def)
  moreover have "slice 0 2 ?f = le16 cmd"
    using slice_put_same [of 0 "le16 cmd" "zeros n"] assms(2) by (simp add: zeros_def)
  ultimately show ?thesis
    using fold_within [of 2 ?f ws 0 2] assms by (simp add: framed_def fill_def put16_def u16_at_def)
qed

lemma u16_at_wrapped: "u16_at 0 (wrapped_frame cmd body) = cmd" "u16_at 2 (wrapped_frame cmd body) = of_nat (4 + length body)"
  by (simp_all add: u16_at_def slice_def wrapped_frame_def)

lemma length_wrapped [simp]: "length (wrapped_frame cmd body) = 4 + length body"
  by (simp add: wrapped_frame_def)

lemma sized_wrapped: "4 + length body < 65536 \<Longrightarrow> sized cmd (wrapped_frame cmd body)"
  by (simp only: sized_def u16_at_wrapped length_wrapped) (simp add: unat_of_nat take_bit_eq_mod del: of_nat_add)

lemma sized_var_frame: "var_frame cmd body = Inr f \<Longrightarrow> sized cmd f"
  by (auto simp: var_frame_def sized_wrapped split: if_splits)

lemma drop_wrapped: "drop 4 (wrapped_frame cmd body) = body"
  by (simp add: wrapped_frame_def le16_def)

text \<open>The same reads when more bytes follow the frame in the buffer.\<close>

lemma u16_at_append: "k + 2 \<le> length f \<Longrightarrow> u16_at k (f @ more) = u16_at k f"
  by (simp add: u16_at_def slice_def)

lemma slice_append: "k + n \<le> length f \<Longrightarrow> slice k n (f @ more) = slice k n f"
  by (simp add: slice_def)

lemma slice_wrapped: "4 \<le> k \<Longrightarrow> slice k n (wrapped_frame cmd body) = slice (k - 4) n body"
  by (auto simp: slice_def wrapped_frame_def le16_def drop_Cons split: nat.split)

lemma slice_0_length [simp]: "slice 0 (length bs) (bs @ more) = bs"
  by (simp add: slice_def)

lemma slice_skip: "k = length xs \<Longrightarrow> slice k n (xs @ ys) = take n ys"
  by (simp add: slice_def)

lemma cstr_text: "CHR 0x00 \<notin> set s \<Longrightarrow> cstr (bytes_of s @ 0 # more) = s"
proof -
  assume "CHR 0x00 \<notin> set s"
  then have "takeWhile (\<lambda>b. b \<noteq> 0) (bytes_of s @ 0 # more) = bytes_of s"
    by (subst takeWhile_append2) (auto simp: bytes_of_def of_char_byte_eq_0)
  then show ?thesis
    by (simp add: cstr_def until_nul_def)
qed

lemma cstr_pad: "fits n s \<Longrightarrow> cstr (pad n (bytes_of s)) = s"
  by (simp add: cstr_def)

lemma var_frame_Inr: "var_frame cmd body = Inr f \<Longrightarrow> f = wrapped_frame cmd body \<and> 4 + length body < 65536"
  by (auto simp: var_frame_def split: if_splits)

lemma wrapped_length_field: "4 + length body < 65536 \<Longrightarrow> unat (u16_at 2 (wrapped_frame cmd body)) = 4 + length body"
  using sized_wrapped [of body cmd] by (simp add: sized_def)

lemma drop_wrapped_add: "4 \<le> k \<Longrightarrow> drop k (wrapped_frame cmd body) = drop (k - 4) body"
  by (metis drop_drop drop_wrapped le_add_diff_inverse2)

lemma slice_slice: "k + m \<le> n \<Longrightarrow> slice k m (slice j n f) = slice (j + k) m f"
  by (simp add: slice_def drop_take min_def add.commute)

lemma at_slice:
  "k + 2 \<le> n \<Longrightarrow> u16_at k (slice j n f) = u16_at (j + k) f"
  "k + 4 \<le> n \<Longrightarrow> u32_at k (slice j n f) = u32_at (j + k) f"
  by (simp_all add: u16_at_def u32_at_def slice_slice)

lemma at_wrapped:
  "4 \<le> k \<Longrightarrow> u16_at k (wrapped_frame cmd body) = u16_at (k - 4) body"
  "4 \<le> k \<Longrightarrow> u32_at k (wrapped_frame cmd body) = u32_at (k - 4) body"
  by (simp_all add: u16_at_def u32_at_def slice_wrapped)

lemma nth_chunk:
  assumes "\<And>x. length (enc x) = k" and "i < length xs"
  shows "slice (i * k) k (concat (map enc xs)) = enc (xs ! i)"
  using assms(2)
proof (induction xs arbitrary: i)
  case (Cons x xs)
  then show ?case
    using assms(1) [of x] by (cases i) (simp_all add: slice_def drop_append)
qed simp

lemma map_chunks:
  assumes "\<And>x. length (enc x) = k" and "\<And>x. dec (enc x) = x"
  shows "map (\<lambda>i. dec (slice (i * k) k (concat (map enc xs)))) [0..<length xs] = xs"
  by (rule nth_equalityI) (simp_all add: nth_chunk [OF assms(1)] assms(2))

lemma dec64_shifted: "dec64 (drop 1 (le64 v) @ [0]) = drop_bit 8 v"
proof (rule bit_word_eqI)
  fix n
  assume "n < LENGTH(64)"
  then consider "n < 8" | "8 \<le> n" "n < 16" | "16 \<le> n" "n < 24" | "24 \<le> n" "n < 32"
    | "32 \<le> n" "n < 40" | "40 \<le> n" "n < 48" | "48 \<le> n" "n < 56" | "56 \<le> n" "n < 64"
    by fastforce
  then show "bit (dec64 (drop 1 (le64 v) @ [0])) n = bit (drop_bit 8 v) n"
    by cases (auto simp: dec64_def dec32_def le64_def le32_def bit_simps dest: bit_imp_le_length)
qed

end
