(* ===== verification/Account.thy ===== *)
theory Account
  imports Wire
begin

text \<open>
  The account bounded context: the \<open>Account\<close> row and its ports (\<open>domain/account.go\<close>, \<open>domain/auth.go\<close>),
  the in-memory repository (\<open>infra/memory.go\<close>) and \<open>AuthService\<close> (\<open>app/service.go\<close>, \<open>app/md5.go\<close>).
  What \<open>Authenticate\<close> needs of the port is the locale \<open>account_store\<close>, interpreted on the in-memory
  repository and on any larger state that holds it.
\<close>

unbundle bit_operations_syntax

section \<open>Rows and the port\<close>

text \<open>Times are Unix seconds; a birthdate is year, month and day.\<close>

record account =
  ac_ID :: u32
  ac_UserID :: string
  ac_UserPass :: string
  ac_Sex :: string
  ac_Email :: string
  ac_GroupID :: "8 word"
  ac_State :: u32
  ac_UnbanTime :: u32
  ac_ExpirationTime :: u32
  ac_LoginCount :: u32
  ac_LastLogin :: "int option"
  ac_LastIP :: string
  ac_Birthdate :: "(int \<times> int \<times> int) option"
  ac_CharacterSlots :: u8
  ac_Pincode :: string
  ac_VipTime :: u32

definition zero_account :: account where
  "zero_account = \<lparr>ac_ID = 0, ac_UserID = [], ac_UserPass = [], ac_Sex = [], ac_Email = [], ac_GroupID = 0,
     ac_State = 0, ac_UnbanTime = 0, ac_ExpirationTime = 0, ac_LoginCount = 0, ac_LastLogin = None,
     ac_LastIP = [], ac_Birthdate = None, ac_CharacterSlots = 0, ac_Pincode = [], ac_VipTime = 0\<rparr>"

definition IsBanned :: "account \<Rightarrow> bool" where
  "IsBanned a \<longleftrightarrow> ac_State a \<noteq> 0 \<or> ac_UnbanTime a \<noteq> 0"

text \<open>The clock reading of \<open>RecordLogin\<close> is its first argument.\<close>

record 's account_port =
  ap_FindByUserID :: "string \<Rightarrow> 's \<Rightarrow> (account, 's) out"
  ap_FindByAccountID :: "u32 \<Rightarrow> 's \<Rightarrow> (account, 's) out"
  ap_RecordLogin :: "int \<Rightarrow> u32 \<Rightarrow> string \<Rightarrow> 's \<Rightarrow> (unit, 's) out"

section \<open>The in-memory repository\<close>

record account_repo =
  ar_byID :: "u32 \<rightharpoonup> account"
  ar_byUID :: "string \<rightharpoonup> u32"

definition seed_account :: "account \<Rightarrow> account_repo \<Rightarrow> account_repo" where
  "seed_account a r = r\<lparr>ar_byID := (ar_byID r)(ac_ID a \<mapsto> a), ar_byUID := (ar_byUID r)(ac_UserID a \<mapsto> ac_ID a)\<rparr>"

definition NewMemoryAccountRepository :: "account list \<Rightarrow> account_repo" where
  "NewMemoryAccountRepository accounts = fold seed_account accounts \<lparr>ar_byID = Map.empty, ar_byUID = Map.empty\<rparr>"

text \<open>An index entry without a row reads Go's zero row.\<close>

definition ar_FindByUserID :: "string \<Rightarrow> account_repo \<Rightarrow> (account, account_repo) out" where
  "ar_FindByUserID userID r =
     (case ar_byUID r userID of
        None \<Rightarrow> (Inl ErrAccountNotFound, r)
      | Some i \<Rightarrow> (Inr (case ar_byID r i of None \<Rightarrow> zero_account | Some a \<Rightarrow> a), r))"

definition ar_FindByAccountID :: "u32 \<Rightarrow> account_repo \<Rightarrow> (account, account_repo) out" where
  "ar_FindByAccountID i r =
     (case ar_byID r i of None \<Rightarrow> (Inl ErrAccountNotFound, r) | Some a \<Rightarrow> (Inr a, r))"

definition stamp_login :: "int \<Rightarrow> string \<Rightarrow> account \<Rightarrow> account" where
  "stamp_login now ip a = a\<lparr>ac_LoginCount := ac_LoginCount a + 1, ac_LastLogin := Some now, ac_LastIP := ip\<rparr>"

definition ar_RecordLogin :: "int \<Rightarrow> u32 \<Rightarrow> string \<Rightarrow> account_repo \<Rightarrow> (unit, account_repo) out" where
  "ar_RecordLogin now i ip r =
     (case ar_byID r i of
        None \<Rightarrow> (Inl ErrAccountNotFound, r)
      | Some a \<Rightarrow> (Inr (), r\<lparr>ar_byID := (ar_byID r)(i \<mapsto> stamp_login now ip a)\<rparr>))"

definition mem_account_port :: "account_repo account_port" where
  "mem_account_port = \<lparr>ap_FindByUserID = ar_FindByUserID, ap_FindByAccountID = ar_FindByAccountID,
     ap_RecordLogin = ar_RecordLogin\<rparr>"

section \<open>MD5\<close>

text \<open>The digest of \<open>crypto/md5\<close> (RFC 1321), which the legacy password column is written in.\<close>

definition md5_table :: "32 word list" where
  "md5_table =
    [0xd76aa478, 0xe8c7b756, 0x242070db, 0xc1bdceee, 0xf57c0faf, 0x4787c62a, 0xa8304613, 0xfd469501,
     0x698098d8, 0x8b44f7af, 0xffff5bb1, 0x895cd7be, 0x6b901122, 0xfd987193, 0xa679438e, 0x49b40821,
     0xf61e2562, 0xc040b340, 0x265e5a51, 0xe9b6c7aa, 0xd62f105d, 0x02441453, 0xd8a1e681, 0xe7d3fbc8,
     0x21e1cde6, 0xc33707d6, 0xf4d50d87, 0x455a14ed, 0xa9e3e905, 0xfcefa3f8, 0x676f02d9, 0x8d2a4c8a,
     0xfffa3942, 0x8771f681, 0x6d9d6122, 0xfde5380c, 0xa4beea44, 0x4bdecfa9, 0xf6bb4b60, 0xbebfbc70,
     0x289b7ec6, 0xeaa127fa, 0xd4ef3085, 0x04881d05, 0xd9d4d039, 0xe6db99e5, 0x1fa27cf8, 0xc4ac5665,
     0xf4292244, 0x432aff97, 0xab9423a7, 0xfc93a039, 0x655b59c3, 0x8f0ccc92, 0xffeff47d, 0x85845dd1,
     0x6fa87e4f, 0xfe2ce6e0, 0xa3014314, 0x4e0811a1, 0xf7537e82, 0xbd3af235, 0x2ad7d2bb, 0xeb86d391]"

definition md5_shifts :: "nat list" where
  "md5_shifts = concat (replicate 4 [7, 12, 17, 22]) @ concat (replicate 4 [5, 9, 14, 20]) @
     concat (replicate 4 [4, 11, 16, 23]) @ concat (replicate 4 [6, 10, 15, 21])"

type_synonym md5_state = "32 word \<times> 32 word \<times> 32 word \<times> 32 word"

text \<open>One of the 64 operations: round function, message word, rotation.\<close>

definition md5_op :: "32 word list \<Rightarrow> nat \<times> nat \<times> 32 word \<Rightarrow> md5_state \<Rightarrow> md5_state" where
  "md5_op m = (\<lambda>(i, s, k) (a, b, c, d).
     let (f, g) =
           (if i < 16 then ((b AND c) OR (NOT b AND d), i)
            else if i < 32 then ((d AND b) OR (NOT d AND c), (5 * i + 1) mod 16)
            else if i < 48 then (b XOR c XOR d, (3 * i + 5) mod 16)
            else (c XOR (b OR NOT d), (7 * i) mod 16))
     in (d, b + word_rotl s (a + f + k + m ! g), b, c))"

definition md5_block :: "byte list \<Rightarrow> md5_state \<Rightarrow> md5_state" where
  "md5_block bs = (\<lambda>(a, b, c, d).
     case fold (md5_op (map (\<lambda>j. u32_at (4 * j) bs) [0..<16])) (zip [0..<64] (zip md5_shifts md5_table)) (a, b, c, d)
     of (a', b', c', d') \<Rightarrow> (a + a', b + b', c + c', d + d'))"

definition md5_pad :: "byte list \<Rightarrow> byte list" where
  "md5_pad bs = bs @ [0x80] @ replicate ((119 - length bs mod 64) mod 64) 0 @ le64 (of_nat (8 * length bs))"

definition md5sum :: "byte list \<Rightarrow> byte list" where
  "md5sum bs =
     (let padded = md5_pad bs
      in case fold (\<lambda>j. md5_block (slice (64 * j) 64 padded)) [0..<length padded div 64]
                (0x67452301, 0xefcdab89, 0x98badcfe, 0x10325476)
         of (a, b, c, d) \<Rightarrow> le32 a @ le32 b @ le32 c @ le32 d)"

definition hex_digit :: "byte \<Rightarrow> char" where
  "hex_digit b = ''0123456789abcdef'' ! (unat b mod 16)"

definition hex_encode :: "byte list \<Rightarrow> string" where
  "hex_encode bs = concat (map (\<lambda>b. [hex_digit (drop_bit 4 b), hex_digit b]) bs)"

definition md5hex :: "string \<Rightarrow> string" where
  "md5hex s = hex_encode (md5sum (bytes_of s))"

section \<open>Authentication\<close>

definition passwordOK :: "bool \<Rightarrow> string \<Rightarrow> string \<Rightarrow> bool" where
  "passwordOK useMD5 submitted stored = ((if useMD5 then md5hex submitted else submitted) = stored)"

text \<open>The eight bytes read from \<open>crypto/rand\<close>, or its failure.\<close>

definition newSessionTokens :: "byte list option \<Rightarrow> (u32 \<times> u32) res" where
  "newSessionTokens rnd =
     (case rnd of None \<Rightarrow> Inl (ErrText ''read rand'') | Some buf \<Rightarrow> Inr (u32_at 0 buf, u32_at 4 buf))"

text \<open>A wrapped error is its cause, as \<open>errors.Is\<close> sees it.\<close>

definition Authenticate ::
  "'s account_port \<Rightarrow> bool \<Rightarrow> byte list option \<Rightarrow> int \<Rightarrow> string \<Rightarrow> string \<Rightarrow> string \<Rightarrow> 's \<Rightarrow>
     (account \<times> u32 \<times> u32, 's) out" where
  "Authenticate P useMD5 rnd now userID password ip s =
     (case ap_FindByUserID P userID s of
        (Inl e, s) \<Rightarrow> (Inl (if errors_is e ErrAccountNotFound then ErrAccountNotFound else e), s)
      | (Inr acc, s) \<Rightarrow>
          if \<not> passwordOK useMD5 password (ac_UserPass acc) then (Inl ErrInvalidPassword, s)
          else if IsBanned acc then (Inl ErrAccountBanned, s)
          else
            (case newSessionTokens rnd of
               Inl e \<Rightarrow> (Inl e, s)
             | Inr (id1, id2) \<Rightarrow> (Inr (acc, id1, id2), snd (ap_RecordLogin P now (ac_ID acc) ip s))))"

text \<open>What may log in with which credential.\<close>

definition credential_ok :: "bool \<Rightarrow> string \<Rightarrow> string \<Rightarrow> account \<Rightarrow> bool" where
  "credential_ok useMD5 userID password a \<longleftrightarrow>
     ac_UserID a = userID \<and> passwordOK useMD5 password (ac_UserPass a) \<and> \<not> IsBanned a"

locale account_store =
  fixes P :: "'s account_port"
    and accounts :: "'s \<Rightarrow> u32 \<Rightarrow> account option"
    and inv :: "'s \<Rightarrow> bool"
  assumes find_user: "inv s \<Longrightarrow> ap_FindByUserID P u s =
      (if \<exists>a \<in> ran (accounts s). ac_UserID a = u then (Inr (THE a. a \<in> ran (accounts s) \<and> ac_UserID a = u), s)
       else (Inl ErrAccountNotFound, s))"
    and user_unique: "inv s \<Longrightarrow> accounts s i = Some a \<Longrightarrow> accounts s j = Some b \<Longrightarrow> ac_UserID a = ac_UserID b \<Longrightarrow> i = j"
    and id_ok: "inv s \<Longrightarrow> accounts s i = Some a \<Longrightarrow> ac_ID a = i"
    and find_id: "ap_FindByAccountID P i s =
      (case accounts s i of None \<Rightarrow> (Inl ErrAccountNotFound, s) | Some a \<Rightarrow> (Inr a, s))"
    and record_ok: "inv s \<Longrightarrow> accounts s i = Some a \<Longrightarrow> \<exists>s'. ap_RecordLogin P now i ip s = (Inr (), s') \<and>
      inv s' \<and> accounts s' = (accounts s)(i \<mapsto> stamp_login now ip a)"
begin

lemma find_known:
  assumes "inv s" and "accounts s i = Some a"
  shows "ap_FindByUserID P (ac_UserID a) s = (Inr a, s)"
proof -
  have mem: "a \<in> ran (accounts s)"
    using assms(2) by (rule ranI)
  moreover have "b = a" if "b \<in> ran (accounts s)" "ac_UserID b = ac_UserID a" for b
    using that user_unique [OF assms(1) _ assms(2)] assms(2) by (auto simp: ran_def)
  ultimately have "(THE b. b \<in> ran (accounts s) \<and> ac_UserID b = ac_UserID a) = a"
    by blast
  then show ?thesis
    using mem by (auto simp: find_user [OF assms(1)])
qed

lemma authenticate_Inr:
  assumes inv: "inv s" and a: "accounts s i = Some a" and ok: "credential_ok useMD5 u p a"
    and rnd: "rnd = Some buf"
  shows "\<exists>s'. Authenticate P useMD5 rnd now u p ip s = (Inr (a, u32_at 0 buf, u32_at 4 buf), s') \<and> inv s' \<and>
    accounts s' = (accounts s)(i \<mapsto> stamp_login now ip a)"
proof -
  obtain s' where s': "ap_RecordLogin P now i ip s = (Inr (), s')" "inv s'"
      "accounts s' = (accounts s)(i \<mapsto> stamp_login now ip a)"
    using record_ok [OF inv a] by blast
  have "ap_FindByUserID P u s = (Inr a, s)" and "ac_ID a = i"
    using find_known [OF inv a] id_ok [OF inv a] ok by (auto simp: credential_ok_def)
  then show ?thesis
    using s' ok rnd by (simp add: Authenticate_def credential_ok_def newSessionTokens_def)
qed

text \<open>A refusal leaves the table alone, and its cause is the first check that failed.\<close>

lemma authenticate_Inl:
  assumes inv: "inv s" and run: "Authenticate P useMD5 rnd now u p ip s = (Inl e, s')"
  shows "s' = s \<and>
    (if \<forall>a \<in> ran (accounts s). ac_UserID a \<noteq> u then e = ErrAccountNotFound
     else \<exists>a \<in> ran (accounts s). ac_UserID a = u \<and>
       (if \<not> passwordOK useMD5 p (ac_UserPass a) then e = ErrInvalidPassword
        else if IsBanned a then e = ErrAccountBanned else rnd = None))"
proof (cases "\<exists>a \<in> ran (accounts s). ac_UserID a = u")
  case True
  then obtain i a where a: "accounts s i = Some a" "ac_UserID a = u"
    by (auto simp: ran_def)
  have "a \<in> ran (accounts s)"
    using a(1) by (rule ranI)
  moreover have "ap_FindByUserID P u s = (Inr a, s)"
    using find_known [OF inv a(1)] a(2) by simp
  ultimately show ?thesis
    using run a(2)
    by (auto simp: Authenticate_def newSessionTokens_def split: if_splits option.splits)
next
  case False
  then show ?thesis
    using run by (auto simp: Authenticate_def find_user [OF inv])
qed

lemma authenticate_credential:
  assumes inv: "inv s" and run: "Authenticate P useMD5 rnd now u p ip s = (Inr (a, id1, id2), s')"
  shows "\<exists>buf. accounts s (ac_ID a) = Some a \<and> credential_ok useMD5 u p a \<and> rnd = Some buf \<and> id1 = u32_at 0 buf \<and>
    id2 = u32_at 4 buf \<and> inv s' \<and> accounts s' = (accounts s)(ac_ID a \<mapsto> stamp_login now ip a)"
proof (cases "\<exists>a \<in> ran (accounts s). ac_UserID a = u")
  case True
  then obtain i b where b: "accounts s i = Some b" "ac_UserID b = u"
    by (auto simp: ran_def)
  have find: "ap_FindByUserID P u s = (Inr b, s)"
    using find_known [OF inv b(1)] b(2) by simp
  then have ok: "credential_ok useMD5 u p b" and ab: "a = b" and rnd: "\<exists>buf. rnd = Some buf"
    using run b(2)
    by (auto simp: Authenticate_def newSessionTokens_def credential_ok_def split: if_splits option.splits)
  then obtain buf where "rnd = Some buf"
    by blast
  then show ?thesis
    using authenticate_Inr [OF inv b(1) ok \<open>rnd = Some buf\<close>, of now ip] run id_ok [OF inv b(1)] b(1) ok ab by auto
next
  case False
  then show ?thesis
    using run by (simp add: Authenticate_def find_user [OF inv])
qed

end

section \<open>The in-memory repository keeps the laws\<close>

definition ar_wf :: "account_repo \<Rightarrow> bool" where
  "ar_wf r \<longleftrightarrow> (\<forall>i a. ar_byID r i = Some a \<longrightarrow> ac_ID a = i \<and> ar_byUID r (ac_UserID a) = Some i) \<and>
     (\<forall>u i. ar_byUID r u = Some i \<longrightarrow> (\<exists>a. ar_byID r i = Some a \<and> ac_UserID a = u))"

lemma stamp_login_simps [simp]:
  "ac_ID (stamp_login now ip a) = ac_ID a" "ac_UserID (stamp_login now ip a) = ac_UserID a"
  "ac_UserPass (stamp_login now ip a) = ac_UserPass a" "ac_Sex (stamp_login now ip a) = ac_Sex a"
  "ac_Birthdate (stamp_login now ip a) = ac_Birthdate a" "IsBanned (stamp_login now ip a) = IsBanned a"
  by (simp_all add: stamp_login_def IsBanned_def)

lemma credential_stamp [simp]: "credential_ok useMD5 u p (stamp_login now ip a) = credential_ok useMD5 u p a"
  by (simp add: credential_ok_def)

lemma ar_wf_byUID: "ar_wf r \<Longrightarrow> ar_byUID r u = Some j \<Longrightarrow> \<exists>b. ar_byID r j = Some b \<and> ac_UserID b = u"
  by (simp only: ar_wf_def)

lemma ar_wf_stamp:
  assumes wf: "ar_wf r" and a: "ar_byID r i = Some a"
  shows "ar_wf (r\<lparr>ar_byID := (ar_byID r)(i \<mapsto> stamp_login now ip a)\<rparr>)"
  unfolding ar_wf_def
proof (intro conjI allI impI)
  fix j b
  assume "ar_byID (r\<lparr>ar_byID := (ar_byID r)(i \<mapsto> stamp_login now ip a)\<rparr>) j = Some b"
  then obtain b' where "ar_byID r j = Some b'" "ac_ID b = ac_ID b'" "ac_UserID b = ac_UserID b'"
    using a by (cases "j = i") auto
  then show "ac_ID b = j" "ar_byUID (r\<lparr>ar_byID := (ar_byID r)(i \<mapsto> stamp_login now ip a)\<rparr>) (ac_UserID b) = Some j"
    using wf by (simp_all add: ar_wf_def)
next
  fix u j
  assume "ar_byUID (r\<lparr>ar_byID := (ar_byID r)(i \<mapsto> stamp_login now ip a)\<rparr>) u = Some j"
  then obtain b where "ar_byID r j = Some b" "ac_UserID b = u"
    using ar_wf_byUID [OF wf] by auto
  then show "\<exists>b. ar_byID (r\<lparr>ar_byID := (ar_byID r)(i \<mapsto> stamp_login now ip a)\<rparr>) j = Some b \<and> ac_UserID b = u"
    using a by (cases "j = i") auto
qed

interpretation mem_accounts: account_store mem_account_port ar_byID ar_wf
proof (unfold_locales, goal_cases)
  case (1 s u)
  show ?case
  proof (cases "ar_byUID s u")
    case None
    then have "\<not> (\<exists>a \<in> ran (ar_byID s). ac_UserID a = u)"
      using 1 by (fastforce simp: ar_wf_def ran_def)
    then show ?thesis
      using None by (simp add: mem_account_port_def ar_FindByUserID_def)
  next
    case (Some i)
    then obtain a where a: "ar_byID s i = Some a" "ac_UserID a = u"
      using ar_wf_byUID [OF 1] by blast
    have only: "b = a" if b: "b \<in> ran (ar_byID s)" "ac_UserID b = u" for b
    proof -
      obtain j where j: "ar_byID s j = Some b"
        using b(1) by (auto simp: ran_def)
      moreover have "ar_byUID s (ac_UserID b) = Some j"
        using 1 j by (simp add: ar_wf_def)
      ultimately show ?thesis
        using a(1) Some b(2) by simp
    qed
    have "a \<in> ran (ar_byID s)"
      using a(1) by (rule ranI)
    then have "(THE b. b \<in> ran (ar_byID s) \<and> ac_UserID b = u) = a" and "\<exists>b \<in> ran (ar_byID s). ac_UserID b = u"
      using only a(2) by blast+
    then show ?thesis
      using Some a by (simp add: mem_account_port_def ar_FindByUserID_def)
  qed
next
  case (2 s i a j b)
  then show ?case
    by (metis ar_wf_def option.inject)
next
  case (3 s i a)
  then show ?case
    by (simp add: ar_wf_def)
next
  case (4 i s)
  then show ?case
    by (simp add: mem_account_port_def ar_FindByAccountID_def)
next
  case (5 s i a now ip)
  then show ?case
    by (auto simp: mem_account_port_def ar_RecordLogin_def ar_wf_stamp)
qed

text \<open>Seeding with distinct ids and names gives a well-formed repository.\<close>

lemma ar_wf_seed:
  assumes "ar_wf r" and "ar_byID r (ac_ID a) = None" and "ar_byUID r (ac_UserID a) = None"
  shows "ar_wf (seed_account a r)"
  using assms by (fastforce simp: ar_wf_def seed_account_def)

lemma ar_wf_empty: "ar_wf \<lparr>ar_byID = Map.empty, ar_byUID = Map.empty\<rparr>"
  by (simp add: ar_wf_def)

section \<open>A repository inside a larger state\<close>

definition lift_account_port :: "('s \<Rightarrow> 't) \<Rightarrow> ('t \<Rightarrow> 's \<Rightarrow> 's) \<Rightarrow> 't account_port \<Rightarrow> 's account_port" where
  "lift_account_port get put P =
     \<lparr>ap_FindByUserID = (\<lambda>u. zoom get put (ap_FindByUserID P u)),
      ap_FindByAccountID = (\<lambda>i. zoom get put (ap_FindByAccountID P i)),
      ap_RecordLogin = (\<lambda>n i ip. zoom get put (ap_RecordLogin P n i ip))\<rparr>"

locale account_field =
  base: account_store P accounts inv + field_of get put
  for P :: "'t account_port" and accounts inv and get :: "'s \<Rightarrow> 't" and put

sublocale account_field \<subseteq> lifted: account_store "lift_account_port get put P" "\<lambda>s. accounts (get s)" "\<lambda>s. inv (get s)"
proof (unfold_locales, goal_cases)
  case (1 s u)
  then show ?case
    by (simp add: lift_account_port_def base.find_user zoom_id)
next
  case (2 s i a j b)
  then show ?case by (rule base.user_unique)
next
  case (3 s i a)
  then show ?case by (rule base.id_ok)
next
  case (4 i s)
  then show ?case
    using base.find_id [of i "get s"] by (auto simp: lift_account_port_def zoom_id split: option.splits)
next
  case (5 s i a now ip)
  then show ?case
    using base.record_ok [of "get s" i a now ip] by (auto simp: lift_account_port_def zoom_eq)
qed

section \<open>Properties\<close>

definition demo_accounts :: account_repo where
  "demo_accounts = NewMemoryAccountRepository
     [zero_account\<lparr>ac_ID := 2000000, ac_UserID := ''alice'', ac_UserPass := ''s3cret'',
        ac_Sex := ''F'', ac_Birthdate := Some (1999, 2, 28)\<rparr>,
      zero_account\<lparr>ac_ID := 2000001, ac_UserID := ''mallory'', ac_UserPass := ''x'', ac_State := 5\<rparr>]"

lemma demo_accounts_wf [simp]: "ar_wf demo_accounts"
  by (auto simp: demo_accounts_def NewMemoryAccountRepository_def zero_account_def intro!: ar_wf_seed ar_wf_empty)
    (simp_all add: seed_account_def)

text \<open>
  C11. Authentication decides exactly: \<open>Authenticate\<close> admits a user name and password if and only if the
  random source delivers and some stored account has that name, a password column matching the password
  (its MD5 hex when the server is so configured) and no ban; it then hands out the eight random bytes as
  tokens and stamps only that row. Otherwise nothing changes and the error names the first check that
  failed.
\<close>

theorem authenticate_exact:
  assumes "ar_wf r" and "Authenticate mem_account_port useMD5 rnd now u p ip r = (result, r')"
  shows "ar_wf r' \<and>
    ((\<exists>x. result = Inr x) = (rnd \<noteq> None \<and> (\<exists>a \<in> ran (ar_byID r). credential_ok useMD5 u p a))) \<and>
    (case result of
       Inr (a, id1, id2) \<Rightarrow> \<exists>buf. rnd = Some buf \<and> id1 = u32_at 0 buf \<and> id2 = u32_at 4 buf \<and>
         ar_byID r (ac_ID a) = Some a \<and> credential_ok useMD5 u p a \<and>
         ar_byID r' = (ar_byID r)(ac_ID a \<mapsto> stamp_login now ip a)
     | Inl e \<Rightarrow> r' = r \<and>
         (if \<forall>a \<in> ran (ar_byID r). ac_UserID a \<noteq> u then e = ErrAccountNotFound
          else \<exists>a \<in> ran (ar_byID r). ac_UserID a = u \<and>
            (if \<not> passwordOK useMD5 p (ac_UserPass a) then e = ErrInvalidPassword
             else if IsBanned a then e = ErrAccountBanned else rnd = None)))"
proof (cases result)
  case (Inl e)
  note refused = mem_accounts.authenticate_Inl [OF assms(1) assms(2) [unfolded Inl]]
  have "\<not> (rnd \<noteq> None \<and> (\<exists>a \<in> ran (ar_byID r). credential_ok useMD5 u p a))"
  proof (intro notI, elim conjE bexE)
    fix a assume rnd: "rnd \<noteq> None" and a: "a \<in> ran (ar_byID r)" "credential_ok useMD5 u p a"
    obtain i buf where "ar_byID r i = Some a" "rnd = Some buf"
      using rnd a(1) by (auto simp: ran_def)
    then show False
      using mem_accounts.authenticate_Inr [OF assms(1) _ a(2), of i rnd buf now ip] assms(2) Inl by auto
  qed
  then show ?thesis
    using refused assms(1) Inl by simp
next
  case (Inr x)
  obtain a id1 id2 where x: "x = (a, id1, id2)"
    by (metis prod_cases3)
  note admitted = mem_accounts.authenticate_credential [OF assms(1) assms(2) [unfolded Inr x]]
  then show ?thesis
    using Inr x by (auto intro: ranI)
qed

theorem authenticate_exact_witness:
  "ar_wf (snd (Authenticate mem_account_port False (Some [1, 0, 0, 0, 2, 0, 0, 0]) 17 ''alice'' ''s3cret'' ''::1'' demo_accounts)) \<and>
   fst (Authenticate mem_account_port False None 17 ''mallory'' ''y'' ''::1'' demo_accounts) = Inl ErrInvalidPassword"
  (is "?ok \<and> ?bad")
proof
  show ?ok
    using authenticate_exact [OF demo_accounts_wf prod.collapse [symmetric]] by blast
  show ?bad
    by code_simp
qed

end
