(* ===== verification/RateLimit.thy ===== *)
theory RateLimit
  imports Complex_Main GoPrelude
begin

text \<open>
  The login throttle (\<open>gateway/app/ratelimit.go\<close>): one token bucket per source address. The tokens,
  a \<open>float64\<close> in the code, are exact rationals here; clock readings are nanoseconds.
\<close>

section \<open>Source addresses\<close>

text \<open>The position of the first and of the last occurrence of a character.\<close>

fun index_byte :: "char \<Rightarrow> string \<Rightarrow> nat option" where
  "index_byte c [] = None"
| "index_byte c (x # xs) = (if x = c then Some 0 else map_option Suc (index_byte c xs))"

definition last_index :: "char \<Rightarrow> string \<Rightarrow> nat option" where
  "last_index c s = map_option (\<lambda>i. length s - 1 - i) (index_byte c (rev s))"

text \<open>The host part of \<open>net.SplitHostPort\<close>, or nothing where it returns an error.\<close>

definition split_host :: "string \<Rightarrow> string option" where
  "split_host hp =
     (case last_index CHR '':'' hp of
        None \<Rightarrow> None
      | Some i \<Rightarrow>
          if hd hp = CHR ''['' then
            (case index_byte CHR '']'' hp of
               None \<Rightarrow> None
             | Some e \<Rightarrow>
                 if e + 1 \<noteq> i then None
                 else if index_byte CHR ''['' (drop 1 hp) \<noteq> None \<or> index_byte CHR '']'' (drop (e + 1) hp) \<noteq> None then None
                 else Some (take (e - 1) (drop 1 hp)))
          else if index_byte CHR '':'' (take i hp) \<noteq> None \<or> index_byte CHR ''['' hp \<noteq> None \<or>
            index_byte CHR '']'' hp \<noteq> None then None
          else Some (take i hp))"

definition canonicalIP :: "string \<Rightarrow> string" where
  "canonicalIP s = (if s = [] then [] else case split_host s of Some host \<Rightarrow> host | None \<Rightarrow> s)"

section \<open>The token buckets\<close>

record login_bucket =
  lb_tokens :: rat
  lb_lastRefill :: int

record rate_limiter =
  rl_capacity :: rat
  rl_refillPerSecond :: rat
  rl_buckets :: "string \<rightharpoonup> login_bucket"

definition NewLoginRateLimiter :: "rat \<Rightarrow> rat \<Rightarrow> rate_limiter option" where
  "NewLoginRateLimiter capacity refillPerSecond =
     (if capacity \<le> 0 \<or> refillPerSecond \<le> 0 then None
      else Some \<lparr>rl_capacity = capacity, rl_refillPerSecond = refillPerSecond, rl_buckets = Map.empty\<rparr>)"

definition seconds :: "int \<Rightarrow> rat" where
  "seconds ns = of_int ns / 1000000000"

definition refilled :: "rate_limiter \<Rightarrow> int \<Rightarrow> login_bucket \<Rightarrow> rat" where
  "refilled l now b = min (rl_capacity l) (lb_tokens b + seconds (now - lb_lastRefill b) * rl_refillPerSecond l)"

definition Allow :: "int \<Rightarrow> string \<Rightarrow> rate_limiter \<Rightarrow> bool \<times> rate_limiter" where
  "Allow now source l =
     (let ip = canonicalIP source
      in case rl_buckets l ip of
           None \<Rightarrow> (True, l\<lparr>rl_buckets := (rl_buckets l)(ip \<mapsto> \<lparr>lb_tokens = rl_capacity l - 1, lb_lastRefill = now\<rparr>)\<rparr>)
         | Some b \<Rightarrow>
             let tokens = refilled l now b
             in if tokens < 1
                then (False, l\<lparr>rl_buckets := (rl_buckets l)(ip \<mapsto> \<lparr>lb_tokens = tokens, lb_lastRefill = now\<rparr>)\<rparr>)
                else (True, l\<lparr>rl_buckets := (rl_buckets l)(ip \<mapsto> \<lparr>lb_tokens = tokens - 1, lb_lastRefill = now\<rparr>)\<rparr>))"

text \<open>A nil limiter lets everything pass.\<close>

definition allow_login :: "int \<Rightarrow> string \<Rightarrow> rate_limiter option \<Rightarrow> bool \<times> rate_limiter option" where
  "allow_login now source rl =
     (case rl of None \<Rightarrow> (True, None) | Some l \<Rightarrow> (case Allow now source l of (ok, l') \<Rightarrow> (ok, Some l')))"

section \<open>Histories of attempts\<close>

type_synonym attempt = "int \<times> string"

fun decisions :: "attempt list \<Rightarrow> rate_limiter \<Rightarrow> bool list" where
  "decisions [] l = []"
| "decisions ((now, source) # as) l = (case Allow now source l of (ok, l') \<Rightarrow> ok # decisions as l')"

fun limiter_after :: "attempt list \<Rightarrow> rate_limiter \<Rightarrow> rate_limiter" where
  "limiter_after [] l = l"
| "limiter_after ((now, source) # as) l = limiter_after as (snd (Allow now source l))"

fun granted :: "string \<Rightarrow> attempt list \<Rightarrow> bool list \<Rightarrow> nat" where
  "granted ip ((now, source) # as) (ok # oks) = (if canonicalIP source = ip \<and> ok then 1 else 0) + granted ip as oks"
| "granted ip _ _ = 0"

text \<open>The clock of an attempt list does not run backwards and stays before \<open>t1\<close>.\<close>

fun clocked :: "int \<Rightarrow> int \<Rightarrow> attempt list \<Rightarrow> bool" where
  "clocked t0 t1 [] = (t0 \<le> t1)"
| "clocked t0 t1 ((now, source) # as) = (t0 \<le> now \<and> clocked now t1 as)"

lemma clocked_le: "clocked t0 t1 as \<Longrightarrow> t0 \<le> t1"
  by (induction t0 t1 as rule: clocked.induct) auto

lemma Allow_config [simp]:
  "rl_capacity (snd (Allow now source l)) = rl_capacity l"
  "rl_refillPerSecond (snd (Allow now source l)) = rl_refillPerSecond l"
  by (auto simp: Allow_def Let_def split: option.splits)

lemma Allow_other: "ip \<noteq> canonicalIP source \<Longrightarrow> rl_buckets (snd (Allow now source l)) ip = rl_buckets l ip"
  by (auto simp: Allow_def Let_def split: option.splits)

lemma Allow_new:
  "rl_buckets l (canonicalIP source) = None \<Longrightarrow>
     fst (Allow now source l) \<and>
     rl_buckets (snd (Allow now source l)) (canonicalIP source) = Some \<lparr>lb_tokens = rl_capacity l - 1, lb_lastRefill = now\<rparr>"
  by (simp add: Allow_def Let_def)

lemma Allow_known:
  "rl_buckets l (canonicalIP source) = Some b \<Longrightarrow>
     fst (Allow now source l) = (1 \<le> refilled l now b) \<and>
     rl_buckets (snd (Allow now source l)) (canonicalIP source) =
       Some \<lparr>lb_tokens = (if 1 \<le> refilled l now b then refilled l now b - 1 else refilled l now b), lb_lastRefill = now\<rparr>"
  by (auto simp: Allow_def Let_def)

lemma seconds_diff: "seconds (c - a) = seconds (b - a) + seconds (c - b)"
  by (simp add: seconds_def add_divide_distrib [symmetric])

lemma seconds_mono: "a \<le> b \<Longrightarrow> 0 \<le> seconds (b - a)"
  by (simp add: seconds_def)

text \<open>What a bucket can still grant until \<open>t1\<close>.\<close>

definition credit_until :: "rate_limiter \<Rightarrow> int \<Rightarrow> login_bucket \<Rightarrow> rat" where
  "credit_until l t1 b = max 0 (lb_tokens b + seconds (t1 - lb_lastRefill b) * rl_refillPerSecond l)"

lemma refilled_credit:
  assumes "0 < rl_refillPerSecond l" and "now \<le> t1"
  shows "refilled l now b + seconds (t1 - now) * rl_refillPerSecond l
           \<le> lb_tokens b + seconds (t1 - lb_lastRefill b) * rl_refillPerSecond l"
proof -
  have "seconds (t1 - lb_lastRefill b) * rl_refillPerSecond l
      = seconds (now - lb_lastRefill b) * rl_refillPerSecond l + seconds (t1 - now) * rl_refillPerSecond l"
    by (simp add: seconds_diff [of t1 "lb_lastRefill b" now] distrib_right)
  then show ?thesis
    by (simp add: refilled_def)
qed

lemma granted_le_credit:
  assumes "0 < rl_refillPerSecond l" and "clocked t0 t1 as" and "rl_buckets l ip = Some b"
  shows "of_nat (granted ip as (decisions as l)) \<le> credit_until l t1 b"
  using assms
proof (induction as arbitrary: t0 l b)
  case Nil
  then show ?case by (simp add: credit_until_def)
next
  case (Cons a as)
  obtain now source where a: "a = (now, source)"
    by (cases a)
  let ?l = "snd (Allow now source l)"
  have clk: "clocked now t1 as" and le: "now \<le> t1"
    using Cons.prems(2) clocked_le by (auto simp: a)
  have unfold: "granted ip ((now, source) # as) (decisions ((now, source) # as) l) =
      (if canonicalIP source = ip \<and> fst (Allow now source l) then 1 else 0) + granted ip as (decisions as ?l)"
    by (simp split: prod.split)
  show ?case
  proof (cases "canonicalIP source = ip")
    case False
    then have "rl_buckets ?l ip = Some b"
      using Allow_other [of ip source now l] Cons.prems(3) by auto
    then show ?thesis
      using Cons.IH [of ?l now b] Cons.prems(1) clk False by (simp add: a unfold credit_until_def del: granted.simps decisions.simps)
  next
    case True
    let ?x = "refilled l now b"
    note known = Allow_known [where source = source and now = now, OF Cons.prems(3) [folded True]]
    have "of_nat (granted ip as (decisions as ?l))
        \<le> max 0 ((if 1 \<le> ?x then ?x - 1 else ?x) + seconds (t1 - now) * rl_refillPerSecond l)"
      using Cons.IH [of ?l now, OF _ clk] Cons.prems(1) known True by (simp add: credit_until_def)
    moreover have "?x + seconds (t1 - now) * rl_refillPerSecond l \<le> credit_until l t1 b"
      using refilled_credit [OF Cons.prems(1) le, of b] by (simp add: credit_until_def)
    moreover have "0 \<le> seconds (t1 - now) * rl_refillPerSecond l" and "0 \<le> credit_until l t1 b"
      using seconds_mono [OF le] Cons.prems(1) by (simp_all add: credit_until_def)
    ultimately show ?thesis
      using known True by (auto simp: a unfold max_def simp del: granted.simps decisions.simps split: if_splits)
  qed
qed

text \<open>Before an address is first seen nothing is granted to it; its first attempt spends one token of a full bucket.\<close>

lemma granted_le_capacity:
  assumes "0 < rl_refillPerSecond l" and "clocked t0 t1 as" and "rl_buckets l ip = None"
  shows "of_nat (granted ip as (decisions as l))
           \<le> max 1 (rl_capacity l) + seconds (t1 - t0) * rl_refillPerSecond l"
  using assms
proof (induction as arbitrary: t0 l)
  case Nil
  then show ?case
    using seconds_mono [of t0 t1] by (simp add: add_nonneg_nonneg)
next
  case (Cons a as)
  obtain now source where a: "a = (now, source)"
    by (cases a)
  let ?l = "snd (Allow now source l)" and ?r = "rl_refillPerSecond l"
  have clk: "clocked now t1 as" and le: "now \<le> t1" "t0 \<le> now"
    using Cons.prems(2) clocked_le by (auto simp: a)
  have unfold: "granted ip ((now, source) # as) (decisions ((now, source) # as) l) =
      (if canonicalIP source = ip \<and> fst (Allow now source l) then 1 else 0) + granted ip as (decisions as ?l)"
    by (simp split: prod.split)
  have later: "seconds (t1 - now) * ?r \<le> seconds (t1 - t0) * ?r"
    using seconds_diff [of t1 t0 now] seconds_mono [OF le(2)] Cons.prems(1) by (simp add: distrib_right)
  show ?case
  proof (cases "canonicalIP source = ip")
    case False
    then have "rl_buckets ?l ip = None"
      using Allow_other [of ip source now l] Cons.prems(3) by auto
    then have "of_nat (granted ip as (decisions as ?l)) \<le> max 1 (rl_capacity l) + seconds (t1 - now) * ?r"
      using Cons.IH [of ?l now] Cons.prems(1) clk by simp
    also have "\<dots> \<le> max 1 (rl_capacity l) + seconds (t1 - t0) * ?r"
      using later by (rule add_left_mono)
    finally show ?thesis
      using False by (simp add: a unfold del: granted.simps decisions.simps)
  next
    case True
    note new = Allow_new [where source = source and now = now, OF Cons.prems(3) [folded True]]
    have "of_nat (granted ip as (decisions as ?l)) \<le> max 0 (rl_capacity l - 1 + seconds (t1 - now) * ?r)"
      using granted_le_credit [of ?l now t1 as ip] Cons.prems(1) clk new True by (simp add: credit_until_def)
    moreover have "0 \<le> seconds (t1 - now) * ?r"
      using seconds_mono [OF le(1)] Cons.prems(1) by simp
    ultimately show ?thesis
      using later new True by (auto simp: a unfold max_def simp del: granted.simps decisions.simps split: if_splits)
  qed
qed

text \<open>Attempts of one address, each at least \<open>1 / r\<close> seconds after the one before.\<close>

fun spaced :: "string \<Rightarrow> rat \<Rightarrow> int option \<Rightarrow> attempt list \<Rightarrow> bool" where
  "spaced ip r prev [] = True"
| "spaced ip r prev ((now, source) # as) =
     (if canonicalIP source = ip
      then (case prev of None \<Rightarrow> True | Some t \<Rightarrow> 1 \<le> seconds (now - t) * r) \<and> spaced ip r (Some now) as
      else spaced ip r prev as)"

definition attempts_of :: "string \<Rightarrow> attempt list \<Rightarrow> nat" where
  "attempts_of ip as = length (filter (\<lambda>(now, source). canonicalIP source = ip) as)"

lemma spaced_all_granted:
  assumes "1 \<le> rl_capacity l" and "spaced ip (rl_refillPerSecond l) prev as"
    and "case rl_buckets l ip of None \<Rightarrow> prev = None | Some b \<Rightarrow> 0 \<le> lb_tokens b \<and> prev = Some (lb_lastRefill b)"
  shows "granted ip as (decisions as l) = attempts_of ip as"
  using assms
proof (induction as arbitrary: prev l)
  case Nil
  then show ?case by (simp add: attempts_of_def)
next
  case (Cons a as)
  obtain now source where a: "a = (now, source)"
    by (cases a)
  let ?l = "snd (Allow now source l)"
  have unfold: "granted ip ((now, source) # as) (decisions ((now, source) # as) l) =
      (if canonicalIP source = ip \<and> fst (Allow now source l) then 1 else 0) + granted ip as (decisions as ?l)"
    by (simp split: prod.split)
  show ?case
  proof (cases "canonicalIP source = ip")
    case False
    then have "rl_buckets ?l ip = rl_buckets l ip"
      using Allow_other [of ip source now l] by auto
    then show ?thesis
      using Cons.IH [of ?l prev] Cons.prems False by (simp add: a unfold attempts_of_def del: granted.simps decisions.simps)
  next
    case True
    have "fst (Allow now source l) \<and>
      (\<exists>b. rl_buckets ?l ip = Some b \<and> 0 \<le> lb_tokens b \<and> lb_lastRefill b = now)"
    proof (cases "rl_buckets l ip")
      case None
      then show ?thesis
        using Allow_new [of l source now] True Cons.prems(1) by auto
    next
      case (Some b)
      then have "1 \<le> refilled l now b"
        using Cons.prems True by (auto simp: a refilled_def)
      then show ?thesis
        using Allow_known [of l source b now] Some True by auto
    qed
    then show ?thesis
      using Cons.IH [of ?l "Some now"] Cons.prems(1,2) True by (auto simp: a unfold attempts_of_def simp del: granted.simps decisions.simps)
  qed
qed

lemma bucket_kept: "rl_buckets l ip \<noteq> None \<Longrightarrow> rl_buckets (limiter_after as l) ip \<noteq> None"
proof (induction as arbitrary: l)
  case (Cons a as)
  obtain now source where a: "a = (now, source)"
    by (cases a)
  have "rl_buckets (snd (Allow now source l)) ip \<noteq> None"
    using Cons.prems by (auto simp: Allow_def Let_def split: option.splits)
  then show ?case
    using Cons.IH by (simp add: a)
qed simp

lemma Allow_leaves_bucket: "rl_buckets (snd (Allow now source l)) (canonicalIP source) \<noteq> None"
  by (auto simp: Allow_def Let_def split: option.splits)

section \<open>Properties\<close>

definition demo_limiter :: rate_limiter where
  "demo_limiter = \<lparr>rl_capacity = 2, rl_refillPerSecond = 1, rl_buckets = Map.empty\<rparr>"

lemma demo_limiter_new: "NewLoginRateLimiter 2 1 = Some demo_limiter"
  by (simp add: NewLoginRateLimiter_def demo_limiter_def)

text \<open>
  C17. The throttle holds, with the \<open>float64\<close> token counts read as exact rationals: a fresh limiter with capacity \<open>c\<close>
  and refill rate \<open>r\<close> grants one address, under whatever ports it connects from and whatever other addresses do
  meanwhile, at most \<open>max 1 c + r * T\<close> attempts in any history of \<open>T\<close> seconds. (The first attempt of an address is granted
  without looking at the capacity, hence the maximum.)
\<close>

theorem login_attempts_bounded:
  assumes "NewLoginRateLimiter c r = Some l" and "clocked t0 t1 as"
  shows "of_nat (granted ip as (decisions as l)) \<le> max 1 c + seconds (t1 - t0) * r"
proof -
  have "0 < r" "rl_capacity l = c" "rl_refillPerSecond l = r" "rl_buckets l ip = None"
    using assms(1) by (auto simp: NewLoginRateLimiter_def split: if_splits)
  then show ?thesis
    using granted_le_capacity [of l t0 t1 as ip] assms(2) by simp
qed

theorem login_attempts_bounded_witness:
  "of_nat (granted ''h'' [(0, ''h:1''), (0, ''h:2''), (0, ''h:3'')] (decisions [(0, ''h:1''), (0, ''h:2''), (0, ''h:3'')] demo_limiter))
     \<le> max 1 2 + seconds (0 - 0) * (1 :: rat) \<and>
   decisions [(0, ''h:1''), (0, ''h:2''), (0, ''h:3'')] demo_limiter = [True, True, False]"
proof
  show "of_nat (granted ''h'' [(0, ''h:1''), (0, ''h:2''), (0, ''h:3'')] (decisions [(0, ''h:1''), (0, ''h:2''), (0, ''h:3'')] demo_limiter))
     \<le> max 1 2 + seconds (0 - 0) * (1 :: rat)"
    by (rule login_attempts_bounded [OF demo_limiter_new]) simp
  show "decisions [(0, ''h:1''), (0, ''h:2''), (0, ''h:3'')] demo_limiter = [True, True, False]"
    by (simp add: demo_limiter_def Allow_def refilled_def seconds_def canonicalIP_def split_host_def last_index_def)
qed

text \<open>
  Remark. A patient client is never throttled: with capacity at least 1, an address whose attempts are at
  least \<open>1 / r\<close> seconds apart has every one of them granted.
\<close>

theorem patient_client_admitted:
  assumes "NewLoginRateLimiter c r = Some l" and "1 \<le> c" and "spaced ip r None as"
  shows "granted ip as (decisions as l) = attempts_of ip as"
proof -
  have "rl_capacity l = c" "rl_refillPerSecond l = r" "rl_buckets l ip = None"
    using assms(1) by (auto simp: NewLoginRateLimiter_def split: if_splits)
  then show ?thesis
    using spaced_all_granted [of l ip None as] assms(2,3) by simp
qed

theorem patient_client_admitted_witness:
  "granted ''h'' [(0, ''h''), (1000000000, ''h''), (3000000000, ''h'')]
     (decisions [(0, ''h''), (1000000000, ''h''), (3000000000, ''h'')] demo_limiter) = 3"
proof -
  have "spaced ''h'' 1 None [(0, ''h''), (1000000000, ''h''), (3000000000, ''h'')]"
    by (simp add: seconds_def canonicalIP_def split_host_def last_index_def)
  from patient_client_admitted [OF demo_limiter_new _ this] show ?thesis
    by (simp add: attempts_of_def canonicalIP_def split_host_def last_index_def)
qed

text \<open>
  Remark. No bucket is ever evicted: after any history the table still holds an entry for every address that
  ever tried, so it grows with the number of addresses seen.
\<close>

theorem buckets_never_evicted:
  "list_all (\<lambda>(now, source). rl_buckets (limiter_after as l) (canonicalIP source) \<noteq> None) as"
proof (induction as arbitrary: l)
  case (Cons a as)
  obtain now source where a: "a = (now, source)"
    by (cases a)
  have "rl_buckets (limiter_after as (snd (Allow now source l))) (canonicalIP source) \<noteq> None"
    by (rule bucket_kept) (rule Allow_leaves_bucket)
  then show ?case
    using Cons.IH by (simp add: a)
qed simp

end
