(* ===== verification/Character.thy ===== *)
theory Character
  imports GoPrelude
begin

text \<open>
  The character bounded context: the \<open>Character\<close> row (\<open>domain/character.go\<close>), the in-memory
  repository and session store (\<open>infra/memory.go\<close>) and the use cases of \<open>CharService\<close>
  (\<open>app/service.go\<close>), written over the \<open>CharacterRepository\<close> and \<open>SessionStore\<close> ports.
  The port laws the use cases rely on are the locale \<open>character_store\<close>, interpreted on the
  in-memory repository.
\<close>

section \<open>Rows, sessions and ports\<close>

record character =
  ch_ID :: u32
  ch_AccountID :: u32
  ch_CharNum :: int
  ch_Name :: string
  ch_Class :: u16
  ch_BaseLevel :: u16
  ch_JobLevel :: u16
  ch_BaseExp :: u64
  ch_JobExp :: u64
  ch_Zeny :: u32
  ch_Str :: u16
  ch_Agi :: u16
  ch_Vit :: u16
  ch_Int :: u16
  ch_Dex :: u16
  ch_Luk :: u16
  ch_MaxHP :: u32
  ch_HP :: u32
  ch_MaxSP :: u32
  ch_SP :: u32
  ch_StatusPoint :: u32
  ch_SkillPoint :: u32
  ch_Sex :: int
  ch_Hair :: u8
  ch_HairColor :: u16
  ch_ClothesColor :: u16
  ch_Weapon :: u16
  ch_Shield :: u16
  ch_HeadTop :: u16
  ch_HeadMid :: u16
  ch_HeadBottom :: u16
  ch_LastMap :: string
  ch_LastX :: u16
  ch_LastY :: u16
  ch_SaveMap :: string
  ch_SaveX :: u16
  ch_SaveY :: u16
  ch_Fame :: u32
  ch_Rename :: u16
  ch_DeleteDate :: u32

text \<open>Go's zero value of the struct.\<close>

definition zero_character :: character where
  "zero_character = \<lparr>ch_ID = 0, ch_AccountID = 0, ch_CharNum = 0, ch_Name = [], ch_Class = 0,
     ch_BaseLevel = 0, ch_JobLevel = 0, ch_BaseExp = 0, ch_JobExp = 0, ch_Zeny = 0, ch_Str = 0,
     ch_Agi = 0, ch_Vit = 0, ch_Int = 0, ch_Dex = 0, ch_Luk = 0, ch_MaxHP = 0, ch_HP = 0,
     ch_MaxSP = 0, ch_SP = 0, ch_StatusPoint = 0, ch_SkillPoint = 0, ch_Sex = 0, ch_Hair = 0,
     ch_HairColor = 0, ch_ClothesColor = 0, ch_Weapon = 0, ch_Shield = 0, ch_HeadTop = 0,
     ch_HeadMid = 0, ch_HeadBottom = 0, ch_LastMap = [], ch_LastX = 0, ch_LastY = 0,
     ch_SaveMap = [], ch_SaveX = 0, ch_SaveY = 0, ch_Fame = 0, ch_Rename = 0, ch_DeleteDate = 0\<rparr>"

record session =
  se_AccountID :: u32
  se_LoginID1 :: u32
  se_LoginID2 :: u32
  se_Sex :: u8

text \<open>The \<open>CharacterRepository\<close> interface: one field per method, over any state \<open>'s\<close>.\<close>

record 's char_port =
  cp_ListByAccount :: "u32 \<Rightarrow> 's \<Rightarrow> (character list, 's) out"
  cp_Create :: "character \<Rightarrow> 's \<Rightarrow> (character, 's) out"
  cp_Delete :: "u32 \<Rightarrow> u32 \<Rightarrow> 's \<Rightarrow> (unit, 's) out"
  cp_NameExists :: "string \<Rightarrow> 's \<Rightarrow> (bool, 's) out"
  cp_UpdateZeny :: "u32 \<Rightarrow> u32 \<Rightarrow> 's \<Rightarrow> (unit, 's) out"
  cp_FindByID :: "u32 \<Rightarrow> 's \<Rightarrow> (character, 's) out"
  cp_SetDeleteDate :: "u32 \<Rightarrow> u32 \<Rightarrow> u32 \<Rightarrow> 's \<Rightarrow> (unit, 's) out"

section \<open>The in-memory repository\<close>

record char_repo =
  cr_byID :: "(u32 \<times> character) list"
  cr_names :: "string set"
  cr_next :: u32

definition NewMemoryCharacterRepository :: char_repo where
  "NewMemoryCharacterRepository = \<lparr>cr_byID = [], cr_names = {}, cr_next = 150000\<rparr>"

definition cr_ListByAccount :: "u32 \<Rightarrow> char_repo \<Rightarrow> (character list, char_repo) out" where
  "cr_ListByAccount acc r = (Inr (filter (\<lambda>c. ch_AccountID c = acc) (map snd (cr_byID r))), r)"

definition cr_Create :: "character \<Rightarrow> char_repo \<Rightarrow> (character, char_repo) out" where
  "cr_Create c r =
     (if ch_Name c \<in> cr_names r then (Inl ErrNameTaken, r)
      else
        let n = cr_next r + 1;
            c' = c\<lparr>ch_ID := n\<rparr>
        in (Inr c', r\<lparr>cr_next := n, cr_byID := AList.update n c' (cr_byID r),
                      cr_names := insert (ch_Name c) (cr_names r)\<rparr>))"

definition cr_CreateWithID :: "character \<Rightarrow> char_repo \<Rightarrow> (character, char_repo) out" where
  "cr_CreateWithID c r =
     (if ch_Name c \<in> cr_names r then (Inl ErrNameTaken, r)
      else (Inr c, r\<lparr>cr_byID := AList.update (ch_ID c) c (cr_byID r),
                     cr_names := insert (ch_Name c) (cr_names r)\<rparr>))"

definition cr_Delete :: "u32 \<Rightarrow> u32 \<Rightarrow> char_repo \<Rightarrow> (unit, char_repo) out" where
  "cr_Delete i acc r =
     (case map_of (cr_byID r) i of
        None \<Rightarrow> (Inl ErrCharacterNotFound, r)
      | Some c \<Rightarrow>
          if ch_AccountID c \<noteq> acc then (Inl ErrCharacterNotFound, r)
          else (Inr (), r\<lparr>cr_byID := AList.delete i (cr_byID r),
                          cr_names := cr_names r - {ch_Name c}\<rparr>))"

definition cr_NameExists :: "string \<Rightarrow> char_repo \<Rightarrow> (bool, char_repo) out" where
  "cr_NameExists nm r = (Inr (nm \<in> cr_names r), r)"

definition cr_UpdateZeny :: "u32 \<Rightarrow> u32 \<Rightarrow> char_repo \<Rightarrow> (unit, char_repo) out" where
  "cr_UpdateZeny i z r =
     (case map_of (cr_byID r) i of
        None \<Rightarrow> (Inl ErrCharacterNotFound, r)
      | Some c \<Rightarrow> (Inr (), r\<lparr>cr_byID := AList.update i (c\<lparr>ch_Zeny := z\<rparr>) (cr_byID r)\<rparr>))"

definition cr_FindByID :: "u32 \<Rightarrow> char_repo \<Rightarrow> (character, char_repo) out" where
  "cr_FindByID i r =
     (case map_of (cr_byID r) i of
        None \<Rightarrow> (Inl ErrCharacterNotFound, r)
      | Some c \<Rightarrow> (Inr c, r))"

definition cr_SetDeleteDate :: "u32 \<Rightarrow> u32 \<Rightarrow> u32 \<Rightarrow> char_repo \<Rightarrow> (unit, char_repo) out" where
  "cr_SetDeleteDate i acc d r =
     (case map_of (cr_byID r) i of
        None \<Rightarrow> (Inl ErrCharacterNotFound, r)
      | Some c \<Rightarrow>
          if ch_AccountID c \<noteq> acc then (Inl ErrCharacterNotFound, r)
          else (Inr (), r\<lparr>cr_byID := AList.update i (c\<lparr>ch_DeleteDate := d\<rparr>) (cr_byID r)\<rparr>))"

definition mem_char_port :: "char_repo char_port" where
  "mem_char_port = \<lparr>cp_ListByAccount = cr_ListByAccount, cp_Create = cr_Create,
     cp_Delete = cr_Delete, cp_NameExists = cr_NameExists, cp_UpdateZeny = cr_UpdateZeny,
     cp_FindByID = cr_FindByID, cp_SetDeleteDate = cr_SetDeleteDate\<rparr>"

subsection \<open>The session store\<close>

type_synonym session_store = "u32 \<rightharpoonup> session"

definition PutSession :: "session \<Rightarrow> session_store \<Rightarrow> (unit, session_store) out" where
  "PutSession se s = (Inr (), s(se_AccountID se \<mapsto> se))"

definition GetSession :: "u32 \<Rightarrow> session_store \<Rightarrow> (session, session_store) out" where
  "GetSession acc s =
     (case s acc of None \<Rightarrow> (Inl ErrSessionNotFound, s) | Some se \<Rightarrow> (Inr se, s))"

definition DeleteSession :: "u32 \<Rightarrow> session_store \<Rightarrow> (unit, session_store) out" where
  "DeleteSession acc s = (Inr (), s(acc := None))"

section \<open>The use cases\<close>

text \<open>\<open>Authorize\<close> takes the session lookup of the port, whatever store is behind it.\<close>

definition Authorize ::
  "(u32 \<Rightarrow> 's \<Rightarrow> (session, 's) out) \<Rightarrow> u32 \<Rightarrow> u32 \<Rightarrow> 's \<Rightarrow> (session, 's) out" where
  "Authorize get acc login1 s =
     (case get acc s of
        (Inl e, s') \<Rightarrow> (Inl e, s')
      | (Inr se, s') \<Rightarrow>
          if se_LoginID1 se \<noteq> login1 then (Inl ErrInvalidSession, s') else (Inr se, s'))"

text \<open>The default novice \<open>Create\<close> inserts.\<close>

definition novice :: "u32 \<Rightarrow> int \<Rightarrow> string \<Rightarrow> character" where
  "novice acc slot nm = zero_character\<lparr>ch_AccountID := acc, ch_CharNum := slot, ch_Name := nm,
     ch_BaseLevel := 1, ch_JobLevel := 1, ch_MaxHP := 1000, ch_HP := 1000, ch_MaxSP := 50,
     ch_SP := 50, ch_LastMap := ''new_1-1'', ch_SaveMap := ''new_1-1''\<rparr>"

definition cs_Create ::
  "'s char_port \<Rightarrow> int \<Rightarrow> u32 \<Rightarrow> int \<Rightarrow> string \<Rightarrow> 's \<Rightarrow> (character, 's) out" where
  "cs_Create P maxSlots acc slot nm s =
     and_then (cp_ListByAccount P acc s) (\<lambda>existing s.
       if int (length existing) \<ge> maxSlots then (Inl ErrSlotTaken, s)
       else if \<exists>c \<in> set existing. ch_CharNum c = slot then (Inl ErrSlotTaken, s)
       else and_then (cp_NameExists P nm s) (\<lambda>taken s.
         if taken then (Inl ErrNameTaken, s)
         else cp_Create P (novice acc slot nm) s))"

definition cs_List :: "'s char_port \<Rightarrow> u32 \<Rightarrow> 's \<Rightarrow> (character list, 's) out" where
  "cs_List P acc s = cp_ListByAccount P acc s"

definition cs_Delete :: "'s char_port \<Rightarrow> u32 \<Rightarrow> u32 \<Rightarrow> 's \<Rightarrow> (unit, 's) out" where
  "cs_Delete P i acc s = cp_Delete P i acc s"

text \<open>
  \<open>ReserveDelete\<close>: the result byte and the remaining seconds. \<open>now1\<close> and \<open>now2\<close> are the two
  readings of the clock (\<open>time.Now().Unix()\<close>, an \<open>int64\<close>).
\<close>

definition ReserveDelete ::
  "'s char_port \<Rightarrow> int \<Rightarrow> int \<Rightarrow> u32 \<Rightarrow> u32 \<Rightarrow> 's \<Rightarrow> (int \<times> u32, 's) out" where
  "ReserveDelete P now1 now2 i acc s =
     (case cp_FindByID P i s of
        (Inl e, s) \<Rightarrow> if errors_is e ErrCharacterNotFound then (Inr (3, 0), s) else (Inl e, s)
      | (Inr c, s) \<Rightarrow>
          if ch_AccountID c \<noteq> acc then (Inr (3, 0), s)
          else if ch_DeleteDate c \<noteq> 0 then (Inr (0, 0), s)
          else
            let delDate = word_of_int now1 + 0 :: u32
            in and_then (cp_SetDeleteDate P i acc delDate s) (\<lambda>_ s.
                 let rem = uint delDate - now2
                 in (Inr (1, if rem > 0 then word_of_int rem else 0), s)))"

definition CancelDelete :: "'s char_port \<Rightarrow> u32 \<Rightarrow> u32 \<Rightarrow> 's \<Rightarrow> (int, 's) out" where
  "CancelDelete P i acc s =
     (case cp_FindByID P i s of
        (Inl e, s) \<Rightarrow> if errors_is e ErrCharacterNotFound then (Inr 2, s) else (Inl e, s)
      | (Inr c, s) \<Rightarrow>
          if ch_AccountID c \<noteq> acc then (Inr 2, s)
          else if ch_DeleteDate c = 0 then (Inr 1, s)
          else and_then (cp_SetDeleteDate P i acc 0 s) (\<lambda>_ s. (Inr 1, s)))"

section \<open>What the use cases rely on\<close>

text \<open>
  \<open>chars\<close> is the table as a map from ids; \<open>room\<close> says that the next id is fresh (the in-memory
  counter is a \<open>uint32\<close> and wraps).
\<close>

locale character_store =
  fixes P :: "'s char_port"
    and chars :: "'s \<Rightarrow> u32 \<Rightarrow> character option"
    and inv :: "'s \<Rightarrow> bool"
    and room :: "'s \<Rightarrow> bool"
  assumes list_ok: "inv s \<Longrightarrow> \<exists>xs. cp_ListByAccount P acc s = (Inr xs, s) \<and> distinct xs \<and>
      set xs = {c \<in> ran (chars s). ch_AccountID c = acc}"
    and id_ok: "inv s \<Longrightarrow> chars s i = Some c \<Longrightarrow> ch_ID c = i"
    and create_ok: "inv s \<Longrightarrow> room s \<Longrightarrow> cp_Create P c s = (Inr c', s') \<Longrightarrow>
      inv s' \<and> c' = c\<lparr>ch_ID := ch_ID c'\<rparr> \<and> chars s (ch_ID c') = None \<and>
      chars s' = (chars s)(ch_ID c' \<mapsto> c')"
    and create_err: "cp_Create P c s = (Inl e, s') \<Longrightarrow> s' = s"
    and name_ok: "inv s \<Longrightarrow> cp_NameExists P nm s = (Inr (\<exists>c \<in> ran (chars s). ch_Name c = nm), s)"
    and find_ok: "cp_FindByID P i s =
      (case chars s i of None \<Rightarrow> (Inl ErrCharacterNotFound, s) | Some c \<Rightarrow> (Inr c, s))"
    and zeny_err: "chars s i = None \<Longrightarrow> cp_UpdateZeny P i z s = (Inl ErrCharacterNotFound, s)"
    and zeny_ok: "inv s \<Longrightarrow> chars s i = Some c \<Longrightarrow> \<exists>s'. cp_UpdateZeny P i z s = (Inr (), s') \<and>
      inv s' \<and> chars s' = (chars s)(i \<mapsto> c\<lparr>ch_Zeny := z\<rparr>)"
    and date_ok: "inv s \<Longrightarrow> chars s i = Some c \<Longrightarrow> ch_AccountID c = acc \<Longrightarrow>
      \<exists>s'. cp_SetDeleteDate P i acc d s = (Inr (), s') \<and> inv s' \<and>
        chars s' = (chars s)(i \<mapsto> c\<lparr>ch_DeleteDate := d\<rparr>)"
    and delete_ok: "inv s \<Longrightarrow> cp_Delete P i acc s = (Inr (), s') \<Longrightarrow>
      inv s' \<and> (\<exists>c. chars s i = Some c \<and> ch_AccountID c = acc) \<and> chars s' = (chars s)(i := None)"
begin

text \<open>The rows of one account, and the slot discipline of character select.\<close>

definition of_account :: "'s \<Rightarrow> u32 \<Rightarrow> character set" where
  "of_account s acc = {c \<in> ran (chars s). ch_AccountID c = acc}"

definition slots_ok :: "int \<Rightarrow> 's \<Rightarrow> bool" where
  "slots_ok maxSlots s \<longleftrightarrow>
     (\<forall>acc. inj_on ch_CharNum (of_account s acc) \<and> int (card (of_account s acc)) \<le> maxSlots)"

lemma finite_of_account: "inv s \<Longrightarrow> finite (of_account s acc)"
  using list_ok [of s acc] by (metis List.finite_set of_account_def)

lemma of_account_new:
  assumes "chars s i = None" and "chars s' = (chars s)(i \<mapsto> c)"
  shows "of_account s' acc = (if ch_AccountID c = acc then insert c (of_account s acc) else of_account s acc)"
  using assms(1) by (auto simp: of_account_def assms(2) ran_map_upd)

lemma cs_Create_Inr:
  assumes "inv s" and "cs_Create P maxSlots acc slot nm s = (Inr c, s')"
  shows "int (card (of_account s acc)) < maxSlots" and "slot \<notin> ch_CharNum ` of_account s acc"
    and "nm \<notin> ch_Name ` ran (chars s)" and "cp_Create P (novice acc slot nm) s = (Inr c, s')"
proof -
  obtain xs where xs: "cp_ListByAccount P acc s = (Inr xs, s)" "distinct xs" "set xs = of_account s acc"
    using list_ok [OF assms(1), of acc] by (auto simp: of_account_def)
  note r = assms(2) [unfolded cs_Create_def xs(1) and_then.simps name_ok [OF assms(1)]]
  show "int (card (of_account s acc)) < maxSlots"
    using r distinct_card [OF xs(2)] xs(3) by (auto split: if_splits)
  show "slot \<notin> ch_CharNum ` of_account s acc"
    using r xs(3) by (auto split: if_splits)
  show "nm \<notin> ch_Name ` ran (chars s)"
    using r by (auto split: if_splits)
  show "cp_Create P (novice acc slot nm) s = (Inr c, s')"
    using r by (auto split: if_splits)
qed

lemma cs_Create_slots:
  assumes inv: "inv s" and room: "room s" and ok: "slots_ok maxSlots s"
    and run: "cs_Create P maxSlots acc slot nm s = (Inr c, s')"
  shows "slots_ok maxSlots s'"
proof -
  note pre = cs_Create_Inr [OF inv run]
  have c: "c = novice acc slot nm\<lparr>ch_ID := ch_ID c\<rparr>" "chars s (ch_ID c) = None"
    "chars s' = (chars s)(ch_ID c \<mapsto> c)"
    using create_ok [OF inv room pre(4)] by auto
  have acc: "ch_AccountID c = acc" and num: "ch_CharNum c = slot"
    by (subst c(1), simp add: novice_def)+
  show ?thesis
    unfolding slots_ok_def
  proof (intro allI conjI)
    fix a
    note new = of_account_new [OF c(2,3), of a]
    show "inj_on ch_CharNum (of_account s' a)"
      using ok pre(2) acc num by (auto simp: slots_ok_def new)
    show "int (card (of_account s' a)) \<le> maxSlots"
      using ok pre(1) acc finite_of_account [OF inv, of a]
      by (auto simp: slots_ok_def new card_insert_if)
  qed
qed

lemma cs_Delete_slots:
  assumes inv: "inv s" and ok: "slots_ok maxSlots s" and run: "cs_Delete P i acc s = (Inr (), s')"
  shows "slots_ok maxSlots s'"
proof -
  have "chars s' = (chars s)(i := None)"
    using delete_ok [OF inv] run by (auto simp: cs_Delete_def)
  then have sub: "of_account s' a \<subseteq> of_account s a" for a
    by (auto simp: of_account_def ran_def split: if_splits)
  show ?thesis
    using ok card_mono [OF finite_of_account [OF inv] sub]
    by (auto simp: slots_ok_def intro: inj_on_subset [OF _ sub] order_trans [OF of_nat_mono])
qed

lemma cs_Create_total:
  assumes "inv s" and "cs_Create P maxSlots acc slot nm s = (Inl e, s')"
  shows "s' = s"
  using assms list_ok [OF assms(1), of acc] name_ok [OF assms(1)]
  by (auto simp: cs_Create_def split: if_splits dest: create_err)

text \<open>Queueing a deletion and cancelling it puts the row back as it was.\<close>

lemma reserve_cancel:
  assumes inv: "inv s" and c: "chars s i = Some c" and own: "ch_AccountID c = acc"
    and free: "ch_DeleteDate c = 0" and clock: "word_of_int now1 \<noteq> (0 :: u32)"
  shows "\<exists>s1 s2 rem. ReserveDelete P now1 now2 i acc s = (Inr (1, rem), s1) \<and>
    chars s1 = (chars s)(i \<mapsto> c\<lparr>ch_DeleteDate := word_of_int now1\<rparr>) \<and>
    ReserveDelete P now1 now2 i acc s1 = (Inr (0, 0), s1) \<and>
    CancelDelete P i acc s1 = (Inr 1, s2) \<and> chars s2 = chars s"
proof -
  let ?d = "word_of_int now1 :: u32"
  obtain s1 where s1: "cp_SetDeleteDate P i acc ?d s = (Inr (), s1)" "inv s1"
      "chars s1 = (chars s)(i \<mapsto> c\<lparr>ch_DeleteDate := ?d\<rparr>)"
    using date_ok [OF inv c own] by blast
  obtain s2 where s2: "cp_SetDeleteDate P i acc 0 s1 = (Inr (), s2)"
      "chars s2 = (chars s1)(i \<mapsto> c\<lparr>ch_DeleteDate := 0\<rparr>)"
    using date_ok [OF s1(2), of i "c\<lparr>ch_DeleteDate := ?d\<rparr>" acc 0] s1(3) own by auto
  have "c\<lparr>ch_DeleteDate := 0\<rparr> = c"
    using free by (metis character.surjective character.update_convs(40))
  then have "chars s2 = chars s"
    using c by (simp add: s2(2) s1(3) fun_upd_idem)
  then show ?thesis
    using c own free clock s1 s2 by (simp add: ReserveDelete_def CancelDelete_def find_ok Let_def)
qed

end

section \<open>The in-memory repository keeps the laws\<close>

definition cr_wf :: "char_repo \<Rightarrow> bool" where
  "cr_wf r \<longleftrightarrow>
     distinct (keys (cr_byID r)) \<and> distinct (map (ch_Name \<circ> snd) (cr_byID r)) \<and>
     (\<forall>(k, c) \<in> set (cr_byID r). ch_ID c = k \<and> k \<le> cr_next r) \<and>
     cr_names r = set (map (ch_Name \<circ> snd) (cr_byID r))"

definition cr_room :: "char_repo \<Rightarrow> bool" where
  "cr_room r \<longleftrightarrow> cr_next r < cr_next r + 1"

abbreviation cr_chars :: "char_repo \<Rightarrow> u32 \<Rightarrow> character option" where
  "cr_chars r \<equiv> map_of (cr_byID r)"

lemma cr_wf_new: "cr_wf NewMemoryCharacterRepository"
  by (simp add: cr_wf_def NewMemoryCharacterRepository_def)

lemma cr_room_fresh: "cr_wf r \<Longrightarrow> cr_room r \<Longrightarrow> map_of (cr_byID r) (cr_next r + 1) = None"
  by (auto simp: cr_wf_def cr_room_def map_of_eq_None_iff dest: leD)

lemma cr_wf_Create:
  assumes "cr_wf r" and "cr_room r" and "cr_Create c r = (Inr c', r')"
  shows "cr_wf r'"
proof -
  let ?n = "cr_next r + 1"
  have r': "r' = r\<lparr>cr_next := ?n, cr_byID := cr_byID r @ [(?n, c\<lparr>ch_ID := ?n\<rparr>)],
      cr_names := insert (ch_Name c) (cr_names r)\<rparr>" and new: "ch_Name c \<notin> cr_names r"
    using assms(3) cr_room_fresh [OF assms(1,2)]
    by (auto simp: cr_Create_def Let_def update_new_append split: if_splits)
  have "\<forall>(k, x) \<in> set (cr_byID r). k \<le> ?n"
    using assms(1,2) by (force simp: cr_wf_def cr_room_def intro: order_trans less_imp_le)
  moreover have "?n \<notin> set (keys (cr_byID r))"
    using cr_room_fresh [OF assms(1,2)] by (simp add: map_of_eq_None_iff)
  ultimately show ?thesis
    using assms(1) new unfolding r' by (simp add: cr_wf_def case_prod_beta')
qed

lemma cr_wf_upd:
  assumes "cr_wf r" and "map_of (cr_byID r) i = Some c" and "ch_ID c' = ch_ID c" and "ch_Name c' = ch_Name c"
  shows "cr_wf (r\<lparr>cr_byID := AList.update i c' (cr_byID r)\<rparr>)"
proof -
  have names: "map (ch_Name \<circ> snd) (AList.update i c' (cr_byID r)) = map (ch_Name \<circ> snd) (cr_byID r)"
    using assms by (intro map_update_same) auto
  have "(i, c) \<in> set (cr_byID r)"
    using assms(2) by (rule map_of_SomeD)
  then show ?thesis
    using assms(1,3) names set_update_subset [of i c' "cr_byID r"] by (auto simp: cr_wf_def)
qed

lemma cr_wf_Delete:
  assumes "cr_wf r" and "cr_Delete i acc r = (Inr (), r')"
  shows "cr_wf r'"
proof -
  obtain c where c: "map_of (cr_byID r) i = Some c"
      "r' = r\<lparr>cr_byID := AList.delete i (cr_byID r), cr_names := cr_names r - {ch_Name c}\<rparr>"
    using assms(2) by (auto simp: cr_Delete_def split: option.splits if_splits)
  have del: "AList.delete i (cr_byID r) = filter (\<lambda>p. fst p \<noteq> i) (cr_byID r)"
    by (auto simp: AList.delete_eq case_prod_beta' intro: filter_cong)
  have inj: "inj_on (ch_Name \<circ> snd) (set (cr_byID r))"
    using assms(1) by (simp add: cr_wf_def distinct_map)
  have mem: "(i, c) \<in> set (cr_byID r)"
    using c(1) by (rule map_of_SomeD)
  have "(ch_Name \<circ> snd) ` {p \<in> set (cr_byID r). fst p \<noteq> i} = (ch_Name \<circ> snd) ` set (cr_byID r) - {ch_Name c}"
  proof (intro equalityI subsetI)
    fix n assume "n \<in> (ch_Name \<circ> snd) ` {p \<in> set (cr_byID r). fst p \<noteq> i}"
    then obtain p where p: "p \<in> set (cr_byID r)" "fst p \<noteq> i" "n = (ch_Name \<circ> snd) p"
      by auto
    then show "n \<in> (ch_Name \<circ> snd) ` set (cr_byID r) - {ch_Name c}"
      using inj_onD [OF inj _ p(1) mem] by auto
  next
    fix n assume n: "n \<in> (ch_Name \<circ> snd) ` set (cr_byID r) - {ch_Name c}"
    then obtain p where p: "p \<in> set (cr_byID r)" "n = (ch_Name \<circ> snd) p"
      by auto
    moreover have "fst p \<noteq> i"
    proof
      assume "fst p = i"
      with p(1) have "(i, snd p) \<in> set (cr_byID r)"
        by (metis prod.collapse)
      moreover have "distinct (keys (cr_byID r))"
        using assms(1) by (simp add: cr_wf_def)
      ultimately have "snd p = c"
        using mem by (metis eq_key_imp_eq_value)
      then show False
        using p(2) n by simp
    qed
    ultimately show "n \<in> (ch_Name \<circ> snd) ` {p \<in> set (cr_byID r). fst p \<noteq> i}"
      by auto
  qed
  then show ?thesis
    using assms(1) unfolding c(2) by (simp add: cr_wf_def del distinct_map_filter)
qed

interpretation mem_chars: character_store mem_char_port cr_chars cr_wf cr_room
proof (unfold_locales, goal_cases)
  case (1 s acc)
  then have "distinct (map snd (cr_byID s))"
    by (auto simp: cr_wf_def distinct_map inj_on_def)
  moreover have "snd ` set (cr_byID s) = ran (map_of (cr_byID s))"
    using 1 by (simp add: cr_wf_def ran_distinct)
  ultimately show ?case
    by (auto simp: mem_char_port_def cr_ListByAccount_def)
next
  case (2 s i c)
  then show ?case by (auto simp: cr_wf_def dest: map_of_SomeD)
next
  case (3 s c c' s')
  then show ?case
    using cr_wf_Create [of s c c' s'] cr_room_fresh [of s]
    by (auto simp: mem_char_port_def cr_Create_def Let_def split: if_splits)
next
  case (4 c s e s')
  then show ?case
    by (auto simp: mem_char_port_def cr_Create_def Let_def split: if_splits)
next
  case (5 s nm)
  then have ran: "ran (map_of (cr_byID s)) = snd ` set (cr_byID s)"
    by (simp add: cr_wf_def ran_distinct)
  show ?case
    using 5 by (auto simp: mem_char_port_def cr_NameExists_def cr_wf_def ran)
next
  case (6 i s)
  then show ?case by (simp add: mem_char_port_def cr_FindByID_def)
next
  case (7 s i z)
  then show ?case by (simp add: mem_char_port_def cr_UpdateZeny_def)
next
  case (8 s i c z)
  then show ?case by (auto simp: mem_char_port_def cr_UpdateZeny_def intro: cr_wf_upd)
next
  case (9 s i c acc d)
  then show ?case by (auto simp: mem_char_port_def cr_SetDeleteDate_def intro: cr_wf_upd)
next
  case (10 s i acc s')
  then show ?case
    using cr_wf_Delete [of s i acc s']
    by (auto simp: mem_char_port_def cr_Delete_def split: option.splits if_splits)
qed

section \<open>A repository inside a larger state\<close>

definition lift_char_port :: "('s \<Rightarrow> 't) \<Rightarrow> ('t \<Rightarrow> 's \<Rightarrow> 's) \<Rightarrow> 't char_port \<Rightarrow> 's char_port" where
  "lift_char_port get put P =
     \<lparr>cp_ListByAccount = (\<lambda>a. zoom get put (cp_ListByAccount P a)),
      cp_Create = (\<lambda>c. zoom get put (cp_Create P c)),
      cp_Delete = (\<lambda>i a. zoom get put (cp_Delete P i a)),
      cp_NameExists = (\<lambda>n. zoom get put (cp_NameExists P n)),
      cp_UpdateZeny = (\<lambda>i z. zoom get put (cp_UpdateZeny P i z)),
      cp_FindByID = (\<lambda>i. zoom get put (cp_FindByID P i)),
      cp_SetDeleteDate = (\<lambda>i a d. zoom get put (cp_SetDeleteDate P i a d))\<rparr>"

locale character_field =
  base: character_store P chars inv room + field_of get put
  for P :: "'t char_port" and chars inv room and get :: "'s \<Rightarrow> 't" and put

sublocale character_field \<subseteq> lifted: character_store "lift_char_port get put P" "\<lambda>s. chars (get s)"
    "\<lambda>s. inv (get s)" "\<lambda>s. room (get s)"
proof (unfold_locales, goal_cases)
  case (1 s acc)
  then show ?case
    using base.list_ok [of "get s" acc] by (auto simp: lift_char_port_def zoom_eq)
next
  case (2 s i c)
  then show ?case by (rule base.id_ok)
next
  case (3 s c c' s')
  then obtain t where t: "cp_Create P c (get s) = (Inr c', t)" "s' = put t s"
    by (auto simp: lift_char_port_def zoom_eq)
  show ?case
    using base.create_ok [OF 3(1,2) t(1)] by (simp add: t(2))
next
  case (4 c s e s')
  then show ?case
    by (auto simp: lift_char_port_def zoom_eq dest: base.create_err)
next
  case (5 s nm)
  then show ?case
    by (simp add: lift_char_port_def base.name_ok zoom_id)
next
  case (6 i s)
  then show ?case
    using base.find_ok [of i "get s"] by (auto simp: lift_char_port_def zoom_id split: option.splits)
next
  case (7 s i z)
  then show ?case
    by (simp add: lift_char_port_def base.zeny_err zoom_id)
next
  case (8 s i c z)
  then show ?case
    using base.zeny_ok [of "get s" i c z] by (auto simp: lift_char_port_def zoom_eq)
next
  case (9 s i c acc d)
  then show ?case
    using base.date_ok [of "get s" i c acc d] by (auto simp: lift_char_port_def zoom_eq)
next
  case (10 s i acc s')
  then obtain t where t: "cp_Delete P i acc (get s) = (Inr (), t)" "s' = put t s"
    by (auto simp: lift_char_port_def zoom_eq)
  show ?case
    using base.delete_ok [OF 10(1) t(1)] by (simp add: t(2))
qed

section \<open>Properties\<close>

definition account_chars :: "char_repo \<Rightarrow> u32 \<Rightarrow> character set" where
  "account_chars r acc = {c \<in> ran (cr_chars r). ch_AccountID c = acc}"

text \<open>Within every account the slots are distinct and their number is within the limit.\<close>

definition account_slots_ok :: "int \<Rightarrow> char_repo \<Rightarrow> bool" where
  "account_slots_ok maxSlots r \<longleftrightarrow>
     (\<forall>acc. inj_on ch_CharNum (account_chars r acc) \<and> int (card (account_chars r acc)) \<le> maxSlots)"

lemma slots_ok_eq: "mem_chars.slots_ok = account_slots_ok"
  by (simp add: fun_eq_iff mem_chars.slots_ok_def mem_chars.of_account_def account_slots_ok_def
      account_chars_def)

definition demo_chars :: char_repo where
  "demo_chars = \<lparr>cr_byID = [(1, (novice 7 0 ''a'')\<lparr>ch_ID := 1\<rparr>)], cr_names = {''a''}, cr_next = 150000\<rparr>"

lemma demo_chars_ok [simp]:
  "cr_wf demo_chars" "cr_room demo_chars" "account_slots_ok 2 demo_chars"
  "cr_chars demo_chars 1 = Some ((novice 7 0 ''a'')\<lparr>ch_ID := 1\<rparr>)"
proof -
  show "cr_wf demo_chars" "cr_room demo_chars"
      "cr_chars demo_chars 1 = Some ((novice 7 0 ''a'')\<lparr>ch_ID := 1\<rparr>)"
    by (simp_all add: cr_wf_def cr_room_def demo_chars_def novice_def word_less_nat_alt)
  have "account_chars demo_chars acc = (if acc = 7 then {(novice 7 0 ''a'')\<lparr>ch_ID := 1\<rparr>} else {})" for acc
    by (auto simp: account_chars_def demo_chars_def novice_def)
  then show "account_slots_ok 2 demo_chars"
    by (simp add: account_slots_ok_def)
qed

text \<open>
  C38. Creating a character keeps the slot discipline: if, in every account, characters occupy
  distinct slots and at most \<open>maxSlots\<close> of them, the same holds after \<open>Create\<close>, whatever
  account, slot and name are asked for; and a rejected request changes nothing.
\<close>

theorem create_keeps_slots:
  assumes "cr_wf r" and "cr_room r" and "account_slots_ok maxSlots r"
    and "cs_Create mem_char_port maxSlots acc slot nm r = (result, r')"
  shows "account_slots_ok maxSlots r' \<and> (\<forall>e. result = Inl e \<longrightarrow> r' = r) \<and>
    (\<forall>c. result = Inr c \<longrightarrow> cr_wf r' \<and> cr_chars r' (ch_ID c) = Some c \<and> ch_CharNum c = slot \<and>
      slot \<notin> ch_CharNum ` account_chars r acc \<and> nm \<notin> ch_Name ` ran (cr_chars r))"
proof (cases result)
  case (Inl e)
  have "r' = r"
    by (rule mem_chars.cs_Create_total [OF assms(1)]) (use assms(4) Inl in simp)
  then show ?thesis
    using assms(3) Inl by simp
next
  case (Inr c)
  note run = assms(4) [unfolded Inr]
  note pre = mem_chars.cs_Create_Inr [OF assms(1) run]
  note new = mem_chars.create_ok [OF assms(1,2) pre(4)]
  have c: "c = (novice acc slot nm)\<lparr>ch_ID := ch_ID c\<rparr>"
    using new by blast
  have "ch_CharNum c = slot"
    by (subst c) (simp add: novice_def)
  then show ?thesis
    using mem_chars.cs_Create_slots [OF assms(1,2) assms(3) [folded slots_ok_eq] run] pre new Inr
    by (auto simp: slots_ok_eq mem_chars.of_account_def account_chars_def)
qed

theorem create_keeps_slots_witness:
  "account_slots_ok 2 (snd (cs_Create mem_char_port 2 7 1 ''b'' demo_chars)) \<and>
   fst (cs_Create mem_char_port 2 7 0 ''b'' demo_chars) = Inl ErrSlotTaken"
proof
  show "account_slots_ok 2 (snd (cs_Create mem_char_port 2 7 1 ''b'' demo_chars))"
    using create_keeps_slots [OF demo_chars_ok(1-3) prod.collapse [symmetric]] by blast
  show "fst (cs_Create mem_char_port 2 7 0 ''b'' demo_chars) = Inl ErrSlotTaken"
    by (simp add: cs_Create_def mem_char_port_def cr_ListByAccount_def demo_chars_def novice_def)
qed

text \<open>
  Remark. Deletion can be taken back: reserving an owned, unqueued character for deletion stamps its
  row with the clock, a second reservation is refused with result 0, and cancelling then restores
  the table to exactly what it was.
\<close>

theorem reserve_then_cancel_restores:
  assumes "cr_wf r" and "cr_chars r i = Some c" and "ch_AccountID c = acc" and "ch_DeleteDate c = 0"
    and "word_of_int now1 \<noteq> (0 :: u32)"
  shows "\<exists>r1 r2 rem. ReserveDelete mem_char_port now1 now2 i acc r = (Inr (1, rem), r1) \<and>
    cr_chars r1 = (cr_chars r)(i \<mapsto> c\<lparr>ch_DeleteDate := word_of_int now1\<rparr>) \<and>
    ReserveDelete mem_char_port now1 now2 i acc r1 = (Inr (0, 0), r1) \<and>
    CancelDelete mem_char_port i acc r1 = (Inr 1, r2) \<and> cr_chars r2 = cr_chars r"
  using assms by (rule mem_chars.reserve_cancel)

theorem reserve_then_cancel_restores_witness:
  "\<exists>r1 r2 rem. ReserveDelete mem_char_port 1700000000 1700000000 1 7 demo_chars = (Inr (1, rem), r1) \<and>
    cr_chars r1 = (cr_chars demo_chars)
      (1 \<mapsto> (novice 7 0 ''a'')\<lparr>ch_ID := 1\<rparr>\<lparr>ch_DeleteDate := word_of_int 1700000000\<rparr>) \<and>
    ReserveDelete mem_char_port 1700000000 1700000000 1 7 r1 = (Inr (0, 0), r1) \<and>
    CancelDelete mem_char_port 1 7 r1 = (Inr 1, r2) \<and> cr_chars r2 = cr_chars demo_chars"
  by (rule reserve_then_cancel_restores) (simp_all add: novice_def zero_character_def)

end
