(* ===== verification/PacketLogin.thy ===== *)
theory PacketLogin
  imports Wire
begin

text \<open>
  The login and character listeners' packets: \<open>login_parse.go\<close>, \<open>encode.go\<close>, \<open>char_info.go\<close>,
  \<open>char_parse.go\<close>, \<open>char_encode.go\<close> of \<open>pkg/ro/packet\<close>.
  A record is the Go struct, its fields the struct's with the type's name in front; a signed
  wire integer is the word with the same bits.
\<close>

unbundle bit_operations_syntax

section \<open>\<open>login_parse.go\<close>\<close>

record CALoginRequest =
  CALoginRequest_Version :: u32
  CALoginRequest_Username :: string
  CALoginRequest_Password :: string
  CALoginRequest_ClientType :: byte

definition ParseCALogin :: "frame \<Rightarrow> packet_error + CALoginRequest" where
  "ParseCALogin f = of_exact 55 0x0064 f
     \<lparr>CALoginRequest_Version = u32_at 2 f, CALoginRequest_Username = cstr (slice 6 24 f),
      CALoginRequest_Password = cstr (slice 30 24 f), CALoginRequest_ClientType = u8_at 54 f\<rparr>"

definition validate_CALoginRequest :: "CALoginRequest \<Rightarrow> packet_error option" where
  "validate_CALoginRequest r =
     (if length (CALoginRequest_Username r) > 24 then Some ErrCALoginUsernameTooLong
      else if length (CALoginRequest_Password r) > 24 then Some ErrCALoginPasswordTooLong
      else None)"

definition encode_CALoginRequest :: "CALoginRequest \<Rightarrow> packet_error + frame" where
  "encode_CALoginRequest r = (case validate_CALoginRequest r of
        Some e \<Rightarrow> Inl e
      | None \<Rightarrow> Inr (fill 55
     [put16 0 0x0064, put32 2 (CALoginRequest_Version r), writeFixedString 6 24 (CALoginRequest_Username r),
      writeFixedString 30 24 (CALoginRequest_Password r), put8 54 (CALoginRequest_ClientType r)]))"

section \<open>\<open>encode.go\<close>\<close>

record CharServer =
  CharServer_IP :: u32
  CharServer_Port :: u16
  CharServer_Name :: string
  CharServer_Users :: u16
  CharServer_Type :: u16
  CharServer_New :: u16

record AcceptLoginResponse =
  AcceptLoginResponse_LoginID1 :: u32
  AcceptLoginResponse_AID :: u32
  AcceptLoginResponse_LoginID2 :: u32
  AcceptLoginResponse_LastIP :: u32
  AcceptLoginResponse_LastLogin :: string
  AcceptLoginResponse_Sex :: byte
  AcceptLoginResponse_Token :: string
  AcceptLoginResponse_CharServers :: "CharServer list"

definition validate_AcceptLoginResponse :: "AcceptLoginResponse \<Rightarrow> packet_error option" where
  "validate_AcceptLoginResponse r =
     (if length (AcceptLoginResponse_CharServers r) > 409 then Some TooManyCharServers
      else if length (AcceptLoginResponse_LastLogin r) > 26 then Some ErrLastLoginTooLong
      else if length (AcceptLoginResponse_Token r) > 17 then Some ErrTokenTooLong
      else if list_ex (\<lambda>cs. length (CharServer_Name cs) > 20) (AcceptLoginResponse_CharServers r)
      then Some ErrCharServerNameTooLong
      else None)"

definition encode_CharServer :: "CharServer \<Rightarrow> frame" where
  "encode_CharServer cs = fill 160
     [put32 0 (CharServer_IP cs), put16 4 (CharServer_Port cs), writeFixedString 6 20 (CharServer_Name cs),
      put16 26 (CharServer_Users cs), put16 28 (CharServer_Type cs), put16 30 (CharServer_New cs)]"

definition size_AcceptLoginResponse :: "AcceptLoginResponse \<Rightarrow> nat" where
  "size_AcceptLoginResponse r = 64 + 160 * length (AcceptLoginResponse_CharServers r)"

definition encode_AcceptLoginResponse :: "AcceptLoginResponse \<Rightarrow> packet_error + frame" where
  "encode_AcceptLoginResponse r =
     (case validate_AcceptLoginResponse r of
        Some e \<Rightarrow> Inl e
      | None \<Rightarrow> Inr (fill 64
          [put16 0 0x0ac4, put16 2 (of_nat (size_AcceptLoginResponse r)),
           put32 4 (AcceptLoginResponse_LoginID1 r), put32 8 (AcceptLoginResponse_AID r),
           put32 12 (AcceptLoginResponse_LoginID2 r), put32 16 (AcceptLoginResponse_LastIP r),
           writeFixedString 20 26 (AcceptLoginResponse_LastLogin r), put8 46 (AcceptLoginResponse_Sex r),
           writeFixedString 47 17 (AcceptLoginResponse_Token r)]
         @ concat (map encode_CharServer (AcceptLoginResponse_CharServers r))))"

record RefuseLoginResponse =
  RefuseLoginResponse_Error :: u32
  RefuseLoginResponse_UnblockTime :: string

definition validate_RefuseLoginResponse :: "RefuseLoginResponse \<Rightarrow> packet_error option" where
  "validate_RefuseLoginResponse r =
     (if length (RefuseLoginResponse_UnblockTime r) > 20 then Some ErrUnblockTimeTooLong else None)"

definition encode_RefuseLoginResponse :: "RefuseLoginResponse \<Rightarrow> packet_error + frame" where
  "encode_RefuseLoginResponse r = (case validate_RefuseLoginResponse r of
        Some e \<Rightarrow> Inl e
      | None \<Rightarrow> Inr (fill 26
     [put16 0 0x083e, put32 2 (RefuseLoginResponse_Error r),
      writeFixedString 6 20 (RefuseLoginResponse_UnblockTime r)]))"

section \<open>\<open>char_info.go\<close>\<close>

record CharacterInfo =
  CharacterInfo_GID :: u32
  CharacterInfo_Exp :: u64
  CharacterInfo_Money :: u32
  CharacterInfo_JobExp :: u64
  CharacterInfo_JobLevel :: u32
  CharacterInfo_BodyState :: u32
  CharacterInfo_HealthState :: u32
  CharacterInfo_EffectState :: u32
  CharacterInfo_Virtue :: u32
  CharacterInfo_Honor :: u32
  CharacterInfo_JobPoint :: u16
  CharacterInfo_HP :: u64
  CharacterInfo_MaxHP :: u64
  CharacterInfo_SP :: u64
  CharacterInfo_MaxSP :: u64
  CharacterInfo_Speed :: u16
  CharacterInfo_Job :: u16
  CharacterInfo_Head :: u16
  CharacterInfo_Body :: u16
  CharacterInfo_Weapon :: u16
  CharacterInfo_Level :: u16
  CharacterInfo_SPPoint :: u16
  CharacterInfo_Accessory :: u16
  CharacterInfo_Shield :: u16
  CharacterInfo_Accessory2 :: u16
  CharacterInfo_Accessory3 :: u16
  CharacterInfo_HeadPalette :: u16
  CharacterInfo_BodyPalette :: u16
  CharacterInfo_Name :: string
  CharacterInfo_Str :: byte
  CharacterInfo_Agi :: byte
  CharacterInfo_Vit :: byte
  CharacterInfo_Int :: byte
  CharacterInfo_Dex :: byte
  CharacterInfo_Luk :: byte
  CharacterInfo_CharNum :: byte
  CharacterInfo_HairColor :: byte
  CharacterInfo_IsChangedCharName :: u16
  CharacterInfo_MapName :: string
  CharacterInfo_DelRevDate :: u32
  CharacterInfo_RobePalette :: u32
  CharacterInfo_ChrSlotChangeCnt :: u32
  CharacterInfo_ChrNameChangeCnt :: u32
  CharacterInfo_Sex :: byte

definition validate_CharacterInfo :: "CharacterInfo \<Rightarrow> packet_error option" where
  "validate_CharacterInfo c =
     (if length (CharacterInfo_Name c) > 24 then Some ErrCharNameTooLong
      else if length (CharacterInfo_MapName c) > 16 then Some ErrMapNameTooLong
      else None)"

definition encodeInto :: "CharacterInfo \<Rightarrow> packet_error + frame" where
  "encodeInto c = (case validate_CharacterInfo c of
        Some e \<Rightarrow> Inl e
      | None \<Rightarrow> Inr (fill 175
     [put32 0 (CharacterInfo_GID c), put64 4 (CharacterInfo_Exp c), put32 12 (CharacterInfo_Money c),
      put64 16 (CharacterInfo_JobExp c), put32 24 (CharacterInfo_JobLevel c), put32 28 (CharacterInfo_BodyState c),
      put32 32 (CharacterInfo_HealthState c), put32 36 (CharacterInfo_EffectState c),
      put32 40 (CharacterInfo_Virtue c), put32 44 (CharacterInfo_Honor c), put16 48 (CharacterInfo_JobPoint c),
      put64 50 (CharacterInfo_HP c), put64 58 (CharacterInfo_MaxHP c), put64 66 (CharacterInfo_SP c),
      put64 74 (CharacterInfo_MaxSP c), put16 82 (CharacterInfo_Speed c), put16 84 (CharacterInfo_Job c),
      put16 86 (CharacterInfo_Head c), put16 88 (CharacterInfo_Body c), put16 90 (CharacterInfo_Weapon c),
      put16 92 (CharacterInfo_Level c), put16 94 (CharacterInfo_SPPoint c), put16 96 (CharacterInfo_Accessory c),
      put16 98 (CharacterInfo_Shield c), put16 100 (CharacterInfo_Accessory2 c),
      put16 102 (CharacterInfo_Accessory3 c), put16 104 (CharacterInfo_HeadPalette c),
      put16 106 (CharacterInfo_BodyPalette c), writeFixedString 108 24 (CharacterInfo_Name c),
      put8 132 (CharacterInfo_Str c), put8 133 (CharacterInfo_Agi c), put8 134 (CharacterInfo_Vit c),
      put8 135 (CharacterInfo_Int c), put8 136 (CharacterInfo_Dex c), put8 137 (CharacterInfo_Luk c),
      put8 138 (CharacterInfo_CharNum c), put8 139 (CharacterInfo_HairColor c),
      put16 140 (CharacterInfo_IsChangedCharName c), writeFixedString 142 16 (CharacterInfo_MapName c),
      put32 158 (CharacterInfo_DelRevDate c), put32 162 (CharacterInfo_RobePalette c),
      put32 166 (CharacterInfo_ChrSlotChangeCnt c), put32 170 (CharacterInfo_ChrNameChangeCnt c),
      put8 174 (CharacterInfo_Sex c)]))"

definition encode_CharacterInfo :: "CharacterInfo \<Rightarrow> packet_error + frame" where
  "encode_CharacterInfo c =
     (case validate_CharacterInfo c of Some e \<Rightarrow> Inl e | None \<Rightarrow> encodeInto c)"

section \<open>\<open>char_parse.go\<close>\<close>

record CHEnterRequest =
  CHEnterRequest_AccountID :: u32
  CHEnterRequest_LoginID1 :: u32
  CHEnterRequest_LoginID2 :: u32
  CHEnterRequest_Sex :: byte

definition ParseCHEnter :: "frame \<Rightarrow> packet_error + CHEnterRequest" where
  "ParseCHEnter f = of_exact 17 0x0065 f
     \<lparr>CHEnterRequest_AccountID = u32_at 2 f, CHEnterRequest_LoginID1 = u32_at 6 f,
      CHEnterRequest_LoginID2 = u32_at 10 f, CHEnterRequest_Sex = u8_at 16 f\<rparr>"

definition encode_CHEnterRequest :: "CHEnterRequest \<Rightarrow> frame" where
  "encode_CHEnterRequest r = fill 17
     [put16 0 0x0065, put32 2 (CHEnterRequest_AccountID r), put32 6 (CHEnterRequest_LoginID1 r),
      put32 10 (CHEnterRequest_LoginID2 r), put8 16 (CHEnterRequest_Sex r)]"

record CHSelectCharRequest =
  CHSelectCharRequest_Slot :: byte

definition ParseCHSelectChar :: "frame \<Rightarrow> packet_error + CHSelectCharRequest" where
  "ParseCHSelectChar f = of_exact 3 0x0066 f
     \<lparr>CHSelectCharRequest_Slot = u8_at 2 f\<rparr>"

definition encode_CHSelectCharRequest :: "CHSelectCharRequest \<Rightarrow> frame" where
  "encode_CHSelectCharRequest r = fill 3
     [put16 0 0x0066, put8 2 (CHSelectCharRequest_Slot r)]"

record CHMakeCharRequest =
  CHMakeCharRequest_Name :: string
  CHMakeCharRequest_Slot :: byte
  CHMakeCharRequest_HairColor :: u16
  CHMakeCharRequest_HairStyle :: u16
  CHMakeCharRequest_Job :: u32
  CHMakeCharRequest_Sex :: byte

definition ParseCHMakeChar :: "frame \<Rightarrow> packet_error + CHMakeCharRequest" where
  "ParseCHMakeChar f = of_exact 36 0x0a39 f
     \<lparr>CHMakeCharRequest_Name = string_of (trim_nul (slice 2 24 f)), CHMakeCharRequest_Slot = u8_at 26 f,
      CHMakeCharRequest_HairColor = u16_at 27 f, CHMakeCharRequest_HairStyle = u16_at 29 f,
      CHMakeCharRequest_Job = u32_at 31 f, CHMakeCharRequest_Sex = u8_at 35 f\<rparr>"

definition validate_CHMakeCharRequest :: "CHMakeCharRequest \<Rightarrow> packet_error option" where
  "validate_CHMakeCharRequest r = (if length (CHMakeCharRequest_Name r) > 24 then Some ErrCharNameTooLong else None)"

definition encode_CHMakeCharRequest :: "CHMakeCharRequest \<Rightarrow> packet_error + frame" where
  "encode_CHMakeCharRequest r = (case validate_CHMakeCharRequest r of
        Some e \<Rightarrow> Inl e
      | None \<Rightarrow> Inr (fill 36
     [put16 0 0x0a39, writeFixedString 2 24 (CHMakeCharRequest_Name r), put8 26 (CHMakeCharRequest_Slot r),
      put16 27 (CHMakeCharRequest_HairColor r), put16 29 (CHMakeCharRequest_HairStyle r),
      put32 31 (CHMakeCharRequest_Job r), put8 35 (CHMakeCharRequest_Sex r)]))"

record CHDeleteChar3ReservedRequest =
  CHDeleteChar3ReservedRequest_CID :: u32

definition ParseCHDeleteChar3Reserved :: "frame \<Rightarrow> packet_error + CHDeleteChar3ReservedRequest" where
  "ParseCHDeleteChar3Reserved f = of_exact 6 0x0827 f
     \<lparr>CHDeleteChar3ReservedRequest_CID = u32_at 2 f\<rparr>"

record CHDeleteChar3Request =
  CHDeleteChar3Request_CID :: u32
  CHDeleteChar3Request_Birthdate :: "byte list"

definition ParseCHDeleteChar3 :: "frame \<Rightarrow> packet_error + CHDeleteChar3Request" where
  "ParseCHDeleteChar3 f = of_exact 12 0x0829 f
     \<lparr>CHDeleteChar3Request_CID = u32_at 2 f, CHDeleteChar3Request_Birthdate = slice 6 6 f\<rparr>"

record CHDeleteChar3CancelRequest =
  CHDeleteChar3CancelRequest_CID :: u32

definition ParseCHDeleteChar3Cancel :: "frame \<Rightarrow> packet_error + CHDeleteChar3CancelRequest" where
  "ParseCHDeleteChar3Cancel f = of_exact 6 0x082b f
     \<lparr>CHDeleteChar3CancelRequest_CID = u32_at 2 f\<rparr>"

section \<open>\<open>char_encode.go\<close>\<close>

record RefuseEnterResponse =
  RefuseEnterResponse_Error :: byte

definition encode_RefuseEnterResponse :: "RefuseEnterResponse \<Rightarrow> frame" where
  "encode_RefuseEnterResponse r = fill 3
     [put16 0 0x006c, put8 2 (RefuseEnterResponse_Error r)]"

record RefuseMakeCharResponse =
  RefuseMakeCharResponse_Error :: byte

definition encode_RefuseMakeCharResponse :: "RefuseMakeCharResponse \<Rightarrow> frame" where
  "encode_RefuseMakeCharResponse r = fill 3
     [put16 0 0x006e, put8 2 (RefuseMakeCharResponse_Error r)]"

record AcceptMakeCharResponse =
  AcceptMakeCharResponse_Character :: CharacterInfo

definition encode_AcceptMakeCharResponse :: "AcceptMakeCharResponse \<Rightarrow> packet_error + frame" where
  "encode_AcceptMakeCharResponse r =
     (case encodeInto (AcceptMakeCharResponse_Character r) of
        Inl e \<Rightarrow> Inl e
      | Inr charBuf \<Rightarrow> Inr (fill 177 [put16 0 0x0b6f, (2, charBuf)]))"

record NotifyZoneServerResponse =
  NotifyZoneServerResponse_CID :: u32
  NotifyZoneServerResponse_MapName :: string
  NotifyZoneServerResponse_IP :: u32
  NotifyZoneServerResponse_Port :: u16
  NotifyZoneServerResponse_Domain :: string

definition validate_NotifyZoneServerResponse :: "NotifyZoneServerResponse \<Rightarrow> packet_error option" where
  "validate_NotifyZoneServerResponse r =
     (if length (NotifyZoneServerResponse_MapName r) > 16 then Some ErrMapNameTooLong
      else if length (NotifyZoneServerResponse_Domain r) > 128 then Some ErrDomainTooLong
      else None)"

definition encode_NotifyZoneServerResponse :: "NotifyZoneServerResponse \<Rightarrow> packet_error + frame" where
  "encode_NotifyZoneServerResponse r = (case validate_NotifyZoneServerResponse r of
        Some e \<Rightarrow> Inl e
      | None \<Rightarrow> Inr (fill 156
     [put16 0 0x0ac5, put32 2 (NotifyZoneServerResponse_CID r),
      writeFixedString 6 16 (NotifyZoneServerResponse_MapName r), put32 22 (NotifyZoneServerResponse_IP r),
      put16 26 (NotifyZoneServerResponse_Port r), writeFixedString 28 128 (NotifyZoneServerResponse_Domain r)]))"

record CharDeleteReservedResponse =
  CharDeleteReservedResponse_CID :: u32
  CharDeleteReservedResponse_Result :: u32
  CharDeleteReservedResponse_Date :: u32

definition encode_CharDeleteReservedResponse :: "CharDeleteReservedResponse \<Rightarrow> frame" where
  "encode_CharDeleteReservedResponse r = fill 14
     [put16 0 0x0828, put32 2 (CharDeleteReservedResponse_CID r), put32 6 (CharDeleteReservedResponse_Result r),
      put32 10 (CharDeleteReservedResponse_Date r)]"

record CharDeleteResponse =
  CharDeleteResponse_CID :: u32
  CharDeleteResponse_Result :: u32

definition encode_CharDeleteResponse :: "CharDeleteResponse \<Rightarrow> frame" where
  "encode_CharDeleteResponse r = fill 10
     [put16 0 0x082a, put32 2 (CharDeleteResponse_CID r), put32 6 (CharDeleteResponse_Result r)]"

record CharDeleteCancelResponse =
  CharDeleteCancelResponse_CID :: u32
  CharDeleteCancelResponse_Result :: u32

definition encode_CharDeleteCancelResponse :: "CharDeleteCancelResponse \<Rightarrow> frame" where
  "encode_CharDeleteCancelResponse r = fill 10
     [put16 0 0x082c, put32 2 (CharDeleteCancelResponse_CID r), put32 6 (CharDeleteCancelResponse_Result r)]"

record AcceptEnterResponse =
  AcceptEnterResponse_Total :: byte
  AcceptEnterResponse_PremiumStart :: byte
  AcceptEnterResponse_PremiumEnd :: byte
  AcceptEnterResponse_Extension :: string
  AcceptEnterResponse_Characters :: "CharacterInfo list"

definition size_AcceptEnterResponse :: "AcceptEnterResponse \<Rightarrow> nat" where
  "size_AcceptEnterResponse r = 27 + 175 * length (AcceptEnterResponse_Characters r)"

fun first_invalid :: "CharacterInfo list \<Rightarrow> packet_error option" where
  "first_invalid [] = None"
| "first_invalid (c # cs) = (case validate_CharacterInfo c of Some e \<Rightarrow> Some e | None \<Rightarrow> first_invalid cs)"

definition validate_AcceptEnterResponse :: "AcceptEnterResponse \<Rightarrow> packet_error option" where
  "validate_AcceptEnterResponse r =
     (if length (AcceptEnterResponse_Extension r) > 20 then Some ErrExtensionTooLong
      else if size_AcceptEnterResponse r > 0xffff then Some ErrPacketTooLong
      else first_invalid (AcceptEnterResponse_Characters r))"

fun encode_Characters :: "CharacterInfo list \<Rightarrow> packet_error + frame" where
  "encode_Characters [] = Inr []"
| "encode_Characters (c # cs) =
     (case encodeInto c of
        Inl e \<Rightarrow> Inl e
      | Inr charBuf \<Rightarrow> (case encode_Characters cs of Inl e \<Rightarrow> Inl e | Inr f \<Rightarrow> Inr (charBuf @ f)))"

definition encode_AcceptEnterResponse :: "AcceptEnterResponse \<Rightarrow> packet_error + frame" where
  "encode_AcceptEnterResponse r =
     (case validate_AcceptEnterResponse r of
        Some e \<Rightarrow> Inl e
      | None \<Rightarrow> (case encode_Characters (AcceptEnterResponse_Characters r) of
          Inl e \<Rightarrow> Inl e
        | Inr chars \<Rightarrow> Inr (fill 27
            [put16 0 0x006b, put16 2 (of_nat (size_AcceptEnterResponse r)), put8 4 (AcceptEnterResponse_Total r),
             put8 5 (AcceptEnterResponse_PremiumStart r), put8 6 (AcceptEnterResponse_PremiumEnd r),
             writeFixedString 7 20 (AcceptEnterResponse_Extension r)]
           @ chars)))"

section \<open>Layouts and round trips\<close>

lemma encode_CHEnterRequest_framed [framings]: "framed 0x0065 17 (encode_CHEnterRequest r)"
  unfolding encode_CHEnterRequest_def by (rule framed_fill) (simp_all add: wire_puts)

lemma encode_CHSelectCharRequest_framed [framings]: "framed 0x0066 3 (encode_CHSelectCharRequest r)"
  unfolding encode_CHSelectCharRequest_def by (rule framed_fill) (simp_all add: wire_puts)

lemma encode_RefuseEnterResponse_framed [framings]: "framed 0x006c 3 (encode_RefuseEnterResponse r)"
  unfolding encode_RefuseEnterResponse_def by (rule framed_fill) (simp_all add: wire_puts)

lemma encode_RefuseMakeCharResponse_framed [framings]: "framed 0x006e 3 (encode_RefuseMakeCharResponse r)"
  unfolding encode_RefuseMakeCharResponse_def by (rule framed_fill) (simp_all add: wire_puts)

lemma encode_CharDeleteReservedResponse_framed [framings]: "framed 0x0828 14 (encode_CharDeleteReservedResponse r)"
  unfolding encode_CharDeleteReservedResponse_def by (rule framed_fill) (simp_all add: wire_puts)

lemma encode_CharDeleteResponse_framed [framings]: "framed 0x082a 10 (encode_CharDeleteResponse r)"
  unfolding encode_CharDeleteResponse_def by (rule framed_fill) (simp_all add: wire_puts)

lemma encode_CharDeleteCancelResponse_framed [framings]: "framed 0x082c 10 (encode_CharDeleteCancelResponse r)"
  unfolding encode_CharDeleteCancelResponse_def by (rule framed_fill) (simp_all add: wire_puts)

lemma ParseCHEnter_encode: "ParseCHEnter (encode_CHEnterRequest r) = Inr r"
  by (cases r) (simp add: ParseCHEnter_def encode_CHEnterRequest_def of_exact_def wire_reads wire_puts)

lemma ParseCHSelectChar_encode: "ParseCHSelectChar (encode_CHSelectCharRequest r) = Inr r"
  by (cases r) (simp add: ParseCHSelectChar_def encode_CHSelectCharRequest_def of_exact_def wire_reads wire_puts)

end
