(* ===== verification/PacketDB.thy ===== *)
theory PacketDB
  imports Wire "HOL-Library.AList"
begin

text \<open>
  The packet length database (\<open>packet.go\<close>) and the three tables of registered packets
  (\<open>NewLoginServerDB\<close>, \<open>NewCharServerDB\<close>, \<open>NewMapServerDB\<close>). Go's map from command to definition is an
  association list with one entry per command; \<open>Register\<close> replaces the entry of a command that is
  already there, as the assignment \<open>db.entries[d.ID] = d\<close> does.
\<close>

datatype Direction = DirectionClientToServer | DirectionServerToClient

definition VariableLength :: int where "VariableLength = -1"

record Definition =
  Definition_ID :: u16
  Definition_Name :: string
  Definition_Length :: int
  Definition_Direction :: Direction

definition Def :: "u16 \<Rightarrow> string \<Rightarrow> int \<Rightarrow> Direction \<Rightarrow> Definition" where
  "Def i n l d = \<lparr>Definition_ID = i, Definition_Name = n, Definition_Length = l, Definition_Direction = d\<rparr>"

type_synonym DB = "(u16 \<times> Definition) list"

definition NewDB :: DB where "NewDB = []"

definition Register :: "DB \<Rightarrow> Definition \<Rightarrow> DB" where
  "Register db d = AList.update (Definition_ID d) d db"

definition db_Lookup :: "DB \<Rightarrow> u16 \<Rightarrow> Definition option" where
  "db_Lookup db cmd = map_of db cmd"

definition db_Length :: "DB \<Rightarrow> u16 \<Rightarrow> int option" where
  "db_Length db cmd = (case db_Lookup db cmd of None \<Rightarrow> None | Some d \<Rightarrow> Some (Definition_Length d))"

definition db_Has :: "DB \<Rightarrow> u16 \<Rightarrow> bool" where
  "db_Has db cmd \<longleftrightarrow> db_Lookup db cmd \<noteq> None"

definition db_Size :: "DB \<Rightarrow> nat" where
  "db_Size db = length db"

text \<open>\<open>Merge(nil)\<close> does nothing.\<close>

definition db_Merge :: "DB \<Rightarrow> DB option \<Rightarrow> DB" where
  "db_Merge db other =
     (case other of None \<Rightarrow> db | Some es \<Rightarrow> foldl (\<lambda>db (cmd, d). AList.update cmd d db) db es)"

section \<open>The tables\<close>

definition login_definitions :: "Definition list" where
  "login_definitions =
     [Def 0x0200 ''CA_CONNECT_INFO_CHANGED'' 26 DirectionClientToServer,
      Def 0x0204 ''CA_EXE_HASHCHECK'' 18 DirectionClientToServer,
      Def 0x0064 ''CA_LOGIN'' 55 DirectionClientToServer,
      Def 0x0277 ''CA_LOGIN_PCBANG'' 84 DirectionClientToServer,
      Def 0x02b0 ''CA_LOGIN_CHANNEL'' 85 DirectionClientToServer,
      Def 0x01dd ''CA_LOGIN2'' 47 DirectionClientToServer,
      Def 0x01fa ''CA_LOGIN3'' 48 DirectionClientToServer,
      Def 0x027c ''CA_LOGIN4'' 60 DirectionClientToServer,
      Def 0x0825 ''CA_SSO_LOGIN_REQ'' VariableLength DirectionClientToServer,
      Def 0x01db ''CA_REQ_HASH'' 2 DirectionClientToServer,
      Def 0x0acf ''CT_AUTH'' 68 DirectionClientToServer,
      Def 0x0081 ''SC_NOTIFY_BAN'' 3 DirectionServerToClient,
      Def 0x01dc ''AC_ACK_HASH'' VariableLength DirectionServerToClient,
      Def 0x0069 ''AC_ACCEPT_LOGIN_OLD'' VariableLength DirectionServerToClient,
      Def 0x0ac4 ''AC_ACCEPT_LOGIN'' VariableLength DirectionServerToClient,
      Def 0x006a ''AC_REFUSE_LOGIN_OLD'' 23 DirectionServerToClient,
      Def 0x083e ''AC_REFUSE_LOGIN'' 26 DirectionServerToClient]"

definition char_definitions :: "Definition list" where
  "char_definitions =
     [Def 0x0065 ''CH_ENTER'' 17 DirectionClientToServer,
      Def 0x0066 ''CH_SELECT_CHAR'' 3 DirectionClientToServer,
      Def 0x0a39 ''CH_MAKE_CHAR'' 36 DirectionClientToServer,
      Def 0x006c ''HC_REFUSE_ENTER'' 3 DirectionServerToClient,
      Def 0x006b ''HC_ACCEPT_ENTER'' VariableLength DirectionServerToClient,
      Def 0x0ac5 ''HC_NOTIFY_ZONESVR'' 156 DirectionServerToClient,
      Def 0x0b6f ''HC_ACCEPT_MAKECHAR'' 177 DirectionServerToClient,
      Def 0x006e ''HC_REFUSE_MAKECHAR'' 3 DirectionServerToClient,
      Def 0x0828 ''HC_DELETE_CHAR3_RESERVED'' 14 DirectionServerToClient,
      Def 0x082a ''HC_DELETE_CHAR3'' 10 DirectionServerToClient,
      Def 0x082c ''HC_DELETE_CHAR3_CANCEL'' 10 DirectionServerToClient]"

definition map_definitions :: "Definition list" where
  "map_definitions =
     [Def 0x0072 ''CZ_ENTER'' 19 DirectionClientToServer,
      Def 0x0085 ''CZ_REQUEST_MOVE'' 5 DirectionClientToServer,
      Def 0x007d ''CZ_NOTIFY_ACTORINIT'' 2 DirectionClientToServer,
      Def 0x007e ''CZ_REQUEST_TIME'' 6 DirectionClientToServer,
      Def 0x0089 ''CZ_ACTION_REQUEST'' 7 DirectionClientToServer,
      Def 0x008c ''CZ_GLOBAL_MESSAGE'' VariableLength DirectionClientToServer,
      Def 0x009b ''CZ_CHANGE_DIRECTION'' 5 DirectionClientToServer,
      Def 0x00bf ''CZ_REQ_EMOTION'' 3 DirectionClientToServer,
      Def 0x00cf ''CZ_PMIgnore'' 27 DirectionClientToServer,
      Def 0x00d0 ''CZ_SETTING_WHISPER_STATE'' 3 DirectionClientToServer,
      Def 0x00d3 ''CZ_REQ_WHISPER_LIST'' 2 DirectionClientToServer,
      Def 0x00d1 ''ZC_SETTING_WHISPER_PC'' 4 DirectionServerToClient,
      Def 0x00d2 ''ZC_SETTING_WHISPER_STATE'' 4 DirectionServerToClient,
      Def 0x00d4 ''ZC_WHISPER_LIST'' VariableLength DirectionServerToClient,
      Def 0x0094 ''CZ_GETCHARNAMEREQUEST'' 6 DirectionClientToServer,
      Def 0x00b2 ''CZ_RESTART'' 3 DirectionClientToServer,
      Def 0x0112 ''CZ_SKILLUP'' 4 DirectionClientToServer,
      Def 0x0074 ''ZC_REFUSE_ENTER'' 3 DirectionServerToClient,
      Def 0x02eb ''ZC_ACCEPT_ENTER'' 13 DirectionServerToClient,
      Def 0x0091 ''ZC_NPCACK_MAPMOVE'' 22 DirectionServerToClient,
      Def 0x0087 ''ZC_NOTIFY_PLAYERMOVE'' 12 DirectionServerToClient,
      Def 0x09fe ''ZC_SPAWN_UNIT'' 107 DirectionServerToClient,
      Def 0x099b ''ZC_MAPPROPERTY_R2'' 8 DirectionServerToClient,
      Def 0x007f ''ZC_NOTIFY_TIME'' 6 DirectionServerToClient,
      Def 0x00bd ''ZC_STATUS'' 44 DirectionServerToClient,
      Def 0x00b0 ''ZC_PAR_CHANGE'' 8 DirectionServerToClient,
      Def 0x00b1 ''ZC_LONGPAR_CHANGE'' 8 DirectionServerToClient,
      Def 0x0acb ''ZC_LONGLONGPAR_CHANGE'' 12 DirectionServerToClient,
      Def 0x0b08 ''ZC_INVENTORY_START'' 6 DirectionServerToClient,
      Def 0x0b09 ''ZC_INVENTORY_ITEMLIST_NORMAL'' VariableLength DirectionServerToClient,
      Def 0x0b39 ''ZC_INVENTORY_ITEMLIST_EQUIP'' VariableLength DirectionServerToClient,
      Def 0x0b0b ''ZC_INVENTORY_END'' 4 DirectionServerToClient,
      Def 0x010f ''ZC_SKILLINFO_LIST'' VariableLength DirectionServerToClient,
      Def 0x0b20 ''ZC_SHORTCUT_KEY_LIST'' 271 DirectionServerToClient,
      Def 0x008d ''ZC_NOTIFY_CHAT'' VariableLength DirectionServerToClient,
      Def 0x008b ''ZC_ACTION_RESPONSE'' 11 DirectionServerToClient,
      Def 0x009c ''ZC_CHANGE_DIRECTION'' 9 DirectionServerToClient,
      Def 0x00c0 ''ZC_EMOTION'' 7 DirectionServerToClient,
      Def 0x01d7 ''ZC_SPRITE_CHANGE'' 15 DirectionServerToClient,
      Def 0x0095 ''ZC_ACK_REQNAME'' 30 DirectionServerToClient,
      Def 0x0a30 ''ZC_ACK_REQNAMEALL2'' 106 DirectionServerToClient,
      Def 0x0adf ''ZC_ACK_REQNAMEALL_NPC'' 58 DirectionServerToClient,
      Def 0x0096 ''CZ_WHISPER'' VariableLength DirectionClientToServer,
      Def 0x09de ''ZC_WHISPER'' VariableLength DirectionServerToClient,
      Def 0x09df ''ZC_ACK_WHISPER'' 7 DirectionServerToClient,
      Def 0x09ff ''ZC_SET_UNIT_IDLE'' 107 DirectionServerToClient,
      Def 0x09fd ''ZC_UNIT_WALKING'' 114 DirectionServerToClient,
      Def 0x0090 ''CZ_CONTACTNPC'' 7 DirectionClientToServer,
      Def 0x00b9 ''CZ_REQNEXTSCRIPT'' 6 DirectionClientToServer,
      Def 0x0146 ''CZ_CLOSE_DIALOG'' 6 DirectionClientToServer,
      Def 0x00b8 ''CZ_CHOOSE_MENU'' 7 DirectionClientToServer,
      Def 0x0143 ''CZ_INPUT_EDITDLG'' 10 DirectionClientToServer,
      Def 0x01d5 ''CZ_INPUT_EDITDLGSTR'' VariableLength DirectionClientToServer,
      Def 0x0142 ''ZC_OPEN_EDITDLG'' 6 DirectionServerToClient,
      Def 0x01d4 ''ZC_OPEN_EDITDLGSTR'' 6 DirectionServerToClient,
      Def 0x0972 ''ZC_SAY_DIALOG2'' VariableLength DirectionServerToClient,
      Def 0x0973 ''ZC_WAIT_DIALOG2'' 7 DirectionServerToClient,
      Def 0x00b6 ''ZC_CLOSE_DIALOG'' 6 DirectionServerToClient,
      Def 0x00b7 ''ZC_MENU_LIST'' VariableLength DirectionServerToClient,
      Def 0x00c5 ''CZ_ACK_SELECT_DEALTYPE'' 7 DirectionClientToServer,
      Def 0x00c8 ''CZ_PC_PURCHASE_ITEMLIST'' VariableLength DirectionClientToServer,
      Def 0x00c4 ''ZC_SELECT_DEALTYPE'' 6 DirectionServerToClient,
      Def 0x0b77 ''ZC_PC_PURCHASE_ITEMLIST'' VariableLength DirectionServerToClient,
      Def 0x00ca ''ZC_PC_PURCHASE_RESULT'' 3 DirectionServerToClient,
      Def 0x00c9 ''CZ_PC_SELL_ITEMLIST'' VariableLength DirectionClientToServer,
      Def 0x00c7 ''ZC_PC_SELL_ITEMLIST'' VariableLength DirectionServerToClient,
      Def 0x00cb ''ZC_PC_SELL_RESULT'' 3 DirectionServerToClient,
      Def 0x08c8 ''ZC_NOTIFY_ACT'' 34 DirectionServerToClient,
      Def 0x0080 ''ZC_NOTIFY_VANISH'' 7 DirectionServerToClient,
      Def 0x009f ''CZ_ITEM_PICKUP'' 6 DirectionClientToServer,
      Def 0x0439 ''CZ_USE_ITEM2'' 8 DirectionClientToServer,
      Def 0x0998 ''CZ_REQ_WEAR_EQUIP_V5'' 8 DirectionClientToServer,
      Def 0x00ab ''CZ_REQ_TAKEOFF_EQUIP'' 4 DirectionClientToServer,
      Def 0x0999 ''ZC_REQ_WEAR_EQUIP_ACK_V5'' 11 DirectionServerToClient,
      Def 0x099a ''ZC_REQ_TAKEOFF_EQUIP_ACK'' 9 DirectionServerToClient,
      Def 0x01c8 ''ZC_USE_ITEM_ACK2'' 13 DirectionServerToClient,
      Def 0x00bb ''CZ_STATUS_CHANGE'' 5 DirectionClientToServer,
      Def 0x00bc ''ZC_STATUS_CHANGE_ACK'' 6 DirectionServerToClient,
      Def 0x019b ''ZC_NOTIFY_EFFECT'' 10 DirectionServerToClient,
      Def 0x0438 ''CZ_USE_SKILL2'' 10 DirectionClientToServer,
      Def 0x01de ''ZC_NOTIFY_SKILL'' 33 DirectionServerToClient,
      Def 0x0110 ''ZC_ACK_TOUSESKILL'' 14 DirectionServerToClient,
      Def 0x0af4 ''CZ_USE_SKILL_TOPOS'' 11 DirectionClientToServer,
      Def 0x0117 ''ZC_NOTIFY_GROUNDSKILL'' 18 DirectionServerToClient,
      Def 0x00e4 ''CZ_TRADE_REQUEST'' 6 DirectionClientToServer,
      Def 0x00e6 ''CZ_TRADE_ACK'' 3 DirectionClientToServer,
      Def 0x00ed ''CZ_TRADE_CANCEL'' 2 DirectionClientToServer,
      Def 0x01f4 ''ZC_REQ_EXCHANGE_ITEM'' 32 DirectionServerToClient,
      Def 0x01f5 ''ZC_ACK_EXCHANGE_ITEM'' 9 DirectionServerToClient,
      Def 0x00ee ''ZC_CANCEL_EXCHANGE_ITEM'' 2 DirectionServerToClient,
      Def 0x00e8 ''CZ_ADD_EXCHANGE_ITEM'' 8 DirectionClientToServer,
      Def 0x00eb ''CZ_TRADE_OK'' 2 DirectionClientToServer,
      Def 0x0b42 ''ZC_ADD_EXCHANGE_ITEM'' 62 DirectionServerToClient,
      Def 0x00ea ''ZC_ACK_ADD_EXCHANGE_ITEM'' 5 DirectionServerToClient,
      Def 0x00ec ''ZC_CONCLUDE_EXCHANGE_ITEM'' 3 DirectionServerToClient,
      Def 0x0add ''ZC_ITEM_FALL_ENTRY'' 24 DirectionServerToClient,
      Def 0x0363 ''CZ_ITEM_DROP'' 6 DirectionClientToServer,
      Def 0x0885 ''CZ_ITEM_DROP'' 6 DirectionClientToServer,
      Def 0x02c4 ''CZ_ITEM_DROP'' 6 DirectionClientToServer,
      Def 0x0891 ''CZ_ITEM_DROP'' 6 DirectionClientToServer,
      Def 0x089e ''CZ_ITEM_DROP'' 6 DirectionClientToServer,
      Def 0x0362 ''CZ_ITEM_PICKUP'' 6 DirectionClientToServer,
      Def 0x009d ''ZC_ITEM_ENTRY'' 19 DirectionServerToClient,
      Def 0x00a1 ''ZC_ITEM_DISAPPEAR'' 6 DirectionServerToClient,
      Def 0x00af ''ZC_ITEM_THROW_ACK'' 6 DirectionServerToClient,
      Def 0x0b41 ''ZC_ITEM_PICKUP_ACK'' 70 DirectionServerToClient,
      Def 0x07fa ''ZC_DELETE_ITEM_FROM_BODY'' 8 DirectionServerToClient,
      Def 0x00f9 ''CZ_MAKE_GROUP'' 26 DirectionClientToServer,
      Def 0x01e8 ''CZ_MAKE_GROUP2'' 28 DirectionClientToServer,
      Def 0x00fc ''CZ_REQ_JOIN_GROUP'' 6 DirectionClientToServer,
      Def 0x00ff ''CZ_JOIN_GROUP'' 10 DirectionClientToServer,
      Def 0x0100 ''CZ_REQ_LEAVE_GROUP'' 2 DirectionClientToServer,
      Def 0x0102 ''CZ_CHANGE_GROUPEXPOPTION'' 6 DirectionClientToServer,
      Def 0x0103 ''CZ_REQ_EXPEL_GROUP_MEMBER'' 30 DirectionClientToServer,
      Def 0x00fa ''ZC_ACK_MAKE_GROUP'' 3 DirectionServerToClient,
      Def 0x02c6 ''ZC_PARTY_JOIN_REQ'' 30 DirectionServerToClient,
      Def 0x02c5 ''ZC_PARTY_JOIN_REQ_ACK'' 30 DirectionServerToClient,
      Def 0x02c9 ''ZC_PARTY_CONFIG'' 3 DirectionServerToClient,
      Def 0x0ae5 ''ZC_GROUP_LIST'' 28 DirectionServerToClient,
      Def 0x0ae4 ''ZC_ADD_MEMBER_TO_GROUP'' 89 DirectionServerToClient,
      Def 0x0105 ''ZC_DELETE_MEMBER_FROM_GROUP'' 31 DirectionServerToClient,
      Def 0x09e8 ''CZ_OPEN_MAILBOX'' 11 DirectionClientToServer,
      Def 0x09ee ''CZ_REQ_NEXT_MAIL_LIST'' 11 DirectionClientToServer,
      Def 0x09ef ''CZ_REQ_REFRESH_MAIL_LIST'' 11 DirectionClientToServer,
      Def 0x0ac0 ''CZ_OPEN_MAILBOX2'' 26 DirectionClientToServer,
      Def 0x0ac1 ''CZ_REQ_REFRESH_MAIL_LIST2'' 26 DirectionClientToServer,
      Def 0x09e9 ''CZ_CLOSE_MAILBOX'' 2 DirectionClientToServer,
      Def 0x09ea ''CZ_REQ_READ_MAIL'' 11 DirectionClientToServer,
      Def 0x09f5 ''CZ_REQ_DELETE_MAIL'' 11 DirectionClientToServer,
      Def 0x09f1 ''CZ_REQ_ZENY_FROM_MAIL'' 11 DirectionClientToServer,
      Def 0x09f3 ''CZ_REQ_ITEM_FROM_MAIL'' 11 DirectionClientToServer,
      Def 0x0a03 ''CZ_REQ_CANCEL_WRITE_MAIL'' 2 DirectionClientToServer,
      Def 0x0a04 ''CZ_REQ_ADD_ITEM_TO_MAIL'' 6 DirectionClientToServer,
      Def 0x0a06 ''CZ_REQ_REMOVE_ITEM_MAIL'' 6 DirectionClientToServer,
      Def 0x0a08 ''CZ_REQ_OPEN_WRITE_MAIL'' 26 DirectionClientToServer,
      Def 0x0a13 ''CZ_CHECK_RECEIVE_CHARACTER_NAME'' 26 DirectionClientToServer,
      Def 0x0b97 ''CZ_CHECKNAME2'' 27 DirectionClientToServer,
      Def 0x09ec ''CZ_REQ_WRITE_MAIL'' VariableLength DirectionClientToServer,
      Def 0x0a6e ''CZ_REQ_WRITE_MAIL2'' VariableLength DirectionClientToServer,
      Def 0x09e7 ''ZC_NOTIFY_UNREADMAIL'' 3 DirectionServerToClient,
      Def 0x09ed ''ZC_ACK_WRITE_MAIL'' 3 DirectionServerToClient,
      Def 0x09f2 ''ZC_ACK_ZENY_FROM_MAIL'' 12 DirectionServerToClient,
      Def 0x09f4 ''ZC_ACK_ITEM_FROM_MAIL'' 12 DirectionServerToClient,
      Def 0x09f6 ''ZC_ACK_DELETE_MAIL'' 11 DirectionServerToClient,
      Def 0x0a07 ''ZC_ACK_REMOVE_ITEM_MAIL'' 9 DirectionServerToClient,
      Def 0x0a12 ''ZC_ACK_OPEN_WRITE_MAIL'' 27 DirectionServerToClient,
      Def 0x0a51 ''ZC_CHECKNAME'' 34 DirectionServerToClient,
      Def 0x0b3f ''ZC_ACK_ADD_ITEM_RODEX'' 64 DirectionServerToClient]"

definition NewLoginServerDB :: DB where "NewLoginServerDB = foldl Register NewDB login_definitions"
definition NewCharServerDB :: DB where "NewCharServerDB = foldl Register NewDB char_definitions"
definition NewMapServerDB :: DB where "NewMapServerDB = foldl Register NewDB map_definitions"

section \<open>The map a database is\<close>

text \<open>\<open>entries db\<close> is the mathematical map behind the table, \<open>db_wf\<close> says a command has one entry.\<close>

definition entries :: "DB \<Rightarrow> u16 \<rightharpoonup> Definition" where
  "entries db = map_of db"

definition db_wf :: "DB \<Rightarrow> bool" where
  "db_wf db \<longleftrightarrow> distinct (map fst db) \<and> list_all (\<lambda>(cmd, d). Definition_ID d = cmd) db"

lemma entries_NewDB [simp]: "entries NewDB = Map.empty"
  by (simp add: entries_def NewDB_def)

lemma entries_Register [simp]: "entries (Register db d) = (entries db)(Definition_ID d \<mapsto> d)"
  by (simp add: entries_def Register_def update_conv)

lemma db_Lookup_entries: "db_Lookup db cmd = entries db cmd"
  by (simp add: db_Lookup_def entries_def)

lemma update_pairs: "set (AList.update k v es) \<subseteq> insert (k, v) (set es)"
  by (induction es) auto

lemma db_wf_update: "db_wf db \<Longrightarrow> Definition_ID d = k \<Longrightarrow> db_wf (AList.update k d db)"
proof -
  assume w: "db_wf db" and k: "Definition_ID d = k"
  have "list_all (\<lambda>(cmd, e). Definition_ID e = cmd) (AList.update k d db)"
    using w k update_pairs [of k d db] by (auto simp: db_wf_def list_all_iff)
  then show ?thesis
    using w by (simp add: db_wf_def distinct_update)
qed

lemma db_wf_Register: "db_wf db \<Longrightarrow> db_wf (Register db d)"
  by (simp add: Register_def db_wf_update)

lemma entries_foldl_Register: "entries (foldl Register db ds) = foldl (\<lambda>m d. m(Definition_ID d \<mapsto> d)) (entries db) ds"
  by (induction ds arbitrary: db) simp_all

lemma db_wf_foldl: "db_wf db \<Longrightarrow> db_wf (foldl Register db ds)"
  by (induction ds arbitrary: db) (simp_all add: db_wf_Register)

lemma foldl_upd_Some:
  "foldl (\<lambda>m d. m(Definition_ID d \<mapsto> d)) m ds cmd = Some e \<Longrightarrow> m cmd = Some e \<or> e \<in> set ds \<and> Definition_ID e = cmd"
  by (induction ds arbitrary: m) (force split: if_splits)+

lemma foldl_upd_cases:
  "distinct (map Definition_ID ds) \<Longrightarrow> d \<in> set ds \<Longrightarrow>
   foldl (\<lambda>m d. m(Definition_ID d \<mapsto> d)) m ds (Definition_ID d) = Some d"
proof (induction ds rule: rev_induct)
  case (snoc x xs)
  then show ?case
    by (auto simp: image_iff)
qed simp

lemma Lookup_registered: "db_Lookup (foldl Register NewDB ds) cmd = Some d \<Longrightarrow> d \<in> set ds \<and> Definition_ID d = cmd"
  using foldl_upd_Some [of Map.empty ds cmd d] by (simp add: db_Lookup_entries entries_foldl_Register)

lemma Lookup_distinct: "distinct (map Definition_ID ds) \<Longrightarrow> d \<in> set ds \<Longrightarrow> db_Lookup (foldl Register NewDB ds) (Definition_ID d) = Some d"
  using foldl_upd_cases [of ds d Map.empty] by (simp add: db_Lookup_entries entries_foldl_Register)

end
