(* ===== verification/Framing.thy ===== *)
theory Framing
  imports PacketDB
begin

text \<open>
  How the listeners cut the byte stream of a connection into frames: \<open>OnTraffic\<close> of
  \<open>gateway/app/map.go\<close>, \<open>char.go\<close> and \<open>login.go\<close>, with the handler table, \<open>frameLen\<close> and
  \<open>variableFrameSize\<close> of \<open>dispatch.go\<close>. The inbound buffer of a gnet connection is a byte list:
  \<open>InboundBuffered\<close> is its length, \<open>Peek\<close> and \<open>Next\<close> fail when it is shorter than asked, and a callback
  that returns leaves the rest in the buffer for the next one. A round of the loop yields what it does with the
  head of the buffer and how many bytes it consumes; a handler runs in a goroutine of its own, so here
  it is an event that carries the handler's name and its copy of the frame.

  The locale \<open>framing\<close> is the contract of such a loop: a round consumes something and at most
  what is there, and more bytes do not change a decision that was already possible. Under it the
  events do not depend on how the network splits the stream. It is interpreted for all three listeners.
\<close>

unbundle bit_operations_syntax

section \<open>The contract\<close>

text \<open>One callback per arriving chunk, each starting with what the last one left.\<close>

fun feed :: "(frame \<Rightarrow> 'e list \<times> frame) \<Rightarrow> frame \<Rightarrow> frame list \<Rightarrow> 'e list \<times> frame" where
  "feed drain buf [] = ([], buf)"
| "feed drain buf (c # cs) =
     (case drain (buf @ c) of (evs, rest) \<Rightarrow>
        (case feed drain rest cs of (evs', rest') \<Rightarrow> (evs @ evs', rest')))"

locale framing =
  fixes round :: "frame \<Rightarrow> ('e \<times> nat) option"
    and drain :: "frame \<Rightarrow> 'e list \<times> frame"
  assumes progress: "round buf = Some (ev, n) \<Longrightarrow> 2 \<le> n \<and> n \<le> length buf"
    and stable: "round buf = Some x \<Longrightarrow> round (buf @ xs) = Some x"
    and drain_round: "drain buf = (case round buf of
        None \<Rightarrow> ([], buf)
      | Some (ev, n) \<Rightarrow> (case drain (drop n buf) of (evs, rest) \<Rightarrow> (ev # evs, rest)))"
begin

lemma drain_None: "round buf = None \<Longrightarrow> drain buf = ([], buf)"
  by (simp add: drain_round)

lemma drain_Some: "round buf = Some (ev, n) \<Longrightarrow> drain buf = (ev # fst (drain (drop n buf)), snd (drain (drop n buf)))"
  by (subst drain_round) (simp add: split_beta)

lemma drain_induct [case_names wait cut]:
  assumes "\<And>buf. round buf = None \<Longrightarrow> P buf"
    and "\<And>buf ev n. round buf = Some (ev, n) \<Longrightarrow> P (drop n buf) \<Longrightarrow> P buf"
  shows "P buf"
proof (induction buf rule: measure_induct_rule [of length])
  case (less buf)
  show ?case
  proof (cases "round buf")
    case (Some x)
    obtain ev n where x: "x = (ev, n)"
      by (cases x)
    with Some have r: "round buf = Some (ev, n)"
      by simp
    show ?thesis
      using assms(2) [OF r] less [of "drop n buf"] progress [OF r] by auto
  qed (rule assms(1))
qed

lemma drain_stuck: "round (snd (drain buf)) = None"
  by (induction buf rule: drain_induct) (simp_all add: drain_None drain_Some)

lemma drain_append:
  "drain (buf @ xs) = (fst (drain buf) @ fst (drain (snd (drain buf) @ xs)), snd (drain (snd (drain buf) @ xs)))"
proof (induction buf rule: drain_induct)
  case (wait buf)
  then show ?case
    by (simp add: drain_None)
next
  case (cut buf ev n)
  have "drop n (buf @ xs) = drop n buf @ xs"
    using progress [OF cut(1)] by simp
  then show ?case
    using cut(2) by (simp add: drain_Some [OF cut(1)] drain_Some [OF stable [OF cut(1)]])
qed

text \<open>The events, and what stays in the buffer, are those of the whole stream read at once.\<close>

lemma feed_drain: "round buf = None \<Longrightarrow> feed drain buf chunks = drain (buf @ concat chunks)"
proof (induction chunks arbitrary: buf)
  case Nil
  then show ?case
    by (simp add: drain_None)
next
  case (Cons c cs)
  show ?case
    using Cons.IH [OF drain_stuck [of "buf @ c"]] drain_append [of "buf @ c" "concat cs"]
    by (simp add: split_beta)
qed

lemma round_Nil: "round [] = None"
proof (cases "round []")
  case (Some x)
  then show ?thesis
    using progress [of "[]" "fst x" "snd x"] by auto
qed simp

lemma feed_stream: "feed drain [] chunks = drain (concat chunks)"
  using feed_drain [OF round_Nil] by simp

text \<open>Frames that a round recognises on their own are cut out of their concatenation one by one.\<close>

lemma drain_frames:
  "list_all (\<lambda>f. round f = Some (ev f, length f)) fs \<Longrightarrow>
   drain (concat fs @ rest) = (map ev fs @ fst (drain rest), snd (drain rest))"
proof (induction fs)
  case (Cons f fs)
  then have "round (f @ concat fs @ rest) = Some (ev f, length f)"
    using stable by simp
  then show ?case
    using Cons by (simp add: drain_Some)
qed simp

lemma events_bound: "2 * length (fst (drain buf)) + length (snd (drain buf)) \<le> length buf"
proof (induction buf rule: drain_induct)
  case (cut buf ev n)
  then show ?case
    using progress [OF cut(1)] by (auto simp: drain_Some)
qed (simp add: drain_None)

end

section \<open>The map listener\<close>

record mapHandler =
  mapHandler_size :: nat
  mapHandler_frameSize :: bool
  mapHandler_fn :: string

text \<open>\<open>frameSize\<close> is nil or \<open>variableFrameSize\<close> in every entry of the table, hence a flag.\<close>

definition fixed_size :: "nat \<Rightarrow> string \<Rightarrow> mapHandler" where
  "fixed_size n fn = \<lparr>mapHandler_size = n, mapHandler_frameSize = False, mapHandler_fn = fn\<rparr>"

definition var_size :: "string \<Rightarrow> mapHandler" where
  "var_size fn = \<lparr>mapHandler_size = 0, mapHandler_frameSize = True, mapHandler_fn = fn\<rparr>"

definition mapHandlers :: "(u16 \<times> mapHandler) list" where
  "mapHandlers =
     [(0x0072, fixed_size 19 ''handleEnterFrame''),
      (0x007d, fixed_size 2 ''handleLoadEndAck''),
      (0x0085, fixed_size 5 ''handleRequestMove''),
      (0x0089, fixed_size 7 ''handleActionRequest''),
      (0x0090, fixed_size 7 ''handleContactNPC''),
      (0x00b2, fixed_size 3 ''handleRestart''),
      (0x00bb, fixed_size 5 ''handleStatusChange''),
      (0x00b8, fixed_size 7 ''handleChooseMenu''),
      (0x00b9, fixed_size 6 ''handleReqNextScript''),
      (0x0143, fixed_size 10 ''handleInputEditDlg''),
      (0x01d5, var_size ''handleInputEditDlgStr''),
      (0x0146, fixed_size 6 ''handleCloseDialog''),
      (0x00c5, fixed_size 7 ''handleAckSelectDealtype''),
      (0x00c8, var_size ''handlePurchaseItemList''),
      (0x00c9, var_size ''handleSellItemList''),
      (0x0362, fixed_size 6 ''handleItemPickup''),
      (0x0363, fixed_size 6 ''handleItemDrop''),
      (0x0439, fixed_size 8 ''handleUseItem''),
      (0x0438, fixed_size 10 ''handleUseSkill2''),
      (0x0af4, fixed_size 11 ''handleUseSkillToPos''),
      (0x0112, fixed_size 4 ''handleSkillUp''),
      (0x00e4, fixed_size 6 ''handleTradeRequest''),
      (0x00e6, fixed_size 3 ''handleTradeAck''),
      (0x00e8, fixed_size 8 ''handleAddExchangeItem''),
      (0x00eb, fixed_size 2 ''handleTradeOK''),
      (0x00ed, fixed_size 2 ''handleTradeCancel''),
      (0x0998, fixed_size 8 ''handleReqWearEquip''),
      (0x00ab, fixed_size 4 ''handleReqTakeoffEquip''),
      (0x0096, var_size ''handleWhisper''),
      (0x008c, var_size ''handleGlobalMessage''),
      (0x0094, fixed_size 6 ''handleGetCharNameRequest''),
      (0x007e, fixed_size 6 ''handleRequestTime''),
      (0x00bf, fixed_size 3 ''handleReqEmotion''),
      (0x009b, fixed_size 5 ''handleChangeDir''),
      (0x00cf, fixed_size 27 ''handlePMIgnore''),
      (0x00d0, fixed_size 3 ''handleSettingWhisperState''),
      (0x00d3, fixed_size 2 ''handleReqWhisperList''),
      (0x07e4, fixed_size 26 ''handleReqOpenStore2''),
      (0x07e5, fixed_size 2 ''handleCloseStore''),
      (0x07e6, fixed_size 8 ''handleMoveItemToStore2''),
      (0x07e7, fixed_size 8 ''handleMoveItemToBody2''),
      (0x00f9, fixed_size 26 ''handleMakeGroup''),
      (0x01e8, fixed_size 28 ''handleMakeGroup''),
      (0x00fc, fixed_size 6 ''handleReqJoinGroup''),
      (0x00ff, fixed_size 10 ''handleJoinGroup''),
      (0x0100, fixed_size 2 ''handleLeaveGroup''),
      (0x0102, fixed_size 6 ''handleChangeGroupExpOption''),
      (0x0103, fixed_size 30 ''handleExpelGroupMember''),
      (0x0202, fixed_size 26 ''handleFriendsAdd''),
      (0x0203, fixed_size 10 ''handleFriendsRemove''),
      (0x0208, fixed_size 14 ''handleFriendsReply''),
      (0x0165, fixed_size 30 ''handleCreateGuild''),
      (0x0168, fixed_size 14 ''handleGuildInvite''),
      (0x016b, fixed_size 10 ''handleGuildReplyInvite''),
      (0x0159, fixed_size 52 ''handleGuildLeave''),
      (0x015b, fixed_size 52 ''handleGuildBan''),
      (0x015d, fixed_size 44 ''handleGuildBreak''),
      (0x017e, var_size ''handleGuildChat''),
      (0x014d, fixed_size 2 ''handleGuildCheckMaster''),
      (0x09e8, fixed_size 11 ''handleOpenMailbox''),
      (0x09e9, fixed_size 2 ''handleCloseMailbox''),
      (0x09ea, fixed_size 11 ''handleReadMail''),
      (0x09ee, fixed_size 11 ''handleOpenMailbox''),
      (0x09ef, fixed_size 11 ''handleOpenMailbox''),
      (0x09f1, fixed_size 11 ''handleCollectZeny''),
      (0x09f3, fixed_size 11 ''handleCollectItems''),
      (0x09f5, fixed_size 11 ''handleDeleteMail''),
      (0x0a03, fixed_size 2 ''handleCancelWriteMail''),
      (0x0a04, fixed_size 6 ''handleAddItemToMail''),
      (0x0a06, fixed_size 6 ''handleRemoveItemFromMail''),
      (0x0a08, fixed_size 26 ''handleOpenWriteMail''),
      (0x0a13, fixed_size 26 ''handleCheckReceiverName''),
      (0x09ec, var_size ''handleWriteMail''),
      (0x0a6e, var_size ''handleWriteMail''),
      (0x0ac0, fixed_size 26 ''handleOpenMailbox''),
      (0x0ac1, fixed_size 26 ''handleOpenMailbox''),
      (0x0b97, fixed_size 27 ''handleCheckReceiverName'')]"

definition variableFrameSize :: "frame \<Rightarrow> nat \<times> bool" where
  "variableFrameSize buf =
     (if length buf < 4 then (0, False)
      else let n = unat (u16_at 2 buf) in
        if n < 4 then (2, True)
        else if length buf < n then (0, False)
        else (n, True))"

definition frameLen :: "mapHandler \<Rightarrow> frame \<Rightarrow> nat \<times> bool" where
  "frameLen h buf =
     (if mapHandler_frameSize h then variableFrameSize buf
      else (mapHandler_size h, length buf \<ge> mapHandler_size h))"

definition unhandledSkip :: "DB \<Rightarrow> frame \<Rightarrow> u16 \<Rightarrow> nat \<times> bool" where
  "unhandledSkip db buf opcode =
     (case db_Lookup db opcode of
        None \<Rightarrow> (2, True)
      | Some def \<Rightarrow>
          if Definition_Length def \<noteq> VariableLength then
            (if int (length buf) < Definition_Length def then (nat (Definition_Length def), False)
             else (nat (Definition_Length def), True))
          else if length buf < 4 then (0, False)
          else let n = unat (u16_at 2 buf) in
            if n < 4 then (2, True)
            else if length buf < n then (n, False)
            else (n, True))"

datatype traffic = Dispatch string frame | Skipped u16 nat

definition map_round :: "frame \<Rightarrow> (traffic \<times> nat) option" where
  "map_round buf =
     (if length buf < 2 then None
      else let opcode = u16_at 0 buf in
        case map_of mapHandlers opcode of
          Some h \<Rightarrow>
            (case frameLen h buf of (n, ready) \<Rightarrow>
               if \<not> ready then None else Some (Dispatch (mapHandler_fn h) (take n buf), n))
        | None \<Rightarrow>
            (case unhandledSkip NewMapServerDB buf opcode of (skip, buffered) \<Rightarrow>
               if \<not> buffered then None else Some (Skipped opcode skip, skip)))"

lemma handler_sizes: "map_of mapHandlers op = Some h \<Longrightarrow> mapHandler_frameSize h \<or> 2 \<le> mapHandler_size h"
proof -
  have "list_all (\<lambda>(_, h). mapHandler_frameSize h \<or> 2 \<le> mapHandler_size h) mapHandlers"
    by (simp add: mapHandlers_def fixed_size_def var_size_def)
  then show "map_of mapHandlers op = Some h \<Longrightarrow> mapHandler_frameSize h \<or> 2 \<le> mapHandler_size h"
    by (auto simp: list_all_iff dest!: map_of_SomeD)
qed

lemma map_definition_sizes: "list_all (\<lambda>d. Definition_Length d = VariableLength \<or> 2 \<le> Definition_Length d) map_definitions"
  by (simp add: map_definitions_def Def_def)

lemma char_definition_sizes: "list_all (\<lambda>d. Definition_Length d = VariableLength \<or> 2 \<le> Definition_Length d) char_definitions"
  by (simp add: char_definitions_def Def_def)

lemma u16_at_extend: "k + 2 \<le> length buf \<Longrightarrow> u16_at k (buf @ xs) = u16_at k buf"
  by (rule u16_at_append)

lemma variableFrameSize_ready:
  "variableFrameSize buf = (n, True) \<Longrightarrow> 2 \<le> n \<and> n \<le> length buf \<and> variableFrameSize (buf @ xs) = (n, True)"
  by (auto simp: variableFrameSize_def u16_at_extend Let_def split: if_splits)

lemma unhandledSkip_ready:
  assumes "unhandledSkip (foldl Register NewDB ds) buf opcode = (n, True)" and "2 \<le> length buf"
    and "list_all (\<lambda>d. Definition_Length d = VariableLength \<or> 2 \<le> Definition_Length d) ds"
  shows "2 \<le> n \<and> n \<le> length buf \<and> unhandledSkip (foldl Register NewDB ds) (buf @ xs) opcode = (n, True)"
proof (cases "db_Lookup (foldl Register NewDB ds) opcode")
  case None
  then show ?thesis
    using assms by (simp add: unhandledSkip_def)
next
  case (Some def)
  then have "Definition_Length def = VariableLength \<or> 2 \<le> Definition_Length def"
    using Lookup_registered [OF Some] assms(3) by (auto simp: list_all_iff)
  then show ?thesis
    using assms(1) Some by (auto simp: unhandledSkip_def u16_at_extend Let_def split: if_splits)
qed

lemma frameLen_ready:
  assumes "frameLen h buf = (n, True)" and "mapHandler_frameSize h \<or> 2 \<le> mapHandler_size h"
  shows "2 \<le> n \<and> n \<le> length buf \<and> frameLen h (buf @ xs) = (n, True)"
  using assms variableFrameSize_ready [of buf n xs] by (auto simp: frameLen_def split: if_splits)

lemma map_round_progress: "map_round buf = Some (ev, n) \<Longrightarrow> 2 \<le> n \<and> n \<le> length buf"
proof -
  assume r: "map_round buf = Some (ev, n)"
  then have l: "2 \<le> length buf"
    by (auto simp: map_round_def split: if_splits)
  show ?thesis
  proof (cases "map_of mapHandlers (u16_at 0 buf)")
    case None
    then have "unhandledSkip NewMapServerDB buf (u16_at 0 buf) = (n, True)"
      using r by (auto simp: map_round_def Let_def split: if_splits prod.splits)
    then show ?thesis
      using unhandledSkip_ready [OF _ l map_definition_sizes] by (auto simp: NewMapServerDB_def)
  next
    case (Some h)
    then have "frameLen h buf = (n, True)"
      using r by (auto simp: map_round_def Let_def split: if_splits prod.splits)
    then show ?thesis
      using frameLen_ready handler_sizes [OF Some] by blast
  qed
qed

lemma map_round_stable: "map_round buf = Some x \<Longrightarrow> map_round (buf @ xs) = Some x"
proof -
  assume r: "map_round buf = Some x"
  then have l: "2 \<le> length buf"
    by (auto simp: map_round_def split: if_splits)
  show ?thesis
  proof (cases "map_of mapHandlers (u16_at 0 buf)")
    case None
    then obtain n where n: "unhandledSkip NewMapServerDB buf (u16_at 0 buf) = (n, True)" "x = (Skipped (u16_at 0 buf) n, n)"
      using r by (auto simp: map_round_def Let_def split: if_splits prod.splits)
    then have "unhandledSkip NewMapServerDB (buf @ xs) (u16_at 0 buf) = (n, True)"
      using unhandledSkip_ready [OF _ l map_definition_sizes, of "u16_at 0 buf" n xs] by (auto simp: NewMapServerDB_def)
    then show ?thesis
      using n None l by (simp add: map_round_def u16_at_extend)
  next
    case (Some h)
    then obtain n where n: "frameLen h buf = (n, True)" "x = (Dispatch (mapHandler_fn h) (take n buf), n)"
      using r by (auto simp: map_round_def Let_def split: if_splits prod.splits)
    then have "frameLen h (buf @ xs) = (n, True)" "n \<le> length buf"
      using frameLen_ready [OF n(1), of xs] handler_sizes [OF Some] by auto
    then show ?thesis
      using n Some l by (simp add: map_round_def u16_at_extend)
  qed
qed

text \<open>The loop of \<open>OnTraffic\<close>.\<close>

function map_OnTraffic :: "frame \<Rightarrow> traffic list \<times> frame" where
  "map_OnTraffic buf =
     (case map_round buf of
        None \<Rightarrow> ([], buf)
      | Some (ev, n) \<Rightarrow> (case map_OnTraffic (drop n buf) of (evs, rest) \<Rightarrow> (ev # evs, rest)))"
  by pat_completeness auto
termination
  by (relation "measure length") (auto dest!: map_round_progress)

declare map_OnTraffic.simps [simp del]

interpretation map_conn: framing map_round map_OnTraffic
proof (unfold_locales, goal_cases)
  case (3 buf)
  show ?case
    by (rule map_OnTraffic.simps)
qed (use map_round_progress map_round_stable in auto)

section \<open>The character listener\<close>

definition charHandlers :: "(u16 \<times> nat \<times> string) list" where
  "charHandlers =
     [(0x0065, 17, ''handleEnter''), (0x0066, 3, ''handleSelectChar''), (0x0a39, 36, ''handleMakeChar''),
      (0x0827, 6, ''handleDeleteReserved''), (0x0829, 12, ''handleDelete''), (0x082b, 6, ''handleDeleteCancel'')]"

definition char_round :: "frame \<Rightarrow> (traffic \<times> nat) option" where
  "char_round buf =
     (if length buf < 2 then None
      else let opcode = u16_at 0 buf in
        case map_of charHandlers opcode of
          Some (n, fn) \<Rightarrow>
            if length buf < n then None else Some (Dispatch fn (take n buf), n)
        | None \<Rightarrow>
            (case unhandledSkip NewCharServerDB buf opcode of (skip, buffered) \<Rightarrow>
               if \<not> buffered then None else Some (Skipped opcode skip, skip)))"

lemma char_handler_sizes: "map_of charHandlers op = Some (n, fn) \<Longrightarrow> 2 \<le> n"
  by (auto simp: charHandlers_def split: if_splits)

lemma char_round_cut:
  assumes "char_round buf = Some (ev, n)"
  shows "2 \<le> n \<and> n \<le> length buf \<and> char_round (buf @ xs) = Some (ev, n)"
proof -
  from assms have l: "2 \<le> length buf"
    by (auto simp: char_round_def split: if_splits)
  show ?thesis
  proof (cases "map_of charHandlers (u16_at 0 buf)")
    case None
    then have n: "unhandledSkip NewCharServerDB buf (u16_at 0 buf) = (n, True)" "ev = Skipped (u16_at 0 buf) n"
      using assms by (auto simp: char_round_def Let_def split: if_splits prod.splits)
    then show ?thesis
      using unhandledSkip_ready [OF _ l char_definition_sizes, of "u16_at 0 buf" n xs] None l
      by (simp add: NewCharServerDB_def char_round_def u16_at_extend)
  next
    case (Some h)
    then show ?thesis
      using assms l char_handler_sizes [of "u16_at 0 buf" "fst h" "snd h"]
      by (cases h) (auto simp: char_round_def u16_at_extend Let_def split: if_splits)
  qed
qed

lemma char_round_progress: "char_round buf = Some (ev, n) \<Longrightarrow> 2 \<le> n \<and> n \<le> length buf"
  using char_round_cut by blast

lemma char_round_stable: "char_round buf = Some x \<Longrightarrow> char_round (buf @ xs) = Some x"
  using char_round_cut by (cases x) blast

function char_OnTraffic :: "frame \<Rightarrow> traffic list \<times> frame" where
  "char_OnTraffic buf =
     (case char_round buf of
        None \<Rightarrow> ([], buf)
      | Some (ev, n) \<Rightarrow> (case char_OnTraffic (drop n buf) of (evs, rest) \<Rightarrow> (ev # evs, rest)))"
  by pat_completeness auto
termination
  by (relation "measure length") (auto dest!: char_round_progress)

declare char_OnTraffic.simps [simp del]

interpretation char_conn: framing char_round char_OnTraffic
proof (unfold_locales, goal_cases)
  case (3 buf)
  show ?case
    by (rule char_OnTraffic.simps)
qed (use char_round_progress char_round_stable in auto)

section \<open>The login listener\<close>

text \<open>Every frame is taken to be a \<open>CA_LOGIN\<close>: the loop cuts 55 bytes at a time without looking at them.\<close>

definition login_round :: "frame \<Rightarrow> (frame \<times> nat) option" where
  "login_round buf = (if length buf \<ge> 55 then Some (take 55 buf, 55) else None)"

function login_frames :: "frame \<Rightarrow> frame list \<times> frame" where
  "login_frames buf =
     (case login_round buf of
        None \<Rightarrow> ([], buf)
      | Some (f, n) \<Rightarrow> (case login_frames (drop n buf) of (fs, rest) \<Rightarrow> (f # fs, rest)))"
  by pat_completeness auto
termination
  by (relation "measure length") (auto simp: login_round_def split: if_splits)

declare login_frames.simps [simp del]

interpretation login_conn: framing login_round login_frames
proof (unfold_locales, goal_cases)
  case (3 buf)
  show ?case
    by (rule login_frames.simps)
qed (auto simp: login_round_def split: if_splits)

end
