(* ===== verification/LoginGate.thy ===== *)
theory LoginGate
  imports Account RateLimit Character PacketLogin Framing
begin

text \<open>
  The login and character listeners above their codecs: \<open>handleLogin\<close> (\<open>gateway/app/login.go\<close>) and the
  six handlers of \<open>CharServer\<close> (\<open>gateway/app/char.go\<close>). A handler takes the connection, a whole frame and the
  state, and returns the frame it writes back, if any. The state \<open>realm\<close> is the account, session and
  character tables with the per-connection identity cache; the ports of \<open>Account\<close> and \<open>Character\<close> are run on
  it by interpretation.
\<close>

unbundle bit_operations_syntax

type_synonym conn = nat

record char_auth =
  ca_accountID :: u32
  ca_sex :: u8

record realm =
  rm_accounts :: account_repo
  rm_sessions :: session_store
  rm_chars :: char_repo
  rm_auth :: "conn \<rightharpoonup> char_auth"

definition realm_accounts :: "'z realm_scheme account_port" where
  "realm_accounts = lift_account_port rm_accounts (\<lambda>x s. s\<lparr>rm_accounts := x\<rparr>) mem_account_port"

definition realm_chars :: "'z realm_scheme char_port" where
  "realm_chars = lift_char_port rm_chars (\<lambda>x s. s\<lparr>rm_chars := x\<rparr>) mem_char_port"

definition realm_GetSession :: "u32 \<Rightarrow> 'z realm_scheme \<Rightarrow> (session, 'z realm_scheme) out" where
  "realm_GetSession acc = zoom rm_sessions (\<lambda>x s. s\<lparr>rm_sessions := x\<rparr>) (GetSession acc)"

definition realm_PutSession :: "session \<Rightarrow> 'z realm_scheme \<Rightarrow> (unit, 'z realm_scheme) out" where
  "realm_PutSession se = zoom rm_sessions (\<lambda>x s. s\<lparr>rm_sessions := x\<rparr>) (PutSession se)"

interpretation realm_accounts_field: account_field mem_account_port ar_byID ar_wf
    "rm_accounts :: 'z realm_scheme \<Rightarrow> account_repo" "\<lambda>x s. s\<lparr>rm_accounts := x\<rparr>"
  by unfold_locales simp_all

interpretation realm_chars_field: character_field mem_char_port cr_chars cr_wf cr_room
    "rm_chars :: 'z realm_scheme \<Rightarrow> char_repo" "\<lambda>x s. s\<lparr>rm_chars := x\<rparr>"
  by unfold_locales simp_all

section \<open>The login listener\<close>

record login_server =
  ls_useMD5 :: bool
  ls_charIP :: u32
  ls_charPort :: u16
  ls_charName :: string

definition refuseCode :: "err \<Rightarrow> u32" where
  "refuseCode e =
     (if errors_is e ErrAccountNotFound then 0
      else if errors_is e ErrInvalidPassword then 1
      else if errors_is e ErrAccountBanned then 6
      else 6)"

definition sexByte :: "string \<Rightarrow> u8" where
  "sexByte s = (if s = ''F'' then 0 else if s = ''S'' then 2 else 1)"

text \<open>An encoder error is logged and nothing is written.\<close>

definition sent :: "packet_error + frame \<Rightarrow> frame option" where
  "sent r = (case r of Inl e \<Rightarrow> None | Inr f \<Rightarrow> Some f)"

definition writeRefuse :: "u32 \<Rightarrow> frame option" where
  "writeRefuse code =
     sent (encode_RefuseLoginResponse \<lparr>RefuseLoginResponse_Error = code, RefuseLoginResponse_UnblockTime = []\<rparr>)"

definition accept_login :: "login_server \<Rightarrow> account \<Rightarrow> u32 \<Rightarrow> u32 \<Rightarrow> AcceptLoginResponse" where
  "accept_login L acc id1 id2 =
     \<lparr>AcceptLoginResponse_LoginID1 = id1, AcceptLoginResponse_AID = ac_ID acc, AcceptLoginResponse_LoginID2 = id2,
      AcceptLoginResponse_LastIP = 0, AcceptLoginResponse_LastLogin = [], AcceptLoginResponse_Sex = sexByte (ac_Sex acc),
      AcceptLoginResponse_Token = [],
      AcceptLoginResponse_CharServers =
        [\<lparr>CharServer_IP = ls_charIP L, CharServer_Port = ls_charPort L, CharServer_Name = ls_charName L,
          CharServer_Users = 0, CharServer_Type = 0, CharServer_New = 0\<rparr>]\<rparr>"

definition handleLogin ::
  "login_server \<Rightarrow> byte list option \<Rightarrow> int \<Rightarrow> string \<Rightarrow> frame \<Rightarrow> 'z realm_scheme \<Rightarrow> frame option \<times> 'z realm_scheme" where
  "handleLogin L rnd now ip f s =
     (case ParseCALogin f of
        Inl e \<Rightarrow> (None, s)
      | Inr req \<Rightarrow>
          (case Authenticate realm_accounts (ls_useMD5 L) rnd now (CALoginRequest_Username req)
                  (CALoginRequest_Password req) ip s of
             (Inl e, s) \<Rightarrow> (writeRefuse (refuseCode e), s)
           | (Inr (acc, id1, id2), s) \<Rightarrow>
               (sent (encode_AcceptLoginResponse (accept_login L acc id1 id2)),
                snd (realm_PutSession \<lparr>se_AccountID = ac_ID acc, se_LoginID1 = id1, se_LoginID2 = id2,
                       se_Sex = sexByte (ac_Sex acc)\<rparr> s))))"

text \<open>\<open>OnTraffic\<close>: each whole frame asks the limiter once; the frames it lets through go to \<open>handleLogin\<close>.\<close>

fun throttle :: "string \<Rightarrow> (int \<times> frame) list \<Rightarrow> rate_limiter option \<Rightarrow> frame list \<times> rate_limiter option" where
  "throttle ip [] rl = ([], rl)"
| "throttle ip ((now, f) # fs) rl =
     (case allow_login now ip rl of (ok, rl') \<Rightarrow>
        (case throttle ip fs rl' of (gs, rl'') \<Rightarrow> (if ok then f # gs else gs, rl'')))"

definition login_OnTraffic ::
  "(nat \<Rightarrow> int) \<Rightarrow> string \<Rightarrow> frame \<Rightarrow> rate_limiter option \<Rightarrow> frame list \<times> frame \<times> rate_limiter option" where
  "login_OnTraffic clock ip buf rl =
     (case login_frames buf of (fs, rest) \<Rightarrow>
        (case throttle ip (zip (map clock [0..<length fs]) fs) rl of (gs, rl') \<Rightarrow> (gs, rest, rl')))"

section \<open>The character listener\<close>

record char_server =
  cs_maxSlots :: int
  cs_mapIP :: u32
  cs_mapPort :: u16

definition toCharacterInfo :: "u8 \<Rightarrow> character \<Rightarrow> CharacterInfo" where
  "toCharacterInfo sex c =
     \<lparr>CharacterInfo_GID = ch_ID c, CharacterInfo_Exp = ch_BaseExp c, CharacterInfo_Money = ch_Zeny c,
      CharacterInfo_JobExp = ch_JobExp c, CharacterInfo_JobLevel = ucast (ch_JobLevel c), CharacterInfo_BodyState = 0,
      CharacterInfo_HealthState = 0, CharacterInfo_EffectState = 0, CharacterInfo_Virtue = 0, CharacterInfo_Honor = 0,
      CharacterInfo_JobPoint = 0, CharacterInfo_HP = ucast (ch_HP c), CharacterInfo_MaxHP = ucast (ch_MaxHP c),
      CharacterInfo_SP = ucast (ch_SP c), CharacterInfo_MaxSP = ucast (ch_MaxSP c), CharacterInfo_Speed = 0,
      CharacterInfo_Job = ch_Class c, CharacterInfo_Head = ch_HeadTop c, CharacterInfo_Body = 0,
      CharacterInfo_Weapon = ch_Weapon c, CharacterInfo_Level = ch_BaseLevel c, CharacterInfo_SPPoint = 0,
      CharacterInfo_Accessory = 0, CharacterInfo_Shield = ch_Shield c, CharacterInfo_Accessory2 = 0,
      CharacterInfo_Accessory3 = 0, CharacterInfo_HeadPalette = 0, CharacterInfo_BodyPalette = 0,
      CharacterInfo_Name = ch_Name c, CharacterInfo_Str = ucast (ch_Str c), CharacterInfo_Agi = ucast (ch_Agi c),
      CharacterInfo_Vit = ucast (ch_Vit c), CharacterInfo_Int = ucast (ch_Int c), CharacterInfo_Dex = ucast (ch_Dex c),
      CharacterInfo_Luk = ucast (ch_Luk c), CharacterInfo_CharNum = word_of_int (ch_CharNum c),
      CharacterInfo_HairColor = 0, CharacterInfo_IsChangedCharName = 0, CharacterInfo_MapName = ch_LastMap c,
      CharacterInfo_DelRevDate = ch_DeleteDate c, CharacterInfo_RobePalette = 0, CharacterInfo_ChrSlotChangeCnt = 0,
      CharacterInfo_ChrNameChangeCnt = 0, CharacterInfo_Sex = sex\<rparr>"

definition setAuth :: "conn \<Rightarrow> char_auth \<Rightarrow> 'z realm_scheme \<Rightarrow> 'z realm_scheme" where
  "setAuth c a s = s\<lparr>rm_auth := (rm_auth s)(c \<mapsto> a)\<rparr>"

definition refuse_enter :: "frame option" where
  "refuse_enter = Some (encode_RefuseEnterResponse \<lparr>RefuseEnterResponse_Error = 0\<rparr>)"

definition refuse_make :: "u8 \<Rightarrow> frame option" where
  "refuse_make code = Some (encode_RefuseMakeCharResponse \<lparr>RefuseMakeCharResponse_Error = code\<rparr>)"

definition char_handleEnter :: "conn \<Rightarrow> frame \<Rightarrow> 'z realm_scheme \<Rightarrow> frame option \<times> 'z realm_scheme" where
  "char_handleEnter c f s =
     (case ParseCHEnter f of
        Inl e \<Rightarrow> (None, s)
      | Inr req \<Rightarrow>
          (case Authorize realm_GetSession (CHEnterRequest_AccountID req) (CHEnterRequest_LoginID1 req) s of
             (Inl e, s) \<Rightarrow> (refuse_enter, s)
           | (Inr se, s) \<Rightarrow>
               let s = setAuth c \<lparr>ca_accountID = CHEnterRequest_AccountID req, ca_sex = CHEnterRequest_Sex req\<rparr> s
               in (case cs_List realm_chars (CHEnterRequest_AccountID req) s of
                     (Inl e, s) \<Rightarrow> (refuse_enter, s)
                   | (Inr chars, s) \<Rightarrow>
                       (sent (encode_AcceptEnterResponse
                          \<lparr>AcceptEnterResponse_Total = 9, AcceptEnterResponse_PremiumStart = 9,
                           AcceptEnterResponse_PremiumEnd = 9, AcceptEnterResponse_Extension = [],
                           AcceptEnterResponse_Characters = map (toCharacterInfo (CHEnterRequest_Sex req)) chars\<rparr>), s))))"

definition handleMakeChar :: "char_server \<Rightarrow> conn \<Rightarrow> frame \<Rightarrow> 'z realm_scheme \<Rightarrow> frame option \<times> 'z realm_scheme" where
  "handleMakeChar C c f s =
     (case rm_auth s c of
        None \<Rightarrow> (refuse_make 0xFF, s)
      | Some a \<Rightarrow>
          (case ParseCHMakeChar f of
             Inl e \<Rightarrow> (refuse_make 0xFF, s)
           | Inr req \<Rightarrow>
               (case cs_Create realm_chars (cs_maxSlots C) (ca_accountID a) (sint (CHMakeCharRequest_Slot req))
                       (CHMakeCharRequest_Name req) s of
                  (Inl e, s) \<Rightarrow>
                    (refuse_make (if errors_is e ErrNameTaken then 0 else if errors_is e ErrSlotTaken then 3 else 0xFF), s)
                | (Inr ch, s) \<Rightarrow>
                    (sent (encode_AcceptMakeCharResponse
                       \<lparr>AcceptMakeCharResponse_Character = toCharacterInfo (ca_sex a) ch\<rparr>), s))))"

definition handleSelectChar :: "char_server \<Rightarrow> conn \<Rightarrow> frame \<Rightarrow> 'z realm_scheme \<Rightarrow> frame option \<times> 'z realm_scheme" where
  "handleSelectChar C c f s =
     (case rm_auth s c of
        None \<Rightarrow> (None, s)
      | Some a \<Rightarrow>
          (case ParseCHSelectChar f of
             Inl e \<Rightarrow> (None, s)
           | Inr req \<Rightarrow>
               (case cs_List realm_chars (ca_accountID a) s of
                  (Inl e, s) \<Rightarrow> (None, s)
                | (Inr chars, s) \<Rightarrow>
                    (case find (\<lambda>ch. ch_CharNum ch = sint (CHSelectCharRequest_Slot req)) chars of
                       None \<Rightarrow> (None, s)
                     | Some ch \<Rightarrow>
                         (sent (encode_NotifyZoneServerResponse
                            \<lparr>NotifyZoneServerResponse_CID = ch_ID ch, NotifyZoneServerResponse_MapName = ch_LastMap ch,
                             NotifyZoneServerResponse_IP = cs_mapIP C, NotifyZoneServerResponse_Port = cs_mapPort C,
                             NotifyZoneServerResponse_Domain = []\<rparr>), s)))))"

definition handleDeleteReserved :: "int \<Rightarrow> int \<Rightarrow> conn \<Rightarrow> frame \<Rightarrow> 'z realm_scheme \<Rightarrow> frame option \<times> 'z realm_scheme" where
  "handleDeleteReserved now1 now2 c f s =
     (case rm_auth s c of
        None \<Rightarrow> (None, s)
      | Some a \<Rightarrow>
          (case ParseCHDeleteChar3Reserved f of
             Inl e \<Rightarrow> (None, s)
           | Inr req \<Rightarrow>
               (case ReserveDelete realm_chars now1 now2 (CHDeleteChar3ReservedRequest_CID req) (ca_accountID a) s of
                  (Inl e, s) \<Rightarrow> (None, s)
                | (Inr (result, date), s) \<Rightarrow>
                    (Some (encode_CharDeleteReservedResponse
                       \<lparr>CharDeleteReservedResponse_CID = CHDeleteChar3ReservedRequest_CID req,
                        CharDeleteReservedResponse_Result = word_of_int result,
                        CharDeleteReservedResponse_Date = date\<rparr>), s))))"

text \<open>\<open>%02d\<close>.\<close>

definition two_digits :: "int \<Rightarrow> string" where
  "two_digits v = (let t = FormatInt v in if length t < 2 then CHR ''0'' # t else t)"

definition yymmdd :: "int \<times> int \<times> int \<Rightarrow> string" where
  "yymmdd = (\<lambda>(y, m, d). two_digits (if y < 0 then - (- y mod 100) else y mod 100) @ two_digits m @ two_digits d)"

definition deleteResultFor :: "u32 \<Rightarrow> CHDeleteChar3Request \<Rightarrow> 'z realm_scheme \<Rightarrow> (int \<times> bool) \<times> 'z realm_scheme" where
  "deleteResultFor acc req s =
     (case cp_FindByID realm_chars (CHDeleteChar3Request_CID req) s of
        (Inl e, s) \<Rightarrow> ((3, True), s)
      | (Inr ch, s) \<Rightarrow>
          if ch_AccountID ch \<noteq> acc then ((3, True), s)
          else if ch_DeleteDate ch = 0 then ((4, True), s)
          else
            (case ap_FindByAccountID realm_accounts acc s of
               (Inl e, s) \<Rightarrow> ((3, False), s)
             | (Inr a, s) \<Rightarrow>
                 (case ac_Birthdate a of
                    None \<Rightarrow> ((5, True), s)
                  | Some b \<Rightarrow>
                      if string_of (CHDeleteChar3Request_Birthdate req) \<noteq> yymmdd b then ((5, True), s)
                      else
                        (case cs_Delete realm_chars (CHDeleteChar3Request_CID req) acc s of
                           (Inl e, s) \<Rightarrow> ((3, False), s)
                         | (Inr _, s) \<Rightarrow> ((1, True), s)))))"

definition handleDelete :: "conn \<Rightarrow> frame \<Rightarrow> 'z realm_scheme \<Rightarrow> frame option \<times> 'z realm_scheme" where
  "handleDelete c f s =
     (case rm_auth s c of
        None \<Rightarrow> (None, s)
      | Some a \<Rightarrow>
          (case ParseCHDeleteChar3 f of
             Inl e \<Rightarrow> (None, s)
           | Inr req \<Rightarrow>
               (case deleteResultFor (ca_accountID a) req s of
                  ((result, ok), s) \<Rightarrow>
                    (Some (encode_CharDeleteResponse
                       \<lparr>CharDeleteResponse_CID = CHDeleteChar3Request_CID req,
                        CharDeleteResponse_Result = word_of_int result\<rparr>), s))))"

definition handleDeleteCancel :: "conn \<Rightarrow> frame \<Rightarrow> 'z realm_scheme \<Rightarrow> frame option \<times> 'z realm_scheme" where
  "handleDeleteCancel c f s =
     (case rm_auth s c of
        None \<Rightarrow> (None, s)
      | Some a \<Rightarrow>
          (case ParseCHDeleteChar3Cancel f of
             Inl e \<Rightarrow> (None, s)
           | Inr req \<Rightarrow>
               (case CancelDelete realm_chars (CHDeleteChar3CancelRequest_CID req) (ca_accountID a) s of
                  (Inl e, s) \<Rightarrow> (None, s)
                | (Inr result, s) \<Rightarrow>
                    (Some (encode_CharDeleteCancelResponse
                       \<lparr>CharDeleteCancelResponse_CID = CHDeleteChar3CancelRequest_CID req,
                        CharDeleteCancelResponse_Result = word_of_int result\<rparr>), s))))"

text \<open>The handler table: the names are those \<open>Framing\<close> dispatches on.\<close>

definition char_dispatch ::
  "char_server \<Rightarrow> int \<Rightarrow> int \<Rightarrow> string \<Rightarrow> conn \<Rightarrow> frame \<Rightarrow> 'z realm_scheme \<Rightarrow> frame option \<times> 'z realm_scheme" where
  "char_dispatch C now1 now2 fn c f s =
     (if fn = ''handleEnter'' then char_handleEnter c f s
      else if fn = ''handleSelectChar'' then handleSelectChar C c f s
      else if fn = ''handleMakeChar'' then handleMakeChar C c f s
      else if fn = ''handleDeleteReserved'' then handleDeleteReserved now1 now2 c f s
      else if fn = ''handleDelete'' then handleDelete c f s
      else if fn = ''handleDeleteCancel'' then handleDeleteCancel c f s
      else (None, s))"

section \<open>What the handlers leave alone\<close>

text \<open>A character request touches at most the character table.\<close>

definition only_chars :: "'z realm_scheme \<Rightarrow> 'z realm_scheme \<Rightarrow> bool" where
  "only_chars s s' \<longleftrightarrow> (\<exists>x. s' = s\<lparr>rm_chars := x\<rparr>)"

lemma only_chars_refl [simp]: "only_chars s s"
  unfolding only_chars_def by (rule exI [of _ "rm_chars s"]) simp

lemma only_chars_trans: "only_chars s t \<Longrightarrow> only_chars t u \<Longrightarrow> only_chars s u"
  by (auto simp: only_chars_def)

lemma only_chars_keeps:
  "only_chars s s' \<Longrightarrow> rm_accounts s' = rm_accounts s \<and> rm_sessions s' = rm_sessions s \<and> rm_auth s' = rm_auth s"
  by (auto simp: only_chars_def)

lemma realm_chars_only:
  "cp_ListByAccount realm_chars acc s = (r1, s') \<Longrightarrow> only_chars s s'"
  "cp_Create realm_chars c s = (r2, s') \<Longrightarrow> only_chars s s'"
  "cp_Delete realm_chars i acc s = (r3, s') \<Longrightarrow> only_chars s s'"
  "cp_NameExists realm_chars nm s = (r4, s') \<Longrightarrow> only_chars s s'"
  "cp_FindByID realm_chars i s = (r5, s') \<Longrightarrow> only_chars s s'"
  "cp_SetDeleteDate realm_chars i acc d s = (r6, s') \<Longrightarrow> only_chars s s'"
  by (auto simp: realm_chars_def lift_char_port_def zoom_def only_chars_def split: prod.splits)

lemma and_then_only:
  assumes "and_then r f = (x, s')" and "\<And>y t. r = (y, t) \<Longrightarrow> only_chars s t"
    and "\<And>y t z u. f y t = (z, u) \<Longrightarrow> only_chars t u"
  shows "only_chars s s'"
  using assms by (cases "(r, f)" rule: and_then.cases) (auto intro: only_chars_trans)

lemma use_cases_only:
  "cs_List realm_chars acc s = (r1, s') \<Longrightarrow> only_chars s s'"
  "cs_Delete realm_chars i acc s = (r3, s') \<Longrightarrow> only_chars s s'"
  "cs_Create realm_chars m acc slot nm s = (r2, s') \<Longrightarrow> only_chars s s'"
  "ReserveDelete realm_chars n1 n2 i acc s = (r4, s') \<Longrightarrow> only_chars s s'"
  "CancelDelete realm_chars i acc s = (r5, s') \<Longrightarrow> only_chars s s'"
proof -
  show "cs_List realm_chars acc s = (r1, s') \<Longrightarrow> only_chars s s'"
    and "cs_Delete realm_chars i acc s = (r3, s') \<Longrightarrow> only_chars s s'"
    by (auto simp: cs_List_def cs_Delete_def dest: realm_chars_only)
  show "cs_Create realm_chars m acc slot nm s = (r2, s') \<Longrightarrow> only_chars s s'"
    unfolding cs_Create_def
    by (elim and_then_only) (auto split: if_splits dest: realm_chars_only elim!: and_then_only)
  show "ReserveDelete realm_chars n1 n2 i acc s = (r4, s') \<Longrightarrow> only_chars s s'"
    unfolding ReserveDelete_def Let_def
    by (auto split: prod.splits sum.splits if_splits dest!: realm_chars_only elim!: and_then_only
        intro: only_chars_trans)
  show "CancelDelete realm_chars i acc s = (r5, s') \<Longrightarrow> only_chars s s'"
    unfolding CancelDelete_def
    by (auto split: prod.splits sum.splits if_splits dest!: realm_chars_only elim!: and_then_only
        intro: only_chars_trans)
qed

lemma realm_find_account:
  "ap_FindByAccountID realm_accounts i s = (case ar_byID (rm_accounts s) i of
     None \<Rightarrow> (Inl ErrAccountNotFound, s) | Some a \<Rightarrow> (Inr a, s))"
  unfolding realm_accounts_def by (rule realm_accounts_field.lifted.find_id)

lemma realm_find_char:
  "cp_FindByID realm_chars i s = (case cr_chars (rm_chars s) i of
     None \<Rightarrow> (Inl ErrCharacterNotFound, s) | Some c \<Rightarrow> (Inr c, s))"
  unfolding realm_chars_def by (rule realm_chars_field.lifted.find_ok)

lemma realm_list:
  "cs_List realm_chars acc s = (Inr (filter (\<lambda>c. ch_AccountID c = acc) (map snd (cr_byID (rm_chars s)))), s)"
  by (simp add: cs_List_def realm_chars_def lift_char_port_def mem_char_port_def cr_ListByAccount_def zoom_def)

lemma realm_get_session:
  "realm_GetSession acc s = (case rm_sessions s acc of None \<Rightarrow> (Inl ErrSessionNotFound, s) | Some se \<Rightarrow> (Inr se, s))"
  by (simp add: realm_GetSession_def GetSession_def zoom_def split: option.split)

lemma realm_put_session:
  "realm_PutSession se s = (Inr (), s\<lparr>rm_sessions := (rm_sessions s)(se_AccountID se \<mapsto> se)\<rparr>)"
  by (simp add: realm_PutSession_def PutSession_def zoom_def)

lemma deleteResultFor_only: "deleteResultFor acc req s = (r, s') \<Longrightarrow> only_chars s s'"
  unfolding deleteResultFor_def realm_find_char realm_find_account
  by (auto split: option.splits prod.splits sum.splits if_splits dest: use_cases_only)

lemma handlers_only_chars:
  "only_chars s (snd (handleMakeChar C c f s))"
  "only_chars s (snd (handleSelectChar C c f s))"
  "only_chars s (snd (handleDeleteReserved n1 n2 c f s))"
  "only_chars s (snd (handleDelete c f s))"
  "only_chars s (snd (handleDeleteCancel c f s))"
  unfolding handleMakeChar_def handleSelectChar_def handleDeleteReserved_def handleDelete_def handleDeleteCancel_def
    realm_list
  by (auto split: option.splits prod.splits sum.splits dest: use_cases_only deleteResultFor_only)

text \<open>Entering fills the identity cache when the login ID matches, and nothing else.\<close>

lemma char_handleEnter_state:
  "snd (char_handleEnter c f s) = s \<or>
   (\<exists>q se. ParseCHEnter f = Inr q \<and> rm_sessions s (CHEnterRequest_AccountID q) = Some se \<and>
      se_LoginID1 se = CHEnterRequest_LoginID1 q \<and>
      snd (char_handleEnter c f s) =
        setAuth c \<lparr>ca_accountID = CHEnterRequest_AccountID q, ca_sex = CHEnterRequest_Sex q\<rparr> s)"
  by (auto simp: char_handleEnter_def Authorize_def realm_get_session realm_list Let_def split: sum.split option.split)

section \<open>Histories\<close>

datatype gate_event =
    LoginFrame "byte list option" int string frame
  | CharFrame int int string conn frame

fun gate_step :: "login_server \<Rightarrow> char_server \<Rightarrow> gate_event \<Rightarrow> 'z realm_scheme \<Rightarrow> frame option \<times> 'z realm_scheme" where
  "gate_step L C (LoginFrame rnd now ip f) s = handleLogin L rnd now ip f s"
| "gate_step L C (CharFrame now1 now2 fn c f) s = char_dispatch C now1 now2 fn c f s"

definition gate_run :: "login_server \<Rightarrow> char_server \<Rightarrow> gate_event list \<Rightarrow> 'z realm_scheme \<Rightarrow> 'z realm_scheme" where
  "gate_run L C evs s = fold (\<lambda>ev s. snd (gate_step L C ev s)) evs s"

lemma gate_run_snoc: "gate_run L C (evs @ [ev]) s = snd (gate_step L C ev (gate_run L C evs s))"
  by (simp add: gate_run_def)

text \<open>
  A login ID was issued for an account: some login frame of the history carried a credential of it, and the
  ID is what the random source gave for that frame.
\<close>

definition issued :: "login_server \<Rightarrow> account_repo \<Rightarrow> gate_event list \<Rightarrow> u32 \<Rightarrow> u32 \<Rightarrow> bool" where
  "issued L R evs aid id1 \<longleftrightarrow>
     (\<exists>buf now ip f req acc. LoginFrame (Some buf) now ip f \<in> set evs \<and> ParseCALogin f = Inr req \<and>
        ar_byID R aid = Some acc \<and>
        credential_ok (ls_useMD5 L) (CALoginRequest_Username req) (CALoginRequest_Password req) acc \<and>
        id1 = u32_at 0 buf)"

text \<open>A connection was admitted: it presented, for the identity it holds, a login ID issued before.\<close>

definition admitted :: "login_server \<Rightarrow> account_repo \<Rightarrow> gate_event list \<Rightarrow> conn \<Rightarrow> char_auth \<Rightarrow> bool" where
  "admitted L R evs c a \<longleftrightarrow>
     (\<exists>before after now1 now2 f q. evs = before @ CharFrame now1 now2 ''handleEnter'' c f # after \<and>
        ParseCHEnter f = Inr q \<and> CHEnterRequest_AccountID q = ca_accountID a \<and>
        issued L R before (ca_accountID a) (CHEnterRequest_LoginID1 q))"

lemma issued_snoc: "issued L R evs aid id1 \<Longrightarrow> issued L R (evs @ [ev]) aid id1"
  unfolding issued_def set_append by blast

lemma admitted_snoc:
  assumes "admitted L R evs c a"
  shows "admitted L R (evs @ [ev]) c a"
proof -
  obtain before after now1 now2 f q where "evs = before @ CharFrame now1 now2 ''handleEnter'' c f # after"
      "ParseCHEnter f = Inr q" "CHEnterRequest_AccountID q = ca_accountID a"
      "issued L R before (ca_accountID a) (CHEnterRequest_LoginID1 q)"
    using assms unfolding admitted_def by blast
  then show ?thesis
    unfolding admitted_def by (intro exI [of _ before] exI [of _ "after @ [ev]"]) auto
qed

text \<open>What of the account table decides a login.\<close>

definition logins :: "account_repo \<Rightarrow> u32 \<Rightarrow> (string \<times> string \<times> bool) option" where
  "logins r i = map_option (\<lambda>a. (ac_UserID a, ac_UserPass a, IsBanned a)) (ar_byID r i)"

lemma logins_stamp: "ar_byID r i = Some a \<Longrightarrow> logins (r\<lparr>ar_byID := (ar_byID r)(i \<mapsto> stamp_login now ip a)\<rparr>) = logins r"
  by (auto simp: logins_def fun_eq_iff)

lemma logins_byID: "logins r = logins R \<Longrightarrow> ar_byID r i = Some a \<Longrightarrow> credential_ok m u p a \<Longrightarrow>
    \<exists>b. ar_byID R i = Some b \<and> credential_ok m u p b"
  by (drule fun_cong [of _ _ i]) (cases "ar_byID R i"; auto simp: logins_def credential_ok_def)

definition gate_inv :: "login_server \<Rightarrow> account_repo \<Rightarrow> gate_event list \<Rightarrow> 'z realm_scheme \<Rightarrow> bool" where
  "gate_inv L R evs s \<longleftrightarrow> ar_wf (rm_accounts s) \<and> logins (rm_accounts s) = logins R \<and>
     (\<forall>aid se. rm_sessions s aid = Some se \<longrightarrow> issued L R evs aid (se_LoginID1 se)) \<and>
     (\<forall>c a. rm_auth s c = Some a \<longrightarrow> admitted L R evs c a)"

lemma gate_inv_more: "gate_inv L R evs s \<Longrightarrow> gate_inv L R (evs @ [ev]) s"
  unfolding gate_inv_def by (blast intro: issued_snoc admitted_snoc)

lemma gate_inv_same:
  assumes "gate_inv L R evs s" and "rm_accounts s' = rm_accounts s" and "rm_sessions s' = rm_sessions s" and "rm_auth s' = rm_auth s"
  shows "gate_inv L R (evs @ [ev]) s'"
  using gate_inv_more [OF assms(1), of ev] assms(2-4) by (simp add: gate_inv_def)

text \<open>A login frame changes the realm only when it carries a credential.\<close>

lemma handleLogin_state:
  assumes "ar_wf (rm_accounts s)"
  shows "snd (handleLogin L rnd now ip f s) = s \<or>
    (\<exists>req buf acc r'. ParseCALogin f = Inr req \<and> rnd = Some buf \<and> ar_byID (rm_accounts s) (ac_ID acc) = Some acc \<and>
       credential_ok (ls_useMD5 L) (CALoginRequest_Username req) (CALoginRequest_Password req) acc \<and>
       ar_wf r' \<and> logins r' = logins (rm_accounts s) \<and>
       snd (handleLogin L rnd now ip f s) = s\<lparr>rm_accounts := r', rm_sessions := (rm_sessions s)(ac_ID acc \<mapsto>
         \<lparr>se_AccountID = ac_ID acc, se_LoginID1 = u32_at 0 buf, se_LoginID2 = u32_at 4 buf,
          se_Sex = sexByte (ac_Sex acc)\<rparr>)\<rparr> \<and>
       fst (handleLogin L rnd now ip f s) =
         sent (encode_AcceptLoginResponse (accept_login L acc (u32_at 0 buf) (u32_at 4 buf))))"
proof (cases "ParseCALogin f")
  case (Inl e)
  then show ?thesis by (simp add: handleLogin_def)
next
  case (Inr req)
  let ?u = "CALoginRequest_Username req" and ?p = "CALoginRequest_Password req"
  obtain result s' where run: "Authenticate realm_accounts (ls_useMD5 L) rnd now ?u ?p ip s = (result, s')"
    by (metis prod.exhaust)
  note lifted = run [unfolded realm_accounts_def]
  show ?thesis
  proof (cases result)
    case (Inl e)
    have "s' = s"
      using realm_accounts_field.lifted.authenticate_Inl [OF assms lifted [unfolded Inl]] by simp
    then show ?thesis
      using Inr run Inl by (simp add: handleLogin_def)
  next
    case (Inr x)
    obtain acc id1 id2 where x: "x = (acc, id1, id2)"
      by (metis prod_cases3)
    obtain buf where buf: "ar_byID (rm_accounts s) (ac_ID acc) = Some acc" "credential_ok (ls_useMD5 L) ?u ?p acc"
        "rnd = Some buf" "id1 = u32_at 0 buf" "id2 = u32_at 4 buf" "ar_wf (rm_accounts s')"
        "ar_byID (rm_accounts s') = (ar_byID (rm_accounts s))(ac_ID acc \<mapsto> stamp_login now ip acc)"
      using realm_accounts_field.lifted.authenticate_credential [OF assms lifted [unfolded Inr x]] by blast
    have find: "ap_FindByUserID realm_accounts ?u s = (Inr acc, s)"
      using realm_accounts_field.lifted.find_known [OF assms buf(1)] buf(2)
      by (simp add: realm_accounts_def credential_ok_def)
    have "s' = snd (ap_RecordLogin realm_accounts now (ac_ID acc) ip s)"
      using run [unfolded Inr x] find buf(2,3) by (auto simp: Authenticate_def credential_ok_def newSessionTokens_def)
    then obtain r' where s': "s' = s\<lparr>rm_accounts := r'\<rparr>"
      by (auto simp: realm_accounts_def lift_account_port_def zoom_def split: prod.splits)
    have "logins r' = logins (rm_accounts s)" and "ar_wf r'"
      using buf(1,6,7) s' by (auto simp: logins_def fun_eq_iff)
    moreover have "handleLogin L rnd now ip f s =
        (sent (encode_AcceptLoginResponse (accept_login L acc (u32_at 0 buf) (u32_at 4 buf))),
         s'\<lparr>rm_sessions := (rm_sessions s')(ac_ID acc \<mapsto> \<lparr>se_AccountID = ac_ID acc, se_LoginID1 = u32_at 0 buf,
           se_LoginID2 = u32_at 4 buf, se_Sex = sexByte (ac_Sex acc)\<rparr>)\<rparr>)"
      using \<open>ParseCALogin f = Inr req\<close> run Inr x buf(4,5) by (simp add: handleLogin_def realm_put_session)
    ultimately show ?thesis
      using \<open>ParseCALogin f = Inr req\<close> buf(1-3) s'
      by (intro disjI2 exI [of _ req] exI [of _ buf] exI [of _ acc] exI [of _ r']) simp
  qed
qed

lemma gate_inv_login:
  assumes "gate_inv L R evs s"
  shows "gate_inv L R (evs @ [LoginFrame rnd now ip f]) (snd (handleLogin L rnd now ip f s))"
proof -
  have wf: "ar_wf (rm_accounts s)" and log: "logins (rm_accounts s) = logins R"
    using assms by (simp_all add: gate_inv_def)
  consider (same) "snd (handleLogin L rnd now ip f s) = s"
    | (put) req buf acc r' where "ParseCALogin f = Inr req" "rnd = Some buf" "ar_byID (rm_accounts s) (ac_ID acc) = Some acc"
       "credential_ok (ls_useMD5 L) (CALoginRequest_Username req) (CALoginRequest_Password req) acc"
       "ar_wf r'" "logins r' = logins (rm_accounts s)"
       "snd (handleLogin L rnd now ip f s) = s\<lparr>rm_accounts := r', rm_sessions := (rm_sessions s)(ac_ID acc \<mapsto>
         \<lparr>se_AccountID = ac_ID acc, se_LoginID1 = u32_at 0 buf, se_LoginID2 = u32_at 4 buf,
          se_Sex = sexByte (ac_Sex acc)\<rparr>)\<rparr>"
    using handleLogin_state [OF wf, of L rnd now ip f] by blast
  then show ?thesis
  proof cases
    case same
    then show ?thesis
      using gate_inv_more [OF assms] by simp
  next
    case put
    obtain acc' where "ar_byID R (ac_ID acc) = Some acc'"
        "credential_ok (ls_useMD5 L) (CALoginRequest_Username req) (CALoginRequest_Password req) acc'"
      using logins_byID [OF log put(3,4)] by blast
    then have "issued L R (evs @ [LoginFrame rnd now ip f]) (ac_ID acc) (u32_at 0 buf)"
      using put(1,2) unfolding issued_def by fastforce
    then show ?thesis
      using gate_inv_more [OF assms, of "LoginFrame rnd now ip f"] put(5,6) log
      by (auto simp: put(7) gate_inv_def split: if_splits)
  qed
qed

lemma gate_inv_enter:
  assumes "gate_inv L R evs s"
  shows "gate_inv L R (evs @ [CharFrame now1 now2 ''handleEnter'' c f]) (snd (char_handleEnter c f s))"
proof -
  let ?evs = "evs @ [CharFrame now1 now2 ''handleEnter'' c f]"
  note inv = gate_inv_more [OF assms, of "CharFrame now1 now2 ''handleEnter'' c f"]
  consider (same) "snd (char_handleEnter c f s) = s"
    | (put) q se where "ParseCHEnter f = Inr q" "rm_sessions s (CHEnterRequest_AccountID q) = Some se"
        "se_LoginID1 se = CHEnterRequest_LoginID1 q"
        "snd (char_handleEnter c f s) =
          setAuth c \<lparr>ca_accountID = CHEnterRequest_AccountID q, ca_sex = CHEnterRequest_Sex q\<rparr> s"
    using char_handleEnter_state [of c f s] by blast
  then show ?thesis
  proof cases
    case same
    then show ?thesis
      using inv by simp
  next
    case put
    let ?a = "\<lparr>ca_accountID = CHEnterRequest_AccountID q, ca_sex = CHEnterRequest_Sex q\<rparr>"
    have "issued L R evs (ca_accountID ?a) (CHEnterRequest_LoginID1 q)"
      using assms put(2) by (simp add: gate_inv_def put(3) [symmetric])
    then have "admitted L R ?evs c ?a"
      unfolding admitted_def using put(1) by fastforce
    then show ?thesis
      using inv unfolding put(4) setAuth_def gate_inv_def by auto
  qed
qed

lemma gate_inv_step:
  assumes "gate_inv L R evs s"
  shows "gate_inv L R (evs @ [ev]) (snd (gate_step L C ev s))"
proof (cases ev)
  case (LoginFrame rnd now ip f)
  then show ?thesis
    using gate_inv_login [OF assms] by simp
next
  case (CharFrame now1 now2 fn c f)
  show ?thesis
  proof (cases "fn = ''handleEnter''")
    case True
    then show ?thesis
      using gate_inv_enter [OF assms] CharFrame by (simp add: char_dispatch_def)
  next
    case False
    then have "only_chars s (snd (gate_step L C ev s))"
      using CharFrame by (simp add: char_dispatch_def handlers_only_chars)
    then show ?thesis
      using gate_inv_same [OF assms] only_chars_keeps by blast
  qed
qed

lemma gate_inv_run:
  assumes "gate_inv L R [] s"
  shows "gate_inv L R evs (gate_run L C evs s)"
proof (induction evs rule: rev_induct)
  case Nil
  then show ?case
    using assms by (simp add: gate_run_def)
next
  case (snoc ev evs)
  show ?case
    unfolding gate_run_snoc by (rule gate_inv_step [OF snoc.IH])
qed

section \<open>Requests of one account and the characters of the others\<close>

definition others :: "u32 \<Rightarrow> (u32 \<rightharpoonup> character) \<Rightarrow> (u32 \<times> character) set" where
  "others acc m = {(i, c). m i = Some c \<and> ch_AccountID c \<noteq> acc}"

lemma others_put: "m i = None \<or> (\<exists>c. m i = Some c \<and> ch_AccountID c = acc) \<Longrightarrow> ch_AccountID c' = acc \<Longrightarrow>
    others acc (m(i \<mapsto> c')) = others acc m"
  by (auto simp: others_def split: if_splits)

lemma others_remove: "m i = Some c \<Longrightarrow> ch_AccountID c = acc \<Longrightarrow> others acc (m(i := None)) = others acc m"
  by (auto simp: others_def split: if_splits)

context character_store
begin

lemma cs_Create_others:
  assumes "inv s" and "room s" and "cs_Create P m acc slot nm s = (r, s')"
  shows "inv s' \<and> others acc (chars s') = others acc (chars s)"
proof (cases r)
  case (Inl e)
  have "s' = s"
    by (rule cs_Create_total [OF assms(1) assms(3) [unfolded Inl]])
  then show ?thesis
    using assms(1) by simp
next
  case (Inr c)
  note new = create_ok [OF assms(1,2) cs_Create_Inr(4) [OF assms(1) assms(3) [unfolded Inr]]]
  have "ch_AccountID c = acc"
    by (subst conjunct1 [OF conjunct2 [OF new]]) (simp add: novice_def)
  then show ?thesis
    using new by (simp add: others_put)
qed

lemma ReserveDelete_others:
  assumes "inv s" and "ReserveDelete P n1 n2 i acc s = (r, s')"
  shows "inv s' \<and> others acc (chars s') = others acc (chars s)"
proof (cases "chars s i")
  case None
  then show ?thesis
    using assms by (auto simp: ReserveDelete_def find_ok)
next
  case (Some c)
  show ?thesis
  proof (cases "ch_AccountID c = acc \<and> ch_DeleteDate c = 0")
    case True
    then show ?thesis
      using assms Some date_ok [OF assms(1) Some, of acc "word_of_int n1"]
      by (auto simp: ReserveDelete_def find_ok Let_def others_put)
  next
    case False
    then show ?thesis
      using assms Some by (auto simp: ReserveDelete_def find_ok split: if_splits)
  qed
qed

lemma CancelDelete_others:
  assumes "inv s" and "CancelDelete P i acc s = (r, s')"
  shows "inv s' \<and> others acc (chars s') = others acc (chars s)"
proof (cases "chars s i")
  case None
  then show ?thesis
    using assms by (auto simp: CancelDelete_def find_ok)
next
  case (Some c)
  show ?thesis
  proof (cases "ch_AccountID c = acc \<and> ch_DeleteDate c \<noteq> 0")
    case True
    then show ?thesis
      using assms Some date_ok [OF assms(1) Some, of acc 0]
      by (auto simp: CancelDelete_def find_ok others_put)
  next
    case False
    then show ?thesis
      using assms Some by (auto simp: CancelDelete_def find_ok split: if_splits)
  qed
qed

end

lemma realm_delete:
  assumes wf: "cr_wf (rm_chars s)" and run: "cs_Delete realm_chars i acc s = (r, s')"
  shows "cr_wf (rm_chars s') \<and> others acc (cr_chars (rm_chars s')) = others acc (cr_chars (rm_chars s)) \<and>
    (case r of Inl e \<Rightarrow> s' = s
     | Inr _ \<Rightarrow> (\<exists>c. cr_chars (rm_chars s) i = Some c \<and> ch_AccountID c = acc) \<and>
         cr_chars (rm_chars s') = (cr_chars (rm_chars s))(i := None))"
proof (cases r)
  case (Inl e)
  have "s' = s"
    using run Inl
    by (auto simp: cs_Delete_def realm_chars_def lift_char_port_def mem_char_port_def cr_Delete_def zoom_def
        split: option.splits if_splits)
  then show ?thesis
    using wf Inl by simp
next
  case (Inr u)
  have "cp_Delete realm_chars i acc s = (Inr (), s')"
    using run Inr by (simp add: cs_Delete_def)
  from realm_chars_field.lifted.delete_ok [OF wf this [unfolded realm_chars_def]] show ?thesis
    using Inr others_remove by auto
qed

lemma deleteResultFor_others:
  assumes wf: "cr_wf (rm_chars s)" and run: "deleteResultFor acc req s = (r, s')"
  shows "cr_wf (rm_chars s') \<and> others acc (cr_chars (rm_chars s')) = others acc (cr_chars (rm_chars s))"
  using assms unfolding deleteResultFor_def realm_find_char realm_find_account
  by (auto split: option.splits prod.splits sum.splits if_splits dest: realm_delete)

text \<open>A request touches only characters of the account its connection was admitted for.\<close>

definition spares :: "'z realm_scheme \<Rightarrow> u32 \<Rightarrow> 'z realm_scheme \<Rightarrow> bool" where
  "spares s acc s' \<longleftrightarrow> cr_wf (rm_chars s') \<and> others acc (cr_chars (rm_chars s')) = others acc (cr_chars (rm_chars s))"

lemma use_cases_spare:
  assumes wf: "cr_wf (rm_chars s)"
  shows "cr_room (rm_chars s) \<Longrightarrow> cs_Create realm_chars m acc slot nm s = (r1, s') \<Longrightarrow> spares s acc s'"
    and "ReserveDelete realm_chars n1 n2 i acc s = (r2, s') \<Longrightarrow> spares s acc s'"
    and "CancelDelete realm_chars i acc s = (r3, s') \<Longrightarrow> spares s acc s'"
    and "deleteResultFor acc req s = (r4, s') \<Longrightarrow> spares s acc s'"
  unfolding spares_def realm_chars_def
  by (rule realm_chars_field.lifted.cs_Create_others [OF wf] realm_chars_field.lifted.ReserveDelete_others [OF wf]
      realm_chars_field.lifted.CancelDelete_others [OF wf] deleteResultFor_others [OF wf]; assumption)+

lemma handlers_spare:
  assumes wf: "cr_wf (rm_chars s)" and room: "cr_room (rm_chars s)" and a: "rm_auth s c = Some a"
  shows "spares s (ca_accountID a) (snd (handleMakeChar C c f s))"
    and "spares s (ca_accountID a) (snd (handleSelectChar C c f s))"
    and "spares s (ca_accountID a) (snd (handleDeleteReserved n1 n2 c f s))"
    and "spares s (ca_accountID a) (snd (handleDelete c f s))"
    and "spares s (ca_accountID a) (snd (handleDeleteCancel c f s))"
proof -
  have same: "spares s acc s" for acc
    using wf by (simp add: spares_def)
  note u = use_cases_spare [OF wf]
  show "spares s (ca_accountID a) (snd (handleMakeChar C c f s))"
    using same by (auto simp: handleMakeChar_def a split: sum.split prod.split dest: u(1) [OF room])
  show "spares s (ca_accountID a) (snd (handleSelectChar C c f s))"
    using same by (auto simp: handleSelectChar_def a realm_list split: sum.split option.split)
  show "spares s (ca_accountID a) (snd (handleDeleteReserved n1 n2 c f s))"
    using same by (auto simp: handleDeleteReserved_def a split: sum.split prod.split dest: u(2))
  show "spares s (ca_accountID a) (snd (handleDelete c f s))"
    using same by (auto simp: handleDelete_def a split: sum.split prod.split dest: u(4))
  show "spares s (ca_accountID a) (snd (handleDeleteCancel c f s))"
    using same by (auto simp: handleDeleteCancel_def a split: sum.split prod.split dest: u(3))
qed

lemma handlers_unauthenticated:
  assumes "rm_auth s c = None" and "fn \<noteq> ''handleEnter''"
  shows "snd (char_dispatch C n1 n2 fn c f s) = s"
  using assms
  by (simp add: char_dispatch_def handleMakeChar_def handleSelectChar_def handleDeleteReserved_def handleDelete_def
      handleDeleteCancel_def)

lemma char_dispatch_spares:
  assumes "cr_wf (rm_chars s)" and "cr_room (rm_chars s)" and "rm_auth s c = Some a" and "fn \<noteq> ''handleEnter''"
  shows "spares s (ca_accountID a) (snd (char_dispatch C n1 n2 fn c f s))"
  using assms by (simp add: char_dispatch_def handlers_spare spares_def [of _ _ s])

section \<open>From the login reply to character select\<close>

lemma accept_login_frame:
  assumes "length (ls_charName L) \<le> 20"
  shows "\<exists>out. sent (encode_AcceptLoginResponse (accept_login L acc id1 id2)) = Some out \<and>
    u16_at 0 out = 0x0ac4 \<and> u32_at 4 out = id1 \<and> u32_at 8 out = ac_ID acc \<and> u32_at 12 out = id2"
proof -
  let ?r = "accept_login L acc id1 id2"
  let ?head = "fill 64 [put16 0 0x0ac4, put16 2 (of_nat (size_AcceptLoginResponse ?r)), put32 4 id1, put32 8 (ac_ID acc),
     put32 12 id2, put32 16 0, writeFixedString 20 26 [], put8 46 (sexByte (ac_Sex acc)), writeFixedString 47 17 []]"
  let ?tail = "concat (map encode_CharServer (AcceptLoginResponse_CharServers ?r))"
  have "sent (encode_AcceptLoginResponse ?r) = Some (?head @ ?tail)"
    using assms by (simp add: encode_AcceptLoginResponse_def validate_AcceptLoginResponse_def accept_login_def sent_def)
  moreover have "length ?head = 64"
    by (simp add: wire_reads wire_puts)
  moreover have "u16_at 0 ?head = 0x0ac4" "u32_at 4 ?head = id1" "u32_at 8 ?head = ac_ID acc" "u32_at 12 ?head = id2"
    by (simp_all add: wire_reads wire_puts)
  ultimately show ?thesis
    by (auto simp: u16_at_def u32_at_def slice_append)
qed

lemma login_then_enter:
  assumes wf: "ar_wf (rm_accounts s)" and acc: "ar_byID (rm_accounts s) (ac_ID acc) = Some acc"
    and f: "ParseCALogin f = Inr req"
    and ok: "credential_ok (ls_useMD5 L) (CALoginRequest_Username req) (CALoginRequest_Password req) acc"
    and name: "length (ls_charName L) \<le> 20"
  shows "\<exists>out s1. handleLogin L (Some buf) now ip f s = (Some out, s1) \<and> u16_at 0 out = 0x0ac4 \<and>
    u32_at 8 out = ac_ID acc \<and> u32_at 4 out = u32_at 0 buf \<and> rm_chars s1 = rm_chars s \<and>
    rm_sessions s1 (ac_ID acc) = Some \<lparr>se_AccountID = ac_ID acc, se_LoginID1 = u32_at 0 buf,
      se_LoginID2 = u32_at 4 buf, se_Sex = sexByte (ac_Sex acc)\<rparr>"
proof -
  obtain s' where s': "Authenticate realm_accounts (ls_useMD5 L) (Some buf) now (CALoginRequest_Username req)
      (CALoginRequest_Password req) ip s = (Inr (acc, u32_at 0 buf, u32_at 4 buf), s')"
    using realm_accounts_field.lifted.authenticate_Inr [where now = now and ip = ip, OF wf acc ok refl]
    unfolding realm_accounts_def by blast
  have chars: "rm_chars s' = rm_chars s"
    using s' by (auto simp: Authenticate_def realm_accounts_def lift_account_port_def zoom_def
        split: prod.splits sum.splits if_splits)
  show ?thesis
    using accept_login_frame [OF name, of acc "u32_at 0 buf" "u32_at 4 buf"] f s' chars
    by (auto simp: handleLogin_def realm_put_session)
qed

lemma char_enter_admits:
  assumes "rm_sessions s (CHEnterRequest_AccountID q) = Some se" and "se_LoginID1 se = CHEnterRequest_LoginID1 q"
  shows "char_handleEnter c (encode_CHEnterRequest q) s =
    (sent (encode_AcceptEnterResponse
       \<lparr>AcceptEnterResponse_Total = 9, AcceptEnterResponse_PremiumStart = 9, AcceptEnterResponse_PremiumEnd = 9,
        AcceptEnterResponse_Extension = [],
        AcceptEnterResponse_Characters = map (toCharacterInfo (CHEnterRequest_Sex q))
          (filter (\<lambda>ch. ch_AccountID ch = CHEnterRequest_AccountID q) (map snd (cr_byID (rm_chars s))))\<rparr>),
     setAuth c \<lparr>ca_accountID = CHEnterRequest_AccountID q, ca_sex = CHEnterRequest_Sex q\<rparr> s)"
  using assms
  by (simp add: char_handleEnter_def ParseCHEnter_encode Authorize_def realm_get_session realm_list Let_def setAuth_def)

section \<open>Properties\<close>

definition demo_request :: CALoginRequest where
  "demo_request = \<lparr>CALoginRequest_Version = 55, CALoginRequest_Username = ''al'', CALoginRequest_Password = ''pw'',
     CALoginRequest_ClientType = 0\<rparr>"

lemma ParseCALogin_encode:
  assumes "fits 24 (CALoginRequest_Username r)" and "fits 24 (CALoginRequest_Password r)"
    and "encode_CALoginRequest r = Inr f"
  shows "ParseCALogin f = Inr r"
  using assms
  by (cases r) (auto simp: ParseCALogin_def encode_CALoginRequest_def of_exact_def validate_CALoginRequest_def wire_reads
      wire_puts cstr_pad [unfolded cstr_def] split: if_splits)

definition demo_login :: frame where
  "demo_login = (case encode_CALoginRequest demo_request of Inr f \<Rightarrow> f | Inl e \<Rightarrow> [])"

lemma demo_login_parses: "ParseCALogin demo_login = Inr demo_request"
proof -
  have "encode_CALoginRequest demo_request = Inr demo_login"
    by (simp add: demo_login_def demo_request_def encode_CALoginRequest_def validate_CALoginRequest_def)
  then show ?thesis
    by (intro ParseCALogin_encode) (simp_all add: demo_request_def fits_def)
qed

definition demo_owner :: account where
  "demo_owner = zero_account\<lparr>ac_ID := 7, ac_UserID := ''al'', ac_UserPass := ''pw'', ac_Sex := ''F'',
     ac_Birthdate := Some (1999, 2, 28)\<rparr>"

definition demo_realm :: realm where
  "demo_realm = \<lparr>rm_accounts = NewMemoryAccountRepository [demo_owner], rm_sessions = Map.empty, rm_chars = demo_chars,
     rm_auth = Map.empty\<rparr>"

definition demo_login_server :: login_server where
  "demo_login_server = \<lparr>ls_useMD5 = False, ls_charIP = 0, ls_charPort = 6121, ls_charName = ''go''\<rparr>"

definition demo_char_server :: char_server where
  "demo_char_server = \<lparr>cs_maxSlots = 9, cs_mapIP = 0, cs_mapPort = 5121\<rparr>"

lemma demo_realm_simps [simp]:
  "ar_wf (rm_accounts demo_realm)" "ar_byID (rm_accounts demo_realm) = [7 \<mapsto> demo_owner]" "ac_ID demo_owner = 7"
  "rm_sessions demo_realm = Map.empty" "rm_auth demo_realm = Map.empty" "rm_chars demo_realm = demo_chars"
  "credential_ok False ''al'' ''pw'' demo_owner"
proof -
  have "ar_wf (seed_account demo_owner \<lparr>ar_byID = Map.empty, ar_byUID = Map.empty\<rparr>)"
    by (rule ar_wf_seed [OF ar_wf_empty]) simp_all
  then show "ar_wf (rm_accounts demo_realm)"
    by (simp add: demo_realm_def NewMemoryAccountRepository_def)
qed (simp_all add: demo_realm_def NewMemoryAccountRepository_def seed_account_def demo_owner_def zero_account_def
    credential_ok_def passwordOK_def IsBanned_def)

definition demo_rand :: "byte list" where
  "demo_rand = [1, 2, 3, 4, 5, 6, 7, 8]"

definition demo_enter :: "u32 \<Rightarrow> u32 \<Rightarrow> frame" where
  "demo_enter aid id1 = encode_CHEnterRequest \<lparr>CHEnterRequest_AccountID = aid, CHEnterRequest_LoginID1 = id1,
     CHEnterRequest_LoginID2 = 0, CHEnterRequest_Sex = 0\<rparr>"

text \<open>
  C20. Logging in is enough to reach character select. A parsed login frame with a stored, unbanned
  credential is answered with \<open>AC_ACCEPT_LOGIN\<close>; a client that echoes the account id and login ID it
  reads at bytes 8 and 4 of that reply in its \<open>CH_ENTER\<close> is admitted under exactly that account and is sent the
  rows of exactly that account.
\<close>

theorem login_reaches_char_select:
  assumes "ar_wf (rm_accounts s)" and "ar_byID (rm_accounts s) (ac_ID acc) = Some acc" and "ParseCALogin f = Inr req"
    and "credential_ok (ls_useMD5 L) (CALoginRequest_Username req) (CALoginRequest_Password req) acc"
    and "length (ls_charName L) \<le> 20"
  shows "\<exists>out s1. handleLogin L (Some buf) now ip f s = (Some out, s1) \<and> u16_at 0 out = 0x0ac4 \<and>
    u32_at 8 out = ac_ID acc \<and>
    (\<forall>id2 sex. char_handleEnter c (encode_CHEnterRequest \<lparr>CHEnterRequest_AccountID = u32_at 8 out,
         CHEnterRequest_LoginID1 = u32_at 4 out, CHEnterRequest_LoginID2 = id2, CHEnterRequest_Sex = sex\<rparr>) s1 =
       (sent (encode_AcceptEnterResponse
          \<lparr>AcceptEnterResponse_Total = 9, AcceptEnterResponse_PremiumStart = 9, AcceptEnterResponse_PremiumEnd = 9,
           AcceptEnterResponse_Extension = [],
           AcceptEnterResponse_Characters = map (toCharacterInfo sex)
             (filter (\<lambda>ch. ch_AccountID ch = ac_ID acc) (map snd (cr_byID (rm_chars s))))\<rparr>),
        setAuth c \<lparr>ca_accountID = ac_ID acc, ca_sex = sex\<rparr> s1))"
proof -
  obtain out s1 where o: "handleLogin L (Some buf) now ip f s = (Some out, s1)" "u16_at 0 out = 0x0ac4"
      "u32_at 8 out = ac_ID acc" "u32_at 4 out = u32_at 0 buf" "rm_chars s1 = rm_chars s"
      "rm_sessions s1 (ac_ID acc) = Some \<lparr>se_AccountID = ac_ID acc, se_LoginID1 = u32_at 0 buf,
        se_LoginID2 = u32_at 4 buf, se_Sex = sexByte (ac_Sex acc)\<rparr>"
    using login_then_enter [OF assms] by blast
  then show ?thesis
    by (auto simp: char_enter_admits)
qed

theorem login_reaches_char_select_witness:
  "\<exists>out s1. handleLogin demo_login_server (Some demo_rand) 17 ''h'' demo_login demo_realm = (Some out, s1) \<and>
     u32_at 8 out = 7 \<and> rm_auth (snd (char_handleEnter 1 (demo_enter (u32_at 8 out) (u32_at 4 out)) s1)) 1 =
       Some \<lparr>ca_accountID = 7, ca_sex = 0\<rparr>"
proof -
  have "length (ls_charName demo_login_server) \<le> 20" and "ls_useMD5 demo_login_server = False"
    by (simp_all add: demo_login_server_def)
  then show ?thesis
    using login_reaches_char_select [where s = demo_realm and acc = demo_owner and c = 1 and buf = demo_rand and now = 17
        and ip = "''h''" and L = demo_login_server, OF _ _ demo_login_parses]
    by (fastforce simp: demo_request_def demo_enter_def setAuth_def)
qed

text \<open>
  C6. No character session without a login. Start from empty session and identity tables and let any frames
  arrive at the two listeners in any order: a connection that holds the identity of an account has sent a
  \<open>CH_ENTER\<close> with a login ID that the random source had produced, earlier in the history, for a login
  frame carrying a credential of that very account.
\<close>

theorem no_char_session_without_login:
  assumes "ar_wf (rm_accounts s)" and "rm_sessions s = Map.empty" and "rm_auth s = Map.empty"
    and "rm_auth (gate_run L C evs s) c = Some a"
  shows "admitted L (rm_accounts s) evs c a"
proof -
  have "gate_inv L (rm_accounts s) [] s"
    using assms(1-3) by (simp add: gate_inv_def)
  from gate_inv_run [OF this] show ?thesis
    using assms(4) by (simp add: gate_inv_def)
qed

theorem no_char_session_without_login_witness:
  "admitted demo_login_server (rm_accounts demo_realm)
     [LoginFrame (Some demo_rand) 17 ''h'' demo_login, CharFrame 0 0 ''handleEnter'' 1 (demo_enter 7 (u32_at 0 demo_rand))]
     1 \<lparr>ca_accountID = 7, ca_sex = 0\<rparr>"
proof -
  let ?evs = "[LoginFrame (Some demo_rand) 17 ''h'' demo_login,
    CharFrame 0 0 ''handleEnter'' 1 (demo_enter 7 (u32_at 0 demo_rand))]"
  have "\<exists>out s1. handleLogin demo_login_server (Some demo_rand) 17 ''h'' demo_login demo_realm = (Some out, s1) \<and>
      rm_sessions s1 7 = Some \<lparr>se_AccountID = 7, se_LoginID1 = u32_at 0 demo_rand, se_LoginID2 = u32_at 4 demo_rand,
        se_Sex = sexByte (ac_Sex demo_owner)\<rparr>"
    using login_then_enter [where s = demo_realm and acc = demo_owner and buf = demo_rand and now = 17 and ip = "''h''"
        and L = demo_login_server, OF _ _ demo_login_parses]
    by (fastforce simp: demo_request_def demo_login_server_def)
  then have "rm_auth (gate_run demo_login_server demo_char_server ?evs demo_realm) 1 = Some \<lparr>ca_accountID = 7, ca_sex = 0\<rparr>"
    by (auto simp: gate_run_def char_dispatch_def demo_enter_def char_enter_admits setAuth_def)
  then show ?thesis
    using no_char_session_without_login [of demo_realm demo_login_server demo_char_server ?evs 1] by simp
qed

text \<open>
  C21. Accounts are isolated at character select: a request on a connection without an identity changes
  nothing, and a request on a connection of an account changes no character row of any other account,
  neither adding, changing nor removing one.
\<close>

theorem char_requests_spare_others:
  assumes "cr_wf (rm_chars s)" and "cr_room (rm_chars s)" and "fn \<noteq> ''handleEnter''"
    and "char_dispatch C now1 now2 fn c f s = (out, s')"
  shows "case rm_auth s c of
       None \<Rightarrow> s' = s
     | Some a \<Rightarrow> cr_wf (rm_chars s') \<and>
         others (ca_accountID a) (cr_chars (rm_chars s')) = others (ca_accountID a) (cr_chars (rm_chars s))"
proof (cases "rm_auth s c")
  case None
  then show ?thesis
    using handlers_unauthenticated [OF None assms(3), of C now1 now2 f] assms(4) by simp
next
  case (Some a)
  then show ?thesis
    using char_dispatch_spares [OF assms(1,2) Some assms(3), of C now1 now2 f] assms(4) by (simp add: spares_def)
qed

theorem char_requests_spare_others_witness:
  "others 9 (cr_chars (rm_chars (snd (char_dispatch demo_char_server 0 0 ''handleDelete'' 1 [] (setAuth 1 \<lparr>ca_accountID = 9, ca_sex = 0\<rparr> demo_realm)))))
     = others 9 (cr_chars demo_chars)"
  using char_requests_spare_others [of "setAuth 1 \<lparr>ca_accountID = 9, ca_sex = 0\<rparr> demo_realm" "''handleDelete''"
      demo_char_server 0 0 1 "[]", OF _ _ _ prod.collapse [symmetric]]
  by (simp add: setAuth_def)

lemma findSomeD: "find P xs = Some x \<Longrightarrow> x \<in> set xs \<and> P x"
  by (induction xs) (auto split: if_splits)

text \<open>
  Remark. Character select redirects to an own character: whatever frame arrives, if the handler answers, the
  character id it puts into \<open>HC_NOTIFY_ZONESVR\<close> is that of a row of the connection's account, sitting in
  the requested slot, and nothing changes.
\<close>

theorem select_redirects_to_own:
  assumes "cr_wf (rm_chars s)" and "handleSelectChar C c f s = (Some out, s')"
  shows "s' = s \<and> (\<exists>a ch. rm_auth s c = Some a \<and> cr_chars (rm_chars s) (u32_at 2 out) = Some ch \<and>
    ch_AccountID ch = ca_accountID a \<and> ch_CharNum ch = sint (u8_at 2 f))"
proof -
  obtain a req where a: "rm_auth s c = Some a" and req: "ParseCHSelectChar f = Inr req"
    using assms(2) by (auto simp: handleSelectChar_def split: option.splits sum.splits)
  let ?chars = "filter (\<lambda>ch. ch_AccountID ch = ca_accountID a) (map snd (cr_byID (rm_chars s)))"
  obtain ch where ch: "find (\<lambda>ch. ch_CharNum ch = sint (CHSelectCharRequest_Slot req)) ?chars = Some ch"
    using assms(2) a req by (auto simp: handleSelectChar_def realm_list split: option.splits)
  let ?r = "\<lparr>NotifyZoneServerResponse_CID = ch_ID ch, NotifyZoneServerResponse_MapName = ch_LastMap ch,
    NotifyZoneServerResponse_IP = cs_mapIP C, NotifyZoneServerResponse_Port = cs_mapPort C, NotifyZoneServerResponse_Domain = []\<rparr>"
  have out: "encode_NotifyZoneServerResponse ?r = Inr out" "s' = s"
    using assms(2) a req ch by (auto simp: handleSelectChar_def realm_list sent_def split: sum.splits)
  have id: "u32_at 2 out = ch_ID ch"
    using out(1) by (auto simp: encode_NotifyZoneServerResponse_def wire_reads wire_puts split: option.splits)
  have "ch \<in> set ?chars" and num: "ch_CharNum ch = sint (CHSelectCharRequest_Slot req)"
    using findSomeD [OF ch] by blast+
  then obtain i where mem: "(i, ch) \<in> set (cr_byID (rm_chars s))" "ch_AccountID ch = ca_accountID a"
    by auto
  have "ch_ID ch = i" and "cr_chars (rm_chars s) i = Some ch"
    using assms(1) mem(1) by (auto simp: cr_wf_def map_of_in_set)
  moreover have "CHSelectCharRequest_Slot req = u8_at 2 f"
    using req by (auto simp: ParseCHSelectChar_def of_exact_def split: if_splits)
  ultimately show ?thesis
    using a mem(2) num id out(2) by auto
qed

theorem select_redirects_to_own_witness:
  "\<exists>out s'. handleSelectChar demo_char_server 1 (encode_CHSelectCharRequest \<lparr>CHSelectCharRequest_Slot = 0\<rparr>)
       (setAuth 1 \<lparr>ca_accountID = 7, ca_sex = 0\<rparr> demo_realm) = (Some out, s') \<and>
     s' = setAuth 1 \<lparr>ca_accountID = 7, ca_sex = 0\<rparr> demo_realm"
proof -
  let ?s = "setAuth 1 \<lparr>ca_accountID = 7, ca_sex = 0\<rparr> demo_realm"
  have "fst (handleSelectChar demo_char_server 1 (encode_CHSelectCharRequest \<lparr>CHSelectCharRequest_Slot = 0\<rparr>) ?s) \<noteq> None"
    by (simp add: handleSelectChar_def ParseCHSelectChar_encode realm_list setAuth_def demo_chars_def novice_def
        sent_def encode_NotifyZoneServerResponse_def validate_NotifyZoneServerResponse_def)
  then obtain out s' where run: "handleSelectChar demo_char_server 1 (encode_CHSelectCharRequest \<lparr>CHSelectCharRequest_Slot = 0\<rparr>) ?s
      = (Some out, s')"
    by (metis not_None_eq prod.collapse)
  from select_redirects_to_own [OF _ run] show ?thesis
    using run by (simp add: setAuth_def)
qed

text \<open>
  C24. Deletion asks for the birthdate: the final delete answers 1 exactly when the character exists, belongs
  to the account, was reserved before, and the six bytes of the request spell the account's birthdate as
  two-digit year, month and day; then exactly that row goes. In every other case nothing changes. The
  clock is never consulted.
\<close>

theorem delete_exact:
  assumes "cr_wf (rm_chars s)" and "deleteResultFor acc req s = ((code, ok), s')"
  shows "(code = 1) = (\<exists>ch a b. cr_chars (rm_chars s) (CHDeleteChar3Request_CID req) = Some ch \<and> ch_AccountID ch = acc \<and>
      ch_DeleteDate ch \<noteq> 0 \<and> ar_byID (rm_accounts s) acc = Some a \<and> ac_Birthdate a = Some b \<and>
      string_of (CHDeleteChar3Request_Birthdate req) = yymmdd b) \<and>
    (if code = 1 then cr_chars (rm_chars s') = (cr_chars (rm_chars s))(CHDeleteChar3Request_CID req := None) else s' = s)"
proof -
  let ?i = "CHDeleteChar3Request_CID req"
  have ok: "\<exists>s1. cs_Delete realm_chars ?i acc s = (Inr (), s1) \<and> cr_chars (rm_chars s1) = (cr_chars (rm_chars s))(?i := None)"
    if "cr_chars (rm_chars s) ?i = Some ch" "ch_AccountID ch = acc" for ch
    using that
    by (simp add: cs_Delete_def realm_chars_def lift_char_port_def mem_char_port_def cr_Delete_def zoom_def)
  consider "cr_chars (rm_chars s) ?i = None"
    | ch where "cr_chars (rm_chars s) ?i = Some ch" "ch_AccountID ch \<noteq> acc \<or> ch_DeleteDate ch = 0"
    | ch where "cr_chars (rm_chars s) ?i = Some ch" "ch_AccountID ch = acc" "ch_DeleteDate ch \<noteq> 0"
    by (cases "cr_chars (rm_chars s) ?i") auto
  then show ?thesis
  proof cases
    case (3 ch)
    obtain s1 where s1: "cs_Delete realm_chars ?i acc s = (Inr (), s1)"
        "cr_chars (rm_chars s1) = (cr_chars (rm_chars s))(?i := None)"
      using ok [OF 3(1,2)] by blast
    show ?thesis
    proof (cases "\<exists>a b. ar_byID (rm_accounts s) acc = Some a \<and> ac_Birthdate a = Some b \<and>
        string_of (CHDeleteChar3Request_Birthdate req) = yymmdd b")
      case True
      then have "(code, ok) = (1, True)" and "s' = s1"
        using assms(2) 3 s1(1) by (auto simp: deleteResultFor_def realm_find_char realm_find_account)
      then show ?thesis
        using True 3 s1(2) by auto
    next
      case False
      then have "code \<noteq> 1" and "s' = s"
        using assms(2) 3
        by (auto simp: deleteResultFor_def realm_find_char realm_find_account split: option.splits if_splits)
      then show ?thesis
        using False 3 by auto
    qed
  qed (use assms(2) in \<open>auto simp: deleteResultFor_def realm_find_char split: if_splits\<close>)
qed

definition demo_delete :: CHDeleteChar3Request where
  "demo_delete = \<lparr>CHDeleteChar3Request_CID = 1, CHDeleteChar3Request_Birthdate = bytes_of ''990228''\<rparr>"

definition demo_reserved :: realm where
  "demo_reserved = demo_realm\<lparr>rm_chars :=
     demo_chars\<lparr>cr_byID := [(1, (novice 7 0 ''a'')\<lparr>ch_ID := 1, ch_DeleteDate := 5\<rparr>)]\<rparr>\<rparr>"

lemma demo_birthdate: "yymmdd (1999, 2, 28) = ''990228''"
  by code_simp

theorem delete_exact_witness:
  "fst (fst (deleteResultFor 7 demo_delete demo_reserved)) = 1 \<and>
   fst (fst (deleteResultFor 7 demo_delete demo_realm)) = 4"
proof
  have "cr_wf (rm_chars demo_reserved)"
    by (simp add: demo_reserved_def cr_wf_def demo_chars_def novice_def word_less_nat_alt word_le_nat_alt)
  from delete_exact [OF this, of 7 demo_delete]
  have "deleteResultFor 7 demo_delete demo_reserved = ((code, ok), s') \<Longrightarrow> code = 1" for code ok s'
    by (auto simp: demo_reserved_def demo_delete_def novice_def demo_birthdate demo_owner_def)
  then show "fst (fst (deleteResultFor 7 demo_delete demo_reserved)) = 1"
    by (metis prod.collapse)
  show "fst (fst (deleteResultFor 7 demo_delete demo_realm)) = 4"
    by (simp add: deleteResultFor_def realm_find_char demo_delete_def novice_def zero_character_def)
qed

section \<open>Two requests at once\<close>

text \<open>
  Each frame runs on its own goroutine, and \<open>Create\<close> holds no lock between its checks and its insertion;
  \<open>cs_Create_checks\<close> is the part before the insertion.
\<close>

definition cs_Create_checks :: "'s char_port \<Rightarrow> int \<Rightarrow> u32 \<Rightarrow> int \<Rightarrow> string \<Rightarrow> 's \<Rightarrow> (unit, 's) out" where
  "cs_Create_checks P maxSlots acc slot nm s =
     and_then (cp_ListByAccount P acc s) (\<lambda>existing s.
       if int (length existing) \<ge> maxSlots then (Inl ErrSlotTaken, s)
       else if \<exists>c \<in> set existing. ch_CharNum c = slot then (Inl ErrSlotTaken, s)
       else and_then (cp_NameExists P nm s) (\<lambda>taken s. if taken then (Inl ErrNameTaken, s) else (Inr (), s)))"

lemma and_then_twice: "and_then (and_then r f) g = and_then r (\<lambda>x s. and_then (f x s) g)"
  by (cases "(r, f)" rule: and_then.cases) auto

lemma cs_Create_split:
  "cs_Create P m acc slot nm s = and_then (cs_Create_checks P m acc slot nm s) (\<lambda>_ s. cp_Create P (novice acc slot nm) s)"
proof -
  have branch: "and_then (if b then (Inl e, t) else r) g = (if b then (Inl e, t) else and_then r g)"
    for b e t and r :: "(unit, 's) out" and g :: "unit \<Rightarrow> 's \<Rightarrow> (character, 's) out"
    by simp
  show ?thesis
    unfolding cs_Create_def cs_Create_checks_def and_then_twice branch and_then.simps ..
qed

text \<open>
  Remark. Two creations for the same slot can interleave: if both requests pass the checks before either
  inserts, both succeed and the account has two characters in one slot, although each request alone keeps the
  slots distinct.
\<close>

theorem create_race_breaks_slots:
  assumes "cr_wf r" and "cr_room r" and "nm1 \<noteq> nm2"
    and "cs_Create_checks mem_char_port m acc slot nm1 r = (Inr (), r)"
    and "cs_Create_checks mem_char_port m acc slot nm2 r = (Inr (), r)"
    and "cr_next r + 1 < cr_next r + 2"
  shows "\<exists>c1 r1 c2 r2. cp_Create mem_char_port (novice acc slot nm1) r = (Inr c1, r1) \<and>
    cp_Create mem_char_port (novice acc slot nm2) r1 = (Inr c2, r2) \<and> \<not> inj_on ch_CharNum (account_chars r2 acc)"
proof -
  have free: "nm1 \<notin> cr_names r" "nm2 \<notin> cr_names r"
    using assms(4,5)
    by (auto simp: cs_Create_checks_def mem_char_port_def cr_ListByAccount_def cr_NameExists_def split: if_splits)
  let ?n = "cr_next r + 1"
  let ?c1 = "(novice acc slot nm1)\<lparr>ch_ID := ?n\<rparr>" and ?c2 = "(novice acc slot nm2)\<lparr>ch_ID := ?n + 1\<rparr>"
  obtain r1 where r1: "cp_Create mem_char_port (novice acc slot nm1) r = (Inr ?c1, r1)" "cr_names r1 = insert nm1 (cr_names r)"
      "cr_next r1 = ?n" "cr_chars r1 = (cr_chars r)(?n \<mapsto> ?c1)"
    using free(1) by (simp add: mem_char_port_def cr_Create_def Let_def novice_def)
  obtain r2 where r2: "cp_Create mem_char_port (novice acc slot nm2) r1 = (Inr ?c2, r2)"
      "cr_chars r2 = (cr_chars r1)(?n + 1 \<mapsto> ?c2)"
    using free(2) assms(3) r1 by (simp add: mem_char_port_def cr_Create_def Let_def novice_def)
  have ne: "?n + 1 \<noteq> ?n"
    by simp
  have "cr_chars r2 ?n = Some ?c1" and "cr_chars r2 (?n + 1) = Some ?c2"
    using ne by (simp_all add: r2(2) r1(4))
  then have "?c1 \<in> account_chars r2 acc" and "?c2 \<in> account_chars r2 acc"
    by (auto simp: account_chars_def novice_def intro: ranI)
  moreover have "ch_CharNum ?c1 = ch_CharNum ?c2" and "ch_Name ?c1 = nm1" and "ch_Name ?c2 = nm2"
    by (simp_all add: novice_def)
  then have "ch_CharNum ?c1 = ch_CharNum ?c2" and "?c1 \<noteq> ?c2"
    using assms(3) by metis+
  ultimately have "\<not> inj_on ch_CharNum (account_chars r2 acc)"
    unfolding inj_on_def by blast
  then show ?thesis
    using r1(1) r2(1) by blast
qed

theorem create_race_breaks_slots_witness:
  "\<exists>c1 r1 c2 r2. cp_Create mem_char_port (novice 7 1 ''b'') demo_chars = (Inr c1, r1) \<and>
    cp_Create mem_char_port (novice 7 1 ''c'') r1 = (Inr c2, r2) \<and> \<not> inj_on ch_CharNum (account_chars r2 7)"
proof -
  have "cs_Create_checks mem_char_port 9 7 1 nm demo_chars = (Inr (), demo_chars)" if "nm \<noteq> ''a''" for nm
    using that
    by (simp add: cs_Create_checks_def mem_char_port_def cr_ListByAccount_def cr_NameExists_def demo_chars_def novice_def)
  from create_race_breaks_slots [OF demo_chars_ok(1,2) _ this this] show ?thesis
    by (simp add: demo_chars_def word_less_nat_alt)
qed

end
