(* ===== verification/AoiGrid.thy ===== *)
theory AoiGrid
  imports GoPrelude
begin

text \<open>
  The area-of-interest engine \<open>pkg/ro/aoi\<close>: a map split into 18x18-cell towers, with an index from
  entity to tower (\<open>grid.go\<close>) and the density tiers (\<open>squeeze.go\<close>). The abstraction \<open>entities\<close>
  is the map from id to entity that the grid stands for; the lemmas show that adding, removing
  and moving within or up the tower order implement its updates, and that a viewport query
  returns exactly the entities of the box. A move to a lower tower breaks the index.

  The mutexes are not modelled: each operation is one atomic step.
\<close>

section \<open>Data\<close>

definition TowerSize :: int where
  "TowerSize = 18"

abbreviation EntityPlayer :: u8 where "EntityPlayer \<equiv> 0"
abbreviation EntityNPC :: u8 where "EntityNPC \<equiv> 1"
abbreviation EntityMob :: u8 where "EntityMob \<equiv> 2"

record aoi_entity =
  ae_ID :: u32
  ae_Type :: u8
  ae_X :: int
  ae_Y :: int

type_synonym tower_map = "(u32 \<times> aoi_entity) list"

record tower =
  tw_players :: tower_map
  tw_npcs :: tower_map
  tw_mobs :: tower_map

text \<open>The map pointer \<open>entityMapFor\<close> returns is the field it selects; \<open>None\<close> is the nil map.\<close>

definition entityMapFor :: "tower \<Rightarrow> u8 \<Rightarrow> tower_map option" where
  "entityMapFor t kd =
     (if kd = EntityPlayer then Some (tw_players t)
      else if kd = EntityNPC then Some (tw_npcs t)
      else if kd = EntityMob then Some (tw_mobs t)
      else None)"

definition set_map :: "u8 \<Rightarrow> tower_map \<Rightarrow> tower \<Rightarrow> tower" where
  "set_map kd m t =
     (if kd = EntityPlayer then t\<lparr>tw_players := m\<rparr>
      else if kd = EntityNPC then t\<lparr>tw_npcs := m\<rparr>
      else if kd = EntityMob then t\<lparr>tw_mobs := m\<rparr>
      else t)"

definition tower_count :: "tower \<Rightarrow> int" where
  "tower_count t = int (length (tw_players t)) + int (length (tw_npcs t)) + int (length (tw_mobs t))"

definition newTower :: tower where
  "newTower = \<lparr>tw_players = [], tw_npcs = [], tw_mobs = []\<rparr>"

record grid =
  gm_width :: int
  gm_height :: int
  gm_gridWidth :: int
  gm_gridHeight :: int
  gm_towers :: "tower list"
  gm_entityTower :: "(u32 \<times> int) list"
  gm_entityType :: "(u32 \<times> u8) list"

definition NewGridManager :: "int \<Rightarrow> int \<Rightarrow> grid option" where
  "NewGridManager width height =
     (if width \<le> 0 \<or> height \<le> 0 then None
      else
        let gw = (width + TowerSize - 1) div TowerSize;
            gh = (height + TowerSize - 1) div TowerSize
        in Some \<lparr>gm_width = width, gm_height = height, gm_gridWidth = gw, gm_gridHeight = gh,
              gm_towers = replicate (nat (gw * gh)) newTower, gm_entityTower = [], gm_entityType = []\<rparr>)"

section \<open>Operations\<close>

definition inBounds :: "grid \<Rightarrow> int \<Rightarrow> int \<Rightarrow> bool" where
  "inBounds g x y \<longleftrightarrow> x \<ge> 0 \<and> x < gm_width g \<and> y \<ge> 0 \<and> y < gm_height g"

definition TowerID :: "grid \<Rightarrow> int \<Rightarrow> int \<Rightarrow> int" where
  "TowerID g x y =
     (if \<not> inBounds g x y then - 1
      else
        let tx = x div TowerSize; ty = y div TowerSize
        in ty * gm_gridWidth g + tx)"

definition towerAt :: "grid \<Rightarrow> int \<Rightarrow> int \<Rightarrow> tower option" where
  "towerAt g tx ty =
     (if tx < 0 \<or> ty < 0 \<or> tx \<ge> gm_gridWidth g \<or> ty \<ge> gm_gridHeight g then None
      else Some (gm_towers g ! nat (ty * gm_gridWidth g + tx)))"

abbreviation set_tower :: "int \<Rightarrow> tower \<Rightarrow> grid \<Rightarrow> grid" where
  "set_tower k t g \<equiv> g\<lparr>gm_towers := (gm_towers g)[nat k := t]\<rparr>"

text \<open>Writing to the nil map of an unknown entity type panics, after the index is updated.\<close>

definition aoi_AddEntity :: "aoi_entity \<Rightarrow> grid \<Rightarrow> (unit, grid) out" where
  "aoi_AddEntity e g =
     (if \<not> inBounds g (ae_X e) (ae_Y e) then (Inl ErrAoiOutOfBounds, g)
      else
        let i = ae_ID e;
            tid = TowerID g (ae_X e) (ae_Y e)
        in if map_of (gm_entityTower g) i \<noteq> None then (Inl ErrAoiExists, g)
           else
             let g1 = g\<lparr>gm_entityTower := AList.update i tid (gm_entityTower g),
                       gm_entityType := AList.update i (ae_Type e) (gm_entityType g)\<rparr>;
                 t = gm_towers g1 ! nat tid
             in case entityMapFor t (ae_Type e) of
                  None \<Rightarrow> (Inl (ErrText ''panic: assignment to entry in nil map''), g1)
                | Some m \<Rightarrow> (Inr (), set_tower tid (set_map (ae_Type e) (AList.update i e m) t) g1))"

text \<open>Reading an absent key of a Go map gives the zero value.\<close>

definition type_at :: "grid \<Rightarrow> u32 \<Rightarrow> u8" where
  "type_at g i = (case map_of (gm_entityType g) i of None \<Rightarrow> 0 | Some kd \<Rightarrow> kd)"

definition aoi_RemoveEntity :: "u32 \<Rightarrow> grid \<Rightarrow> (unit, grid) out" where
  "aoi_RemoveEntity i g =
     (case map_of (gm_entityTower g) i of
        None \<Rightarrow> (Inl ErrAoiMissing, g)
      | Some tid \<Rightarrow>
          let kd = type_at g i;
              g1 = g\<lparr>gm_entityTower := AList.delete i (gm_entityTower g),
                    gm_entityType := AList.delete i (gm_entityType g)\<rparr>;
              t = gm_towers g1 ! nat tid
          in case entityMapFor t kd of
               None \<Rightarrow> (Inr (), g1)
             | Some m \<Rightarrow> (Inr (), set_tower tid (set_map kd (AList.delete i m) t) g1))"

definition aoi_MoveEntity :: "u32 \<Rightarrow> int \<Rightarrow> int \<Rightarrow> grid \<Rightarrow> (unit, grid) out" where
  "aoi_MoveEntity i newX newY g =
     (if \<not> inBounds g newX newY then (Inl ErrAoiOutOfBounds, g)
      else
        case map_of (gm_entityTower g) i of
          None \<Rightarrow> (Inl ErrAoiMissing, g)
        | Some oldTID \<Rightarrow>
            let kd = type_at g i;
                newTID = (newY div TowerSize) * gm_gridWidth g + newX div TowerSize
            in if newTID = oldTID then
                 let t = gm_towers g ! nat oldTID
                 in case entityMapFor t kd of
                      None \<Rightarrow> (Inr (), g)
                    | Some m \<Rightarrow>
                        (case map_of m i of
                           None \<Rightarrow> (Inr (), g)
                         | Some e \<Rightarrow> (Inr (), set_tower oldTID
                             (set_map kd (AList.update i (e\<lparr>ae_X := newX, ae_Y := newY\<rparr>) m) t) g))
               else
                 let g1 = g\<lparr>gm_entityTower := AList.update i newTID (gm_entityTower g)\<rparr>;
                     first = (if oldTID > newTID then newTID else oldTID);
                     second = (if oldTID > newTID then oldTID else newTID);
                     ft = gm_towers g1 ! nat first
                 in case entityMapFor ft kd of
                      None \<Rightarrow> (Inr (), g1)
                    | Some srcMap \<Rightarrow>
                        (case map_of srcMap i of
                           None \<Rightarrow> (Inr (), g1)
                         | Some e \<Rightarrow>
                             let g2 = set_tower first (set_map kd (AList.delete i srcMap) ft) g1;
                                 e' = e\<lparr>ae_X := newX, ae_Y := newY\<rparr>;
                                 st = gm_towers g2 ! nat second
                             in case entityMapFor st kd of
                                  None \<Rightarrow> (Inr (), g2)
                                | Some dstMap \<Rightarrow>
                                    (case map_of dstMap i of
                                       Some existing \<Rightarrow> (Inr (), set_tower second
                                         (set_map kd (AList.update i
                                            (existing\<lparr>ae_X := newX, ae_Y := newY\<rparr>) dstMap) st) g2)
                                     | None \<Rightarrow> (Inr (), set_tower second
                                         (set_map kd (AList.update i e' dstMap) st) g2))))"

definition Get9GridTowers :: "grid \<Rightarrow> int \<Rightarrow> int \<Rightarrow> tower list" where
  "Get9GridTowers g x y =
     (if \<not> inBounds g x y then []
      else
        let tx = x div TowerSize; ty = y div TowerSize
        in concat (map (\<lambda>dy. concat (map (\<lambda>dx.
             case towerAt g (tx + dx) (ty + dy) of None \<Rightarrow> [] | Some t \<Rightarrow> [t])
             [- 1, 0, 1])) [- 1, 0, 1]))"

definition Count9Grid :: "grid \<Rightarrow> int \<Rightarrow> int \<Rightarrow> int" where
  "Count9Grid g x y =
     (let towers = Get9GridTowers g x y
      in if towers = [] then 0 else foldl (\<lambda>n t. n + tower_count t) 0 towers)"

definition clampRadiusBBox :: "int \<Rightarrow> int \<Rightarrow> int \<Rightarrow> int \<Rightarrow> int \<Rightarrow> int \<times> int \<times> int \<times> int" where
  "clampRadiusBBox x y radius width height =
     (let x0 = x - radius; y0 = y - radius; x1 = x + radius; y1 = y + radius;
          x0 = (if x0 < 0 then 0 else x0);
          y0 = (if y0 < 0 then 0 else y0);
          x1 = (if x1 \<ge> width then width - 1 else x1);
          y1 = (if y1 \<ge> height then height - 1 else y1)
      in (x0, y0, x1, y1))"

definition inBBox :: "aoi_entity \<Rightarrow> int \<Rightarrow> int \<Rightarrow> int \<Rightarrow> int \<Rightarrow> bool" where
  "inBBox e x0 y0 x1 y1 \<longleftrightarrow> ae_X e \<ge> x0 \<and> ae_X e \<le> x1 \<and> ae_Y e \<ge> y0 \<and> ae_Y e \<le> y1"

definition collectTowerEntities :: "tower \<Rightarrow> int \<Rightarrow> int \<Rightarrow> int \<Rightarrow> int \<Rightarrow> aoi_entity list" where
  "collectTowerEntities t x0 y0 x1 y1 =
     filter (\<lambda>e. inBBox e x0 y0 x1 y1) (map snd (tw_players t)) @
     filter (\<lambda>e. inBBox e x0 y0 x1 y1) (map snd (tw_npcs t)) @
     filter (\<lambda>e. inBBox e x0 y0 x1 y1) (map snd (tw_mobs t))"

definition QueryWithin :: "grid \<Rightarrow> int \<Rightarrow> int \<Rightarrow> int \<Rightarrow> aoi_entity list" where
  "QueryWithin g x y radius =
     (if \<not> inBounds g x y \<or> radius < 0 then []
      else
        case clampRadiusBBox x y radius (gm_width g) (gm_height g) of
          (x0, y0, x1, y1) \<Rightarrow>
            concat (map (\<lambda>ty. concat (map (\<lambda>tx.
              collectTowerEntities (gm_towers g ! nat (ty * gm_gridWidth g + tx)) x0 y0 x1 y1)
              [x0 div TowerSize .. x1 div TowerSize])) [y0 div TowerSize .. y1 div TowerSize]))"

definition DefaultBroadcastRadius :: int where
  "DefaultBroadcastRadius = 15"

definition QueryVisible :: "grid \<Rightarrow> int \<Rightarrow> int \<Rightarrow> aoi_entity list" where
  "QueryVisible g x y = QueryWithin g x y DefaultBroadcastRadius"

definition SqueezeRadius :: "int \<Rightarrow> int" where
  "SqueezeRadius n = (if n \<le> 100 then 15 else if n \<le> 500 then 8 else 5)"

datatype squeeze_tier = SqueezeTierNormal | SqueezeTierReduced | SqueezeTierMinimal

definition SqueezeTierOf :: "int \<Rightarrow> squeeze_tier" where
  "SqueezeTierOf n =
     (if n \<le> 100 then SqueezeTierNormal else if n \<le> 500 then SqueezeTierReduced else SqueezeTierMinimal)"

definition QueryVisibleSqueezed :: "grid \<Rightarrow> int \<Rightarrow> int \<Rightarrow> aoi_entity list" where
  "QueryVisibleSqueezed g x y = QueryWithin g x y (SqueezeRadius (Count9Grid g x y))"

definition EntityCount :: "grid \<Rightarrow> int" where
  "EntityCount g = int (length (gm_entityTower g))"

definition TowerEntityCount :: "grid \<Rightarrow> int \<Rightarrow> int" where
  "TowerEntityCount g towerID =
     (if towerID < 0 \<or> towerID \<ge> int (length (gm_towers g)) then 0
      else tower_count (gm_towers g ! nat towerID))"

definition EntityLocation :: "grid \<Rightarrow> u32 \<Rightarrow> (int \<times> int \<times> int) option" where
  "EntityLocation g i =
     (case map_of (gm_entityTower g) i of
        None \<Rightarrow> None
      | Some tid \<Rightarrow>
          let t = gm_towers g ! nat tid
          in case entityMapFor t (type_at g i) of
               None \<Rightarrow> None
             | Some m \<Rightarrow> (case map_of m i of None \<Rightarrow> None | Some e \<Rightarrow> Some (ae_X e, ae_Y e, tid)))"

section \<open>The map a grid stands for\<close>

declare map_of_eq_Some_iff [simp del]

definition tower_lookup :: "tower \<Rightarrow> u8 \<Rightarrow> u32 \<Rightarrow> aoi_entity option" where
  "tower_lookup t kd i = (case entityMapFor t kd of None \<Rightarrow> None | Some m \<Rightarrow> map_of m i)"

definition entities :: "grid \<Rightarrow> u32 \<Rightarrow> aoi_entity option" where
  "entities g i =
     (case map_of (gm_entityTower g) i of
        None \<Rightarrow> None | Some tid \<Rightarrow> tower_lookup (gm_towers g ! nat tid) (type_at g i) i)"

text \<open>The tower and type the index records for an entity.\<close>

definition home :: "grid \<Rightarrow> u32 \<Rightarrow> (int \<times> u8) option" where
  "home g i = map_option (\<lambda>tid. (tid, type_at g i)) (map_of (gm_entityTower g) i)"

text \<open>Tower list \<open>ts\<close> holds exactly the entities of index \<open>h\<close>, each in the tower of its cell.\<close>

definition store_ok :: "grid \<Rightarrow> tower list \<Rightarrow> (u32 \<Rightarrow> (int \<times> u8) option) \<Rightarrow> bool" where
  "store_ok g ts h \<longleftrightarrow>
     (\<forall>k < length ts. \<forall>kd m. entityMapFor (ts ! k) kd = Some m \<longrightarrow> distinct (keys m) \<and>
       (\<forall>i e. map_of m i = Some e \<longrightarrow> h i = Some (int k, kd) \<and> ae_ID e = i \<and> ae_Type e = kd \<and>
          TowerID g (ae_X e) (ae_Y e) = int k)) \<and>
     (\<forall>i tid kd. h i = Some (tid, kd) \<longrightarrow>
        0 \<le> tid \<and> nat tid < length ts \<and> tower_lookup (ts ! nat tid) kd i \<noteq> None)"

definition look :: "tower list \<Rightarrow> (u32 \<Rightarrow> (int \<times> u8) option) \<Rightarrow> u32 \<Rightarrow> aoi_entity option" where
  "look ts h i = (case h i of None \<Rightarrow> None | Some (tid, kd) \<Rightarrow> tower_lookup (ts ! nat tid) kd i)"

definition grid_dims :: "grid \<Rightarrow> bool" where
  "grid_dims g \<longleftrightarrow> 0 < gm_width g \<and> 0 < gm_height g \<and>
     gm_gridWidth g = (gm_width g + TowerSize - 1) div TowerSize \<and>
     gm_gridHeight g = (gm_height g + TowerSize - 1) div TowerSize \<and>
     int (length (gm_towers g)) = gm_gridWidth g * gm_gridHeight g"

definition grid_wf :: "grid \<Rightarrow> bool" where
  "grid_wf g \<longleftrightarrow> grid_dims g \<and> distinct (keys (gm_entityTower g)) \<and> distinct (keys (gm_entityType g)) \<and>
     store_ok g (gm_towers g) (home g)"

lemma entityMapFor_set_map [simp]:
  "entityMapFor (set_map kd m t) kd' = (if kd = kd' \<and> kd \<le> 2 then Some m else entityMapFor t kd')"
proof -
  have "kd \<le> 2 \<longleftrightarrow> kd = 0 \<or> kd = 1 \<or> kd = (2 :: u8)"
    by (auto simp: word_le_nat_alt unat_arith_simps)
  then show ?thesis by (auto simp: entityMapFor_def set_map_def)
qed

lemma entityMapFor_known: "entityMapFor t kd = None \<longleftrightarrow> \<not> kd \<le> 2"
proof -
  have "kd \<le> 2 \<longleftrightarrow> kd = 0 \<or> kd = 1 \<or> kd = (2 :: u8)"
    by (auto simp: word_le_nat_alt unat_arith_simps)
  then show ?thesis by (auto simp: entityMapFor_def)
qed

lemma entities_look: "entities g = look (gm_towers g) (home g)"
  by (simp add: fun_eq_iff entities_def look_def home_def split: option.split)

lemma store_entity:
  assumes "store_ok g ts h" and "h i = Some (tid, kd)"
  obtains m e where "entityMapFor (ts ! nat tid) kd = Some m" and "map_of m i = Some e"
    and "look ts h i = Some e" and "ae_ID e = i" and "ae_Type e = kd" and "0 \<le> tid"
    and "nat tid < length ts" and "TowerID g (ae_X e) (ae_Y e) = tid" and "kd \<le> 2" and "distinct (keys m)"
proof -
  have t: "0 \<le> tid" "nat tid < length ts" "tower_lookup (ts ! nat tid) kd i \<noteq> None"
    using assms by (auto simp: store_ok_def)
  then obtain m e where m: "entityMapFor (ts ! nat tid) kd = Some m" "map_of m i = Some e"
    by (auto simp: tower_lookup_def split: option.splits)
  have "distinct (keys m) \<and> ae_ID e = i \<and> ae_Type e = kd \<and> TowerID g (ae_X e) (ae_Y e) = int (nat tid)"
    using assms(1) t(2) m unfolding store_ok_def by blast
  moreover have "kd \<le> 2"
    using m(1) entityMapFor_known [of "ts ! nat tid" kd] by auto
  ultimately show ?thesis
    using t m assms(2) by (intro that [of m e]) (auto simp: look_def tower_lookup_def)
qed

lemma store_home:
  assumes "store_ok g ts h" and "look ts h i = Some e"
  shows "h i = Some (TowerID g (ae_X e) (ae_Y e), ae_Type e)" and "ae_ID e = i"
proof -
  obtain tid kd where h: "h i = Some (tid, kd)"
    using assms(2) by (auto simp: look_def split: option.splits)
  then show "h i = Some (TowerID g (ae_X e) (ae_Y e), ae_Type e)" "ae_ID e = i"
    using store_entity [OF assms(1) h] assms(2) by (metis option.inject)+
qed

text \<open>One map of one tower changes at one key: the store follows.\<close>

lemma store_upd:
  assumes ok: "store_ok g ts h" and k: "k < length ts" and m: "entityMapFor (ts ! k) kd = Some m"
    and m': "distinct (keys m')" "\<And>j. j \<noteq> i \<Longrightarrow> map_of m' j = map_of m j"
    and i: "h i = None \<or> h i = Some (int k, kd)"
    and e: "\<And>e. map_of m' i = Some e \<Longrightarrow> ae_ID e = i \<and> ae_Type e = kd \<and> TowerID g (ae_X e) (ae_Y e) = int k"
    and h': "h' = h(i := map_option (\<lambda>_. (int k, kd)) (map_of m' i))"
  shows "store_ok g (ts[k := set_map kd m' (ts ! k)]) h'"
    and "look (ts[k := set_map kd m' (ts ! k)]) h' = (look ts h)(i := map_of m' i)"
proof -
  let ?ts = "ts[k := set_map kd m' (ts ! k)]"
  have kd: "kd \<le> 2"
    using m entityMapFor_known [of "ts ! k" kd] by auto
  have lk: "tower_lookup (?ts ! l) kd' j =
      (if l = k \<and> kd' = kd then map_of m' j else tower_lookup (ts ! l) kd' j)" if "l < length ts" for l kd' j
    using that k kd by (auto simp: tower_lookup_def nth_list_update)
  have here: "map_of m'' j = Some e' \<Longrightarrow> h j = Some (int l, kd') \<and> ae_ID e' = j \<and> ae_Type e' = kd' \<and>
      TowerID g (ae_X e') (ae_Y e') = int l"
    if "l < length ts" "entityMapFor (ts ! l) kd' = Some m''" for l kd' m'' j e'
    using ok that by (auto simp: store_ok_def)
  have only: "tower_lookup (ts ! l) kd' i = None" if "l < length ts" "(l, kd') \<noteq> (k, kd)" for l kd'
  proof (rule ccontr)
    assume "tower_lookup (ts ! l) kd' i \<noteq> None"
    then obtain m'' e' where "entityMapFor (ts ! l) kd' = Some m''" "map_of m'' i = Some e'"
      by (auto simp: tower_lookup_def split: option.splits)
    from here [OF that(1) this] show False
      using i that(2) by auto
  qed
  have one: "distinct (keys m'') \<and> (\<forall>j e'. map_of m'' j = Some e' \<longrightarrow> h' j = Some (int l, kd') \<and>
      ae_ID e' = j \<and> ae_Type e' = kd' \<and> TowerID g (ae_X e') (ae_Y e') = int l)"
    if l: "l < length ts" and m'': "entityMapFor (?ts ! l) kd' = Some m''" for l kd' m''
  proof (cases "l = k \<and> kd' = kd")
    case True
    then have "m'' = m'"
      using m'' k kd by simp
    then show ?thesis
      using True m' e here [OF k m] by (auto simp: h' simp del: map_of_eq_Some_iff)
  next
    case False
    then have old: "entityMapFor (ts ! l) kd' = Some m''"
      using m'' l k by (auto simp: nth_list_update split: if_splits)
    then have "map_of m'' i = None"
      using only [OF l, of kd'] False by (auto simp: tower_lookup_def)
    then show ?thesis
      using here [OF l old] ok l old by (auto simp: h' store_ok_def)
  qed
  have into: "0 \<le> tid \<and> nat tid < length ts \<and> tower_lookup (?ts ! nat tid) kd' j \<noteq> None"
    if "h' j = Some (tid, kd')" for j tid kd'
  proof (cases "j = i")
    case True
    then show ?thesis
      using that k lk [OF k, of kd i] by (auto simp: h')
  next
    case False
    then have "h j = Some (tid, kd')"
      using that by (simp add: h')
    then have "0 \<le> tid \<and> nat tid < length ts \<and> tower_lookup (ts ! nat tid) kd' j \<noteq> None"
      using ok by (auto simp: store_ok_def)
    then show ?thesis
      using lk [of "nat tid" kd' j] m'(2) [OF False] m by (auto simp: tower_lookup_def)
  qed
  show "store_ok g ?ts h'"
    unfolding store_ok_def length_list_update using one into by blast
  show "look ?ts h' = (look ts h)(i := map_of m' i)"
  proof
    fix j
    show "look ?ts h' j = ((look ts h)(i := map_of m' i)) j"
    proof (cases "j = i")
      case True
      then show ?thesis
        using lk [OF k, of kd i] by (cases "map_of m' i") (auto simp: look_def h')
    next
      case False
      show ?thesis
      proof (cases "h j")
        case None
        then show ?thesis
          using False by (simp add: look_def h')
      next
        case (Some p)
        obtain tid kd' where p: "p = (tid, kd')"
          by (cases p)
        then have "nat tid < length ts" "0 \<le> tid"
          using ok Some by (auto simp: store_ok_def)
        then show ?thesis
          using False Some p lk [of "nat tid" kd' j] m'(2) [OF False] m
          by (auto simp: look_def h' tower_lookup_def)
      qed
    qed
  qed
qed

lemma TowerID_bounds:
  assumes "grid_dims g" and "inBounds g x y"
  shows "0 \<le> TowerID g x y" and "nat (TowerID g x y) < length (gm_towers g)"
    and "x div TowerSize < gm_gridWidth g" and "y div TowerSize < gm_gridHeight g"
proof -
  have x: "0 \<le> x" "x < gm_width g" and y: "0 \<le> y" "y < gm_height g"
    using assms(2) by (auto simp: inBounds_def)
  show tx: "x div TowerSize < gm_gridWidth g" and ty: "y div TowerSize < gm_gridHeight g"
    using assms(1) x y by (auto simp: grid_dims_def TowerSize_def)
  have nn: "0 \<le> x div TowerSize" "0 \<le> y div TowerSize"
    using x y by (auto simp: TowerSize_def)
  then show "0 \<le> TowerID g x y"
    using tx assms(2) by (simp add: TowerID_def Let_def)
  have "y div TowerSize * gm_gridWidth g + x div TowerSize < (y div TowerSize + 1) * gm_gridWidth g"
    using tx by (simp add: algebra_simps)
  also have "\<dots> \<le> gm_gridHeight g * gm_gridWidth g"
    using ty tx nn by (intro mult_right_mono) auto
  finally have "TowerID g x y < int (length (gm_towers g))"
    using assms by (simp add: TowerID_def Let_def grid_dims_def mult.commute)
  then show "nat (TowerID g x y) < length (gm_towers g)"
    using \<open>0 \<le> TowerID g x y\<close> by linarith
qed

lemma store_put:
  assumes ok: "store_ok g ts h" and k: "nat tid < length ts" "0 \<le> tid" and m: "entityMapFor (ts ! nat tid) kd = Some m"
    and h: "h i = None \<or> h i = Some (tid, kd)"
    and e: "ae_ID e = i" "ae_Type e = kd" "TowerID g (ae_X e) (ae_Y e) = tid"
  shows "store_ok g (ts[nat tid := set_map kd (AList.update i e m) (ts ! nat tid)]) (h(i \<mapsto> (tid, kd)))"
    and "look (ts[nat tid := set_map kd (AList.update i e m) (ts ! nat tid)]) (h(i \<mapsto> (tid, kd))) =
      (look ts h)(i \<mapsto> e)"
proof -
  let ?m = "AList.update i e m"
  have "distinct (keys m)"
    using ok k m unfolding store_ok_def by blast
  then have d: "distinct (keys ?m)"
    by simp
  have o: "\<And>j. j \<noteq> i \<Longrightarrow> map_of ?m j = map_of m j"
    by simp
  have h0: "h i = None \<or> h i = Some (int (nat tid), kd)"
    using h k(2) by simp
  have v: "\<And>e'. map_of ?m i = Some e' \<Longrightarrow> ae_ID e' = i \<and> ae_Type e' = kd \<and> TowerID g (ae_X e') (ae_Y e') = int (nat tid)"
    using e k(2) by auto
  have h': "h(i \<mapsto> (tid, kd)) = h(i := map_option (\<lambda>_. (int (nat tid), kd)) (map_of ?m i))"
    using k(2) by simp
  show "store_ok g (ts[nat tid := set_map kd ?m (ts ! nat tid)]) (h(i \<mapsto> (tid, kd)))"
    by (rule store_upd(1) [OF ok k(1) m d o h0 v h'])
  have "look (ts[nat tid := set_map kd ?m (ts ! nat tid)]) (h(i \<mapsto> (tid, kd))) = (look ts h)(i := map_of ?m i)"
    by (rule store_upd(2) [OF ok k(1) m d o h0 v h'])
  then show "look (ts[nat tid := set_map kd ?m (ts ! nat tid)]) (h(i \<mapsto> (tid, kd))) = (look ts h)(i \<mapsto> e)"
    by simp
qed

section \<open>What the operations do\<close>

lemma inBounds_upd [simp]:
  "inBounds (g\<lparr>gm_towers := a\<rparr>) = inBounds g" "inBounds (g\<lparr>gm_entityTower := b\<rparr>) = inBounds g"
  "inBounds (g\<lparr>gm_entityType := c\<rparr>) = inBounds g"
  by (simp_all add: fun_eq_iff inBounds_def)

lemma TowerID_upd [simp]:
  "TowerID (g\<lparr>gm_towers := a\<rparr>) = TowerID g" "TowerID (g\<lparr>gm_entityTower := b\<rparr>) = TowerID g"
  "TowerID (g\<lparr>gm_entityType := c\<rparr>) = TowerID g"
  by (simp_all add: fun_eq_iff TowerID_def)

lemma store_ok_upd [simp]:
  "store_ok (g\<lparr>gm_towers := a\<rparr>) = store_ok g" "store_ok (g\<lparr>gm_entityTower := b\<rparr>) = store_ok g"
  "store_ok (g\<lparr>gm_entityType := c\<rparr>) = store_ok g"
  by (simp_all add: fun_eq_iff store_ok_def)

lemma home_upd [simp]: "home (g\<lparr>gm_towers := a\<rparr>) = home g"
  by (simp add: fun_eq_iff home_def type_at_def)

lemma home_index [simp]:
  "home (g\<lparr>gm_entityTower := AList.update i tid (gm_entityTower g), gm_entityType := AList.update i kd (gm_entityType g)\<rparr>) =
     (home g)(i \<mapsto> (tid, kd))"
  "home (g\<lparr>gm_entityTower := AList.delete i (gm_entityTower g), gm_entityType := AList.delete i (gm_entityType g)\<rparr>) =
     (home g)(i := None)"
  "home (g\<lparr>gm_entityTower := AList.update i tid (gm_entityTower g)\<rparr>) = (home g)(i \<mapsto> (tid, type_at g i))"
  by (auto simp: fun_eq_iff home_def type_at_def)

definition same_map :: "grid \<Rightarrow> grid \<Rightarrow> bool" where
  "same_map g g' \<longleftrightarrow> gm_width g' = gm_width g \<and> gm_height g' = gm_height g"

text \<open>Adding: one more entity, or the documented error and no change.\<close>

lemma add_exact:
  assumes wf: "grid_wf g" and kd: "ae_Type e \<le> 2"
  shows "if inBounds g (ae_X e) (ae_Y e) \<and> entities g (ae_ID e) = None
    then \<exists>g'. aoi_AddEntity e g = (Inr (), g') \<and> grid_wf g' \<and> same_map g g' \<and>
      entities g' = (entities g)(ae_ID e \<mapsto> e)
    else aoi_AddEntity e g = (Inl (if inBounds g (ae_X e) (ae_Y e) then ErrAoiExists else ErrAoiOutOfBounds), g)"
proof (cases "inBounds g (ae_X e) (ae_Y e)")
  case inb: True
  have ok: "store_ok g (gm_towers g) (home g)" and d: "grid_dims g"
    using wf by (auto simp: grid_wf_def)
  let ?tid = "TowerID g (ae_X e) (ae_Y e)"
  note b = TowerID_bounds(1,2) [OF d inb]
  show ?thesis
  proof (cases "home g (ae_ID e)")
    case None
    then have idx: "map_of (gm_entityTower g) (ae_ID e) = None"
      by (simp add: home_def)
    obtain m where m: "entityMapFor (gm_towers g ! nat ?tid) (ae_Type e) = Some m"
      using kd entityMapFor_known [of "gm_towers g ! nat ?tid" "ae_Type e"] by auto
    have u: "store_ok g ((gm_towers g)[nat ?tid := set_map (ae_Type e) (AList.update (ae_ID e) e m) (gm_towers g ! nat ?tid)])
          ((home g)(ae_ID e \<mapsto> (?tid, ae_Type e)))"
      "look ((gm_towers g)[nat ?tid := set_map (ae_Type e) (AList.update (ae_ID e) e m) (gm_towers g ! nat ?tid)])
          ((home g)(ae_ID e \<mapsto> (?tid, ae_Type e))) = (look (gm_towers g) (home g))(ae_ID e \<mapsto> e)"
      using store_put [OF ok b(2,1) m, of "ae_ID e" e] None by simp_all
    have "entities g (ae_ID e) = None"
      using None by (simp add: entities_look look_def)
    then show ?thesis
      using inb idx m u wf by (simp add: aoi_AddEntity_def Let_def grid_wf_def grid_dims_def same_map_def entities_look)
  next
    case (Some p)
    then obtain tid kd' where h: "home g (ae_ID e) = Some (tid, kd')"
      by (cases p) auto
    have "entities g (ae_ID e) \<noteq> None"
      by (rule store_entity [OF ok h]) (simp add: entities_look)
    moreover have "map_of (gm_entityTower g) (ae_ID e) \<noteq> None"
      using h by (auto simp: home_def)
    ultimately show ?thesis
      using inb by (simp add: aoi_AddEntity_def)
  qed
qed (simp add: aoi_AddEntity_def)

lemma remove_exact:
  assumes wf: "grid_wf g"
  shows "if entities g i = None then aoi_RemoveEntity i g = (Inl ErrAoiMissing, g)
    else \<exists>g'. aoi_RemoveEntity i g = (Inr (), g') \<and> grid_wf g' \<and> same_map g g' \<and>
      entities g' = (entities g)(i := None)"
proof (cases "home g i")
  case None
  then show ?thesis
    by (simp add: aoi_RemoveEntity_def home_def entities_def)
next
  case (Some p)
  then obtain tid kd where h: "home g i = Some (tid, kd)"
    by (cases p) auto
  have ok: "store_ok g (gm_towers g) (home g)"
    using wf by (simp add: grid_wf_def)
  obtain m e where m: "entityMapFor (gm_towers g ! nat tid) kd = Some m" "map_of m i = Some e"
      "look (gm_towers g) (home g) i = Some e" "0 \<le> tid" "nat tid < length (gm_towers g)" "distinct (keys m)"
    by (rule store_entity [OF ok h])
  have u: "store_ok g ((gm_towers g)[nat tid := set_map kd (AList.delete i m) (gm_towers g ! nat tid)]) ((home g)(i := None))"
    "look ((gm_towers g)[nat tid := set_map kd (AList.delete i m) (gm_towers g ! nat tid)]) ((home g)(i := None)) =
      (look (gm_towers g) (home g))(i := None)"
    using store_upd [OF ok m(5,1), of "AList.delete i m" i] m(4,6) h by simp_all
  have "map_of (gm_entityTower g) i = Some tid" "type_at g i = kd"
    using h by (auto simp: home_def)
  then show ?thesis
    using m u wf by (simp add: aoi_RemoveEntity_def Let_def grid_wf_def grid_dims_def same_map_def entities_look)
qed

text \<open>Moving inside a tower or to a later one: only the position changes.\<close>

lemma move_exact:
  assumes wf: "grid_wf g" and e: "entities g i = Some e" and inb: "inBounds g x y"
    and up: "TowerID g (ae_X e) (ae_Y e) \<le> TowerID g x y"
  shows "\<exists>g'. aoi_MoveEntity i x y g = (Inr (), g') \<and> grid_wf g' \<and> same_map g g' \<and>
    entities g' = (entities g)(i \<mapsto> e\<lparr>ae_X := x, ae_Y := y\<rparr>)"
proof -
  have ok: "store_ok g (gm_towers g) (home g)" and d: "grid_dims g"
    using wf by (auto simp: grid_wf_def)
  let ?old = "TowerID g (ae_X e) (ae_Y e)" and ?new = "TowerID g x y" and ?kd = "ae_Type e"
  let ?e = "e\<lparr>ae_X := x, ae_Y := y\<rparr>"
  have h: "home g i = Some (?old, ?kd)" and ei: "ae_ID e = i"
    using store_home [OF ok] e by (auto simp: entities_look)
  obtain m where m: "entityMapFor (gm_towers g ! nat ?old) ?kd = Some m" "map_of m i = Some e"
      "0 \<le> ?old" "nat ?old < length (gm_towers g)" "?kd \<le> 2" "distinct (keys m)"
    using e by (auto intro: store_entity [OF ok h] simp: entities_look)
  have idx: "map_of (gm_entityTower g) i = Some ?old" "type_at g i = ?kd"
    using h by (auto simp: home_def)
  have new: "?new = y div TowerSize * gm_gridWidth g + x div TowerSize"
    using inb by (simp add: TowerID_def Let_def)
  note b = TowerID_bounds(1,2) [OF d inb]
  show ?thesis
  proof (cases "?new = ?old")
    case True
    have same: "(home g)(i \<mapsto> (?old, ?kd)) = home g"
      using h by (simp add: fun_upd_idem)
    have u: "store_ok g ((gm_towers g)[nat ?old := set_map ?kd (AList.update i ?e m) (gm_towers g ! nat ?old)]) (home g)"
      "look ((gm_towers g)[nat ?old := set_map ?kd (AList.update i ?e m) (gm_towers g ! nat ?old)]) (home g) =
        (look (gm_towers g) (home g))(i \<mapsto> ?e)"
      using store_put [OF ok m(4,3,1), of i ?e] h ei True unfolding same by simp_all
    have "aoi_MoveEntity i x y g = (Inr (), set_tower ?old
        (set_map ?kd (AList.update i ?e m) (gm_towers g ! nat ?old)) g)"
      using True inb idx m(1,2) by (simp add: aoi_MoveEntity_def Let_def new [symmetric])
    then show ?thesis
      using u wf by (simp add: grid_wf_def grid_dims_def same_map_def entities_look)
  next
    case False
    let ?ts1 = "(gm_towers g)[nat ?old := set_map ?kd (AList.delete i m) (gm_towers g ! nat ?old)]"
    have ok1: "store_ok g ?ts1 ((home g)(i := None))"
      "look ?ts1 ((home g)(i := None)) = (look (gm_towers g) (home g))(i := None)"
      using store_upd [OF ok m(4,1), of "AList.delete i m" i] m(3,6) h by simp_all
    have b1: "nat ?new < length ?ts1"
      using b(2) by simp
    obtain m2 where m2: "entityMapFor (?ts1 ! nat ?new) ?kd = Some m2"
      using m(5) entityMapFor_known [of "?ts1 ! nat ?new" ?kd] by auto
    have fresh: "map_of m2 i = None"
      using ok1(1) b1 m2 unfolding store_ok_def by (metis fun_upd_same not_None_eq)
    let ?ts2 = "?ts1[nat ?new := set_map ?kd (AList.update i ?e m2) (?ts1 ! nat ?new)]"
    have u: "store_ok g ?ts2 ((home g)(i \<mapsto> (?new, ?kd)))"
      "look ?ts2 ((home g)(i \<mapsto> (?new, ?kd))) = (look (gm_towers g) (home g))(i \<mapsto> ?e)"
      using store_put [OF ok1(1) b1 b(1) m2, of i ?e] ei ok1(2) by simp_all
    have run: "aoi_MoveEntity i x y g = (Inr (), g\<lparr>gm_entityTower := AList.update i ?new (gm_entityTower g), gm_towers := ?ts2\<rparr>)"
      using False up inb idx m(1,2) m2 fresh
      by (simp add: aoi_MoveEntity_def Let_def new [symmetric])
    show ?thesis
      using u wf by (simp add: run grid_wf_def grid_dims_def same_map_def entities_look idx(2))
  qed
qed

section \<open>What a query returns\<close>

lemma entityMapFor_cases:
  "entityMapFor t kd = Some m \<longleftrightarrow> (kd = 0 \<and> m = tw_players t) \<or> (kd = 1 \<and> m = tw_npcs t) \<or> (kd = 2 \<and> m = tw_mobs t)"
  by (auto simp: entityMapFor_def)

lemma set_collect:
  "e \<in> set (collectTowerEntities t x0 y0 x1 y1) \<longleftrightarrow>
     (\<exists>kd m i. entityMapFor t kd = Some m \<and> (i, e) \<in> set m) \<and> inBBox e x0 y0 x1 y1"
proof -
  have "(\<exists>kd m i. entityMapFor t kd = Some m \<and> (i, e) \<in> set m) \<longleftrightarrow>
      (\<exists>i. (i, e) \<in> set (tw_players t)) \<or> (\<exists>i. (i, e) \<in> set (tw_npcs t)) \<or> (\<exists>i. (i, e) \<in> set (tw_mobs t))"
    unfolding entityMapFor_cases by blast
  moreover have "e \<in> snd ` set al \<longleftrightarrow> (\<exists>i. (i, e) \<in> set al)" for al :: tower_map
    by force
  ultimately show ?thesis
    by (auto simp: collectTowerEntities_def)
qed

lemma div_tower_mono: "a \<le> b \<Longrightarrow> a div TowerSize \<le> b div TowerSize"
  by (simp add: TowerSize_def zdiv_mono1)

lemma query_exact:
  assumes wf: "grid_wf g" and inb: "inBounds g x y" and r: "0 \<le> r"
  shows "set (QueryWithin g x y r) = {e \<in> ran (entities g). \<bar>ae_X e - x\<bar> \<le> r \<and> \<bar>ae_Y e - y\<bar> \<le> r}"
proof -
  have ok: "store_ok g (gm_towers g) (home g)" and d: "grid_dims g"
    using wf by (auto simp: grid_wf_def)
  obtain x0 y0 x1 y1 where box: "clampRadiusBBox x y r (gm_width g) (gm_height g) = (x0, y0, x1, y1)"
    by (metis prod_cases4)
  then have cl: "x0 = max 0 (x - r)" "y0 = max 0 (y - r)" "x1 = min (gm_width g - 1) (x + r)" "y1 = min (gm_height g - 1) (y + r)"
    by (auto simp: clampRadiusBBox_def Let_def split: if_splits)
  have corners: "inBounds g x0 y0" "inBounds g x1 y1"
    using inb r by (auto simp: inBounds_def cl)
  have inside: "inBBox e x0 y0 x1 y1 \<longleftrightarrow> \<bar>ae_X e - x\<bar> \<le> r \<and> \<bar>ae_Y e - y\<bar> \<le> r"
    if "inBounds g (ae_X e) (ae_Y e)" for e
    using that by (auto simp: inBBox_def inBounds_def cl)
  have tidx: "0 \<le> ty * gm_gridWidth g + tx \<and> nat (ty * gm_gridWidth g + tx) < length (gm_towers g)"
    if "x0 div TowerSize \<le> tx" "tx \<le> x1 div TowerSize" "y0 div TowerSize \<le> ty" "ty \<le> y1 div TowerSize" for tx ty
  proof -
    have lo: "0 \<le> tx" "0 \<le> ty"
      using that order_trans [OF div_tower_mono [of 0 x0]] order_trans [OF div_tower_mono [of 0 y0]] cl(1,2)
      by auto
    have in': "inBounds g (tx * TowerSize) (ty * TowerSize)"
    proof -
      have "tx * TowerSize \<le> x1" "ty * TowerSize \<le> y1"
        using that by (auto simp: TowerSize_def)
      then show ?thesis
        using lo corners(2) by (auto simp: inBounds_def TowerSize_def)
    qed
    then have "TowerID g (tx * TowerSize) (ty * TowerSize) = ty * gm_gridWidth g + tx"
      by (simp add: TowerID_def TowerSize_def)
    then show ?thesis
      using TowerID_bounds(1,2) [OF d in'] by simp
  qed
  have res: "set (QueryWithin g x y r) = {e. \<exists>tx ty kd m i. x0 div TowerSize \<le> tx \<and> tx \<le> x1 div TowerSize \<and>
      y0 div TowerSize \<le> ty \<and> ty \<le> y1 div TowerSize \<and>
      entityMapFor (gm_towers g ! nat (ty * gm_gridWidth g + tx)) kd = Some m \<and> (i, e) \<in> set m \<and> inBBox e x0 y0 x1 y1}"
  proof -
    have "set (QueryWithin g x y r) = {e. \<exists>ty \<in> {y0 div TowerSize .. y1 div TowerSize}.
        \<exists>tx \<in> {x0 div TowerSize .. x1 div TowerSize}.
        e \<in> set (collectTowerEntities (gm_towers g ! nat (ty * gm_gridWidth g + tx)) x0 y0 x1 y1)}"
      using inb r by (auto simp: QueryWithin_def box)
    then show ?thesis
      unfolding set_collect Bex_def atLeastAtMost_iff by blast
  qed
  show ?thesis
  proof (intro set_eqI iffI)
    fix e
    assume "e \<in> set (QueryWithin g x y r)"
    then obtain tx ty kd m i where t: "x0 div TowerSize \<le> tx" "tx \<le> x1 div TowerSize"
        "y0 div TowerSize \<le> ty" "ty \<le> y1 div TowerSize"
        "entityMapFor (gm_towers g ! nat (ty * gm_gridWidth g + tx)) kd = Some m" "(i, e) \<in> set m" "inBBox e x0 y0 x1 y1"
      unfolding res by blast
    note k = tidx [OF t(1-4)]
    have "distinct (keys m)"
      using ok k t(5) unfolding store_ok_def by blast
    then have mi: "map_of m i = Some e"
      using t(6) by simp
    have "home g i = Some (int (nat (ty * gm_gridWidth g + tx)), kd) \<and>
        TowerID g (ae_X e) (ae_Y e) = int (nat (ty * gm_gridWidth g + tx))"
      using ok conjunct2 [OF k] t(5) mi unfolding store_ok_def by blast
    then have h: "home g i = Some (ty * gm_gridWidth g + tx, kd)" "TowerID g (ae_X e) (ae_Y e) = ty * gm_gridWidth g + tx"
      using k by simp_all
    then have e: "entities g i = Some e"
      using mi t(5) by (simp add: entities_look look_def tower_lookup_def)
    have "inBounds g (ae_X e) (ae_Y e)"
      using h(2) k by (auto simp: TowerID_def split: if_splits)
    then show "e \<in> {e \<in> ran (entities g). \<bar>ae_X e - x\<bar> \<le> r \<and> \<bar>ae_Y e - y\<bar> \<le> r}"
      using e inside t(7) by (auto simp: ran_def)
  next
    fix e
    assume a: "e \<in> {e \<in> ran (entities g). \<bar>ae_X e - x\<bar> \<le> r \<and> \<bar>ae_Y e - y\<bar> \<le> r}"
    then obtain i where e: "look (gm_towers g) (home g) i = Some e"
      by (auto simp: ran_def entities_look)
    have h: "home g i = Some (TowerID g (ae_X e) (ae_Y e), ae_Type e)"
      by (rule store_home [OF ok e])
    obtain m where m: "entityMapFor (gm_towers g ! nat (TowerID g (ae_X e) (ae_Y e))) (ae_Type e) = Some m"
        "map_of m i = Some e" "0 \<le> TowerID g (ae_X e) (ae_Y e)"
      using e by (auto intro: store_entity [OF ok h])
    then have eb: "inBounds g (ae_X e) (ae_Y e)"
      by (auto simp: TowerID_def split: if_splits)
    then have bb: "inBBox e x0 y0 x1 y1"
      using inside a by auto
    then have "x0 div TowerSize \<le> ae_X e div TowerSize" "ae_X e div TowerSize \<le> x1 div TowerSize"
        "y0 div TowerSize \<le> ae_Y e div TowerSize" "ae_Y e div TowerSize \<le> y1 div TowerSize"
      by (auto simp: inBBox_def intro: div_tower_mono)
    moreover have "TowerID g (ae_X e) (ae_Y e) = ae_Y e div TowerSize * gm_gridWidth g + ae_X e div TowerSize"
      using eb by (simp add: TowerID_def Let_def)
    moreover have "(i, e) \<in> set m"
      using m(2) by (rule map_of_SomeD)
    ultimately show "e \<in> set (QueryWithin g x y r)"
      unfolding res mem_Collect_eq using m(1) bb
      by (intro exI [of _ "ae_X e div TowerSize"] exI [of _ "ae_Y e div TowerSize"]) auto
  qed
qed

section \<open>A new grid, and the demo grid\<close>

lemma new_grid_wf:
  assumes "NewGridManager w h = Some g"
  shows "grid_wf g" and "entities g = Map.empty"
proof -
  have g: "0 < w" "0 < h" "g = \<lparr>gm_width = w, gm_height = h, gm_gridWidth = (w + TowerSize - 1) div TowerSize,
      gm_gridHeight = (h + TowerSize - 1) div TowerSize,
      gm_towers = replicate (nat ((w + TowerSize - 1) div TowerSize * ((h + TowerSize - 1) div TowerSize))) newTower,
      gm_entityTower = [], gm_entityType = []\<rparr>"
    using assms by (auto simp: NewGridManager_def Let_def split: if_splits)
  have home: "home g = Map.empty"
    by (simp add: fun_eq_iff home_def g(3))
  have nn: "0 \<le> (w + TowerSize - 1) div TowerSize * ((h + TowerSize - 1) div TowerSize)"
    using g(1,2) by (intro mult_nonneg_nonneg) (auto simp: TowerSize_def)
  have "grid_dims g"
    using g(1,2) nn by (simp add: grid_dims_def g(3))
  moreover have "store_ok g (gm_towers g) (home g)"
    unfolding home store_ok_def
    by (auto simp: g(3) newTower_def entityMapFor_def split: if_splits)
  ultimately show "grid_wf g"
    by (simp add: grid_wf_def g(3))
  show "entities g = Map.empty"
    by (simp add: fun_eq_iff entities_look look_def home)
qed

definition demo_entity :: aoi_entity where
  "demo_entity = \<lparr>ae_ID = 7, ae_Type = EntityMob, ae_X = 30, ae_Y = 40\<rparr>"

definition demo_grid :: grid where
  "demo_grid = snd (aoi_AddEntity demo_entity (the (NewGridManager 100 100)))"

definition demo_grid2 :: grid where
  "demo_grid2 = snd (aoi_AddEntity \<lparr>ae_ID = 9, ae_Type = EntityPlayer, ae_X = 50, ae_Y = 41\<rparr> demo_grid)"

lemma demo_grid_facts:
  "grid_wf demo_grid" "entities demo_grid = [7 \<mapsto> demo_entity]"
  "gm_width demo_grid = 100 \<and> gm_height demo_grid = 100"
proof -
  obtain g where g: "NewGridManager 100 100 = Some g" "gm_width g = 100" "gm_height g = 100"
    by (simp add: NewGridManager_def Let_def)
  have "inBounds g 30 40"
    using g by (simp add: inBounds_def)
  then have "\<exists>g'. aoi_AddEntity demo_entity g = (Inr (), g') \<and> grid_wf g' \<and> same_map g g' \<and>
      entities g' = (entities g)(7 \<mapsto> demo_entity)"
    using add_exact [OF new_grid_wf(1) [OF g(1)], of demo_entity] new_grid_wf(2) [OF g(1)]
    by (simp add: demo_entity_def)
  then show "grid_wf demo_grid" "entities demo_grid = [7 \<mapsto> demo_entity]"
      "gm_width demo_grid = 100 \<and> gm_height demo_grid = 100"
    using g new_grid_wf(2) [OF g(1)] by (auto simp: demo_grid_def same_map_def)
qed

lemma demo_grid_inBounds [simp]: "inBounds demo_grid x y \<longleftrightarrow> 0 \<le> x \<and> x < 100 \<and> 0 \<le> y \<and> y < 100"
  using demo_grid_facts(3) by (auto simp: inBounds_def)

section \<open>Properties\<close>

text \<open>
  Remark. A viewport query is exact: on a well-formed grid it returns precisely the entities whose
  cell lies within the radius of the (in-bounds) centre on both axes, whichever towers hold them.
\<close>

theorem viewport_exact:
  assumes "grid_wf g" and "inBounds g x y" and "0 \<le> r"
  shows "set (QueryWithin g x y r) = {e \<in> ran (entities g). \<bar>ae_X e - x\<bar> \<le> r \<and> \<bar>ae_Y e - y\<bar> \<le> r}"
  by (rule query_exact [OF assms])

theorem viewport_exact_witness:
  "set (QueryWithin demo_grid 20 38 15) = {demo_entity}"
proof -
  have "ran (entities demo_grid) = {demo_entity}"
    by (simp add: demo_grid_facts(2))
  moreover have "\<bar>ae_X demo_entity - 20\<bar> \<le> 15 \<and> \<bar>ae_Y demo_entity - 38\<bar> \<le> 15"
    by (simp add: demo_entity_def)
  ultimately have "{e \<in> ran (entities demo_grid). \<bar>ae_X e - 20\<bar> \<le> 15 \<and> \<bar>ae_Y e - 38\<bar> \<le> 15} = {demo_entity}"
    by auto
  then show ?thesis
    using viewport_exact [OF demo_grid_facts(1), of 20 38 15] by simp
qed

text \<open>
  Remark. Registering and removing refine the abstract map from id to entity: \<open>AddEntity\<close> inserts exactly
  the new entity (and fails, changing nothing, on a known id or an out-of-bounds cell),
  \<open>RemoveEntity\<close> deletes exactly the entity, and both keep the towers and the index consistent.
\<close>

theorem add_remove_refine:
  assumes "grid_wf g" and "ae_Type e \<le> 2"
  shows "(if inBounds g (ae_X e) (ae_Y e) \<and> entities g (ae_ID e) = None
     then \<exists>g'. aoi_AddEntity e g = (Inr (), g') \<and> grid_wf g' \<and> entities g' = (entities g)(ae_ID e \<mapsto> e)
     else aoi_AddEntity e g = (Inl (if inBounds g (ae_X e) (ae_Y e) then ErrAoiExists else ErrAoiOutOfBounds), g)) \<and>
    (if entities g i = None then aoi_RemoveEntity i g = (Inl ErrAoiMissing, g)
     else \<exists>g'. aoi_RemoveEntity i g = (Inr (), g') \<and> grid_wf g' \<and> entities g' = (entities g)(i := None))"
proof (intro conjI)
  show "if inBounds g (ae_X e) (ae_Y e) \<and> entities g (ae_ID e) = None
     then \<exists>g'. aoi_AddEntity e g = (Inr (), g') \<and> grid_wf g' \<and> entities g' = (entities g)(ae_ID e \<mapsto> e)
     else aoi_AddEntity e g = (Inl (if inBounds g (ae_X e) (ae_Y e) then ErrAoiExists else ErrAoiOutOfBounds), g)"
    using add_exact [OF assms] unfolding if_bool_eq_conj by blast
  show "if entities g i = None then aoi_RemoveEntity i g = (Inl ErrAoiMissing, g)
     else \<exists>g'. aoi_RemoveEntity i g = (Inr (), g') \<and> grid_wf g' \<and> entities g' = (entities g)(i := None)"
    using remove_exact [OF assms(1), of i] unfolding if_bool_eq_conj by blast
qed

theorem add_remove_refine_witness:
  "aoi_AddEntity demo_entity demo_grid = (Inl ErrAoiExists, demo_grid) \<and>
   (\<exists>g'. aoi_RemoveEntity 7 demo_grid = (Inr (), g') \<and> grid_wf g' \<and> entities g' = Map.empty)"
  using add_remove_refine [OF demo_grid_facts(1), of demo_entity 7]
  by (auto simp: demo_entity_def demo_grid_facts(2) fun_eq_iff)

text \<open>
  Remark. \<open>MoveEntity\<close> is right only towards higher tower numbers. Within a tower or to a later tower
  it updates exactly the position. To an earlier tower (one row up, or one column left) it takes
  the entity out of the wrong tower: it returns success, but the entity is no longer found by
  \<open>EntityLocation\<close>, stays in its old tower with its old coordinates, and even a later
  \<open>RemoveEntity\<close> leaves it there.
\<close>

theorem move_only_upwards:
  assumes wf: "grid_wf g" and e: "entities g i = Some e" and inb: "inBounds g x y"
  shows "if TowerID g (ae_X e) (ae_Y e) \<le> TowerID g x y
    then \<exists>g'. aoi_MoveEntity i x y g = (Inr (), g') \<and> grid_wf g' \<and>
      entities g' = (entities g)(i \<mapsto> e\<lparr>ae_X := x, ae_Y := y\<rparr>)
    else \<exists>g'. aoi_MoveEntity i x y g = (Inr (), g') \<and> EntityLocation g' i = None \<and>
      gm_towers g' = gm_towers g \<and> gm_towers (snd (aoi_RemoveEntity i g')) = gm_towers g"
proof (cases "TowerID g (ae_X e) (ae_Y e) \<le> TowerID g x y")
  case True
  then show ?thesis
    using move_exact [OF wf e inb] by auto
next
  case False
  have ok: "store_ok g (gm_towers g) (home g)" and d: "grid_dims g"
    using wf by (auto simp: grid_wf_def)
  let ?old = "TowerID g (ae_X e) (ae_Y e)" and ?new = "TowerID g x y" and ?kd = "ae_Type e"
  have h: "home g i = Some (?old, ?kd)"
    using store_home [OF ok] e by (auto simp: entities_look)
  have kd: "?kd \<le> 2"
    by (rule store_entity [OF ok h])
  note b = TowerID_bounds(1,2) [OF d inb]
  have idx: "map_of (gm_entityTower g) i = Some ?old" "type_at g i = ?kd"
    using h by (auto simp: home_def)
  have new: "?new = y div TowerSize * gm_gridWidth g + x div TowerSize"
    using inb by (simp add: TowerID_def Let_def)
  obtain m where m: "entityMapFor (gm_towers g ! nat ?new) ?kd = Some m"
    using kd entityMapFor_known [of "gm_towers g ! nat ?new" ?kd] by auto
  have "map_of m i = None"
  proof (rule ccontr)
    assume "map_of m i \<noteq> None"
    then obtain e' where "map_of m i = Some e'"
      by auto
    then have "home g i = Some (int (nat ?new), ?kd)"
      using ok b(2) m unfolding store_ok_def by blast
    then show False
      using h b(1) False by simp
  qed
  let ?g = "g\<lparr>gm_entityTower := AList.update i ?new (gm_entityTower g)\<rparr>"
  have run: "aoi_MoveEntity i x y g = (Inr (), ?g)"
    using False inb idx m \<open>map_of m i = None\<close> by (simp add: aoi_MoveEntity_def Let_def new [symmetric])
  have ty: "type_at ?g i = ?kd"
    using idx(2) by (simp add: type_at_def)
  have "entityMapFor (set_map ?kd (AList.delete i m) (gm_towers g ! nat ?new)) = entityMapFor (gm_towers g ! nat ?new)"
    using m \<open>map_of m i = None\<close> kd by (auto simp: fun_eq_iff delete_id map_of_eq_None_iff)
  then have same: "set_map ?kd (AList.delete i m) (gm_towers g ! nat ?new) = gm_towers g ! nat ?new"
    by (intro tower.equality) (auto simp: fun_eq_iff entityMapFor_def dest: spec [of _ 0] spec [of _ 1] spec [of _ 2])
  have "EntityLocation ?g i = None"
    using ty m \<open>map_of m i = None\<close> by (simp add: EntityLocation_def Let_def)
  moreover have "gm_towers (snd (aoi_RemoveEntity i ?g)) = gm_towers g"
    using ty m same by (simp add: aoi_RemoveEntity_def Let_def)
  ultimately show ?thesis
    using False run by simp
qed

theorem move_only_upwards_witness:
  "\<exists>g'. aoi_MoveEntity 7 30 17 demo_grid = (Inr (), g') \<and> EntityLocation g' 7 = None \<and>
     gm_towers g' = gm_towers demo_grid"
proof -
  have "gm_gridWidth demo_grid = 6"
    using demo_grid_facts(1,3) by (simp add: grid_wf_def grid_dims_def TowerSize_def)
  then show ?thesis
    using move_only_upwards [OF demo_grid_facts(1), of 7 demo_entity 30 17]
    by (auto simp: demo_grid_facts(2) TowerID_def TowerSize_def demo_entity_def)
qed

end
