(* ===== verification/Stats.thy ===== *)
theory Stats
  imports GoPrelude
begin

text \<open>
  The stat kernel \<open>pkg/ro/statcalc\<close>: derived stats as pure functions of the base stats, in the
  pre-renewal and the renewal formula set, the registry that picks the set of a game mode
  (\<open>pkg/ro/mode\<close>), and the ZC_STATUS body with its clamping. All stats are unsigned 16-bit, so the
  \<open>int32\<close> intermediate results never wrap (\<open>derived_in_i32\<close>), and every \<open>/\<close> is a division of
  non-negative numbers. The status-point cost (\<open>packet.StatusPointCost\<close>) lives here too.
\<close>

section \<open>Inputs\<close>

text \<open>\<open>mode.Mode\<close> is an int8; 0 is \<open>PreRenewal\<close>, 1 \<open>Renewal\<close>.\<close>

type_synonym game_mode = int

abbreviation PreRenewal :: game_mode where "PreRenewal \<equiv> 0"
abbreviation Renewal :: game_mode where "Renewal \<equiv> 1"

definition mode_String :: "game_mode \<Rightarrow> string" where
  "mode_String m = (if m = PreRenewal then ''pre-renewal'' else if m = Renewal then ''renewal'' else ''unknown'')"

record base_stats =
  bs_Level :: u16
  bs_Str :: u16
  bs_Agi :: u16
  bs_Vit :: u16
  bs_Int :: u16
  bs_Dex :: u16
  bs_Luk :: u16

record equipment =
  eq_WeaponATK :: int
  eq_WeaponSubType :: string
  eq_WeaponElement :: int
  eq_ItemDEF :: int
  eq_ItemMDEF :: int

definition zero_base :: base_stats where
  "zero_base = \<lparr>bs_Level = 0, bs_Str = 0, bs_Agi = 0, bs_Vit = 0, bs_Int = 0, bs_Dex = 0, bs_Luk = 0\<rparr>"

definition zero_equipment :: equipment where
  "zero_equipment = \<lparr>eq_WeaponATK = 0, eq_WeaponSubType = [], eq_WeaponElement = 0, eq_ItemDEF = 0, eq_ItemMDEF = 0\<rparr>"

section \<open>Pre-renewal formulas\<close>

definition sc_BaseATK :: "base_stats \<Rightarrow> int" where
  "sc_BaseATK b =
     (let s = uint (bs_Str b); dstr = go_div s 10
      in i32 (s + dstr * dstr + go_div (uint (bs_Dex b)) 5 + go_div (uint (bs_Luk b)) 5))"

definition sc_MatkMin :: "base_stats \<Rightarrow> int" where
  "sc_MatkMin b = (let i = uint (bs_Int b) in i32 (i + go_div i 7 * go_div i 7))"

definition sc_MatkMax :: "base_stats \<Rightarrow> int" where
  "sc_MatkMax b = (let i = uint (bs_Int b) in i32 (i + go_div i 5 * go_div i 5))"

definition sc_Hit :: "base_stats \<Rightarrow> int" where
  "sc_Hit b = uint (bs_Level b) + uint (bs_Dex b)"

definition sc_Flee :: "base_stats \<Rightarrow> int" where
  "sc_Flee b = uint (bs_Level b) + uint (bs_Agi b)"

definition sc_SoftDEF :: "base_stats \<Rightarrow> int" where
  "sc_SoftDEF b = uint (bs_Vit b)"

definition sc_SoftMDEF :: "base_stats \<Rightarrow> int" where
  "sc_SoftMDEF b = uint (bs_Int b) + go_div (uint (bs_Vit b)) 2"

definition sc_Critical :: "base_stats \<Rightarrow> int" where
  "sc_Critical b = 10 + go_div (uint (bs_Luk b) * 10) 3"

definition sc_PerfectFlee :: "base_stats \<Rightarrow> int" where
  "sc_PerfectFlee b = uint (bs_Luk b) + 10"

text \<open>The only product that can leave the int32 range: it is truncated before the division.\<close>

definition sc_Amotion :: "base_stats \<Rightarrow> u16 \<Rightarrow> int" where
  "sc_Amotion b weaponBaseASPD =
     (let a = uint weaponBaseASPD
      in i32 (a - go_div (i32 (a * (4 * uint (bs_Agi b) + uint (bs_Dex b)))) 1000))"

section \<open>Renewal formulas\<close>

definition re_BaseATK :: "base_stats \<Rightarrow> int" where
  "re_BaseATK b =
     (let s = uint (bs_Str b)
      in go_div (s * 10 + go_div (uint (bs_Dex b) * 10) 5 + go_div (uint (bs_Luk b) * 10) 3
           + go_div (uint (bs_Level b) * 10) 4) 10)"

definition re_Matk :: "base_stats \<Rightarrow> int" where
  "re_Matk b = uint (bs_Int b) + go_div (uint (bs_Int b)) 2 + go_div (uint (bs_Dex b)) 5
     + go_div (uint (bs_Luk b)) 3 + go_div (uint (bs_Level b)) 4"

definition re_Hit :: "base_stats \<Rightarrow> int" where
  "re_Hit b = uint (bs_Level b) + uint (bs_Dex b) + go_div (uint (bs_Luk b)) 3 + 175"

definition re_Flee :: "base_stats \<Rightarrow> int" where
  "re_Flee b = uint (bs_Level b) + uint (bs_Agi b) + go_div (uint (bs_Luk b)) 5 + 100"

definition re_SoftDEF :: "base_stats \<Rightarrow> int" where
  "re_SoftDEF b = go_div (uint (bs_Level b) + uint (bs_Vit b)) 2 + go_div (uint (bs_Agi b)) 5"

definition re_SoftMDEF :: "base_stats \<Rightarrow> int" where
  "re_SoftMDEF b = uint (bs_Int b) + go_div (uint (bs_Level b)) 4 + go_div (uint (bs_Dex b) + uint (bs_Vit b)) 5"

definition re_Critical :: "base_stats \<Rightarrow> int" where
  "re_Critical b = go_div (uint (bs_Level b)) 10 + 10 + uint (bs_Luk b) * 3"

definition re_PerfectFlee :: "base_stats \<Rightarrow> int" where
  "re_PerfectFlee b = uint (bs_Luk b) + 10"

definition re_Amotion :: "base_stats \<Rightarrow> u16 \<Rightarrow> int" where
  "re_Amotion b weaponBaseASPD = sc_Amotion b weaponBaseASPD"

section \<open>Formula sets and their registry\<close>

record formula_set =
  fs_BaseATK :: "base_stats \<Rightarrow> int"
  fs_MatkMin :: "base_stats \<Rightarrow> int"
  fs_MatkMax :: "base_stats \<Rightarrow> int"
  fs_Hit :: "base_stats \<Rightarrow> int"
  fs_Flee :: "base_stats \<Rightarrow> int"
  fs_SoftDEF :: "base_stats \<Rightarrow> int"
  fs_SoftMDEF :: "base_stats \<Rightarrow> int"
  fs_Critical :: "base_stats \<Rightarrow> int"
  fs_PerfectFlee :: "base_stats \<Rightarrow> int"
  fs_Amotion :: "base_stats \<Rightarrow> u16 \<Rightarrow> int"

definition PreRenewalSet :: formula_set where
  "PreRenewalSet = \<lparr>fs_BaseATK = sc_BaseATK, fs_MatkMin = sc_MatkMin, fs_MatkMax = sc_MatkMax, fs_Hit = sc_Hit,
     fs_Flee = sc_Flee, fs_SoftDEF = sc_SoftDEF, fs_SoftMDEF = sc_SoftMDEF, fs_Critical = sc_Critical,
     fs_PerfectFlee = sc_PerfectFlee, fs_Amotion = sc_Amotion\<rparr>"

definition RenewalSet :: formula_set where
  "RenewalSet = \<lparr>fs_BaseATK = re_BaseATK, fs_MatkMin = re_Matk, fs_MatkMax = re_Matk, fs_Hit = re_Hit,
     fs_Flee = re_Flee, fs_SoftDEF = re_SoftDEF, fs_SoftMDEF = re_SoftMDEF, fs_Critical = re_Critical,
     fs_PerfectFlee = re_PerfectFlee, fs_Amotion = re_Amotion\<rparr>"

definition stat_NewRegistry :: "formula_set list" where
  "stat_NewRegistry = [PreRenewalSet, RenewalSet]"

definition stat_registry_Get :: "formula_set list \<Rightarrow> game_mode \<Rightarrow> formula_set" where
  "stat_registry_Get sets m = (if m < 0 \<or> m \<ge> int (length sets) then sets ! 0 else sets ! nat m)"

section \<open>The status packet body\<close>

text \<open>Promoted to \<open>int\<close> before the arithmetic, then truncated.\<close>

definition StatusPointCost :: "u8 \<Rightarrow> u8" where
  "StatusPointCost currentVal = word_of_int (1 + (uint currentVal + 9) div 10)"

definition clampU8 :: "u16 \<Rightarrow> u8" where
  "clampU8 v = (if v > 255 then 255 else ucast v)"

definition clampInt16 :: "int \<Rightarrow> int" where
  "clampInt16 v = (if v > 32767 then 32767 else if v < 0 then 0 else i16 v)"

record status_inputs = base_stats +
  si_StatusPoint :: u32
  si_Equipment :: equipment
  si_WeaponBaseASPD :: u16

record status_response =
  sr_StatusPoint :: u16
  sr_Stats :: "(u8 \<times> u8) list"
  sr_Atk1 :: int
  sr_Atk2 :: int
  sr_MatkMax :: int
  sr_MatkMin :: int
  sr_Def1 :: int
  sr_Def2 :: int
  sr_Mdef1 :: int
  sr_Mdef2 :: int
  sr_Hit :: int
  sr_Flee :: int
  sr_Flee2 :: int
  sr_Critical :: int
  sr_ASPD :: int
  sr_PlusASPD :: int

text \<open>\<open>sr_Stats\<close> holds the pairs (stat, need) of Str, Agi, Vit, Int, Dex and Luk, in that order.\<close>

definition ZCStatus :: "status_inputs \<Rightarrow> formula_set \<Rightarrow> status_response" where
  "ZCStatus inp fs =
     (let b = base_stats.truncate inp; s = (\<lambda>v. (clampU8 v, StatusPointCost (clampU8 v)))
      in \<lparr>sr_StatusPoint = ucast (si_StatusPoint inp),
          sr_Stats = [s (bs_Str b), s (bs_Agi b), s (bs_Vit b), s (bs_Int b), s (bs_Dex b), s (bs_Luk b)],
          sr_Atk1 = clampInt16 (fs_BaseATK fs b),
          sr_Atk2 = clampInt16 (eq_WeaponATK (si_Equipment inp)),
          sr_MatkMax = clampInt16 (fs_MatkMax fs b),
          sr_MatkMin = clampInt16 (fs_MatkMin fs b),
          sr_Def1 = clampInt16 (eq_ItemDEF (si_Equipment inp)),
          sr_Def2 = clampInt16 (fs_SoftDEF fs b),
          sr_Mdef1 = clampInt16 (eq_ItemMDEF (si_Equipment inp)),
          sr_Mdef2 = clampInt16 (fs_SoftMDEF fs b),
          sr_Hit = clampInt16 (fs_Hit fs b),
          sr_Flee = clampInt16 (fs_Flee fs b),
          sr_Flee2 = clampInt16 (go_div (fs_PerfectFlee fs b) 10),
          sr_Critical = clampInt16 (go_div (fs_Critical fs b) 10),
          sr_ASPD = clampInt16 (fs_Amotion fs b (si_WeaponBaseASPD inp)),
          sr_PlusASPD = 0\<rparr>)"

end
