(* ===== verification/World.thy ===== *)
theory World
  imports AoiGrid Stats
begin

text \<open>
  The world service: the \<open>Entity\<close> type (\<open>world/domain/entity.go\<close>) and the in-memory registry with
  its per-map sets and AOI grids (\<open>world/app/world.go\<close>). The invariant \<open>world_wf\<close> says that registry,
  per-map sets and grids describe the same placement, as long as every cell is on the canvas; \<open>grids_wf\<close> is what
  calls with any cells keep. The lemmas show which operations keep them and what a visibility query returns.

  Each operation is one atomic step (the mutex and the off-lock grid calls are not separated).
  The callbacks the gateway installs (\<open>OnStatChange\<close> and the rest) append to \<open>w_events\<close>.
  Natural regeneration (\<open>RegenTick\<close>) accumulates floating-point seconds and is not modelled, so
  the \<open>regenAcc\<close> map is left out; timers and ticker goroutines are left out too.
\<close>

section \<open>Entities\<close>

abbreviation EntityTypePC :: u8 where "EntityTypePC \<equiv> 0"
abbreviation EntityTypeMob :: u8 where "EntityTypeMob \<equiv> 5"
abbreviation EntityTypeNPC :: u8 where "EntityTypeNPC \<equiv> 6"

record position =
  pos_X :: int
  pos_Y :: int

text \<open>\<open>LearnedSkills\<close> is ranged over; the nil map and the empty map behave alike.\<close>

record entity =
  en_ID :: u32
  en_Account :: u32
  en_Type :: u8
  en_Class :: int
  en_Map :: string
  en_Pos :: position
  en_SaveMap :: string
  en_SavePos :: position
  en_Dir :: u8
  en_Speed :: int
  en_Job :: int
  en_Sex :: u8
  en_Name :: string
  en_Head :: u16
  en_Weapon :: u32
  en_Shield :: u32
  en_HP :: int
  en_MaxHP :: int
  en_SP :: int
  en_MaxSP :: int
  en_Sitting :: bool
  en_Level :: int
  en_BaseExp :: u64
  en_JobExp :: u64
  en_JobLevel :: int
  en_SkillPoint :: u32
  en_LearnedSkills :: "(int \<times> int) list"
  en_Str :: u16
  en_Agi :: u16
  en_Vit :: u16
  en_Int :: u16
  en_Dex :: u16
  en_Luk :: u16
  en_StatusPoint :: u32

definition zero_position :: position where
  "zero_position = \<lparr>pos_X = 0, pos_Y = 0\<rparr>"

definition zero_entity :: entity where
  "zero_entity = \<lparr>en_ID = 0, en_Account = 0, en_Type = 0, en_Class = 0, en_Map = [], en_Pos = zero_position,
     en_SaveMap = [], en_SavePos = zero_position, en_Dir = 0, en_Speed = 0, en_Job = 0, en_Sex = 0,
     en_Name = [], en_Head = 0, en_Weapon = 0, en_Shield = 0, en_HP = 0, en_MaxHP = 0, en_SP = 0,
     en_MaxSP = 0, en_Sitting = False, en_Level = 0, en_BaseExp = 0, en_JobExp = 0, en_JobLevel = 0,
     en_SkillPoint = 0, en_LearnedSkills = [], en_Str = 0, en_Agi = 0, en_Vit = 0, en_Int = 0, en_Dex = 0,
     en_Luk = 0, en_StatusPoint = 0\<rparr>"

datatype world_event =
    OnStatChange u32 int int
  | OnExpChange u32 u64 u64
  | OnRespawn u32
  | OnLevelUp u32 int int int u32

record world =
  w_entities :: "(u32 \<times> entity) list"
  w_byMap :: "string \<rightharpoonup> u32 list"
  w_grids :: "string \<rightharpoonup> grid"
  w_events :: "world_event list"

definition NewWorldService :: world where
  "NewWorldService = \<lparr>w_entities = [], w_byMap = Map.empty, w_grids = Map.empty, w_events = []\<rparr>"

abbreviation emit :: "world_event \<Rightarrow> world \<Rightarrow> world" where
  "emit ev w \<equiv> w\<lparr>w_events := w_events w @ [ev]\<rparr>"

abbreviation put_entity :: "u32 \<Rightarrow> entity \<Rightarrow> world \<Rightarrow> world" where
  "put_entity i e w \<equiv> w\<lparr>w_entities := AList.update i e (w_entities w)\<rparr>"

abbreviation entity_at :: "world \<Rightarrow> u32 \<Rightarrow> entity option" where
  "entity_at w \<equiv> map_of (w_entities w)"

section \<open>The registry and the grids\<close>

text \<open>The default canvas of a map: 512 by 512 cells.\<close>

definition grid512 :: grid where
  "grid512 = the (NewGridManager 512 512)"

definition ensureGridLocked :: "string \<Rightarrow> world \<Rightarrow> world" where
  "ensureGridLocked m w =
     (case w_grids w m of
        None \<Rightarrow> w\<lparr>w_grids := (w_grids w)(m \<mapsto> grid512), w_byMap := (w_byMap w)(m \<mapsto> [])\<rparr>
      | Some g \<Rightarrow> w)"

definition aoi_at :: "u32 \<Rightarrow> position \<Rightarrow> aoi_entity" where
  "aoi_at i p = \<lparr>ae_ID = i, ae_Type = EntityPlayer, ae_X = pos_X p, ae_Y = pos_Y p\<rparr>"

definition set_add :: "u32 \<Rightarrow> u32 list option \<Rightarrow> u32 list option" where
  "set_add i s = map_option (List.insert i) s"

definition w_AddEntity :: "entity \<Rightarrow> world \<Rightarrow> (unit, world) out" where
  "w_AddEntity e w =
     (if entity_at w (en_ID e) \<noteq> None then (Inl ErrEntityAlreadyExists, w)
      else
        let w1 = ensureGridLocked (en_Map e) (put_entity (en_ID e) e w)
        in case aoi_AddEntity (aoi_at (en_ID e) (en_Pos e)) (the (w_grids w1 (en_Map e))) of
             (Inl er, g) \<Rightarrow> (Inl er, w1\<lparr>w_grids := (w_grids w1)(en_Map e \<mapsto> g)\<rparr>)
           | (Inr _, g) \<Rightarrow> (Inr (), w1\<lparr>w_grids := (w_grids w1)(en_Map e \<mapsto> g),
               w_byMap := (w_byMap w1)(en_Map e := set_add (en_ID e) (w_byMap w1 (en_Map e)))\<rparr>))"

text \<open>Run a grid operation whose error is discarded; a missing grid is skipped.\<close>

definition on_grid :: "string \<Rightarrow> (grid \<Rightarrow> (unit, grid) out) \<Rightarrow> world \<Rightarrow> world" where
  "on_grid m f w = (case w_grids w m of None \<Rightarrow> w | Some g \<Rightarrow> w\<lparr>w_grids := (w_grids w)(m \<mapsto> snd (f g))\<rparr>)"

definition w_RemoveEntity :: "u32 \<Rightarrow> world \<Rightarrow> (unit, world) out" where
  "w_RemoveEntity i w =
     (case entity_at w i of
        None \<Rightarrow> (Inl ErrEntityNotFound, w)
      | Some e \<Rightarrow>
          let m = en_Map e;
              w1 = w\<lparr>w_entities := AList.delete i (w_entities w),
                    w_byMap := (w_byMap w)(m := map_option (removeAll i) (w_byMap w m))\<rparr>
          in (Inr (), on_grid m (aoi_RemoveEntity i) w1))"

definition w_Get :: "u32 \<Rightarrow> world \<Rightarrow> entity res" where
  "w_Get i w = (case entity_at w i of None \<Rightarrow> Inl ErrEntityNotFound | Some e \<Rightarrow> Inr e)"

definition w_MoveEntity :: "u32 \<Rightarrow> position \<Rightarrow> world \<Rightarrow> (unit, world) out" where
  "w_MoveEntity i p w =
     (case entity_at w i of
        None \<Rightarrow> (Inl ErrEntityNotFound, w)
      | Some e \<Rightarrow>
          let w1 = put_entity i (e\<lparr>en_Pos := p\<rparr>) w
          in (Inr (), on_grid (en_Map e) (aoi_AddEntity (aoi_at i p))
                (on_grid (en_Map e) (aoi_RemoveEntity i) w1)))"

definition w_QueryVisible :: "string \<Rightarrow> int \<Rightarrow> int \<Rightarrow> world \<Rightarrow> u32 list" where
  "w_QueryVisible m x y w =
     (case w_grids w m of None \<Rightarrow> [] | Some g \<Rightarrow> map ae_ID (QueryVisible g x y))"

definition PlayersNear :: "string \<Rightarrow> position \<Rightarrow> world \<Rightarrow> u32 list" where
  "PlayersNear m p w =
     (case w_grids w m of
        None \<Rightarrow> []
      | Some g \<Rightarrow> concat (map (\<lambda>e. case entity_at w (ae_ID e) of
            None \<Rightarrow> []
          | Some ce \<Rightarrow> if en_Type ce = EntityTypePC then [en_ID ce] else [])
          (QueryVisible g (pos_X p) (pos_Y p))))"

definition PlayersOnMap :: "string \<Rightarrow> world \<Rightarrow> u32 list" where
  "PlayersOnMap m w =
     (case w_byMap w m of
        None \<Rightarrow> []
      | Some s \<Rightarrow> filter (\<lambda>i. case entity_at w i of None \<Rightarrow> False | Some ce \<Rightarrow> en_Type ce = EntityTypePC) s)"

definition PlayerByName :: "string \<Rightarrow> world \<Rightarrow> entity option" where
  "PlayerByName nm w =
     find (\<lambda>e. en_Type e = EntityTypePC \<and> en_Name e = nm) (map snd (w_entities w))"

definition PlayerByAccount :: "u32 \<Rightarrow> world \<Rightarrow> entity option" where
  "PlayerByAccount acc w =
     find (\<lambda>e. en_Type e = EntityTypePC \<and> en_Account e = acc) (map snd (w_entities w))"

definition SetSitting :: "u32 \<Rightarrow> bool \<Rightarrow> world \<Rightarrow> (unit, world) out" where
  "SetSitting i sitting w =
     (case entity_at w i of
        None \<Rightarrow> (Inl ErrEntityNotFound, w)
      | Some e \<Rightarrow> (Inr (), put_entity i (e\<lparr>en_Sitting := sitting\<rparr>) w))"

definition SetFacing :: "u32 \<Rightarrow> u8 \<Rightarrow> u16 \<Rightarrow> world \<Rightarrow> (unit, world) out" where
  "SetFacing i dir head w =
     (case entity_at w i of
        None \<Rightarrow> (Inl ErrEntityNotFound, w)
      | Some e \<Rightarrow> (Inr (), put_entity i (e\<lparr>en_Dir := dir, en_Head := head\<rparr>) w))"

section \<open>Vitals, respawn and status points\<close>

definition hpRegenAmount :: "int \<Rightarrow> u16 \<Rightarrow> int" where
  "hpRegenAmount maxHP vit = i32 (go_div maxHP 200 + uint vit div 2 + 1)"

definition spRegenAmount :: "int \<Rightarrow> u16 \<Rightarrow> int" where
  "spRegenAmount maxSP intStat = i32 (go_div maxSP 100 + uint intStat div 2 + 1)"

definition clampRegen :: "int \<Rightarrow> int \<Rightarrow> int \<Rightarrow> int" where
  "clampRegen cur maxV amt = (let v = cur + amt in if v > maxV then maxV else i32 v)"

definition applyPctHeal :: "int \<Rightarrow> int \<Rightarrow> int \<Rightarrow> int" where
  "applyPctHeal cur maxV rate =
     (let rate = (if rate < 0 then 0 else rate);
          rate = (if rate > 100 then 100 else rate)
      in if maxV \<le> 0 then 0
         else
           let v = cur + go_div (rate * maxV) 100
           in if v > maxV then maxV else if v < 0 then 0 else i32 v)"

definition clampVitals :: "int \<Rightarrow> int \<Rightarrow> int \<Rightarrow> int" where
  "clampVitals cur delta maxV =
     (if maxV \<le> 0 then 0
      else
        let v = cur + delta
        in if v > maxV then maxV else if v < 0 then 0 else i32 v)"

definition HealPlayer :: "u32 \<Rightarrow> int \<Rightarrow> int \<Rightarrow> world \<Rightarrow> (int \<times> int, world) out" where
  "HealPlayer i hpPct spPct w =
     (case entity_at w i of
        None \<Rightarrow> (Inl ErrEntityNotFound, w)
      | Some e \<Rightarrow>
          let hp = applyPctHeal (en_HP e) (en_MaxHP e) hpPct;
              sp = applyPctHeal (en_SP e) (en_MaxSP e) spPct
          in (Inr (hp, sp), put_entity i (e\<lparr>en_HP := hp, en_SP := sp\<rparr>) w))"

definition AddVitals :: "u32 \<Rightarrow> int \<Rightarrow> int \<Rightarrow> world \<Rightarrow> (int \<times> int, world) out" where
  "AddVitals i dhp dsp w =
     (case entity_at w i of
        None \<Rightarrow> (Inl ErrEntityNotFound, w)
      | Some e \<Rightarrow>
          let hp = clampVitals (en_HP e) dhp (en_MaxHP e);
              sp = clampVitals (en_SP e) dsp (en_MaxSP e)
          in (Inr (hp, sp), emit (OnStatChange i hp sp) (put_entity i (e\<lparr>en_HP := hp, en_SP := sp\<rparr>) w)))"

definition respawnRevivePct :: int where
  "respawnRevivePct = 100"

definition RespawnPlayer :: "u32 \<Rightarrow> world \<Rightarrow> (unit, world) out" where
  "RespawnPlayer i w =
     (case entity_at w i of
        None \<Rightarrow> (Inl ErrEntityNotFound, w)
      | Some e \<Rightarrow>
          let saveMap = (if en_SaveMap e = [] then en_Map e else en_SaveMap e);
              savePos = (if en_SaveMap e = [] then en_Pos e else en_SavePos e);
              oldMap = en_Map e;
              w1 = ensureGridLocked saveMap w;
              w2 = (if saveMap \<noteq> oldMap
                    then w1\<lparr>w_byMap := (w_byMap w1)(oldMap := map_option (removeAll (en_ID e)) (w_byMap w1 oldMap))\<rparr>
                    else w1);
              w3 = w2\<lparr>w_byMap := (w_byMap w2)(saveMap := set_add (en_ID e) (w_byMap w2 saveMap))\<rparr>;
              hp = applyPctHeal 0 (en_MaxHP e) respawnRevivePct;
              sp = applyPctHeal 0 (en_MaxSP e) respawnRevivePct;
              w4 = put_entity i (e\<lparr>en_Map := saveMap, en_Pos := savePos, en_HP := hp, en_SP := sp\<rparr>) w3;
              w5 = on_grid saveMap (aoi_RemoveEntity i) (on_grid oldMap (aoi_RemoveEntity i) w4)
          in case aoi_AddEntity (aoi_at i savePos) (the (w_grids w5 saveMap)) of
               (Inl er, g) \<Rightarrow> (Inl er, w5\<lparr>w_grids := (w_grids w5)(saveMap \<mapsto> g)\<rparr>)
             | (Inr _, g) \<Rightarrow>
                 (Inr (), emit (OnRespawn i) (emit (OnStatChange i hp sp)
                    (w5\<lparr>w_grids := (w_grids w5)(saveMap \<mapsto> g)\<rparr>))))"

definition stat_get :: "string \<Rightarrow> entity \<Rightarrow> u16 option" where
  "stat_get stat e =
     (if stat = ''Str'' then Some (en_Str e)
      else if stat = ''Agi'' then Some (en_Agi e)
      else if stat = ''Vit'' then Some (en_Vit e)
      else if stat = ''Int'' then Some (en_Int e)
      else if stat = ''Dex'' then Some (en_Dex e)
      else if stat = ''Luk'' then Some (en_Luk e)
      else None)"

definition stat_put :: "string \<Rightarrow> u16 \<Rightarrow> entity \<Rightarrow> entity" where
  "stat_put stat v e =
     (if stat = ''Str'' then e\<lparr>en_Str := v\<rparr>
      else if stat = ''Agi'' then e\<lparr>en_Agi := v\<rparr>
      else if stat = ''Vit'' then e\<lparr>en_Vit := v\<rparr>
      else if stat = ''Int'' then e\<lparr>en_Int := v\<rparr>
      else if stat = ''Dex'' then e\<lparr>en_Dex := v\<rparr>
      else if stat = ''Luk'' then e\<lparr>en_Luk := v\<rparr>
      else e)"

definition AllocateStat :: "u32 \<Rightarrow> string \<Rightarrow> world \<Rightarrow> (u32 \<times> u32 \<times> u32, world) out" where
  "AllocateStat i stat w =
     (case entity_at w i of
        None \<Rightarrow> (Inl ErrEntityNotFound, w)
      | Some e \<Rightarrow>
          case stat_get stat e of
            None \<Rightarrow> (Inl ErrUnknownStat, w)
          | Some cur \<Rightarrow>
              if cur \<ge> 99 then (Inl ErrStatCapped, w)
              else
                let cost = ucast (StatusPointCost (ucast cur)) :: u32
                in if cost > en_StatusPoint e then (Inl ErrNoStatusPoints, w)
                   else
                     let e' = stat_put stat (cur + 1) (e\<lparr>en_StatusPoint := en_StatusPoint e - cost\<rparr>)
                     in (Inr (ucast (cur + 1), en_StatusPoint e - cost, cost), put_entity i e' w))"

text \<open>The primitive behind the learn-skill path; a non-positive level is a no-op.\<close>

definition w_LearnSkill :: "u32 \<Rightarrow> int \<Rightarrow> int \<Rightarrow> world \<Rightarrow> (unit, world) out" where
  "w_LearnSkill i skillID level w =
     (if level \<le> 0 then (Inr (), w)
      else
        case entity_at w i of
          None \<Rightarrow> (Inl ErrEntityNotFound, w)
        | Some e \<Rightarrow>
            (case map_of (en_LearnedSkills e) skillID of
               Some cur \<Rightarrow>
                 if level > cur then
                   (Inr (), put_entity i (e\<lparr>en_LearnedSkills := AList.update skillID level (en_LearnedSkills e)\<rparr>) w)
                 else (Inr (), w)
             | None \<Rightarrow>
                 (Inr (), put_entity i (e\<lparr>en_LearnedSkills := AList.update skillID level (en_LearnedSkills e)\<rparr>) w)))"

definition clampExpAdd :: "u64 \<Rightarrow> u64 \<Rightarrow> u64" where
  "clampExpAdd cur delta = (if delta > (- 1) - cur then - 1 else cur + delta)"

section \<open>Registry, sets and grids agree\<close>

text \<open>The AOI entities map \<open>m\<close> should show: the registered entities whose map is \<open>m\<close>.\<close>

definition on_map :: "world \<Rightarrow> string \<Rightarrow> u32 \<Rightarrow> aoi_entity option" where
  "on_map w m i = (case entity_at w i of
     None \<Rightarrow> None | Some e \<Rightarrow> if en_Map e = m then Some (aoi_at i (en_Pos e)) else None)"

definition world_wf :: "world \<Rightarrow> bool" where
  "world_wf w \<longleftrightarrow> distinct (keys (w_entities w)) \<and>
     (\<forall>i e. entity_at w i = Some e \<longrightarrow> en_ID e = i \<and> w_grids w (en_Map e) \<noteq> None) \<and>
     (\<forall>m g. w_grids w m = Some g \<longrightarrow> grid_wf g \<and> gm_width g = 512 \<and> gm_height g = 512 \<and> entities g = on_map w m) \<and>
     (\<forall>m. w_byMap w m = None \<longrightarrow> w_grids w m = None) \<and>
     (\<forall>m s. w_byMap w m = Some s \<longrightarrow> w_grids w m \<noteq> None \<and> set s = dom (on_map w m))"

definition on_canvas :: "position \<Rightarrow> bool" where
  "on_canvas p \<longleftrightarrow> 0 \<le> pos_X p \<and> pos_X p < 512 \<and> 0 \<le> pos_Y p \<and> pos_Y p < 512"

lemma aoi_at_simps [simp]:
  "ae_ID (aoi_at i p) = i" "ae_Type (aoi_at i p) = 0" "ae_X (aoi_at i p) = pos_X p" "ae_Y (aoi_at i p) = pos_Y p"
  by (simp_all add: aoi_at_def)

lemma canvas_bounds: "gm_width g = 512 \<Longrightarrow> gm_height g = 512 \<Longrightarrow> inBounds g (pos_X p) (pos_Y p) \<longleftrightarrow> on_canvas p"
  by (auto simp: inBounds_def on_canvas_def)

lemma grid512_facts [simp]:
  "grid_wf grid512" "entities grid512 = Map.empty" "gm_width grid512 = 512" "gm_height grid512 = 512"
proof -
  obtain g where g: "NewGridManager 512 512 = Some g" "gm_width g = 512" "gm_height g = 512"
    by (simp add: NewGridManager_def Let_def)
  then show "grid_wf grid512" "entities grid512 = Map.empty" "gm_width grid512 = 512" "gm_height grid512 = 512"
    using new_grid_wf [OF g(1)] by (simp_all add: grid512_def)
qed

lemma new_world_wf: "world_wf NewWorldService"
  by (simp add: world_wf_def NewWorldService_def)

lemma on_map_upd [simp]:
  "on_map (w\<lparr>w_byMap := a\<rparr>) = on_map w" "on_map (w\<lparr>w_grids := b\<rparr>) = on_map w" "on_map (w\<lparr>w_events := c\<rparr>) = on_map w"
  by (simp_all add: fun_eq_iff on_map_def)

lemma on_map_put [simp]: "on_map (put_entity i e w) m =
    (on_map w m)(i := if en_Map e = m then Some (aoi_at i (en_Pos e)) else None)"
  by (simp add: fun_eq_iff on_map_def)

lemma on_map_delete [simp]: "on_map (w\<lparr>w_entities := AList.delete i (w_entities w)\<rparr>) m = (on_map w m)(i := None)"
  by (simp add: fun_eq_iff on_map_def)

lemma on_map_Some: "on_map w m i = Some a \<longleftrightarrow> (\<exists>e. entity_at w i = Some e \<and> en_Map e = m \<and> a = aoi_at i (en_Pos e))"
  by (auto simp: on_map_def split: option.splits)

lemma on_map_dom: "dom (on_map w m) = {i. \<exists>e. entity_at w i = Some e \<and> en_Map e = m}"
  by (auto simp: on_map_Some dom_def)

lemma world_wfI:
  assumes "distinct (keys (w_entities w))"
    and "\<And>i e. entity_at w i = Some e \<Longrightarrow> en_ID e = i \<and> w_grids w (en_Map e) \<noteq> None"
    and "\<And>m g. w_grids w m = Some g \<Longrightarrow> grid_wf g \<and> gm_width g = 512 \<and> gm_height g = 512 \<and> entities g = on_map w m"
    and "\<And>m. w_byMap w m = None \<Longrightarrow> w_grids w m = None"
    and "\<And>m s. w_byMap w m = Some s \<Longrightarrow> w_grids w m \<noteq> None \<and> set s = dom (on_map w m)"
  shows "world_wf w"
  using assms unfolding world_wf_def by blast

lemma world_wfD:
  assumes "world_wf w"
  shows "distinct (keys (w_entities w))"
    and "\<And>i e. entity_at w i = Some e \<Longrightarrow> en_ID e = i \<and> w_grids w (en_Map e) \<noteq> None"
    and "\<And>m g. w_grids w m = Some g \<Longrightarrow> grid_wf g \<and> gm_width g = 512 \<and> gm_height g = 512 \<and> entities g = on_map w m"
    and "\<And>m. w_byMap w m = None \<Longrightarrow> w_grids w m = None"
    and "\<And>m s. w_byMap w m = Some s \<Longrightarrow> w_grids w m \<noteq> None \<and> set s = dom (on_map w m)"
  using assms unfolding world_wf_def by blast+

lemma wf_byMap_grid: "world_wf w \<Longrightarrow> w_grids w m = Some g \<Longrightarrow> \<exists>s. w_byMap w m = Some s \<and> set s = dom (on_map w m)"
  by (cases "w_byMap w m") (auto dest: world_wfD(4,5))

lemma ensure_simps [simp]:
  "w_entities (ensureGridLocked m w) = w_entities w"
  "w_grids (ensureGridLocked m w) m \<noteq> None"
  "w_events (ensureGridLocked m w) = w_events w"
  by (auto simp: ensureGridLocked_def split: option.split)

lemma ensure_put: "ensureGridLocked m (put_entity i e w) = put_entity i e (ensureGridLocked m w)"
  by (simp add: ensureGridLocked_def split: option.split)

lemma ensure_wf: "world_wf w \<Longrightarrow> world_wf (ensureGridLocked m w)"
proof (cases "w_grids w m")
  case None
  assume wf: "world_wf w"
  let ?w = "w\<lparr>w_grids := (w_grids w)(m \<mapsto> grid512), w_byMap := (w_byMap w)(m \<mapsto> [])\<rparr>"
  have none: "on_map w m = Map.empty"
    using None world_wfD(2) [OF wf] by (fastforce simp: fun_eq_iff on_map_def split: option.split)
  have "world_wf ?w"
  proof (rule world_wfI, goal_cases)
    case (3 m' g)
    then show ?case
      using world_wfD(3) [OF wf, of m' g] none by (auto split: if_splits)
  next
    case (5 m' s)
    then show ?case
      using world_wfD(5) [OF wf, of m' s] none by (auto split: if_splits)
  qed (use world_wfD [OF wf] in \<open>auto split: if_splits\<close>)
  then show ?thesis
    using None by (simp add: ensureGridLocked_def)
qed (simp add: ensureGridLocked_def)

text \<open>Placing entity \<open>e\<close> on the map it names, when no grid shows it yet.\<close>

lemma wf_place:
  assumes wf: "world_wf w" and free: "entity_at w i = None" and i: "en_ID e = i"
    and g: "w_grids w (en_Map e) = Some g" and pos: "on_canvas (en_Pos e)"
  shows "\<exists>g'. aoi_AddEntity (aoi_at i (en_Pos e)) g = (Inr (), g') \<and>
    world_wf (w\<lparr>w_entities := AList.update i e (w_entities w), w_grids := (w_grids w)(en_Map e \<mapsto> g'),
      w_byMap := (w_byMap w)(en_Map e := set_add i (w_byMap w (en_Map e)))\<rparr>)"
proof -
  note gw = world_wfD(3) [OF wf g]
  have inb: "inBounds g (pos_X (en_Pos e)) (pos_Y (en_Pos e))"
    using gw pos canvas_bounds by blast
  have none: "on_map w m i = None" for m
    using free by (simp add: on_map_def)
  obtain g' where g': "aoi_AddEntity (aoi_at i (en_Pos e)) g = (Inr (), g')" "grid_wf g'" "same_map g g'"
      "entities g' = (entities g)(i \<mapsto> aoi_at i (en_Pos e))"
    using add_exact [of g "aoi_at i (en_Pos e)"] gw inb none by auto
  let ?w = "w\<lparr>w_entities := AList.update i e (w_entities w), w_grids := (w_grids w)(en_Map e \<mapsto> g'),
      w_byMap := (w_byMap w)(en_Map e := set_add i (w_byMap w (en_Map e)))\<rparr>"
  have om: "on_map ?w m = (on_map w m)(i := if en_Map e = m then Some (aoi_at i (en_Pos e)) else None)" for m
    by (simp add: fun_eq_iff on_map_def)
  obtain s where s: "w_byMap w (en_Map e) = Some s" "set s = dom (on_map w (en_Map e))"
    using wf_byMap_grid [OF wf g] by blast
  have "world_wf ?w"
  proof (rule world_wfI, goal_cases)
    case 1
    then show ?case
      using world_wfD(1) [OF wf] by simp
  next
    case (2 j a)
    then show ?case
      using world_wfD(2) [OF wf, of j a] i by (auto split: if_splits)
  next
    case (3 m h)
    then show ?case
      using world_wfD(3) [OF wf, of m h] g'(2-4) gw none
      by (auto simp: om same_map_def fun_eq_iff split: if_splits)
  next
    case (4 m)
    then show ?case
      using world_wfD(4) [OF wf, of m] s by (auto simp: set_add_def split: if_splits)
  next
    case (5 m t)
    then show ?case
      using world_wfD(5) [OF wf, of m t] s none [of m] by (auto simp: om set_add_def split: if_splits)
  qed
  then show ?thesis
    using g'(1) by blast
qed

lemma add_entity_ok:
  assumes wf: "world_wf w" and free: "entity_at w (en_ID e) = None" and pos: "on_canvas (en_Pos e)"
  shows "\<exists>w'. w_AddEntity e w = (Inr (), w') \<and> world_wf w' \<and> entity_at w' = (entity_at w)(en_ID e \<mapsto> e)"
proof -
  let ?w0 = "ensureGridLocked (en_Map e) w"
  have wf0: "world_wf ?w0"
    by (rule ensure_wf [OF wf])
  obtain g where g: "w_grids ?w0 (en_Map e) = Some g"
    using ensure_simps(2) by blast
  have "entity_at ?w0 (en_ID e) = None"
    using free by simp
  from wf_place [OF wf0 this refl g pos] obtain g' where
      g': "aoi_AddEntity (aoi_at (en_ID e) (en_Pos e)) g = (Inr (), g')"
        "world_wf (?w0\<lparr>w_entities := AList.update (en_ID e) e (w_entities ?w0), w_grids := (w_grids ?w0)(en_Map e \<mapsto> g'),
           w_byMap := (w_byMap ?w0)(en_Map e := set_add (en_ID e) (w_byMap ?w0 (en_Map e)))\<rparr>)"
    by blast
  then show ?thesis
    using free g by (simp add: w_AddEntity_def Let_def ensure_put)
qed

lemma on_grid_entities [simp]: "w_entities (on_grid m f w) = w_entities w" "w_byMap (on_grid m f w) = w_byMap w"
  "w_events (on_grid m f w) = w_events w"
  by (simp_all add: on_grid_def split: option.split)

lemma remove_entity_ok:
  assumes wf: "world_wf w" and e: "entity_at w i = Some e"
  shows "\<exists>w'. w_RemoveEntity i w = (Inr (), w') \<and> world_wf w' \<and> entity_at w' = (entity_at w)(i := None) \<and>
    w_events w' = w_events w"
proof -
  obtain g where g: "w_grids w (en_Map e) = Some g"
    using world_wfD(2) [OF wf e] by auto
  note gw = world_wfD(3) [OF wf g]
  have "entities g i = Some (aoi_at i (en_Pos e))"
    using gw e by (simp add: on_map_Some)
  then obtain g' where g': "aoi_RemoveEntity i g = (Inr (), g')" "grid_wf g'" "same_map g g'"
      "entities g' = (entities g)(i := None)"
    using remove_exact [of g i] gw by auto
  let ?w = "w\<lparr>w_entities := AList.delete i (w_entities w),
    w_byMap := (w_byMap w)(en_Map e := map_option (removeAll i) (w_byMap w (en_Map e))),
    w_grids := (w_grids w)(en_Map e \<mapsto> g')\<rparr>"
  have run: "w_RemoveEntity i w = (Inr (), ?w)"
    using e g g'(1) by (simp add: w_RemoveEntity_def Let_def on_grid_def)
  have om: "on_map ?w m = (on_map w m)(i := None)" for m
    by (simp add: fun_eq_iff on_map_def)
  have else_none: "on_map w m i = None" if "m \<noteq> en_Map e" for m
    using e that by (simp add: on_map_def)
  have "world_wf ?w"
  proof (rule world_wfI, goal_cases)
    case 1
    then show ?case
      using world_wfD(1) [OF wf] by simp
  next
    case (2 j a)
    then show ?case
      using world_wfD(2) [OF wf, of j a] by (auto split: if_splits)
  next
    case (3 m h)
    then show ?case
      using world_wfD(3) [OF wf, of m h] g'(2-4) gw else_none [of m]
      by (auto simp: om same_map_def fun_eq_iff split: if_splits)
  next
    case (4 m)
    then show ?case
      using world_wfD(4) [OF wf, of m] world_wfD(4) [OF wf, of "en_Map e"] g by (auto split: if_splits)
  next
    case (5 m t)
    then show ?case
      using world_wfD(5) [OF wf, of m] else_none [of m] by (auto simp: om split: if_splits)
  qed
  then show ?thesis
    using run by simp
qed

text \<open>What the grids show, while an operation is under way.\<close>

definition grids_show :: "world \<Rightarrow> (string \<Rightarrow> u32 \<Rightarrow> aoi_entity option) \<Rightarrow> bool" where
  "grids_show w pl \<longleftrightarrow> (\<forall>m g. w_grids w m = Some g \<longrightarrow>
     grid_wf g \<and> gm_width g = 512 \<and> gm_height g = 512 \<and> entities g = pl m)"

lemma grids_show_wf: "world_wf w \<Longrightarrow> grids_show w (on_map w)"
  unfolding grids_show_def by (blast dest: world_wfD(3))

lemma grids_show_upd [simp]:
  "grids_show (w\<lparr>w_entities := a\<rparr>) pl = grids_show w pl" "grids_show (w\<lparr>w_byMap := b\<rparr>) pl = grids_show w pl"
  "grids_show (w\<lparr>w_events := c\<rparr>) pl = grids_show w pl"
  by (simp_all add: grids_show_def)

lemma grids_show_remove:
  assumes "grids_show w pl"
  shows "grids_show (on_grid m (aoi_RemoveEntity i) w) (pl(m := (pl m)(i := None)))"
proof (cases "w_grids w m")
  case (Some g)
  have g: "grid_wf g" "gm_width g = 512" "gm_height g = 512" "entities g = pl m"
    using assms Some by (auto simp: grids_show_def)
  have "grid_wf (snd (aoi_RemoveEntity i g)) \<and> same_map g (snd (aoi_RemoveEntity i g)) \<and>
      entities (snd (aoi_RemoveEntity i g)) = (pl m)(i := None)"
    using remove_exact [OF g(1), of i] g by (auto simp: same_map_def fun_upd_idem split: if_splits)
  then show ?thesis
    using assms Some g by (auto simp: grids_show_def on_grid_def same_map_def)
qed (use assms in \<open>auto simp: grids_show_def on_grid_def\<close>)

lemma grids_show_add:
  assumes "grids_show w pl" and "w_grids w m = Some g" and "pl m i = None" and "on_canvas p"
  shows "\<exists>g'. aoi_AddEntity (aoi_at i p) g = (Inr (), g') \<and>
    grids_show (w\<lparr>w_grids := (w_grids w)(m \<mapsto> g')\<rparr>) (pl(m := (pl m)(i \<mapsto> aoi_at i p)))"
proof -
  have g: "grid_wf g" "gm_width g = 512" "gm_height g = 512" "entities g = pl m"
    using assms by (auto simp: grids_show_def)
  have inb: "inBounds g (pos_X p) (pos_Y p)"
    using canvas_bounds [OF g(2,3)] assms(4) by simp
  then obtain g' where g': "aoi_AddEntity (aoi_at i p) g = (Inr (), g')" "grid_wf g'" "same_map g g'"
      "entities g' = (entities g)(i \<mapsto> aoi_at i p)"
    using add_exact [OF g(1), of "aoi_at i p"] g(4) assms(3) by auto
  then show ?thesis
    using assms(1) g by (auto simp: grids_show_def same_map_def)
qed

lemma on_grid_None [simp]: "w_grids (on_grid m f w) m' = None \<longleftrightarrow> w_grids w m' = None"
  by (simp add: on_grid_def split: option.split)

text \<open>Reseating a registered entity: new row \<open>e'\<close>, per-map sets and grids follow.\<close>

lemma wf_reseat:
  assumes wf: "world_wf w" and e: "entity_at w i = Some e" and i: "en_ID e' = i"
    and ents: "w_entities w' = AList.update i e' (w_entities w)"
    and grids: "\<And>m. w_grids w' m = None \<longleftrightarrow> w_grids w m = None" "w_grids w (en_Map e') \<noteq> None"
    and show_: "grids_show w' pl"
    and pl: "\<And>m. pl m = (on_map w m)(i := if en_Map e' = m then Some (aoi_at i (en_Pos e')) else None)"
    and sets: "\<And>m. w_byMap w' m = map_option (\<lambda>s. if en_Map e' = m then List.insert i s else removeAll i s) (w_byMap w m)"
  shows "world_wf w'"
proof -
  have at: "entity_at w' j = (if j = i then Some e' else entity_at w j)" for j
    by (simp add: ents)
  have om: "on_map w' m = pl m" for m
    by (simp add: pl fun_eq_iff on_map_def at)
  show ?thesis
  proof (rule world_wfI, goal_cases)
    case 1
    then show ?case
      using world_wfD(1) [OF wf] by (simp add: ents)
  next
    case (2 j a)
    then show ?case
      using world_wfD(2) [OF wf, of j a] i grids by (auto simp: at split: if_splits)
  next
    case (3 m g)
    then show ?case
      using show_ by (simp add: grids_show_def om)
  next
    case (4 m)
    then show ?case
      using world_wfD(4) [OF wf, of m] grids(1) by (simp add: sets)
  next
    case (5 m t)
    then obtain s where s: "w_byMap w m = Some s" "t = (if en_Map e' = m then List.insert i s else removeAll i s)"
      by (auto simp: sets)
    then show ?case
      using world_wfD(5) [OF wf s(1)] grids(1) [of m] by (auto simp: om pl)
  qed
qed

lemma move_entity_ok:
  assumes wf: "world_wf w" and e: "entity_at w i = Some e" and pos: "on_canvas p"
  shows "\<exists>w'. w_MoveEntity i p w = (Inr (), w') \<and> world_wf w' \<and>
    entity_at w' = (entity_at w)(i \<mapsto> e\<lparr>en_Pos := p\<rparr>)"
proof -
  let ?e = "e\<lparr>en_Pos := p\<rparr>" and ?m = "en_Map e"
  let ?w1 = "on_grid ?m (aoi_RemoveEntity i) (put_entity i ?e w)"
  obtain g where "w_grids w ?m = Some g"
    using world_wfD(2) [OF wf e] by auto
  then obtain g1 where g1: "w_grids ?w1 ?m = Some g1"
    by (simp add: on_grid_def)
  have "grids_show (put_entity i ?e w) (on_map w)"
    using grids_show_wf [OF wf] by simp
  from grids_show_remove [OF this, of ?m i] have s1: "grids_show ?w1 ((on_map w)(?m := (on_map w ?m)(i := None)))" .
  from grids_show_add [OF s1 g1 _ pos, of i] obtain g2 where
    g2: "aoi_AddEntity (aoi_at i p) g1 = (Inr (), g2)"
      "grids_show (?w1\<lparr>w_grids := (w_grids ?w1)(?m \<mapsto> g2)\<rparr>) ((on_map w)(?m := (on_map w ?m)(i \<mapsto> aoi_at i p)))"
    by auto
  have run: "w_MoveEntity i p w = (Inr (), ?w1\<lparr>w_grids := (w_grids ?w1)(?m \<mapsto> g2)\<rparr>)"
    using e g1 g2(1) by (simp add: w_MoveEntity_def Let_def on_grid_def [of ?m "aoi_AddEntity (aoi_at i p)"])
  have "world_wf (?w1\<lparr>w_grids := (w_grids ?w1)(?m \<mapsto> g2)\<rparr>)"
  proof (rule wf_reseat [where e' = ?e, OF wf e _ _ _ _ g2(2)], goal_cases)
    case (5 m)
    then show ?case
      using e by (auto simp: fun_eq_iff on_map_def)
  next
    case (6 m)
    show ?case
    proof (cases "w_byMap w m")
      case (Some s)
      then have "i \<in> set s \<longleftrightarrow> ?m = m"
        using world_wfD(5) [OF wf Some] e by (auto simp: on_map_Some)
      then show ?thesis
        using Some by (auto simp: List.insert_def)
    qed simp
  qed (use world_wfD(2) [OF wf e] g1 in \<open>auto simp: on_grid_def split: option.split\<close>)
  then show ?thesis
    using run by simp
qed

lemma ensure_byMap: "world_wf w \<Longrightarrow> \<exists>s. w_byMap (ensureGridLocked m w) m = Some s"
  using wf_byMap_grid [OF ensure_wf, of w m] ensure_simps(2) by blast

lemma respawn_ok:
  assumes wf: "world_wf w" and e: "entity_at w i = Some e"
    and save: "m = (if en_SaveMap e = [] then en_Map e else en_SaveMap e)"
      "p = (if en_SaveMap e = [] then en_Pos e else en_SavePos e)"
    and pos: "on_canvas p"
  shows "\<exists>w'. RespawnPlayer i w = (Inr (), w') \<and> world_wf w' \<and>
    entity_at w' = (entity_at w)(i \<mapsto> e\<lparr>en_Map := m, en_Pos := p,
      en_HP := applyPctHeal 0 (en_MaxHP e) 100, en_SP := applyPctHeal 0 (en_MaxSP e) 100\<rparr>)"
proof -
  let ?e = "e\<lparr>en_Map := m, en_Pos := p, en_HP := applyPctHeal 0 (en_MaxHP e) 100,
    en_SP := applyPctHeal 0 (en_MaxSP e) 100\<rparr>"
  let ?o = "en_Map e"
  let ?w1 = "ensureGridLocked m w"
  have wf1: "world_wf ?w1"
    by (rule ensure_wf [OF wf])
  have e1: "entity_at ?w1 i = Some e" and ei: "en_ID e = i"
    using e world_wfD(2) [OF wf e] by auto
  let ?sets = "\<lambda>k. map_option (\<lambda>s. if m = k then List.insert i s else removeAll i s) (w_byMap ?w1 k)"
  let ?b2 = "if m \<noteq> ?o then (w_byMap ?w1)(?o := map_option (removeAll i) (w_byMap ?w1 ?o)) else w_byMap ?w1"
  let ?b3 = "?b2(m := set_add i (?b2 m))"
  let ?w4 = "put_entity i ?e (?w1\<lparr>w_byMap := ?b3\<rparr>)"
  let ?w5 = "on_grid m (aoi_RemoveEntity i) (on_grid ?o (aoi_RemoveEntity i) ?w4)"
  let ?pl = "(on_map ?w1)(?o := (on_map ?w1 ?o)(i := None))"
  obtain g where g: "w_grids ?w5 m = Some g"
    using ensure_simps(2) [of m w] on_grid_None [of m _ _ m] by fastforce
  have "grids_show ?w4 (on_map ?w1)"
    using grids_show_wf [OF wf1] by simp
  from grids_show_remove [OF grids_show_remove [OF this, of ?o i], of m i]
  have s5: "grids_show ?w5 (?pl(m := (?pl m)(i := None)))" .
  from grids_show_add [OF s5 g _ pos, of i] obtain g' where
    g': "aoi_AddEntity (aoi_at i p) g = (Inr (), g')"
      "grids_show (?w5\<lparr>w_grids := (w_grids ?w5)(m \<mapsto> g')\<rparr>) (?pl(m := (?pl m)(i \<mapsto> aoi_at i p)))"
    by auto
  let ?w6 = "?w5\<lparr>w_grids := (w_grids ?w5)(m \<mapsto> g')\<rparr>"
  have run: "RespawnPlayer i w = (Inr (), emit (OnRespawn i) (emit (OnStatChange i (en_HP ?e) (en_SP ?e)) ?w6))"
    using e g g'(1) ei
    by (cases "m = ?o") (simp_all add: RespawnPlayer_def Let_def respawnRevivePct_def save [symmetric])
  have set_iff: "i \<in> set s \<longleftrightarrow> ?o = k" if "w_byMap ?w1 k = Some s" for k s
    using world_wfD(5) [OF wf1 that] e by (auto simp: on_map_Some)
  have b3: "?b3 k = ?sets k" for k
  proof (cases "w_byMap ?w1 k")
    case None
    then show ?thesis by (auto simp: set_add_def)
  next
    case (Some s)
    then show ?thesis
      using set_iff [OF Some] by (auto simp: set_add_def)
  qed
  have "world_wf (emit (OnRespawn i) (emit (OnStatChange i (en_HP ?e) (en_SP ?e)) ?w6))"
  proof (rule wf_reseat [OF wf1 e1, where e' = ?e and pl = "?pl(m := (?pl m)(i \<mapsto> aoi_at i p))"], goal_cases)
    case (3 k)
    then show ?case
      using g by (auto simp: on_grid_None)
  next
    case (6 k)
    then show ?case
      using e by (auto simp: fun_eq_iff on_map_def)
  next
    case (7 k)
    then show ?case
      using b3 [of k] by simp
  qed (use ei g'(2) in \<open>simp_all del: fun_upd_apply\<close>)
  then show ?thesis
    using run by simp
qed

text \<open>A visibility query names exactly the registered entities of the map within 15 cells.\<close>

lemma visible_exact:
  assumes wf: "world_wf w" and g: "w_grids w m \<noteq> None" and xy: "0 \<le> x" "x < 512" "0 \<le> y" "y < 512"
  shows "set (w_QueryVisible m x y w) = {i. \<exists>e. entity_at w i = Some e \<and> en_Map e = m \<and>
    \<bar>pos_X (en_Pos e) - x\<bar> \<le> 15 \<and> \<bar>pos_Y (en_Pos e) - y\<bar> \<le> 15}"
proof -
  obtain g where g: "w_grids w m = Some g"
    using assms(2) by auto
  note gw = world_wfD(3) [OF wf g]
  have "inBounds g x y"
    using gw xy by (simp add: inBounds_def)
  then have "set (QueryVisible g x y) = {a \<in> ran (on_map w m). \<bar>ae_X a - x\<bar> \<le> 15 \<and> \<bar>ae_Y a - y\<bar> \<le> 15}"
    using query_exact [of g x y 15] gw by (simp add: QueryVisible_def DefaultBroadcastRadius_def)
  then have "set (w_QueryVisible m x y w) = ae_ID ` {a. (\<exists>i. on_map w m i = Some a) \<and> \<bar>ae_X a - x\<bar> \<le> 15 \<and> \<bar>ae_Y a - y\<bar> \<le> 15}"
    by (simp add: w_QueryVisible_def g ran_def)
  also have "\<dots> = {i. \<exists>a. on_map w m i = Some a \<and> \<bar>ae_X a - x\<bar> \<le> 15 \<and> \<bar>ae_Y a - y\<bar> \<le> 15}"
  proof -
    have "ae_ID a = i" if "on_map w m i = Some a" for i a
      using that by (auto simp: on_map_Some)
    then show ?thesis by blast
  qed
  also have "\<dots> = {i. \<exists>e. entity_at w i = Some e \<and> en_Map e = m \<and>
      \<bar>pos_X (en_Pos e) - x\<bar> \<le> 15 \<and> \<bar>pos_Y (en_Pos e) - y\<bar> \<le> 15}"
    by (auto simp: on_map_Some)
  finally show ?thesis .
qed

section \<open>Vitals stay in range\<close>

lemma applyPctHeal_range:
  assumes "in_i32 m"
  shows "0 \<le> applyPctHeal cur m r \<and> applyPctHeal cur m r \<le> max 0 m"
proof -
  let ?v = "cur + go_div ((if (if r < 0 then 0 else r) > 100 then 100 else (if r < 0 then 0 else r)) * m) 100"
  have "i32 ?v = ?v" if "0 \<le> ?v" "?v \<le> m"
    using that assms by (intro i32_id) (auto simp: in_i32_def)
  then show ?thesis
    by (auto simp: applyPctHeal_def Let_def simp del: split_paired_All)
qed

lemma clampVitals_range:
  assumes "in_i32 m"
  shows "0 \<le> clampVitals cur d m \<and> clampVitals cur d m \<le> max 0 m"
proof -
  have "i32 (cur + d) = cur + d" if "0 \<le> cur + d" "cur + d \<le> m"
    using that assms by (intro i32_id) (auto simp: in_i32_def)
  then show ?thesis
    by (auto simp: clampVitals_def Let_def)
qed

lemma applyPctHeal_full: "in_i32 m \<Longrightarrow> applyPctHeal 0 m 100 = max 0 m"
  by (auto simp: applyPctHeal_def Let_def go_div_nonneg i32_id)

section \<open>Reachable registries\<close>

text \<open>Changing fields of an entity other than its id, map and position keeps the placement.\<close>

lemma wf_touch:
  assumes wf: "world_wf w" and e: "entity_at w i = Some e"
    and same: "en_ID e' = en_ID e" "en_Map e' = en_Map e" "en_Pos e' = en_Pos e"
  shows "world_wf (put_entity i e' w)"
proof -
  have at: "entity_at (put_entity i e' w) j = (if j = i then Some e' else entity_at w j)" for j
    by simp
  have om: "on_map (put_entity i e' w) m = on_map w m" for m
    using e same by (auto simp: fun_eq_iff on_map_def)
  show ?thesis
  proof (rule world_wfI, goal_cases)
    case 1
    then show ?case
      using world_wfD(1) [OF wf] by simp
  next
    case (2 j a)
    then show ?case
      using world_wfD(2) [OF wf, of j] world_wfD(2) [OF wf e] same unfolding at by (auto split: if_splits)
  next
    case (3 m g)
    then show ?case
      using world_wfD(3) [OF wf, of m g] unfolding om by simp
  next
    case (4 m)
    then show ?case
      using world_wfD(4) [OF wf, of m] by simp
  next
    case (5 m s)
    then show ?case
      using world_wfD(5) [OF wf, of m s] unfolding om by simp
  qed
qed

lemma wf_emit [simp]: "world_wf (w\<lparr>w_events := c\<rparr>) = world_wf w"
  by (simp add: world_wf_def)

text \<open>One call of the service; positions are on the 512 by 512 canvas the service creates.\<close>

inductive world_step :: "world \<Rightarrow> world \<Rightarrow> bool" where
  ws_add: "on_canvas (en_Pos e) \<Longrightarrow> w_AddEntity e w = (r, w') \<Longrightarrow> world_step w w'"
| ws_remove: "w_RemoveEntity i w = (r, w') \<Longrightarrow> world_step w w'"
| ws_move: "on_canvas p \<Longrightarrow> w_MoveEntity i p w = (r, w') \<Longrightarrow> world_step w w'"
| ws_sit: "SetSitting i b w = (r, w') \<Longrightarrow> world_step w w'"
| ws_face: "SetFacing i d h w = (r, w') \<Longrightarrow> world_step w w'"
| ws_heal: "HealPlayer i a b w = (h, w') \<Longrightarrow> world_step w w'"
| ws_vitals: "AddVitals i a b w = (h, w') \<Longrightarrow> world_step w w'"
| ws_stat: "AllocateStat i st w = (x, w') \<Longrightarrow> world_step w w'"
| ws_skill: "w_LearnSkill i k l w = (r, w') \<Longrightarrow> world_step w w'"
| ws_respawn: "entity_at w i = Some e \<Longrightarrow> on_canvas (if en_SaveMap e = [] then en_Pos e else en_SavePos e) \<Longrightarrow>
    RespawnPlayer i w = (r, w') \<Longrightarrow> world_step w w'"

lemma stat_put_same [simp]:
  "en_ID (stat_put st v e) = en_ID e" "en_Map (stat_put st v e) = en_Map e" "en_Pos (stat_put st v e) = en_Pos e"
  by (simp_all add: stat_put_def)

lemma step_wf [inv_intro]: "world_step w w' \<Longrightarrow> world_wf w \<Longrightarrow> world_wf w'"
proof (induction rule: world_step.induct)
  case (ws_add e w r w')
  then show ?case
    using add_entity_ok [of w e] by (cases "entity_at w (en_ID e)") (auto simp: w_AddEntity_def)
next
  case (ws_remove i w r w')
  then show ?case
    using remove_entity_ok [of w i] by (cases "entity_at w i") (auto simp: w_RemoveEntity_def)
next
  case (ws_move p i w r w')
  then show ?case
    using move_entity_ok [of w i _ p] by (cases "entity_at w i") (auto simp: w_MoveEntity_def)
next
  case (ws_sit i b w r w')
  then show ?case
    by (auto simp: SetSitting_def split: option.splits intro: wf_touch)
next
  case (ws_face i d h w r w')
  then show ?case
    by (auto simp: SetFacing_def split: option.splits intro: wf_touch)
next
  case (ws_heal i a b w h w')
  then show ?case
    by (auto simp: HealPlayer_def Let_def split: option.splits intro: wf_touch)
next
  case (ws_vitals i a b w h w')
  then show ?case
    by (auto simp: AddVitals_def Let_def split: option.splits intro!: wf_touch)
next
  case (ws_stat i st w x w')
  then show ?case
    by (auto simp: AllocateStat_def Let_def split: option.splits if_splits intro!: wf_touch)
next
  case (ws_skill i k l w r w')
  then show ?case
    by (auto simp: w_LearnSkill_def split: option.splits if_splits intro!: wf_touch)
next
  case (ws_respawn w i e r w')
  then show ?case
    using respawn_ok [OF _ ws_respawn(1) refl refl] by auto
qed

section \<open>What the grids show, wherever entities stand\<close>

text \<open>
  A refused registration leaves an entity in the registry that no grid holds, and a move or a respawn may leave the canvas.
  What survives every call is that the grid of a map holds exactly its registered entities that stand on the canvas.
\<close>

definition shown :: "world \<Rightarrow> string \<Rightarrow> u32 \<Rightarrow> aoi_entity option" where
  "shown w m i = (case entity_at w i of
     None \<Rightarrow> None | Some e \<Rightarrow> if en_Map e = m \<and> on_canvas (en_Pos e) then Some (aoi_at i (en_Pos e)) else None)"

definition grids_wf :: "world \<Rightarrow> bool" where
  "grids_wf w \<longleftrightarrow> (\<forall>i e. entity_at w i = Some e \<longrightarrow> en_ID e = i \<and> w_grids w (en_Map e) \<noteq> None) \<and> grids_show w (shown w)"

lemma shown_cong: "entity_at w' = entity_at w \<Longrightarrow> shown w' = shown w"
  by (simp add: fun_eq_iff shown_def)

lemma grids_wfD:
  assumes "grids_wf w"
  shows "entity_at w i = Some e \<Longrightarrow> en_ID e = i \<and> w_grids w (en_Map e) \<noteq> None" and "grids_show w (shown w)"
  using assms by (auto simp: grids_wf_def)

lemma new_grids_wf: "grids_wf NewWorldService"
  by (simp add: grids_wf_def grids_show_def NewWorldService_def)

text \<open>Entity \<open>i\<close> off all grids, and then on the grid of map \<open>k\<close> if it stands on the canvas.\<close>

abbreviation without :: "(string \<Rightarrow> u32 \<Rightarrow> aoi_entity option) \<Rightarrow> u32 \<Rightarrow> string \<Rightarrow> u32 \<Rightarrow> aoi_entity option" where
  "without pl i \<equiv> \<lambda>m. (pl m)(i := None)"

abbreviation placed ::
  "(string \<Rightarrow> u32 \<Rightarrow> aoi_entity option) \<Rightarrow> u32 \<Rightarrow> string \<Rightarrow> position \<Rightarrow> string \<Rightarrow> u32 \<Rightarrow> aoi_entity option" where
  "placed pl i k p \<equiv> \<lambda>m. (pl m)(i := if k = m \<and> on_canvas p then Some (aoi_at i p) else None)"

lemma show_lifted:
  assumes "grids_show w (shown w0)" and "entity_at w0 i = Some e"
  shows "grids_show (on_grid (en_Map e) (aoi_RemoveEntity i) w) (without (shown w0) i)"
proof -
  have "(shown w0)(en_Map e := (shown w0 (en_Map e))(i := None)) = without (shown w0) i"
    using assms(2) by (auto simp: fun_eq_iff shown_def)
  then show ?thesis
    using grids_show_remove [OF assms(1), of "en_Map e" i] by simp
qed

lemma show_lifted_again:
  "grids_show w (without pl i) \<Longrightarrow> grids_show (on_grid k (aoi_RemoveEntity i) w) (without pl i)"
  using grids_show_remove [of w "without pl i" k i] by (simp add: fun_upd_idem)

lemma show_placed:
  assumes sh: "grids_show w (without pl i)" and g: "w_grids w k = Some g"
  shows "grids_show (w\<lparr>w_grids := (w_grids w)(k \<mapsto> snd (aoi_AddEntity (aoi_at i p) g))\<rparr>) (placed pl i k p)"
proof (cases "on_canvas p")
  case True
  have "(without pl i)(k := (without pl i k)(i \<mapsto> aoi_at i p)) = placed pl i k p"
    using True by (auto simp: fun_eq_iff)
  then show ?thesis
    using grids_show_add [OF sh g _ True, of i] by auto
next
  case False
  have "gm_width g = 512" "gm_height g = 512"
    using sh g by (auto simp: grids_show_def)
  then have "\<not> inBounds g (pos_X p) (pos_Y p)"
    using False canvas_bounds by blast
  then have "aoi_AddEntity (aoi_at i p) g = (Inl ErrAoiOutOfBounds, g)"
    by (simp add: aoi_AddEntity_def)
  then show ?thesis
    using sh g False by (simp add: fun_upd_idem)
qed

lemma grids_wf_reseat:
  assumes "grids_wf w" and "en_ID e' = i" and "entity_at w' = (entity_at w)(i \<mapsto> e')"
    and "\<And>m. w_grids w m \<noteq> None \<Longrightarrow> w_grids w' m \<noteq> None" and "w_grids w' (en_Map e') \<noteq> None"
    and "grids_show w' (placed (shown w) i (en_Map e') (en_Pos e'))"
  shows "grids_wf w'"
proof -
  have "shown w' = placed (shown w) i (en_Map e') (en_Pos e')"
    using assms(3) by (auto simp: fun_eq_iff shown_def)
  moreover have "en_ID e = j \<and> w_grids w' (en_Map e) \<noteq> None" if "entity_at w' j = Some e" for j e
    using that assms(2-5) grids_wfD(1) [OF assms(1), of j e] by (cases "j = i") auto
  ultimately show ?thesis
    using assms(6) by (simp add: grids_wf_def)
qed

lemma grids_wf_touch:
  assumes wf: "grids_wf w" and e: "entity_at w i = Some e"
    and same: "en_ID e' = en_ID e" "en_Map e' = en_Map e" "en_Pos e' = en_Pos e"
    and w': "entity_at w' = (entity_at w)(i \<mapsto> e')" "w_grids w' = w_grids w"
  shows "grids_wf w'"
proof -
  have "placed (shown w) i (en_Map e') (en_Pos e') = shown w"
    using e same by (auto simp: fun_eq_iff shown_def)
  moreover have "grids_show w' pl = grids_show w pl" for pl
    using w'(2) by (simp add: grids_show_def)
  ultimately show ?thesis
    using grids_wfD [OF wf] e same w' by (intro grids_wf_reseat [OF wf, of e' i]) auto
qed

lemma grids_wf_put:
  "grids_wf w \<Longrightarrow> entity_at w i = Some e \<Longrightarrow> en_ID e' = en_ID e \<Longrightarrow> en_Map e' = en_Map e \<Longrightarrow> en_Pos e' = en_Pos e \<Longrightarrow>
    grids_wf (put_entity i e' w)"
  by (rule grids_wf_touch) auto

lemma grids_wf_ensure:
  assumes wf: "grids_wf w"
  shows "grids_wf (ensureGridLocked m w)"
proof (cases "w_grids w m")
  case None
  then have "shown w m = Map.empty"
    using grids_wfD(1) [OF wf] by (fastforce simp: fun_eq_iff shown_def split: option.split)
  moreover have "shown (ensureGridLocked m w) = shown w"
    by (rule shown_cong) simp
  ultimately show ?thesis
    using wf None by (auto simp: grids_wf_def grids_show_def ensureGridLocked_def)
qed (use wf in \<open>simp add: ensureGridLocked_def\<close>)

lemma ensure_keeps_grids: "w_grids w k \<noteq> None \<Longrightarrow> w_grids (ensureGridLocked m w) k \<noteq> None"
  by (auto simp: ensureGridLocked_def split: option.split)

lemma add_entity_grids: "grids_wf w \<Longrightarrow> grids_wf (snd (w_AddEntity e w))"
proof (cases "entity_at w (en_ID e)")
  case None
  assume wf: "grids_wf w"
  let ?i = "en_ID e" and ?m = "en_Map e"
  let ?w0 = "ensureGridLocked ?m w"
  note wf0 = grids_wf_ensure [OF wf, of ?m]
  obtain g where g: "w_grids ?w0 ?m = Some g"
    using ensure_simps(2) by blast
  let ?w1 = "put_entity ?i e ?w0"
  have "without (shown ?w0) ?i = shown ?w0"
    using None by (auto simp: fun_eq_iff shown_def)
  then have sh: "grids_show ?w1 (without (shown ?w0) ?i)"
    using grids_wfD(2) [OF wf0] by simp
  have g1: "w_grids ?w1 ?m = Some g"
    using g by simp
  let ?w2 = "?w1\<lparr>w_grids := (w_grids ?w1)(?m \<mapsto> snd (aoi_AddEntity (aoi_at ?i (en_Pos e)) g))\<rparr>"
  note s2 = show_placed [OF sh g1, of "en_Pos e"]
  have wf2: "grids_wf w'" if "w_entities w' = w_entities ?w2" "w_grids w' = w_grids ?w2" for w'
  proof (rule grids_wf_reseat [OF wf0, of e ?i])
    show "grids_show w' (placed (shown ?w0) ?i ?m (en_Pos e))"
      using s2 that(2) by (simp add: grids_show_def)
  qed (use that in auto)
  have "w_entities (snd (w_AddEntity e w)) = w_entities ?w2 \<and> w_grids (snd (w_AddEntity e w)) = w_grids ?w2"
    using None g by (cases "aoi_AddEntity (aoi_at ?i (en_Pos e)) g"; cases "fst (aoi_AddEntity (aoi_at ?i (en_Pos e)) g)")
      (simp_all add: w_AddEntity_def Let_def ensure_put)
  then show ?thesis
    using wf2 by blast
qed (simp add: w_AddEntity_def)

lemma remove_entity_grids: "grids_wf w \<Longrightarrow> grids_wf (snd (w_RemoveEntity i w))"
proof (cases "entity_at w i")
  case (Some e)
  assume wf: "grids_wf w"
  let ?w1 = "w\<lparr>w_entities := AList.delete i (w_entities w),
    w_byMap := (w_byMap w)(en_Map e := map_option (removeAll i) (w_byMap w (en_Map e)))\<rparr>"
  let ?w2 = "on_grid (en_Map e) (aoi_RemoveEntity i) ?w1"
  have "grids_show ?w1 (shown w)"
    using grids_wfD(2) [OF wf] by simp
  from show_lifted [OF this Some] have "grids_show ?w2 (without (shown w) i)" .
  moreover have "shown ?w2 = without (shown w) i"
    by (auto simp: fun_eq_iff shown_def)
  ultimately have "grids_wf ?w2"
    using grids_wfD(1) [OF wf] by (auto simp: grids_wf_def split: if_splits)
  then show ?thesis
    using Some by (simp add: w_RemoveEntity_def Let_def)
qed (simp add: w_RemoveEntity_def)

lemma on_grid_Some: "w_grids w k = Some g \<Longrightarrow> on_grid k f w = w\<lparr>w_grids := (w_grids w)(k \<mapsto> snd (f g))\<rparr>"
  by (simp add: on_grid_def)

text \<open>An entity that leaves its old grid for a map that has one, whether the new cell is on the canvas or not.\<close>

lemma grids_wf_moved:
  assumes wf: "grids_wf w" and e: "entity_at w i = Some e" and k: "w_grids w k \<noteq> None"
    and e': "en_ID e' = i" "en_Map e' = k" "en_Pos e' = p"
    and w1: "entity_at w1 = (entity_at w)(i \<mapsto> e')" "w_grids w1 = w_grids w"
  shows "grids_wf (on_grid k (aoi_AddEntity (aoi_at i p)) (on_grid (en_Map e) (aoi_RemoveEntity i) w1))"
    and "grids_wf (on_grid k (aoi_AddEntity (aoi_at i p)) (on_grid k (aoi_RemoveEntity i) (on_grid (en_Map e) (aoi_RemoveEntity i) w1)))"
proof -
  have main: "grids_wf (on_grid k (aoi_AddEntity (aoi_at i p)) w2)"
    if sh: "grids_show w2 (without (shown w) i)" and w2: "w_entities w2 = w_entities w1" "\<And>m. w_grids w2 m = None \<longleftrightarrow> w_grids w1 m = None" for w2
  proof -
    obtain g where g: "w_grids w2 k = Some g"
      using k w2(2) [of k] w1(2) by auto
    show ?thesis
    proof (rule grids_wf_reseat [OF wf e'(1)])
      show "grids_show (on_grid k (aoi_AddEntity (aoi_at i p)) w2) (placed (shown w) i (en_Map e') (en_Pos e'))"
        unfolding on_grid_Some [OF g] e'(2,3) by (rule show_placed [OF sh g])
    qed (use w1 w2 k e' in auto)
  qed
  have "grids_show w1 (shown w)"
    using grids_wfD(2) [OF wf] w1(2) by (simp add: grids_show_def)
  note sh = show_lifted [OF this e]
  show "grids_wf (on_grid k (aoi_AddEntity (aoi_at i p)) (on_grid (en_Map e) (aoi_RemoveEntity i) w1))"
    by (rule main [OF sh]) simp_all
  show "grids_wf (on_grid k (aoi_AddEntity (aoi_at i p)) (on_grid k (aoi_RemoveEntity i) (on_grid (en_Map e) (aoi_RemoveEntity i) w1)))"
    by (rule main [OF show_lifted_again [OF sh]]) simp_all
qed

lemma move_entity_grids: "grids_wf w \<Longrightarrow> grids_wf (snd (w_MoveEntity i p w))"
proof (cases "entity_at w i")
  case (Some e)
  assume wf: "grids_wf w"
  have "grids_wf (on_grid (en_Map e) (aoi_AddEntity (aoi_at i p)) (on_grid (en_Map e) (aoi_RemoveEntity i)
      (put_entity i (e\<lparr>en_Pos := p\<rparr>) w)))"
    by (rule grids_wf_moved(1) [OF wf Some, where e' = "e\<lparr>en_Pos := p\<rparr>"]) (use grids_wfD(1) [OF wf Some] in simp_all)
  then show ?thesis
    by (simp only: w_MoveEntity_def Some option.case Let_def snd_conv)
qed (simp add: w_MoveEntity_def)

lemma grids_wf_same: "grids_wf w \<Longrightarrow> entity_at w' = entity_at w \<Longrightarrow> w_grids w' = w_grids w \<Longrightarrow> grids_wf w'"
  using shown_cong [of w' w] by (simp add: grids_wf_def grids_show_def)

lemma grids_wf_emit [simp]: "grids_wf (w\<lparr>w_events := c\<rparr>) = grids_wf w"
proof -
  have "shown (w\<lparr>w_events := c\<rparr>) = shown w"
    by (rule shown_cong) simp
  then show ?thesis
    by (simp add: grids_wf_def)
qed

lemma respawn_grids: "grids_wf w \<Longrightarrow> grids_wf (snd (RespawnPlayer i w))"
proof (cases "entity_at w i")
  case (Some e)
  assume wf: "grids_wf w"
  define k where "k = (if en_SaveMap e = [] then en_Map e else en_SaveMap e)"
  define p where "p = (if en_SaveMap e = [] then en_Pos e else en_SavePos e)"
  let ?e = "e\<lparr>en_Map := k, en_Pos := p, en_HP := applyPctHeal 0 (en_MaxHP e) 100, en_SP := applyPctHeal 0 (en_MaxSP e) 100\<rparr>"
  let ?w1 = "ensureGridLocked k w"
  note wf1 = grids_wf_ensure [OF wf, of k]
  obtain w3 where w3: "w_entities w3 = w_entities ?w1" "w_grids w3 = w_grids ?w1"
      and run: "RespawnPlayer i w =
        (let w5 = on_grid k (aoi_RemoveEntity i) (on_grid (en_Map e) (aoi_RemoveEntity i) (put_entity i ?e w3))
         in case aoi_AddEntity (aoi_at i p) (the (w_grids w5 k)) of
              (Inl er, g) \<Rightarrow> (Inl er, w5\<lparr>w_grids := (w_grids w5)(k \<mapsto> g)\<rparr>)
            | (Inr _, g) \<Rightarrow> (Inr (), emit (OnRespawn i) (emit (OnStatChange i (applyPctHeal 0 (en_MaxHP e) 100)
                (applyPctHeal 0 (en_MaxSP e) 100)) (w5\<lparr>w_grids := (w_grids w5)(k \<mapsto> g)\<rparr>))))"
  proof (rule that)
    let ?w2 = "if k \<noteq> en_Map e
      then ?w1\<lparr>w_byMap := (w_byMap ?w1)(en_Map e := map_option (removeAll (en_ID e)) (w_byMap ?w1 (en_Map e)))\<rparr> else ?w1"
    let ?w3 = "?w2\<lparr>w_byMap := (w_byMap ?w2)(k := set_add (en_ID e) (w_byMap ?w2 k))\<rparr>"
    show "w_entities ?w3 = w_entities ?w1" "w_grids ?w3 = w_grids ?w1"
      by (simp_all split: if_split)
    show "RespawnPlayer i w =
        (let w5 = on_grid k (aoi_RemoveEntity i) (on_grid (en_Map e) (aoi_RemoveEntity i) (put_entity i ?e ?w3))
         in case aoi_AddEntity (aoi_at i p) (the (w_grids w5 k)) of
              (Inl er, g) \<Rightarrow> (Inl er, w5\<lparr>w_grids := (w_grids w5)(k \<mapsto> g)\<rparr>)
            | (Inr _, g) \<Rightarrow> (Inr (), emit (OnRespawn i) (emit (OnStatChange i (applyPctHeal 0 (en_MaxHP e) 100)
                (applyPctHeal 0 (en_MaxSP e) 100)) (w5\<lparr>w_grids := (w_grids w5)(k \<mapsto> g)\<rparr>))))"
      unfolding RespawnPlayer_def Some option.case Let_def respawnRevivePct_def k_def p_def by (rule refl)
  qed
  define w5 where "w5 = on_grid k (aoi_RemoveEntity i) (on_grid (en_Map e) (aoi_RemoveEntity i) (put_entity i ?e w3))"
  have "w_grids ?w1 k \<noteq> None"
    by (rule ensure_simps(2))
  then have "w_grids w5 k \<noteq> None"
    by (simp add: w5_def w3(2))
  then obtain g where g: "w_grids w5 k = Some g"
    by blast
  have wf6: "grids_wf (on_grid k (aoi_AddEntity (aoi_at i p)) w5)"
    unfolding w5_def
    by (rule grids_wf_moved(2) [OF wf1, where e' = ?e])
      (use Some grids_wfD(1) [OF wf Some] ensure_simps(2) [of k w] w3 in \<open>simp_all del: ensure_simps(2)\<close>)
  let ?r = "snd (RespawnPlayer i w)"
  have "w_entities ?r = w_entities w5 \<and> w_grids ?r = (w_grids w5)(k \<mapsto> snd (aoi_AddEntity (aoi_at i p) g))"
    unfolding run Let_def w5_def [symmetric] g option.sel
    by (cases "aoi_AddEntity (aoi_at i p) g"; cases "fst (aoi_AddEntity (aoi_at i p) g)") auto
  then show ?thesis
    using wf6 by (intro grids_wf_same [OF wf6]) (simp_all add: on_grid_Some [OF g])
qed (simp add: RespawnPlayer_def)

text \<open>
  One call on the live registry, at any cells. \<open>touch\<close> stands for what combat, levelling, skills and items do to an
  entity: they leave its id, map and cell alone.
\<close>

inductive registry_call :: "world \<Rightarrow> world \<Rightarrow> bool" where
  add: "registry_call w (snd (w_AddEntity e w))"
| remove: "registry_call w (snd (w_RemoveEntity i w))"
| move: "registry_call w (snd (w_MoveEntity i p w))"
| respawn: "registry_call w (snd (RespawnPlayer i w))"
| sit: "registry_call w (snd (SetSitting i b w))"
| face: "registry_call w (snd (SetFacing i d h w))"
| heal: "registry_call w (snd (HealPlayer i hp sp w))"
| vitals: "registry_call w (snd (AddVitals i hp sp w))"
| stat: "registry_call w (snd (AllocateStat i st w))"
| skill: "registry_call w (snd (w_LearnSkill i k l w))"
| touch: "entity_at w i = Some e \<Longrightarrow> en_ID e' = en_ID e \<Longrightarrow> en_Map e' = en_Map e \<Longrightarrow> en_Pos e' = en_Pos e \<Longrightarrow>
    registry_call w (emit ev (put_entity i e' w))"

lemma registry_call_grids: "registry_call w w' \<Longrightarrow> grids_wf w \<Longrightarrow> grids_wf w'"
proof (induction rule: registry_call.induct)
  case (sit w i b)
  then show ?case
    by (auto simp: SetSitting_def split: option.splits intro: grids_wf_put)
next
  case (face w i d h)
  then show ?case
    by (auto simp: SetFacing_def split: option.splits intro: grids_wf_put)
next
  case (heal w i hp sp)
  then show ?case
    by (auto simp: HealPlayer_def Let_def split: option.splits intro: grids_wf_put)
next
  case (vitals w i hp sp)
  then show ?case
    by (auto simp: AddVitals_def Let_def split: option.splits intro!: grids_wf_put)
next
  case (stat w i st)
  then show ?case
    by (auto simp: AllocateStat_def Let_def split: option.splits if_splits intro!: grids_wf_put)
next
  case (skill w i k l)
  then show ?case
    by (auto simp: w_LearnSkill_def split: option.splits if_splits intro!: grids_wf_put)
next
  case (touch w i e e' ev)
  then show ?case
    by (auto intro: grids_wf_put)
qed (simp_all add: add_entity_grids remove_entity_grids move_entity_grids respawn_grids)

text \<open>A visibility query names exactly the registered entities of the map that stand on the canvas within 15 cells.\<close>

lemma visible_shown:
  assumes wf: "grids_wf w" and g: "w_grids w m \<noteq> None" and xy: "0 \<le> x" "x < 512" "0 \<le> y" "y < 512"
  shows "set (w_QueryVisible m x y w) = {i. \<exists>e. entity_at w i = Some e \<and> en_Map e = m \<and> on_canvas (en_Pos e) \<and>
    \<bar>pos_X (en_Pos e) - x\<bar> \<le> 15 \<and> \<bar>pos_Y (en_Pos e) - y\<bar> \<le> 15}"
proof -
  obtain g where g: "w_grids w m = Some g"
    using assms(2) by auto
  have gw: "grid_wf g" "gm_width g = 512" "gm_height g = 512" "entities g = shown w m"
    using grids_wfD(2) [OF wf] g by (auto simp: grids_show_def)
  have "inBounds g x y"
    using gw xy by (simp add: inBounds_def)
  then have "set (QueryVisible g x y) = {a \<in> ran (shown w m). \<bar>ae_X a - x\<bar> \<le> 15 \<and> \<bar>ae_Y a - y\<bar> \<le> 15}"
    using query_exact [of g x y 15] gw by (simp add: QueryVisible_def DefaultBroadcastRadius_def)
  then have q: "set (w_QueryVisible m x y w) = ae_ID ` {a. (\<exists>i. shown w m i = Some a) \<and> \<bar>ae_X a - x\<bar> \<le> 15 \<and> \<bar>ae_Y a - y\<bar> \<le> 15}"
    by (simp add: w_QueryVisible_def g ran_def)
  have at: "shown w m i = Some a \<longleftrightarrow>
      (\<exists>e. entity_at w i = Some e \<and> en_Map e = m \<and> on_canvas (en_Pos e) \<and> a = aoi_at i (en_Pos e))" for i a
    by (auto simp: shown_def split: option.splits)
  have "ae_ID a = i" if "shown w m i = Some a" for i a
    using that by (auto simp: at)
  then have "set (w_QueryVisible m x y w) = {i. \<exists>a. shown w m i = Some a \<and> \<bar>ae_X a - x\<bar> \<le> 15 \<and> \<bar>ae_Y a - y\<bar> \<le> 15}"
    unfolding q by blast
  then show ?thesis
    by (auto simp: at)
qed

section \<open>Properties\<close>

definition demo_pc :: entity where
  "demo_pc = zero_entity\<lparr>en_ID := 150001, en_Account := 7, en_Map := ''prontera'', en_Name := ''a'',
     en_Pos := \<lparr>pos_X = 150, pos_Y = 160\<rparr>, en_HP := 10, en_MaxHP := 40, en_SP := 3, en_MaxSP := 11,
     en_Level := 1, en_JobLevel := 1, en_Str := 9, en_StatusPoint := 2\<rparr>"

definition demo_world :: world where
  "demo_world = snd (w_AddEntity demo_pc NewWorldService)"

lemma demo_pc_simps [simp]:
  "en_ID demo_pc = 150001" "en_Map demo_pc = ''prontera''" "en_Pos demo_pc = \<lparr>pos_X = 150, pos_Y = 160\<rparr>"
  "en_Type demo_pc = 0" "en_HP demo_pc = 10" "en_MaxHP demo_pc = 40" "en_SP demo_pc = 3" "en_MaxSP demo_pc = 11"
  "en_Str demo_pc = 9" "en_StatusPoint demo_pc = 2" "en_SaveMap demo_pc = []" "en_Account demo_pc = 7"
  "en_Level demo_pc = 1" "en_JobLevel demo_pc = 1" "en_LearnedSkills demo_pc = []" "en_Job demo_pc = 0"
  "en_BaseExp demo_pc = 0" "en_JobExp demo_pc = 0" "en_SkillPoint demo_pc = 0"
  by (simp_all add: demo_pc_def zero_entity_def)

lemma demo_world_add:
  "w_AddEntity demo_pc NewWorldService = (Inr (), demo_world)" "world_wf demo_world"
  "entity_at demo_world = [150001 \<mapsto> demo_pc]"
proof -
  have e: "entity_at NewWorldService = Map.empty"
    by (simp add: NewWorldService_def)
  have "\<exists>w'. w_AddEntity demo_pc NewWorldService = (Inr (), w') \<and> world_wf w' \<and>
      entity_at w' = (entity_at NewWorldService)(en_ID demo_pc \<mapsto> demo_pc)"
    by (rule add_entity_ok [OF new_world_wf]) (simp_all add: e on_canvas_def)
  then show "w_AddEntity demo_pc NewWorldService = (Inr (), demo_world)" "world_wf demo_world"
      "entity_at demo_world = [150001 \<mapsto> demo_pc]"
    by (auto simp: demo_world_def e)
qed

text \<open>
  Remark. A refused registration is not undone: adding an entity at a cell outside the map returns the
  AOI error, but the entity stays in the registry (\<open>Get\<close> finds it, no grid shows it), and every
  later attempt to register that id, at any cell, fails as a duplicate.
\<close>

theorem failed_add_leaves_ghost:
  assumes "world_wf w" and "entity_at w (en_ID e) = None" and "\<not> on_canvas (en_Pos e)" and "en_ID e' = en_ID e"
  shows "\<exists>w'. w_AddEntity e w = (Inl ErrAoiOutOfBounds, w') \<and> w_Get (en_ID e) w' = Inr e \<and>
    (\<exists>g. w_grids w' (en_Map e) = Some g \<and> entities g (en_ID e) = None) \<and>
    w_AddEntity e' w' = (Inl ErrEntityAlreadyExists, w')"
proof -
  let ?w0 = "ensureGridLocked (en_Map e) w"
  have wf0: "world_wf ?w0"
    by (rule ensure_wf [OF assms(1)])
  obtain g where g: "w_grids ?w0 (en_Map e) = Some g"
    using ensure_simps(2) by blast
  note gw = world_wfD(3) [OF wf0 g]
  have "\<not> inBounds g (pos_X (en_Pos e)) (pos_Y (en_Pos e))"
    using gw canvas_bounds assms(3) by blast
  then have "aoi_AddEntity (aoi_at (en_ID e) (en_Pos e)) g = (Inl ErrAoiOutOfBounds, g)"
    by (simp add: aoi_AddEntity_def)
  then have "w_AddEntity e w = (Inl ErrAoiOutOfBounds, put_entity (en_ID e) e (?w0\<lparr>w_grids := (w_grids ?w0)(en_Map e \<mapsto> g)\<rparr>))"
    using assms(2) g by (simp add: w_AddEntity_def Let_def ensure_put)
  moreover have "entities g (en_ID e) = None"
    using gw assms(2) by (simp add: on_map_def)
  ultimately show ?thesis
    using assms(4) by (simp add: w_Get_def w_AddEntity_def)
qed

theorem failed_add_leaves_ghost_witness:
  "\<exists>w'. w_AddEntity (demo_pc\<lparr>en_Pos := \<lparr>pos_X = 600, pos_Y = 1\<rparr>\<rparr>) NewWorldService = (Inl ErrAoiOutOfBounds, w') \<and>
     w_AddEntity demo_pc w' = (Inl ErrEntityAlreadyExists, w')"
  using failed_add_leaves_ghost [OF new_world_wf, of "demo_pc\<lparr>en_Pos := \<lparr>pos_X = 600, pos_Y = 1\<rparr>\<rparr>" demo_pc]
  by (auto simp: on_canvas_def NewWorldService_def)

text \<open>
  Remark. Vitals never leave their range: whatever (possibly negative, possibly huge) percentages and
  deltas are asked for, \<open>HealPlayer\<close> and \<open>AddVitals\<close> leave HP and SP between 0 and the maximum (0 if
  the maximum is not positive), report the stored values, and touch nothing else of any entity.
\<close>

theorem vitals_in_range:
  assumes "entity_at w i = Some e" and "in_i32 (en_MaxHP e)" and "in_i32 (en_MaxSP e)"
  shows "(\<exists>hp sp. HealPlayer i a b w = (Inr (hp, sp), put_entity i (e\<lparr>en_HP := hp, en_SP := sp\<rparr>) w) \<and>
      0 \<le> hp \<and> hp \<le> max 0 (en_MaxHP e) \<and> 0 \<le> sp \<and> sp \<le> max 0 (en_MaxSP e)) \<and>
    (\<exists>hp sp. AddVitals i c d w = (Inr (hp, sp), emit (OnStatChange i hp sp) (put_entity i (e\<lparr>en_HP := hp, en_SP := sp\<rparr>) w)) \<and>
      0 \<le> hp \<and> hp \<le> max 0 (en_MaxHP e) \<and> 0 \<le> sp \<and> sp \<le> max 0 (en_MaxSP e))"
  using assms applyPctHeal_range [of "en_MaxHP e"] applyPctHeal_range [of "en_MaxSP e"]
    clampVitals_range [of "en_MaxHP e"] clampVitals_range [of "en_MaxSP e"]
  by (simp add: HealPlayer_def AddVitals_def Let_def)

theorem vitals_in_range_witness:
  "\<exists>hp sp. HealPlayer 150001 1000 (- 5) demo_world =
     (Inr (hp, sp), put_entity 150001 (demo_pc\<lparr>en_HP := hp, en_SP := sp\<rparr>) demo_world) \<and> hp \<le> 40 \<and> sp \<le> 11"
  using vitals_in_range [of demo_world 150001 demo_pc 1000 "- 5" 0 0]
  by (auto simp: demo_world_add(3) in_i32_def)

lemma uint_small_mono: "v < 99 \<Longrightarrow> uint (ucast (v :: u16) :: u8) = uint v"
proof -
  assume "v < 99"
  then have "uint v < 99"
    by (simp add: word_less_def)
  then show ?thesis
    by (simp add: uint_up_ucast unsigned_ucast_eq take_bit_int_eq_self)
qed

lemma cost_value: "v < 99 \<Longrightarrow> uint (ucast (StatusPointCost (ucast (v :: u16))) :: u32) = 1 + (uint v + 9) div 10"
proof -
  assume v: "v < 99"
  have lt: "uint v < 99"
    using v by (simp add: word_less_def)
  have "uint (word_of_int (1 + (uint v + 9) div 10) :: u8) = 1 + (uint v + 9) div 10"
    unfolding uint_word_of_int_eq using lt uint_ge_0 [of v]
    by (intro take_bit_int_eq_self) (linarith | simp; linarith)+
  then have "uint (StatusPointCost (ucast v)) = 1 + (uint v + 9) div 10"
    unfolding StatusPointCost_def uint_small_mono [OF v] .
  moreover have "uint (ucast x :: u32) = uint x" for x :: u8
    by (simp add: uint_up_ucast is_up)
  ultimately show ?thesis
    by (simp only:)
qed

text \<open>
  Remark. Raising a base stat. For a known stat below 99 the call succeeds exactly when the status points
  cover \<open>1 + (v + 9) div 10\<close>; then the stat rises by one and exactly that many points are spent.
  At 99, without points, or for an unknown name it fails and changes nothing.
\<close>

theorem allocate_stat_exact:
  assumes "entity_at w i = Some e" and "stat_get st e = Some v"
  shows "if v < 99 \<and> 1 + (uint v + 9) div 10 \<le> uint (en_StatusPoint e)
    then \<exists>x w' e'. AllocateStat i st w = (Inr x, w') \<and> entity_at w' = (entity_at w)(i \<mapsto> e') \<and>
      stat_get st e' = Some (v + 1) \<and>
      uint (en_StatusPoint e') = uint (en_StatusPoint e) - (1 + (uint v + 9) div 10)
    else \<exists>er. AllocateStat i st w = (Inl er, w)"
proof (cases "v < 99")
  case True
  let ?cost = "ucast (StatusPointCost (ucast v)) :: u32"
  have cost: "?cost \<le> en_StatusPoint e \<longleftrightarrow> 1 + (uint v + 9) div 10 \<le> uint (en_StatusPoint e)"
    by (simp add: word_le_def cost_value [OF True])
  let ?e = "stat_put st (v + 1) (e\<lparr>en_StatusPoint := en_StatusPoint e - ?cost\<rparr>)"
  have "stat_get st ?e = Some (v + 1)" "en_StatusPoint ?e = en_StatusPoint e - ?cost"
    using assms(2) by (auto simp: stat_get_def stat_put_def split: if_splits)
  moreover have "uint (en_StatusPoint e - ?cost) = uint (en_StatusPoint e) - (1 + (uint v + 9) div 10)"
    if "?cost \<le> en_StatusPoint e"
    using that iffD1 [OF uint_sub_lem, of ?cost "en_StatusPoint e"] unfolding word_le_def cost_value [OF True] by blast
  ultimately show ?thesis
    using assms True cost by (auto simp: AllocateStat_def Let_def not_less not_le linorder_not_le)
next
  case False
  then have "99 \<le> v"
    by simp
  then show ?thesis
    using assms False by (simp add: AllocateStat_def)
qed

theorem allocate_stat_exact_witness:
  "\<exists>x w' e'. AllocateStat 150001 ''Str'' demo_world = (Inr x, w') \<and> entity_at w' = [150001 \<mapsto> e'] \<and>
     en_Str e' = 10 \<and> uint (en_StatusPoint e') = 0"
  using allocate_stat_exact [of demo_world 150001 demo_pc "''Str''" 9]
  by (simp add: demo_world_add(3) stat_get_def)

end
