(* ===== verification/WorldPersist.thy ===== *)
theory WorldPersist
  imports World
begin

text \<open>
  Where the live world meets the character table: the \<open>WorldRepository\<close> port
  (\<open>world/domain/entity.go\<close>), the in-memory repository (\<open>world/infra/memory.go\<close>) and the operations of
  \<open>WorldService\<close> that load and save (\<open>world/app/world.go\<close>): entering and leaving a map, the shutdown
  flush, the periodic checkpoint, warps and relocation. The locale \<open>char_rows\<close> states the port's
  contract; it is interpreted on the in-memory repository.

  The state of these operations is a pair of the world and the repository's own state.
\<close>

section \<open>The port\<close>

record 's world_port =
  wp_LoadEnterState :: "u32 \<Rightarrow> 's \<Rightarrow> (entity, 's) out"
  wp_SetOnline :: "u32 \<Rightarrow> bool \<Rightarrow> position \<Rightarrow> 's \<Rightarrow> (unit, 's) out"
  wp_SetPosition :: "u32 \<Rightarrow> string \<Rightarrow> position \<Rightarrow> 's \<Rightarrow> (unit, 's) out"
  wp_SaveState :: "u32 \<Rightarrow> int \<Rightarrow> int \<Rightarrow> int \<Rightarrow> int \<Rightarrow> int \<Rightarrow> int \<Rightarrow> u64 \<Rightarrow> u64 \<Rightarrow> u32 \<Rightarrow> u32 \<Rightarrow> 's \<Rightarrow> (unit, 's) out"
  wp_LoadSkills :: "u32 \<Rightarrow> 's \<Rightarrow> ((int \<times> int) list, 's) out"
  wp_SaveSkills :: "u32 \<Rightarrow> (int \<times> int) list \<Rightarrow> 's \<Rightarrow> (unit, 's) out"

section \<open>The in-memory repository\<close>

type_synonym mem_world = "u32 \<rightharpoonup> entity"

definition NewMemoryWorldRepository :: "entity list \<Rightarrow> mem_world" where
  "NewMemoryWorldRepository states = foldl (\<lambda>r e. r(en_ID e \<mapsto> e)) Map.empty states"

definition mw_LoadEnterState :: "u32 \<Rightarrow> mem_world \<Rightarrow> (entity, mem_world) out" where
  "mw_LoadEnterState c r = (case r c of None \<Rightarrow> (Inl ErrEntityNotFound, r) | Some e \<Rightarrow> (Inr e, r))"

definition mw_SetOnline :: "u32 \<Rightarrow> bool \<Rightarrow> position \<Rightarrow> mem_world \<Rightarrow> (unit, mem_world) out" where
  "mw_SetOnline c online p r =
     (case r c of None \<Rightarrow> (Inl ErrEntityNotFound, r) | Some e \<Rightarrow> (Inr (), r(c \<mapsto> e\<lparr>en_Pos := p\<rparr>)))"

definition mw_SetPosition :: "u32 \<Rightarrow> string \<Rightarrow> position \<Rightarrow> mem_world \<Rightarrow> (unit, mem_world) out" where
  "mw_SetPosition c m p r =
     (case r c of None \<Rightarrow> (Inl ErrEntityNotFound, r)
      | Some e \<Rightarrow> (Inr (), r(c \<mapsto> e\<lparr>en_Map := m, en_Pos := p\<rparr>)))"

definition mw_SaveState ::
  "u32 \<Rightarrow> int \<Rightarrow> int \<Rightarrow> int \<Rightarrow> int \<Rightarrow> int \<Rightarrow> int \<Rightarrow> u64 \<Rightarrow> u64 \<Rightarrow> u32 \<Rightarrow> u32 \<Rightarrow> mem_world \<Rightarrow> (unit, mem_world) out" where
  "mw_SaveState c baseLevel jobLevel maxHP maxSP hp sp baseExp jobExp statusPoint skillPoint r =
     (case r c of None \<Rightarrow> (Inl ErrEntityNotFound, r)
      | Some e \<Rightarrow> (Inr (), r(c \<mapsto> e\<lparr>en_Level := baseLevel, en_JobLevel := jobLevel, en_MaxHP := maxHP,
          en_MaxSP := maxSP, en_HP := hp, en_SP := sp, en_BaseExp := baseExp, en_JobExp := jobExp,
          en_StatusPoint := statusPoint, en_SkillPoint := skillPoint\<rparr>)))"

definition mw_LoadSkills :: "u32 \<Rightarrow> mem_world \<Rightarrow> ((int \<times> int) list, mem_world) out" where
  "mw_LoadSkills c r =
     (case r c of None \<Rightarrow> (Inl ErrEntityNotFound, r) | Some e \<Rightarrow> (Inr (en_LearnedSkills e), r))"

text \<open>\<open>m[s.SkillID] = s.Level\<close> for every row, starting from the emptied map.\<close>

definition skill_map :: "(int \<times> int) list \<Rightarrow> (int \<times> int) list" where
  "skill_map skills = foldl (\<lambda>m (sid, lv). AList.update sid lv m) [] skills"

definition mw_SaveSkills :: "u32 \<Rightarrow> (int \<times> int) list \<Rightarrow> mem_world \<Rightarrow> (unit, mem_world) out" where
  "mw_SaveSkills c skills r =
     (case r c of None \<Rightarrow> (Inl ErrEntityNotFound, r)
      | Some e \<Rightarrow> (Inr (), r(c \<mapsto> e\<lparr>en_LearnedSkills := skill_map skills\<rparr>)))"

definition mem_world_port :: "mem_world world_port" where
  "mem_world_port = \<lparr>wp_LoadEnterState = mw_LoadEnterState, wp_SetOnline = mw_SetOnline,
     wp_SetPosition = mw_SetPosition, wp_SaveState = mw_SaveState, wp_LoadSkills = mw_LoadSkills,
     wp_SaveSkills = mw_SaveSkills\<rparr>"

section \<open>Loading and saving\<close>

text \<open>A repository call and a registry call, on the pair of states.\<close>

definition repo_call :: "('s \<Rightarrow> ('a, 's) out) \<Rightarrow> world \<times> 's \<Rightarrow> ('a, world \<times> 's) out" where
  "repo_call f = (\<lambda>(w, s). case f s of (r, s') \<Rightarrow> (r, (w, s')))"

definition world_call :: "(world \<Rightarrow> ('a, world) out) \<Rightarrow> world \<times> 's \<Rightarrow> ('a, world \<times> 's) out" where
  "world_call f = (\<lambda>(w, s). case f w of (r, w') \<Rightarrow> (r, (w', s)))"

definition EnterMap :: "'s world_port \<Rightarrow> u32 \<Rightarrow> world \<times> 's \<Rightarrow> (entity, world \<times> 's) out" where
  "EnterMap P c st =
     and_then (repo_call (wp_LoadEnterState P c) st) (\<lambda>e0 st.
       let e1 = e0\<lparr>en_ID := c, en_Type := EntityTypePC\<rparr>
       in and_then (repo_call (wp_LoadSkills P c) st) (\<lambda>skills st.
         let e = (if skills \<noteq> [] then e1\<lparr>en_LearnedSkills := skill_map skills\<rparr> else e1)
         in and_then (world_call (w_AddEntity e) st) (\<lambda>_ st.
              (Inr e, snd (repo_call (wp_SetOnline P c True (en_Pos e)) st)))))"

definition save_entity :: "'s world_port \<Rightarrow> u32 \<Rightarrow> entity \<Rightarrow> 's \<Rightarrow> (unit, 's) out" where
  "save_entity P c e = wp_SaveState P c (en_Level e) (en_JobLevel e) (en_MaxHP e) (en_MaxSP e)
     (en_HP e) (en_SP e) (en_BaseExp e) (en_JobExp e) (en_StatusPoint e) (en_SkillPoint e)"

definition LeaveMap :: "'s world_port \<Rightarrow> u32 \<Rightarrow> world \<times> 's \<Rightarrow> (unit, world \<times> 's) out" where
  "LeaveMap P c st =
     (case w_Get c (fst st) of
        Inl er \<Rightarrow> if errors_is er ErrEntityNotFound then (Inr (), st) else (Inl er, st)
      | Inr e \<Rightarrow>
          and_then (world_call (w_RemoveEntity c) st) (\<lambda>_ st.
          and_then (repo_call (wp_SetOnline P c False (en_Pos e)) st) (\<lambda>_ st.
          and_then (repo_call (save_entity P c e) st) (\<lambda>_ st.
            if en_LearnedSkills e \<noteq> [] then repo_call (wp_SaveSkills P c (en_LearnedSkills e)) st
            else (Inr (), st)))))"

text \<open>The snapshot struct of \<open>SaveAll\<close> and \<open>Checkpoint\<close>, with Go's zero values for unset fields.\<close>

record vital_snap =
  vs_charID :: u32
  vs_pos :: position
  vs_hp :: int
  vs_sp :: int
  vs_maxHP :: int
  vs_maxSP :: int
  vs_level :: int
  vs_jobLevel :: int
  vs_baseExp :: u64
  vs_jobExp :: u64
  vs_statusPoint :: u32
  vs_skillPoint :: u32

definition snapshot :: "u32 \<times> entity \<Rightarrow> vital_snap" where
  "snapshot = (\<lambda>(i, e). \<lparr>vs_charID = i, vs_pos = en_Pos e, vs_hp = en_HP e, vs_sp = en_SP e,
     vs_maxHP = 0, vs_maxSP = 0, vs_level = en_Level e, vs_jobLevel = en_JobLevel e,
     vs_baseExp = en_BaseExp e, vs_jobExp = en_JobExp e, vs_statusPoint = en_StatusPoint e,
     vs_skillPoint = en_SkillPoint e\<rparr>)"

definition snapshots :: "world \<Rightarrow> vital_snap list" where
  "snapshots w = map snapshot (filter (\<lambda>(i, e). en_Type e = EntityTypePC) (w_entities w))"

definition flush_snap :: "'s world_port \<Rightarrow> bool \<Rightarrow> vital_snap \<Rightarrow> 's \<Rightarrow> 's" where
  "flush_snap P online v s =
     (case wp_SaveState P (vs_charID v) (vs_level v) (vs_jobLevel v) (vs_maxHP v) (vs_maxSP v) (vs_hp v)
         (vs_sp v) (vs_baseExp v) (vs_jobExp v) (vs_statusPoint v) (vs_skillPoint v) s of
        (Inl er, s) \<Rightarrow> s
      | (Inr _, s) \<Rightarrow> snd (wp_SetOnline P (vs_charID v) online (vs_pos v) s))"

definition SaveAll :: "'s world_port \<Rightarrow> world \<times> 's \<Rightarrow> world \<times> 's" where
  "SaveAll P st = (fst st, foldl (\<lambda>s v. flush_snap P False v s) (snd st) (snapshots (fst st)))"

definition Checkpoint :: "'s world_port \<Rightarrow> world \<times> 's \<Rightarrow> world \<times> 's" where
  "Checkpoint P st = (fst st, foldl (\<lambda>s v. flush_snap P True v s) (snd st) (snapshots (fst st)))"

definition w_SetPosition :: "'s world_port \<Rightarrow> u32 \<Rightarrow> string \<Rightarrow> position \<Rightarrow> world \<times> 's \<Rightarrow> (unit, world \<times> 's) out" where
  "w_SetPosition P c m p st = repo_call (wp_SetPosition P c m p) st"

definition WarpPlayer :: "'s world_port \<Rightarrow> u32 \<Rightarrow> string \<Rightarrow> int \<Rightarrow> int \<Rightarrow> world \<times> 's \<Rightarrow> (unit, world \<times> 's) out" where
  "WarpPlayer P c m x y st = repo_call (wp_SetPosition P c m \<lparr>pos_X = x, pos_Y = y\<rparr>) st"

definition RelocatePlayer ::
  "'s world_port \<Rightarrow> u32 \<Rightarrow> string \<Rightarrow> int \<Rightarrow> int \<Rightarrow> world \<times> 's \<Rightarrow> (unit, world \<times> 's) out" where
  "RelocatePlayer P c m x y st =
     (case st of (w, s) \<Rightarrow>
        case entity_at w c of
          None \<Rightarrow> (Inl ErrEntityNotFound, st)
        | Some e \<Rightarrow>
            let p = \<lparr>pos_X = x, pos_Y = y\<rparr>;
                oldMap = en_Map e;
                w1 = put_entity c (e\<lparr>en_Map := m, en_Pos := p\<rparr>) w;
                w2 = on_grid m (aoi_AddEntity (aoi_at c p)) (on_grid oldMap (aoi_RemoveEntity c) w1)
            in repo_call (wp_SetPosition P c m p) (w2, s))"

section \<open>The port's contract\<close>

locale char_rows =
  fixes P :: "'s world_port"
    and row :: "'s \<Rightarrow> u32 \<Rightarrow> entity option"
  assumes load_enter: "row s c = Some e \<Longrightarrow> wp_LoadEnterState P c s = (Inr e, s)"
    and load_skills: "row s c = Some e \<Longrightarrow> wp_LoadSkills P c s = (Inr (en_LearnedSkills e), s)"
    and set_online: "row s c = Some e \<Longrightarrow>
      \<exists>s'. wp_SetOnline P c b p s = (Inr (), s') \<and> row s' = (row s)(c \<mapsto> e\<lparr>en_Pos := p\<rparr>)"
    and set_position: "row s c = Some e \<Longrightarrow>
      \<exists>s'. wp_SetPosition P c m p s = (Inr (), s') \<and> row s' = (row s)(c \<mapsto> e\<lparr>en_Map := m, en_Pos := p\<rparr>)"
    and save_state: "row s c = Some e \<Longrightarrow>
      \<exists>s'. wp_SaveState P c lv jl mh ms hp sp be je st sk s = (Inr (), s') \<and>
        row s' = (row s)(c \<mapsto> e\<lparr>en_Level := lv, en_JobLevel := jl, en_MaxHP := mh, en_MaxSP := ms, en_HP := hp,
          en_SP := sp, en_BaseExp := be, en_JobExp := je, en_StatusPoint := st, en_SkillPoint := sk\<rparr>)"
    and save_missing: "row s c = None \<Longrightarrow> \<exists>er. wp_SaveState P c lv jl mh ms hp sp be je st sk s = (Inl er, s)"
    and save_skills: "row s c = Some e \<Longrightarrow> distinct (keys ks) \<Longrightarrow>
      \<exists>s'. wp_SaveSkills P c ks s = (Inr (), s') \<and> row s' = (row s)(c \<mapsto> e\<lparr>en_LearnedSkills := ks\<rparr>)"
begin

text \<open>The row a saved entity leaves behind: \<open>r\<close> is the old row, \<open>e\<close> the live entity.\<close>

definition saved_row :: "entity \<Rightarrow> entity \<Rightarrow> entity" where
  "saved_row r e = r\<lparr>en_Pos := en_Pos e, en_Level := en_Level e, en_JobLevel := en_JobLevel e,
     en_MaxHP := en_MaxHP e, en_MaxSP := en_MaxSP e, en_HP := en_HP e, en_SP := en_SP e,
     en_BaseExp := en_BaseExp e, en_JobExp := en_JobExp e, en_StatusPoint := en_StatusPoint e,
     en_SkillPoint := en_SkillPoint e,
     en_LearnedSkills := (if en_LearnedSkills e \<noteq> [] then en_LearnedSkills e else en_LearnedSkills r)\<rparr>"

lemma leave_ok:
  assumes wf: "world_wf w" and e: "entity_at w c = Some e" and r: "row s c = Some r"
    and d: "distinct (keys (en_LearnedSkills e))"
  shows "\<exists>w' s'. LeaveMap P c (w, s) = (Inr (), (w', s')) \<and> world_wf w' \<and>
    entity_at w' = (entity_at w)(c := None) \<and> row s' = (row s)(c \<mapsto> saved_row r e)"
proof -
  obtain w' where w': "w_RemoveEntity c w = (Inr (), w')" "world_wf w'" "entity_at w' = (entity_at w)(c := None)"
    using remove_entity_ok [OF wf e] by blast
  obtain s1 where s1: "wp_SetOnline P c False (en_Pos e) s = (Inr (), s1)" "row s1 c = Some (r\<lparr>en_Pos := en_Pos e\<rparr>)"
      "row s1 = (row s)(c \<mapsto> r\<lparr>en_Pos := en_Pos e\<rparr>)"
    using set_online [OF r, of False "en_Pos e"] by auto
  let ?r2 = "r\<lparr>en_Pos := en_Pos e, en_Level := en_Level e, en_JobLevel := en_JobLevel e, en_MaxHP := en_MaxHP e,
    en_MaxSP := en_MaxSP e, en_HP := en_HP e, en_SP := en_SP e, en_BaseExp := en_BaseExp e,
    en_JobExp := en_JobExp e, en_StatusPoint := en_StatusPoint e, en_SkillPoint := en_SkillPoint e\<rparr>"
  obtain s2 where s2: "save_entity P c e s1 = (Inr (), s2)" "row s2 = (row s1)(c \<mapsto> ?r2)"
    using save_state [OF s1(2)] unfolding save_entity_def by fastforce
  show ?thesis
  proof (cases "en_LearnedSkills e = []")
    case True
    then have "LeaveMap P c (w, s) = (Inr (), (w', s2))"
      using e w'(1) s1(1) s2(1) by (simp add: LeaveMap_def w_Get_def world_call_def repo_call_def)
    then show ?thesis
      using w' s1(3) s2(2) True by (simp add: saved_row_def)
  next
    case False
    have "row s2 c = Some ?r2"
      by (simp add: s2(2))
    from save_skills [OF this d] obtain s3 where
      s3: "wp_SaveSkills P c (en_LearnedSkills e) s2 = (Inr (), s3)"
        "row s3 = (row s2)(c \<mapsto> ?r2\<lparr>en_LearnedSkills := en_LearnedSkills e\<rparr>)"
      by blast
    then have "LeaveMap P c (w, s) = (Inr (), (w', s3))"
      using e w'(1) s1(1) s2(1) False by (simp add: LeaveMap_def w_Get_def world_call_def repo_call_def)
    then show ?thesis
      using w' s1(3) s2(2) s3(2) False by (simp add: saved_row_def)
  qed
qed

lemma enter_ok:
  assumes wf: "world_wf w" and free: "entity_at w c = None" and r: "row s c = Some r"
    and pos: "on_canvas (en_Pos r)"
  shows "\<exists>e w' s'. EnterMap P c (w, s) = (Inr e, (w', s')) \<and> world_wf w' \<and>
    entity_at w' = (entity_at w)(c \<mapsto> e) \<and> row s' = row s \<and>
    e = r\<lparr>en_ID := c, en_Type := EntityTypePC,
          en_LearnedSkills := (if en_LearnedSkills r \<noteq> [] then skill_map (en_LearnedSkills r) else [])\<rparr>"
proof -
  let ?e = "r\<lparr>en_ID := c, en_Type := EntityTypePC,
    en_LearnedSkills := (if en_LearnedSkills r \<noteq> [] then skill_map (en_LearnedSkills r) else [])\<rparr>"
  obtain w' where w': "w_AddEntity ?e w = (Inr (), w')" "world_wf w'" "entity_at w' = (entity_at w)(c \<mapsto> ?e)"
    using add_entity_ok [OF wf, of ?e] free pos by auto
  obtain s' where s': "wp_SetOnline P c True (en_Pos r) s = (Inr (), s')" "row s' = (row s)(c \<mapsto> r\<lparr>en_Pos := en_Pos r\<rparr>)"
    using set_online [OF r] by blast
  have same: "(if en_LearnedSkills r \<noteq> [] then r\<lparr>en_ID := c, en_Type := EntityTypePC\<rparr>\<lparr>en_LearnedSkills := skill_map (en_LearnedSkills r)\<rparr>
      else r\<lparr>en_ID := c, en_Type := EntityTypePC\<rparr>) = ?e"
    by (cases "en_LearnedSkills r = []") (auto intro: entity.equality)
  have "EnterMap P c (w, s) = (Inr ?e, (w', s'))"
    using w'(1) s'(1) load_enter [OF r] load_skills [OF r]
    by (simp add: EnterMap_def repo_call_def world_call_def Let_def same del: if_not_P if_P)
  moreover have "row s' = row s"
    using s'(2) r by (simp add: fun_upd_idem)
  ultimately show ?thesis
    using w'(2,3) by blast
qed

text \<open>What the shutdown flush writes for each online character.\<close>

definition flushed_row :: "entity \<Rightarrow> entity \<Rightarrow> entity" where
  "flushed_row r e = r\<lparr>en_Level := en_Level e, en_JobLevel := en_JobLevel e,
     en_MaxHP := 0, en_MaxSP := 0, en_HP := en_HP e, en_SP := en_SP e,
     en_BaseExp := en_BaseExp e, en_JobExp := en_JobExp e, en_StatusPoint := en_StatusPoint e,
     en_SkillPoint := en_SkillPoint e, en_Pos := en_Pos e\<rparr>"

lemma flush_snap_row:
  "row (flush_snap P b (snapshot (i, e)) s) =
     (case row s i of None \<Rightarrow> row s | Some r \<Rightarrow> (row s)(i \<mapsto> flushed_row r e))"
proof (cases "row s i")
  case None
  then obtain er where "wp_SaveState P i (en_Level e) (en_JobLevel e) 0 0 (en_HP e) (en_SP e) (en_BaseExp e)
      (en_JobExp e) (en_StatusPoint e) (en_SkillPoint e) s = (Inl er, s)"
    using save_missing by blast
  then show ?thesis
    by (simp add: flush_snap_def snapshot_def None)
next
  case (Some r)
  let ?r = "r\<lparr>en_Level := en_Level e, en_JobLevel := en_JobLevel e, en_MaxHP := 0, en_MaxSP := 0, en_HP := en_HP e,
    en_SP := en_SP e, en_BaseExp := en_BaseExp e, en_JobExp := en_JobExp e, en_StatusPoint := en_StatusPoint e,
    en_SkillPoint := en_SkillPoint e\<rparr>"
  obtain s1 where s1: "wp_SaveState P i (en_Level e) (en_JobLevel e) 0 0 (en_HP e) (en_SP e) (en_BaseExp e)
      (en_JobExp e) (en_StatusPoint e) (en_SkillPoint e) s = (Inr (), s1)" "row s1 = (row s)(i \<mapsto> ?r)"
    using save_state [OF Some] by blast
  have "row s1 i = Some ?r"
    by (simp add: s1(2))
  then obtain s2 where "wp_SetOnline P i b (en_Pos e) s1 = (Inr (), s2)" "row s2 = (row s1)(i \<mapsto> ?r\<lparr>en_Pos := en_Pos e\<rparr>)"
    using set_online by blast
  then show ?thesis
    using s1 by (simp add: flush_snap_def snapshot_def Some flushed_row_def)
qed

lemma flush_all_row:
  assumes "distinct (keys es)" and "row s c = Some r"
  shows "row (foldl (\<lambda>s v. flush_snap P b v s) s (map snapshot es)) c =
    Some (case map_of es c of None \<Rightarrow> r | Some e \<Rightarrow> flushed_row r e)"
  using assms
proof (induction es arbitrary: s r)
  case (Cons p es)
  obtain i e where p: "p = (i, e)"
    by (cases p)
  let ?s = "flush_snap P b (snapshot (i, e)) s"
  have here: "row ?s c = Some (if c = i then flushed_row r e else r)"
    using Cons.prems(2) by (auto simp: flush_snap_row split: option.split)
  have nd: "distinct (keys es)" "i \<notin> fst ` set es"
    using Cons.prems(1) by (auto simp: p)
  from Cons.IH [OF nd(1) here] show ?case
    using map_of_eq_None_iff [of es i] nd(2) by (auto simp: p split: option.splits)
qed simp

lemma save_all_row:
  assumes wf: "world_wf w" and e: "entity_at w c = Some e" "en_Type e = EntityTypePC" and r: "row s c = Some r"
  shows "row (snd (SaveAll P (w, s))) c = Some (flushed_row r e)"
    and "row (snd (Checkpoint P (w, s))) c = Some (flushed_row r e)"
proof -
  let ?es = "filter (\<lambda>(i, e). en_Type e = EntityTypePC) (w_entities w)"
  have d: "distinct (keys (w_entities w))"
    by (rule world_wfD(1) [OF wf])
  then have d': "distinct (keys ?es)"
    by (rule distinct_map_filter)
  have "(c, e) \<in> set ?es"
    using e by (auto dest: map_of_SomeD)
  then have "map_of ?es c = Some e"
    using d' by (simp add: map_of_is_SomeI)
  then show "row (snd (SaveAll P (w, s))) c = Some (flushed_row r e)"
    "row (snd (Checkpoint P (w, s))) c = Some (flushed_row r e)"
    using flush_all_row [OF d' r] by (simp_all add: SaveAll_def Checkpoint_def snapshots_def)
qed

end

lemma skill_map_id_aux:
  "distinct (map fst (m @ ks)) \<Longrightarrow> foldl (\<lambda>m (sid, lv). AList.update sid lv m) m ks = m @ ks"
proof (induction ks arbitrary: m)
  case (Cons p ks)
  obtain k v where p: "p = (k, v)"
    by (cases p)
  have "map_of m k = None"
    using Cons.prems by (auto simp: p map_of_eq_None_iff)
  then have "AList.update k v m = m @ [(k, v)]"
    by (rule update_new_append)
  then show ?case
    using Cons.IH [of "m @ [(k, v)]"] Cons.prems by (simp add: p)
qed simp

lemma skill_map_id [simp]: "distinct (keys ks) \<Longrightarrow> skill_map ks = ks"
  using skill_map_id_aux [of "[]" ks] by (simp add: skill_map_def)

interpretation mem_rows: char_rows mem_world_port "\<lambda>r. r"
  by unfold_locales
    (auto simp: mem_world_port_def mw_LoadEnterState_def mw_LoadSkills_def mw_SetOnline_def mw_SetPosition_def
      mw_SaveState_def mw_SaveSkills_def)

section \<open>Properties\<close>

definition demo_row_pc :: entity where
  "demo_row_pc = demo_pc\<lparr>en_HP := 40, en_SP := 11, en_Str := 1, en_LearnedSkills := [(1, 3)]\<rparr>"

lemma demo_row_pc_simps [simp]:
  "en_Map demo_row_pc = ''prontera''" "en_Str demo_row_pc = 1" "en_Pos demo_row_pc = \<lparr>pos_X = 150, pos_Y = 160\<rparr>"
  "en_MaxHP demo_row_pc = 40"
  by (simp_all add: demo_row_pc_def)

text \<open>The fields the save path carries.\<close>

definition same_progress :: "entity \<Rightarrow> entity \<Rightarrow> bool" where
  "same_progress a b \<longleftrightarrow> en_Pos a = en_Pos b \<and> en_Level a = en_Level b \<and> en_JobLevel a = en_JobLevel b \<and>
     en_MaxHP a = en_MaxHP b \<and> en_MaxSP a = en_MaxSP b \<and> en_HP a = en_HP b \<and> en_SP a = en_SP b \<and>
     en_BaseExp a = en_BaseExp b \<and> en_JobExp a = en_JobExp b \<and> en_StatusPoint a = en_StatusPoint b \<and>
     en_SkillPoint a = en_SkillPoint b"

text \<open>
  Remark. Leaving and coming back. For a registered character with a table row and a cell on the canvas,
  \<open>LeaveMap\<close> succeeds and unregisters it, and a later \<open>EnterMap\<close> registers an entity with the same
  cell, levels, vitals, experience and points and, if it had any, the same skills. The map, however,
  is the one in the table row: leaving does not save it.
\<close>

theorem leave_enter_roundtrip:
  assumes "world_wf w" and "entity_at w c = Some e" and "r c = Some row" and "distinct (keys (en_LearnedSkills e))"
    and "en_LearnedSkills e \<noteq> []" and "on_canvas (en_Pos e)"
  shows "\<exists>w1 r1 e' w2 r2. LeaveMap mem_world_port c (w, r) = (Inr (), (w1, r1)) \<and> entity_at w1 c = None \<and>
    EnterMap mem_world_port c (w1, r1) = (Inr e', (w2, r2)) \<and> entity_at w2 = (entity_at w)(c \<mapsto> e') \<and>
    same_progress e' e \<and> en_LearnedSkills e' = en_LearnedSkills e \<and> en_Map e' = en_Map row"
proof -
  obtain w1 r1 where l: "LeaveMap mem_world_port c (w, r) = (Inr (), (w1, r1))" "world_wf w1"
      "entity_at w1 = (entity_at w)(c := None)" "r1 = r(c \<mapsto> mem_rows.saved_row row e)"
    using mem_rows.leave_ok [where s = r, OF assms(1-4)] by blast
  have free: "entity_at w1 c = None" and row1: "r1 c = Some (mem_rows.saved_row row e)"
    using l(3,4) by simp_all
  obtain e' w2 r2 where n: "EnterMap mem_world_port c (w1, r1) = (Inr e', (w2, r2))"
      "entity_at w2 = (entity_at w1)(c \<mapsto> e')"
      "e' = (mem_rows.saved_row row e)\<lparr>en_ID := c, en_Type := EntityTypePC,
         en_LearnedSkills := skill_map (en_LearnedSkills e)\<rparr>"
    using mem_rows.enter_ok [where s = r1 and c = c, OF l(2) free row1] assms(5,6) by (auto simp: mem_rows.saved_row_def)
  have "same_progress e' e" "en_LearnedSkills e' = en_LearnedSkills e" "en_Map e' = en_Map row"
    using assms(4) by (simp_all add: n(3) same_progress_def mem_rows.saved_row_def)
  then show ?thesis
    using l n free by (intro exI [of _ w1] exI [of _ r1] exI [of _ e'] exI [of _ w2] exI [of _ r2]) simp
qed

definition demo_world_skilled :: world where
  "demo_world_skilled = put_entity 150001 (demo_pc\<lparr>en_LearnedSkills := [(1, 2)]\<rparr>) demo_world"

lemma demo_world_skilled_simps [simp]:
  "world_wf demo_world_skilled" "entity_at demo_world_skilled = [150001 \<mapsto> demo_pc\<lparr>en_LearnedSkills := [(1, 2)]\<rparr>]"
  using wf_touch [OF demo_world_add(2), of 150001 demo_pc "demo_pc\<lparr>en_LearnedSkills := [(1, 2)]\<rparr>"]
  by (simp_all add: demo_world_skilled_def demo_world_add(3))

theorem leave_enter_roundtrip_witness:
  "\<exists>w1 r1 e' w2 r2. LeaveMap mem_world_port 150001 (demo_world_skilled, [150001 \<mapsto> demo_row_pc]) = (Inr (), (w1, r1)) \<and>
     EnterMap mem_world_port 150001 (w1, r1) = (Inr e', (w2, r2)) \<and> en_HP e' = 10 \<and> en_LearnedSkills e' = [(1, 2)]"
  using leave_enter_roundtrip [of demo_world_skilled 150001 "demo_pc\<lparr>en_LearnedSkills := [(1, 2)]\<rparr>"
      "[150001 \<mapsto> demo_row_pc]" demo_row_pc]
  by (auto simp: on_canvas_def same_progress_def)

text \<open>
  Remark. The shutdown flush and the periodic checkpoint destroy the maximum vitals: for every online
  player with a table row, both write \<open>max_hp = max_sp = 0\<close> whatever the live maxima are. Entering
  with such a row into an empty world, any later healing item then sets HP and SP to 0.
\<close>

theorem flush_wipes_max_vitals:
  assumes "world_wf w" and "entity_at w c = Some e" and "en_Type e = EntityTypePC" and "r c = Some row"
    and "on_canvas (en_Pos e)"
  shows "\<exists>row'. snd (SaveAll mem_world_port (w, r)) c = Some row' \<and> snd (Checkpoint mem_world_port (w, r)) c = Some row' \<and>
    en_HP row' = en_HP e \<and> en_MaxHP row' = 0 \<and> en_MaxSP row' = 0 \<and>
    (\<exists>e' w2 r2 w3. EnterMap mem_world_port c (NewWorldService, snd (SaveAll mem_world_port (w, r))) = (Inr e', (w2, r2)) \<and>
       AddVitals c hp sp w2 = (Inr (0, 0), w3))"
proof -
  let ?row = "mem_rows.flushed_row row e"
  note saved = mem_rows.save_all_row [where s = r, OF assms(1-4)]
  have "on_canvas (en_Pos ?row)"
    using assms(5) by (simp add: mem_rows.flushed_row_def)
  then obtain e' w2 r2 where n: "EnterMap mem_world_port c (NewWorldService, snd (SaveAll mem_world_port (w, r))) = (Inr e', (w2, r2))"
      "entity_at w2 = (entity_at NewWorldService)(c \<mapsto> e')" "en_MaxHP e' = 0" "en_MaxSP e' = 0"
    using mem_rows.enter_ok [where s = "snd (SaveAll mem_world_port (w, r))" and c = c, OF new_world_wf _ saved(1)]
    by (auto simp: NewWorldService_def mem_rows.flushed_row_def)
  then have "AddVitals c hp sp w2 = (Inr (0, 0), snd (AddVitals c hp sp w2))"
    by (simp add: AddVitals_def clampVitals_def)
  then show ?thesis
    using saved n(1) by (auto simp: mem_rows.flushed_row_def)
qed

theorem flush_wipes_max_vitals_witness:
  "\<exists>row'. snd (SaveAll mem_world_port (demo_world, [150001 \<mapsto> demo_row_pc])) 150001 = Some row' \<and>
     en_HP row' = 10 \<and> en_MaxHP row' = 0"
  using flush_wipes_max_vitals [of demo_world 150001 demo_pc "[150001 \<mapsto> demo_row_pc]" demo_row_pc 45 0]
  by (auto simp: demo_world_add on_canvas_def)

text \<open>
  Remark. A raised stat does not survive a relog: after a successful \<open>AllocateStat\<close>, leaving and entering
  again, the character has the table row's old stat value and the reduced status points.
\<close>

theorem raised_stat_lost_on_relog:
  assumes "world_wf w" and "entity_at w c = Some e" and "r c = Some row" and "distinct (keys (en_LearnedSkills e))"
    and "on_canvas (en_Pos e)"
    and alloc: "AllocateStat c st w = (Inr (nv, left, cost), w0)"
  shows "\<exists>w1 r1 e' w2 r2. LeaveMap mem_world_port c (w0, r) = (Inr (), (w1, r1)) \<and>
    EnterMap mem_world_port c (w1, r1) = (Inr e', (w2, r2)) \<and>
    stat_get st e' = stat_get st row \<and> en_StatusPoint e' = left"
proof -
  obtain v where v: "stat_get st e = Some v"
    using alloc assms(2) by (auto simp: AllocateStat_def split: option.splits)
  let ?e = "stat_put st (v + 1) (e\<lparr>en_StatusPoint := left\<rparr>)"
  have w0: "w0 = put_entity c ?e w"
    using alloc assms(2) v by (auto simp: AllocateStat_def Let_def split: if_splits)
  have wf0: "world_wf w0"
    unfolding w0 by (rule wf_touch [OF assms(1,2)]) simp_all
  have e0: "entity_at w0 c = Some ?e"
    by (simp add: w0)
  have ls: "en_LearnedSkills ?e = en_LearnedSkills e" "en_StatusPoint ?e = left"
    by (simp_all add: stat_put_def)
  have d: "distinct (keys (en_LearnedSkills ?e))"
    using assms(4) ls(1) by simp
  obtain w1 r1 where l: "LeaveMap mem_world_port c (w0, r) = (Inr (), (w1, r1))" "world_wf w1"
      "entity_at w1 = (entity_at w0)(c := None)" "r1 = r(c \<mapsto> mem_rows.saved_row row ?e)"
    using mem_rows.leave_ok [where s = r, OF wf0 e0 assms(3) d] by blast
  have free: "entity_at w1 c = None" and row1: "r1 c = Some (mem_rows.saved_row row ?e)"
    using l(3,4) by simp_all
  have "on_canvas (en_Pos (mem_rows.saved_row row ?e))"
    using assms(5) by (simp add: mem_rows.saved_row_def)
  from mem_rows.enter_ok [where s = r1 and c = c, OF l(2) free row1 this] obtain e' w2 r2 where
    n: "EnterMap mem_world_port c (w1, r1) = (Inr e', (w2, r2))"
      "stat_get st e' = stat_get st (mem_rows.saved_row row ?e)" "en_StatusPoint e' = en_StatusPoint (mem_rows.saved_row row ?e)"
    by (auto simp: stat_get_def)
  have "stat_get st (mem_rows.saved_row row ?e) = stat_get st row" "en_StatusPoint (mem_rows.saved_row row ?e) = left"
    using ls(2) by (simp_all add: stat_get_def mem_rows.saved_row_def)
  then show ?thesis
    using l(1) n by auto
qed

theorem raised_stat_lost_on_relog_witness:
  "\<exists>w0 w1 r1 e' w2 r2. AllocateStat 150001 ''Str'' demo_world = (Inr (10, 0, 2), w0) \<and>
     LeaveMap mem_world_port 150001 (w0, [150001 \<mapsto> demo_row_pc]) = (Inr (), (w1, r1)) \<and>
     EnterMap mem_world_port 150001 (w1, r1) = (Inr e', (w2, r2)) \<and> en_Str e' = 1 \<and> en_StatusPoint e' = 0"
proof -
  let ?w0 = "put_entity 150001 (demo_pc\<lparr>en_StatusPoint := 0, en_Str := 10\<rparr>) demo_world"
  have a: "AllocateStat 150001 ''Str'' demo_world = (Inr (10, 0, 2), ?w0)"
    by (simp add: AllocateStat_def demo_world_add(3) stat_get_def stat_put_def StatusPointCost_def)
  show ?thesis
    using raised_stat_lost_on_relog [OF demo_world_add(2), of 150001 demo_pc "[150001 \<mapsto> demo_row_pc]" demo_row_pc, OF _ _ _ _ a] a
    by (auto simp: demo_world_add(3) stat_get_def on_canvas_def)
qed

text \<open>
  A run of the world service over any repository \<open>P\<close>: calls on the live registry at any cells, entering and leaving maps,
  portal relocations onto maps that have a grid, and changes of the tables by anybody (saves, warps, checkpoints).
\<close>

inductive world_run :: "'s world_port \<Rightarrow> world \<times> 's \<Rightarrow> bool" for P where
  start: "world_run P (NewWorldService, s)"
| registry: "world_run P (w, s) \<Longrightarrow> registry_call w w' \<Longrightarrow> world_run P (w', s)"
| enter: "world_run P st \<Longrightarrow> world_run P (snd (EnterMap P c st))"
| leave: "world_run P st \<Longrightarrow> world_run P (snd (LeaveMap P c st))"
| relocate: "world_run P st \<Longrightarrow> w_grids (fst st) m \<noteq> None \<Longrightarrow> world_run P (snd (RelocatePlayer P c m x y st))"
| tables: "world_run P (w, s) \<Longrightarrow> world_run P (w, s')"

lemma repo_call_world [simp]: "fst (snd (repo_call f st)) = fst st"
  by (simp add: repo_call_def split: prod.split)

lemma world_call_world: "fst (snd (world_call f st)) = snd (f (fst st))"
  by (simp add: world_call_def split: prod.split)

lemma and_then_world:
  "fst (snd (and_then r f)) = (case fst r of Inl _ \<Rightarrow> fst (snd r) | Inr v \<Rightarrow> fst (snd (f v (snd r))))"
  by (cases r; cases "fst r") simp_all

lemma enter_world: "fst (snd (EnterMap P c st)) = fst st \<or> (\<exists>e. fst (snd (EnterMap P c st)) = snd (w_AddEntity e (fst st)))"
  unfolding EnterMap_def Let_def by (auto simp: and_then_world world_call_world split: sum.split)

lemma leave_world: "fst (snd (LeaveMap P c st)) = fst st \<or> fst (snd (LeaveMap P c st)) = snd (w_RemoveEntity c (fst st))"
  unfolding LeaveMap_def by (auto simp: and_then_world world_call_world split: sum.split)

lemma relocate_grids:
  assumes "grids_wf w" and "w_grids w m \<noteq> None"
  shows "grids_wf (fst (snd (RelocatePlayer P c m x y (w, s))))"
proof (cases "entity_at w c")
  case (Some e)
  let ?p = "\<lparr>pos_X = x, pos_Y = y\<rparr>" and ?e = "e\<lparr>en_Map := m, en_Pos := \<lparr>pos_X = x, pos_Y = y\<rparr>\<rparr>"
  have "grids_wf (on_grid m (aoi_AddEntity (aoi_at c ?p)) (on_grid (en_Map e) (aoi_RemoveEntity c) (put_entity c ?e w)))"
    by (rule grids_wf_moved(1) [OF assms(1) Some assms(2), where e' = ?e]) (use grids_wfD(1) [OF assms(1) Some] in simp_all)
  then show ?thesis
    unfolding RelocatePlayer_def Let_def by (simp only: prod.case Some option.case repo_call_world fst_conv)
qed (use assms in \<open>simp add: RelocatePlayer_def\<close>)

lemma world_run_grids: "world_run P st \<Longrightarrow> grids_wf (fst st)"
proof (induction rule: world_run.induct)
  case (registry w s w')
  then show ?case
    using registry_call_grids by simp
next
  case (enter st c)
  then show ?case
    using enter_world [of P c st] add_entity_grids by metis
next
  case (leave st c)
  then show ?case
    using leave_world [of P c st] remove_entity_grids by metis
next
  case (relocate st m c x y)
  then show ?case
    using relocate_grids [of "fst st" m P c x y "snd st"] by simp
qed (simp_all add: new_grids_wf)

lemma demo_world_run: "world_run mem_world_port (demo_world, Map.empty)"
  unfolding demo_world_def by (rule world_run.registry [OF world_run.start registry_call.add])

text \<open>
  C16. What players see. In every state the world service reaches, with any repository, by registrations,
  removals, moves, respawns, stat and vitals calls at any cells, entering and leaving maps, and portal relocations
  onto maps that have a grid, whether the calls succeed or fail: a visibility query at a cell of the canvas of a known map names
  exactly the registered entities of that map that stand on the canvas within 15 cells on both axes. (Left out is
  a relocation onto a map without a grid, which hides the player; an entity refused because its cell is off the
  canvas stays registered and unseen, see \<open>failed_add_leaves_ghost\<close>.)
\<close>

theorem visibility_matches_registry:
  assumes "world_run P (w, s)" and "w_grids w m \<noteq> None" and "0 \<le> x" and "x < 512" and "0 \<le> y" and "y < 512"
  shows "set (w_QueryVisible m x y w) = {i. \<exists>e. entity_at w i = Some e \<and> en_Map e = m \<and> on_canvas (en_Pos e) \<and>
    \<bar>pos_X (en_Pos e) - x\<bar> \<le> 15 \<and> \<bar>pos_Y (en_Pos e) - y\<bar> \<le> 15}"
  using world_run_grids [OF assms(1)] by (intro visible_shown) (simp_all add: assms(2-))

theorem visibility_matches_registry_witness:
  "set (w_QueryVisible ''prontera'' 140 170 demo_world) = {150001}"
proof -
  have "w_grids demo_world ''prontera'' \<noteq> None"
    using world_wfD(2) [OF demo_world_add(2), of 150001 demo_pc] by (simp add: demo_world_add(3))
  then show ?thesis
    using visibility_matches_registry [OF demo_world_run, of "''prontera''" 140 170]
    by (auto simp: demo_world_add(3) on_canvas_def)
qed

text \<open>
  Remark. \<open>RelocatePlayer\<close> (the portal path) forgets the per-map sets: after moving a player to another
  map, that map's player list does not contain it and the old map's still does. If the destination
  map has no grid yet, no visibility query on it can find the player.
\<close>

theorem relocate_forgets_player_lists:
  assumes wf: "world_wf w" and e: "entity_at w c = Some e" "en_Type e = EntityTypePC" and m: "m \<noteq> en_Map e"
    and row: "r c = Some row"
  shows "\<exists>w' r'. RelocatePlayer mem_world_port c m x y (w, r) = (Inr (), (w', r')) \<and>
    map_option en_Map (entity_at w' c) = Some m \<and>
    c \<in> set (PlayersOnMap (en_Map e) w') \<and> c \<notin> set (PlayersOnMap m w') \<and>
    (w_grids w m = None \<longrightarrow> w_QueryVisible m x y w' = [])"
proof -
  let ?p = "\<lparr>pos_X = x, pos_Y = y\<rparr>"
  let ?w = "on_grid m (aoi_AddEntity (aoi_at c ?p)) (on_grid (en_Map e) (aoi_RemoveEntity c)
    (put_entity c (e\<lparr>en_Map := m, en_Pos := ?p\<rparr>) w))"
  obtain g where "w_grids w (en_Map e) = Some g"
    using world_wfD(2) [OF wf e(1)] by auto
  then obtain s where s: "w_byMap w (en_Map e) = Some s" "c \<in> set s"
    using wf_byMap_grid [OF wf] e(1) by (force simp: on_map_Some)
  have other: "c \<notin> set t" if "w_byMap w m = Some t" for t
    using world_wfD(5) [OF wf that] e m by (auto simp: on_map_Some)
  have "RelocatePlayer mem_world_port c m x y (w, r) =
      (Inr (), (?w, r(c \<mapsto> row\<lparr>en_Map := m, en_Pos := ?p\<rparr>)))"
    using e row by (simp add: RelocatePlayer_def repo_call_def mem_world_port_def mw_SetPosition_def Let_def)
  moreover have "c \<in> set (PlayersOnMap (en_Map e) ?w)" "c \<notin> set (PlayersOnMap m ?w)"
    using s e(2) other by (auto simp: PlayersOnMap_def split: option.split)
  moreover have "w_QueryVisible m x y ?w = []" if "w_grids w m = None"
  proof -
    have gone: "w_grids ?w m = None"
      using that by simp
    show ?thesis
      unfolding w_QueryVisible_def gone by simp
  qed
  ultimately show ?thesis
    by auto
qed

theorem relocate_forgets_player_lists_witness:
  "\<exists>w' r'. RelocatePlayer mem_world_port 150001 ''geffen'' 10 20 (demo_world, [150001 \<mapsto> demo_row_pc]) = (Inr (), (w', r')) \<and>
     150001 \<in> set (PlayersOnMap ''prontera'' w')"
  using relocate_forgets_player_lists [OF demo_world_add(2), of 150001 demo_pc "''geffen''" "[150001 \<mapsto> demo_row_pc]" demo_row_pc 10 20]
  by (auto simp: demo_world_add(3))

end
