(* ===== verification/Databases.thy ===== *)
theory Databases
  imports GoPrelude
begin

unbundle bit_operations_syntax

text \<open>
  The static game data the world services look up: \<open>pkg/ro/equip\<close> (equip-slot bits),
  \<open>pkg/ro/itemdb\<close>, \<open>pkg/ro/mobdb\<close>, \<open>pkg/ro/attrfix\<close> and \<open>pkg/ro/sizefix\<close>. Each loader is modelled from
  the decoded YAML body on: the header test, the merge into the registry and its defaults. The
  regular expressions that read an \<open>itemheal\<close> script are not modelled; an entry carries the heal
  range they would have left (\<open>ie_heal\<close>). A nil registry is \<open>None\<close>.
\<close>

section \<open>Equip slots\<close>

definition HeadLow :: u32 where "HeadLow = 0x000001"
definition HandRight :: u32 where "HandRight = 0x000002"
definition Garment :: u32 where "Garment = 0x000004"
definition AccessoryRight :: u32 where "AccessoryRight = 0x000008"
definition Armor :: u32 where "Armor = 0x000010"
definition HandLeft :: u32 where "HandLeft = 0x000020"
definition Shoes :: u32 where "Shoes = 0x000040"
definition AccessoryLeft :: u32 where "AccessoryLeft = 0x000080"
definition HeadTop :: u32 where "HeadTop = 0x000100"
definition HeadMid :: u32 where "HeadMid = 0x000200"

definition Arms :: u32 where "Arms = HandRight OR HandLeft"
definition Accessories :: u32 where "Accessories = AccessoryRight OR AccessoryLeft"

definition locationBits :: "(string \<times> u32) list" where
  "locationBits =
     [(''head_top'', HeadTop), (''head_mid'', HeadMid), (''head_low'', HeadLow), (''armor'', Armor),
      (''right_hand'', HandRight), (''left_hand'', HandLeft), (''both_hand'', Arms), (''garment'', Garment),
      (''shoes'', Shoes), (''right_accessory'', AccessoryRight), (''left_accessory'', AccessoryLeft),
      (''both_accessory'', Accessories), (''costume_head_top'', 0x000400), (''costume_head_mid'', 0x000800),
      (''costume_head_low'', 0x001000), (''costume_garment'', 0x002000), (''ammo'', 0x008000),
      (''shadow_armor'', 0x010000), (''shadow_weapon'', 0x020000), (''shadow_shield'', 0x040000),
      (''shadow_shoes'', 0x080000), (''shadow_right_accessory'', 0x100000), (''shadow_left_accessory'', 0x200000)]"

definition LocationBits :: "(string \<times> bool) list \<Rightarrow> u32" where
  "LocationBits locations = foldl (\<lambda>bits (name, active).
     if \<not> active then bits
     else case map_of locationBits (ToLower name) of None \<Rightarrow> bits | Some loc \<Rightarrow> bits OR loc) 0 locations"

section \<open>Items\<close>

record item_entry =
  ie_Id :: int
  ie_AegisName :: string
  ie_Type :: string
  ie_SubType :: string
  ie_Buy :: int
  ie_Sell :: int
  ie_Weight :: int
  ie_Attack :: int
  ie_Defense :: int
  ie_Locations :: "(string \<times> bool) list"
  ie_EquipLocations :: u32
  ie_heal :: "(int \<times> int \<times> int \<times> int) option"

record item_registry =
  ig_entries :: "(int \<times> item_entry) list"
  ig_aegis :: "(string \<times> item_entry) list"

text \<open>\<open>Heal\<close> returns the parsed ranges, nil-safe.\<close>

definition Heal :: "item_entry option \<Rightarrow> (int \<times> int \<times> int \<times> int) option" where
  "Heal e = (case e of None \<Rightarrow> None | Some e \<Rightarrow> ie_heal e)"

definition itemdb_entry :: "item_entry \<Rightarrow> item_entry" where
  "itemdb_entry e =
     e\<lparr>ie_Type := (if ie_Type e = [] then ''Etc'' else ie_Type e), ie_EquipLocations := LocationBits (ie_Locations e)\<rparr>"

definition itemdb_add :: "item_registry \<Rightarrow> item_entry option \<Rightarrow> item_registry" where
  "itemdb_add g oe =
     (case oe of
        None \<Rightarrow> g
      | Some e0 \<Rightarrow>
          let e = itemdb_entry e0;
              g = g\<lparr>ig_entries := AList.update (ie_Id e) e (ig_entries g)\<rparr>
          in if ie_AegisName e \<noteq> [] then g\<lparr>ig_aegis := AList.update (ie_AegisName e) e (ig_aegis g)\<rparr> else g)"

definition itemdb_build :: "item_entry option list list \<Rightarrow> item_registry" where
  "itemdb_build bodies = foldl itemdb_add \<lparr>ig_entries = [], ig_aegis = []\<rparr> (concat bodies)"

definition itemdb_header :: "string \<Rightarrow> int \<Rightarrow> unit res" where
  "itemdb_header kd version =
     (if kd \<noteq> ''ITEM_DB'' then Inl (ErrText ''unexpected Header.Type'')
      else if version \<noteq> 3 then Inl (ErrText ''unsupported Header.Version'') else Inr ())"

definition itemdb_Get :: "item_registry option \<Rightarrow> int \<Rightarrow> item_entry option" where
  "itemdb_Get g i = (case g of None \<Rightarrow> None | Some g \<Rightarrow> map_of (ig_entries g) i)"

definition ByAegisName :: "item_registry option \<Rightarrow> string \<Rightarrow> item_entry option" where
  "ByAegisName g name = (case g of None \<Rightarrow> None | Some g \<Rightarrow> if name = [] then None else map_of (ig_aegis g) name)"

definition itemdb_Len :: "item_registry option \<Rightarrow> nat" where
  "itemdb_Len g = (case g of None \<Rightarrow> 0 | Some g \<Rightarrow> length (ig_entries g))"

definition maxItemID :: u32 where "maxItemID = 0x7FFFFFFF"

definition Weight :: "item_registry option \<Rightarrow> u32 \<Rightarrow> u32" where
  "Weight g nameID =
     (if nameID > maxItemID then 0
      else case itemdb_Get g (sint nameID) of
        None \<Rightarrow> 0 | Some e \<Rightarrow> if ie_Weight e < 0 then 0 else word_of_int (ie_Weight e))"

definition WireType :: "string \<Rightarrow> u16" where
  "WireType t =
     (let s = ToLower t
      in if s = ''healing'' then 0
         else if s \<in> {''usable'', ''unknown'', ''delayconsume''} then 2
         else if s \<in> {''etc'', ''''} then 3
         else if s \<in> {''armor'', ''petegg'', ''petarmor'', ''shadowgear''} then 4
         else if s = ''weapon'' then 5
         else if s = ''card'' then 6
         else if s = ''ammo'' then 10
         else if s = ''cash'' then 13
         else 3)"

definition IsStackable :: "item_registry option \<Rightarrow> u32 \<Rightarrow> bool" where
  "IsStackable g nameID =
     (if nameID > maxItemID then True
      else case itemdb_Get g (sint nameID) of
        None \<Rightarrow> True
      | Some e \<Rightarrow> \<not> (EqualFold (ie_Type e) ''Weapon'' \<or> EqualFold (ie_Type e) ''Armor'' \<or> EqualFold (ie_Type e) ''Petegg''
          \<or> EqualFold (ie_Type e) ''Petarmor'' \<or> EqualFold (ie_Type e) ''Shadowgear''))"

text \<open>The look-up both world services use: an id above the int32 range is unknown.\<close>

definition itemEntry :: "item_registry option \<Rightarrow> u32 \<Rightarrow> item_entry option" where
  "itemEntry g nameID = (if g = None \<or> nameID > maxItemID then None else itemdb_Get g (sint nameID))"

section \<open>Mobs\<close>

record drop_entry =
  dr_Item :: string
  dr_Rate :: int

record mob_entry =
  mb_Id :: int
  mb_AegisName :: string
  mb_Name :: string
  mb_Level :: int
  mb_Hp :: int
  mb_BaseExp :: int
  mb_JobExp :: int
  mb_Attack :: int
  mb_Attack2 :: int
  mb_Defense :: int
  mb_MagicDefense :: int
  mb_Str :: int
  mb_Agi :: int
  mb_Vit :: int
  mb_Int :: int
  mb_Dex :: int
  mb_Luk :: int
  mb_WalkSpeed :: int
  mb_AttackRange :: int
  mb_ChaseRange :: int
  mb_Size :: string
  mb_Race :: string
  mb_Element :: string
  mb_ElementLevel :: int
  mb_Ai :: int
  mb_Drops :: "drop_entry list"

type_synonym mob_registry = "(int \<times> mob_entry) list"

definition mobdb_NewRegistry :: mob_registry where
  "mobdb_NewRegistry = []"

definition mobdb_Load :: "string \<Rightarrow> int \<Rightarrow> mob_entry option list \<Rightarrow> mob_registry res" where
  "mobdb_Load kd version body =
     (if kd \<noteq> ''MOB_DB'' then Inl (ErrText ''unexpected Header.Type'')
      else if version \<noteq> 5 then Inl (ErrText ''unsupported Header.Version'')
      else Inr (foldl (\<lambda>g oe. case oe of None \<Rightarrow> g | Some e \<Rightarrow> AList.update (mb_Id e) e g) [] body))"

definition mobdb_Get :: "mob_registry option \<Rightarrow> int \<Rightarrow> mob_entry option" where
  "mobdb_Get g i = (case g of None \<Rightarrow> None | Some g \<Rightarrow> map_of g i)"

definition mobdb_Len :: "mob_registry option \<Rightarrow> nat" where
  "mobdb_Len g = (case g of None \<Rightarrow> 0 | Some g \<Rightarrow> length g)"

section \<open>Element rates\<close>

abbreviation EleNeutral :: int where "EleNeutral \<equiv> 0"

definition elementByName :: "(string \<times> int) list" where
  "elementByName = [(''Neutral'', 0), (''Water'', 1), (''Earth'', 2), (''Fire'', 3), (''Wind'', 4), (''Poison'', 5),
     (''Holy'', 6), (''Dark'', 7), (''Shadow'', 7), (''Ghost'', 8), (''Undead'', 9)]"

definition ParseElement :: "string \<Rightarrow> int option" where
  "ParseElement name = map_of elementByName name"

text \<open>The array \<open>[10][10]int\<close>, as a function of its two indices.\<close>

type_synonym level_table = "int \<Rightarrow> int \<Rightarrow> int"

definition identityLevelTable :: level_table where
  "identityLevelTable = (\<lambda>a d. 100)"

record rate_table =
  rt_byLevel :: "(int \<times> level_table) list"
  rt_maxLevel :: int

definition NewRateTable :: rate_table where
  "NewRateTable = \<lparr>rt_byLevel = [], rt_maxLevel = 0\<rparr>"

definition rt_MaxLevel :: "rate_table option \<Rightarrow> int" where
  "rt_MaxLevel t = (case t of None \<Rightarrow> 0 | Some t \<Rightarrow> rt_maxLevel t)"

definition levelTable :: "rate_table \<Rightarrow> int \<Rightarrow> level_table" where
  "levelTable t defenderEleLevel =
     (if rt_byLevel t = [] then identityLevelTable
      else let lvl = max defenderEleLevel 1;
               lvl = (if rt_maxLevel t > 0 \<and> lvl > rt_maxLevel t then rt_maxLevel t else lvl)
        in case map_of (rt_byLevel t) lvl of Some lt \<Rightarrow> lt | None \<Rightarrow> identityLevelTable)"

definition attr_Rate :: "rate_table option \<Rightarrow> int \<Rightarrow> int \<Rightarrow> int \<Rightarrow> int" where
  "attr_Rate t attackerEle defenderEle defenderEleLevel =
     (case t of
        None \<Rightarrow> 100
      | Some t \<Rightarrow>
          if attackerEle < 0 \<or> attackerEle \<ge> 10 \<or> defenderEle < 0 \<or> defenderEle \<ge> 10 then 100
          else levelTable t defenderEleLevel attackerEle defenderEle)"

text \<open>The attacker rows of one body entry, in file order; the Level scalar is decoded apart.\<close>

fun attr_row :: "int \<Rightarrow> (string \<times> int) list \<Rightarrow> level_table \<Rightarrow> level_table res" where
  "attr_row a [] lt = Inr lt"
| "attr_row a ((defName, pct) # rest) lt =
     (case ParseElement defName of
        None \<Rightarrow> Inl (ErrText ''unknown defender element'')
      | Some d \<Rightarrow> attr_row a rest (lt(a := (lt a)(d := pct))))"

fun attr_level :: "(string \<times> (string \<times> int) list) list \<Rightarrow> level_table \<Rightarrow> level_table res" where
  "attr_level [] lt = Inr lt"
| "attr_level ((attName, row) # rest) lt =
     (case ParseElement attName of
        None \<Rightarrow> Inl (ErrText ''unknown attacker element'')
      | Some a \<Rightarrow> (case attr_row a row lt of Inl e \<Rightarrow> Inl e | Inr lt \<Rightarrow> attr_level rest lt))"

fun attr_body :: "(int \<times> level_table) list \<Rightarrow> rate_table \<Rightarrow> rate_table res" where
  "attr_body [] t = Inr t"
| "attr_body ((level, lt) # rest) t =
     (if level < 1 then Inl (ErrText ''missing or invalid Level'')
      else attr_body rest (t\<lparr>rt_byLevel := AList.update level lt (rt_byLevel t),
        rt_maxLevel := (if level > rt_maxLevel t then level else rt_maxLevel t)\<rparr>))"

definition attr_Load :: "string \<Rightarrow> (int \<times> level_table) list \<Rightarrow> rate_table res" where
  "attr_Load kd body =
     (if kd \<noteq> ''ATTRIBUTE_DB'' then Inl (ErrText ''unexpected Header.Type'') else attr_body body NewRateTable)"

section \<open>Size rates\<close>

record size_rates =
  sz_Small :: int
  sz_Medium :: int
  sz_Large :: int

type_synonym size_table = "(string \<times> size_rates) list"

record raw_size =
  rw_Weapon :: string
  rw_Small :: "int option"
  rw_Medium :: "int option"
  rw_Large :: "int option"

definition NewSizeTable :: size_table where
  "NewSizeTable = []"

definition sizeIndex :: "string \<Rightarrow> int" where
  "sizeIndex name = (if name = ''Small'' then 0 else if name = ''Medium'' then 1 else if name = ''Large'' then 2 else -1)"

definition size_Rate :: "size_table option \<Rightarrow> string \<Rightarrow> string \<Rightarrow> int" where
  "size_Rate t weaponSubType mobSize =
     (case t of
        None \<Rightarrow> 100
      | Some t \<Rightarrow>
          case map_of t weaponSubType of
            None \<Rightarrow> 100
          | Some r \<Rightarrow>
              let i = sizeIndex mobSize
              in if i = 0 then sz_Small r else if i = 1 then sz_Medium r else if i = 2 then sz_Large r else 100)"

definition defaultIfNil :: "int option \<Rightarrow> int" where
  "defaultIfNil p = (case p of None \<Rightarrow> 100 | Some v \<Rightarrow> v)"

definition size_rates_of :: "raw_size \<Rightarrow> size_rates" where
  "size_rates_of e = \<lparr>sz_Small = defaultIfNil (rw_Small e), sz_Medium = defaultIfNil (rw_Medium e), sz_Large = defaultIfNil (rw_Large e)\<rparr>"

fun size_body :: "raw_size list \<Rightarrow> size_table \<Rightarrow> size_table res" where
  "size_body [] t = Inr t"
| "size_body (e # rest) t =
     (if rw_Weapon e = [] then Inl (ErrText ''body entry missing Weapon'')
      else size_body rest (AList.update (rw_Weapon e) (size_rates_of e) t))"

definition size_Load :: "string \<Rightarrow> raw_size list \<Rightarrow> size_table res" where
  "size_Load kd body =
     (if kd \<noteq> ''SIZE_FIX_DB'' then Inl (ErrText ''unexpected Header.Type'') else size_body body NewSizeTable)"

section \<open>Facts about the data\<close>

text \<open>
  The slot mask is the union over the active, known names: it does not depend on the order in which
  the Go map is ranged over.
\<close>

lemma LocationBits_bit:
  "bit (LocationBits ls) n \<longleftrightarrow> (\<exists>name b. (name, True) \<in> set ls \<and> map_of locationBits (ToLower name) = Some b \<and> bit b n)"
proof -
  let ?f = "\<lambda>bits (name, active). if \<not> active then bits
    else case map_of locationBits (ToLower name) of None \<Rightarrow> bits | Some loc \<Rightarrow> bits OR loc"
  have "bit (foldl ?f w ls) n \<longleftrightarrow> bit w n \<or>
      (\<exists>name b. (name, True) \<in> set ls \<and> map_of locationBits (ToLower name) = Some b \<and> bit b n)" for w
  proof (induction ls arbitrary: w)
    case (Cons p ls)
    obtain name active where p: "p = (name, active)"
      by (cases p)
    have "bit (?f w p) n \<longleftrightarrow> bit w n \<or> (active \<and> (\<exists>b. map_of locationBits (ToLower name) = Some b \<and> bit b n))"
      by (auto simp: p bit_or_iff split: option.split)
    then show ?case
      using Cons.IH [of "?f w p"] by (auto simp: p)
  qed simp
  from this [of 0] show ?thesis
    by (simp add: LocationBits_def)
qed

lemma LocationBits_order:
  assumes "set ls = set ls'"
  shows "LocationBits ls = LocationBits ls'"
  by (rule bit_word_eqI) (simp add: LocationBits_bit assms)

text \<open>An item id resolves to the last non-nil entry of the loaded bodies that carries it.\<close>

lemma itemdb_add_Get:
  "map_of (ig_entries (itemdb_add g oe)) i =
     (case oe of Some e \<Rightarrow> if ie_Id e = i then Some (itemdb_entry e) else map_of (ig_entries g) i
      | None \<Rightarrow> map_of (ig_entries g) i)"
  by (auto simp: itemdb_add_def itemdb_entry_def Let_def split: option.split)

lemma itemdb_build_Get:
  "itemdb_Get (Some (itemdb_build bodies)) i =
     (case filter (\<lambda>e. ie_Id e = i) (map the (filter (\<lambda>oe. oe \<noteq> None) (concat bodies))) of
        [] \<Rightarrow> None | es \<Rightarrow> Some (itemdb_entry (last es)))"
proof -
  have "map_of (ig_entries (foldl itemdb_add g oes)) i =
      (case filter (\<lambda>e. ie_Id e = i) (map the (filter (\<lambda>oe. oe \<noteq> None) oes)) of
         [] \<Rightarrow> map_of (ig_entries g) i | es \<Rightarrow> Some (itemdb_entry (last es)))" for g oes
  proof (induction oes arbitrary: g)
    case (Cons oe oes)
    show ?case
      unfolding foldl_Cons Cons.IH [of "itemdb_add g oe"] itemdb_add_Get
      by (auto split: option.split list.split)
  qed simp
  from this [of _ "concat bodies"] show ?thesis
    by (simp add: itemdb_build_def itemdb_Get_def cong: list.case_cong)
qed

end
