(* ===== verification/Combat.thy ===== *)
theory Combat
  imports Stats Databases World
begin

text \<open>
  Melee combat: the deterministic damage kernel (\<open>pkg/ro/combat/damage.go\<close>, \<open>attackrange.go\<close>) and
  \<open>CombatService\<close> (\<open>world/app/combat.go\<close>), which builds both profiles from the registry and the
  databases, rolls accuracy and critical, and applies the damage. The int64 arithmetic of the kernel
  is written with its wrap-around; the renewal division panics on a zero divisor (\<open>None\<close>). The
  dice of a hit are the values its two \<open>Intn\<close> calls return; a nil dice is \<open>None\<close>. The formula set and
  mode are the constructor's: pre-renewal.
\<close>

section \<open>Reach\<close>

definition Chebyshev :: "int \<Rightarrow> int \<Rightarrow> int \<Rightarrow> int \<Rightarrow> int" where
  "Chebyshev ax ay bx by' = (let dx = \<bar>ax - bx\<bar>; dy = \<bar>ay - by'\<bar> in if dx > dy then dx else dy)"

definition InMeleeRange :: "int \<Rightarrow> int \<Rightarrow> int \<Rightarrow> int \<Rightarrow> bool" where
  "InMeleeRange ax ay bx by' = (let dx = \<bar>ax - bx\<bar>; dy = \<bar>ay - by'\<bar> in if dx > dy then dx \<le> 1 else dy \<le> 1)"

definition InPickupRange :: "int \<Rightarrow> int \<Rightarrow> int \<Rightarrow> int \<Rightarrow> bool" where
  "InPickupRange ax ay bx by' = (let dx = \<bar>ax - bx\<bar>; dy = \<bar>ay - by'\<bar> in if dx > dy then dx \<le> 2 else dy \<le> 2)"

section \<open>The damage kernel\<close>

record attacker =
  at_Base :: base_stats
  at_Equipment :: equipment
  at_WeaponElement :: int
  at_WeaponSubType :: string

record defender =
  df_HardDEF :: int
  df_SoftDEF :: int
  df_Element :: int
  df_ElementLevel :: int
  df_Size :: string
  df_Flee :: int

record hit_result =
  hr_Damage :: int
  hr_ElementRate :: int
  hr_SizeRate :: int
  hr_HitRate :: int
  hr_CritRate :: int
  hr_Crit :: bool
  hr_Miss :: bool

record hit_roll =
  rl_Hit :: bool
  rl_Crit :: bool

definition isMiss :: "hit_roll \<Rightarrow> bool" where
  "isMiss r \<longleftrightarrow> \<not> rl_Hit r \<and> \<not> rl_Crit r"

definition applyPostDEF :: "int \<Rightarrow> int \<Rightarrow> int \<Rightarrow> bool \<Rightarrow> int" where
  "applyPostDEF damage elementRate sizeRate crit =
     (let d = go_div (i64 (damage * elementRate)) 100;
          d = go_div (i64 (d * sizeRate)) 100
      in if crit then i64 (d * 2) else d)"

definition elementModifier :: "rate_table option \<Rightarrow> int \<Rightarrow> int \<Rightarrow> int \<Rightarrow> int" where
  "elementModifier t attackerEle defenderEle defenderLevel =
     (if t = None \<or> defenderLevel \<le> 0 then 100 else i32 (attr_Rate t attackerEle defenderEle defenderLevel))"

definition sizeModifier :: "size_table option \<Rightarrow> string \<Rightarrow> string \<Rightarrow> int" where
  "sizeModifier t weaponSubType mobSize =
     (if t = None \<or> weaponSubType = [] \<or> mobSize = [] then 100 else i32 (size_Rate t weaponSubType mobSize))"

definition reducePreRenewal :: "int \<Rightarrow> int \<Rightarrow> int \<Rightarrow> int" where
  "reducePreRenewal damage def1 vitDef = i64 (go_div (i64 (damage * (100 - def1))) 100 - vitDef)"

definition reduceRenewal :: "int \<Rightarrow> int \<Rightarrow> int \<Rightarrow> int option" where
  "reduceRenewal damage def1 vitDef =
     (if 4000 + 10 * def1 = 0 then None
      else Some (i64 (go_div (i64 (damage * (4000 + def1))) (4000 + 10 * def1) - vitDef)))"

definition clampNonNeg :: "int \<Rightarrow> int" where
  "clampNonNeg damage = i32 (max damage 0)"

definition NormalMelee ::
  "attacker \<Rightarrow> defender \<Rightarrow> formula_set \<Rightarrow> game_mode \<Rightarrow> rate_table option \<Rightarrow> size_table option \<Rightarrow> hit_roll \<Rightarrow> hit_result option" where
  "NormalMelee a d fs m attrs sizes roll =
     (let hitRate = fs_Hit fs (at_Base a); critRate = fs_Critical fs (at_Base a);
          elementRate = elementModifier attrs (at_WeaponElement a) (df_Element d) (df_ElementLevel d);
          sizeRate = sizeModifier sizes (at_WeaponSubType a) (df_Size d);
          batk = fs_BaseATK fs (at_Base a);
          watk = eq_WeaponATK (at_Equipment a);
          crit = rl_Crit roll; miss = isMiss roll;
          result = (\<lambda>dmg. \<lparr>hr_Damage = dmg, hr_ElementRate = elementRate, hr_SizeRate = sizeRate,
            hr_HitRate = hitRate, hr_CritRate = critRate, hr_Crit = crit, hr_Miss = miss\<rparr>)
      in if m = Renewal then
           (case reduceRenewal (2 * batk + watk) (df_HardDEF d) (df_SoftDEF d) of
              None \<Rightarrow> None
            | Some damage \<Rightarrow>
                let damage = applyPostDEF damage elementRate sizeRate crit
                in Some (result (clampNonNeg (if miss then 0 else damage))))
         else
           let damage = max (reducePreRenewal (batk + watk) (df_HardDEF d) (df_SoftDEF d)) 1;
               damage = applyPostDEF damage elementRate sizeRate crit
           in Some (result (i32 (if miss then 0 else damage))))"

section \<open>The service\<close>

text \<open>
  \<open>cb_equip\<close> is the equipment profiler (the gear service or a test double), reading the inventory as it
  is when the hit resolves. \<open>cb_dice k n\<close> is the value of the \<open>k\<close>-th call \<open>Intn(n)\<close> of the hit.
\<close>

record combat_service =
  cb_mobs :: "mob_registry option"
  cb_equip :: "(u32 \<Rightarrow> u32 \<Rightarrow> equipment res) option"
  cb_attrs :: "rate_table option"
  cb_sizes :: "size_table option"
  cb_fs :: formula_set
  cb_m :: game_mode
  cb_dice :: "(nat \<Rightarrow> int \<Rightarrow> int) option"

definition NewCombatService ::
  "mob_registry option \<Rightarrow> (u32 \<Rightarrow> u32 \<Rightarrow> equipment res) option \<Rightarrow> rate_table option \<Rightarrow> size_table option
     \<Rightarrow> (nat \<Rightarrow> int \<Rightarrow> int) option \<Rightarrow> combat_service" where
  "NewCombatService mobs equip attrs sizes dice = \<lparr>cb_mobs = mobs, cb_equip = equip, cb_attrs = attrs,
     cb_sizes = sizes, cb_fs = PreRenewalSet, cb_m = PreRenewal, cb_dice = dice\<rparr>"

definition combat_roll :: "combat_service \<Rightarrow> base_stats \<Rightarrow> defender \<Rightarrow> hit_roll" where
  "combat_roll C base def =
     (case cb_dice C of
        None \<Rightarrow> \<lparr>rl_Hit = True, rl_Crit = False\<rparr>
      | Some dice \<Rightarrow>
          let hitPct = fs_Hit (cb_fs C) base - df_Flee def + 80;
              hitPct = max 5 (min hitPct 95);
              critRate = fs_Critical (cb_fs C) base
          in \<lparr>rl_Hit = dice 0 100 < hitPct, rl_Crit = dice 1 1000 < critRate\<rparr>)"

definition mobAttackerEquipment :: "mob_registry option \<Rightarrow> entity \<Rightarrow> equipment" where
  "mobAttackerEquipment mobs e =
     (if mobs = None \<or> en_Class e = 0 then zero_equipment
      else case mobdb_Get mobs (en_Class e) of
        None \<Rightarrow> zero_equipment
      | Some mob \<Rightarrow> zero_equipment\<lparr>eq_WeaponATK := i32 (mb_Attack mob + mb_Attack2 mob)\<rparr>)"

definition attackerEquipment :: "combat_service \<Rightarrow> entity \<Rightarrow> equipment res" where
  "attackerEquipment C e =
     (if en_Type e = EntityTypeMob then Inr (mobAttackerEquipment (cb_mobs C) e)
      else case cb_equip C of None \<Rightarrow> Inr zero_equipment | Some profile \<Rightarrow> profile (en_Account e) (en_ID e))"

definition attackerBase :: "combat_service \<Rightarrow> entity \<Rightarrow> base_stats" where
  "attackerBase C e =
     (let own = \<lparr>bs_Level = word_of_int (en_Level e), bs_Str = en_Str e, bs_Agi = en_Agi e, bs_Vit = en_Vit e,
            bs_Int = en_Int e, bs_Dex = en_Dex e, bs_Luk = en_Luk e\<rparr>
      in if en_Type e = EntityTypeMob \<and> en_Class e \<noteq> 0 then
           (case mobdb_Get (cb_mobs C) (en_Class e) of
              None \<Rightarrow> own
            | Some mob \<Rightarrow> \<lparr>bs_Level = word_of_int (mb_Level mob), bs_Str = word_of_int (mb_Str mob),
                bs_Agi = word_of_int (mb_Agi mob), bs_Vit = word_of_int (mb_Vit mob), bs_Int = word_of_int (mb_Int mob),
                bs_Dex = word_of_int (mb_Dex mob), bs_Luk = word_of_int (mb_Luk mob)\<rparr>)
         else own)"

definition mobElement :: "string \<Rightarrow> int" where
  "mobElement name = (case ParseElement name of None \<Rightarrow> EleNeutral | Some ele \<Rightarrow> ele)"

definition zero_defender :: defender where
  "zero_defender = \<lparr>df_HardDEF = 0, df_SoftDEF = 0, df_Element = 0, df_ElementLevel = 0, df_Size = [], df_Flee = 0\<rparr>"

definition defenderProfile :: "mob_registry option \<Rightarrow> entity \<Rightarrow> defender" where
  "defenderProfile mobs e =
     (if en_Type e \<noteq> EntityTypeMob \<or> en_Class e = 0 then zero_defender\<lparr>df_SoftDEF := uint (en_Vit e)\<rparr>
      else case mobdb_Get mobs (en_Class e) of
        None \<Rightarrow> zero_defender
      | Some mob \<Rightarrow> \<lparr>df_HardDEF = mb_Defense mob, df_SoftDEF = mb_Vit mob, df_Element = mobElement (mb_Element mob),
          df_ElementLevel = mb_ElementLevel mob, df_Size = mb_Size mob, df_Flee = i32 (mb_Level mob + mb_Agi mob)\<rparr>)"

definition applyDamage :: "u32 \<Rightarrow> int \<Rightarrow> world \<Rightarrow> bool \<times> world" where
  "applyDamage i dmg w =
     (case entity_at w i of
        None \<Rightarrow> (False, w)
      | Some e \<Rightarrow>
          let wasAlive = en_HP e > 0; hp = i32 (en_HP e - dmg)
          in if hp \<le> 0 then (wasAlive, put_entity i (e\<lparr>en_HP := 0\<rparr>) w)
             else (False, put_entity i (e\<lparr>en_HP := hp\<rparr>) w))"

text \<open>The result of \<open>Attack\<close>: \<open>None\<close> is the kernel's panic.\<close>

definition Attack :: "combat_service \<Rightarrow> u32 \<Rightarrow> u32 \<Rightarrow> world \<Rightarrow> (int \<times> bool, world) out option" where
  "Attack C attackerID defenderID w =
     (case w_Get attackerID w of
        Inl e \<Rightarrow> Some (Inl e, w)
      | Inr attacker \<Rightarrow>
          case w_Get defenderID w of
            Inl e \<Rightarrow> Some (Inl e, w)
          | Inr defender \<Rightarrow>
              case attackerEquipment C attacker of
                Inl e \<Rightarrow> Some (Inl e, w)
              | Inr equip \<Rightarrow>
                  let base = attackerBase C attacker;
                      def = defenderProfile (cb_mobs C) defender;
                      roll = combat_roll C base def
                  in case NormalMelee \<lparr>at_Base = base, at_Equipment = equip, at_WeaponElement = eq_WeaponElement equip,
                         at_WeaponSubType = eq_WeaponSubType equip\<rparr> def (cb_fs C) (cb_m C) (cb_attrs C) (cb_sizes C) roll of
                       None \<Rightarrow> None
                     | Some result \<Rightarrow>
                         if hr_Miss result then Some (Inr (0, False), w)
                         else case applyDamage defenderID (hr_Damage result) w of
                                (died, w') \<Rightarrow> Some (Inr (hr_Damage result, died), w'))"

section \<open>Range checks agree with the distance\<close>

lemma InMeleeRange_iff: "InMeleeRange ax ay bx by' \<longleftrightarrow> Chebyshev ax ay bx by' \<le> 1"
  by (auto simp: InMeleeRange_def Chebyshev_def Let_def)

lemma InPickupRange_iff: "InPickupRange ax ay bx by' \<longleftrightarrow> Chebyshev ax ay bx by' \<le> 2"
  by (auto simp: InPickupRange_def Chebyshev_def Let_def)

section \<open>The kernel computes the textbook formula\<close>
















section \<open>Properties\<close>









definition demo_mobs :: mob_registry where
  "demo_mobs = [(1002, \<lparr>mb_Id = 1002, mb_AegisName = ''PORING'', mb_Name = ''Poring'', mb_Level = 1, mb_Hp = 60, mb_BaseExp = 27, mb_JobExp = 20,
     mb_Attack = 8, mb_Attack2 = 1, mb_Defense = 2, mb_MagicDefense = 5, mb_Str = 6, mb_Agi = 1, mb_Vit = 1, mb_Int = 1, mb_Dex = 6, mb_Luk = 5,
     mb_WalkSpeed = 400, mb_AttackRange = 1, mb_ChaseRange = 12, mb_Size = ''Medium'', mb_Race = ''Plant'', mb_Element = ''Water'',
     mb_ElementLevel = 1, mb_Ai = 1, mb_Drops = []\<rparr>)]"

definition demo_mob :: entity where
  "demo_mob = zero_entity\<lparr>en_ID := 200001, en_Type := 5, en_Class := 1002, en_Map := ''prontera'',
     en_Pos := \<lparr>pos_X = 151, pos_Y = 160\<rparr>, en_HP := 55, en_MaxHP := 60\<rparr>"

definition demo_combat :: "rate_table option \<Rightarrow> combat_service" where
  "demo_combat attrs = NewCombatService (Some demo_mobs) None attrs None None"

definition fight_world :: world where
  "fight_world = snd (w_AddEntity demo_mob demo_world)"

lemma fight_world_facts:
  "world_wf fight_world" "entity_at fight_world = [150001 \<mapsto> demo_pc, 200001 \<mapsto> demo_mob]"
proof -
  have mob: "en_ID demo_mob = 200001" "en_Pos demo_mob = \<lparr>pos_X = 151, pos_Y = 160\<rparr>"
    by (simp_all add: demo_mob_def)
  have "\<exists>w'. w_AddEntity demo_mob demo_world = (Inr (), w') \<and> world_wf w' \<and>
      entity_at w' = (entity_at demo_world)(en_ID demo_mob \<mapsto> demo_mob)"
    by (rule add_entity_ok [OF demo_world_add(2)]) (simp_all add: demo_world_add(3) mob on_canvas_def)
  then show "world_wf fight_world" "entity_at fight_world = [150001 \<mapsto> demo_pc, 200001 \<mapsto> demo_mob]"
    by (auto simp: fight_world_def demo_world_add(3) mob)
qed


definition absorbing :: rate_table where
  "absorbing = \<lparr>rt_byLevel = [(1, \<lambda>a d. - 100)], rt_maxLevel = 1\<rparr>"

text \<open>
  Remark. A negative element rate heals: nothing bounds the rates the loader accepts, so a swing against
  an element that absorbs it (rate -100 here) has a negative damage, which \<open>Attack\<close> returns and which
  raises the defender's HP, here above its maximum of 60.
\<close>

theorem absorbed_hit_overheals:
  "\<exists>w'. Attack (demo_combat (Some absorbing)) 150001 200001 fight_world = Some (Inr (- 7, False), w') \<and>
     map_option en_HP (entity_at w' 200001) = Some 62"
proof -
  let ?C = "demo_combat (Some absorbing)"
  let ?def = "defenderProfile (cb_mobs ?C) demo_mob"
  let ?roll = "combat_roll ?C (attackerBase ?C demo_pc) ?def"
  have a: "w_Get 150001 fight_world = Inr demo_pc" "w_Get 200001 fight_world = Inr demo_mob"
    by (simp_all add: w_Get_def fight_world_facts(2))
  have eq: "attackerEquipment ?C demo_pc = Inr zero_equipment"
    by code_simp
  have "map_option (\<lambda>r. (hr_Damage r, hr_Miss r)) (NormalMelee \<lparr>at_Base = attackerBase ?C demo_pc, at_Equipment = zero_equipment,
      at_WeaponElement = eq_WeaponElement zero_equipment, at_WeaponSubType = eq_WeaponSubType zero_equipment\<rparr>
      ?def (cb_fs ?C) (cb_m ?C) (cb_attrs ?C) (cb_sizes ?C) ?roll) = Some (- 7, False)"
    by code_simp
  then obtain r where r: "NormalMelee \<lparr>at_Base = attackerBase ?C demo_pc, at_Equipment = zero_equipment,
      at_WeaponElement = eq_WeaponElement zero_equipment, at_WeaponSubType = eq_WeaponSubType zero_equipment\<rparr>
      ?def (cb_fs ?C) (cb_m ?C) (cb_attrs ?C) (cb_sizes ?C) ?roll = Some r" "hr_Damage r = - 7" "\<not> hr_Miss r"
    by auto
  have "en_HP demo_mob = 55"
    by (simp add: demo_mob_def)
  then have "applyDamage 200001 (- 7) fight_world = (False, put_entity 200001 (demo_mob\<lparr>en_HP := 62\<rparr>) fight_world)"
    by (simp add: applyDamage_def fight_world_facts(2) Let_def i32_id in_i32_def)
  then show ?thesis
    using r by (simp add: Attack_def a eq Let_def)
qed

end
