(* ===== verification/SkillTree.thy ===== *)
theory SkillTree
  imports GoPrelude "HOL-Library.List_Lexorder" "HOL-Library.Char_ord"
begin

text \<open>
  The skill databases: \<open>pkg/ro/skilldb\<close> (per-level columns and the registry) and \<open>pkg/ro/skilltree\<close>
  (jobs, the cycle check on \<open>Inherit\<close>, inheritance). Both loaders are modelled from the decoded YAML on.
  Go ranges over the job map in an unspecified order; the model's order is that of an association list,
  and the properties hold for every such list. The depth-first search of the cycle check has fuel:
  \<open>detectCycles\<close> gives it one unit per job, which \<open>detect_cycles_exact\<close> shows to be enough.
\<close>

section \<open>Per-level columns of skill_db\<close>

record 'v level_col =
  lc_IsScalar :: bool
  lc_Value :: 'v
  lc_Levels :: "(int \<times> 'v) list"

type_synonym range_col = "int level_col"
type_synonym element_col = "string level_col"
type_synonym sp_cost_col = "int level_col"

text \<open>What the YAML decoder finds: a scalar of the column's type, a per-level list, or neither.\<close>

datatype 'v yaml_col = ScalarNode 'v | LevelsNode "(int \<times> 'v) list" | OtherNode

definition UnmarshalRange :: "int yaml_col \<Rightarrow> range_col res" where
  "UnmarshalRange n =
     (case n of
        ScalarNode v \<Rightarrow> Inr \<lparr>lc_IsScalar = True, lc_Value = v, lc_Levels = []\<rparr>
      | LevelsNode ls \<Rightarrow> Inr \<lparr>lc_IsScalar = False, lc_Value = 0, lc_Levels = ls\<rparr>
      | OtherNode \<Rightarrow> Inl (ErrText ''skill Range: expected scalar int or per-level list''))"

definition UnmarshalElement :: "string yaml_col \<Rightarrow> element_col res" where
  "UnmarshalElement n =
     (case n of
        ScalarNode v \<Rightarrow> Inr \<lparr>lc_IsScalar = True, lc_Value = v, lc_Levels = []\<rparr>
      | LevelsNode ls \<Rightarrow> Inr \<lparr>lc_IsScalar = False, lc_Value = [], lc_Levels = ls\<rparr>
      | OtherNode \<Rightarrow> Inl (ErrText ''skill Element: expected scalar string or per-level list''))"

definition UnmarshalSpCost :: "int yaml_col \<Rightarrow> sp_cost_col res" where
  "UnmarshalSpCost n =
     (case n of
        ScalarNode v \<Rightarrow> Inr \<lparr>lc_IsScalar = True, lc_Value = v, lc_Levels = []\<rparr>
      | LevelsNode ls \<Rightarrow> Inr \<lparr>lc_IsScalar = False, lc_Value = 0, lc_Levels = ls\<rparr>
      | OtherNode \<Rightarrow> Inl (ErrText ''skill SpCost: expected scalar int or per-level list''))"

definition Range_At :: "range_col \<Rightarrow> int \<Rightarrow> int" where
  "Range_At r level =
     (if lc_IsScalar r then lc_Value r
      else case find (\<lambda>l. fst l = level) (lc_Levels r) of Some l \<Rightarrow> snd l | None \<Rightarrow> 0)"

definition Element_At :: "element_col \<Rightarrow> int \<Rightarrow> string" where
  "Element_At e level =
     (if lc_IsScalar e then lc_Value e
      else case find (\<lambda>l. fst l = level) (lc_Levels e) of Some l \<Rightarrow> snd l | None \<Rightarrow> [])"

definition SpCost_At :: "sp_cost_col \<Rightarrow> int \<Rightarrow> int" where
  "SpCost_At s level =
     (if lc_IsScalar s then lc_Value s
      else snd (foldl (\<lambda>(bestLevel, amount) (lv, a).
             if lv \<le> level \<and> lv > bestLevel then (lv, a) else (bestLevel, amount)) (0, 0) (lc_Levels s)))"

section \<open>The skill_db registry\<close>

record skilldb_entry =
  sd_ID :: int
  sd_Name :: string
  sd_Description :: string
  sd_MaxLevel :: int
  sd_Type :: string
  sd_TargetType :: string
  sd_Hit :: string
  sd_Element :: element_col
  sd_Status :: string
  sd_Range :: range_col
  sd_SpCost :: sp_cost_col

text \<open>\<open>byName\<close> can be the nil map: reads miss, and a write panics.\<close>

record skill_registry =
  sk_entries :: "(int \<times> skilldb_entry) list"
  sk_byName :: "(string \<times> int) list option"

definition skilldb_NewRegistry :: skill_registry where
  "skilldb_NewRegistry = \<lparr>sk_entries = [], sk_byName = Some []\<rparr>"

definition skilldb_Register :: "skilldb_entry option \<Rightarrow> skill_registry \<Rightarrow> skill_registry option" where
  "skilldb_Register oe reg =
     (case oe of
        None \<Rightarrow> Some reg
      | Some e \<Rightarrow>
          case sk_byName reg of
            None \<Rightarrow> None
          | Some names \<Rightarrow> Some (reg\<lparr>sk_entries := AList.update (sd_ID e) e (sk_entries reg),
              sk_byName := Some (AList.update (sd_Name e) (sd_ID e) names)\<rparr>))"

definition skilldb_add :: "(int \<times> skilldb_entry) list \<Rightarrow> skilldb_entry option \<Rightarrow> (int \<times> skilldb_entry) list" where
  "skilldb_add entries oe =
     (case oe of
        None \<Rightarrow> entries
      | Some e \<Rightarrow>
          let e = (if sd_TargetType e = [] then e\<lparr>sd_TargetType := ''Passive''\<rparr> else e)
          in AList.update (sd_ID e) e entries)"

definition skilldb_Load :: "string \<Rightarrow> int \<Rightarrow> skilldb_entry option list \<Rightarrow> skill_registry res" where
  "skilldb_Load kd version body =
     (if kd \<noteq> ''SKILL_DB'' then Inl (ErrText ''skill_db: unexpected Header.Type'')
      else if version \<noteq> 4 then Inl (ErrText ''skill_db: unsupported Header.Version'')
      else Inr \<lparr>sk_entries = foldl skilldb_add [] body, sk_byName = None\<rparr>)"

definition skilldb_Get :: "skill_registry option \<Rightarrow> int \<Rightarrow> skilldb_entry option" where
  "skilldb_Get reg i = (case reg of None \<Rightarrow> None | Some g \<Rightarrow> map_of (sk_entries g) i)"

definition skilldb_Len :: "skill_registry option \<Rightarrow> nat" where
  "skilldb_Len reg = (case reg of None \<Rightarrow> 0 | Some g \<Rightarrow> length (sk_entries g))"

definition IDByName :: "skill_registry option \<Rightarrow> string \<Rightarrow> int option" where
  "IDByName reg name =
     (case reg of None \<Rightarrow> None
      | Some g \<Rightarrow> (case sk_byName g of None \<Rightarrow> None | Some names \<Rightarrow> map_of names name))"

definition skilldb_All :: "skill_registry option \<Rightarrow> (int \<times> skilldb_entry) list" where
  "skilldb_All reg = (case reg of None \<Rightarrow> [] | Some g \<Rightarrow> sk_entries g)"

definition SpCostAt :: "skill_registry option \<Rightarrow> int \<Rightarrow> int \<Rightarrow> int" where
  "SpCostAt reg i level =
     (case reg of None \<Rightarrow> 0
      | Some g \<Rightarrow> (case map_of (sk_entries g) i of None \<Rightarrow> 0 | Some e \<Rightarrow> SpCost_At (sd_SpCost e) level))"

section \<open>Parsing skill_tree\<close>

record skill_requirement =
  sq_Name :: string
  sq_Level :: int

record tree_entry =
  te_Name :: string
  te_MaxLevel :: int
  te_Exclude :: bool
  te_BaseLevel :: int
  te_JobLevel :: int
  te_Requires :: "skill_requirement list"

record tree_node =
  tn_Name :: string
  tn_MaxLevel :: int
  tn_Exclude :: bool
  tn_BaseLevel :: int
  tn_JobLevel :: int
  tn_Requires :: "skill_requirement option list"

record job_node =
  jn_Job :: string
  jn_Inherit :: "(string \<times> bool) list"
  jn_Tree :: "tree_node option list"

type_synonym skill_map = "(string \<times> tree_entry) list"

record parsed_job =
  pj_name :: string
  pj_inherit :: "(string \<times> bool) list"
  pj_own :: skill_map

type_synonym job_map = "(string \<times> parsed_job) list"

fun parseOwnSkills :: "tree_node option list \<Rightarrow> skill_map \<Rightarrow> skill_map res" where
  "parseOwnSkills [] out = Inr out"
| "parseOwnSkills (None # entries) out = parseOwnSkills entries out"
| "parseOwnSkills (Some e # entries) out =
     (if tn_Name e = [] then Inl (ErrText ''skill_tree: missing skill Name'')
      else if map_of out (tn_Name e) \<noteq> None then Inl (ErrText ''skill_tree: duplicate skill'')
      else parseOwnSkills entries (AList.update (tn_Name e)
        \<lparr>te_Name = tn_Name e, te_MaxLevel = tn_MaxLevel e, te_Exclude = tn_Exclude e, te_BaseLevel = tn_BaseLevel e,
          te_JobLevel = tn_JobLevel e, te_Requires = List.map_filter id (tn_Requires e)\<rparr> out))"

fun parse_nodes :: "job_node option list \<Rightarrow> job_map \<Rightarrow> job_map res" where
  "parse_nodes [] out = Inr out"
| "parse_nodes (None # body) out = parse_nodes body out"
| "parse_nodes (Some node # body) out =
     (if jn_Job node = [] then Inl (ErrText ''skill_tree: missing Job name'')
      else if map_of out (jn_Job node) \<noteq> None then Inl (ErrText ''skill_tree: duplicate Job'')
      else case parseOwnSkills (jn_Tree node) [] of
        Inl e \<Rightarrow> Inl e
      | Inr own \<Rightarrow> parse_nodes body (AList.update (jn_Job node)
          \<lparr>pj_name = jn_Job node, pj_inherit = jn_Inherit node, pj_own = own\<rparr> out))"

definition parseBody :: "job_node option list \<Rightarrow> job_map res" where
  "parseBody body =
     (case parse_nodes body [] of
        Inl e \<Rightarrow> Inl e
      | Inr out \<Rightarrow> if out = [] then Inl (ErrText ''skill_tree: empty Body'') else Inr out)"

definition validateAncestors :: "job_map \<Rightarrow> unit res" where
  "validateAncestors jobs =
     (if \<forall>(name, pj) \<in> set jobs. \<forall>(a, _) \<in> set (pj_inherit pj). map_of jobs a \<noteq> None then Inr ()
      else Inl (ErrText ''skill_tree: job inherits unknown job''))"

section \<open>The cycle check\<close>

definition ErrCircularInherit :: err where "ErrCircularInherit = ErrText ''circular Inherit''"

definition ancestorsOf :: "job_map \<Rightarrow> string \<Rightarrow> string list" where
  "ancestorsOf jobs name = (case map_of jobs name of None \<Rightarrow> [] | Some pj \<Rightarrow> sort (map fst (pj_inherit pj)))"

datatype node_colour = White | Grey | Black

text \<open>\<open>dfs\<close> colours a node and \<open>dfs_all\<close> is its loop over the ancestors; \<open>None\<close> is out of fuel.\<close>

fun dfs :: "nat \<Rightarrow> (string \<Rightarrow> string list) \<Rightarrow> string \<Rightarrow> (string \<Rightarrow> node_colour) \<Rightarrow> (err + (string \<Rightarrow> node_colour)) option"
  and dfs_all :: "nat \<Rightarrow> (string \<Rightarrow> string list) \<Rightarrow> string list \<Rightarrow> (string \<Rightarrow> node_colour) \<Rightarrow> (err + (string \<Rightarrow> node_colour)) option" where
  "dfs 0 succ name color = None"
| "dfs (Suc k) succ name color =
     (case dfs_all k succ (succ name) (color(name := Grey)) of
        Some (Inr color) \<Rightarrow> Some (Inr (color(name := Black)))
      | r \<Rightarrow> r)"
| "dfs_all k succ [] color = Some (Inr color)"
| "dfs_all k succ (nxt # rest) color =
     (case color nxt of
        Grey \<Rightarrow> Some (Inl ErrCircularInherit)
      | White \<Rightarrow>
          (case dfs k succ nxt color of
             Some (Inr color) \<Rightarrow> dfs_all k succ rest color
           | r \<Rightarrow> r)
      | Black \<Rightarrow> dfs_all k succ rest color)"

fun dfs_roots :: "nat \<Rightarrow> (string \<Rightarrow> string list) \<Rightarrow> string list \<Rightarrow> (string \<Rightarrow> node_colour) \<Rightarrow> (err + (string \<Rightarrow> node_colour)) option" where
  "dfs_roots k succ [] color = Some (Inr color)"
| "dfs_roots k succ (name # rest) color =
     (if color name = White then
        (case dfs k succ name color of
           Some (Inr color) \<Rightarrow> dfs_roots k succ rest color
         | r \<Rightarrow> r)
      else dfs_roots k succ rest color)"

definition detectCycles :: "job_map \<Rightarrow> unit res option" where
  "detectCycles jobs =
     (case dfs_roots (length jobs) (ancestorsOf jobs) (map fst jobs) (\<lambda>_. White) of
        None \<Rightarrow> None
      | Some (Inl e) \<Rightarrow> Some (Inl e)
      | Some (Inr _) \<Rightarrow> Some (Inr ()))"

section \<open>Inheritance\<close>

record job_tree =
  jt_Job :: string
  jt_Skills :: skill_map

definition sortedKeys :: "(string \<times> 'v) list \<Rightarrow> string list" where
  "sortedKeys m = sort (map fst m)"

text \<open>One ancestor's own skills, then all ancestors in name order: a later one overwrites.\<close>

definition merge_skill :: "skill_map \<Rightarrow> skill_map \<Rightarrow> skill_map \<Rightarrow> string \<Rightarrow> skill_map" where
  "merge_skill own skills inherited sn =
     (case map_of own sn of
        None \<Rightarrow> inherited
      | Some src \<Rightarrow>
          if te_Exclude src then inherited
          else if map_of skills sn \<noteq> None then inherited
          else AList.update sn src inherited)"

definition merge_ancestor :: "job_map \<Rightarrow> skill_map \<Rightarrow> skill_map \<Rightarrow> string \<Rightarrow> skill_map" where
  "merge_ancestor jobs skills inherited a =
     (case map_of jobs a of
        None \<Rightarrow> inherited
      | Some apj \<Rightarrow> foldl (merge_skill (pj_own apj) skills) inherited (sortedKeys (pj_own apj)))"

definition mergeAncestors :: "parsed_job \<Rightarrow> job_map \<Rightarrow> job_tree \<Rightarrow> skill_map" where
  "mergeAncestors pj jobs jt = foldl (merge_ancestor jobs (jt_Skills jt)) [] (sortedKeys (pj_inherit pj))"

definition makeOwnTree :: "string \<times> parsed_job \<Rightarrow> string \<times> job_tree" where
  "makeOwnTree = (\<lambda>(name, pj). (name, \<lparr>jt_Job = name, jt_Skills = pj_own pj\<rparr>))"

definition resolve_job :: "job_map \<Rightarrow> string \<times> parsed_job \<Rightarrow> string \<times> job_tree" where
  "resolve_job jobs = (\<lambda>(name, pj).
     let jt = snd (makeOwnTree (name, pj))
     in (name, if pj_inherit pj = [] then jt
               else jt\<lparr>jt_Skills := foldl (\<lambda>m (k, v). AList.update k v m) (jt_Skills jt) (mergeAncestors pj jobs jt)\<rparr>))"

definition resolveInheritance :: "job_map \<Rightarrow> (string \<times> job_tree) list" where
  "resolveInheritance jobs = map (resolve_job jobs) jobs"

definition pruneMaxLevelZero :: "(string \<times> job_tree) list \<Rightarrow> (string \<times> job_tree) list" where
  "pruneMaxLevelZero jobs = map (\<lambda>(name, jt).
     (name, jt\<lparr>jt_Skills := filter (\<lambda>(sn, e). te_MaxLevel e \<noteq> 0) (jt_Skills jt)\<rparr>)) jobs"

type_synonym tree_registry = "(string \<times> job_tree) list"

definition skilltree_Load :: "string \<Rightarrow> int \<Rightarrow> job_node option list \<Rightarrow> tree_registry res option" where
  "skilltree_Load kd version body =
     (if kd \<noteq> ''SKILL_TREE_DB'' then Some (Inl (ErrText ''skill_tree: unexpected Header.Type''))
      else if version \<noteq> 1 then Some (Inl (ErrText ''skill_tree: unsupported Header.Version''))
      else if body = [] then Some (Inl (ErrText ''skill_tree: empty Body''))
      else case parseBody body of
        Inl e \<Rightarrow> Some (Inl e)
      | Inr parsed \<Rightarrow>
          case validateAncestors parsed of
            Inl e \<Rightarrow> Some (Inl e)
          | Inr _ \<Rightarrow>
              case detectCycles parsed of
                None \<Rightarrow> None
              | Some (Inl e) \<Rightarrow> Some (Inl e)
              | Some (Inr _) \<Rightarrow> Some (Inr (pruneMaxLevelZero (resolveInheritance parsed))))"

definition skilltree_Get :: "tree_registry option \<Rightarrow> string \<Rightarrow> job_tree option" where
  "skilltree_Get reg jobName = (case reg of None \<Rightarrow> None | Some g \<Rightarrow> map_of g jobName)"

definition skilltree_Len :: "tree_registry option \<Rightarrow> nat" where
  "skilltree_Len reg = (case reg of None \<Rightarrow> 0 | Some g \<Rightarrow> length g)"

definition skilltree_Jobs :: "tree_registry option \<Rightarrow> string list" where
  "skilltree_Jobs reg = (case reg of None \<Rightarrow> [] | Some g \<Rightarrow> sort (map fst g))"

section \<open>The search decides acyclicity\<close>

definition edges :: "(string \<Rightarrow> string list) \<Rightarrow> (string \<times> string) set" where
  "edges succ = {(x, y). y \<in> set (succ x)}"

text \<open>The black nodes are closed under successors and carry no cycle.\<close>

definition settled :: "(string \<Rightarrow> string list) \<Rightarrow> (string \<Rightarrow> node_colour) \<Rightarrow> bool" where
  "settled succ color \<longleftrightarrow> (\<forall>x y. color x = Black \<longrightarrow> y \<in> set (succ x) \<longrightarrow> color y = Black) \<and>
     acyclic {(x, y). color x = Black \<and> y \<in> set (succ x)}"

lemma settled_cong: "(\<And>x. color x = Black \<longleftrightarrow> color' x = Black) \<Longrightarrow> settled succ color = settled succ color'"
  by (simp add: settled_def)

lemma acyclic_source:
  assumes "acyclic r" and "\<And>x. (x, n) \<notin> r" and "finite S" and "n \<notin> S"
  shows "acyclic (r \<union> {n} \<times> S)"
  using assms(3,4)
proof (induction S rule: finite_induct)
  case (insert s S)
  let ?r = "r \<union> {n} \<times> S"
  have "(s, n) \<notin> ?r\<^sup>*"
  proof
    assume "(s, n) \<in> ?r\<^sup>*"
    moreover have "s \<noteq> n"
      using insert.prems by auto
    ultimately obtain x where "(x, n) \<in> ?r"
      by (metis rtranclE)
    then show False
      using assms(2) insert.prems by auto
  qed
  then show ?case
    using insert by (simp add: acyclic_insert)
qed (use assms in simp)

lemma settled_black:
  assumes "settled succ color" and "color name \<noteq> Black" and "\<forall>y\<in>set (succ name). color y = Black"
  shows "settled succ (color(name := Black))"
proof -
  let ?r = "{(x, y). color x = Black \<and> y \<in> set (succ x)}"
  have "(x, name) \<notin> ?r" for x
    using assms(1,2) by (auto simp: settled_def)
  moreover have "name \<notin> set (succ name)"
    using assms(2,3) by auto
  moreover have "acyclic ?r"
    using assms(1) by (simp add: settled_def)
  ultimately have "acyclic (?r \<union> {name} \<times> set (succ name))"
    by (intro acyclic_source) simp_all
  moreover have "{(x, y). (color(name := Black)) x = Black \<and> y \<in> set (succ x)} = ?r \<union> {name} \<times> set (succ name)"
    by (auto split: if_splits)
  ultimately show ?thesis
    using assms(1,3) by (auto simp: settled_def)
qed

text \<open>What a successful call does to the colours.\<close>

definition advances :: "(string \<Rightarrow> string list) \<Rightarrow> (string \<Rightarrow> node_colour) \<Rightarrow> (string \<Rightarrow> node_colour) \<Rightarrow> bool" where
  "advances succ c c' \<longleftrightarrow> (\<forall>x. c x = Black \<longrightarrow> c' x = Black) \<and> (\<forall>x. c' x = Grey \<longleftrightarrow> c x = Grey) \<and>
     (\<forall>x. c' x = White \<longrightarrow> c x = White) \<and> (settled succ c \<longrightarrow> settled succ c')"

lemma advances_refl: "advances succ c c"
  by (simp add: advances_def)

lemma advances_trans: "advances succ c1 c2 \<Longrightarrow> advances succ c2 c3 \<Longrightarrow> advances succ c1 c3"
  unfolding advances_def by (intro conjI) blast+

lemma advancesD:
  assumes "advances succ c c'"
  shows "c x = Black \<Longrightarrow> c' x = Black" "c' x = Grey \<longleftrightarrow> c x = Grey" "c' x = White \<Longrightarrow> c x = White"
    "settled succ c \<Longrightarrow> settled succ c'"
  using assms by (simp_all add: advances_def)

lemma dfs_ok:
  "dfs k succ name color = Some (Inr color') \<Longrightarrow> color name = White \<Longrightarrow> advances succ color color' \<and> color' name = Black"
  "dfs_all k succ xs color = Some (Inr color') \<Longrightarrow> advances succ color color' \<and> (\<forall>x\<in>set xs. color' x = Black)"
proof (induction k succ name color and k succ xs color arbitrary: color' and color' rule: dfs_dfs_all.induct)
  case (2 k succ name color)
  obtain c2 where c2: "dfs_all k succ (succ name) (color(name := Grey)) = Some (Inr c2)" "color' = c2(name := Black)"
    using "2.prems"(1) by (auto split: option.splits sum.splits)
  have adv: "advances succ (color(name := Grey)) c2" and blk: "\<forall>x\<in>set (succ name). c2 x = Black"
    using "2.IH" [OF c2(1)] by blast+
  have "settled succ (color(name := Grey)) = settled succ color"
    using "2.prems"(2) by (intro settled_cong) simp
  moreover have "c2 name = Grey"
    using advancesD(2) [OF adv, of name] by simp
  ultimately have "settled succ color \<Longrightarrow> settled succ color'"
    using advancesD(4) [OF adv] settled_black [of succ c2 name] blk unfolding c2(2) by simp
  moreover have "(color x = Black \<longrightarrow> color' x = Black) \<and> (color' x = Grey \<longleftrightarrow> color x = Grey) \<and> (color' x = White \<longrightarrow> color x = White)" for x
    using advancesD(1-3) [OF adv, of x] "2.prems"(2) by (cases "x = name") (auto simp: c2(2))
  ultimately show ?case
    by (simp add: advances_def c2(2) fun_upd_same del: fun_upd_apply)
next
  case (4 k succ nxt rest color)
  show ?case
  proof (cases "color nxt")
    case White
    then obtain c1 where c1: "dfs k succ nxt color = Some (Inr c1)" "dfs_all k succ rest c1 = Some (Inr color')"
      using "4.prems" by (auto split: option.splits sum.splits)
    have a: "advances succ color c1" "c1 nxt = Black"
      using "4.IH"(1) [OF White c1(1) White] by auto
    have b: "advances succ c1 color'" "\<forall>x\<in>set rest. color' x = Black"
      using "4.IH"(2) [OF White c1(1) refl c1(2)] by auto
    show ?thesis
      using advances_trans [OF a(1) b(1)] advancesD(1) [OF b(1) a(2)] b(2) by simp
  next
    case Black
    then have "advances succ color color' \<and> (\<forall>x\<in>set rest. color' x = Black)"
      using "4.IH"(3) "4.prems" by simp
    then show ?thesis
      using Black advancesD(1) by auto
  qed (use "4.prems" in simp)
qed (simp_all add: advances_refl)

lemma dfs_cycle:
  "dfs k succ name color = Some (Inl e) \<Longrightarrow> color name = White \<Longrightarrow>
     (\<forall>g. color g = Grey \<longrightarrow> (g, name) \<in> (edges succ)\<^sup>*) \<Longrightarrow> e = ErrCircularInherit \<and> \<not> acyclic (edges succ)"
  "dfs_all k succ xs color = Some (Inl e) \<Longrightarrow> set xs \<subseteq> set (succ n) \<Longrightarrow>
     (\<forall>g. color g = Grey \<longrightarrow> (g, n) \<in> (edges succ)\<^sup>*) \<Longrightarrow> e = ErrCircularInherit \<and> \<not> acyclic (edges succ)"
proof (induction k succ name color and k succ xs color arbitrary: and n rule: dfs_dfs_all.induct)
  case (2 k succ name color)
  have "dfs_all k succ (succ name) (color(name := Grey)) = Some (Inl e)"
    using "2.prems"(1) by (auto split: option.splits sum.splits)
  moreover have "\<forall>g. (color(name := Grey)) g = Grey \<longrightarrow> (g, name) \<in> (edges succ)\<^sup>*"
    using "2.prems"(3) by auto
  ultimately show ?case
    by (rule "2.IH" [OF _ order_refl])
next
  case (4 k succ nxt rest color)
  have edge: "(n, nxt) \<in> edges succ"
    using "4.prems"(2) by (simp add: edges_def)
  show ?case
  proof (cases "color nxt")
    case White
    show ?thesis
    proof (cases "dfs k succ nxt color")
      case (Some r)
      show ?thesis
      proof (cases r)
        case (Inl e')
        have "\<forall>g. color g = Grey \<longrightarrow> (g, nxt) \<in> (edges succ)\<^sup>*"
          using "4.prems"(3) edge by (auto intro: rtrancl_into_rtrancl)
        then show ?thesis
          using "4.IH"(1) [OF White _ White] "4.prems"(1) Some Inl White by simp
      next
        case (Inr c1)
        then have c1: "dfs k succ nxt color = Some (Inr c1)"
          using Some by simp
        have "\<forall>g. c1 g = Grey \<longrightarrow> (g, n) \<in> (edges succ)\<^sup>*"
          using "4.prems"(3) advancesD(2) [OF conjunct1 [OF dfs_ok(1) [OF c1 White]]] by simp
        then show ?thesis
          using "4.IH"(2) [OF White c1 refl, of n] "4.prems"(1,2) White c1 by simp
      qed
    qed (use "4.prems"(1) White in simp)
  next
    case Grey
    then have "(nxt, n) \<in> (edges succ)\<^sup>*"
      using "4.prems"(3) by blast
    then have "(n, n) \<in> (edges succ)\<^sup>+"
      using edge by (rule rtrancl_into_trancl2 [rotated])
    then show ?thesis
      using "4.prems"(1) Grey by (auto simp: acyclic_def)
  next
    case Black
    then show ?thesis
      using "4.IH"(3) "4.prems" by auto
  qed
qed simp_all

text \<open>Fuel: a call needs one unit per white node that is left.\<close>

lemma dfs_fuel:
  "finite V \<Longrightarrow> (\<forall>x\<in>V. set (succ x) \<subseteq> V) \<Longrightarrow> name \<in> V \<Longrightarrow> color name = White \<Longrightarrow>
     card {x \<in> V. color x = White} \<le> k \<Longrightarrow> dfs k succ name color \<noteq> None"
  "finite V \<Longrightarrow> (\<forall>x\<in>V. set (succ x) \<subseteq> V) \<Longrightarrow> set xs \<subseteq> V \<Longrightarrow>
     card {x \<in> V. color x = White} \<le> k \<Longrightarrow> dfs_all k succ xs color \<noteq> None"
proof (induction k succ name color and k succ xs color rule: dfs_dfs_all.induct)
  case (1 succ name color)
  then show ?case
    by (auto simp: card_eq_0_iff)
next
  case (2 k succ name color)
  have "{x \<in> V. (color(name := Grey)) x = White} = {x \<in> V. color x = White} - {name}"
    by auto
  then have "card {x \<in> V. (color(name := Grey)) x = White} \<le> k"
    using "2.prems" by simp
  then have "dfs_all k succ (succ name) (color(name := Grey)) \<noteq> None"
    using "2.prems" by (intro "2.IH") auto
  then show ?case
    by (auto split: option.splits sum.splits)
next
  case (4 k succ nxt rest color)
  show ?case
  proof (cases "color nxt")
    case White
    then have "dfs k succ nxt color \<noteq> None"
      using "4.prems" by (intro "4.IH"(1)) auto
    then obtain r where r: "dfs k succ nxt color = Some r"
      by blast
    show ?thesis
    proof (cases r)
      case (Inr c1)
      then have c1: "dfs k succ nxt color = Some (Inr c1)"
        using r by simp
      have "{x \<in> V. c1 x = White} \<subseteq> {x \<in> V. color x = White}"
        using advancesD(3) [OF conjunct1 [OF dfs_ok(1) [OF c1 White]]] by blast
      then have "card {x \<in> V. c1 x = White} \<le> k"
        using card_mono [of "{x \<in> V. color x = White}" "{x \<in> V. c1 x = White}"] "4.prems"(1,4) by simp
      then show ?thesis
        using "4.IH"(2) [OF White c1 refl] "4.prems" White c1 by simp
    qed (use White r in simp)
  next
    case Black
    then show ?thesis
      using "4.IH"(3) "4.prems" by simp
  qed simp
qed simp_all

lemma dfs_roots_spec:
  assumes "finite V" and "\<forall>x\<in>V. set (succ x) \<subseteq> V" and "card V \<le> k"
  shows "set names \<subseteq> V \<Longrightarrow> settled succ color \<Longrightarrow> (\<forall>x. color x \<noteq> Grey) \<Longrightarrow>
    (\<exists>color'. dfs_roots k succ names color = Some (Inr color') \<and> settled succ color' \<and>
       (\<forall>x. color x = Black \<longrightarrow> color' x = Black) \<and> (\<forall>x\<in>set names. color' x = Black)) \<or>
    dfs_roots k succ names color = Some (Inl ErrCircularInherit) \<and> \<not> acyclic (edges succ)"
proof (induction names arbitrary: color)
  case (Cons name names)
  show ?case
  proof (cases "color name = White")
    case True
    have "card {x \<in> V. color x = White} \<le> card V"
      using assms(1) by (intro card_mono) auto
    then have "card {x \<in> V. color x = White} \<le> k"
      using assms(3) by linarith
    then have "dfs k succ name color \<noteq> None"
      using assms(1,2) Cons.prems(1) True by (intro dfs_fuel(1) [of V]) auto
    then obtain r where r: "dfs k succ name color = Some r"
      by blast
    show ?thesis
    proof (cases r)
      case (Inl e)
      then show ?thesis
        using dfs_cycle(1) [of k succ name color e] r True Cons.prems(3) by auto
    next
      case (Inr c1)
      then have c1: "dfs k succ name color = Some (Inr c1)"
        using r by simp
      note ok = dfs_ok(1) [OF c1 True]
      have "(\<exists>color'. dfs_roots k succ names c1 = Some (Inr color') \<and> settled succ color' \<and>
          (\<forall>x. c1 x = Black \<longrightarrow> color' x = Black) \<and> (\<forall>x\<in>set names. color' x = Black)) \<or>
        dfs_roots k succ names c1 = Some (Inl ErrCircularInherit) \<and> \<not> acyclic (edges succ)"
        using Cons.prems advancesD(2,4) [OF conjunct1 [OF ok]] by (intro Cons.IH) auto
      then show ?thesis
      proof (elim disjE exE conjE)
        fix color'
        assume *: "dfs_roots k succ names c1 = Some (Inr color')" "settled succ color'"
          "\<forall>x. c1 x = Black \<longrightarrow> color' x = Black" "\<forall>x\<in>set names. color' x = Black"
        then have "\<forall>x. color x = Black \<longrightarrow> color' x = Black" "color' name = Black"
          using ok advancesD(1) [OF conjunct1 [OF ok]] by blast+
        then show ?thesis
          using * True c1 by (intro disjI1 exI [of _ color']) simp
      qed (use True c1 in simp)
    qed
  next
    case False
    then have "color name = Black"
      using Cons.prems(3) by (cases "color name") auto
    then show ?thesis
      using Cons.IH [of color] Cons.prems by auto
  qed
qed simp

lemma ancestorsOf_jobs:
  assumes "validateAncestors jobs = Inr ()"
  shows "set (ancestorsOf jobs name) \<subseteq> set (keys jobs)"
proof (cases "map_of jobs name")
  case (Some pj)
  then have "(name, pj) \<in> set jobs"
    by (rule map_of_SomeD)
  then have "\<forall>(a, _)\<in>set (pj_inherit pj). map_of jobs a \<noteq> None"
    using assms by (fastforce simp: validateAncestors_def split: if_splits)
  then show ?thesis
    using Some by (fastforce simp: ancestorsOf_def map_of_eq_None_iff)
qed (simp add: ancestorsOf_def)

section \<open>Properties\<close>

text \<open>
  C27. The cycle check terminates and is exact: for a file whose ancestors are all listed, in whatever order the
  jobs are visited, it answers, and it refuses with \<open>ErrCircularInherit\<close> exactly when the inherit graph has
  a cycle.
\<close>

theorem detect_cycles_exact:
  assumes "validateAncestors jobs = Inr ()"
  shows "detectCycles jobs =
    Some (if acyclic {(j, a). a \<in> set (ancestorsOf jobs j)} then Inr () else Inl ErrCircularInherit)"
proof -
  let ?G = "ancestorsOf jobs" and ?V = "set (keys jobs)"
  have "card ?V \<le> length jobs"
    using card_length [of "keys jobs"] by simp
  moreover have "\<forall>x\<in>?V. set (?G x) \<subseteq> ?V"
    using ancestorsOf_jobs [OF assms] by blast
  moreover have "settled ?G (\<lambda>_. White)"
    by (simp add: settled_def acyclic_def)
  ultimately consider color where "dfs_roots (length jobs) ?G (keys jobs) (\<lambda>_. White) = Some (Inr color)"
      "settled ?G color" "\<forall>x\<in>?V. color x = Black"
    | "dfs_roots (length jobs) ?G (keys jobs) (\<lambda>_. White) = Some (Inl ErrCircularInherit)" "\<not> acyclic (edges ?G)"
    using dfs_roots_spec [of ?V ?G "length jobs" "keys jobs" "\<lambda>_. White"] by auto
  then show ?thesis
  proof cases
    case 1
    have "{(x, y). y \<in> set (?G x)} = {(x, y). color x = Black \<and> y \<in> set (?G x)}"
    proof -
      have "color x = Black" if "y \<in> set (?G x)" for x y
      proof -
        from that have "map_of jobs x \<noteq> None"
          by (cases "map_of jobs x") (simp_all add: ancestorsOf_def)
        then show ?thesis
          using 1(3) by (metis map_of_eq_None_iff set_map)
      qed
      then show ?thesis by auto
    qed
    then show ?thesis
      using 1(1,2) by (simp add: detectCycles_def settled_def)
  next
    case 2
    then show ?thesis
      by (simp add: detectCycles_def edges_def)
  qed
qed

definition demo_job :: "string \<Rightarrow> string list \<Rightarrow> skill_map \<Rightarrow> string \<times> parsed_job" where
  "demo_job j as own = (j, \<lparr>pj_name = j, pj_inherit = map (\<lambda>a. (a, True)) as, pj_own = own\<rparr>)"

theorem detect_cycles_exact_witness:
  "detectCycles [demo_job ''A'' [''B''] [], demo_job ''B'' [''A''] []] = Some (Inl ErrCircularInherit)"
proof -
  let ?jobs = "[demo_job ''A'' [''B''] [], demo_job ''B'' [''A''] []]"
  have "validateAncestors ?jobs = Inr ()"
    by (simp add: validateAncestors_def demo_job_def)
  moreover have "(''A'', ''B'') \<in> {(j, a). a \<in> set (ancestorsOf ?jobs j)}" "(''B'', ''A'') \<in> {(j, a). a \<in> set (ancestorsOf ?jobs j)}"
    by (simp_all add: ancestorsOf_def demo_job_def)
  then have "\<not> acyclic {(j, a). a \<in> set (ancestorsOf ?jobs j)}"
    by (meson acyclic_def r_into_trancl trancl_trans)
  ultimately show ?thesis
    using detect_cycles_exact [of ?jobs] by simp
qed

lemma Max_insert_drop:
  assumes "finite S" and "(b :: int) \<le> c"
  shows "Max (insert b (insert c S)) = Max (insert c S)"
proof -
  have "Max (insert b (insert c S)) = max b (Max (insert c S))"
    using assms(1) by (subst Max_insert) auto
  moreover have "c \<le> Max (insert c S)"
    using assms(1) by simp
  ultimately show ?thesis
    using assms(2) by linarith
qed

text \<open>The highest listed level not above \<open>level\<close>, or \<open>b\<close> when none is above \<open>b\<close>.\<close>

definition best_level :: "int \<Rightarrow> (int \<times> 'v) list \<Rightarrow> int \<Rightarrow> int" where
  "best_level b ls level = Max (insert b {lv \<in> fst ` set ls. lv \<le> level})"

lemma best_level_Cons:
  "best_level b ((lv, x) # ls) level = (if lv \<le> level \<and> lv > b then best_level lv ls level else best_level b ls level)"
proof -
  let ?S = "{l \<in> fst ` set ls. l \<le> level}"
  have fin: "finite ?S"
    by simp
  have "{l \<in> fst ` set ((lv, x) # ls). l \<le> level} = (if lv \<le> level then insert lv ?S else ?S)"
    by auto
  then show ?thesis
    using Max_insert_drop [OF fin, of b lv] Max_insert_drop [OF fin, of lv b]
    by (auto simp: best_level_def insert_commute [of lv b])
qed

lemma best_level_ge: "b \<le> best_level b ls level"
  unfolding best_level_def by (rule Max_ge) auto

lemma best_level_le: "best_level b ls level = b \<or> best_level b ls level \<le> level"
proof -
  have "best_level b ls level \<in> insert b {lv \<in> fst ` set ls. lv \<le> level}"
    unfolding best_level_def by (rule Max_in) auto
  then show ?thesis
    by auto
qed

lemma sp_fold:
  "foldl (\<lambda>(bestLevel, amount) (lv, a). if lv \<le> level \<and> lv > bestLevel then (lv, a) else (bestLevel, amount)) (b, x) ls =
     (best_level b ls level, if best_level b ls level = b then x else snd (the (find (\<lambda>l. fst l = best_level b ls level) ls)))"
proof (induction ls arbitrary: b x)
  case (Cons l ls)
  obtain lv a where l: "l = (lv, a)"
    by (cases l)
  show ?case
  proof (cases "lv \<le> level \<and> lv > b")
    case True
    then have "best_level lv ls level \<noteq> b"
      using best_level_ge [of lv ls level] by linarith
    then show ?thesis
      using True Cons.IH by (auto simp: l best_level_Cons)
  next
    case False
    have "best_level b ls level \<noteq> b \<Longrightarrow> lv \<noteq> best_level b ls level"
      using False best_level_le [of b ls level] best_level_ge [of b ls level] by linarith
    then show ?thesis
      using False Cons.IH by (auto simp: l best_level_Cons)
  qed
qed (simp add: best_level_def)

text \<open>
  Remark. The SP cost of a per-level list is the amount of the highest listed level that is at least 1 and does
  not exceed the requested one, the first such entry when a level is listed twice, and 0 when there is none.
\<close>

theorem sp_cost_highest_listed:
  assumes "\<not> lc_IsScalar col"
  shows "SpCost_At col level =
    (let best = Max (insert 0 {lv \<in> fst ` set (lc_Levels col). lv \<le> level})
     in if best = 0 then 0 else snd (the (find (\<lambda>l. fst l = best) (lc_Levels col))))"
  using assms by (simp add: SpCost_At_def sp_fold Let_def best_level_def)

theorem sp_cost_highest_listed_witness:
  "SpCost_At \<lparr>lc_IsScalar = False, lc_Value = 0, lc_Levels = [(1, 10), (5, 30), (3, 20)]\<rparr> 4 = 20"
proof -
  have "{lv. (lv = 1 \<or> lv = 5 \<or> lv = 3) \<and> lv \<le> (4 :: int)} = {1, 3}"
    by auto
  then show ?thesis
    using sp_cost_highest_listed [of "\<lparr>lc_IsScalar = False, lc_Value = 0, lc_Levels = [(1, 10), (5, 30), (3, 20)]\<rparr>" 4]
    by simp
qed

subsection \<open>Inheritance\<close>

declare map_of_eq_Some_iff [simp del]

definition bestows :: "job_map \<Rightarrow> string \<Rightarrow> string \<Rightarrow> tree_entry option" where
  "bestows jobs sn a =
     (case map_of jobs a of None \<Rightarrow> None
      | Some apj \<Rightarrow> (case map_of (pj_own apj) sn of None \<Rightarrow> None | Some e \<Rightarrow> if te_Exclude e then None else Some e))"

text \<open>The skill of the last ancestor, in name order, that has it and does not exclude it.\<close>

definition inherited_skill :: "job_map \<Rightarrow> parsed_job \<Rightarrow> string \<Rightarrow> tree_entry option" where
  "inherited_skill jobs pj sn =
     (case find (\<lambda>a. bestows jobs sn a \<noteq> None) (rev (sortedKeys (pj_inherit pj))) of
        None \<Rightarrow> None | Some a \<Rightarrow> bestows jobs sn a)"

lemma distinct_merge_skill [simp]: "distinct (keys (merge_skill own skills m sn)) = distinct (keys m)"
  by (simp add: merge_skill_def split: option.splits)

lemma distinct_merge_ancestor [simp]: "distinct (keys (merge_ancestor jobs skills m a)) = distinct (keys m)"
proof -
  have "distinct (keys (foldl (merge_skill own skills) m xs)) = distinct (keys m)" for own xs
    by (induction xs arbitrary: m) simp_all
  then show ?thesis
    by (simp add: merge_ancestor_def split: option.splits)
qed

lemma distinct_mergeAncestors: "distinct (keys (mergeAncestors pj jobs jt))"
proof -
  have "distinct (keys (foldl (merge_ancestor jobs skills) m xs)) = distinct (keys m)" for skills m xs
    by (induction xs arbitrary: m) simp_all
  then show ?thesis
    by (simp add: mergeAncestors_def)
qed

lemma merge_skill_lookup:
  "map_of (merge_skill own skills m x) sn =
    (case map_of own sn of
       Some e \<Rightarrow> if x = sn \<and> \<not> te_Exclude e \<and> map_of skills sn = None then Some e else map_of m sn
     | None \<Rightarrow> map_of m sn)"
  by (auto simp: merge_skill_def split: option.splits)

lemma merge_skills_lookup:
  "map_of (foldl (merge_skill own skills) m xs) sn =
    (case map_of own sn of
       Some e \<Rightarrow> if sn \<in> set xs \<and> \<not> te_Exclude e \<and> map_of skills sn = None then Some e else map_of m sn
     | None \<Rightarrow> map_of m sn)"
  by (induction xs arbitrary: m) (auto simp: merge_skill_lookup split: option.splits)

lemma merge_ancestor_lookup:
  "map_of (merge_ancestor jobs skills m a) sn =
    (if map_of skills sn \<noteq> None then map_of m sn
     else case bestows jobs sn a of Some e \<Rightarrow> Some e | None \<Rightarrow> map_of m sn)"
proof (cases "map_of jobs a")
  case (Some apj)
  have "sn \<in> set (sortedKeys (pj_own apj))" if "map_of (pj_own apj) sn = Some e" for e
    using map_of_SomeD [OF that] by (force simp: sortedKeys_def)
  then show ?thesis
    using Some by (auto simp: merge_ancestor_def bestows_def merge_skills_lookup split: option.splits)
qed (simp add: merge_ancestor_def bestows_def)

lemma mergeAncestors_lookup:
  "map_of (mergeAncestors pj jobs jt) sn =
    (if map_of (jt_Skills jt) sn \<noteq> None then None else inherited_skill jobs pj sn)"
proof -
  have "map_of (foldl (merge_ancestor jobs (jt_Skills jt)) [] xs) sn =
      (if map_of (jt_Skills jt) sn \<noteq> None then None
       else case find (\<lambda>a. bestows jobs sn a \<noteq> None) (rev xs) of None \<Rightarrow> None | Some a \<Rightarrow> bestows jobs sn a)" for xs
    by (induction xs rule: rev_induct) (auto simp: merge_ancestor_lookup split: option.splits)
  then show ?thesis
    by (simp add: mergeAncestors_def inherited_skill_def)
qed

lemma copy_lookup:
  "distinct (keys xs) \<Longrightarrow> map_of (foldl (\<lambda>m (k, v). AList.update k v m) m xs) sn =
     (case map_of xs sn of Some e \<Rightarrow> Some e | None \<Rightarrow> map_of m sn)"
proof (induction xs arbitrary: m)
  case (Cons p xs)
  obtain k v where p: "p = (k, v)"
    by (cases p)
  have new: "map_of xs k = None"
    using Cons.prems by (simp add: p map_of_eq_None_iff)
  have "map_of (foldl (\<lambda>m (k, v). AList.update k v m) (AList.update k v m) xs) sn =
      (case map_of xs sn of Some e \<Rightarrow> Some e | None \<Rightarrow> map_of (AList.update k v m) sn)"
    using Cons.prems by (intro Cons.IH) simp
  then show ?case
    using new by (auto simp: p split: option.splits)
qed simp

lemma distinct_copy: "distinct (keys (foldl (\<lambda>m (k, v). AList.update k v m) m xs)) = distinct (keys m)"
proof (induction xs arbitrary: m)
  case (Cons p xs)
  show ?case
    using Cons.IH [of "AList.update (fst p) (snd p) m"] by (simp add: split_beta)
qed simp

lemma filter_lookup:
  "distinct (keys al) \<Longrightarrow> map_of (filter (\<lambda>(k, v). P v) al) sn =
     (case map_of al sn of Some v \<Rightarrow> if P v then Some v else None | None \<Rightarrow> None)"
proof (induction al)
  case (Cons p al)
  have "map_of (filter (\<lambda>(k, v). P v) al) (fst p) = None"
    using Cons.prems by (force simp: map_of_eq_None_iff)
  then show ?case
    using Cons by (cases p) (auto split: option.splits)
qed simp

lemma parseOwn_distinct: "parseOwnSkills es out = Inr own \<Longrightarrow> distinct (keys out) \<Longrightarrow> distinct (keys own)"
  by (induction es out rule: parseOwnSkills.induct) (auto split: if_splits)

lemma parse_nodes_distinct:
  "parse_nodes body out = Inr jobs \<Longrightarrow> \<forall>(j, pj)\<in>set out. distinct (keys (pj_own pj)) \<Longrightarrow>
     \<forall>(j, pj)\<in>set jobs. distinct (keys (pj_own pj))"
proof (induction body out rule: parse_nodes.induct)
  case (3 node body out)
  then obtain own where own: "parseOwnSkills (jn_Tree node) [] = Inr own"
    "parse_nodes body (AList.update (jn_Job node) \<lparr>pj_name = jn_Job node, pj_inherit = jn_Inherit node, pj_own = own\<rparr> out) = Inr jobs"
    "jn_Job node \<noteq> []" "map_of out (jn_Job node) = None"
    by (auto split: if_splits sum.splits)
  have "\<forall>(j, pj)\<in>set (AList.update (jn_Job node) \<lparr>pj_name = jn_Job node, pj_inherit = jn_Inherit node, pj_own = own\<rparr> out).
      distinct (keys (pj_own pj))"
    using "3.prems"(2) parseOwn_distinct [OF own(1)] set_update_subset [of "jn_Job node"
      "\<lparr>pj_name = jn_Job node, pj_inherit = jn_Inherit node, pj_own = own\<rparr>" out] by auto
  then show ?case
    using "3.IH" [OF _ _ own(1) own(2)] own(3,4) by simp
qed auto

definition tree_skill :: "tree_registry \<Rightarrow> string \<Rightarrow> string \<Rightarrow> tree_entry option" where
  "tree_skill reg j sn = (case map_of reg j of None \<Rightarrow> None | Some jt \<Rightarrow> map_of (jt_Skills jt) sn)"

lemma map_of_map_pair:
  assumes "\<And>k v. fst (f (k, v)) = k"
  shows "map_of (map f al) k = (case map_of al k of None \<Rightarrow> None | Some v \<Rightarrow> Some (snd (f (k, v))))"
proof (induction al)
  case (Cons p al)
  obtain a b where p: "p = (a, b)"
    by (cases p)
  obtain c where "f (a, b) = (a, c)"
    using assms [of a b] by (metis prod.collapse)
  then show ?case
    using Cons by (auto simp: p split: option.splits)
qed simp

text \<open>
  C34. The resolved tree of a job that a loaded file lists. A skill the job lists itself keeps the job's own entry.
  Any other skill comes from the jobs named in the job's own \<open>Inherit\<close> entries (direct ancestors only; what those inherit in
  turn is not passed on): the last of them, in name order, that lists the skill itself and does not mark it
  \<open>Exclude\<close> gives its entry, and if none does, the skill is not in the tree. Whichever entry is chosen
  disappears when its maximum level is 0, so a job can delete an inherited skill.
\<close>

theorem inheritance_exact:
  assumes load: "skilltree_Load kd version body = Some (Inr reg)" and jobs: "parseBody body = Inr jobs"
    and j: "map_of jobs j = Some pj"
  shows "tree_skill reg j sn =
    (case (case map_of (pj_own pj) sn of Some e \<Rightarrow> Some e | None \<Rightarrow> inherited_skill jobs pj sn) of
       None \<Rightarrow> None | Some e \<Rightarrow> if te_MaxLevel e = 0 then None else Some e)"
proof -
  have reg: "reg = pruneMaxLevelZero (resolveInheritance jobs)"
    using load jobs by (auto simp: skilltree_Load_def split: if_splits sum.splits option.splits)
  have "parse_nodes body [] = Inr jobs"
    using jobs by (auto simp: parseBody_def split: sum.splits if_splits)
  then have d: "distinct (keys (pj_own pj))"
    using parse_nodes_distinct [of body "[]" jobs] map_of_SomeD [OF j] by auto
  let ?jt = "\<lparr>jt_Job = j, jt_Skills = pj_own pj\<rparr>"
  define skills where "skills = jt_Skills (snd (resolve_job jobs (j, pj)))"
  have none: "inherited_skill jobs pj sn = None" if "pj_inherit pj = []"
    using that by (simp add: inherited_skill_def sortedKeys_def)
  have "distinct (keys skills)"
    using d by (simp add: skills_def resolve_job_def makeOwnTree_def Let_def distinct_copy)
  moreover have "map_of skills sn = (case map_of (pj_own pj) sn of Some e \<Rightarrow> Some e | None \<Rightarrow> inherited_skill jobs pj sn)"
    using none by (auto simp: skills_def resolve_job_def makeOwnTree_def Let_def copy_lookup distinct_mergeAncestors
        mergeAncestors_lookup split: option.splits)
  moreover have "tree_skill reg j sn = map_of (filter (\<lambda>(sn, e). te_MaxLevel e \<noteq> 0) skills) sn"
    using j by (simp add: tree_skill_def reg pruneMaxLevelZero_def resolveInheritance_def map_of_map_pair
        resolve_job_def skills_def split_beta Let_def)
  ultimately show ?thesis
    by (simp add: filter_lookup split: option.splits)
qed

definition demo_node :: "string \<Rightarrow> int \<Rightarrow> tree_node option" where
  "demo_node n mx = Some \<lparr>tn_Name = n, tn_MaxLevel = mx, tn_Exclude = False, tn_BaseLevel = 0, tn_JobLevel = 0, tn_Requires = []\<rparr>"

definition demo_body :: "job_node option list" where
  "demo_body =
     [Some \<lparr>jn_Job = ''Novice'', jn_Inherit = [], jn_Tree = [demo_node ''BASIC'' 9, demo_node ''TRICK'' 1]\<rparr>,
      Some \<lparr>jn_Job = ''Swordman'', jn_Inherit = [(''Novice'', True)], jn_Tree = [demo_node ''SWORD'' 10, demo_node ''TRICK'' 0]\<rparr>]"

theorem inheritance_exact_witness:
  "\<exists>reg. skilltree_Load ''SKILL_TREE_DB'' 1 demo_body = Some (Inr reg) \<and>
     map_option te_MaxLevel (tree_skill reg ''Swordman'' ''BASIC'') = Some 9 \<and> tree_skill reg ''Swordman'' ''TRICK'' = None"
proof -
  have parse: "\<exists>pn ps. parseBody demo_body = Inr [(''Novice'', pn), (''Swordman'', ps)] \<and>
      pn = \<lparr>pj_name = ''Novice'', pj_inherit = [], pj_own =
        [(''BASIC'', \<lparr>te_Name = ''BASIC'', te_MaxLevel = 9, te_Exclude = False, te_BaseLevel = 0, te_JobLevel = 0, te_Requires = []\<rparr>),
         (''TRICK'', \<lparr>te_Name = ''TRICK'', te_MaxLevel = 1, te_Exclude = False, te_BaseLevel = 0, te_JobLevel = 0, te_Requires = []\<rparr>)]\<rparr> \<and>
      ps = \<lparr>pj_name = ''Swordman'', pj_inherit = [(''Novice'', True)], pj_own =
        [(''SWORD'', \<lparr>te_Name = ''SWORD'', te_MaxLevel = 10, te_Exclude = False, te_BaseLevel = 0, te_JobLevel = 0, te_Requires = []\<rparr>),
         (''TRICK'', \<lparr>te_Name = ''TRICK'', te_MaxLevel = 0, te_Exclude = False, te_BaseLevel = 0, te_JobLevel = 0, te_Requires = []\<rparr>)]\<rparr>"
    by (simp add: demo_body_def demo_node_def parseBody_def)
  then obtain pn ps where jobs: "parseBody demo_body = Inr [(''Novice'', pn), (''Swordman'', ps)]"
    and pn: "map_of (pj_own pn) ''BASIC'' \<noteq> None" "map_option te_MaxLevel (map_of (pj_own pn) ''BASIC'') = Some 9"
      "map_option te_Exclude (map_of (pj_own pn) ''BASIC'') = Some False"
    and ps: "pj_inherit ps = [(''Novice'', True)]" "map_of (pj_own ps) ''BASIC'' = None"
      "map_option te_MaxLevel (map_of (pj_own ps) ''TRICK'') = Some 0"
    by auto
  have "case skilltree_Load ''SKILL_TREE_DB'' 1 demo_body of Some (Inr reg) \<Rightarrow> True | _ \<Rightarrow> False"
    by code_simp
  then obtain reg where reg: "skilltree_Load ''SKILL_TREE_DB'' 1 demo_body = Some (Inr reg)"
    by (auto split: option.splits sum.splits)
  have j: "map_of [(''Novice'', pn), (''Swordman'', ps)] ''Swordman'' = Some ps"
    by simp
  show ?thesis
    using reg inheritance_exact [OF reg jobs j, of "''BASIC''"] inheritance_exact [OF reg jobs j, of "''TRICK''"] pn ps
    by (auto simp: inherited_skill_def sortedKeys_def bestows_def)
qed

end
