(* ===== verification/Skill.thy ===== *)
theory Skill
  imports WorldPersist Combat SkillTree
begin

text \<open>
  \<open>SkillService\<close> (\<open>world/app/skill.go\<close>): casting on a target and learning. A cast works on the live world and
  can hit through the combat service, whose panic is \<open>None\<close>; learning also writes to the character table,
  so its state is the pair of the world and the repository's state.

  \<open>LearnSkill\<close> copies the entity but not the map behind \<open>LearnedSkills\<close>: when that map exists, writing the
  new level into the copy writes it into the live entity before anything is saved. A live map is never
  empty (every writer that creates one also fills it), so the existing maps are the non-empty ones.
\<close>

declare map_of_eq_Some_iff [simp del]

record skill_service =
  ss_combat :: combat_service
  ss_skills :: "skill_registry option"
  ss_tree :: "tree_registry option"

definition NewSkillService :: "combat_service \<Rightarrow> skill_registry option \<Rightarrow> skill_service" where
  "NewSkillService combat skills = \<lparr>ss_combat = combat, ss_skills = skills, ss_tree = None\<rparr>"

definition SetTree :: "tree_registry option \<Rightarrow> skill_service \<Rightarrow> skill_service" where
  "SetTree tree S = S\<lparr>ss_tree := tree\<rparr>"

section \<open>Casting\<close>

definition absInt :: "int \<Rightarrow> int" where
  "absInt x = (if x < 0 then - x else x)"

definition chebyshev :: "position \<Rightarrow> position \<Rightarrow> int" where
  "chebyshev a b =
     (let dx = absInt (pos_X a - pos_X b); dy = absInt (pos_Y a - pos_Y b)
      in if dx > dy then dx else dy)"

definition isOffensiveSkill :: "skilldb_entry option \<Rightarrow> bool" where
  "isOffensiveSkill e = (case e of None \<Rightarrow> False | Some e \<Rightarrow> sd_TargetType e = ''Enemy'')"

definition trySpendSP :: "u32 \<Rightarrow> int \<Rightarrow> world \<Rightarrow> (unit, world) out" where
  "trySpendSP i cost w =
     (case entity_at w i of
        None \<Rightarrow> (Inl ErrEntityNotFound, w)
      | Some e \<Rightarrow>
          if en_SP e < cost then (Inl ErrInsufficientSP, w)
          else (Inr (), put_entity i (e\<lparr>en_SP := i32 (en_SP e - cost)\<rparr>) w))"

definition UseSkillOnTarget :: "skill_service \<Rightarrow> u32 \<Rightarrow> int \<Rightarrow> int \<Rightarrow> u32 \<Rightarrow> world \<Rightarrow> (int \<times> bool, world) out option" where
  "UseSkillOnTarget S casterID skillID level targetGID w =
     (case skilldb_Get (ss_skills S) skillID of
        None \<Rightarrow> Some (Inl ErrUnknownSkill, w)
      | Some entry \<Rightarrow>
          if level < 1 \<or> level > sd_MaxLevel entry then Some (Inl ErrInvalidLevel, w)
          else case w_Get casterID w of
            Inl e \<Rightarrow> Some (Inl e, w)
          | Inr caster \<Rightarrow>
              case map_of (en_LearnedSkills caster) skillID of
                None \<Rightarrow> Some (Inl ErrSkillNotLearned, w)
              | Some learned \<Rightarrow>
                  if level > learned then Some (Inl ErrSkillLevelInsufficient, w)
                  else case w_Get targetGID w of
                    Inl e \<Rightarrow> Some (Inl e, w)
                  | Inr target \<Rightarrow>
                      let skillRange = Range_At (sd_Range entry) level;
                          skillRange = (if skillRange < 0 then 1 else skillRange)
                      in if chebyshev (en_Pos caster) (en_Pos target) > skillRange then Some (Inl ErrSkillOutOfRange, w)
                         else case trySpendSP casterID (SpCost_At (sd_SpCost entry) level) w of
                           (Inl e, w) \<Rightarrow> Some (Inl e, w)
                         | (Inr _, w) \<Rightarrow>
                             if \<not> isOffensiveSkill (Some entry) then Some (Inr (0, False), w)
                             else Attack (ss_combat S) casterID targetGID w)"

section \<open>Learning\<close>

definition learned_level :: "entity \<Rightarrow> int \<Rightarrow> int" where
  "learned_level e sid = (case map_of (en_LearnedSkills e) sid of None \<Rightarrow> 0 | Some lv \<Rightarrow> lv)"

fun requirements_met :: "skill_registry option \<Rightarrow> skill_requirement list \<Rightarrow> entity \<Rightarrow> unit res" where
  "requirements_met skills [] e = Inr ()"
| "requirements_met skills (req # rest) e =
     (case IDByName skills (sq_Name req) of
        None \<Rightarrow> Inl ErrSkillLocked
      | Some reqID \<Rightarrow>
          if learned_level e reqID < sq_Level req then Inl ErrSkillLocked else requirements_met skills rest e)"

definition treeUnlocked :: "skill_service \<Rightarrow> tree_entry \<Rightarrow> entity \<Rightarrow> unit res" where
  "treeUnlocked S treeEntry e =
     (if en_Level e < te_BaseLevel treeEntry \<or> en_JobLevel e < te_JobLevel treeEntry then Inl ErrSkillLocked
      else requirements_met (ss_skills S) (te_Requires treeEntry) e)"

text \<open>The gates, on the snapshot of the entity.\<close>

definition learn_gates :: "skill_service \<Rightarrow> skilldb_entry \<Rightarrow> int \<Rightarrow> entity \<Rightarrow> tree_entry res" where
  "learn_gates S entry skillID e =
     (if en_Job e \<noteq> 0 then Inl ErrSkillNotInTree
      else case skilltree_Get (ss_tree S) ''Novice'' of
        None \<Rightarrow> Inl ErrSkillNotInTree
      | Some tree \<Rightarrow>
          case map_of (jt_Skills tree) (sd_Name entry) of
            None \<Rightarrow> Inl ErrSkillNotInTree
          | Some treeEntry \<Rightarrow>
              if en_SkillPoint e = 0 then Inl ErrNoSkillPoints
              else case treeUnlocked S treeEntry e of
                Inl err \<Rightarrow> Inl err
              | Inr _ \<Rightarrow>
                  if learned_level e skillID \<ge> te_MaxLevel treeEntry then Inl ErrSkillMaxLevel else Inr treeEntry)"

record learn_ack =
  la_NewLevel :: int
  la_SpCost :: int
  la_Range :: int
  la_Upgradable :: bool

definition LearnSkill :: "'s world_port \<Rightarrow> skill_service \<Rightarrow> u32 \<Rightarrow> int \<Rightarrow> world \<times> 's \<Rightarrow> (learn_ack, world \<times> 's) out" where
  "LearnSkill P S charID skillID st =
     (case skilldb_Get (ss_skills S) skillID of
        None \<Rightarrow> (Inl ErrUnknownSkill, st)
      | Some entry \<Rightarrow>
          case entity_at (fst st) charID of
            None \<Rightarrow> (Inl ErrEntityNotFound, st)
          | Some e \<Rightarrow>
              case learn_gates S entry skillID e of
                Inl err \<Rightarrow> (Inl err, st)
              | Inr treeEntry \<Rightarrow>
                  let newLevel = i16 (learned_level e skillID + 1);
                      skills = AList.update skillID newLevel (en_LearnedSkills e);
                      st = (if en_LearnedSkills e \<noteq> [] then (put_entity charID (e\<lparr>en_LearnedSkills := skills\<rparr>) (fst st), snd st) else st);
                      newSP = en_SkillPoint e - 1
                  in and_then (repo_call (wp_SaveSkills P charID skills) st) (\<lambda>_ st.
                     and_then (repo_call (wp_SaveState P charID (en_Level e) (en_JobLevel e) (en_MaxHP e) (en_MaxSP e) (en_HP e)
                       (en_SP e) (en_BaseExp e) (en_JobExp e) (en_StatusPoint e) newSP) st) (\<lambda>_ st.
                       (Inr \<lparr>la_NewLevel = newLevel, la_SpCost = SpCostAt (ss_skills S) skillID newLevel,
                            la_Range = Range_At (sd_Range entry) newLevel, la_Upgradable = newLevel < te_MaxLevel treeEntry\<rparr>,
                        (case entity_at (fst st) charID of
                           None \<Rightarrow> st
                         | Some se \<Rightarrow> (put_entity charID (se\<lparr>en_SkillPoint := newSP, en_LearnedSkills := skills\<rparr>) (fst st), snd st))))))"

section \<open>What the gates demand\<close>

lemma requirements_met_iff:
  "requirements_met skills reqs e = Inr () \<longleftrightarrow>
     (\<forall>req\<in>set reqs. \<exists>i. IDByName skills (sq_Name req) = Some i \<and> sq_Level req \<le> learned_level e i)"
  by (induction reqs) (auto split: option.splits)

definition may_learn :: "skill_service \<Rightarrow> skilldb_entry \<Rightarrow> int \<Rightarrow> entity \<Rightarrow> tree_entry \<Rightarrow> bool" where
  "may_learn S entry sid e te \<longleftrightarrow>
     en_Job e = 0 \<and> (\<exists>g. ss_tree S = Some g \<and> tree_skill g ''Novice'' (sd_Name entry) = Some te) \<and> en_SkillPoint e \<noteq> 0 \<and>
     te_BaseLevel te \<le> en_Level e \<and> te_JobLevel te \<le> en_JobLevel e \<and> learned_level e sid < te_MaxLevel te \<and>
     (\<forall>req\<in>set (te_Requires te). \<exists>i. IDByName (ss_skills S) (sq_Name req) = Some i \<and> sq_Level req \<le> learned_level e i)"

lemma treeUnlocked_iff:
  "treeUnlocked S te e = Inr () \<longleftrightarrow> te_BaseLevel te \<le> en_Level e \<and> te_JobLevel te \<le> en_JobLevel e \<and>
     (\<forall>req\<in>set (te_Requires te). \<exists>i. IDByName (ss_skills S) (sq_Name req) = Some i \<and> sq_Level req \<le> learned_level e i)"
  using requirements_met_iff [of "ss_skills S" "te_Requires te" e] by (auto simp: treeUnlocked_def)

lemma learn_gates_iff: "learn_gates S entry sid e = Inr te \<longleftrightarrow> may_learn S entry sid e te"
proof -
  have *: "(case treeUnlocked S t e of Inl err \<Rightarrow> Inl err
      | Inr _ \<Rightarrow> if learned_level e sid \<ge> te_MaxLevel t then Inl ErrSkillMaxLevel else Inr t) = Inr te \<longleftrightarrow>
    t = te \<and> treeUnlocked S te e = Inr () \<and> learned_level e sid < te_MaxLevel te" for t
    by (auto split: sum.splits)
  show ?thesis
    by (auto simp: learn_gates_def may_learn_def skilltree_Get_def tree_skill_def * treeUnlocked_iff split: option.splits)
qed

lemma chebyshev_Chebyshev: "chebyshev a b = Chebyshev (pos_X a) (pos_Y a) (pos_X b) (pos_Y b)"
  by (simp add: chebyshev_def Chebyshev_def absInt_def Let_def abs_if max_def)

section \<open>Properties\<close>

definition demo_bash :: skilldb_entry where
  "demo_bash = \<lparr>sd_ID = 5, sd_Name = ''SM_BASH'', sd_Description = [], sd_MaxLevel = 10, sd_Type = ''Weapon'', sd_TargetType = ''Enemy'',
     sd_Hit = [], sd_Element = \<lparr>lc_IsScalar = True, lc_Value = [], lc_Levels = []\<rparr>, sd_Status = [],
     sd_Range = \<lparr>lc_IsScalar = True, lc_Value = - 1, lc_Levels = []\<rparr>,
     sd_SpCost = \<lparr>lc_IsScalar = False, lc_Value = 0, lc_Levels = [(1, 2), (6, 15)]\<rparr>\<rparr>"

definition demo_magnum :: skilldb_entry where
  "demo_magnum = demo_bash\<lparr>sd_ID := 7, sd_Name := ''SM_MAGNUM''\<rparr>"

definition demo_tree :: tree_registry where
  "demo_tree = [(''Novice'', \<lparr>jt_Job = ''Novice'', jt_Skills =
     [(''SM_BASH'', \<lparr>te_Name = ''SM_BASH'', te_MaxLevel = 10, te_Exclude = False, te_BaseLevel = 1, te_JobLevel = 0, te_Requires = []\<rparr>),
      (''SM_MAGNUM'', \<lparr>te_Name = ''SM_MAGNUM'', te_MaxLevel = 10, te_Exclude = False, te_BaseLevel = 0, te_JobLevel = 0,
         te_Requires = [\<lparr>sq_Name = ''SM_BASH'', sq_Level = 1\<rparr>]\<rparr>)]\<rparr>)]"

definition demo_loaded :: skill_registry where
  "demo_loaded = \<lparr>sk_entries = foldl skilldb_add [] [Some demo_bash, Some demo_magnum], sk_byName = None\<rparr>"

definition demo_skills :: skill_service where
  "demo_skills = SetTree (Some demo_tree) (NewSkillService (demo_combat None) (Some demo_loaded))"

definition demo_caster :: entity where
  "demo_caster = demo_pc\<lparr>en_LearnedSkills := [(5, 1)], en_SkillPoint := 2\<rparr>"

definition skill_world :: world where
  "skill_world = put_entity 150001 demo_caster fight_world"

lemma skill_world_rows: "entity_at skill_world 150001 = Some demo_caster" "entity_at skill_world 200001 = Some demo_mob"
  by (simp_all add: skill_world_def fight_world_facts(2))

lemma demo_caster_simps:
  "en_LearnedSkills demo_caster = [(5, 1)]" "en_SkillPoint demo_caster = 2" "en_SP demo_caster = 3" "en_Job demo_caster = 0"
  "en_Level demo_caster = 1" "en_JobLevel demo_caster = 1" "en_Pos demo_caster = \<lparr>pos_X = 150, pos_Y = 160\<rparr>"
  by (simp_all add: demo_caster_def)

lemma demo_loaded_is: "demo_loaded = \<lparr>sk_entries = [(5, demo_bash), (7, demo_magnum)], sk_byName = None\<rparr>"
  by (simp add: demo_loaded_def skilldb_add_def demo_bash_def demo_magnum_def Let_def)

lemma demo_skills_simps: "ss_skills demo_skills = Some demo_loaded" "ss_tree demo_skills = Some demo_tree"
    "skilldb_Get (Some demo_loaded) 5 = Some demo_bash"
  by (simp_all add: demo_skills_def SetTree_def NewSkillService_def skilldb_Get_def demo_loaded_is)

lemma demo_may_learn: "\<exists>te. may_learn demo_skills demo_bash 5 demo_caster te \<and> te_MaxLevel te = 10"
  by (simp add: may_learn_def demo_skills_simps demo_caster_simps tree_skill_def demo_tree_def demo_bash_def learned_level_def)

text \<open>The demands of a cast: caster \<open>ea\<close>, target \<open>eb\<close>.\<close>

definition castable :: "skilldb_entry \<Rightarrow> int \<Rightarrow> int \<Rightarrow> entity \<Rightarrow> entity \<Rightarrow> bool" where
  "castable entry sid level ea eb \<longleftrightarrow>
     1 \<le> level \<and> level \<le> sd_MaxLevel entry \<and> (\<exists>l. map_of (en_LearnedSkills ea) sid = Some l \<and> level \<le> l) \<and>
     Chebyshev (pos_X (en_Pos ea)) (pos_Y (en_Pos ea)) (pos_X (en_Pos eb)) (pos_Y (en_Pos eb))
       \<le> (if Range_At (sd_Range entry) level < 0 then 1 else Range_At (sd_Range entry) level) \<and>
     SpCost_At (sd_SpCost entry) level \<le> en_SP ea"

text \<open>
  Remark. A cast either passes every gate or costs nothing: with caster and target on the map it is refused, with
  the world untouched, unless the level is valid and learned, the target is within the skill's range and
  the SP suffice; then exactly the level's cost is spent, and an offensive skill hits as an attack made
  after the payment.
\<close>

theorem cast_pays_or_refuses:
  assumes a: "entity_at w a = Some ea" and b: "entity_at w b = Some eb" and sk: "skilldb_Get (ss_skills S) sid = Some entry"
  shows "if castable entry sid level ea eb
    then UseSkillOnTarget S a sid level b w =
      (let paid = put_entity a (ea\<lparr>en_SP := i32 (en_SP ea - SpCost_At (sd_SpCost entry) level)\<rparr>) w
       in if sd_TargetType entry = ''Enemy'' then Attack (ss_combat S) a b paid else Some (Inr (0, False), paid))
    else \<exists>e. UseSkillOnTarget S a sid level b w = Some (Inl e, w)"
  using assms
  by (auto simp: UseSkillOnTarget_def castable_def trySpendSP_def isOffensiveSkill_def chebyshev_Chebyshev w_Get_def Let_def
      not_less not_le split: option.splits if_splits)

theorem cast_pays_or_refuses_witness:
  "UseSkillOnTarget demo_skills 150001 5 1 200001 skill_world =
     Attack (ss_combat demo_skills) 150001 200001 (put_entity 150001 (demo_caster\<lparr>en_SP := 1\<rparr>) skill_world) \<and>
   (\<exists>e. UseSkillOnTarget demo_skills 150001 5 2 200001 skill_world = Some (Inl e, skill_world))"
proof -
  note c = cast_pays_or_refuses [OF skill_world_rows, of demo_skills 5 demo_bash]
  have sk: "skilldb_Get (ss_skills demo_skills) 5 = Some demo_bash"
    by (simp add: demo_skills_simps)
  have cost: "SpCost_At (sd_SpCost demo_bash) 1 = 2" "Range_At (sd_Range demo_bash) 1 = - 1" "sd_MaxLevel demo_bash = 10"
      "sd_TargetType demo_bash = ''Enemy''"
    by (simp_all add: demo_bash_def SpCost_At_def Range_At_def)
  have "en_Pos demo_mob = \<lparr>pos_X = 151, pos_Y = 160\<rparr>"
    by (simp add: demo_mob_def)
  then have "castable demo_bash 5 1 demo_caster demo_mob" "\<not> castable demo_bash 5 2 demo_caster demo_mob"
    by (simp_all add: castable_def cost demo_caster_simps Chebyshev_def)
  then show ?thesis
    using c [OF sk, of 1] c [OF sk, of 2] by (simp add: cost demo_caster_simps i32_id in_i32_def)
qed

text \<open>
  Remark. Learning a skill on the in-memory table is exact: when the novice tree lists the skill, a point is left, the
  base and job levels and every prerequisite are met and the level is below the tree's cap, the level rises
  by one and one point is spent, in the world and in the table alike, and nothing else changes; otherwise
  the call fails and changes nothing.
\<close>

theorem learn_skill_exact:
  assumes e: "entity_at w c = Some e" and row: "r c = Some re" and sk: "skilldb_Get (ss_skills S) sid = Some entry"
    and small: "\<forall>te. may_learn S entry sid e te \<longrightarrow> - 32769 < learned_level e sid \<and> te_MaxLevel te \<le> 32767"
  shows "if \<exists>te. may_learn S entry sid e te
    then \<exists>ack w' r'. LearnSkill mem_world_port S c sid (w, r) = (Inr ack, (w', r')) \<and>
      la_NewLevel ack = learned_level e sid + 1 \<and>
      entity_at w' = (entity_at w)(c \<mapsto> e\<lparr>en_SkillPoint := en_SkillPoint e - 1,
        en_LearnedSkills := AList.update sid (learned_level e sid + 1) (en_LearnedSkills e)\<rparr>) \<and>
      w_grids w' = w_grids w \<and> w_events w' = w_events w \<and> (\<forall>c'. c' \<noteq> c \<longrightarrow> r' c' = r c') \<and>
      map_option en_SkillPoint (r' c) = Some (en_SkillPoint e - 1) \<and>
      map_option en_LearnedSkills (r' c) = Some (skill_map (AList.update sid (learned_level e sid + 1) (en_LearnedSkills e)))
    else \<exists>er. LearnSkill mem_world_port S c sid (w, r) = (Inl er, (w, r))"
proof (cases "\<exists>te. may_learn S entry sid e te")
  case True
  then obtain te where te: "may_learn S entry sid e te"
    by blast
  have lv: "i16 (learned_level e sid + 1) = learned_level e sid + 1"
    using small te by (intro i16_id) (auto simp: in_i16_def may_learn_def)
  have "learn_gates S entry sid e = Inr te"
    using te by (simp add: learn_gates_iff)
  then show ?thesis
    using True e row sk by (simp add: LearnSkill_def lv Let_def repo_call_def mem_world_port_def mw_SaveSkills_def mw_SaveState_def)
next
  case False
  then obtain er where "learn_gates S entry sid e = Inl er"
    using learn_gates_iff [of S entry sid e] by (cases "learn_gates S entry sid e") auto
  then show ?thesis
    using False e sk by (simp add: LearnSkill_def)
qed

theorem learn_skill_exact_witness:
  "\<exists>ack w' r'. LearnSkill mem_world_port demo_skills 150001 5 (skill_world, [150001 \<mapsto> demo_caster]) = (Inr ack, (w', r')) \<and>
     la_NewLevel ack = 2 \<and> map_option en_LearnedSkills (entity_at w' 150001) = Some [(5, 2)] \<and>
     map_option en_SkillPoint (r' 150001) = Some 1"
proof -
  have sk: "skilldb_Get (ss_skills demo_skills) 5 = Some demo_bash"
    by (simp add: demo_skills_simps)
  have lv: "learned_level demo_caster 5 = 1"
    by (simp add: learned_level_def demo_caster_simps)
  let ?r = "[150001 \<mapsto> demo_caster]"
  have row: "?r 150001 = Some demo_caster"
    by simp
  have "te_MaxLevel te \<le> 32767" if "may_learn demo_skills demo_bash 5 demo_caster te" for te
    using that by (auto simp: may_learn_def demo_skills_simps tree_skill_def demo_tree_def demo_bash_def)
  then have small: "\<forall>te. may_learn demo_skills demo_bash 5 demo_caster te \<longrightarrow>
      - 32769 < learned_level demo_caster 5 \<and> te_MaxLevel te \<le> 32767"
    by (simp add: lv)
  have may: "\<exists>te. may_learn demo_skills demo_bash 5 demo_caster te"
    using demo_may_learn by blast
  show ?thesis
    using learn_skill_exact [where r = ?r, OF skill_world_rows(1) row sk small] may by (auto simp: lv demo_caster_simps)
qed

text \<open>
  Remark. With a registry that \<open>Load\<close> built from a file, a skill that has a prerequisite can never be learned: the
  loader leaves the name index empty, so no prerequisite is ever found, whatever the player has learned.
\<close>

theorem loaded_prerequisites_lock:
  assumes "skilldb_Load kd version body = Inr g" and "ss_skills S = Some g" and "ss_tree S = Some t"
    and "tree_skill t ''Novice'' (sd_Name entry) = Some te" and "te_Requires te \<noteq> []" and "map_of (sk_entries g) sid = Some entry"
  shows "\<exists>er. LearnSkill P S c sid (w, s) = (Inl er, (w, s))"
proof -
  have none: "IDByName (ss_skills S) n = None" for n
    using assms(1,2) by (auto simp: skilldb_Load_def IDByName_def split: if_splits)
  obtain req reqs where req: "te_Requires te = req # reqs"
    using assms(5) by (cases "te_Requires te") auto
  show ?thesis
  proof (cases "entity_at w c")
    case (Some e)
    have "\<not> may_learn S entry sid e te'" for te'
      using assms(3,4) none req by (auto simp: may_learn_def)
    then obtain er where "learn_gates S entry sid e = Inl er"
      using learn_gates_iff [of S entry sid e] by (cases "learn_gates S entry sid e") auto
    then show ?thesis
      using Some assms(2,6) by (simp add: LearnSkill_def skilldb_Get_def)
  qed (use assms(2,6) in \<open>simp add: LearnSkill_def skilldb_Get_def\<close>)
qed

theorem loaded_prerequisites_lock_witness:
  "(\<exists>er. LearnSkill mem_world_port demo_skills 150001 7 (skill_world, Map.empty) = (Inl er, (skill_world, Map.empty))) \<and>
   learned_level demo_caster 5 = 1"
proof -
  have load: "skilldb_Load ''SKILL_DB'' 4 [Some demo_bash, Some demo_magnum] = Inr demo_loaded"
    by (simp add: skilldb_Load_def demo_loaded_def)
  have "\<exists>te. tree_skill demo_tree ''Novice'' (sd_Name demo_magnum) = Some te \<and> te_Requires te \<noteq> []"
    by (simp add: tree_skill_def demo_tree_def demo_magnum_def)
  then obtain te where te: "tree_skill demo_tree ''Novice'' (sd_Name demo_magnum) = Some te" "te_Requires te \<noteq> []"
    by blast
  have m: "map_of (sk_entries demo_loaded) 7 = Some demo_magnum"
    by (simp add: demo_loaded_is)
  show ?thesis
    using loaded_prerequisites_lock [OF load demo_skills_simps(1,2) te m] by (simp add: learned_level_def demo_caster_simps)
qed

text \<open>
  Remark. A failed save leaves the level learned: when the character already has some skill and the table refuses
  the write, \<open>LearnSkill\<close> returns the error, the player keeps the raised level in the live world, and no
  skill point is spent.
\<close>

theorem failed_save_keeps_level:
  assumes e: "entity_at w c = Some e" and some: "en_LearnedSkills e \<noteq> []" and sk: "skilldb_Get (ss_skills S) sid = Some entry"
    and te: "may_learn S entry sid e te" and fails: "\<And>ks. wp_SaveSkills P c ks s = (Inl er, s)"
  shows "\<exists>w'. LearnSkill P S c sid (w, s) = (Inl er, (w', s)) \<and>
    entity_at w' = (entity_at w)(c \<mapsto>
      e\<lparr>en_LearnedSkills := AList.update sid (i16 (learned_level e sid + 1)) (en_LearnedSkills e)\<rparr>)"
proof -
  have "learn_gates S entry sid e = Inr te"
    using te by (simp add: learn_gates_iff)
  then show ?thesis
    using e some sk fails by (simp add: LearnSkill_def Let_def repo_call_def)
qed

theorem failed_save_keeps_level_witness:
  "\<exists>w'. LearnSkill mem_world_port demo_skills 150001 5 (skill_world, Map.empty) = (Inl ErrEntityNotFound, (w', Map.empty)) \<and>
     map_option (\<lambda>e. (en_LearnedSkills e, en_SkillPoint e)) (entity_at w' 150001) = Some ([(5, 2)], 2)"
proof -
  have sk: "skilldb_Get (ss_skills demo_skills) 5 = Some demo_bash"
    by (simp add: demo_skills_simps)
  obtain te where te: "may_learn demo_skills demo_bash 5 demo_caster te"
    using demo_may_learn by blast
  have some: "en_LearnedSkills demo_caster \<noteq> []"
    by (simp add: demo_caster_simps)
  have "wp_SaveSkills mem_world_port 150001 ks Map.empty = (Inl ErrEntityNotFound, Map.empty)" for ks
    by (simp add: mem_world_port_def mw_SaveSkills_def)
  then show ?thesis
    using failed_save_keeps_level [OF skill_world_rows(1) some sk te, of mem_world_port Map.empty ErrEntityNotFound]
    by (auto simp: learned_level_def demo_caster_simps i16_id in_i16_def)
qed

end
