(* ===== verification/ScriptVM.thy ===== *)
theory ScriptVM
  imports GoText
begin

text \<open>
  The stack machine of the NPC scripts (\<open>pkg/ro/script\<close>: \<open>value.go\<close>, \<open>opcode.go\<close>, \<open>code.go\<close>, \<open>vm.go\<close>,
  \<open>builtins.go\<close>). The host seam is a record of functions over an arbitrary host state: a blocking call
  (\<open>Next\<close>, \<open>Select\<close>, \<open>Input\<close>) is the host's answer. A pop from an empty stack, which panics in Go, is
  the outcome \<open>Panicked\<close>. \<open>KindFloat\<close> is left out: no code of the repository constructs a float value.
  Source positions, which only reach error texts, are left out too.
\<close>

section \<open>Values\<close>

datatype script_value = NilVal | IntVal int | StrVal string

fun IsZero :: "script_value \<Rightarrow> bool" where
  "IsZero (IntVal n) \<longleftrightarrow> n = 0"
| "IsZero (StrVal s) \<longleftrightarrow> s = []"
| "IsZero NilVal \<longleftrightarrow> True"

fun is_str :: "script_value \<Rightarrow> bool" where
  "is_str (StrVal s) \<longleftrightarrow> True"
| "is_str v \<longleftrightarrow> False"

text \<open>\<open>-n\<close> of the least \<open>int64\<close> is itself, so its digits are none.\<close>

definition itoa :: "int \<Rightarrow> string" where
  "itoa n =
     (if n = 0 then ''0''
      else let m = (if n < 0 then i64 (- n) else n); digits = (if m > 0 then format_nat (nat m) else [])
           in if n < 0 then CHR ''-'' # digits else digits)"

fun value_String :: "script_value \<Rightarrow> string" where
  "value_String (IntVal n) = itoa n"
| "value_String (StrVal s) = s"
| "value_String NilVal = []"

fun prefix_digits :: "int \<Rightarrow> string \<Rightarrow> int" where
  "prefix_digits n [] = n"
| "prefix_digits n (c # cs) =
     (case digit_value c of None \<Rightarrow> n | Some d \<Rightarrow> prefix_digits (i64 (i64 (n * 10) + int d)) cs)"

definition parseIntPrefix :: "string \<Rightarrow> int" where
  "parseIntPrefix s =
     (case s of
        [] \<Rightarrow> 0
      | c # cs \<Rightarrow>
          if c = CHR ''-'' then i64 (- prefix_digits 0 cs)
          else if c = CHR ''+'' then prefix_digits 0 cs
          else prefix_digits 0 s)"

fun asInt :: "script_value \<Rightarrow> int" where
  "asInt (IntVal n) = n"
| "asInt (StrVal s) = parseIntPrefix s"
| "asInt NilVal = 0"

definition boolVal :: "bool \<Rightarrow> script_value" where
  "boolVal b = (if b then IntVal 1 else IntVal 0)"

section \<open>Instructions\<close>

datatype opcode =
    OpEOF | OpExpr | OpExpr2 | OpLAnd | OpLOr | OpLEq | OpLNe | OpLGT | OpLLT | OpLGE | OpLLE
  | OpAdd | OpSub | OpMul | OpDiv | OpMod | OpNeg | OpNot | OpAnd | OpOr | OpXor | OpBNot | OpShiftL | OpShiftR
  | OpAssign | OpAssignAdd | OpAssignSub | OpAssignMul | OpAssignDiv | OpAssignMod | OpAssignShiftL | OpAssignShiftR
  | OpLabel | OpGoto | OpCallSub | OpReturn | OpBinary | OpPush | OpVar | OpFunc | OpName | OpEnd | OpClose
  | OpInt | OpStr | OpLine | OpIndexGet | OpIndexSet | OpJumpIfFalse | OpJumpIfTrue | OpPop

record instruction =
  in_Op :: opcode
  in_Operand :: int
  in_Str :: string

record compiled_script =
  cs_Name :: string
  cs_Instructions :: "instruction list"
  cs_Labels :: "string \<rightharpoonup> nat"

definition NewCompiledScript :: "string \<Rightarrow> compiled_script" where
  "NewCompiledScript name = \<lparr>cs_Name = name, cs_Instructions = [], cs_Labels = Map.empty\<rparr>"

definition LookupLabel :: "string \<Rightarrow> compiled_script \<Rightarrow> nat option" where
  "LookupLabel name cs = cs_Labels cs name"

section \<open>The host and the builtins\<close>

record 'h script_host =
  host_Mes :: "string \<Rightarrow> 'h \<Rightarrow> 'h"
  host_Next :: "'h \<Rightarrow> bool \<times> 'h"
  host_Select :: "string list \<Rightarrow> 'h \<Rightarrow> int \<times> 'h"
  host_Input :: "'h \<Rightarrow> int option \<times> 'h"
  host_InputStr :: "'h \<Rightarrow> string option \<times> 'h"
  host_Close :: "'h \<Rightarrow> 'h"
  host_Warp :: "string \<Rightarrow> int \<Rightarrow> int \<Rightarrow> 'h \<Rightarrow> 'h"
  host_PercentHeal :: "int \<Rightarrow> int \<Rightarrow> 'h \<Rightarrow> 'h"
  host_GetItem :: "u32 \<Rightarrow> int \<Rightarrow> 'h \<Rightarrow> bool \<times> 'h"
  host_DelItem :: "u32 \<Rightarrow> int \<Rightarrow> 'h \<Rightarrow> bool \<times> 'h"
  host_CountItem :: "u32 \<Rightarrow> 'h \<Rightarrow> int \<times> 'h"
  host_Equip :: "int \<Rightarrow> u32 \<Rightarrow> 'h \<Rightarrow> bool \<times> 'h"
  host_Unequip :: "int \<Rightarrow> 'h \<Rightarrow> bool \<times> 'h"
  host_GetQuestVar :: "string \<Rightarrow> string \<Rightarrow> 'h \<Rightarrow> int \<times> 'h"
  host_SetQuestVar :: "string \<Rightarrow> string \<Rightarrow> int \<Rightarrow> 'h \<Rightarrow> bool \<times> 'h"

text \<open>What a builtin can change: the variables and the host.\<close>

record 'h script_env =
  ev_vars :: "string \<rightharpoonup> script_value"
  ev_host :: 'h

datatype control = CtrlContinue | CtrlEnd

type_synonym 'h builtin = "script_value list \<Rightarrow> 'h script_env \<Rightarrow> script_value \<times> control \<times> 'h script_env"

definition env_GetVar :: "string \<Rightarrow> 'h script_env \<Rightarrow> script_value" where
  "env_GetVar name e = (case ev_vars e name of None \<Rightarrow> NilVal | Some v \<Rightarrow> v)"

definition env_SetVar :: "string \<Rightarrow> script_value \<Rightarrow> 'h script_env \<Rightarrow> 'h script_env" where
  "env_SetVar name v e = e\<lparr>ev_vars := (ev_vars e)(name \<mapsto> v)\<rparr>"

definition argStr :: "script_value list \<Rightarrow> nat \<Rightarrow> string" where
  "argStr args i = (if i < length args then value_String (args ! i) else [])"

definition argInt :: "script_value list \<Rightarrow> nat \<Rightarrow> int" where
  "argInt args i = (if i < length args then asInt (args ! i) else 0)"

definition argUint :: "script_value list \<Rightarrow> nat \<Rightarrow> u32" where
  "argUint args i = (if i < length args \<and> asInt (args ! i) \<ge> 0 then word_of_int (asInt (args ! i)) else 0)"

text \<open>Running a host call inside the environment.\<close>

definition with_host :: "('h \<Rightarrow> 'a \<times> 'h) \<Rightarrow> 'h script_env \<Rightarrow> 'a \<times> 'h script_env" where
  "with_host f e = (case f (ev_host e) of (a, h) \<Rightarrow> (a, e\<lparr>ev_host := h\<rparr>))"

definition tell_host :: "('h \<Rightarrow> 'h) \<Rightarrow> 'h script_env \<Rightarrow> 'h script_env" where
  "tell_host f e = e\<lparr>ev_host := f (ev_host e)\<rparr>"

definition builtinMes :: "'h script_host \<Rightarrow> 'h builtin" where
  "builtinMes H args e = (NilVal, CtrlContinue, tell_host (host_Mes H (argStr args 0)) e)"

definition builtinNext :: "'h script_host \<Rightarrow> 'h builtin" where
  "builtinNext H args e = (case with_host (host_Next H) e of (go, e) \<Rightarrow> (NilVal, if go then CtrlContinue else CtrlEnd, e))"

definition builtinClose :: "'h script_host \<Rightarrow> 'h builtin" where
  "builtinClose H args e = (NilVal, CtrlEnd, tell_host (host_Close H) e)"

definition builtinClose2 :: "'h script_host \<Rightarrow> 'h builtin" where
  "builtinClose2 H args e = (NilVal, CtrlContinue, tell_host (host_Close H) e)"

definition builtinEnd :: "'h builtin" where
  "builtinEnd args e = (NilVal, CtrlEnd, e)"

definition builtinSet :: "'h builtin" where
  "builtinSet args e =
     (NilVal, CtrlContinue, if length args \<ge> 2 then env_SetVar (value_String (args ! 0)) (args ! 1) e else e)"

definition builtinWarp :: "'h script_host \<Rightarrow> 'h builtin" where
  "builtinWarp H args e =
     (NilVal, CtrlContinue,
      if length args \<ge> 3 then tell_host (host_Warp H (value_String (args ! 0)) (asInt (args ! 1)) (asInt (args ! 2))) e else e)"

definition builtinPercentHeal :: "'h script_host \<Rightarrow> 'h builtin" where
  "builtinPercentHeal H args e =
     (let hp = (if length args \<ge> 1 then asInt (args ! 0) else 100); sp = (if length args \<ge> 2 then asInt (args ! 1) else 100)
      in (NilVal, CtrlContinue, tell_host (host_PercentHeal H hp sp) e))"

fun split_colon :: "string \<Rightarrow> string list" where
  "split_colon [] = [[]]"
| "split_colon (c # cs) =
     (if c = CHR '':'' then [] # split_colon cs
      else case split_colon cs of [] \<Rightarrow> [[c]] | p # ps \<Rightarrow> (c # p) # ps)"

fun join_colon :: "string list \<Rightarrow> string" where
  "join_colon [] = []"
| "join_colon [s] = s"
| "join_colon (s # ss) = s @ CHR '':'' # join_colon ss"

definition builtinSelect :: "'h script_host \<Rightarrow> 'h builtin" where
  "builtinSelect H args e =
     (case with_host (host_Select H (split_colon (join_colon (map value_String args)))) e of (n, e) \<Rightarrow> (IntVal n, CtrlContinue, e))"

definition builtinMenu :: "'h script_host \<Rightarrow> 'h builtin" where
  "builtinMenu H args e =
     (case with_host (host_Select H (map value_String args)) e of (n, e) \<Rightarrow> (IntVal n, CtrlContinue, e))"

definition inputDefaultMax :: int where "inputDefaultMax = 2147483647"

definition inputBounds :: "script_value list \<Rightarrow> int \<times> int" where
  "inputBounds args =
     (if length args > 1 then asInt (args ! 1) else 0, if length args > 2 then asInt (args ! 2) else inputDefaultMax)"

definition isStringVar :: "string \<Rightarrow> bool" where
  "isStringVar name \<longleftrightarrow> name \<noteq> [] \<and> last name = CHR ''$''"

definition inputRangeCode :: "int \<Rightarrow> int \<Rightarrow> int \<Rightarrow> int" where
  "inputRangeCode v minVal maxVal = (if v > maxVal then 1 else if v < minVal then -1 else 0)"

definition clampInput :: "int \<Rightarrow> int \<Rightarrow> int \<Rightarrow> int" where
  "clampInput v minVal maxVal = (if v < minVal then minVal else if v > maxVal then maxVal else v)"

definition builtinInput :: "'h script_host \<Rightarrow> 'h builtin" where
  "builtinInput H args e =
     (let name = argStr args 0; (minVal, maxVal) = inputBounds args
      in if isStringVar name then
           case with_host (host_InputStr H) e of
             (None, e) \<Rightarrow> (NilVal, CtrlEnd, e)
           | (Some t, e) \<Rightarrow> (IntVal (inputRangeCode (int (length t)) minVal maxVal), CtrlContinue, env_SetVar name (StrVal t) e)
         else
           case with_host (host_Input H) e of
             (None, e) \<Rightarrow> (NilVal, CtrlEnd, e)
           | (Some n, e) \<Rightarrow> (IntVal (inputRangeCode n minVal maxVal), CtrlContinue, env_SetVar name (IntVal (clampInput n minVal maxVal)) e))"

definition flag :: "bool \<times> 'h script_env \<Rightarrow> script_value \<times> control \<times> 'h script_env" where
  "flag r = (if fst r then IntVal 1 else IntVal 0, CtrlContinue, snd r)"

definition builtinGetItem :: "'h script_host \<Rightarrow> 'h builtin" where
  "builtinGetItem H args e =
     (if argInt args 1 \<le> 0 then (IntVal 0, CtrlContinue, e) else flag (with_host (host_GetItem H (argUint args 0) (argInt args 1)) e))"

definition builtinGetItem2 :: "'h script_host \<Rightarrow> 'h builtin" where
  "builtinGetItem2 H args e =
     (if argInt args 1 \<le> 0 then (IntVal 0, CtrlContinue, e) else flag (with_host (host_GetItem H (argUint args 0) (argInt args 1)) e))"

definition builtinDelItem :: "'h script_host \<Rightarrow> 'h builtin" where
  "builtinDelItem H args e =
     (if argInt args 1 \<le> 0 then (IntVal 0, CtrlContinue, e) else flag (with_host (host_DelItem H (argUint args 0) (argInt args 1)) e))"

definition builtinCountItem :: "'h script_host \<Rightarrow> 'h builtin" where
  "builtinCountItem H args e = (case with_host (host_CountItem H (argUint args 0)) e of (n, e) \<Rightarrow> (IntVal n, CtrlContinue, e))"

definition builtinEquip :: "'h script_host \<Rightarrow> 'h builtin" where
  "builtinEquip H args e = flag (with_host (host_Equip H (argInt args 0) (argUint args 1)) e)"

definition builtinUnequip :: "'h script_host \<Rightarrow> 'h builtin" where
  "builtinUnequip H args e = flag (with_host (host_Unequip H (argInt args 0)) e)"

definition builtinGetVariableOfNPC :: "'h script_host \<Rightarrow> 'h builtin" where
  "builtinGetVariableOfNPC H args e =
     (if length args < 2 then (IntVal 0, CtrlContinue, e)
      else case with_host (host_GetQuestVar H (value_String (args ! 0)) (value_String (args ! 1))) e of
             (n, e) \<Rightarrow> (IntVal n, CtrlContinue, e))"

definition builtinSetQuestVar :: "'h script_host \<Rightarrow> 'h builtin" where
  "builtinSetQuestVar H args e =
     (if length args < 3 then (IntVal 0, CtrlContinue, e)
      else let value = asInt (args ! 2)
           in case with_host (host_SetQuestVar H (value_String (args ! 0)) (value_String (args ! 1)) value) e of
                (stored, e) \<Rightarrow> (IntVal (if stored then value else 0), CtrlContinue, e))"

definition DefaultBuiltins :: "'h script_host \<Rightarrow> string \<rightharpoonup> 'h builtin" where
  "DefaultBuiltins H = map_of
     [(''mes'', builtinMes H), (''next'', builtinNext H), (''close'', builtinClose H), (''close2'', builtinClose2 H),
      (''end'', builtinEnd), (''set'', builtinSet), (''warp'', builtinWarp H), (''percentheal'', builtinPercentHeal H),
      (''select'', builtinSelect H), (''prompt'', builtinSelect H), (''menu'', builtinMenu H), (''input'', builtinInput H),
      (''getitem'', builtinGetItem H), (''getitem2'', builtinGetItem2 H), (''delitem'', builtinDelItem H),
      (''countitem'', builtinCountItem H), (''equip'', builtinEquip H), (''unequip'', builtinUnequip H),
      (''getvariableofnpc'', builtinGetVariableOfNPC H), (''setquestvar'', builtinSetQuestVar H)]"

section \<open>The machine\<close>

record 'h vm =
  vm_ip :: nat
  vm_stack :: "script_value list"  \<comment> \<open>the top first\<close>
  vm_callstack :: "nat list"  \<comment> \<open>the innermost return address first\<close>
  vm_env :: "'h script_env"

datatype 'h outcome = Running "'h vm" | Halted "'h script_env" | Failed string "'h script_env" | Panicked

definition uint_shift :: "int \<Rightarrow> int \<Rightarrow> nat option" where
  "uint_shift w b = (if 0 \<le> b \<and> b < w then Some (nat b) else None)"

definition go_mod :: "int \<Rightarrow> int \<Rightarrow> int" where
  "go_mod a b = a - b * go_div a b"

definition binary_value :: "opcode \<Rightarrow> script_value \<Rightarrow> script_value \<Rightarrow> script_value option" where
  "binary_value op a b =
     (let x = asInt a; y = asInt b
      in case op of
           OpAdd \<Rightarrow> Some (if is_str a \<or> is_str b then StrVal (value_String a @ value_String b) else IntVal (i64 (x + y)))
         | OpSub \<Rightarrow> Some (IntVal (i64 (x - y)))
         | OpMul \<Rightarrow> Some (IntVal (i64 (x * y)))
         | OpDiv \<Rightarrow> Some (IntVal (if y = 0 then 0 else i64 (go_div x y)))
         | OpMod \<Rightarrow> Some (IntVal (if y = 0 then 0 else go_mod x y))
         | OpLEq \<Rightarrow> Some (boolVal (x = y))
         | OpLNe \<Rightarrow> Some (boolVal (x \<noteq> y))
         | OpLGT \<Rightarrow> Some (boolVal (x > y))
         | OpLLT \<Rightarrow> Some (boolVal (x < y))
         | OpLGE \<Rightarrow> Some (boolVal (x \<ge> y))
         | OpLLE \<Rightarrow> Some (boolVal (x \<le> y))
         | OpAnd \<Rightarrow> Some (IntVal (Bit_Operations.and x y))
         | OpOr \<Rightarrow> Some (IntVal (Bit_Operations.or x y))
         | OpXor \<Rightarrow> Some (IntVal (Bit_Operations.xor x y))
         | OpShiftL \<Rightarrow> Some (IntVal (case uint_shift 64 y of None \<Rightarrow> 0 | Some n \<Rightarrow> i64 (push_bit n x)))
         | OpShiftR \<Rightarrow> Some (IntVal (case uint_shift 64 y of None \<Rightarrow> if x < 0 then -1 else 0 | Some n \<Rightarrow> drop_bit n x))
         | _ \<Rightarrow> None)"

definition element_name :: "script_value \<Rightarrow> script_value \<Rightarrow> string" where
  "element_name name idx = value_String name @ ''['' @ itoa (asInt idx) @ '']''"

text \<open>\<open>jump\<close>: an unknown label is the end of the code.\<close>

definition jump :: "instruction list \<Rightarrow> (string \<rightharpoonup> nat) \<Rightarrow> string \<Rightarrow> nat" where
  "jump code labels name = (case labels name of None \<Rightarrow> length code | Some i \<Rightarrow> i)"

definition binary_ops :: "opcode list" where
  "binary_ops = [OpAdd, OpSub, OpMul, OpDiv, OpMod, OpLEq, OpLNe, OpLGT, OpLLT, OpLGE, OpLLE, OpAnd, OpOr, OpXor, OpShiftL, OpShiftR]"

text \<open>The helpers of one instruction: falling through with a new stack, pops that may underflow.\<close>

definition fall :: "'h vm \<Rightarrow> script_value list \<Rightarrow> 'h outcome" where
  "fall vm st = Running (vm\<lparr>vm_ip := vm_ip vm + 1, vm_stack := st\<rparr>)"

definition pop1 :: "'h vm \<Rightarrow> (script_value \<Rightarrow> script_value list \<Rightarrow> 'h outcome) \<Rightarrow> 'h outcome" where
  "pop1 vm f = (case vm_stack vm of a # st \<Rightarrow> f a st | [] \<Rightarrow> Panicked)"

definition pop2 :: "'h vm \<Rightarrow> (script_value \<Rightarrow> script_value \<Rightarrow> script_value list \<Rightarrow> 'h outcome) \<Rightarrow> 'h outcome" where
  "pop2 vm f = (case vm_stack vm of b # a # st \<Rightarrow> f a b st | _ \<Rightarrow> Panicked)"

definition call_builtin :: "(string \<rightharpoonup> 'h builtin) \<Rightarrow> instruction \<Rightarrow> 'h vm \<Rightarrow> 'h outcome" where
  "call_builtin B ins vm =
     (if in_Operand ins < 0 \<or> int (length (vm_stack vm)) < in_Operand ins then Panicked
      else
        let n = nat (in_Operand ins); args = rev (take n (vm_stack vm)); st = drop n (vm_stack vm)
        in case B (in_Str ins) of
             None \<Rightarrow> Failed ''unknown builtin'' (vm_env vm)
           | Some f \<Rightarrow>
               (case f args (vm_env vm) of
                  (ret, CtrlEnd, e) \<Rightarrow> Halted e
                | (ret, CtrlContinue, e) \<Rightarrow> fall (vm\<lparr>vm_env := e\<rparr>) (ret # st)))"

definition vm_exec :: "instruction list \<Rightarrow> (string \<rightharpoonup> nat) \<Rightarrow> (string \<rightharpoonup> 'h builtin) \<Rightarrow> instruction \<Rightarrow> 'h vm \<Rightarrow> 'h outcome" where
  "vm_exec code labels B ins vm =
     (let st = vm_stack vm; e = vm_env vm
      in if in_Op ins \<in> set binary_ops then
           pop2 vm (\<lambda>a b st. case binary_value (in_Op ins) a b of Some v \<Rightarrow> fall vm (v # st) | None \<Rightarrow> Failed ''not a binary op'' e)
         else case in_Op ins of
           OpEOF \<Rightarrow> Halted e
         | OpInt \<Rightarrow> fall vm (IntVal (in_Operand ins) # st)
         | OpStr \<Rightarrow> fall vm (StrVal (in_Str ins) # st)
         | OpVar \<Rightarrow> fall vm (env_GetVar (in_Str ins) e # st)
         | OpName \<Rightarrow> fall vm (StrVal (in_Str ins) # st)
         | OpAssign \<Rightarrow> pop1 vm (\<lambda>v st. fall (vm\<lparr>vm_env := env_SetVar (in_Str ins) v e\<rparr>) st)
         | OpNeg \<Rightarrow> pop1 vm (\<lambda>v st. fall vm (IntVal (i64 (- asInt v)) # st))
         | OpNot \<Rightarrow> pop1 vm (\<lambda>v st. fall vm (boolVal (IsZero v) # st))
         | OpBNot \<Rightarrow> pop1 vm (\<lambda>v st. fall vm (IntVal (Bit_Operations.not (asInt v)) # st))
         | OpLabel \<Rightarrow> fall vm st
         | OpLine \<Rightarrow> fall vm st
         | OpJumpIfFalse \<Rightarrow> pop1 vm (\<lambda>v st. if IsZero v then Running (vm\<lparr>vm_ip := jump code labels (in_Str ins), vm_stack := st\<rparr>) else fall vm st)
         | OpJumpIfTrue \<Rightarrow> pop1 vm (\<lambda>v st. if \<not> IsZero v then Running (vm\<lparr>vm_ip := jump code labels (in_Str ins), vm_stack := st\<rparr>) else fall vm st)
         | OpGoto \<Rightarrow> Running (vm\<lparr>vm_ip := jump code labels (in_Str ins)\<rparr>)
         | OpCallSub \<Rightarrow> Running (vm\<lparr>vm_ip := jump code labels (in_Str ins), vm_callstack := (vm_ip vm + 1) # vm_callstack vm\<rparr>)
         | OpReturn \<Rightarrow> (case vm_callstack vm of [] \<Rightarrow> Halted e | r # cs \<Rightarrow> Running (vm\<lparr>vm_ip := r, vm_callstack := cs\<rparr>))
         | OpFunc \<Rightarrow> call_builtin B ins vm
         | OpIndexGet \<Rightarrow> pop2 vm (\<lambda>name idx st. fall vm (env_GetVar (element_name name idx) e # st))
         | OpIndexSet \<Rightarrow>
             (case st of
                val # idx # name # st \<Rightarrow> fall (vm\<lparr>vm_env := env_SetVar (element_name name idx) val e\<rparr>) st
              | _ \<Rightarrow> Panicked)
         | OpPop \<Rightarrow> pop1 vm (\<lambda>v st. fall vm st)
         | _ \<Rightarrow> Failed ''unhandled opcode'' e)"

definition vm_step :: "compiled_script \<Rightarrow> (string \<rightharpoonup> 'h builtin) \<Rightarrow> 'h vm \<Rightarrow> 'h outcome" where
  "vm_step cs B vm =
     (if vm_ip vm < length (cs_Instructions cs)
      then vm_exec (cs_Instructions cs) (cs_Labels cs) B (cs_Instructions cs ! vm_ip vm) vm
      else Halted (vm_env vm))"

text \<open>\<open>Run\<close>: \<open>None\<close> is a machine still running after \<open>n\<close> instructions.\<close>

fun vm_Run :: "nat \<Rightarrow> compiled_script \<Rightarrow> (string \<rightharpoonup> 'h builtin) \<Rightarrow> 'h vm \<Rightarrow> 'h outcome option" where
  "vm_Run 0 cs B vm = None"
| "vm_Run (Suc n) cs B vm = (case vm_step cs B vm of Running vm' \<Rightarrow> vm_Run n cs B vm' | r \<Rightarrow> Some r)"

definition NewVM :: "(string \<rightharpoonup> script_value) \<Rightarrow> 'h \<Rightarrow> 'h vm" where
  "NewVM vars h = \<lparr>vm_ip = 0, vm_stack = [], vm_callstack = [], vm_env = \<lparr>ev_vars = vars, ev_host = h\<rparr>\<rparr>"

text \<open>What each opcode does, one rule per opcode.\<close>

lemma vm_exec_binary:
  "in_Op ins \<in> set binary_ops \<Longrightarrow> vm_exec code labels B ins vm =
     pop2 vm (\<lambda>a b st. case binary_value (in_Op ins) a b of Some v \<Rightarrow> fall vm (v # st) | None \<Rightarrow> Failed ''not a binary op'' (vm_env vm))"
  by (simp add: vm_exec_def Let_def)

lemma vm_exec_ops:
  "in_Op ins = OpEOF \<Longrightarrow> vm_exec code labels B ins vm = Halted (vm_env vm)"
  "in_Op ins = OpInt \<Longrightarrow> vm_exec code labels B ins vm = fall vm (IntVal (in_Operand ins) # vm_stack vm)"
  "in_Op ins = OpStr \<Longrightarrow> vm_exec code labels B ins vm = fall vm (StrVal (in_Str ins) # vm_stack vm)"
  "in_Op ins = OpVar \<Longrightarrow> vm_exec code labels B ins vm = fall vm (env_GetVar (in_Str ins) (vm_env vm) # vm_stack vm)"
  "in_Op ins = OpAssign \<Longrightarrow> vm_exec code labels B ins vm =
     pop1 vm (\<lambda>v st. fall (vm\<lparr>vm_env := env_SetVar (in_Str ins) v (vm_env vm)\<rparr>) st)"
  "in_Op ins = OpNeg \<Longrightarrow> vm_exec code labels B ins vm = pop1 vm (\<lambda>v st. fall vm (IntVal (i64 (- asInt v)) # st))"
  "in_Op ins = OpNot \<Longrightarrow> vm_exec code labels B ins vm = pop1 vm (\<lambda>v st. fall vm (boolVal (IsZero v) # st))"
  "in_Op ins = OpBNot \<Longrightarrow> vm_exec code labels B ins vm = pop1 vm (\<lambda>v st. fall vm (IntVal (Bit_Operations.not (asInt v)) # st))"
  "in_Op ins = OpLabel \<Longrightarrow> vm_exec code labels B ins vm = fall vm (vm_stack vm)"
  "in_Op ins = OpJumpIfFalse \<Longrightarrow> vm_exec code labels B ins vm =
     pop1 vm (\<lambda>v st. if IsZero v then Running (vm\<lparr>vm_ip := jump code labels (in_Str ins), vm_stack := st\<rparr>) else fall vm st)"
  "in_Op ins = OpJumpIfTrue \<Longrightarrow> vm_exec code labels B ins vm =
     pop1 vm (\<lambda>v st. if \<not> IsZero v then Running (vm\<lparr>vm_ip := jump code labels (in_Str ins), vm_stack := st\<rparr>) else fall vm st)"
  "in_Op ins = OpGoto \<Longrightarrow> vm_exec code labels B ins vm = Running (vm\<lparr>vm_ip := jump code labels (in_Str ins)\<rparr>)"
  "in_Op ins = OpCallSub \<Longrightarrow> vm_exec code labels B ins vm =
     Running (vm\<lparr>vm_ip := jump code labels (in_Str ins), vm_callstack := (vm_ip vm + 1) # vm_callstack vm\<rparr>)"
  "in_Op ins = OpReturn \<Longrightarrow> vm_exec code labels B ins vm =
     (case vm_callstack vm of [] \<Rightarrow> Halted (vm_env vm) | r # cs \<Rightarrow> Running (vm\<lparr>vm_ip := r, vm_callstack := cs\<rparr>))"
  "in_Op ins = OpFunc \<Longrightarrow> vm_exec code labels B ins vm = call_builtin B ins vm"
  "in_Op ins = OpIndexGet \<Longrightarrow> vm_exec code labels B ins vm =
     pop2 vm (\<lambda>name idx st. fall vm (env_GetVar (element_name name idx) (vm_env vm) # st))"
  "in_Op ins = OpIndexSet \<Longrightarrow> vm_exec code labels B ins vm =
     (case vm_stack vm of
        val # idx # name # st \<Rightarrow> fall (vm\<lparr>vm_env := env_SetVar (element_name name idx) val (vm_env vm)\<rparr>) st
      | _ \<Rightarrow> Panicked)"
  "in_Op ins = OpPop \<Longrightarrow> vm_exec code labels B ins vm = pop1 vm (\<lambda>v st. fall vm st)"
  by (simp_all add: vm_exec_def binary_ops_def)

end
