(* ===== verification/ScriptCompiler.thy ===== *)
theory ScriptCompiler
  imports ScriptVM
begin

text \<open>
  The script compiler (\<open>pkg/ro/script\<close>: \<open>ast.go\<close>, \<open>compiler.go\<close>): syntax trees to bytecode, single pass,
  with jumps by label name. Source positions are left out. A float literal carries the \<open>int32\<close> the
  compiler converts it to. The statement nodes the parser never builds (\<open>MenuStmt\<close>, \<open>SelectStmt\<close>,
  \<open>InputStmt\<close>, \<open>BlockStmt\<close>, \<open>FuncDecl\<close>, \<open>FuncRefStmt\<close>) are left out: the compiler refuses them all.
\<close>

section \<open>Syntax trees\<close>

datatype expr =
    IntLit int
  | FloatLit int
  | StrLit string
  | IdentExpr string
  | ParenExpr expr
  | UnaryExpr string expr
  | BinExpr string expr expr
  | TernaryExpr expr expr expr
  | CallExpr string "expr list"
  | IndexExpr expr expr

datatype stmt =
    IfStmt expr "stmt list" "stmt list"
  | WhileStmt expr "stmt list"
  | DoWhileStmt "stmt list" expr
  | ForStmt "stmt list" "expr option" "stmt list" "stmt list"
  | SwitchStmt expr "(expr list \<times> stmt list) list"
  | BreakStmt
  | ContinueStmt
  | AssignStmt expr string expr
  | CallStmt string "expr list"
  | GotoStmt string
  | CallSubStmt string "expr list"
  | ReturnStmt "expr option"
  | LabelDecl string

record npc_header =
  hd_MapName :: string
  hd_X :: int
  hd_Y :: int
  hd_Facing :: int
  hd_Name :: string
  hd_SpriteID :: int
  hd_TriggerX :: int
  hd_TriggerY :: int
  hd_Type :: string

type_synonym npc_shop_item = "int \<times> int"

record script_file =
  fl_Header :: "npc_header option"
  fl_Body :: "stmt list"
  fl_Items :: "npc_shop_item list"

section \<open>The compiler state\<close>

record compiler =
  c_Instructions :: "instruction list"
  c_Labels :: "string \<rightharpoonup> nat"
  c_label :: nat
  c_loops :: "(string \<times> string) list"  \<comment> \<open>continue and break labels, the innermost first\<close>

type_synonym compile = "compiler \<Rightarrow> (unit, compiler) out"

definition emit_ins :: "opcode \<Rightarrow> int \<Rightarrow> string \<Rightarrow> compiler \<Rightarrow> compiler" where
  "emit_ins op operand str c = c\<lparr>c_Instructions := c_Instructions c @ [\<lparr>in_Op = op, in_Operand = operand, in_Str = str\<rparr>]\<rparr>"

definition emitOp :: "opcode \<Rightarrow> compiler \<Rightarrow> compiler" where
  "emitOp op c = emit_ins op 0 [] c"

definition label_name :: "nat \<Rightarrow> string" where
  "label_name n = ''__c'' @ format_nat n"

definition freshLabel :: "compiler \<Rightarrow> string \<times> compiler" where
  "freshLabel c = (label_name (c_label c), c\<lparr>c_label := c_label c + 1\<rparr>)"

definition markLabel :: "string \<Rightarrow> compiler \<Rightarrow> compiler" where
  "markLabel name c = emitOp OpLabel (c\<lparr>c_Labels := (c_Labels c)(name \<mapsto> length (c_Instructions c))\<rparr>)"

definition emitJump :: "opcode \<Rightarrow> compiler \<Rightarrow> string \<times> compiler" where
  "emitJump op c = (case freshLabel c of (name, c) \<Rightarrow> (name, emit_ins op 0 name c))"

definition pushLoop :: "string \<Rightarrow> string \<Rightarrow> compiler \<Rightarrow> compiler" where
  "pushLoop cont brk c = c\<lparr>c_loops := (cont, brk) # c_loops c\<rparr>"

definition popLoop :: "compiler \<Rightarrow> compiler" where
  "popLoop c = c\<lparr>c_loops := tl (c_loops c)\<rparr>"

definition currentLoop :: "compiler \<Rightarrow> (string \<times> string) option" where
  "currentLoop c = (case c_loops c of [] \<Rightarrow> None | f # fs \<Rightarrow> Some f)"

definition okc :: "compiler \<Rightarrow> (unit, compiler) out" where
  "okc c = (Inr (), c)"

section \<open>Expressions\<close>

definition binOps :: "(string \<times> opcode) list" where
  "binOps =
     [(''+'', OpAdd), (''-'', OpSub), (''*'', OpMul), (''/'', OpDiv), (''%'', OpMod), (''=='', OpLEq), (''!='', OpLNe),
      (''<'', OpLLT), (''>'', OpLGT), (''<='', OpLLE), (''>='', OpLGE), (''&'', OpAnd), (''|'', OpOr), (''^'', OpXor),
      (''<<'', OpShiftL), (''>>'', OpShiftR)]"

definition binOp :: "string \<Rightarrow> opcode res" where
  "binOp op = (case map_of binOps op of Some code \<Rightarrow> Inr code | None \<Rightarrow> Inl (ErrText ''unsupported binary operator''))"

definition unaryOp :: "string \<Rightarrow> opcode res" where
  "unaryOp op =
     (if op = ''-'' then Inr OpNeg else if op = ''!'' then Inr OpNot else if op = ''~'' then Inr OpBNot
      else Inl (ErrText ''unsupported unary''))"

fun emit_res :: "opcode res \<Rightarrow> compile" where
  "emit_res (Inl e) c = (Inl e, c)"
| "emit_res (Inr op) c = okc (emitOp op c)"

text \<open>The opcode of a short-circuit operator's jump and the value pushed where it lands.\<close>

definition shortcut :: "string \<Rightarrow> (opcode \<times> int) option" where
  "shortcut op = (if op = ''&&'' then Some (OpJumpIfFalse, 0) else if op = ''||'' then Some (OpJumpIfTrue, 1) else None)"

fun compileExpr :: "expr \<Rightarrow> compile" and compileExprs :: "expr list \<Rightarrow> compile" where
  "compileExpr (IntLit n) c = okc (emit_ins OpInt (i32 n) [] c)"
| "compileExpr (FloatLit n) c = okc (emit_ins OpInt (i32 n) [] c)"
| "compileExpr (StrLit s) c = okc (emit_ins OpStr 0 s c)"
| "compileExpr (IdentExpr x) c = okc (emit_ins OpVar 0 x c)"
| "compileExpr (ParenExpr e) c = compileExpr e c"
| "compileExpr (UnaryExpr op e) c = and_then (compileExpr e c) (\<lambda>_. emit_res (unaryOp op))"
| "compileExpr (BinExpr op a b) c =
     (case shortcut op of
        Some (jmp, k) \<Rightarrow>
          and_then (compileExpr a c) (\<lambda>_ c.
            let (skip, c) = emitJump jmp c
            in and_then (compileExpr b c) (\<lambda>_ c.
              let (fin, c) = emitJump OpGoto c
              in okc (markLabel fin (emit_ins OpInt k [] (markLabel skip c)))))
      | None \<Rightarrow>
          and_then (compileExpr a c) (\<lambda>_ c. and_then (compileExpr b c) (\<lambda>_. emit_res (binOp op))))"
| "compileExpr (TernaryExpr cond a b) c =
     and_then (compileExpr cond c) (\<lambda>_ c.
       let (alt, c) = emitJump OpJumpIfFalse c
       in and_then (compileExpr a c) (\<lambda>_ c.
         let (fin, c) = emitJump OpGoto c
         in and_then (compileExpr b (markLabel alt c)) (\<lambda>_ c. okc (markLabel fin c))))"
| "compileExpr (CallExpr f args) c =
     and_then (compileExprs args c) (\<lambda>_ c. okc (emit_ins OpFunc (i32 (int (length args))) f c))"
| "compileExpr (IndexExpr target idx) c =
     and_then (compileExpr target c) (\<lambda>_ c. and_then (compileExpr idx c) (\<lambda>_ c. okc (emitOp OpIndexGet c)))"
| "compileExprs [] c = okc c"
| "compileExprs (e # es) c = and_then (compileExpr e c) (\<lambda>_. compileExprs es)"

definition compileCall :: "string \<Rightarrow> expr list \<Rightarrow> compile" where
  "compileCall f args c = and_then (compileExprs args c) (\<lambda>_ c. okc (emit_ins OpFunc (i32 (int (length args))) f c))"

section \<open>Statements\<close>

definition compoundOps :: "(string \<times> opcode) list" where
  "compoundOps =
     [(''+='', OpAdd), (''-='', OpSub), (''*='', OpMul), (''/='', OpDiv), (''%='', OpMod), (''&='', OpAnd), (''|='', OpOr),
      (''^='', OpXor), (''<<='', OpShiftL), (''>>='', OpShiftR)]"

definition compoundOp :: "string \<Rightarrow> opcode res" where
  "compoundOp op = (case map_of compoundOps op of Some code \<Rightarrow> Inr code | None \<Rightarrow> Inl (ErrText ''unsupported compound assignment''))"

fun varName :: "expr \<Rightarrow> string option" where
  "varName (IdentExpr x) = Some x"
| "varName _ = None"

fun compileAssign :: "expr \<Rightarrow> string \<Rightarrow> expr \<Rightarrow> compile" where
  "compileAssign (IndexExpr target idx) op rhs c =
     and_then (compileExpr target c) (\<lambda>_ c. and_then (compileExpr idx c) (\<lambda>_ c. and_then (compileExpr rhs c) (\<lambda>_ c.
       okc (emitOp OpIndexSet c))))"
| "compileAssign lhs op rhs c =
     (case varName lhs of
        None \<Rightarrow> (Inl (ErrText ''invalid assignment target''), c)
      | Some x \<Rightarrow>
          if op = ''='' then and_then (compileExpr rhs c) (\<lambda>_ c. okc (emit_ins OpAssign 0 x c))
          else and_then (compileExpr rhs (emit_ins OpVar 0 x c)) (\<lambda>_ c.
            and_then (emit_res (compoundOp op) c) (\<lambda>_ c. okc (emit_ins OpAssign 0 x c))))"

definition compileSet :: "expr list \<Rightarrow> compile" where
  "compileSet args c =
     (case args of
        [x, v] \<Rightarrow> compileAssign x ''='' v c
      | _ \<Rightarrow> (Inl (ErrText ''set expects 2 args''), c))"

text \<open>The prompts and the labels of \<open>menu\<close>'s argument pairs.\<close>

fun menu_pairs :: "expr list \<Rightarrow> (expr list \<times> string list) res" where
  "menu_pairs [] = Inr ([], [])"
| "menu_pairs [p] = Inl (ErrText ''menu expects prompt,label pairs'')"
| "menu_pairs (p # l # rest) =
     (case varName l of
        None \<Rightarrow> Inl (ErrText ''menu option expects a label'')
      | Some x \<Rightarrow> (case menu_pairs rest of Inl e \<Rightarrow> Inl e | Inr (ps, ls) \<Rightarrow> Inr (p # ps, x # ls)))"

fun menu_jumps :: "nat \<Rightarrow> string list \<Rightarrow> compiler \<Rightarrow> compiler" where
  "menu_jumps i [] c = c"
| "menu_jumps i (l # ls) c =
     menu_jumps (i + 1) ls
       (emit_ins OpJumpIfTrue 0 l (emitOp OpLEq (emit_ins OpInt (i32 (int i + 1)) [] (emit_ins OpVar 0 ''@menu'' c))))"

definition compileMenu :: "expr list \<Rightarrow> compile" where
  "compileMenu args c =
     (if args = [] \<or> odd (length args) then (Inl (ErrText ''menu expects prompt,label pairs''), c)
      else case menu_pairs args of
        Inl e \<Rightarrow> (Inl e, c)
      | Inr (prompts, labels) \<Rightarrow>
          and_then (compileExprs prompts c) (\<lambda>_ c.
            okc (menu_jumps 0 labels
              (emit_ins OpAssign 0 ''@menu'' (emit_ins OpFunc (i32 (int (length prompts))) ''menu'' c)))))"

definition compileInput :: "expr list \<Rightarrow> compile" where
  "compileInput args c =
     (if length args < 1 \<or> length args > 3 then (Inl (ErrText ''input expects 1 to 3 args''), c)
      else case varName (hd args) of
        None \<Rightarrow> (Inl (ErrText ''input expects a variable''), c)
      | Some x \<Rightarrow>
          and_then (compileExprs (tl args) (emit_ins OpStr 0 x c)) (\<lambda>_ c.
            okc (emit_ins OpFunc (i32 (int (length args))) ''input'' c)))"

definition compileBreak :: compile where
  "compileBreak c =
     (case currentLoop c of
        None \<Rightarrow> (Inl (ErrText ''break outside loop''), c)
      | Some (cont, brk) \<Rightarrow> okc (emit_ins OpGoto 0 brk c))"

definition compileContinue :: compile where
  "compileContinue c =
     (case currentLoop c of
        None \<Rightarrow> (Inl (ErrText ''continue outside loop''), c)
      | Some (cont, brk) \<Rightarrow> okc (emit_ins OpGoto 0 cont c))"

fun compileStmt :: "stmt \<Rightarrow> compile" and compileBlockStmts :: "stmt list \<Rightarrow> compile" where
  "compileStmt (AssignStmt lhs op rhs) c = compileAssign lhs op rhs c"
| "compileStmt (CallStmt f args) c =
     (if f = ''set'' then compileSet args c
      else if f = ''menu'' then compileMenu args c
      else if f = ''input'' then compileInput args c
      else and_then (compileCall f args c) (\<lambda>_ c. okc (emitOp OpPop c)))"
| "compileStmt (IfStmt cond thn els) c =
     and_then (compileExpr cond c) (\<lambda>_ c.
       let (alt, c) = emitJump OpJumpIfFalse c
       in and_then (compileBlockStmts thn c) (\<lambda>_ c.
         if els \<noteq> [] then
           let (fin, c) = emitJump OpGoto c
           in and_then (compileBlockStmts els (markLabel alt c)) (\<lambda>_ c. okc (markLabel fin c))
         else okc (markLabel alt c)))"
| "compileStmt (WhileStmt cond body) c =
     (let (start, c) = freshLabel c; (fin, c) = freshLabel c
      in and_then (compileExpr cond (markLabel start c)) (\<lambda>_ c.
           and_then (compileBlockStmts body (pushLoop start fin (emit_ins OpJumpIfFalse 0 fin c))) (\<lambda>_ c.
             okc (markLabel fin (emit_ins OpGoto 0 start (popLoop c))))))"
| "compileStmt (DoWhileStmt body cond) c =
     (let (start, c) = freshLabel c; (test, c) = freshLabel c; (fin, c) = freshLabel c
      in and_then (compileBlockStmts body (pushLoop test fin (markLabel start c))) (\<lambda>_ c.
           and_then (compileExpr cond (markLabel test (popLoop c))) (\<lambda>_ c.
             okc (markLabel fin (emit_ins OpJumpIfTrue 0 start c)))))"
| "compileStmt (ForStmt init cond post body) c =
     and_then (compileBlockStmts init c) (\<lambda>_ c.
       let (start, c) = freshLabel c; (fin, c) = freshLabel c
       in and_then
            (case cond of
               None \<Rightarrow> okc (markLabel start c)
             | Some e \<Rightarrow> and_then (compileExpr e (markLabel start c)) (\<lambda>_ c. okc (emit_ins OpJumpIfFalse 0 fin c))) (\<lambda>_ c.
            and_then (compileBlockStmts body (pushLoop start fin c)) (\<lambda>_ c.
              and_then (compileBlockStmts post (popLoop c)) (\<lambda>_ c.
                okc (markLabel fin (emit_ins OpGoto 0 start c))))))"
| "compileStmt (SwitchStmt e cases) c = (Inl (ErrText ''unsupported statement''), c)"
| "compileStmt (ReturnStmt e) c = okc (emitOp OpReturn c)"
| "compileStmt BreakStmt c = compileBreak c"
| "compileStmt ContinueStmt c = compileContinue c"
| "compileStmt (GotoStmt l) c = okc (emit_ins OpGoto 0 l c)"
| "compileStmt (LabelDecl l) c = okc (markLabel l c)"
| "compileStmt (CallSubStmt l args) c = and_then (compileExprs args c) (\<lambda>_ c. okc (emit_ins OpCallSub 0 l c))"
| "compileBlockStmts [] c = okc c"
| "compileBlockStmts (s # ss) c = and_then (compileStmt s c) (\<lambda>_. compileBlockStmts ss)"

section \<open>Files\<close>

record warp_def =
  wd_MapName :: string
  wd_X :: int
  wd_Y :: int
  wd_TriggerX :: int
  wd_TriggerY :: int
  wd_DestMap :: string
  wd_DestX :: int
  wd_DestY :: int

record shop_def =
  sd_Name :: string
  sd_MapName :: string
  sd_X :: int
  sd_Y :: int
  sd_Facing :: int
  sd_Sprite :: int
  sd_Items :: "npc_shop_item list"

record npc_def =
  nd_Name :: string
  nd_MapName :: string
  nd_X :: int
  nd_Y :: int
  nd_Facing :: int
  nd_Sprite :: int

record spawn_def =
  sf_MapName :: string
  sf_X :: int
  sf_Y :: int
  sf_XSize :: int
  sf_YSize :: int
  sf_Class :: int
  sf_Name :: string
  sf_Amount :: int
  sf_Delay1 :: int
  sf_Delay2 :: int

record script_set =
  ss_Scripts :: "(string \<times> compiled_script) list"
  ss_Funcs :: "(string \<times> compiled_script) list"
  ss_Warps :: "warp_def list"
  ss_Shops :: "shop_def list"
  ss_NPCs :: "npc_def list"
  ss_Spawns :: "spawn_def list"

definition NewCompiledScriptSet :: script_set where
  "NewCompiledScriptSet = \<lparr>ss_Scripts = [], ss_Funcs = [], ss_Warps = [], ss_Shops = [], ss_NPCs = [], ss_Spawns = []\<rparr>"

text \<open>One script body: a fresh script, the statements, the end marker. The label counter runs on.\<close>

definition compile_body :: "nat \<Rightarrow> string \<Rightarrow> stmt list \<Rightarrow> compiled_script res \<times> nat" where
  "compile_body k name body =
     (case compileBlockStmts body \<lparr>c_Instructions = [], c_Labels = Map.empty, c_label = k, c_loops = []\<rparr> of
        (Inl e, c) \<Rightarrow> (Inl e, c_label c)
      | (Inr _, c) \<Rightarrow>
          (let c = emitOp OpEOF c
           in (Inr \<lparr>cs_Name = name, cs_Instructions = c_Instructions c, cs_Labels = c_Labels c\<rparr>, c_label c)))"

definition compileFile :: "script_file \<Rightarrow> nat \<times> script_set \<Rightarrow> (unit, nat \<times> script_set) out" where
  "compileFile f st =
     (let (k, S) = st
      in case fl_Header f of
           None \<Rightarrow> (Inr (), st)
         | Some h \<Rightarrow>
             if hd_Type h = ''warp'' then
               (Inr (), k, S\<lparr>ss_Warps := ss_Warps S @
                 [\<lparr>wd_MapName = hd_MapName h, wd_X = hd_X h, wd_Y = hd_Y h, wd_TriggerX = hd_TriggerX h, wd_TriggerY = hd_TriggerY h,
                   wd_DestMap = [], wd_DestX = 0, wd_DestY = 0\<rparr>]\<rparr>)
             else if hd_Type h = ''func'' then
               (case compile_body k (hd_Name h) (fl_Body f) of
                  (Inl e, k) \<Rightarrow> (Inl e, k, S)
                | (Inr cs, k) \<Rightarrow> (Inr (), k, S\<lparr>ss_Funcs := AList.update (hd_Name h) cs (ss_Funcs S)\<rparr>))
             else if hd_Type h = ''shop'' then
               (Inr (), k, S\<lparr>ss_Shops := ss_Shops S @
                 [\<lparr>sd_Name = hd_Name h, sd_MapName = hd_MapName h, sd_X = hd_X h, sd_Y = hd_Y h, sd_Facing = hd_Facing h,
                   sd_Sprite = hd_SpriteID h, sd_Items = fl_Items f\<rparr>]\<rparr>)
             else
               (case compile_body k (hd_Name h) (fl_Body f) of
                  (Inl e, k) \<Rightarrow> (Inl e, k, S)
                | (Inr cs, k) \<Rightarrow>
                    let S = (if map_of (ss_Scripts S) (hd_Name h) = None
                               then S\<lparr>ss_Scripts := AList.update (hd_Name h) cs (ss_Scripts S)\<rparr> else S)
                    in (Inr (), k,
                        if hd_MapName h \<noteq> [] then
                          S\<lparr>ss_NPCs := ss_NPCs S @
                            [\<lparr>nd_Name = hd_Name h, nd_MapName = hd_MapName h, nd_X = hd_X h, nd_Y = hd_Y h,
                              nd_Facing = hd_Facing h, nd_Sprite = hd_SpriteID h\<rparr>]\<rparr>
                        else S)))"

fun compile_files :: "script_file list \<Rightarrow> nat \<times> script_set \<Rightarrow> (unit, nat \<times> script_set) out" where
  "compile_files [] st = (Inr (), st)"
| "compile_files (f # fs) st = and_then (compileFile f st) (\<lambda>_. compile_files fs)"

text \<open>\<open>CompileInto\<close> after parsing: one compiler for all the files of a source.\<close>

definition CompileInto :: "script_file list \<Rightarrow> script_set \<Rightarrow> (unit, script_set) out" where
  "CompileInto fs S = (case compile_files fs (0, S) of (r, k, S) \<Rightarrow> (r, S))"

end
