(* ===== verification/Mobs.thy ===== *)
theory Mobs
  imports Skill ScriptCompiler "HOL-Library.Multiset"
begin

text \<open>
  Monsters and the floor: \<open>SpawnService\<close> (\<open>world/app/spawn.go\<close>: spawn templates, death, respawn timers,
  drops, floor items, warp portals), \<open>WorldSeeder\<close> (\<open>world/app/seed.go\<close>) and \<open>MobAIService\<close>
  (\<open>world/app/mobai.go\<close>). A respawn timer is an entry of \<open>sp_timers\<close> that a separate step fires; the random
  draws are parameters; the notify sinks are event logs. Go ranges over the registry in an
  unspecified order, the model in the order of the association list.
\<close>

declare map_of_eq_Some_iff [simp del]

section \<open>The spawn service\<close>

record floor_item =
  fi_GroundID :: u32
  fi_NameID :: u32
  fi_Amount :: u32
  fi_PosX :: int
  fi_PosY :: int
  fi_Map :: string
  fi_Dropper :: u32

type_synonym warp_key = "string \<times> int \<times> int"

definition warp_Key :: "warp_def \<Rightarrow> warp_key" where
  "warp_Key d = (wd_MapName d, wd_TriggerX d, wd_TriggerY d)"

text \<open>Durations are nanoseconds.\<close>

record spawn_point =
  sn_class :: int
  sn_mapName :: string
  sn_pos :: position
  sn_name :: string
  sn_hp :: int
  sn_maxHp :: int
  sn_delay :: int

record spawn_service =
  sp_mobs :: "mob_registry option"
  sp_items :: "item_registry option"
  sp_floor :: "(u32 \<times> floor_item) list"
  sp_groundSeq :: u32
  sp_portals :: "(warp_key \<times> warp_def) list"
  sp_spawns :: "(u32 \<times> spawn_point) list"
  sp_timers :: "(u32 \<times> spawn_point) list"
  sp_stopped :: bool
  sp_appeared :: "u32 list"

definition NewSpawnService :: "mob_registry option \<Rightarrow> item_registry option \<Rightarrow> spawn_service" where
  "NewSpawnService mobs items = \<lparr>sp_mobs = mobs, sp_items = items, sp_floor = [], sp_groundSeq = 0, sp_portals = [],
     sp_spawns = [], sp_timers = [], sp_stopped = False, sp_appeared = []\<rparr>"

definition spawn_Stop :: "spawn_service \<Rightarrow> spawn_service" where
  "spawn_Stop S = S\<lparr>sp_stopped := True\<rparr>"

definition mob_entity :: "u32 \<Rightarrow> spawn_point \<Rightarrow> entity" where
  "mob_entity mobID sp = zero_entity\<lparr>en_ID := mobID, en_Type := EntityTypeMob, en_Class := sn_class sp, en_Map := sn_mapName sp,
     en_Pos := sn_pos sp, en_Name := sn_name sp, en_HP := sn_hp sp, en_MaxHP := sn_maxHp sp\<rparr>"

definition SpawnMob ::
  "u32 \<Rightarrow> int \<Rightarrow> string \<Rightarrow> position \<Rightarrow> string \<Rightarrow> int \<Rightarrow> int \<Rightarrow> int \<Rightarrow> spawn_service \<times> world \<Rightarrow> (unit, spawn_service \<times> world) out" where
  "SpawnMob mobID mobClass mapName pos name hp maxHp respawnDelay st =
     (let sp = \<lparr>sn_class = mobClass, sn_mapName = mapName, sn_pos = pos, sn_name = name, sn_hp = hp, sn_maxHp = maxHp,
            sn_delay = respawnDelay\<rparr>;
          S = (if respawnDelay > 0 then (fst st)\<lparr>sp_spawns := AList.update mobID sp (sp_spawns (fst st))\<rparr> else fst st)
      in case w_AddEntity (mob_entity mobID sp) (snd st) of
           (Inl e, w) \<Rightarrow> (Inl e, (S, w))
         | (Inr _, w) \<Rightarrow> (Inr (), (S\<lparr>sp_appeared := sp_appeared S @ [mobID]\<rparr>, w)))"

definition MobExp :: "int \<Rightarrow> spawn_service \<Rightarrow> u64 \<times> u64" where
  "MobExp mobClass S =
     (case mobdb_Get (sp_mobs S) mobClass of
        None \<Rightarrow> (0, 0)
      | Some mob \<Rightarrow> (if mb_BaseExp mob > 0 then word_of_int (mb_BaseExp mob) else 0,
                     if mb_JobExp mob > 0 then word_of_int (mb_JobExp mob) else 0))"

definition rollDrop :: "(int \<Rightarrow> int) \<Rightarrow> int \<Rightarrow> bool" where
  "rollDrop draw rate = (if rate \<le> 0 then False else if rate \<ge> 10000 then True else draw 10000 < rate)"

definition DropItem :: "u32 \<Rightarrow> u32 \<Rightarrow> string \<Rightarrow> position \<Rightarrow> u32 \<Rightarrow> spawn_service \<Rightarrow> floor_item \<times> spawn_service" where
  "DropItem nameID amount mapName pos dropper S =
     (let gid = sp_groundSeq S + 1;
          fi = \<lparr>fi_GroundID = gid, fi_NameID = nameID, fi_Amount = amount, fi_PosX = pos_X pos, fi_PosY = pos_Y pos,
            fi_Map = mapName, fi_Dropper = dropper\<rparr>
      in (fi, S\<lparr>sp_groundSeq := gid, sp_floor := AList.update gid fi (sp_floor S)\<rparr>))"

text \<open>\<open>draws k\<close> serves the roll of the \<open>k\<close>-th row of the drop table.\<close>

fun roll_rows :: "(nat \<Rightarrow> int \<Rightarrow> int) \<Rightarrow> nat \<Rightarrow> drop_entry list \<Rightarrow> string \<Rightarrow> position \<Rightarrow> u32 \<Rightarrow> spawn_service
    \<Rightarrow> floor_item list \<times> spawn_service" where
  "roll_rows draws k [] mapName pos mobID S = ([], S)"
| "roll_rows draws k (d # ds) mapName pos mobID S =
     (if \<not> rollDrop (draws k) (dr_Rate d) then roll_rows draws (Suc k) ds mapName pos mobID S
      else case ByAegisName (sp_items S) (dr_Item d) of
        None \<Rightarrow> roll_rows draws (Suc k) ds mapName pos mobID S
      | Some item \<Rightarrow>
          (case DropItem (word_of_int (ie_Id item)) 1 mapName pos mobID S of
             (fi, S) \<Rightarrow> (case roll_rows draws (Suc k) ds mapName pos mobID S of (fis, S) \<Rightarrow> (fi # fis, S))))"

definition rollDrops :: "(nat \<Rightarrow> int \<Rightarrow> int) \<Rightarrow> int \<Rightarrow> string \<Rightarrow> position \<Rightarrow> u32 \<Rightarrow> spawn_service \<Rightarrow> floor_item list \<times> spawn_service" where
  "rollDrops draws mobClass mapName pos mobID S =
     (if sp_mobs S = None \<or> sp_items S = None then ([], S)
      else case mobdb_Get (sp_mobs S) mobClass of
        None \<Rightarrow> ([], S)
      | Some mob \<Rightarrow> roll_rows draws 0 (mb_Drops mob) mapName pos mobID S)"

definition scheduleRespawn :: "u32 \<Rightarrow> spawn_service \<Rightarrow> spawn_service" where
  "scheduleRespawn mobID S =
     (case map_of (sp_spawns S) mobID of
        None \<Rightarrow> S
      | Some sp \<Rightarrow> if sn_delay sp \<le> 0 then S else S\<lparr>sp_timers := sp_timers S @ [(mobID, sp)]\<rparr>)"

definition OnMobDeath :: "(nat \<Rightarrow> int \<Rightarrow> int) \<Rightarrow> int \<Rightarrow> string \<Rightarrow> position \<Rightarrow> u32 \<Rightarrow> spawn_service \<times> world
    \<Rightarrow> floor_item list \<times> (spawn_service \<times> world)" where
  "OnMobDeath draws mobClass mapName pos mobID st =
     (case rollDrops draws mobClass mapName pos mobID (fst st) of
        (drops, S) \<Rightarrow> (drops, (scheduleRespawn mobID S, snd (w_RemoveEntity mobID (snd st)))))"

text \<open>The goroutine of the \<open>k\<close>-th armed timer runs: nothing after \<open>Stop\<close>, else the mob re-enters.\<close>

definition fire_respawn :: "nat \<Rightarrow> spawn_service \<times> world \<Rightarrow> spawn_service \<times> world" where
  "fire_respawn k st =
     (if k \<ge> length (sp_timers (fst st)) then st
      else
        let (mobID, sp) = sp_timers (fst st) ! k;
            S = (fst st)\<lparr>sp_timers := take k (sp_timers (fst st)) @ drop (Suc k) (sp_timers (fst st))\<rparr>
        in if sp_stopped S then (S, snd st)
           else (S\<lparr>sp_appeared := sp_appeared S @ [mobID]\<rparr>, snd (w_AddEntity (mob_entity mobID sp) (snd st))))"

definition PickupFloorItem :: "u32 \<Rightarrow> spawn_service \<Rightarrow> (floor_item, spawn_service) out" where
  "PickupFloorItem groundID S =
     (case map_of (sp_floor S) groundID of
        None \<Rightarrow> (Inl ErrEntityNotFound, S)
      | Some fi \<Rightarrow> (Inr fi, S\<lparr>sp_floor := AList.delete groundID (sp_floor S)\<rparr>))"

definition RegisterPortals :: "warp_def list \<Rightarrow> spawn_service \<Rightarrow> spawn_service" where
  "RegisterPortals defs S = S\<lparr>sp_portals := foldl (\<lambda>m d. AList.update (warp_Key d) d m) (sp_portals S) defs\<rparr>"

definition PortalAt :: "string \<Rightarrow> int \<Rightarrow> int \<Rightarrow> spawn_service \<Rightarrow> warp_def option" where
  "PortalAt mapName x y S = map_of (sp_portals S) (mapName, x, y)"

definition FloorItems :: "string \<Rightarrow> spawn_service \<Rightarrow> floor_item list" where
  "FloorItems mapName S = filter (\<lambda>fi. fi_Map fi = mapName) (map snd (sp_floor S))"

section \<open>Seeding\<close>

record seed_state =
  se_spawn :: spawn_service
  se_world :: world
  se_next :: u32
  se_nextID :: u32
  se_npcs :: "(u32 \<times> string) list"
  se_shops :: "(u32 \<times> string) list"

definition npcGIDBase :: u32 where "npcGIDBase = 0x70000001"
definition mobGIDBase :: u32 where "mobGIDBase = 0x60000001"
definition nominalMobHP :: int where "nominalMobHP = 50"
definition defaultRespawnSeconds :: int where "defaultRespawnSeconds = 30"

definition NewWorldSeeder :: "world \<Rightarrow> spawn_service \<Rightarrow> seed_state" where
  "NewWorldSeeder w S = \<lparr>se_spawn = S, se_world = w, se_next = npcGIDBase, se_nextID = mobGIDBase, se_npcs = [], se_shops = []\<rparr>"

definition SpawnNPC :: "string \<Rightarrow> string \<Rightarrow> int \<Rightarrow> int \<Rightarrow> int \<Rightarrow> int \<Rightarrow> seed_state \<Rightarrow> (u32, seed_state) out" where
  "SpawnNPC name mapName x y facing sprite s =
     (let gid = se_next s;
          s = s\<lparr>se_next := gid + 1\<rparr>;
          e = zero_entity\<lparr>en_ID := gid, en_Type := EntityTypeNPC, en_Class := i32 sprite, en_Map := mapName,
            en_Pos := \<lparr>pos_X = i16 x, pos_Y = i16 y\<rparr>, en_Name := name, en_Dir := word_of_int (facing mod 8), en_Speed := 150\<rparr>
      in case w_AddEntity e (se_world s) of
           (Inl er, w) \<Rightarrow> (Inl er, s\<lparr>se_world := w\<rparr>)
         | (Inr _, w) \<Rightarrow> (Inr gid, s\<lparr>se_world := w\<rparr>))"

definition spawnCell :: "spawn_def \<Rightarrow> int \<Rightarrow> int \<times> int" where
  "spawnCell d i =
     (if sf_XSize d \<le> 0 \<or> sf_YSize d \<le> 0 then (sf_X d, sf_Y d)
      else
        let w = sf_XSize d * 2; h = sf_YSize d * 2
        in if i < w then (sf_X d - sf_XSize d + i, sf_Y d - sf_YSize d)
           else if i < w + h then (sf_X d + sf_XSize d, sf_Y d - sf_YSize d + (i - w))
           else if i < w + h + w then (sf_X d + sf_XSize d - (i - w - h), sf_Y d + sf_YSize d)
           else (sf_X d - sf_XSize d, sf_Y d + sf_YSize d - (i - w - h - w)))"

definition respawnDelay :: "spawn_def \<Rightarrow> int" where
  "respawnDelay d =
     (let secs = max (sf_Delay2 d) (sf_Delay1 d);
          secs = (if secs \<le> 0 then defaultRespawnSeconds else secs)
      in i64 (secs * 1000000000))"

definition nextMobID :: "seed_state \<Rightarrow> u32 \<times> seed_state" where
  "nextMobID s = (se_nextID s, s\<lparr>se_nextID := se_nextID s + 1\<rparr>)"

text \<open>The inner loop from index \<open>i\<close> for the \<open>n\<close> mobs left; the counter is the mobs that entered.\<close>

fun seed_amount :: "spawn_def \<Rightarrow> int \<Rightarrow> int \<Rightarrow> nat \<Rightarrow> nat \<times> seed_state \<Rightarrow> nat \<times> seed_state" where
  "seed_amount d hp i 0 st = st"
| "seed_amount d hp i (Suc n) st =
     (let (x, y) = spawnCell d i;
          (mobID, s) = nextMobID (snd st)
      in case SpawnMob mobID (sf_Class d) (sf_MapName d) \<lparr>pos_X = i16 x, pos_Y = i16 y\<rparr> (sf_Name d) hp hp (respawnDelay d)
             (se_spawn s, se_world s) of
           (r, (S, w)) \<Rightarrow>
             seed_amount d hp (i + 1) n
               (if isl r then fst st else Suc (fst st), s\<lparr>se_spawn := S, se_world := w\<rparr>))"

definition SeedMobs :: "mob_registry option \<Rightarrow> spawn_def list \<Rightarrow> seed_state \<Rightarrow> nat \<times> seed_state" where
  "SeedMobs mobs defs s =
     foldl (\<lambda>st d.
       let hp = (case mobdb_Get mobs (sf_Class d) of None \<Rightarrow> nominalMobHP | Some m \<Rightarrow> mb_Hp m)
       in seed_amount d hp 0 (nat (sf_Amount d)) st) (0, s) defs"

definition seed_npc :: "string list \<Rightarrow> nat \<times> seed_state \<Rightarrow> npc_def \<Rightarrow> nat \<times> seed_state" where
  "seed_npc scripts st d =
     (if nd_Name d \<notin> set scripts then st
      else case SpawnNPC (nd_Name d) (nd_MapName d) (nd_X d) (nd_Y d) (nd_Facing d) (nd_Sprite d) (snd st) of
        (Inl _, s) \<Rightarrow> (fst st, s)
      | (Inr gid, s) \<Rightarrow> (Suc (fst st), s\<lparr>se_npcs := se_npcs s @ [(gid, nd_Name d)]\<rparr>))"

definition seed_shop :: "nat \<times> seed_state \<Rightarrow> shop_def \<Rightarrow> nat \<times> seed_state" where
  "seed_shop st d =
     (case SpawnNPC (sd_Name d) (sd_MapName d) (sd_X d) (sd_Y d) (sd_Facing d) (sd_Sprite d) (snd st) of
        (Inl _, s) \<Rightarrow> (fst st, s)
      | (Inr gid, s) \<Rightarrow> (Suc (fst st), s\<lparr>se_shops := se_shops s @ [(gid, sd_Name d)]\<rparr>))"

definition Seed :: "mob_registry option \<Rightarrow> script_set option \<Rightarrow> seed_state \<Rightarrow> (nat \<times> nat) \<times> seed_state" where
  "Seed mobs oset s =
     (case oset of
        None \<Rightarrow> ((0, 0), s)
      | Some cs \<Rightarrow>
          let (npcs, s) = foldl seed_shop (foldl (seed_npc (map fst (ss_Scripts cs))) (0, s) (ss_NPCs cs)) (ss_Shops cs);
              s = s\<lparr>se_spawn := RegisterPortals (ss_Warps cs) (se_spawn s)\<rparr>;
              (seeded, s) = SeedMobs mobs (ss_Spawns cs) s
          in ((npcs, seeded), s))"

section \<open>Monster AI\<close>

definition mobAttackInterval :: int where "mobAttackInterval = 2000000000"
definition aggressiveMobAi :: int where "aggressiveMobAi = 3"
definition gridMaxCell :: int where "gridMaxCell = 511"

datatype mob_event =
    OnMobAttack u32 u32 int bool
  | OnMobMove u32 position position int

record mob_ai =
  ma_mobs :: "mob_registry option"
  ma_combat :: combat_service
  ma_target :: "(u32 \<times> u32) list"
  ma_atk :: "(u32 \<times> int) list"
  ma_move :: "(u32 \<times> int) list"
  ma_events :: "mob_event list"

definition NewMobAIService :: "mob_registry option \<Rightarrow> combat_service \<Rightarrow> mob_ai" where
  "NewMobAIService mobs combat = \<lparr>ma_mobs = mobs, ma_combat = combat, ma_target = [], ma_atk = [], ma_move = [], ma_events = []\<rparr>"

record pending_attack =
  pa_mob :: u32
  pa_target :: u32

record pending_move =
  pm_mob :: u32
  pm_from :: position
  pm_to :: position
  pm_speed :: int

definition clampCoord :: "int \<Rightarrow> int" where
  "clampCoord c = (if c < 0 then 0 else if c > gridMaxCell then gridMaxCell else c)"

definition step_axis :: "int \<Rightarrow> int \<Rightarrow> int" where
  "step_axis m t = (if t > m then i16 (m + 1) else if t < m then i16 (m - 1) else m)"

definition stepToward :: "position \<Rightarrow> position \<Rightarrow> position option" where
  "stepToward mob target =
     (let dest = \<lparr>pos_X = clampCoord (step_axis (pos_X mob) (pos_X target)), pos_Y = clampCoord (step_axis (pos_Y mob) (pos_Y target))\<rparr>
      in if dest = mob then None else Some dest)"

definition advanceAndDue :: "u32 \<Rightarrow> int \<Rightarrow> mob_ai \<Rightarrow> bool \<times> mob_ai" where
  "advanceAndDue mobID dt A =
     (let t = i64 ((case map_of (ma_atk A) mobID of None \<Rightarrow> 0 | Some t \<Rightarrow> t) + dt)
      in if t < mobAttackInterval then (False, A\<lparr>ma_atk := AList.update mobID t (ma_atk A)\<rparr>)
         else (True, A\<lparr>ma_atk := AList.update mobID 0 (ma_atk A)\<rparr>))"

definition moveDue :: "u32 \<Rightarrow> int \<Rightarrow> int \<Rightarrow> mob_ai \<Rightarrow> bool \<times> mob_ai" where
  "moveDue mobID dt walkSpeedMs A =
     (let t = i64 ((case map_of (ma_move A) mobID of None \<Rightarrow> 0 | Some t \<Rightarrow> t) + dt)
      in if t < walkSpeedMs * 1000000 then (False, A\<lparr>ma_move := AList.update mobID t (ma_move A)\<rparr>)
         else (True, A\<lparr>ma_move := AList.update mobID 0 (ma_move A)\<rparr>))"

definition pursue :: "u32 \<Rightarrow> position \<Rightarrow> position \<Rightarrow> int \<Rightarrow> int \<Rightarrow> mob_ai \<Rightarrow> pending_move option \<times> mob_ai" where
  "pursue mobID mobPos targetPos walkSpeed dt A =
     (if walkSpeed \<le> 0 then (None, A)
      else case moveDue mobID dt walkSpeed A of
        (False, A) \<Rightarrow> (None, A)
      | (True, A) \<Rightarrow>
          (case stepToward mobPos targetPos of
             None \<Rightarrow> (None, A)
           | Some dest \<Rightarrow> (Some \<lparr>pm_mob = mobID, pm_from = mobPos, pm_to = dest, pm_speed = i16 walkSpeed\<rparr>, A)))"

definition nearer :: "position \<Rightarrow> int \<Rightarrow> u32 \<times> int \<Rightarrow> u32 \<times> position \<Rightarrow> u32 \<times> int" where
  "nearer mobPos chase best p =
     (let d = chebyshev mobPos (snd p)
      in if d > chase then best else if snd best < 0 \<or> d < snd best then (fst p, d) else best)"

definition acquire :: "u32 \<Rightarrow> position \<Rightarrow> int \<Rightarrow> (u32 \<times> position) list \<Rightarrow> mob_ai \<Rightarrow> u32 \<times> mob_ai" where
  "acquire mobID mobPos chase players A =
     (let nearest = fst (foldl (nearer mobPos chase) (0, - 1) players)
      in (nearest, if nearest \<noteq> 0 then A\<lparr>ma_target := AList.update mobID nearest (ma_target A)\<rparr> else A))"

definition acquireOrKeep :: "u32 \<Rightarrow> position \<Rightarrow> int \<Rightarrow> (u32 \<times> position) list \<Rightarrow> mob_ai \<Rightarrow> u32 \<times> mob_ai" where
  "acquireOrKeep mobID mobPos chase players A =
     (case map_of (ma_target A) mobID of
        None \<Rightarrow> acquire mobID mobPos chase players A
      | Some cur \<Rightarrow>
          if (case map_of players cur of None \<Rightarrow> False | Some pos \<Rightarrow> chebyshev mobPos pos \<le> chase) then (cur, A)
          else acquire mobID mobPos chase players (A\<lparr>ma_target := AList.delete mobID (ma_target A)\<rparr>))"

definition living_players :: "world \<Rightarrow> string \<Rightarrow> (u32 \<times> position) list" where
  "living_players w m = map (\<lambda>(i, e). (i, en_Pos e))
     (filter (\<lambda>(i, e). en_Type e = EntityTypePC \<and> en_HP e > 0 \<and> en_Map e = m) (w_entities w))"

text \<open>One registry entry: it may add an attack or a step, or do nothing.\<close>

definition resolve_mob :: "world \<Rightarrow> int \<Rightarrow> (pending_attack list \<times> pending_move list) \<times> mob_ai \<Rightarrow> u32 \<times> entity
    \<Rightarrow> (pending_attack list \<times> pending_move list) \<times> mob_ai" where
  "resolve_mob w dt acc ie =
     (let ((attacks, moves), A) = acc; (i, e) = ie
      in if en_Type e \<noteq> EntityTypeMob \<or> en_HP e \<le> 0 then acc
         else case mobdb_Get (ma_mobs A) (en_Class e) of
           None \<Rightarrow> acc
         | Some mob \<Rightarrow>
             if mb_Ai mob < aggressiveMobAi then acc
             else
               let players = living_players w (en_Map e);
                   (targetID, A) = acquireOrKeep i (en_Pos e) (mb_ChaseRange mob) players A
               in if targetID = 0 then ((attacks, moves), A)
                  else
                    let targetPos = (case map_of players targetID of None \<Rightarrow> zero_position | Some p \<Rightarrow> p)
                    in if chebyshev (en_Pos e) targetPos > mb_AttackRange mob then
                         (case pursue i (en_Pos e) targetPos (mb_WalkSpeed mob) dt A of
                            (None, A) \<Rightarrow> ((attacks, moves), A)
                          | (Some mv, A) \<Rightarrow> ((attacks, moves @ [mv]), A))
                       else (case advanceAndDue i dt A of
                            (False, A) \<Rightarrow> ((attacks, moves), A)
                          | (True, A) \<Rightarrow> ((attacks @ [\<lparr>pa_mob = i, pa_target = targetID\<rparr>], moves), A)))"

definition ai_resolve :: "world \<Rightarrow> int \<Rightarrow> mob_ai \<Rightarrow> (pending_attack list \<times> pending_move list) \<times> mob_ai" where
  "ai_resolve w dt A = foldl (resolve_mob w dt) (([], []), A) (w_entities w)"

fun fire_attacks :: "pending_attack list \<Rightarrow> mob_ai \<times> world \<Rightarrow> (mob_ai \<times> world) option" where
  "fire_attacks [] st = Some st"
| "fire_attacks (p # ps) st =
     (case Attack (ma_combat (fst st)) (pa_mob p) (pa_target p) (snd st) of
        None \<Rightarrow> None
      | Some (Inl _, w) \<Rightarrow> fire_attacks ps (fst st, w)
      | Some (Inr (dmg, died), w) \<Rightarrow>
          let A = (if died then (fst st)\<lparr>ma_target := AList.delete (pa_mob p) (ma_target (fst st))\<rparr> else fst st)
          in fire_attacks ps (A\<lparr>ma_events := ma_events A @ [OnMobAttack (pa_mob p) (pa_target p) dmg died]\<rparr>, w))"

fun fire_moves :: "pending_move list \<Rightarrow> mob_ai \<times> world \<Rightarrow> mob_ai \<times> world" where
  "fire_moves [] st = st"
| "fire_moves (mv # mvs) st =
     (case w_MoveEntity (pm_mob mv) (pm_to mv) (snd st) of
        (Inl _, w) \<Rightarrow> fire_moves mvs (fst st, w)
      | (Inr _, w) \<Rightarrow> fire_moves mvs ((fst st)\<lparr>ma_events := ma_events (fst st) @
            [OnMobMove (pm_mob mv) (pm_from mv) (pm_to mv) (pm_speed mv)]\<rparr>, w))"

definition MonsterTick :: "int \<Rightarrow> mob_ai \<times> world \<Rightarrow> (mob_ai \<times> world) option" where
  "MonsterTick dt st =
     (case ai_resolve (snd st) dt (fst st) of
        ((attacks, moves), A) \<Rightarrow> map_option (fire_moves moves) (fire_attacks attacks (A, snd st)))"

section \<open>Chasing\<close>

lemma chebyshev_max: "chebyshev a b = max \<bar>pos_X a - pos_X b\<bar> \<bar>pos_Y a - pos_Y b\<bar>"
  by (simp add: chebyshev_def absInt_def Let_def abs_if max_def)

lemma step_axis_canvas:
  assumes "0 \<le> a" "a < 512" "0 \<le> b" "b < 512"
  shows "clampCoord (step_axis a b) = a + sgn (b - a)" "0 \<le> a + sgn (b - a)" "a + sgn (b - a) < 512"
    "\<bar>a + sgn (b - a) - b\<bar> = max 0 (\<bar>a - b\<bar> - 1)" "\<bar>a - (a + sgn (b - a))\<bar> = (if a = b then 0 else 1)"
  using assms by (auto simp: clampCoord_def step_axis_def gridMaxCell_def i16_id in_i16_def sgn_if)

lemma stepToward_canvas:
  assumes "on_canvas m" and "on_canvas t" and "m \<noteq> t"
  shows "\<exists>d. stepToward m t = Some d \<and> on_canvas d \<and> chebyshev m d = 1 \<and> chebyshev d t = chebyshev m t - 1"
proof -
  note X = step_axis_canvas [of "pos_X m" "pos_X t"] and Y = step_axis_canvas [of "pos_Y m" "pos_Y t"]
  have c: "0 \<le> pos_X m" "pos_X m < 512" "0 \<le> pos_X t" "pos_X t < 512" "0 \<le> pos_Y m" "pos_Y m < 512" "0 \<le> pos_Y t" "pos_Y t < 512"
    using assms(1,2) by (simp_all add: on_canvas_def)
  have ne: "pos_X m \<noteq> pos_X t \<or> pos_Y m \<noteq> pos_Y t"
    using assms(3) by (cases m, cases t) simp
  let ?d = "\<lparr>pos_X = pos_X m + sgn (pos_X t - pos_X m), pos_Y = pos_Y m + sgn (pos_Y t - pos_Y m)\<rparr>"
  have "?d \<noteq> m"
    using ne by (cases m) (auto simp: sgn_if split: if_splits)
  then have "stepToward m t = Some ?d"
    by (simp add: stepToward_def Let_def X(1) [OF c(1-4)] Y(1) [OF c(5-8)])
  moreover have "on_canvas ?d"
    using X(2,3) [OF c(1-4)] Y(2,3) [OF c(5-8)] by (simp add: on_canvas_def)
  moreover have "chebyshev m ?d = 1"
    unfolding chebyshev_max using X(5) [OF c(1-4)] Y(5) [OF c(5-8)] ne by (auto split: if_splits)
  moreover have "chebyshev ?d t = chebyshev m t - 1"
    unfolding chebyshev_max using X(4) [OF c(1-4)] Y(4) [OF c(5-8)] ne by (auto simp: max_def)
  ultimately show ?thesis
    by blast
qed

lemma chebyshev_zero: "chebyshev m t = 0 \<longleftrightarrow> m = t"
  by (cases m, cases t) (auto simp: chebyshev_max max_def)

text \<open>Steps of a mob whose target stands still, until it is in range.\<close>

fun chase :: "nat \<Rightarrow> int \<Rightarrow> position \<Rightarrow> position \<Rightarrow> position" where
  "chase 0 r t m = m"
| "chase (Suc n) r t m =
     (if chebyshev m t > r then (case stepToward m t of None \<Rightarrow> m | Some d \<Rightarrow> chase n r t d) else m)"

lemma chase_spec:
  assumes "on_canvas m" and "on_canvas t" and "0 \<le> r"
  shows "on_canvas (chase n r t m) \<and> chebyshev (chase n r t m) t = (if chebyshev m t \<le> r then chebyshev m t else max r (chebyshev m t - int n))"
  using assms(1)
proof (induction n arbitrary: m)
  case (Suc n)
  show ?case
  proof (cases "chebyshev m t > r")
    case True
    then have "m \<noteq> t"
      using assms(3) chebyshev_zero [of m t] by auto
    then obtain d where d: "stepToward m t = Some d" "on_canvas d" "chebyshev d t = chebyshev m t - 1"
      using stepToward_canvas [OF Suc.prems assms(2)] by blast
    then show ?thesis
      using True Suc.IH [OF d(2)] by (auto simp: max_def)
  qed (use Suc.prems in simp)
qed (use assms in auto)

section \<open>What a tick orders\<close>

text \<open>The cell one step nearer on each axis, pulled back onto the canvas; cells fit an \<open>int16\<close>.\<close>

definition toward :: "position \<Rightarrow> position \<Rightarrow> position" where
  "toward m t = \<lparr>pos_X = max 0 (min 511 (pos_X m + sgn (pos_X t - pos_X m))), pos_Y = max 0 (min 511 (pos_Y m + sgn (pos_Y t - pos_Y m)))\<rparr>"

definition i16_cell :: "position \<Rightarrow> bool" where
  "i16_cell p \<longleftrightarrow> in_i16 (pos_X p) \<and> in_i16 (pos_Y p)"

lemma stepToward_toward:
  assumes "i16_cell m" and "i16_cell t"
  shows "stepToward m t = (if toward m t = m then None else Some (toward m t))"
proof -
  have "clampCoord (step_axis a b) = max 0 (min 511 (a + sgn (b - a)))" if "in_i16 a" "in_i16 b" for a b
  proof -
    have "i16 (a + 1) = a + 1" if "a < b"
      using that \<open>in_i16 a\<close> \<open>in_i16 b\<close> by (intro i16_id) (auto simp: in_i16_def)
    moreover have "i16 (a - 1) = a - 1" if "b < a"
      using that \<open>in_i16 a\<close> \<open>in_i16 b\<close> by (intro i16_id) (auto simp: in_i16_def)
    ultimately show ?thesis
      by (auto simp: clampCoord_def step_axis_def gridMaxCell_def sgn_if max_def min_def)
  qed
  then show ?thesis
    using assms by (simp add: stepToward_def toward_def Let_def i16_cell_def)
qed

lemma stepToward_canvas_to: "stepToward m t = Some d \<Longrightarrow> on_canvas d \<and> d \<noteq> m"
  by (auto simp: stepToward_def Let_def on_canvas_def clampCoord_def gridMaxCell_def split: if_splits)

definition hunter :: "mob_registry option \<Rightarrow> world \<Rightarrow> u32 \<Rightarrow> entity \<Rightarrow> mob_entry \<Rightarrow> bool" where
  "hunter mobs w i e mob \<longleftrightarrow> entity_at w i = Some e \<and> en_Type e = EntityTypeMob \<and> 0 < en_HP e \<and>
     mobdb_Get mobs (en_Class e) = Some mob \<and> aggressiveMobAi \<le> mb_Ai mob"

definition prey :: "world \<Rightarrow> string \<Rightarrow> u32 \<Rightarrow> entity \<Rightarrow> bool" where
  "prey w m j e \<longleftrightarrow> entity_at w j = Some e \<and> en_Type e = EntityTypePC \<and> 0 < en_HP e \<and> en_Map e = m"

definition attack_ok :: "mob_registry option \<Rightarrow> world \<Rightarrow> pending_attack \<Rightarrow> bool" where
  "attack_ok mobs w p \<longleftrightarrow> (\<exists>e mob pc. hunter mobs w (pa_mob p) e mob \<and> prey w (en_Map e) (pa_target p) pc \<and>
     chebyshev (en_Pos e) (en_Pos pc) \<le> mb_AttackRange mob \<and> chebyshev (en_Pos e) (en_Pos pc) \<le> mb_ChaseRange mob)"

definition move_ok :: "mob_registry option \<Rightarrow> world \<Rightarrow> pending_move \<Rightarrow> bool" where
  "move_ok mobs w p \<longleftrightarrow> (\<exists>e mob j pc. hunter mobs w (pm_mob p) e mob \<and> prey w (en_Map e) j pc \<and> pm_from p = en_Pos e \<and>
     mb_AttackRange mob < chebyshev (en_Pos e) (en_Pos pc) \<and> chebyshev (en_Pos e) (en_Pos pc) \<le> mb_ChaseRange mob \<and>
     on_canvas (pm_to p) \<and> pm_to p \<noteq> en_Pos e \<and>
     (i16_cell (en_Pos e) \<and> i16_cell (en_Pos pc) \<longrightarrow> pm_to p = toward (en_Pos e) (en_Pos pc)) \<and>
     (on_canvas (en_Pos e) \<and> on_canvas (en_Pos pc) \<longrightarrow> chebyshev (en_Pos e) (pm_to p) = 1 \<and>
       chebyshev (pm_to p) (en_Pos pc) = chebyshev (en_Pos e) (en_Pos pc) - 1))"

lemma living_players_map:
  assumes "distinct (keys (w_entities w))"
  shows "distinct (keys (living_players w m))"
    and "map_of (living_players w m) j = Some p \<Longrightarrow> \<exists>e. prey w m j e \<and> p = en_Pos e"
proof -
  have k: "keys (living_players w m) = keys (filter (\<lambda>(i, e). en_Type e = EntityTypePC \<and> en_HP e > 0 \<and> en_Map e = m) (w_entities w))"
    by (simp add: living_players_def split_beta comp_def)
  show "distinct (keys (living_players w m))"
    unfolding k using assms by (rule distinct_map_filter)
  assume "map_of (living_players w m) j = Some p"
  then obtain e where "(j, e) \<in> set (w_entities w)" "en_Type e = EntityTypePC" "en_HP e > 0" "en_Map e = m" "p = en_Pos e"
    by (auto simp: living_players_def dest!: map_of_SomeD)
  then show "\<exists>e. prey w m j e \<and> p = en_Pos e"
    using map_of_in_set [OF assms] by (auto simp: prey_def)
qed

lemma nearer_fold:
  "foldl (nearer mp c) b ps = b \<or>
   (\<exists>p\<in>set ps. foldl (nearer mp c) b ps = (fst p, chebyshev mp (snd p)) \<and> chebyshev mp (snd p) \<le> c)"
proof (induction ps arbitrary: b)
  case (Cons p ps)
  have "nearer mp c b p = b \<or> nearer mp c b p = (fst p, chebyshev mp (snd p)) \<and> chebyshev mp (snd p) \<le> c"
    by (simp add: nearer_def Let_def)
  then show ?case
  proof (elim disjE conjE)
    assume "nearer mp c b p = b"
    then show ?thesis
      using Cons.IH [of b] by simp blast
  next
    assume *: "nearer mp c b p = (fst p, chebyshev mp (snd p))" "chebyshev mp (snd p) \<le> c"
    show ?thesis
      using Cons.IH [of "(fst p, chebyshev mp (snd p))"] *(2) unfolding foldl.simps *(1) by (metis list.set_intros)
  qed
qed simp

lemma acquireOrKeep_spec:
  assumes "distinct (keys ps)" and "acquireOrKeep i mp c ps A = (t, A')"
  shows "ma_mobs A' = ma_mobs A" and "t \<noteq> 0 \<Longrightarrow> \<exists>pos. map_of ps t = Some pos \<and> chebyshev mp pos \<le> c"
proof -
  have acq: "t \<noteq> 0 \<Longrightarrow> \<exists>pos. map_of ps t = Some pos \<and> chebyshev mp pos \<le> c" "ma_mobs B' = ma_mobs B"
    if "acquire i mp c ps B = (t, B')" for B B'
  proof -
    have t: "t = fst (foldl (nearer mp c) (0, - 1) ps)" and "ma_mobs B' = ma_mobs B"
      using that by (auto simp: acquire_def Let_def)
    then show "ma_mobs B' = ma_mobs B"
      by simp
    assume "t \<noteq> 0"
    then obtain p where "p \<in> set ps" "t = fst p" "chebyshev mp (snd p) \<le> c"
      using nearer_fold [of mp c "(0, - 1)" ps] t by auto
    then show "\<exists>pos. map_of ps t = Some pos \<and> chebyshev mp pos \<le> c"
      using map_of_in_set [OF assms(1), of t "snd p"] by auto
  qed
  show "ma_mobs A' = ma_mobs A"
    using assms(2) acq(2) by (fastforce simp: acquireOrKeep_def split: option.splits if_splits)
  show "t \<noteq> 0 \<Longrightarrow> \<exists>pos. map_of ps t = Some pos \<and> chebyshev mp pos \<le> c"
    using assms(2) acq(1) by (auto simp: acquireOrKeep_def split: option.splits if_splits)
qed

lemma advance_mobs: "advanceAndDue i dt A = (b, A') \<Longrightarrow> ma_mobs A' = ma_mobs A"
  by (auto simp: advanceAndDue_def Let_def split: if_splits)

lemma moveDue_mobs: "moveDue i dt ws A = (b, A') \<Longrightarrow> ma_mobs A' = ma_mobs A"
  by (auto simp: moveDue_def Let_def split: if_splits)

lemma pursue_spec:
  assumes "pursue i mp tp ws dt A = (r, A')"
  shows "ma_mobs A' = ma_mobs A" and "r = Some mv \<Longrightarrow> pm_mob mv = i \<and> pm_from mv = mp \<and> stepToward mp tp = Some (pm_to mv)"
proof -
  obtain b A1 where m: "moveDue i dt ws A = (b, A1)"
    by (metis prod.collapse)
  show "ma_mobs A' = ma_mobs A" "r = Some mv \<Longrightarrow> pm_mob mv = i \<and> pm_from mv = mp \<and> stepToward mp tp = Some (pm_to mv)"
    using assms moveDue_mobs [OF m] unfolding pursue_def m
    by (cases b; cases "stepToward mp tp"; auto split: if_splits)+
qed

definition orders_ok :: "mob_registry option \<Rightarrow> world \<Rightarrow> (pending_attack list \<times> pending_move list) \<times> mob_ai \<Rightarrow> bool" where
  "orders_ok mobs w acc \<longleftrightarrow> ma_mobs (snd acc) = mobs \<and> (\<forall>p\<in>set (fst (fst acc)). attack_ok mobs w p) \<and>
     (\<forall>p\<in>set (snd (fst acc)). move_ok mobs w p)"

lemma resolve_mob_ok:
  assumes d: "distinct (keys (w_entities w))" and acc: "orders_ok mobs w acc" and e: "entity_at w i = Some e"
  shows "orders_ok mobs w (resolve_mob w dt acc (i, e))"
proof -
  obtain attacks moves A where split: "acc = ((attacks, moves), A)"
    by (metis prod.collapse)
  have mobs: "ma_mobs A = mobs" and old: "\<forall>p\<in>set attacks. attack_ok mobs w p" "\<forall>p\<in>set moves. move_ok mobs w p"
    using acc by (simp_all add: split orders_ok_def)
  consider "resolve_mob w dt acc (i, e) = acc"
    | mob where "en_Type e = EntityTypeMob" "0 < en_HP e" "mobdb_Get mobs (en_Class e) = Some mob" "aggressiveMobAi \<le> mb_Ai mob"
  proof (cases "en_Type e \<noteq> EntityTypeMob \<or> en_HP e \<le> 0")
    case True
    then show ?thesis
      using that(1) by (auto simp: resolve_mob_def split)
  next
    case False
    show ?thesis
    proof (cases "mobdb_Get mobs (en_Class e)")
      case None
      then show ?thesis
        using that(1) by (simp add: resolve_mob_def split mobs)
    next
      case (Some mob)
      then show ?thesis
        using that False by (cases "mb_Ai mob < aggressiveMobAi") (simp_all add: resolve_mob_def split mobs)
    qed
  qed
  then show ?thesis
  proof cases
    case 1
    then show ?thesis
      using acc by simp
  next
    case 2
    then have hunt: "hunter mobs w i e mob"
      using e by (simp add: hunter_def)
    let ?ps = "living_players w (en_Map e)"
    obtain t A1 where keep: "acquireOrKeep i (en_Pos e) (mb_ChaseRange mob) ?ps A = (t, A1)"
      by (metis prod.collapse)
    note ak = acquireOrKeep_spec [OF living_players_map(1) [OF d] keep]
    show ?thesis
    proof (cases "t = 0")
      case True
      then show ?thesis
        using 2 keep ak(1) old mobs by (simp add: resolve_mob_def split orders_ok_def)
    next
      case False
      then obtain pos where pos: "map_of ?ps t = Some pos" "chebyshev (en_Pos e) pos \<le> mb_ChaseRange mob"
        using ak(2) by blast
      then obtain pc where pc: "prey w (en_Map e) t pc" "pos = en_Pos pc"
        using living_players_map(2) [OF d] by blast
      show ?thesis
      proof (cases "chebyshev (en_Pos e) pos > mb_AttackRange mob")
        case far: True
        obtain r A2 where pu: "pursue i (en_Pos e) pos (mb_WalkSpeed mob) dt A1 = (r, A2)"
          by (metis prod.collapse)
        have "move_ok mobs w mv" if "r = Some mv" for mv
        proof -
          have mv: "pm_mob mv = i" "pm_from mv = en_Pos e" "stepToward (en_Pos e) pos = Some (pm_to mv)"
            using pursue_spec(2) [OF pu that] by auto
          have "chebyshev (en_Pos e) (pm_to mv) = 1 \<and> chebyshev (pm_to mv) pos = chebyshev (en_Pos e) pos - 1"
            if c: "on_canvas (en_Pos e)" "on_canvas pos"
          proof -
            have "stepToward (en_Pos e) (en_Pos e) = None" if "on_canvas (en_Pos e)"
              using that by (cases "en_Pos e") (auto simp: stepToward_def Let_def step_axis_def clampCoord_def gridMaxCell_def on_canvas_def)
            then have "en_Pos e \<noteq> pos"
              using mv(3) c by auto
            then show ?thesis
              using stepToward_canvas [OF c] mv(3) by auto
          qed
          moreover have "pm_to mv = toward (en_Pos e) pos" if "i16_cell (en_Pos e)" "i16_cell pos"
            using stepToward_toward [OF that] mv(3) by (simp split: if_splits)
          ultimately show ?thesis
            using hunt pc mv far pos(2) stepToward_canvas_to [OF mv(3)] unfolding move_ok_def by blast
        qed
        then show ?thesis
          using 2 keep ak(1) old mobs False pos(1) far pu pursue_spec(1) [OF pu]
          by (cases r) (auto simp: resolve_mob_def split orders_ok_def)
      next
        case near: False
        obtain b A2 where due: "advanceAndDue i dt A1 = (b, A2)"
          by (metis prod.collapse)
        have "attack_ok mobs w \<lparr>pa_mob = i, pa_target = t\<rparr>"
          unfolding attack_ok_def using hunt pc near pos(2)
          by (intro exI [of _ e] exI [of _ mob] exI [of _ pc]) simp
        then show ?thesis
          using 2 keep ak(1) old mobs False pos(1) near due advance_mobs [OF due]
          by (cases b) (auto simp: resolve_mob_def split orders_ok_def)
      qed
    qed
  qed
qed

lemma resolve_ok:
  assumes d: "distinct (keys (w_entities w))"
  shows "orders_ok (ma_mobs A) w (ai_resolve w dt A)"
proof -
  have *: "orders_ok (ma_mobs A) w (foldl (resolve_mob w dt) acc xs)"
    if "orders_ok (ma_mobs A) w acc" "set xs \<subseteq> set (w_entities w)" for acc xs
    using that
  proof (induction xs arbitrary: acc)
    case (Cons ie xs)
    obtain i e where ie: "ie = (i, e)"
      by (cases ie)
    have at: "entity_at w i = Some e"
      using Cons.prems(2) map_of_in_set [of "w_entities w" i e] d by (simp add: ie)
    have "set xs \<subseteq> set (w_entities w)"
      using Cons.prems(2) by simp
    then show ?case
      unfolding foldl.simps ie by (rule Cons.IH [OF resolve_mob_ok [OF d Cons.prems(1) at]])
  qed simp
  have "orders_ok (ma_mobs A) w (([], []), A)"
    by (simp add: orders_ok_def)
  then show ?thesis
    unfolding ai_resolve_def by (rule * [OF _ order_refl])
qed

section \<open>Properties\<close>

text \<open>
  C29. Whatever the AI's memory and wherever the entities stand, a tick over a registry with one entry for each id (as a Go
  map has) only orders justified actions. Every attack is by a living aggressive mob on a living player of its map
  within both its attack and its chase range. Every step is by such a mob, from where it stands, towards a living player of
  its map that is in chase range and out of attack range; it goes to another cell, which is on the canvas and is the
  neighbour nearer to the player on each axis, pulled back onto the canvas. When mob and player are on the canvas
  themselves, the step is one cell long and ends one cell nearer.
\<close>

theorem tick_orders_justified:
  assumes "distinct (map fst (w_entities w))"
  shows "list_all (attack_ok (ma_mobs A) w) (fst (fst (ai_resolve w dt A))) \<and>
    list_all (move_ok (ma_mobs A) w) (snd (fst (ai_resolve w dt A)))"
  using resolve_ok [OF assms, of A dt] by (simp add: orders_ok_def list_all_iff)

definition demo_wolf :: mob_entry where
  "demo_wolf = (snd (hd demo_mobs))\<lparr>mb_Id := 1013, mb_Ai := 3, mb_AttackRange := 1, mb_ChaseRange := 12\<rparr>"

definition wolf_world :: world where
  "wolf_world = put_entity 200001 (demo_mob\<lparr>en_Class := 1013\<rparr>) fight_world"

theorem tick_orders_justified_witness:
  "list_all (attack_ok (Some [(1013, demo_wolf)]) wolf_world)
     (fst (fst (ai_resolve wolf_world 2000000000 (NewMobAIService (Some [(1013, demo_wolf)]) (demo_combat None)))))"
proof -
  have "distinct (map fst (w_entities wolf_world))"
    using world_wfD(1) [OF fight_world_facts(1)] by (simp add: wolf_world_def)
  then show ?thesis
    using tick_orders_justified [where w = wolf_world and dt = 2000000000 and A = "NewMobAIService (Some [(1013, demo_wolf)]) (demo_combat None)"]
    by (simp add: NewMobAIService_def)
qed

text \<open>
  Remark. The chase arrives: a mob on the canvas whose target stands still reaches attack range after as many steps as
  the distance exceeds the range, stays on the canvas, and stops there instead of stepping onto the target.
\<close>

theorem chase_arrives:
  assumes "on_canvas m" and "on_canvas t" and "1 \<le> r" and "chebyshev m t - r \<le> int n"
  shows "chebyshev (chase n r t m) t \<le> r \<and> on_canvas (chase n r t m) \<and> (chase n r t m = t \<longrightarrow> m = t)"
proof -
  have r: "0 \<le> r"
    using assms(3) by simp
  note c = chase_spec [OF assms(1,2) r, of n]
  have "m = t" if "chase n r t m = t"
  proof -
    have "chebyshev (chase n r t m) t = 0"
      using that chebyshev_zero by blast
    then show ?thesis
      using c assms(3) chebyshev_zero [of m t] by (simp split: if_splits)
  qed
  then show ?thesis
    using c assms(4) by (auto split: if_splits)
qed

theorem chase_arrives_witness:
  "chebyshev (chase 11 1 \<lparr>pos_X = 3, pos_Y = 40\<rparr> \<lparr>pos_X = 15, pos_Y = 33\<rparr>) \<lparr>pos_X = 3, pos_Y = 40\<rparr> \<le> 1"
  using chase_arrives [of "\<lparr>pos_X = 15, pos_Y = 33\<rparr>" "\<lparr>pos_X = 3, pos_Y = 40\<rparr>" 1 11] by (simp add: on_canvas_def chebyshev_max)

subsection \<open>The floor\<close>

datatype floor_op = FloorDrop u32 u32 string position u32 | FloorPick u32

text \<open>A history of drops and pickups: the items dropped, the items handed out, the final service.\<close>

fun floor_run :: "floor_op list \<Rightarrow> spawn_service \<Rightarrow> (floor_item list \<times> floor_item list) \<times> spawn_service" where
  "floor_run [] S = (([], []), S)"
| "floor_run (FloorDrop n a m p d # ops) S =
     (let (fi, S1) = DropItem n a m p d S; ((ds, ps), S2) = floor_run ops S1 in ((fi # ds, ps), S2))"
| "floor_run (FloorPick g # ops) S =
     (case PickupFloorItem g S of
        (Inl _, S1) \<Rightarrow> floor_run ops S1
      | (Inr fi, S1) \<Rightarrow> (let ((ds, ps), S2) = floor_run ops S1 in ((ds, fi # ps), S2)))"

definition floor_wf :: "spawn_service \<Rightarrow> bool" where
  "floor_wf S \<longleftrightarrow> distinct (keys (sp_floor S)) \<and>
     (\<forall>(g, fi)\<in>set (sp_floor S). fi_GroundID fi = g \<and> unat g \<le> unat (sp_groundSeq S))"

lemma mset_delete:
  "distinct (keys al) \<Longrightarrow> map_of al k = Some v \<Longrightarrow> mset al = add_mset (k, v) (mset (AList.delete k al))"
proof (induction al)
  case (Cons p al)
  show ?case
  proof (cases "fst p = k")
    case True
    then have "AList.delete k al = al"
      using Cons.prems(1) by (intro delete_id) auto
    then show ?thesis
      using True Cons.prems(2) by (cases p) simp
  next
    case False
    then show ?thesis
      using Cons by (cases p) simp
  qed
qed simp

lemma drop_spec:
  assumes wf: "floor_wf S" and room: "unat (sp_groundSeq S) + 1 < 2 ^ 32" and run: "DropItem n a m p d S = (fi, S1)"
  shows "floor_wf S1" and "unat (sp_groundSeq S1) = unat (sp_groundSeq S) + 1" and "unat (fi_GroundID fi) = unat (sp_groundSeq S) + 1"
    and "mset (map snd (sp_floor S1)) = add_mset fi (mset (map snd (sp_floor S)))"
proof -
  let ?g = "sp_groundSeq S + 1"
  have g: "unat ?g = unat (sp_groundSeq S) + 1"
    using room by (simp add: unat_word_ariths)
  have fresh: "map_of (sp_floor S) ?g = None"
    using wf g by (fastforce simp: floor_wf_def map_of_eq_None_iff)
  have S1: "S1 = S\<lparr>sp_groundSeq := ?g, sp_floor := sp_floor S @ [(?g, fi)]\<rparr>" "fi_GroundID fi = ?g"
    using run by (auto simp: DropItem_def Let_def update_new_append [OF fresh])
  show "unat (sp_groundSeq S1) = unat (sp_groundSeq S) + 1" "unat (fi_GroundID fi) = unat (sp_groundSeq S) + 1"
    using g by (simp_all add: S1 del: unat_plus_if')
  show "mset (map snd (sp_floor S1)) = add_mset fi (mset (map snd (sp_floor S)))"
    by (simp add: S1)
  show "floor_wf S1"
    using wf fresh g by (fastforce simp: S1 floor_wf_def map_of_eq_None_iff)
qed

lemma pick_spec:
  assumes wf: "floor_wf S"
  shows "PickupFloorItem g S = (Inl e, S1) \<Longrightarrow> S1 = S"
    and "PickupFloorItem g S = (Inr fi, S1) \<Longrightarrow> floor_wf S1 \<and> sp_groundSeq S1 = sp_groundSeq S \<and>
      mset (map snd (sp_floor S)) = add_mset fi (mset (map snd (sp_floor S1)))"
proof -
  show "PickupFloorItem g S = (Inl e, S1) \<Longrightarrow> S1 = S"
    by (auto simp: PickupFloorItem_def split: option.splits)
  assume run: "PickupFloorItem g S = (Inr fi, S1)"
  then have at: "map_of (sp_floor S) g = Some fi" and S1: "S1 = S\<lparr>sp_floor := AList.delete g (sp_floor S)\<rparr>"
    by (auto simp: PickupFloorItem_def split: option.splits)
  have "mset (sp_floor S) = add_mset (g, fi) (mset (AList.delete g (sp_floor S)))"
    using wf at by (intro mset_delete) (auto simp: floor_wf_def)
  then have "mset (map snd (sp_floor S)) = add_mset fi (mset (map snd (sp_floor S1)))"
    by (simp add: S1)
  moreover have "floor_wf S1"
    using wf set_delete_subset [of g "sp_floor S"] by (auto simp: S1 floor_wf_def)
  ultimately show "floor_wf S1 \<and> sp_groundSeq S1 = sp_groundSeq S \<and>
      mset (map snd (sp_floor S)) = add_mset fi (mset (map snd (sp_floor S1)))"
    by (simp add: S1)
qed

lemma floor_run_spec:
  "floor_wf S \<Longrightarrow> unat (sp_groundSeq S) + length ops < 2 ^ 32 \<Longrightarrow> floor_run ops S = ((ds, ps), S') \<Longrightarrow>
     mset ds + mset (map snd (sp_floor S)) = mset ps + mset (map snd (sp_floor S')) \<and>
     distinct (map fi_GroundID ds) \<and> (\<forall>fi\<in>set ds. unat (sp_groundSeq S) < unat (fi_GroundID fi))"
proof (induction ops S arbitrary: ds ps S' rule: floor_run.induct)
  case (2 n a m p d ops S)
  obtain fi S1 where d: "DropItem n a m p d S = (fi, S1)"
    by (metis prod.collapse)
  obtain ds1 ps1 S2 where r: "floor_run ops S1 = ((ds1, ps1), S2)"
    by (metis prod.collapse)
  have room: "unat (sp_groundSeq S) + 1 < 2 ^ 32"
    using "2.prems"(2) by simp
  note D = drop_spec [OF "2.prems"(1) room d]
  have eqs: "ds = fi # ds1" "ps = ps1" "S' = S2"
    using "2.prems"(3) by (simp_all add: d r)
  have "unat (sp_groundSeq S1) + length ops < 2 ^ 32"
    using "2.prems"(2) D(2) by simp
  note IH = "2.IH" [OF d [symmetric] refl D(1) this r]
  have "fi_GroundID fi \<notin> fi_GroundID ` set ds1"
    using IH D(2,3) by force
  then show ?case
    using IH D(2-4) by (auto simp: eqs)
next
  case (3 g ops S)
  obtain r S1 where p: "PickupFloorItem g S = (r, S1)"
    by (metis prod.collapse)
  show ?case
  proof (cases r)
    case (Inl e)
    then have S1: "S1 = S"
      using pick_spec(1) [OF "3.prems"(1)] p by blast
    then have "floor_run ops S1 = ((ds, ps), S')" "floor_wf S1" "unat (sp_groundSeq S1) + length ops < 2 ^ 32"
      using "3.prems" p Inl by simp_all
    then show ?thesis
      using "3.IH"(1) [OF p [symmetric] Inl] S1 by simp
  next
    case (Inr fi)
    obtain ds1 ps1 S2 where q: "floor_run ops S1 = ((ds1, ps1), S2)"
      by (metis prod.collapse)
    have P: "floor_wf S1" "sp_groundSeq S1 = sp_groundSeq S"
        "mset (map snd (sp_floor S)) = add_mset fi (mset (map snd (sp_floor S1)))"
      using pick_spec(2) [OF "3.prems"(1)] p Inr by blast+
    have eqs: "ds = ds1" "ps = fi # ps1" "S' = S2"
      using "3.prems"(3) by (simp_all add: p Inr q)
    have "unat (sp_groundSeq S1) + length ops < 2 ^ 32"
      using "3.prems"(2) P(2) by simp
    then show ?thesis
      using "3.IH"(2) [OF p [symmetric] Inr P(1) _ q] P(2,3) by (simp add: eqs)
  qed
qed simp

text \<open>
  C30. Every floor item is handed out at most once and none is lost: over any history of drops and pickups
  shorter than the id counter, the items dropped are exactly the items picked up plus the items still on
  the floor, and no two drops share a ground id.
\<close>

theorem floor_items_conserved:
  assumes "length ops < 2 ^ 32" and "floor_run ops (NewSpawnService mobs items) = ((dropped, picked), S)"
  shows "mset dropped = mset picked + mset (map snd (sp_floor S)) \<and> distinct (map fi_GroundID dropped)"
proof -
  have "floor_wf (NewSpawnService mobs items)"
    by (simp add: floor_wf_def NewSpawnService_def)
  then show ?thesis
    using floor_run_spec [OF _ _ assms(2)] assms(1) by (simp add: NewSpawnService_def)
qed

theorem floor_items_conserved_witness:
  "\<exists>dropped picked S. floor_run [FloorDrop 501 1 ''prontera'' zero_position 9, FloorPick 1, FloorPick 1]
       (NewSpawnService None None) = ((dropped, picked), S) \<and> length picked = 1 \<and> mset dropped = mset picked"
proof -
  let ?ops = "[FloorDrop 501 1 ''prontera'' zero_position 9, FloorPick 1, FloorPick 1]"
  obtain dropped picked S where r: "floor_run ?ops (NewSpawnService None None) = ((dropped, picked), S)"
    by (metis prod.collapse)
  then have S: "sp_floor S = []" "length picked = 1"
    by (auto simp: NewSpawnService_def DropItem_def PickupFloorItem_def Let_def)
  have "mset dropped = mset picked"
    using floor_items_conserved [OF _ r] by (simp add: S)
  then show ?thesis
    using r S(2) by blast
qed

subsection \<open>Respawn\<close>

lemma roll_rows_keep:
  "roll_rows draws k ds m p i S = (fis, S') \<Longrightarrow>
     sp_spawns S' = sp_spawns S \<and> sp_timers S' = sp_timers S \<and> sp_stopped S' = sp_stopped S"
  by (induction draws k ds m p i S arbitrary: fis S' rule: roll_rows.induct)
    (fastforce simp: DropItem_def Let_def split: if_splits option.splits prod.splits)+

lemma rollDrops_keep:
  "rollDrops draws c m p i S = (fis, S') \<Longrightarrow>
     sp_spawns S' = sp_spawns S \<and> sp_timers S' = sp_timers S \<and> sp_stopped S' = sp_stopped S"
  by (auto simp: rollDrops_def split: if_splits option.splits dest: roll_rows_keep)

text \<open>
  Remark. A monster comes back: when a registered monster dies it leaves the world and exactly one respawn timer is
  armed; whatever happens to the world meanwhile, when that timer fires on a running service and the
  monster's id is free, the monster stands at its spawn point again with the health of its template.
\<close>

theorem death_then_respawn:
  assumes wf: "world_wf w" and e: "entity_at w i = Some e" and tmpl: "map_of (sp_spawns S) i = Some sp" "0 < sn_delay sp"
    and pos: "on_canvas (sn_pos sp)" and up: "\<not> sp_stopped S"
    and died: "OnMobDeath draws c m p i (S, w) = (drops, (S', w'))" and wf2: "world_wf w2" and free: "entity_at w2 i = None"
  shows "entity_at w' = (entity_at w)(i := None) \<and> sp_timers S' = sp_timers S @ [(i, sp)] \<and>
    entity_at (snd (fire_respawn (length (sp_timers S)) (S', w2))) = (entity_at w2)(i \<mapsto> mob_entity i sp)"
proof -
  obtain fis S1 where r: "rollDrops draws c m p i S = (fis, S1)"
    by (metis prod.collapse)
  note k = rollDrops_keep [OF r]
  have S': "S' = scheduleRespawn i S1" "w' = snd (w_RemoveEntity i w)"
    using died by (simp_all add: OnMobDeath_def r)
  have timers: "sp_timers S' = sp_timers S @ [(i, sp)]" "\<not> sp_stopped S'"
    using k tmpl up by (simp_all add: S'(1) scheduleRespawn_def)
  have id: "en_ID (mob_entity i sp) = i" "en_Pos (mob_entity i sp) = sn_pos sp"
    by (simp_all add: mob_entity_def)
  obtain w3 where w3: "w_AddEntity (mob_entity i sp) w2 = (Inr (), w3)" "entity_at w3 = (entity_at w2)(i \<mapsto> mob_entity i sp)"
    using add_entity_ok [OF wf2, of "mob_entity i sp"] free pos id by auto
  have "entity_at w' = (entity_at w)(i := None)"
    using remove_entity_ok [OF wf e] by (auto simp: S'(2))
  then show ?thesis
    using timers w3 by (simp add: fire_respawn_def nth_append Let_def)
qed

definition demo_spawn :: spawn_point where
  "demo_spawn = \<lparr>sn_class = 1002, sn_mapName = ''prontera'', sn_pos = \<lparr>pos_X = 100, pos_Y = 100\<rparr>, sn_name = ''Poring'',
     sn_hp = 60, sn_maxHp = 60, sn_delay = 5000000000\<rparr>"

theorem death_then_respawn_witness:
  "let S = (NewSpawnService None None)\<lparr>sp_spawns := [(200001, demo_spawn)]\<rparr>;
       st = snd (OnMobDeath (\<lambda>k n. 0) 1002 ''prontera'' zero_position 200001 (S, fight_world))
   in entity_at (snd st) 200001 = None \<and>
      map_option en_HP (entity_at (snd (fire_respawn 0 (fst st, demo_world))) 200001) = Some 60"
proof -
  let ?S = "(NewSpawnService None None)\<lparr>sp_spawns := [(200001, demo_spawn)]\<rparr>"
  obtain drops S' w' where died: "OnMobDeath (\<lambda>k n. 0) 1002 ''prontera'' zero_position 200001 (?S, fight_world) = (drops, (S', w'))"
    by (metis prod.collapse)
  have "entity_at w' = (entity_at fight_world)(200001 := None) \<and> sp_timers S' = sp_timers ?S @ [(200001, demo_spawn)] \<and>
    entity_at (snd (fire_respawn (length (sp_timers ?S)) (S', demo_world))) = (entity_at demo_world)(200001 \<mapsto> mob_entity 200001 demo_spawn)"
    by (rule death_then_respawn [OF fight_world_facts(1) _ _ _ _ _ died demo_world_add(2)])
      (simp_all add: fight_world_facts(2) demo_world_add(3) demo_spawn_def on_canvas_def NewSpawnService_def)
  then show ?thesis
    unfolding Let_def died snd_conv fst_conv by (simp add: NewSpawnService_def mob_entity_def demo_spawn_def)
qed

subsection \<open>Spawn cells\<close>

text \<open>
  Remark. The seeder's walk stays in the spawn box for one lap only: the \<open>i\<close>-th cell of a box with half-sizes \<open>xs\<close> and
  \<open>ys\<close> lies in the box exactly for \<open>i\<close> up to \<open>4 * (xs + ys)\<close>; a spawn line with more monsters places the
  others on a column below the box.
\<close>

theorem spawn_cell_in_box:
  assumes "0 < sf_XSize d" and "0 < sf_YSize d" and "0 \<le> i"
  shows "(\<bar>fst (spawnCell d i) - sf_X d\<bar> \<le> sf_XSize d \<and> \<bar>snd (spawnCell d i) - sf_Y d\<bar> \<le> sf_YSize d) \<longleftrightarrow>
    i \<le> 4 * (sf_XSize d + sf_YSize d)"
  using assms by (auto simp: spawnCell_def Let_def abs_if)

theorem spawn_cell_in_box_witness:
  "\<not> (\<bar>fst (spawnCell \<lparr>sf_MapName = ''m'', sf_X = 50, sf_Y = 50, sf_XSize = 1, sf_YSize = 1, sf_Class = 1002, sf_Name = ''P'',
      sf_Amount = 10, sf_Delay1 = 0, sf_Delay2 = 0\<rparr> 9) - 50\<bar> \<le> 1 \<and>
     \<bar>snd (spawnCell \<lparr>sf_MapName = ''m'', sf_X = 50, sf_Y = 50, sf_XSize = 1, sf_YSize = 1, sf_Class = 1002, sf_Name = ''P'',
      sf_Amount = 10, sf_Delay1 = 0, sf_Delay2 = 0\<rparr> 9) - 50\<bar> \<le> 1)"
  using spawn_cell_in_box [of "\<lparr>sf_MapName = ''m'', sf_X = 50, sf_Y = 50, sf_XSize = 1, sf_YSize = 1, sf_Class = 1002, sf_Name = ''P'',
      sf_Amount = 10, sf_Delay1 = 0, sf_Delay2 = 0\<rparr>" 9] by simp

end
