(* ===== verification/Party.thy ===== *)
theory Party
  imports GoText
begin

text \<open>
  Parties (\<open>social/party\<close>): the aggregate and its port (\<open>domain/party.go\<close>), the in-memory repository
  (\<open>infra/memory.go\<close>) and \<open>PartyService\<close> (\<open>app/service.go\<close>). Membership is one map from characters to
  parties, so a character is in at most one; the invariant adds that every party is led from within
  and never larger than twelve. The locale \<open>party_roster\<close> states what the EXP split needs.
\<close>

unbundle bit_operations_syntax

declare map_of_eq_Some_iff [simp del]

section \<open>The aggregate\<close>

record party =
  pt_ID :: u32
  pt_Name :: string
  pt_Exp :: u8
  pt_Item :: u8
  pt_LeaderID :: u32
  pt_LeaderChar :: u32

record party_member =
  pm_CharID :: u32
  pm_AccountID :: u32
  pm_Name :: string
  pm_Map :: string
  pm_Class :: u16
  pm_BaseLevel :: u16
  pm_Online :: bool
  pm_Leader :: bool

definition MaxPartySize :: nat where "MaxPartySize = 12"

record 's party_port =
  pp_Create :: "u32 \<Rightarrow> u32 \<Rightarrow> string \<Rightarrow> 's \<Rightarrow> (party, 's) out"
  pp_Get :: "u32 \<Rightarrow> 's \<Rightarrow> (party, 's) out"
  pp_GetByMember :: "u32 \<Rightarrow> 's \<Rightarrow> (party, 's) out"
  pp_Members :: "u32 \<Rightarrow> 's \<Rightarrow> (party_member list, 's) out"
  pp_AddMember :: "u32 \<Rightarrow> u32 \<Rightarrow> 's \<Rightarrow> (unit, 's) out"
  pp_RemoveMember :: "u32 \<Rightarrow> u32 \<Rightarrow> 's \<Rightarrow> (unit, 's) out"
  pp_SetOptions :: "u32 \<Rightarrow> u8 \<Rightarrow> u8 \<Rightarrow> 's \<Rightarrow> (unit, 's) out"

section \<open>The in-memory repository\<close>

record char_info =
  ci_AccountID :: u32
  ci_Name :: string
  ci_Map :: string
  ci_Class :: u16
  ci_BaseLevel :: u16
  ci_Online :: bool

definition zero_char_info :: char_info where
  "zero_char_info = \<lparr>ci_AccountID = 0, ci_Name = [], ci_Map = [], ci_Class = 0, ci_BaseLevel = 0, ci_Online = False\<rparr>"

record party_repo =
  pr_parties :: "u32 \<rightharpoonup> party"
  pr_members :: "(u32 \<times> u32) list"
  pr_chars :: "u32 \<rightharpoonup> char_info"
  pr_next :: u32

definition NewMemoryPartyRepository :: party_repo where
  "NewMemoryPartyRepository = \<lparr>pr_parties = Map.empty, pr_members = [], pr_chars = Map.empty, pr_next = 0\<rparr>"

definition party_SetChar :: "u32 \<Rightarrow> char_info \<Rightarrow> party_repo \<Rightarrow> party_repo" where
  "party_SetChar c ci r = r\<lparr>pr_chars := (pr_chars r)(c \<mapsto> ci)\<rparr>"

definition party_countLocked :: "u32 \<Rightarrow> party_repo \<Rightarrow> nat" where
  "party_countLocked i r = length (filter (\<lambda>(c, p). p = i) (pr_members r))"

definition pr_Create :: "u32 \<Rightarrow> u32 \<Rightarrow> string \<Rightarrow> party_repo \<Rightarrow> (party, party_repo) out" where
  "pr_Create acc c name r =
     (if TrimSpace name = [] then (Inl ErrEmptyPartyName, r)
      else if map_of (pr_members r) c \<noteq> None then (Inl ErrAlreadyInParty, r)
      else
        let n = pr_next r + 1;
            p = \<lparr>pt_ID = n, pt_Name = TrimSpace name, pt_Exp = 0, pt_Item = 0, pt_LeaderID = acc, pt_LeaderChar = c\<rparr>
        in (Inr p, r\<lparr>pr_next := n, pr_parties := (pr_parties r)(n \<mapsto> p), pr_members := AList.update c n (pr_members r)\<rparr>))"

definition pr_Get :: "u32 \<Rightarrow> party_repo \<Rightarrow> (party, party_repo) out" where
  "pr_Get i r = (case pr_parties r i of None \<Rightarrow> (Inl ErrPartyNotFound, r) | Some p \<Rightarrow> (Inr p, r))"

definition pr_GetByMember :: "u32 \<Rightarrow> party_repo \<Rightarrow> (party, party_repo) out" where
  "pr_GetByMember c r =
     (case map_of (pr_members r) c of
        None \<Rightarrow> (Inl ErrNotInParty, r)
      | Some i \<Rightarrow> (case pr_parties r i of None \<Rightarrow> (Inl ErrPartyNotFound, r) | Some p \<Rightarrow> (Inr p, r)))"

definition party_row :: "party_repo \<Rightarrow> party \<Rightarrow> u32 \<Rightarrow> party_member" where
  "party_row r p c =
     (let ci = (case pr_chars r c of None \<Rightarrow> zero_char_info | Some ci \<Rightarrow> ci)
      in \<lparr>pm_CharID = c, pm_AccountID = ci_AccountID ci, pm_Name = ci_Name ci, pm_Map = ci_Map ci,
          pm_Class = ci_Class ci, pm_BaseLevel = ci_BaseLevel ci, pm_Online = ci_Online ci,
          pm_Leader = (ci_AccountID ci = pt_LeaderID p \<and> c = pt_LeaderChar p)\<rparr>)"

definition pr_Members :: "u32 \<Rightarrow> party_repo \<Rightarrow> (party_member list, party_repo) out" where
  "pr_Members i r =
     (case pr_parties r i of
        None \<Rightarrow> (Inl ErrPartyNotFound, r)
      | Some p \<Rightarrow> (Inr (sort_key pm_CharID (map (\<lambda>(c, _). party_row r p c) (filter (\<lambda>(c, pid). pid = i) (pr_members r)))), r))"

definition pr_AddMember :: "u32 \<Rightarrow> u32 \<Rightarrow> party_repo \<Rightarrow> (unit, party_repo) out" where
  "pr_AddMember i c r =
     (if pr_parties r i = None then (Inl ErrPartyNotFound, r)
      else if map_of (pr_members r) c \<noteq> None then (Inl ErrAlreadyInParty, r)
      else if party_countLocked i r \<ge> MaxPartySize then (Inl ErrPartyFull, r)
      else (Inr (), r\<lparr>pr_members := AList.update c i (pr_members r)\<rparr>))"

definition pr_RemoveMember :: "u32 \<Rightarrow> u32 \<Rightarrow> party_repo \<Rightarrow> (unit, party_repo) out" where
  "pr_RemoveMember i c r =
     (case pr_parties r i of
        None \<Rightarrow> (Inl ErrPartyNotFound, r)
      | Some p \<Rightarrow>
          if map_of (pr_members r) c \<noteq> Some i then (Inl ErrNotInParty, r)
          else if c = pt_LeaderChar p then
            (Inr (), r\<lparr>pr_members := filter (\<lambda>(m, mp). mp \<noteq> i) (pr_members r), pr_parties := (pr_parties r)(i := None)\<rparr>)
          else (Inr (), r\<lparr>pr_members := AList.delete c (pr_members r)\<rparr>))"

definition pr_SetOptions :: "u32 \<Rightarrow> u8 \<Rightarrow> u8 \<Rightarrow> party_repo \<Rightarrow> (unit, party_repo) out" where
  "pr_SetOptions i ex it r =
     (case pr_parties r i of
        None \<Rightarrow> (Inl ErrPartyNotFound, r)
      | Some p \<Rightarrow> (Inr (), r\<lparr>pr_parties := (pr_parties r)(i \<mapsto> p\<lparr>pt_Exp := ex, pt_Item := it\<rparr>)\<rparr>))"

definition mem_party_port :: "party_repo party_port" where
  "mem_party_port = \<lparr>pp_Create = pr_Create, pp_Get = pr_Get, pp_GetByMember = pr_GetByMember, pp_Members = pr_Members,
     pp_AddMember = pr_AddMember, pp_RemoveMember = pr_RemoveMember, pp_SetOptions = pr_SetOptions\<rparr>"

section \<open>PartyService\<close>

definition party_Create :: "'s party_port \<Rightarrow> u32 \<Rightarrow> u32 \<Rightarrow> string \<Rightarrow> 's \<Rightarrow> (party, 's) out" where
  "party_Create P acc c name s =
     (let name = TrimSpace name in if name = [] then (Inl ErrEmptyPartyName, s) else pp_Create P acc c name s)"

definition party_Get :: "'s party_port \<Rightarrow> u32 \<Rightarrow> 's \<Rightarrow> (party, 's) out" where
  "party_Get P i s = pp_Get P i s"

definition party_GetByMember :: "'s party_port \<Rightarrow> u32 \<Rightarrow> 's \<Rightarrow> (party, 's) out" where
  "party_GetByMember P c s = pp_GetByMember P c s"

definition party_Members :: "'s party_port \<Rightarrow> u32 \<Rightarrow> 's \<Rightarrow> (party_member list, 's) out" where
  "party_Members P i s = pp_Members P i s"

definition party_Accept :: "'s party_port \<Rightarrow> u32 \<Rightarrow> u32 \<Rightarrow> 's \<Rightarrow> (unit, 's) out" where
  "party_Accept P i c s = pp_AddMember P i c s"

definition party_Leave :: "'s party_port \<Rightarrow> u32 \<Rightarrow> u32 \<Rightarrow> 's \<Rightarrow> (unit, 's) out" where
  "party_Leave P i c s = pp_RemoveMember P i c s"

definition party_Kick :: "'s party_port \<Rightarrow> u32 \<Rightarrow> u32 \<Rightarrow> u32 \<Rightarrow> 's \<Rightarrow> (unit, 's) out" where
  "party_Kick P i actor target s =
     and_then (pp_Get P i s) (\<lambda>p s.
       if pt_LeaderChar p \<noteq> actor then (Inl ErrNotLeader, s) else pp_RemoveMember P i target s)"

definition party_SetOptions :: "'s party_port \<Rightarrow> u32 \<Rightarrow> u32 \<Rightarrow> u8 \<Rightarrow> u8 \<Rightarrow> 's \<Rightarrow> (unit, 's) out" where
  "party_SetOptions P i actor ex it s =
     and_then (pp_Get P i s) (\<lambda>p s.
       if pt_LeaderChar p \<noteq> actor then (Inl ErrNotLeader, s) else pp_SetOptions P i (ex AND 1) (it AND 3) s)"

text \<open>The awards map; the Go \<open>nil\<close> map of the no-one-eligible case reads as the empty one.\<close>

definition SplitExp :: "'s party_port \<Rightarrow> u32 \<Rightarrow> string \<Rightarrow> u64 \<Rightarrow> u64 \<Rightarrow> 's \<Rightarrow> ((u32 \<rightharpoonup> u64 \<times> u64), 's) out" where
  "SplitExp P i killerMap base job s =
     and_then (pp_Members P i s) (\<lambda>members s.
       let eligible = filter (\<lambda>m. pm_Online m \<and> pm_Map m = killerMap) members
       in if eligible = [] then (Inr Map.empty, s)
          else let n = of_nat (length eligible)
               in (Inr (foldl (\<lambda>aw m. aw(pm_CharID m \<mapsto> (base div n, job div n))) Map.empty eligible), s))"

section \<open>The invariant\<close>

definition party_wf :: "party_repo \<Rightarrow> bool" where
  "party_wf r \<longleftrightarrow> distinct (keys (pr_members r)) \<and>
     (\<forall>i p. pr_parties r i = Some p \<longrightarrow> i \<le> pr_next r \<and> map_of (pr_members r) (pt_LeaderChar p) = Some i \<and>
        party_countLocked i r \<le> MaxPartySize) \<and>
     (\<forall>c i. map_of (pr_members r) c = Some i \<longrightarrow> pr_parties r i \<noteq> None)"

lemma party_wfD:
  assumes "party_wf r"
  shows "distinct (keys (pr_members r))"
    and "pr_parties r i = Some p \<Longrightarrow> i \<le> pr_next r \<and> map_of (pr_members r) (pt_LeaderChar p) = Some i \<and>
      party_countLocked i r \<le> MaxPartySize"
    and "map_of (pr_members r) c = Some i \<Longrightarrow> pr_parties r i \<noteq> None"
  using assms by (auto simp: party_wf_def)

lemma party_wf_create:
  assumes wf: "party_wf r" and room: "uint (pr_next r) + 1 < 2 ^ 32"
  shows "party_wf (snd (pr_Create acc c name r))"
proof (cases "TrimSpace name = [] \<or> map_of (pr_members r) c \<noteq> None")
  case True
  then show ?thesis
    using wf by (auto simp: pr_Create_def)
next
  case False
  let ?n = "pr_next r + 1"
  have up: "pr_next r < ?n"
    using room by (rule next_id)
  have fresh: "pr_parties r ?n = None"
    using party_wfD(2) [OF wf, of ?n] up by (cases "pr_parties r ?n") auto
  have nomem: "map_of (pr_members r) d \<noteq> Some ?n" for d
    using party_wfD(3) [OF wf, of d ?n] fresh by auto
  have "filter (\<lambda>(c, p). p = ?n) (pr_members r) = []"
    using nomem party_wfD(1) [OF wf] by (auto simp: filter_empty_conv map_of_in_set)
  then show ?thesis
    using False wf fresh up nomem
    by (auto simp: pr_Create_def Let_def party_wf_def party_countLocked_def filter_update_new MaxPartySize_def
        dest: order.strict_implies_order order_trans [OF _ order.strict_implies_order [OF up]])
qed

lemma party_wf_add: "party_wf r \<Longrightarrow> party_wf (snd (pr_AddMember i c r))"
  by (auto simp: pr_AddMember_def party_wf_def party_countLocked_def filter_update_new MaxPartySize_def)

lemma party_wf_remove:
  assumes wf: "party_wf r"
  shows "party_wf (snd (pr_RemoveMember i c r))"
proof (cases "\<exists>p. pr_parties r i = Some p \<and> map_of (pr_members r) c = Some i")
  case False
  then show ?thesis
    using wf by (auto simp: pr_RemoveMember_def split: option.split)
next
  case True
  then obtain p where p: "pr_parties r i = Some p" "map_of (pr_members r) c = Some i"
    by blast
  have dist: "distinct (keys (pr_members r))"
    using party_wfD(1) [OF wf] .
  show ?thesis
  proof (cases "c = pt_LeaderChar p")
    case True
    let ?ms = "filter (\<lambda>(m, mp). mp \<noteq> i) (pr_members r)"
    have d: "distinct (keys ?ms)"
      using dist by (rule distinct_map_filter)
    have m: "map_of ?ms d = (if map_of (pr_members r) d = Some i then None else map_of (pr_members r) d)" for d
      using dist by (rule map_of_filter_value)
    have cnt: "party_countLocked j (r\<lparr>pr_members := ?ms, pr_parties := (pr_parties r)(i := None)\<rparr>) \<le> party_countLocked j r" for j
      by (simp add: party_countLocked_def length_filter_filter del: filter_filter)
    show ?thesis
      using p True wf d m by (auto simp: pr_RemoveMember_def party_wf_def split: if_splits intro: order_trans [OF cnt])
  next
    case False
    have cnt: "party_countLocked j (r\<lparr>pr_members := AList.delete c (pr_members r)\<rparr>) \<le> party_countLocked j r" for j
      by (simp add: party_countLocked_def length_filter_delete)
    show ?thesis
      using p False wf by (auto simp: pr_RemoveMember_def party_wf_def intro: order_trans [OF cnt])
  qed
qed

lemma party_wf_options: "party_wf r \<Longrightarrow> party_wf (snd (pr_SetOptions i ex it r))"
  by (auto simp: pr_SetOptions_def party_wf_def party_countLocked_def split: option.split)

text \<open>One call on the service, or an update of a character's projection.\<close>

inductive party_step :: "party_repo \<Rightarrow> party_repo \<Rightarrow> bool" where
  create: "uint (pr_next r) + 1 < 2 ^ 32 \<Longrightarrow> party_step r (snd (party_Create mem_party_port acc c name r))"
| accept: "party_step r (snd (party_Accept mem_party_port i c r))"
| leave: "party_step r (snd (party_Leave mem_party_port i c r))"
| kick: "party_step r (snd (party_Kick mem_party_port i actor target r))"
| options: "party_step r (snd (party_SetOptions mem_party_port i actor ex it r))"
| char: "party_step r (party_SetChar c ci r)"

lemmas party_calls = party_Create_def party_Accept_def party_Leave_def party_Kick_def party_SetOptions_def
  mem_party_port_def Let_def pr_Get_def

lemma party_step_wf: "party_step r r' \<Longrightarrow> party_wf r \<Longrightarrow> party_wf r'"
  by (induction rule: party_step.induct)
    (auto simp: party_calls party_wf_create party_wf_add party_wf_remove party_wf_options party_SetChar_def
      split: option.split, auto simp: party_wf_def party_countLocked_def)

lemma party_reachable_wf: "party_step\<^sup>*\<^sup>* NewMemoryPartyRepository r \<Longrightarrow> party_wf r"
proof (induction rule: rtranclp_induct)
  case base
  show ?case by (simp add: party_wf_def NewMemoryPartyRepository_def)
qed (rule party_step_wf)

section \<open>What the EXP split relies on\<close>

locale party_roster =
  fixes P :: "'s party_port" and inv :: "'s \<Rightarrow> bool"
  assumes roster_rows: "inv s \<Longrightarrow> pp_Members P i s = (Inr xs, s') \<Longrightarrow>
      s' = s \<and> distinct (map pm_CharID xs) \<and> length xs \<le> MaxPartySize"
    and roster_error: "inv s \<Longrightarrow> pp_Members P i s = (Inl e, s') \<Longrightarrow> s' = s"
begin

lemma foldl_awards:
  "foldl (\<lambda>aw m. aw(pm_CharID m \<mapsto> v)) aw xs = (\<lambda>c. if c \<in> pm_CharID ` set xs then Some v else aw c)"
  by (induction xs arbitrary: aw) (auto simp: fun_eq_iff)

lemma split_spec:
  assumes inv: "inv s" and mem: "pp_Members P i s = (Inr xs, s')"
  shows "\<exists>el. el = filter (\<lambda>m. pm_Online m \<and> pm_Map m = killerMap) xs \<and> length el \<le> MaxPartySize \<and>
    SplitExp P i killerMap base job s = (Inr (\<lambda>c. if c \<in> pm_CharID ` set el
      then Some (base div of_nat (length el), job div of_nat (length el)) else None), s)"
proof -
  have "length (filter (\<lambda>m. pm_Online m \<and> pm_Map m = killerMap) xs) \<le> MaxPartySize"
    using roster_rows [OF inv mem] by (meson length_filter_le order_trans)
  then show ?thesis
    using roster_rows [OF inv mem]
    by (cases "filter (\<lambda>m. pm_Online m \<and> pm_Map m = killerMap) xs = []") (simp_all add: SplitExp_def mem Let_def foldl_awards)
qed

lemma share_bounds:
  fixes b :: u64
  assumes "0 < n" and "n \<le> MaxPartySize"
  shows "uint (b div of_nat n) = uint b div int n"
    and "int n * uint (b div of_nat n) \<le> uint b" and "uint b - int n * uint (b div of_nat n) < int n"
proof -
  have n: "uint (of_nat n :: u64) = int n"
    using assms by (simp add: MaxPartySize_def unsigned_of_nat take_bit_nat_eq_self)
  show q: "uint (b div of_nat n) = uint b div int n"
    by (simp add: uint_div n)
  show "int n * uint (b div of_nat n) \<le> uint b" "uint b - int n * uint (b div of_nat n) < int n"
    using assms(1) mult_div_mod_eq [of "int n" "uint b"] pos_mod_bound [of "int n" "uint b"] pos_mod_sign [of "int n" "uint b"]
    unfolding q by linarith+
qed

end

lemma mem_roster_rows:
  assumes wf: "party_wf r" and mem: "pr_Members i r = (Inr xs, r')"
  shows "r' = r" and "distinct (map pm_CharID xs)" and "length xs \<le> MaxPartySize"
proof -
  obtain p where p: "pr_parties r i = Some p" "r' = r"
      "xs = sort_key pm_CharID (map (\<lambda>(c, _). party_row r p c) (filter (\<lambda>(c, pid). pid = i) (pr_members r)))"
    using mem by (auto simp: pr_Members_def split: option.splits)
  show "r' = r"
    by (rule p(2))
  have "map pm_CharID (map (\<lambda>(c, _). party_row r p c) ms) = keys ms" for ms :: "(u32 \<times> u32) list"
    by (induction ms) (auto simp: party_row_def Let_def)
  moreover have "distinct (keys (filter (\<lambda>(c, pid). pid = i) (pr_members r)))"
    using party_wfD(1) [OF wf] by (rule distinct_map_filter)
  ultimately show "distinct (map pm_CharID xs)"
    by (metis (no_types, lifting) p(3) distinct_map distinct_sort set_sort)
  show "length xs \<le> MaxPartySize"
    using party_wfD(2) [OF wf p(1)] by (simp add: p(3) party_countLocked_def)
qed

interpretation mem_parties: party_roster mem_party_port party_wf
proof (unfold_locales, goal_cases)
  case (1 s i xs s')
  then show ?case
    using mem_roster_rows [of s i xs s'] by (simp add: mem_party_port_def)
next
  case (2 s i e s')
  then show ?case by (simp add: mem_party_port_def pr_Members_def split: option.splits)
qed

section \<open>Properties\<close>

definition demo_char :: "u32 \<Rightarrow> string \<Rightarrow> bool \<Rightarrow> char_info" where
  "demo_char acc m on = \<lparr>ci_AccountID = acc, ci_Name = ''x'', ci_Map = m, ci_Class = 0, ci_BaseLevel = 1, ci_Online = on\<rparr>"

definition demo_party :: party_repo where
  "demo_party = snd (party_Accept mem_party_port 1 12
     (snd (party_Accept mem_party_port 1 11 (snd (party_Create mem_party_port 7 10 ''  Alpha '' NewMemoryPartyRepository)))))"

definition demo_party_chars :: "party_repo \<Rightarrow> party_repo" where
  "demo_party_chars r = party_SetChar 12 (demo_char 9 ''geffen'' True)
     (party_SetChar 11 (demo_char 8 ''prontera'' True) (party_SetChar 10 (demo_char 7 ''prontera'' True) r))"

lemma demo_party_reachable: "party_step\<^sup>*\<^sup>* NewMemoryPartyRepository (demo_party_chars demo_party)"
proof -
  have "uint (pr_next NewMemoryPartyRepository) + 1 < 2 ^ 32"
    by (simp add: NewMemoryPartyRepository_def)
  then have "party_step\<^sup>*\<^sup>* NewMemoryPartyRepository demo_party"
    unfolding demo_party_def
    by (intro rtranclp.rtrancl_into_rtrancl [where r = party_step, OF _ party_step.accept] rtranclp.rtrancl_into_rtrancl [where r = party_step, OF _ party_step.create]
        rtranclp.rtrancl_refl)
  then show ?thesis
    unfolding demo_party_chars_def by (intro rtranclp.rtrancl_into_rtrancl [where r = party_step, OF _ party_step.char])
qed

text \<open>
  C32. Parties are led from within. After any sequence of service calls, accepted or refused, that creates fewer than
  \<open>2\<^sup>3\<^sup>2\<close> parties: a party's row exists exactly as long as some character is its member, a character is in at most one
  party, and every party that exists is led by one of its members and has at most twelve of them.
\<close>

theorem parties_led_from_within:
  assumes "party_step\<^sup>*\<^sup>* NewMemoryPartyRepository r"
  shows "distinct (map fst (pr_members r)) \<and>
    (pr_parties r i \<noteq> None \<longleftrightarrow> (\<exists>c. map_of (pr_members r) c = Some i)) \<and>
    (case pr_parties r i of
       None \<Rightarrow> True
     | Some p \<Rightarrow> map_of (pr_members r) (pt_LeaderChar p) = Some i \<and> length (filter (\<lambda>(m, j). j = i) (pr_members r)) \<le> 12)"
proof -
  note wf = party_wfD [OF party_reachable_wf [OF assms]]
  have "pr_parties r i \<noteq> None" if "map_of (pr_members r) c = Some i" for c
    using wf(3) [OF that] .
  then show ?thesis
    using wf(1) wf(2) [of i] by (auto simp: party_countLocked_def MaxPartySize_def split: option.split)
qed

theorem parties_led_from_within_witness:
  "\<exists>p. pr_parties (demo_party_chars demo_party) 1 = Some p \<and> map_of (pr_members (demo_party_chars demo_party)) (pt_LeaderChar p) = Some 1"
proof -
  have "map_of (pr_members (demo_party_chars demo_party)) 11 = Some 1"
    by code_simp
  then obtain p where "pr_parties (demo_party_chars demo_party) 1 = Some p"
    using parties_led_from_within [OF demo_party_reachable, of 1] by auto
  then show ?thesis
    using parties_led_from_within [OF demo_party_reachable, of 1] by simp
qed

text \<open>
  Remark. The EXP split pays the eligible and never more than the kill. A split of a reachable party pays
  exactly the members that are online on the killer's map, each the same truncated share, and what is
  left over of base and job EXP is less than the number of shares.
\<close>

theorem split_exp_exact:
  fixes base job :: u64
  assumes "party_step\<^sup>*\<^sup>* NewMemoryPartyRepository r" and "pr_Members i r = (Inr xs, r')"
    and el: "el = filter (\<lambda>m. pm_Online m \<and> pm_Map m = killerMap) xs"
  shows "SplitExp mem_party_port i killerMap base job r =
      (Inr (\<lambda>c. if c \<in> pm_CharID ` set el then Some (base div of_nat (length el), job div of_nat (length el)) else None), r) \<and>
    card (pm_CharID ` set el) = length el \<and>
    (el \<noteq> [] \<longrightarrow>
       int (length el) * uint (base div of_nat (length el)) \<le> uint base \<and>
       uint base - int (length el) * uint (base div of_nat (length el)) < int (length el) \<and>
       int (length el) * uint (job div of_nat (length el)) \<le> uint job \<and>
       uint job - int (length el) * uint (job div of_nat (length el)) < int (length el))"
proof -
  note wf = party_reachable_wf [OF assms(1)]
  have "pp_Members mem_party_port i r = (Inr xs, r')"
    using assms(2) by (simp add: mem_party_port_def)
  then have run: "length el \<le> MaxPartySize"
      "SplitExp mem_party_port i killerMap base job r =
      (Inr (\<lambda>c. if c \<in> pm_CharID ` set el then Some (base div of_nat (length el), job div of_nat (length el)) else None), r)"
    using mem_parties.split_spec [OF wf, of i xs r' killerMap base job] el by auto
  have "distinct (map pm_CharID el)"
    using mem_roster_rows(2) [OF wf assms(2)] el by (simp add: distinct_map_filter)
  then have "card (pm_CharID ` set el) = length el"
    using distinct_card by fastforce
  then show ?thesis
    using run mem_parties.share_bounds(2,3) [OF _ run(1), of base] mem_parties.share_bounds(2,3) [OF _ run(1), of job] by auto
qed

theorem split_exp_exact_witness:
  "SplitExp mem_party_port 1 ''prontera'' 101 7 (demo_party_chars demo_party) = (Inr [10 \<mapsto> (50, 3), 11 \<mapsto> (50, 3)], demo_party_chars demo_party)"
proof -
  define xs where "xs = (case pr_Members 1 (demo_party_chars demo_party) of (Inr xs, _) \<Rightarrow> xs | _ \<Rightarrow> [])"
  have xs: "pr_Members 1 (demo_party_chars demo_party) = (Inr xs, demo_party_chars demo_party)"
    unfolding xs_def by code_simp
  have el: "map pm_CharID (filter (\<lambda>m. pm_Online m \<and> pm_Map m = ''prontera'') xs) = [10, 11]"
    unfolding xs_def by code_simp
  define el where "el = filter (\<lambda>m. pm_Online m \<and> pm_Map m = ''prontera'') xs"
  have "length el = 2" "pm_CharID ` set el = {10, 11}"
    using el [folded el_def] by (auto dest: arg_cong [where f = length] simp flip: set_map)
  then show ?thesis
    using split_exp_exact [OF demo_party_reachable xs el_def, of 101 7] by (auto simp: fun_eq_iff)
qed

end
