(* ===== verification/Guild.thy ===== *)
theory Guild
  imports Party
begin

text \<open>
  Guilds (\<open>social/guild\<close>): the aggregate and its port (\<open>domain/guild.go\<close>), the in-memory repository
  (\<open>infra/memory.go\<close>) and \<open>GuildService\<close> (\<open>app/service.go\<close>). Unlike a party, a guild survives its
  master's departure; the invariant is that a guild lives exactly as long as it has members, within
  its limit and under a unique name, and the last property shows what a departed master leaves behind.
  The roster projection \<open>CharInfo\<close> has the same fields as the one of the party repository.
\<close>

declare map_of_eq_Some_iff [simp del]

section \<open>The aggregate\<close>

record guild =
  gd_ID :: u32
  gd_Name :: string
  gd_Master :: u32
  gd_MasterNam :: string
  gd_GuildLv :: u8
  gd_MaxMember :: u8
  gd_AverageLv :: u16

record guild_member =
  gm_CharID :: u32
  gm_AccountID :: u32
  gm_Name :: string
  gm_Map :: string
  gm_Class :: u16
  gm_BaseLevel :: u16
  gm_Online :: bool
  gm_Master :: bool
  gm_Position :: int

definition MaxGuildSize :: u8 where "MaxGuildSize = 16"

record 's guild_port =
  gp_Create :: "u32 \<Rightarrow> u32 \<Rightarrow> string \<Rightarrow> 's \<Rightarrow> (guild, 's) out"
  gp_Get :: "u32 \<Rightarrow> 's \<Rightarrow> (guild, 's) out"
  gp_GetByMember :: "u32 \<Rightarrow> 's \<Rightarrow> (guild, 's) out"
  gp_Members :: "u32 \<Rightarrow> 's \<Rightarrow> (guild_member list, 's) out"
  gp_AddMember :: "u32 \<Rightarrow> u32 \<Rightarrow> 's \<Rightarrow> (unit, 's) out"
  gp_RemoveMember :: "u32 \<Rightarrow> u32 \<Rightarrow> 's \<Rightarrow> (unit, 's) out"
  gp_Break :: "u32 \<Rightarrow> 's \<Rightarrow> (unit, 's) out"

section \<open>The in-memory repository\<close>

record guild_repo =
  gr_guilds :: "(u32 \<times> guild) list"
  gr_roster :: "(u32 \<times> u32) list"
  gr_chars :: "u32 \<rightharpoonup> char_info"
  gr_next :: u32

definition NewMemoryGuildRepository :: guild_repo where
  "NewMemoryGuildRepository = \<lparr>gr_guilds = [], gr_roster = [], gr_chars = Map.empty, gr_next = 0\<rparr>"

definition guild_SetChar :: "u32 \<Rightarrow> char_info \<Rightarrow> guild_repo \<Rightarrow> guild_repo" where
  "guild_SetChar c ci r = r\<lparr>gr_chars := (gr_chars r)(c \<mapsto> ci)\<rparr>"

definition guild_char :: "guild_repo \<Rightarrow> u32 \<Rightarrow> char_info" where
  "guild_char r c = (case gr_chars r c of None \<Rightarrow> zero_char_info | Some ci \<Rightarrow> ci)"

definition gr_Create :: "u32 \<Rightarrow> u32 \<Rightarrow> string \<Rightarrow> guild_repo \<Rightarrow> (guild, guild_repo) out" where
  "gr_Create acc c name r =
     (let name = TrimSpace name
      in if name = [] then (Inl ErrEmptyGuildName, r)
         else if map_of (gr_roster r) c \<noteq> None then (Inl ErrAlreadyInGuild, r)
         else if list_ex (\<lambda>(i, g). gd_Name g = name) (gr_guilds r) then (Inl ErrNameExists, r)
         else
           let n = gr_next r + 1;
               g = \<lparr>gd_ID = n, gd_Name = name, gd_Master = c, gd_MasterNam = ci_Name (guild_char r c), gd_GuildLv = 1,
                    gd_MaxMember = MaxGuildSize, gd_AverageLv = ci_BaseLevel (guild_char r c)\<rparr>
           in (Inr g, r\<lparr>gr_next := n, gr_guilds := AList.update n g (gr_guilds r), gr_roster := AList.update c n (gr_roster r)\<rparr>))"

definition gr_Get :: "u32 \<Rightarrow> guild_repo \<Rightarrow> (guild, guild_repo) out" where
  "gr_Get i r = (case map_of (gr_guilds r) i of None \<Rightarrow> (Inl ErrGuildNotFound, r) | Some g \<Rightarrow> (Inr g, r))"

definition gr_GetByMember :: "u32 \<Rightarrow> guild_repo \<Rightarrow> (guild, guild_repo) out" where
  "gr_GetByMember c r =
     (case map_of (gr_roster r) c of
        None \<Rightarrow> (Inl ErrNotInGuild, r)
      | Some i \<Rightarrow> (case map_of (gr_guilds r) i of None \<Rightarrow> (Inl ErrGuildNotFound, r) | Some g \<Rightarrow> (Inr g, r)))"

definition guild_row :: "guild_repo \<Rightarrow> guild \<Rightarrow> u32 \<Rightarrow> guild_member" where
  "guild_row r g c =
     (let ci = guild_char r c
      in \<lparr>gm_CharID = c, gm_AccountID = ci_AccountID ci, gm_Name = ci_Name ci, gm_Map = ci_Map ci,
          gm_Class = ci_Class ci, gm_BaseLevel = ci_BaseLevel ci, gm_Online = ci_Online ci,
          gm_Master = (c = gd_Master g), gm_Position = 1\<rparr>)"

definition gr_Members :: "u32 \<Rightarrow> guild_repo \<Rightarrow> (guild_member list, guild_repo) out" where
  "gr_Members i r =
     (case map_of (gr_guilds r) i of
        None \<Rightarrow> (Inl ErrGuildNotFound, r)
      | Some g \<Rightarrow>
          let out = sort_key gm_CharID (map (\<lambda>(c, _). guild_row r g c) (filter (\<lambda>(c, gid). gid = i) (gr_roster r)))
          in (Inr (map (\<lambda>m. if gm_Master m then m\<lparr>gm_Position := 0\<rparr> else m) out), r))"

definition guild_size :: "u32 \<Rightarrow> guild_repo \<Rightarrow> nat" where
  "guild_size i r = length (filter (\<lambda>(c, gid). gid = i) (gr_roster r))"

definition gr_AddMember :: "u32 \<Rightarrow> u32 \<Rightarrow> guild_repo \<Rightarrow> (unit, guild_repo) out" where
  "gr_AddMember i c r =
     (case map_of (gr_guilds r) i of
        None \<Rightarrow> (Inl ErrGuildNotFound, r)
      | Some g \<Rightarrow>
          if map_of (gr_roster r) c \<noteq> None then (Inl ErrAlreadyInGuild, r)
          else if guild_size i r \<ge> unat (gd_MaxMember g) then (Inl ErrGuildFull, r)
          else (Inr (), r\<lparr>gr_roster := AList.update c i (gr_roster r)\<rparr>))"

text \<open>An absent roster entry reads as guild id 0, which no guild has.\<close>

definition gr_RemoveMember :: "u32 \<Rightarrow> u32 \<Rightarrow> guild_repo \<Rightarrow> (unit, guild_repo) out" where
  "gr_RemoveMember i c r =
     (if map_of (gr_guilds r) i = None then (Inl ErrGuildNotFound, r)
      else if (case map_of (gr_roster r) c of None \<Rightarrow> 0 | Some gid \<Rightarrow> gid) \<noteq> i then (Inl ErrNotInGuild, r)
      else
        let r = r\<lparr>gr_roster := AList.delete c (gr_roster r)\<rparr>
        in if list_ex (\<lambda>(c, gid). gid = i) (gr_roster r) then (Inr (), r)
           else (Inr (), r\<lparr>gr_guilds := AList.delete i (gr_guilds r)\<rparr>))"

definition gr_Break :: "u32 \<Rightarrow> guild_repo \<Rightarrow> (unit, guild_repo) out" where
  "gr_Break i r =
     (if map_of (gr_guilds r) i = None then (Inl ErrGuildNotFound, r)
      else (Inr (), r\<lparr>gr_roster := filter (\<lambda>(c, gid). gid \<noteq> i) (gr_roster r), gr_guilds := AList.delete i (gr_guilds r)\<rparr>))"

definition mem_guild_port :: "guild_repo guild_port" where
  "mem_guild_port = \<lparr>gp_Create = gr_Create, gp_Get = gr_Get, gp_GetByMember = gr_GetByMember, gp_Members = gr_Members,
     gp_AddMember = gr_AddMember, gp_RemoveMember = gr_RemoveMember, gp_Break = gr_Break\<rparr>"

section \<open>GuildService\<close>

definition guild_Create :: "'s guild_port \<Rightarrow> u32 \<Rightarrow> u32 \<Rightarrow> string \<Rightarrow> 's \<Rightarrow> (guild, 's) out" where
  "guild_Create G acc c name s =
     (let name = TrimSpace name in if name = [] then (Inl ErrEmptyGuildName, s) else gp_Create G acc c name s)"

definition guild_Get :: "'s guild_port \<Rightarrow> u32 \<Rightarrow> 's \<Rightarrow> (guild, 's) out" where
  "guild_Get G i s = gp_Get G i s"

definition guild_GetByMember :: "'s guild_port \<Rightarrow> u32 \<Rightarrow> 's \<Rightarrow> (guild, 's) out" where
  "guild_GetByMember G c s = gp_GetByMember G c s"

definition guild_Members :: "'s guild_port \<Rightarrow> u32 \<Rightarrow> 's \<Rightarrow> (guild_member list, 's) out" where
  "guild_Members G i s = gp_Members G i s"

definition guild_Accept :: "'s guild_port \<Rightarrow> u32 \<Rightarrow> u32 \<Rightarrow> 's \<Rightarrow> (unit, 's) out" where
  "guild_Accept G i c s = gp_AddMember G i c s"

definition guild_Leave :: "'s guild_port \<Rightarrow> u32 \<Rightarrow> u32 \<Rightarrow> 's \<Rightarrow> (unit, 's) out" where
  "guild_Leave G i c s = gp_RemoveMember G i c s"

definition guild_Kick :: "'s guild_port \<Rightarrow> u32 \<Rightarrow> u32 \<Rightarrow> u32 \<Rightarrow> 's \<Rightarrow> (unit, 's) out" where
  "guild_Kick G i actor target s =
     and_then (gp_Get G i s) (\<lambda>g s.
       if gd_Master g \<noteq> actor then (Inl ErrNotMaster, s)
       else if gd_Master g = target then (Inl ErrCantExpelMaster, s)
       else gp_RemoveMember G i target s)"

definition guild_Break :: "'s guild_port \<Rightarrow> u32 \<Rightarrow> u32 \<Rightarrow> string \<Rightarrow> 's \<Rightarrow> (unit, 's) out" where
  "guild_Break G i actor key s =
     and_then (gp_Get G i s) (\<lambda>g s.
       if gd_Master g \<noteq> actor then (Inl ErrNotMaster, s)
       else if TrimSpace key \<noteq> gd_Name g then (Inl ErrBreakNameMismatch, s)
       else and_then (gp_Members G i s) (\<lambda>members s.
         if list_ex (\<lambda>m. gm_CharID m \<noteq> actor \<and> gm_Online m) members then (Inl ErrMembersOnline, s)
         else gp_Break G i s))"

section \<open>The invariant\<close>

definition guild_wf :: "guild_repo \<Rightarrow> bool" where
  "guild_wf r \<longleftrightarrow> distinct (keys (gr_roster r)) \<and> distinct (keys (gr_guilds r)) \<and>
     distinct (map (gd_Name \<circ> snd) (gr_guilds r)) \<and>
     (\<forall>i g. map_of (gr_guilds r) i = Some g \<longrightarrow> i \<noteq> 0 \<and> i \<le> gr_next r \<and> gd_MaxMember g = MaxGuildSize \<and>
        0 < guild_size i r \<and> guild_size i r \<le> 16) \<and>
     (\<forall>c i. map_of (gr_roster r) c = Some i \<longrightarrow> map_of (gr_guilds r) i \<noteq> None)"

lemma guild_wfD:
  assumes "guild_wf r"
  shows "distinct (keys (gr_roster r))" and "distinct (keys (gr_guilds r))" and "distinct (map (gd_Name \<circ> snd) (gr_guilds r))"
    and "map_of (gr_guilds r) i = Some g \<Longrightarrow> i \<noteq> 0 \<and> i \<le> gr_next r \<and> gd_MaxMember g = MaxGuildSize \<and>
        0 < guild_size i r \<and> guild_size i r \<le> 16"
    and "map_of (gr_roster r) c = Some i \<Longrightarrow> map_of (gr_guilds r) i \<noteq> None"
  using assms by (auto simp: guild_wf_def)

lemma guild_wf_create:
  assumes wf: "guild_wf r" and room: "uint (gr_next r) + 1 < 2 ^ 32"
  shows "guild_wf (snd (gr_Create acc c name r))"
proof (cases "TrimSpace name = [] \<or> map_of (gr_roster r) c \<noteq> None \<or> list_ex (\<lambda>(i, g). gd_Name g = TrimSpace name) (gr_guilds r)")
  case True
  then show ?thesis
    using wf by (auto simp: gr_Create_def Let_def)
next
  case False
  let ?n = "gr_next r + 1"
  have up: "gr_next r < ?n"
    using room by (rule next_id)
  have fresh: "map_of (gr_guilds r) ?n = None"
    using guild_wfD(4) [OF wf, of ?n] up by (cases "map_of (gr_guilds r) ?n") auto
  have nomem: "map_of (gr_roster r) d \<noteq> Some ?n" for d
    using guild_wfD(5) [OF wf, of d ?n] fresh by auto
  have none: "filter (\<lambda>(c, p). p = ?n) (gr_roster r) = []"
    using nomem guild_wfD(1) [OF wf] by (auto simp: filter_empty_conv map_of_in_set)
  have pos: "?n \<noteq> 0"
    using up by (metis word_not_simps(1))
  have name: "TrimSpace name \<notin> set (map (gd_Name \<circ> snd) (gr_guilds r))"
    using False by (auto simp: list_ex_iff)
  have run: "snd (gr_Create acc c name r) = r\<lparr>gr_next := ?n, gr_guilds := gr_guilds r @ [(?n, g)], gr_roster := gr_roster r @ [(c, ?n)]\<rparr>"
    if "g = \<lparr>gd_ID = ?n, gd_Name = TrimSpace name, gd_Master = c, gd_MasterNam = ci_Name (guild_char r c), gd_GuildLv = 1,
      gd_MaxMember = MaxGuildSize, gd_AverageLv = ci_BaseLevel (guild_char r c)\<rparr>" for g
    using False that fresh by (simp add: gr_Create_def Let_def update_new_append)
  obtain g where g: "snd (gr_Create acc c name r) = r\<lparr>gr_next := ?n, gr_guilds := gr_guilds r @ [(?n, g)], gr_roster := gr_roster r @ [(c, ?n)]\<rparr>"
      "gd_Name g = TrimSpace name" "gd_MaxMember g = MaxGuildSize"
    using run by simp
  have new: "map_of (gr_roster r) c = None"
    using False by auto
  have maps: "map_of (gr_guilds r @ [(?n, g)]) = (map_of (gr_guilds r))(?n \<mapsto> g)"
      "map_of (gr_roster r @ [(c, ?n)]) = (map_of (gr_roster r))(c \<mapsto> ?n)"
    using fresh new by (auto simp: map_add_def fun_eq_iff split: option.split)
  have size: "guild_size i (snd (gr_Create acc c name r)) = guild_size i r + (if i = ?n then 1 else 0)" for i
    by (simp add: g(1) guild_size_def)
  have size_n: "guild_size ?n r = 0"
    using none by (simp add: guild_size_def)
  show ?thesis
    unfolding guild_wf_def size
  proof (intro conjI allI impI, goal_cases)
    case 1
    show ?case
      using guild_wfD(1) [OF wf] new by (simp add: g(1) map_of_eq_None_iff)
  next
    case 2
    show ?case
      using guild_wfD(2) [OF wf] fresh by (simp add: g(1) map_of_eq_None_iff)
  next
    case 3
    show ?case
      using guild_wfD(3) [OF wf] name by (simp add: g(1,2))
  next
    case (4 i h)
    then show ?case
      using pos guild_wfD(4) [OF wf] by (auto simp: g(1) maps split: if_splits)
  next
    case (5 i h)
    then have "map_of (gr_guilds r) i = Some h \<Longrightarrow> i \<le> gr_next r"
      using guild_wfD(4) [OF wf] by blast
    then show ?case
      using 5 up by (auto simp: g(1) maps split: if_splits)
  next
    case (6 i h)
    then show ?case
      using g(3) guild_wfD(4) [OF wf] by (auto simp: g(1) maps split: if_splits)
  next
    case (7 i h)
    then show ?case
      using guild_wfD(4) [OF wf, of i h] by (auto simp: g(1) maps split: if_splits)
  next
    case (8 i h)
    then show ?case
      using guild_wfD(4) [OF wf, of i h] size_n by (auto simp: g(1) maps split: if_splits)
  next
    case (9 d i)
    then show ?case
      using guild_wfD(5) [OF wf, of d i] by (auto simp: g(1) maps split: if_splits)
  qed
qed

lemma guild_wf_add:
  assumes "guild_wf r"
  shows "guild_wf (snd (gr_AddMember i c r))"
proof (cases "\<exists>g. map_of (gr_guilds r) i = Some g \<and> map_of (gr_roster r) c = None \<and> guild_size i r < unat (gd_MaxMember g)")
  case False
  then show ?thesis
    using assms by (auto simp: gr_AddMember_def split: option.split)
next
  case True
  then obtain g where g: "map_of (gr_guilds r) i = Some g" "map_of (gr_roster r) c = None" "guild_size i r < unat (gd_MaxMember g)"
    by blast
  have 16: "guild_size i r < 16"
    using g(3) guild_wfD(4) [OF assms g(1)] by (simp add: MaxGuildSize_def)
  have size: "guild_size j (r\<lparr>gr_roster := AList.update c i (gr_roster r)\<rparr>) = guild_size j r + (if j = i then 1 else 0)" for j
    using g(2) by (simp add: guild_size_def filter_update_new)
  show ?thesis
    using assms g 16 size by (auto simp: gr_AddMember_def guild_wf_def Suc_le_eq)
qed

lemma guild_size_zero: "guild_wf r \<Longrightarrow> guild_size i r = 0 \<longleftrightarrow> (\<forall>c. map_of (gr_roster r) c \<noteq> Some i)"
  using guild_wfD(1) [of r] by (auto simp: guild_size_def filter_empty_conv map_of_in_set)

text \<open>Shrinking the roster; guilds without members go.\<close>

lemma guild_wf_shrink:
  assumes wf: "guild_wf r" and ros: "distinct (keys ros)" "\<And>c i. map_of ros c = Some i \<Longrightarrow> map_of (gr_roster r) c = Some i"
    and size: "\<And>j. length (filter (\<lambda>(c, gid). gid = j) ros) \<le> guild_size j r"
    and gs: "gs = gr_guilds r \<or> gs = AList.delete i (gr_guilds r)"
    and members: "\<And>c j. map_of ros c = Some j \<Longrightarrow> map_of gs j \<noteq> None"
    and alive: "\<And>j. map_of gs j \<noteq> None \<Longrightarrow> \<exists>c. map_of ros c = Some j"
  shows "guild_wf (r\<lparr>gr_roster := ros, gr_guilds := gs\<rparr>)"
proof -
  have sub: "map_of gs j = Some g \<Longrightarrow> map_of (gr_guilds r) j = Some g" for j g
    using gs by (auto split: if_splits)
  have dist: "distinct (keys gs)" "distinct (map (gd_Name \<circ> snd) gs)"
    using gs guild_wfD(2,3) [OF wf] by (auto simp: AList.delete_eq intro: distinct_map_filter)
  have pos: "0 < length (filter (\<lambda>(c, gid). gid = j) ros)" if j: "map_of gs j \<noteq> None" for j
  proof -
    obtain c where "(c, j) \<in> set ros"
      using alive [OF j] ros(1) by (auto simp: map_of_in_set)
    then show ?thesis
      by (auto simp: filter_empty_conv)
  qed
  show ?thesis
    unfolding guild_wf_def
    using ros(1) dist guild_wfD(4) [OF wf sub] pos members order_trans [OF size]
    by (auto simp: guild_size_def)
qed

lemma guild_wf_remove:
  assumes wf: "guild_wf r"
  shows "guild_wf (snd (gr_RemoveMember i c r))"
proof (cases "map_of (gr_guilds r) i \<noteq> None \<and> map_of (gr_roster r) c = Some i")
  case False
  moreover have "map_of (gr_guilds r) i \<noteq> None \<Longrightarrow> i \<noteq> 0"
    using guild_wfD(4) [OF wf] by blast
  ultimately show ?thesis
    using wf by (auto simp: gr_RemoveMember_def split: option.splits)
next
  case True
  let ?ros = "AList.delete c (gr_roster r)"
  let ?gs = "if list_ex (\<lambda>(c, gid). gid = i) ?ros then gr_guilds r else AList.delete i (gr_guilds r)"
  have d: "distinct (keys ?ros)"
    using guild_wfD(1) [OF wf] by simp
  have run: "snd (gr_RemoveMember i c r) = r\<lparr>gr_roster := ?ros, gr_guilds := ?gs\<rparr>"
    using True by (auto simp: gr_RemoveMember_def Let_def)
  have ex: "list_ex (\<lambda>(c, gid). gid = i) ?ros \<longleftrightarrow> (\<exists>d. map_of ?ros d = Some i)"
    using d by (auto simp: list_ex_iff map_of_in_set simp del: map_of_delete_key)
  have other: "\<exists>d. map_of ?ros d = Some j" if ne: "map_of (gr_guilds r) j \<noteq> None" and ji: "j \<noteq> i" for j
  proof -
    obtain g where "map_of (gr_guilds r) j = Some g"
      using ne by auto
    then obtain d where "map_of (gr_roster r) d = Some j"
      using guild_wfD(4) [OF wf] guild_size_zero [OF wf, of j] by fastforce
    then show ?thesis
      using True ji by (intro exI [of _ d]) auto
  qed
  show ?thesis
    unfolding run
  proof (rule guild_wf_shrink [OF wf d, where i = i], goal_cases)
    case (1 d j)
    then show ?case by (simp split: if_splits)
  next
    case (2 j)
    show ?case by (simp add: guild_size_def length_filter_delete)
  next
    case 3
    show ?case by simp
  next
    case (4 d j)
    then have "map_of (gr_guilds r) j \<noteq> None" "j = i \<longrightarrow> list_ex (\<lambda>(c, gid). gid = i) ?ros"
      using guild_wfD(5) [OF wf, of d j] ex by (auto split: if_splits)
    then show ?case by auto
  next
    case (5 j)
    then have "map_of (gr_guilds r) j \<noteq> None" "j = i \<longrightarrow> list_ex (\<lambda>(c, gid). gid = i) ?ros"
      by (auto split: if_splits)
    then show ?case
      using other [of j] iffD1 [OF ex] by (cases "j = i") blast+
  qed
qed

lemma guild_wf_break:
  assumes wf: "guild_wf r"
  shows "guild_wf (snd (gr_Break i r))"
proof (cases "map_of (gr_guilds r) i = None")
  case False
  let ?ros = "filter (\<lambda>(c, gid). gid \<noteq> i) (gr_roster r)"
  have run: "snd (gr_Break i r) = r\<lparr>gr_roster := ?ros, gr_guilds := AList.delete i (gr_guilds r)\<rparr>"
    using False by (auto simp: gr_Break_def)
  have d: "distinct (keys ?ros)"
    using guild_wfD(1) [OF wf] by (rule distinct_map_filter)
  note m = map_of_filter_value [OF guild_wfD(1) [OF wf], of i]
  show ?thesis
    unfolding run
  proof (rule guild_wf_shrink [OF wf d, where i = i], goal_cases)
    case (1 d j)
    then show ?case by (simp add: m split: if_splits)
  next
    case (2 j)
    show ?case by (simp add: guild_size_def length_filter_filter del: filter_filter)
  next
    case 3
    show ?case by simp
  next
    case (4 d j)
    then show ?case
      using guild_wfD(5) [OF wf, of d j] by (auto simp: m split: if_splits)
  next
    case (5 j)
    then obtain g where "map_of (gr_guilds r) j = Some g" "j \<noteq> i"
      by (auto split: if_splits)
    then obtain d where "map_of (gr_roster r) d = Some j"
      using guild_wfD(4) [OF wf] guild_size_zero [OF wf, of j] by fastforce
    then show ?case
      using \<open>j \<noteq> i\<close> by (intro exI [of _ d]) (simp add: m)
  qed
qed (use wf in \<open>simp add: gr_Break_def\<close>)

inductive guild_step :: "guild_repo \<Rightarrow> guild_repo \<Rightarrow> bool" where
  create: "uint (gr_next r) + 1 < 2 ^ 32 \<Longrightarrow> guild_step r (snd (guild_Create mem_guild_port acc c name r))"
| accept: "guild_step r (snd (guild_Accept mem_guild_port i c r))"
| leave: "guild_step r (snd (guild_Leave mem_guild_port i c r))"
| kick: "guild_step r (snd (guild_Kick mem_guild_port i actor target r))"
| break: "guild_step r (snd (guild_Break mem_guild_port i actor key r))"
| char: "guild_step r (guild_SetChar c ci r)"

lemmas guild_calls = guild_Create_def guild_Accept_def guild_Leave_def guild_Kick_def guild_Break_def
  mem_guild_port_def Let_def gr_Get_def

lemma gr_Members_pure: "\<exists>x. gr_Members i r = (x, r)"
  by (auto simp: gr_Members_def Let_def split: option.split)

lemma gr_Members_rows:
  assumes "gr_Members i r = (Inr xs, r')" and "m \<in> set xs"
  shows "\<exists>d. (d, i) \<in> set (gr_roster r) \<and> gm_CharID m = d \<and> gm_Online m = ci_Online (guild_char r d)"
  using assms by (auto simp: gr_Members_def guild_row_def Let_def split: option.splits if_splits)

lemma guild_step_wf: "guild_step r r' \<Longrightarrow> guild_wf r \<Longrightarrow> guild_wf r'"
proof (induction rule: guild_step.induct)
  case (break r i actor key)
  obtain x where "gr_Members i r = (x, r)"
    using gr_Members_pure by blast
  then show ?case
    using break by (cases x) (auto simp: guild_calls guild_wf_break split: option.split)
next
  case (char r c ci)
  then show ?case by (simp add: guild_SetChar_def guild_wf_def guild_size_def)
qed (auto simp: guild_calls guild_wf_create guild_wf_add guild_wf_remove split: option.split)

lemma guild_reachable_wf: "guild_step\<^sup>*\<^sup>* NewMemoryGuildRepository r \<Longrightarrow> guild_wf r"
proof (induction rule: rtranclp_induct)
  case base
  show ?case by (simp add: guild_wf_def NewMemoryGuildRepository_def)
qed (rule guild_step_wf)

section \<open>Properties\<close>

text \<open>
  C33. Guilds live as long as their members. After any sequence of service calls a guild row exists
  exactly when some character is in it; it has between one and sixteen members, no two guilds share a
  name, and every character's guild exists.
\<close>

theorem guilds_live_with_members:
  assumes "guild_step\<^sup>*\<^sup>* NewMemoryGuildRepository r"
  shows "(map_of (gr_guilds r) i \<noteq> None) = (\<exists>c. map_of (gr_roster r) c = Some i) \<and>
    length (filter (\<lambda>(c, j). j = i) (gr_roster r)) \<le> 16 \<and> distinct (map (gd_Name \<circ> snd) (gr_guilds r))"
proof -
  note wf = guild_reachable_wf [OF assms]
  have "map_of (gr_guilds r) i \<noteq> None \<longleftrightarrow> (\<exists>c. map_of (gr_roster r) c = Some i)"
    using guild_wfD(4) [OF wf, of i] guild_wfD(5) [OF wf] guild_size_zero [OF wf, of i] by fastforce
  moreover have "guild_size i r \<le> 16"
    using calculation guild_wfD(4) [OF wf, of i] guild_size_zero [OF wf, of i] by (cases "guild_size i r = 0") force+
  ultimately show ?thesis
    using guild_wfD(3) [OF wf] by (simp add: guild_size_def)
qed

definition demo_guild :: guild_repo where
  "demo_guild = snd (guild_Accept mem_guild_port 1 11 (snd (guild_Create mem_guild_port 7 10 '' Wolves '' NewMemoryGuildRepository)))"

lemma demo_guild_reachable: "guild_step\<^sup>*\<^sup>* NewMemoryGuildRepository demo_guild"
proof -
  have "uint (gr_next NewMemoryGuildRepository) + 1 < 2 ^ 32"
    by (simp add: NewMemoryGuildRepository_def)
  then show ?thesis
    unfolding demo_guild_def
    by (intro rtranclp.rtrancl_into_rtrancl [where r = guild_step, OF _ guild_step.accept]
        rtranclp.rtrancl_into_rtrancl [where r = guild_step, OF _ guild_step.create] rtranclp.rtrancl_refl)
qed

theorem guilds_live_with_members_witness: "\<exists>c. map_of (gr_roster demo_guild) c = Some 1"
proof -
  have "map_of (gr_guilds demo_guild) 1 \<noteq> None"
    by code_simp
  then show ?thesis
    using guilds_live_with_members [OF demo_guild_reachable, of 1] by simp
qed

text \<open>
  Remark. A departed master keeps the guild. When the master leaves while others stay, the guild row still
  names the departed character: everyone else is refused as not the master, forever, while the one who
  left, now in no guild and free to found another, can still expel members and disband it.
\<close>

theorem departed_master_keeps_guild:
  assumes reach: "guild_step\<^sup>*\<^sup>* NewMemoryGuildRepository r" and g: "map_of (gr_guilds r) i = Some g"
    and mem: "map_of (gr_roster r) (gd_Master g) = Some i" "map_of (gr_roster r) c = Some i" "c \<noteq> gd_Master g"
    and off: "list_all (\<lambda>(d, j). \<not> ci_Online (guild_char r d)) (gr_roster r)"
  shows "\<exists>r'. guild_Leave mem_guild_port i (gd_Master g) r = (Inr (), r') \<and>
    gr_GetByMember (gd_Master g) r' = (Inl ErrNotInGuild, r') \<and> gr_Get i r' = (Inr g, r') \<and>
    (\<forall>actor target key. actor \<noteq> gd_Master g \<longrightarrow>
       guild_Kick mem_guild_port i actor target r' = (Inl ErrNotMaster, r') \<and>
       guild_Break mem_guild_port i actor key r' = (Inl ErrNotMaster, r')) \<and>
    fst (guild_Kick mem_guild_port i (gd_Master g) c r') = Inr () \<and>
    (TrimSpace (gd_Name g) = gd_Name g \<longrightarrow> fst (guild_Break mem_guild_port i (gd_Master g) (gd_Name g) r') = Inr ())"
proof -
  note wf = guild_reachable_wf [OF reach]
  let ?ros = "AList.delete (gd_Master g) (gr_roster r)"
  let ?r = "r\<lparr>gr_roster := ?ros\<rparr>"
  have d: "distinct (keys ?ros)"
    using guild_wfD(1) [OF wf] by simp
  have "(c, i) \<in> set ?ros"
    using mem d map_of_in_set [OF d, of c i] by simp
  then have ex: "list_ex (\<lambda>(c, gid). gid = i) ?ros"
    by (auto simp: list_ex_iff)
  then have leave: "guild_Leave mem_guild_port i (gd_Master g) r = (Inr (), ?r)"
    using g mem(1) by (simp add: guild_Leave_def mem_guild_port_def gr_RemoveMember_def)
  have get: "gr_Get i ?r = (Inr g, ?r)"
    using g by (simp add: gr_Get_def)
  have kick: "fst (guild_Kick mem_guild_port i (gd_Master g) c ?r) = Inr ()"
    using g mem get by (auto simp: guild_Kick_def mem_guild_port_def gr_RemoveMember_def Let_def)
  obtain xs where xs: "gr_Members i ?r = (Inr xs, ?r)"
    using g by (simp add: gr_Members_def Let_def)
  have "\<not> gm_Online m" if m: "m \<in> set xs" for m
  proof -
    obtain e where "(e, i) \<in> set ?ros" "gm_Online m = ci_Online (guild_char ?r e)"
      using gr_Members_rows [OF xs m] by auto
    then show ?thesis
      using off set_delete_subset [of "gd_Master g" "gr_roster r"] by (auto simp: list_all_iff guild_char_def)
  qed
  then have "fst (guild_Break mem_guild_port i (gd_Master g) (gd_Name g) ?r) = Inr ()" if "TrimSpace (gd_Name g) = gd_Name g"
    using that g get xs by (auto simp: guild_Break_def mem_guild_port_def gr_Break_def list_ex_iff)
  then show ?thesis
    using leave get kick g by (auto simp: gr_GetByMember_def guild_Kick_def guild_Break_def mem_guild_port_def)
qed

theorem departed_master_keeps_guild_witness:
  "\<exists>r'. guild_Leave mem_guild_port 1 10 demo_guild = (Inr (), r') \<and> gr_GetByMember 10 r' = (Inl ErrNotInGuild, r') \<and>
     guild_Kick mem_guild_port 1 11 10 r' = (Inl ErrNotMaster, r') \<and> fst (guild_Kick mem_guild_port 1 10 11 r') = Inr ()"
proof -
  define g where "g = the (map_of (gr_guilds demo_guild) 1)"
  have g: "map_of (gr_guilds demo_guild) 1 = Some g" "gd_Master g = 10"
    unfolding g_def by code_simp+
  have m: "map_of (gr_roster demo_guild) 10 = Some 1" "map_of (gr_roster demo_guild) 11 = Some 1"
      "list_all (\<lambda>(d, j). \<not> ci_Online (guild_char demo_guild d)) (gr_roster demo_guild)"
    by code_simp+
  show ?thesis
    using departed_master_keeps_guild [OF demo_guild_reachable g(1), of 11] m g(2) by auto
qed

end
