(* ===== verification/Friend.thy ===== *)
theory Friend
  imports GoPrelude
begin

text \<open>
  Friend lists (\<open>social/friend\<close>): the in-memory repository (\<open>infra/memory.go\<close>) behind the port of
  \<open>domain/friend.go\<close>, and \<open>FriendService\<close> (\<open>app/service.go\<close>). A pair is stored once per direction;
  the inner Go set of a character is the list of its keys. The locale \<open>friendship\<close> is the contract of
  the port, over the relation of who lists whom.
\<close>

record friend =
  fr_CharID :: u32
  fr_FriendCharID :: u32
  fr_FriendAccountID :: u32
  fr_Name :: string
  fr_Online :: bool

definition MaxFriends :: nat where "MaxFriends = 40"

record 's friend_port =
  fp_List :: "u32 \<Rightarrow> 's \<Rightarrow> (friend list, 's) out"
  fp_Add :: "u32 \<Rightarrow> u32 \<Rightarrow> 's \<Rightarrow> (unit, 's) out"
  fp_Remove :: "u32 \<Rightarrow> u32 \<Rightarrow> 's \<Rightarrow> (unit, 's) out"

record friend_char =
  fc_AccountID :: u32
  fc_Name :: string
  fc_Online :: bool

record friend_repo =
  fr_pairs :: "u32 \<rightharpoonup> u32 list"
  fr_chars :: "u32 \<rightharpoonup> friend_char"

definition NewMemoryFriendRepository :: friend_repo where
  "NewMemoryFriendRepository = \<lparr>fr_pairs = Map.empty, fr_chars = Map.empty\<rparr>"

definition friend_SetChar :: "u32 \<Rightarrow> friend_char \<Rightarrow> friend_repo \<Rightarrow> friend_repo" where
  "friend_SetChar c ci r = r\<lparr>fr_chars := (fr_chars r)(c \<mapsto> ci)\<rparr>"

definition DropChar :: "u32 \<Rightarrow> friend_repo \<Rightarrow> friend_repo" where
  "DropChar c r = r\<lparr>fr_chars := (fr_chars r)(c := None)\<rparr>"

definition friends_of :: "friend_repo \<Rightarrow> u32 \<Rightarrow> u32 list" where
  "friends_of r c = (case fr_pairs r c of None \<Rightarrow> [] | Some xs \<Rightarrow> xs)"

definition hasLocked :: "u32 \<Rightarrow> u32 \<Rightarrow> friend_repo \<Rightarrow> bool" where
  "hasLocked owner friend r \<longleftrightarrow> friend \<in> set (friends_of r owner)"

definition friend_countLocked :: "u32 \<Rightarrow> friend_repo \<Rightarrow> nat" where
  "friend_countLocked owner r = length (friends_of r owner)"

definition addOneLocked :: "u32 \<Rightarrow> u32 \<Rightarrow> friend_repo \<Rightarrow> friend_repo" where
  "addOneLocked owner friend r = r\<lparr>fr_pairs := (fr_pairs r)(owner \<mapsto> List.insert friend (friends_of r owner))\<rparr>"

definition dropOne :: "u32 \<Rightarrow> u32 \<Rightarrow> friend_repo \<Rightarrow> friend_repo" where
  "dropOne owner friend r = r\<lparr>fr_pairs := (fr_pairs r)(owner := map_option (removeAll friend) (fr_pairs r owner))\<rparr>"

definition friend_row :: "friend_repo \<Rightarrow> u32 \<Rightarrow> u32 \<Rightarrow> friend option" where
  "friend_row r c f = map_option (\<lambda>ci. \<lparr>fr_CharID = c, fr_FriendCharID = f, fr_FriendAccountID = fc_AccountID ci,
     fr_Name = fc_Name ci, fr_Online = fc_Online ci\<rparr>) (fr_chars r f)"

definition fr_List :: "u32 \<Rightarrow> friend_repo \<Rightarrow> (friend list, friend_repo) out" where
  "fr_List c r = (Inr (sort_key fr_FriendCharID (List.map_filter (friend_row r c) (friends_of r c))), r)"

definition fr_Add :: "u32 \<Rightarrow> u32 \<Rightarrow> friend_repo \<Rightarrow> (unit, friend_repo) out" where
  "fr_Add owner friend r =
     (if hasLocked owner friend r then (Inl ErrFriendExists, r)
      else if friend_countLocked owner r \<ge> MaxFriends then (Inl ErrFriendListFull, r)
      else if friend_countLocked friend r \<ge> MaxFriends then (Inl ErrAcceptorListFull, r)
      else (Inr (), addOneLocked friend owner (addOneLocked owner friend r)))"

definition fr_Remove :: "u32 \<Rightarrow> u32 \<Rightarrow> friend_repo \<Rightarrow> (unit, friend_repo) out" where
  "fr_Remove owner friend r =
     (if \<not> hasLocked owner friend r then (Inl ErrFriendNotFound, r)
      else (Inr (), dropOne friend owner (dropOne owner friend r)))"

definition mem_friend_port :: "friend_repo friend_port" where
  "mem_friend_port = \<lparr>fp_List = fr_List, fp_Add = fr_Add, fp_Remove = fr_Remove\<rparr>"

section \<open>FriendService\<close>

definition friend_List :: "'s friend_port \<Rightarrow> u32 \<Rightarrow> 's \<Rightarrow> (friend list, 's) out" where
  "friend_List F c s = fp_List F c s"

definition friend_Add :: "'s friend_port \<Rightarrow> u32 \<Rightarrow> u32 \<Rightarrow> 's \<Rightarrow> (unit, 's) out" where
  "friend_Add F requester acceptor s =
     (if requester = acceptor then (Inl ErrFriendSelf, s) else fp_Add F requester acceptor s)"

definition friend_Remove :: "'s friend_port \<Rightarrow> u32 \<Rightarrow> u32 \<Rightarrow> 's \<Rightarrow> (unit, 's) out" where
  "friend_Remove F c friend s = fp_Remove F c friend s"

section \<open>The contract of the port\<close>

text \<open>\<open>rel s\<close> lists each character's friends, without repetition.\<close>

locale friendship =
  fixes F :: "'s friend_port" and rel :: "'s \<Rightarrow> u32 \<Rightarrow> u32 list" and reset :: "'s \<Rightarrow> bool"
  assumes add_rel: "fp_Add F a b s =
      (if b \<in> set (rel s a) then (Inl ErrFriendExists, s)
       else if MaxFriends \<le> length (rel s a) then (Inl ErrFriendListFull, s)
       else if MaxFriends \<le> length (rel s b) then (Inl ErrAcceptorListFull, s)
       else (Inr (), snd (fp_Add F a b s)))"
    and add_new: "b \<notin> set (rel s a) \<Longrightarrow> length (rel s a) < MaxFriends \<Longrightarrow> length (rel s b) < MaxFriends \<Longrightarrow> a \<noteq> b \<Longrightarrow>
      rel (snd (fp_Add F a b s)) = (rel s)(a := List.insert b (rel s a), b := List.insert a (rel s b))"
    and remove_rel: "a \<noteq> b \<Longrightarrow> b \<in> set (rel s a) \<Longrightarrow> \<exists>s'. fp_Remove F a b s = (Inr (), s') \<and>
      rel s' = (rel s)(a := removeAll b (rel s a), b := removeAll a (rel s b))"
    and remove_missing: "b \<notin> set (rel s a) \<Longrightarrow> fp_Remove F a b s = (Inl ErrFriendNotFound, s)"
    and reset_rel: "reset s \<Longrightarrow> rel s = (\<lambda>_. [])"
begin

definition mutual :: "'s \<Rightarrow> bool" where
  "mutual s \<longleftrightarrow> (\<forall>a. distinct (rel s a) \<and> a \<notin> set (rel s a) \<and> length (rel s a) \<le> MaxFriends \<and>
     (\<forall>b\<in>set (rel s a). a \<in> set (rel s b)))"

lemma mutual_reset: "reset s \<Longrightarrow> mutual s"
  by (simp add: mutual_def reset_rel)

lemma mutual_cong: "rel s' = rel s \<Longrightarrow> mutual s' = mutual s"
  by (simp add: mutual_def)

lemma mutual_add:
  assumes "mutual s"
  shows "mutual (snd (friend_Add F a b s))"
proof (cases "a \<noteq> b \<and> b \<notin> set (rel s a) \<and> length (rel s a) < MaxFriends \<and> length (rel s b) < MaxFriends")
  case False
  then have "snd (friend_Add F a b s) = s"
    using add_rel [of a b s] by (auto simp: friend_Add_def not_less split: if_splits)
  then show ?thesis
    using assms by simp
next
  case True
  then have "snd (friend_Add F a b s) = snd (fp_Add F a b s)"
    by (simp add: friend_Add_def)
  moreover have "a \<notin> set (rel s b)"
    using assms True by (auto simp: mutual_def)
  ultimately show ?thesis
    using assms True add_new [of b s a] by (auto simp: mutual_def)
qed

lemma mutual_remove:
  assumes "mutual s"
  shows "mutual (snd (friend_Remove F a b s))"
proof (cases "b \<in> set (rel s a)")
  case False
  then show ?thesis
    using assms remove_missing [OF False] by (simp add: friend_Remove_def)
next
  case True
  then have "a \<noteq> b"
    using assms by (auto simp: mutual_def)
  then obtain s' where s': "fp_Remove F a b s = (Inr (), s')"
      "rel s' = (rel s)(a := removeAll b (rel s a), b := removeAll a (rel s b))"
    using remove_rel True by blast
  have "length (rel s c) \<le> MaxFriends \<Longrightarrow> length (removeAll x (rel s c)) \<le> MaxFriends" for x c
    using length_removeAll_less_eq [of x "rel s c"] by linarith
  then show ?thesis
    using assms s' \<open>a \<noteq> b\<close> by (auto simp: friend_Remove_def mutual_def distinct_removeAll)
qed

end

interpretation mem_friends: friendship mem_friend_port friends_of "\<lambda>r. fr_pairs r = Map.empty"
proof (unfold_locales, goal_cases)
  case (1 a b s)
  then show ?case
    by (simp add: mem_friend_port_def fr_Add_def hasLocked_def friend_countLocked_def)
next
  case (2 b s a)
  then show ?case
    by (auto simp: mem_friend_port_def fr_Add_def hasLocked_def friend_countLocked_def friends_of_def addOneLocked_def fun_eq_iff)
next
  case (3 a b s)
  then show ?case
    by (auto simp: mem_friend_port_def fr_Remove_def hasLocked_def friends_of_def dropOne_def fun_eq_iff split: option.split)
next
  case (4 b s a)
  then show ?case by (simp add: mem_friend_port_def fr_Remove_def hasLocked_def)
next
  case (5 s)
  then show ?case by (simp add: friends_of_def fun_eq_iff)
qed

section \<open>Property\<close>

inductive friend_step :: "friend_repo \<Rightarrow> friend_repo \<Rightarrow> bool" where
  add: "friend_step r (snd (friend_Add mem_friend_port a b r))"
| remove: "friend_step r (snd (friend_Remove mem_friend_port a b r))"
| char: "friend_step r (friend_SetChar c ci r)"
| drop: "friend_step r (DropChar c r)"

lemma friend_step_mutual: "friend_step r r' \<Longrightarrow> mem_friends.mutual r \<Longrightarrow> mem_friends.mutual r'"
proof (induction rule: friend_step.induct)
  case (char r c ci)
  have "friends_of (friend_SetChar c ci r) = friends_of r"
    by (simp add: friends_of_def friend_SetChar_def fun_eq_iff)
  with char show ?case
    using mem_friends.mutual_cong by blast
next
  case (drop r c)
  have "friends_of (DropChar c r) = friends_of r"
    by (simp add: friends_of_def DropChar_def fun_eq_iff)
  with drop show ?case
    using mem_friends.mutual_cong by blast
qed (simp_all add: mem_friends.mutual_add mem_friends.mutual_remove)

lemma friend_reachable_mutual: "friend_step\<^sup>*\<^sup>* NewMemoryFriendRepository r \<Longrightarrow> mem_friends.mutual r"
proof (induction rule: rtranclp_induct)
  case base
  show ?case
    by (rule mem_friends.mutual_reset) (simp add: NewMemoryFriendRepository_def)
qed (rule friend_step_mutual)

text \<open>
  Remark. Friendship is mutual. After any sequence of adds and removals, accepted or refused, each
  character's list has at most forty entries, none twice and never its owner, and lists exactly the
  characters that list it.
\<close>

theorem friendship_is_mutual:
  assumes "friend_step\<^sup>*\<^sup>* NewMemoryFriendRepository r"
  shows "(b \<in> set (friends_of r a)) = (a \<in> set (friends_of r b)) \<and> a \<notin> set (friends_of r a) \<and>
    distinct (friends_of r a) \<and> length (friends_of r a) \<le> 40"
  using friend_reachable_mutual [OF assms] by (auto simp: mem_friends.mutual_def MaxFriends_def)

theorem friendship_is_mutual_witness:
  "10 \<in> set (friends_of (snd (friend_Add mem_friend_port 10 11 NewMemoryFriendRepository)) 11)"
proof -
  have "friend_step\<^sup>*\<^sup>* NewMemoryFriendRepository (snd (friend_Add mem_friend_port 10 11 NewMemoryFriendRepository))"
    by (blast intro: friend_step.add)
  moreover have "11 \<in> set (friends_of (snd (friend_Add mem_friend_port 10 11 NewMemoryFriendRepository)) 10)"
    by code_simp
  ultimately show ?thesis
    using friendship_is_mutual by blast
qed

end
