(* ===== verification/PacketMap.thy ===== *)
theory PacketMap
  imports Wire
begin

text \<open>
  The client's map packets: \<open>map_parse.go\<close>, \<open>map_parse_inventory.go\<close>, \<open>map_skill_topos.go\<close> of
  \<open>pkg/ro/packet\<close>.
  A record is the Go struct, its fields the struct's with the type's name in front; a signed
  wire integer is the word with the same bits.
\<close>

unbundle bit_operations_syntax

section \<open>\<open>map_parse.go\<close>\<close>

record CZEnterRequest =
  CZEnterRequest_AccountID :: u32
  CZEnterRequest_CharID :: u32
  CZEnterRequest_AuthCode :: u32
  CZEnterRequest_ClientTime :: u32
  CZEnterRequest_Sex :: byte

definition ParseCZEnter :: "frame \<Rightarrow> packet_error + CZEnterRequest" where
  "ParseCZEnter f = of_frame 19 0x0072 f
     \<lparr>CZEnterRequest_AccountID = u32_at 2 f, CZEnterRequest_CharID = u32_at 6 f,
      CZEnterRequest_AuthCode = u32_at 10 f, CZEnterRequest_ClientTime = u32_at 14 f,
      CZEnterRequest_Sex = u8_at 18 f\<rparr>"

definition encode_CZEnterRequest :: "CZEnterRequest \<Rightarrow> frame" where
  "encode_CZEnterRequest r = fill 19
     [put16 0 0x0072, put32 2 (CZEnterRequest_AccountID r), put32 6 (CZEnterRequest_CharID r),
      put32 10 (CZEnterRequest_AuthCode r), put32 14 (CZEnterRequest_ClientTime r), put8 18 (CZEnterRequest_Sex r)]"

record CZRequestMoveRequest =
  CZRequestMoveRequest_DestX :: u16
  CZRequestMoveRequest_DestY :: u16

definition ParseCZRequestMove :: "frame \<Rightarrow> packet_error + CZRequestMoveRequest" where
  "ParseCZRequestMove f = of_frame 5 0x0085 f
     (case decodePos (slice 2 3 f) of (destX, destY, _) \<Rightarrow>
        \<lparr>CZRequestMoveRequest_DestX = destX, CZRequestMoveRequest_DestY = destY\<rparr>)"

definition encode_CZRequestMoveRequest :: "CZRequestMoveRequest \<Rightarrow> frame" where
  "encode_CZRequestMoveRequest r = fill 5
     [put16 0 0x0085, put_pos 2 (CZRequestMoveRequest_DestX r) (CZRequestMoveRequest_DestY r) 0]"

record CZRequestTimeRequest =
  CZRequestTimeRequest_ClientTick :: u32

definition ParseCZRequestTime :: "frame \<Rightarrow> packet_error + CZRequestTimeRequest" where
  "ParseCZRequestTime f = of_frame 6 0x007e f
     \<lparr>CZRequestTimeRequest_ClientTick = u32_at 2 f\<rparr>"

definition encode_CZRequestTimeRequest :: "CZRequestTimeRequest \<Rightarrow> frame" where
  "encode_CZRequestTimeRequest r = fill 6
     [put16 0 0x007e, put32 2 (CZRequestTimeRequest_ClientTick r)]"

record CZGlobalMessageRequest =
  CZGlobalMessageRequest_Message :: string

definition ParseCZGlobalMessage :: "frame \<Rightarrow> packet_error + CZGlobalMessageRequest" where
  "ParseCZGlobalMessage f =
     (if length f < 4 then Inl ShortFrame
      else if u16_at 0 f \<noteq> 0x008c then Inl UnexpectedCmd
      else let plen = unat (u16_at 2 f) in
        if plen < 4 then Inl BadLength
        else if length f < plen then Inl ShortFrame
        else let body = slice 4 (plen - 4) f in
          if body = [] then Inl EmptyText
          else Inr \<lparr>CZGlobalMessageRequest_Message = cstr body\<rparr>)"

record CZActionRequestRequest =
  CZActionRequestRequest_TargetGID :: u32
  CZActionRequestRequest_Action :: byte

definition ParseCZActionRequest :: "frame \<Rightarrow> packet_error + CZActionRequestRequest" where
  "ParseCZActionRequest f = of_frame 7 0x0089 f
     \<lparr>CZActionRequestRequest_TargetGID = u32_at 2 f, CZActionRequestRequest_Action = u8_at 6 f\<rparr>"

definition encode_CZActionRequestRequest :: "CZActionRequestRequest \<Rightarrow> frame" where
  "encode_CZActionRequestRequest r = fill 7
     [put16 0 0x0089, put32 2 (CZActionRequestRequest_TargetGID r), put8 6 (CZActionRequestRequest_Action r)]"

definition encode_CZGlobalMessageRequest :: "CZGlobalMessageRequest \<Rightarrow> packet_error + frame" where
  "encode_CZGlobalMessageRequest r = var_frame 0x008c (bytes_of (CZGlobalMessageRequest_Message r) @ [0])"

record CZWhisperRequest =
  CZWhisperRequest_TargetNick :: string
  CZWhisperRequest_Message :: string

definition ParseCZWhisper :: "frame \<Rightarrow> packet_error + CZWhisperRequest" where
  "ParseCZWhisper f =
     (if length f < 28 then Inl ShortFrame
      else if u16_at 0 f \<noteq> 0x0096 then Inl UnexpectedCmd
      else let plen = unat (u16_at 2 f) in
        if plen < 28 then Inl BadLength
        else if length f < plen then Inl ShortFrame
        else let nick = slice 4 24 f; body = slice 28 (plen - 28) f in
          if body = [] then Inl EmptyText
          else Inr \<lparr>CZWhisperRequest_TargetNick = cstr nick, CZWhisperRequest_Message = cstr body\<rparr>)"

definition encode_CZWhisperRequest :: "CZWhisperRequest \<Rightarrow> packet_error + frame" where
  "encode_CZWhisperRequest r =
     var_frame 0x0096 (pad 24 (bytes_of (CZWhisperRequest_TargetNick r)) @ bytes_of (CZWhisperRequest_Message r) @ [0])"

record CZChangeDirRequest =
  CZChangeDirRequest_HeadDir :: u16
  CZChangeDirRequest_Dir :: byte

definition ParseCZChangeDir :: "frame \<Rightarrow> packet_error + CZChangeDirRequest" where
  "ParseCZChangeDir f = of_frame 5 0x009b f
     \<lparr>CZChangeDirRequest_HeadDir = u16_at 2 f, CZChangeDirRequest_Dir = u8_at 4 f\<rparr>"

definition encode_CZChangeDirRequest :: "CZChangeDirRequest \<Rightarrow> frame" where
  "encode_CZChangeDirRequest r = fill 5
     [put16 0 0x009b, put16 2 (CZChangeDirRequest_HeadDir r), put8 4 (CZChangeDirRequest_Dir r)]"

record CZReqEmotionRequest =
  CZReqEmotionRequest_EmotionType :: byte

definition ParseCZReqEmotion :: "frame \<Rightarrow> packet_error + CZReqEmotionRequest" where
  "ParseCZReqEmotion f = of_frame 3 0x00bf f
     \<lparr>CZReqEmotionRequest_EmotionType = u8_at 2 f\<rparr>"

definition encode_CZReqEmotionRequest :: "CZReqEmotionRequest \<Rightarrow> frame" where
  "encode_CZReqEmotionRequest r = fill 3
     [put16 0 0x00bf, put8 2 (CZReqEmotionRequest_EmotionType r)]"

record CZGetCharNameRequestRequest =
  CZGetCharNameRequestRequest_GID :: u32

definition ParseCZGetCharNameRequest :: "frame \<Rightarrow> packet_error + CZGetCharNameRequestRequest" where
  "ParseCZGetCharNameRequest f = of_frame 6 0x0094 f
     \<lparr>CZGetCharNameRequestRequest_GID = u32_at 2 f\<rparr>"

definition encode_CZGetCharNameRequestRequest :: "CZGetCharNameRequestRequest \<Rightarrow> frame" where
  "encode_CZGetCharNameRequestRequest r = fill 6
     [put16 0 0x0094, put32 2 (CZGetCharNameRequestRequest_GID r)]"

record CZRestartRequest =
  CZRestartRequest_Type :: byte

definition ParseCZRestart :: "frame \<Rightarrow> packet_error + CZRestartRequest" where
  "ParseCZRestart f = of_frame 3 0x00b2 f
     \<lparr>CZRestartRequest_Type = u8_at 2 f\<rparr>"

definition encode_CZRestartRequest :: "CZRestartRequest \<Rightarrow> frame" where
  "encode_CZRestartRequest r = fill 3
     [put16 0 0x00b2, put8 2 (CZRestartRequest_Type r)]"

record CZSkillUpRequest =
  CZSkillUpRequest_SkillID :: u32

definition ParseCZSkillUp :: "frame \<Rightarrow> packet_error + CZSkillUpRequest" where
  "ParseCZSkillUp f =
     (if length f \<noteq> 4 then Inl WrongSize
      else Inr \<lparr>CZSkillUpRequest_SkillID = ucast (u16_at 2 f)\<rparr>)"

definition encode_CZSkillUpRequest :: "CZSkillUpRequest \<Rightarrow> frame" where
  "encode_CZSkillUpRequest r = fill 4
     [put16 0 0x0112, put16 2 (ucast (CZSkillUpRequest_SkillID r))]"

record CZContactNPCRequest =
  CZContactNPCRequest_AID :: u32
  CZContactNPCRequest_Type :: byte

definition ParseCZContactNPC :: "frame \<Rightarrow> packet_error + CZContactNPCRequest" where
  "ParseCZContactNPC f = of_frame 7 0x0090 f
     \<lparr>CZContactNPCRequest_AID = u32_at 2 f, CZContactNPCRequest_Type = u8_at 6 f\<rparr>"

definition encode_CZContactNPCRequest :: "CZContactNPCRequest \<Rightarrow> frame" where
  "encode_CZContactNPCRequest r = fill 7
     [put16 0 0x0090, put32 2 (CZContactNPCRequest_AID r), put8 6 (CZContactNPCRequest_Type r)]"

record CZReqNextScriptRequest =
  CZReqNextScriptRequest_NpcID :: u32

definition ParseCZReqNextScript :: "frame \<Rightarrow> packet_error + CZReqNextScriptRequest" where
  "ParseCZReqNextScript f = of_frame 6 0x00b9 f
     \<lparr>CZReqNextScriptRequest_NpcID = u32_at 2 f\<rparr>"

definition encode_CZReqNextScriptRequest :: "CZReqNextScriptRequest \<Rightarrow> frame" where
  "encode_CZReqNextScriptRequest r = fill 6
     [put16 0 0x00b9, put32 2 (CZReqNextScriptRequest_NpcID r)]"

record CZCloseDialogRequest =
  CZCloseDialogRequest_GID :: u32

definition ParseCZCloseDialog :: "frame \<Rightarrow> packet_error + CZCloseDialogRequest" where
  "ParseCZCloseDialog f = of_frame 6 0x0146 f
     \<lparr>CZCloseDialogRequest_GID = u32_at 2 f\<rparr>"

definition encode_CZCloseDialogRequest :: "CZCloseDialogRequest \<Rightarrow> frame" where
  "encode_CZCloseDialogRequest r = fill 6
     [put16 0 0x0146, put32 2 (CZCloseDialogRequest_GID r)]"

record CZAckSelectDealTypeRequest =
  CZAckSelectDealTypeRequest_NpcID :: u32
  CZAckSelectDealTypeRequest_Type :: byte

definition ParseCZAckSelectDealType :: "frame \<Rightarrow> packet_error + CZAckSelectDealTypeRequest" where
  "ParseCZAckSelectDealType f = of_frame 7 0x00c5 f
     \<lparr>CZAckSelectDealTypeRequest_NpcID = u32_at 2 f, CZAckSelectDealTypeRequest_Type = u8_at 6 f\<rparr>"

definition encode_CZAckSelectDealTypeRequest :: "CZAckSelectDealTypeRequest \<Rightarrow> frame" where
  "encode_CZAckSelectDealTypeRequest r = fill 7
     [put16 0 0x00c5, put32 2 (CZAckSelectDealTypeRequest_NpcID r), put8 6 (CZAckSelectDealTypeRequest_Type r)]"

record CZPCPurchaseItemListEntry =
  CZPCPurchaseItemListEntry_ItemID :: u32
  CZPCPurchaseItemListEntry_Amount :: u16

record CZPCPurchaseItemListRequest =
  CZPCPurchaseItemListRequest_Entries :: "CZPCPurchaseItemListEntry list"

definition CZPCPurchaseItemListEntry_at :: "frame \<Rightarrow> nat \<Rightarrow> CZPCPurchaseItemListEntry" where
  "CZPCPurchaseItemListEntry_at f off = \<lparr>CZPCPurchaseItemListEntry_ItemID = u32_at off f, CZPCPurchaseItemListEntry_Amount = u16_at (off + 4) f\<rparr>"

definition ParseCZPCPurchaseItemList :: "frame \<Rightarrow> packet_error + CZPCPurchaseItemListRequest" where
  "ParseCZPCPurchaseItemList f =
     (if length f < 4 then Inl ShortFrame
      else if u16_at 0 f \<noteq> 0x00c8 then Inl UnexpectedCmd
      else let bodyLen = length f - 4 in
        if bodyLen mod 6 \<noteq> 0 then Inl Misaligned
        else Inr \<lparr>CZPCPurchaseItemListRequest_Entries = map (\<lambda>i. CZPCPurchaseItemListEntry_at f (4 + i * 6)) [0..<bodyLen div 6]\<rparr>)"

definition encode_CZPCPurchaseItemListEntry :: "CZPCPurchaseItemListEntry \<Rightarrow> frame" where
  "encode_CZPCPurchaseItemListEntry e = le32 (CZPCPurchaseItemListEntry_ItemID e) @ le16 (CZPCPurchaseItemListEntry_Amount e)"

definition encode_CZPCPurchaseItemListRequest :: "CZPCPurchaseItemListRequest \<Rightarrow> packet_error + frame" where
  "encode_CZPCPurchaseItemListRequest r = var_frame 0x00c8 (concat (map encode_CZPCPurchaseItemListEntry (CZPCPurchaseItemListRequest_Entries r)))"

record CZPCSellItemListEntry =
  CZPCSellItemListEntry_Index :: u16
  CZPCSellItemListEntry_Amount :: u16

record CZPCSellItemListRequest =
  CZPCSellItemListRequest_Entries :: "CZPCSellItemListEntry list"

definition CZPCSellItemListEntry_at :: "frame \<Rightarrow> nat \<Rightarrow> CZPCSellItemListEntry" where
  "CZPCSellItemListEntry_at f off = \<lparr>CZPCSellItemListEntry_Index = u16_at off f, CZPCSellItemListEntry_Amount = u16_at (off + 2) f\<rparr>"

definition ParseCZPCSellItemList :: "frame \<Rightarrow> packet_error + CZPCSellItemListRequest" where
  "ParseCZPCSellItemList f =
     (if length f < 4 then Inl ShortFrame
      else if u16_at 0 f \<noteq> 0x00c9 then Inl UnexpectedCmd
      else let bodyLen = length f - 4 in
        if bodyLen mod 4 \<noteq> 0 then Inl Misaligned
        else Inr \<lparr>CZPCSellItemListRequest_Entries = map (\<lambda>i. CZPCSellItemListEntry_at f (4 + i * 4)) [0..<bodyLen div 4]\<rparr>)"

definition encode_CZPCSellItemListEntry :: "CZPCSellItemListEntry \<Rightarrow> frame" where
  "encode_CZPCSellItemListEntry e = le16 (CZPCSellItemListEntry_Index e) @ le16 (CZPCSellItemListEntry_Amount e)"

definition encode_CZPCSellItemListRequest :: "CZPCSellItemListRequest \<Rightarrow> packet_error + frame" where
  "encode_CZPCSellItemListRequest r = var_frame 0x00c9 (concat (map encode_CZPCSellItemListEntry (CZPCSellItemListRequest_Entries r)))"

record CZStatusChangeRequest =
  CZStatusChangeRequest_StatusID :: u16
  CZStatusChangeRequest_Amount :: byte

definition ParseCZStatusChange :: "frame \<Rightarrow> packet_error + CZStatusChangeRequest" where
  "ParseCZStatusChange f = of_frame 5 0x00bb f
     \<lparr>CZStatusChangeRequest_StatusID = u16_at 2 f, CZStatusChangeRequest_Amount = u8_at 4 f\<rparr>"

definition encode_CZStatusChangeRequest :: "CZStatusChangeRequest \<Rightarrow> frame" where
  "encode_CZStatusChangeRequest r = fill 5
     [put16 0 0x00bb, put16 2 (CZStatusChangeRequest_StatusID r), put8 4 (CZStatusChangeRequest_Amount r)]"

record CZChooseMenuRequest =
  CZChooseMenuRequest_NpcID :: u32
  CZChooseMenuRequest_Selected :: byte

definition ParseCZChooseMenu :: "frame \<Rightarrow> packet_error + CZChooseMenuRequest" where
  "ParseCZChooseMenu f = of_frame 7 0x00b8 f
     \<lparr>CZChooseMenuRequest_NpcID = u32_at 2 f, CZChooseMenuRequest_Selected = u8_at 6 f\<rparr>"

definition encode_CZChooseMenuRequest :: "CZChooseMenuRequest \<Rightarrow> frame" where
  "encode_CZChooseMenuRequest r = fill 7
     [put16 0 0x00b8, put32 2 (CZChooseMenuRequest_NpcID r), put8 6 (CZChooseMenuRequest_Selected r)]"

record CZInputEditDlgRequest =
  CZInputEditDlgRequest_NpcID :: u32
  CZInputEditDlgRequest_Value :: u32

definition ParseCZInputEditDlg :: "frame \<Rightarrow> packet_error + CZInputEditDlgRequest" where
  "ParseCZInputEditDlg f = of_frame 10 0x0143 f
     \<lparr>CZInputEditDlgRequest_NpcID = u32_at 2 f, CZInputEditDlgRequest_Value = u32_at 6 f\<rparr>"

definition encode_CZInputEditDlgRequest :: "CZInputEditDlgRequest \<Rightarrow> frame" where
  "encode_CZInputEditDlgRequest r = fill 10
     [put16 0 0x0143, put32 2 (CZInputEditDlgRequest_NpcID r), put32 6 (CZInputEditDlgRequest_Value r)]"

record CZInputEditDlgStrRequest =
  CZInputEditDlgStrRequest_NpcID :: u32
  CZInputEditDlgStrRequest_Value :: string

definition ParseCZInputEditDlgStr :: "frame \<Rightarrow> packet_error + CZInputEditDlgStrRequest" where
  "ParseCZInputEditDlgStr f =
     (if length f < 8 then Inl ShortFrame
      else if u16_at 0 f \<noteq> 0x01d5 then Inl UnexpectedCmd
      else let pktLen = unat (u16_at 2 f) in
        if pktLen < 8 \<or> pktLen > length f then Inl BadLength
        else let value = string_of (trim_nul (slice 8 (pktLen - 8) f)) in
          if value = [] then Inl EmptyText
          else Inr \<lparr>CZInputEditDlgStrRequest_NpcID = u32_at 4 f,
                    CZInputEditDlgStrRequest_Value = (if length value > 71 - 1 then take (71 - 1) value else value)\<rparr>)"

definition encode_CZInputEditDlgStrRequest :: "CZInputEditDlgStrRequest \<Rightarrow> frame" where
  "encode_CZInputEditDlgStrRequest r =
     wrapped_frame 0x01d5 (le32 (CZInputEditDlgStrRequest_NpcID r) @ bytes_of (CZInputEditDlgStrRequest_Value r) @ [0])"

record CZDropItemRequest =
  CZDropItemRequest_InventoryIndex :: u16
  CZDropItemRequest_Amount :: u16

definition ParseCZDropItem :: "frame \<Rightarrow> packet_error + CZDropItemRequest" where
  "ParseCZDropItem f =
     (if length f \<noteq> 6 then Inl WrongSize
      else Inr \<lparr>CZDropItemRequest_InventoryIndex = u16_at 2 f, CZDropItemRequest_Amount = u16_at 4 f\<rparr>)"

definition encode_CZDropItemRequest :: "CZDropItemRequest \<Rightarrow> frame" where
  "encode_CZDropItemRequest r = fill 6
     [put16 0 0x0363, put16 2 (CZDropItemRequest_InventoryIndex r), put16 4 (CZDropItemRequest_Amount r)]"

record CZPMIgnoreRequest =
  CZPMIgnoreRequest_Name :: string
  CZPMIgnoreRequest_Type :: byte

definition ParseCZPMIgnore :: "frame \<Rightarrow> packet_error + CZPMIgnoreRequest" where
  "ParseCZPMIgnore f = of_exact 27 0x00cf f
     \<lparr>CZPMIgnoreRequest_Name = cstr (slice 2 24 f), CZPMIgnoreRequest_Type = u8_at 26 f\<rparr>"

record CZSettingWhisperStateRequest =
  CZSettingWhisperStateRequest_Type :: byte

definition ParseCZSettingWhisperState :: "frame \<Rightarrow> packet_error + CZSettingWhisperStateRequest" where
  "ParseCZSettingWhisperState f = of_exact 3 0x00d0 f
     \<lparr>CZSettingWhisperStateRequest_Type = u8_at 2 f\<rparr>"

section \<open>\<open>map_parse_inventory.go\<close>\<close>

record CZUseItemRequest =
  CZUseItemRequest_Index :: u16
  CZUseItemRequest_AID :: u32

definition ParseCZUseItem :: "frame \<Rightarrow> packet_error + CZUseItemRequest" where
  "ParseCZUseItem f = of_frame 8 0x0439 f
     \<lparr>CZUseItemRequest_Index = u16_at 2 f, CZUseItemRequest_AID = u32_at 4 f\<rparr>"

definition encode_CZUseItemRequest :: "CZUseItemRequest \<Rightarrow> frame" where
  "encode_CZUseItemRequest r = fill 8
     [put16 0 0x0439, put16 2 (CZUseItemRequest_Index r), put32 4 (CZUseItemRequest_AID r)]"

record CZReqWearEquipRequest =
  CZReqWearEquipRequest_Index :: u16
  CZReqWearEquipRequest_Position :: u32

definition ParseCZReqWearEquip :: "frame \<Rightarrow> packet_error + CZReqWearEquipRequest" where
  "ParseCZReqWearEquip f = of_frame 8 0x0998 f
     \<lparr>CZReqWearEquipRequest_Index = u16_at 2 f, CZReqWearEquipRequest_Position = u32_at 4 f\<rparr>"

definition encode_CZReqWearEquipRequest :: "CZReqWearEquipRequest \<Rightarrow> frame" where
  "encode_CZReqWearEquipRequest r = fill 8
     [put16 0 0x0998, put16 2 (CZReqWearEquipRequest_Index r), put32 4 (CZReqWearEquipRequest_Position r)]"

record CZReqTakeoffEquipRequest =
  CZReqTakeoffEquipRequest_Index :: u16

definition ParseCZReqTakeoffEquip :: "frame \<Rightarrow> packet_error + CZReqTakeoffEquipRequest" where
  "ParseCZReqTakeoffEquip f = of_frame 4 0x00ab f
     \<lparr>CZReqTakeoffEquipRequest_Index = u16_at 2 f\<rparr>"

definition encode_CZReqTakeoffEquipRequest :: "CZReqTakeoffEquipRequest \<Rightarrow> frame" where
  "encode_CZReqTakeoffEquipRequest r = fill 4
     [put16 0 0x00ab, put16 2 (CZReqTakeoffEquipRequest_Index r)]"

record CZItemPickupRequest =
  CZItemPickupRequest_GroundID :: u32

definition ParseCZItemPickup :: "frame \<Rightarrow> packet_error + CZItemPickupRequest" where
  "ParseCZItemPickup f =
     (if length f < 6 then Inl ShortFrame
      else let cmd = u16_at 0 f in
        if cmd \<noteq> 0x009f \<and> cmd \<noteq> 0x0362 then Inl UnexpectedCmd
        else Inr \<lparr>CZItemPickupRequest_GroundID = u32_at 2 f\<rparr>)"

definition encode_CZItemPickupRequest :: "CZItemPickupRequest \<Rightarrow> frame" where
  "encode_CZItemPickupRequest r = fill 6
     [put16 0 0x009f, put32 2 (CZItemPickupRequest_GroundID r)]"

section \<open>\<open>map_skill_topos.go\<close>\<close>

record CZUseSkillToPos =
  CZUseSkillToPos_SkillLv :: u16
  CZUseSkillToPos_SkillID :: u16
  CZUseSkillToPos_X :: u16
  CZUseSkillToPos_Y :: u16

definition ParseCZUseSkillToPos :: "frame \<Rightarrow> packet_error + CZUseSkillToPos" where
  "ParseCZUseSkillToPos f = of_frame 11 0x0af4 f
     \<lparr>CZUseSkillToPos_SkillLv = u16_at 2 f, CZUseSkillToPos_SkillID = u16_at 4 f, CZUseSkillToPos_X = u16_at 6 f,
      CZUseSkillToPos_Y = u16_at 8 f\<rparr>"

definition encode_CZUseSkillToPos :: "CZUseSkillToPos \<Rightarrow> frame" where
  "encode_CZUseSkillToPos r = fill 11
     [put16 0 0x0af4, put16 2 (CZUseSkillToPos_SkillLv r), put16 4 (CZUseSkillToPos_SkillID r),
      put16 6 (CZUseSkillToPos_X r), put16 8 (CZUseSkillToPos_Y r)]"

record GroundSkillPoseEffect =
  GroundSkillPoseEffect_SKID :: u16
  GroundSkillPoseEffect_AID :: u32
  GroundSkillPoseEffect_Level :: u16
  GroundSkillPoseEffect_XPos :: u16
  GroundSkillPoseEffect_YPos :: u16
  GroundSkillPoseEffect_StartTime :: u32

definition encode_GroundSkillPoseEffect :: "GroundSkillPoseEffect \<Rightarrow> frame" where
  "encode_GroundSkillPoseEffect r = fill 18
     [put16 0 0x0117, put16 2 (GroundSkillPoseEffect_SKID r), put32 4 (GroundSkillPoseEffect_AID r),
      put16 8 (GroundSkillPoseEffect_Level r), put16 10 (GroundSkillPoseEffect_XPos r),
      put16 12 (GroundSkillPoseEffect_YPos r), put32 14 (GroundSkillPoseEffect_StartTime r)]"

section \<open>Layouts and round trips\<close>

lemma encode_CZEnterRequest_framed [framings]: "framed 0x0072 19 (encode_CZEnterRequest r)"
  unfolding encode_CZEnterRequest_def by (rule framed_fill) (simp_all add: wire_puts)

lemma encode_CZRequestMoveRequest_framed [framings]: "framed 0x0085 5 (encode_CZRequestMoveRequest r)"
  unfolding encode_CZRequestMoveRequest_def by (rule framed_fill) (simp_all add: wire_puts)

lemma encode_CZRequestTimeRequest_framed [framings]: "framed 0x007e 6 (encode_CZRequestTimeRequest r)"
  unfolding encode_CZRequestTimeRequest_def by (rule framed_fill) (simp_all add: wire_puts)

lemma encode_CZActionRequestRequest_framed [framings]: "framed 0x0089 7 (encode_CZActionRequestRequest r)"
  unfolding encode_CZActionRequestRequest_def by (rule framed_fill) (simp_all add: wire_puts)

lemma encode_CZChangeDirRequest_framed [framings]: "framed 0x009b 5 (encode_CZChangeDirRequest r)"
  unfolding encode_CZChangeDirRequest_def by (rule framed_fill) (simp_all add: wire_puts)

lemma encode_CZReqEmotionRequest_framed [framings]: "framed 0x00bf 3 (encode_CZReqEmotionRequest r)"
  unfolding encode_CZReqEmotionRequest_def by (rule framed_fill) (simp_all add: wire_puts)

lemma encode_CZGetCharNameRequestRequest_framed [framings]: "framed 0x0094 6 (encode_CZGetCharNameRequestRequest r)"
  unfolding encode_CZGetCharNameRequestRequest_def by (rule framed_fill) (simp_all add: wire_puts)

lemma encode_CZRestartRequest_framed [framings]: "framed 0x00b2 3 (encode_CZRestartRequest r)"
  unfolding encode_CZRestartRequest_def by (rule framed_fill) (simp_all add: wire_puts)

lemma encode_CZSkillUpRequest_framed [framings]: "framed 0x0112 4 (encode_CZSkillUpRequest r)"
  unfolding encode_CZSkillUpRequest_def by (rule framed_fill) (simp_all add: wire_puts)

lemma encode_CZContactNPCRequest_framed [framings]: "framed 0x0090 7 (encode_CZContactNPCRequest r)"
  unfolding encode_CZContactNPCRequest_def by (rule framed_fill) (simp_all add: wire_puts)

lemma encode_CZReqNextScriptRequest_framed [framings]: "framed 0x00b9 6 (encode_CZReqNextScriptRequest r)"
  unfolding encode_CZReqNextScriptRequest_def by (rule framed_fill) (simp_all add: wire_puts)

lemma encode_CZCloseDialogRequest_framed [framings]: "framed 0x0146 6 (encode_CZCloseDialogRequest r)"
  unfolding encode_CZCloseDialogRequest_def by (rule framed_fill) (simp_all add: wire_puts)

lemma encode_CZAckSelectDealTypeRequest_framed [framings]: "framed 0x00c5 7 (encode_CZAckSelectDealTypeRequest r)"
  unfolding encode_CZAckSelectDealTypeRequest_def by (rule framed_fill) (simp_all add: wire_puts)

lemma encode_CZStatusChangeRequest_framed [framings]: "framed 0x00bb 5 (encode_CZStatusChangeRequest r)"
  unfolding encode_CZStatusChangeRequest_def by (rule framed_fill) (simp_all add: wire_puts)

lemma encode_CZChooseMenuRequest_framed [framings]: "framed 0x00b8 7 (encode_CZChooseMenuRequest r)"
  unfolding encode_CZChooseMenuRequest_def by (rule framed_fill) (simp_all add: wire_puts)

lemma encode_CZInputEditDlgRequest_framed [framings]: "framed 0x0143 10 (encode_CZInputEditDlgRequest r)"
  unfolding encode_CZInputEditDlgRequest_def by (rule framed_fill) (simp_all add: wire_puts)

lemma encode_CZDropItemRequest_framed [framings]: "framed 0x0363 6 (encode_CZDropItemRequest r)"
  unfolding encode_CZDropItemRequest_def by (rule framed_fill) (simp_all add: wire_puts)

lemma encode_CZUseItemRequest_framed [framings]: "framed 0x0439 8 (encode_CZUseItemRequest r)"
  unfolding encode_CZUseItemRequest_def by (rule framed_fill) (simp_all add: wire_puts)

lemma encode_CZReqWearEquipRequest_framed [framings]: "framed 0x0998 8 (encode_CZReqWearEquipRequest r)"
  unfolding encode_CZReqWearEquipRequest_def by (rule framed_fill) (simp_all add: wire_puts)

lemma encode_CZReqTakeoffEquipRequest_framed [framings]: "framed 0x00ab 4 (encode_CZReqTakeoffEquipRequest r)"
  unfolding encode_CZReqTakeoffEquipRequest_def by (rule framed_fill) (simp_all add: wire_puts)

lemma encode_CZItemPickupRequest_framed [framings]: "framed 0x009f 6 (encode_CZItemPickupRequest r)"
  unfolding encode_CZItemPickupRequest_def by (rule framed_fill) (simp_all add: wire_puts)

lemma encode_CZUseSkillToPos_framed [framings]: "framed 0x0af4 11 (encode_CZUseSkillToPos r)"
  unfolding encode_CZUseSkillToPos_def by (rule framed_fill) (simp_all add: wire_puts)

lemma encode_GroundSkillPoseEffect_framed [framings]: "framed 0x0117 18 (encode_GroundSkillPoseEffect r)"
  unfolding encode_GroundSkillPoseEffect_def by (rule framed_fill) (simp_all add: wire_puts)

lemma ParseCZEnter_encode: "ParseCZEnter (encode_CZEnterRequest r) = Inr r"
  by (cases r) (simp add: ParseCZEnter_def encode_CZEnterRequest_def of_frame_def wire_reads wire_puts)

lemma ParseCZRequestTime_encode: "ParseCZRequestTime (encode_CZRequestTimeRequest r) = Inr r"
  by (cases r) (simp add: ParseCZRequestTime_def encode_CZRequestTimeRequest_def of_frame_def wire_reads wire_puts)

lemma ParseCZActionRequest_encode: "ParseCZActionRequest (encode_CZActionRequestRequest r) = Inr r"
  by (cases r) (simp add: ParseCZActionRequest_def encode_CZActionRequestRequest_def of_frame_def wire_reads wire_puts)

lemma ParseCZChangeDir_encode: "ParseCZChangeDir (encode_CZChangeDirRequest r) = Inr r"
  by (cases r) (simp add: ParseCZChangeDir_def encode_CZChangeDirRequest_def of_frame_def wire_reads wire_puts)

lemma ParseCZReqEmotion_encode: "ParseCZReqEmotion (encode_CZReqEmotionRequest r) = Inr r"
  by (cases r) (simp add: ParseCZReqEmotion_def encode_CZReqEmotionRequest_def of_frame_def wire_reads wire_puts)

lemma ParseCZGetCharNameRequest_encode: "ParseCZGetCharNameRequest (encode_CZGetCharNameRequestRequest r) = Inr r"
  by (cases r) (simp add: ParseCZGetCharNameRequest_def encode_CZGetCharNameRequestRequest_def of_frame_def wire_reads wire_puts)

lemma ParseCZRestart_encode: "ParseCZRestart (encode_CZRestartRequest r) = Inr r"
  by (cases r) (simp add: ParseCZRestart_def encode_CZRestartRequest_def of_frame_def wire_reads wire_puts)

lemma ParseCZContactNPC_encode: "ParseCZContactNPC (encode_CZContactNPCRequest r) = Inr r"
  by (cases r) (simp add: ParseCZContactNPC_def encode_CZContactNPCRequest_def of_frame_def wire_reads wire_puts)

lemma ParseCZReqNextScript_encode: "ParseCZReqNextScript (encode_CZReqNextScriptRequest r) = Inr r"
  by (cases r) (simp add: ParseCZReqNextScript_def encode_CZReqNextScriptRequest_def of_frame_def wire_reads wire_puts)

lemma ParseCZCloseDialog_encode: "ParseCZCloseDialog (encode_CZCloseDialogRequest r) = Inr r"
  by (cases r) (simp add: ParseCZCloseDialog_def encode_CZCloseDialogRequest_def of_frame_def wire_reads wire_puts)

lemma ParseCZAckSelectDealType_encode: "ParseCZAckSelectDealType (encode_CZAckSelectDealTypeRequest r) = Inr r"
  by (cases r) (simp add: ParseCZAckSelectDealType_def encode_CZAckSelectDealTypeRequest_def of_frame_def wire_reads wire_puts)

lemma ParseCZStatusChange_encode: "ParseCZStatusChange (encode_CZStatusChangeRequest r) = Inr r"
  by (cases r) (simp add: ParseCZStatusChange_def encode_CZStatusChangeRequest_def of_frame_def wire_reads wire_puts)

lemma ParseCZChooseMenu_encode: "ParseCZChooseMenu (encode_CZChooseMenuRequest r) = Inr r"
  by (cases r) (simp add: ParseCZChooseMenu_def encode_CZChooseMenuRequest_def of_frame_def wire_reads wire_puts)

lemma ParseCZInputEditDlg_encode: "ParseCZInputEditDlg (encode_CZInputEditDlgRequest r) = Inr r"
  by (cases r) (simp add: ParseCZInputEditDlg_def encode_CZInputEditDlgRequest_def of_frame_def wire_reads wire_puts)

lemma ParseCZDropItem_encode: "ParseCZDropItem (encode_CZDropItemRequest r) = Inr r"
  by (cases r) (simp add: ParseCZDropItem_def encode_CZDropItemRequest_def of_exact_def wire_reads wire_puts)

lemma ParseCZUseItem_encode: "ParseCZUseItem (encode_CZUseItemRequest r) = Inr r"
  by (cases r) (simp add: ParseCZUseItem_def encode_CZUseItemRequest_def of_frame_def wire_reads wire_puts)

lemma ParseCZReqWearEquip_encode: "ParseCZReqWearEquip (encode_CZReqWearEquipRequest r) = Inr r"
  by (cases r) (simp add: ParseCZReqWearEquip_def encode_CZReqWearEquipRequest_def of_frame_def wire_reads wire_puts)

lemma ParseCZReqTakeoffEquip_encode: "ParseCZReqTakeoffEquip (encode_CZReqTakeoffEquipRequest r) = Inr r"
  by (cases r) (simp add: ParseCZReqTakeoffEquip_def encode_CZReqTakeoffEquipRequest_def of_frame_def wire_reads wire_puts)

lemma ParseCZUseSkillToPos_encode: "ParseCZUseSkillToPos (encode_CZUseSkillToPos r) = Inr r"
  by (cases r) (simp add: ParseCZUseSkillToPos_def encode_CZUseSkillToPos_def of_frame_def wire_reads wire_puts)

text \<open>Frames of variable length; \<open>rest\<close> is whatever follows in the buffer. A position keeps ten bits.\<close>

lemma ParseCZRequestMove_encode:
  "ParseCZRequestMove (encode_CZRequestMoveRequest r) =
     Inr \<lparr>CZRequestMoveRequest_DestX = CZRequestMoveRequest_DestX r AND 0x3ff,
          CZRequestMoveRequest_DestY = CZRequestMoveRequest_DestY r AND 0x3ff\<rparr>"
  by (simp add: ParseCZRequestMove_def encode_CZRequestMoveRequest_def of_frame_def wire_reads wire_puts decode_encodePos)

lemma ParseCZGlobalMessage_encode:
  assumes "encode_CZGlobalMessageRequest r = Inr f" and "CHR 0x00 \<notin> set (CZGlobalMessageRequest_Message r)"
  shows "ParseCZGlobalMessage (f @ rest) = Inr r"
proof -
  have f: "f = wrapped_frame 0x008c (bytes_of (CZGlobalMessageRequest_Message r) @ [0])"
    and l: "4 + length (bytes_of (CZGlobalMessageRequest_Message r) @ [0 :: byte]) < 65536"
    using assms(1) by (auto simp: encode_CZGlobalMessageRequest_def dest!: var_frame_Inr)
  show ?thesis
    using wrapped_length_field [OF l] assms(2)
    by (cases r) (simp add: f ParseCZGlobalMessage_def u16_at_append u16_at_wrapped(1) slice_append 
      slice_def drop_wrapped cstr_text Let_def)
qed

lemma ParseCZWhisper_encode:
  assumes "encode_CZWhisperRequest r = Inr f"
    and "fits 24 (CZWhisperRequest_TargetNick r)" and "CHR 0x00 \<notin> set (CZWhisperRequest_Message r)"
  shows "ParseCZWhisper (f @ rest) = Inr r"
proof -
  let ?b = "pad 24 (bytes_of (CZWhisperRequest_TargetNick r)) @ bytes_of (CZWhisperRequest_Message r) @ [0 :: byte]"
  have f: "f = wrapped_frame 0x0096 ?b" and l: "4 + length ?b < 65536"
    using assms(1) by (auto simp: encode_CZWhisperRequest_def dest!: var_frame_Inr)
  show ?thesis
    using wrapped_length_field [OF l] assms(2,3)
    by (cases r) (simp add: f ParseCZWhisper_def u16_at_append u16_at_wrapped(1) slice_append
      slice_def drop_wrapped drop_wrapped_add cstr_pad cstr_text Let_def)
qed

lemma ParseCZPCPurchaseItemList_encode:
  assumes "encode_CZPCPurchaseItemListRequest r = Inr f"
  shows "ParseCZPCPurchaseItemList f = Inr r"
proof -
  let ?es = "CZPCPurchaseItemListRequest_Entries r"
  let ?enc = "encode_CZPCPurchaseItemListEntry"
  have k: "length (?enc e) = 6" for e
    by (simp add: encode_CZPCPurchaseItemListEntry_def)
  have f: "f = wrapped_frame 0x00c8 (concat (map ?enc ?es))"
    using assms by (auto simp: encode_CZPCPurchaseItemListRequest_def dest!: var_frame_Inr)
  have d: "CZPCPurchaseItemListEntry_at f (4 + i * 6) = CZPCPurchaseItemListEntry_at (slice (i * 6) 6 (concat (map ?enc ?es))) 0" for i
    by (simp add: CZPCPurchaseItemListEntry_at_def f at_slice at_wrapped add.commute)
  have "CZPCPurchaseItemListEntry_at (?enc e) 0 = e" for e
    by (simp add: CZPCPurchaseItemListEntry_at_def encode_CZPCPurchaseItemListEntry_def u32_at_def u16_at_def slice_def)
  then have "map (\<lambda>i. CZPCPurchaseItemListEntry_at f (4 + i * 6)) [0..<length ?es] = ?es"
    unfolding d using map_chunks [of ?enc 6 "\<lambda>b. CZPCPurchaseItemListEntry_at b 0" ?es] k by simp
  then show ?thesis
    by (simp add: f ParseCZPCPurchaseItemList_def u16_at_wrapped length_concat_map [OF k] Let_def)
qed

lemma ParseCZPCSellItemList_encode:
  assumes "encode_CZPCSellItemListRequest r = Inr f"
  shows "ParseCZPCSellItemList f = Inr r"
proof -
  let ?es = "CZPCSellItemListRequest_Entries r"
  let ?enc = "encode_CZPCSellItemListEntry"
  have k: "length (?enc e) = 4" for e
    by (simp add: encode_CZPCSellItemListEntry_def)
  have f: "f = wrapped_frame 0x00c9 (concat (map ?enc ?es))"
    using assms by (auto simp: encode_CZPCSellItemListRequest_def dest!: var_frame_Inr)
  have d: "CZPCSellItemListEntry_at f (4 + i * 4) = CZPCSellItemListEntry_at (slice (i * 4) 4 (concat (map ?enc ?es))) 0" for i
    by (simp add: CZPCSellItemListEntry_at_def f at_slice at_wrapped add.commute)
  have "CZPCSellItemListEntry_at (?enc e) 0 = e" for e
    by (simp add: CZPCSellItemListEntry_at_def encode_CZPCSellItemListEntry_def u32_at_def u16_at_def slice_def)
  then have "map (\<lambda>i. CZPCSellItemListEntry_at f (4 + i * 4)) [0..<length ?es] = ?es"
    unfolding d using map_chunks [of ?enc 4 "\<lambda>b. CZPCSellItemListEntry_at b 0" ?es] k by simp
  then show ?thesis
    by (simp add: f ParseCZPCSellItemList_def u16_at_wrapped length_concat_map [OF k] Let_def)
qed

lemma ParseCZInputEditDlgStr_encode:
  assumes "CZInputEditDlgStrRequest_Value r \<noteq> []" and "length (CZInputEditDlgStrRequest_Value r) \<le> 70"
    and "CHR 0x00 \<notin> set (CZInputEditDlgStrRequest_Value r)"
  shows "ParseCZInputEditDlgStr (encode_CZInputEditDlgStrRequest r @ rest) = Inr r"
proof -
  let ?v = "CZInputEditDlgStrRequest_Value r"
  let ?b = "le32 (CZInputEditDlgStrRequest_NpcID r) @ bytes_of ?v @ [0]"
  have l: "4 + length ?b < 65536"
    using assms(2) by simp
  have "trim_nul (bytes_of ?v @ [0]) = bytes_of ?v"
    using trim_nul_text [OF assms(3), of 1] by (simp add: zeros_def)
  then show ?thesis
    using wrapped_length_field [OF l] assms
    by (cases r) (simp add: ParseCZInputEditDlgStr_def encode_CZInputEditDlgStrRequest_def u16_at_append u16_at_wrapped(1)
      slice_append slice_def drop_wrapped_add u32_at_def drop_wrapped Let_def)
qed

end
