(* ===== verification/PacketServer.thy ===== *)
theory PacketServer
  imports Wire
begin

text \<open>
  The map server's packets: \<open>map_encode.go\<close>, \<open>map_encode_inventory.go\<close>, \<open>map_encode_skill.go\<close>,
  \<open>map_item_delete.go\<close>, \<open>map_item_drop.go\<close>, \<open>map_skill_usage.go\<close> of \<open>pkg/ro/packet\<close>.
  A record is the Go struct, its fields the struct's with the type's name in front; a signed
  wire integer is the word with the same bits.
\<close>

unbundle bit_operations_syntax

section \<open>\<open>map_encode.go\<close>\<close>

record MapAcceptEnterResponse =
  MapAcceptEnterResponse_StartTime :: u32
  MapAcceptEnterResponse_PosX :: u16
  MapAcceptEnterResponse_PosY :: u16
  MapAcceptEnterResponse_Dir :: byte
  MapAcceptEnterResponse_XSize :: byte
  MapAcceptEnterResponse_YSize :: byte
  MapAcceptEnterResponse_Font :: u16

definition encode_MapAcceptEnterResponse :: "MapAcceptEnterResponse \<Rightarrow> frame" where
  "encode_MapAcceptEnterResponse r = fill 13
     [put16 0 0x02eb, put32 2 (MapAcceptEnterResponse_StartTime r),
      put_pos 6 (MapAcceptEnterResponse_PosX r) (MapAcceptEnterResponse_PosY r) (MapAcceptEnterResponse_Dir r),
      put8 9 (MapAcceptEnterResponse_XSize r), put8 10 (MapAcceptEnterResponse_YSize r),
      put16 11 (MapAcceptEnterResponse_Font r)]"

record MapRefuseEnterResponse =
  MapRefuseEnterResponse_Error :: byte

definition encode_MapRefuseEnterResponse :: "MapRefuseEnterResponse \<Rightarrow> frame" where
  "encode_MapRefuseEnterResponse r = fill 3
     [put16 0 0x0074, put8 2 (MapRefuseEnterResponse_Error r)]"

record MapMoveResponse =
  MapMoveResponse_MapName :: string
  MapMoveResponse_X :: u16
  MapMoveResponse_Y :: u16

definition encode_MapMoveResponse :: "MapMoveResponse \<Rightarrow> packet_error + frame" where
  "encode_MapMoveResponse r = (if length (MapMoveResponse_MapName r) > 16 then Inl ErrMapNameTooLong else Inr (fill 22
     [put16 0 0x0091, writeFixedString 2 16 (MapMoveResponse_MapName r), put16 18 (MapMoveResponse_X r),
      put16 20 (MapMoveResponse_Y r)]))"

record MapNotifyPlayerMoveResponse =
  MapNotifyPlayerMoveResponse_MoveStartTime :: u32
  MapNotifyPlayerMoveResponse_SrcX :: u16
  MapNotifyPlayerMoveResponse_SrcY :: u16
  MapNotifyPlayerMoveResponse_DestX :: u16
  MapNotifyPlayerMoveResponse_DestY :: u16

definition encode_MapNotifyPlayerMoveResponse :: "MapNotifyPlayerMoveResponse \<Rightarrow> frame" where
  "encode_MapNotifyPlayerMoveResponse r = fill 12
     [put16 0 0x0087, put32 2 (MapNotifyPlayerMoveResponse_MoveStartTime r),
      put_pos 6 (MapNotifyPlayerMoveResponse_SrcX r) (MapNotifyPlayerMoveResponse_SrcY r) 0,
      put_pos 9 (MapNotifyPlayerMoveResponse_DestX r) (MapNotifyPlayerMoveResponse_DestY r) 0]"

record SpawnUnitResponse =
  SpawnUnitResponse_ObjectType :: byte
  SpawnUnitResponse_AID :: u32
  SpawnUnitResponse_GID :: u32
  SpawnUnitResponse_Speed :: u16
  SpawnUnitResponse_BodyState :: u16
  SpawnUnitResponse_HealthState :: u16
  SpawnUnitResponse_EffectState :: u32
  SpawnUnitResponse_Job :: u16
  SpawnUnitResponse_Head :: u16
  SpawnUnitResponse_Weapon :: u32
  SpawnUnitResponse_Shield :: u32
  SpawnUnitResponse_Accessory :: u16
  SpawnUnitResponse_Accessory2 :: u16
  SpawnUnitResponse_Accessory3 :: u16
  SpawnUnitResponse_HeadPalette :: u16
  SpawnUnitResponse_BodyPalette :: u16
  SpawnUnitResponse_HeadDir :: u16
  SpawnUnitResponse_Robe :: u16
  SpawnUnitResponse_GUID :: u32
  SpawnUnitResponse_GEmblemVer :: u16
  SpawnUnitResponse_Honor :: u16
  SpawnUnitResponse_Virtue :: u32
  SpawnUnitResponse_IsPKModeON :: byte
  SpawnUnitResponse_Sex :: byte
  SpawnUnitResponse_PosX :: u16
  SpawnUnitResponse_PosY :: u16
  SpawnUnitResponse_Dir :: byte
  SpawnUnitResponse_XSize :: byte
  SpawnUnitResponse_YSize :: byte
  SpawnUnitResponse_CLevel :: u16
  SpawnUnitResponse_Font :: u16
  SpawnUnitResponse_MaxHP :: u32
  SpawnUnitResponse_HP :: u32
  SpawnUnitResponse_IsBoss :: byte
  SpawnUnitResponse_Body :: u16
  SpawnUnitResponse_Name :: string

definition encodeSpawnUnitLike :: "u16 \<Rightarrow> SpawnUnitResponse \<Rightarrow> frame" where
  "encodeSpawnUnitLike opcode r = fill 107
     [put16 0 opcode, put16 2 107, put8 4 (SpawnUnitResponse_ObjectType r), put32 5 (SpawnUnitResponse_AID r),
      put32 9 (SpawnUnitResponse_GID r), put16 13 (SpawnUnitResponse_Speed r),
      put16 15 (SpawnUnitResponse_BodyState r), put16 17 (SpawnUnitResponse_HealthState r),
      put32 19 (SpawnUnitResponse_EffectState r), put16 23 (SpawnUnitResponse_Job r),
      put16 25 (SpawnUnitResponse_Head r), put32 27 (SpawnUnitResponse_Weapon r),
      put32 31 (SpawnUnitResponse_Shield r), put16 35 (SpawnUnitResponse_Accessory r),
      put16 37 (SpawnUnitResponse_Accessory2 r), put16 39 (SpawnUnitResponse_Accessory3 r),
      put16 41 (SpawnUnitResponse_HeadPalette r), put16 43 (SpawnUnitResponse_BodyPalette r),
      put16 45 (SpawnUnitResponse_HeadDir r), put16 47 (SpawnUnitResponse_Robe r),
      put32 49 (SpawnUnitResponse_GUID r), put16 53 (SpawnUnitResponse_GEmblemVer r),
      put16 55 (SpawnUnitResponse_Honor r), put32 57 (SpawnUnitResponse_Virtue r),
      put8 61 (SpawnUnitResponse_IsPKModeON r), put8 62 (SpawnUnitResponse_Sex r),
      put_pos 63 (SpawnUnitResponse_PosX r) (SpawnUnitResponse_PosY r) (SpawnUnitResponse_Dir r),
      put8 66 (SpawnUnitResponse_XSize r), put8 67 (SpawnUnitResponse_YSize r),
      put16 68 (SpawnUnitResponse_CLevel r), put16 70 (SpawnUnitResponse_Font r),
      put32 72 (SpawnUnitResponse_MaxHP r), put32 76 (SpawnUnitResponse_HP r),
      put8 80 (SpawnUnitResponse_IsBoss r), put16 81 (SpawnUnitResponse_Body r),
      put_text 83 24 (SpawnUnitResponse_Name r)]"

definition encode_SpawnUnitResponse :: "SpawnUnitResponse \<Rightarrow> frame" where
  "encode_SpawnUnitResponse r = encodeSpawnUnitLike 0x09fe r"

type_synonym SetUnitIdleResponse = SpawnUnitResponse

definition encode_SetUnitIdleResponse :: "SetUnitIdleResponse \<Rightarrow> frame" where
  "encode_SetUnitIdleResponse r = encodeSpawnUnitLike 0x09ff r"

record UnitWalkingResponse =
  UnitWalkingResponse_ObjectType :: byte
  UnitWalkingResponse_AID :: u32
  UnitWalkingResponse_GID :: u32
  UnitWalkingResponse_Speed :: u16
  UnitWalkingResponse_BodyState :: u16
  UnitWalkingResponse_HealthState :: u16
  UnitWalkingResponse_EffectState :: u32
  UnitWalkingResponse_Job :: u16
  UnitWalkingResponse_Head :: u16
  UnitWalkingResponse_Weapon :: u32
  UnitWalkingResponse_Shield :: u32
  UnitWalkingResponse_Accessory :: u16
  UnitWalkingResponse_MoveStartTime :: u32
  UnitWalkingResponse_Accessory2 :: u16
  UnitWalkingResponse_Accessory3 :: u16
  UnitWalkingResponse_HeadPalette :: u16
  UnitWalkingResponse_BodyPalette :: u16
  UnitWalkingResponse_HeadDir :: u16
  UnitWalkingResponse_Robe :: u16
  UnitWalkingResponse_GUID :: u32
  UnitWalkingResponse_GEmblemVer :: u16
  UnitWalkingResponse_Honor :: u16
  UnitWalkingResponse_Virtue :: u32
  UnitWalkingResponse_IsPKModeON :: byte
  UnitWalkingResponse_Sex :: byte
  UnitWalkingResponse_SrcX :: u16
  UnitWalkingResponse_SrcY :: u16
  UnitWalkingResponse_DestX :: u16
  UnitWalkingResponse_DestY :: u16
  UnitWalkingResponse_XSize :: byte
  UnitWalkingResponse_YSize :: byte
  UnitWalkingResponse_CLevel :: u16
  UnitWalkingResponse_Font :: u16
  UnitWalkingResponse_MaxHP :: u32
  UnitWalkingResponse_HP :: u32
  UnitWalkingResponse_IsBoss :: byte
  UnitWalkingResponse_Body :: u16
  UnitWalkingResponse_Name :: string

definition encode_UnitWalkingResponse :: "UnitWalkingResponse \<Rightarrow> frame" where
  "encode_UnitWalkingResponse r = fill 114
     [put16 0 0x09fd, put16 2 114, put8 4 (UnitWalkingResponse_ObjectType r), put32 5 (UnitWalkingResponse_AID r),
      put32 9 (UnitWalkingResponse_GID r), put16 13 (UnitWalkingResponse_Speed r),
      put16 15 (UnitWalkingResponse_BodyState r), put16 17 (UnitWalkingResponse_HealthState r),
      put32 19 (UnitWalkingResponse_EffectState r), put16 23 (UnitWalkingResponse_Job r),
      put16 25 (UnitWalkingResponse_Head r), put32 27 (UnitWalkingResponse_Weapon r),
      put32 31 (UnitWalkingResponse_Shield r), put16 35 (UnitWalkingResponse_Accessory r),
      put32 37 (UnitWalkingResponse_MoveStartTime r), put16 41 (UnitWalkingResponse_Accessory2 r),
      put16 43 (UnitWalkingResponse_Accessory3 r), put16 45 (UnitWalkingResponse_HeadPalette r),
      put16 47 (UnitWalkingResponse_BodyPalette r), put16 49 (UnitWalkingResponse_HeadDir r),
      put16 51 (UnitWalkingResponse_Robe r), put32 53 (UnitWalkingResponse_GUID r),
      put16 57 (UnitWalkingResponse_GEmblemVer r), put16 59 (UnitWalkingResponse_Honor r),
      put32 61 (UnitWalkingResponse_Virtue r), put8 65 (UnitWalkingResponse_IsPKModeON r),
      put8 66 (UnitWalkingResponse_Sex r), put_pos 67 (UnitWalkingResponse_SrcX r) (UnitWalkingResponse_SrcY r) 0,
      put_pos 70 (UnitWalkingResponse_DestX r) (UnitWalkingResponse_DestY r) 0,
      put8 73 (UnitWalkingResponse_XSize r), put8 74 (UnitWalkingResponse_YSize r),
      put16 75 (UnitWalkingResponse_CLevel r), put16 77 (UnitWalkingResponse_Font r),
      put32 79 (UnitWalkingResponse_MaxHP r), put32 83 (UnitWalkingResponse_HP r),
      put8 87 (UnitWalkingResponse_IsBoss r), put16 88 (UnitWalkingResponse_Body r),
      put_text 90 24 (UnitWalkingResponse_Name r)]"

record MapPropertyResponse =
  MapPropertyResponse_PropertyType :: u16
  MapPropertyResponse_Flags :: u32

definition encode_MapPropertyResponse :: "MapPropertyResponse \<Rightarrow> frame" where
  "encode_MapPropertyResponse r = fill 8
     [put16 0 0x099b, put16 2 (MapPropertyResponse_PropertyType r), put32 4 (MapPropertyResponse_Flags r)]"

record NotifyTimeResponse =
  NotifyTimeResponse_Time :: u32

definition encode_NotifyTimeResponse :: "NotifyTimeResponse \<Rightarrow> frame" where
  "encode_NotifyTimeResponse r = fill 6
     [put16 0 0x007f, put32 2 (NotifyTimeResponse_Time r)]"

record RestartAckResponse =
  RestartAckResponse_Type :: byte

definition encode_RestartAckResponse :: "RestartAckResponse \<Rightarrow> frame" where
  "encode_RestartAckResponse r = fill 3
     [put16 0 0x00b3, put8 2 (RestartAckResponse_Type r)]"

record StatusResponse =
  StatusResponse_StatusPoint :: u16
  StatusResponse_Str :: byte
  StatusResponse_NeedStr :: byte
  StatusResponse_Agi :: byte
  StatusResponse_NeedAgi :: byte
  StatusResponse_Vit :: byte
  StatusResponse_NeedVit :: byte
  StatusResponse_Int :: byte
  StatusResponse_NeedInt :: byte
  StatusResponse_Dex :: byte
  StatusResponse_NeedDex :: byte
  StatusResponse_Luk :: byte
  StatusResponse_NeedLuk :: byte
  StatusResponse_Atk1 :: u16
  StatusResponse_Atk2 :: u16
  StatusResponse_MatkMax :: u16
  StatusResponse_MatkMin :: u16
  StatusResponse_Def1 :: u16
  StatusResponse_Def2 :: u16
  StatusResponse_Mdef1 :: u16
  StatusResponse_Mdef2 :: u16
  StatusResponse_Hit :: u16
  StatusResponse_Flee :: u16
  StatusResponse_Flee2 :: u16
  StatusResponse_Critical :: u16
  StatusResponse_ASPD :: u16
  StatusResponse_PlusASPD :: u16

definition encode_StatusResponse :: "StatusResponse \<Rightarrow> frame" where
  "encode_StatusResponse r = fill 44
     [put16 0 0x00bd, put16 2 (StatusResponse_StatusPoint r), put8 4 (StatusResponse_Str r),
      put8 5 (StatusResponse_NeedStr r), put8 6 (StatusResponse_Agi r), put8 7 (StatusResponse_NeedAgi r),
      put8 8 (StatusResponse_Vit r), put8 9 (StatusResponse_NeedVit r), put8 10 (StatusResponse_Int r),
      put8 11 (StatusResponse_NeedInt r), put8 12 (StatusResponse_Dex r), put8 13 (StatusResponse_NeedDex r),
      put8 14 (StatusResponse_Luk r), put8 15 (StatusResponse_NeedLuk r), put16 16 (StatusResponse_Atk1 r),
      put16 18 (StatusResponse_Atk2 r), put16 20 (StatusResponse_MatkMax r), put16 22 (StatusResponse_MatkMin r),
      put16 24 (StatusResponse_Def1 r), put16 26 (StatusResponse_Def2 r), put16 28 (StatusResponse_Mdef1 r),
      put16 30 (StatusResponse_Mdef2 r), put16 32 (StatusResponse_Hit r), put16 34 (StatusResponse_Flee r),
      put16 36 (StatusResponse_Flee2 r), put16 38 (StatusResponse_Critical r), put16 40 (StatusResponse_ASPD r),
      put16 42 (StatusResponse_PlusASPD r)]"

record ParChangeResponse =
  ParChangeResponse_VarID :: u16
  ParChangeResponse_Count :: u32

definition encode_ParChangeResponse :: "ParChangeResponse \<Rightarrow> frame" where
  "encode_ParChangeResponse r = fill 8
     [put16 0 0x00b0, put16 2 (ParChangeResponse_VarID r), put32 4 (ParChangeResponse_Count r)]"

record LongParChangeResponse =
  LongParChangeResponse_VarID :: u16
  LongParChangeResponse_Amount :: u32

definition encode_LongParChangeResponse :: "LongParChangeResponse \<Rightarrow> frame" where
  "encode_LongParChangeResponse r = fill 8
     [put16 0 0x00b1, put16 2 (LongParChangeResponse_VarID r), put32 4 (LongParChangeResponse_Amount r)]"

record LongLongParChangeResponse =
  LongLongParChangeResponse_VarID :: u16
  LongLongParChangeResponse_Amount :: u64

definition encode_LongLongParChangeResponse :: "LongLongParChangeResponse \<Rightarrow> frame" where
  "encode_LongLongParChangeResponse r = fill 12
     [put16 0 0x0acb, put16 2 (LongLongParChangeResponse_VarID r), put64 4 (LongLongParChangeResponse_Amount r)]"

definition emptyInventoryListNormal :: frame where
  "emptyInventoryListNormal = fill 5 [put16 0 0x0b09, put16 2 5, put8 4 0]"

definition emptyInventoryListEquip :: frame where
  "emptyInventoryListEquip = fill 5 [put16 0 0x0b39, put16 2 5, put8 4 0]"

definition emptySkillList :: frame where
  "emptySkillList = fill 4 [put16 0 0x010f, put16 2 4]"

definition emptyHotkeyListTab :: "nat \<Rightarrow> frame" where
  "emptyHotkeyListTab tab = fill 271 [put16 0 0x0b20, put16 3 (of_nat tab)]"

definition EncodeEmptyInventoryListNormal :: frame where
  "EncodeEmptyInventoryListNormal = emptyInventoryListNormal"

definition EncodeEmptyInventoryListEquip :: frame where
  "EncodeEmptyInventoryListEquip = emptyInventoryListEquip"

definition EncodeEmptySkillList :: frame where
  "EncodeEmptySkillList = emptySkillList"

definition EncodeEmptyHotkeyList :: "int \<Rightarrow> frame" where
  "EncodeEmptyHotkeyList tab = (if tab \<noteq> 0 \<and> tab \<noteq> 1 then emptyHotkeyListTab 0 else emptyHotkeyListTab (nat tab))"

definition inventoryStartFrame :: frame where
  "inventoryStartFrame = fill 6 [put16 0 0x0b08, put16 2 6, put8 4 0, put8 5 0]"

definition inventoryEndFrame :: frame where
  "inventoryEndFrame = fill 4 [put16 0 0x0b0b, put8 2 0, put8 3 0]"

definition EncodeInventoryStart :: frame where
  "EncodeInventoryStart = inventoryStartFrame"

definition EncodeInventoryEnd :: frame where
  "EncodeInventoryEnd = inventoryEndFrame"

record NotifyChatResponse =
  NotifyChatResponse_GID :: u32
  NotifyChatResponse_Message :: string

definition encode_NotifyChatResponse :: "NotifyChatResponse \<Rightarrow> packet_error + frame" where
  "encode_NotifyChatResponse r = var_frame 0x008d (le32 (NotifyChatResponse_GID r) @ bytes_of (NotifyChatResponse_Message r) @ [0])"

record ZCWhisperResponse =
  ZCWhisperResponse_SenderGID :: u32
  ZCWhisperResponse_SenderName :: string
  ZCWhisperResponse_IsAdmin :: byte
  ZCWhisperResponse_Message :: string

definition encode_ZCWhisperResponse :: "ZCWhisperResponse \<Rightarrow> packet_error + frame" where
  "encode_ZCWhisperResponse r = var_frame 0x09de (le32 (ZCWhisperResponse_SenderGID r) @ pad 24 (bytes_of (ZCWhisperResponse_SenderName r))
       @ [ZCWhisperResponse_IsAdmin r] @ bytes_of (ZCWhisperResponse_Message r) @ [0])"

record ZCAckWhisperResponse =
  ZCAckWhisperResponse_Result :: byte
  ZCAckWhisperResponse_CID :: u32

definition encode_ZCAckWhisperResponse :: "ZCAckWhisperResponse \<Rightarrow> frame" where
  "encode_ZCAckWhisperResponse r = fill 7
     [put16 0 0x09df, put8 2 (ZCAckWhisperResponse_Result r), put32 3 (ZCAckWhisperResponse_CID r)]"

record ZCStatusChangeAck =
  ZCStatusChangeAck_StatusID :: u16
  ZCStatusChangeAck_Result :: byte
  ZCStatusChangeAck_Value :: byte

definition encode_ZCStatusChangeAck :: "ZCStatusChangeAck \<Rightarrow> frame" where
  "encode_ZCStatusChangeAck r = fill 6
     [put16 0 0x00bc, put16 2 (ZCStatusChangeAck_StatusID r), put8 4 (ZCStatusChangeAck_Result r),
      put8 5 (ZCStatusChangeAck_Value r)]"

record ZCNotifyEffect =
  ZCNotifyEffect_AID :: u32
  ZCNotifyEffect_EffectID :: u32

definition encode_ZCNotifyEffect :: "ZCNotifyEffect \<Rightarrow> frame" where
  "encode_ZCNotifyEffect r = fill 10
     [put16 0 0x019b, put32 2 (ZCNotifyEffect_AID r), put32 6 (ZCNotifyEffect_EffectID r)]"

record ActionResponse =
  ActionResponse_GID :: u32
  ActionResponse_Action :: byte
  ActionResponse_TargetGID :: u32

definition encode_ActionResponse :: "ActionResponse \<Rightarrow> frame" where
  "encode_ActionResponse r = fill 11
     [put16 0 0x008b, put32 2 (ActionResponse_GID r), put8 6 (ActionResponse_Action r),
      put32 7 (ActionResponse_TargetGID r)]"

record ChangeDirResponse =
  ChangeDirResponse_SrcID :: u32
  ChangeDirResponse_HeadDir :: u16
  ChangeDirResponse_Dir :: byte

definition encode_ChangeDirResponse :: "ChangeDirResponse \<Rightarrow> frame" where
  "encode_ChangeDirResponse r = fill 9
     [put16 0 0x009c, put32 2 (ChangeDirResponse_SrcID r), put16 6 (ChangeDirResponse_HeadDir r),
      put8 8 (ChangeDirResponse_Dir r)]"

record EmotionResponse =
  EmotionResponse_GID :: u32
  EmotionResponse_Type :: byte

definition encode_EmotionResponse :: "EmotionResponse \<Rightarrow> frame" where
  "encode_EmotionResponse r = fill 7
     [put16 0 0x00c0, put32 2 (EmotionResponse_GID r), put8 6 (EmotionResponse_Type r)]"

record SpriteChangeResponse =
  SpriteChangeResponse_GID :: u32
  SpriteChangeResponse_Type :: byte
  SpriteChangeResponse_Val :: u32
  SpriteChangeResponse_Val2 :: u32

definition encode_SpriteChangeResponse :: "SpriteChangeResponse \<Rightarrow> frame" where
  "encode_SpriteChangeResponse r = fill 15
     [put16 0 0x01d7, put32 2 (SpriteChangeResponse_GID r), put8 6 (SpriteChangeResponse_Type r),
      put32 7 (SpriteChangeResponse_Val r), put32 11 (SpriteChangeResponse_Val2 r)]"

record AckReqNameResponse =
  AckReqNameResponse_GID :: u32
  AckReqNameResponse_Name :: string

definition encode_AckReqNameResponse :: "AckReqNameResponse \<Rightarrow> frame" where
  "encode_AckReqNameResponse r = fill 30
     [put16 0 0x0095, put32 2 (AckReqNameResponse_GID r), put_text 6 24 (AckReqNameResponse_Name r)]"

record ReqNameAll2Response =
  ReqNameAll2Response_GID :: u32
  ReqNameAll2Response_Name :: string
  ReqNameAll2Response_PartyName :: string
  ReqNameAll2Response_GuildName :: string
  ReqNameAll2Response_PositionName :: string
  ReqNameAll2Response_TitleID :: u32

definition encode_ReqNameAll2Response :: "ReqNameAll2Response \<Rightarrow> frame" where
  "encode_ReqNameAll2Response r = fill 106
     [put16 0 0x0a30, put32 2 (ReqNameAll2Response_GID r), writeNameField 6 (ReqNameAll2Response_Name r),
      writeNameField 30 (ReqNameAll2Response_PartyName r), writeNameField 54 (ReqNameAll2Response_GuildName r),
      writeNameField 78 (ReqNameAll2Response_PositionName r), put32 102 (ReqNameAll2Response_TitleID r)]"

record ReqNameAllNPCResponse =
  ReqNameAllNPCResponse_GID :: u32
  ReqNameAllNPCResponse_GroupID :: u32
  ReqNameAllNPCResponse_Name :: string
  ReqNameAllNPCResponse_Title :: string

definition encode_ReqNameAllNPCResponse :: "ReqNameAllNPCResponse \<Rightarrow> frame" where
  "encode_ReqNameAllNPCResponse r = fill 58
     [put16 0 0x0adf, put32 2 (ReqNameAllNPCResponse_GID r), put32 6 (ReqNameAllNPCResponse_GroupID r),
      writeNameField 10 (ReqNameAllNPCResponse_Name r), writeNameField 34 (ReqNameAllNPCResponse_Title r)]"

record SayDialog2Response =
  SayDialog2Response_NpcID :: u32
  SayDialog2Response_Type :: byte
  SayDialog2Response_Message :: string

definition encode_SayDialog2Response :: "SayDialog2Response \<Rightarrow> packet_error + frame" where
  "encode_SayDialog2Response r = var_frame 0x0972 (le32 (SayDialog2Response_NpcID r) @ [SayDialog2Response_Type r] @ bytes_of (SayDialog2Response_Message r) @ [0])"

record WaitDialog2Response =
  WaitDialog2Response_NpcID :: u32
  WaitDialog2Response_Type :: byte

definition encode_WaitDialog2Response :: "WaitDialog2Response \<Rightarrow> frame" where
  "encode_WaitDialog2Response r = fill 7
     [put16 0 0x0973, put32 2 (WaitDialog2Response_NpcID r), put8 6 (WaitDialog2Response_Type r)]"

record CloseDialogResponse =
  CloseDialogResponse_NpcID :: u32

record MenuListResponse =
  MenuListResponse_NpcID :: u32
  MenuListResponse_Items :: string

definition encode_MenuListResponse :: "MenuListResponse \<Rightarrow> packet_error + frame" where
  "encode_MenuListResponse r = var_frame 0x00b7 (le32 (MenuListResponse_NpcID r) @ bytes_of (MenuListResponse_Items r) @ [0])"

definition encode_CloseDialogResponse :: "CloseDialogResponse \<Rightarrow> frame" where
  "encode_CloseDialogResponse r = fill 6
     [put16 0 0x00b6, put32 2 (CloseDialogResponse_NpcID r)]"

record OpenEditDlgResponse =
  OpenEditDlgResponse_NpcID :: u32

definition encode_OpenEditDlgResponse :: "OpenEditDlgResponse \<Rightarrow> frame" where
  "encode_OpenEditDlgResponse r = fill 6
     [put16 0 0x0142, put32 2 (OpenEditDlgResponse_NpcID r)]"

record OpenEditDlgStrResponse =
  OpenEditDlgStrResponse_NpcID :: u32

definition encode_OpenEditDlgStrResponse :: "OpenEditDlgStrResponse \<Rightarrow> frame" where
  "encode_OpenEditDlgStrResponse r = fill 6
     [put16 0 0x01d4, put32 2 (OpenEditDlgStrResponse_NpcID r)]"

record SelectDealtypeResponse =
  SelectDealtypeResponse_NpcID :: u32

definition encode_SelectDealtypeResponse :: "SelectDealtypeResponse \<Rightarrow> frame" where
  "encode_SelectDealtypeResponse r = fill 6
     [put16 0 0x00c4, put32 2 (SelectDealtypeResponse_NpcID r)]"

record ShopBuyItem =
  ShopBuyItem_ItemID :: u32
  ShopBuyItem_Price :: u32
  ShopBuyItem_DiscountPrice :: u32
  ShopBuyItem_ItemType :: byte
  ShopBuyItem_ViewSprite :: u16
  ShopBuyItem_Location :: u32

record PurchaseItemListResponse =
  PurchaseItemListResponse_Items :: "ShopBuyItem list"

definition encode_ShopBuyItem :: "ShopBuyItem \<Rightarrow> frame" where
  "encode_ShopBuyItem it =
     le32 (ShopBuyItem_ItemID it) @ le32 (ShopBuyItem_Price it) @ le32 (ShopBuyItem_DiscountPrice it)
       @ [ShopBuyItem_ItemType it] @ le16 (ShopBuyItem_ViewSprite it) @ le32 (ShopBuyItem_Location it)"

definition encode_PurchaseItemListResponse :: "PurchaseItemListResponse \<Rightarrow> packet_error + frame" where
  "encode_PurchaseItemListResponse r = var_frame 0x0b77 (concat (map encode_ShopBuyItem (PurchaseItemListResponse_Items r)))"

record PurchaseResultResponse =
  PurchaseResultResponse_Result :: byte

definition encode_PurchaseResultResponse :: "PurchaseResultResponse \<Rightarrow> frame" where
  "encode_PurchaseResultResponse r = fill 3
     [put16 0 0x00ca, put8 2 (PurchaseResultResponse_Result r)]"

record NotifyActResponse =
  NotifyActResponse_SrcID :: u32
  NotifyActResponse_TargetID :: u32
  NotifyActResponse_ServerTick :: u32
  NotifyActResponse_SrcSpeed :: u32
  NotifyActResponse_DmgSpeed :: u32
  NotifyActResponse_Damage :: u32
  NotifyActResponse_IsSPDamage :: byte
  NotifyActResponse_Div :: u16
  NotifyActResponse_Type :: byte
  NotifyActResponse_Damage2 :: u32

definition encode_NotifyActResponse :: "NotifyActResponse \<Rightarrow> frame" where
  "encode_NotifyActResponse r = fill 34
     [put16 0 0x08c8, put32 2 (NotifyActResponse_SrcID r), put32 6 (NotifyActResponse_TargetID r),
      put32 10 (NotifyActResponse_ServerTick r), put32 14 (NotifyActResponse_SrcSpeed r),
      put32 18 (NotifyActResponse_DmgSpeed r), put32 22 (NotifyActResponse_Damage r),
      put8 26 (NotifyActResponse_IsSPDamage r), put16 27 (NotifyActResponse_Div r),
      put8 29 (NotifyActResponse_Type r), put32 30 (NotifyActResponse_Damage2 r)]"

record NotifyVanishResponse =
  NotifyVanishResponse_GID :: u32
  NotifyVanishResponse_Type :: byte

definition encode_NotifyVanishResponse :: "NotifyVanishResponse \<Rightarrow> frame" where
  "encode_NotifyVanishResponse r = fill 7
     [put16 0 0x0080, put32 2 (NotifyVanishResponse_GID r), put8 6 (NotifyVanishResponse_Type r)]"

record ShopSellItem =
  ShopSellItem_Index :: u16
  ShopSellItem_Price :: u32
  ShopSellItem_Overcharge :: u32

record SellItemListResponse =
  SellItemListResponse_Items :: "ShopSellItem list"

definition encode_ShopSellItem :: "ShopSellItem \<Rightarrow> frame" where
  "encode_ShopSellItem it =
     le16 (ShopSellItem_Index it) @ le32 (ShopSellItem_Price it) @ le32 (ShopSellItem_Overcharge it)"

definition encode_SellItemListResponse :: "SellItemListResponse \<Rightarrow> packet_error + frame" where
  "encode_SellItemListResponse r = var_frame 0x00c7 (concat (map encode_ShopSellItem (SellItemListResponse_Items r)))"

record SellResultResponse =
  SellResultResponse_Result :: byte

definition encode_SellResultResponse :: "SellResultResponse \<Rightarrow> frame" where
  "encode_SellResultResponse r = fill 3
     [put16 0 0x00cb, put8 2 (SellResultResponse_Result r)]"

record ZCSettingWhisperPCResponse =
  ZCSettingWhisperPCResponse_Type :: byte
  ZCSettingWhisperPCResponse_Result :: byte

definition encode_ZCSettingWhisperPCResponse :: "ZCSettingWhisperPCResponse \<Rightarrow> frame" where
  "encode_ZCSettingWhisperPCResponse r = fill 4
     [put16 0 0x00d1, put8 2 (ZCSettingWhisperPCResponse_Type r), put8 3 (ZCSettingWhisperPCResponse_Result r)]"

record ZCSettingWhisperStateResponse =
  ZCSettingWhisperStateResponse_Type :: byte
  ZCSettingWhisperStateResponse_Result :: byte

definition encode_ZCSettingWhisperStateResponse :: "ZCSettingWhisperStateResponse \<Rightarrow> frame" where
  "encode_ZCSettingWhisperStateResponse r = fill 4
     [put16 0 0x00d2, put8 2 (ZCSettingWhisperStateResponse_Type r), put8 3 (ZCSettingWhisperStateResponse_Result r)]"

record ZCWhisperListResponse =
  ZCWhisperListResponse_Names :: "string list"

definition encode_ZCWhisperListResponse :: "ZCWhisperListResponse \<Rightarrow> frame" where
  "encode_ZCWhisperListResponse r = wrapped_frame 0x00d4 (concat (map (\<lambda>n. pad 24 (bytes_of n)) (ZCWhisperListResponse_Names r)))"

section \<open>\<open>map_encode_inventory.go\<close>\<close>

record InventoryNormalItem =
  InventoryNormalItem_Index :: u16
  InventoryNormalItem_ITID :: u16
  InventoryNormalItem_Type :: byte
  InventoryNormalItem_Count :: u16
  InventoryNormalItem_WearState :: u32
  InventoryNormalItem_Card :: "u16 list"
  InventoryNormalItem_HireExpireDate :: u32
  InventoryNormalItem_BindOnEquipType :: u16
  InventoryNormalItem_Flag :: byte

record ItemOption =
  ItemOption_Index :: u16
  ItemOption_Value :: u16
  ItemOption_Param :: byte

record InventoryEquipItem =
  InventoryEquipItem_Index :: u16
  InventoryEquipItem_ITID :: u16
  InventoryEquipItem_Type :: byte
  InventoryEquipItem_Location :: u32
  InventoryEquipItem_WearState :: u32
  InventoryEquipItem_RefiningLevel :: byte
  InventoryEquipItem_Card :: "u16 list"
  InventoryEquipItem_HireExpireDate :: u32
  InventoryEquipItem_BindOnEquipType :: u16
  InventoryEquipItem_ItemSpriteNumber :: u16
  InventoryEquipItem_OptionCount :: byte
  InventoryEquipItem_OptionData :: "ItemOption list"
  InventoryEquipItem_Flag :: byte

definition writeNormalItem :: "InventoryNormalItem \<Rightarrow> frame" where
  "writeNormalItem it = fill 26
     [put16 0 (InventoryNormalItem_Index it), put16 2 (InventoryNormalItem_ITID it), put8 4 (InventoryNormalItem_Type it),
      put16 5 (InventoryNormalItem_Count it), put32 7 (InventoryNormalItem_WearState it),
      (11, concat (map le16 (InventoryNormalItem_Card it))), put32 19 (InventoryNormalItem_HireExpireDate it),
      put16 23 (InventoryNormalItem_BindOnEquipType it), put8 25 (InventoryNormalItem_Flag it)]"

definition encode_ItemOption :: "ItemOption \<Rightarrow> frame" where
  "encode_ItemOption opt = le16 (ItemOption_Index opt) @ le16 (ItemOption_Value opt) @ [ItemOption_Param opt]"

definition writeEquipItem :: "InventoryEquipItem \<Rightarrow> frame" where
  "writeEquipItem it = fill 57
     [put16 0 (InventoryEquipItem_Index it), put16 2 (InventoryEquipItem_ITID it), put8 4 (InventoryEquipItem_Type it),
      put32 5 (InventoryEquipItem_Location it), put32 9 (InventoryEquipItem_WearState it),
      put8 13 (InventoryEquipItem_RefiningLevel it), (14, concat (map le16 (InventoryEquipItem_Card it))),
      put32 22 (InventoryEquipItem_HireExpireDate it), put16 26 (InventoryEquipItem_BindOnEquipType it),
      put16 28 (InventoryEquipItem_ItemSpriteNumber it), put8 30 (InventoryEquipItem_OptionCount it),
      (31, concat (map encode_ItemOption (InventoryEquipItem_OptionData it))), put8 56 (InventoryEquipItem_Flag it)]"

record InventoryListNormalResponse =
  InventoryListNormalResponse_Items :: "InventoryNormalItem list"

definition encode_InventoryListNormalResponse :: "InventoryListNormalResponse \<Rightarrow> packet_error + frame" where
  "encode_InventoryListNormalResponse r = var_frame 0x0b09 ([0] @ concat (map writeNormalItem (InventoryListNormalResponse_Items r)))"

record InventoryListEquipResponse =
  InventoryListEquipResponse_Items :: "InventoryEquipItem list"

definition encode_InventoryListEquipResponse :: "InventoryListEquipResponse \<Rightarrow> packet_error + frame" where
  "encode_InventoryListEquipResponse r = var_frame 0x0b39 ([0] @ concat (map writeEquipItem (InventoryListEquipResponse_Items r)))"

record ReqWearEquipAckResponse =
  ReqWearEquipAckResponse_Index :: u16
  ReqWearEquipAckResponse_WearLocation :: u32
  ReqWearEquipAckResponse_ItemSpriteNumber :: u16
  ReqWearEquipAckResponse_Result :: byte

definition encode_ReqWearEquipAckResponse :: "ReqWearEquipAckResponse \<Rightarrow> frame" where
  "encode_ReqWearEquipAckResponse r = fill 11
     [put16 0 0x0999, put16 2 (ReqWearEquipAckResponse_Index r), put32 4 (ReqWearEquipAckResponse_WearLocation r),
      put16 8 (ReqWearEquipAckResponse_ItemSpriteNumber r), put8 10 (ReqWearEquipAckResponse_Result r)]"

record ReqTakeoffEquipAckResponse =
  ReqTakeoffEquipAckResponse_Index :: u16
  ReqTakeoffEquipAckResponse_WearLocation :: u32
  ReqTakeoffEquipAckResponse_Flag :: byte

definition encode_ReqTakeoffEquipAckResponse :: "ReqTakeoffEquipAckResponse \<Rightarrow> frame" where
  "encode_ReqTakeoffEquipAckResponse r = fill 9
     [put16 0 0x099a, put16 2 (ReqTakeoffEquipAckResponse_Index r),
      put32 4 (ReqTakeoffEquipAckResponse_WearLocation r), put8 8 (ReqTakeoffEquipAckResponse_Flag r)]"

record UseItemAck2Response =
  UseItemAck2Response_Index :: u16
  UseItemAck2Response_ItemID :: u16
  UseItemAck2Response_AID :: u32
  UseItemAck2Response_Amount :: u16
  UseItemAck2Response_Result :: byte

definition encode_UseItemAck2Response :: "UseItemAck2Response \<Rightarrow> frame" where
  "encode_UseItemAck2Response r = fill 13
     [put16 0 0x01c8, put16 2 (UseItemAck2Response_Index r), put16 4 (UseItemAck2Response_ItemID r),
      put32 6 (UseItemAck2Response_AID r), put16 10 (UseItemAck2Response_Amount r),
      put8 12 (UseItemAck2Response_Result r)]"

section \<open>\<open>map_encode_skill.go\<close>\<close>

record SkillData =
  SkillData_ID :: u16
  SkillData_Inf :: u32
  SkillData_Level :: u16
  SkillData_SP :: u16
  SkillData_Range2 :: u16
  SkillData_Name :: string
  SkillData_UpFlag :: byte

record SkillInfoListResponse =
  SkillInfoListResponse_Skills :: "SkillData list"

definition writeFixedName :: "nat \<Rightarrow> string \<Rightarrow> byte list" where
  "writeFixedName n src =
     (let dst = pad n (bytes_of src) in
      if length src \<ge> n then dst[n - 1 := 0] else dst)"

definition writeSkillEntry :: "SkillData \<Rightarrow> frame" where
  "writeSkillEntry s = fill 37
     [put16 0 (SkillData_ID s), put32 2 (SkillData_Inf s), put16 6 (SkillData_Level s), put16 8 (SkillData_SP s),
      put16 10 (SkillData_Range2 s), (12, writeFixedName 24 (SkillData_Name s)), put8 36 (SkillData_UpFlag s)]"

definition encode_SkillInfoListResponse :: "SkillInfoListResponse \<Rightarrow> packet_error + frame" where
  "encode_SkillInfoListResponse r = var_frame 0x010f (concat (map writeSkillEntry (SkillInfoListResponse_Skills r)))"

record SkillInfoUpdateResponse =
  SkillInfoUpdateResponse_SkillID :: u32
  SkillInfoUpdateResponse_Level :: u16
  SkillInfoUpdateResponse_SP :: u16
  SkillInfoUpdateResponse_Range2 :: u16
  SkillInfoUpdateResponse_UpgradableFlag :: bool

definition encode_SkillInfoUpdateResponse :: "SkillInfoUpdateResponse \<Rightarrow> frame" where
  "encode_SkillInfoUpdateResponse r = fill 11
     [put16 0 0x010e, put16 2 (ucast (SkillInfoUpdateResponse_SkillID r)),
      put16 4 (SkillInfoUpdateResponse_Level r), put16 6 (SkillInfoUpdateResponse_SP r),
      put16 8 (SkillInfoUpdateResponse_Range2 r), put8 10 (wire_flag (SkillInfoUpdateResponse_UpgradableFlag r))]"

section \<open>\<open>map_item_delete.go\<close>\<close>

record DeleteItemFromBodyResponse =
  DeleteItemFromBodyResponse_DeleteType :: u16
  DeleteItemFromBodyResponse_Index :: u16
  DeleteItemFromBodyResponse_Count :: u16

definition encode_DeleteItemFromBodyResponse :: "DeleteItemFromBodyResponse \<Rightarrow> frame" where
  "encode_DeleteItemFromBodyResponse r = fill 8
     [put16 0 0x07fa, put16 2 (DeleteItemFromBodyResponse_DeleteType r),
      put16 4 (DeleteItemFromBodyResponse_Index r), put16 6 (DeleteItemFromBodyResponse_Count r)]"

section \<open>\<open>map_item_drop.go\<close>\<close>

record ItemFallEntryResponse =
  ItemFallEntryResponse_ID :: u32
  ItemFallEntryResponse_NameID :: u32
  ItemFallEntryResponse_Type :: u16
  ItemFallEntryResponse_Identified :: byte
  ItemFallEntryResponse_X :: u16
  ItemFallEntryResponse_Y :: u16
  ItemFallEntryResponse_SubX :: byte
  ItemFallEntryResponse_SubY :: byte
  ItemFallEntryResponse_Amount :: u16
  ItemFallEntryResponse_ShowDropEffect :: byte
  ItemFallEntryResponse_DropEffectMode :: u16

definition encode_ItemFallEntryResponse :: "ItemFallEntryResponse \<Rightarrow> frame" where
  "encode_ItemFallEntryResponse r = fill 24
     [put16 0 0x0add, put32 2 (ItemFallEntryResponse_ID r), put32 6 (ItemFallEntryResponse_NameID r),
      put16 10 (ItemFallEntryResponse_Type r), put8 12 (ItemFallEntryResponse_Identified r),
      put16 13 (ItemFallEntryResponse_X r), put16 15 (ItemFallEntryResponse_Y r),
      put8 17 (ItemFallEntryResponse_SubX r), put8 18 (ItemFallEntryResponse_SubY r),
      put16 19 (ItemFallEntryResponse_Amount r), put8 21 (ItemFallEntryResponse_ShowDropEffect r),
      put16 22 (ItemFallEntryResponse_DropEffectMode r)]"

record ItemEntryResponse =
  ItemEntryResponse_AID :: u32
  ItemEntryResponse_NameID :: u32
  ItemEntryResponse_Identified :: byte
  ItemEntryResponse_X :: u16
  ItemEntryResponse_Y :: u16
  ItemEntryResponse_Amount :: u16
  ItemEntryResponse_SubX :: byte
  ItemEntryResponse_SubY :: byte

definition encode_ItemEntryResponse :: "ItemEntryResponse \<Rightarrow> frame" where
  "encode_ItemEntryResponse r = fill 19
     [put16 0 0x009d, put32 2 (ItemEntryResponse_AID r), put32 6 (ItemEntryResponse_NameID r),
      put8 10 (ItemEntryResponse_Identified r), put16 11 (ItemEntryResponse_X r), put16 13 (ItemEntryResponse_Y r),
      put16 15 (ItemEntryResponse_Amount r), put8 17 (ItemEntryResponse_SubX r), put8 18 (ItemEntryResponse_SubY r)]"

record ItemDisappearResponse =
  ItemDisappearResponse_AID :: u32

definition encode_ItemDisappearResponse :: "ItemDisappearResponse \<Rightarrow> frame" where
  "encode_ItemDisappearResponse r = fill 6
     [put16 0 0x00a1, put32 2 (ItemDisappearResponse_AID r)]"

record ItemThrowAckResponse =
  ItemThrowAckResponse_Index :: u16
  ItemThrowAckResponse_Count :: u16

definition encode_ItemThrowAckResponse :: "ItemThrowAckResponse \<Rightarrow> frame" where
  "encode_ItemThrowAckResponse r = fill 6
     [put16 0 0x00af, put16 2 (ItemThrowAckResponse_Index r), put16 4 (ItemThrowAckResponse_Count r)]"

record ItemPickupAckResponse =
  ItemPickupAckResponse_Index :: u16
  ItemPickupAckResponse_Count :: u16
  ItemPickupAckResponse_NameID :: u32
  ItemPickupAckResponse_IsIdentified :: byte
  ItemPickupAckResponse_IsDamaged :: byte
  ItemPickupAckResponse_Slot :: "u32 list"
  ItemPickupAckResponse_Location :: u32
  ItemPickupAckResponse_Type :: byte
  ItemPickupAckResponse_Result :: byte
  ItemPickupAckResponse_HireExpireDate :: u32
  ItemPickupAckResponse_BindOnEquipType :: u16
  ItemPickupAckResponse_Option :: "ItemOption list"
  ItemPickupAckResponse_Favorite :: byte
  ItemPickupAckResponse_Look :: u16
  ItemPickupAckResponse_RefiningLevel :: byte
  ItemPickupAckResponse_Grade :: byte

definition encode_ItemPickupAckResponse :: "ItemPickupAckResponse \<Rightarrow> frame" where
  "encode_ItemPickupAckResponse r = fill 70
     [put16 0 0x0b41, put16 2 (ItemPickupAckResponse_Index r), put16 4 (ItemPickupAckResponse_Count r),
      put32 6 (ItemPickupAckResponse_NameID r), put8 10 (ItemPickupAckResponse_IsIdentified r),
      put8 11 (ItemPickupAckResponse_IsDamaged r), (12, concat (map le32 (ItemPickupAckResponse_Slot r))),
      put32 28 (ItemPickupAckResponse_Location r), put8 32 (ItemPickupAckResponse_Type r),
      put8 33 (ItemPickupAckResponse_Result r), put32 34 (ItemPickupAckResponse_HireExpireDate r),
      put16 38 (ItemPickupAckResponse_BindOnEquipType r),
      (40, concat (map encode_ItemOption (ItemPickupAckResponse_Option r))), put8 65 (ItemPickupAckResponse_Favorite r),
      put16 66 (ItemPickupAckResponse_Look r), put8 68 (ItemPickupAckResponse_RefiningLevel r),
      put8 69 (ItemPickupAckResponse_Grade r)]"

section \<open>\<open>map_skill_usage.go\<close>\<close>

record CZUseSkill =
  CZUseSkill_SkillLv :: u16
  CZUseSkill_SkillID :: u16
  CZUseSkill_TargetID :: u32

definition ParseCZUseSkill :: "frame \<Rightarrow> packet_error + CZUseSkill" where
  "ParseCZUseSkill f = of_frame 10 0x0438 f
     \<lparr>CZUseSkill_SkillLv = u16_at 2 f, CZUseSkill_SkillID = u16_at 4 f, CZUseSkill_TargetID = u32_at 6 f\<rparr>"

definition encode_CZUseSkill :: "CZUseSkill \<Rightarrow> frame" where
  "encode_CZUseSkill r = fill 10
     [put16 0 0x0438, put16 2 (CZUseSkill_SkillLv r), put16 4 (CZUseSkill_SkillID r),
      put32 6 (CZUseSkill_TargetID r)]"

record NotifySkillResponse =
  NotifySkillResponse_SKID :: u16
  NotifySkillResponse_AID :: u32
  NotifySkillResponse_TargetID :: u32
  NotifySkillResponse_StartTime :: u32
  NotifySkillResponse_AttackMT :: u32
  NotifySkillResponse_AttackedMT :: u32
  NotifySkillResponse_Damage :: u32
  NotifySkillResponse_Level :: u16
  NotifySkillResponse_Count :: u16
  NotifySkillResponse_Action :: byte

definition encode_NotifySkillResponse :: "NotifySkillResponse \<Rightarrow> frame" where
  "encode_NotifySkillResponse r = fill 33
     [put16 0 0x01de, put16 2 (NotifySkillResponse_SKID r), put32 4 (NotifySkillResponse_AID r),
      put32 8 (NotifySkillResponse_TargetID r), put32 12 (NotifySkillResponse_StartTime r),
      put32 16 (NotifySkillResponse_AttackMT r), put32 20 (NotifySkillResponse_AttackedMT r),
      put32 24 (NotifySkillResponse_Damage r), put16 28 (NotifySkillResponse_Level r),
      put16 30 (NotifySkillResponse_Count r), put8 32 (NotifySkillResponse_Action r)]"

record AckUseSkillResponse =
  AckUseSkillResponse_SkillID :: u16
  AckUseSkillResponse_BType :: u32
  AckUseSkillResponse_ItemID :: u32
  AckUseSkillResponse_Flag :: byte
  AckUseSkillResponse_Cause :: byte

definition encode_AckUseSkillResponse :: "AckUseSkillResponse \<Rightarrow> frame" where
  "encode_AckUseSkillResponse r = fill 14
     [put16 0 0x0110, put16 2 (AckUseSkillResponse_SkillID r), put32 4 (AckUseSkillResponse_BType r),
      put32 8 (AckUseSkillResponse_ItemID r), put8 12 (AckUseSkillResponse_Flag r),
      put8 13 (AckUseSkillResponse_Cause r)]"

section \<open>Layouts and round trips\<close>

lemma encode_MapAcceptEnterResponse_framed [framings]: "framed 0x02eb 13 (encode_MapAcceptEnterResponse r)"
  unfolding encode_MapAcceptEnterResponse_def by (rule framed_fill) (simp_all add: wire_puts)

lemma encode_MapRefuseEnterResponse_framed [framings]: "framed 0x0074 3 (encode_MapRefuseEnterResponse r)"
  unfolding encode_MapRefuseEnterResponse_def by (rule framed_fill) (simp_all add: wire_puts)

lemma encode_MapNotifyPlayerMoveResponse_framed [framings]: "framed 0x0087 12 (encode_MapNotifyPlayerMoveResponse r)"
  unfolding encode_MapNotifyPlayerMoveResponse_def by (rule framed_fill) (simp_all add: wire_puts)

lemma encode_UnitWalkingResponse_framed [framings]: "framed 0x09fd 114 (encode_UnitWalkingResponse r)"
  unfolding encode_UnitWalkingResponse_def by (rule framed_fill) (simp_all add: wire_puts)

lemma encode_MapPropertyResponse_framed [framings]: "framed 0x099b 8 (encode_MapPropertyResponse r)"
  unfolding encode_MapPropertyResponse_def by (rule framed_fill) (simp_all add: wire_puts)

lemma encode_NotifyTimeResponse_framed [framings]: "framed 0x007f 6 (encode_NotifyTimeResponse r)"
  unfolding encode_NotifyTimeResponse_def by (rule framed_fill) (simp_all add: wire_puts)

lemma encode_RestartAckResponse_framed [framings]: "framed 0x00b3 3 (encode_RestartAckResponse r)"
  unfolding encode_RestartAckResponse_def by (rule framed_fill) (simp_all add: wire_puts)

lemma encode_StatusResponse_framed [framings]: "framed 0x00bd 44 (encode_StatusResponse r)"
  unfolding encode_StatusResponse_def by (rule framed_fill) (simp_all add: wire_puts)

lemma encode_ParChangeResponse_framed [framings]: "framed 0x00b0 8 (encode_ParChangeResponse r)"
  unfolding encode_ParChangeResponse_def by (rule framed_fill) (simp_all add: wire_puts)

lemma encode_LongParChangeResponse_framed [framings]: "framed 0x00b1 8 (encode_LongParChangeResponse r)"
  unfolding encode_LongParChangeResponse_def by (rule framed_fill) (simp_all add: wire_puts)

lemma encode_LongLongParChangeResponse_framed [framings]: "framed 0x0acb 12 (encode_LongLongParChangeResponse r)"
  unfolding encode_LongLongParChangeResponse_def by (rule framed_fill) (simp_all add: wire_puts)

lemma encode_ZCAckWhisperResponse_framed [framings]: "framed 0x09df 7 (encode_ZCAckWhisperResponse r)"
  unfolding encode_ZCAckWhisperResponse_def by (rule framed_fill) (simp_all add: wire_puts)

lemma encode_ZCStatusChangeAck_framed [framings]: "framed 0x00bc 6 (encode_ZCStatusChangeAck r)"
  unfolding encode_ZCStatusChangeAck_def by (rule framed_fill) (simp_all add: wire_puts)

lemma encode_ZCNotifyEffect_framed [framings]: "framed 0x019b 10 (encode_ZCNotifyEffect r)"
  unfolding encode_ZCNotifyEffect_def by (rule framed_fill) (simp_all add: wire_puts)

lemma encode_ActionResponse_framed [framings]: "framed 0x008b 11 (encode_ActionResponse r)"
  unfolding encode_ActionResponse_def by (rule framed_fill) (simp_all add: wire_puts)

lemma encode_ChangeDirResponse_framed [framings]: "framed 0x009c 9 (encode_ChangeDirResponse r)"
  unfolding encode_ChangeDirResponse_def by (rule framed_fill) (simp_all add: wire_puts)

lemma encode_EmotionResponse_framed [framings]: "framed 0x00c0 7 (encode_EmotionResponse r)"
  unfolding encode_EmotionResponse_def by (rule framed_fill) (simp_all add: wire_puts)

lemma encode_SpriteChangeResponse_framed [framings]: "framed 0x01d7 15 (encode_SpriteChangeResponse r)"
  unfolding encode_SpriteChangeResponse_def by (rule framed_fill) (simp_all add: wire_puts)

lemma encode_AckReqNameResponse_framed [framings]: "framed 0x0095 30 (encode_AckReqNameResponse r)"
  unfolding encode_AckReqNameResponse_def by (rule framed_fill) (simp_all add: wire_puts)

lemma encode_ReqNameAll2Response_framed [framings]: "framed 0x0a30 106 (encode_ReqNameAll2Response r)"
  unfolding encode_ReqNameAll2Response_def by (rule framed_fill) (simp_all add: wire_puts)

lemma encode_ReqNameAllNPCResponse_framed [framings]: "framed 0x0adf 58 (encode_ReqNameAllNPCResponse r)"
  unfolding encode_ReqNameAllNPCResponse_def by (rule framed_fill) (simp_all add: wire_puts)

lemma encode_WaitDialog2Response_framed [framings]: "framed 0x0973 7 (encode_WaitDialog2Response r)"
  unfolding encode_WaitDialog2Response_def by (rule framed_fill) (simp_all add: wire_puts)

lemma encode_CloseDialogResponse_framed [framings]: "framed 0x00b6 6 (encode_CloseDialogResponse r)"
  unfolding encode_CloseDialogResponse_def by (rule framed_fill) (simp_all add: wire_puts)

lemma encode_OpenEditDlgResponse_framed [framings]: "framed 0x0142 6 (encode_OpenEditDlgResponse r)"
  unfolding encode_OpenEditDlgResponse_def by (rule framed_fill) (simp_all add: wire_puts)

lemma encode_OpenEditDlgStrResponse_framed [framings]: "framed 0x01d4 6 (encode_OpenEditDlgStrResponse r)"
  unfolding encode_OpenEditDlgStrResponse_def by (rule framed_fill) (simp_all add: wire_puts)

lemma encode_SelectDealtypeResponse_framed [framings]: "framed 0x00c4 6 (encode_SelectDealtypeResponse r)"
  unfolding encode_SelectDealtypeResponse_def by (rule framed_fill) (simp_all add: wire_puts)

lemma encode_PurchaseResultResponse_framed [framings]: "framed 0x00ca 3 (encode_PurchaseResultResponse r)"
  unfolding encode_PurchaseResultResponse_def by (rule framed_fill) (simp_all add: wire_puts)

lemma encode_NotifyActResponse_framed [framings]: "framed 0x08c8 34 (encode_NotifyActResponse r)"
  unfolding encode_NotifyActResponse_def by (rule framed_fill) (simp_all add: wire_puts)

lemma encode_NotifyVanishResponse_framed [framings]: "framed 0x0080 7 (encode_NotifyVanishResponse r)"
  unfolding encode_NotifyVanishResponse_def by (rule framed_fill) (simp_all add: wire_puts)

lemma encode_SellResultResponse_framed [framings]: "framed 0x00cb 3 (encode_SellResultResponse r)"
  unfolding encode_SellResultResponse_def by (rule framed_fill) (simp_all add: wire_puts)

lemma encode_ZCSettingWhisperPCResponse_framed [framings]: "framed 0x00d1 4 (encode_ZCSettingWhisperPCResponse r)"
  unfolding encode_ZCSettingWhisperPCResponse_def by (rule framed_fill) (simp_all add: wire_puts)

lemma encode_ZCSettingWhisperStateResponse_framed [framings]: "framed 0x00d2 4 (encode_ZCSettingWhisperStateResponse r)"
  unfolding encode_ZCSettingWhisperStateResponse_def by (rule framed_fill) (simp_all add: wire_puts)

lemma encode_ReqWearEquipAckResponse_framed [framings]: "framed 0x0999 11 (encode_ReqWearEquipAckResponse r)"
  unfolding encode_ReqWearEquipAckResponse_def by (rule framed_fill) (simp_all add: wire_puts)

lemma encode_ReqTakeoffEquipAckResponse_framed [framings]: "framed 0x099a 9 (encode_ReqTakeoffEquipAckResponse r)"
  unfolding encode_ReqTakeoffEquipAckResponse_def by (rule framed_fill) (simp_all add: wire_puts)

lemma encode_UseItemAck2Response_framed [framings]: "framed 0x01c8 13 (encode_UseItemAck2Response r)"
  unfolding encode_UseItemAck2Response_def by (rule framed_fill) (simp_all add: wire_puts)

lemma encode_SkillInfoUpdateResponse_framed [framings]: "framed 0x010e 11 (encode_SkillInfoUpdateResponse r)"
  unfolding encode_SkillInfoUpdateResponse_def by (rule framed_fill) (simp_all add: wire_puts)

lemma encode_DeleteItemFromBodyResponse_framed [framings]: "framed 0x07fa 8 (encode_DeleteItemFromBodyResponse r)"
  unfolding encode_DeleteItemFromBodyResponse_def by (rule framed_fill) (simp_all add: wire_puts)

lemma encode_ItemFallEntryResponse_framed [framings]: "framed 0x0add 24 (encode_ItemFallEntryResponse r)"
  unfolding encode_ItemFallEntryResponse_def by (rule framed_fill) (simp_all add: wire_puts)

lemma encode_ItemEntryResponse_framed [framings]: "framed 0x009d 19 (encode_ItemEntryResponse r)"
  unfolding encode_ItemEntryResponse_def by (rule framed_fill) (simp_all add: wire_puts)

lemma encode_ItemDisappearResponse_framed [framings]: "framed 0x00a1 6 (encode_ItemDisappearResponse r)"
  unfolding encode_ItemDisappearResponse_def by (rule framed_fill) (simp_all add: wire_puts)

lemma encode_ItemThrowAckResponse_framed [framings]: "framed 0x00af 6 (encode_ItemThrowAckResponse r)"
  unfolding encode_ItemThrowAckResponse_def by (rule framed_fill) (simp_all add: wire_puts)

lemma encode_CZUseSkill_framed [framings]: "framed 0x0438 10 (encode_CZUseSkill r)"
  unfolding encode_CZUseSkill_def by (rule framed_fill) (simp_all add: wire_puts)

lemma encode_NotifySkillResponse_framed [framings]: "framed 0x01de 33 (encode_NotifySkillResponse r)"
  unfolding encode_NotifySkillResponse_def by (rule framed_fill) (simp_all add: wire_puts)

lemma encode_AckUseSkillResponse_framed [framings]: "framed 0x0110 14 (encode_AckUseSkillResponse r)"
  unfolding encode_AckUseSkillResponse_def by (rule framed_fill) (simp_all add: wire_puts)

lemma ParseCZUseSkill_encode: "ParseCZUseSkill (encode_CZUseSkill r) = Inr r"
  by (cases r) (simp add: ParseCZUseSkill_def encode_CZUseSkill_def of_frame_def wire_reads wire_puts)

lemma encodeSpawnUnitLike_framed [framings]: "framed opcode 107 (encodeSpawnUnitLike opcode r)"
  unfolding encodeSpawnUnitLike_def by (rule framed_fill) (simp_all add: wire_puts)

lemma encode_ItemOption_length: "length (encode_ItemOption opt) = 5"
  by (simp add: encode_ItemOption_def)

lemma encode_ItemPickupAck_framed [framings]:
  "length (ItemPickupAckResponse_Slot r) = 4 \<Longrightarrow> length (ItemPickupAckResponse_Option r) = 5 \<Longrightarrow>
   framed 0x0b41 70 (encode_ItemPickupAckResponse r)"
  unfolding encode_ItemPickupAckResponse_def
  by (rule framed_fill) (simp_all add: wire_puts length_concat_map [of le32 4] length_concat_map [OF encode_ItemOption_length])

lemma empty_frames_framed [framings]:
  "framed 0x0b08 6 inventoryStartFrame" "framed 0x0b0b 4 inventoryEndFrame" "framed 0x0b20 271 (emptyHotkeyListTab tab)"
  unfolding inventoryStartFrame_def inventoryEndFrame_def emptyHotkeyListTab_def
  by (rule framed_fill; simp add: wire_puts)+

end
