(* ===== verification/PacketSocial.thy ===== *)
theory PacketSocial
  imports Wire
begin

text \<open>
  The party, friend, guild and mail packets: \<open>party.go\<close>, \<open>friend.go\<close>, \<open>guild.go\<close>, \<open>mail.go\<close> of
  \<open>pkg/ro/packet\<close>.
  A record is the Go struct, its fields the struct's with the type's name in front; a signed
  wire integer is the word with the same bits.
\<close>

unbundle bit_operations_syntax

section \<open>\<open>party.go\<close>\<close>

record CZMakeGroup =
  CZMakeGroup_Name :: string
  CZMakeGroup_ItemPickup :: byte
  CZMakeGroup_ItemShare :: byte

definition parseMakeGroup :: "frame \<Rightarrow> u16 \<Rightarrow> nat \<Rightarrow> packet_error + CZMakeGroup" where
  "parseMakeGroup f want sz = of_frame sz want f
     \<lparr>CZMakeGroup_Name = readNameField f 2 24,
      CZMakeGroup_ItemPickup = (if sz = 28 then u8_at 26 f else 0),
      CZMakeGroup_ItemShare = (if sz = 28 then u8_at 27 f else 0)\<rparr>"

definition ParseCZMakeGroup :: "frame \<Rightarrow> packet_error + CZMakeGroup" where
  "ParseCZMakeGroup f = parseMakeGroup f 0x00f9 26"

definition ParseCZMakeGroup2 :: "frame \<Rightarrow> packet_error + CZMakeGroup" where
  "ParseCZMakeGroup2 f = parseMakeGroup f 0x01e8 28"

definition encode_CZMakeGroup :: "CZMakeGroup \<Rightarrow> frame" where
  "encode_CZMakeGroup r = fill 26
     [put16 0 0x00f9, writeNameField 2 (CZMakeGroup_Name r)]"

record CZReqJoinGroup =
  CZReqJoinGroup_AID :: u32

definition ParseCZReqJoinGroup :: "frame \<Rightarrow> packet_error + CZReqJoinGroup" where
  "ParseCZReqJoinGroup f = of_frame 6 0x00fc f
     \<lparr>CZReqJoinGroup_AID = u32_at 2 f\<rparr>"

definition encode_CZReqJoinGroup :: "CZReqJoinGroup \<Rightarrow> frame" where
  "encode_CZReqJoinGroup r = fill 6
     [put16 0 0x00fc, put32 2 (CZReqJoinGroup_AID r)]"

record CZJoinGroup =
  CZJoinGroup_PartyID :: u32
  CZJoinGroup_Flag :: u32

definition ParseCZJoinGroup :: "frame \<Rightarrow> packet_error + CZJoinGroup" where
  "ParseCZJoinGroup f = of_frame 10 0x00ff f
     \<lparr>CZJoinGroup_PartyID = u32_at 2 f, CZJoinGroup_Flag = u32_at 6 f\<rparr>"

definition encode_CZJoinGroup :: "CZJoinGroup \<Rightarrow> frame" where
  "encode_CZJoinGroup r = fill 10
     [put16 0 0x00ff, put32 2 (CZJoinGroup_PartyID r), put32 6 (CZJoinGroup_Flag r)]"

definition EncodeCZReqLeaveGroup :: frame where
  "EncodeCZReqLeaveGroup = fill 2
     [put16 0 0x0100]"

record PartyConfigResponse =
  PartyConfigResponse_Deny :: byte

definition encode_PartyConfigResponse :: "PartyConfigResponse \<Rightarrow> frame" where
  "encode_PartyConfigResponse r = fill 3
     [put16 0 0x02c9, put8 2 (PartyConfigResponse_Deny r)]"

record CZChangeGroupExpOption =
  CZChangeGroupExpOption_ExpFlag :: u32

definition ParseCZChangeGroupExpOption :: "frame \<Rightarrow> packet_error + CZChangeGroupExpOption" where
  "ParseCZChangeGroupExpOption f = of_frame 6 0x0102 f
     \<lparr>CZChangeGroupExpOption_ExpFlag = u32_at 2 f\<rparr>"

record CZReqExpelGroupMember =
  CZReqExpelGroupMember_AID :: u32
  CZReqExpelGroupMember_Name :: string

definition ParseCZReqExpelGroupMember :: "frame \<Rightarrow> packet_error + CZReqExpelGroupMember" where
  "ParseCZReqExpelGroupMember f = of_frame 30 0x0103 f
     \<lparr>CZReqExpelGroupMember_AID = u32_at 2 f, CZReqExpelGroupMember_Name = readNameField f 6 24\<rparr>"

record AckMakeGroupResponse =
  AckMakeGroupResponse_Result :: byte

definition encode_AckMakeGroupResponse :: "AckMakeGroupResponse \<Rightarrow> frame" where
  "encode_AckMakeGroupResponse r = fill 3
     [put16 0 0x00fa, put8 2 (AckMakeGroupResponse_Result r)]"

record PartyJoinReqResponse =
  PartyJoinReqResponse_PartyID :: u32
  PartyJoinReqResponse_PartyName :: string

definition encode_PartyJoinReqResponse :: "PartyJoinReqResponse \<Rightarrow> frame" where
  "encode_PartyJoinReqResponse r = fill 30
     [put16 0 0x02c6, put32 2 (PartyJoinReqResponse_PartyID r), writeNameField 6 (PartyJoinReqResponse_PartyName r)]"

record PartyJoinReqAckResponse =
  PartyJoinReqAckResponse_CharacterName :: string
  PartyJoinReqAckResponse_Result :: u32

definition encode_PartyJoinReqAckResponse :: "PartyJoinReqAckResponse \<Rightarrow> frame" where
  "encode_PartyJoinReqAckResponse r = fill 30
     [put16 0 0x02c5, writeNameField 2 (PartyJoinReqAckResponse_CharacterName r),
      put32 26 (PartyJoinReqAckResponse_Result r)]"

record DeleteMemberFromGroupResponse =
  DeleteMemberFromGroupResponse_AID :: u32
  DeleteMemberFromGroupResponse_CharacterName :: string
  DeleteMemberFromGroupResponse_Result :: byte

definition encode_DeleteMemberFromGroupResponse :: "DeleteMemberFromGroupResponse \<Rightarrow> frame" where
  "encode_DeleteMemberFromGroupResponse r = fill 31
     [put16 0 0x0105, put32 2 (DeleteMemberFromGroupResponse_AID r),
      writeNameField 6 (DeleteMemberFromGroupResponse_CharacterName r),
      put8 30 (DeleteMemberFromGroupResponse_Result r)]"

record AddMemberToGroupResponse =
  AddMemberToGroupResponse_AID :: u32
  AddMemberToGroupResponse_GID :: u32
  AddMemberToGroupResponse_Leader :: bool
  AddMemberToGroupResponse_Class :: u16
  AddMemberToGroupResponse_BaseLevel :: u16
  AddMemberToGroupResponse_X :: u16
  AddMemberToGroupResponse_Y :: u16
  AddMemberToGroupResponse_Online :: bool
  AddMemberToGroupResponse_PartyName :: string
  AddMemberToGroupResponse_PlayerName :: string
  AddMemberToGroupResponse_MapName :: string
  AddMemberToGroupResponse_SharePickup :: byte
  AddMemberToGroupResponse_ShareLoot :: byte

definition boolToU32 :: "bool \<Rightarrow> u32" where
  "boolToU32 b = (if b then 1 else 0)"

definition encode_AddMemberToGroupResponse :: "AddMemberToGroupResponse \<Rightarrow> frame" where
  "encode_AddMemberToGroupResponse r = fill 89
     [put16 0 0x0ae4, put32 2 (AddMemberToGroupResponse_AID r), put32 6 (AddMemberToGroupResponse_GID r), put32 10 (boolToU32 (\<not> AddMemberToGroupResponse_Leader r)),
      put16 14 (AddMemberToGroupResponse_Class r), put16 16 (AddMemberToGroupResponse_BaseLevel r), put16 18 (AddMemberToGroupResponse_X r), put16 20 (AddMemberToGroupResponse_Y r), put8 22 (wire_flag (\<not> AddMemberToGroupResponse_Online r)),
      writeNameField 23 (AddMemberToGroupResponse_PartyName r), writeNameField 47 (AddMemberToGroupResponse_PlayerName r), put_text 71 16 (AddMemberToGroupResponse_MapName r),
      put8 87 (AddMemberToGroupResponse_SharePickup r), put8 88 (AddMemberToGroupResponse_ShareLoot r)]"

record GroupListMember =
  GroupListMember_AID :: u32
  GroupListMember_GID :: u32
  GroupListMember_PlayerName :: string
  GroupListMember_MapName :: string
  GroupListMember_Leader :: bool
  GroupListMember_Online :: bool
  GroupListMember_Class :: u16
  GroupListMember_BaseLevel :: u16

record GroupListResponse =
  GroupListResponse_PartyName :: string
  GroupListResponse_Members :: "GroupListMember list"

definition size_GroupListResponse :: "GroupListResponse \<Rightarrow> nat" where
  "size_GroupListResponse r = (let n = min (length (GroupListResponse_Members r)) 12 in 28 + 54 * n)"

definition encode_GroupListMember :: "GroupListMember \<Rightarrow> frame" where
  "encode_GroupListMember m = fill 54
     [put32 0 (GroupListMember_AID m), put32 4 (GroupListMember_GID m), writeNameField 8 (GroupListMember_PlayerName m), put_text 32 16 (GroupListMember_MapName m),
      put8 48 (wire_flag (\<not> GroupListMember_Leader m)), put8 49 (wire_flag (\<not> GroupListMember_Online m)), put16 50 (GroupListMember_Class m), put16 52 (GroupListMember_BaseLevel m)]"

definition encode_GroupListResponse :: "GroupListResponse \<Rightarrow> frame" where
  "encode_GroupListResponse r =
     wrapped_frame 0x0ae5
       (pad 24 (bytes_of (GroupListResponse_PartyName r))
        @ concat (map encode_GroupListMember (take 12 (GroupListResponse_Members r))))"

section \<open>\<open>friend.go\<close>\<close>

record CZFriendsAdd =
  CZFriendsAdd_Name :: string

definition ParseCZFriendsAdd :: "frame \<Rightarrow> packet_error + CZFriendsAdd" where
  "ParseCZFriendsAdd f = of_frame 26 0x0202 f
     \<lparr>CZFriendsAdd_Name = readNameField f 2 24\<rparr>"

definition encode_CZFriendsAdd :: "CZFriendsAdd \<Rightarrow> frame" where
  "encode_CZFriendsAdd r = fill 26
     [put16 0 0x0202, writeNameField 2 (CZFriendsAdd_Name r)]"

record CZFriendsDelete =
  CZFriendsDelete_AID :: u32
  CZFriendsDelete_CID :: u32

definition ParseCZFriendsDelete :: "frame \<Rightarrow> packet_error + CZFriendsDelete" where
  "ParseCZFriendsDelete f = of_frame 10 0x0203 f
     \<lparr>CZFriendsDelete_AID = u32_at 2 f, CZFriendsDelete_CID = u32_at 6 f\<rparr>"

definition encode_CZFriendsDelete :: "CZFriendsDelete \<Rightarrow> frame" where
  "encode_CZFriendsDelete r = fill 10
     [put16 0 0x0203, put32 2 (CZFriendsDelete_AID r), put32 6 (CZFriendsDelete_CID r)]"

record CZFriendsReply =
  CZFriendsReply_AID :: u32
  CZFriendsReply_CID :: u32
  CZFriendsReply_Reply :: u32

definition ParseCZFriendsReply :: "frame \<Rightarrow> packet_error + CZFriendsReply" where
  "ParseCZFriendsReply f = of_frame 14 0x0208 f
     \<lparr>CZFriendsReply_AID = u32_at 2 f, CZFriendsReply_CID = u32_at 6 f, CZFriendsReply_Reply = u32_at 10 f\<rparr>"

definition encode_CZFriendsReply :: "CZFriendsReply \<Rightarrow> frame" where
  "encode_CZFriendsReply r = fill 14
     [put16 0 0x0208, put32 2 (CZFriendsReply_AID r), put32 6 (CZFriendsReply_CID r),
      put32 10 (CZFriendsReply_Reply r)]"

record FriendsStateResponse =
  FriendsStateResponse_AID :: u32
  FriendsStateResponse_CID :: u32
  FriendsStateResponse_Offline :: bool
  FriendsStateResponse_Name :: string

definition encode_FriendsStateResponse :: "FriendsStateResponse \<Rightarrow> frame" where
  "encode_FriendsStateResponse r = fill 35
     [put16 0 0x0206, put32 2 (FriendsStateResponse_AID r), put32 6 (FriendsStateResponse_CID r),
      put8 10 (wire_flag (FriendsStateResponse_Offline r)), writeNameField 11 (FriendsStateResponse_Name r)]"

record FriendsReqAddResponse =
  FriendsReqAddResponse_AID :: u32
  FriendsReqAddResponse_CID :: u32
  FriendsReqAddResponse_Name :: string

definition encode_FriendsReqAddResponse :: "FriendsReqAddResponse \<Rightarrow> frame" where
  "encode_FriendsReqAddResponse r = fill 34
     [put16 0 0x0207, put32 2 (FriendsReqAddResponse_AID r), put32 6 (FriendsReqAddResponse_CID r),
      writeNameField 10 (FriendsReqAddResponse_Name r)]"

record FriendsAddResponse =
  FriendsAddResponse_Result :: u16
  FriendsAddResponse_AID :: u32
  FriendsAddResponse_CID :: u32
  FriendsAddResponse_Name :: string

definition encode_FriendsAddResponse :: "FriendsAddResponse \<Rightarrow> frame" where
  "encode_FriendsAddResponse r = fill 36
     [put16 0 0x0209, put16 2 (FriendsAddResponse_Result r), put32 4 (FriendsAddResponse_AID r),
      put32 8 (FriendsAddResponse_CID r), writeNameField 12 (FriendsAddResponse_Name r)]"

record FriendsDeleteResponse =
  FriendsDeleteResponse_AID :: u32
  FriendsDeleteResponse_CID :: u32

definition encode_FriendsDeleteResponse :: "FriendsDeleteResponse \<Rightarrow> frame" where
  "encode_FriendsDeleteResponse r = fill 10
     [put16 0 0x020a, put32 2 (FriendsDeleteResponse_AID r), put32 6 (FriendsDeleteResponse_CID r)]"

record FriendsListEntry =
  FriendsListEntry_AID :: u32
  FriendsListEntry_CID :: u32

record FriendsListResponse =
  FriendsListResponse_Friends :: "FriendsListEntry list"

definition size_FriendsListResponse :: "FriendsListResponse \<Rightarrow> nat" where
  "size_FriendsListResponse r = (let n = min (length (FriendsListResponse_Friends r)) 40 in 4 + 8 * n)"

definition encode_FriendsListEntry :: "FriendsListEntry \<Rightarrow> frame" where
  "encode_FriendsListEntry f = le32 (FriendsListEntry_AID f) @ le32 (FriendsListEntry_CID f)"

definition encode_FriendsListResponse :: "FriendsListResponse \<Rightarrow> frame" where
  "encode_FriendsListResponse r =
     wrapped_frame 0x0201 (concat (map encode_FriendsListEntry (take 40 (FriendsListResponse_Friends r))))"

section \<open>\<open>guild.go\<close>\<close>

record CZCreateGuild =
  CZCreateGuild_CharID :: u32
  CZCreateGuild_Name :: string

definition ParseCZCreateGuild :: "frame \<Rightarrow> packet_error + CZCreateGuild" where
  "ParseCZCreateGuild f = of_frame 30 0x0165 f
     \<lparr>CZCreateGuild_CharID = u32_at 2 f, CZCreateGuild_Name = readNameField f 6 24\<rparr>"

definition encode_CZCreateGuild :: "CZCreateGuild \<Rightarrow> frame" where
  "encode_CZCreateGuild r = fill 30
     [put16 0 0x0165, put32 2 (CZCreateGuild_CharID r), writeNameField 6 (CZCreateGuild_Name r)]"

record CZGuildLeave =
  CZGuildLeave_GuildID :: u32
  CZGuildLeave_AID :: u32
  CZGuildLeave_CID :: u32
  CZGuildLeave_Message :: string

definition parseCZGuildLeave :: "frame \<Rightarrow> u16 \<Rightarrow> packet_error + CZGuildLeave" where
  "parseCZGuildLeave f want = of_frame 52 want f
     \<lparr>CZGuildLeave_GuildID = u32_at 2 f, CZGuildLeave_AID = u32_at 6 f, CZGuildLeave_CID = u32_at 10 f,
      CZGuildLeave_Message = readNameField f 14 40\<rparr>"

definition ParseCZGuildLeave :: "frame \<Rightarrow> packet_error + CZGuildLeave" where
  "ParseCZGuildLeave f = parseCZGuildLeave f 0x0159"

definition ParseCZGuildBan :: "frame \<Rightarrow> packet_error + CZGuildLeave" where
  "ParseCZGuildBan f = parseCZGuildLeave f 0x015b"

definition encodeCZGuildLeave :: "u16 \<Rightarrow> u32 \<Rightarrow> u32 \<Rightarrow> u32 \<Rightarrow> string \<Rightarrow> frame" where
  "encodeCZGuildLeave cmd guildID aid cid message = fill 52
     [put16 0 cmd, put32 2 guildID, put32 6 aid, put32 10 cid, writeNameField 14 message]"

definition EncodeCZGuildLeave :: "u32 \<Rightarrow> u32 \<Rightarrow> u32 \<Rightarrow> string \<Rightarrow> frame" where
  "EncodeCZGuildLeave guildID aid cid message = encodeCZGuildLeave 0x0159 guildID aid cid message"

definition EncodeCZGuildBan :: "u32 \<Rightarrow> u32 \<Rightarrow> u32 \<Rightarrow> string \<Rightarrow> frame" where
  "EncodeCZGuildBan guildID aid cid message = encodeCZGuildLeave 0x015b guildID aid cid message"

record CZGuildBreak =
  CZGuildBreak_Key :: string

definition ParseCZGuildBreak :: "frame \<Rightarrow> packet_error + CZGuildBreak" where
  "ParseCZGuildBreak f = of_frame 44 0x015d f
     \<lparr>CZGuildBreak_Key = readNameField f 2 40\<rparr>"

definition EncodeCZGuildBreak :: "string \<Rightarrow> frame" where
  "EncodeCZGuildBreak key = fill 44
     [put16 0 0x015d, writeNameField 2 key]"

record CZReqJoinGuild =
  CZReqJoinGuild_AID :: u32
  CZReqJoinGuild_InviterAID :: u32
  CZReqJoinGuild_InviterCID :: u32

definition ParseCZReqJoinGuild :: "frame \<Rightarrow> packet_error + CZReqJoinGuild" where
  "ParseCZReqJoinGuild f = of_frame 14 0x0168 f
     \<lparr>CZReqJoinGuild_AID = u32_at 2 f, CZReqJoinGuild_InviterAID = u32_at 6 f,
      CZReqJoinGuild_InviterCID = u32_at 10 f\<rparr>"

definition EncodeCZReqJoinGuild :: "u32 \<Rightarrow> u32 \<Rightarrow> u32 \<Rightarrow> frame" where
  "EncodeCZReqJoinGuild aid inviterAID inviterCID = fill 14
     [put16 0 0x0168, put32 2 aid, put32 6 inviterAID, put32 10 inviterCID]"

record CZJoinGuild =
  CZJoinGuild_GuildID :: u32
  CZJoinGuild_Answer :: u32

definition ParseCZJoinGuild :: "frame \<Rightarrow> packet_error + CZJoinGuild" where
  "ParseCZJoinGuild f = of_frame 10 0x016b f
     \<lparr>CZJoinGuild_GuildID = u32_at 2 f, CZJoinGuild_Answer = u32_at 6 f\<rparr>"

definition EncodeCZJoinGuild :: "u32 \<Rightarrow> u32 \<Rightarrow> frame" where
  "EncodeCZJoinGuild guildID answer = fill 10
     [put16 0 0x016b, put32 2 guildID, put32 6 answer]"

definition ParseCZGuildChat :: "frame \<Rightarrow> packet_error + string" where
  "ParseCZGuildChat f = of_frame 4 0x017e f (readNameField f 4 (length f - 4))"

definition EncodeCZGuildChat :: "string \<Rightarrow> frame" where
  "EncodeCZGuildChat message = wrapped_frame 0x017e (bytes_of message)"

record ResultMakeGuildResponse =
  ResultMakeGuildResponse_Result :: byte

definition encode_ResultMakeGuildResponse :: "ResultMakeGuildResponse \<Rightarrow> frame" where
  "encode_ResultMakeGuildResponse r = fill 3
     [put16 0 0x0167, put8 2 (ResultMakeGuildResponse_Result r)]"

record ReqJoinGuildResponse =
  ReqJoinGuildResponse_GuildID :: u32
  ReqJoinGuildResponse_GuildName :: string

definition encode_ReqJoinGuildResponse :: "ReqJoinGuildResponse \<Rightarrow> frame" where
  "encode_ReqJoinGuildResponse r = fill 30
     [put16 0 0x016a, put32 2 (ReqJoinGuildResponse_GuildID r), writeNameField 6 (ReqJoinGuildResponse_GuildName r)]"

record AckReqJoinGuildResponse =
  AckReqJoinGuildResponse_Result :: u32

definition encode_AckReqJoinGuildResponse :: "AckReqJoinGuildResponse \<Rightarrow> frame" where
  "encode_AckReqJoinGuildResponse r = fill 3
     [put16 0 0x0169, put8 2 (ucast (AckReqJoinGuildResponse_Result r))]"

record UpdateGDIDResponse =
  UpdateGDIDResponse_GuildID :: u32
  UpdateGDIDResponse_EmblemVersion :: u32
  UpdateGDIDResponse_Mode :: u32
  UpdateGDIDResponse_IsMaster :: bool
  UpdateGDIDResponse_InterSid :: u32
  UpdateGDIDResponse_GuildName :: string
  UpdateGDIDResponse_MasterGID :: u32

definition encode_UpdateGDIDResponse :: "UpdateGDIDResponse \<Rightarrow> frame" where
  "encode_UpdateGDIDResponse r = fill 47
     [put16 0 0x02f7, put32 2 (UpdateGDIDResponse_GuildID r), put32 6 (UpdateGDIDResponse_EmblemVersion r),
      put32 10 (UpdateGDIDResponse_Mode r), put8 14 (wire_flag (UpdateGDIDResponse_IsMaster r)),
      put32 15 (UpdateGDIDResponse_InterSid r), writeNameField 19 (UpdateGDIDResponse_GuildName r),
      put32 43 (UpdateGDIDResponse_MasterGID r)]"

record UpdateCharStatResponse =
  UpdateCharStatResponse_AID :: u32
  UpdateCharStatResponse_CID :: u32
  UpdateCharStatResponse_Status :: u32

definition encode_UpdateCharStatResponse :: "UpdateCharStatResponse \<Rightarrow> frame" where
  "encode_UpdateCharStatResponse r = fill 14
     [put16 0 0x016d, put32 2 (UpdateCharStatResponse_AID r), put32 6 (UpdateCharStatResponse_CID r),
      put32 10 (UpdateCharStatResponse_Status r)]"

record AckLeaveGuildResponse =
  AckLeaveGuildResponse_GID :: u32
  AckLeaveGuildResponse_Reason :: string

definition encode_AckLeaveGuildResponse :: "AckLeaveGuildResponse \<Rightarrow> frame" where
  "encode_AckLeaveGuildResponse r = fill 46
     [put16 0 0x015a, put32 2 (AckLeaveGuildResponse_GID r), writeNameField 6 (AckLeaveGuildResponse_Reason r)]"

record AckBanGuildResponse =
  AckBanGuildResponse_GID :: u32
  AckBanGuildResponse_Reason :: string

definition encode_AckBanGuildResponse :: "AckBanGuildResponse \<Rightarrow> frame" where
  "encode_AckBanGuildResponse r = fill 46
     [put16 0 0x015c, writeNameField 2 (AckBanGuildResponse_Reason r), put32 42 (AckBanGuildResponse_GID r)]"

record AckDisorganizeGuildResponse =
  AckDisorganizeGuildResponse_Result :: u32

definition encode_AckDisorganizeGuildResponse :: "AckDisorganizeGuildResponse \<Rightarrow> frame" where
  "encode_AckDisorganizeGuildResponse r = fill 6
     [put16 0 0x015e, put32 2 (AckDisorganizeGuildResponse_Result r)]"

record GuildChatResponse =
  GuildChatResponse_Message :: string

definition encode_GuildChatResponse :: "GuildChatResponse \<Rightarrow> packet_error + frame" where
  "encode_GuildChatResponse r = var_frame 0x017f (bytes_of (GuildChatResponse_Message r) @ [0])"

record AckMenuInterfaceResponse =
  AckMenuInterfaceResponse_IsMaster :: bool

definition encode_AckMenuInterfaceResponse :: "AckMenuInterfaceResponse \<Rightarrow> frame" where
  "encode_AckMenuInterfaceResponse r = fill 6
     [put16 0 0x014e, put32 2 (if AckMenuInterfaceResponse_IsMaster r then 1 else 0)]"

record GuildInfoResponse =
  GuildInfoResponse_GuildID :: u32
  GuildInfoResponse_Level :: u32
  GuildInfoResponse_UserNum :: u32
  GuildInfoResponse_MaxUserNum :: u32
  GuildInfoResponse_AvgLevel :: u32
  GuildInfoResponse_Exp :: u32
  GuildInfoResponse_MaxExp :: u32
  GuildInfoResponse_Point :: u32
  GuildInfoResponse_Honor :: u32
  GuildInfoResponse_Virtue :: u32
  GuildInfoResponse_EmblemVersion :: u32
  GuildInfoResponse_GuildName :: string
  GuildInfoResponse_ManageLand :: string
  GuildInfoResponse_Zeny :: u32
  GuildInfoResponse_MasterGID :: u32
  GuildInfoResponse_MasterName :: string

definition encode_GuildInfoResponse :: "GuildInfoResponse \<Rightarrow> frame" where
  "encode_GuildInfoResponse r = fill 118
     [put16 0 0x0b7b, put32 2 (GuildInfoResponse_GuildID r), put32 6 (GuildInfoResponse_Level r),
      put32 10 (GuildInfoResponse_UserNum r), put32 14 (GuildInfoResponse_MaxUserNum r),
      put32 18 (GuildInfoResponse_AvgLevel r), put32 22 (GuildInfoResponse_Exp r),
      put32 26 (GuildInfoResponse_MaxExp r), put32 30 (GuildInfoResponse_Point r),
      put32 34 (GuildInfoResponse_Honor r), put32 38 (GuildInfoResponse_Virtue r),
      put32 42 (GuildInfoResponse_EmblemVersion r), writeNameField 46 (GuildInfoResponse_GuildName r),
      writeNameField 70 (GuildInfoResponse_ManageLand r), put32 86 (GuildInfoResponse_Zeny r),
      put32 90 (GuildInfoResponse_MasterGID r), writeNameField 94 (GuildInfoResponse_MasterName r)]"

record GuildMemberInfo =
  GuildMemberInfo_AID :: u32
  GuildMemberInfo_GID :: u32
  GuildMemberInfo_Head :: u16
  GuildMemberInfo_HeadPalette :: u16
  GuildMemberInfo_Sex :: u16
  GuildMemberInfo_Job :: u16
  GuildMemberInfo_Level :: u16
  GuildMemberInfo_Contribution :: u32
  GuildMemberInfo_State :: u32
  GuildMemberInfo_Position :: u32
  GuildMemberInfo_LastLogin :: u32
  GuildMemberInfo_CharName :: string

record MemberMgrInfoResponse =
  MemberMgrInfoResponse_Members :: "GuildMemberInfo list"

definition size_MemberMgrInfoResponse :: "MemberMgrInfoResponse \<Rightarrow> nat" where
  "size_MemberMgrInfoResponse r = (let n = min (length (MemberMgrInfoResponse_Members r)) 16 in 4 + 58 * n)"

definition encode_GuildMemberInfo :: "GuildMemberInfo \<Rightarrow> frame" where
  "encode_GuildMemberInfo m = fill 58
     [put32 0 (GuildMemberInfo_AID m), put32 4 (GuildMemberInfo_GID m), put16 8 (GuildMemberInfo_Head m), put16 10 (GuildMemberInfo_HeadPalette m), put16 12 (GuildMemberInfo_Sex m), put16 14 (GuildMemberInfo_Job m),
      put16 16 (GuildMemberInfo_Level m), put32 18 (GuildMemberInfo_Contribution m), put32 22 (GuildMemberInfo_State m), put32 26 (GuildMemberInfo_Position m), put32 30 (GuildMemberInfo_LastLogin m),
      writeNameField 34 (GuildMemberInfo_CharName m)]"

definition encode_MemberMgrInfoResponse :: "MemberMgrInfoResponse \<Rightarrow> frame" where
  "encode_MemberMgrInfoResponse r =
     wrapped_frame 0x0b7d (concat (map encode_GuildMemberInfo (take 16 (MemberMgrInfoResponse_Members r))))"

section \<open>\<open>mail.go\<close>\<close>

record MailItem =
  MailItem_Index :: u16
  MailItem_Count :: u16
  MailItem_ITID :: u32
  MailItem_Type :: byte
  MailItem_Identified :: bool
  MailItem_Damaged :: bool
  MailItem_Refine :: byte
  MailItem_Card :: "u32 list"
  MailItem_Location :: u32
  MailItem_View :: u16
  MailItem_Bind :: u16
  MailItem_Weight :: u16
  MailItem_Favorite :: bool

record CZMailReq =
  CZMailReq_Op :: u16
  CZMailReq_MailID :: u64

definition parseCZMailID :: "frame \<Rightarrow> nat \<Rightarrow> packet_error + CZMailReq" where
  "parseCZMailID f sz =
     (let off = (if sz = 11 then 3 else 2) in
      if length f < sz then Inl ShortFrame
      else Inr \<lparr>CZMailReq_Op = u16_at 0 f, CZMailReq_MailID = u64_at off f\<rparr>)"

definition ParseCZOpenMailbox :: "frame \<Rightarrow> packet_error + CZMailReq" where
  "ParseCZOpenMailbox f = parseCZMailID f 11"

definition ParseCZOpenMailbox2 :: "frame \<Rightarrow> packet_error + CZMailReq" where
  "ParseCZOpenMailbox2 f = parseCZMailID f 26"

definition ParseCZReadMail :: "frame \<Rightarrow> packet_error + CZMailReq" where
  "ParseCZReadMail f = parseCZMailID f 11"

definition ParseCZDeleteMail :: "frame \<Rightarrow> packet_error + CZMailReq" where
  "ParseCZDeleteMail f = parseCZMailID f 11"

definition ParseCZGetAttach :: "frame \<Rightarrow> packet_error + CZMailReq" where
  "ParseCZGetAttach f =
     (if length f < 11 then Inl ShortFrame
      else Inr \<lparr>CZMailReq_Op = u16_at 0 f, CZMailReq_MailID = u64_at 2 f\<rparr>)"

definition mail_req_layout :: "u16 \<Rightarrow> nat \<times> nat" where
  "mail_req_layout op =
     (if op = 0x0ac0 \<or> op = 0x0ac1 then (26, 2)
      else if op = 0x09ea \<or> op = 0x09f5 then (11, 3)
      else (11, 2))"

definition encode_CZMailReq :: "CZMailReq \<Rightarrow> frame" where
  "encode_CZMailReq m =
     (case mail_req_layout (CZMailReq_Op m) of (sz, off) \<Rightarrow>
        fill sz [put16 0 (CZMailReq_Op m), put64 off (CZMailReq_MailID m)])"

record CZOpenWriteMail =
  CZOpenWriteMail_Op :: u16
  CZOpenWriteMail_Name :: string

definition parseCZMailName :: "frame \<Rightarrow> u16 \<Rightarrow> nat \<Rightarrow> packet_error + CZOpenWriteMail" where
  "parseCZMailName f want sz = of_frame sz want f
     \<lparr>CZOpenWriteMail_Op = want, CZOpenWriteMail_Name = readNameField f 2 24\<rparr>"

definition ParseCZOpenWriteMail :: "frame \<Rightarrow> packet_error + CZOpenWriteMail" where
  "ParseCZOpenWriteMail f = parseCZMailName f 0x0a08 26"

definition ParseCZCheckReceiverName :: "frame \<Rightarrow> packet_error + CZOpenWriteMail" where
  "ParseCZCheckReceiverName f =
     (let op = (if length f \<ge> 2 then u16_at 0 f else 0);
          sz = (if op = 0x0b97 then 27 else 26)
      in parseCZMailName f op sz)"

definition encode_CZOpenWriteMail :: "CZOpenWriteMail \<Rightarrow> frame" where
  "encode_CZOpenWriteMail m =
     fill (if CZOpenWriteMail_Op m = 0x0b97 then 27 else 26)
       [put16 0 (CZOpenWriteMail_Op m), writeNameField 2 (CZOpenWriteMail_Name m)]"

record CZMailAttachItem =
  CZMailAttachItem_Op :: u16
  CZMailAttachItem_Index :: u16
  CZMailAttachItem_Count :: u16

definition parseCZMailAttachItem :: "frame \<Rightarrow> u16 \<Rightarrow> packet_error + CZMailAttachItem" where
  "parseCZMailAttachItem f want = of_frame 6 want f
     \<lparr>CZMailAttachItem_Op = want, CZMailAttachItem_Index = u16_at 2 f, CZMailAttachItem_Count = u16_at 4 f\<rparr>"

definition ParseCZMailAddItem :: "frame \<Rightarrow> packet_error + CZMailAttachItem" where
  "ParseCZMailAddItem f = parseCZMailAttachItem f 0x0a04"

definition ParseCZMailRemoveItem :: "frame \<Rightarrow> packet_error + CZMailAttachItem" where
  "ParseCZMailRemoveItem f = parseCZMailAttachItem f 0x0a06"

definition encode_CZMailAttachItem :: "CZMailAttachItem \<Rightarrow> frame" where
  "encode_CZMailAttachItem r = fill 6
     [put16 0 (CZMailAttachItem_Op r), put16 2 (CZMailAttachItem_Index r), put16 4 (CZMailAttachItem_Count r)]"

record CZWriteMail =
  CZWriteMail_Op :: u16
  CZWriteMail_ReceiverName :: string
  CZWriteMail_SenderName :: string
  CZWriteMail_Zeny :: u64
  CZWriteMail_ReceiverCharID :: u32
  CZWriteMail_TitleLength :: int
  CZWriteMail_TextLength :: int
  CZWriteMail_Title :: string
  CZWriteMail_Body :: string

text \<open>
  A slice expression of Go is bounded by the capacity of the array behind the slice, not by the slice's
  length: \<open>arr\<close> is that array and the frame is its first \<open>n\<close> bytes. The three field reads past the
  minimum length (60, 62 and, for the second form, 64) are checked against the capacity, as the run time
  does; the strings are checked against the length, as the code does.
\<close>

definition ParseCZWriteMail :: "frame \<Rightarrow> nat \<Rightarrow> packet_error + CZWriteMail" where
  "ParseCZWriteMail arr n =
     (let f = take n arr; op = u16_at 0 f in
      if n < 2 then Inl ShortFrame
      else if op \<noteq> 0x09ec \<and> op \<noteq> 0x0a6e then Inl UnexpectedCmd
      else if n < 0x3e then Inl ShortFrame
      else if length arr < 64 \<or> op = 0x0a6e \<and> length arr < 68 then Inl OutOfRange
      else let strBase = (if op = 0x0a6e then 68 else 64);
               titleLength = unat (u16_at 60 arr); textLength = unat (u16_at 62 arr)
        in if strBase + titleLength > n then Inl BadLength
           else if strBase + titleLength + textLength > n then Inl BadLength
           else Inr
             \<lparr>CZWriteMail_Op = op, CZWriteMail_ReceiverName = readNameField f 4 24,
              CZWriteMail_SenderName = readNameField f 28 24, CZWriteMail_Zeny = u64_at 52 f,
              CZWriteMail_ReceiverCharID = (if op = 0x0a6e then u32_at 64 arr else 0),
              CZWriteMail_TitleLength = int titleLength, CZWriteMail_TextLength = int textLength,
              CZWriteMail_Title = readNameField f strBase titleLength,
              CZWriteMail_Body = readNameField f (strBase + titleLength) textLength\<rparr>)"

definition EncodeZCNotifyUnreadMail :: "bool \<Rightarrow> frame" where
  "EncodeZCNotifyUnreadMail unread = fill 3
     [put16 0 0x09e7, put8 2 (wire_flag unread)]"

record MailListEntry =
  MailListEntry_Type :: byte
  MailListEntry_MailID :: u64
  MailListEntry_Read :: bool
  MailListEntry_Flags :: byte
  MailListEntry_Sender :: string
  MailListEntry_Expires :: u32
  MailListEntry_Title :: string

definition encode_MailListEntry :: "MailListEntry \<Rightarrow> frame" where
  "encode_MailListEntry e =
     fill 41
       [put8 0 (MailListEntry_Type e), put64 1 (MailListEntry_MailID e), put8 9 (wire_flag (MailListEntry_Read e)), put8 10 (MailListEntry_Flags e), put_text 11 24 (MailListEntry_Sender e),
        put32 35 (MailListEntry_Expires e), put16 39 (of_nat (length (MailListEntry_Title e) + 1))]
     @ bytes_of (MailListEntry_Title e) @ [0]"

definition EncodeZCAckMailList :: "MailListEntry list \<Rightarrow> frame" where
  "EncodeZCAckMailList entries = wrapped_frame 0x0ac2 ([1] @ concat (map encode_MailListEntry entries))"

record MailReadItem =
  MailReadItem_Count :: u16
  MailReadItem_ITID :: u32
  MailReadItem_Type :: byte
  MailReadItem_Identified :: bool
  MailReadItem_Damaged :: bool
  MailReadItem_Refine :: byte
  MailReadItem_Card :: "u32 list"
  MailReadItem_Location :: u32
  MailReadItem_View :: u16
  MailReadItem_Bind :: u16

definition encode_MailReadItem :: "MailReadItem \<Rightarrow> frame" where
  "encode_MailReadItem it = fill 60
     [put16 0 (MailReadItem_Count it), put32 2 (MailReadItem_ITID it), put8 6 (wire_flag (MailReadItem_Identified it)), put8 7 (wire_flag (MailReadItem_Damaged it)),
      (8, concat (map le32 (MailReadItem_Card it))), put32 24 (MailReadItem_Location it), put8 28 (MailReadItem_Type it), put16 29 (MailReadItem_View it),
      put16 31 (MailReadItem_Bind it), put8 58 (MailReadItem_Refine it)]"

definition EncodeZCAckReadRodex :: "byte \<Rightarrow> u64 \<Rightarrow> u64 \<Rightarrow> string \<Rightarrow> MailReadItem list \<Rightarrow> frame" where
  "EncodeZCAckReadRodex openType mailID zeny body items =
     (let text = (if body = [] then ''(no message)'' else body); textLen = length text + 1 in
      wrapped_frame 0x0b63
        ([openType] @ le64 mailID @ le16 (of_nat textLen) @ le64 zeny @ [of_nat (length items)]
         @ bytes_of text @ [0] @ concat (map encode_MailReadItem items)))"

definition EncodeZCAckOpenWriteMail :: "string \<Rightarrow> bool \<Rightarrow> frame" where
  "EncodeZCAckOpenWriteMail receiverName ok = fill 27
     [put16 0 0x0a12, writeNameField 2 receiverName, put8 26 (wire_flag ok)]"

definition EncodeZCCheckName :: "u32 \<Rightarrow> u16 \<Rightarrow> u16 \<Rightarrow> string \<Rightarrow> frame" where
  "EncodeZCCheckName charID class baseLevel name = fill 34
     [put16 0 0x0a51, put32 2 charID, put16 6 class, put16 8 baseLevel, writeNameField 10 name]"

definition EncodeZCAckWriteMail :: "byte \<Rightarrow> frame" where
  "EncodeZCAckWriteMail result = fill 3
     [put16 0 0x09ed, put8 2 result]"

definition EncodeZCAckAddItemRodex :: "byte \<Rightarrow> MailItem \<Rightarrow> frame" where
  "EncodeZCAckAddItemRodex result it = fill 64
     ([put16 0 0x0b3f, put8 2 result] @
      (if result = 0 then
         [put16 3 (MailItem_Index it), put16 5 (MailItem_Count it), put32 7 (MailItem_ITID it), put8 11 (MailItem_Type it), put8 12 (wire_flag (MailItem_Identified it)),
          put8 13 (wire_flag (MailItem_Damaged it)), (14, concat (map le32 (MailItem_Card it))), put16 55 (MailItem_Weight it),
          put8 57 (wire_flag (MailItem_Favorite it)), put32 58 (MailItem_Location it), put8 62 (MailItem_Refine it)]
       else []))"

definition EncodeZCAckRemoveItemMail :: "bool \<Rightarrow> u16 \<Rightarrow> u16 \<Rightarrow> u16 \<Rightarrow> frame" where
  "EncodeZCAckRemoveItemMail ok index count weight = fill 9
     [put16 0 0x0a07, put8 2 (wire_flag ok), put16 3 index, put16 5 count, put16 7 weight]"

definition encodeZCAckCollect :: "u16 \<Rightarrow> u64 \<Rightarrow> byte \<Rightarrow> byte \<Rightarrow> frame" where
  "encodeZCAckCollect cmd mailID openType result = fill 12
     [put16 0 cmd, put64 2 mailID, put8 10 openType, put8 11 result]"

definition EncodeZCAckZenyFromMail :: "u64 \<Rightarrow> byte \<Rightarrow> byte \<Rightarrow> frame" where
  "EncodeZCAckZenyFromMail mailID openType result = encodeZCAckCollect 0x09f2 mailID openType result"

definition EncodeZCAckItemFromMail :: "u64 \<Rightarrow> byte \<Rightarrow> byte \<Rightarrow> frame" where
  "EncodeZCAckItemFromMail mailID openType result = encodeZCAckCollect 0x09f4 mailID openType result"

definition EncodeZCAckDeleteMail :: "byte \<Rightarrow> u64 \<Rightarrow> frame" where
  "EncodeZCAckDeleteMail openType mailID = fill 11
     [put16 0 0x09f6, put8 2 openType, put64 3 mailID]"

section \<open>Layouts and round trips\<close>

lemma encode_CZMakeGroup_framed [framings]: "framed 0x00f9 26 (encode_CZMakeGroup r)"
  unfolding encode_CZMakeGroup_def by (rule framed_fill) (simp_all add: wire_puts)

lemma encode_CZReqJoinGroup_framed [framings]: "framed 0x00fc 6 (encode_CZReqJoinGroup r)"
  unfolding encode_CZReqJoinGroup_def by (rule framed_fill) (simp_all add: wire_puts)

lemma encode_CZJoinGroup_framed [framings]: "framed 0x00ff 10 (encode_CZJoinGroup r)"
  unfolding encode_CZJoinGroup_def by (rule framed_fill) (simp_all add: wire_puts)

lemma EncodeCZReqLeaveGroup_framed [framings]: "framed 0x0100 2 (EncodeCZReqLeaveGroup)"
  unfolding EncodeCZReqLeaveGroup_def by (rule framed_fill) (simp_all add: wire_puts)

lemma encode_PartyConfigResponse_framed [framings]: "framed 0x02c9 3 (encode_PartyConfigResponse r)"
  unfolding encode_PartyConfigResponse_def by (rule framed_fill) (simp_all add: wire_puts)

lemma encode_AckMakeGroupResponse_framed [framings]: "framed 0x00fa 3 (encode_AckMakeGroupResponse r)"
  unfolding encode_AckMakeGroupResponse_def by (rule framed_fill) (simp_all add: wire_puts)

lemma encode_PartyJoinReqResponse_framed [framings]: "framed 0x02c6 30 (encode_PartyJoinReqResponse r)"
  unfolding encode_PartyJoinReqResponse_def by (rule framed_fill) (simp_all add: wire_puts)

lemma encode_PartyJoinReqAckResponse_framed [framings]: "framed 0x02c5 30 (encode_PartyJoinReqAckResponse r)"
  unfolding encode_PartyJoinReqAckResponse_def by (rule framed_fill) (simp_all add: wire_puts)

lemma encode_DeleteMemberFromGroupResponse_framed [framings]: "framed 0x0105 31 (encode_DeleteMemberFromGroupResponse r)"
  unfolding encode_DeleteMemberFromGroupResponse_def by (rule framed_fill) (simp_all add: wire_puts)

lemma encode_CZFriendsAdd_framed [framings]: "framed 0x0202 26 (encode_CZFriendsAdd r)"
  unfolding encode_CZFriendsAdd_def by (rule framed_fill) (simp_all add: wire_puts)

lemma encode_CZFriendsDelete_framed [framings]: "framed 0x0203 10 (encode_CZFriendsDelete r)"
  unfolding encode_CZFriendsDelete_def by (rule framed_fill) (simp_all add: wire_puts)

lemma encode_CZFriendsReply_framed [framings]: "framed 0x0208 14 (encode_CZFriendsReply r)"
  unfolding encode_CZFriendsReply_def by (rule framed_fill) (simp_all add: wire_puts)

lemma encode_FriendsStateResponse_framed [framings]: "framed 0x0206 35 (encode_FriendsStateResponse r)"
  unfolding encode_FriendsStateResponse_def by (rule framed_fill) (simp_all add: wire_puts)

lemma encode_FriendsReqAddResponse_framed [framings]: "framed 0x0207 34 (encode_FriendsReqAddResponse r)"
  unfolding encode_FriendsReqAddResponse_def by (rule framed_fill) (simp_all add: wire_puts)

lemma encode_FriendsAddResponse_framed [framings]: "framed 0x0209 36 (encode_FriendsAddResponse r)"
  unfolding encode_FriendsAddResponse_def by (rule framed_fill) (simp_all add: wire_puts)

lemma encode_FriendsDeleteResponse_framed [framings]: "framed 0x020a 10 (encode_FriendsDeleteResponse r)"
  unfolding encode_FriendsDeleteResponse_def by (rule framed_fill) (simp_all add: wire_puts)

lemma encode_CZCreateGuild_framed [framings]: "framed 0x0165 30 (encode_CZCreateGuild r)"
  unfolding encode_CZCreateGuild_def by (rule framed_fill) (simp_all add: wire_puts)

lemma EncodeCZGuildBreak_framed [framings]: "framed 0x015d 44 (EncodeCZGuildBreak key)"
  unfolding EncodeCZGuildBreak_def by (rule framed_fill) (simp_all add: wire_puts)

lemma EncodeCZReqJoinGuild_framed [framings]: "framed 0x0168 14 (EncodeCZReqJoinGuild aid inviterAID inviterCID)"
  unfolding EncodeCZReqJoinGuild_def by (rule framed_fill) (simp_all add: wire_puts)

lemma EncodeCZJoinGuild_framed [framings]: "framed 0x016b 10 (EncodeCZJoinGuild guildID answer)"
  unfolding EncodeCZJoinGuild_def by (rule framed_fill) (simp_all add: wire_puts)

lemma encode_ResultMakeGuildResponse_framed [framings]: "framed 0x0167 3 (encode_ResultMakeGuildResponse r)"
  unfolding encode_ResultMakeGuildResponse_def by (rule framed_fill) (simp_all add: wire_puts)

lemma encode_ReqJoinGuildResponse_framed [framings]: "framed 0x016a 30 (encode_ReqJoinGuildResponse r)"
  unfolding encode_ReqJoinGuildResponse_def by (rule framed_fill) (simp_all add: wire_puts)

lemma encode_AckReqJoinGuildResponse_framed [framings]: "framed 0x0169 3 (encode_AckReqJoinGuildResponse r)"
  unfolding encode_AckReqJoinGuildResponse_def by (rule framed_fill) (simp_all add: wire_puts)

lemma encode_UpdateGDIDResponse_framed [framings]: "framed 0x02f7 47 (encode_UpdateGDIDResponse r)"
  unfolding encode_UpdateGDIDResponse_def by (rule framed_fill) (simp_all add: wire_puts)

lemma encode_UpdateCharStatResponse_framed [framings]: "framed 0x016d 14 (encode_UpdateCharStatResponse r)"
  unfolding encode_UpdateCharStatResponse_def by (rule framed_fill) (simp_all add: wire_puts)

lemma encode_AckLeaveGuildResponse_framed [framings]: "framed 0x015a 46 (encode_AckLeaveGuildResponse r)"
  unfolding encode_AckLeaveGuildResponse_def by (rule framed_fill) (simp_all add: wire_puts)

lemma encode_AckBanGuildResponse_framed [framings]: "framed 0x015c 46 (encode_AckBanGuildResponse r)"
  unfolding encode_AckBanGuildResponse_def by (rule framed_fill) (simp_all add: wire_puts)

lemma encode_AckDisorganizeGuildResponse_framed [framings]: "framed 0x015e 6 (encode_AckDisorganizeGuildResponse r)"
  unfolding encode_AckDisorganizeGuildResponse_def by (rule framed_fill) (simp_all add: wire_puts)

lemma encode_GuildInfoResponse_framed [framings]: "framed 0x0b7b 118 (encode_GuildInfoResponse r)"
  unfolding encode_GuildInfoResponse_def by (rule framed_fill) (simp_all add: wire_puts)

lemma EncodeZCNotifyUnreadMail_framed [framings]: "framed 0x09e7 3 (EncodeZCNotifyUnreadMail unread)"
  unfolding EncodeZCNotifyUnreadMail_def by (rule framed_fill) (simp_all add: wire_puts)

lemma EncodeZCAckOpenWriteMail_framed [framings]: "framed 0x0a12 27 (EncodeZCAckOpenWriteMail receiverName ok)"
  unfolding EncodeZCAckOpenWriteMail_def by (rule framed_fill) (simp_all add: wire_puts)

lemma EncodeZCCheckName_framed [framings]: "framed 0x0a51 34 (EncodeZCCheckName charID class baseLevel name)"
  unfolding EncodeZCCheckName_def by (rule framed_fill) (simp_all add: wire_puts)

lemma EncodeZCAckWriteMail_framed [framings]: "framed 0x09ed 3 (EncodeZCAckWriteMail result)"
  unfolding EncodeZCAckWriteMail_def by (rule framed_fill) (simp_all add: wire_puts)

lemma EncodeZCAckRemoveItemMail_framed [framings]: "framed 0x0a07 9 (EncodeZCAckRemoveItemMail ok index count weight)"
  unfolding EncodeZCAckRemoveItemMail_def by (rule framed_fill) (simp_all add: wire_puts)

lemma EncodeZCAckDeleteMail_framed [framings]: "framed 0x09f6 11 (EncodeZCAckDeleteMail openType mailID)"
  unfolding EncodeZCAckDeleteMail_def by (rule framed_fill) (simp_all add: wire_puts)

lemma ParseCZReqJoinGroup_encode: "ParseCZReqJoinGroup (encode_CZReqJoinGroup r) = Inr r"
  by (cases r) (simp add: ParseCZReqJoinGroup_def encode_CZReqJoinGroup_def of_frame_def wire_reads wire_puts)

lemma ParseCZJoinGroup_encode: "ParseCZJoinGroup (encode_CZJoinGroup r) = Inr r"
  by (cases r) (simp add: ParseCZJoinGroup_def encode_CZJoinGroup_def of_frame_def wire_reads wire_puts)

lemma ParseCZFriendsAdd_encode: "fits 24 (CZFriendsAdd_Name r) \<Longrightarrow> ParseCZFriendsAdd (encode_CZFriendsAdd r) = Inr r"
  by (cases r) (simp add: ParseCZFriendsAdd_def encode_CZFriendsAdd_def of_frame_def wire_reads wire_puts)

lemma ParseCZFriendsDelete_encode: "ParseCZFriendsDelete (encode_CZFriendsDelete r) = Inr r"
  by (cases r) (simp add: ParseCZFriendsDelete_def encode_CZFriendsDelete_def of_frame_def wire_reads wire_puts)

lemma ParseCZFriendsReply_encode: "ParseCZFriendsReply (encode_CZFriendsReply r) = Inr r"
  by (cases r) (simp add: ParseCZFriendsReply_def encode_CZFriendsReply_def of_frame_def wire_reads wire_puts)

lemma ParseCZCreateGuild_encode: "fits 24 (CZCreateGuild_Name r) \<Longrightarrow> ParseCZCreateGuild (encode_CZCreateGuild r) = Inr r"
  by (cases r) (simp add: ParseCZCreateGuild_def encode_CZCreateGuild_def of_frame_def wire_reads wire_puts)

lemma encode_AddMember_framed [framings]: "framed 0x0ae4 89 (encode_AddMemberToGroupResponse r)"
  unfolding encode_AddMemberToGroupResponse_def by (rule framed_fill) (simp_all add: wire_puts)

lemma encode_AckMenuInterface_framed [framings]: "framed 0x014e 6 (encode_AckMenuInterfaceResponse r)"
  unfolding encode_AckMenuInterfaceResponse_def by (rule framed_fill) (simp_all add: wire_puts)

lemma encodeCZGuildLeave_framed: "framed cmd 52 (encodeCZGuildLeave cmd guildID aid cid message)"
  unfolding encodeCZGuildLeave_def by (rule framed_fill) (simp_all add: wire_puts)

lemma encodeZCAckCollect_framed: "framed cmd 12 (encodeZCAckCollect cmd mailID openType result)"
  unfolding encodeZCAckCollect_def by (rule framed_fill) (simp_all add: wire_puts)

lemma EncodeZCAckAddItemRodex_framed [framings]:
  "length (MailItem_Card it) = 4 \<Longrightarrow> framed 0x0b3f 64 (EncodeZCAckAddItemRodex result it)"
  unfolding EncodeZCAckAddItemRodex_def append_Cons append_Nil
  by (rule framed_fill) (simp_all add: wire_puts length_concat_map [of le32 4])

lemma encode_CZMailReq_framed:
  "framed (CZMailReq_Op m) (fst (mail_req_layout (CZMailReq_Op m))) (encode_CZMailReq m)"
  by (simp add: encode_CZMailReq_def mail_req_layout_def framed_fill put64_def)

lemma encode_CZOpenWriteMail_framed:
  "framed (CZOpenWriteMail_Op m) (if CZOpenWriteMail_Op m = 0x0b97 then 27 else 26) (encode_CZOpenWriteMail m)"
  unfolding encode_CZOpenWriteMail_def by (rule framed_fill) (simp_all add: wire_puts)

lemma encode_CZMailAttachItem_framed: "framed (CZMailAttachItem_Op r) 6 (encode_CZMailAttachItem r)"
  unfolding encode_CZMailAttachItem_def by (rule framed_fill) (simp_all add: wire_puts)

text \<open>
  The mail-id verbs: reading and deleting round-trip, the three refresh verbs are parsed one byte further than
  they are written, so the identifier loses its low byte.
\<close>

lemma ParseCZReadMail_encode:
  "CZMailReq_Op m \<in> {0x09ea, 0x09f5} \<Longrightarrow> ParseCZReadMail (encode_CZMailReq m) = Inr m"
  by (cases m) (auto simp: ParseCZReadMail_def parseCZMailID_def encode_CZMailReq_def mail_req_layout_def wire_reads wire_puts)

lemma ParseCZOpenMailbox_encode:
  assumes "CZMailReq_Op m \<in> {0x09e8, 0x09ee, 0x09ef}"
  shows "ParseCZOpenMailbox (encode_CZMailReq m) = Inr (m\<lparr>CZMailReq_MailID := drop_bit 8 (CZMailReq_MailID m)\<rparr>)"
proof -
  have "u64_at 3 (fill 11 [put16 0 op, put64 2 id]) = drop_bit 8 id" for op id
  proof -
    have "slice 3 8 (fill 11 [put16 0 op, put64 2 id]) = drop 1 (le64 id) @ [0]"
      by (simp add: slice_def fill_def zeros_def put_bytes_def puts le64_def le32_def le16_def)
    then show ?thesis
      using dec64_shifted [of id] by (simp add: u64_at_def)
  qed
  then show ?thesis
    using assms by (cases m) (auto simp: ParseCZOpenMailbox_def parseCZMailID_def encode_CZMailReq_def mail_req_layout_def wire_reads wire_puts)
qed

lemma ParseCZGuildLeave_encode:
  assumes "CHR 0x00 \<notin> set message"
  shows "ParseCZGuildLeave (EncodeCZGuildLeave g a c message) =
    Inr \<lparr>CZGuildLeave_GuildID = g, CZGuildLeave_AID = a, CZGuildLeave_CID = c, CZGuildLeave_Message = take 24 message\<rparr>"
proof -
  have "slice 14 40 (fill 52 [put16 0 cmd, put32 2 g, put32 6 a, put32 10 c, writeNameField 14 message])
    = bytes_of (take 24 message) @ zeros (38 - length (take 24 message))" for cmd
    by (cases "length message \<le> 24") (simp_all add: slice_def fill_def zeros_def put_bytes_def puts text_puts le32_def le16_def pad_def bytes_of_def take_map min_def replicate_add [symmetric])
  moreover have "CHR 0x00 \<notin> set (take 24 message)"
    using assms by (auto dest: in_set_takeD)
  ultimately show ?thesis
    using until_nul_text [of "take 24 message"]
    by (simp add: ParseCZGuildLeave_def parseCZGuildLeave_def EncodeCZGuildLeave_def encodeCZGuildLeave_def of_frame_def wire_reads wire_puts)
qed

end
