(* ===== verification/MapGate.thy ===== *)
theory MapGate
  imports LoginGate Mobs Guild Friend PacketMap PacketServer PacketSocial
begin

text \<open>
  The map listener above its codecs (\<open>gateway/app/map.go\<close>, \<open>dispatch.go\<close>): its state with the live connections
  and the pending invitations (\<open>friend.go\<close>, \<open>party.go\<close>, \<open>guild.go\<close>, \<open>mail.go\<close>), entering and leaving, and who is
  told what. A handler takes the connection, the identity read on the event loop, a whole frame and the
  state, and returns what it writes to which connection.
\<close>

unbundle bit_operations_syntax

section \<open>State\<close>

record map_auth =
  ma_accountID :: u32
  ma_charID :: u32

record pending_invite =
  pi_partyID :: u32
  pi_inviterCharID :: u32

record pending_friend_req =
  fq_requesterCharID :: u32
  fq_requesterAccountID :: u32
  fq_requesterName :: string

record pending_guild_invite =
  gi_guildID :: u32
  gi_inviterCharID :: u32

record staged_mail_item =
  sm_rowID :: u32
  sm_serverIdx :: u16
  sm_nameID :: u32
  sm_amount :: u32

record mail_staging =
  mg_writing :: bool
  mg_zeny :: int
  mg_items :: "staged_mail_item list"

text \<open>The fields of \<open>MapServer\<close> these handlers use, with the services behind them.\<close>

record map_server =
  ms_world :: world
  ms_rows :: mem_world
  ms_spawn :: spawn_service
  ms_sess :: session_store
  ms_context :: "conn \<rightharpoonup> map_auth"
  ms_conns :: "u32 \<rightharpoonup> conn"
  ms_openedShops :: "u32 \<rightharpoonup> string"
  ms_partyInvites :: "u32 \<rightharpoonup> pending_invite"
  ms_friendReqs :: "u32 \<rightharpoonup> pending_friend_req"
  ms_guildInvites :: "u32 \<rightharpoonup> pending_guild_invite"
  ms_mailStaging :: "u32 \<rightharpoonup> mail_staging"
  ms_party :: party_repo
  ms_friend :: friend_repo
  ms_guild :: guild_repo

type_synonym writes = "(conn \<times> frame) list"

definition connFor :: "map_server \<Rightarrow> u32 \<Rightarrow> conn option" where
  "connFor s c = ms_conns s c"

definition registerConn :: "u32 \<Rightarrow> conn \<Rightarrow> map_server \<Rightarrow> map_server" where
  "registerConn c k s = s\<lparr>ms_conns := (ms_conns s)(c \<mapsto> k)\<rparr>"

text \<open>A frame for whoever has a live connection.\<close>

definition to_char :: "map_server \<Rightarrow> u32 \<Rightarrow> frame \<Rightarrow> writes" where
  "to_char s c f = (case connFor s c of None \<Rightarrow> [] | Some k \<Rightarrow> [(k, f)])"

definition broadcast :: "map_server \<Rightarrow> frame \<Rightarrow> string \<Rightarrow> position \<Rightarrow> u32 \<Rightarrow> writes" where
  "broadcast s packet m p exclude =
     concat (map (\<lambda>cid. if cid = exclude then [] else to_char s cid packet) (PlayersNear m p (ms_world s)))"

text \<open>Dropping the entry of one character and every entry it is the sender of.\<close>

definition clear_for :: "('i \<Rightarrow> u32) \<Rightarrow> u32 \<Rightarrow> (u32 \<rightharpoonup> 'i) \<Rightarrow> u32 \<rightharpoonup> 'i" where
  "clear_for sender c m =
     (\<lambda>k. if k = c then None else case m k of None \<Rightarrow> None | Some i \<Rightarrow> if sender i = c then None else Some i)"

definition clearPartyInvitesFor :: "u32 \<Rightarrow> map_server \<Rightarrow> map_server" where
  "clearPartyInvitesFor c s = s\<lparr>ms_partyInvites := clear_for pi_inviterCharID c (ms_partyInvites s)\<rparr>"

definition clearFriendReqsFor :: "u32 \<Rightarrow> map_server \<Rightarrow> map_server" where
  "clearFriendReqsFor c s = s\<lparr>ms_friendReqs := clear_for fq_requesterCharID c (ms_friendReqs s)\<rparr>"

definition clearGuildInvitesFor :: "u32 \<Rightarrow> map_server \<Rightarrow> map_server" where
  "clearGuildInvitesFor c s = s\<lparr>ms_guildInvites := clear_for gi_inviterCharID c (ms_guildInvites s)\<rparr>"

definition clearMailSlot :: "u32 \<Rightarrow> map_server \<Rightarrow> map_server" where
  "clearMailSlot c s = s\<lparr>ms_mailStaging := (ms_mailStaging s)(c := None)\<rparr>"

definition unregisterConn :: "u32 \<Rightarrow> map_server \<Rightarrow> map_server" where
  "unregisterConn c s = clearMailSlot c (clearGuildInvitesFor c (clearFriendReqsFor c (clearPartyInvitesFor c
     (s\<lparr>ms_conns := (ms_conns s)(c := None), ms_openedShops := (ms_openedShops s)(c := None)\<rparr>))))"

definition playerName :: "map_server \<Rightarrow> u32 \<Rightarrow> string" where
  "playerName s c = (case w_Get c (ms_world s) of Inl e \<Rightarrow> [] | Inr e \<Rightarrow> en_Name e)"

section \<open>Units on the wire\<close>

definition objectTypeNPC :: byte where "objectTypeNPC = 6"
definition objectTypePC :: byte where "objectTypePC = 0"

definition spawnUnitAny :: "entity \<Rightarrow> byte \<Rightarrow> SpawnUnitResponse" where
  "spawnUnitAny e objectType =
     \<lparr>SpawnUnitResponse_ObjectType = objectType, SpawnUnitResponse_AID = en_Account e, SpawnUnitResponse_GID = en_ID e,
      SpawnUnitResponse_Speed = word_of_int (en_Speed e), SpawnUnitResponse_BodyState = 0,
      SpawnUnitResponse_HealthState = 0, SpawnUnitResponse_EffectState = 0, SpawnUnitResponse_Job = word_of_int (en_Job e),
      SpawnUnitResponse_Head = en_Head e, SpawnUnitResponse_Weapon = en_Weapon e, SpawnUnitResponse_Shield = en_Shield e,
      SpawnUnitResponse_Accessory = 0, SpawnUnitResponse_Accessory2 = 0, SpawnUnitResponse_Accessory3 = 0,
      SpawnUnitResponse_HeadPalette = 0, SpawnUnitResponse_BodyPalette = 0, SpawnUnitResponse_HeadDir = 0,
      SpawnUnitResponse_Robe = 0, SpawnUnitResponse_GUID = 0, SpawnUnitResponse_GEmblemVer = 0,
      SpawnUnitResponse_Honor = 0, SpawnUnitResponse_Virtue = 0, SpawnUnitResponse_IsPKModeON = 0,
      SpawnUnitResponse_Sex = en_Sex e, SpawnUnitResponse_PosX = word_of_int (pos_X (en_Pos e)),
      SpawnUnitResponse_PosY = word_of_int (pos_Y (en_Pos e)), SpawnUnitResponse_Dir = en_Dir e,
      SpawnUnitResponse_XSize = 5, SpawnUnitResponse_YSize = 5, SpawnUnitResponse_CLevel = word_of_int (en_Level e),
      SpawnUnitResponse_Font = 0, SpawnUnitResponse_MaxHP = word_of_int (en_MaxHP e),
      SpawnUnitResponse_HP = word_of_int (en_HP e), SpawnUnitResponse_IsBoss = 0,
      SpawnUnitResponse_Body = word_of_int (en_Job e), SpawnUnitResponse_Name = en_Name e\<rparr>"

definition spawnUnitFromEntity :: "entity \<Rightarrow> SpawnUnitResponse" where
  "spawnUnitFromEntity e = (spawnUnitAny e objectTypePC)\<lparr>SpawnUnitResponse_AID := en_Account e\<rparr>"

definition spawnUnitNPC :: "entity \<Rightarrow> SpawnUnitResponse" where
  "spawnUnitNPC e = (spawnUnitAny e objectTypeNPC)\<lparr>SpawnUnitResponse_AID := en_ID e,
     SpawnUnitResponse_Job := word_of_int (en_Class e), SpawnUnitResponse_XSize := 5, SpawnUnitResponse_YSize := 5\<rparr>"

definition accept_enter_frame :: "entity \<Rightarrow> frame" where
  "accept_enter_frame e = encode_MapAcceptEnterResponse
     \<lparr>MapAcceptEnterResponse_StartTime = 0, MapAcceptEnterResponse_PosX = word_of_int (pos_X (en_Pos e)),
      MapAcceptEnterResponse_PosY = word_of_int (pos_Y (en_Pos e)), MapAcceptEnterResponse_Dir = en_Dir e,
      MapAcceptEnterResponse_XSize = 5, MapAcceptEnterResponse_YSize = 5, MapAcceptEnterResponse_Font = 0\<rparr>"

definition refuse_enter_frame :: frame where
  "refuse_enter_frame = encode_MapRefuseEnterResponse \<lparr>MapRefuseEnterResponse_Error = 0\<rparr>"

definition vanish_frame :: "u32 \<Rightarrow> byte \<Rightarrow> frame" where
  "vanish_frame gid type = encode_NotifyVanishResponse \<lparr>NotifyVanishResponse_GID = gid, NotifyVanishResponse_Type = type\<rparr>"

section \<open>Entering and leaving\<close>

text \<open>The spawn frames a newcomer is sent for what is already there, itself left out.\<close>

definition backfill :: "map_server \<Rightarrow> conn \<Rightarrow> entity \<Rightarrow> u32 \<Rightarrow> writes" where
  "backfill s c e charID =
     concat (map (\<lambda>nid. if nid = charID then []
                        else case w_Get nid (ms_world s) of
                               Inl _ \<Rightarrow> []
                             | Inr n \<Rightarrow> [(c, encode_SpawnUnitResponse
                                 (if en_Type n = EntityTypeNPC then spawnUnitNPC n else spawnUnitFromEntity n))])
       (w_QueryVisible (en_Map e) (pos_X (en_Pos e)) (pos_Y (en_Pos e)) (ms_world s)))"

definition sweepFloorItems :: "map_server \<Rightarrow> conn \<Rightarrow> entity \<Rightarrow> writes" where
  "sweepFloorItems s c e =
     concat (map (\<lambda>fi. if \<bar>fi_PosX fi - pos_X (en_Pos e)\<bar> > DefaultBroadcastRadius - 1 \<or>
                        \<bar>fi_PosY fi - pos_Y (en_Pos e)\<bar> > DefaultBroadcastRadius - 1 then []
                     else [(c, encode_ItemEntryResponse
                       \<lparr>ItemEntryResponse_AID = fi_GroundID fi, ItemEntryResponse_NameID = fi_NameID fi,
                        ItemEntryResponse_Identified = 1, ItemEntryResponse_X = word_of_int (fi_PosX fi),
                        ItemEntryResponse_Y = word_of_int (fi_PosY fi), ItemEntryResponse_Amount = ucast (fi_Amount fi),
                        ItemEntryResponse_SubX = 0, ItemEntryResponse_SubY = 0\<rparr>)])
       (FloorItems (en_Map e) (ms_spawn s)))"

definition map_handleEnter :: "conn \<Rightarrow> frame \<Rightarrow> map_server \<Rightarrow> writes \<times> map_server" where
  "map_handleEnter c f s =
     (case ParseCZEnter f of
        Inl _ \<Rightarrow> ([], s)
      | Inr req \<Rightarrow>
          (case fst (GetSession (CZEnterRequest_AccountID req) (ms_sess s)) of
             Inl _ \<Rightarrow> ([(c, refuse_enter_frame)], s)
           | Inr sess \<Rightarrow>
               if se_LoginID1 sess \<noteq> CZEnterRequest_AuthCode req then ([(c, refuse_enter_frame)], s)
               else
                 (case EnterMap mem_world_port (CZEnterRequest_CharID req) (ms_world s, ms_rows s) of
                    (Inl _, (w, r)) \<Rightarrow> ([(c, refuse_enter_frame)], s\<lparr>ms_world := w, ms_rows := r\<rparr>)
                  | (Inr e, (w, r)) \<Rightarrow>
                      let cid = CZEnterRequest_CharID req;
                          s1 = registerConn cid c (s\<lparr>ms_world := w, ms_rows := r, ms_context := (ms_context s)(c \<mapsto>
                            \<lparr>ma_accountID = CZEnterRequest_AccountID req, ma_charID = cid\<rparr>)\<rparr>)
                      in ([(c, accept_enter_frame e)]
                          @ broadcast s1 (encode_SpawnUnitResponse (spawnUnitFromEntity e)) (en_Map e) (en_Pos e) cid
                          @ backfill s1 c e cid @ sweepFloorItems s1 c e, s1))))"

definition notifyFriendsOnline :: "u32 \<Rightarrow> u32 \<Rightarrow> string \<Rightarrow> bool \<Rightarrow> map_server \<Rightarrow> writes" where
  "notifyFriendsOnline charID accountID name online s =
     (case fst (friend_List mem_friend_port charID (ms_friend s)) of
        Inl _ \<Rightarrow> []
      | Inr friends \<Rightarrow> concat (map (\<lambda>fr. to_char s (fr_FriendCharID fr) (encode_FriendsStateResponse
          \<lparr>FriendsStateResponse_AID = accountID, FriendsStateResponse_CID = charID, FriendsStateResponse_Offline = (\<not> online),
           FriendsStateResponse_Name = name\<rparr>)) friends))"

text \<open>The closed connection loses its context with it.\<close>

definition map_OnClose :: "conn \<Rightarrow> map_server \<Rightarrow> writes \<times> map_server" where
  "map_OnClose c s =
     (case ms_context s c of
        None \<Rightarrow> ([], s)
      | Some a \<Rightarrow>
          let cid = ma_charID a;
              s1 = unregisterConn cid (s\<lparr>ms_context := (ms_context s)(c := None)\<rparr>)
          in (case w_Get cid (ms_world s1) of
                Inl _ \<Rightarrow> ([], s1)
              | Inr e \<Rightarrow>
                  (case snd (LeaveMap mem_world_port cid (ms_world s1, ms_rows s1)) of
                     (w, r) \<Rightarrow>
                       let s2 = s1\<lparr>ms_world := w, ms_rows := r\<rparr>
                       in (notifyFriendsOnline cid (en_Account e) (en_Name e) False s2
                           @ broadcast s2 (vanish_frame cid 0) (en_Map e) (en_Pos e) cid, s2))))"

end
