(* ===== verification/SocialGate.thy ===== *)
theory SocialGate
  imports MapGate
begin

text \<open>
  The friend and party requests of the map listener (\<open>gateway/app/friend.go\<close>, \<open>party.go\<close>): each
  handler decodes a frame, consults the live world for who is connected, calls its service and addresses
  the replies. Requests and invitations wait in the listener, keyed by the character asked.
\<close>

section \<open>Friends\<close>

definition setFriendReq :: "u32 \<Rightarrow> pending_friend_req \<Rightarrow> map_server \<Rightarrow> map_server" where
  "setFriendReq acceptor req s = s\<lparr>ms_friendReqs := (ms_friendReqs s)(acceptor \<mapsto> req)\<rparr>"

definition takeFriendReq :: "u32 \<Rightarrow> map_server \<Rightarrow> pending_friend_req option \<times> map_server" where
  "takeFriendReq acceptor s =
     (ms_friendReqs s acceptor, s\<lparr>ms_friendReqs := (ms_friendReqs s)(acceptor := None)\<rparr>)"

definition friend_req_frame :: "u32 \<Rightarrow> u32 \<Rightarrow> string \<Rightarrow> frame" where
  "friend_req_frame aid cid name = encode_FriendsReqAddResponse
     \<lparr>FriendsReqAddResponse_AID = aid, FriendsReqAddResponse_CID = cid, FriendsReqAddResponse_Name = name\<rparr>"

definition friend_add_ack :: "u16 \<Rightarrow> u32 \<Rightarrow> u32 \<Rightarrow> string \<Rightarrow> frame" where
  "friend_add_ack result aid cid name = encode_FriendsAddResponse
     \<lparr>FriendsAddResponse_Result = result, FriendsAddResponse_AID = aid, FriendsAddResponse_CID = cid,
      FriendsAddResponse_Name = name\<rparr>"

definition friend_delete_frame :: "u32 \<Rightarrow> u32 \<Rightarrow> frame" where
  "friend_delete_frame aid cid = encode_FriendsDeleteResponse
     \<lparr>FriendsDeleteResponse_AID = aid, FriendsDeleteResponse_CID = cid\<rparr>"

definition FriendAddOK :: u16 where "FriendAddOK = 0"
definition FriendAddRefused :: u16 where "FriendAddRefused = 1"
definition FriendAddOwnListFull :: u16 where "FriendAddOwnListFull = 2"
definition FriendAddTheirListFull :: u16 where "FriendAddTheirListFull = 3"
definition FriendReplyAccept :: u32 where "FriendReplyAccept = 1"

text \<open>A service call on the listener's own service.\<close>

definition friend_do :: "(friend_repo \<Rightarrow> ('a, friend_repo) out) \<Rightarrow> map_server \<Rightarrow> 'a res \<times> map_server" where
  "friend_do g s = (case g (ms_friend s) of (r, x) \<Rightarrow> (r, s\<lparr>ms_friend := x\<rparr>))"

definition handleFriendsAdd :: "conn \<Rightarrow> map_auth option \<Rightarrow> frame \<Rightarrow> map_server \<Rightarrow> writes \<times> map_server" where
  "handleFriendsAdd c auth f s =
     (case (auth, ParseCZFriendsAdd f) of
        (Some a, Inr req) \<Rightarrow>
          (case PlayerByName (CZFriendsAdd_Name req) (ms_world s) of
             None \<Rightarrow> ([], s)
           | Some target \<Rightarrow>
               if en_ID target = ma_charID a then ([], s)
               else
                 (case connFor s (en_ID target) of
                    None \<Rightarrow> ([], s)
                  | Some tc \<Rightarrow>
                      (case friend_do (friend_List mem_friend_port (ma_charID a)) s of
                         (Inl _, s) \<Rightarrow> ([], s)
                       | (Inr friends, s) \<Rightarrow>
                           if list_ex (\<lambda>fr. fr_FriendCharID fr = en_ID target) friends then ([], s)
                           else if length friends \<ge> MaxFriends then
                             ([(c, friend_add_ack FriendAddOwnListFull (en_Account target) (en_ID target) (en_Name target))], s)
                           else
                             let name = playerName s (ma_charID a)
                             in ([(tc, friend_req_frame (ma_accountID a) (ma_charID a) name)],
                                 setFriendReq (en_ID target) \<lparr>fq_requesterCharID = ma_charID a,
                                   fq_requesterAccountID = ma_accountID a, fq_requesterName = name\<rparr> s))))
      | _ \<Rightarrow> ([], s))"

text \<open>
  What \<open>FriendService.Add\<close> hands back: the self check's own value, and every repository error inside
  \<open>fmt.Errorf("add friend pair: %w", err)\<close>, which \<open>==\<close> tells apart from its cause.
\<close>

definition friend_add_error :: "err \<Rightarrow> err" where
  "friend_add_error e = (if e = ErrFriendSelf then e else Joined (ErrText ''add friend pair'') e)"

definition handleFriendsReply :: "conn \<Rightarrow> map_auth option \<Rightarrow> frame \<Rightarrow> map_server \<Rightarrow> writes \<times> map_server" where
  "handleFriendsReply c auth f s =
     (case (auth, ParseCZFriendsReply f) of
        (Some a, Inr req) \<Rightarrow>
          (case takeFriendReq (ma_charID a) s of
             (None, s) \<Rightarrow> ([], s)
           | (Some invi, s) \<Rightarrow>
               if fq_requesterCharID invi \<noteq> CZFriendsReply_CID req \<or> fq_requesterAccountID invi \<noteq> CZFriendsReply_AID req
               then ([], s)
               else
                 (case connFor s (fq_requesterCharID invi) of
                    None \<Rightarrow> ([], s)
                  | Some rc \<Rightarrow>
                      let name = playerName s (ma_charID a);
                          ack = (\<lambda>result. (rc, friend_add_ack result (ma_accountID a) (ma_charID a) name));
                          own = (\<lambda>result. (c, friend_add_ack result (fq_requesterAccountID invi) (fq_requesterCharID invi)
                                   (fq_requesterName invi)))
                      in if CZFriendsReply_Reply req \<noteq> FriendReplyAccept then ([ack FriendAddRefused], s)
                         else
                           (case friend_do (friend_Add mem_friend_port (fq_requesterCharID invi) (ma_charID a)) s of
                              (Inr _, s) \<Rightarrow> ([ack FriendAddOK, own FriendAddOK], s)
                            | (Inl e, s) \<Rightarrow>
                                let err = friend_add_error e
                                in if err = ErrFriendListFull then ([ack FriendAddOwnListFull], s)
                                   else if err = ErrAcceptorListFull then
                                     ([ack FriendAddTheirListFull, own FriendAddOwnListFull], s)
                                   else ([ack FriendAddRefused], s))))
      | _ \<Rightarrow> ([], s))"

definition handleFriendsRemove :: "conn \<Rightarrow> map_auth option \<Rightarrow> frame \<Rightarrow> map_server \<Rightarrow> writes \<times> map_server" where
  "handleFriendsRemove c auth f s =
     (case (auth, ParseCZFriendsDelete f) of
        (Some a, Inr req) \<Rightarrow>
          (case friend_do (friend_List mem_friend_port (ma_charID a)) s of
             (Inl _, s) \<Rightarrow> ([], s)
           | (Inr friends, s) \<Rightarrow>
               (case find (\<lambda>fr. fr_FriendCharID fr = CZFriendsDelete_CID req \<and>
                               fr_FriendAccountID fr = CZFriendsDelete_AID req) friends of
                  None \<Rightarrow> ([], s)
                | Some target \<Rightarrow>
                    (case friend_do (friend_Remove mem_friend_port (ma_charID a) (fr_FriendCharID target)) s of
                       (Inl _, s) \<Rightarrow> ([], s)
                     | (Inr _, s) \<Rightarrow>
                         ((c, friend_delete_frame (fr_FriendAccountID target) (fr_FriendCharID target))
                          # to_char s (fr_FriendCharID target) (friend_delete_frame (ma_accountID a) (ma_charID a)), s))))
      | _ \<Rightarrow> ([], s))"

section \<open>Parties\<close>

definition setPartyInvite :: "u32 \<Rightarrow> pending_invite \<Rightarrow> map_server \<Rightarrow> map_server" where
  "setPartyInvite c invi s = s\<lparr>ms_partyInvites := (ms_partyInvites s)(c \<mapsto> invi)\<rparr>"

definition clearPartyInvite :: "u32 \<Rightarrow> map_server \<Rightarrow> map_server" where
  "clearPartyInvite c s = s\<lparr>ms_partyInvites := (ms_partyInvites s)(c := None)\<rparr>"

definition party_do :: "(party_repo \<Rightarrow> ('a, party_repo) out) \<Rightarrow> map_server \<Rightarrow> 'a res \<times> map_server" where
  "party_do g s = (case g (ms_party s) of (r, x) \<Rightarrow> (r, s\<lparr>ms_party := x\<rparr>))"

definition make_group_ack :: "byte \<Rightarrow> frame" where
  "make_group_ack result = encode_AckMakeGroupResponse \<lparr>AckMakeGroupResponse_Result = result\<rparr>"

definition join_req_frame :: "u32 \<Rightarrow> string \<Rightarrow> frame" where
  "join_req_frame partyID name = encode_PartyJoinReqResponse
     \<lparr>PartyJoinReqResponse_PartyID = partyID, PartyJoinReqResponse_PartyName = name\<rparr>"

definition join_req_ack :: "string \<Rightarrow> u32 \<Rightarrow> frame" where
  "join_req_ack name result = encode_PartyJoinReqAckResponse
     \<lparr>PartyJoinReqAckResponse_CharacterName = name, PartyJoinReqAckResponse_Result = result\<rparr>"

definition delete_member_frame :: "byte \<Rightarrow> u32 \<Rightarrow> string \<Rightarrow> frame" where
  "delete_member_frame result aid name = encode_DeleteMemberFromGroupResponse
     \<lparr>DeleteMemberFromGroupResponse_AID = aid, DeleteMemberFromGroupResponse_CharacterName = name,
      DeleteMemberFromGroupResponse_Result = result\<rparr>"

definition groupListFrame :: "party \<Rightarrow> party_member list \<Rightarrow> GroupListResponse" where
  "groupListFrame p members =
     \<lparr>GroupListResponse_PartyName = pt_Name p,
      GroupListResponse_Members = map (\<lambda>m. \<lparr>GroupListMember_AID = pm_AccountID m, GroupListMember_GID = pm_CharID m,
        GroupListMember_PlayerName = pm_Name m, GroupListMember_MapName = pm_Map m, GroupListMember_Leader = pm_Leader m,
        GroupListMember_Online = pm_Online m, GroupListMember_Class = pm_Class m,
        GroupListMember_BaseLevel = pm_BaseLevel m\<rparr>) members\<rparr>"

definition sendGroupList :: "map_server \<Rightarrow> conn \<Rightarrow> u32 \<Rightarrow> writes" where
  "sendGroupList s c i =
     (case (fst (party_Get mem_party_port i (ms_party s)), fst (party_Members mem_party_port i (ms_party s))) of
        (Inr p, Inr members) \<Rightarrow> [(c, encode_GroupListResponse (groupListFrame p members))]
      | _ \<Rightarrow> [])"

definition broadcastGroupList :: "map_server \<Rightarrow> u32 \<Rightarrow> writes" where
  "broadcastGroupList s i =
     (case (fst (party_Get mem_party_port i (ms_party s)), fst (party_Members mem_party_port i (ms_party s))) of
        (Inr p, Inr members) \<Rightarrow>
          concat (map (\<lambda>m. to_char s (pm_CharID m) (encode_GroupListResponse (groupListFrame p members))) members)
      | _ \<Rightarrow> [])"

definition makeGroupResult :: "err \<Rightarrow> byte" where
  "makeGroupResult e = (if errors_is e ErrAlreadyInParty then 2 else if errors_is e ErrEmptyPartyName then 1 else 1)"

definition joinReplyResult :: "err \<Rightarrow> u32" where
  "joinReplyResult e =
     (if errors_is e ErrPartyFull then 3 else if errors_is e ErrAlreadyInParty then 0
      else if errors_is e ErrPartyNotFound then 6 else 6)"

definition parse_make_group :: "frame \<Rightarrow> packet_error + CZMakeGroup" where
  "parse_make_group f = (case ParseCZMakeGroup f of Inr r \<Rightarrow> Inr r | Inl _ \<Rightarrow> ParseCZMakeGroup2 f)"

definition handleMakeGroup :: "conn \<Rightarrow> map_auth option \<Rightarrow> frame \<Rightarrow> map_server \<Rightarrow> writes \<times> map_server" where
  "handleMakeGroup c auth f s =
     (case (auth, parse_make_group f) of
        (Some a, Inr req) \<Rightarrow>
          (case party_do (party_Create mem_party_port (ma_accountID a) (ma_charID a) (CZMakeGroup_Name req)) s of
             (Inl e, s) \<Rightarrow> ([(c, make_group_ack (makeGroupResult e))], s)
           | (Inr p, s) \<Rightarrow> ((c, make_group_ack 0) # sendGroupList s c (pt_ID p), s))
      | _ \<Rightarrow> ([], s))"

definition handleReqJoinGroup :: "conn \<Rightarrow> map_auth option \<Rightarrow> frame \<Rightarrow> map_server \<Rightarrow> writes \<times> map_server" where
  "handleReqJoinGroup c auth f s =
     (case (auth, ParseCZReqJoinGroup f) of
        (Some a, Inr req) \<Rightarrow>
          (case party_do (party_GetByMember mem_party_port (ma_charID a)) s of
             (Inl _, s) \<Rightarrow> ([(c, join_req_ack [] 1)], s)
           | (Inr p, s) \<Rightarrow>
               if pt_LeaderChar p \<noteq> ma_charID a then ([(c, join_req_ack [] 1)], s)
               else
                 (case PlayerByAccount (CZReqJoinGroup_AID req) (ms_world s) of
                    None \<Rightarrow> ([(c, join_req_ack [] 7)], s)
                  | Some target \<Rightarrow>
                      (case connFor s (en_ID target) of
                         None \<Rightarrow> ([(c, join_req_ack (en_Name target) 1)], s)
                       | Some tc \<Rightarrow>
                           (case party_do (party_GetByMember mem_party_port (en_ID target)) s of
                              (Inr _, s) \<Rightarrow> ([(c, join_req_ack (en_Name target) 0)], s)
                            | (Inl _, s) \<Rightarrow>
                                (case party_do (party_Members mem_party_port (pt_ID p)) s of
                                   (Inl _, s) \<Rightarrow> ([], s)
                                 | (Inr members, s) \<Rightarrow>
                                     if length members \<ge> MaxPartySize then ([(c, join_req_ack (en_Name target) 3)], s)
                                     else ([(tc, join_req_frame (pt_ID p) (pt_Name p))],
                                           setPartyInvite (en_ID target)
                                             \<lparr>pi_partyID = pt_ID p, pi_inviterCharID = ma_charID a\<rparr> s))))))
      | _ \<Rightarrow> ([], s))"

definition handleJoinGroup :: "map_auth option \<Rightarrow> frame \<Rightarrow> map_server \<Rightarrow> writes \<times> map_server" where
  "handleJoinGroup auth f s =
     (case (auth, ParseCZJoinGroup f) of
        (Some a, Inr req) \<Rightarrow>
          (case ms_partyInvites s (ma_charID a) of
             None \<Rightarrow> ([], s)
           | Some invi \<Rightarrow>
               if pi_partyID invi \<noteq> CZJoinGroup_PartyID req then ([], s)
               else
                 let s1 = clearPartyInvite (ma_charID a) s;
                     tell = (\<lambda>s result. to_char s (pi_inviterCharID invi) (join_req_ack (playerName s (ma_charID a)) result))
                 in if CZJoinGroup_Flag req \<noteq> 1 then (tell s1 1, s1)
                    else
                      (case party_do (party_Accept mem_party_port (CZJoinGroup_PartyID req) (ma_charID a)) s1 of
                         (Inl e, s) \<Rightarrow> (tell s (joinReplyResult e), s)
                       | (Inr _, s) \<Rightarrow> (tell s 2 @ broadcastGroupList s (CZJoinGroup_PartyID req), s)))
      | _ \<Rightarrow> ([], s))"

definition handleLeaveGroup :: "conn \<Rightarrow> map_auth option \<Rightarrow> frame \<Rightarrow> map_server \<Rightarrow> writes \<times> map_server" where
  "handleLeaveGroup c auth f s =
     (case auth of
        None \<Rightarrow> ([], s)
      | Some a \<Rightarrow>
          (case party_do (party_GetByMember mem_party_port (ma_charID a)) s of
             (Inl _, s) \<Rightarrow> ([], s)
           | (Inr p, s) \<Rightarrow>
               (case party_do (party_Members mem_party_port (pt_ID p)) s of
                  (Inl _, s) \<Rightarrow> ([], s)
                | (Inr members, s) \<Rightarrow>
                    (case party_do (party_Leave mem_party_port (pt_ID p) (ma_charID a)) s of
                       (Inl _, s) \<Rightarrow> ([], s)
                     | (Inr _, s) \<Rightarrow>
                         ((if ma_charID a \<noteq> pt_LeaderChar p
                           then [(c, delete_member_frame 0 (ma_accountID a) (playerName s (ma_charID a)))] else [])
                          @ concat (map (\<lambda>m. if pm_CharID m = ma_charID a then []
                              else to_char s (pm_CharID m) (delete_member_frame 0 (pm_AccountID m) (pm_Name m))) members), s)))))"

definition handleExpelGroupMember :: "conn \<Rightarrow> map_auth option \<Rightarrow> frame \<Rightarrow> map_server \<Rightarrow> writes \<times> map_server" where
  "handleExpelGroupMember c auth f s =
     (case (auth, ParseCZReqExpelGroupMember f) of
        (Some a, Inr req) \<Rightarrow>
          let cant = [(c, delete_member_frame 3 (CZReqExpelGroupMember_AID req) (CZReqExpelGroupMember_Name req))]
          in (case party_do (party_GetByMember mem_party_port (ma_charID a)) s of
                (Inl _, s) \<Rightarrow> ([], s)
              | (Inr p, s) \<Rightarrow>
                  (case party_do (party_Members mem_party_port (pt_ID p)) s of
                     (Inl _, s) \<Rightarrow> ([], s)
                   | (Inr members, s) \<Rightarrow>
                       (case find (\<lambda>m. pm_AccountID m = CZReqExpelGroupMember_AID req \<and>
                                      pm_Name m = CZReqExpelGroupMember_Name req) members of
                          None \<Rightarrow> (cant, s)
                        | Some target \<Rightarrow>
                            (case party_do (party_Kick mem_party_port (pt_ID p) (ma_charID a) (pm_CharID target)) s of
                               (Inl _, s) \<Rightarrow> (cant, s)
                             | (Inr _, s) \<Rightarrow>
                                 let gone = delete_member_frame 1 (pm_AccountID target) (pm_Name target)
                                 in ((c, gone) # to_char s (pm_CharID target) gone @ broadcastGroupList s (pt_ID p), s)))))
      | _ \<Rightarrow> ([], s))"

definition handleChangeGroupExpOption :: "map_auth option \<Rightarrow> frame \<Rightarrow> map_server \<Rightarrow> writes \<times> map_server" where
  "handleChangeGroupExpOption auth f s =
     (case (auth, ParseCZChangeGroupExpOption f) of
        (Some a, Inr req) \<Rightarrow>
          (case party_do (party_GetByMember mem_party_port (ma_charID a)) s of
             (Inl _, s) \<Rightarrow> ([], s)
           | (Inr p, s) \<Rightarrow>
               (case party_do (party_SetOptions mem_party_port (pt_ID p) (ma_charID a)
                      (if CZChangeGroupExpOption_ExpFlag req \<noteq> 0 then 1 else 0) (pt_Item p)) s of
                  (Inl _, s) \<Rightarrow> ([], s)
                | (Inr _, s) \<Rightarrow> (broadcastGroupList s (pt_ID p), s)))
      | _ \<Rightarrow> ([], s))"

end
