(* ===== verification/GuildGate.thy ===== *)
theory GuildGate
  imports MapGate
begin

text \<open>
  The guild requests of the map listener (\<open>gateway/app/guild.go\<close>): the conversation around
  \<open>GuildService\<close>, the frames built from a guild and its roster, and who is sent what. Invitations wait
  in the listener, keyed by the character invited.
\<close>

section \<open>Invitations and frames\<close>

definition setGuildInvite :: "u32 \<Rightarrow> pending_guild_invite \<Rightarrow> map_server \<Rightarrow> map_server" where
  "setGuildInvite c invi s = s\<lparr>ms_guildInvites := (ms_guildInvites s)(c \<mapsto> invi)\<rparr>"

definition clearGuildInvite :: "u32 \<Rightarrow> map_server \<Rightarrow> map_server" where
  "clearGuildInvite c s = s\<lparr>ms_guildInvites := (ms_guildInvites s)(c := None)\<rparr>"

definition guild_do :: "(guild_repo \<Rightarrow> ('a, guild_repo) out) \<Rightarrow> map_server \<Rightarrow> 'a res \<times> map_server" where
  "guild_do g s = (case g (ms_guild s) of (r, x) \<Rightarrow> (r, s\<lparr>ms_guild := x\<rparr>))"

definition guildMode :: "bool \<Rightarrow> u32" where
  "guildMode master = (if master then 0x11 else 0)"

definition guildBelongInfo :: "guild \<Rightarrow> guild_member list \<Rightarrow> UpdateGDIDResponse" where
  "guildBelongInfo g members =
     (let (masterCID, isMaster) = (case find gm_Master members of None \<Rightarrow> (0, False) | Some m \<Rightarrow> (gm_CharID m, gm_Master m))
      in \<lparr>UpdateGDIDResponse_GuildID = gd_ID g, UpdateGDIDResponse_EmblemVersion = 0,
          UpdateGDIDResponse_Mode = guildMode isMaster, UpdateGDIDResponse_IsMaster = isMaster,
          UpdateGDIDResponse_InterSid = 0, UpdateGDIDResponse_GuildName = gd_Name g, UpdateGDIDResponse_MasterGID = masterCID\<rparr>)"

text \<open>The loop keeps the last master it meets and sums the levels in a Go \<open>int\<close>.\<close>

definition guildInfoFrame :: "guild \<Rightarrow> guild_member list \<Rightarrow> GuildInfoResponse" where
  "guildInfoFrame g members =
     (let (total, gid, nam) = fold (\<lambda>m (total, gid, nam).
            (total + uint (gm_BaseLevel m), if gm_Master m then gm_CharID m else gid, if gm_Master m then gm_Name m else nam))
            members (0, 0, [])
      in \<lparr>GuildInfoResponse_GuildID = gd_ID g, GuildInfoResponse_Level = ucast (gd_GuildLv g),
          GuildInfoResponse_UserNum = word_of_nat (length members), GuildInfoResponse_MaxUserNum = ucast (gd_MaxMember g),
          GuildInfoResponse_AvgLevel = (if members = [] then 0 else word_of_int (total div int (length members))),
          GuildInfoResponse_Exp = 0, GuildInfoResponse_MaxExp = 0, GuildInfoResponse_Point = 0,
          GuildInfoResponse_Honor = 0, GuildInfoResponse_Virtue = 0, GuildInfoResponse_EmblemVersion = 0,
          GuildInfoResponse_GuildName = gd_Name g, GuildInfoResponse_ManageLand = [], GuildInfoResponse_Zeny = 0,
          GuildInfoResponse_MasterGID = gid, GuildInfoResponse_MasterName = nam\<rparr>)"

definition guildMembersFrame :: "guild_member list \<Rightarrow> MemberMgrInfoResponse" where
  "guildMembersFrame members = \<lparr>MemberMgrInfoResponse_Members = map (\<lambda>m.
     \<lparr>GuildMemberInfo_AID = gm_AccountID m, GuildMemberInfo_GID = gm_CharID m, GuildMemberInfo_Head = 0,
      GuildMemberInfo_HeadPalette = 0, GuildMemberInfo_Sex = 0, GuildMemberInfo_Job = gm_Class m,
      GuildMemberInfo_Level = gm_BaseLevel m, GuildMemberInfo_Contribution = 0,
      GuildMemberInfo_State = (if gm_Online m then 1 else 0), GuildMemberInfo_Position = word_of_int (gm_Position m),
      GuildMemberInfo_LastLogin = 0, GuildMemberInfo_CharName = gm_Name m\<rparr>) members\<rparr>"

definition appendGuildBurst :: "map_server \<Rightarrow> frame \<Rightarrow> guild \<Rightarrow> frame" where
  "appendGuildBurst s buf g =
     (case fst (guild_Members mem_guild_port (gd_ID g) (ms_guild s)) of
        Inl _ \<Rightarrow> buf
      | Inr members \<Rightarrow> buf @ encode_UpdateGDIDResponse (guildBelongInfo g members)
          @ encode_GuildInfoResponse (guildInfoFrame g members)
          @ encode_MemberMgrInfoResponse (guildMembersFrame members))"

definition broadcastGuildMembers :: "map_server \<Rightarrow> u32 \<Rightarrow> writes" where
  "broadcastGuildMembers s i =
     (case fst (guild_Members mem_guild_port i (ms_guild s)) of
        Inl _ \<Rightarrow> []
      | Inr members \<Rightarrow>
          concat (map (\<lambda>m. to_char s (gm_CharID m) (encode_MemberMgrInfoResponse (guildMembersFrame members))) members))"

definition make_guild_ack :: "byte \<Rightarrow> frame" where
  "make_guild_ack result = encode_ResultMakeGuildResponse \<lparr>ResultMakeGuildResponse_Result = result\<rparr>"

definition guild_invite_ack :: "u32 \<Rightarrow> frame" where
  "guild_invite_ack result = encode_AckReqJoinGuildResponse \<lparr>AckReqJoinGuildResponse_Result = result\<rparr>"

definition guild_left_frame :: "u32 \<Rightarrow> string \<Rightarrow> frame" where
  "guild_left_frame gid reason = encode_AckLeaveGuildResponse \<lparr>AckLeaveGuildResponse_GID = gid, AckLeaveGuildResponse_Reason = reason\<rparr>"

definition guild_banned_frame :: "u32 \<Rightarrow> string \<Rightarrow> frame" where
  "guild_banned_frame gid reason = encode_AckBanGuildResponse \<lparr>AckBanGuildResponse_GID = gid, AckBanGuildResponse_Reason = reason\<rparr>"

definition createGuildResult :: "err \<Rightarrow> byte" where
  "createGuildResult e = (if errors_is e ErrAlreadyInGuild then 1 else if errors_is e ErrNameExists then 2 else 2)"

definition guildInviteResult :: "err \<Rightarrow> u32" where
  "guildInviteResult e = (if errors_is e ErrGuildFull then 3 else if errors_is e ErrAlreadyInGuild then 0 else 1)"

section \<open>The handlers\<close>

text \<open>The acknowledgement, then the burst; an empty burst is still a write.\<close>

definition handleCreateGuild :: "conn \<Rightarrow> map_auth option \<Rightarrow> frame \<Rightarrow> map_server \<Rightarrow> writes \<times> map_server" where
  "handleCreateGuild c auth f s =
     (case (auth, ParseCZCreateGuild f) of
        (Some a, Inr req) \<Rightarrow>
          if TrimSpace (CZCreateGuild_Name req) = [] then ([], s)
          else
            (case guild_do (guild_Create mem_guild_port (ma_accountID a) (ma_charID a) (CZCreateGuild_Name req)) s of
               (Inl e, s) \<Rightarrow> ([(c, make_guild_ack (createGuildResult e))], s)
             | (Inr g, s) \<Rightarrow> ([(c, make_guild_ack 0), (c, appendGuildBurst s [] g)], s))
      | _ \<Rightarrow> ([], s))"

definition handleGuildInvite :: "conn \<Rightarrow> map_auth option \<Rightarrow> frame \<Rightarrow> map_server \<Rightarrow> writes \<times> map_server" where
  "handleGuildInvite c auth f s =
     (case (auth, ParseCZReqJoinGuild f) of
        (Some a, Inr req) \<Rightarrow>
          (case guild_do (guild_GetByMember mem_guild_port (ma_charID a)) s of
             (Inl _, s) \<Rightarrow> ([(c, guild_invite_ack 1)], s)
           | (Inr g, s) \<Rightarrow>
               if gd_Master g \<noteq> ma_charID a then ([(c, guild_invite_ack 1)], s)
               else
                 (case PlayerByAccount (CZReqJoinGuild_AID req) (ms_world s) of
                    None \<Rightarrow> ([(c, guild_invite_ack 1)], s)
                  | Some target \<Rightarrow>
                      (case connFor s (en_ID target) of
                         None \<Rightarrow> ([(c, guild_invite_ack 1)], s)
                       | Some tc \<Rightarrow>
                           (case guild_do (guild_GetByMember mem_guild_port (en_ID target)) s of
                              (Inr _, s) \<Rightarrow> ([(c, guild_invite_ack 0)], s)
                            | (Inl _, s) \<Rightarrow>
                                (case guild_do (guild_Members mem_guild_port (gd_ID g)) s of
                                   (Inl _, s) \<Rightarrow> ([], s)
                                 | (Inr members, s) \<Rightarrow>
                                     if length members \<ge> unat (gd_MaxMember g) then ([(c, guild_invite_ack 3)], s)
                                     else ([(tc, encode_ReqJoinGuildResponse \<lparr>ReqJoinGuildResponse_GuildID = gd_ID g,
                                              ReqJoinGuildResponse_GuildName = gd_Name g\<rparr>)],
                                           setGuildInvite (en_ID target)
                                             \<lparr>gi_guildID = gd_ID g, gi_inviterCharID = ma_charID a\<rparr> s))))))
      | _ \<Rightarrow> ([], s))"

definition handleGuildReplyInvite :: "map_auth option \<Rightarrow> frame \<Rightarrow> map_server \<Rightarrow> writes \<times> map_server" where
  "handleGuildReplyInvite auth f s =
     (case (auth, ParseCZJoinGuild f) of
        (Some a, Inr req) \<Rightarrow>
          (case ms_guildInvites s (ma_charID a) of
             None \<Rightarrow> ([], s)
           | Some invi \<Rightarrow>
               if gi_guildID invi \<noteq> CZJoinGuild_GuildID req then ([], s)
               else
                 let s1 = clearGuildInvite (ma_charID a) s;
                     tell = (\<lambda>s result. to_char s (gi_inviterCharID invi) (guild_invite_ack result))
                 in if CZJoinGuild_Answer req \<noteq> 1 then (tell s1 1, s1)
                    else
                      (case guild_do (guild_Accept mem_guild_port (CZJoinGuild_GuildID req) (ma_charID a)) s1 of
                         (Inl e, s) \<Rightarrow> (tell s (guildInviteResult e), s)
                       | (Inr _, s) \<Rightarrow> (tell s 2 @ broadcastGuildMembers s (CZJoinGuild_GuildID req), s)))
      | _ \<Rightarrow> ([], s))"

text \<open>Both departures read the guild and its roster first and address whoever was on it.\<close>

definition guild_departure :: "map_auth \<Rightarrow> u32 \<Rightarrow> (u32 \<Rightarrow> guild_repo \<Rightarrow> (unit, guild_repo) out) \<Rightarrow> frame \<Rightarrow>
    map_server \<Rightarrow> writes \<times> map_server" where
  "guild_departure a claimed leave notice s =
     (case guild_do (guild_GetByMember mem_guild_port (ma_charID a)) s of
        (Inl _, s) \<Rightarrow> ([], s)
      | (Inr g, s) \<Rightarrow>
          if gd_ID g \<noteq> claimed then ([], s)
          else
            (case guild_do (guild_Members mem_guild_port (gd_ID g)) s of
               (Inl _, s) \<Rightarrow> ([], s)
             | (Inr members, s) \<Rightarrow>
                 (case guild_do (leave (gd_ID g)) s of
                    (Inl _, s) \<Rightarrow> ([], s)
                  | (Inr _, s) \<Rightarrow> (concat (map (\<lambda>m. to_char s (gm_CharID m) notice) members), s))))"

definition handleGuildLeave :: "map_auth option \<Rightarrow> frame \<Rightarrow> map_server \<Rightarrow> writes \<times> map_server" where
  "handleGuildLeave auth f s =
     (case (auth, ParseCZGuildLeave f) of
        (Some a, Inr req) \<Rightarrow>
          guild_departure a (CZGuildLeave_GuildID req) (\<lambda>i. guild_Leave mem_guild_port i (ma_charID a))
            (guild_left_frame (ma_charID a) (CZGuildLeave_Message req)) s
      | _ \<Rightarrow> ([], s))"

definition handleGuildBan :: "map_auth option \<Rightarrow> frame \<Rightarrow> map_server \<Rightarrow> writes \<times> map_server" where
  "handleGuildBan auth f s =
     (case (auth, ParseCZGuildBan f) of
        (Some a, Inr req) \<Rightarrow>
          guild_departure a (CZGuildLeave_GuildID req)
            (\<lambda>i. guild_Kick mem_guild_port i (ma_charID a) (CZGuildLeave_CID req))
            (guild_banned_frame (CZGuildLeave_CID req) (CZGuildLeave_Message req)) s
      | _ \<Rightarrow> ([], s))"

definition handleGuildBreak :: "conn \<Rightarrow> map_auth option \<Rightarrow> frame \<Rightarrow> map_server \<Rightarrow> writes \<times> map_server" where
  "handleGuildBreak c auth f s =
     (case (auth, ParseCZGuildBreak f) of
        (Some a, Inr req) \<Rightarrow>
          let answer = (\<lambda>n. [(c, encode_AckDisorganizeGuildResponse \<lparr>AckDisorganizeGuildResponse_Result = n\<rparr>)])
          in (case guild_do (guild_GetByMember mem_guild_port (ma_charID a)) s of
                (Inl _, s) \<Rightarrow> ([], s)
              | (Inr g, s) \<Rightarrow>
                  (case guild_do (guild_Break mem_guild_port (gd_ID g) (ma_charID a) (CZGuildBreak_Key req)) s of
                     (Inl e, s) \<Rightarrow> (if errors_is e ErrMembersOnline then answer 2 else [], s)
                   | (Inr _, s) \<Rightarrow> (answer 0, s)))
      | _ \<Rightarrow> ([], s))"

definition maxGuildChat :: nat where "maxGuildChat = 98"

definition handleGuildChat :: "map_auth option \<Rightarrow> frame \<Rightarrow> map_server \<Rightarrow> writes \<times> map_server" where
  "handleGuildChat auth f s =
     (case (auth, ParseCZGuildChat f) of
        (Some a, Inr msg) \<Rightarrow>
          let msg = take maxGuildChat msg;
              sender = playerName s (ma_charID a);
              line = (if sender = [] then msg else sender @ '' : '' @ msg)
          in (case guild_do (guild_GetByMember mem_guild_port (ma_charID a)) s of
                (Inl _, s) \<Rightarrow> ([], s)
              | (Inr g, s) \<Rightarrow>
                  (case guild_do (guild_Members mem_guild_port (gd_ID g)) s of
                     (Inl _, s) \<Rightarrow> ([], s)
                   | (Inr members, s) \<Rightarrow>
                       (case encode_GuildChatResponse \<lparr>GuildChatResponse_Message = line\<rparr> of
                          Inl _ \<Rightarrow> ([], s)
                        | Inr chat \<Rightarrow> (concat (map (\<lambda>m. to_char s (gm_CharID m) chat) members), s))))
      | _ \<Rightarrow> ([], s))"

definition handleGuildCheckMaster :: "conn \<Rightarrow> map_auth option \<Rightarrow> map_server \<Rightarrow> writes \<times> map_server" where
  "handleGuildCheckMaster c auth s =
     (case auth of
        None \<Rightarrow> ([], s)
      | Some a \<Rightarrow>
          (case guild_do (guild_GetByMember mem_guild_port (ma_charID a)) s of (r, s) \<Rightarrow>
             ([(c, encode_AckMenuInterfaceResponse \<lparr>AckMenuInterfaceResponse_IsMaster =
                 (case r of Inl _ \<Rightarrow> False | Inr g \<Rightarrow> gd_Master g = ma_charID a)\<rparr>)], s)))"

end
