(* ===== verification/NetGate.thy ===== *)
theory NetGate
  imports SocialGate GuildGate
begin

text \<open>
  The map listener at work (\<open>gateway/app/map.go\<close>, \<open>OnTraffic\<close> and \<open>OnClose\<close>): whole frames arrive with the
  identity their connection has at that moment, wait as goroutines, and run in any order; connections close
  at any time. The locale \<open>consent\<close> is what the three invitation protocols share: whoever belongs was
  there from the start, founded the group, or was invited and later took that invitation up. It is
  interpreted on friendships, parties and guilds.
\<close>

section \<open>Histories of a step relation\<close>

inductive traced :: "('s \<Rightarrow> 'e \<Rightarrow> 's \<Rightarrow> bool) \<Rightarrow> 's \<Rightarrow> 'e list \<Rightarrow> 's \<Rightarrow> bool" for step where
  none: "traced step s [] s"
| more: "traced step s tr t \<Longrightarrow> step t e u \<Longrightarrow> traced step s (tr @ [e]) u"

text \<open>An invitation was extended, and taken up later.\<close>

definition agreed :: "('e \<Rightarrow> 'c \<Rightarrow> 'i \<Rightarrow> bool) \<Rightarrow> ('e \<Rightarrow> 'c \<Rightarrow> 'i \<Rightarrow> 'm \<Rightarrow> bool) \<Rightarrow> 'e list \<Rightarrow> 'm \<Rightarrow> bool" where
  "agreed asks takes tr m \<longleftrightarrow> (\<exists>t1 ask t2 take t3 c i. tr = t1 @ ask # t2 @ take # t3 \<and> asks ask c i \<and> takes take c i m)"

lemma agreed_snoc:
  assumes "agreed asks takes tr m"
  shows "agreed asks takes (tr @ [e]) m"
proof -
  obtain t1 ask t2 take t3 c i where "tr = t1 @ ask # t2 @ take # t3" "asks ask c i" "takes take c i m"
    using assms by (auto simp: agreed_def)
  then have "tr @ [e] = t1 @ ask # t2 @ take # (t3 @ [e]) \<and> asks ask c i \<and> takes take c i m" by simp
  then show ?thesis unfolding agreed_def by blast
qed

lemma agreed_last:
  assumes "ask \<in> set tr" and "asks ask c i" and "takes e c i m"
  shows "agreed asks takes (tr @ [e]) m"
proof -
  obtain t1 t2 where "tr = t1 @ ask # t2"
    using assms(1) by (auto simp: in_set_conv_decomp)
  with assms have "tr @ [e] = t1 @ ask # t2 @ e # [] \<and> asks ask c i \<and> takes e c i m" by simp
  then show ?thesis unfolding agreed_def by blast
qed

locale consent =
  fixes step :: "'s \<Rightarrow> 'e \<Rightarrow> 's \<Rightarrow> bool" and pending :: "'s \<Rightarrow> 'c \<Rightarrow> 'i option" and joined :: "'s \<Rightarrow> 'm \<Rightarrow> bool"
    and asks :: "'e \<Rightarrow> 'c \<Rightarrow> 'i \<Rightarrow> bool" and founds :: "'e \<Rightarrow> 'm \<Rightarrow> bool" and takes :: "'e \<Rightarrow> 'c \<Rightarrow> 'i \<Rightarrow> 'm \<Rightarrow> bool"
  assumes new_pending: "step s e t \<Longrightarrow> pending t c = Some i \<Longrightarrow> pending s c = Some i \<or> asks e c i"
    and new_joined: "step s e t \<Longrightarrow> joined t m \<Longrightarrow> joined s m \<or> founds e m \<or> (\<exists>c i. pending s c = Some i \<and> takes e c i m)"
begin

lemma pending_asked:
  "traced step s tr t \<Longrightarrow> pending t c = Some i \<Longrightarrow> pending s c = Some i \<or> (\<exists>e\<in>set tr. asks e c i)"
proof (induction arbitrary: c i rule: traced.induct)
  case (more s tr t e u)
  then show ?case
    using new_pending [OF more.hyps(2) more.prems] by auto
qed simp

lemma joined_consented:
  "traced step s tr t \<Longrightarrow> (\<And>c. pending s c = None) \<Longrightarrow> joined t m \<Longrightarrow>
     joined s m \<or> (\<exists>e\<in>set tr. founds e m) \<or> agreed asks takes tr m"
proof (induction rule: traced.induct)
  case (more s tr t e u)
  from new_joined [OF more.hyps(2) more.prems(2)]
  consider "joined t m" | "founds e m" | c i where "pending t c = Some i" "takes e c i m" by blast
  then show ?case
  proof cases
    case 1
    then show ?thesis
      using more.IH [OF more.prems(1)] agreed_snoc [of asks takes tr m e] by auto
  next
    case (3 c i)
    then show ?thesis
      using pending_asked [OF more.hyps(1) 3(1)] more.prems(1) agreed_last [of _ tr asks c i takes e m] by auto
  qed auto
qed simp

end

section \<open>The listener\<close>

text \<open>The entries of the handler table this library models, under the names the framing dispatches on.\<close>

type_synonym gate_handler = "conn \<Rightarrow> map_auth option \<Rightarrow> frame \<Rightarrow> map_server \<Rightarrow> writes \<times> map_server"

definition enter_handlers :: "(string \<times> gate_handler) list" where
  "enter_handlers = [(''handleEnterFrame'', \<lambda>c _ f. map_handleEnter c f)]"

definition friend_handlers :: "(string \<times> gate_handler) list" where
  "friend_handlers = [(''handleFriendsAdd'', handleFriendsAdd), (''handleFriendsRemove'', handleFriendsRemove),
     (''handleFriendsReply'', handleFriendsReply)]"

definition party_handlers :: "(string \<times> gate_handler) list" where
  "party_handlers = [(''handleMakeGroup'', handleMakeGroup), (''handleReqJoinGroup'', handleReqJoinGroup),
     (''handleJoinGroup'', \<lambda>_. handleJoinGroup), (''handleLeaveGroup'', handleLeaveGroup),
     (''handleChangeGroupExpOption'', \<lambda>_. handleChangeGroupExpOption),
     (''handleExpelGroupMember'', handleExpelGroupMember)]"

definition guild_handlers :: "(string \<times> gate_handler) list" where
  "guild_handlers = [(''handleCreateGuild'', handleCreateGuild), (''handleGuildInvite'', handleGuildInvite),
     (''handleGuildReplyInvite'', \<lambda>_. handleGuildReplyInvite), (''handleGuildLeave'', \<lambda>_. handleGuildLeave),
     (''handleGuildBan'', \<lambda>_. handleGuildBan), (''handleGuildBreak'', handleGuildBreak),
     (''handleGuildChat'', \<lambda>_. handleGuildChat), (''handleGuildCheckMaster'', \<lambda>c a _. handleGuildCheckMaster c a)]"

definition gate_handlers :: "(string \<times> gate_handler) list" where
  "gate_handlers = enter_handlers @ friend_handlers @ party_handlers @ guild_handlers"

record net =
  nt_srv :: map_server
  nt_jobs :: "(conn \<times> map_auth option \<times> string \<times> frame) list"
  nt_out :: writes

datatype net_event =
    Arrived conn string frame
  | Ran conn "map_auth option" string frame
  | Closed conn
  | Issued session
  | Elsewhere

text \<open>
  A frame that the framing hands over (\<open>Dispatch fn f\<close>) waits with the identity read on the event loop; any
  waiting job may run next. \<open>Issued\<close> is the login side storing a session. \<open>Elsewhere\<close> is whatever the other
  handlers, the services and the world do to the rest of the state, the roster projections included.
\<close>

inductive net_step :: "net \<Rightarrow> net_event \<Rightarrow> net \<Rightarrow> bool" where
  arrive: "net_step n (Arrived c fn f) (n\<lparr>nt_jobs := nt_jobs n @ [(c, ms_context (nt_srv n) c, fn, f)]\<rparr>)"
| run: "nt_jobs n = js1 @ (c, auth, fn, f) # js2 \<Longrightarrow> map_of gate_handlers fn = Some h \<Longrightarrow>
    h c auth f (nt_srv n) = (w, s) \<Longrightarrow>
    net_step n (Ran c auth fn f) (n\<lparr>nt_srv := s, nt_jobs := js1 @ js2, nt_out := nt_out n @ w\<rparr>)"
| close: "map_OnClose c (nt_srv n) = (w, s) \<Longrightarrow> net_step n (Closed c) (n\<lparr>nt_srv := s, nt_out := nt_out n @ w\<rparr>)"
| issue: "net_step n (Issued se) (n\<lparr>nt_srv := (nt_srv n)\<lparr>ms_sess := snd (PutSession se (ms_sess (nt_srv n)))\<rparr>\<rparr>)"
| elsewhere: "net_step n Elsewhere (n\<lparr>nt_srv := (nt_srv n)\<lparr>ms_world := w, ms_rows := r, ms_spawn := sp,
    ms_openedShops := sh, ms_mailStaging := g, ms_friend := (ms_friend (nt_srv n))\<lparr>fr_chars := fc\<rparr>,
    ms_party := (ms_party (nt_srv n))\<lparr>pr_chars := pc\<rparr>, ms_guild := (ms_guild (nt_srv n))\<lparr>gr_chars := gc\<rparr>\<rparr>\<rparr>)"

section \<open>What each group of handlers touches\<close>

definition friend_only :: "map_server \<Rightarrow> map_server \<Rightarrow> bool" where
  "friend_only s t \<longleftrightarrow> t = s\<lparr>ms_friend := ms_friend t, ms_friendReqs := ms_friendReqs t\<rparr>"

definition party_only :: "map_server \<Rightarrow> map_server \<Rightarrow> bool" where
  "party_only s t \<longleftrightarrow> t = s\<lparr>ms_party := ms_party t, ms_partyInvites := ms_partyInvites t\<rparr>"

definition guild_only :: "map_server \<Rightarrow> map_server \<Rightarrow> bool" where
  "guild_only s t \<longleftrightarrow> t = s\<lparr>ms_guild := ms_guild t, ms_guildInvites := ms_guildInvites t\<rparr>"

lemma only_refl [simp]: "friend_only s s" "party_only s s" "guild_only s s"
  by (simp_all add: friend_only_def party_only_def guild_only_def)

lemma only_trans:
  "friend_only s t \<Longrightarrow> friend_only t u \<Longrightarrow> friend_only s u"
  "party_only s t \<Longrightarrow> party_only t u \<Longrightarrow> party_only s u"
  "guild_only s t \<Longrightarrow> guild_only t u \<Longrightarrow> guild_only s u"
  by (cases s; cases t; cases u; simp add: friend_only_def party_only_def guild_only_def)+

lemma service_only:
  "friend_do g1 s = (r1, t) \<Longrightarrow> friend_only s t"
  "party_do g2 s = (r2, t) \<Longrightarrow> party_only s t"
  "guild_do g3 s = (r3, t) \<Longrightarrow> guild_only s t"
  by (auto simp: friend_only_def party_only_def guild_only_def friend_do_def party_do_def guild_do_def split: prod.splits)

lemma pending_only [simp]:
  "friend_only s (setFriendReq c q s)" "friend_only s (snd (takeFriendReq c s))"
  "party_only s (setPartyInvite c i s)" "party_only s (clearPartyInvite c s)"
  "guild_only s (setGuildInvite c j s)" "guild_only s (clearGuildInvite c s)"
  by (simp_all add: friend_only_def party_only_def guild_only_def setFriendReq_def takeFriendReq_def
      setPartyInvite_def clearPartyInvite_def setGuildInvite_def clearGuildInvite_def)

lemma take_only: "takeFriendReq c s = (x, t) \<Longrightarrow> friend_only s t"
  using pending_only(2) [of s c] by simp

lemma answered_only:
  "party_do g2 (clearPartyInvite c s) = (r2, t) \<Longrightarrow> party_only s t"
  "guild_do g3 (clearGuildInvite c s) = (r3, t) \<Longrightarrow> guild_only s t"
  by (meson only_trans pending_only service_only)+

text \<open>Queries leave the services as they are.\<close>

lemma social_queries [simp]:
  "friend_do (friend_List mem_friend_port c) s = (fst (fr_List c (ms_friend s)), s)"
  "party_do (party_GetByMember mem_party_port c) s = (fst (pr_GetByMember c (ms_party s)), s)"
  "party_do (party_Members mem_party_port i) s = (fst (pr_Members i (ms_party s)), s)"
  "guild_do (guild_GetByMember mem_guild_port c) s = (fst (gr_GetByMember c (ms_guild s)), s)"
  "guild_do (guild_Members mem_guild_port i) s = (fst (gr_Members i (ms_guild s)), s)"
  by (simp_all add: friend_do_def party_do_def guild_do_def friend_List_def party_GetByMember_def party_Members_def
      guild_GetByMember_def guild_Members_def mem_friend_port_def mem_party_port_def mem_guild_port_def fr_List_def
      pr_GetByMember_def pr_Members_def gr_GetByMember_def gr_Members_def Let_def split: option.split prod.split)

lemma friend_handlers_only:
  "friend_only s (snd (handleFriendsAdd c a f s))"
  "friend_only s (snd (handleFriendsRemove c a f s))"
  "friend_only s (snd (handleFriendsReply c a f s))"
  unfolding handleFriendsAdd_def handleFriendsRemove_def handleFriendsReply_def Let_def
  by (auto split: option.splits sum.splits prod.splits dest: service_only take_only intro: only_trans)

lemma party_handlers_only:
  "party_only s (snd (handleMakeGroup c a f s))"
  "party_only s (snd (handleReqJoinGroup c a f s))"
  "party_only s (snd (handleJoinGroup a f s))"
  "party_only s (snd (handleLeaveGroup c a f s))"
  "party_only s (snd (handleChangeGroupExpOption a f s))"
  "party_only s (snd (handleExpelGroupMember c a f s))"
  unfolding handleMakeGroup_def handleReqJoinGroup_def handleJoinGroup_def handleLeaveGroup_def
    handleChangeGroupExpOption_def handleExpelGroupMember_def Let_def
  by (auto split: option.splits sum.splits prod.splits dest: service_only answered_only intro: only_trans)

lemma guild_departure_only: "guild_only s (snd (guild_departure a cl lv nt s))"
  unfolding guild_departure_def
  by (auto split: option.splits sum.splits prod.splits dest: service_only answered_only intro: only_trans)

lemma guild_handlers_only:
  "guild_only s (snd (handleCreateGuild c a f s))"
  "guild_only s (snd (handleGuildInvite c a f s))"
  "guild_only s (snd (handleGuildReplyInvite a f s))"
  "guild_only s (snd (handleGuildLeave a f s))"
  "guild_only s (snd (handleGuildBan a f s))"
  "guild_only s (snd (handleGuildBreak c a f s))"
  "guild_only s (snd (handleGuildChat a f s))"
  "guild_only s (snd (handleGuildCheckMaster c a s))"
  unfolding handleCreateGuild_def handleGuildInvite_def handleGuildReplyInvite_def handleGuildLeave_def
    handleGuildBan_def handleGuildBreak_def handleGuildChat_def handleGuildCheckMaster_def Let_def
  by (auto split: option.splits sum.splits prod.splits dest: service_only answered_only intro: only_trans guild_departure_only)

text \<open>Entering and leaving touch none of the three services.\<close>

definition world_only :: "map_server \<Rightarrow> map_server \<Rightarrow> bool" where
  "world_only s t \<longleftrightarrow> t = s\<lparr>ms_world := ms_world t, ms_rows := ms_rows t, ms_context := ms_context t, ms_conns := ms_conns t\<rparr>"

lemma enter_only: "world_only s (snd (map_handleEnter c f s))"
  unfolding map_handleEnter_def Let_def registerConn_def
  by (auto simp: world_only_def split: sum.splits prod.splits)

definition leaving_only :: "map_server \<Rightarrow> map_server \<Rightarrow> bool" where
  "leaving_only s t \<longleftrightarrow> ms_friend t = ms_friend s \<and> ms_party t = ms_party s \<and> ms_guild t = ms_guild s \<and> ms_sess t = ms_sess s \<and>
     (\<forall>c i. ms_friendReqs t c = Some i \<longrightarrow> ms_friendReqs s c = Some i) \<and>
     (\<forall>c i. ms_partyInvites t c = Some i \<longrightarrow> ms_partyInvites s c = Some i) \<and>
     (\<forall>c i. ms_guildInvites t c = Some i \<longrightarrow> ms_guildInvites s c = Some i) \<and>
     (\<forall>c a. ms_context t c = Some a \<longrightarrow> ms_context s c = Some a)"

lemma clear_for_Some: "clear_for sender c m k = Some i \<longleftrightarrow> m k = Some i \<and> k \<noteq> c \<and> sender i \<noteq> c"
  by (auto simp: clear_for_def split: option.splits)

lemmas unregister_defs = unregisterConn_def clearMailSlot_def clearGuildInvitesFor_def clearFriendReqsFor_def clearPartyInvitesFor_def

lemma close_only: "leaving_only s (snd (map_OnClose c s))"
  unfolding map_OnClose_def Let_def unregister_defs leaving_only_def
  by (auto simp: clear_for_Some split: option.splits sum.splits prod.splits if_splits)

end
