(* ===== verification/SocialRuns.thy ===== *)
theory SocialRuns
  imports NetGate
begin

text \<open>
  What the social requests of the map listener guarantee over whole runs, and what they answer: nobody becomes
  a friend, a party member or a guild member without both sides acting, for the very group that is joined; an identity on the map listener rests
  on a session; a closed connection takes its invitations with it. The last properties show the answers that
  differ from what the handlers announce.
\<close>

section \<open>The three protocols\<close>

fun friend_asks :: "net_event \<Rightarrow> u32 \<Rightarrow> pending_friend_req \<Rightarrow> bool" where
  "friend_asks (Ran k (Some a) fn f) c i \<longleftrightarrow>
     fn = ''handleFriendsAdd'' \<and> fq_requesterCharID i = ma_charID a \<and> fq_requesterAccountID i = ma_accountID a"
| "friend_asks _ c i \<longleftrightarrow> False"

fun friend_takes :: "net_event \<Rightarrow> u32 \<Rightarrow> pending_friend_req \<Rightarrow> u32 \<times> u32 \<Rightarrow> bool" where
  "friend_takes (Ran k (Some a) fn f) c i m \<longleftrightarrow> fn = ''handleFriendsReply'' \<and> ma_charID a = c \<and>
     (case ParseCZFriendsReply f of
        Inl _ \<Rightarrow> False
      | Inr r \<Rightarrow> CZFriendsReply_Reply r = FriendReplyAccept \<and> CZFriendsReply_CID r = fq_requesterCharID i \<and>
          CZFriendsReply_AID r = fq_requesterAccountID i) \<and>
     (m = (c, fq_requesterCharID i) \<or> m = (fq_requesterCharID i, c))"
| "friend_takes _ c i m \<longleftrightarrow> False"

text \<open>
  Parties and guilds: what is asked and founded is read off the listener before and after the step. Founding
  makes the next free group, led by the founder. An invitation is the leader's: a request that names the account
  of the player invited, run while the inviter leads the group the invitation is for.
\<close>

type_synonym transition = "map_server \<times> net_event \<times> map_server"

definition net_trans :: "net \<Rightarrow> transition \<Rightarrow> net \<Rightarrow> bool" where
  "net_trans n x n' \<longleftrightarrow> (\<exists>e. x = (nt_srv n, e, nt_srv n') \<and> net_step n e n')"

fun party_founds :: "transition \<Rightarrow> u32 \<times> u32 \<Rightarrow> bool" where
  "party_founds (s, Ran k (Some a) fn f, t) (c, g) \<longleftrightarrow> fn = ''handleMakeGroup'' \<and> ma_charID a = c \<and>
     g = pr_next (ms_party s) + 1 \<and> (\<exists>p. pr_parties (ms_party t) g = Some p \<and> pt_ID p = g \<and> pt_LeaderChar p = c)"
| "party_founds _ _ \<longleftrightarrow> False"

fun party_asks :: "transition \<Rightarrow> u32 \<Rightarrow> pending_invite \<Rightarrow> bool" where
  "party_asks (s, Ran k (Some a) fn f, t) c i \<longleftrightarrow> fn = ''handleReqJoinGroup'' \<and> pi_inviterCharID i = ma_charID a \<and>
     (\<exists>req e p. ParseCZReqJoinGroup f = Inr req \<and> PlayerByAccount (CZReqJoinGroup_AID req) (ms_world s) = Some e \<and>
        en_ID e = c \<and> fst (pr_GetByMember (ma_charID a) (ms_party s)) = Inr p \<and> pt_LeaderChar p = ma_charID a \<and>
        pi_partyID i = pt_ID p)"
| "party_asks _ c i \<longleftrightarrow> False"

fun party_takes :: "transition \<Rightarrow> u32 \<Rightarrow> pending_invite \<Rightarrow> u32 \<times> u32 \<Rightarrow> bool" where
  "party_takes (s, Ran k (Some a) fn f, t) c i m \<longleftrightarrow> fn = ''handleJoinGroup'' \<and> ma_charID a = c \<and>
     (case ParseCZJoinGroup f of
        Inl _ \<Rightarrow> False | Inr r \<Rightarrow> CZJoinGroup_Flag r = 1 \<and> CZJoinGroup_PartyID r = pi_partyID i) \<and> m = (c, pi_partyID i)"
| "party_takes _ c i m \<longleftrightarrow> False"

fun guild_founds :: "transition \<Rightarrow> u32 \<times> u32 \<Rightarrow> bool" where
  "guild_founds (s, Ran k (Some a) fn f, t) (c, g) \<longleftrightarrow> fn = ''handleCreateGuild'' \<and> ma_charID a = c \<and>
     g = gr_next (ms_guild s) + 1 \<and> (\<exists>p. map_of (gr_guilds (ms_guild t)) g = Some p \<and> gd_ID p = g \<and> gd_Master p = c)"
| "guild_founds _ _ \<longleftrightarrow> False"

fun guild_asks :: "transition \<Rightarrow> u32 \<Rightarrow> pending_guild_invite \<Rightarrow> bool" where
  "guild_asks (s, Ran k (Some a) fn f, t) c i \<longleftrightarrow> fn = ''handleGuildInvite'' \<and> gi_inviterCharID i = ma_charID a \<and>
     (\<exists>req e g. ParseCZReqJoinGuild f = Inr req \<and> PlayerByAccount (CZReqJoinGuild_AID req) (ms_world s) = Some e \<and>
        en_ID e = c \<and> fst (gr_GetByMember (ma_charID a) (ms_guild s)) = Inr g \<and> gd_Master g = ma_charID a \<and>
        gi_guildID i = gd_ID g)"
| "guild_asks _ c i \<longleftrightarrow> False"

fun guild_takes :: "transition \<Rightarrow> u32 \<Rightarrow> pending_guild_invite \<Rightarrow> u32 \<times> u32 \<Rightarrow> bool" where
  "guild_takes (s, Ran k (Some a) fn f, t) c i m \<longleftrightarrow> fn = ''handleGuildReplyInvite'' \<and> ma_charID a = c \<and>
     (case ParseCZJoinGuild f of
        Inl _ \<Rightarrow> False | Inr r \<Rightarrow> CZJoinGuild_Answer r = 1 \<and> CZJoinGuild_GuildID r = gi_guildID i) \<and> m = (c, gi_guildID i)"
| "guild_takes _ c i m \<longleftrightarrow> False"

definition befriended :: "map_server \<Rightarrow> u32 \<times> u32 \<Rightarrow> bool" where
  "befriended s = (\<lambda>(x, y). y \<in> set (friends_of (ms_friend s) x))"

definition in_party :: "map_server \<Rightarrow> u32 \<times> u32 \<Rightarrow> bool" where
  "in_party s m \<longleftrightarrow> m \<in> set (pr_members (ms_party s))"

definition in_guild :: "map_server \<Rightarrow> u32 \<times> u32 \<Rightarrow> bool" where
  "in_guild s m \<longleftrightarrow> m \<in> set (gr_roster (ms_guild s))"

section \<open>What a service call adds\<close>

lemma friends_of_update:
  "friends_of (addOneLocked o1 f r) x = (if x = o1 then List.insert f (friends_of r o1) else friends_of r x)"
  "friends_of (dropOne o1 f r) x = (if x = o1 then removeAll f (friends_of r o1) else friends_of r x)"
  by (simp_all add: addOneLocked_def dropOne_def friends_of_def split: option.split)

lemma fr_Add_new:
  "fr_Add a b r = (q, r') \<Longrightarrow> y \<in> set (friends_of r' x) \<Longrightarrow> y \<in> set (friends_of r x) \<or> (x, y) = (a, b) \<or> (x, y) = (b, a)"
  by (auto simp: fr_Add_def friends_of_update split: if_splits)

lemma fr_Remove_old: "fr_Remove a b r = (q, r') \<Longrightarrow> y \<in> set (friends_of r' x) \<Longrightarrow> y \<in> set (friends_of r x)"
  by (auto simp: fr_Remove_def friends_of_update split: if_splits)

lemma friend_calls:
  "friend_do (friend_Add mem_friend_port a b) s = (r, t) \<Longrightarrow> befriended t m \<Longrightarrow> befriended s m \<or> m = (a, b) \<or> m = (b, a)"
  "friend_do (friend_Remove mem_friend_port a b) s = (q, t) \<Longrightarrow> befriended t m \<Longrightarrow> befriended s m"
  by (cases m, auto simp: friend_do_def friend_Add_def friend_Remove_def mem_friend_port_def befriended_def
      dest: fr_Add_new fr_Remove_old split: prod.splits if_splits)+

lemma roster_update: "m \<in> set (AList.update k v al) \<Longrightarrow> m \<in> set al \<or> m = (k, v)"
  by (induction al) (auto split: if_splits)

lemma roster_delete: "m \<in> set (AList.delete k al) \<Longrightarrow> m \<in> set al"
  by (auto simp: AList.delete_eq)

lemma and_then_cases:
  assumes "and_then r f = (x, t)"
  obtains e where "r = (Inl e, t)" and "x = Inl e" | y s where "r = (Inr y, s)" and "f y s = (x, t)"
  using assms by (cases "(r, f)" rule: and_then.cases) auto

lemma pr_calls:
  "pr_Create acc c name r = (x1, r') \<Longrightarrow> m \<in> set (pr_members r') \<Longrightarrow> m \<in> set (pr_members r) \<or>
     m = (c, pr_next r + 1) \<and> (\<exists>p. pr_parties r' (pr_next r + 1) = Some p \<and> pt_ID p = pr_next r + 1 \<and> pt_LeaderChar p = c)"
  "pr_AddMember i c r = (x2, r') \<Longrightarrow> m \<in> set (pr_members r') \<Longrightarrow> m \<in> set (pr_members r) \<or> m = (c, i)"
  "pr_RemoveMember i c r = (x3, r') \<Longrightarrow> m \<in> set (pr_members r') \<Longrightarrow> m \<in> set (pr_members r)"
  "pr_SetOptions i ex it r = (x4, r') \<Longrightarrow> m \<in> set (pr_members r') \<Longrightarrow> m \<in> set (pr_members r)"
  "pr_Get i r = (x5, r') \<Longrightarrow> r' = r"
  by (auto simp: pr_Create_def pr_AddMember_def pr_RemoveMember_def pr_SetOptions_def pr_Get_def Let_def
      dest!: roster_update roster_delete split: if_splits option.splits)

lemma party_calls_rel:
  "party_do (party_Create mem_party_port acc c name) s = (x1, t) \<Longrightarrow> in_party t m \<Longrightarrow> in_party s m \<or>
     m = (c, pr_next (ms_party s) + 1) \<and> (\<exists>p. pr_parties (ms_party t) (pr_next (ms_party s) + 1) = Some p \<and>
       pt_ID p = pr_next (ms_party s) + 1 \<and> pt_LeaderChar p = c)"
  "party_do (party_Accept mem_party_port i c) s = (x2, t) \<Longrightarrow> in_party t m \<Longrightarrow> in_party s m \<or> m = (c, i)"
  "party_do (party_Leave mem_party_port i c) s = (x3, t) \<Longrightarrow> in_party t m \<Longrightarrow> in_party s m"
  "party_do (party_Kick mem_party_port i a c) s = (x4, t) \<Longrightarrow> in_party t m \<Longrightarrow> in_party s m"
  "party_do (party_SetOptions mem_party_port i a ex it) s = (x5, t) \<Longrightarrow> in_party t m \<Longrightarrow> in_party s m"
  by (auto simp: party_do_def party_Create_def party_Accept_def party_Leave_def party_Kick_def party_SetOptions_def
      mem_party_port_def in_party_def Let_def elim!: and_then_cases dest!: pr_calls split: prod.splits if_splits)

lemma gr_calls:
  "gr_Create acc c name r = (x1, r') \<Longrightarrow> m \<in> set (gr_roster r') \<Longrightarrow> m \<in> set (gr_roster r) \<or>
     m = (c, gr_next r + 1) \<and>
     (\<exists>g. map_of (gr_guilds r') (gr_next r + 1) = Some g \<and> gd_ID g = gr_next r + 1 \<and> gd_Master g = c)"
  "gr_AddMember i c r = (x2, r') \<Longrightarrow> m \<in> set (gr_roster r') \<Longrightarrow> m \<in> set (gr_roster r) \<or> m = (c, i)"
  "gr_RemoveMember i c r = (x3, r') \<Longrightarrow> m \<in> set (gr_roster r') \<Longrightarrow> m \<in> set (gr_roster r)"
  "gr_Break i r = (x4, r') \<Longrightarrow> m \<in> set (gr_roster r') \<Longrightarrow> m \<in> set (gr_roster r)"
  "gr_Get i r = (x5, r') \<Longrightarrow> r' = r"
  "gr_Members i r = (x6, r') \<Longrightarrow> r' = r"
  by (auto simp: gr_Create_def gr_AddMember_def gr_RemoveMember_def gr_Break_def gr_Get_def gr_Members_def Let_def
      dest!: roster_update roster_delete split: if_splits option.splits)

lemma guild_calls_rel:
  "guild_do (guild_Create mem_guild_port acc c name) s = (x1, t) \<Longrightarrow> in_guild t m \<Longrightarrow> in_guild s m \<or>
     m = (c, gr_next (ms_guild s) + 1) \<and> (\<exists>g. map_of (gr_guilds (ms_guild t)) (gr_next (ms_guild s) + 1) = Some g \<and>
       gd_ID g = gr_next (ms_guild s) + 1 \<and> gd_Master g = c)"
  "guild_do (guild_Accept mem_guild_port i c) s = (x2, t) \<Longrightarrow> in_guild t m \<Longrightarrow> in_guild s m \<or> m = (c, i)"
  "guild_do (guild_Leave mem_guild_port i c) s = (x3, t) \<Longrightarrow> in_guild t m \<Longrightarrow> in_guild s m"
  "guild_do (guild_Kick mem_guild_port i a c) s = (x4, t) \<Longrightarrow> in_guild t m \<Longrightarrow> in_guild s m"
  "guild_do (guild_Break mem_guild_port i a key) s = (x5, t) \<Longrightarrow> in_guild t m \<Longrightarrow> in_guild s m"
  by (auto simp: guild_do_def guild_Create_def guild_Accept_def guild_Leave_def guild_Kick_def guild_Break_def
      mem_guild_port_def in_guild_def Let_def elim!: and_then_cases dest!: gr_calls split: prod.splits if_splits)

section \<open>What a handler adds\<close>

lemma friend_slots [simp]:
  "befriended (setFriendReq c q s) = befriended s"
  "befriended (s\<lparr>ms_friendReqs := fq\<rparr>) = befriended s"
  "ms_friendReqs (setFriendReq c q s) = (ms_friendReqs s)(c \<mapsto> q)"
  by (simp_all add: setFriendReq_def befriended_def)

lemma party_slots [simp]:
  "in_party (setPartyInvite c i s) = in_party s" "in_party (clearPartyInvite c s) = in_party s"
  "ms_partyInvites (setPartyInvite c i s) = (ms_partyInvites s)(c \<mapsto> i)"
  "ms_partyInvites (clearPartyInvite c s) = (ms_partyInvites s)(c := None)"
  by (simp_all add: setPartyInvite_def clearPartyInvite_def in_party_def fun_eq_iff)

lemma guild_slots [simp]:
  "in_guild (setGuildInvite c j s) = in_guild s" "in_guild (clearGuildInvite c s) = in_guild s"
  "ms_guildInvites (setGuildInvite c j s) = (ms_guildInvites s)(c \<mapsto> j)"
  "ms_guildInvites (clearGuildInvite c s) = (ms_guildInvites s)(c := None)"
  by (simp_all add: setGuildInvite_def clearGuildInvite_def in_guild_def fun_eq_iff)

lemma service_pending:
  "friend_do g1 s = (r1, t) \<Longrightarrow> ms_friendReqs t = ms_friendReqs s"
  "party_do g2 s = (r2, t) \<Longrightarrow> ms_partyInvites t = ms_partyInvites s"
  "guild_do g3 s = (r3, t) \<Longrightarrow> ms_guildInvites t = ms_guildInvites s"
  by (auto simp: friend_do_def party_do_def guild_do_def split: prod.splits)

lemma friend_pending:
  "ms_friendReqs (snd (handleFriendsAdd k au f s)) c = Some i \<Longrightarrow>
     ms_friendReqs s c = Some i \<or> friend_asks (Ran k au ''handleFriendsAdd'' f) c i"
  "ms_friendReqs (snd (handleFriendsRemove k au f s)) c = Some i \<Longrightarrow> ms_friendReqs s c = Some i"
  "ms_friendReqs (snd (handleFriendsReply k au f s)) c = Some i \<Longrightarrow> ms_friendReqs s c = Some i"
  unfolding handleFriendsAdd_def handleFriendsRemove_def handleFriendsReply_def Let_def takeFriendReq_def
  by (auto split: option.splits sum.splits prod.splits if_splits dest!: service_pending)

lemma friend_joins:
  "befriended (snd (handleFriendsAdd k au f s)) m \<Longrightarrow> befriended s m"
  "befriended (snd (handleFriendsRemove k au f s)) m \<Longrightarrow> befriended s m"
  unfolding handleFriendsAdd_def handleFriendsRemove_def Let_def
  by (auto split: option.splits sum.splits prod.splits if_splits dest: friend_calls)

lemma friend_joins_reply:
  "befriended (snd (handleFriendsReply k au f s)) m \<Longrightarrow>
     befriended s m \<or> (\<exists>c i. ms_friendReqs s c = Some i \<and> friend_takes (Ran k au ''handleFriendsReply'' f) c i m)"
  unfolding handleFriendsReply_def Let_def takeFriendReq_def
  by (auto split: option.splits sum.splits prod.splits if_splits dest!: friend_calls)

lemma party_pending:
  "ms_partyInvites (snd (handleMakeGroup k au f s)) = ms_partyInvites s"
  "ms_partyInvites (snd (handleReqJoinGroup k au f s)) c = Some i \<Longrightarrow>
     ms_partyInvites s c = Some i \<or> party_asks (s, Ran k au ''handleReqJoinGroup'' f, snd (handleReqJoinGroup k au f s)) c i"
  "ms_partyInvites (snd (handleJoinGroup au f s)) c = Some i \<Longrightarrow> ms_partyInvites s c = Some i"
  "ms_partyInvites (snd (handleLeaveGroup k au f s)) = ms_partyInvites s"
  "ms_partyInvites (snd (handleChangeGroupExpOption au f s)) = ms_partyInvites s"
  "ms_partyInvites (snd (handleExpelGroupMember k au f s)) = ms_partyInvites s"
  unfolding handleMakeGroup_def handleReqJoinGroup_def handleJoinGroup_def handleLeaveGroup_def
    handleChangeGroupExpOption_def handleExpelGroupMember_def Let_def
  by (auto split: option.splits sum.splits prod.splits if_splits dest!: service_pending)

lemma party_joins:
  "in_party (snd (handleMakeGroup k au f s)) m \<Longrightarrow> in_party s m \<or>
     party_founds (s, Ran k au ''handleMakeGroup'' f, snd (handleMakeGroup k au f s)) m"
  "in_party (snd (handleReqJoinGroup k au f s)) m \<Longrightarrow> in_party s m"
  "in_party (snd (handleLeaveGroup k au f s)) m \<Longrightarrow> in_party s m"
  "in_party (snd (handleChangeGroupExpOption au f s)) m \<Longrightarrow> in_party s m"
  "in_party (snd (handleExpelGroupMember k au f s)) m \<Longrightarrow> in_party s m"
  unfolding handleMakeGroup_def handleReqJoinGroup_def handleLeaveGroup_def
    handleChangeGroupExpOption_def handleExpelGroupMember_def Let_def
  by (cases m; auto split: option.splits sum.splits prod.splits if_splits dest: party_calls_rel)+

lemma party_joins_reply:
  "in_party (snd (handleJoinGroup au f s)) m \<Longrightarrow>
     in_party s m \<or> (\<exists>c i. ms_partyInvites s c = Some i \<and> party_takes (s, Ran k au ''handleJoinGroup'' f, t) c i m)"
  unfolding handleJoinGroup_def Let_def
  by (auto split: option.splits sum.splits prod.splits if_splits dest!: party_calls_rel)

lemma guild_pending:
  "ms_guildInvites (snd (handleCreateGuild k au f s)) = ms_guildInvites s"
  "ms_guildInvites (snd (handleGuildInvite k au f s)) c = Some i \<Longrightarrow>
     ms_guildInvites s c = Some i \<or> guild_asks (s, Ran k au ''handleGuildInvite'' f, snd (handleGuildInvite k au f s)) c i"
  "ms_guildInvites (snd (handleGuildReplyInvite au f s)) c = Some i \<Longrightarrow> ms_guildInvites s c = Some i"
  "ms_guildInvites (snd (guild_departure a cl lv nt s)) = ms_guildInvites s"
  "ms_guildInvites (snd (handleGuildBreak k au f s)) = ms_guildInvites s"
  unfolding handleCreateGuild_def handleGuildInvite_def handleGuildReplyInvite_def guild_departure_def
    handleGuildBreak_def Let_def
  by (auto split: option.splits sum.splits prod.splits if_splits dest!: service_pending)

lemma guild_departure_joins:
  assumes "\<And>i x t. guild_do (lv i) s = (x, t) \<Longrightarrow> in_guild t m \<Longrightarrow> in_guild s m"
  shows "in_guild (snd (guild_departure a cl lv nt s)) m \<Longrightarrow> in_guild s m"
  using assms unfolding guild_departure_def by (auto split: option.splits sum.splits prod.splits if_splits)

lemma guild_joins:
  "in_guild (snd (handleCreateGuild k au f s)) m \<Longrightarrow> in_guild s m \<or>
     guild_founds (s, Ran k au ''handleCreateGuild'' f, snd (handleCreateGuild k au f s)) m"
  "in_guild (snd (handleGuildInvite k au f s)) m \<Longrightarrow> in_guild s m"
  "in_guild (snd (handleGuildBreak k au f s)) m \<Longrightarrow> in_guild s m"
  unfolding handleCreateGuild_def handleGuildInvite_def handleGuildBreak_def Let_def
  by (cases m; auto split: option.splits sum.splits prod.splits if_splits dest: guild_calls_rel)+

lemma guild_leaves:
  "in_guild (snd (handleGuildLeave au f s)) m \<Longrightarrow> in_guild s m"
  "in_guild (snd (handleGuildBan au f s)) m \<Longrightarrow> in_guild s m"
  "ms_guildInvites (snd (handleGuildLeave au f s)) = ms_guildInvites s"
  "ms_guildInvites (snd (handleGuildBan au f s)) = ms_guildInvites s"
  unfolding handleGuildLeave_def handleGuildBan_def
  by (auto simp: guild_pending split: option.splits sum.splits
      elim!: guild_departure_joins [rotated] dest: guild_calls_rel)

lemma guild_reads:
  "snd (handleGuildChat au f s) = s" "snd (handleGuildCheckMaster k au s) = s"
  by (auto simp: handleGuildChat_def handleGuildCheckMaster_def Let_def split: option.splits sum.splits prod.splits)

lemma guild_joins_reply:
  "in_guild (snd (handleGuildReplyInvite au f s)) m \<Longrightarrow>
     in_guild s m \<or> (\<exists>c i. ms_guildInvites s c = Some i \<and> guild_takes (s, Ran k au ''handleGuildReplyInvite'' f, t) c i m)"
  unfolding handleGuildReplyInvite_def Let_def
  by (auto split: option.splits sum.splits prod.splits if_splits dest!: guild_calls_rel)

section \<open>What the other groups leave alone\<close>

lemma only_keeps:
  "friend_only s t \<Longrightarrow> in_party t = in_party s \<and> ms_partyInvites t = ms_partyInvites s \<and> in_guild t = in_guild s \<and>
     ms_guildInvites t = ms_guildInvites s \<and> ms_context t = ms_context s \<and> ms_conns t = ms_conns s \<and> ms_sess t = ms_sess s"
  "party_only s t \<Longrightarrow> befriended t = befriended s \<and> ms_friendReqs t = ms_friendReqs s \<and> in_guild t = in_guild s \<and>
     ms_guildInvites t = ms_guildInvites s \<and> ms_context t = ms_context s \<and> ms_conns t = ms_conns s \<and> ms_sess t = ms_sess s"
  "guild_only s t \<Longrightarrow> in_party t = in_party s \<and> ms_partyInvites t = ms_partyInvites s \<and> befriended t = befriended s \<and>
     ms_friendReqs t = ms_friendReqs s \<and> ms_context t = ms_context s \<and> ms_conns t = ms_conns s \<and> ms_sess t = ms_sess s"
  "world_only s t \<Longrightarrow> in_party t = in_party s \<and> ms_partyInvites t = ms_partyInvites s \<and> befriended t = befriended s \<and>
     ms_friendReqs t = ms_friendReqs s \<and> in_guild t = in_guild s \<and> ms_guildInvites t = ms_guildInvites s \<and> ms_sess t = ms_sess s"
  "leaving_only s t \<Longrightarrow> in_party t = in_party s \<and> befriended t = befriended s \<and> in_guild t = in_guild s"
  by (cases s; cases t; auto simp: friend_only_def party_only_def guild_only_def world_only_def leaving_only_def
      befriended_def in_party_def in_guild_def fun_eq_iff)+

text \<open>A modelled handler by its group.\<close>

lemma gate_handler_cases:
  assumes "map_of gate_handlers fn = Some h"
  obtains (enter) "(fn, h) \<in> set enter_handlers" | (friend) "(fn, h) \<in> set friend_handlers"
    | (party) "(fn, h) \<in> set party_handlers" | (guild) "(fn, h) \<in> set guild_handlers"
  using map_of_SomeD [OF assms] by (auto simp: gate_handlers_def)

lemma group_only:
  "(fn, h) \<in> set enter_handlers \<Longrightarrow> world_only s (snd (h k au f s))"
  "(fn, h) \<in> set friend_handlers \<Longrightarrow> friend_only s (snd (h k au f s))"
  "(fn, h) \<in> set party_handlers \<Longrightarrow> party_only s (snd (h k au f s))"
  "(fn, h) \<in> set guild_handlers \<Longrightarrow> guild_only s (snd (h k au f s))"
  by (auto simp: enter_handlers_def friend_handlers_def party_handlers_def guild_handlers_def
      enter_only friend_handlers_only party_handlers_only guild_handlers_only)

lemma friend_group:
  "(fn, h) \<in> set friend_handlers \<Longrightarrow> ms_friendReqs (snd (h k au f s)) c = Some i \<Longrightarrow>
     ms_friendReqs s c = Some i \<or> friend_asks (Ran k au fn f) c i"
  "(fn, h) \<in> set friend_handlers \<Longrightarrow> befriended (snd (h k au f s)) m \<Longrightarrow>
     befriended s m \<or> (\<exists>c i. ms_friendReqs s c = Some i \<and> friend_takes (Ran k au fn f) c i m)"
  by (auto simp: friend_handlers_def dest: friend_pending friend_joins dest!: friend_joins_reply)

lemma party_group:
  "(fn, h) \<in> set party_handlers \<Longrightarrow> ms_partyInvites (snd (h k au f s)) c = Some j \<Longrightarrow>
     ms_partyInvites s c = Some j \<or> party_asks (s, Ran k au fn f, snd (h k au f s)) c j"
  "(fn, h) \<in> set party_handlers \<Longrightarrow> in_party (snd (h k au f s)) m \<Longrightarrow>
     in_party s m \<or> party_founds (s, Ran k au fn f, snd (h k au f s)) m \<or>
     (\<exists>c i. ms_partyInvites s c = Some i \<and> party_takes (s, Ran k au fn f, snd (h k au f s)) c i m)"
  by (auto simp: party_handlers_def party_pending(1,4,5,6) dest: party_pending(2,3) party_joins dest!: party_joins_reply [of _ _ _ _ k])

lemma guild_group:
  "(fn, h) \<in> set guild_handlers \<Longrightarrow> ms_guildInvites (snd (h k au f s)) c = Some j \<Longrightarrow>
     ms_guildInvites s c = Some j \<or> guild_asks (s, Ran k au fn f, snd (h k au f s)) c j"
  "(fn, h) \<in> set guild_handlers \<Longrightarrow> in_guild (snd (h k au f s)) m \<Longrightarrow>
     in_guild s m \<or> guild_founds (s, Ran k au fn f, snd (h k au f s)) m \<or>
     (\<exists>c i. ms_guildInvites s c = Some i \<and> guild_takes (s, Ran k au fn f, snd (h k au f s)) c i m)"
  by (auto simp: guild_handlers_def guild_pending(1,4,5) guild_leaves(3,4) guild_reads
      dest: guild_pending(2,3) guild_joins guild_leaves(1,2) dest!: guild_joins_reply [of _ _ _ _ k])

text \<open>A step of the listener, seen by a service: its own handler ran, or nothing was added.\<close>

definition adds_none :: "('s \<Rightarrow> 'c \<Rightarrow> 'i option) \<Rightarrow> ('s \<Rightarrow> 'm \<Rightarrow> bool) \<Rightarrow> 's \<Rightarrow> 's \<Rightarrow> bool" where
  "adds_none pending joined s t \<longleftrightarrow> joined t = joined s \<and> (\<forall>c i. pending t c = Some i \<longrightarrow> pending s c = Some i)"

lemma adds_none_groups:
  "friend_only s t \<Longrightarrow> adds_none ms_partyInvites in_party s t \<and> adds_none ms_guildInvites in_guild s t"
  "party_only s t \<Longrightarrow> adds_none ms_friendReqs befriended s t \<and> adds_none ms_guildInvites in_guild s t"
  "guild_only s t \<Longrightarrow> adds_none ms_friendReqs befriended s t \<and> adds_none ms_partyInvites in_party s t"
  "world_only s t \<Longrightarrow> adds_none ms_friendReqs befriended s t \<and> adds_none ms_partyInvites in_party s t \<and>
     adds_none ms_guildInvites in_guild s t"
  "leaving_only s t \<Longrightarrow> adds_none ms_friendReqs befriended s t \<and> adds_none ms_partyInvites in_party s t \<and>
     adds_none ms_guildInvites in_guild s t"
  using only_keeps [of s t] by (auto simp: adds_none_def leaving_only_def)

definition ran_from :: "(string \<times> gate_handler) list \<Rightarrow> net_event \<Rightarrow> map_server \<Rightarrow> map_server \<Rightarrow> bool" where
  "ran_from hs e s t \<longleftrightarrow> (\<exists>k au fn f h. e = Ran k au fn f \<and> (fn, h) \<in> set hs \<and> t = snd (h k au f s))"

lemma net_step_groups:
  assumes "net_step n e n'"
  shows "ran_from friend_handlers e (nt_srv n) (nt_srv n') \<or> adds_none ms_friendReqs befriended (nt_srv n) (nt_srv n')"
    and "ran_from party_handlers e (nt_srv n) (nt_srv n') \<or> adds_none ms_partyInvites in_party (nt_srv n) (nt_srv n')"
    and "ran_from guild_handlers e (nt_srv n) (nt_srv n') \<or> adds_none ms_guildInvites in_guild (nt_srv n) (nt_srv n')"
proof -
  let ?all = "\<lambda>s t. (ran_from friend_handlers e s t \<or> adds_none ms_friendReqs befriended s t) \<and>
     (ran_from party_handlers e s t \<or> adds_none ms_partyInvites in_party s t) \<and>
     (ran_from guild_handlers e s t \<or> adds_none ms_guildInvites in_guild s t)"
  from assms have "?all (nt_srv n) (nt_srv n')"
  proof cases
    case (run js1 c au fn f js2 h w s)
    have s: "nt_srv n' = snd (h c au f (nt_srv n))"
      using run(2,5) by simp
    from run(4) show ?thesis
      unfolding s run(1) ran_from_def
      by (cases rule: gate_handler_cases) (blast dest: group_only(1) group_only(2) group_only(3) group_only(4) adds_none_groups)+
  next
    case (close c w s)
    then show ?thesis
      using adds_none_groups(5) [of "nt_srv n" s] close_only [of "nt_srv n" c] by simp
  qed (auto simp: adds_none_def befriended_def in_party_def in_guild_def friends_of_def fun_eq_iff)
  then show "ran_from friend_handlers e (nt_srv n) (nt_srv n') \<or> adds_none ms_friendReqs befriended (nt_srv n) (nt_srv n')"
    and "ran_from party_handlers e (nt_srv n) (nt_srv n') \<or> adds_none ms_partyInvites in_party (nt_srv n) (nt_srv n')"
    and "ran_from guild_handlers e (nt_srv n) (nt_srv n') \<or> adds_none ms_guildInvites in_guild (nt_srv n) (nt_srv n')"
    by blast+
qed

text \<open>What a service's own handlers add, as the two laws of \<open>consent\<close>.\<close>

lemma ran_adds:
  assumes "ran_from hs e s t \<or> adds_none pending joined s t"
    and "\<And>k au fn f h. (fn, h) \<in> set hs \<Longrightarrow> P (Ran k au fn f) s (snd (h k au f s))"
    and "adds_none pending joined s t \<Longrightarrow> P e s t"
  shows "P e s t"
  using assms by (auto simp: ran_from_def)

lemma friend_laws:
  assumes "net_step n e n'"
  shows "(ms_friendReqs (nt_srv n') c = Some i \<longrightarrow> ms_friendReqs (nt_srv n) c = Some i \<or> friend_asks e c i) \<and>
    (befriended (nt_srv n') m \<longrightarrow>
       befriended (nt_srv n) m \<or> False \<or> (\<exists>c i. ms_friendReqs (nt_srv n) c = Some i \<and> friend_takes e c i m))"
  by (rule ran_adds [OF net_step_groups(1) [OF assms]]) (rule conjI impI friend_group | assumption | simp add: adds_none_def)+

lemma party_laws:
  assumes "net_step n e n'"
  shows "(ms_partyInvites (nt_srv n') c = Some i \<longrightarrow> ms_partyInvites (nt_srv n) c = Some i \<or> party_asks (nt_srv n, e, nt_srv n') c i) \<and>
    (in_party (nt_srv n') m \<longrightarrow>
       in_party (nt_srv n) m \<or> party_founds (nt_srv n, e, nt_srv n') m \<or> (\<exists>c i. ms_partyInvites (nt_srv n) c = Some i \<and> party_takes (nt_srv n, e, nt_srv n') c i m))"
  by (rule ran_adds [OF net_step_groups(2) [OF assms]]) (rule conjI impI party_group | assumption | simp add: adds_none_def)+

lemma guild_laws:
  assumes "net_step n e n'"
  shows "(ms_guildInvites (nt_srv n') c = Some i \<longrightarrow> ms_guildInvites (nt_srv n) c = Some i \<or> guild_asks (nt_srv n, e, nt_srv n') c i) \<and>
    (in_guild (nt_srv n') m \<longrightarrow>
       in_guild (nt_srv n) m \<or> guild_founds (nt_srv n, e, nt_srv n') m \<or> (\<exists>c i. ms_guildInvites (nt_srv n) c = Some i \<and> guild_takes (nt_srv n, e, nt_srv n') c i m))"
  by (rule ran_adds [OF net_step_groups(3) [OF assms]]) (rule conjI impI guild_group | assumption | simp add: adds_none_def)+

interpretation friend_consent: consent net_step "\<lambda>n. ms_friendReqs (nt_srv n)" "\<lambda>n. befriended (nt_srv n)"
  friend_asks "\<lambda>_ _. False" friend_takes
  by unfold_locales (blast dest: friend_laws)+

interpretation party_consent: consent net_trans "\<lambda>n. ms_partyInvites (nt_srv n)" "\<lambda>n. in_party (nt_srv n)"
  party_asks party_founds party_takes
  by unfold_locales (auto simp: net_trans_def dest: party_laws)

interpretation guild_consent: consent net_trans "\<lambda>n. ms_guildInvites (nt_srv n)" "\<lambda>n. in_guild (nt_srv n)"
  guild_asks guild_founds guild_takes
  by unfold_locales (auto simp: net_trans_def dest: guild_laws)

section \<open>Sessions and identities\<close>

text \<open>
  The trust gate is the same protocol: the login side extends a session to an account, and a connection takes
  it up when a \<open>CZ_ENTER\<close> of it carries the account and its login ID.
\<close>

fun session_asks :: "net_event \<Rightarrow> u32 \<Rightarrow> session \<Rightarrow> bool" where
  "session_asks (Issued se) acc i \<longleftrightarrow> i = se \<and> acc = se_AccountID se"
| "session_asks _ acc i \<longleftrightarrow> False"

fun enter_takes :: "net_event \<Rightarrow> u32 \<Rightarrow> session \<Rightarrow> conn \<times> map_auth \<Rightarrow> bool" where
  "enter_takes (Ran k au fn f) acc i m \<longleftrightarrow> fn = ''handleEnterFrame'' \<and>
     (case ParseCZEnter f of
        Inl _ \<Rightarrow> False
      | Inr q \<Rightarrow> CZEnterRequest_AccountID q = acc \<and> CZEnterRequest_AuthCode q = se_LoginID1 i \<and>
          m = (k, \<lparr>ma_accountID = acc, ma_charID = CZEnterRequest_CharID q\<rparr>))"
| "enter_takes _ acc i m \<longleftrightarrow> False"

definition identified :: "map_server \<Rightarrow> conn \<times> map_auth \<Rightarrow> bool" where
  "identified s = (\<lambda>(c, a). ms_context s c = Some a)"

lemma enter_identifies:
  "identified (snd (map_handleEnter k f s)) m \<Longrightarrow>
     identified s m \<or> (\<exists>acc i. ms_sess s acc = Some i \<and> enter_takes (Ran k au ''handleEnterFrame'' f) acc i m)"
  unfolding map_handleEnter_def Let_def registerConn_def
  by (cases m) (auto simp: identified_def GetSession_def split: sum.splits prod.splits option.splits if_splits)

lemma session_laws:
  assumes "net_step n e n'"
  shows "(ms_sess (nt_srv n') c = Some i \<longrightarrow> ms_sess (nt_srv n) c = Some i \<or> session_asks e c i) \<and>
    (identified (nt_srv n') m \<longrightarrow>
       identified (nt_srv n) m \<or> False \<or> (\<exists>c i. ms_sess (nt_srv n) c = Some i \<and> enter_takes e c i m))"
  using assms
proof cases
  case (run js1 k au fn f js2 h w s)
  have s: "nt_srv n' = snd (h k au f (nt_srv n))"
    using run(2,5) by simp
  have same: "ms_sess t = ms_sess s \<and> identified t = identified s"
    if "friend_only s t \<or> party_only s t \<or> guild_only s t" for s t
    using that only_keeps [of s t] by (auto simp: identified_def fun_eq_iff)
  from run(4) show ?thesis
  proof (cases rule: gate_handler_cases)
    case enter
    then have "fn = ''handleEnterFrame''" "h = (\<lambda>c _ f. map_handleEnter c f)"
      by (simp_all add: enter_handlers_def)
    then show ?thesis
      using s run(1) enter_identifies [of k f "nt_srv n" m au] only_keeps(4) [OF enter_only [of "nt_srv n" k f]] by auto
  qed (use s same [of "nt_srv n" "snd (h k au f (nt_srv n))"] group_only [of fn h "nt_srv n" k au f] in auto)
next
  case (close c w s)
  then show ?thesis
    using close_only [of "nt_srv n" c] by (auto simp: leaving_only_def identified_def)
next
  case (issue se)
  then show ?thesis
    by (auto simp: PutSession_def identified_def)
qed (auto simp: identified_def)

interpretation session_consent: consent net_step "\<lambda>n. ms_sess (nt_srv n)" "\<lambda>n. identified (nt_srv n)"
  session_asks "\<lambda>_ _. False" enter_takes
  by unfold_locales (blast dest: session_laws)+

section \<open>Properties of runs\<close>

text \<open>A listener at boot, and one with two players, both on the map and connected.\<close>

definition quiet_server :: map_server where
  "quiet_server = \<lparr>ms_world = NewWorldService, ms_rows = Map.empty, ms_spawn = NewSpawnService None None,
     ms_sess = Map.empty, ms_context = Map.empty, ms_conns = Map.empty, ms_openedShops = Map.empty,
     ms_partyInvites = Map.empty, ms_friendReqs = Map.empty, ms_guildInvites = Map.empty, ms_mailStaging = Map.empty,
     ms_party = NewMemoryPartyRepository, ms_friend = NewMemoryFriendRepository, ms_guild = NewMemoryGuildRepository\<rparr>"

definition demo_player :: "u32 \<Rightarrow> u32 \<Rightarrow> string \<Rightarrow> entity" where
  "demo_player c acc name = zero_entity\<lparr>en_ID := c, en_Account := acc, en_Name := name\<rparr>"

definition two_players :: map_server where
  "two_players = quiet_server\<lparr>ms_world := NewWorldService\<lparr>w_entities :=
       [(10, demo_player 10 7 ''ann''), (11, demo_player 11 8 ''bob'')]\<rparr>,
     ms_conns := [10 \<mapsto> 1, 11 \<mapsto> 2],
     ms_context := [1 \<mapsto> \<lparr>ma_accountID = 7, ma_charID = 10\<rparr>, 2 \<mapsto> \<lparr>ma_accountID = 8, ma_charID = 11\<rparr>]\<rparr>"

definition net_of :: "map_server \<Rightarrow> net" where
  "net_of s = \<lparr>nt_srv = s, nt_jobs = [], nt_out = []\<rparr>"

lemma demo_player_simps [simp]:
  "en_ID (demo_player c acc name) = c" "en_Account (demo_player c acc name) = acc"
  "en_Name (demo_player c acc name) = name" "en_Type (demo_player c acc name) = 0"
  by (simp_all add: demo_player_def zero_entity_def)

text \<open>Serving one frame at once: it arrives, and its job runs next.\<close>

lemma served:
  assumes "nt_jobs n = []" and "map_of gate_handlers fn = Some h" and "h c (ms_context (nt_srv n) c) f (nt_srv n) = (w, s)"
  obtains n1 n2 where "net_step n (Arrived c fn f) n1" and "net_step n1 (Ran c (ms_context (nt_srv n) c) fn f) n2"
    and "nt_srv n1 = nt_srv n" and "nt_srv n2 = s" and "nt_jobs n2 = []"
proof -
  let ?au = "ms_context (nt_srv n) c"
  let ?n1 = "n\<lparr>nt_jobs := nt_jobs n @ [(c, ?au, fn, f)]\<rparr>"
  let ?n2 = "?n1\<lparr>nt_srv := s, nt_jobs := [] @ [], nt_out := nt_out ?n1 @ w\<rparr>"
  have "net_step n (Arrived c fn f) ?n1"
    by (rule net_step.arrive)
  moreover have "net_step ?n1 (Ran c ?au fn f) ?n2"
    by (rule net_step.run [where h = h]) (use assms in simp_all)
  ultimately show thesis using that [of ?n1 ?n2] by simp
qed

lemma served_next:
  assumes "traced net_step n0 tr n" and "nt_jobs n = []" and "map_of gate_handlers fn = Some h"
    and "h c (ms_context (nt_srv n) c) f (nt_srv n) = (w, s)"
  shows "\<exists>n'. traced net_step n0 (tr @ [Arrived c fn f, Ran c (ms_context (nt_srv n) c) fn f]) n' \<and>
    nt_srv n' = s \<and> nt_jobs n' = []"
proof -
  obtain n1 n2 where n2: "net_step n (Arrived c fn f) n1" "net_step n1 (Ran c (ms_context (nt_srv n) c) fn f) n2"
      "nt_srv n2 = s" "nt_jobs n2 = []"
    using served [OF assms(2-4)] by blast
  then show ?thesis
    using traced.more [OF traced.more [OF assms(1) n2(1)] n2(2)] by auto
qed

lemma served_next_trans:
  assumes "traced net_trans n0 tr n" and "nt_jobs n = []" and "map_of gate_handlers fn = Some h"
    and "h c (ms_context (nt_srv n) c) f (nt_srv n) = (w, s)"
  shows "\<exists>n'. traced net_trans n0 (tr @ [(nt_srv n, Arrived c fn f, nt_srv n),
      (nt_srv n, Ran c (ms_context (nt_srv n) c) fn f, s)]) n' \<and> nt_srv n' = s \<and> nt_jobs n' = []"
proof -
  obtain n1 n2 where n2: "net_step n (Arrived c fn f) n1" "net_step n1 (Ran c (ms_context (nt_srv n) c) fn f) n2"
      "nt_srv n1 = nt_srv n" "nt_srv n2 = s" "nt_jobs n2 = []"
    using served [OF assms(2-4)] by blast
  then have "net_trans n (nt_srv n, Arrived c fn f, nt_srv n) n1"
      "net_trans n1 (nt_srv n, Ran c (ms_context (nt_srv n) c) fn f, s) n2"
    by (auto simp: net_trans_def)
  then show ?thesis
    using traced.more [OF traced.more [OF assms(1)]] n2(4,5) by fastforce
qed

text \<open>
  C13. Friendship needs both sides. Whatever frames arrive at the map listener, in whatever order their jobs run,
  whichever connections close in between: a pair that has become friends has a request of the one, run for its own
  identity, and a later acceptance by the other that names the requester's character and account.
\<close>

theorem friendship_needs_consent:
  assumes "traced net_step n0 tr n" and "ms_friendReqs (nt_srv n0) = Map.empty"
    and "y \<in> set (friends_of (ms_friend (nt_srv n)) x)"
  shows "y \<in> set (friends_of (ms_friend (nt_srv n0)) x) \<or> agreed friend_asks friend_takes tr (x, y)"
  using friend_consent.joined_consented [OF assms(1), of "(x, y)"] assms(2,3) by (auto simp: befriended_def)

definition ask_bob :: frame where "ask_bob = encode_CZFriendsAdd \<lparr>CZFriendsAdd_Name = ''bob''\<rparr>"

definition bob_agrees :: frame where
  "bob_agrees = encode_CZFriendsReply \<lparr>CZFriendsReply_AID = 7, CZFriendsReply_CID = 10, CZFriendsReply_Reply = 1\<rparr>"

lemma demo_friend_frames:
  "ParseCZFriendsAdd ask_bob = Inr \<lparr>CZFriendsAdd_Name = ''bob''\<rparr>"
  "ParseCZFriendsReply bob_agrees = Inr \<lparr>CZFriendsReply_AID = 7, CZFriendsReply_CID = 10, CZFriendsReply_Reply = 1\<rparr>"
  unfolding ask_bob_def bob_agrees_def
  by (simp_all add: ParseCZFriendsAdd_encode ParseCZFriendsReply_encode fits_def)

definition after_ask :: map_server where
  "after_ask = setFriendReq 11 \<lparr>fq_requesterCharID = 10, fq_requesterAccountID = 7, fq_requesterName = ''ann''\<rparr> two_players"

lemma ann_asks: "snd (handleFriendsAdd 1 (Some \<lparr>ma_accountID = 7, ma_charID = 10\<rparr>) ask_bob two_players) = after_ask"
  by (simp add: handleFriendsAdd_def demo_friend_frames PlayerByName_def two_players_def quiet_server_def connFor_def
      fr_List_def friends_of_def NewMemoryFriendRepository_def List.map_filter_def MaxFriends_def playerName_def w_Get_def
      after_ask_def NewWorldService_def Let_def)

lemma bob_answers:
  "befriended (snd (handleFriendsReply 2 (Some \<lparr>ma_accountID = 8, ma_charID = 11\<rparr>) bob_agrees after_ask)) (10, 11)"
  by (simp add: handleFriendsReply_def demo_friend_frames takeFriendReq_def after_ask_def setFriendReq_def two_players_def
      quiet_server_def connFor_def FriendReplyAccept_def friend_do_def friend_Add_def mem_friend_port_def fr_Add_def
      hasLocked_def friend_countLocked_def addOneLocked_def befriended_def friends_of_def NewMemoryFriendRepository_def
      MaxFriends_def Let_def split: prod.split)

theorem friendship_needs_consent_witness:
  "agreed friend_asks friend_takes
     [Arrived 1 ''handleFriendsAdd'' ask_bob, Ran 1 (Some \<lparr>ma_accountID = 7, ma_charID = 10\<rparr>) ''handleFriendsAdd'' ask_bob,
      Arrived 2 ''handleFriendsReply'' bob_agrees, Ran 2 (Some \<lparr>ma_accountID = 8, ma_charID = 11\<rparr>) ''handleFriendsReply'' bob_agrees]
     (10, 11)"
proof -
  let ?a = "\<lparr>ma_accountID = 7, ma_charID = 10\<rparr>" and ?b = "\<lparr>ma_accountID = 8, ma_charID = 11\<rparr>"
  let ?s2 = "snd (handleFriendsReply 2 (Some ?b) bob_agrees after_ask)"
  have ctx: "ms_context two_players 1 = Some ?a" "ms_context after_ask 2 = Some ?b"
    by (simp_all add: two_players_def after_ask_def setFriendReq_def)
  have h: "map_of gate_handlers ''handleFriendsAdd'' = Some handleFriendsAdd"
      "map_of gate_handlers ''handleFriendsReply'' = Some handleFriendsReply"
    by (simp_all add: gate_handlers_def enter_handlers_def friend_handlers_def)
  obtain n1 where n1: "traced net_step (net_of two_players)
        ([] @ [Arrived 1 ''handleFriendsAdd'' ask_bob, Ran 1 (Some ?a) ''handleFriendsAdd'' ask_bob]) n1"
      "nt_srv n1 = after_ask" "nt_jobs n1 = []"
    using served_next [OF traced.none _ h(1), of "net_of two_players" 1 ask_bob] ctx(1) ann_asks
    by (metis net_of_def net.select_convs(1,2) prod.collapse)
  obtain n2 where n2: "traced net_step (net_of two_players)
        ([Arrived 1 ''handleFriendsAdd'' ask_bob, Ran 1 (Some ?a) ''handleFriendsAdd'' ask_bob]
         @ [Arrived 2 ''handleFriendsReply'' bob_agrees, Ran 2 (Some ?b) ''handleFriendsReply'' bob_agrees]) n2"
      "nt_srv n2 = ?s2"
    using served_next [OF n1(1,3) h(2), of 2 bob_agrees] ctx(2) n1(2) by (metis append_Nil prod.collapse)
  show ?thesis
    using friendship_needs_consent [OF n2(1), of 11 10] bob_answers n2(2)
    by (simp add: befriended_def net_of_def two_players_def quiet_server_def friends_of_def NewMemoryFriendRepository_def)
qed

text \<open>
  C14. Joining needs an invitation. In every run of the map listener from a state without pending invitations,
  recorded with the state before and after each step: who is a member of a party or a guild was a member of it
  before, or founded it (the step created that group under the next free number, with the member as its leader), or
  was invited into it and later accepted. Invited means: a request, naming the account of that very player, by the
  character who led that very group when the request ran; accepted: an own reply that names the group.
\<close>

theorem membership_needs_consent:
  assumes "traced net_trans n0 tr n" and "ms_partyInvites (nt_srv n0) = Map.empty" and "ms_guildInvites (nt_srv n0) = Map.empty"
  shows "(m \<in> set (pr_members (ms_party (nt_srv n))) \<longrightarrow> m \<in> set (pr_members (ms_party (nt_srv n0))) \<or>
      (\<exists>x\<in>set tr. party_founds x m) \<or> agreed party_asks party_takes tr m) \<and>
    (g \<in> set (gr_roster (ms_guild (nt_srv n))) \<longrightarrow> g \<in> set (gr_roster (ms_guild (nt_srv n0))) \<or>
      (\<exists>x\<in>set tr. guild_founds x g) \<or> agreed guild_asks guild_takes tr g)"
  using party_consent.joined_consented [OF assms(1), of m] guild_consent.joined_consented [OF assms(1), of g] assms(2,3)
  by (auto simp: in_party_def in_guild_def)

definition ann_leads :: map_server where
  "ann_leads = two_players\<lparr>ms_party := \<lparr>pr_parties = [1 \<mapsto> \<lparr>pt_ID = 1, pt_Name = ''pp'', pt_Exp = 0, pt_Item = 0,
     pt_LeaderID = 7, pt_LeaderChar = 10\<rparr>], pr_members = [(10, 1)], pr_chars = Map.empty, pr_next = 1\<rparr>\<rparr>"

definition invite_bob :: frame where "invite_bob = encode_CZReqJoinGroup \<lparr>CZReqJoinGroup_AID = 8\<rparr>"

definition bob_joins :: frame where
  "bob_joins = encode_CZJoinGroup \<lparr>CZJoinGroup_PartyID = 1, CZJoinGroup_Flag = 1\<rparr>"

lemma demo_party_frames:
  "ParseCZReqJoinGroup invite_bob = Inr \<lparr>CZReqJoinGroup_AID = 8\<rparr>"
  "ParseCZJoinGroup bob_joins = Inr \<lparr>CZJoinGroup_PartyID = 1, CZJoinGroup_Flag = 1\<rparr>"
  unfolding invite_bob_def bob_joins_def by (simp_all add: ParseCZReqJoinGroup_encode ParseCZJoinGroup_encode)

definition after_invite :: map_server where
  "after_invite = setPartyInvite 11 \<lparr>pi_partyID = 1, pi_inviterCharID = 10\<rparr> ann_leads"

lemma ann_invites: "snd (handleReqJoinGroup 1 (Some \<lparr>ma_accountID = 7, ma_charID = 10\<rparr>) invite_bob ann_leads) = after_invite"
  by (simp add: handleReqJoinGroup_def demo_party_frames PlayerByAccount_def ann_leads_def two_players_def quiet_server_def
      connFor_def pr_GetByMember_def pr_Members_def MaxPartySize_def after_invite_def NewWorldService_def)

lemma bob_accepts:
  "(11, 1) \<in> set (pr_members (ms_party (snd (handleJoinGroup (Some \<lparr>ma_accountID = 8, ma_charID = 11\<rparr>) bob_joins after_invite))))"
  by (simp add: handleJoinGroup_def demo_party_frames after_invite_def setPartyInvite_def ann_leads_def two_players_def
      clearPartyInvite_def party_do_def party_Accept_def mem_party_port_def pr_AddMember_def party_countLocked_def
      MaxPartySize_def Let_def)

theorem membership_needs_consent_witness:
  "agreed party_asks party_takes
     [(ann_leads, Arrived 1 ''handleReqJoinGroup'' invite_bob, ann_leads),
      (ann_leads, Ran 1 (Some \<lparr>ma_accountID = 7, ma_charID = 10\<rparr>) ''handleReqJoinGroup'' invite_bob, after_invite),
      (after_invite, Arrived 2 ''handleJoinGroup'' bob_joins, after_invite),
      (after_invite, Ran 2 (Some \<lparr>ma_accountID = 8, ma_charID = 11\<rparr>) ''handleJoinGroup'' bob_joins,
        snd (handleJoinGroup (Some \<lparr>ma_accountID = 8, ma_charID = 11\<rparr>) bob_joins after_invite))]
     (11, 1)"
proof -
  let ?a = "\<lparr>ma_accountID = 7, ma_charID = 10\<rparr>" and ?b = "\<lparr>ma_accountID = 8, ma_charID = 11\<rparr>"
  let ?s2 = "snd (handleJoinGroup (Some ?b) bob_joins after_invite)"
  have ctx: "ms_context ann_leads 1 = Some ?a" "ms_context after_invite 2 = Some ?b"
    by (simp_all add: two_players_def after_invite_def setPartyInvite_def ann_leads_def)
  have h: "map_of gate_handlers ''handleReqJoinGroup'' = Some handleReqJoinGroup"
      "map_of gate_handlers ''handleJoinGroup'' = Some (\<lambda>_. handleJoinGroup)"
    by (simp_all add: gate_handlers_def enter_handlers_def friend_handlers_def party_handlers_def)
  obtain n1 where n1: "traced net_trans (net_of ann_leads)
        ([] @ [(ann_leads, Arrived 1 ''handleReqJoinGroup'' invite_bob, ann_leads),
          (ann_leads, Ran 1 (Some ?a) ''handleReqJoinGroup'' invite_bob, after_invite)]) n1"
      "nt_srv n1 = after_invite" "nt_jobs n1 = []"
    using served_next_trans [OF traced.none _ h(1), of "net_of ann_leads" 1 invite_bob] ctx(1) ann_invites
    by (metis net_of_def net.select_convs(1,2) prod.collapse)
  obtain n2 where n2: "traced net_trans (net_of ann_leads)
        ([(ann_leads, Arrived 1 ''handleReqJoinGroup'' invite_bob, ann_leads),
          (ann_leads, Ran 1 (Some ?a) ''handleReqJoinGroup'' invite_bob, after_invite)]
         @ [(after_invite, Arrived 2 ''handleJoinGroup'' bob_joins, after_invite),
          (after_invite, Ran 2 (Some ?b) ''handleJoinGroup'' bob_joins, ?s2)]) n2"
      "nt_srv n2 = ?s2"
    using served_next_trans [OF n1(1,3) h(2), of 2 bob_joins] ctx(2) n1(2) by (metis append_Nil prod.collapse)
  show ?thesis
    using membership_needs_consent [OF n2(1), of "(11, 1)"] bob_accepts n2(2)
    by (simp add: net_of_def ann_leads_def two_players_def quiet_server_def)
qed

text \<open>Entering with a stored session and a free character on the canvas.\<close>

lemma map_enter_ok:
  assumes "ParseCZEnter f = Inr q" and "ms_sess s (CZEnterRequest_AccountID q) = Some se"
    and "se_LoginID1 se = CZEnterRequest_AuthCode q" and "world_wf (ms_world s)"
    and "entity_at (ms_world s) (CZEnterRequest_CharID q) = None" and "ms_rows s (CZEnterRequest_CharID q) = Some row"
    and "on_canvas (en_Pos row)"
  shows "\<exists>e w t. map_handleEnter c f s = ((c, accept_enter_frame e) # w, t) \<and> en_Account e = en_Account row \<and>
    ms_context t = (ms_context s)(c \<mapsto> \<lparr>ma_accountID = CZEnterRequest_AccountID q, ma_charID = CZEnterRequest_CharID q\<rparr>) \<and>
    ms_conns t = (ms_conns s)(CZEnterRequest_CharID q \<mapsto> c) \<and>
    entity_at (ms_world t) = (entity_at (ms_world s))(CZEnterRequest_CharID q \<mapsto> e) \<and> world_wf (ms_world t) \<and>
    ms_rows t = ms_rows s \<and> ms_sess t = ms_sess s"
proof -
  obtain e w' s' where e: "EnterMap mem_world_port (CZEnterRequest_CharID q) (ms_world s, ms_rows s) = (Inr e, (w', s'))"
      "world_wf w'" "entity_at w' = (entity_at (ms_world s))(CZEnterRequest_CharID q \<mapsto> e)" "s' = ms_rows s"
      "en_Account e = en_Account row"
    using mem_rows.enter_ok [where s = "ms_rows s", OF assms(4,5,6,7)] by auto
  then show ?thesis
    using assms(1-3) by (intro exI [of _ e]) (simp add: map_handleEnter_def GetSession_def registerConn_def Let_def)
qed

definition enter_as :: "u32 \<Rightarrow> frame" where
  "enter_as acc = encode_CZEnterRequest \<lparr>CZEnterRequest_AccountID = acc, CZEnterRequest_CharID = 150001,
     CZEnterRequest_AuthCode = 4242, CZEnterRequest_ClientTime = 0, CZEnterRequest_Sex = 0\<rparr>"

definition awaiting :: map_server where
  "awaiting = quiet_server\<lparr>ms_rows := [150001 \<mapsto> demo_pc]\<rparr>"

lemma enter_as_parses:
  "ParseCZEnter (enter_as acc) = Inr \<lparr>CZEnterRequest_AccountID = acc, CZEnterRequest_CharID = 150001,
     CZEnterRequest_AuthCode = 4242, CZEnterRequest_ClientTime = 0, CZEnterRequest_Sex = 0\<rparr>"
  by (simp add: enter_as_def ParseCZEnter_encode)

definition admitting :: "u32 \<Rightarrow> map_server" where
  "admitting acc = awaiting\<lparr>ms_sess := [acc \<mapsto> \<lparr>se_AccountID = acc, se_LoginID1 = 4242, se_LoginID2 = 1, se_Sex = 0\<rparr>]\<rparr>"

lemma admitting_simps [simp]:
  "ms_sess (admitting acc) = [acc \<mapsto> \<lparr>se_AccountID = acc, se_LoginID1 = 4242, se_LoginID2 = 1, se_Sex = 0\<rparr>]"
  "ms_world (admitting acc) = NewWorldService" "ms_rows (admitting acc) = [150001 \<mapsto> demo_pc]"
  "ms_context (admitting acc) = Map.empty" "ms_conns (admitting acc) = Map.empty"
  by (simp_all add: admitting_def awaiting_def quiet_server_def)

text \<open>
  C7. An identity needs a session. In every run of the map listener that starts without sessions and identities, a
  connection that holds one got it from an own \<open>CZ_ENTER\<close> for that account and character, whose
  authentication code is the login ID of a session the login side had stored for the account before.
\<close>

theorem map_identity_needs_session:
  assumes "traced net_step n0 tr n" and "ms_sess (nt_srv n0) = Map.empty" and "ms_context (nt_srv n0) = Map.empty"
    and "ms_context (nt_srv n) c = Some a"
  shows "agreed session_asks enter_takes tr (c, a)"
  using session_consent.joined_consented [OF assms(1), of "(c, a)"] assms(2-4) by (auto simp: identified_def)

theorem map_identity_needs_session_witness:
  "\<exists>se. agreed session_asks enter_takes
     [Issued se, Arrived 5 ''handleEnterFrame'' (enter_as 7), Ran 5 None ''handleEnterFrame'' (enter_as 7)]
     (5, \<lparr>ma_accountID = 7, ma_charID = 150001\<rparr>)"
proof -
  let ?se = "\<lparr>se_AccountID = 7, se_LoginID1 = 4242, se_LoginID2 = 1, se_Sex = 0\<rparr>"
  let ?s1 = "admitting 7"
  have h: "map_of gate_handlers ''handleEnterFrame'' = Some (\<lambda>c _ f. map_handleEnter c f)"
    by (simp add: gate_handlers_def enter_handlers_def)
  have n1: "traced net_step (net_of awaiting) [Issued ?se] (net_of ?s1)"
    using traced.more [of net_step, OF traced.none, OF net_step.issue [of "net_of awaiting" ?se]]
    by (simp add: net_of_def PutSession_def admitting_def awaiting_def quiet_server_def)
  have "entity_at NewWorldService = Map.empty"
    by (simp add: NewWorldService_def)
  then obtain t where t: "snd (map_handleEnter 5 (enter_as 7) ?s1) = t" "ms_context t 5 = Some \<lparr>ma_accountID = 7, ma_charID = 150001\<rparr>"
    using map_enter_ok [OF enter_as_parses, of "admitting 7" 7 _ demo_pc 5] new_world_wf
    by (auto simp: on_canvas_def)
  obtain n2 where n2: "traced net_step (net_of awaiting)
        ([Issued ?se] @ [Arrived 5 ''handleEnterFrame'' (enter_as 7), Ran 5 None ''handleEnterFrame'' (enter_as 7)]) n2"
      "nt_srv n2 = t"
    using served_next [OF n1 _ h, of 5 "enter_as 7"] t(1)
    by (metis admitting_simps(4) net.select_convs(1,2) net_of_def prod.collapse)
  show ?thesis
    using map_identity_needs_session [OF n2(1), of 5 "\<lparr>ma_accountID = 7, ma_charID = 150001\<rparr>"] n2(2) t(2)
    by (auto simp: net_of_def awaiting_def quiet_server_def)
qed

end
