(* ===== verification/MapAnswers.thy ===== *)
theory MapAnswers
  imports SocialRuns
begin

text \<open>
  Who the map listener tells what (\<open>gateway/app/map.go\<close>, \<open>friend.go\<close>, \<open>party.go\<close>, \<open>guild.go\<close>): the reach of a
  broadcast, what a closed connection takes with it, and the places where the code answers or keeps
  something other than its comments say.
\<close>

lemma playersNear_exact:
  assumes wf: "world_wf w" and pos: "on_canvas p"
  shows "set (PlayersNear m p w) = {i. \<exists>e. entity_at w i = Some e \<and> en_Type e = EntityTypePC \<and> en_Map e = m \<and>
    \<bar>pos_X (en_Pos e) - pos_X p\<bar> \<le> 15 \<and> \<bar>pos_Y (en_Pos e) - pos_Y p\<bar> \<le> 15}"
proof (cases "w_grids w m")
  case None
  then have "entity_at w i = Some e \<Longrightarrow> en_Map e \<noteq> m" for i e
    using world_wfD(2) [OF wf, of i e] by auto
  then show ?thesis
    using None by (auto simp: PlayersNear_def)
next
  case (Some g)
  let ?near = "\<lambda>i. \<exists>e. entity_at w i = Some e \<and> en_Map e = m \<and> \<bar>pos_X (en_Pos e) - pos_X p\<bar> \<le> 15 \<and>
    \<bar>pos_Y (en_Pos e) - pos_Y p\<bar> \<le> 15"
  have "set (w_QueryVisible m (pos_X p) (pos_Y p) w) = {i. ?near i}"
    using visible_exact [OF wf, of m "pos_X p" "pos_Y p"] Some pos by (simp add: on_canvas_def)
  then have q: "ae_ID ` set (QueryVisible g (pos_X p) (pos_Y p)) = {i. ?near i}"
    by (simp add: w_QueryVisible_def Some)
  have "set (PlayersNear m p w) =
      {j. \<exists>i\<in>ae_ID ` set (QueryVisible g (pos_X p) (pos_Y p)). \<exists>ce. entity_at w i = Some ce \<and> en_Type ce = EntityTypePC \<and> j = en_ID ce}"
    by (auto simp: PlayersNear_def Some split: option.splits if_splits) metis
  then show ?thesis
    unfolding q using world_wfD(2) [OF wf] by auto
qed

text \<open>
  Remark. The reach of a broadcast. In a well-formed world, a frame broadcast around a cell of the canvas goes to exactly
  the registered connections of the players of that map within 15 cells on both axes, the excluded
  character left out.
\<close>

theorem broadcast_reaches_exactly:
  assumes "world_wf (ms_world s)" and "on_canvas p"
  shows "set (broadcast s packet m p exclude) = {(k, packet) | k i e. entity_at (ms_world s) i = Some e \<and>
    en_Type e = EntityTypePC \<and> en_Map e = m \<and> \<bar>pos_X (en_Pos e) - pos_X p\<bar> \<le> 15 \<and> \<bar>pos_Y (en_Pos e) - pos_Y p\<bar> \<le> 15 \<and>
    i \<noteq> exclude \<and> connFor s i = Some k}"
proof -
  have "set (broadcast s packet m p exclude) =
      {(k, packet) | k i. i \<in> set (PlayersNear m p (ms_world s)) \<and> i \<noteq> exclude \<and> connFor s i = Some k}"
    unfolding broadcast_def to_char_def by (auto split: option.splits if_splits)
  then show ?thesis
    unfolding playersNear_exact [OF assms] by blast
qed

theorem broadcast_reaches_exactly_witness:
  "set (broadcast (quiet_server\<lparr>ms_world := demo_world, ms_conns := [150001 \<mapsto> 5]\<rparr>) [1, 2] ''prontera''
     \<lparr>pos_X = 140, pos_Y = 150\<rparr> 9) = {(5, [1, 2])}"
  using broadcast_reaches_exactly [of "quiet_server\<lparr>ms_world := demo_world, ms_conns := [150001 \<mapsto> 5]\<rparr>"
      "\<lparr>pos_X = 140, pos_Y = 150\<rparr>" "[1, 2]" "''prontera''" 9] demo_world_add(2)
  by (auto simp: on_canvas_def demo_world_add(3) connFor_def split: if_splits)

text \<open>
  Remark. A closed connection takes its invitations with it: its character is no longer addressable, every
  invitation and friend request to it or from it is gone, and those between other characters are as before.
\<close>

theorem close_clears_invitations:
  assumes "ms_context s c = Some a" and "map_OnClose c s = (w, t)"
  shows "ms_context t c = None \<and> connFor t (ma_charID a) = None \<and>
    (\<forall>k i. (ms_partyInvites t k = Some i) = (ms_partyInvites s k = Some i \<and> k \<noteq> ma_charID a \<and> pi_inviterCharID i \<noteq> ma_charID a)) \<and>
    (\<forall>k i. (ms_friendReqs t k = Some i) = (ms_friendReqs s k = Some i \<and> k \<noteq> ma_charID a \<and> fq_requesterCharID i \<noteq> ma_charID a)) \<and>
    (\<forall>k i. (ms_guildInvites t k = Some i) = (ms_guildInvites s k = Some i \<and> k \<noteq> ma_charID a \<and> gi_inviterCharID i \<noteq> ma_charID a))"
  using assms unfolding map_OnClose_def Let_def unregister_defs
  by (auto simp: clear_for_Some connFor_def split: sum.splits prod.splits)

theorem close_clears_invitations_witness:
  "ms_friendReqs (snd (map_OnClose 1 after_ask)) 11 = None \<and> connFor (snd (map_OnClose 1 after_ask)) 10 = None"
proof -
  have "ms_context after_ask 1 = Some \<lparr>ma_accountID = 7, ma_charID = 10\<rparr>"
    by (simp add: after_ask_def setFriendReq_def two_players_def)
  from close_clears_invitations [OF this prod.collapse [symmetric]] show ?thesis
    by (auto simp: after_ask_def setFriendReq_def intro: option.exhaust)
qed

text \<open>
  C37. Failed friendships are all answered alike. When an accepted friend request cannot be entered, for whatever
  reason, full lists included, the requester is told that it was refused and the acceptor nothing: the answers
  for full lists are never sent, because the service wraps the error and the handler compares it with \<open>==\<close>.
\<close>

theorem friend_failures_refused:
  assumes "ms_friendReqs s (ma_charID a) = Some i" and "ParseCZFriendsReply f = Inr r"
    and "CZFriendsReply_CID r = fq_requesterCharID i" and "CZFriendsReply_AID r = fq_requesterAccountID i"
    and "CZFriendsReply_Reply r = FriendReplyAccept" and "connFor s (fq_requesterCharID i) = Some rc"
    and "fst (friend_Add mem_friend_port (fq_requesterCharID i) (ma_charID a) (ms_friend s)) = Inl e"
  shows "fst (handleFriendsReply c (Some a) f s) =
    [(rc, friend_add_ack FriendAddRefused (ma_accountID a) (ma_charID a) (playerName s (ma_charID a)))]"
  using assms
  by (auto simp: handleFriendsReply_def takeFriendReq_def connFor_def friend_do_def friend_add_error_def playerName_def
      Let_def split: prod.splits)

definition crowded :: map_server where
  "crowded = after_ask\<lparr>ms_friend := \<lparr>fr_pairs = [11 \<mapsto> map of_nat [100..<140]], fr_chars = Map.empty\<rparr>\<rparr>"

theorem friend_failures_refused_witness:
  "fst (friend_Add mem_friend_port 10 11 (ms_friend crowded)) = Inl ErrAcceptorListFull \<and>
   fst (handleFriendsReply 2 (Some \<lparr>ma_accountID = 8, ma_charID = 11\<rparr>) bob_agrees crowded) =
     [(1, friend_add_ack FriendAddRefused 8 11 ''bob'')]"
proof
  show full: "fst (friend_Add mem_friend_port 10 11 (ms_friend crowded)) = Inl ErrAcceptorListFull"
    by (simp add: friend_Add_def mem_friend_port_def crowded_def fr_Add_def hasLocked_def friends_of_def
        friend_countLocked_def MaxFriends_def)
  have name: "playerName crowded 11 = ''bob''"
    by (simp add: playerName_def crowded_def after_ask_def setFriendReq_def two_players_def w_Get_def)
  show "fst (handleFriendsReply 2 (Some \<lparr>ma_accountID = 8, ma_charID = 11\<rparr>) bob_agrees crowded) =
      [(1, friend_add_ack FriendAddRefused 8 11 ''bob'')]"
    using friend_failures_refused [OF _ demo_friend_frames(2), of crowded "\<lparr>ma_accountID = 8, ma_charID = 11\<rparr>"
        "\<lparr>fq_requesterCharID = 10, fq_requesterAccountID = 7, fq_requesterName = ''ann''\<rparr>" 1 ErrAcceptorListFull 2] full name
    by (simp add: crowded_def after_ask_def setFriendReq_def two_players_def connFor_def FriendReplyAccept_def)
qed

lemma delete_member_names [simp]: "u32_at 2 (delete_member_frame result aid name) = aid"
  by (simp add: delete_member_frame_def encode_DeleteMemberFromGroupResponse_def wire_reads wire_puts)

text \<open>
  Remark. Who a departure names. When a member leaves its party, the account in the notice sent to another member is
  that member's own, not the leaver's; only the leaver itself, unless it was the leader, is sent a notice that
  names the leaver.
\<close>

theorem leave_notice_names_recipient:
  assumes "map_of (pr_members (ms_party s)) (ma_charID a) = Some i" and "pr_parties (ms_party s) i = Some p" and "pt_ID p = i"
  shows "(\<lambda>(k, n). (k, u32_at 2 n)) ` set (fst (handleLeaveGroup c (Some a) f s)) =
    (if ma_charID a = pt_LeaderChar p then {} else {(c, ma_accountID a)}) \<union>
    {(k, pm_AccountID (party_row (ms_party s) p x)) | k x. (x, i) \<in> set (pr_members (ms_party s)) \<and> x \<noteq> ma_charID a \<and>
       connFor s x = Some k}"
proof -
  let ?rows = "sort_key pm_CharID (map (\<lambda>(c, _). party_row (ms_party s) p c) (filter (\<lambda>(c, pid). pid = i) (pr_members (ms_party s))))"
  obtain t where t: "party_do (party_Leave mem_party_port i (ma_charID a)) s = (Inr (), t)"
    using assms
    by (cases "ma_charID a = pt_LeaderChar p") (auto simp: party_do_def party_Leave_def mem_party_port_def pr_RemoveMember_def)
  have conns: "connFor t = connFor s"
    using only_keeps(2) [OF service_only(2) [OF t]] by (simp add: connFor_def fun_eq_iff)
  have "fst (handleLeaveGroup c (Some a) f s) =
      (if ma_charID a \<noteq> pt_LeaderChar p then [(c, delete_member_frame 0 (ma_accountID a) (playerName t (ma_charID a)))] else [])
      @ concat (map (\<lambda>m. if pm_CharID m = ma_charID a then []
          else to_char t (pm_CharID m) (delete_member_frame 0 (pm_AccountID m) (pm_Name m))) ?rows)"
    using assms t by (simp add: handleLeaveGroup_def pr_GetByMember_def pr_Members_def)
  moreover have "set (concat (map (\<lambda>m. if pm_CharID m = ma_charID a then []
      else to_char t (pm_CharID m) (delete_member_frame 0 (pm_AccountID m) (pm_Name m))) ?rows)) =
    (\<lambda>(k, x). (k, delete_member_frame 0 (pm_AccountID (party_row (ms_party s) p x)) (pm_Name (party_row (ms_party s) p x)))) `
      {(k, x). (x, i) \<in> set (pr_members (ms_party s)) \<and> x \<noteq> ma_charID a \<and> connFor s x = Some k}" (is "?sent = ?told")
  proof -
    have row: "pm_CharID (party_row (ms_party s) p x) = x" for x
      by (simp add: party_row_def Let_def)
    have rows: "set ?rows = party_row (ms_party s) p ` {x. (x, i) \<in> set (pr_members (ms_party s))}"
      by (auto simp: image_iff)
    have "?sent = (\<Union>x\<in>{x. (x, i) \<in> set (pr_members (ms_party s))}. if x = ma_charID a then {}
        else set (to_char s x (delete_member_frame 0 (pm_AccountID (party_row (ms_party s) p x)) (pm_Name (party_row (ms_party s) p x)))))"
      unfolding set_concat set_map rows image_image by (simp add: row to_char_def conns if_distrib cong: if_cong)
    also have "\<dots> = ?told"
      by (auto simp: to_char_def split: option.splits if_splits)
    finally show ?thesis .
  qed
  ultimately have "set (fst (handleLeaveGroup c (Some a) f s)) =
      (if ma_charID a = pt_LeaderChar p then {} else {(c, delete_member_frame 0 (ma_accountID a) (playerName t (ma_charID a)))}) \<union> ?told"
    by (simp only: set_append) simp
  moreover have "(\<lambda>(k, n). (k, u32_at 2 n)) ` ?told =
      {(k, pm_AccountID (party_row (ms_party s) p x)) | k x. (x, i) \<in> set (pr_members (ms_party s)) \<and> x \<noteq> ma_charID a \<and>
         connFor s x = Some k}"
    unfolding image_image by (auto simp: case_prod_unfold) (rule_tac x = "(k, x)" in image_eqI; simp)
  ultimately show ?thesis
    by (simp add: image_Un)
qed

text \<open>Two members in ann's party.\<close>

definition joined_server :: map_server where
  "joined_server = ann_leads\<lparr>ms_party := (ms_party ann_leads)\<lparr>pr_members := [(10, 1), (11, 1)],
     pr_chars := [10 \<mapsto> zero_char_info\<lparr>ci_AccountID := 7\<rparr>, 11 \<mapsto> zero_char_info\<lparr>ci_AccountID := 8\<rparr>]\<rparr>\<rparr>"

theorem leave_notice_names_recipient_witness:
  "(\<lambda>(k, n). (k, u32_at 2 n)) ` set (fst (handleLeaveGroup 2 (Some \<lparr>ma_accountID = 8, ma_charID = 11\<rparr>) [] joined_server)) =
     {(2, 8), (1, 7)}"
  using leave_notice_names_recipient [of joined_server "\<lparr>ma_accountID = 8, ma_charID = 11\<rparr>" 1
      "\<lparr>pt_ID = 1, pt_Name = ''pp'', pt_Exp = 0, pt_Item = 0, pt_LeaderID = 7, pt_LeaderChar = 10\<rparr>" 2 "[]"]
  by (auto simp: joined_server_def ann_leads_def two_players_def connFor_def party_row_def zero_char_info_def split: if_splits)

text \<open>
  C36. Anybody may enter as anybody: with the session of one account, \<open>CZ_ENTER\<close> is accepted for every character
  that is not on the map, also one of another account; the connection is then addressed as that
  character, under its own account.
\<close>

theorem enter_accepts_foreign_character:
  assumes "ParseCZEnter f = Inr q" and "ms_sess s (CZEnterRequest_AccountID q) = Some se"
    and "se_LoginID1 se = CZEnterRequest_AuthCode q" and "world_wf (ms_world s)"
    and "entity_at (ms_world s) (CZEnterRequest_CharID q) = None" and "ms_rows s (CZEnterRequest_CharID q) = Some row"
    and "on_canvas (en_Pos row)" and "en_Account row \<noteq> CZEnterRequest_AccountID q"
  shows "\<exists>e w t. map_handleEnter c f s = ((c, accept_enter_frame e) # w, t) \<and> en_Account e \<noteq> CZEnterRequest_AccountID q \<and>
    ms_context t c = Some \<lparr>ma_accountID = CZEnterRequest_AccountID q, ma_charID = CZEnterRequest_CharID q\<rparr> \<and>
    entity_at (ms_world t) (CZEnterRequest_CharID q) = Some e \<and> connFor t (CZEnterRequest_CharID q) = Some c"
  using map_enter_ok [OF assms(1-7), of c] assms(8) by (fastforce simp: connFor_def)

lemma no_entities [simp]: "entity_at NewWorldService = Map.empty"
  by (simp add: NewWorldService_def)

theorem enter_accepts_foreign_character_witness:
  "\<exists>t. snd (map_handleEnter 5 (enter_as 9) (admitting 9)) = t \<and> en_Account demo_pc = 7 \<and>
     ms_context t 5 = Some \<lparr>ma_accountID = 9, ma_charID = 150001\<rparr> \<and> connFor t 150001 = Some 5"
  using enter_accepts_foreign_character [OF enter_as_parses, of "admitting 9" 9 _ demo_pc 5] new_world_wf
  by (auto simp: on_canvas_def)

text \<open>Leaving and closing touch no other character.\<close>

lemma leave_keeps_others:
  assumes "x \<noteq> c"
  shows "entity_at (fst (snd (LeaveMap P c (w, r)))) x = entity_at w x"
proof -
  have keep: "entity_at (snd (w_RemoveEntity c w)) x = entity_at w x"
    using assms by (auto simp: w_RemoveEntity_def on_grid_def Let_def delete_conv' split: option.split)
  have tail: "fst (snd (and_then (repo_call g1 st) h)) = fst st"
    if "\<And>y st. fst (snd (h y st)) = fst st" for g1 :: "'a \<Rightarrow> ('b, 'a) out" and h :: "'b \<Rightarrow> world \<times> 'a \<Rightarrow> ('d, world \<times> 'a) out" and st
    using that by (cases st; cases "g1 (snd st)"; cases "fst (g1 (snd st))") (auto simp: repo_call_def split: prod.split)
  have pure: "fst (snd (repo_call g1 st)) = fst st" for g1 :: "'a \<Rightarrow> ('b, 'a) out" and st :: "world \<times> 'a"
    by (cases st) (simp add: repo_call_def split: prod.split)
  show ?thesis
    using keep
    by (cases "w_RemoveEntity c w"; cases "fst (w_RemoveEntity c w)")
      (auto simp: LeaveMap_def world_call_def tail pure split: sum.split)
qed

lemma close_keeps_others:
  assumes "x \<noteq> ma_charID a" and "ms_context s c = Some a" and "map_OnClose c s = (w, t)"
  shows "connFor t x = connFor s x \<and> entity_at (ms_world t) x = entity_at (ms_world s) x \<and> ms_context t c = None"
proof -
  let ?l = "LeaveMap mem_world_port (ma_charID a) (ms_world s, ms_rows s)"
  have "entity_at (fst (snd ?l)) x = entity_at (ms_world s) x"
    by (rule leave_keeps_others [OF assms(1)])
  then show ?thesis
    using assms unfolding map_OnClose_def Let_def unregister_defs connFor_def
    by (auto split: sum.splits prod.splits)
qed

text \<open>
  Remark. A second \<open>CZ_ENTER\<close> on a connection strands the first character: the connection's close unregisters the second
  one only, and the first stays in the world, addressed to the closed connection, for which a further close does nothing.
\<close>

theorem reenter_strands_character:
  assumes "ParseCZEnter f1 = Inr q1" and "ParseCZEnter f2 = Inr q2" and "CZEnterRequest_CharID q1 \<noteq> CZEnterRequest_CharID q2"
    and "ms_sess s (CZEnterRequest_AccountID q1) = Some se1" and "se_LoginID1 se1 = CZEnterRequest_AuthCode q1"
    and "ms_sess s (CZEnterRequest_AccountID q2) = Some se2" and "se_LoginID1 se2 = CZEnterRequest_AuthCode q2"
    and "world_wf (ms_world s)" and "entity_at (ms_world s) (CZEnterRequest_CharID q1) = None"
    and "entity_at (ms_world s) (CZEnterRequest_CharID q2) = None"
    and "ms_rows s (CZEnterRequest_CharID q1) = Some row1" and "ms_rows s (CZEnterRequest_CharID q2) = Some row2"
    and "on_canvas (en_Pos row1)" and "on_canvas (en_Pos row2)"
  shows "\<exists>w1 s1 w2 s2 w3 s3 e. map_handleEnter c f1 s = (w1, s1) \<and> map_handleEnter c f2 s1 = (w2, s2) \<and>
    map_OnClose c s2 = (w3, s3) \<and> connFor s3 (CZEnterRequest_CharID q1) = Some c \<and>
    entity_at (ms_world s3) (CZEnterRequest_CharID q1) = Some e \<and> map_OnClose c s3 = ([], s3)"
proof -
  let ?c1 = "CZEnterRequest_CharID q1" and ?c2 = "CZEnterRequest_CharID q2"
  let ?a2 = "\<lparr>ma_accountID = CZEnterRequest_AccountID q2, ma_charID = ?c2\<rparr>"
  obtain e1 w1 s1 where 1: "map_handleEnter c f1 s = (w1, s1)" "ms_conns s1 = (ms_conns s)(?c1 \<mapsto> c)"
      "entity_at (ms_world s1) = (entity_at (ms_world s))(?c1 \<mapsto> e1)" "world_wf (ms_world s1)"
      "ms_rows s1 = ms_rows s" "ms_sess s1 = ms_sess s"
    using map_enter_ok [OF assms(1,4,5,8,9,11,13), of c] by blast
  have "ms_sess s1 (CZEnterRequest_AccountID q2) = Some se2" "entity_at (ms_world s1) ?c2 = None" "ms_rows s1 ?c2 = Some row2"
    using 1 assms(3,6,10,12) by simp_all
  then obtain e2 w2 s2 where 2: "map_handleEnter c f2 s1 = (w2, s2)" "ms_conns s2 = (ms_conns s1)(?c2 \<mapsto> c)"
      "entity_at (ms_world s2) = (entity_at (ms_world s1))(?c2 \<mapsto> e2)" "ms_context s2 = (ms_context s1)(c \<mapsto> ?a2)"
    using map_enter_ok [OF assms(2) _ assms(7) 1(4) _ _ assms(14), of c] by blast
  obtain w3 s3 where 3: "map_OnClose c s2 = (w3, s3)"
    by (cases "map_OnClose c s2")
  have "?c1 \<noteq> ma_charID ?a2" and "ms_context s2 c = Some ?a2"
    using assms(3) 2(4) by simp_all
  note k = close_keeps_others [OF this 3]
  have "connFor s3 ?c1 = Some c" "entity_at (ms_world s3) ?c1 = Some e1"
    using k 1(2,3) 2(2,3) assms(3) by (simp_all add: connFor_def)
  moreover have "map_OnClose c s3 = ([], s3)"
    using k by (simp add: map_OnClose_def)
  ultimately show ?thesis
    using 1(1) 2(1) 3 by blast
qed

definition enter_second :: frame where
  "enter_second = encode_CZEnterRequest \<lparr>CZEnterRequest_AccountID = 9, CZEnterRequest_CharID = 150002,
     CZEnterRequest_AuthCode = 4242, CZEnterRequest_ClientTime = 0, CZEnterRequest_Sex = 0\<rparr>"

definition admitting_two :: map_server where
  "admitting_two = (admitting 9)\<lparr>ms_rows := [150001 \<mapsto> demo_pc, 150002 \<mapsto> demo_pc]\<rparr>"

theorem reenter_strands_character_witness:
  "connFor (snd (map_OnClose 5 (snd (map_handleEnter 5 enter_second (snd (map_handleEnter 5 (enter_as 9) admitting_two)))))) 150001 = Some 5"
proof -
  let ?se = "\<lparr>se_AccountID = 9, se_LoginID1 = 4242, se_LoginID2 = 1, se_Sex = 0\<rparr>"
  have p: "ParseCZEnter enter_second = Inr \<lparr>CZEnterRequest_AccountID = 9, CZEnterRequest_CharID = 150002,
     CZEnterRequest_AuthCode = 4242, CZEnterRequest_ClientTime = 0, CZEnterRequest_Sex = 0\<rparr>"
    by (simp add: enter_second_def ParseCZEnter_encode)
  show ?thesis
    using reenter_strands_character [OF enter_as_parses p, of 9 admitting_two ?se ?se demo_pc demo_pc 5] new_world_wf
    by (auto simp: on_canvas_def admitting_two_def)
qed

text \<open>
  Remark. The guild burst says master to everybody. Its first frame is built from the guild and its roster alone; as long
  as the master is a member, it says \<open>IsMaster\<close> and grants inviting and expelling (mode \<open>0x11\<close>), whoever the burst is sent to:
  \<open>handleLoadEndAck\<close> appends it for any member that enters.
\<close>

theorem guild_burst_says_master:
  assumes "map_of (gr_guilds (ms_guild s)) (gd_ID g) = Some g" and "(gd_Master g, gd_ID g) \<in> set (gr_roster (ms_guild s))"
  shows "\<exists>rest u. appendGuildBurst s [] g = encode_UpdateGDIDResponse u @ rest \<and> UpdateGDIDResponse_IsMaster u \<and>
    UpdateGDIDResponse_Mode u = 0x11 \<and> UpdateGDIDResponse_MasterGID u = gd_Master g"
proof -
  obtain members where m: "fst (guild_Members mem_guild_port (gd_ID g) (ms_guild s)) = Inr members"
      "set members = (\<lambda>m. if gm_Master m then m\<lparr>gm_Position := 0\<rparr> else m) ` guild_row (ms_guild s) g `
         {c. (c, gd_ID g) \<in> set (gr_roster (ms_guild s))}"
    using assms(1) by (fastforce simp: guild_Members_def mem_guild_port_def gr_Members_def Let_def)
  have master: "gm_CharID m = gd_Master g" if "m \<in> set members" "gm_Master m" for m
    using that by (auto simp: m(2) guild_row_def Let_def split: if_splits)
  have "(\<lambda>m. if gm_Master m then m\<lparr>gm_Position := 0\<rparr> else m) (guild_row (ms_guild s) g (gd_Master g)) \<in> set members"
    using assms(2) unfolding m(2) by (intro imageI) simp
  then have "\<exists>m\<in>set members. gm_Master m"
    by (rule bexI [rotated]) (simp add: guild_row_def Let_def)
  then obtain m0 where m0: "find gm_Master members = Some m0" "m0 \<in> set members" "gm_Master m0"
    by (cases "find gm_Master members") (auto simp: find_None_iff dest: findSomeD)
  show ?thesis
    using m(1) m0 master [OF m0(2,3)]
    by (intro exI [of _ "encode_GuildInfoResponse (guildInfoFrame g members) @ encode_MemberMgrInfoResponse (guildMembersFrame members)"]
        exI [of _ "guildBelongInfo g members"]) (simp add: appendGuildBurst_def guildBelongInfo_def guildMode_def)
qed

definition guilded_server :: map_server where
  "guilded_server = two_players\<lparr>ms_guild := \<lparr>gr_guilds = [(1, \<lparr>gd_ID = 1, gd_Name = ''gg'', gd_Master = 10,
     gd_MasterNam = ''ann'', gd_GuildLv = 1, gd_MaxMember = 16, gd_AverageLv = 1\<rparr>)], gr_roster = [(10, 1), (11, 1)],
     gr_chars = Map.empty, gr_next = 1\<rparr>\<rparr>"

theorem guild_burst_says_master_witness:
  "\<exists>rest u. appendGuildBurst guilded_server [] \<lparr>gd_ID = 1, gd_Name = ''gg'', gd_Master = 10, gd_MasterNam = ''ann'',
      gd_GuildLv = 1, gd_MaxMember = 16, gd_AverageLv = 1\<rparr> = encode_UpdateGDIDResponse u @ rest \<and> UpdateGDIDResponse_IsMaster u"
  using guild_burst_says_master [of guilded_server "\<lparr>gd_ID = 1, gd_Name = ''gg'', gd_Master = 10, gd_MasterNam = ''ann'',
      gd_GuildLv = 1, gd_MaxMember = 16, gd_AverageLv = 1\<rparr>"]
  by (auto simp: guilded_server_def)

end
