(* ===== verification/PacketTrade.thy ===== *)
theory PacketTrade
  imports PacketServer
begin

text \<open>
  The trade and storage packets: \<open>trade.go\<close>, \<open>storage.go\<close> of \<open>pkg/ro/packet\<close>.
  A record is the Go struct, its fields the struct's with the type's name in front; a signed
  wire integer is the word with the same bits.
\<close>

unbundle bit_operations_syntax

section \<open>\<open>trade.go\<close>\<close>

record CZTradeRequest =
  CZTradeRequest_TargetGID :: u32

definition ParseCZTradeRequest :: "frame \<Rightarrow> packet_error + CZTradeRequest" where
  "ParseCZTradeRequest f = of_frame 6 0x00e4 f
     \<lparr>CZTradeRequest_TargetGID = u32_at 2 f\<rparr>"

definition encode_CZTradeRequest :: "CZTradeRequest \<Rightarrow> frame" where
  "encode_CZTradeRequest r = fill 6
     [put16 0 0x00e4, put32 2 (CZTradeRequest_TargetGID r)]"

record CZTradeAck =
  CZTradeAck_Type :: byte

definition ParseCZTradeAck :: "frame \<Rightarrow> packet_error + CZTradeAck" where
  "ParseCZTradeAck f = of_frame 3 0x00e6 f
     \<lparr>CZTradeAck_Type = u8_at 2 f\<rparr>"

definition encode_CZTradeAck :: "CZTradeAck \<Rightarrow> frame" where
  "encode_CZTradeAck r = fill 3
     [put16 0 0x00e6, put8 2 (CZTradeAck_Type r)]"

definition EncodeCZTradeCancel :: frame where
  "EncodeCZTradeCancel = fill 2
     [put16 0 0x00ed]"

record TradeRequestResponse =
  TradeRequestResponse_RequesterName :: string
  TradeRequestResponse_TargetID :: u32
  TradeRequestResponse_TargetLv :: u16

definition encode_TradeRequestResponse :: "TradeRequestResponse \<Rightarrow> frame" where
  "encode_TradeRequestResponse r = fill 32
     [put16 0 0x01f4, writeNameField 2 (TradeRequestResponse_RequesterName r),
      put32 26 (TradeRequestResponse_TargetID r), put16 30 (TradeRequestResponse_TargetLv r)]"

record TradeAckResponse =
  TradeAckResponse_Result :: byte
  TradeAckResponse_TargetID :: u32
  TradeAckResponse_TargetLv :: u16

definition encode_TradeAckResponse :: "TradeAckResponse \<Rightarrow> frame" where
  "encode_TradeAckResponse r = fill 9
     [put16 0 0x01f5, put8 2 (TradeAckResponse_Result r), put32 3 (TradeAckResponse_TargetID r),
      put16 7 (TradeAckResponse_TargetLv r)]"

definition encode_CancelExchangeResponse :: frame where
  "encode_CancelExchangeResponse = fill 2
     [put16 0 0x00ee]"

record CZAddExchangeItem =
  CZAddExchangeItem_Index :: u16
  CZAddExchangeItem_Amount :: u32

definition ParseCZAddExchangeItem :: "frame \<Rightarrow> packet_error + CZAddExchangeItem" where
  "ParseCZAddExchangeItem f = of_frame 8 0x00e8 f
     \<lparr>CZAddExchangeItem_Index = u16_at 2 f, CZAddExchangeItem_Amount = u32_at 4 f\<rparr>"

definition encode_CZAddExchangeItem :: "CZAddExchangeItem \<Rightarrow> frame" where
  "encode_CZAddExchangeItem r = fill 8
     [put16 0 0x00e8, put16 2 (CZAddExchangeItem_Index r), put32 4 (CZAddExchangeItem_Amount r)]"

record AckAddExchangeItem =
  AckAddExchangeItem_Index :: u16
  AckAddExchangeItem_Result :: byte

definition encode_AckAddExchangeItem :: "AckAddExchangeItem \<Rightarrow> frame" where
  "encode_AckAddExchangeItem r = fill 5
     [put16 0 0x00ea, put16 2 (AckAddExchangeItem_Index r), put8 4 (AckAddExchangeItem_Result r)]"

record ZCAddExchangeItem =
  ZCAddExchangeItem_ItemID :: u32
  ZCAddExchangeItem_ItemType :: byte
  ZCAddExchangeItem_Amount :: u32
  ZCAddExchangeItem_Identified :: byte
  ZCAddExchangeItem_Damaged :: byte
  ZCAddExchangeItem_Cards :: "u32 list"
  ZCAddExchangeItem_Options :: "ItemOption list"
  ZCAddExchangeItem_Location :: u32
  ZCAddExchangeItem_Look :: u16
  ZCAddExchangeItem_Refine :: byte
  ZCAddExchangeItem_Grade :: byte

definition encode_ZCAddExchangeItem :: "ZCAddExchangeItem \<Rightarrow> frame" where
  "encode_ZCAddExchangeItem r = fill 62
     [put16 0 0x0b42, put32 2 (ZCAddExchangeItem_ItemID r), put8 6 (ZCAddExchangeItem_ItemType r),
      put32 7 (ZCAddExchangeItem_Amount r), put8 11 (ZCAddExchangeItem_Identified r), put8 12 (ZCAddExchangeItem_Damaged r),
      (13, concat (map le32 (ZCAddExchangeItem_Cards r))), (29, concat (map encode_ItemOption (ZCAddExchangeItem_Options r))),
      put32 54 (ZCAddExchangeItem_Location r), put16 58 (ZCAddExchangeItem_Look r), put8 60 (ZCAddExchangeItem_Refine r),
      put8 61 (ZCAddExchangeItem_Grade r)]"

record ConcludeExchangeItem =
  ConcludeExchangeItem_Who :: byte

definition encode_ConcludeExchangeItem :: "ConcludeExchangeItem \<Rightarrow> frame" where
  "encode_ConcludeExchangeItem r = fill 3
     [put16 0 0x00ec, put8 2 (ConcludeExchangeItem_Who r)]"

definition EncodeCZTradeOk :: frame where
  "EncodeCZTradeOk = fill 2
     [put16 0 0x00eb]"

section \<open>\<open>storage.go\<close>\<close>

record CZReqOpenStore2 =
  CZReqOpenStore2_AccountName :: string

definition ParseCZReqOpenStore2 :: "frame \<Rightarrow> packet_error + CZReqOpenStore2" where
  "ParseCZReqOpenStore2 f = of_frame 26 0x07e4 f \<lparr>CZReqOpenStore2_AccountName = readNameField (drop 2 f) 0 24\<rparr>"

definition encode_CZReqOpenStore2 :: "CZReqOpenStore2 \<Rightarrow> frame" where
  "encode_CZReqOpenStore2 r = fill 26
     [put16 0 0x07e4, writeNameField 2 (CZReqOpenStore2_AccountName r)]"

record CZMoveItemToStore2 =
  CZMoveItemToStore2_Index :: u16
  CZMoveItemToStore2_Amount :: u32

definition ParseCZMoveItemToStore2 :: "frame \<Rightarrow> packet_error + CZMoveItemToStore2" where
  "ParseCZMoveItemToStore2 f = of_frame 8 0x07e6 f
     \<lparr>CZMoveItemToStore2_Index = u16_at 2 f, CZMoveItemToStore2_Amount = u32_at 4 f\<rparr>"

definition encode_CZMoveItemToStore2 :: "CZMoveItemToStore2 \<Rightarrow> frame" where
  "encode_CZMoveItemToStore2 r = fill 8
     [put16 0 0x07e6, put16 2 (CZMoveItemToStore2_Index r), put32 4 (CZMoveItemToStore2_Amount r)]"

record CZMoveItemToBody2 =
  CZMoveItemToBody2_Index :: u16
  CZMoveItemToBody2_Amount :: u32

definition ParseCZMoveItemToBody2 :: "frame \<Rightarrow> packet_error + CZMoveItemToBody2" where
  "ParseCZMoveItemToBody2 f = of_frame 8 0x07e7 f
     \<lparr>CZMoveItemToBody2_Index = u16_at 2 f, CZMoveItemToBody2_Amount = u32_at 4 f\<rparr>"

definition encode_CZMoveItemToBody2 :: "CZMoveItemToBody2 \<Rightarrow> frame" where
  "encode_CZMoveItemToBody2 r = fill 8
     [put16 0 0x07e7, put16 2 (CZMoveItemToBody2_Index r), put32 4 (CZMoveItemToBody2_Amount r)]"

definition EncodeCZCloseStore :: frame where
  "EncodeCZCloseStore = fill 2
     [put16 0 0x07e5]"

record StorageItemListResult =
  StorageItemListResult_Result :: u16

definition encode_StorageItemListResult :: "StorageItemListResult \<Rightarrow> frame" where
  "encode_StorageItemListResult r = fill 6
     [put16 0 0x07eb, put16 2 6, put16 4 (StorageItemListResult_Result r)]"

record StorageListNormalResponse =
  StorageListNormalResponse_Items :: "InventoryNormalItem list"

definition encode_StorageListNormalResponse :: "StorageListNormalResponse \<Rightarrow> packet_error + frame" where
  "encode_StorageListNormalResponse r = var_frame 0x07e9 (concat (map writeNormalItem (StorageListNormalResponse_Items r)))"

record StorageListEquipResponse =
  StorageListEquipResponse_Items :: "InventoryEquipItem list"

definition encode_StorageListEquipResponse :: "StorageListEquipResponse \<Rightarrow> packet_error + frame" where
  "encode_StorageListEquipResponse r = var_frame 0x07ea (concat (map writeEquipItem (StorageListEquipResponse_Items r)))"

section \<open>Layouts and round trips\<close>

lemma encode_CZTradeRequest_framed [framings]: "framed 0x00e4 6 (encode_CZTradeRequest r)"
  unfolding encode_CZTradeRequest_def by (rule framed_fill) (simp_all add: wire_puts)

lemma encode_CZTradeAck_framed [framings]: "framed 0x00e6 3 (encode_CZTradeAck r)"
  unfolding encode_CZTradeAck_def by (rule framed_fill) (simp_all add: wire_puts)

lemma EncodeCZTradeCancel_framed [framings]: "framed 0x00ed 2 (EncodeCZTradeCancel)"
  unfolding EncodeCZTradeCancel_def by (rule framed_fill) (simp_all add: wire_puts)

lemma encode_TradeRequestResponse_framed [framings]: "framed 0x01f4 32 (encode_TradeRequestResponse r)"
  unfolding encode_TradeRequestResponse_def by (rule framed_fill) (simp_all add: wire_puts)

lemma encode_TradeAckResponse_framed [framings]: "framed 0x01f5 9 (encode_TradeAckResponse r)"
  unfolding encode_TradeAckResponse_def by (rule framed_fill) (simp_all add: wire_puts)

lemma encode_CancelExchangeResponse_framed [framings]: "framed 0x00ee 2 (encode_CancelExchangeResponse)"
  unfolding encode_CancelExchangeResponse_def by (rule framed_fill) (simp_all add: wire_puts)

lemma encode_CZAddExchangeItem_framed [framings]: "framed 0x00e8 8 (encode_CZAddExchangeItem r)"
  unfolding encode_CZAddExchangeItem_def by (rule framed_fill) (simp_all add: wire_puts)

lemma encode_AckAddExchangeItem_framed [framings]: "framed 0x00ea 5 (encode_AckAddExchangeItem r)"
  unfolding encode_AckAddExchangeItem_def by (rule framed_fill) (simp_all add: wire_puts)

lemma encode_ConcludeExchangeItem_framed [framings]: "framed 0x00ec 3 (encode_ConcludeExchangeItem r)"
  unfolding encode_ConcludeExchangeItem_def by (rule framed_fill) (simp_all add: wire_puts)

lemma EncodeCZTradeOk_framed [framings]: "framed 0x00eb 2 (EncodeCZTradeOk)"
  unfolding EncodeCZTradeOk_def by (rule framed_fill) (simp_all add: wire_puts)

lemma encode_CZReqOpenStore2_framed [framings]: "framed 0x07e4 26 (encode_CZReqOpenStore2 r)"
  unfolding encode_CZReqOpenStore2_def by (rule framed_fill) (simp_all add: wire_puts)

lemma encode_CZMoveItemToStore2_framed [framings]: "framed 0x07e6 8 (encode_CZMoveItemToStore2 r)"
  unfolding encode_CZMoveItemToStore2_def by (rule framed_fill) (simp_all add: wire_puts)

lemma encode_CZMoveItemToBody2_framed [framings]: "framed 0x07e7 8 (encode_CZMoveItemToBody2 r)"
  unfolding encode_CZMoveItemToBody2_def by (rule framed_fill) (simp_all add: wire_puts)

lemma EncodeCZCloseStore_framed [framings]: "framed 0x07e5 2 (EncodeCZCloseStore)"
  unfolding EncodeCZCloseStore_def by (rule framed_fill) (simp_all add: wire_puts)

lemma encode_StorageItemListResult_framed [framings]: "framed 0x07eb 6 (encode_StorageItemListResult r)"
  unfolding encode_StorageItemListResult_def by (rule framed_fill) (simp_all add: wire_puts)

lemma ParseCZTradeRequest_encode: "ParseCZTradeRequest (encode_CZTradeRequest r) = Inr r"
  by (cases r) (simp add: ParseCZTradeRequest_def encode_CZTradeRequest_def of_frame_def wire_reads wire_puts)

lemma ParseCZTradeAck_encode: "ParseCZTradeAck (encode_CZTradeAck r) = Inr r"
  by (cases r) (simp add: ParseCZTradeAck_def encode_CZTradeAck_def of_frame_def wire_reads wire_puts)

lemma ParseCZAddExchangeItem_encode: "ParseCZAddExchangeItem (encode_CZAddExchangeItem r) = Inr r"
  by (cases r) (simp add: ParseCZAddExchangeItem_def encode_CZAddExchangeItem_def of_frame_def wire_reads wire_puts)

lemma ParseCZMoveItemToStore2_encode: "ParseCZMoveItemToStore2 (encode_CZMoveItemToStore2 r) = Inr r"
  by (cases r) (simp add: ParseCZMoveItemToStore2_def encode_CZMoveItemToStore2_def of_frame_def wire_reads wire_puts)

lemma ParseCZMoveItemToBody2_encode: "ParseCZMoveItemToBody2 (encode_CZMoveItemToBody2 r) = Inr r"
  by (cases r) (simp add: ParseCZMoveItemToBody2_def encode_CZMoveItemToBody2_def of_frame_def wire_reads wire_puts)

lemma encode_ZCAddExchangeItem_framed [framings]:
  "length (ZCAddExchangeItem_Cards r) = 4 \<Longrightarrow> length (ZCAddExchangeItem_Options r) = 5 \<Longrightarrow>
   framed 0x0b42 62 (encode_ZCAddExchangeItem r)"
  unfolding encode_ZCAddExchangeItem_def
  by (rule framed_fill) (simp_all add: wire_puts length_concat_map [of le32 4] length_concat_map [OF encode_ItemOption_length])

end
