(* ===== verification/Frames.thy ===== *)
theory Frames
  imports Framing PacketLogin PacketMap PacketTrade PacketSocial
begin

text \<open>
  The codecs, the packet database and the framing loop together: the requests the client side of
  \<open>pkg/ro/packet\<close> writes reach the handlers the table names for them, whole and in order, however the
  network cuts the stream (the legacy pickup request, which has no handler, is skipped whole); the replies the map
  server writes under a registered command have the registered length, except for the group list.
\<close>

unbundle bit_operations_syntax

section \<open>Requests reach their handlers\<close>

text \<open>
  The frames of all request encoders, each with the handler that the table names for its command; \<open>None\<close> for
  the one whose command has no handler, \<open>CZ_ITEM_PICKUP\<close>. An encoder that can refuse takes part when it writes. The two that
  do not check the length of their text (the text dialog and guild chat) are limited to frames whose 16-bit length field
  holds their length. The mail requests are those of the commands the library defines.
\<close>

inductive client_frame :: "string option \<Rightarrow> frame \<Rightarrow> bool" where
  "client_frame (Some ''handleEnterFrame'') (encode_CZEnterRequest r)"
| "client_frame (Some ''handleRequestMove'') (encode_CZRequestMoveRequest r)"
| "client_frame (Some ''handleRequestTime'') (encode_CZRequestTimeRequest r)"
| "client_frame (Some ''handleActionRequest'') (encode_CZActionRequestRequest r)"
| "client_frame (Some ''handleChangeDir'') (encode_CZChangeDirRequest r)"
| "client_frame (Some ''handleReqEmotion'') (encode_CZReqEmotionRequest r)"
| "client_frame (Some ''handleGetCharNameRequest'') (encode_CZGetCharNameRequestRequest r)"
| "client_frame (Some ''handleRestart'') (encode_CZRestartRequest r)"
| "client_frame (Some ''handleSkillUp'') (encode_CZSkillUpRequest r)"
| "client_frame (Some ''handleContactNPC'') (encode_CZContactNPCRequest r)"
| "client_frame (Some ''handleReqNextScript'') (encode_CZReqNextScriptRequest r)"
| "client_frame (Some ''handleCloseDialog'') (encode_CZCloseDialogRequest r)"
| "client_frame (Some ''handleAckSelectDealtype'') (encode_CZAckSelectDealTypeRequest r)"
| "client_frame (Some ''handleStatusChange'') (encode_CZStatusChangeRequest r)"
| "client_frame (Some ''handleChooseMenu'') (encode_CZChooseMenuRequest r)"
| "client_frame (Some ''handleInputEditDlg'') (encode_CZInputEditDlgRequest r)"
| "client_frame (Some ''handleItemDrop'') (encode_CZDropItemRequest r)"
| "client_frame (Some ''handleUseItem'') (encode_CZUseItemRequest r)"
| "client_frame (Some ''handleReqWearEquip'') (encode_CZReqWearEquipRequest r)"
| "client_frame (Some ''handleReqTakeoffEquip'') (encode_CZReqTakeoffEquipRequest r)"
| "client_frame (Some ''handleUseSkillToPos'') (encode_CZUseSkillToPos r)"
| "client_frame (Some ''handleUseSkill2'') (encode_CZUseSkill r)"
| "client_frame (Some ''handleTradeRequest'') (encode_CZTradeRequest r)"
| "client_frame (Some ''handleTradeAck'') (encode_CZTradeAck r)"
| "client_frame (Some ''handleTradeCancel'') EncodeCZTradeCancel"
| "client_frame (Some ''handleAddExchangeItem'') (encode_CZAddExchangeItem r)"
| "client_frame (Some ''handleTradeOK'') EncodeCZTradeOk"
| "client_frame (Some ''handleReqOpenStore2'') (encode_CZReqOpenStore2 r)"
| "client_frame (Some ''handleMoveItemToStore2'') (encode_CZMoveItemToStore2 r)"
| "client_frame (Some ''handleMoveItemToBody2'') (encode_CZMoveItemToBody2 r)"
| "client_frame (Some ''handleCloseStore'') EncodeCZCloseStore"
| "client_frame (Some ''handleMakeGroup'') (encode_CZMakeGroup r)"
| "client_frame (Some ''handleReqJoinGroup'') (encode_CZReqJoinGroup r)"
| "client_frame (Some ''handleJoinGroup'') (encode_CZJoinGroup r)"
| "client_frame (Some ''handleLeaveGroup'') EncodeCZReqLeaveGroup"
| "client_frame (Some ''handleFriendsAdd'') (encode_CZFriendsAdd r)"
| "client_frame (Some ''handleFriendsRemove'') (encode_CZFriendsDelete r)"
| "client_frame (Some ''handleFriendsReply'') (encode_CZFriendsReply r)"
| "client_frame (Some ''handleCreateGuild'') (encode_CZCreateGuild r)"
| "client_frame (Some ''handleGuildBreak'') (EncodeCZGuildBreak key)"
| "client_frame (Some ''handleGuildInvite'') (EncodeCZReqJoinGuild aid inviterAID inviterCID)"
| "client_frame (Some ''handleGuildReplyInvite'') (EncodeCZJoinGuild guildID answer)"
| "encode_CZGlobalMessageRequest r = Inr f \<Longrightarrow> client_frame (Some ''handleGlobalMessage'') f"
| "encode_CZWhisperRequest r = Inr f \<Longrightarrow> client_frame (Some ''handleWhisper'') f"
| "encode_CZPCPurchaseItemListRequest r = Inr f \<Longrightarrow> client_frame (Some ''handlePurchaseItemList'') f"
| "encode_CZPCSellItemListRequest r = Inr f \<Longrightarrow> client_frame (Some ''handleSellItemList'') f"
| "length (CZInputEditDlgStrRequest_Value r) < 65527 \<Longrightarrow>
    client_frame (Some ''handleInputEditDlgStr'') (encode_CZInputEditDlgStrRequest r)"
| "length message < 65532 \<Longrightarrow> client_frame (Some ''handleGuildChat'') (EncodeCZGuildChat message)"
| "client_frame (Some ''handleGuildLeave'') (EncodeCZGuildLeave guildID aid cid message)"
| "client_frame (Some ''handleGuildBan'') (EncodeCZGuildBan guildID aid cid message)"
| "CZMailReq_Op m \<in> {0x09e8, 0x09ee, 0x09ef, 0x0ac0, 0x0ac1} \<Longrightarrow> client_frame (Some ''handleOpenMailbox'') (encode_CZMailReq m)"
| "CZMailReq_Op m = 0x09ea \<Longrightarrow> client_frame (Some ''handleReadMail'') (encode_CZMailReq m)"
| "CZMailReq_Op m = 0x09f5 \<Longrightarrow> client_frame (Some ''handleDeleteMail'') (encode_CZMailReq m)"
| "CZMailReq_Op m = 0x09f1 \<Longrightarrow> client_frame (Some ''handleCollectZeny'') (encode_CZMailReq m)"
| "CZMailReq_Op m = 0x09f3 \<Longrightarrow> client_frame (Some ''handleCollectItems'') (encode_CZMailReq m)"
| "CZOpenWriteMail_Op m = 0x0a08 \<Longrightarrow> client_frame (Some ''handleOpenWriteMail'') (encode_CZOpenWriteMail m)"
| "CZOpenWriteMail_Op m \<in> {0x0a13, 0x0b97} \<Longrightarrow> client_frame (Some ''handleCheckReceiverName'') (encode_CZOpenWriteMail m)"
| "CZMailAttachItem_Op m = 0x0a04 \<Longrightarrow> client_frame (Some ''handleAddItemToMail'') (encode_CZMailAttachItem m)"
| "CZMailAttachItem_Op m = 0x0a06 \<Longrightarrow> client_frame (Some ''handleRemoveItemFromMail'') (encode_CZMailAttachItem m)"
| "client_frame None (encode_CZItemPickupRequest r)"

text \<open>What the listener does with such a frame: it hands it to the handler, or skips it.\<close>

fun event_of :: "string option \<Rightarrow> frame \<Rightarrow> traffic" where
  "event_of (Some fn) f = Dispatch fn f"
| "event_of None f = Skipped (u16_at 0 f) (length f)"

definition dispatched :: "string option \<Rightarrow> frame \<Rightarrow> bool" where
  "dispatched h f \<longleftrightarrow> map_round f = Some (event_of h f, length f)"

lemma handlers_distinct: "distinct (map fst mapHandlers)"
  unfolding mapHandlers_def list.map fst_conv by simp

lemma dispatched_fixed:
  "framed cmd n f \<Longrightarrow> (cmd, fixed_size n fn) \<in> set mapHandlers \<Longrightarrow> dispatched (Some fn) f"
  by (simp add: dispatched_def framed_def map_round_def frameLen_def fixed_size_def map_of_is_SomeI [OF handlers_distinct])

lemma dispatched_sized:
  "sized cmd f \<Longrightarrow> (cmd, var_size fn) \<in> set mapHandlers \<Longrightarrow> dispatched (Some fn) f"
  by (auto simp: dispatched_def sized_def map_round_def frameLen_def variableFrameSize_def var_size_def Let_def
      map_of_is_SomeI [OF handlers_distinct])

lemmas handler_in = mapHandlers_def list.set

lemma sized_requests:
  "encode_CZGlobalMessageRequest r1 = Inr f \<Longrightarrow> sized 0x008c f"
  "encode_CZWhisperRequest r2 = Inr f \<Longrightarrow> sized 0x0096 f"
  "encode_CZPCPurchaseItemListRequest r3 = Inr f \<Longrightarrow> sized 0x00c8 f"
  "encode_CZPCSellItemListRequest r4 = Inr f \<Longrightarrow> sized 0x00c9 f"
  "length (CZInputEditDlgStrRequest_Value r5) < 65527 \<Longrightarrow> sized 0x01d5 (encode_CZInputEditDlgStrRequest r5)"
  "length message < 65532 \<Longrightarrow> sized 0x017e (EncodeCZGuildChat message)"
  by (simp_all add: encode_CZGlobalMessageRequest_def encode_CZWhisperRequest_def encode_CZPCPurchaseItemListRequest_def
    encode_CZPCSellItemListRequest_def encode_CZInputEditDlgStrRequest_def EncodeCZGuildChat_def sized_var_frame sized_wrapped)

lemma named_requests [framings]:
  "framed 0x0159 52 (EncodeCZGuildLeave guildID aid cid message)"
  "framed 0x015b 52 (EncodeCZGuildBan guildID aid cid message)"
  "CZMailReq_Op m = 0x09ea \<Longrightarrow> framed 0x09ea 11 (encode_CZMailReq m)"
  "CZMailReq_Op m = 0x09f5 \<Longrightarrow> framed 0x09f5 11 (encode_CZMailReq m)"
  "CZMailReq_Op m = 0x09f1 \<Longrightarrow> framed 0x09f1 11 (encode_CZMailReq m)"
  "CZMailReq_Op m = 0x09f3 \<Longrightarrow> framed 0x09f3 11 (encode_CZMailReq m)"
  "CZOpenWriteMail_Op w = 0x0a08 \<Longrightarrow> framed 0x0a08 26 (encode_CZOpenWriteMail w)"
  "CZMailAttachItem_Op a = 0x0a04 \<Longrightarrow> framed 0x0a04 6 (encode_CZMailAttachItem a)"
  "CZMailAttachItem_Op a = 0x0a06 \<Longrightarrow> framed 0x0a06 6 (encode_CZMailAttachItem a)"
  using encode_CZMailReq_framed [of m] encode_CZOpenWriteMail_framed [of w] encode_CZMailAttachItem_framed [of a]
  by (simp_all add: EncodeCZGuildLeave_def EncodeCZGuildBan_def encodeCZGuildLeave_framed mail_req_layout_def)

lemma dispatched_mailbox:
  assumes "CZMailReq_Op m \<in> {0x09e8, 0x09ee, 0x09ef, 0x0ac0, 0x0ac1}"
  shows "dispatched (Some ''handleOpenMailbox'') (encode_CZMailReq m)"
proof -
  have "(op, fixed_size (fst (mail_req_layout op)) ''handleOpenMailbox'') \<in> set mapHandlers"
    if "op = 0x09e8 \<or> op = 0x09ee \<or> op = 0x09ef \<or> op = 0x0ac0 \<or> op = 0x0ac1" for op
    using that by (elim disjE) (simp_all add: mail_req_layout_def mapHandlers_def)
  then have "(CZMailReq_Op m, fixed_size (fst (mail_req_layout (CZMailReq_Op m))) ''handleOpenMailbox'') \<in> set mapHandlers"
    using assms by simp
  then show ?thesis
    by (rule dispatched_fixed [OF encode_CZMailReq_framed])
qed

lemma dispatched_check_name:
  assumes "CZOpenWriteMail_Op m \<in> {0x0a13, 0x0b97}"
  shows "dispatched (Some ''handleCheckReceiverName'') (encode_CZOpenWriteMail m)"
proof -
  have "(op, fixed_size (if op = 0x0b97 then 27 else 26) ''handleCheckReceiverName'') \<in> set mapHandlers"
    if "op = 0x0a13 \<or> op = 0x0b97" for op
    using that by (elim disjE) (simp_all add: mapHandlers_def)
  then have "(CZOpenWriteMail_Op m, fixed_size (if CZOpenWriteMail_Op m = 0x0b97 then 27 else 26) ''handleCheckReceiverName'')
      \<in> set mapHandlers"
    using assms by simp
  then show ?thesis
    by (rule dispatched_fixed [OF encode_CZOpenWriteMail_framed])
qed

lemma map_ids_distinct: "distinct (map Definition_ID map_definitions)"
  unfolding map_definitions_def Def_def list.map Definition.simps by simp

lemma pickup_skipped: "dispatched None (encode_CZItemPickupRequest r)"
proof -
  have "Def 0x009f ''CZ_ITEM_PICKUP'' 6 DirectionClientToServer \<in> set map_definitions"
    unfolding map_definitions_def list.set by (rule insertI1 | rule insertI2)+
  from Lookup_distinct [OF map_ids_distinct this]
  have l: "db_Lookup NewMapServerDB 0x009f = Some (Def 0x009f ''CZ_ITEM_PICKUP'' 6 DirectionClientToServer)"
    by (simp add: NewMapServerDB_def Def_def)
  have h: "map_of mapHandlers 0x009f = None"
    by (simp add: mapHandlers_def)
  show ?thesis
    using encode_CZItemPickupRequest_framed [of r]
    by (simp add: dispatched_def framed_def map_round_def h l unhandledSkip_def Def_def VariableLength_def)
qed

lemma client_frame_dispatched: "client_frame h f \<Longrightarrow> dispatched h f"
proof (induction rule: client_frame.induct)
qed ((rule pickup_skipped)
  | (rule dispatched_fixed, rule framings, (assumption)?, unfold handler_in, (rule insertI1 | rule insertI2)+)
  | (rule dispatched_sized, rule sized_requests, assumption, unfold handler_in, (rule insertI1 | rule insertI2)+)
  | (rule dispatched_mailbox dispatched_check_name, assumption))+

text \<open>The events of a stream of requests, and that nothing is left over, do not depend on the chunks.\<close>

lemma client_frames_dispatched:
  "list_all2 client_frame hs fs \<Longrightarrow> map_OnTraffic (concat fs) = (map2 event_of hs fs, [])"
proof (induction hs fs rule: list_all2_induct)
  case Nil
  then show ?case
    by (simp add: map_conn.drain_None [OF map_conn.round_Nil])
next
  case (Cons h hs f fs)
  then have "map_round (f @ concat fs) = Some (event_of h f, length f)"
    using map_round_stable client_frame_dispatched by (simp add: dispatched_def)
  then show ?case
    using Cons by (simp add: map_conn.drain_Some)
qed

section \<open>Replies have the registered length\<close>

text \<open>
  The frames of all encoders of the map server whose command the database knows. The lists of four cards and five options are
  Go arrays of that length; the whisper list, whose encoder does not check it, is limited to the names its 16-bit length
  field can hold. An encoder that can refuse takes part when it writes.
\<close>

inductive map_frame :: "frame \<Rightarrow> bool" where
  "map_frame (encode_GroundSkillPoseEffect r)"
| "map_frame (encode_MapAcceptEnterResponse r)"
| "map_frame (encode_MapRefuseEnterResponse r)"
| "map_frame (encode_MapNotifyPlayerMoveResponse r)"
| "map_frame (encode_UnitWalkingResponse r)"
| "map_frame (encode_MapPropertyResponse r)"
| "map_frame (encode_NotifyTimeResponse r)"
| "map_frame (encode_StatusResponse r)"
| "map_frame (encode_ParChangeResponse r)"
| "map_frame (encode_LongParChangeResponse r)"
| "map_frame (encode_LongLongParChangeResponse r)"
| "map_frame (encode_ZCAckWhisperResponse r)"
| "map_frame (encode_ZCStatusChangeAck r)"
| "map_frame (encode_ZCNotifyEffect r)"
| "map_frame (encode_ActionResponse r)"
| "map_frame (encode_ChangeDirResponse r)"
| "map_frame (encode_EmotionResponse r)"
| "map_frame (encode_SpriteChangeResponse r)"
| "map_frame (encode_AckReqNameResponse r)"
| "map_frame (encode_ReqNameAll2Response r)"
| "map_frame (encode_ReqNameAllNPCResponse r)"
| "map_frame (encode_WaitDialog2Response r)"
| "map_frame (encode_CloseDialogResponse r)"
| "map_frame (encode_OpenEditDlgResponse r)"
| "map_frame (encode_OpenEditDlgStrResponse r)"
| "map_frame (encode_SelectDealtypeResponse r)"
| "map_frame (encode_PurchaseResultResponse r)"
| "map_frame (encode_NotifyActResponse r)"
| "map_frame (encode_NotifyVanishResponse r)"
| "map_frame (encode_SellResultResponse r)"
| "map_frame (encode_ZCSettingWhisperPCResponse r)"
| "map_frame (encode_ZCSettingWhisperStateResponse r)"
| "map_frame (encode_ReqWearEquipAckResponse r)"
| "map_frame (encode_ReqTakeoffEquipAckResponse r)"
| "map_frame (encode_UseItemAck2Response r)"
| "map_frame (encode_DeleteItemFromBodyResponse r)"
| "map_frame (encode_ItemFallEntryResponse r)"
| "map_frame (encode_ItemEntryResponse r)"
| "map_frame (encode_ItemDisappearResponse r)"
| "map_frame (encode_ItemThrowAckResponse r)"
| "map_frame (encode_NotifySkillResponse r)"
| "map_frame (encode_AckUseSkillResponse r)"
| "map_frame (encode_TradeRequestResponse r)"
| "map_frame (encode_TradeAckResponse r)"
| "map_frame encode_CancelExchangeResponse"
| "map_frame (encode_AckAddExchangeItem r)"
| "map_frame (encode_ConcludeExchangeItem r)"
| "map_frame (encode_PartyConfigResponse r)"
| "map_frame (encode_AckMakeGroupResponse r)"
| "map_frame (encode_PartyJoinReqResponse r)"
| "map_frame (encode_PartyJoinReqAckResponse r)"
| "map_frame (encode_DeleteMemberFromGroupResponse r)"
| "map_frame (EncodeZCNotifyUnreadMail unread)"
| "map_frame (EncodeZCAckOpenWriteMail receiverName ok)"
| "map_frame (EncodeZCCheckName charID class baseLevel name)"
| "map_frame (EncodeZCAckWriteMail result)"
| "map_frame (EncodeZCAckRemoveItemMail ok index count weight)"
| "map_frame (EncodeZCAckDeleteMail openType mailID)"
| "map_frame (encode_AddMemberToGroupResponse r)"
| "map_frame inventoryStartFrame"
| "map_frame inventoryEndFrame"
| "map_frame (emptyHotkeyListTab tab)"
| "map_frame (encode_SpawnUnitResponse r)"
| "map_frame (encode_SetUnitIdleResponse u)"
| "map_frame (EncodeZCAckZenyFromMail mailID openType result)"
| "map_frame (EncodeZCAckItemFromMail mailID openType result)"
| "length (ItemPickupAckResponse_Slot k) = 4 \<Longrightarrow> length (ItemPickupAckResponse_Option k) = 5 \<Longrightarrow> map_frame (encode_ItemPickupAckResponse k)"
| "length (ZCAddExchangeItem_Cards a) = 4 \<Longrightarrow> length (ZCAddExchangeItem_Options a) = 5 \<Longrightarrow> map_frame (encode_ZCAddExchangeItem a)"
| "length (MailItem_Card it) = 4 \<Longrightarrow> map_frame (EncodeZCAckAddItemRodex result it)"
| "encode_NotifyChatResponse r = Inr f \<Longrightarrow> map_frame f"
| "encode_ZCWhisperResponse r = Inr f \<Longrightarrow> map_frame f"
| "encode_SayDialog2Response r = Inr f \<Longrightarrow> map_frame f"
| "encode_MenuListResponse r = Inr f \<Longrightarrow> map_frame f"
| "encode_PurchaseItemListResponse r = Inr f \<Longrightarrow> map_frame f"
| "encode_SellItemListResponse r = Inr f \<Longrightarrow> map_frame f"
| "encode_InventoryListNormalResponse r = Inr f \<Longrightarrow> map_frame f"
| "encode_InventoryListEquipResponse r = Inr f \<Longrightarrow> map_frame f"
| "encode_SkillInfoListResponse r = Inr f \<Longrightarrow> map_frame f"
| "encode_MapMoveResponse r = Inr f \<Longrightarrow> map_frame f"
| "length (ZCWhisperListResponse_Names r) \<le> 2730 \<Longrightarrow> map_frame (encode_ZCWhisperListResponse r)"
| "map_frame emptyInventoryListNormal"
| "map_frame emptyInventoryListEquip"
| "map_frame emptySkillList"
| "map_frame (encode_GroupListResponse r)"

definition accepted :: "DB \<Rightarrow> frame \<Rightarrow> bool" where
  "accepted db f =
     (case db_Length db (u16_at 0 f) of
        None \<Rightarrow> False
      | Some n \<Rightarrow> if n = VariableLength then sized (u16_at 0 f) f else int (length f) = n)"

lemma accepted_fixed:
  assumes "framed cmd n f" and "Def cmd nm (int n) dir \<in> set map_definitions"
  shows "accepted NewMapServerDB f"
proof -
  have "db_Lookup NewMapServerDB cmd = Some (Def cmd nm (int n) dir)"
    using Lookup_distinct [OF map_ids_distinct assms(2)] by (simp add: NewMapServerDB_def Def_def)
  then show ?thesis
    using assms(1) by (simp add: accepted_def db_Length_def framed_def Def_def VariableLength_def)
qed

lemma accepted_sized:
  assumes "sized cmd f" and "Def cmd nm VariableLength dir \<in> set map_definitions"
  shows "accepted NewMapServerDB f"
proof -
  have "db_Lookup NewMapServerDB cmd = Some (Def cmd nm VariableLength dir)"
    using Lookup_distinct [OF map_ids_distinct assms(2)] by (simp add: NewMapServerDB_def Def_def)
  then show ?thesis
    using assms(1) by (simp add: accepted_def db_Length_def sized_def Def_def)
qed

lemma sized_replies:
  "encode_NotifyChatResponse r0 = Inr f \<Longrightarrow> sized 0x008d f"
  "encode_ZCWhisperResponse r1 = Inr f \<Longrightarrow> sized 0x09de f"
  "encode_SayDialog2Response r2 = Inr f \<Longrightarrow> sized 0x0972 f"
  "encode_MenuListResponse r3 = Inr f \<Longrightarrow> sized 0x00b7 f"
  "encode_PurchaseItemListResponse r4 = Inr f \<Longrightarrow> sized 0x0b77 f"
  "encode_SellItemListResponse r5 = Inr f \<Longrightarrow> sized 0x00c7 f"
  "encode_InventoryListNormalResponse r6 = Inr f \<Longrightarrow> sized 0x0b09 f"
  "encode_InventoryListEquipResponse r7 = Inr f \<Longrightarrow> sized 0x0b39 f"
  "encode_SkillInfoListResponse r8 = Inr f \<Longrightarrow> sized 0x010f f"
  by (simp_all add: encode_NotifyChatResponse_def encode_ZCWhisperResponse_def encode_SayDialog2Response_def encode_MenuListResponse_def encode_PurchaseItemListResponse_def encode_SellItemListResponse_def encode_InventoryListNormalResponse_def encode_InventoryListEquipResponse_def encode_SkillInfoListResponse_def sized_var_frame)

lemma named_replies [framings]:
  "framed 0x09fe 107 (encode_SpawnUnitResponse r)" "framed 0x09ff 107 (encode_SetUnitIdleResponse r)"
  "framed 0x09f2 12 (EncodeZCAckZenyFromMail mailID openType result)"
  "framed 0x09f4 12 (EncodeZCAckItemFromMail mailID openType result)"
  by (simp_all add: encode_SpawnUnitResponse_def encode_SetUnitIdleResponse_def EncodeZCAckZenyFromMail_def
    EncodeZCAckItemFromMail_def encodeSpawnUnitLike_framed encodeZCAckCollect_framed)

lemmas definition_in = map_definitions_def list.set

lemma accepted_fixed_numeral:
  "framed cmd (numeral n) f \<Longrightarrow> Def cmd nm (numeral n) dir \<in> set map_definitions \<Longrightarrow> accepted NewMapServerDB f"
  using accepted_fixed [of cmd "numeral n" f nm dir] by simp

lemma whisper_list_sized:
  assumes "length (ZCWhisperListResponse_Names r) \<le> 2730"
  shows "sized 0x00d4 (encode_ZCWhisperListResponse r)"
proof -
  have "length (concat (map (\<lambda>n. pad 24 (bytes_of n)) ns)) = 24 * length ns" for ns
    by (rule length_concat_map) simp
  then show ?thesis
    unfolding encode_ZCWhisperListResponse_def by (intro sized_wrapped) (use assms in simp)
qed

lemma empty_lists_sized: "sized 0x0b09 emptyInventoryListNormal" "sized 0x0b39 emptyInventoryListEquip" "sized 0x010f emptySkillList"
  by (simp_all add: emptyInventoryListNormal_def emptyInventoryListEquip_def emptySkillList_def sized_def wire_reads wire_puts)

lemma map_move_framed:
  assumes "encode_MapMoveResponse r = Inr f"
  shows "framed 0x0091 22 f"
proof -
  have "f = fill 22 [put16 0 0x0091, writeFixedString 2 16 (MapMoveResponse_MapName r), put16 18 (MapMoveResponse_X r),
      put16 20 (MapMoveResponse_Y r)]" and "length (MapMoveResponse_MapName r) \<le> 16"
    using assms by (simp_all add: encode_MapMoveResponse_def split: if_splits)
  then show ?thesis
    by (simp only:) (rule framed_fill, simp_all add: wire_puts)
qed

lemma group_list_accepted:
  "accepted NewMapServerDB (encode_GroupListResponse r) \<longleftrightarrow> GroupListResponse_Members r = []"
  "db_Length NewMapServerDB 0x0ae5 = Some 28"
proof -
  have "(Def 0x0ae5 ''ZC_GROUP_LIST'' 28 DirectionServerToClient) \<in> set map_definitions"
    unfolding definition_in by (rule insertI1 | rule insertI2)+
  from Lookup_distinct [OF map_ids_distinct this]
  show l: "db_Length NewMapServerDB 0x0ae5 = Some 28"
    by (simp add: db_Length_def NewMapServerDB_def Def_def)
  have e: "length (encode_GroupListMember m) = 54" for m
    by (simp add: encode_GroupListMember_def length_fill wire_puts)
  have "length (encode_GroupListResponse r) = 28 + 54 * min (length (GroupListResponse_Members r)) 12"
    by (simp add: encode_GroupListResponse_def length_concat_map [OF e] min.commute)
  with l show "accepted NewMapServerDB (encode_GroupListResponse r) \<longleftrightarrow> GroupListResponse_Members r = []"
    by (cases "GroupListResponse_Members r")
      (auto simp: accepted_def encode_GroupListResponse_def u16_at_wrapped VariableLength_def min_def split: if_splits)
qed

lemma map_frame_accepted: "map_frame f \<Longrightarrow> accepted NewMapServerDB f \<or> (\<exists>r. f = encode_GroupListResponse r)"
proof (induction rule: map_frame.induct)
qed ((rule disjI2, rule exI, rule refl)
  | (rule disjI1, rule accepted_fixed_numeral, rule framings, ((assumption)+)?, unfold definition_in, (rule insertI1 | rule insertI2)+)
  | (rule disjI1, rule accepted_fixed_numeral, rule map_move_framed, assumption, unfold definition_in, (rule insertI1 | rule insertI2)+)
  | (rule disjI1, rule accepted_sized, rule whisper_list_sized, assumption, unfold definition_in, (rule insertI1 | rule insertI2)+)
  | (rule disjI1, rule accepted_sized, rule empty_lists_sized, unfold definition_in, (rule insertI1 | rule insertI2)+)
  | (rule disjI1, rule accepted_sized, rule sized_replies, assumption, unfold definition_in, (rule insertI1 | rule insertI2)+))+

section \<open>Requests survive being written and parsed\<close>

lemma ParseCZItemPickup_encode: "ParseCZItemPickup (encode_CZItemPickupRequest r) = Inr r"
  by (cases r) (simp add: ParseCZItemPickup_def encode_CZItemPickupRequest_def wire_reads wire_puts)

lemma ParseCZSkillUp_encode:
  "ParseCZSkillUp (encode_CZSkillUpRequest r) = Inr \<lparr>CZSkillUpRequest_SkillID = CZSkillUpRequest_SkillID r AND 0xffff\<rparr>"
proof -
  have "(ucast (ucast w :: u16) :: u32) = w AND 0xffff" for w :: u32
  proof -
    have "(ucast (ucast w :: u16) :: u32) = take_bit 16 w"
      by (rule bit_word_eqI) (auto simp: bit_simps)
    also have "\<dots> = w AND 0xffff"
      by (simp only: take_bit_eq_mask mask_eq_exp_minus_1) simp
    finally show ?thesis .
  qed
  then show ?thesis
    by (simp add: ParseCZSkillUp_def encode_CZSkillUpRequest_def wire_reads wire_puts)
qed

lemma guild_requests_encode:
  "ParseCZReqJoinGuild (EncodeCZReqJoinGuild g1 g2 g3) =
     Inr \<lparr>CZReqJoinGuild_AID = g1, CZReqJoinGuild_InviterAID = g2, CZReqJoinGuild_InviterCID = g3\<rparr>"
  "ParseCZJoinGuild (EncodeCZJoinGuild g1 answer) = Inr \<lparr>CZJoinGuild_GuildID = g1, CZJoinGuild_Answer = answer\<rparr>"
  by (simp_all add: ParseCZReqJoinGuild_def EncodeCZReqJoinGuild_def ParseCZJoinGuild_def EncodeCZJoinGuild_def of_frame_def
      wire_reads wire_puts)

lemma mail_requests_encode:
  "op \<in> {0x0ac0, 0x0ac1} \<Longrightarrow> ParseCZOpenMailbox2 (encode_CZMailReq \<lparr>CZMailReq_Op = op, CZMailReq_MailID = mail\<rparr>) =
     Inr \<lparr>CZMailReq_Op = op, CZMailReq_MailID = mail\<rparr>"
  "op \<in> {0x09ea, 0x09f5} \<Longrightarrow> parseCZMailID (encode_CZMailReq \<lparr>CZMailReq_Op = op, CZMailReq_MailID = mail\<rparr>) 11 =
     Inr \<lparr>CZMailReq_Op = op, CZMailReq_MailID = mail\<rparr>"
  "op \<in> {0x09f1, 0x09f3} \<Longrightarrow> ParseCZGetAttach (encode_CZMailReq \<lparr>CZMailReq_Op = op, CZMailReq_MailID = mail\<rparr>) =
     Inr \<lparr>CZMailReq_Op = op, CZMailReq_MailID = mail\<rparr>"
  "parseCZMailAttachItem (encode_CZMailAttachItem \<lparr>CZMailAttachItem_Op = op, CZMailAttachItem_Index = index, CZMailAttachItem_Count = count\<rparr>) op =
     Inr \<lparr>CZMailAttachItem_Op = op, CZMailAttachItem_Index = index, CZMailAttachItem_Count = count\<rparr>"
  by (auto simp: ParseCZOpenMailbox2_def parseCZMailID_def ParseCZGetAttach_def encode_CZMailReq_def mail_req_layout_def
      parseCZMailAttachItem_def encode_CZMailAttachItem_def of_frame_def wire_reads wire_puts)

lemmas request_round_trips =
  ParseCZEnter_encode ParseCZRequestTime_encode ParseCZActionRequest_encode ParseCZChangeDir_encode
  ParseCZReqEmotion_encode ParseCZGetCharNameRequest_encode ParseCZRestart_encode ParseCZContactNPC_encode
  ParseCZReqNextScript_encode ParseCZCloseDialog_encode ParseCZAckSelectDealType_encode ParseCZChooseMenu_encode
  ParseCZInputEditDlg_encode ParseCZStatusChange_encode ParseCZUseItem_encode ParseCZDropItem_encode
  ParseCZReqWearEquip_encode ParseCZReqTakeoffEquip_encode ParseCZUseSkill_encode ParseCZUseSkillToPos_encode
  ParseCZTradeRequest_encode ParseCZTradeAck_encode ParseCZAddExchangeItem_encode ParseCZMoveItemToStore2_encode
  ParseCZMoveItemToBody2_encode ParseCZReqJoinGroup_encode ParseCZJoinGroup_encode ParseCZFriendsDelete_encode
  ParseCZFriendsReply_encode
  ParseCZItemPickup_encode ParseCZSkillUp_encode ParseCZRequestMove_encode guild_requests_encode mail_requests_encode
  ParseCZReadMail_def ParseCZDeleteMail_def ParseCZMailAddItem_def ParseCZMailRemoveItem_def

section \<open>Properties\<close>

text \<open>
  C2. Take any sequence of frames of the request encoders (all of them, under the length conditions named at
  \<open>client_frame\<close>) and cut their bytes into any chunks: the map listener hands each frame to the handler of its command,
  whole and in the order written, and keeps nothing back; only the frames of \<open>CZ_ITEM_PICKUP\<close>, whose command
  \<open>0x009f\<close> is registered but has no handler, are skipped, each exactly by its six bytes.
\<close>

theorem client_stream_dispatched:
  assumes "list_all2 client_frame hs fs" and "concat chunks = concat fs"
  shows "feed map_OnTraffic [] chunks = (map2 event_of hs fs, [])"
  using client_frames_dispatched [OF assms(1)] assms(2) by (simp add: map_conn.feed_stream)

theorem client_stream_dispatched_witness:
  "feed map_OnTraffic [] (map (\<lambda>b. [b])
      (encode_CZRequestTimeRequest \<lparr>CZRequestTimeRequest_ClientTick = 7\<rparr>
        @ encode_CZItemPickupRequest \<lparr>CZItemPickupRequest_GroundID = 9\<rparr> @ EncodeCZTradeOk)) =
   ([Dispatch ''handleRequestTime'' (encode_CZRequestTimeRequest \<lparr>CZRequestTimeRequest_ClientTick = 7\<rparr>),
     Skipped 0x009f 6, Dispatch ''handleTradeOK'' EncodeCZTradeOk], [])"
proof -
  let ?p = "encode_CZItemPickupRequest \<lparr>CZItemPickupRequest_GroundID = 9\<rparr>"
  let ?fs = "[encode_CZRequestTimeRequest \<lparr>CZRequestTimeRequest_ClientTick = 7\<rparr>, ?p, EncodeCZTradeOk]"
  have f: "list_all2 client_frame [Some ''handleRequestTime'', None, Some ''handleTradeOK''] ?fs"
    by (simp add: client_frame.intros)
  have c: "concat (map (\<lambda>b. [b]) (concat ?fs)) = concat ?fs"
    by (simp only: concat_map_singleton map_ident)
  have "u16_at 0 ?p = 0x009f" "length ?p = 6"
    using encode_CZItemPickupRequest_framed by (simp_all add: framed_def)
  then show ?thesis
    using client_stream_dispatched [OF f c] by simp
qed

text \<open>
  C9. For every one of the three listeners and any bytes at all, the events and the bytes left in the buffer are
  those of reading the whole stream at once.
\<close>

theorem listeners_ignore_chunking:
  "feed map_OnTraffic [] chunks = map_OnTraffic (concat chunks)
   \<and> feed char_OnTraffic [] chunks = char_OnTraffic (concat chunks)
   \<and> feed login_frames [] chunks = login_frames (concat chunks)"
  by (simp add: map_conn.feed_stream char_conn.feed_stream login_conn.feed_stream)

text \<open>
  C39. A callback of the map listener returns: it emits at most one event for two bytes, and what it leaves in the
  buffer is a head on which no round is possible.
\<close>

theorem map_traffic_bounded:
  "2 * length (fst (map_OnTraffic buf)) + length (snd (map_OnTraffic buf)) \<le> length buf
   \<and> map_round (snd (map_OnTraffic buf)) = None"
  using map_conn.events_bound map_conn.drain_stuck by simp

text \<open>
  C15. Every frame that an encoder of the map server writes under a command of its packet database is what the database
  registers, that is, it has the registered length or, where that is variable, its length field holds its length, with
  exactly one exception: \<open>ZC_GROUP_LIST\<close> frames with at least one member, which are longer than the
  registered 28 bytes.
\<close>

theorem server_frames_registered:
  "map_frame f \<Longrightarrow>
   accepted NewMapServerDB f \<longleftrightarrow> (\<nexists>r. f = encode_GroupListResponse r \<and> GroupListResponse_Members r \<noteq> [])"
  using map_frame_accepted [of f] group_list_accepted(1) by blast

theorem server_frames_registered_witness:
  "accepted NewMapServerDB (encode_NotifyTimeResponse \<lparr>NotifyTimeResponse_Time = 5\<rparr>)"
proof -
  let ?f = "encode_NotifyTimeResponse \<lparr>NotifyTimeResponse_Time = 5\<rparr>"
  have "u16_at 0 ?f \<noteq> u16_at 0 (encode_GroupListResponse r)" for r
    using encode_NotifyTimeResponse_framed by (simp add: framed_def encode_GroupListResponse_def u16_at_wrapped)
  then have "\<nexists>r. ?f = encode_GroupListResponse r \<and> GroupListResponse_Members r \<noteq> []"
    by metis
  moreover have "map_frame ?f"
    by (rule map_frame.intros)
  ultimately show ?thesis
    using server_frames_registered [of ?f] by blast
qed

text \<open>
  Remark. \<open>ZC_GROUP_LIST\<close> is registered as a fixed frame of the header's 28 bytes, but the encoder writes one entry
  for each member, so a list with a member is not what the database says.
\<close>

theorem group_list_misregistered:
  "db_Length NewMapServerDB 0x0ae5 = Some 28
   \<and> (accepted NewMapServerDB (encode_GroupListResponse r) \<longleftrightarrow> GroupListResponse_Members r = [])"
  by (simp add: group_list_accepted)

text \<open>
  C18. Every fixed-size request without a text that the packet library both writes and parses survives being written and
  parsed, field by field, with exactly these losses: a walk request keeps the low ten bits of each coordinate, and a
  skill-up request the low sixteen bits of the skill. (Of the mail requests: opening the new mailbox and its refresh,
  reading, deleting, the two collections and the two attachment requests; the old mailbox requests do not survive,
  which is \<open>mailbox_request_shifted\<close>. Requests with a text or a list are the further theorems below.)
\<close>

theorem requests_round_trip:
  "ParseCZEnter (encode_CZEnterRequest enter) = Inr enter
   \<and> ParseCZRequestTime (encode_CZRequestTimeRequest tick) = Inr tick
   \<and> ParseCZActionRequest (encode_CZActionRequestRequest act) = Inr act
   \<and> ParseCZChangeDir (encode_CZChangeDirRequest dir) = Inr dir
   \<and> ParseCZReqEmotion (encode_CZReqEmotionRequest emotion) = Inr emotion
   \<and> ParseCZGetCharNameRequest (encode_CZGetCharNameRequestRequest who) = Inr who
   \<and> ParseCZRestart (encode_CZRestartRequest restart) = Inr restart
   \<and> ParseCZContactNPC (encode_CZContactNPCRequest npc) = Inr npc
   \<and> ParseCZReqNextScript (encode_CZReqNextScriptRequest script) = Inr script
   \<and> ParseCZCloseDialog (encode_CZCloseDialogRequest dialog) = Inr dialog
   \<and> ParseCZAckSelectDealType (encode_CZAckSelectDealTypeRequest deal) = Inr deal
   \<and> ParseCZChooseMenu (encode_CZChooseMenuRequest menu) = Inr menu
   \<and> ParseCZInputEditDlg (encode_CZInputEditDlgRequest number) = Inr number
   \<and> ParseCZStatusChange (encode_CZStatusChangeRequest stat) = Inr stat
   \<and> ParseCZUseItem (encode_CZUseItemRequest use_item) = Inr use_item
   \<and> ParseCZDropItem (encode_CZDropItemRequest drop_item) = Inr drop_item
   \<and> ParseCZReqWearEquip (encode_CZReqWearEquipRequest wear) = Inr wear
   \<and> ParseCZReqTakeoffEquip (encode_CZReqTakeoffEquipRequest takeoff) = Inr takeoff
   \<and> ParseCZItemPickup (encode_CZItemPickupRequest pickup) = Inr pickup
   \<and> ParseCZUseSkill (encode_CZUseSkill skill) = Inr skill
   \<and> ParseCZUseSkillToPos (encode_CZUseSkillToPos ground) = Inr ground
   \<and> ParseCZTradeRequest (encode_CZTradeRequest trade) = Inr trade
   \<and> ParseCZTradeAck (encode_CZTradeAck trade_ack) = Inr trade_ack
   \<and> ParseCZAddExchangeItem (encode_CZAddExchangeItem offer) = Inr offer
   \<and> ParseCZMoveItemToStore2 (encode_CZMoveItemToStore2 store) = Inr store
   \<and> ParseCZMoveItemToBody2 (encode_CZMoveItemToBody2 body) = Inr body
   \<and> ParseCZReqJoinGroup (encode_CZReqJoinGroup invite) = Inr invite
   \<and> ParseCZJoinGroup (encode_CZJoinGroup join) = Inr join
   \<and> ParseCZFriendsDelete (encode_CZFriendsDelete unfriend) = Inr unfriend
   \<and> ParseCZFriendsReply (encode_CZFriendsReply friend) = Inr friend
   \<and> ParseCZReqJoinGuild (EncodeCZReqJoinGuild g1 g2 g3) =
       Inr \<lparr>CZReqJoinGuild_AID = g1, CZReqJoinGuild_InviterAID = g2, CZReqJoinGuild_InviterCID = g3\<rparr>
   \<and> ParseCZJoinGuild (EncodeCZJoinGuild g1 answer) = Inr \<lparr>CZJoinGuild_GuildID = g1, CZJoinGuild_Answer = answer\<rparr>
   \<and> ParseCZOpenMailbox2 (encode_CZMailReq \<lparr>CZMailReq_Op = 0x0ac0, CZMailReq_MailID = mail\<rparr>) = Inr \<lparr>CZMailReq_Op = 0x0ac0, CZMailReq_MailID = mail\<rparr>
   \<and> ParseCZOpenMailbox2 (encode_CZMailReq \<lparr>CZMailReq_Op = 0x0ac1, CZMailReq_MailID = mail\<rparr>) = Inr \<lparr>CZMailReq_Op = 0x0ac1, CZMailReq_MailID = mail\<rparr>
   \<and> ParseCZReadMail (encode_CZMailReq \<lparr>CZMailReq_Op = 0x09ea, CZMailReq_MailID = mail\<rparr>) = Inr \<lparr>CZMailReq_Op = 0x09ea, CZMailReq_MailID = mail\<rparr>
   \<and> ParseCZDeleteMail (encode_CZMailReq \<lparr>CZMailReq_Op = 0x09f5, CZMailReq_MailID = mail\<rparr>) = Inr \<lparr>CZMailReq_Op = 0x09f5, CZMailReq_MailID = mail\<rparr>
   \<and> ParseCZGetAttach (encode_CZMailReq \<lparr>CZMailReq_Op = 0x09f1, CZMailReq_MailID = mail\<rparr>) = Inr \<lparr>CZMailReq_Op = 0x09f1, CZMailReq_MailID = mail\<rparr>
   \<and> ParseCZGetAttach (encode_CZMailReq \<lparr>CZMailReq_Op = 0x09f3, CZMailReq_MailID = mail\<rparr>) = Inr \<lparr>CZMailReq_Op = 0x09f3, CZMailReq_MailID = mail\<rparr>
   \<and> ParseCZMailAddItem (encode_CZMailAttachItem \<lparr>CZMailAttachItem_Op = 0x0a04, CZMailAttachItem_Index = index, CZMailAttachItem_Count = count\<rparr>) =
       Inr \<lparr>CZMailAttachItem_Op = 0x0a04, CZMailAttachItem_Index = index, CZMailAttachItem_Count = count\<rparr>
   \<and> ParseCZMailRemoveItem (encode_CZMailAttachItem \<lparr>CZMailAttachItem_Op = 0x0a06, CZMailAttachItem_Index = index, CZMailAttachItem_Count = count\<rparr>) =
       Inr \<lparr>CZMailAttachItem_Op = 0x0a06, CZMailAttachItem_Index = index, CZMailAttachItem_Count = count\<rparr>
   \<and> ParseCZRequestMove (encode_CZRequestMoveRequest \<lparr>CZRequestMoveRequest_DestX = x, CZRequestMoveRequest_DestY = y\<rparr>) =
       Inr \<lparr>CZRequestMoveRequest_DestX = x AND 0x3ff, CZRequestMoveRequest_DestY = y AND 0x3ff\<rparr>
   \<and> ParseCZSkillUp (encode_CZSkillUpRequest \<lparr>CZSkillUpRequest_SkillID = raised\<rparr>) = Inr \<lparr>CZSkillUpRequest_SkillID = raised AND 0xffff\<rparr>"
  by (simp add: request_round_trips)

text \<open>
  Remark. A whisper comes out of the parser as it was put in, whatever follows it in the buffer, if the name fits its
  field and neither text has a NUL.
\<close>

theorem whisper_round_trip:
  assumes "encode_CZWhisperRequest r = Inr f"
    and "fits 24 (CZWhisperRequest_TargetNick r)" and "CHR 0x00 \<notin> set (CZWhisperRequest_Message r)"
  shows "ParseCZWhisper (f @ rest) = Inr r"
  using assms by (rule ParseCZWhisper_encode)

theorem whisper_round_trip_witness:
  "case encode_CZWhisperRequest \<lparr>CZWhisperRequest_TargetNick = ''Ann'', CZWhisperRequest_Message = ''hi''\<rparr> of
     Inl _ \<Rightarrow> False
   | Inr f \<Rightarrow> ParseCZWhisper (f @ [1, 2]) = Inr \<lparr>CZWhisperRequest_TargetNick = ''Ann'', CZWhisperRequest_Message = ''hi''\<rparr>"
proof -
  let ?r = "\<lparr>CZWhisperRequest_TargetNick = ''Ann'', CZWhisperRequest_Message = ''hi''\<rparr>"
  obtain f where f: "encode_CZWhisperRequest ?r = Inr f"
    by (auto simp: encode_CZWhisperRequest_def var_frame_def)
  show ?thesis
    using whisper_round_trip [OF f, of "[1, 2]"] f by (simp add: fits_def)
qed

text \<open>Remark. A purchase list that can be written is parsed back entry by entry.\<close>

theorem purchase_list_round_trip:
  "encode_CZPCPurchaseItemListRequest r = Inr f \<Longrightarrow> ParseCZPCPurchaseItemList f = Inr r"
  by (rule ParseCZPCPurchaseItemList_encode)

theorem purchase_list_round_trip_witness:
  "case encode_CZPCPurchaseItemListRequest
      \<lparr>CZPCPurchaseItemListRequest_Entries = [\<lparr>CZPCPurchaseItemListEntry_ItemID = 501, CZPCPurchaseItemListEntry_Amount = 3\<rparr>]\<rparr> of
     Inl _ \<Rightarrow> False
   | Inr f \<Rightarrow> ParseCZPCPurchaseItemList f = Inr
      \<lparr>CZPCPurchaseItemListRequest_Entries = [\<lparr>CZPCPurchaseItemListEntry_ItemID = 501, CZPCPurchaseItemListEntry_Amount = 3\<rparr>]\<rparr>"
proof -
  let ?r = "\<lparr>CZPCPurchaseItemListRequest_Entries = [\<lparr>CZPCPurchaseItemListEntry_ItemID = 501, CZPCPurchaseItemListEntry_Amount = 3\<rparr>]\<rparr>"
  obtain f where f: "encode_CZPCPurchaseItemListRequest ?r = Inr f"
    by (auto simp: encode_CZPCPurchaseItemListRequest_def var_frame_def encode_CZPCPurchaseItemListEntry_def)
  show ?thesis
    using purchase_list_round_trip [OF f] f by simp
qed

text \<open>
  Remark. A walk request keeps the low ten bits of its coordinates, so it survives on every map of at most 1024 by
  1024 cells and names another cell on a larger one.
\<close>

theorem walk_request_round_trip:
  "ParseCZRequestMove (encode_CZRequestMoveRequest r) =
     Inr \<lparr>CZRequestMoveRequest_DestX = CZRequestMoveRequest_DestX r AND 0x3ff,
          CZRequestMoveRequest_DestY = CZRequestMoveRequest_DestY r AND 0x3ff\<rparr>"
  by (rule ParseCZRequestMove_encode)

text \<open>
  Remark. The mailbox refresh verbs are written with the mail id behind the command and parsed one byte further on:
  the identifier that comes out has lost its low byte.
\<close>

theorem mailbox_request_shifted:
  assumes "CZMailReq_Op m \<in> {0x09e8, 0x09ee, 0x09ef}"
  shows "ParseCZOpenMailbox (encode_CZMailReq m) = Inr (m\<lparr>CZMailReq_MailID := drop_bit 8 (CZMailReq_MailID m)\<rparr>)"
  using assms by (rule ParseCZOpenMailbox_encode)

theorem mailbox_request_shifted_witness:
  "ParseCZOpenMailbox (encode_CZMailReq \<lparr>CZMailReq_Op = 0x09e8, CZMailReq_MailID = 0x1234\<rparr>) =
     Inr \<lparr>CZMailReq_Op = 0x09e8, CZMailReq_MailID = 0x12\<rparr>"
  using mailbox_request_shifted [of "\<lparr>CZMailReq_Op = 0x09e8, CZMailReq_MailID = 0x1234\<rparr>"] by simp

text \<open>
  Remark. The parting message of a guild leave has a field of 40 bytes, but only 24 bytes of it are written.
\<close>

theorem guild_message_truncated:
  assumes "CHR 0x00 \<notin> set message"
  shows "ParseCZGuildLeave (EncodeCZGuildLeave g a c message) =
    Inr \<lparr>CZGuildLeave_GuildID = g, CZGuildLeave_AID = a, CZGuildLeave_CID = c, CZGuildLeave_Message = take 24 message\<rparr>"
  using assms by (rule ParseCZGuildLeave_encode)

theorem guild_message_truncated_witness:
  "ParseCZGuildLeave (EncodeCZGuildLeave 1 2 3 ''so long and thanks for all the fish'') =
    Inr \<lparr>CZGuildLeave_GuildID = 1, CZGuildLeave_AID = 2, CZGuildLeave_CID = 3, CZGuildLeave_Message = ''so long and thanks for a''\<rparr>"
  using guild_message_truncated [of "''so long and thanks for all the fish''" 1 2 3] by simp

text \<open>
  Remark. The table waits for 44 bytes of \<open>CZ_REQ_DISORGANIZE_GUILD\<close>, a command with a 40-byte key: a frame of
  those 42 bytes stays in the buffer until the next one comes, and takes that one's command with it.
\<close>

theorem guild_break_swallows_command:
  assumes "length key = 40"
  shows "map_OnTraffic (le16 0x015d @ key) = ([], le16 0x015d @ key)
    \<and> map_OnTraffic (le16 0x015d @ key @ le16 next @ xs) =
        (Dispatch ''handleGuildBreak'' (le16 0x015d @ key @ le16 next) # fst (map_OnTraffic xs), snd (map_OnTraffic xs))"
proof -
  have "(0x015d, fixed_size 44 ''handleGuildBreak'') \<in> set mapHandlers"
    unfolding handler_in by (rule insertI1 | rule insertI2)+
  from map_of_is_SomeI [OF handlers_distinct this]
  have h: "map_of mapHandlers 0x015d = Some (fixed_size 44 ''handleGuildBreak'')" .
  have u: "u16_at 0 (le16 0x015d @ rest) = 0x015d" for rest
    by (simp add: u16_at_def slice_def)
  have "map_round (le16 0x015d @ key) = None"
    using assms by (simp add: map_round_def u h frameLen_def fixed_size_def)
  moreover have "map_round (le16 0x015d @ key @ le16 next @ xs) =
      Some (Dispatch ''handleGuildBreak'' (le16 0x015d @ key @ le16 next), 44)"
    using assms by (simp add: map_round_def u h frameLen_def fixed_size_def)
  ultimately show ?thesis
    using assms by (simp add: map_conn.drain_None map_conn.drain_Some)
qed

theorem guild_break_swallows_command_witness:
  "fst (map_OnTraffic (le16 0x015d @ zeros 40 @ le16 0x00eb)) =
     [Dispatch ''handleGuildBreak'' (le16 0x015d @ zeros 40 @ le16 0x00eb)]"
proof -
  have k: "length (zeros 40) = 40"
    by (simp add: zeros_def)
  show ?thesis
    using guild_break_swallows_command [OF k, of "0x00eb" "[]"]
    by (simp add: map_conn.drain_None [OF map_conn.round_Nil])
qed

text \<open>
  Remark. A mail that is sent with the second form in a buffer of fewer than 68 bytes passes the minimum-length
  check and then reads past the buffer, which is a panic; from 68 bytes on no read is out of range.
\<close>

theorem write_mail_out_of_range:
  assumes "u16_at 0 (take n arr) = 0x0a6e" and "0x3e \<le> n" and "n \<le> length arr"
  shows "ParseCZWriteMail arr n = Inl OutOfRange \<longleftrightarrow> length arr < 68"
  using assms by (auto simp: ParseCZWriteMail_def Let_def)

theorem write_mail_out_of_range_witness:
  "ParseCZWriteMail (le16 0x0a6e @ zeros 62) 62 = Inl OutOfRange"
proof -
  have "u16_at 0 (take 62 (le16 0x0a6e @ zeros 62)) = 0x0a6e"
    by (simp add: u16_at_def slice_def)
  then show ?thesis
    using write_mail_out_of_range [of 62 "le16 0x0a6e @ zeros 62"] by (simp add: zeros_def)
qed

end
