(* ===== verification/Economy.thy ===== *)
theory Economy
  imports Character
begin

text \<open>
  The economy bounded context: the \<open>Zeny\<close> value object (\<open>domain/zeny.go\<close>), the append-only
  ledger (\<open>domain/ledger.go\<close>, \<open>infra/memory.go\<close>) and \<open>EconomyService\<close> (\<open>app/service.go\<close>), which
  moves zeny between the character repository and the ledger. The lemmas of the locale
  \<open>economy_env\<close> show what a movement does on every branch and that the ledger reconciles with
  the balances; it is interpreted on the two in-memory stores.
\<close>

section \<open>The Zeny value object\<close>

text \<open>\<open>struct{ amount uint32 }\<close>; \<open>int32(z.amount)\<close> is \<open>sint\<close>.\<close>

type_synonym zeny = u32

definition NewZeny :: "int \<Rightarrow> zeny res" where
  "NewZeny amount = (if amount < 0 then Inl ErrInsufficientFunds else Inr (word_of_int amount))"

definition zeny_Amount :: "zeny \<Rightarrow> int" where
  "zeny_Amount z = sint z"

definition CanAfford :: "zeny \<Rightarrow> int \<Rightarrow> bool" where
  "CanAfford z cost \<longleftrightarrow> sint z \<ge> cost"

definition zeny_Deduct :: "zeny \<Rightarrow> int \<Rightarrow> zeny res" where
  "zeny_Deduct z cost =
     (if cost < 0 \<or> sint z < cost then Inl ErrInsufficientFunds else Inr (z - word_of_int cost))"

definition zeny_Credit :: "zeny \<Rightarrow> int \<Rightarrow> zeny res" where
  "zeny_Credit z gain =
     (if gain < 0 then Inl (ErrText ''economy: credit must be non-negative'')
      else
        let next = uint z + gain
        in if next > 2 ^ 31 then Inl ErrOverflow else Inr (word_of_int next))"

section \<open>The ledger\<close>

type_synonym reason = string

abbreviation ReasonUnknown :: reason where "ReasonUnknown \<equiv> ''unknown''"
abbreviation ReasonTrade :: reason where "ReasonTrade \<equiv> ''trade''"

text \<open>\<open>CreatedAt\<close> is a clock reading; \<open>0\<close> is the zero time.\<close>

record zeny_tx =
  tx_ID :: int
  tx_AccountID :: u32
  tx_CharID :: u32
  tx_Amount :: int
  tx_Reason :: reason
  tx_PeerCharID :: u32
  tx_MapName :: string
  tx_CreatedAt :: int

definition tx_Valid :: "zeny_tx \<Rightarrow> bool" where
  "tx_Valid t \<longleftrightarrow>
     (if tx_CharID t = 0 then False
      else if tx_Amount t = 0 then False
      else if tx_Reason t = [] then False
      else if tx_CreatedAt t = 0 then False
      else True)"

record 's ledger_port =
  lp_Append :: "zeny_tx \<Rightarrow> 's \<Rightarrow> (zeny_tx, 's) out"
  lp_ListByChar :: "u32 \<Rightarrow> int \<Rightarrow> 's \<Rightarrow> (zeny_tx list, 's) out"
  lp_SumByChar :: "u32 \<Rightarrow> 's \<Rightarrow> (int, 's) out"

record mem_ledger =
  ml_nextID :: int
  ml_entries :: "zeny_tx list"
  ml_now :: int

definition NewMemoryLedger :: "int \<Rightarrow> mem_ledger" where
  "NewMemoryLedger now = \<lparr>ml_nextID = 1, ml_entries = [], ml_now = now\<rparr>"

definition ml_Append :: "zeny_tx \<Rightarrow> mem_ledger \<Rightarrow> (zeny_tx, mem_ledger) out" where
  "ml_Append tx l =
     (let tx1 = (if \<not> tx_Valid tx \<and> tx_CreatedAt tx = 0 then tx\<lparr>tx_CreatedAt := ml_now l\<rparr> else tx)
      in if \<not> tx_Valid tx1 then (Inl ErrLedgerInvalid, l)
         else
           let tx2 = tx1\<lparr>tx_ID := ml_nextID l\<rparr>
           in (Inr tx2, l\<lparr>ml_nextID := ml_nextID l + 1, ml_entries := ml_entries l @ [tx2]\<rparr>))"

text \<open>The loop of \<open>ListByChar\<close>: from the newest entry down, until \<open>limit\<close> rows are collected.\<close>

fun ml_list_loop :: "u32 \<Rightarrow> int \<Rightarrow> zeny_tx list \<Rightarrow> zeny_tx list \<Rightarrow> zeny_tx list" where
  "ml_list_loop c limit [] out = out"
| "ml_list_loop c limit (e # older) out =
     (if int (length out) < limit
      then ml_list_loop c limit older (if tx_CharID e = c then out @ [e] else out)
      else out)"

definition ml_ListByChar :: "u32 \<Rightarrow> int \<Rightarrow> mem_ledger \<Rightarrow> (zeny_tx list, mem_ledger) out" where
  "ml_ListByChar c limit l = (Inr (ml_list_loop c limit (rev (ml_entries l)) []), l)"

fun ml_sum_loop :: "u32 \<Rightarrow> zeny_tx list \<Rightarrow> int \<Rightarrow> int" where
  "ml_sum_loop c [] acc = acc"
| "ml_sum_loop c (e # es) acc =
     ml_sum_loop c es (if tx_CharID e = c then acc + tx_Amount e else acc)"

definition ml_SumByChar :: "u32 \<Rightarrow> mem_ledger \<Rightarrow> (int, mem_ledger) out" where
  "ml_SumByChar c l = (Inr (ml_sum_loop c (ml_entries l) 0), l)"

definition mem_ledger_port :: "mem_ledger ledger_port" where
  "mem_ledger_port = \<lparr>lp_Append = ml_Append, lp_ListByChar = ml_ListByChar, lp_SumByChar = ml_SumByChar\<rparr>"

section \<open>EconomyService\<close>

record ledger_entry =
  le_Reason :: reason
  le_PeerCharID :: u32
  le_MapName :: string

text \<open>The service: its two ports (the ledger may be nil) and the clock reading of the call.\<close>

record 's economy =
  es_repos :: "'s char_port"
  es_ledger :: "'s ledger_port option"
  es_now :: int

definition eco_findChar :: "'s economy \<Rightarrow> u32 \<Rightarrow> 's \<Rightarrow> (character, 's) out" where
  "eco_findChar E c s = cp_FindByID (es_repos E) c s"

definition eco_appendLedger ::
  "'s economy \<Rightarrow> character \<Rightarrow> int \<Rightarrow> ledger_entry \<Rightarrow> 's \<Rightarrow> (unit, 's) out" where
  "eco_appendLedger E c amount entry s =
     (case es_ledger E of
        None \<Rightarrow> (Inl ErrLedgerAppendFailed, s)
      | Some L \<Rightarrow>
          let reason = (if le_Reason entry = [] then ReasonUnknown else le_Reason entry);
              tx = \<lparr>tx_ID = 0, tx_AccountID = ch_AccountID c, tx_CharID = ch_ID c, tx_Amount = amount,
                    tx_Reason = reason, tx_PeerCharID = le_PeerCharID entry,
                    tx_MapName = le_MapName entry, tx_CreatedAt = es_now E\<rparr>
          in and_then (lp_Append L tx s) (\<lambda>_ s. (Inr (), s)))"

definition eco_Balance :: "'s economy \<Rightarrow> u32 \<Rightarrow> u32 \<Rightarrow> 's \<Rightarrow> (zeny, 's) out" where
  "eco_Balance E acc c s =
     and_then (cp_ListByAccount (es_repos E) acc s) (\<lambda>cs s.
       case find (\<lambda>x. ch_ID x = c) cs of
         None \<Rightarrow> (Inl ErrCharacterNotFound, s)
       | Some x \<Rightarrow> (zeny_Credit 0 (sint (ch_Zeny x)), s))"

definition DeductZenyFor ::
  "'s economy \<Rightarrow> u32 \<Rightarrow> int \<Rightarrow> ledger_entry \<Rightarrow> 's \<Rightarrow> (unit, 's) out" where
  "DeductZenyFor E c amount entry s =
     (if amount \<le> 0 then (Inl ErrInsufficientFunds, s)
      else and_then (eco_findChar E c s) (\<lambda>ch s.
        case NewZeny (sint (ch_Zeny ch)) of
          Inl e \<Rightarrow> (Inl e, s)
        | Inr z \<Rightarrow>
            case zeny_Deduct z amount of
              Inl e \<Rightarrow> (Inl e, s)
            | Inr next \<Rightarrow>
                and_then (eco_appendLedger E ch (i32 (- amount)) entry s) (\<lambda>_ s.
                  cp_UpdateZeny (es_repos E) (ch_ID ch) (word_of_int (zeny_Amount next)) s)))"

definition CreditZenyFor ::
  "'s economy \<Rightarrow> u32 \<Rightarrow> int \<Rightarrow> ledger_entry \<Rightarrow> 's \<Rightarrow> (unit, 's) out" where
  "CreditZenyFor E c amount entry s =
     (if amount \<le> 0 then (Inl (ErrText ''must be positive''), s)
      else and_then (eco_findChar E c s) (\<lambda>ch s.
        case NewZeny (sint (ch_Zeny ch)) of
          Inl e \<Rightarrow> (Inl e, s)
        | Inr z \<Rightarrow>
            case zeny_Credit z amount of
              Inl e \<Rightarrow> (Inl e, s)
            | Inr next \<Rightarrow>
                and_then (eco_appendLedger E ch amount entry s) (\<lambda>_ s.
                  cp_UpdateZeny (es_repos E) (ch_ID ch) (word_of_int (zeny_Amount next)) s)))"

definition unknown_entry :: ledger_entry where
  "unknown_entry = \<lparr>le_Reason = ReasonUnknown, le_PeerCharID = 0, le_MapName = []\<rparr>"

definition DeductZeny :: "'s economy \<Rightarrow> u32 \<Rightarrow> int \<Rightarrow> 's \<Rightarrow> (unit, 's) out" where
  "DeductZeny E c amount = DeductZenyFor E c amount unknown_entry"

definition CreditZeny :: "'s economy \<Rightarrow> u32 \<Rightarrow> int \<Rightarrow> 's \<Rightarrow> (unit, 's) out" where
  "CreditZeny E c amount = CreditZenyFor E c amount unknown_entry"

definition tradeEntry :: "u32 \<Rightarrow> ledger_entry" where
  "tradeEntry peer =
     (if peer = 0 then unknown_entry
      else \<lparr>le_Reason = ReasonTrade, le_PeerCharID = peer, le_MapName = []\<rparr>)"

definition DeductZenyWithPeer :: "'s economy \<Rightarrow> u32 \<Rightarrow> int \<Rightarrow> u32 \<Rightarrow> 's \<Rightarrow> (unit, 's) out" where
  "DeductZenyWithPeer E c amount peer = DeductZenyFor E c amount (tradeEntry peer)"

definition CreditZenyWithPeer :: "'s economy \<Rightarrow> u32 \<Rightarrow> int \<Rightarrow> u32 \<Rightarrow> 's \<Rightarrow> (unit, 's) out" where
  "CreditZenyWithPeer E c amount peer = CreditZenyFor E c amount (tradeEntry peer)"

definition GetZeny :: "'s economy \<Rightarrow> u32 \<Rightarrow> 's \<Rightarrow> (int, 's) out" where
  "GetZeny E c s = and_then (eco_findChar E c s) (\<lambda>ch s. (Inr (sint (ch_Zeny ch)), s))"

definition RecentTransactions ::
  "'s economy \<Rightarrow> u32 \<Rightarrow> int \<Rightarrow> 's \<Rightarrow> (zeny_tx list, 's) out" where
  "RecentTransactions E c limit s =
     (case es_ledger E of
        None \<Rightarrow> (Inl (ErrText ''ledger not configured''), s)
      | Some L \<Rightarrow> lp_ListByChar L c limit s)"

section \<open>Arithmetic of balances\<close>

lemma NewZeny_sint: "NewZeny (sint z) = (if uint z < 2 ^ 31 then Inr z else Inl ErrInsufficientFunds)"
  using sint_u32_nonneg_iff [of z] by (auto simp: NewZeny_def)

lemma zeny_Deduct_Inr:
  assumes "uint z < 2 ^ 31" and "0 < n"
  shows "zeny_Deduct z n = Inr z' \<longleftrightarrow> n \<le> uint z \<and> z' = z - word_of_int n"
  using assms by (auto simp: zeny_Deduct_def sint_u32_eq_uint)

lemma zeny_Credit_Inr:
  assumes "0 \<le> n"
  shows "zeny_Credit z n = Inr z' \<longleftrightarrow> uint z + n \<le> 2 ^ 31 \<and> z' = word_of_int (uint z + n)"
  using assms by (auto simp: zeny_Credit_def Let_def)

lemma word_of_int_zeny_Amount [simp]: "word_of_int (zeny_Amount z) = z"
  by (simp add: zeny_Amount_def)

lemma zeny_Deduct_uint:
  assumes "zeny_Deduct z n = Inr z'" and "uint z < 2 ^ 31" and "0 < n"
  shows "uint z' = uint z - n" and "uint z' < 2 ^ 31"
proof -
  have n: "n \<le> uint z" and z': "z' = z - word_of_int n"
    using assms zeny_Deduct_Inr [OF assms(2,3)] by auto
  show "uint z' = uint z - n"
    using assms(3) n by (simp add: z' uint_minus_u32)
  with assms n show "uint z' < 2 ^ 31"
    by simp
qed

lemma zeny_Credit_uint:
  assumes "zeny_Credit z n = Inr z'" and "0 \<le> n"
  shows "uint z' = uint z + n" and "uint z' \<le> 2 ^ 31"
proof -
  have b: "uint z + n \<le> 2 ^ 31" and z': "z' = word_of_int (uint z + n)"
    using assms zeny_Credit_Inr [OF assms(2)] by auto
  show u: "uint z' = uint z + n"
    unfolding z' using assms(2) b by (intro uint_word_of_int_u32) simp_all
  show "uint z' \<le> 2 ^ 31"
    using u b by simp
qed

lemma ml_sum_loop_eq:
  "ml_sum_loop c es s = s + sum_list (map tx_Amount (filter (\<lambda>e. tx_CharID e = c) es))"
  by (induction c es s rule: ml_sum_loop.induct) auto

lemma ml_list_loop_eq:
  "0 \<le> limit \<Longrightarrow> int (length out) \<le> limit \<Longrightarrow> ml_list_loop c limit es out =
     out @ take (nat limit - length out) (filter (\<lambda>e. tx_CharID e = c) es)"
proof (induction c limit es out rule: ml_list_loop.induct)
  case (2 c limit e older out)
  show ?case
  proof (cases "int (length out) < limit")
    case True
    then have "nat limit - length out = Suc (nat limit - Suc (length out))"
      by simp
    with True 2 show ?thesis by auto
  next
    case False
    with 2 show ?thesis by simp
  qed
qed simp

section \<open>What a movement does\<close>

text \<open>
  The environment of the service: the character table, the ledger as the list of its rows, and
  the promise that neither store touches the other's data.
\<close>

locale economy_env = character_store P chars inv room
  for P :: "'s char_port" and chars inv room +
  fixes L :: "'s ledger_port"
    and txs :: "'s \<Rightarrow> zeny_tx list"
    and now :: int
  assumes now_set: "now \<noteq> 0"
    and append_ok: "tx_Valid t \<Longrightarrow> \<exists>t' s'. lp_Append L t s = (Inr t', s') \<and> txs s' = txs s @ [t'] \<and>
      tx_CharID t' = tx_CharID t \<and> tx_Amount t' = tx_Amount t \<and> tx_Reason t' = tx_Reason t \<and>
      tx_PeerCharID t' = tx_PeerCharID t \<and> chars s' = chars s \<and> (inv s \<longrightarrow> inv s')"
    and append_err: "lp_Append L t s = (Inl e, s') \<Longrightarrow> s' = s"
    and append_iff: "lp_Append L t s = (Inr t', s') \<Longrightarrow> tx_CreatedAt t \<noteq> 0 \<Longrightarrow> tx_Valid t"
    and sum_ok: "lp_SumByChar L c s =
      (Inr (sum_list (map tx_Amount (filter (\<lambda>t. tx_CharID t = c) (txs s)))), s)"
    and zeny_txs: "cp_UpdateZeny P i z s = (r, s') \<Longrightarrow> txs s' = txs s"
begin

definition eco :: "'s economy" where
  "eco = \<lparr>es_repos = P, es_ledger = Some L, es_now = now\<rparr>"

definition balance :: "'s \<Rightarrow> u32 \<Rightarrow> int option" where
  "balance s i = map_option (uint \<circ> ch_Zeny) (chars s i)"

definition ledger_sum :: "'s \<Rightarrow> u32 \<Rightarrow> int" where
  "ledger_sum s i = sum_list (map tx_Amount (filter (\<lambda>t. tx_CharID t = i) (txs s)))"

text \<open>Every balance is its endowment plus the ledger's rows for it.\<close>

definition reconciled :: "(u32 \<Rightarrow> int) \<Rightarrow> 's \<Rightarrow> bool" where
  "reconciled endow s \<longleftrightarrow> (\<forall>i b. balance s i = Some b \<longrightarrow> b = endow i + ledger_sum s i)"

lemma append_step:
  assumes inv: "inv s" and c: "chars s i = Some c" and i: "i \<noteq> 0" and n: "n \<noteq> 0"
  shows "\<exists>t s'. eco_appendLedger eco c n entry s = (Inr (), s') \<and> txs s' = txs s @ [t] \<and>
    tx_CharID t = i \<and> tx_Amount t = n \<and> tx_PeerCharID t = le_PeerCharID entry \<and>
    chars s' = chars s \<and> inv s'"
proof -
  let ?t = "\<lparr>tx_ID = 0, tx_AccountID = ch_AccountID c, tx_CharID = ch_ID c, tx_Amount = n,
    tx_Reason = (if le_Reason entry = [] then ReasonUnknown else le_Reason entry),
    tx_PeerCharID = le_PeerCharID entry, tx_MapName = le_MapName entry, tx_CreatedAt = now\<rparr>"
  have "tx_Valid ?t"
    using i n now_set id_ok [OF inv c] by (simp add: tx_Valid_def)
  from append_ok [OF this, of s] show ?thesis
    using inv id_ok [OF inv c] by (auto simp: eco_appendLedger_def eco_def Let_def)
qed

lemma move_step:
  assumes inv: "inv s" and c: "chars s i = Some c" and i: "i \<noteq> 0" and n: "n \<noteq> 0"
  shows "\<exists>t s'. and_then (eco_appendLedger eco c n entry s)
      (\<lambda>_ s. cp_UpdateZeny P (ch_ID c) z s) = (Inr (), s') \<and>
    txs s' = txs s @ [t] \<and> tx_CharID t = i \<and> tx_Amount t = n \<and>
    tx_PeerCharID t = le_PeerCharID entry \<and>
    chars s' = (chars s)(i \<mapsto> c\<lparr>ch_Zeny := z\<rparr>) \<and> inv s'"
proof -
  obtain t s1 where s1: "eco_appendLedger eco c n entry s = (Inr (), s1)" "txs s1 = txs s @ [t]"
      "tx_CharID t = i" "tx_Amount t = n" "tx_PeerCharID t = le_PeerCharID entry"
      "chars s1 = chars s" "inv s1"
    using append_step [OF assms] by blast
  obtain s2 where s2: "cp_UpdateZeny P i z s1 = (Inr (), s2)" "inv s2"
      "chars s2 = (chars s1)(i \<mapsto> c\<lparr>ch_Zeny := z\<rparr>)"
    using zeny_ok [OF s1(7), of i c z] c s1(6) by auto
  then show ?thesis
    using s1 zeny_txs [OF s2(1)] id_ok [OF inv c] by auto
qed

text \<open>The whole contract of a deduction, then of a credit.\<close>

definition deducted :: "'s \<Rightarrow> 's \<Rightarrow> u32 \<Rightarrow> int \<Rightarrow> ledger_entry \<Rightarrow> bool" where
  "deducted s s' i n entry \<longleftrightarrow>
     (\<exists>t. txs s' = txs s @ [t] \<and> tx_CharID t = i \<and> tx_Amount t = - n \<and>
        tx_PeerCharID t = le_PeerCharID entry) \<and>
     (\<forall>j. balance s' j = (if j = i then map_option (\<lambda>b. b - n) (balance s j) else balance s j))"

definition credited :: "'s \<Rightarrow> 's \<Rightarrow> u32 \<Rightarrow> int \<Rightarrow> ledger_entry \<Rightarrow> bool" where
  "credited s s' i n entry \<longleftrightarrow>
     (\<exists>t. txs s' = txs s @ [t] \<and> tx_CharID t = i \<and> tx_Amount t = n \<and>
        tx_PeerCharID t = le_PeerCharID entry) \<and>
     (\<forall>j. balance s' j = (if j = i then map_option (\<lambda>b. b + n) (balance s j) else balance s j))"

lemma deduct_iff:
  assumes inv: "inv s" and i: "i \<noteq> 0" and n: "0 < n" "in_i32 n"
  shows "(\<exists>b. balance s i = Some b \<and> b < 2 ^ 31 \<and> n \<le> b \<and>
            (\<exists>s'. DeductZenyFor eco i n entry s = (Inr (), s') \<and> inv s' \<and> deducted s s' i n entry)) \<or>
         ((\<forall>b. balance s i = Some b \<longrightarrow> \<not> (b < 2 ^ 31 \<and> n \<le> b)) \<and>
            (\<exists>e. DeductZenyFor eco i n entry s = (Inl e, s)))"
proof (cases "chars s i")
  case None
  then show ?thesis
    using n by (auto simp: DeductZenyFor_def eco_findChar_def eco_def find_ok balance_def)
next
  case (Some c)
  note run = DeductZenyFor_def eco_findChar_def find_ok [of i s] Some NewZeny_sint
  have repo: "es_repos eco = P"
    by (simp add: eco_def)
  show ?thesis
  proof (cases "uint (ch_Zeny c) < 2 ^ 31 \<and> n \<le> uint (ch_Zeny c)")
    case True
    let ?z = "ch_Zeny c - word_of_int n"
    have d: "zeny_Deduct (ch_Zeny c) n = Inr ?z"
      using True n zeny_Deduct_Inr [of "ch_Zeny c" n ?z] by simp
    have neg: "i32 (- n) = - n"
      using n by (intro i32_id) (simp add: in_i32_def)
    obtain t s' where s': "and_then (eco_appendLedger eco c (- n) entry s)
          (\<lambda>_ s. cp_UpdateZeny P (ch_ID c) ?z s) = (Inr (), s')"
        "txs s' = txs s @ [t]" "tx_CharID t = i" "tx_Amount t = - n"
        "tx_PeerCharID t = le_PeerCharID entry" "chars s' = (chars s)(i \<mapsto> c\<lparr>ch_Zeny := ?z\<rparr>)" "inv s'"
      using move_step [OF inv Some i, of "- n" entry ?z] n by auto
    have "DeductZenyFor eco i n entry s = (Inr (), s')"
      using n True d s'(1) by (simp add: run repo neg)
    moreover have "deducted s s' i n entry"
      using s' zeny_Deduct_uint(1) [OF d] True n Some by (auto simp: deducted_def balance_def)
    ultimately show ?thesis
      using Some True s'(7) by (auto simp: balance_def)
  next
    case False
    have "\<exists>e. DeductZenyFor eco i n entry s = (Inl e, s)"
      using n False zeny_Deduct_Inr [of "ch_Zeny c" n] by (auto simp: run repo split: sum.split)
    then show ?thesis
      using Some False by (auto simp: balance_def)
  qed
qed

lemma credit_iff:
  assumes inv: "inv s" and i: "i \<noteq> 0" and n: "0 < n"
  shows "(\<exists>b. balance s i = Some b \<and> b < 2 ^ 31 \<and> b + n \<le> 2 ^ 31 \<and>
            (\<exists>s'. CreditZenyFor eco i n entry s = (Inr (), s') \<and> inv s' \<and> credited s s' i n entry)) \<or>
         ((\<forall>b. balance s i = Some b \<longrightarrow> \<not> (b < 2 ^ 31 \<and> b + n \<le> 2 ^ 31)) \<and>
            (\<exists>e. CreditZenyFor eco i n entry s = (Inl e, s)))"
proof (cases "chars s i")
  case None
  then show ?thesis
    using n by (auto simp: CreditZenyFor_def eco_findChar_def eco_def find_ok balance_def)
next
  case (Some c)
  note run = CreditZenyFor_def eco_findChar_def find_ok [of i s] Some NewZeny_sint
  have repo: "es_repos eco = P"
    by (simp add: eco_def)
  show ?thesis
  proof (cases "uint (ch_Zeny c) < 2 ^ 31 \<and> uint (ch_Zeny c) + n \<le> 2 ^ 31")
    case True
    let ?z = "word_of_int (uint (ch_Zeny c) + n) :: u32"
    have d: "zeny_Credit (ch_Zeny c) n = Inr ?z"
      using True n zeny_Credit_Inr [of n "ch_Zeny c" ?z] by simp
    obtain t s' where s': "and_then (eco_appendLedger eco c n entry s)
          (\<lambda>_ s. cp_UpdateZeny P (ch_ID c) ?z s) = (Inr (), s')"
        "txs s' = txs s @ [t]" "tx_CharID t = i" "tx_Amount t = n"
        "tx_PeerCharID t = le_PeerCharID entry" "chars s' = (chars s)(i \<mapsto> c\<lparr>ch_Zeny := ?z\<rparr>)" "inv s'"
      using move_step [OF inv Some i, of n entry ?z] n by auto
    have "CreditZenyFor eco i n entry s = (Inr (), s')"
      using n True d s'(1) by (simp add: run repo)
    moreover have "credited s s' i n entry"
      using s' zeny_Credit_uint(1) [OF d] True n Some by (auto simp: credited_def balance_def)
    ultimately show ?thesis
      using Some True s'(7) by (auto simp: balance_def)
  next
    case False
    have "\<exists>e. CreditZenyFor eco i n entry s = (Inl e, s)"
      using n False zeny_Credit_Inr [of n "ch_Zeny c"] by (auto simp: run repo split: sum.split)
    then show ?thesis
      using Some False by (auto simp: balance_def)
  qed
qed

lemma deduct_ok:
  assumes "inv s" and "i \<noteq> 0" and "0 < n" and "in_i32 n" and "DeductZenyFor eco i n entry s = (Inr (), s')"
  shows "inv s'" and "deducted s s' i n entry" and "\<exists>b. balance s i = Some b \<and> n \<le> b \<and> b < 2 ^ 31"
  using deduct_iff [OF assms(1-4), of entry] assms(5) by auto

lemma credit_ok:
  assumes "inv s" and "i \<noteq> 0" and "0 < n" and "CreditZenyFor eco i n entry s = (Inr (), s')"
  shows "inv s'" and "credited s s' i n entry" and "\<exists>b. balance s i = Some b \<and> b + n \<le> 2 ^ 31 \<and> b < 2 ^ 31"
  using credit_iff [OF assms(1-3), of entry] assms(4) by auto

lemma deducted_reconciled: "deducted s s' i n entry \<Longrightarrow> reconciled e s \<Longrightarrow> reconciled e s'"
  by (auto simp: deducted_def reconciled_def ledger_sum_def split: if_splits)

lemma credited_reconciled: "credited s s' i n entry \<Longrightarrow> reconciled e s \<Longrightarrow> reconciled e s'"
  by (auto simp: credited_def reconciled_def ledger_sum_def split: if_splits)

text \<open>Any sequence of movements, failed ones included, keeps the ledger reconciled.\<close>

definition movement :: "bool \<Rightarrow> u32 \<Rightarrow> int \<Rightarrow> ledger_entry \<Rightarrow> 's \<Rightarrow> 's" where
  "movement credit i n entry s =
     snd (if credit then CreditZenyFor eco i n entry s else DeductZenyFor eco i n entry s)"

lemma movement_reconciled:
  assumes inv: "inv s" and i: "i \<noteq> 0" and n: "in_i32 n" and rec: "reconciled e s"
  shows "inv (movement credit i n entry s) \<and> reconciled e (movement credit i n entry s)"
proof (cases "0 < n")
  case False
  then show ?thesis
    using inv rec by (auto simp: movement_def DeductZenyFor_def CreditZenyFor_def)
next
  case pos: True
  show ?thesis
  proof (cases credit)
    case True
    then show ?thesis
      using credit_iff [OF inv i pos, of entry] rec credited_reconciled inv by (auto simp: movement_def)
  next
    case False
    then show ?thesis
      using deduct_iff [OF inv i pos n, of entry] rec deducted_reconciled inv by (auto simp: movement_def)
  qed
qed

lemma movements_reconciled:
  assumes "inv s" and "\<forall>(credit, i, n, entry) \<in> set ms. i \<noteq> 0 \<and> in_i32 n" and "reconciled e s"
  shows "reconciled e (fold (\<lambda>(credit, i, n, entry). movement credit i n entry) ms s)"
  using assms
proof (induction ms arbitrary: s)
  case (Cons m ms)
  obtain credit i n entry where m: "m = (credit, i, n, entry)"
    by (cases m) auto
  show ?case
    using Cons.prems Cons.IH [of "movement credit i n entry s"]
      movement_reconciled [of s i n e credit entry] by (simp add: m)
qed simp

end

section \<open>The in-memory stores\<close>

record econ_db =
  db_chars :: char_repo
  db_ledger :: mem_ledger

abbreviation put_chars :: "char_repo \<Rightarrow> 'z econ_db_scheme \<Rightarrow> 'z econ_db_scheme" where
  "put_chars r \<equiv> db_chars_update (\<lambda>_. r)"

abbreviation put_ledger :: "mem_ledger \<Rightarrow> 'z econ_db_scheme \<Rightarrow> 'z econ_db_scheme" where
  "put_ledger l \<equiv> db_ledger_update (\<lambda>_. l)"

definition lift_ledger_port :: "('s \<Rightarrow> 't) \<Rightarrow> ('t \<Rightarrow> 's \<Rightarrow> 's) \<Rightarrow> 't ledger_port \<Rightarrow> 's ledger_port" where
  "lift_ledger_port get put L =
     \<lparr>lp_Append = (\<lambda>t. zoom get put (lp_Append L t)),
      lp_ListByChar = (\<lambda>c n. zoom get put (lp_ListByChar L c n)),
      lp_SumByChar = (\<lambda>c. zoom get put (lp_SumByChar L c))\<rparr>"

definition db_char_port :: "'z econ_db_scheme char_port" where
  "db_char_port = lift_char_port db_chars put_chars mem_char_port"

definition db_ledger_port :: "'z econ_db_scheme ledger_port" where
  "db_ledger_port = lift_ledger_port db_ledger put_ledger mem_ledger_port"

definition mem_economy :: "'z econ_db_scheme economy" where
  "mem_economy = \<lparr>es_repos = db_char_port, es_ledger = Some db_ledger_port, es_now = 1\<rparr>"

interpretation db_chars_field: character_field mem_char_port cr_chars cr_wf cr_room
    "db_chars :: 'z econ_db_scheme \<Rightarrow> char_repo" put_chars
  by unfold_locales simp_all

interpretation db_ledger_field: field_of "db_ledger :: 'z econ_db_scheme \<Rightarrow> mem_ledger" put_ledger
  by unfold_locales simp_all

interpretation mem_eco: economy_env "db_char_port :: 'z econ_db_scheme char_port"
    "\<lambda>s. cr_chars (db_chars s)" "\<lambda>s. cr_wf (db_chars s)" "\<lambda>s. cr_room (db_chars s)"
    "db_ledger_port :: 'z econ_db_scheme ledger_port" "\<lambda>s. ml_entries (db_ledger s)" 1
  rewrites "economy_env.eco db_char_port (db_ledger_port :: 'z econ_db_scheme ledger_port) 1 = mem_economy"
proof -
  have cs: "character_store (db_char_port :: 'z econ_db_scheme char_port)
      (\<lambda>s. cr_chars (db_chars s)) (\<lambda>s. cr_wf (db_chars s)) (\<lambda>s. cr_room (db_chars s))"
    unfolding db_char_port_def by (rule db_chars_field.lifted.character_store_axioms)
  have upd: "db_ledger s' = db_ledger s"
    if "cp_UpdateZeny db_char_port i z s = (r, s')" for i z s r and s' :: "'z econ_db_scheme"
    using that by (auto simp: db_char_port_def lift_char_port_def zoom_def split: prod.splits)
  have "economy_env_axioms (db_char_port :: 'z econ_db_scheme char_port)
      (\<lambda>s. cr_chars (db_chars s)) (\<lambda>s. cr_wf (db_chars s))
      db_ledger_port (\<lambda>s. ml_entries (db_ledger s)) 1"
    by (unfold_locales)
      (auto simp: db_ledger_port_def lift_ledger_port_def mem_ledger_port_def zoom_def Let_def
        ml_Append_def ml_SumByChar_def ml_sum_loop_eq tx_Valid_def dest: upd
        split: prod.splits if_splits)
  with cs show env: "economy_env (db_char_port :: 'z econ_db_scheme char_port)
      (\<lambda>s. cr_chars (db_chars s)) (\<lambda>s. cr_wf (db_chars s)) (\<lambda>s. cr_room (db_chars s))
      db_ledger_port (\<lambda>s. ml_entries (db_ledger s)) 1"
    by (rule economy_env.intro)
  show "economy_env.eco db_char_port (db_ledger_port :: 'z econ_db_scheme ledger_port) 1 = mem_economy"
    by (simp add: economy_env.eco_def [OF env] mem_economy_def)
qed

section \<open>Properties\<close>

definition db_balance :: "'z econ_db_scheme \<Rightarrow> u32 \<Rightarrow> int option" where
  "db_balance s i = map_option (uint \<circ> ch_Zeny) (cr_chars (db_chars s) i)"

definition db_ledger_sum :: "'z econ_db_scheme \<Rightarrow> u32 \<Rightarrow> int" where
  "db_ledger_sum s i =
     sum_list (map tx_Amount (filter (\<lambda>t. tx_CharID t = i) (ml_entries (db_ledger s))))"

text \<open>One call of the service: a credit or a deduction, its error discarded.\<close>

definition eco_call :: "bool \<times> u32 \<times> int \<times> ledger_entry \<Rightarrow> econ_db \<Rightarrow> econ_db" where
  "eco_call = (\<lambda>(credit, i, n, entry) s.
     snd (if credit then CreditZenyFor mem_economy i n entry s
          else DeductZenyFor mem_economy i n entry s))"

lemma mem_eco_balance: "mem_eco.balance = db_balance"
  by (simp add: fun_eq_iff mem_eco.balance_def db_balance_def)

lemma mem_eco_ledger_sum: "mem_eco.ledger_sum = db_ledger_sum"
  by (simp add: fun_eq_iff mem_eco.ledger_sum_def db_ledger_sum_def)

lemma eco_call_movement: "eco_call = (\<lambda>(credit, i, n, entry). mem_eco.movement credit i n entry)"
  by (simp add: fun_eq_iff eco_call_def mem_eco.movement_def)

text \<open>Two characters with balances, for the witnesses.\<close>

definition demo_econ :: econ_db where
  "demo_econ =
     \<lparr>db_chars = \<lparr>cr_byID = [(1, zero_character\<lparr>ch_ID := 1, ch_AccountID := 7, ch_Name := ''a'', ch_Zeny := 100\<rparr>),
        (2, zero_character\<lparr>ch_ID := 2, ch_AccountID := 8, ch_Name := ''b'', ch_Zeny := 2147483647\<rparr>)],
        cr_names = {''a'', ''b''}, cr_next = 150000\<rparr>,
      db_ledger = NewMemoryLedger 1\<rparr>"

lemma demo_econ_wf [simp]: "cr_wf (db_chars demo_econ)"
  by (auto simp: cr_wf_def demo_econ_def)

lemma demo_econ_ledger [simp]: "ml_entries (db_ledger demo_econ) = []"
  by (simp add: demo_econ_def NewMemoryLedger_def)

lemma demo_econ_balances [simp]:
  "db_balance demo_econ 1 = Some 100" "db_balance demo_econ 2 = Some 2147483647"
  by (simp_all add: db_balance_def demo_econ_def)

text \<open>
  C4. The audit trail reconciles. Whatever credits and deductions are requested, in any order,
  by any callers and whether they succeed or fail, the balance of every character stays its
  endowment plus the signed sum of its ledger rows.
\<close>

theorem ledger_reconciles:
  assumes "cr_wf (db_chars s)"
    and "\<forall>(credit, i, n, entry) \<in> set calls. i \<noteq> 0 \<and> in_i32 n"
    and "\<forall>i b. db_balance s i = Some b \<longrightarrow> b = endow i + db_ledger_sum s i"
  shows "\<forall>i b. db_balance (fold eco_call calls s) i = Some b \<longrightarrow>
    b = endow i + db_ledger_sum (fold eco_call calls s) i"
  using mem_eco.movements_reconciled [OF assms(1,2), of endow] assms(3)
  by (simp add: mem_eco.reconciled_def mem_eco_balance mem_eco_ledger_sum eco_call_movement)

theorem ledger_reconciles_witness:
  "db_balance (fold eco_call [(False, 1, 30, unknown_entry), (False, 1, 500, unknown_entry),
      (True, 2, 1, unknown_entry)] demo_econ) 1 = Some 70 \<and>
   db_ledger_sum (fold eco_call [(False, 1, 30, unknown_entry), (False, 1, 500, unknown_entry),
      (True, 2, 1, unknown_entry)] demo_econ) 1 = - 30"
proof -
  let ?calls = "[(False, 1, 30, unknown_entry), (False, 1, 500, unknown_entry), (True, 2, 1, unknown_entry)]"
  let ?endow = "\<lambda>i. case db_balance demo_econ i of None \<Rightarrow> 0 | Some e \<Rightarrow> e"
  have bal: "db_balance (fold eco_call ?calls demo_econ) 1 = Some 70"
    by code_simp
  have "\<forall>i b. db_balance (fold eco_call ?calls demo_econ) i = Some b \<longrightarrow>
      b = ?endow i + db_ledger_sum (fold eco_call ?calls demo_econ) i"
    by (rule ledger_reconciles) (auto simp: in_i32_def db_ledger_sum_def)
  from this [rule_format, OF bal] bal show ?thesis
    by simp
qed

text \<open>
  C8. A deduction is all or nothing: it succeeds exactly when the balance (below the int32
  limit) covers the positive amount, and then the balance drops by it, one ledger row with the
  negated amount is appended and no other balance moves; otherwise it returns an error and
  nothing at all changes.
\<close>

theorem deduct_all_or_nothing:
  assumes "cr_wf (db_chars s)" and "i \<noteq> 0" and "0 < n" and "n < 2 ^ 31"
  shows "if \<exists>b. db_balance s i = Some b \<and> b < 2 ^ 31 \<and> n \<le> b
    then \<exists>s' t. DeductZenyFor mem_economy i n entry s = (Inr (), s') \<and>
      ml_entries (db_ledger s') = ml_entries (db_ledger s) @ [t] \<and>
      tx_CharID t = i \<and> tx_Amount t = - n \<and>
      (\<forall>j. db_balance s' j = (if j = i then map_option (\<lambda>b. b - n) (db_balance s j) else db_balance s j))
    else \<exists>e. DeductZenyFor mem_economy i n entry s = (Inl e, s)"
proof -
  have n: "in_i32 n"
    using assms(3,4) by (simp add: in_i32_def)
  show ?thesis
    using mem_eco.deduct_iff [OF assms(1-3) n, of entry]
    unfolding mem_eco.deducted_def mem_eco_balance by fastforce
qed

theorem deduct_all_or_nothing_witness:
  "\<exists>e. DeductZenyFor mem_economy 1 101 unknown_entry demo_econ = (Inl e, demo_econ)"
  using deduct_all_or_nothing [of demo_econ 1 101 unknown_entry]
  by simp

text \<open>
  C31. The cap is off by one: a credit that brings the balance to exactly \<open>2^31\<close> is accepted,
  after which the balance reads as a negative int32, and no credit or deduction of any amount
  ever succeeds again for that character.
\<close>

theorem credit_to_cap_freezes:
  assumes "cr_wf (db_chars s)" and "i \<noteq> 0" and "0 < n"
    and "db_balance s i = Some (2 ^ 31 - n)"
  shows "\<exists>s'. CreditZenyFor mem_economy i n entry s = (Inr (), s') \<and>
    GetZeny mem_economy i s' = (Inr (- (2 ^ 31)), s') \<and>
    (\<forall>m en. (\<exists>e. DeductZenyFor mem_economy i m en s' = (Inl e, s')) \<and>
            (\<exists>e. CreditZenyFor mem_economy i m en s' = (Inl e, s')))"
proof -
  obtain s' where s': "CreditZenyFor mem_economy i n entry s = (Inr (), s')" "cr_wf (db_chars s')"
      "mem_eco.credited s s' i n entry"
    using mem_eco.credit_iff [OF assms(1-3), of entry] assms(3,4) by (auto simp: mem_eco_balance)
  then have "db_balance s' i = Some (2 ^ 31)"
    using assms(4) by (simp add: mem_eco.credited_def mem_eco_balance)
  then obtain c where c: "cr_chars (db_chars s') i = Some c" "uint (ch_Zeny c) = 2 ^ 31"
    by (auto simp: db_balance_def)
  have find: "eco_findChar mem_economy i s' = (Inr c, s')"
    using mem_eco.find_ok [of i s'] c(1) by (simp add: eco_findChar_def mem_economy_def)
  have "sint (ch_Zeny c) = - (2 ^ 31)"
    using sint_u32_high [of "ch_Zeny c"] c(2) by simp
  then show ?thesis
    using s'(1) by (auto simp: GetZeny_def DeductZenyFor_def CreditZenyFor_def find NewZeny_def)
qed

theorem credit_to_cap_freezes_witness:
  "\<exists>s'. CreditZenyFor mem_economy 2 1 unknown_entry demo_econ = (Inr (), s') \<and>
    GetZeny mem_economy 2 s' = (Inr (- (2 ^ 31)), s') \<and>
    (\<forall>m en. (\<exists>e. DeductZenyFor mem_economy 2 m en s' = (Inl e, s')) \<and>
            (\<exists>e. CreditZenyFor mem_economy 2 m en s' = (Inl e, s')))"
  by (rule credit_to_cap_freezes) simp_all

end
