(* ===== verification/Inventory.thy ===== *)
theory Inventory
  imports GoPrelude
begin

text \<open>
  The inventory bounded context: the \<open>Item\<close> row and the \<open>ItemRepository\<close> port
  (\<open>domain/item.go\<close>), the in-memory repository (\<open>infra/memory.go\<close>) and \<open>InventoryService\<close>
  (\<open>app/service.go\<close>). The locale \<open>item_store\<close> states what the clients of the port (shop, trade,
  warehouse, gear, scripts) rely on; it is interpreted on the in-memory repository, alone and as
  a field of a larger state.
\<close>

section \<open>Rows and the port\<close>

record item =
  it_ID :: u32
  it_CharID :: u32
  it_NameID :: u32
  it_Amount :: u32
  it_Equip :: u32
  it_Identify :: int
  it_Refine :: u8
  it_Attribute :: u8
  it_Card0 :: u32
  it_Card1 :: u32
  it_Card2 :: u32
  it_Card3 :: u32
  it_ExpireTime :: u32
  it_Favorite :: u8
  it_Bound :: u8
  it_UniqueID :: u64

definition zero_item :: item where
  "zero_item = \<lparr>it_ID = 0, it_CharID = 0, it_NameID = 0, it_Amount = 0, it_Equip = 0,
     it_Identify = 0, it_Refine = 0, it_Attribute = 0, it_Card0 = 0, it_Card1 = 0, it_Card2 = 0,
     it_Card3 = 0, it_ExpireTime = 0, it_Favorite = 0, it_Bound = 0, it_UniqueID = 0\<rparr>"

definition IsEquipped :: "item \<Rightarrow> bool" where
  "IsEquipped i \<longleftrightarrow> it_Equip i \<noteq> 0"

record 's item_port =
  ip_LoadByChar :: "u32 \<Rightarrow> u32 \<Rightarrow> 's \<Rightarrow> (item list, 's) out"
  ip_Add :: "u32 \<Rightarrow> u32 \<Rightarrow> int \<Rightarrow> 's \<Rightarrow> (item, 's) out"
  ip_Remove :: "u32 \<Rightarrow> int \<Rightarrow> 's \<Rightarrow> (unit, 's) out"
  ip_SetEquip :: "u32 \<Rightarrow> u32 \<Rightarrow> 's \<Rightarrow> (unit, 's) out"

section \<open>The in-memory repository\<close>

record item_repo =
  ir_items :: "(u32 \<times> item) list"
  ir_next :: u32

definition NewMemoryItemRepository :: item_repo where
  "NewMemoryItemRepository = \<lparr>ir_items = [], ir_next = 0\<rparr>"

definition ir_LoadByChar :: "u32 \<Rightarrow> u32 \<Rightarrow> item_repo \<Rightarrow> (item list, item_repo) out" where
  "ir_LoadByChar acc c r =
     (Inr (sort_key it_ID (filter (\<lambda>it. it_CharID it = c) (map snd (ir_items r)))), r)"

definition ir_Add :: "u32 \<Rightarrow> u32 \<Rightarrow> int \<Rightarrow> item_repo \<Rightarrow> (item, item_repo) out" where
  "ir_Add c nameID amount r =
     (if amount \<le> 0 then (Inl ErrInsufficientAmount, r)
      else
        let n = ir_next r + 1;
            it = zero_item\<lparr>it_ID := n, it_CharID := c, it_NameID := nameID,
                   it_Amount := word_of_int amount, it_Identify := 1\<rparr>
        in (Inr it, r\<lparr>ir_next := n, ir_items := AList.update n it (ir_items r)\<rparr>))"

definition ir_Remove :: "u32 \<Rightarrow> int \<Rightarrow> item_repo \<Rightarrow> (unit, item_repo) out" where
  "ir_Remove i amount r =
     (case map_of (ir_items r) i of
        None \<Rightarrow> (Inl ErrItemNotFound, r)
      | Some it \<Rightarrow>
          if uint (it_Amount it) < amount then (Inl ErrInsufficientAmount, r)
          else if uint (it_Amount it) = amount then (Inr (), r\<lparr>ir_items := AList.delete i (ir_items r)\<rparr>)
          else (Inr (), r\<lparr>ir_items := AList.update i
                  (it\<lparr>it_Amount := it_Amount it - word_of_int amount\<rparr>) (ir_items r)\<rparr>))"

definition ir_SetEquip :: "u32 \<Rightarrow> u32 \<Rightarrow> item_repo \<Rightarrow> (unit, item_repo) out" where
  "ir_SetEquip i equip r =
     (case map_of (ir_items r) i of
        None \<Rightarrow> (Inl ErrItemNotFound, r)
      | Some it \<Rightarrow> (Inr (), r\<lparr>ir_items := AList.update i (it\<lparr>it_Equip := equip\<rparr>) (ir_items r)\<rparr>))"

definition mem_item_port :: "item_repo item_port" where
  "mem_item_port = \<lparr>ip_LoadByChar = ir_LoadByChar, ip_Add = ir_Add, ip_Remove = ir_Remove,
     ip_SetEquip = ir_SetEquip\<rparr>"

text \<open>\<open>InventoryService\<close> forwards to the repository and wraps its errors.\<close>

definition InventoryService :: "'s item_port \<Rightarrow> 's item_port" where
  "InventoryService R =
     \<lparr>ip_LoadByChar = (\<lambda>acc c s. on_err (ip_LoadByChar R acc c s) (\<lambda>e. e)),
      ip_Add = (\<lambda>c nameID amount s. on_err (ip_Add R c nameID amount s) (\<lambda>e. e)),
      ip_Remove = (\<lambda>i amount s. on_err (ip_Remove R i amount s) (\<lambda>e. e)),
      ip_SetEquip = (\<lambda>i equip s. on_err (ip_SetEquip R i equip s) (\<lambda>e. e))\<rparr>"

lemma on_err_id [simp]: "on_err r (\<lambda>e. e) = r"
  by (cases "(r, \<lambda>e::err. e)" rule: on_err.cases) auto

lemma InventoryService_id: "InventoryService R = R"
  by (simp add: InventoryService_def)

section \<open>What the clients rely on\<close>

text \<open>Replacing one entry of a map on a finite type changes a sum over it by one term.\<close>

lemma sum_map_upd:
  fixes m :: "'k::finite \<Rightarrow> 'v option" and f :: "'v option \<Rightarrow> int"
  shows "(\<Sum>k\<in>UNIV. f ((m(i := v)) k)) = (\<Sum>k\<in>UNIV. f (m k)) - f (m i) + f v"
proof -
  have "(\<Sum>k\<in>UNIV. f ((m(i := v)) k)) = f v + (\<Sum>k\<in>UNIV - {i}. f ((m(i := v)) k))"
    by (subst sum.remove [of UNIV i]) simp_all
  also have "(\<Sum>k\<in>UNIV - {i}. f ((m(i := v)) k)) = (\<Sum>k\<in>UNIV - {i}. f (m k))"
    by (rule sum.cong) auto
  also have "f v + \<dots> = (\<Sum>k\<in>UNIV. f (m k)) - f (m i) + f v"
    using sum.remove [of UNIV i "\<lambda>k. f (m k)"] by simp
  finally show ?thesis .
qed

text \<open>How many units of item \<open>m\<close> the row holds for character \<open>c\<close>.\<close>

definition units :: "u32 \<Rightarrow> u32 \<Rightarrow> item option \<Rightarrow> int" where
  "units c m r = (case r of None \<Rightarrow> 0
     | Some it \<Rightarrow> if it_CharID it = c \<and> it_NameID it = m then uint (it_Amount it) else 0)"

lemma units_None [simp]: "units c m None = 0"
  by (simp add: units_def)

lemma units_Some: "units c m (Some it) =
    (if it_CharID it = c \<and> it_NameID it = m then uint (it_Amount it) else 0)"
  by (simp add: units_def)

text \<open>
  \<open>rows\<close> is the table, \<open>room\<close> the number of inserts before the id counter wraps. The laws are the
  doc comments of \<open>ItemRepository\<close>.
\<close>

locale item_store =
  fixes I :: "'s item_port"
    and rows :: "'s \<Rightarrow> u32 \<Rightarrow> item option"
    and inv :: "'s \<Rightarrow> bool"
    and room :: "'s \<Rightarrow> nat"
  assumes load_ok: "inv s \<Longrightarrow> \<exists>xs. ip_LoadByChar I acc c s = (Inr xs, s) \<and> distinct xs \<and>
      sorted (map it_ID xs) \<and> set xs = {it \<in> ran (rows s). it_CharID it = c}"
    and row_id: "inv s \<Longrightarrow> rows s i = Some it \<Longrightarrow> it_ID it = i"
    and add_ok: "inv s \<Longrightarrow> 0 < room s \<Longrightarrow> 0 < n \<Longrightarrow> n < 2 ^ 32 \<Longrightarrow>
      \<exists>it s'. ip_Add I c m n s = (Inr it, s') \<and> inv s' \<and> room s \<le> room s' + 1 \<and>
        it_CharID it = c \<and> it_NameID it = m \<and> it_Amount it = word_of_int n \<and> it_Equip it = 0 \<and>
        rows s (it_ID it) = None \<and> rows s' = (rows s)(it_ID it \<mapsto> it)"
    and add_refused: "n \<le> 0 \<Longrightarrow> ip_Add I c m n s = (Inl ErrInsufficientAmount, s)"
    and remove_ok: "inv s \<Longrightarrow> rows s i = Some it \<Longrightarrow> 0 < n \<Longrightarrow> n \<le> uint (it_Amount it) \<Longrightarrow>
      \<exists>s'. ip_Remove I i n s = (Inr (), s') \<and> inv s' \<and> room s' = room s \<and>
        rows s' = (rows s)(i := (if n = uint (it_Amount it) then None
                                 else Some (it\<lparr>it_Amount := it_Amount it - word_of_int n\<rparr>)))"
    and remove_missing: "rows s i = None \<Longrightarrow> ip_Remove I i n s = (Inl ErrItemNotFound, s)"
    and remove_short: "rows s i = Some it \<Longrightarrow> uint (it_Amount it) < n \<Longrightarrow>
      ip_Remove I i n s = (Inl ErrInsufficientAmount, s)"
    and equip_ok: "inv s \<Longrightarrow> rows s i = Some it \<Longrightarrow>
      \<exists>s'. ip_SetEquip I i e s = (Inr (), s') \<and> inv s' \<and> room s' = room s \<and>
        rows s' = (rows s)(i \<mapsto> it\<lparr>it_Equip := e\<rparr>)"
    and equip_missing: "rows s i = None \<Longrightarrow> ip_SetEquip I i e s = (Inl ErrItemNotFound, s)"
begin

text \<open>The units of item \<open>m\<close> character \<open>c\<close> holds over all rows.\<close>

definition held :: "'s \<Rightarrow> u32 \<Rightarrow> u32 \<Rightarrow> int" where
  "held s c m = (\<Sum>i\<in>UNIV. units c m (rows s i))"

lemma held_upd: "rows s' = (rows s)(i := r) \<Longrightarrow> held s' c m = held s c m - units c m (rows s i) + units c m r"
  by (simp only: held_def sum_map_upd)

lemma held_add:
  assumes "inv s" and "0 < room s" and "0 < n" and "n < 2 ^ 32"
  shows "\<exists>it s'. ip_Add I c m n s = (Inr it, s') \<and> inv s' \<and> room s \<le> room s' + 1 \<and>
    it_CharID it = c \<and> it_NameID it = m \<and> uint (it_Amount it) = n \<and>
    rows s (it_ID it) = None \<and> rows s' = (rows s)(it_ID it \<mapsto> it) \<and>
    (\<forall>c' m'. held s' c' m' = held s c' m' + (if c' = c \<and> m' = m then n else 0))"
proof -
  obtain it s' where a: "ip_Add I c m n s = (Inr it, s')" "inv s'" "room s \<le> room s' + 1"
      "it_CharID it = c" "it_NameID it = m" "it_Amount it = word_of_int n"
      "rows s (it_ID it) = None" "rows s' = (rows s)(it_ID it \<mapsto> it)"
    using add_ok [OF assms, of c m] by blast
  have "uint (it_Amount it) = n"
    using assms(3,4) a(6) uint_word_of_int_u32 [of n] by simp
  then show ?thesis
    using a by (auto simp: held_upd [OF a(8)] units_Some)
qed

lemma held_remove:
  assumes "inv s" and "rows s i = Some it" and "0 < n" and "n \<le> uint (it_Amount it)"
  shows "\<exists>s'. ip_Remove I i n s = (Inr (), s') \<and> inv s' \<and> room s' = room s \<and>
    (\<forall>j. j \<noteq> i \<longrightarrow> rows s' j = rows s j) \<and>
    (\<forall>c m. held s' c m = held s c m - (if c = it_CharID it \<and> m = it_NameID it then n else 0))"
proof -
  let ?r = "if n = uint (it_Amount it) then None else Some (it\<lparr>it_Amount := it_Amount it - word_of_int n\<rparr>)"
  obtain s' where s': "ip_Remove I i n s = (Inr (), s')" "inv s'" "room s' = room s"
      "rows s' = (rows s)(i := ?r)"
    using remove_ok [OF assms] by blast
  have "units c m ?r = units c m (Some it) - (if c = it_CharID it \<and> m = it_NameID it then n else 0)" for c m
    using assms(3,4) by (auto simp: units_Some uint_minus_u32)
  then show ?thesis
    using s' assms(2) by (auto simp: held_upd [OF s'(4)])
qed

lemma remove_error_same:
  assumes "inv s" and "0 < n" and "ip_Remove I i n s = (Inl e, s')"
  shows "s' = s"
proof (cases "rows s i")
  case None
  then show ?thesis
    using assms remove_missing [of s i n] by simp
next
  case (Some it)
  then show ?thesis
    using assms remove_ok [OF assms(1) Some assms(2)] remove_short [OF Some, of n]
    by (cases "n \<le> uint (it_Amount it)") auto
qed

text \<open>An index into the loaded list names a row of the table.\<close>

lemma load_nth:
  assumes "inv s" and "ip_LoadByChar I acc c s = (Inr xs, s')" and "k < length xs"
  shows "s' = s" and "rows s (it_ID (xs ! k)) = Some (xs ! k)" and "it_CharID (xs ! k) = c"
proof -
  obtain ys where ys: "ip_LoadByChar I acc c s = (Inr ys, s)"
      "set ys = {it \<in> ran (rows s). it_CharID it = c}"
    using load_ok [OF assms(1), of acc c] by blast
  then have xs: "xs = ys" "s' = s"
    using assms(2) by auto
  show "s' = s"
    by (rule xs)
  have "xs ! k \<in> set xs"
    using assms(3) by simp
  then have mem: "xs ! k \<in> ran (rows s)" "it_CharID (xs ! k) = c"
    using ys(2) xs(1) by auto
  then show "rows s (it_ID (xs ! k)) = Some (xs ! k)"
    using row_id [OF assms(1)] by (auto simp: ran_def)
  show "it_CharID (xs ! k) = c"
    by (rule mem)
qed

lemma held_nonneg: "0 \<le> held s c m"
  unfolding held_def by (intro sum_nonneg) (auto simp: units_def split: option.splits)

lemma units_le_held: "rows s i = Some it \<Longrightarrow> uint (it_Amount it) \<le> held s (it_CharID it) (it_NameID it)"
proof -
  assume r: "rows s i = Some it"
  let ?f = "\<lambda>i. units (it_CharID it) (it_NameID it) (rows s i)"
  have "?f i \<le> sum ?f UNIV"
    by (rule member_le_sum) (auto simp: units_def split: option.splits)
  then show ?thesis
    by (simp add: held_def r units_Some)
qed

end

section \<open>The in-memory repository keeps the laws\<close>

definition ir_wf :: "item_repo \<Rightarrow> bool" where
  "ir_wf r \<longleftrightarrow> distinct (keys (ir_items r)) \<and>
     (\<forall>(k, it) \<in> set (ir_items r). it_ID it = k \<and> k \<le> ir_next r)"

definition ir_room :: "item_repo \<Rightarrow> nat" where
  "ir_room r = 2 ^ 32 - 1 - unat (ir_next r)"

abbreviation ir_rows :: "item_repo \<Rightarrow> u32 \<Rightarrow> item option" where
  "ir_rows r \<equiv> map_of (ir_items r)"

lemma next_room:
  assumes "0 < ir_room r"
  shows "unat (ir_next r + 1) = Suc (unat (ir_next r))" and "ir_next r < ir_next r + 1"
proof -
  have "unat (ir_next r) + 1 < 2 ^ 32"
    using assms by (simp add: ir_room_def)
  then show u: "unat (ir_next r + 1) = Suc (unat (ir_next r))"
    by (simp add: unat_word_ariths)
  then show "ir_next r < ir_next r + 1"
    by (simp add: word_less_nat_alt)
qed

lemma next_fresh: "ir_wf r \<Longrightarrow> 0 < ir_room r \<Longrightarrow> ir_rows r (ir_next r + 1) = None"
  using next_room(2) [of r] by (auto simp: ir_wf_def map_of_eq_None_iff dest: leD)

lemma ir_wf_update:
  assumes "ir_wf r" and "it_ID it = i" and "i \<le> ir_next r"
  shows "ir_wf (r\<lparr>ir_items := AList.update i it (ir_items r)\<rparr>)"
  using assms set_update_subset [of i it "ir_items r"] by (auto simp: ir_wf_def)

lemma ir_wf_row: "ir_wf r \<Longrightarrow> ir_rows r i = Some it \<Longrightarrow> it_ID it = i \<and> i \<le> ir_next r"
  by (auto simp: ir_wf_def dest!: map_of_SomeD)

lemma ir_wf_next: "ir_wf r \<Longrightarrow> ir_next r \<le> n \<Longrightarrow> ir_wf (r\<lparr>ir_next := n\<rparr>)"
  by (auto simp: ir_wf_def intro: order_trans)

lemma ir_wf_delete: "ir_wf r \<Longrightarrow> ir_wf (r\<lparr>ir_items := AList.delete i (ir_items r)\<rparr>)"
  using set_delete_subset [of i "ir_items r"] by (auto simp: ir_wf_def)

interpretation mem_items: item_store mem_item_port ir_rows ir_wf ir_room
proof (unfold_locales, goal_cases)
  case (1 s acc c)
  then have "fst p = it_ID (snd p)" if "p \<in> set (ir_items s)" for p
    using that by (auto simp: ir_wf_def)
  then have "inj_on snd (set (ir_items s))"
    by (intro inj_onI prod_eqI) auto
  then have inj: "distinct (map snd (ir_items s))"
    using 1 by (auto simp: ir_wf_def distinct_map)
  have "snd ` set (ir_items s) = ran (ir_rows s)"
    using 1 by (simp add: ir_wf_def ran_distinct)
  then show ?case
    using inj by (auto simp: mem_item_port_def ir_LoadByChar_def)
next
  case (2 s i it)
  then show ?case by (auto dest: ir_wf_row)
next
  case (3 s n c m)
  let ?n = "ir_next s + 1"
  let ?it = "zero_item\<lparr>it_ID := ?n, it_CharID := c, it_NameID := m, it_Amount := word_of_int n, it_Identify := 1\<rparr>"
  have "ir_wf (s\<lparr>ir_next := ?n, ir_items := AList.update ?n ?it (ir_items s)\<rparr>)"
    using ir_wf_update [OF ir_wf_next [OF 3(1)], of ?n ?it ?n] next_room(2) [OF 3(2)] by simp
  then show ?case
    using 3 next_fresh [OF 3(1,2)] next_room(1) [OF 3(2)]
    by (simp add: mem_item_port_def ir_Add_def Let_def zero_item_def ir_room_def)
next
  case (4 n c m s)
  then show ?case by (simp add: mem_item_port_def ir_Add_def)
next
  case (5 s i it n)
  then show ?case
    using ir_wf_row [OF 5(1,2)] ir_wf_delete [OF 5(1)]
    by (auto simp: mem_item_port_def ir_Remove_def ir_room_def intro!: ir_wf_update)
next
  case (6 s i n)
  then show ?case by (simp add: mem_item_port_def ir_Remove_def)
next
  case (7 s i it n)
  then show ?case by (simp add: mem_item_port_def ir_Remove_def)
next
  case (8 s i it e)
  then show ?case
    using ir_wf_row [OF 8(1,2)] by (auto simp: mem_item_port_def ir_SetEquip_def ir_room_def intro!: ir_wf_update)
next
  case (9 s i e)
  then show ?case by (simp add: mem_item_port_def ir_SetEquip_def)
qed

text \<open>The units held, computed from the table: the executable form of \<open>held\<close>.\<close>

definition bag_count :: "item_repo \<Rightarrow> u32 \<Rightarrow> u32 \<Rightarrow> int" where
  "bag_count r c m = alist_sum (\<lambda>it. units c m (Some it)) (ir_items r)"

lemma sum_map_of:
  fixes al :: "(u32 \<times> 'v) list"
  assumes "distinct (keys al)" and "f None = (0 :: int)"
  shows "(\<Sum>i\<in>UNIV. f (map_of al i)) = alist_sum (\<lambda>v. f (Some v)) al"
  using assms
proof (induction al)
  case (Cons p al)
  obtain k v where p: "p = (k, v)"
    by (cases p) auto
  have none: "map_of al k = None"
    using Cons.prems p by (simp add: map_of_eq_None_iff)
  have "(\<Sum>i\<in>UNIV. f (map_of (p # al) i)) = (\<Sum>i\<in>UNIV. f (((map_of al)(k \<mapsto> v)) i))"
    by (simp add: p)
  also have "\<dots> = (\<Sum>i\<in>UNIV. f (map_of al i)) - f (map_of al k) + f (Some v)"
    by (rule sum_map_upd)
  finally show ?case
    using Cons none by (simp add: p)
qed simp

lemma held_bag_count: "ir_wf r \<Longrightarrow> mem_items.held r c m = bag_count r c m"
  by (simp add: mem_items.held_def bag_count_def ir_wf_def sum_map_of [where f = "units c m"])

section \<open>A repository inside a larger state\<close>

definition lift_item_port :: "('s \<Rightarrow> 't) \<Rightarrow> ('t \<Rightarrow> 's \<Rightarrow> 's) \<Rightarrow> 't item_port \<Rightarrow> 's item_port" where
  "lift_item_port get put R =
     \<lparr>ip_LoadByChar = (\<lambda>a c. zoom get put (ip_LoadByChar R a c)),
      ip_Add = (\<lambda>c m n. zoom get put (ip_Add R c m n)),
      ip_Remove = (\<lambda>i n. zoom get put (ip_Remove R i n)),
      ip_SetEquip = (\<lambda>i e. zoom get put (ip_SetEquip R i e))\<rparr>"

locale item_field =
  base: item_store I rows inv room + field_of get put
  for I :: "'t item_port" and rows inv room and get :: "'s \<Rightarrow> 't" and put

sublocale item_field \<subseteq> lifted: item_store "lift_item_port get put I" "\<lambda>s. rows (get s)"
    "\<lambda>s. inv (get s)" "\<lambda>s. room (get s)"
proof (unfold_locales, goal_cases)
  case (1 s acc c)
  then show ?case
    using base.load_ok [of "get s" acc c] by (auto simp: lift_item_port_def zoom_eq)
next
  case (2 s i it)
  then show ?case by (rule base.row_id)
next
  case (3 s n c m)
  obtain it t where t: "ip_Add I c m n (get s) = (Inr it, t)" "inv t" "room (get s) \<le> room t + 1"
      "it_CharID it = c" "it_NameID it = m" "it_Amount it = word_of_int n" "it_Equip it = 0"
      "rows (get s) (it_ID it) = None" "rows t = (rows (get s))(it_ID it \<mapsto> it)"
    using base.add_ok [OF 3, of c m] by blast
  then have "ip_Add (lift_item_port get put I) c m n s = (Inr it, put t s)"
    by (simp add: lift_item_port_def zoom_def)
  with t show ?case by (intro exI [of _ it] exI [of _ "put t s"]) simp
next
  case (4 n c m s)
  then show ?case by (simp add: lift_item_port_def base.add_refused zoom_id)
next
  case (5 s i it n)
  then show ?case
    using base.remove_ok [of "get s" i it n] by (auto simp: lift_item_port_def zoom_eq)
next
  case (6 s i n)
  then show ?case by (simp add: lift_item_port_def base.remove_missing zoom_id)
next
  case (7 s i it n)
  then show ?case by (simp add: lift_item_port_def base.remove_short zoom_id)
next
  case (8 s i it e)
  then show ?case
    using base.equip_ok [of "get s" i it e] by (auto simp: lift_item_port_def zoom_eq)
next
  case (9 s i e)
  then show ?case by (simp add: lift_item_port_def base.equip_missing zoom_id)
qed

end
