(* ===== verification/Storage.thy ===== *)
theory Storage
  imports Inventory
begin

text \<open>
  The account warehouse: the \<open>StorageItem\<close> row and \<open>StorageRepository\<close> port
  (\<open>commerce/storage/domain/storage.go\<close>), the in-memory repository with its stack merge and
  600-row cap (\<open>infra/memory.go\<close>) and \<open>StorageService\<close> (\<open>app/service.go\<close>). The locale
  \<open>warehouse\<close> states the port's contract.
\<close>

section \<open>Rows and the port\<close>

record storage_item =
  st_ID :: u32
  st_AccountID :: u32
  st_NameID :: u32
  st_Amount :: u32
  st_Equip :: u32
  st_Identify :: int
  st_Refine :: u8
  st_Attribute :: u8
  st_Card0 :: u32
  st_Card1 :: u32
  st_Card2 :: u32
  st_Card3 :: u32
  st_ExpireTime :: u32
  st_Favorite :: u8
  st_Bound :: u8
  st_UniqueID :: u64

definition zero_storage_item :: storage_item where
  "zero_storage_item = \<lparr>st_ID = 0, st_AccountID = 0, st_NameID = 0, st_Amount = 0, st_Equip = 0,
     st_Identify = 0, st_Refine = 0, st_Attribute = 0, st_Card0 = 0, st_Card1 = 0, st_Card2 = 0,
     st_Card3 = 0, st_ExpireTime = 0, st_Favorite = 0, st_Bound = 0, st_UniqueID = 0\<rparr>"

definition st_IsEquipped :: "storage_item \<Rightarrow> bool" where
  "st_IsEquipped i \<longleftrightarrow> st_Equip i \<noteq> 0"

definition MaxStorage :: nat where
  "MaxStorage = 600"

record 's storage_port =
  sp_LoadByAccount :: "u32 \<Rightarrow> 's \<Rightarrow> (storage_item list, 's) out"
  sp_Add :: "u32 \<Rightarrow> u32 \<Rightarrow> int \<Rightarrow> 's \<Rightarrow> (storage_item, 's) out"
  sp_Remove :: "u32 \<Rightarrow> int \<Rightarrow> 's \<Rightarrow> (unit, 's) out"
  sp_SetEquip :: "u32 \<Rightarrow> u32 \<Rightarrow> 's \<Rightarrow> (unit, 's) out"

section \<open>The in-memory repository\<close>

record storage_repo =
  sr_items :: "(u32 \<times> storage_item) list"
  sr_next :: u32

definition NewMemoryStorageRepository :: storage_repo where
  "NewMemoryStorageRepository = \<lparr>sr_items = [], sr_next = 0\<rparr>"

definition sr_LoadByAccount :: "u32 \<Rightarrow> storage_repo \<Rightarrow> (storage_item list, storage_repo) out" where
  "sr_LoadByAccount acc r =
     (Inr (sort_key st_ID (filter (\<lambda>it. st_AccountID it = acc) (map snd (sr_items r)))), r)"

definition accountCountLocked :: "u32 \<Rightarrow> storage_repo \<Rightarrow> nat" where
  "accountCountLocked acc r = length (filter (\<lambda>it. st_AccountID it = acc) (map snd (sr_items r)))"

text \<open>The row the range loop of \<open>Add\<close> merges into: the first match in iteration order.\<close>

definition stackable :: "u32 \<Rightarrow> u32 \<Rightarrow> storage_item \<Rightarrow> bool" where
  "stackable acc nameID it \<longleftrightarrow> st_AccountID it = acc \<and> st_NameID it = nameID \<and> st_Equip it = 0"

definition sr_Add :: "u32 \<Rightarrow> u32 \<Rightarrow> int \<Rightarrow> storage_repo \<Rightarrow> (storage_item, storage_repo) out" where
  "sr_Add acc nameID amount r =
     (if amount \<le> 0 then (Inl ErrStorageInsufficientAmount, r)
      else
        case find (\<lambda>(i, it). stackable acc nameID it) (sr_items r) of
          Some (i, it) \<Rightarrow>
            let it' = it\<lparr>st_Amount := st_Amount it + word_of_int amount\<rparr>
            in (Inr it', r\<lparr>sr_items := AList.update i it' (sr_items r)\<rparr>)
        | None \<Rightarrow>
            if accountCountLocked acc r \<ge> MaxStorage then (Inl ErrStorageRepoFull, r)
            else
              let n = sr_next r + 1;
                  it = zero_storage_item\<lparr>st_ID := n, st_AccountID := acc, st_NameID := nameID,
                         st_Amount := word_of_int amount, st_Identify := 1\<rparr>
              in (Inr it, r\<lparr>sr_next := n, sr_items := AList.update n it (sr_items r)\<rparr>))"

definition sr_Remove :: "u32 \<Rightarrow> int \<Rightarrow> storage_repo \<Rightarrow> (unit, storage_repo) out" where
  "sr_Remove i amount r =
     (if amount \<le> 0 then (Inl ErrStorageInsufficientAmount, r)
      else
        case map_of (sr_items r) i of
          None \<Rightarrow> (Inl ErrStorageItemNotFound, r)
        | Some it \<Rightarrow>
            if uint (st_Amount it) < amount then (Inl ErrStorageInsufficientAmount, r)
            else if uint (st_Amount it) = amount then
              (Inr (), r\<lparr>sr_items := AList.delete i (sr_items r)\<rparr>)
            else (Inr (), r\<lparr>sr_items := AList.update i
                    (it\<lparr>st_Amount := st_Amount it - word_of_int amount\<rparr>) (sr_items r)\<rparr>))"

definition sr_SetEquip :: "u32 \<Rightarrow> u32 \<Rightarrow> storage_repo \<Rightarrow> (unit, storage_repo) out" where
  "sr_SetEquip i equip r =
     (case map_of (sr_items r) i of
        None \<Rightarrow> (Inl ErrStorageItemNotFound, r)
      | Some it \<Rightarrow> (Inr (), r\<lparr>sr_items := AList.update i (it\<lparr>st_Equip := equip\<rparr>) (sr_items r)\<rparr>))"

definition mem_storage_port :: "storage_repo storage_port" where
  "mem_storage_port = \<lparr>sp_LoadByAccount = sr_LoadByAccount, sp_Add = sr_Add, sp_Remove = sr_Remove,
     sp_SetEquip = sr_SetEquip\<rparr>"

text \<open>The service forwards to the repository and wraps its errors.\<close>

definition commerce_StorageService :: "'s storage_port \<Rightarrow> 's storage_port" where
  "commerce_StorageService R =
     \<lparr>sp_LoadByAccount = (\<lambda>acc s. on_err (sp_LoadByAccount R acc s) (\<lambda>e. e)),
      sp_Add = (\<lambda>acc nameID amount s. on_err (sp_Add R acc nameID amount s) (\<lambda>e. e)),
      sp_Remove = (\<lambda>i amount s. on_err (sp_Remove R i amount s) (\<lambda>e. e)),
      sp_SetEquip = (\<lambda>i equip s. on_err (sp_SetEquip R i equip s) (\<lambda>e. e))\<rparr>"

section \<open>The contract\<close>

definition st_units :: "u32 \<Rightarrow> u32 \<Rightarrow> storage_item option \<Rightarrow> int" where
  "st_units acc m r = (case r of None \<Rightarrow> 0
     | Some it \<Rightarrow> if st_AccountID it = acc \<and> st_NameID it = m then uint (st_Amount it) else 0)"

lemma st_units_None [simp]: "st_units acc m None = 0"
  by (simp add: st_units_def)

lemma st_units_Some: "st_units acc m (Some it) =
    (if st_AccountID it = acc \<and> st_NameID it = m then uint (st_Amount it) else 0)"
  by (simp add: st_units_def)

locale warehouse =
  fixes W :: "'s storage_port"
    and srows :: "'s \<Rightarrow> u32 \<Rightarrow> storage_item option"
    and sinv :: "'s \<Rightarrow> bool"
    and sroom :: "'s \<Rightarrow> nat"
  assumes sload_ok: "sinv s \<Longrightarrow> \<exists>xs. sp_LoadByAccount W acc s = (Inr xs, s) \<and> distinct xs \<and>
      sorted (map st_ID xs) \<and> set xs = {it \<in> ran (srows s). st_AccountID it = acc}"
    and srow_id: "sinv s \<Longrightarrow> srows s i = Some it \<Longrightarrow> st_ID it = i"
    and sadd_merge: "sinv s \<Longrightarrow> 0 < n \<Longrightarrow> srows s i = Some it \<Longrightarrow> stackable acc m it \<Longrightarrow>
      \<exists>j jt s'. srows s j = Some jt \<and> stackable acc m jt \<and>
        sp_Add W acc m n s = (Inr (jt\<lparr>st_Amount := st_Amount jt + word_of_int n\<rparr>), s') \<and>
        sinv s' \<and> sroom s' = sroom s \<and>
        srows s' = (srows s)(j \<mapsto> jt\<lparr>st_Amount := st_Amount jt + word_of_int n\<rparr>)"
    and sadd_full: "sinv s \<Longrightarrow> 0 < n \<Longrightarrow> (\<And>i it. srows s i = Some it \<Longrightarrow> \<not> stackable acc m it) \<Longrightarrow>
      MaxStorage \<le> card {it \<in> ran (srows s). st_AccountID it = acc} \<Longrightarrow>
      sp_Add W acc m n s = (Inl ErrStorageRepoFull, s)"
    and sadd_insert: "sinv s \<Longrightarrow> 0 < sroom s \<Longrightarrow> 0 < n \<Longrightarrow>
      (\<And>i it. srows s i = Some it \<Longrightarrow> \<not> stackable acc m it) \<Longrightarrow>
      card {it \<in> ran (srows s). st_AccountID it = acc} < MaxStorage \<Longrightarrow>
      \<exists>it s'. sp_Add W acc m n s = (Inr it, s') \<and> sinv s' \<and> sroom s \<le> sroom s' + 1 \<and>
        st_AccountID it = acc \<and> st_NameID it = m \<and> st_Amount it = word_of_int n \<and>
        st_Refine it = 0 \<and> srows s (st_ID it) = None \<and> srows s' = (srows s)(st_ID it \<mapsto> it)"
    and sremove_ok: "sinv s \<Longrightarrow> srows s i = Some it \<Longrightarrow> 0 < n \<Longrightarrow> n \<le> uint (st_Amount it) \<Longrightarrow>
      \<exists>s'. sp_Remove W i n s = (Inr (), s') \<and> sinv s' \<and> sroom s' = sroom s \<and>
        srows s' = (srows s)(i := (if n = uint (st_Amount it) then None
                                   else Some (it\<lparr>st_Amount := st_Amount it - word_of_int n\<rparr>)))"
begin

definition stored :: "'s \<Rightarrow> u32 \<Rightarrow> u32 \<Rightarrow> int" where
  "stored s acc m = (\<Sum>i\<in>UNIV. st_units acc m (srows s i))"

definition full_for :: "'s \<Rightarrow> u32 \<Rightarrow> u32 \<Rightarrow> bool" where
  "full_for s acc m \<longleftrightarrow> (\<forall>i it. srows s i = Some it \<longrightarrow> \<not> stackable acc m it) \<and>
     MaxStorage \<le> card {it \<in> ran (srows s). st_AccountID it = acc}"

lemma stored_upd: "srows s' = (srows s)(i := r) \<Longrightarrow>
    stored s' acc m = stored s acc m - st_units acc m (srows s i) + st_units acc m r"
  by (simp only: stored_def sum_map_upd)

lemma st_units_le_stored: "st_units acc m (srows s i) \<le> stored s acc m"
  unfolding stored_def
  by (rule member_le_sum [of i UNIV "\<lambda>i. st_units acc m (srows s i)"])
    (auto simp: st_units_def split: option.splits)

text \<open>
  An \<open>Add\<close> either finds the warehouse full or stores exactly \<open>n\<close> more units of the item for the
  account, unless the stack's 32-bit counter would wrap.
\<close>

lemma add_spec:
  assumes inv: "sinv s" and room: "0 < sroom s" and n: "0 < n" and wrap: "stored s acc m + n < 2 ^ 32"
  shows "if full_for s acc m then sp_Add W acc m n s = (Inl ErrStorageRepoFull, s)
    else \<exists>it s'. sp_Add W acc m n s = (Inr it, s') \<and> sinv s' \<and>
      srows s' (st_ID it) = Some it \<and> st_AccountID it = acc \<and> st_NameID it = m \<and>
      (\<forall>a k. stored s' a k = stored s a k + (if a = acc \<and> k = m then n else 0))"
proof (cases "\<exists>i it. srows s i = Some it \<and> stackable acc m it")
  case True
  then obtain i it where it: "srows s i = Some it" "stackable acc m it"
    by blast
  from sadd_merge [OF inv n it] obtain j jt s' where j: "srows s j = Some jt" "stackable acc m jt"
      "sp_Add W acc m n s = (Inr (jt\<lparr>st_Amount := st_Amount jt + word_of_int n\<rparr>), s')"
      "sinv s'" "srows s' = (srows s)(j \<mapsto> jt\<lparr>st_Amount := st_Amount jt + word_of_int n\<rparr>)"
    by blast
  have am: "uint (st_Amount jt) + n < 2 ^ 32"
    using st_units_le_stored [of acc m s j] wrap j(1,2) by (simp add: st_units_Some stackable_def)
  have "word_of_int (uint (st_Amount jt) + n) = st_Amount jt + word_of_int n"
    by simp
  then have "uint (st_Amount jt + word_of_int n) = uint (st_Amount jt) + n"
    using uint_word_of_int_u32 [of "uint (st_Amount jt) + n"] am n by simp
  then have "stored s' a k = stored s a k + (if a = acc \<and> k = m then n else 0)" for a k
    using j(1,2) by (auto simp: stored_upd [OF j(5)] st_units_Some stackable_def)
  moreover have "st_ID jt = j" "st_NameID jt = m" "st_AccountID jt = acc"
    using srow_id [OF inv j(1)] j(2) by (auto simp: stackable_def)
  moreover have "\<not> full_for s acc m"
    using it by (auto simp: full_for_def)
  ultimately show ?thesis
    using j by auto
next
  case none: False
  show ?thesis
  proof (cases "full_for s acc m")
    case True
    then show ?thesis
      using sadd_full [OF inv n] by (auto simp: full_for_def)
  next
    case False
    then have "card {it \<in> ran (srows s). st_AccountID it = acc} < MaxStorage"
      using none by (auto simp: full_for_def)
    from sadd_insert [OF inv room n _ this, of m] none obtain it s' where
        it: "sp_Add W acc m n s = (Inr it, s')" "sinv s'" "st_AccountID it = acc" "st_NameID it = m"
          "st_Amount it = word_of_int n" "srows s (st_ID it) = None" "srows s' = (srows s)(st_ID it \<mapsto> it)"
      by blast
    have "0 \<le> stored s acc m"
      unfolding stored_def by (intro sum_nonneg) (auto simp: st_units_def split: option.splits)
    then have "uint (st_Amount it) = n"
      using uint_word_of_int_u32 [of n] n wrap it(5) by simp
    then have "stored s' a k = stored s a k + (if a = acc \<and> k = m then n else 0)" for a k
      using it(3,4,6) by (auto simp: stored_upd [OF it(7)] st_units_Some)
    then show ?thesis
      using False it by auto
  qed
qed

lemma stored_remove:
  assumes "sinv s" and "srows s i = Some it" and "0 < n" and "n \<le> uint (st_Amount it)"
  shows "\<exists>s'. sp_Remove W i n s = (Inr (), s') \<and> sinv s' \<and>
    (\<forall>a k. stored s' a k = stored s a k - (if a = st_AccountID it \<and> k = st_NameID it then n else 0))"
proof -
  let ?r = "if n = uint (st_Amount it) then None else Some (it\<lparr>st_Amount := st_Amount it - word_of_int n\<rparr>)"
  obtain s' where s': "sp_Remove W i n s = (Inr (), s')" "sinv s'" "srows s' = (srows s)(i := ?r)"
    using sremove_ok [OF assms] by blast
  have "st_units a k ?r = st_units a k (Some it) - (if a = st_AccountID it \<and> k = st_NameID it then n else 0)" for a k
    using assms(3,4) by (auto simp: st_units_Some uint_minus_u32)
  then show ?thesis
    using s' assms(2) by (auto simp: stored_upd [OF s'(3)])
qed

lemma sload_nth:
  assumes "sinv s" and "sp_LoadByAccount W acc s = (Inr xs, s')" and "k < length xs"
  shows "s' = s" and "srows s (st_ID (xs ! k)) = Some (xs ! k)" and "st_AccountID (xs ! k) = acc"
proof -
  obtain ys where ys: "sp_LoadByAccount W acc s = (Inr ys, s)"
      "set ys = {it \<in> ran (srows s). st_AccountID it = acc}"
    using sload_ok [OF assms(1), of acc] by blast
  then have xs: "xs = ys" "s' = s"
    using assms(2) by auto
  show "s' = s"
    by (rule xs)
  have "xs ! k \<in> set xs"
    using assms(3) by simp
  then have mem: "xs ! k \<in> ran (srows s)" "st_AccountID (xs ! k) = acc"
    using ys(2) xs(1) by auto
  then show "srows s (st_ID (xs ! k)) = Some (xs ! k)"
    using srow_id [OF assms(1)] by (auto simp: ran_def)
  show "st_AccountID (xs ! k) = acc"
    by (rule mem)
qed

end

section \<open>The in-memory repository keeps the contract\<close>

definition sr_wf :: "storage_repo \<Rightarrow> bool" where
  "sr_wf r \<longleftrightarrow> distinct (keys (sr_items r)) \<and>
     (\<forall>(k, it) \<in> set (sr_items r). st_ID it = k \<and> k \<le> sr_next r)"

definition sr_room :: "storage_repo \<Rightarrow> nat" where
  "sr_room r = 2 ^ 32 - 1 - unat (sr_next r)"

abbreviation sr_rows :: "storage_repo \<Rightarrow> u32 \<Rightarrow> storage_item option" where
  "sr_rows r \<equiv> map_of (sr_items r)"

lemma sr_next_room:
  assumes "0 < sr_room r"
  shows "unat (sr_next r + 1) = Suc (unat (sr_next r))" and "sr_next r < sr_next r + 1"
proof -
  have "unat (sr_next r) + 1 < 2 ^ 32"
    using assms by (simp add: sr_room_def)
  then show u: "unat (sr_next r + 1) = Suc (unat (sr_next r))"
    by (simp add: unat_word_ariths)
  then show "sr_next r < sr_next r + 1"
    by (simp add: word_less_nat_alt)
qed

lemma sr_wf_update:
  assumes "sr_wf r" and "st_ID it = i" and "i \<le> sr_next r"
  shows "sr_wf (r\<lparr>sr_items := AList.update i it (sr_items r)\<rparr>)"
  using assms set_update_subset [of i it "sr_items r"] by (auto simp: sr_wf_def)

lemma sr_wf_row: "sr_wf r \<Longrightarrow> sr_rows r i = Some it \<Longrightarrow> st_ID it = i \<and> i \<le> sr_next r"
  by (auto simp: sr_wf_def dest!: map_of_SomeD)

lemma sr_wf_next: "sr_wf r \<Longrightarrow> sr_next r \<le> n \<Longrightarrow> sr_wf (r\<lparr>sr_next := n\<rparr>)"
  by (auto simp: sr_wf_def intro: order_trans)

lemma sr_wf_delete: "sr_wf r \<Longrightarrow> sr_wf (r\<lparr>sr_items := AList.delete i (sr_items r)\<rparr>)"
  using set_delete_subset [of i "sr_items r"] by (auto simp: sr_wf_def)

lemma sr_distinct_rows: "sr_wf r \<Longrightarrow> distinct (map snd (sr_items r))"
proof -
  assume wf: "sr_wf r"
  then have "fst p = st_ID (snd p)" if "p \<in> set (sr_items r)" for p
    using that by (auto simp: sr_wf_def)
  then have "inj_on snd (set (sr_items r))"
    by (intro inj_onI prod_eqI) auto
  then show ?thesis
    using wf by (auto simp: sr_wf_def distinct_map)
qed

lemma sr_ran: "sr_wf r \<Longrightarrow> ran (sr_rows r) = snd ` set (sr_items r)"
  by (simp add: sr_wf_def ran_distinct)

lemma sr_count: "sr_wf r \<Longrightarrow> accountCountLocked acc r = card {it \<in> ran (sr_rows r). st_AccountID it = acc}"
proof -
  assume wf: "sr_wf r"
  have "accountCountLocked acc r = card (set (filter (\<lambda>it. st_AccountID it = acc) (map snd (sr_items r))))"
    unfolding accountCountLocked_def
    by (intro distinct_card [symmetric] distinct_filter sr_distinct_rows wf)
  then show ?thesis
    by (simp add: sr_ran wf)
qed

lemma find_stackable_None:
  "sr_wf r \<Longrightarrow> (\<And>i it. sr_rows r i = Some it \<Longrightarrow> \<not> stackable acc m it) \<Longrightarrow>
     find (\<lambda>(i, it). stackable acc m it) (sr_items r) = None"
  by (auto simp: find_None_iff sr_wf_def)

lemma find_stackable_Some:
  assumes wf: "sr_wf r" and row: "sr_rows r i = Some it" "stackable acc m it"
  shows "\<exists>j jt. find (\<lambda>(i, it). stackable acc m it) (sr_items r) = Some (j, jt) \<and>
    sr_rows r j = Some jt \<and> stackable acc m jt"
proof -
  have "(i, it) \<in> set (sr_items r)"
    using row(1) by (rule map_of_SomeD)
  then have "find (\<lambda>(i, it). stackable acc m it) (sr_items r) \<noteq> None"
    using row(2) by (auto simp: find_None_iff)
  then obtain j jt where f: "find (\<lambda>(i, it). stackable acc m it) (sr_items r) = Some (j, jt)"
    by auto
  then have "(j, jt) \<in> set (sr_items r)" "stackable acc m jt"
    by (auto simp: find_Some_iff in_set_conv_nth)
  then show ?thesis
    using f wf by (auto simp: sr_wf_def)
qed

interpretation mem_storage: warehouse mem_storage_port sr_rows sr_wf sr_room
proof (unfold_locales, goal_cases)
  case (1 s acc)
  then show ?case
    using sr_distinct_rows [OF 1] by (auto simp: mem_storage_port_def sr_LoadByAccount_def sr_ran)
next
  case (2 s i it)
  then show ?case by (auto dest: sr_wf_row)
next
  case (3 s n i it acc m)
  obtain j jt where j: "find (\<lambda>(i, it). stackable acc m it) (sr_items s) = Some (j, jt)"
      "sr_rows s j = Some jt" "stackable acc m jt"
    using find_stackable_Some [OF 3(1,3,4)] by blast
  have "sr_wf (s\<lparr>sr_items := AList.update j (jt\<lparr>st_Amount := st_Amount jt + word_of_int n\<rparr>) (sr_items s)\<rparr>)"
    using sr_wf_row [OF 3(1) j(2)] 3(1) by (intro sr_wf_update) auto
  then show ?case
    using 3(2) j by (intro exI [of _ j] exI [of _ jt])
      (simp add: mem_storage_port_def sr_Add_def Let_def sr_room_def)
next
  case (4 s n acc m)
  then show ?case
    using find_stackable_None [OF 4(1,3)] by (simp add: mem_storage_port_def sr_Add_def sr_count)
next
  case (5 s n acc m)
  let ?n = "sr_next s + 1"
  let ?it = "zero_storage_item\<lparr>st_ID := ?n, st_AccountID := acc, st_NameID := m,
    st_Amount := word_of_int n, st_Identify := 1\<rparr>"
  have "sr_wf (s\<lparr>sr_next := ?n, sr_items := AList.update ?n ?it (sr_items s)\<rparr>)"
    using sr_wf_update [OF sr_wf_next [OF 5(1)], of ?n ?it ?n] sr_next_room(2) [OF 5(2)] by simp
  moreover have "sr_rows s ?n = None"
    using sr_next_room(2) [OF 5(2)] 5(1) by (auto simp: sr_wf_def map_of_eq_None_iff dest: leD)
  ultimately show ?case
    using 5 find_stackable_None [OF 5(1,4)] sr_next_room(1) [OF 5(2)]
    by (simp add: mem_storage_port_def sr_Add_def sr_count Let_def zero_storage_item_def sr_room_def)
next
  case (6 s i it n)
  then show ?case
    using sr_wf_row [OF 6(1,2)] sr_wf_delete [OF 6(1)]
    by (auto simp: mem_storage_port_def sr_Remove_def sr_room_def intro!: sr_wf_update)
qed

definition storage_count :: "storage_repo \<Rightarrow> u32 \<Rightarrow> u32 \<Rightarrow> int" where
  "storage_count r acc m = alist_sum (\<lambda>it. st_units acc m (Some it)) (sr_items r)"

lemma stored_storage_count: "sr_wf r \<Longrightarrow> mem_storage.stored r acc m = storage_count r acc m"
  by (simp add: mem_storage.stored_def storage_count_def sr_wf_def sum_map_of [where f = "st_units acc m"])

section \<open>A warehouse inside a larger state\<close>

definition lift_storage_port :: "('s \<Rightarrow> 't) \<Rightarrow> ('t \<Rightarrow> 's \<Rightarrow> 's) \<Rightarrow> 't storage_port \<Rightarrow> 's storage_port" where
  "lift_storage_port get put R =
     \<lparr>sp_LoadByAccount = (\<lambda>a. zoom get put (sp_LoadByAccount R a)),
      sp_Add = (\<lambda>a m n. zoom get put (sp_Add R a m n)),
      sp_Remove = (\<lambda>i n. zoom get put (sp_Remove R i n)),
      sp_SetEquip = (\<lambda>i e. zoom get put (sp_SetEquip R i e))\<rparr>"

locale warehouse_field =
  base: warehouse W srows sinv sroom + field_of get put
  for W :: "'t storage_port" and srows sinv sroom and get :: "'s \<Rightarrow> 't" and put

sublocale warehouse_field \<subseteq> lifted: warehouse "lift_storage_port get put W" "\<lambda>s. srows (get s)"
    "\<lambda>s. sinv (get s)" "\<lambda>s. sroom (get s)"
proof (unfold_locales, goal_cases)
  case (1 s acc)
  then show ?case
    using base.sload_ok [of "get s" acc] by (auto simp: lift_storage_port_def zoom_eq)
next
  case (2 s i it)
  then show ?case by (rule base.srow_id)
next
  case (3 s n i it acc m)
  then show ?case
    using base.sadd_merge [of "get s" n i it acc m] by (fastforce simp: lift_storage_port_def zoom_eq)
next
  case (4 s n acc m)
  then show ?case
    using base.sadd_full [of "get s" n acc m] by (auto simp: lift_storage_port_def zoom_id)
next
  case (5 s n acc m)
  then show ?case
    using base.sadd_insert [of "get s" n acc m] by (fastforce simp: lift_storage_port_def zoom_eq)
next
  case (6 s i it n)
  then show ?case
    using base.sremove_ok [of "get s" i it n] by (auto simp: lift_storage_port_def zoom_eq)
qed

end
