(* ===== verification/BagTransfer.thy ===== *)
theory BagTransfer
  imports Economy Storage
begin

text \<open>
  Moving items between a character's bag and the account warehouse: the orchestrator
  \<open>StorageService\<close> of \<open>world/app/storage.go\<close>, with the wire-index convention of
  \<open>pkg/ro/packet/coords.go\<close>. The locale \<open>bag_and_box\<close> joins the two store contracts with the
  promise that neither store touches the other's table; it is interpreted on \<open>game_db\<close>, the
  in-memory stores side by side.
\<close>

section \<open>The stores side by side\<close>

record game_db = econ_db +
  db_items :: item_repo
  db_storage :: storage_repo

abbreviation put_items :: "item_repo \<Rightarrow> 'z game_db_scheme \<Rightarrow> 'z game_db_scheme" where
  "put_items r \<equiv> db_items_update (\<lambda>_. r)"

abbreviation put_storage :: "storage_repo \<Rightarrow> 'z game_db_scheme \<Rightarrow> 'z game_db_scheme" where
  "put_storage r \<equiv> db_storage_update (\<lambda>_. r)"

definition db_item_port :: "'z game_db_scheme item_port" where
  "db_item_port = lift_item_port db_items put_items (InventoryService mem_item_port)"

definition db_storage_port :: "'z game_db_scheme storage_port" where
  "db_storage_port = lift_storage_port db_storage put_storage mem_storage_port"

section \<open>Wire indices\<close>

definition clientInventoryIndexOffset :: u16 where
  "clientInventoryIndexOffset = 2"

definition ClientIndex :: "u16 \<Rightarrow> u16" where
  "ClientIndex serverRow = serverRow + clientInventoryIndexOffset"

definition ServerIndex :: "u16 \<Rightarrow> u16" where
  "ServerIndex clientIndex = clientIndex - clientInventoryIndexOffset"

lemma ServerIndex_ClientIndex [simp]: "ServerIndex (ClientIndex r) = r"
  by (simp add: ServerIndex_def ClientIndex_def)

lemma ClientIndex_ServerIndex [simp]: "ClientIndex (ServerIndex i) = i"
  by (simp add: ServerIndex_def ClientIndex_def)

section \<open>StorageService\<close>

record storage_move =
  sm_Index :: u16
  sm_StoredID :: u32
  sm_NameID :: u32
  sm_Amount :: u32
  sm_IsFromBag :: bool

text \<open>The loop that finds the stored row's position; no match leaves the zero value.\<close>

fun wire_slot_loop :: "u32 \<Rightarrow> nat \<Rightarrow> storage_item list \<Rightarrow> u16" where
  "wire_slot_loop i k [] = 0"
| "wire_slot_loop i k (row # rows) =
     (if st_ID row = i then of_nat k + 2 else wire_slot_loop i (Suc k) rows)"

definition MoveToStorage ::
  "'s item_port \<Rightarrow> 's storage_port \<Rightarrow> u32 \<Rightarrow> u32 \<Rightarrow> u32 \<Rightarrow> int \<Rightarrow> 's \<Rightarrow> (storage_move, 's) out" where
  "MoveToStorage I W acc c wireIndex amount s =
     (if amount \<le> 0 then (Inl ErrStorageInsufficient, s)
      else and_then (ip_LoadByChar I acc c s) (\<lambda>items s.
        if wireIndex < 2 then (Inl ErrStorageIndexOutOfRange, s)
        else
          let serverRow = unat (ServerIndex (ucast wireIndex))
          in if serverRow \<ge> length items then (Inl ErrStorageIndexOutOfRange, s)
             else
               let bagRow = items ! serverRow
               in if IsEquipped bagRow then (Inl ErrStorageEquipped, s)
                  else if uint (it_Amount bagRow) < amount then (Inl ErrStorageInsufficient, s)
                  else
                    and_then (on_err (ip_Remove I (it_ID bagRow) amount s)
                      (\<lambda>e. if errors_is e ErrItemNotFound then ErrStorageRowMissing else e)) (\<lambda>_ s.
                    and_then (sp_Add W acc (it_NameID bagRow) amount s) (\<lambda>storageRow s.
                    and_then (sp_LoadByAccount W acc s) (\<lambda>warehouse s.
                      (Inr \<lparr>sm_Index = wire_slot_loop (st_ID storageRow) 0 warehouse,
                            sm_StoredID = st_ID storageRow, sm_NameID = it_NameID bagRow,
                            sm_Amount = st_Amount storageRow, sm_IsFromBag = True\<rparr>, s))))))"

definition MoveFromStorage ::
  "'s item_port \<Rightarrow> 's storage_port \<Rightarrow> u32 \<Rightarrow> u32 \<Rightarrow> u32 \<Rightarrow> int \<Rightarrow> 's \<Rightarrow> (storage_move, 's) out" where
  "MoveFromStorage I W acc c wireIndex amount s =
     (if amount \<le> 0 then (Inl ErrStorageInsufficient, s)
      else and_then (sp_LoadByAccount W acc s) (\<lambda>items s.
        if wireIndex < 2 then (Inl ErrStorageIndexOutOfRange, s)
        else
          let serverRow = unat (ServerIndex (ucast wireIndex))
          in if serverRow \<ge> length items then (Inl ErrStorageIndexOutOfRange, s)
             else
               let warehouseRow = items ! serverRow
               in if st_IsEquipped warehouseRow then (Inl ErrStorageEquipped, s)
                  else if uint (st_Amount warehouseRow) < amount then (Inl ErrStorageInsufficient, s)
                  else
                    and_then (on_err (sp_Remove W (st_ID warehouseRow) amount s)
                      (\<lambda>e. if errors_is e ErrStorageItemNotFound then ErrStorageRowMissing else e)) (\<lambda>_ s.
                    and_then (ip_Add I c (st_NameID warehouseRow) amount s) (\<lambda>bagRow s.
                      (Inr \<lparr>sm_Index = 0, sm_StoredID = st_ID warehouseRow,
                            sm_NameID = st_NameID warehouseRow, sm_Amount = it_Amount bagRow,
                            sm_IsFromBag = False\<rparr>, s)))))"

definition LoadWarehouse :: "'s storage_port \<Rightarrow> u32 \<Rightarrow> 's \<Rightarrow> (storage_item list, 's) out" where
  "LoadWarehouse W acc s = sp_LoadByAccount W acc s"

lemma wire_slot_loop_nth:
  assumes "distinct (map st_ID xs)" and "k < length xs"
  shows "wire_slot_loop (st_ID (xs ! k)) b xs = of_nat (b + k) + 2"
  using assms
proof (induction xs arbitrary: k b)
  case (Cons r xs)
  show ?case
  proof (cases k)
    case (Suc j)
    then have "xs ! j \<in> set xs"
      using Cons.prems by simp
    then have "st_ID r \<noteq> st_ID (xs ! j)"
      using Cons.prems(1) by auto
    then show ?thesis
      using Cons Suc by (simp add: algebra_simps)
  qed simp
qed simp

section \<open>What a move does\<close>

text \<open>The rows a request can move: the loaded list, the index rule and the two guards.\<close>

definition movable :: "item list \<Rightarrow> u32 \<Rightarrow> int \<Rightarrow> bool" where
  "movable xs w n \<longleftrightarrow> 0 < n \<and> \<not> w < 2 \<and>
     (let k = unat (ServerIndex (ucast w)) in
        k < length xs \<and> \<not> IsEquipped (xs ! k) \<and> n \<le> uint (it_Amount (xs ! k)))"

definition movable_back :: "storage_item list \<Rightarrow> u32 \<Rightarrow> int \<Rightarrow> bool" where
  "movable_back xs w n \<longleftrightarrow> 0 < n \<and> \<not> w < 2 \<and>
     (let k = unat (ServerIndex (ucast w)) in
        k < length xs \<and> \<not> st_IsEquipped (xs ! k) \<and> n \<le> uint (st_Amount (xs ! k)))"

locale bag_and_box =
  item_store I rows inv room + warehouse W srows sinv sroom
  for I :: "'s item_port" and rows inv room and W :: "'s storage_port" and srows sinv sroom +
  assumes bag_frame: "ip_Remove I i n s = (r, s') \<Longrightarrow> srows s' = srows s \<and> (sinv s \<longrightarrow> sinv s') \<and> sroom s' = sroom s"
    and bag_frame_add: "ip_Add I c m n s = (a, s') \<Longrightarrow> srows s' = srows s \<and> (sinv s \<longrightarrow> sinv s') \<and> sroom s' = sroom s"
    and box_frame: "sp_Add W acc m n s = (b, s') \<Longrightarrow> rows s' = rows s \<and> (inv s \<longrightarrow> inv s') \<and> room s' = room s"
    and box_frame_remove: "sp_Remove W i n s = (r, s') \<Longrightarrow> rows s' = rows s \<and> (inv s \<longrightarrow> inv s') \<and> room s' = room s"
begin

lemma held_cong: "rows s' = rows s \<Longrightarrow> held s' = held s"
  by (simp add: held_def fun_eq_iff)

lemma stored_cong: "srows s' = srows s \<Longrightarrow> stored s' = stored s"
  by (simp add: stored_def fun_eq_iff)

lemma move_to_rejected:
  assumes inv: "inv s" and load: "ip_LoadByChar I acc c s = (Inr xs, s)" and bad: "\<not> movable xs w n"
  shows "\<exists>e. MoveToStorage I W acc c w n s = (Inl e, s)"
  using load bad by (auto simp: MoveToStorage_def movable_def Let_def not_le not_less)

text \<open>What is left of the call once the bag row is gone.\<close>

definition to_box :: "u32 \<Rightarrow> u32 \<Rightarrow> int \<Rightarrow> 's \<Rightarrow> (storage_move, 's) out" where
  "to_box acc m n s1 = and_then (sp_Add W acc m n s1) (\<lambda>b s.
     and_then (sp_LoadByAccount W acc s) (\<lambda>wh s.
       (Inr \<lparr>sm_Index = wire_slot_loop (st_ID b) 0 wh, sm_StoredID = st_ID b,
             sm_NameID = m, sm_Amount = st_Amount b, sm_IsFromBag = True\<rparr>, s)))"

lemma move_to_step:
  assumes inv: "inv s" and load: "ip_LoadByChar I acc c s = (Inr xs, s)" and ok: "movable xs w n"
    and m: "m = it_NameID (xs ! unat (ServerIndex (ucast w)))"
  shows "\<exists>s1. MoveToStorage I W acc c w n s = to_box acc m n s1 \<and> inv s1 \<and> srows s1 = srows s \<and>
    (sinv s \<longrightarrow> sinv s1) \<and> sroom s1 = sroom s \<and>
    (\<forall>c' k. held s1 c' k = held s c' k - (if c' = c \<and> k = m then n else 0))"
proof -
  define row where "row = xs ! unat (ServerIndex (ucast w))"
  have k: "unat (ServerIndex (ucast w)) < length xs" and am: "0 < n" "n \<le> uint (it_Amount row)"
    and g: "\<not> IsEquipped row" "\<not> w < 2"
    using ok by (auto simp: movable_def row_def Let_def)
  have row: "rows s (it_ID row) = Some row" "it_CharID row = c"
    using load_nth [OF inv load k] by (simp_all add: row_def)
  obtain s1 where s1: "ip_Remove I (it_ID row) n s = (Inr (), s1)" "inv s1"
      "\<forall>c' m. held s1 c' m = held s c' m - (if c' = it_CharID row \<and> m = it_NameID row then n else 0)"
    using held_remove [OF inv row(1) am] by blast
  have "MoveToStorage I W acc c w n s = to_box acc m n s1"
    using s1(1) k am g load by (simp add: MoveToStorage_def to_box_def Let_def m row_def [symmetric])
  then show ?thesis
    using s1(2,3) bag_frame [OF s1(1)] row(2) by (auto simp: m row_def [symmetric])
qed

lemma move_to_ok:
  assumes inv: "inv s" "sinv s" and room: "0 < sroom s"
    and load: "ip_LoadByChar I acc c s = (Inr xs, s)" and ok: "movable xs w n"
    and nfull: "\<not> full_for s acc m" and m: "m = it_NameID (xs ! unat (ServerIndex (ucast w)))"
    and wrap: "stored s acc m + n < 2 ^ 32"
  shows "\<exists>r s'. MoveToStorage I W acc c w n s = (Inr r, s') \<and> inv s' \<and> sinv s' \<and>
    (\<forall>c' k. held s' c' k = held s c' k - (if c' = c \<and> k = m then n else 0)) \<and>
    (\<forall>a k. stored s' a k = stored s a k + (if a = acc \<and> k = m then n else 0)) \<and>
    (\<exists>wh. LoadWarehouse W acc s' = (Inr wh, s') \<and>
       (\<exists>j < length wh. st_ID (wh ! j) = sm_StoredID r \<and> st_NameID (wh ! j) = m \<and>
          sm_Amount r = st_Amount (wh ! j) \<and> sm_Index r = of_nat j + 2))"
proof -
  have n: "0 < n"
    using ok by (simp add: movable_def)
  obtain s1 where s1: "inv s1" "srows s1 = srows s" "sinv s1" "sroom s1 = sroom s"
      "\<forall>c' k. held s1 c' k = held s c' k - (if c' = c \<and> k = m then n else 0)"
      "MoveToStorage I W acc c w n s = to_box acc m n s1"
    using move_to_step [OF inv(1) load ok m] inv(2) by blast
  have st1: "stored s1 = stored s"
    using s1(2) by (rule stored_cong)
  have nf: "\<not> full_for s1 acc m"
    using nfull s1(2) by (simp add: full_for_def)
  obtain b s2 where b: "sp_Add W acc m n s1 = (Inr b, s2)" "sinv s2" "srows s2 (st_ID b) = Some b"
      "st_AccountID b = acc" "st_NameID b = m" "\<forall>a k. stored s2 a k = stored s1 a k + (if a = acc \<and> k = m then n else 0)"
    using add_spec [OF s1(3), of n acc m] s1(4) room n wrap nf unfolding st1 by auto
  obtain wh where wh: "sp_LoadByAccount W acc s2 = (Inr wh, s2)" "distinct wh"
      "set wh = {it \<in> ran (srows s2). st_AccountID it = acc}"
    using sload_ok [OF b(2)] by blast
  have "b \<in> set wh"
    using b(3,4) wh(3) by (auto simp: ran_def)
  then obtain j where j: "j < length wh" "wh ! j = b"
    by (auto simp: in_set_conv_nth)
  have "inj_on st_ID (set wh)"
    unfolding wh(3) by (rule inj_onI) (smt (verit) mem_Collect_eq option.inject ran_def srow_id [OF b(2)])
  then have "distinct (map st_ID wh)"
    using wh(2) by (simp add: distinct_map)
  then have "wire_slot_loop (st_ID b) 0 wh = of_nat j + 2"
    using wire_slot_loop_nth [of wh j 0] j by simp
  then show ?thesis
    using s1(1,5,6) b wh(1) j st1 box_frame [OF b(1)] held_cong [of s2 s1]
    by (auto simp: LoadWarehouse_def to_box_def)
qed

text \<open>The full warehouse is discovered after the bag row is gone.\<close>

lemma move_to_full:
  assumes inv: "inv s" "sinv s"
    and load: "ip_LoadByChar I acc c s = (Inr xs, s)" and ok: "movable xs w n"
    and full: "full_for s acc m" and m: "m = it_NameID (xs ! unat (ServerIndex (ucast w)))"
  shows "\<exists>s'. MoveToStorage I W acc c w n s = (Inl ErrStorageRepoFull, s') \<and>
    inv s' \<and> srows s' = srows s \<and> (\<forall>c' k. held s' c' k = held s c' k - (if c' = c \<and> k = m then n else 0))"
proof -
  have n: "0 < n"
    using ok by (simp add: movable_def)
  obtain s1 where s1: "inv s1" "srows s1 = srows s" "sinv s1"
      "\<forall>c' k. held s1 c' k = held s c' k - (if c' = c \<and> k = m then n else 0)"
      "MoveToStorage I W acc c w n s = to_box acc m n s1"
    using move_to_step [OF inv(1) load ok m] inv(2) by blast
  have "sp_Add W acc m n s1 = (Inl ErrStorageRepoFull, s1)"
    using full s1(2) n by (intro sadd_full s1(3)) (auto simp: full_for_def)
  then show ?thesis
    using s1 by (auto simp: to_box_def)
qed

lemma move_from_rejected:
  assumes "sp_LoadByAccount W acc s = (Inr xs, s)" and "\<not> movable_back xs w n"
  shows "\<exists>e. MoveFromStorage I W acc c w n s = (Inl e, s)"
  using assms by (auto simp: MoveFromStorage_def movable_back_def Let_def not_le not_less)

lemma move_from_ok:
  assumes inv: "inv s" "sinv s" and room: "0 < room s"
    and load: "sp_LoadByAccount W acc s = (Inr xs, s)" and ok: "movable_back xs w n"
    and m: "m = st_NameID (xs ! unat (ServerIndex (ucast w)))"
  shows "\<exists>r s'. MoveFromStorage I W acc c w n s = (Inr r, s') \<and> inv s' \<and> sinv s' \<and>
    (\<forall>c' k. held s' c' k = held s c' k + (if c' = c \<and> k = m then n else 0)) \<and>
    (\<forall>a k. stored s' a k = stored s a k - (if a = acc \<and> k = m then n else 0)) \<and>
    sm_NameID r = m \<and> uint (sm_Amount r) = n"
proof -
  define row where "row = xs ! unat (ServerIndex (ucast w))"
  have k: "unat (ServerIndex (ucast w)) < length xs" and am: "0 < n" "n \<le> uint (st_Amount row)"
    and g: "\<not> st_IsEquipped row" "\<not> w < 2"
    using ok by (auto simp: movable_back_def row_def Let_def)
  have row: "srows s (st_ID row) = Some row" "st_AccountID row = acc"
    using sload_nth [OF inv(2) load k] by (simp_all add: row_def)
  obtain s1 where s1: "sp_Remove W (st_ID row) n s = (Inr (), s1)" "sinv s1"
      "\<forall>a k. stored s1 a k = stored s a k - (if a = acc \<and> k = st_NameID row then n else 0)"
    using stored_remove [OF inv(2) row(1) am] row(2) by blast
  have f1: "rows s1 = rows s" "inv s1" "room s1 = room s"
    using box_frame_remove [OF s1(1)] inv(1) by auto
  have "n < 2 ^ 32"
    using am(2) uint_lt2p [of "st_Amount row"] by simp
  then obtain it s2 where s2: "ip_Add I c m n s1 = (Inr it, s2)" "inv s2" "uint (it_Amount it) = n"
      "\<forall>c' m'. held s2 c' m' = held s1 c' m' + (if c' = c \<and> m' = m then n else 0)"
    using held_add [OF f1(2), of n c m] f1(3) room am(1) by auto
  have "MoveFromStorage I W acc c w n s = (Inr \<lparr>sm_Index = 0, sm_StoredID = st_ID row, sm_NameID = m,
      sm_Amount = it_Amount it, sm_IsFromBag = False\<rparr>, s2)"
    using s1(1) s2(1) k am g load
    by (simp add: MoveFromStorage_def Let_def m row_def [symmetric] not_less)
  then show ?thesis
    using s1(2,3) s2 bag_frame_add [OF s2(1)] held_cong [OF f1(1)] stored_cong [of s2 s1]
    by (auto simp: m row_def [symmetric])
qed

end

section \<open>The in-memory stores\<close>

interpretation db_items_field: item_field mem_item_port ir_rows ir_wf ir_room
    "db_items :: 'z game_db_scheme \<Rightarrow> item_repo" put_items
  by unfold_locales simp_all

interpretation db_storage_field: warehouse_field mem_storage_port sr_rows sr_wf sr_room
    "db_storage :: 'z game_db_scheme \<Rightarrow> storage_repo" put_storage
  by unfold_locales simp_all

abbreviation bag_rows :: "'z game_db_scheme \<Rightarrow> u32 \<Rightarrow> item option" where
  "bag_rows s \<equiv> ir_rows (db_items s)"

abbreviation box_rows :: "'z game_db_scheme \<Rightarrow> u32 \<Rightarrow> storage_item option" where
  "box_rows s \<equiv> sr_rows (db_storage s)"

lemmas db_item_port_simps = db_item_port_def InventoryService_id lift_item_port_def

lemma db_item_frame:
  "ip_Add db_item_port c m n s = (a, s') \<Longrightarrow> \<exists>r. s' = put_items r s"
  "ip_Remove db_item_port i n s = (b, s') \<Longrightarrow> \<exists>r. s' = put_items r s"
  "ip_SetEquip db_item_port i e s = (b, s') \<Longrightarrow> \<exists>r. s' = put_items r s"
  by (auto simp: db_item_port_simps zoom_def split: prod.splits)

lemma db_storage_frame:
  "sp_Add db_storage_port acc m n s = (x, s') \<Longrightarrow> \<exists>r. s' = put_storage r s"
  "sp_Remove db_storage_port i n s = (y, s') \<Longrightarrow> \<exists>r. s' = put_storage r s"
  by (auto simp: db_storage_port_def lift_storage_port_def zoom_def split: prod.splits)

interpretation db_bag: item_store "db_item_port :: 'z game_db_scheme item_port" bag_rows
    "\<lambda>s. ir_wf (db_items s)" "\<lambda>s. ir_room (db_items s)"
  unfolding db_item_port_def InventoryService_id by (rule db_items_field.lifted.item_store_axioms)

interpretation db_box: warehouse "db_storage_port :: 'z game_db_scheme storage_port" box_rows
    "\<lambda>s. sr_wf (db_storage s)" "\<lambda>s. sr_room (db_storage s)"
  unfolding db_storage_port_def by (rule db_storage_field.lifted.warehouse_axioms)

interpretation db_move: bag_and_box "db_item_port :: 'z game_db_scheme item_port" bag_rows
    "\<lambda>s. ir_wf (db_items s)" "\<lambda>s. ir_room (db_items s)" db_storage_port box_rows
    "\<lambda>s. sr_wf (db_storage s)" "\<lambda>s. sr_room (db_storage s)"
  by unfold_locales (auto dest!: db_item_frame db_storage_frame)

definition db_held :: "'z game_db_scheme \<Rightarrow> u32 \<Rightarrow> u32 \<Rightarrow> int" where
  "db_held s c m = bag_count (db_items s) c m"

definition db_stored :: "'z game_db_scheme \<Rightarrow> u32 \<Rightarrow> u32 \<Rightarrow> int" where
  "db_stored s a m = storage_count (db_storage s) a m"

lemma db_held_eq: "ir_wf (db_items s) \<Longrightarrow> db_bag.held s = db_held s"
  by (simp add: fun_eq_iff db_bag.held_def db_held_def held_bag_count [symmetric] mem_items.held_def)

lemma db_stored_eq: "sr_wf (db_storage s) \<Longrightarrow> db_box.stored s = db_stored s"
  by (simp add: fun_eq_iff db_box.stored_def db_stored_def stored_storage_count [symmetric] mem_storage.stored_def)

text \<open>No row to merge into and no free row left: \<open>full_for\<close>, computed from the table.\<close>

definition box_full :: "storage_repo \<Rightarrow> u32 \<Rightarrow> u32 \<Rightarrow> bool" where
  "box_full r acc m \<longleftrightarrow> find (\<lambda>(i, it). stackable acc m it) (sr_items r) = None \<and>
     MaxStorage \<le> accountCountLocked acc r"

lemma db_box_full: "sr_wf (db_storage s) \<Longrightarrow> db_box.full_for s acc m \<longleftrightarrow> box_full (db_storage s) acc m"
  using find_stackable_None [of "db_storage s" acc m] find_stackable_Some [of "db_storage s" _ _ acc m]
  by (auto simp: db_box.full_for_def box_full_def sr_count)

section \<open>Properties\<close>

text \<open>Character 150001 of account 7 carries two stacks, the second one refined; the warehouse holds one.\<close>

definition demo_bag :: item_repo where
  "demo_bag = \<lparr>ir_items =
     [(1, zero_item\<lparr>it_ID := 1, it_CharID := 150001, it_NameID := 501, it_Amount := 10\<rparr>),
      (2, zero_item\<lparr>it_ID := 2, it_CharID := 150001, it_NameID := 1201, it_Amount := 1, it_Refine := 7\<rparr>)],
     ir_next = 2\<rparr>"

definition demo_box :: storage_repo where
  "demo_box = \<lparr>sr_items =
     [(1, zero_storage_item\<lparr>st_ID := 1, st_AccountID := 7, st_NameID := 501, st_Amount := 5\<rparr>)], sr_next = 1\<rparr>"

definition demo_full_box :: storage_repo where
  "demo_full_box = \<lparr>sr_items = map (\<lambda>k. (word_of_nat k,
      zero_storage_item\<lparr>st_ID := word_of_nat k, st_AccountID := 7, st_NameID := 1101, st_Amount := 1, st_Equip := 1\<rparr>))
      [1..<601], sr_next = 600\<rparr>"

definition demo_game :: game_db where
  "demo_game = \<lparr>db_chars = db_chars demo_econ, db_ledger = db_ledger demo_econ,
     db_items = demo_bag, db_storage = demo_box\<rparr>"

definition demo_game_full :: game_db where
  "demo_game_full = demo_game\<lparr>db_storage := demo_full_box\<rparr>"

lemma demo_bag_wf [simp]: "ir_wf demo_bag"
  by (auto simp: ir_wf_def demo_bag_def)

lemma demo_box_wf [simp]: "sr_wf demo_box"
  by (auto simp: sr_wf_def demo_box_def)

lemma unat_small: "k < 2 ^ 32 \<Longrightarrow> unat (word_of_nat k :: u32) = k"
  by (simp add: unat_of_nat take_bit_nat_eq_self)

lemma demo_full_box_wf [simp]: "sr_wf demo_full_box"
proof -
  have "inj_on (word_of_nat :: nat \<Rightarrow> u32) {1..<601}"
    by (rule inj_on_inverseI [where g = unat]) (auto intro: unat_small)
  moreover have "(word_of_nat k :: u32) \<le> 600" if "k < 601" for k
    using that by (simp add: word_le_nat_alt unat_small)
  ultimately show ?thesis
    by (auto simp: sr_wf_def demo_full_box_def o_def distinct_map)
qed

lemma demo_full_box_full [simp]: "box_full demo_full_box 7 m"
  by (auto simp: box_full_def demo_full_box_def stackable_def find_None_iff accountCountLocked_def
    MaxStorage_def o_def zero_storage_item_def)

lemma demo_game_fields [simp]:
  "db_items demo_game = demo_bag" "db_storage demo_game = demo_box" "db_chars demo_game = db_chars demo_econ"
  "db_ledger demo_game = db_ledger demo_econ"
  "db_items demo_game_full = demo_bag" "db_storage demo_game_full = demo_full_box"
  by (simp_all add: demo_game_def demo_game_full_def)

definition demo_rows :: "item list" where
  "demo_rows = map snd (ir_items demo_bag)"

lemma demo_bag_rows: "ir_LoadByChar 7 150001 demo_bag = (Inr demo_rows, demo_bag)"
  by code_simp

lemma demo_load:
  "ip_LoadByChar db_item_port 7 150001 demo_game = (Inr demo_rows, demo_game)"
  "ip_LoadByChar db_item_port 7 150001 demo_game_full = (Inr demo_rows, demo_game_full)"
  using demo_bag_rows
  by (auto simp: db_item_port_simps mem_item_port_def zoom_def demo_game_def demo_game_full_def)

lemma demo_row:
  "movable demo_rows 2 4" "movable demo_rows 2 10" "it_NameID (demo_rows ! unat (ServerIndex (ucast (2::u32)))) = 501"
  by code_simp+

lemma demo_counts [simp]:
  "db_held demo_game 150001 501 = 10" "db_held demo_game_full 150001 501 = 10" "db_stored demo_game 7 501 = 5"
  unfolding db_held_def db_stored_def demo_game_fields by code_simp+

lemma demo_box_room [simp]: "\<not> box_full demo_box 7 501" "0 < sr_room demo_box" "0 < ir_room demo_bag"
proof -
  show "\<not> box_full demo_box 7 501"
    by code_simp
qed (simp_all add: sr_room_def demo_box_def ir_room_def demo_bag_def)

text \<open>
  Remark. Depositing in the warehouse. A request that fails a guard (amount, wire index, equipped
  row, stack size) changes nothing; one that passes them, with room for the item, moves exactly
  \<open>n\<close> units of the addressed item from the character's bag to the account's warehouse, touches no
  other count of any character or account, and reports the wire index of the row it landed in.
\<close>

theorem deposit_moves_exactly:
  assumes "ir_wf (db_items s)" and "sr_wf (db_storage s)" and "0 < sr_room (db_storage s)"
    and load: "ip_LoadByChar db_item_port acc c s = (Inr xs, s)"
    and "m = it_NameID (xs ! unat (ServerIndex (ucast w)))"
    and "\<not> box_full (db_storage s) acc m" and "db_stored s acc m + n < 2 ^ 32"
  shows "if movable xs w n
    then \<exists>r s'. MoveToStorage db_item_port db_storage_port acc c w n s = (Inr r, s') \<and>
      (\<forall>c' k. db_held s' c' k = db_held s c' k - (if c' = c \<and> k = m then n else 0)) \<and>
      (\<forall>a k. db_stored s' a k = db_stored s a k + (if a = acc \<and> k = m then n else 0)) \<and>
      (\<exists>wh. LoadWarehouse db_storage_port acc s' = (Inr wh, s') \<and>
        (\<exists>j < length wh. st_ID (wh ! j) = sm_StoredID r \<and> st_NameID (wh ! j) = m \<and>
           sm_Amount r = st_Amount (wh ! j) \<and> sm_Index r = of_nat j + 2))
    else \<exists>e. MoveToStorage db_item_port db_storage_port acc c w n s = (Inl e, s)"
proof (cases "movable xs w n")
  case True
  from db_move.move_to_ok [OF assms(1-3) load True _ assms(5)] show ?thesis
    using assms(1,2,6,7) True by (fastforce simp: db_box_full db_stored_eq db_held_eq)
next
  case False
  then show ?thesis
    using db_move.move_to_rejected [OF assms(1) load False] by simp
qed

theorem deposit_moves_exactly_witness:
  "\<exists>r s'. MoveToStorage db_item_port db_storage_port 7 150001 2 4 demo_game = (Inr r, s') \<and>
     db_held s' 150001 501 = 6 \<and> db_stored s' 7 501 = 9"
proof -
  obtain r s' where s': "MoveToStorage db_item_port db_storage_port 7 150001 2 4 demo_game = (Inr r, s')"
      "\<forall>c' k. db_held s' c' k = db_held demo_game c' k - (if c' = 150001 \<and> k = 501 then 4 else 0)"
      "\<forall>a k. db_stored s' a k = db_stored demo_game a k + (if a = 7 \<and> k = 501 then 4 else 0)"
    using deposit_moves_exactly [OF _ _ _ demo_load(1) demo_row(3) [symmetric], of 4]
    unfolding if_P [OF demo_row(1)] by auto
  show ?thesis
    using s'(1) s'(2) [rule_format, of 150001 501] s'(3) [rule_format, of 7 501] by auto
qed

text \<open>
  Remark. The documented contract of \<open>MoveToStorage\<close> ("if either side fails, the whole move aborts and
  neither the bag nor the warehouse has changed") does not hold: whenever the warehouse has no
  room for an otherwise valid deposit, the call fails with \<open>ErrStorageFull\<close>, the warehouse is
  unchanged and the \<open>n\<close> units have already left the bag, so they are destroyed.
\<close>

theorem full_warehouse_destroys_items:
  assumes "ir_wf (db_items s)" and "sr_wf (db_storage s)"
    and load: "ip_LoadByChar db_item_port acc c s = (Inr xs, s)" and "movable xs w n"
    and "m = it_NameID (xs ! unat (ServerIndex (ucast w)))"
    and "box_full (db_storage s) acc m"
  shows "\<exists>s'. MoveToStorage db_item_port db_storage_port acc c w n s = (Inl ErrStorageRepoFull, s') \<and>
    box_rows s' = box_rows s \<and> db_held s' c m = db_held s c m - n"
  using db_move.move_to_full [OF assms(1,2) load assms(4) _ assms(5)] assms(1,2,6)
  by (fastforce simp: db_box_full db_held_eq)

theorem full_warehouse_destroys_items_witness:
  "\<exists>s'. MoveToStorage db_item_port db_storage_port 7 150001 2 10 demo_game_full = (Inl ErrStorageRepoFull, s') \<and>
     db_held s' 150001 501 = 0"
  using full_warehouse_destroys_items [OF _ _ demo_load(2) demo_row(2) demo_row(3) [symmetric]] by auto

lemma demo_box_load:
  "sp_LoadByAccount db_storage_port 7 demo_game = (Inr (map snd (sr_items demo_box)), demo_game)"
proof -
  have "sr_LoadByAccount 7 demo_box = (Inr (map snd (sr_items demo_box)), demo_box)"
    by code_simp
  then show ?thesis
    by (auto simp: db_storage_port_def lift_storage_port_def mem_storage_port_def zoom_def demo_game_def)
qed

lemma demo_box_row:
  "movable_back (map snd (sr_items demo_box)) 2 5"
  "st_NameID (map snd (sr_items demo_box) ! unat (ServerIndex (ucast (2::u32)))) = 501"
  by code_simp+

text \<open>
  Remark. Withdrawing from the warehouse. A request that fails a guard changes nothing; one that
  passes them moves exactly \<open>n\<close> units of the addressed item from the account's warehouse into one
  new bag row of the character holding \<open>n\<close>, and touches no other count.
\<close>

theorem withdraw_moves_exactly:
  assumes "ir_wf (db_items s)" and "sr_wf (db_storage s)" and "0 < ir_room (db_items s)"
    and load: "sp_LoadByAccount db_storage_port acc s = (Inr xs, s)"
    and "m = st_NameID (xs ! unat (ServerIndex (ucast w)))"
  shows "if movable_back xs w n
    then \<exists>r s'. MoveFromStorage db_item_port db_storage_port acc c w n s = (Inr r, s') \<and>
      (\<forall>c' k. db_held s' c' k = db_held s c' k + (if c' = c \<and> k = m then n else 0)) \<and>
      (\<forall>a k. db_stored s' a k = db_stored s a k - (if a = acc \<and> k = m then n else 0)) \<and>
      sm_NameID r = m \<and> uint (sm_Amount r) = n
    else \<exists>e. MoveFromStorage db_item_port db_storage_port acc c w n s = (Inl e, s)"
proof (cases "movable_back xs w n")
  case True
  from db_move.move_from_ok [OF assms(1-3) load True assms(5), of c] show ?thesis
    using assms(1,2) True by (fastforce simp: db_stored_eq db_held_eq)
next
  case False
  then show ?thesis
    using db_move.move_from_rejected [OF load False] by simp
qed

theorem withdraw_moves_exactly_witness:
  "\<exists>r s'. MoveFromStorage db_item_port db_storage_port 7 150001 2 5 demo_game = (Inr r, s') \<and>
     db_held s' 150001 501 = 15 \<and> db_stored s' 7 501 = 0"
proof -
  obtain r s' where s': "MoveFromStorage db_item_port db_storage_port 7 150001 2 5 demo_game = (Inr r, s')"
      "\<forall>c' k. db_held s' c' k = db_held demo_game c' k + (if c' = 150001 \<and> k = 501 then 5 else 0)"
      "\<forall>a k. db_stored s' a k = db_stored demo_game a k - (if a = 7 \<and> k = 501 then 5 else 0)"
    using withdraw_moves_exactly [OF _ _ _ demo_box_load demo_box_row(2) [symmetric], of 5 150001]
    unfolding if_P [OF demo_box_row(1)] by auto
  show ?thesis
    using s'(1) s'(2) [rule_format, of 150001 501] s'(3) [rule_format, of 7 501] by auto
qed

text \<open>
  Remark. A deposit keeps the item's id and nothing else: when it opens a new warehouse row, that row
  has refine level 0, whatever the refine level of the bag row that was taken.
\<close>

theorem deposit_strips_refine:
  assumes "ir_wf (db_items s)" and "sr_wf (db_storage s)" and "0 < sr_room (db_storage s)"
    and load: "ip_LoadByChar db_item_port acc c s = (Inr xs, s)" and mv: "movable xs w n"
    and "m = it_NameID (xs ! unat (ServerIndex (ucast w)))"
    and new: "find (\<lambda>(i, it). stackable acc m it) (sr_items (db_storage s)) = None"
    and cap: "accountCountLocked acc (db_storage s) < MaxStorage"
  shows "\<exists>r s' row. MoveToStorage db_item_port db_storage_port acc c w n s = (Inr r, s') \<and>
    box_rows s' (sm_StoredID r) = Some row \<and> st_NameID row = m \<and> st_Refine row = 0"
proof -
  have n: "0 < n"
    using mv by (simp add: movable_def)
  obtain s1 where s1: "MoveToStorage db_item_port db_storage_port acc c w n s = db_move.to_box acc m n s1"
      "box_rows s1 = box_rows s" "sr_wf (db_storage s1)" "0 < sr_room (db_storage s1)"
    using db_move.move_to_step [OF assms(1) load mv assms(6)] assms(2,3) by auto
  have none: "\<And>i it. box_rows s1 i = Some it \<Longrightarrow> \<not> stackable acc m it"
    using find_stackable_Some [OF assms(2), of _ _ acc m] new s1(2) by fastforce
  have "card {it \<in> ran (box_rows s1). st_AccountID it = acc} < MaxStorage"
    using cap assms(2) by (simp add: s1(2) sr_count)
  with none db_box.sadd_insert [OF s1(3,4) n, of acc m] obtain b s2 where
      b: "sp_Add db_storage_port acc m n s1 = (Inr b, s2)" "sr_wf (db_storage s2)" "st_NameID b = m"
        "st_Refine b = 0" "box_rows s2 = (box_rows s1)(st_ID b \<mapsto> b)"
    by blast
  obtain wh where "sp_LoadByAccount db_storage_port acc s2 = (Inr wh, s2)"
    using db_box.sload_ok [OF b(2)] by blast
  then show ?thesis
    using s1(1) b by (auto simp: db_move.to_box_def)
qed

theorem deposit_strips_refine_witness:
  "it_Refine (demo_rows ! 1) = 7 \<and>
   (\<exists>r s' row. MoveToStorage db_item_port db_storage_port 7 150001 3 1 demo_game = (Inr r, s') \<and>
     box_rows s' (sm_StoredID r) = Some row \<and> st_NameID row = 1201 \<and> st_Refine row = 0)"
proof -
  have a: "movable demo_rows 3 1" "1201 = it_NameID (demo_rows ! unat (ServerIndex (ucast (3::u32))))"
    "find (\<lambda>(i, it). stackable 7 1201 it) (sr_items demo_box) = None" "accountCountLocked 7 demo_box < MaxStorage"
    "it_Refine (demo_rows ! 1) = 7"
    by code_simp+
  show ?thesis
    using deposit_strips_refine [OF _ _ _ demo_load(1) a(1,2)] a(3-5) by simp
qed

end
