(* ===== verification/Shop.thy ===== *)
theory Shop
  imports BagTransfer
begin

text \<open>
  NPC shops: the catalog (\<open>commerce/shop/domain/shop.go\<close>) and \<open>ShopService\<close>
  (\<open>commerce/shop/app/service.go\<close>) over the reason-tagged economy adapter of \<open>shop/di.go\<close>. The
  locale \<open>purse\<close> is the economy port's contract as its clients see it, and \<open>market\<close> joins it
  with the item store; both are interpreted on \<open>game_db\<close> and shared with the trade service.
\<close>

section \<open>Catalog\<close>

record shop_item =
  si_NameID :: u32
  si_Price :: int
  si_SellPrice :: int

record shop =
  sh_Name :: string
  sh_Items :: "shop_item list"

definition FindBuy :: "shop \<Rightarrow> u32 \<Rightarrow> shop_item option" where
  "FindBuy s nameID = find (\<lambda>it. si_NameID it = nameID) (sh_Items s)"

type_synonym catalog = "string \<rightharpoonup> shop"

definition NewCatalogRegistry :: "shop list \<Rightarrow> catalog" where
  "NewCatalogRegistry shops = foldl (\<lambda>r s. r(sh_Name s \<mapsto> s)) Map.empty shops"

definition catalog_Get :: "catalog \<Rightarrow> string \<Rightarrow> shop option" where
  "catalog_Get r name = r name"

section \<open>ShopService\<close>

record 's econ_port =
  ep_Deduct :: "u32 \<Rightarrow> int \<Rightarrow> 's \<Rightarrow> (unit, 's) out"
  ep_Credit :: "u32 \<Rightarrow> int \<Rightarrow> 's \<Rightarrow> (unit, 's) out"

definition shop_economyAdapter :: "'s economy \<Rightarrow> 's econ_port" where
  "shop_economyAdapter E =
     \<lparr>ep_Deduct = (\<lambda>c n. DeductZenyFor E c n \<lparr>le_Reason = ''shop_buy'', le_PeerCharID = 0, le_MapName = []\<rparr>),
      ep_Credit = (\<lambda>c n. CreditZenyFor E c n \<lparr>le_Reason = ''shop_sell'', le_PeerCharID = 0, le_MapName = []\<rparr>)\<rparr>"

definition Buy ::
  "catalog \<Rightarrow> 's item_port \<Rightarrow> 's econ_port \<Rightarrow> u32 \<Rightarrow> string \<Rightarrow> u32 \<Rightarrow> int \<Rightarrow> 's \<Rightarrow> (item, 's) out" where
  "Buy cat items econ c shopName nameID amount s =
     (case catalog_Get cat shopName of
        None \<Rightarrow> (Inl (ErrText ''shop not found''), s)
      | Some shop \<Rightarrow>
          case FindBuy shop nameID of
            None \<Rightarrow> (Inl (ErrText ''item not in shop''), s)
          | Some it \<Rightarrow>
              let total = i32 (si_Price it * i32 amount)
              in and_then (ep_Deduct econ c total s) (\<lambda>_ s.
                   ip_Add items c nameID amount s))"

definition Sell ::
  "'s item_port \<Rightarrow> 's econ_port \<Rightarrow> u32 \<Rightarrow> u32 \<Rightarrow> int \<Rightarrow> int \<Rightarrow> 's \<Rightarrow> (unit, 's) out" where
  "Sell items econ c itemID amount sellPrice s =
     and_then (ip_Remove items itemID amount s) (\<lambda>_ s.
       let total = i32 (sellPrice * i32 amount)
       in ep_Credit econ c total s)"

definition CatalogItems :: "catalog \<Rightarrow> string \<Rightarrow> shop_item list option" where
  "CatalogItems cat shopName =
     (case catalog_Get cat shopName of None \<Rightarrow> None | Some shop \<Rightarrow> Some (sh_Items shop))"

definition SellPriceFor :: "catalog \<Rightarrow> string \<Rightarrow> u32 \<Rightarrow> int option" where
  "SellPriceFor cat shopName nameID =
     (case catalog_Get cat shopName of
        None \<Rightarrow> None
      | Some shop \<Rightarrow> (case FindBuy shop nameID of None \<Rightarrow> None | Some it \<Rightarrow> Some (si_SellPrice it)))"

section \<open>The economy as its clients see it\<close>

fun pays :: "int option \<Rightarrow> int \<Rightarrow> bool" where
  "pays None n \<longleftrightarrow> False"
| "pays (Some b) n \<longleftrightarrow> b < 2 ^ 31 \<and> n \<le> b"

fun accepts :: "int option \<Rightarrow> int \<Rightarrow> bool" where
  "accepts None n \<longleftrightarrow> False"
| "accepts (Some b) n \<longleftrightarrow> b < 2 ^ 31 \<and> b + n \<le> 2 ^ 31"

lemma pays_iff: "pays x n \<longleftrightarrow> (\<exists>b. x = Some b \<and> b < 2 ^ 31 \<and> n \<le> b)"
  by (cases x) auto

lemma accepts_iff: "accepts x n \<longleftrightarrow> (\<exists>b. x = Some b \<and> b < 2 ^ 31 \<and> b + n \<le> 2 ^ 31)"
  by (cases x) auto

locale purse =
  fixes E :: "'s econ_port"
    and bal :: "'s \<Rightarrow> u32 \<Rightarrow> int option"
    and pinv :: "'s \<Rightarrow> bool"
  assumes pay_ok: "pinv s \<Longrightarrow> c \<noteq> 0 \<Longrightarrow> 0 < n \<Longrightarrow> n < 2 ^ 31 \<Longrightarrow> pays (bal s c) n \<Longrightarrow>
      \<exists>s'. ep_Deduct E c n s = (Inr (), s') \<and> pinv s' \<and>
        bal s' = (bal s)(c := map_option (\<lambda>b. b - n) (bal s c))"
    and pay_short: "pinv s \<Longrightarrow> c \<noteq> 0 \<Longrightarrow> n < 2 ^ 31 \<Longrightarrow> \<not> (0 < n \<and> pays (bal s c) n) \<Longrightarrow>
      \<exists>e. ep_Deduct E c n s = (Inl e, s)"
    and gain_ok: "pinv s \<Longrightarrow> c \<noteq> 0 \<Longrightarrow> 0 < n \<Longrightarrow> accepts (bal s c) n \<Longrightarrow>
      \<exists>s'. ep_Credit E c n s = (Inr (), s') \<and> pinv s' \<and>
        bal s' = (bal s)(c := map_option (\<lambda>b. b + n) (bal s c))"
    and gain_refused: "pinv s \<Longrightarrow> c \<noteq> 0 \<Longrightarrow> \<not> (0 < n \<and> accepts (bal s c) n) \<Longrightarrow>
      \<exists>e. ep_Credit E c n s = (Inl e, s)"

locale market = purse E bal pinv + item_store I rows inv room
  for E :: "'s econ_port" and bal pinv and I :: "'s item_port" and rows inv room +
  assumes purse_frame:
      "ep_Deduct E c n s = (r, s') \<Longrightarrow> rows s' = rows s \<and> (inv s \<longrightarrow> inv s') \<and> room s' = room s"
      "ep_Credit E c n s = (r, s') \<Longrightarrow> rows s' = rows s \<and> (inv s \<longrightarrow> inv s') \<and> room s' = room s"
    and items_frame:
      "ip_Add I c m n s = (a, s') \<Longrightarrow> bal s' = bal s \<and> (pinv s \<longrightarrow> pinv s')"
      "ip_Remove I i n s = (r, s') \<Longrightarrow> bal s' = bal s \<and> (pinv s \<longrightarrow> pinv s')"
begin

lemma held_rows: "rows s' = rows s \<Longrightarrow> held s' = held s"
  by (simp add: held_def fun_eq_iff)

text \<open>A purchase, on every branch: \<open>t\<close> is the charge the code computes.\<close>

lemma buy_spec:
  assumes inv: "inv s" "pinv s" and c: "c \<noteq> 0" and room: "0 < room s" and n: "0 < n" "n < 2 ^ 32"
    and listed: "catalog_Get cat sn = Some shop" "FindBuy shop m = Some it"
    and t: "t = i32 (si_Price it * i32 n)"
  shows "if 0 < t \<and> pays (bal s c) t
    then \<exists>row s'. Buy cat I E c sn m n s = (Inr row, s') \<and> inv s' \<and> pinv s' \<and>
      bal s' = (bal s)(c := map_option (\<lambda>b. b - t) (bal s c)) \<and>
      it_CharID row = c \<and> it_NameID row = m \<and> uint (it_Amount row) = n \<and>
      (\<forall>c' k. held s' c' k = held s c' k + (if c' = c \<and> k = m then n else 0))
    else \<exists>e. Buy cat I E c sn m n s = (Inl e, s)"
proof -
  have run: "Buy cat I E c sn m n s = and_then (ep_Deduct E c t s) (\<lambda>_ s. ip_Add I c m n s)"
    by (simp add: Buy_def listed t)
  have "in_i32 t"
    by (simp add: t)
  then have t32: "t < 2 ^ 31"
    by (simp add: in_i32_def)
  show ?thesis
  proof (cases "0 < t \<and> pays (bal s c) t")
    case True
    then obtain s1 where s1: "ep_Deduct E c t s = (Inr (), s1)" "pinv s1"
        "bal s1 = (bal s)(c := map_option (\<lambda>b. b - t) (bal s c))"
      using pay_ok [OF inv(2) c _ t32] by blast
    have f: "rows s1 = rows s" "inv s1" "room s1 = room s"
      using purse_frame(1) [OF s1(1)] inv(1) by auto
    obtain row s2 where s2: "ip_Add I c m n s1 = (Inr row, s2)" "inv s2" "it_CharID row = c"
        "it_NameID row = m" "uint (it_Amount row) = n"
        "\<forall>c' k. held s2 c' k = held s1 c' k + (if c' = c \<and> k = m then n else 0)"
      using held_add [OF f(2) _ n, of c m] f(3) room by auto
    show ?thesis
      using True s1 s2 items_frame(1) [OF s2(1)] held_rows [OF f(1)] by (simp add: run)
  next
    case False
    then show ?thesis
      using pay_short [OF inv(2) c t32] by (auto simp: run)
  qed
qed

lemma buy_unlisted:
  "catalog_Get cat sn = None \<or> (\<exists>shop. catalog_Get cat sn = Some shop \<and> FindBuy shop m = None) \<Longrightarrow>
     \<exists>e. Buy cat I E c sn m n s = (Inl e, s)"
  by (auto simp: Buy_def)

text \<open>A sale of an owned row: it pays, or (when the credit is refused) the units are gone.\<close>

lemma sell_spec:
  assumes inv: "inv s" "pinv s" and c: "c \<noteq> 0" and row: "rows s i = Some it" "it_CharID it = c" "it_NameID it = m"
    and n: "0 < n" "n \<le> uint (it_Amount it)" and t: "t = i32 (p * i32 n)"
  shows "\<exists>r s'. Sell I E c i n p s = (r, s') \<and> inv s' \<and>
    (\<forall>c' k. held s' c' k = held s c' k - (if c' = c \<and> k = m then n else 0)) \<and>
    (if 0 < t \<and> accepts (bal s c) t
     then r = Inr () \<and> bal s' = (bal s)(c := map_option (\<lambda>b. b + t) (bal s c))
     else (\<exists>e. r = Inl e) \<and> bal s' = bal s)"
proof -
  obtain s1 where s1: "ip_Remove I i n s = (Inr (), s1)" "inv s1"
      "\<forall>c' k. held s1 c' k = held s c' k - (if c' = c \<and> k = m then n else 0)"
    using held_remove [OF inv(1) row(1) n] row(2,3) by blast
  have f: "bal s1 = bal s" "pinv s1"
    using items_frame(2) [OF s1(1)] inv(2) by auto
  have run: "Sell I E c i n p s = ep_Credit E c t s1"
    by (simp add: Sell_def s1(1) t)
  show ?thesis
  proof (cases "0 < t \<and> accepts (bal s c) t")
    case True
    then obtain s2 where s2: "ep_Credit E c t s1 = (Inr (), s2)"
        "bal s2 = (bal s)(c := map_option (\<lambda>b. b + t) (bal s c))"
      using gain_ok [OF f(2) c, of t] f(1) by auto
    then show ?thesis
      using True s1(2,3) held_rows [of s2 s1] purse_frame(2) [OF s2(1)] by (auto simp: run)
  next
    case False
    then obtain e where "ep_Credit E c t s1 = (Inl e, s1)"
      using gain_refused [OF f(2) c, of t] f(1) by auto
    then show ?thesis
      using False s1(2,3) f(1) by (auto simp: run)
  qed
qed

end

section \<open>The in-memory stores\<close>

lemma economy_keeps_rest:
  fixes s :: "'z econ_db_scheme"
  assumes f: "\<And>r s :: 'z econ_db_scheme. f (put_chars r s) = f s" "\<And>l s :: 'z econ_db_scheme. f (put_ledger l s) = f s"
  shows "f (snd (DeductZenyFor mem_economy c n entry s)) = f s"
    and "f (snd (CreditZenyFor mem_economy c n entry s)) = f s"
proof -
  have upd: "f (snd (cp_UpdateZeny db_char_port i z s)) = f s" for i z s
    by (simp add: db_char_port_def lift_char_port_def zoom_def f split: prod.split)
  have find: "f (snd (eco_findChar mem_economy c s)) = f s" for s
    by (simp add: eco_findChar_def mem_economy_def db_char_port_def lift_char_port_def zoom_def f split: prod.split)
  have app: "f (snd (lp_Append db_ledger_port t s)) = f s" for t s
    by (simp add: db_ledger_port_def lift_ledger_port_def zoom_def f split: prod.split)
  have led: "f (snd (eco_appendLedger mem_economy ch k entry s)) = f s" for ch k s
    by (auto simp: eco_appendLedger_def mem_economy_def Let_def app intro: and_then_keep)
  have repo: "es_repos mem_economy = db_char_port"
    by (simp add: mem_economy_def)
  show "f (snd (DeductZenyFor mem_economy c n entry s)) = f s"
    by (auto simp: DeductZenyFor_def repo find led upd split: sum.split intro!: and_then_keep)
  show "f (snd (CreditZenyFor mem_economy c n entry s)) = f s"
    by (auto simp: CreditZenyFor_def repo find led upd split: sum.split intro!: and_then_keep)
qed

lemma economy_frame:
  fixes s :: "'z game_db_scheme"
  shows "DeductZenyFor mem_economy c n entry s = (r, s') \<Longrightarrow> db_items s' = db_items s \<and> db_storage s' = db_storage s"
    and "CreditZenyFor mem_economy c n entry s = (r, s') \<Longrightarrow> db_items s' = db_items s \<and> db_storage s' = db_storage s"
  using economy_keeps_rest [of "\<lambda>s. (db_items s, db_storage s)" c n entry s] by auto

definition entry_purse :: "ledger_entry \<Rightarrow> ledger_entry \<Rightarrow> 'z econ_db_scheme econ_port" where
  "entry_purse d g = \<lparr>ep_Deduct = (\<lambda>c n. DeductZenyFor mem_economy c n d),
     ep_Credit = (\<lambda>c n. CreditZenyFor mem_economy c n g)\<rparr>"

lemma mem_pays: "db_balance s i = x \<Longrightarrow>
    pays x n \<longleftrightarrow> (\<exists>b. mem_eco.balance s i = Some b \<and> b < 2 ^ 31 \<and> n \<le> b)"
  by (auto simp: mem_eco_balance pays_iff)

interpretation db_purse: purse "entry_purse d g" "db_balance :: 'z econ_db_scheme \<Rightarrow> _" "\<lambda>s. cr_wf (db_chars s)"
proof (unfold_locales, goal_cases)
  case (1 s c n)
  then have "in_i32 n"
    by (simp add: in_i32_def)
  with 1 show ?case
    using mem_eco.deduct_iff [OF 1(1,2,3), of d]
    by (auto simp: entry_purse_def mem_eco.deducted_def mem_eco_balance pays_iff fun_eq_iff)
next
  case (2 s c n)
  show ?case
  proof (cases "0 < n")
    case True
    with 2 have "in_i32 n"
      by (simp add: in_i32_def)
    with 2 True show ?thesis
      using mem_eco.deduct_iff [OF 2(1,2) True, of d] by (auto simp: entry_purse_def mem_eco_balance pays_iff)
  next
    case False
    then show ?thesis by (simp add: entry_purse_def DeductZenyFor_def)
  qed
next
  case (3 s c n)
  then show ?case
    using mem_eco.credit_iff [OF 3(1,2,3), of g]
    by (auto simp: entry_purse_def mem_eco.credited_def mem_eco_balance accepts_iff fun_eq_iff)
next
  case (4 s c n)
  show ?case
  proof (cases "0 < n")
    case True
    with 4 show ?thesis
      using mem_eco.credit_iff [OF 4(1,2) True, of g] by (auto simp: entry_purse_def mem_eco_balance accepts_iff)
  next
    case False
    then show ?thesis by (simp add: entry_purse_def CreditZenyFor_def)
  qed
qed

lemma db_item_frame_chars: "db_chars (put_items r s) = db_chars s" "db_balance (put_items r s) = db_balance s"
  by (simp_all add: fun_eq_iff db_balance_def)

interpretation db_market: market "entry_purse d g" "db_balance :: 'z game_db_scheme \<Rightarrow> _" "\<lambda>s. cr_wf (db_chars s)"
    db_item_port bag_rows "\<lambda>s. ir_wf (db_items s)" "\<lambda>s. ir_room (db_items s)"
  by unfold_locales
    (auto simp: entry_purse_def db_item_frame_chars dest!: economy_frame db_item_frame)

definition mem_shop_econ :: "'z econ_db_scheme econ_port" where
  "mem_shop_econ = shop_economyAdapter mem_economy"

lemma mem_shop_econ_purse: "mem_shop_econ = entry_purse \<lparr>le_Reason = ''shop_buy'', le_PeerCharID = 0, le_MapName = []\<rparr>
    \<lparr>le_Reason = ''shop_sell'', le_PeerCharID = 0, le_MapName = []\<rparr>"
  by (simp add: mem_shop_econ_def shop_economyAdapter_def entry_purse_def)

section \<open>Properties\<close>

definition demo_catalog :: catalog where
  "demo_catalog = NewCatalogRegistry [\<lparr>sh_Name = ''Tool Shop'', sh_Items =
     [\<lparr>si_NameID = 501, si_Price = 50, si_SellPrice = 25\<rparr>,
      \<lparr>si_NameID = 909, si_Price = 65538, si_SellPrice = 10\<rparr>]\<rparr>]"

lemma demo_catalog_simps [simp]:
  "\<exists>shop. catalog_Get demo_catalog ''Tool Shop'' = Some shop \<and>
     FindBuy shop 501 = Some \<lparr>si_NameID = 501, si_Price = 50, si_SellPrice = 25\<rparr> \<and>
     FindBuy shop 909 = Some \<lparr>si_NameID = 909, si_Price = 65538, si_SellPrice = 10\<rparr>"
  by (simp add: demo_catalog_def NewCatalogRegistry_def catalog_Get_def FindBuy_def)

lemma demo_game_balances [simp]:
  "db_balance demo_game 1 = Some 100" "db_balance demo_game 2 = Some 2147483647"
  using demo_econ_balances by (simp_all add: db_balance_def)

text \<open>
  Remark. Buying. For a listed item whose full price \<open>price * n\<close> fits in an int32, the purchase
  succeeds exactly when the balance covers it; then the balance drops by exactly that, the buyer
  gets one row with exactly \<open>n\<close> units, and no other balance or count moves. Otherwise the call
  fails and nothing changes.
\<close>

theorem buy_exact:
  assumes wf: "ir_wf (db_items s)" "cr_wf (db_chars s)" "c \<noteq> 0" "0 < ir_room (db_items s)"
    and n: "0 < n" and listed: "catalog_Get cat sn = Some shop" "FindBuy shop m = Some it"
    and price: "0 < si_Price it" "si_Price it * n < 2 ^ 31"
  shows "if pays (db_balance s c) (si_Price it * n)
    then \<exists>row s'. Buy cat db_item_port mem_shop_econ c sn m n s = (Inr row, s') \<and>
      (\<forall>j. db_balance s' j = (if j = c then map_option (\<lambda>b. b - si_Price it * n) (db_balance s j) else db_balance s j)) \<and>
      it_CharID row = c \<and> it_NameID row = m \<and> uint (it_Amount row) = n \<and>
      (\<forall>c' k. db_held s' c' k = db_held s c' k + (if c' = c \<and> k = m then n else 0))
    else \<exists>e. Buy cat db_item_port mem_shop_econ c sn m n s = (Inl e, s)"
proof -
  have "n \<le> si_Price it * n"
    using n price(1) by simp
  then have n32: "n < 2 ^ 31"
    using price(2) by linarith
  have pos: "0 < si_Price it * n"
    using n price(1) by simp
  have t: "i32 (si_Price it * i32 n) = si_Price it * n"
    using n n32 pos price(2) by (simp add: i32_id in_i32_def)
  show ?thesis
    using db_market.buy_spec [OF wf n _ listed t [symmetric]] n32 pos wf(1)
    unfolding mem_shop_econ_purse by (cases "pays (db_balance s c) (si_Price it * n)") (fastforce simp: db_held_eq)+
qed

theorem buy_exact_witness:
  "\<exists>row s'. Buy demo_catalog db_item_port mem_shop_econ 1 ''Tool Shop'' 501 2 demo_game = (Inr row, s') \<and>
     db_balance s' 1 = Some 0 \<and> uint (it_Amount row) = 2"
proof -
  obtain shop where sh: "catalog_Get demo_catalog ''Tool Shop'' = Some shop"
      "FindBuy shop 501 = Some \<lparr>si_NameID = 501, si_Price = 50, si_SellPrice = 25\<rparr>"
    using demo_catalog_simps by blast
  have p: "pays (db_balance demo_game 1) (si_Price \<lparr>si_NameID = 501, si_Price = 50, si_SellPrice = 25\<rparr> * 2)"
    by simp
  show ?thesis
    using buy_exact [OF _ _ _ _ _ sh, of demo_game 1 2] unfolding if_P [OF p] by auto
qed

text \<open>
  Remark. The charge is an int32 product that wraps: whenever \<open>price * n\<close> leaves the int32 range and its
  wrapped value is positive and affordable, the purchase succeeds for the wrapped value, which is
  less than the price, and still delivers all \<open>n\<close> units.
\<close>

theorem buy_overflow_underpays:
  assumes wf: "ir_wf (db_items s)" "cr_wf (db_chars s)" "c \<noteq> 0" "0 < ir_room (db_items s)"
    and n: "0 < n" "n < 2 ^ 31" and listed: "catalog_Get cat sn = Some shop" "FindBuy shop m = Some it"
    and price: "2 ^ 31 \<le> si_Price it * n" "0 < i32 (si_Price it * n)" "pays (db_balance s c) (i32 (si_Price it * n))"
  shows "i32 (si_Price it * n) < si_Price it * n \<and>
    (\<exists>row s'. Buy cat db_item_port mem_shop_econ c sn m n s = (Inr row, s') \<and>
      db_balance s' c = map_option (\<lambda>b. b - i32 (si_Price it * n)) (db_balance s c) \<and>
      db_held s' c m = db_held s c m + n)"
proof -
  have "i32 n = n"
    using n by (simp add: i32_id in_i32_def)
  moreover have "i32 (si_Price it * n) < 2 ^ 31"
    using in_i32_i32 [of "si_Price it * n"] by (simp add: in_i32_def)
  ultimately show ?thesis
    using db_market.buy_spec [OF wf n(1) _ listed refl] n(2) price wf(1)
    unfolding mem_shop_econ_purse by (fastforce simp: db_held_eq)
qed

theorem buy_overflow_underpays_witness:
  "\<exists>row s'. Buy demo_catalog db_item_port mem_shop_econ 2 ''Tool Shop'' 909 65535 demo_game = (Inr row, s') \<and>
     db_balance s' 2 = Some (2147483647 - 65534) \<and> db_held s' 2 909 = db_held demo_game 2 909 + 65535"
proof -
  obtain shop where sh: "catalog_Get demo_catalog ''Tool Shop'' = Some shop"
      "FindBuy shop 909 = Some \<lparr>si_NameID = 909, si_Price = 65538, si_SellPrice = 10\<rparr>"
    using demo_catalog_simps by blast
  have "i32 (65538 * 65535) = 65534"
    by code_simp
  then show ?thesis
    using buy_overflow_underpays [OF _ _ _ _ _ _ sh, of demo_game 2 65535] by simp
qed

text \<open>
  Remark. Selling removes the item before it pays: when the credit is refused (balance cap, or a
  product that wraps to zero or below), the call fails, the balance is unchanged and the units
  sold are gone; otherwise exactly the units are removed and exactly the int32 product is paid.
\<close>

theorem sell_takes_before_paying:
  assumes wf: "ir_wf (db_items s)" "cr_wf (db_chars s)" "c \<noteq> 0"
    and row: "bag_rows s i = Some it" "it_CharID it = c" "it_NameID it = m"
    and n: "0 < n" "n \<le> uint (it_Amount it)"
  shows "\<exists>r s'. Sell db_item_port mem_shop_econ c i n p s = (r, s') \<and>
    db_held s' c m = db_held s c m - n \<and>
    (if 0 < i32 (p * i32 n) \<and> accepts (db_balance s c) (i32 (p * i32 n))
     then r = Inr () \<and> db_balance s' c = map_option (\<lambda>b. b + i32 (p * i32 n)) (db_balance s c)
     else (\<exists>e. r = Inl e) \<and> db_balance s' = db_balance s)"
proof -
  obtain r s' where r: "Sell db_item_port mem_shop_econ c i n p s = (r, s')" "ir_wf (db_items s')"
      "db_bag.held s' c m = db_bag.held s c m - n"
      "if 0 < i32 (p * i32 n) \<and> accepts (db_balance s c) (i32 (p * i32 n))
       then r = Inr () \<and> db_balance s' = (db_balance s)(c := map_option (\<lambda>b. b + i32 (p * i32 n)) (db_balance s c))
       else (\<exists>e. r = Inl e) \<and> db_balance s' = db_balance s"
    using db_market.sell_spec [OF wf row n refl, of _ _ p] unfolding mem_shop_econ_purse by fastforce
  then show ?thesis
    using wf(1) by (intro exI [of _ r] exI [of _ s']) (auto simp: db_held_eq split: if_splits)
qed

theorem sell_takes_before_paying_witness:
  "\<exists>r s'. Sell db_item_port mem_shop_econ 150001 1 10 25 demo_game = (r, s') \<and>
     db_held s' 150001 501 = 0 \<and> (\<exists>e. r = Inl e)"
proof -
  have "db_balance demo_game 150001 = None"
    by (simp add: db_balance_def demo_econ_def)
  moreover have "bag_rows demo_game 1 = Some
      (zero_item\<lparr>it_ID := 1, it_CharID := 150001, it_NameID := 501, it_Amount := 10\<rparr>)"
    by (simp add: demo_bag_def)
  ultimately show ?thesis
    using sell_takes_before_paying [of demo_game 150001 1 _ 501 10 25] by fastforce
qed

end
