(* ===== verification/Trade.thy ===== *)
theory Trade
  imports Shop World
begin

text \<open>
  Player-to-player trade: \<open>TradeService\<close> (\<open>world/app/trade.go\<close>). The state is the session map,
  which the service's mutex guards, and the store behind the inventory and economy ports; each
  method is one atomic step. The locale \<open>trader\<close> states what the service relies on, and inside
  it the conclude swap is shown to exchange both offers exactly or to roll everything back. The
  exception, a credit that lands on the balance cap, is a property of its own.
\<close>

declare map_of_eq_Some_iff [simp del]

section \<open>Sessions and ports\<close>

datatype trade_phase = StatePending | StateActive

record offered_item =
  of_itemID :: u32
  of_nameID :: u32
  of_amount :: u32

record trade_session =
  ts_partner :: u32
  ts_accountID :: u32
  ts_state :: trade_phase
  ts_offered :: "offered_item list"
  ts_zeny :: int
  ts_locked :: bool

type_synonym trade_sessions = "u32 \<rightharpoonup> trade_session"

text \<open>The part of \<open>TradeEconPort\<close> the service calls.\<close>

record 's trade_econ =
  te_GetZeny :: "u32 \<Rightarrow> 's \<Rightarrow> (int, 's) out"
  te_DeductZenyWithPeer :: "u32 \<Rightarrow> int \<Rightarrow> u32 \<Rightarrow> 's \<Rightarrow> (unit, 's) out"
  te_CreditZenyWithPeer :: "u32 \<Rightarrow> int \<Rightarrow> u32 \<Rightarrow> 's \<Rightarrow> (unit, 's) out"

record 's trade_service =
  tv_inv :: "'s item_port"
  tv_econ :: "'s trade_econ"

record 's trade_state =
  td_sessions :: trade_sessions
  td_db :: 's

record add_item_result =
  ar_Index :: u16
  ar_Zeny :: int
  ar_Item :: "item option"
  ar_IsZeny :: bool

definition NewTradeService :: trade_sessions where
  "NewTradeService = Map.empty"

definition pending_session :: "u32 \<Rightarrow> u32 \<Rightarrow> trade_session" where
  "pending_session partner account = \<lparr>ts_partner = partner, ts_accountID = account, ts_state = StatePending,
     ts_offered = [], ts_zeny = 0, ts_locked = False\<rparr>"

section \<open>The handshake\<close>

definition pcEntity :: "world \<Rightarrow> u32 \<Rightarrow> entity res" where
  "pcEntity w i =
     (case w_Get i w of
        Inl _ \<Rightarrow> Inl ErrTradeTargetOffline
      | Inr e \<Rightarrow> if en_Type e \<noteq> EntityTypePC then Inl ErrTradeTargetOffline else Inr e)"

definition trade_Request :: "world \<Rightarrow> u32 \<Rightarrow> u32 \<Rightarrow> trade_sessions \<Rightarrow> (unit, trade_sessions) out" where
  "trade_Request w requester target m =
     (if requester = target then (Inl ErrTradeSelf, m)
      else if m requester \<noteq> None then (Inl ErrTradeAlreadyTrading, m)
      else if m target \<noteq> None then (Inl ErrTradeAlreadyTrading, m)
      else case pcEntity w requester of
        Inl e \<Rightarrow> (Inl e, m)
      | Inr req \<Rightarrow>
          case pcEntity w target of
            Inl _ \<Rightarrow> (Inl ErrTradeTargetOffline, m)
          | Inr tgt \<Rightarrow>
              if en_Map req \<noteq> en_Map tgt then (Inl ErrTradeDifferentMap, m)
              else (Inr (), m(requester \<mapsto> pending_session target (en_Account req),
                              target \<mapsto> pending_session requester (en_Account tgt))))"

definition trade_Ack :: "u32 \<Rightarrow> bool \<Rightarrow> trade_sessions \<Rightarrow> (unit, trade_sessions) out" where
  "trade_Ack c accept m =
     (case m c of
        None \<Rightarrow> (Inl ErrTradeNotActive, m)
      | Some sess \<Rightarrow>
          if ts_state sess \<noteq> StatePending then (Inl ErrTradeNotActive, m)
          else case m (ts_partner sess) of
            None \<Rightarrow> (Inl ErrTradeNotActive, m(c := None))
          | Some partner \<Rightarrow>
              if \<not> accept then (Inr (), m(c := None, ts_partner sess := None))
              else (Inr (), m(c \<mapsto> sess\<lparr>ts_state := StateActive\<rparr>,
                              ts_partner sess \<mapsto> partner\<lparr>ts_state := StateActive\<rparr>)))"

definition trade_Cancel :: "u32 \<Rightarrow> trade_sessions \<Rightarrow> trade_sessions" where
  "trade_Cancel c m = (case m c of None \<Rightarrow> m | Some sess \<Rightarrow> m(c := None, ts_partner sess := None))"

definition trade_Partner :: "u32 \<Rightarrow> trade_sessions \<Rightarrow> u32 option" where
  "trade_Partner c m = map_option ts_partner (m c)"

definition cancelBoth :: "u32 \<Rightarrow> u32 \<Rightarrow> trade_sessions \<Rightarrow> trade_sessions" where
  "cancelBoth a b m = m(a := None, b := None)"

section \<open>Staging an offer\<close>

definition stageZeny :: "'s trade_service \<Rightarrow> u32 \<Rightarrow> int \<Rightarrow> trade_session \<Rightarrow> 's trade_state \<Rightarrow> (add_item_result, 's trade_state) out" where
  "stageZeny T c amount sess d =
     (let want = i32 amount
      in case te_GetZeny (tv_econ T) c (td_db d) of
           (Inl e, s) \<Rightarrow> (Inl e, d\<lparr>td_db := s\<rparr>)
         | (Inr bal, s) \<Rightarrow>
             if want > bal then (Inl ErrTradeItemInsufficient, d\<lparr>td_db := s\<rparr>)
             else (Inr \<lparr>ar_Index = 0, ar_Zeny = want, ar_Item = None, ar_IsZeny = True\<rparr>,
                   d\<lparr>td_sessions := (td_sessions d)(c \<mapsto> sess\<lparr>ts_zeny := want\<rparr>), td_db := s\<rparr>))"

fun staged_of :: "u32 \<Rightarrow> offered_item list \<Rightarrow> u32 \<Rightarrow> u32" where
  "staged_of i [] staged = staged"
| "staged_of i (o' # os) staged = staged_of i os (if of_itemID o' = i then staged + of_amount o' else staged)"

definition stageItem ::
  "'s trade_service \<Rightarrow> u32 \<Rightarrow> int \<Rightarrow> int \<Rightarrow> int \<Rightarrow> trade_session \<Rightarrow> 's trade_state \<Rightarrow> (add_item_result, 's trade_state) out" where
  "stageItem T c serverRow clientIndex amount sess d =
     (case ip_LoadByChar (tv_inv T) (ts_accountID sess) c (td_db d) of
        (Inl e, s) \<Rightarrow> (Inl e, d\<lparr>td_db := s\<rparr>)
      | (Inr items, s) \<Rightarrow>
          if serverRow \<ge> int (length items) then (Inl ErrTradeItemOutOfRange, d\<lparr>td_db := s\<rparr>)
          else let it = items ! nat serverRow
            in if IsEquipped it then (Inl ErrTradeItemEquipped, d\<lparr>td_db := s\<rparr>)
            else let staged = staged_of (it_ID it) (ts_offered sess) 0; want = word_of_int amount
              in if staged + want > it_Amount it then (Inl ErrTradeItemInsufficient, d\<lparr>td_db := s\<rparr>)
              else (Inr \<lparr>ar_Index = word_of_int clientIndex, ar_Zeny = 0, ar_Item = Some it, ar_IsZeny = False\<rparr>,
                d\<lparr>td_sessions := (td_sessions d)(c \<mapsto> sess\<lparr>ts_offered := ts_offered sess @
                     [\<lparr>of_itemID = it_ID it, of_nameID = it_NameID it, of_amount = want\<rparr>]\<rparr>), td_db := s\<rparr>))"

definition trade_AddItem ::
  "'s trade_service \<Rightarrow> u32 \<Rightarrow> int \<Rightarrow> int \<Rightarrow> int \<Rightarrow> 's trade_state \<Rightarrow> (add_item_result, 's trade_state) out" where
  "trade_AddItem T c serverRow clientIndex amount d =
     (if serverRow < 0 \<or> amount \<le> 0 then (Inl ErrTradeItemInsufficient, d)
      else case td_sessions d c of
        None \<Rightarrow> (Inl ErrTradeNotActive, d)
      | Some sess \<Rightarrow>
          if ts_state sess \<noteq> StateActive then (Inl ErrTradeNotActive, d)
          else if ts_locked sess then (Inl ErrTradeLocked, d)
          else stageItem T c serverRow clientIndex amount sess d)"

definition trade_AddZeny :: "'s trade_service \<Rightarrow> u32 \<Rightarrow> int \<Rightarrow> 's trade_state \<Rightarrow> (add_item_result, 's trade_state) out" where
  "trade_AddZeny T c amount d =
     (if amount \<le> 0 then (Inl ErrTradeItemInsufficient, d)
      else case td_sessions d c of
        None \<Rightarrow> (Inl ErrTradeNotActive, d)
      | Some sess \<Rightarrow>
          if ts_state sess \<noteq> StateActive then (Inl ErrTradeNotActive, d)
          else if ts_locked sess then (Inl ErrTradeLocked, d)
          else stageZeny T c amount sess d)"

section \<open>The conclude swap\<close>

definition short_offer :: "item list \<Rightarrow> offered_item \<Rightarrow> bool" where
  "short_offer items o' =
     (case map_of (rev (map (\<lambda>it. (it_ID it, it_Amount it)) items)) (of_itemID o') of
        None \<Rightarrow> 0 < of_amount o' | Some n \<Rightarrow> n < of_amount o')"

definition verifySide :: "'s trade_service \<Rightarrow> u32 \<Rightarrow> trade_session \<Rightarrow> 's \<Rightarrow> (unit, 's) out" where
  "verifySide T c sess s =
     and_then
       (if ts_zeny sess \<noteq> 0
        then case te_GetZeny (tv_econ T) c s of
               (Inl e, s) \<Rightarrow> (Inl (Joined ErrTradeConcludeFailed e), s)
             | (Inr bal, s) \<Rightarrow> if bal < ts_zeny sess then (Inl ErrTradeConcludeFailed, s) else (Inr (), s)
        else (Inr (), s))
       (\<lambda>_ s. if ts_offered sess = [] then (Inr (), s)
          else case ip_LoadByChar (tv_inv T) (ts_accountID sess) c s of
                 (Inl e, s) \<Rightarrow> (Inl (Joined ErrTradeConcludeFailed e), s)
               | (Inr items, s) \<Rightarrow>
                   if list_ex (short_offer items) (ts_offered sess) then (Inl ErrTradeConcludeFailed, s)
                   else (Inr (), s))"

text \<open>
  The undo stack: the compensating closures, in the order they were pushed; \<open>apply\<close> runs them
  backwards and drops their errors. The swap's steps thread it with the store.
\<close>

type_synonym 's undos = "('s \<Rightarrow> 's) list"

definition undo_apply :: "'s undos \<Rightarrow> 's \<Rightarrow> 's" where
  "undo_apply us s = foldl (\<lambda>s u. u s) s (rev us)"

fun removeOffered :: "'s trade_service \<Rightarrow> u32 \<Rightarrow> offered_item list \<Rightarrow> 's undos \<times> 's \<Rightarrow> (unit, 's undos \<times> 's) out" where
  "removeOffered T c [] (us, s) = (Inr (), us, s)"
| "removeOffered T c (o' # os) (us, s) =
     (case ip_Remove (tv_inv T) (of_itemID o') (uint (of_amount o')) s of
        (Inl e, s) \<Rightarrow> (Inl e, us, s)
      | (Inr _, s) \<Rightarrow> removeOffered T c os
          (us @ [\<lambda>s. snd (ip_Add (tv_inv T) c (of_nameID o') (uint (of_amount o')) s)], s))"

fun grantOffered :: "'s trade_service \<Rightarrow> u32 \<Rightarrow> offered_item list \<Rightarrow> 's undos \<times> 's \<Rightarrow> (unit, 's undos \<times> 's) out" where
  "grantOffered T c [] (us, s) = (Inr (), us, s)"
| "grantOffered T c (o' # os) (us, s) =
     (case ip_Add (tv_inv T) c (of_nameID o') (uint (of_amount o')) s of
        (Inl e, s) \<Rightarrow> (Inl e, us, s)
      | (Inr added, s) \<Rightarrow> grantOffered T c os
          (us @ [\<lambda>s. snd (ip_Remove (tv_inv T) (it_ID added) (uint (of_amount o')) s)], s))"

definition moveZeny :: "'s trade_service \<Rightarrow> u32 \<Rightarrow> int \<Rightarrow> u32 \<Rightarrow> 's undos \<times> 's \<Rightarrow> (unit, 's undos \<times> 's) out" where
  "moveZeny T from amount to = (\<lambda>(us, s).
     if amount = 0 then (Inr (), us, s)
     else case te_DeductZenyWithPeer (tv_econ T) from amount to s of
       (Inl e, s) \<Rightarrow> (Inl e, us, s)
     | (Inr _, s) \<Rightarrow>
         let us = us @ [\<lambda>s. snd (te_CreditZenyWithPeer (tv_econ T) from amount to s)]
         in case te_CreditZenyWithPeer (tv_econ T) to amount from s of
              (Inl e, s) \<Rightarrow> (Inl e, us, s)
            | (Inr _, s) \<Rightarrow> (Inr (), us @ [\<lambda>s. snd (te_DeductZenyWithPeer (tv_econ T) to amount from s)], s))"

definition swap_steps ::
  "'s trade_service \<Rightarrow> u32 \<Rightarrow> trade_session \<Rightarrow> u32 \<Rightarrow> trade_session \<Rightarrow> 's undos \<times> 's \<Rightarrow> (unit, 's undos \<times> 's) out" where
  "swap_steps T a sa b sb p =
     and_then (removeOffered T a (ts_offered sa) p) (\<lambda>_ p.
     and_then (removeOffered T b (ts_offered sb) p) (\<lambda>_ p.
     and_then (grantOffered T b (ts_offered sa) p) (\<lambda>_ p.
     and_then (grantOffered T a (ts_offered sb) p) (\<lambda>_ p.
     and_then (moveZeny T a (ts_zeny sa) b p) (\<lambda>_ p.
       moveZeny T b (ts_zeny sb) a p)))))"

definition trade_swap ::
  "'s trade_service \<Rightarrow> u32 \<Rightarrow> trade_session \<Rightarrow> u32 \<Rightarrow> trade_session \<Rightarrow> 's \<Rightarrow> (unit, 's) out" where
  "trade_swap T a sa b sb s =
     (case swap_steps T a sa b sb ([], s) of
        (Inl e, us, s) \<Rightarrow> (Inl (Joined ErrTradeConcludeFailed e), undo_apply us s)
      | (Inr _, us, s) \<Rightarrow> (Inr (), s))"

definition trade_conclude ::
  "'s trade_service \<Rightarrow> u32 \<Rightarrow> trade_session \<Rightarrow> u32 \<Rightarrow> trade_session \<Rightarrow> 's trade_state \<Rightarrow> (unit, 's trade_state) out" where
  "trade_conclude T a sa b sb d =
     (case and_then (verifySide T a sa (td_db d)) (\<lambda>_ s.
             and_then (verifySide T b sb s) (\<lambda>_ s. trade_swap T a sa b sb s)) of
        (r, s) \<Rightarrow> (r, \<lparr>td_sessions = cancelBoth a b (td_sessions d), td_db = s\<rparr>))"

definition trade_OK :: "'s trade_service \<Rightarrow> u32 \<Rightarrow> 's trade_state \<Rightarrow> (bool, 's trade_state) out" where
  "trade_OK T c d =
     (case td_sessions d c of
        None \<Rightarrow> (Inl ErrTradeNotActive, d)
      | Some sess \<Rightarrow>
          if ts_state sess \<noteq> StateActive then (Inl ErrTradeNotActive, d)
          else case td_sessions d (ts_partner sess) of
            None \<Rightarrow> (Inl ErrTradeNotActive, d\<lparr>td_sessions := (td_sessions d)(c := None)\<rparr>)
          | Some partner \<Rightarrow>
              if ts_locked sess then (Inr (ts_locked partner), d)
              else
                let sess = sess\<lparr>ts_locked := True\<rparr>;
                    d = d\<lparr>td_sessions := (td_sessions d)(c \<mapsto> sess)\<rparr>;
                    partner = the (td_sessions d (ts_partner sess))
                in if \<not> ts_locked partner then (Inr False, d)
                   else and_then (trade_conclude T c sess (ts_partner sess) partner d) (\<lambda>_ d. (Inr True, d)))"

section \<open>Sessions come in pairs\<close>

text \<open>
  The invariant of the session map: partners point at each other and share the phase, only an
  active side is locked or has an offer, and never both sides are locked (locking the second one
  concludes).
\<close>

definition sessions_wf :: "trade_sessions \<Rightarrow> bool" where
  "sessions_wf m \<longleftrightarrow> (\<forall>c se. m c = Some se \<longrightarrow> ts_partner se \<noteq> c \<and>
     (\<exists>pa. m (ts_partner se) = Some pa \<and> ts_partner pa = c \<and> ts_state pa = ts_state se \<and>
       \<not> (ts_locked pa \<and> ts_locked se)) \<and>
     (ts_state se = StatePending \<longrightarrow> \<not> ts_locked se \<and> ts_offered se = [] \<and> ts_zeny se = 0))"

lemma sessions_wfD:
  assumes "sessions_wf m" and "m c = Some se"
  shows "ts_partner se \<noteq> c" and "\<exists>pa. m (ts_partner se) = Some pa \<and> ts_partner pa = c \<and>
    ts_state pa = ts_state se \<and> \<not> (ts_locked pa \<and> ts_locked se)"
    and "ts_state se = StatePending \<Longrightarrow> \<not> ts_locked se \<and> ts_offered se = [] \<and> ts_zeny se = 0"
  using assms unfolding sessions_wf_def by blast+

lemma sessions_wf_drop:
  assumes "sessions_wf m" and "m c = Some se"
  shows "sessions_wf (m(c := None, ts_partner se := None))"
  unfolding sessions_wf_def
proof (intro allI impI)
  fix i x
  assume "(m(c := None, ts_partner se := None)) i = Some x"
  then have i: "i \<noteq> c" "i \<noteq> ts_partner se" "m i = Some x"
    by (auto split: if_splits)
  obtain pa where pa: "m (ts_partner x) = Some pa" "ts_partner pa = i"
    using sessions_wfD(2) [OF assms(1) i(3)] by blast
  have "ts_partner x \<noteq> c" "ts_partner x \<noteq> ts_partner se"
    using pa i sessions_wfD(2) [OF assms] assms(2) by auto
  then show "ts_partner x \<noteq> i \<and>
      (\<exists>pa. (m(c := None, ts_partner se := None)) (ts_partner x) = Some pa \<and> ts_partner pa = i \<and>
        ts_state pa = ts_state x \<and> \<not> (ts_locked pa \<and> ts_locked x)) \<and>
      (ts_state x = StatePending \<longrightarrow> \<not> ts_locked x \<and> ts_offered x = [] \<and> ts_zeny x = 0)"
    using sessions_wfD [OF assms(1) i(3)] by auto
qed

lemma sessions_wf_set:
  assumes wf: "sessions_wf m" and c: "m c = Some se" and act: "ts_state se = StateActive"
    and se': "ts_partner se' = ts_partner se" "ts_state se' = StateActive"
    and lock: "\<And>pa. m (ts_partner se) = Some pa \<Longrightarrow> \<not> (ts_locked pa \<and> ts_locked se')"
  shows "sessions_wf (m(c \<mapsto> se'))"
  unfolding sessions_wf_def
proof (intro allI impI)
  fix i x
  assume x: "(m(c \<mapsto> se')) i = Some x"
  let ?goal = "ts_partner x \<noteq> i \<and> (\<exists>pa. (m(c \<mapsto> se')) (ts_partner x) = Some pa \<and> ts_partner pa = i \<and>
      ts_state pa = ts_state x \<and> \<not> (ts_locked pa \<and> ts_locked x)) \<and>
    (ts_state x = StatePending \<longrightarrow> \<not> ts_locked x \<and> ts_offered x = [] \<and> ts_zeny x = 0)"
  show ?goal
  proof (cases "i = c")
    case True
    with x show ?thesis
      using sessions_wfD(1,2) [OF wf c] lock act se' by auto
  next
    case False
    then have i: "m i = Some x"
      using x by simp
    show ?thesis
    proof (cases "ts_partner x = c")
      case True
      then have "ts_partner se = i" "ts_state x = StateActive"
        using sessions_wfD(2) [OF wf i] c act by auto
      then show ?thesis
        using True False i se' lock [of x] by auto
    next
      case other: False
      then show ?thesis
        using sessions_wfD [OF wf i] by auto
    qed
  qed
qed

lemma sessions_wf_request:
  assumes "sessions_wf m"
  shows "sessions_wf (snd (trade_Request w a b m))"
proof -
  have "sessions_wf (m(a \<mapsto> pending_session b x, b \<mapsto> pending_session a y))"
    if new: "a \<noteq> b" "m a = None" "m b = None" for x y
    unfolding sessions_wf_def
  proof (intro allI impI, goal_cases)
    case (1 i se)
    show ?case
    proof (cases "i = a \<or> i = b")
      case True
      then show ?thesis
        using 1 new by (auto simp: pending_session_def split: if_splits)
    next
      case False
      then have "m i = Some se"
        using 1 by simp
      moreover from this have "ts_partner se \<noteq> a" "ts_partner se \<noteq> b"
        using sessions_wfD(2) [OF assms] new by force+
      ultimately show ?thesis
        using sessions_wfD [OF assms] by auto
    qed
  qed
  then show ?thesis
    using assms by (auto simp: trade_Request_def split: sum.split)
qed

lemma sessions_wf_ack:
  assumes "sessions_wf m"
  shows "sessions_wf (snd (trade_Ack c accept m))"
proof (cases "m c")
  case None
  with assms show ?thesis by (simp add: trade_Ack_def)
next
  case (Some se)
  obtain pa where pa: "m (ts_partner se) = Some pa" "ts_partner pa = c" "ts_state pa = ts_state se"
    using sessions_wfD(2) [OF assms Some] by blast
  have ne: "ts_partner se \<noteq> c"
    using sessions_wfD(1) [OF assms Some] .
  have "sessions_wf (m(c \<mapsto> se\<lparr>ts_state := StateActive\<rparr>, ts_partner se \<mapsto> pa\<lparr>ts_state := StateActive\<rparr>))"
    if "ts_state se = StatePending"
    unfolding sessions_wf_def
  proof (intro allI impI, goal_cases)
    case (1 i x)
    have un: "\<not> ts_locked se" "\<not> ts_locked pa"
      using that sessions_wfD(3) [OF assms Some] sessions_wfD(3) [OF assms pa(1)] pa(3) by auto
    show ?case
    proof (cases "i = c \<or> i = ts_partner se")
      case True
      then show ?thesis
        using 1 pa ne un by (auto split: if_splits)
    next
      case False
      then have i: "m i = Some x"
        using 1 by simp
      moreover from this have "ts_partner x \<noteq> c" "ts_partner x \<noteq> ts_partner se"
        using sessions_wfD(2) [OF assms i] Some pa False by auto
      ultimately show ?thesis
        using sessions_wfD [OF assms] by auto
    qed
  qed
  then show ?thesis
    using Some pa assms sessions_wf_drop [OF assms Some] by (cases "ts_state se") (auto simp: trade_Ack_def)
qed

lemma sessions_wf_cancel: "sessions_wf m \<Longrightarrow> sessions_wf (trade_Cancel c m)"
  by (auto simp: trade_Cancel_def sessions_wf_drop split: option.split)

lemma sessions_wf_stage:
  assumes "sessions_wf (td_sessions d)"
  shows "sessions_wf (td_sessions (snd (trade_AddItem T c r k n d)))"
    and "sessions_wf (td_sessions (snd (trade_AddZeny T c n d)))"
proof -
  have set_: "sessions_wf ((td_sessions d)(c \<mapsto> se'))"
    if "td_sessions d c = Some se" "ts_state se = StateActive" "\<not> ts_locked se"
      "ts_partner se' = ts_partner se" "ts_state se' = StateActive" "\<not> ts_locked se'" for se se'
    using sessions_wf_set [OF assms that(1,2,4,5)] that(6) by blast
  show "sessions_wf (td_sessions (snd (trade_AddItem T c r k n d)))"
    by (auto simp: trade_AddItem_def stageItem_def Let_def assms set_ split: option.split sum.split prod.split)
  show "sessions_wf (td_sessions (snd (trade_AddZeny T c n d)))"
    by (auto simp: trade_AddZeny_def stageZeny_def Let_def assms set_ split: option.split sum.split prod.split)
qed

lemma snd_and_then: "snd (and_then r f) = (case r of (Inl e, s) \<Rightarrow> s | (Inr x, s) \<Rightarrow> snd (f x s))"
  by (cases "(r, f)" rule: and_then.cases) auto

lemma sessions_wf_OK:
  assumes "sessions_wf (td_sessions d)"
  shows "sessions_wf (td_sessions (snd (trade_OK T c d)))"
proof (cases "td_sessions d c")
  case None
  with assms show ?thesis by (simp add: trade_OK_def)
next
  case (Some se)
  obtain pa where pa: "td_sessions d (ts_partner se) = Some pa" "ts_partner pa = c" "ts_state pa = ts_state se"
    using sessions_wfD(2) [OF assms Some] by blast
  have ne: "ts_partner se \<noteq> c"
    using sessions_wfD(1) [OF assms Some] .
  show ?thesis
  proof (cases "ts_state se = StateActive \<and> \<not> ts_locked se")
    case False
    then show ?thesis
      using Some pa assms by (auto simp: trade_OK_def)
  next
    case True
    show ?thesis
    proof (cases "ts_locked pa")
      case False
      have "sessions_wf ((td_sessions d)(c \<mapsto> se\<lparr>ts_locked := True\<rparr>))"
        using sessions_wf_set [OF assms Some, of "se\<lparr>ts_locked := True\<rparr>"] True False pa(1) by auto
      then show ?thesis
        using Some True False pa ne by (simp add: trade_OK_def Let_def)
    next
      case locked: True
      have "sessions_wf (cancelBoth c (ts_partner se) ((td_sessions d)(c \<mapsto> x)))" for x
        using sessions_wf_drop [OF assms Some] by (simp add: cancelBoth_def fun_upd_twist [OF ne])
      then show ?thesis
        using Some True locked pa ne
        by (auto simp: trade_OK_def Let_def snd_and_then trade_conclude_def split: prod.split sum.split)
    qed
  qed
qed

text \<open>
  Every call of the service, and any change of the store by other services in between.
\<close>

inductive trade_step :: "'s trade_service \<Rightarrow> 's trade_state \<Rightarrow> 's trade_state \<Rightarrow> bool" for T where
  request: "trade_step T d (d\<lparr>td_sessions := snd (trade_Request w a b (td_sessions d))\<rparr>)"
| ack: "trade_step T d (d\<lparr>td_sessions := snd (trade_Ack c accept (td_sessions d))\<rparr>)"
| add_item: "trade_step T d (snd (trade_AddItem T c r k n d))"
| add_zeny: "trade_step T d (snd (trade_AddZeny T c n d))"
| ok: "trade_step T d (snd (trade_OK T c d))"
| cancel: "trade_step T d (d\<lparr>td_sessions := trade_Cancel c (td_sessions d)\<rparr>)"
| outside: "trade_step T d (d\<lparr>td_db := s\<rparr>)"

lemma trade_step_wf: "trade_step T d d' \<Longrightarrow> sessions_wf (td_sessions d) \<Longrightarrow> sessions_wf (td_sessions d')"
  by (induction rule: trade_step.induct)
    (simp_all add: sessions_wf_request sessions_wf_ack sessions_wf_stage sessions_wf_OK sessions_wf_cancel)

lemma trade_reachable_wf:
  "(trade_step T)\<^sup>*\<^sup>* \<lparr>td_sessions = NewTradeService, td_db = s\<rparr> d \<Longrightarrow> sessions_wf (td_sessions d)"
  by (induction rule: rtranclp_induct) (auto simp: NewTradeService_def sessions_wf_def [of Map.empty] dest: trade_step_wf)

section \<open>What the service relies on\<close>

definition peer_purse :: "'s trade_service \<Rightarrow> u32 \<Rightarrow> 's econ_port" where
  "peer_purse T p = \<lparr>ep_Deduct = (\<lambda>c n. te_DeductZenyWithPeer (tv_econ T) c n p),
     ep_Credit = (\<lambda>c n. te_CreditZenyWithPeer (tv_econ T) c n p)\<rparr>"

lemma peer_purse_simps [simp]:
  "ep_Deduct (peer_purse T p) c n = te_DeductZenyWithPeer (tv_econ T) c n p"
  "ep_Credit (peer_purse T p) c n = te_CreditZenyWithPeer (tv_econ T) c n p"
  by (simp_all add: peer_purse_def)

text \<open>Units of item \<open>m\<close> in an offer; an offer of \<open>c\<close> is honest when its rows are \<open>c\<close>'s and carry the recorded id.\<close>

definition offer_sum :: "u32 \<Rightarrow> offered_item list \<Rightarrow> int" where
  "offer_sum m os = sum_list (map (\<lambda>o'. if of_nameID o' = m then uint (of_amount o') else 0) os)"

lemma offer_sum_simps [simp]:
  "offer_sum m [] = 0"
  "offer_sum m (o' # os) = (if of_nameID o' = m then uint (of_amount o') else 0) + offer_sum m os"
  by (simp_all add: offer_sum_def)

definition honest :: "(u32 \<Rightarrow> item option) \<Rightarrow> u32 \<Rightarrow> offered_item list \<Rightarrow> bool" where
  "honest rows c os \<longleftrightarrow> (\<forall>o'\<in>set os. 0 < uint (of_amount o') \<and>
     (\<forall>it. rows (of_itemID o') = Some it \<longrightarrow> it_CharID it = c \<and> it_NameID it = of_nameID o'))"

text \<open>Rows may shrink or vanish, but keep owner and item id.\<close>

definition shrunk :: "(u32 \<Rightarrow> item option) \<Rightarrow> (u32 \<Rightarrow> item option) \<Rightarrow> bool" where
  "shrunk r r' \<longleftrightarrow> (\<forall>i it. r' i = Some it \<longrightarrow>
     (\<exists>it0. r i = Some it0 \<and> it_CharID it0 = it_CharID it \<and> it_NameID it0 = it_NameID it))"

lemma shrunk_refl [simp]: "shrunk r r"
  by (simp add: shrunk_def)

lemma shrunk_trans: "shrunk r r' \<Longrightarrow> shrunk r' r'' \<Longrightarrow> shrunk r r''"
  unfolding shrunk_def by metis

lemma honest_shrunk: "honest r c os \<Longrightarrow> shrunk r r' \<Longrightarrow> honest r' c os"
  unfolding honest_def shrunk_def by metis

lemma honest_Cons: "honest r c (o' # os) \<longleftrightarrow> honest r c [o'] \<and> honest r c os"
  by (auto simp: honest_def)

lemma undo_apply_simps [simp]:
  "undo_apply [] s = s" "undo_apply (us @ [u]) s = undo_apply us (u s)"
  by (simp_all add: undo_apply_def)

locale trader =
  fixes T :: "'s trade_service"
    and bal :: "'s \<Rightarrow> u32 \<Rightarrow> int option"
    and pinv :: "'s \<Rightarrow> bool"
    and rows :: "'s \<Rightarrow> u32 \<Rightarrow> item option"
    and inv :: "'s \<Rightarrow> bool"
    and room :: "'s \<Rightarrow> nat"
  assumes side: "market (peer_purse T p) bal pinv (tv_inv T) rows inv room"
    and bal_nonneg: "bal s c = Some b \<Longrightarrow> 0 \<le> b"
    and zeny_pure: "snd (te_GetZeny (tv_econ T) c s) = s"
    and zeny_known: "pinv s \<Longrightarrow> c \<noteq> 0 \<Longrightarrow> bal s c = Some b \<Longrightarrow> b < 2 ^ 31 \<Longrightarrow>
      te_GetZeny (tv_econ T) c s = (Inr b, s)"

sublocale trader \<subseteq> mk: market "peer_purse T p" bal pinv "tv_inv T" rows inv room for p
  by (rule side)

context trader
begin

abbreviation held :: "'s \<Rightarrow> u32 \<Rightarrow> u32 \<Rightarrow> int" where
  "held \<equiv> mk.held"

text \<open>
  \<open>t\<close> looks like \<open>s\<close>: same counts, balances and the same rows in \<open>G\<close> (the granted ones). A stack
  of undos restores \<open>H\<close> and \<open>B\<close> from every state that looks like the current one.
\<close>

definition like :: "u32 set \<Rightarrow> 's \<Rightarrow> 's \<Rightarrow> bool" where
  "like G s t \<longleftrightarrow> inv t \<and> pinv t \<and> held t = held s \<and> bal t = bal s \<and> (\<forall>g\<in>G. rows t g = rows s g)"

definition undoes :: "'s undos \<Rightarrow> (u32 \<Rightarrow> u32 \<Rightarrow> int) \<Rightarrow> (u32 \<Rightarrow> int option) \<Rightarrow> 's \<Rightarrow> u32 set \<Rightarrow> bool" where
  "undoes us H B s G \<longleftrightarrow> G \<subseteq> dom (rows s) \<and> (\<forall>t. like G s t \<and> length us \<le> room t \<longrightarrow>
     inv (undo_apply us t) \<and> pinv (undo_apply us t) \<and> held (undo_apply us t) = H \<and> bal (undo_apply us t) = B)"

lemma undoes_start: "undoes [] (held s) (bal s) s {}"
  by (simp add: undoes_def like_def)

lemma undoes_push:
  assumes "undoes us H B s G" and "G' \<subseteq> dom (rows s1)"
    and "\<And>t. like G' s1 t \<Longrightarrow> Suc (length us) \<le> room t \<Longrightarrow> like G s (u t) \<and> length us \<le> room (u t)"
  shows "undoes (us @ [u]) H B s1 G'"
  using assms unfolding undoes_def by auto

lemma undoes_now:
  assumes "undoes us H B s G" and "inv s" and "pinv s" and "length us \<le> room s"
  shows "held (undo_apply us s) = H" and "bal (undo_apply us s) = B"
    and "inv (undo_apply us s)" and "pinv (undo_apply us s)"
  using assms unfolding undoes_def like_def by auto

lemma push_remove:
  assumes u: "undoes us H B s {}" and inv: "inv s" "pinv s" and row: "rows s i = Some it"
    and n: "0 < n" and rem: "ip_Remove (tv_inv T) i n s = (Inr (), s1)"
  shows "undoes (us @ [\<lambda>s. snd (ip_Add (tv_inv T) (it_CharID it) (it_NameID it) n s)]) H B s1 {}"
    and "inv s1" and "pinv s1" and "bal s1 = bal s" and "room s1 = room s" and "shrunk (rows s) (rows s1)"
    and "held s1 c m = held s c m - (if c = it_CharID it \<and> m = it_NameID it then n else 0)"
proof -
  have n_le: "n \<le> uint (it_Amount it)"
    using mk.remove_short [OF row, of n] rem by (cases "n \<le> uint (it_Amount it)") auto
  have n_lt: "n < 2 ^ 32"
    using n_le uint_lt2p [of "it_Amount it"] by simp
  obtain s2 where "ip_Remove (tv_inv T) i n s = (Inr (), s2)" "inv s2" "room s2 = room s"
      "\<forall>c m. held s2 c m = held s c m - (if c = it_CharID it \<and> m = it_NameID it then n else 0)"
    using mk.held_remove [OF inv(1) row n n_le] by blast
  then show s1: "inv s1" "room s1 = room s"
    "\<And>c m. held s1 c m = held s c m - (if c = it_CharID it \<and> m = it_NameID it then n else 0)"
    using rem by auto
  show f: "bal s1 = bal s" "pinv s1"
    using mk.items_frame(2) [OF rem] inv(2) by auto
  have "rows s1 = (rows s)(i := (if n = uint (it_Amount it) then None
      else Some (it\<lparr>it_Amount := it_Amount it - word_of_int n\<rparr>)))"
    using mk.remove_ok [OF inv(1) row n n_le] rem by auto
  then show "shrunk (rows s) (rows s1)"
    using row by (auto simp: shrunk_def split: if_splits)
  show "undoes (us @ [\<lambda>s. snd (ip_Add (tv_inv T) (it_CharID it) (it_NameID it) n s)]) H B s1 {}"
  proof (rule undoes_push [OF u])
    fix t
    assume t: "like {} s1 t" "Suc (length us) \<le> room t"
    then have "inv t" "pinv t" "0 < room t"
      by (auto simp: like_def)
    then obtain jt t' where a: "ip_Add (tv_inv T) (it_CharID it) (it_NameID it) n t = (Inr jt, t')" "inv t'"
        "room t \<le> room t' + 1"
        "\<forall>c' m'. held t' c' m' = held t c' m' + (if c' = it_CharID it \<and> m' = it_NameID it then n else 0)"
      using mk.held_add [of t n "it_CharID it" "it_NameID it"] n n_lt by blast
    have "bal t' = bal t" "pinv t'"
      using mk.items_frame(1) [OF a(1)] \<open>pinv t\<close> by auto
    moreover have "held t' = held s"
      using a(4) t(1) s1(3) by (auto simp: like_def fun_eq_iff)
    ultimately show "like {} s (snd (ip_Add (tv_inv T) (it_CharID it) (it_NameID it) n t)) \<and>
        length us \<le> room (snd (ip_Add (tv_inv T) (it_CharID it) (it_NameID it) n t))"
      using a t f by (auto simp: like_def)
  qed simp
qed

lemma remove_all:
  assumes "undoes us H B s {}" and "inv s" "pinv s" and "honest (rows s) c os"
  shows "\<exists>r us' s'. removeOffered T c os (us, s) = (r, us', s') \<and> undoes us' H B s' {} \<and> inv s' \<and> pinv s' \<and>
    bal s' = bal s \<and> room s' = room s \<and> shrunk (rows s) (rows s') \<and> length us' \<le> length us + length os \<and>
    (r = Inr () \<longrightarrow> (\<forall>c' m. held s' c' m = held s c' m - (if c' = c then offer_sum m os else 0)))"
  using assms
proof (induction os arbitrary: us s)
  case Nil
  then show ?case by simp
next
  case (Cons o' os)
  let ?n = "uint (of_amount o')"
  have n: "0 < ?n" and hon: "honest (rows s) c os"
    using Cons.prems(4) by (auto simp: honest_def)
  show ?case
  proof (cases "ip_Remove (tv_inv T) (of_itemID o') ?n s")
    case (Pair r s1)
    show ?thesis
    proof (cases r)
      case (Inl e)
      have "s1 = s"
        using mk.remove_error_same [OF Cons.prems(2) n] Pair Inl by blast
      then show ?thesis
        using Pair Inl Cons.prems by simp
    next
      case (Inr x)
      obtain it where row: "rows s (of_itemID o') = Some it"
        using mk.remove_missing [of s "of_itemID o'" ?n] Pair Inr by (cases "rows s (of_itemID o')") auto
      have own: "it_CharID it = c" "it_NameID it = of_nameID o'"
        using Cons.prems(4) row by (auto simp: honest_def)
      have rem: "ip_Remove (tv_inv T) (of_itemID o') ?n s = (Inr (), s1)"
        using Pair Inr by simp
      note p = push_remove [OF Cons.prems(1,2,3) row n rem, unfolded own]
      obtain r' us' s' where IH: "removeOffered T c os
            (us @ [\<lambda>s. snd (ip_Add (tv_inv T) c (of_nameID o') ?n s)], s1) = (r', us', s')"
          "undoes us' H B s' {}" "inv s'" "pinv s'" "bal s' = bal s1" "room s' = room s1" "shrunk (rows s1) (rows s')"
          "length us' \<le> Suc (length us) + length os"
          "r' = Inr () \<longrightarrow> (\<forall>c' m. held s' c' m = held s1 c' m - (if c' = c then offer_sum m os else 0))"
        using Cons.IH [OF p(1-3) honest_shrunk [OF hon p(6)]] by auto
      have "shrunk (rows s) (rows s')"
        by (rule shrunk_trans [OF p(6) IH(7)])
      moreover have "r' = Inr () \<longrightarrow> (\<forall>c' m. held s' c' m = held s c' m - (if c' = c then offer_sum m (o' # os) else 0))"
        using IH(9) p(7) by auto
      ultimately show ?thesis
        using IH p(4,5) rem by simp
    qed
  qed
qed

lemma push_grant:
  assumes u: "undoes us H B s G" and inv: "inv s" "pinv s" and room: "0 < room s"
    and n: "0 < n" "n < 2 ^ 32"
  shows "\<exists>it s1. ip_Add (tv_inv T) c m n s = (Inr it, s1) \<and> inv s1 \<and> pinv s1 \<and> bal s1 = bal s \<and>
    room s \<le> room s1 + 1 \<and>
    undoes (us @ [\<lambda>s. snd (ip_Remove (tv_inv T) (it_ID it) n s)]) H B s1 (insert (it_ID it) G) \<and>
    (\<forall>c' m'. held s1 c' m' = held s c' m' + (if c' = c \<and> m' = m then n else 0))"
proof -
  obtain it s1 where a: "ip_Add (tv_inv T) c m n s = (Inr it, s1)" "inv s1" "room s \<le> room s1 + 1"
      "it_CharID it = c" "it_NameID it = m" "uint (it_Amount it) = n" "rows s (it_ID it) = None"
      "rows s1 = (rows s)(it_ID it \<mapsto> it)"
      "\<forall>c' m'. held s1 c' m' = held s c' m' + (if c' = c \<and> m' = m then n else 0)"
    using mk.held_add [OF inv(1) room n, of c m] by blast
  have f: "bal s1 = bal s" "pinv s1"
    using mk.items_frame(1) [OF a(1)] inv(2) by auto
  have G: "it_ID it \<notin> G" "insert (it_ID it) G \<subseteq> dom (rows s1)"
    using u a(7,8) by (auto simp: undoes_def)
  have "undoes (us @ [\<lambda>s. snd (ip_Remove (tv_inv T) (it_ID it) n s)]) H B s1 (insert (it_ID it) G)"
  proof (rule undoes_push [OF u G(2)])
    fix t
    assume t: "like (insert (it_ID it) G) s1 t" "Suc (length us) \<le> room t"
    then have row: "rows t (it_ID it) = Some it" "inv t" "pinv t"
      by (auto simp: like_def a(8))
    obtain t' where r: "ip_Remove (tv_inv T) (it_ID it) n t = (Inr (), t')" "inv t'" "room t' = room t"
        "\<forall>j. j \<noteq> it_ID it \<longrightarrow> rows t' j = rows t j"
        "\<forall>c' m'. held t' c' m' = held t c' m' - (if c' = c \<and> m' = m then n else 0)"
      using mk.held_remove [OF row(2,1) n(1), unfolded a(4,5,6)] by auto
    have "bal t' = bal t" "pinv t'"
      using mk.items_frame(2) [OF r(1)] row(3) by auto
    moreover have "held t' = held s"
      using r(5) t(1) a(9) by (auto simp: like_def fun_eq_iff)
    moreover have "rows t' g = rows s g" if "g \<in> G" for g
      using that r(4) t(1) G(1) by (cases "g = it_ID it") (auto simp: like_def a(8))
    ultimately show "like G s (snd (ip_Remove (tv_inv T) (it_ID it) n t)) \<and>
        length us \<le> room (snd (ip_Remove (tv_inv T) (it_ID it) n t))"
      using r t f by (auto simp: like_def)
  qed
  then show ?thesis
    using a f by blast
qed

lemma grant_all:
  assumes "undoes us H B s G" and "inv s" "pinv s" and "length os \<le> room s"
    and "\<forall>o'\<in>set os. 0 < uint (of_amount o')"
  shows "\<exists>us' s' G'. grantOffered T c os (us, s) = (Inr (), us', s') \<and> undoes us' H B s' G' \<and> inv s' \<and> pinv s' \<and>
    bal s' = bal s \<and> room s \<le> room s' + length os \<and> length us' = length us + length os \<and>
    (\<forall>c' m. held s' c' m = held s c' m + (if c' = c then offer_sum m os else 0))"
  using assms
proof (induction os arbitrary: us s G)
  case Nil
  then show ?case by auto
next
  case (Cons o' os)
  let ?n = "uint (of_amount o')"
  have n: "0 < ?n" "?n < 2 ^ 32"
    using Cons.prems(5) uint_lt2p [of "of_amount o'"] by auto
  have "0 < room s"
    using Cons.prems(4) by simp
  then obtain it s1 where a: "ip_Add (tv_inv T) c (of_nameID o') ?n s = (Inr it, s1)" "inv s1" "pinv s1"
      "bal s1 = bal s" "room s \<le> room s1 + 1"
      "undoes (us @ [\<lambda>s. snd (ip_Remove (tv_inv T) (it_ID it) ?n s)]) H B s1 (insert (it_ID it) G)"
      "\<forall>c' m'. held s1 c' m' = held s c' m' + (if c' = c \<and> m' = of_nameID o' then ?n else 0)"
    using push_grant [OF Cons.prems(1-3) _ n, of c "of_nameID o'"] by blast
  have "length os \<le> room s1"
    using a(5) Cons.prems(4) by simp
  then obtain us' s' G' where IH: "grantOffered T c os
        (us @ [\<lambda>s. snd (ip_Remove (tv_inv T) (it_ID it) ?n s)], s1) = (Inr (), us', s')"
      "undoes us' H B s' G'" "inv s'" "pinv s'" "bal s' = bal s1" "room s1 \<le> room s' + length os"
      "length us' = Suc (length us) + length os"
      "\<forall>c' m. held s' c' m = held s1 c' m + (if c' = c then offer_sum m os else 0)"
    using Cons.IH [OF a(6,2,3)] Cons.prems(5) by auto
  have "\<forall>c' m. held s' c' m = held s c' m + (if c' = c then offer_sum m (o' # os) else 0)"
    using IH(8) a(7) by simp
  moreover have "grantOffered T c (o' # os) (us, s) = (Inr (), us', s')"
    using IH(1) a(1) by simp
  ultimately show ?case
    using IH a(4,5) by (intro exI [of _ us'] exI [of _ s'] exI [of _ G']) simp
qed

text \<open>A purse operation, and the undo that takes it back.\<close>

lemma purse_same:
  assumes "rows t' = rows t \<and> (inv t \<longrightarrow> inv t') \<and> room t' = room t" and "pinv t'" and "bal t' = bal s"
    and "like G s1 t" and "rows s1 = rows s"
  shows "like G s t'"
  using assms mk.held_rows [of s1 s] mk.held_rows [of t' t] by (auto simp: like_def)

lemma push_pay:
  assumes u: "undoes us H B s G" and inv: "inv s" "pinv s" and c: "c \<noteq> 0" and n: "0 < n" "n < 2 ^ 31"
    and pay: "te_DeductZenyWithPeer (tv_econ T) c n p s = (Inr (), s1)"
  shows "undoes (us @ [\<lambda>s. snd (te_CreditZenyWithPeer (tv_econ T) c n p s)]) H B s1 G"
    and "inv s1" and "pinv s1" and "rows s1 = rows s" and "room s1 = room s"
    and "bal s1 = (bal s)(c := map_option (\<lambda>b. b - n) (bal s c))" and "pays (bal s c) n"
proof -
  show can: "pays (bal s c) n"
    using mk.pay_short [OF inv(2) c n(2), of p] pay by (cases "pays (bal s c) n") auto
  then show s1: "bal s1 = (bal s)(c := map_option (\<lambda>b. b - n) (bal s c))" "pinv s1"
    using mk.pay_ok [OF inv(2) c n can, of p] pay by auto
  show f: "inv s1" "rows s1 = rows s" "room s1 = room s"
    using mk.purse_frame(1) [of p c n s] pay inv(1) by auto
  show "undoes (us @ [\<lambda>s. snd (te_CreditZenyWithPeer (tv_econ T) c n p s)]) H B s1 G"
  proof (rule undoes_push [OF u])
    show "G \<subseteq> dom (rows s1)"
      using u f(2) by (auto simp: undoes_def)
    fix t
    assume t: "like G s1 t" "Suc (length us) \<le> room t"
    then have b: "bal t = bal s1" "pinv t"
      by (auto simp: like_def)
    have "accepts (bal t c) n"
      using can n unfolding b(1) s1(1) by (cases "bal s c") auto
    then obtain t' where g: "te_CreditZenyWithPeer (tv_econ T) c n p t = (Inr (), t')" "pinv t'"
        "bal t' = (bal t)(c := map_option (\<lambda>b. b + n) (bal t c))"
      using mk.gain_ok [OF b(2) c n(1), of p] by auto
    have fr: "rows t' = rows t \<and> (inv t \<longrightarrow> inv t') \<and> room t' = room t"
      using mk.purse_frame(2) [of p c n t] g(1) by simp
    have "bal t' = bal s"
      unfolding g(3) b(1) s1(1) by (cases "bal s c") (auto simp: fun_eq_iff)
    then have "like G s t'"
      using purse_same [OF fr g(2) _ t(1) f(2)] by simp
    then show "like G s (snd (te_CreditZenyWithPeer (tv_econ T) c n p t)) \<and>
        length us \<le> room (snd (te_CreditZenyWithPeer (tv_econ T) c n p t))"
      using g(1) fr t(2) by simp
  qed
qed

lemma push_gain:
  assumes u: "undoes us H B s G" and inv: "inv s" "pinv s" and c: "c \<noteq> 0" and n: "0 < n" "n < 2 ^ 31"
    and gain: "te_CreditZenyWithPeer (tv_econ T) c n p s = (Inr (), s1)"
  shows "inv s1" and "pinv s1" and "rows s1 = rows s" and "room s1 = room s"
    and "bal s1 = (bal s)(c := map_option (\<lambda>b. b + n) (bal s c))"
    and "bal s c \<noteq> Some (2 ^ 31 - n) \<Longrightarrow>
      undoes (us @ [\<lambda>s. snd (te_DeductZenyWithPeer (tv_econ T) c n p s)]) H B s1 G"
proof -
  have can: "accepts (bal s c) n"
    using mk.gain_refused [OF inv(2) c, of n p] gain by (cases "accepts (bal s c) n") auto
  then show s1: "bal s1 = (bal s)(c := map_option (\<lambda>b. b + n) (bal s c))" "pinv s1"
    using mk.gain_ok [OF inv(2) c n(1) can, of p] gain by auto
  show f: "inv s1" "rows s1 = rows s" "room s1 = room s"
    using mk.purse_frame(2) [of p c n s] gain inv(1) by auto
  assume cap: "bal s c \<noteq> Some (2 ^ 31 - n)"
  show "undoes (us @ [\<lambda>s. snd (te_DeductZenyWithPeer (tv_econ T) c n p s)]) H B s1 G"
  proof (rule undoes_push [OF u])
    show "G \<subseteq> dom (rows s1)"
      using u f(2) by (auto simp: undoes_def)
    fix t
    assume t: "like G s1 t" "Suc (length us) \<le> room t"
    then have b: "bal t = bal s1" "pinv t"
      by (auto simp: like_def)
    obtain x where "bal s c = Some x" "x + n < 2 ^ 31" "0 \<le> x"
      using can cap bal_nonneg [of s c] by (cases "bal s c") auto
    then have pay: "pays (bal t c) n"
      unfolding b(1) s1(1) by simp
    obtain t' where g: "te_DeductZenyWithPeer (tv_econ T) c n p t = (Inr (), t')" "pinv t'"
        "bal t' = (bal t)(c := map_option (\<lambda>b. b - n) (bal t c))"
      using mk.pay_ok [OF b(2) c n pay, of p] by auto
    have fr: "rows t' = rows t \<and> (inv t \<longrightarrow> inv t') \<and> room t' = room t"
      using mk.purse_frame(1) [of p c n t] g(1) by simp
    have "bal t' = bal s"
      unfolding g(3) b(1) s1(1) by (cases "bal s c") (auto simp: fun_eq_iff)
    then have "like G s t'"
      using purse_same [OF fr g(2) _ t(1) f(2)] by simp
    then show "like G s (snd (te_DeductZenyWithPeer (tv_econ T) c n p t)) \<and>
        length us \<le> room (snd (te_DeductZenyWithPeer (tv_econ T) c n p t))"
      using g(1) fr t(2) by simp
  qed
qed

text \<open>The balances after \<open>n\<close> zeny went from one character to another.\<close>

definition moved :: "(u32 \<Rightarrow> int option) \<Rightarrow> u32 \<Rightarrow> u32 \<Rightarrow> int \<Rightarrow> u32 \<Rightarrow> int option" where
  "moved B a b n = (\<lambda>c. map_option (\<lambda>x. x - (if c = a then n else 0) + (if c = b then n else 0)) (B c))"

lemma move_spec:
  assumes u: "undoes us H B s G" and inv: "inv s" "pinv s" and ids: "a \<noteq> b" "a \<noteq> 0" "b \<noteq> 0"
    and n: "0 \<le> n" "n < 2 ^ 31"
  shows "\<exists>r us' s'. moveZeny T a n b (us, s) = (r, us', s') \<and> inv s' \<and> pinv s' \<and> rows s' = rows s \<and>
    room s' = room s \<and> length us' \<le> length us + 2 \<and>
    (case r of Inr _ \<Rightarrow> bal s' = moved (bal s) a b n \<and> (0 < n \<and> bal s b = Some (2 ^ 31 - n) \<or> undoes us' H B s' G)
     | Inl _ \<Rightarrow> undoes us' H B s' G)"
proof (cases "n = 0")
  case True
  have "moved (bal s) a b 0 = bal s"
    by (auto simp: moved_def fun_eq_iff option.map_ident)
  with True u inv show ?thesis
    by (simp add: moveZeny_def)
next
  case False
  with n have pos: "0 < n"
    by simp
  show ?thesis
  proof (cases "te_DeductZenyWithPeer (tv_econ T) a n b s")
    case (Pair r s1)
    show ?thesis
    proof (cases r)
      case (Inl e)
      have "s1 = s"
        using mk.pay_ok [OF inv(2) ids(2) pos n(2), of b] mk.pay_short [OF inv(2) ids(2) n(2), of b] Pair Inl
        by (cases "pays (bal s a) n") auto
      with Inl Pair pos u inv show ?thesis
        by (simp add: moveZeny_def)
    next
      case (Inr x)
      then have pay: "te_DeductZenyWithPeer (tv_econ T) a n b s = (Inr (), s1)"
        using Pair by simp
      note p = push_pay [OF u inv ids(2) pos n(2) pay]
      show ?thesis
      proof (cases "te_CreditZenyWithPeer (tv_econ T) b n a s1")
        case (Pair r2 s2)
        show ?thesis
        proof (cases r2)
          case (Inl e)
          have "s2 = s1"
            using mk.gain_ok [OF p(3) ids(3) pos, of a] mk.gain_refused [OF p(3) ids(3), of n a] Pair Inl
            by (cases "accepts (bal s1 b) n") auto
          with Inl Pair pos pay p show ?thesis
            by (simp add: moveZeny_def)
        next
          case (Inr x)
          then have gain: "te_CreditZenyWithPeer (tv_econ T) b n a s1 = (Inr (), s2)"
            using Pair by simp
          note g = push_gain [OF p(1,2,3) ids(3) pos n(2) gain]
          have "bal s2 = moved (bal s) a b n"
            unfolding g(5) p(6) using ids(1) by (auto simp: moved_def fun_eq_iff option.map_ident option.map_comp o_def)
          moreover have "bal s1 b = bal s b"
            unfolding p(6) using ids(1) by simp
          ultimately show ?thesis
            using pos pay gain p(4,5) g by (auto simp: moveZeny_def)
        qed
      qed
    qed
  qed
qed

text \<open>The swap on both outcomes.\<close>

definition exchanged :: "(u32 \<Rightarrow> u32 \<Rightarrow> int) \<Rightarrow> (u32 \<Rightarrow> int option) \<Rightarrow> u32 \<Rightarrow> trade_session \<Rightarrow> u32 \<Rightarrow> trade_session \<Rightarrow>
    (u32 \<Rightarrow> u32 \<Rightarrow> int) \<Rightarrow> (u32 \<Rightarrow> int option) \<Rightarrow> bool" where
  "exchanged H B a sa b sb H' B' \<longleftrightarrow>
     (\<forall>c m. H' c m = H c m + (if c = a then offer_sum m (ts_offered sb) - offer_sum m (ts_offered sa)
        else if c = b then offer_sum m (ts_offered sa) - offer_sum m (ts_offered sb) else 0)) \<and>
     (\<forall>c. B' c = map_option (\<lambda>x. x + (if c = a then ts_zeny sb - ts_zeny sa
        else if c = b then ts_zeny sa - ts_zeny sb else 0)) (B c))"

definition rolled_back :: "('s \<Rightarrow> u32 \<Rightarrow> u32 \<Rightarrow> int) \<Rightarrow> 's \<Rightarrow> (unit, 's undos \<times> 's) out \<Rightarrow> bool" where
  "rolled_back h s p \<longleftrightarrow> (\<exists>e us s'. p = (Inl e, us, s') \<and> inv (undo_apply us s') \<and> pinv (undo_apply us s') \<and>
     h (undo_apply us s') = h s \<and> bal (undo_apply us s') = bal s)"

lemma rolled_backI:
  assumes "undoes us (held s) (bal s) s' G" and "inv s'" "pinv s'" and "length us \<le> room s'"
  shows "rolled_back held s (Inl e, us, s')"
  using undoes_now [OF assms] by (auto simp: rolled_back_def)

lemma swap_steps_spec:
  assumes inv: "inv s" "pinv s" and ids: "a \<noteq> b" "a \<noteq> 0" "b \<noteq> 0"
    and hon: "honest (rows s) a (ts_offered sa)" "honest (rows s) b (ts_offered sb)"
    and za: "0 \<le> ts_zeny sa" "ts_zeny sa < 2 ^ 31" and zb: "0 \<le> ts_zeny sb" "ts_zeny sb < 2 ^ 31"
    and room: "2 * (length (ts_offered sa) + length (ts_offered sb)) + 4 + length (ts_offered sa) + length (ts_offered sb) \<le> room s"
    and cap: "bal s b \<noteq> Some (2 ^ 31 - ts_zeny sa)"
  shows "rolled_back held s (swap_steps T a sa b sb ([], s)) \<or>
    (\<exists>us s'. swap_steps T a sa b sb ([], s) = (Inr (), us, s') \<and> inv s' \<and> pinv s' \<and>
      exchanged (held s) (bal s) a sa b sb (held s') (bal s'))"
proof -
  let ?A = "ts_offered sa" and ?B = "ts_offered sb"
  have amounts: "\<forall>o'\<in>set ?A. 0 < uint (of_amount o')" "\<forall>o'\<in>set ?B. 0 < uint (of_amount o')"
    using hon by (auto simp: honest_def)
  obtain r1 us1 s1 where s1: "removeOffered T a ?A ([], s) = (r1, us1, s1)" "undoes us1 (held s) (bal s) s1 {}"
      "inv s1" "pinv s1" "bal s1 = bal s" "room s1 = room s" "shrunk (rows s) (rows s1)" "length us1 \<le> length ?A"
      "r1 = Inr () \<longrightarrow> (\<forall>c m. held s1 c m = held s c m - (if c = a then offer_sum m ?A else 0))"
    using remove_all [OF undoes_start inv hon(1)] by auto
  show ?thesis
  proof (cases r1)
    case (Inl e)
    then show ?thesis
      using rolled_backI [OF s1(2,3,4)] s1(1,6,8) room by (simp add: swap_steps_def)
  next
    case r1: (Inr x1)
    obtain r2 us2 s2 where s2: "removeOffered T b ?B (us1, s1) = (r2, us2, s2)" "undoes us2 (held s) (bal s) s2 {}"
        "inv s2" "pinv s2" "bal s2 = bal s1" "room s2 = room s1" "length us2 \<le> length us1 + length ?B"
        "r2 = Inr () \<longrightarrow> (\<forall>c m. held s2 c m = held s1 c m - (if c = b then offer_sum m ?B else 0))"
      using remove_all [OF s1(2-4) honest_shrunk [OF hon(2) s1(7)]] by auto
    show ?thesis
    proof (cases r2)
      case (Inl e)
      then show ?thesis
        using rolled_backI [OF s2(2,3,4)] s1 r1 s2(1,6,7) room by (simp add: swap_steps_def)
    next
      case r2: (Inr x2)
      have "length ?A \<le> room s2"
        using room s1(6) s2(6) by simp
      from grant_all [OF s2(2-4) this amounts(1), of b]
      obtain us3 s3 G3 where s3: "grantOffered T b ?A (us2, s2) = (Inr (), us3, s3)" "undoes us3 (held s) (bal s) s3 G3"
          "inv s3" "pinv s3" "bal s3 = bal s2" "room s2 \<le> room s3 + length ?A" "length us3 = length us2 + length ?A"
          "\<forall>c m. held s3 c m = held s2 c m + (if c = b then offer_sum m ?A else 0)"
        by blast
      have "length ?B \<le> room s3"
        using room s1(6) s2(6) s3(6) by simp
      from grant_all [OF s3(2-4) this amounts(2), of a]
      obtain us4 s4 G4 where s4: "grantOffered T a ?B (us3, s3) = (Inr (), us4, s4)" "undoes us4 (held s) (bal s) s4 G4"
          "inv s4" "pinv s4" "bal s4 = bal s3" "room s3 \<le> room s4 + length ?B" "length us4 = length us3 + length ?B"
          "\<forall>c m. held s4 c m = held s3 c m + (if c = a then offer_sum m ?B else 0)"
        by blast
      have bal4: "bal s4 = bal s"
        using s1(5) s2(5) s3(5) s4(5) by simp
      have room4: "length us4 + 4 \<le> room s4"
        using room s1(6,8) s2(6,7) s3(6,7) s4(6,7) by simp
      obtain r5 us5 s5 where s5: "moveZeny T a (ts_zeny sa) b (us4, s4) = (r5, us5, s5)" "inv s5" "pinv s5" "rows s5 = rows s4"
          "room s5 = room s4" "length us5 \<le> length us4 + 2"
          "case r5 of Inr _ \<Rightarrow> bal s5 = moved (bal s) a b (ts_zeny sa) \<and>
              (0 < ts_zeny sa \<and> bal s b = Some (2 ^ 31 - ts_zeny sa) \<or> undoes us5 (held s) (bal s) s5 G4)
            | Inl _ \<Rightarrow> undoes us5 (held s) (bal s) s5 G4"
        using move_spec [OF s4(2-4) ids za] unfolding bal4 by blast
      have pre: "swap_steps T a sa b sb ([], s) = and_then (r5, us5, s5) (\<lambda>_ p. moveZeny T b (ts_zeny sb) a p)"
        using s1(1) r1 s2(1) r2 s3(1) s4(1) s5(1) by (simp add: swap_steps_def)
      show ?thesis
      proof (cases r5)
        case (Inl e)
        then show ?thesis
          using rolled_backI [OF _ s5(2,3), of us5 s G4 e] s5(5,6,7) room4 by (simp add: pre)
      next
        case r5: (Inr x5)
        then have u5: "undoes us5 (held s) (bal s) s5 G4" and b5: "bal s5 = moved (bal s) a b (ts_zeny sa)"
          using s5(7) cap by auto
        obtain r6 us6 s6 where s6: "moveZeny T b (ts_zeny sb) a (us5, s5) = (r6, us6, s6)" "inv s6" "pinv s6" "rows s6 = rows s5"
            "room s6 = room s5" "length us6 \<le> length us5 + 2"
            "case r6 of Inr _ \<Rightarrow> bal s6 = moved (bal s5) b a (ts_zeny sb) \<and>
              (0 < ts_zeny sb \<and> bal s5 a = Some (2 ^ 31 - ts_zeny sb) \<or> undoes us6 (held s) (bal s) s6 G4)
            | Inl _ \<Rightarrow> undoes us6 (held s) (bal s) s6 G4"
          using move_spec [OF u5 s5(2,3) ids(1)[symmetric] ids(3,2) zb] by blast
        show ?thesis
        proof (cases r6)
          case (Inl e)
          then show ?thesis
            using rolled_backI [OF _ s6(2,3), of us6 s G4 e] s6(1,5,6,7) s5(5,6) room4 r5 by (simp add: pre)
        next
          case r6: (Inr x6)
          have "held s6 = held s4"
            using mk.held_rows [of s6 s5] mk.held_rows [of s5 s4] s5(4) s6(4) by simp
          then have "\<forall>c m. held s6 c m = held s c m + (if c = a then offer_sum m ?B - offer_sum m ?A
              else if c = b then offer_sum m ?A - offer_sum m ?B else 0)"
            using s4(8) s3(8) s2(8) s1(9) r1 r2 ids(1) by auto
          moreover have "\<forall>c. bal s6 c = map_option (\<lambda>x. x + (if c = a then ts_zeny sb - ts_zeny sa
              else if c = b then ts_zeny sa - ts_zeny sb else 0)) (bal s c)"
            using s6(7) r6 b5 ids(1) by (auto simp: moved_def option.map_comp o_def algebra_simps option.map_ident)
          ultimately have "exchanged (held s) (bal s) a sa b sb (held s6) (bal s6)"
            by (simp add: exchanged_def)
          then show ?thesis
            using s6(1-3) r5 r6 by (simp add: pre)
        qed
      qed
    qed
  qed
qed

lemma verify_pure: "inv s \<Longrightarrow> \<exists>r. verifySide T c se s = (r, s)"
proof -
  assume inv: "inv s"
  obtain xs where "ip_LoadByChar (tv_inv T) (ts_accountID se) c s = (Inr xs, s)"
    using mk.load_ok [OF inv] by blast
  moreover obtain z where "te_GetZeny (tv_econ T) c s = (z, s)"
    using zeny_pure [of c s] by (cases "te_GetZeny (tv_econ T) c s") auto
  ultimately show ?thesis
    by (cases z) (auto simp: verifySide_def)
qed

lemma swap_spec:
  assumes inv: "inv s" "pinv s" and ids: "a \<noteq> b" "a \<noteq> 0" "b \<noteq> 0"
    and hon: "honest (rows s) a (ts_offered sa)" "honest (rows s) b (ts_offered sb)"
    and za: "0 \<le> ts_zeny sa" "ts_zeny sa < 2 ^ 31" and zb: "0 \<le> ts_zeny sb" "ts_zeny sb < 2 ^ 31"
    and room: "3 * (length (ts_offered sa) + length (ts_offered sb)) + 4 \<le> room s"
    and cap: "bal s b \<noteq> Some (2 ^ 31 - ts_zeny sa)"
  shows "\<exists>r s'. trade_swap T a sa b sb s = (r, s') \<and> inv s' \<and> pinv s' \<and>
    (case r of Inr _ \<Rightarrow> exchanged (held s) (bal s) a sa b sb (held s') (bal s')
     | Inl _ \<Rightarrow> held s' = held s \<and> bal s' = bal s)"
proof -
  have "2 * (length (ts_offered sa) + length (ts_offered sb)) + 4 + length (ts_offered sa) + length (ts_offered sb) \<le> room s"
    using room by simp
  from swap_steps_spec [OF inv ids hon za zb this cap] show ?thesis
    by (auto simp: trade_swap_def rolled_back_def)
qed

lemma conclude_spec:
  assumes inv: "inv (td_db d)" "pinv (td_db d)" and ids: "a \<noteq> b" "a \<noteq> 0" "b \<noteq> 0"
    and hon: "honest (rows (td_db d)) a (ts_offered sa)" "honest (rows (td_db d)) b (ts_offered sb)"
    and za: "0 \<le> ts_zeny sa" "ts_zeny sa < 2 ^ 31" and zb: "0 \<le> ts_zeny sb" "ts_zeny sb < 2 ^ 31"
    and room: "3 * (length (ts_offered sa) + length (ts_offered sb)) + 4 \<le> room (td_db d)"
    and cap: "bal (td_db d) b \<noteq> Some (2 ^ 31 - ts_zeny sa)"
  shows "\<exists>r s'. trade_conclude T a sa b sb d = (r, \<lparr>td_sessions = cancelBoth a b (td_sessions d), td_db = s'\<rparr>) \<and>
    inv s' \<and> pinv s' \<and>
    (case r of Inr _ \<Rightarrow> exchanged (held (td_db d)) (bal (td_db d)) a sa b sb (held s') (bal s')
     | Inl _ \<Rightarrow> held s' = held (td_db d) \<and> bal s' = bal (td_db d))"
proof -
  obtain ra rb where v: "verifySide T a sa (td_db d) = (ra, td_db d)" "verifySide T b sb (td_db d) = (rb, td_db d)"
    using verify_pure [OF inv(1)] by meson
  show ?thesis
    using swap_spec [OF inv ids hon za zb room cap] v inv
    by (cases ra; cases rb) (auto simp: trade_conclude_def split: prod.split)
qed

text \<open>Locking the second side concludes.\<close>

lemma OK_spec:
  assumes sess: "td_sessions d a = Some sa" "td_sessions d b = Some sb" "ts_partner sa = b"
      "ts_state sa = StateActive" "\<not> ts_locked sa" "ts_locked sb"
    and inv: "inv (td_db d)" "pinv (td_db d)" and ids: "a \<noteq> b" "a \<noteq> 0" "b \<noteq> 0"
    and hon: "honest (rows (td_db d)) a (ts_offered sa)" "honest (rows (td_db d)) b (ts_offered sb)"
    and za: "0 \<le> ts_zeny sa" "ts_zeny sa < 2 ^ 31" and zb: "0 \<le> ts_zeny sb" "ts_zeny sb < 2 ^ 31"
    and room: "3 * (length (ts_offered sa) + length (ts_offered sb)) + 4 \<le> room (td_db d)"
    and cap: "bal (td_db d) b \<noteq> Some (2 ^ 31 - ts_zeny sa)"
  shows "\<exists>r s'. trade_OK T a d = (r, \<lparr>td_sessions = cancelBoth a b (td_sessions d), td_db = s'\<rparr>) \<and> inv s' \<and> pinv s' \<and>
    (case r of Inr done_ \<Rightarrow> done_ \<and> exchanged (held (td_db d)) (bal (td_db d)) a sa b sb (held s') (bal s')
     | Inl _ \<Rightarrow> held s' = held (td_db d) \<and> bal s' = bal (td_db d))"
proof -
  let ?sa = "sa\<lparr>ts_locked := True\<rparr>"
  let ?d = "d\<lparr>td_sessions := (td_sessions d)(a \<mapsto> ?sa)\<rparr>"
  have dd: "td_db ?d = td_db d"
    by simp
  obtain r s' where c: "trade_conclude T a ?sa b sb ?d = (r, \<lparr>td_sessions = cancelBoth a b (td_sessions ?d), td_db = s'\<rparr>)"
      "inv s'" "pinv s'" "case r of Inr _ \<Rightarrow> exchanged (held (td_db d)) (bal (td_db d)) a ?sa b sb (held s') (bal s')
       | Inl _ \<Rightarrow> held s' = held (td_db d) \<and> bal s' = bal (td_db d)"
    using conclude_spec [of ?d a b ?sa sb, unfolded dd] assms by auto
  have same: "cancelBoth a b (td_sessions ?d) = cancelBoth a b (td_sessions d)"
    by (simp add: cancelBoth_def)
  have "trade_OK T a d = and_then (r, \<lparr>td_sessions = cancelBoth a b (td_sessions d), td_db = s'\<rparr>) (\<lambda>_ d. (Inr True, d))"
    using sess ids(1) c(1) unfolding same by (simp add: trade_OK_def)
  then show ?thesis
    using c(2-4) by (cases r) (auto simp: exchanged_def)
qed

text \<open>
  The exception: the first payment lands on the cap, so the receiver can neither pay its own part
  nor give the money back.
\<close>

lemma cap_rollback:
  assumes inv: "inv s" "pinv s" and ids: "a \<noteq> b" "a \<noteq> 0" "b \<noteq> 0"
    and off: "ts_offered sa = []" "ts_offered sb = []"
    and za: "0 < ts_zeny sa" "ts_zeny sa < 2 ^ 31" and zb: "0 < ts_zeny sb" "ts_zeny sb < 2 ^ 31"
    and bal: "bal s a = Some x" "ts_zeny sa \<le> x" "x < 2 ^ 31" "bal s b = Some (2 ^ 31 - ts_zeny sa)"
  shows "\<exists>e s'. trade_swap T a sa b sb s = (Inl e, s') \<and> bal s' = (bal s)(b \<mapsto> 2 ^ 31)"
proof -
  let ?n = "ts_zeny sa"
  have pa: "pays (bal s a) ?n"
    using bal by simp
  obtain s1 where s1: "te_DeductZenyWithPeer (tv_econ T) a ?n b s = (Inr (), s1)" "pinv s1"
      "bal s1 = (bal s)(a := map_option (\<lambda>b. b - ?n) (bal s a))"
    using mk.pay_ok [OF inv(2) ids(2) za pa, of b] by auto
  have ab: "accepts (bal s1 b) ?n"
    using bal za ids(1) unfolding s1(3) by simp
  obtain s2 where s2: "te_CreditZenyWithPeer (tv_econ T) b ?n a s1 = (Inr (), s2)" "pinv s2"
      "bal s2 = (bal s1)(b := map_option (\<lambda>b. b + ?n) (bal s1 b))"
    using mk.gain_ok [OF s1(2) ids(3) za(1) ab, of a] by auto
  have full: "bal s2 b = Some (2 ^ 31)"
    unfolding s2(3) s1(3) using bal ids(1) by simp
  obtain e1 where e1: "te_DeductZenyWithPeer (tv_econ T) b (ts_zeny sb) a s2 = (Inl e1, s2)"
    using mk.pay_short [OF s2(2) ids(3) zb(2), of a] full by auto
  obtain e2 where e2: "te_DeductZenyWithPeer (tv_econ T) b ?n a s2 = (Inl e2, s2)"
    using mk.pay_short [OF s2(2) ids(3) za(2), of a] full by auto
  have ba: "bal s2 a = Some (x - ?n)"
    unfolding s2(3) s1(3) using bal ids(1) by simp
  then have "accepts (bal s2 a) ?n"
    using bal za by simp
  then obtain s3 where s3: "te_CreditZenyWithPeer (tv_econ T) a ?n b s2 = (Inr (), s3)"
      "bal s3 = (bal s2)(a := map_option (\<lambda>b. b + ?n) (bal s2 a))"
    using mk.gain_ok [OF s2(2) ids(2) za(1), of b] by auto
  have run: "swap_steps T a sa b sb ([], s) = (Inl e1,
      [\<lambda>s. snd (te_CreditZenyWithPeer (tv_econ T) a ?n b s)] @ [\<lambda>s. snd (te_DeductZenyWithPeer (tv_econ T) b ?n a s)], s2)"
    using za zb s1(1) s2(1) e1 by (simp add: swap_steps_def off moveZeny_def)
  have "undo_apply ([\<lambda>s. snd (te_CreditZenyWithPeer (tv_econ T) a ?n b s)] @ [\<lambda>s. snd (te_DeductZenyWithPeer (tv_econ T) b ?n a s)]) s2 = s3"
    using e2 s3(1) by (simp add: undo_apply_def)
  moreover have "bal s3 = (bal s)(b \<mapsto> 2 ^ 31)"
    unfolding s3(2) s2(3) s1(3) using bal ids(1) by (auto simp: fun_eq_iff)
  ultimately show ?thesis
    by (simp add: trade_swap_def run)
qed

end

section \<open>The in-memory stores\<close>

definition economy_trade_econ :: "'s economy \<Rightarrow> 's trade_econ" where
  "economy_trade_econ E = \<lparr>te_GetZeny = GetZeny E, te_DeductZenyWithPeer = DeductZenyWithPeer E,
     te_CreditZenyWithPeer = CreditZenyWithPeer E\<rparr>"

definition mem_trade :: "'z game_db_scheme trade_service" where
  "mem_trade = \<lparr>tv_inv = db_item_port, tv_econ = economy_trade_econ mem_economy\<rparr>"

lemma mem_trade_purse: "peer_purse mem_trade p = entry_purse (tradeEntry p) (tradeEntry p)"
  by (simp add: peer_purse_def mem_trade_def economy_trade_econ_def entry_purse_def DeductZenyWithPeer_def CreditZenyWithPeer_def fun_eq_iff)

lemma mem_GetZeny: "GetZeny mem_economy c s = (case cr_chars (db_chars s) c of
    None \<Rightarrow> (Inl ErrCharacterNotFound, s) | Some ch \<Rightarrow> (Inr (sint (ch_Zeny ch)), s))"
  using mem_eco.find_ok [of c s] by (simp add: GetZeny_def eco_findChar_def mem_economy_def split: option.split)

interpretation db_trader: trader "mem_trade :: 'z game_db_scheme trade_service" db_balance "\<lambda>s. cr_wf (db_chars s)"
    bag_rows "\<lambda>s. ir_wf (db_items s)" "\<lambda>s. ir_room (db_items s)"
proof (rule trader.intro, goal_cases)
  case (1 p)
  show ?case
    using db_market.market_axioms unfolding mem_trade_purse by (simp add: mem_trade_def)
next
  case (2 s c b)
  then show ?case by (auto simp: db_balance_def)
next
  case (3 c s)
  then show ?case by (simp add: mem_trade_def economy_trade_econ_def mem_GetZeny split: option.split)
next
  case (4 s c b)
  then show ?case
    by (auto simp: mem_trade_def economy_trade_econ_def mem_GetZeny db_balance_def sint_u32_eq_uint split: option.split)
qed

section \<open>Properties\<close>

text \<open>
  C19. Trade sessions come in pairs. After any sequence of service calls, interleaved with any other
  change of the stores, every session's partner has a session pointing back in the same phase, nobody
  trades with themselves, only an accepted session is locked or holds an offer, and the two sides are
  never both locked (the second lock concludes and removes both).
\<close>

theorem trade_sessions_paired:
  assumes "(trade_step T)\<^sup>*\<^sup>* \<lparr>td_sessions = NewTradeService, td_db = s\<rparr> d"
    and "td_sessions d c = Some se"
  shows "\<exists>pa. td_sessions d (ts_partner se) = Some pa \<and> ts_partner pa = c \<and> ts_partner se \<noteq> c \<and>
    ts_state pa = ts_state se \<and> \<not> (ts_locked se \<and> ts_locked pa) \<and>
    (ts_state se = StateActive \<or> \<not> ts_locked se \<and> ts_offered se = [] \<and> ts_zeny se = 0)"
  using sessions_wfD [OF trade_reachable_wf [OF assms(1)] assms(2)] by (cases "ts_state se") auto

definition demo_trader :: "u32 \<Rightarrow> entity" where
  "demo_trader i = zero_entity\<lparr>en_ID := i, en_Account := i, en_Map := ''prontera'',
     en_Pos := \<lparr>pos_X = 150, pos_Y = 160\<rparr>\<rparr>"

definition demo_market_square :: world where
  "demo_market_square = NewWorldService\<lparr>w_entities := [(1, demo_trader 1), (2, demo_trader 2)]\<rparr>"

lemma demo_request:
  "trade_Request demo_market_square 1 2 NewTradeService =
     (Inr (), [1 \<mapsto> pending_session 2 1, 2 \<mapsto> pending_session 1 2])"
  by (simp add: trade_Request_def pcEntity_def w_Get_def demo_market_square_def demo_trader_def zero_entity_def
      NewTradeService_def NewWorldService_def)

theorem trade_sessions_paired_witness:
  "\<exists>d pa. (trade_step mem_trade)\<^sup>*\<^sup>* \<lparr>td_sessions = NewTradeService, td_db = demo_game\<rparr> d \<and>
     td_sessions d 1 = Some (pending_session 2 1) \<and> td_sessions d 2 = Some pa \<and> ts_partner pa = 1"
proof -
  let ?start = "\<lparr>td_sessions = NewTradeService, td_db = demo_game\<rparr>"
  let ?d = "\<lparr>td_sessions = [1 \<mapsto> pending_session 2 1, 2 \<mapsto> pending_session 1 2], td_db = demo_game\<rparr>"
  have "trade_step mem_trade ?start ?d"
    using trade_step.request [where T = mem_trade and d = ?start and w = demo_market_square and a = 1 and b = 2]
    by (simp add: demo_request)
  then have r: "(trade_step mem_trade)\<^sup>*\<^sup>* ?start ?d"
    by blast
  have "td_sessions ?d 1 = Some (pending_session 2 1)"
    by simp
  from trade_sessions_paired [OF r this] show ?thesis
    using r by (intro exI [of _ ?d]) (auto simp: pending_session_def)
qed

text \<open>
  C12. Concluding is all or nothing. When the second side presses OK, both sessions disappear, and either
  the call answers True and exactly the two offers changed hands (items counted per item id, zeny
  exactly), or it fails and every character holds the same counts and the same zeny as before, however
  far the swap had got. Assumed: the offers name rows of their owners, the id counter does not wrap, and
  the first payment does not land exactly on \<open>2^31\<close>.
\<close>

theorem trade_all_or_nothing:
  fixes d :: "'z game_db_scheme trade_state"
  assumes sess: "td_sessions d a = Some sa" "td_sessions d b = Some sb" "ts_partner sa = b"
      "ts_state sa = StateActive" "\<not> ts_locked sa" "ts_locked sb"
    and ids: "a \<noteq> b" "a \<noteq> 0" "b \<noteq> 0"
    and wf: "cr_wf (db_chars (td_db d))" "ir_wf (db_items (td_db d))"
    and hon: "honest (bag_rows (td_db d)) a (ts_offered sa)" "honest (bag_rows (td_db d)) b (ts_offered sb)"
    and zeny: "0 \<le> ts_zeny sa" "ts_zeny sa < 2 ^ 31" "0 \<le> ts_zeny sb" "ts_zeny sb < 2 ^ 31"
    and room: "3 * (length (ts_offered sa) + length (ts_offered sb)) + 4 \<le> ir_room (db_items (td_db d))"
    and cap: "db_balance (td_db d) b \<noteq> Some (2 ^ 31 - ts_zeny sa)"
  shows "\<exists>r s'. trade_OK mem_trade a d = (r, \<lparr>td_sessions = (td_sessions d)(a := None, b := None), td_db = s'\<rparr>) \<and>
    (case r of
       Inr fin \<Rightarrow> fin \<and>
         (\<forall>c m. db_held s' c m = db_held (td_db d) c m +
            (if c = a then offer_sum m (ts_offered sb) - offer_sum m (ts_offered sa)
             else if c = b then offer_sum m (ts_offered sa) - offer_sum m (ts_offered sb) else 0)) \<and>
         (\<forall>c. db_balance s' c = map_option (\<lambda>x. x + (if c = a then ts_zeny sb - ts_zeny sa
            else if c = b then ts_zeny sa - ts_zeny sb else 0)) (db_balance (td_db d) c))
     | Inl _ \<Rightarrow> db_held s' = db_held (td_db d) \<and> db_balance s' = db_balance (td_db d))"
proof -
  obtain r s' where r: "trade_OK mem_trade a d = (r, \<lparr>td_sessions = cancelBoth a b (td_sessions d), td_db = s'\<rparr>)"
      "ir_wf (db_items s')"
      "case r of Inr fin \<Rightarrow> fin \<and> db_trader.exchanged (db_bag.held (td_db d)) (db_balance (td_db d)) a sa b sb (db_bag.held s') (db_balance s')
       | Inl _ \<Rightarrow> db_bag.held s' = db_bag.held (td_db d) \<and> db_balance s' = db_balance (td_db d)"
    using db_trader.OK_spec [OF sess wf(2,1) ids hon zeny room cap] by blast
  then show ?thesis
    unfolding db_held_eq [OF wf(2)] db_held_eq [OF r(2)] db_trader.exchanged_def
    by (auto simp: cancelBoth_def)
qed

definition demo_trade_bags :: item_repo where
  "demo_trade_bags = \<lparr>ir_items =
     [(1, zero_item\<lparr>it_ID := 1, it_CharID := 1, it_NameID := 501, it_Amount := 10\<rparr>),
      (2, zero_item\<lparr>it_ID := 2, it_CharID := 2, it_NameID := 909, it_Amount := 3\<rparr>)], ir_next = 2\<rparr>"

definition demo_offer1 :: trade_session where
  "demo_offer1 = \<lparr>ts_partner = 2, ts_accountID = 7, ts_state = StateActive,
     ts_offered = [\<lparr>of_itemID = 1, of_nameID = 501, of_amount = 4\<rparr>], ts_zeny = 0, ts_locked = False\<rparr>"

definition demo_offer2 :: trade_session where
  "demo_offer2 = \<lparr>ts_partner = 1, ts_accountID = 8, ts_state = StateActive,
     ts_offered = [\<lparr>of_itemID = 2, of_nameID = 909, of_amount = 1\<rparr>], ts_zeny = 50, ts_locked = True\<rparr>"

definition demo_trade :: "game_db trade_state" where
  "demo_trade = \<lparr>td_sessions = [1 \<mapsto> demo_offer1, 2 \<mapsto> demo_offer2], td_db = demo_game\<lparr>db_items := demo_trade_bags\<rparr>\<rparr>"

lemma demo_trade_concludes: "fst (trade_OK mem_trade 1 demo_trade) = Inr True"
  by code_simp

theorem trade_all_or_nothing_witness:
  "\<exists>s'. trade_OK mem_trade 1 demo_trade = (Inr True, \<lparr>td_sessions = Map.empty, td_db = s'\<rparr>) \<and>
     db_held s' 2 501 = 4 \<and> db_held s' 1 909 = 1 \<and> db_balance s' 1 = Some 150"
proof -
  let ?s = "demo_game\<lparr>db_items := demo_trade_bags\<rparr>"
  have d: "td_sessions demo_trade = [1 \<mapsto> demo_offer1, 2 \<mapsto> demo_offer2]" "td_db demo_trade = ?s"
    by (simp_all add: demo_trade_def)
  have bal: "db_balance ?s = db_balance demo_game"
    by (rule db_item_frame_chars)
  have bags: "ir_wf demo_trade_bags" "10 \<le> ir_room demo_trade_bags"
    "honest (ir_rows demo_trade_bags) 1 (ts_offered demo_offer1)" "honest (ir_rows demo_trade_bags) 2 (ts_offered demo_offer2)"
    by (auto simp: ir_wf_def ir_room_def demo_trade_bags_def honest_def demo_offer1_def demo_offer2_def)
  have cnt: "bag_count demo_trade_bags 2 501 = 0" "bag_count demo_trade_bags 1 909 = 0"
    by code_simp+
  have os: "ts_zeny demo_offer1 = 0" "ts_zeny demo_offer2 = 50"
    "ts_offered demo_offer1 = [\<lparr>of_itemID = 1, of_nameID = 501, of_amount = 4\<rparr>]"
    "ts_offered demo_offer2 = [\<lparr>of_itemID = 2, of_nameID = 909, of_amount = 1\<rparr>]"
    by (simp_all add: demo_offer1_def demo_offer2_def)
  have prems: "td_sessions demo_trade 1 = Some demo_offer1" "td_sessions demo_trade 2 = Some demo_offer2"
    "ts_partner demo_offer1 = 2" "ts_state demo_offer1 = StateActive" "\<not> ts_locked demo_offer1" "ts_locked demo_offer2"
    "(1::u32) \<noteq> 2" "(1::u32) \<noteq> 0" "(2::u32) \<noteq> 0"
    "cr_wf (db_chars (td_db demo_trade))" "ir_wf (db_items (td_db demo_trade))"
    "honest (bag_rows (td_db demo_trade)) 1 (ts_offered demo_offer1)"
    "honest (bag_rows (td_db demo_trade)) 2 (ts_offered demo_offer2)"
    "0 \<le> ts_zeny demo_offer1" "ts_zeny demo_offer1 < 2 ^ 31" "0 \<le> ts_zeny demo_offer2" "ts_zeny demo_offer2 < 2 ^ 31"
    "3 * (length (ts_offered demo_offer1) + length (ts_offered demo_offer2)) + 4 \<le> ir_room (db_items (td_db demo_trade))"
    "db_balance (td_db demo_trade) 2 \<noteq> Some (2 ^ 31 - ts_zeny demo_offer1)"
    using bags by (simp_all add: d os bal) (simp_all add: demo_offer1_def demo_offer2_def)
  obtain r s' where r: "trade_OK mem_trade 1 demo_trade = (r, \<lparr>td_sessions = (td_sessions demo_trade)(1 := None, 2 := None), td_db = s'\<rparr>)"
      "case r of
         Inr fin \<Rightarrow> fin \<and>
           (\<forall>c m. db_held s' c m = db_held (td_db demo_trade) c m +
              (if c = 1 then offer_sum m (ts_offered demo_offer2) - offer_sum m (ts_offered demo_offer1)
               else if c = 2 then offer_sum m (ts_offered demo_offer1) - offer_sum m (ts_offered demo_offer2) else 0)) \<and>
           (\<forall>c. db_balance s' c = map_option (\<lambda>x. x + (if c = 1 then ts_zeny demo_offer2 - ts_zeny demo_offer1
              else if c = 2 then ts_zeny demo_offer1 - ts_zeny demo_offer2 else 0)) (db_balance (td_db demo_trade) c))
       | Inl _ \<Rightarrow> db_held s' = db_held (td_db demo_trade) \<and> db_balance s' = db_balance (td_db demo_trade)"
    using trade_all_or_nothing [OF prems] by blast
  have "r = Inr True"
    using demo_trade_concludes r(1) by simp
  moreover have "(td_sessions demo_trade)(1 := None, 2 := None) = Map.empty"
    by (auto simp: d fun_eq_iff)
  ultimately show ?thesis
    using r cnt by (intro exI [of _ s']) (simp add: d os bal db_held_def)
qed

text \<open>
  Remark. The rollback can create money. Two characters trade zeny only; the first payment brings the second
  character to exactly \<open>2^31\<close>, which the economy accepts but reads back as negative. The second payment
  then fails, the rollback returns the first character's money and cannot take it from the second: the
  trade is reported as failed, and the second character keeps what was paid.
\<close>

theorem trade_rollback_creates_zeny:
  fixes s :: "'z game_db_scheme"
  assumes wf: "cr_wf (db_chars s)" "ir_wf (db_items s)" and ids: "a \<noteq> b" "a \<noteq> 0" "b \<noteq> 0"
    and off: "ts_offered sa = []" "ts_offered sb = []"
    and za: "0 < ts_zeny sa" "ts_zeny sa < 2 ^ 31" and zb: "0 < ts_zeny sb" "ts_zeny sb < 2 ^ 31"
    and bal: "db_balance s a = Some x" "ts_zeny sa \<le> x" "x < 2 ^ 31" "db_balance s b = Some (2 ^ 31 - ts_zeny sa)"
  shows "\<exists>e s'. trade_swap mem_trade a sa b sb s = (Inl e, s') \<and> db_balance s' = (db_balance s)(b \<mapsto> 2 ^ 31)"
  by (rule db_trader.cap_rollback [OF wf(2,1) ids off za zb bal])

theorem trade_rollback_creates_zeny_witness:
  "\<exists>e s'. trade_swap mem_trade 1 (demo_offer1\<lparr>ts_offered := [], ts_zeny := 1\<rparr>) 2 (demo_offer2\<lparr>ts_offered := []\<rparr>) demo_game = (Inl e, s') \<and>
     db_balance s' 1 = Some 100 \<and> db_balance s' 2 = Some (2 ^ 31) \<and> db_balance demo_game 2 = Some (2 ^ 31 - 1)"
proof -
  obtain e s' where "trade_swap mem_trade 1 (demo_offer1\<lparr>ts_offered := [], ts_zeny := 1\<rparr>) 2 (demo_offer2\<lparr>ts_offered := []\<rparr>) demo_game = (Inl e, s')"
      "db_balance s' = (db_balance demo_game)(2 \<mapsto> 2 ^ 31)"
    using trade_rollback_creates_zeny [of demo_game 1 2 "demo_offer1\<lparr>ts_offered := [], ts_zeny := 1\<rparr>" "demo_offer2\<lparr>ts_offered := []\<rparr>" 100]
    by (auto simp: demo_offer2_def)
  then show ?thesis by simp
qed

text \<open>
  Remark. Nobody but the requester is needed to open a trade: right after a successful request the requester's
  own \<open>Ack\<close> is accepted, and it activates both sessions without any act of the target.
\<close>

theorem requester_accepts_alone:
  assumes "trade_Request w a b m = (Inr (), m1)"
  shows "\<exists>m2 se pa. trade_Ack a True m1 = (Inr (), m2) \<and> m2 a = Some se \<and> ts_state se = StateActive \<and>
    m2 b = Some pa \<and> ts_state pa = StateActive \<and> ts_partner pa = a"
  using assms
  by (auto simp: trade_Request_def trade_Ack_def pending_session_def split: if_splits sum.splits)

theorem requester_accepts_alone_witness:
  "\<exists>m2 pa. trade_Ack 1 True [1 \<mapsto> pending_session 2 1, 2 \<mapsto> pending_session 1 2] = (Inr (), m2) \<and>
     m2 2 = Some pa \<and> ts_state pa = StateActive"
  using requester_accepts_alone [OF demo_request] by auto

end
