(* ===== verification/Leveling.thy ===== *)
theory Leveling
  imports World
begin

text \<open>
  Experience and levels: the EXP curves (\<open>pkg/ro/jobexp\<close>), the per-job stat tables
  (\<open>pkg/ro/jobbasepoints\<close>), \<open>LevelingService\<close> (\<open>world/app/leveling.go\<close>) and \<open>WorldService.GrantExp\<close>.
  The two level-up loops are \<open>partial_function (option)\<close>: \<open>None\<close> is a call that never returns, and
  they are shown to return whenever the level cap fits an int16. YAML decoding is not in the
  repository: the loaders take the decoded document.
\<close>

section \<open>EXP curves\<close>

record exp_row =
  xr_Level :: int
  xr_Exp :: u64

record exp_group =
  xg_Jobs :: "(string \<times> bool) list"
  xg_MaxBaseLevel :: int
  xg_BaseExp :: "exp_row list"
  xg_MaxJobLevel :: int
  xg_JobExp :: "exp_row list"

record exp_registry =
  er_baseCurves :: "string \<rightharpoonup> exp_row list"
  er_jobCurves :: "string \<rightharpoonup> exp_row list"
  er_maxBaseLv :: "string \<rightharpoonup> int"
  er_maxJobLv :: "string \<rightharpoonup> int"

definition jobexp_NewRegistry :: exp_registry where
  "jobexp_NewRegistry = \<lparr>er_baseCurves = Map.empty, er_jobCurves = Map.empty, er_maxBaseLv = Map.empty,
     er_maxJobLv = Map.empty\<rparr>"

definition jobexp_validateHeader :: "string \<Rightarrow> u32 \<Rightarrow> unit res" where
  "jobexp_validateHeader headerType version =
     (if headerType \<noteq> ''JOB_STATS'' then Inl (ErrText ''unexpected Header.Type'')
      else if version \<noteq> 4 then Inl (ErrText ''unsupported Header.version'')
      else Inr ())"

text \<open>One job name of one group: each present field replaces what earlier groups set.\<close>

definition exp_add_job :: "exp_group \<Rightarrow> exp_registry \<Rightarrow> string \<times> bool \<Rightarrow> exp_registry" where
  "exp_add_job g reg = (\<lambda>(jobName, enabled).
     if \<not> enabled then reg
     else
       let reg = (if xg_MaxBaseLevel g \<noteq> 0
                  then reg\<lparr>er_maxBaseLv := (er_maxBaseLv reg)(jobName \<mapsto> xg_MaxBaseLevel g)\<rparr> else reg);
           reg = (if xg_MaxJobLevel g \<noteq> 0
                  then reg\<lparr>er_maxJobLv := (er_maxJobLv reg)(jobName \<mapsto> xg_MaxJobLevel g)\<rparr> else reg);
           reg = (if length (xg_BaseExp g) > 0
                  then reg\<lparr>er_baseCurves := (er_baseCurves reg)(jobName \<mapsto> xg_BaseExp g)\<rparr> else reg)
       in (if length (xg_JobExp g) > 0
           then reg\<lparr>er_jobCurves := (er_jobCurves reg)(jobName \<mapsto> xg_JobExp g)\<rparr> else reg))"

definition jobexp_Load :: "string \<Rightarrow> u32 \<Rightarrow> exp_group list \<Rightarrow> exp_registry res" where
  "jobexp_Load headerType version body =
     (case jobexp_validateHeader headerType version of
        Inl e \<Rightarrow> Inl e
      | Inr _ \<Rightarrow> Inr (foldl (\<lambda>reg g. foldl (exp_add_job g) reg (xg_Jobs g)) jobexp_NewRegistry body))"

definition NextBaseExp :: "exp_registry \<Rightarrow> string \<Rightarrow> int \<Rightarrow> u64 option" where
  "NextBaseExp reg jobName level =
     (case er_baseCurves reg jobName of
        None \<Rightarrow> None
      | Some curve \<Rightarrow>
          case er_maxBaseLv reg jobName of
            None \<Rightarrow> None
          | Some maxLv \<Rightarrow>
              if level \<ge> maxLv then None
              else map_option xr_Exp (find (\<lambda>row. xr_Level row = level) curve))"

definition MaxBaseLevel :: "exp_registry \<Rightarrow> string \<Rightarrow> int option" where
  "MaxBaseLevel reg jobName = er_maxBaseLv reg jobName"

definition NextJobExp :: "exp_registry \<Rightarrow> string \<Rightarrow> int \<Rightarrow> u64 option" where
  "NextJobExp reg jobName level =
     (case er_jobCurves reg jobName of
        None \<Rightarrow> None
      | Some curve \<Rightarrow>
          case er_maxJobLv reg jobName of
            None \<Rightarrow> None
          | Some maxLv \<Rightarrow>
              if level \<ge> maxLv then None
              else map_option xr_Exp (find (\<lambda>row. xr_Level row = level) curve))"

definition MaxJobLevel :: "exp_registry \<Rightarrow> string \<Rightarrow> int option" where
  "MaxJobLevel reg jobName = er_maxJobLv reg jobName"

section \<open>Job stat tables\<close>

record hpsp_row =
  hr_Level :: u16
  hr_Hp :: u32
  hr_Sp :: u32

record bonus_stat =
  bs_Level :: u16
  bs_Str :: u8
  bs_Agi :: u8
  bs_Vit :: u8
  bs_Int :: u8
  bs_Dex :: u8
  bs_Luk :: u8

record job_entry =
  je_Jobs :: "string list"
  je_BaseHp :: "hpsp_row list"
  je_BaseSp :: "hpsp_row list"
  je_MaxWeight :: u32
  je_HpFactor :: u32
  je_HpIncrease :: u32
  je_SpFactor :: u32
  je_SpIncrease :: u32
  je_BonusStats :: "bonus_stat list"
  je_BaseASPD :: "(string \<times> u16) list"

record stat_group =
  sg_Jobs :: "(string \<times> bool) list"
  sg_BaseHp :: "hpsp_row list"
  sg_BaseSp :: "hpsp_row list"
  sg_MaxWeight :: u32
  sg_HpFactor :: u32
  sg_HpIncrease :: u32
  sg_SpFactor :: u32
  sg_SpIncrease :: u32
  sg_BonusStats :: "bonus_stat list"
  sg_BaseASPD :: "(string \<times> u16) list"

text \<open>The registry is ranged over when merging; a missing \<open>BaseASPD\<close> map is the empty one.\<close>

type_synonym job_registry = "(string \<times> job_entry) list"

definition takeSlice :: "'a list \<Rightarrow> 'a list \<Rightarrow> 'a list" where
  "takeSlice dst src = (if length dst = 0 \<and> length src > 0 then src else dst)"

definition takeUint32 :: "u32 \<Rightarrow> u32 \<Rightarrow> u32" where
  "takeUint32 dst src = (if dst = 0 \<and> src \<noteq> 0 then src else dst)"

definition takeASPD :: "(string \<times> u16) list \<Rightarrow> (string \<times> u16) list \<Rightarrow> (string \<times> u16) list" where
  "takeASPD dst src = foldl (\<lambda>m (weapon, aspd).
     if map_of m weapon = None then AList.update weapon aspd m else m) dst src"

definition applyGroup :: "job_entry \<Rightarrow> stat_group \<Rightarrow> job_entry" where
  "applyGroup dst g = dst\<lparr>
     je_BaseHp := takeSlice (je_BaseHp dst) (sg_BaseHp g),
     je_BaseSp := takeSlice (je_BaseSp dst) (sg_BaseSp g),
     je_MaxWeight := takeUint32 (je_MaxWeight dst) (sg_MaxWeight g),
     je_HpFactor := takeUint32 (je_HpFactor dst) (sg_HpFactor g),
     je_HpIncrease := takeUint32 (je_HpIncrease dst) (sg_HpIncrease g),
     je_SpFactor := takeUint32 (je_SpFactor dst) (sg_SpFactor g),
     je_SpIncrease := takeUint32 (je_SpIncrease dst) (sg_SpIncrease g),
     je_BonusStats := takeSlice (je_BonusStats dst) (sg_BonusStats g),
     je_BaseASPD := takeASPD (je_BaseASPD dst) (sg_BaseASPD g)\<rparr>"

definition empty_job_entry :: job_entry where
  "empty_job_entry = \<lparr>je_Jobs = [], je_BaseHp = [], je_BaseSp = [], je_MaxWeight = 0, je_HpFactor = 0,
     je_HpIncrease = 0, je_SpFactor = 0, je_SpIncrease = 0, je_BonusStats = [], je_BaseASPD = []\<rparr>"

definition jobstats_Load :: "string \<Rightarrow> u32 \<Rightarrow> stat_group list \<Rightarrow> job_registry res" where
  "jobstats_Load headerType version body =
     (case jobexp_validateHeader headerType version of
        Inl e \<Rightarrow> Inl e
      | Inr _ \<Rightarrow> Inr (foldl (\<lambda>jobs g. foldl (\<lambda>jobs (jobName, enabled).
            if \<not> enabled then jobs
            else
              let entry = (case map_of jobs jobName of
                    None \<Rightarrow> empty_job_entry\<lparr>je_Jobs := [jobName]\<rparr> | Some e \<Rightarrow> e)
              in AList.update jobName (applyGroup entry g) jobs) jobs (sg_Jobs g)) [] body))"

definition mergeFrom :: "job_entry \<Rightarrow> job_entry \<Rightarrow> job_entry" where
  "mergeFrom dst src = dst\<lparr>
     je_BaseHp := takeSlice (je_BaseHp dst) (je_BaseHp src),
     je_BaseSp := takeSlice (je_BaseSp dst) (je_BaseSp src),
     je_MaxWeight := takeUint32 (je_MaxWeight dst) (je_MaxWeight src),
     je_HpFactor := takeUint32 (je_HpFactor dst) (je_HpFactor src),
     je_HpIncrease := takeUint32 (je_HpIncrease dst) (je_HpIncrease src),
     je_SpFactor := takeUint32 (je_SpFactor dst) (je_SpFactor src),
     je_SpIncrease := takeUint32 (je_SpIncrease dst) (je_SpIncrease src),
     je_BonusStats := takeSlice (je_BonusStats dst) (je_BonusStats src),
     je_BaseASPD := takeASPD (je_BaseASPD dst) (je_BaseASPD src)\<rparr>"

definition jobstats_Merge :: "job_registry \<Rightarrow> job_registry \<Rightarrow> job_registry" where
  "jobstats_Merge reg src = foldl (\<lambda>reg (jobName, srcEntry).
     case map_of reg jobName of
       None \<Rightarrow> AList.update jobName srcEntry reg
     | Some dst \<Rightarrow> AList.update jobName (mergeFrom dst srcEntry) reg) reg src"

definition jobstats_Get :: "job_registry \<Rightarrow> string \<Rightarrow> job_entry option" where
  "jobstats_Get reg jobName = map_of reg jobName"

definition hpForLevel :: "job_entry \<Rightarrow> int \<Rightarrow> u32" where
  "hpForLevel entry level =
     (case find (\<lambda>row. uint (hr_Level row) = level) (je_BaseHp entry) of None \<Rightarrow> 0 | Some row \<Rightarrow> hr_Hp row)"

definition spForLevel :: "job_entry \<Rightarrow> int \<Rightarrow> u32" where
  "spForLevel entry level =
     (case find (\<lambda>row. uint (hr_Level row) = level) (je_BaseSp entry) of None \<Rightarrow> 0 | Some row \<Rightarrow> hr_Sp row)"

definition BaseHpForLevel :: "job_registry \<Rightarrow> string \<Rightarrow> int \<Rightarrow> u32" where
  "BaseHpForLevel reg jobName level =
     (case jobstats_Get reg jobName of None \<Rightarrow> 0 | Some entry \<Rightarrow> hpForLevel entry level)"

definition BaseSpForLevel :: "job_registry \<Rightarrow> string \<Rightarrow> int \<Rightarrow> u32" where
  "BaseSpForLevel reg jobName level =
     (case jobstats_Get reg jobName of None \<Rightarrow> 0 | Some entry \<Rightarrow> spForLevel entry level)"

definition jobstats_BaseASPD :: "job_registry \<Rightarrow> string \<Rightarrow> string \<Rightarrow> u16" where
  "jobstats_BaseASPD reg jobName weapon =
     (case jobstats_Get reg jobName of
        None \<Rightarrow> 0
      | Some entry \<Rightarrow> (case map_of (je_BaseASPD entry) weapon of None \<Rightarrow> 0 | Some a \<Rightarrow> a))"

definition jobstats_MaxWeight :: "job_registry \<Rightarrow> string \<Rightarrow> u32" where
  "jobstats_MaxWeight reg jobName =
     (case jobstats_Get reg jobName of None \<Rightarrow> 0 | Some entry \<Rightarrow> je_MaxWeight entry)"

section \<open>LevelingService\<close>

record leveling =
  lv_curve :: "exp_registry option"
  lv_jobStats :: "job_registry option"

text \<open>One round of the base-level loop: spend the threshold, rise, refill the vitals.\<close>

definition level_once :: "job_registry \<Rightarrow> u64 \<Rightarrow> entity \<Rightarrow> entity" where
  "level_once stats nextExp e =
     (let e = e\<lparr>en_BaseExp := en_BaseExp e - nextExp, en_Level := i16 (en_Level e + 1),
                en_StatusPoint := en_StatusPoint e + 3\<rparr>;
          maxHP = BaseHpForLevel stats ''Novice'' (en_Level e);
          maxSP = BaseSpForLevel stats ''Novice'' (en_Level e);
          e = (if maxHP > 0 then e\<lparr>en_MaxHP := sint maxHP, en_HP := sint maxHP\<rparr> else e)
      in (if maxSP > 0 then e\<lparr>en_MaxSP := sint maxSP, en_SP := sint maxSP\<rparr> else e))"

partial_function (option) level_loop ::
  "exp_registry \<Rightarrow> job_registry \<Rightarrow> entity \<Rightarrow> nat \<Rightarrow> (entity \<times> nat) option" where
  [code]: "level_loop curve stats e gained =
     (case NextBaseExp curve ''Novice'' (en_Level e) of
        None \<Rightarrow> Some (e, gained)
      | Some nextExp \<Rightarrow>
          if en_BaseExp e < nextExp then Some (e, gained)
          else level_loop curve stats (level_once stats nextExp e) (Suc gained))"

definition CheckLevelUp :: "leveling \<Rightarrow> u32 \<Rightarrow> world \<Rightarrow> (nat, world) out option" where
  "CheckLevelUp L c w =
     (case (lv_curve L, lv_jobStats L) of
        (Some curve, Some stats) \<Rightarrow>
          (case entity_at w c of
             None \<Rightarrow> Some (Inl ErrEntityNotFound, w)
           | Some e \<Rightarrow>
               if en_Job e \<noteq> 0 then Some (Inr 0, w)
               else map_option (\<lambda>(e', n).
                 (Inr n, if n > 0
                         then emit (OnLevelUp c (en_Level e') (en_MaxHP e') (en_MaxSP e') (en_StatusPoint e')) (put_entity c e' w)
                         else put_entity c e' w)) (level_loop curve stats e 0))
      | _ \<Rightarrow> Some (Inr 0, w))"

definition job_once :: "u64 \<Rightarrow> entity \<Rightarrow> entity" where
  "job_once nextExp e = e\<lparr>en_JobExp := en_JobExp e - nextExp, en_JobLevel := i16 (en_JobLevel e + 1),
     en_SkillPoint := en_SkillPoint e + 1\<rparr>"

partial_function (option) job_loop :: "exp_registry \<Rightarrow> entity \<Rightarrow> nat \<Rightarrow> (entity \<times> nat) option" where
  [code]: "job_loop curve e gained =
     (case MaxJobLevel curve ''Novice'' of
        None \<Rightarrow> Some (e, gained)
      | Some maxJobLv \<Rightarrow>
          if en_JobLevel e \<ge> maxJobLv then Some (e, gained)
          else
            case NextJobExp curve ''Novice'' (en_JobLevel e) of
              None \<Rightarrow> Some (e, gained)
            | Some nextExp \<Rightarrow>
                if en_JobExp e < nextExp then Some (e, gained)
                else job_loop curve (job_once nextExp e) (Suc gained))"

definition CheckJobLevelUp :: "leveling \<Rightarrow> u32 \<Rightarrow> world \<Rightarrow> (nat, world) out option" where
  "CheckJobLevelUp L c w =
     (case lv_curve L of
        None \<Rightarrow> Some (Inr 0, w)
      | Some curve \<Rightarrow>
          case entity_at w c of
            None \<Rightarrow> Some (Inl ErrEntityNotFound, w)
          | Some e \<Rightarrow>
              if en_Job e \<noteq> 0 then Some (Inr 0, w)
              else map_option (\<lambda>(e', n). (Inr n, put_entity c e' w)) (job_loop curve e 0))"

text \<open>\<open>WorldService.GrantExp\<close>; a nil leveling service is \<open>None\<close>.\<close>

definition GrantExp :: "leveling option \<Rightarrow> u32 \<Rightarrow> u64 \<Rightarrow> u64 \<Rightarrow> world \<Rightarrow> (u64 \<times> u64, world) out option" where
  "GrantExp L c baseExp jobExp w =
     (case entity_at w c of
        None \<Rightarrow> Some (Inl ErrEntityNotFound, w)
      | Some e \<Rightarrow>
          let e1 = e\<lparr>en_BaseExp := clampExpAdd (en_BaseExp e) baseExp, en_JobExp := clampExpAdd (en_JobExp e) jobExp\<rparr>;
              w1 = put_entity c e1 w
          in Option.bind (case L of
                 None \<Rightarrow> Some w1
               | Some L \<Rightarrow> Option.bind (CheckLevelUp L c w1) (\<lambda>(r, w2).
                             map_option snd (CheckJobLevelUp L c w2)))
               (\<lambda>w3. case entity_at w3 c of
                    Some e3 \<Rightarrow> Some (Inr (en_BaseExp e3, en_JobExp e3), emit (OnExpChange c (en_BaseExp e3) (en_JobExp e3)) w3)
                  | None \<Rightarrow> Some (Inr (en_BaseExp e1, en_JobExp e1), emit (OnExpChange c (en_BaseExp e1) (en_JobExp e1)) w3)))"

section \<open>The loops return\<close>

text \<open>The EXP the curve asks for over the next \<open>n\<close> levels from \<open>lv\<close>.\<close>

fun exp_cost :: "(int \<Rightarrow> u64 option) \<Rightarrow> int \<Rightarrow> nat \<Rightarrow> int" where
  "exp_cost f lv 0 = 0"
| "exp_cost f lv (Suc n) = (case f lv of None \<Rightarrow> 0 | Some x \<Rightarrow> uint x) + exp_cost f (lv + 1) n"

lemma NextBaseExp_below: "NextBaseExp r j lv = Some x \<Longrightarrow> \<exists>m. MaxBaseLevel r j = Some m \<and> lv < m"
  by (auto simp: NextBaseExp_def MaxBaseLevel_def split: option.splits if_splits)

lemma level_once_simps [simp]:
  "en_BaseExp (level_once st x e) = en_BaseExp e - x" "en_Level (level_once st x e) = i16 (en_Level e + 1)"
  "en_StatusPoint (level_once st x e) = en_StatusPoint e + 3" "en_JobExp (level_once st x e) = en_JobExp e"
  "en_SkillPoint (level_once st x e) = en_SkillPoint e" "en_JobLevel (level_once st x e) = en_JobLevel e"
  "en_Map (level_once st x e) = en_Map e" "en_ID (level_once st x e) = en_ID e" "en_Pos (level_once st x e) = en_Pos e"
  "en_Job (level_once st x e) = en_Job e"
  by (simp_all add: level_once_def Let_def)

lemma uint_sub_u64: "\<not> (a :: u64) < b \<Longrightarrow> uint (a - b) = uint a - uint b"
  by (simp add: not_less word_le_def uint_sub_lem)

lemma level_loop_exact:
  assumes "\<And>cap. MaxBaseLevel curve ''Novice'' = Some cap \<Longrightarrow> cap \<le> 32767" and "in_i16 (en_Level e)"
  shows "\<exists>e' n. level_loop curve stats e g = Some (e', g + n) \<and>
    en_Level e' = en_Level e + int n \<and> en_StatusPoint e' = en_StatusPoint e + 3 * of_nat n \<and>
    uint (en_BaseExp e) = uint (en_BaseExp e') + exp_cost (NextBaseExp curve ''Novice'') (en_Level e) n \<and>
    (case NextBaseExp curve ''Novice'' (en_Level e') of None \<Rightarrow> True | Some x \<Rightarrow> en_BaseExp e' < x) \<and>
    en_JobExp e' = en_JobExp e \<and> en_JobLevel e' = en_JobLevel e \<and> en_SkillPoint e' = en_SkillPoint e \<and>
    en_Map e' = en_Map e \<and> en_ID e' = en_ID e \<and> en_Pos e' = en_Pos e \<and> en_Job e' = en_Job e"
  using assms
proof (induction "nat (32767 - en_Level e)" arbitrary: e g rule: less_induct)
  case less
  show ?case
  proof (cases "NextBaseExp curve ''Novice'' (en_Level e)")
    case None
    then show ?thesis
      by (subst level_loop.simps) (intro exI [of _ e] exI [of _ 0], simp)
  next
    case (Some x)
    obtain m where m: "MaxBaseLevel curve ''Novice'' = Some m" "en_Level e < m"
      using NextBaseExp_below [OF Some] by blast
    show ?thesis
    proof (cases "en_BaseExp e < x")
      case True
      then show ?thesis
        using Some by (subst level_loop.simps) (intro exI [of _ e] exI [of _ 0], simp)
    next
      case False
      have cap: "en_Level e < 32767"
        using less.prems(1) [OF m(1)] m(2) by simp
      have up: "i16 (en_Level e + 1) = en_Level e + 1"
        using cap less.prems(2) by (intro i16_id) (auto simp: in_i16_def)
      let ?e = "level_once stats x e"
      have "in_i16 (en_Level ?e)" "nat (32767 - en_Level ?e) < nat (32767 - en_Level e)"
        using cap less.prems(2) by (auto simp: up in_i16_def)
      from less.hyps [OF this(2) less.prems(1) this(1), of "Suc g"] obtain e' n where
        e': "level_loop curve stats ?e (Suc g) = Some (e', Suc g + n)" "en_Level e' = en_Level e + 1 + int n"
          "en_StatusPoint e' = en_StatusPoint e + 3 + 3 * of_nat n"
          "uint (en_BaseExp e - x) = uint (en_BaseExp e') + exp_cost (NextBaseExp curve ''Novice'') (en_Level e + 1) n"
          "case NextBaseExp curve ''Novice'' (en_Level e') of None \<Rightarrow> True | Some x \<Rightarrow> en_BaseExp e' < x"
          "en_JobExp e' = en_JobExp e" "en_JobLevel e' = en_JobLevel e" "en_SkillPoint e' = en_SkillPoint e"
          "en_Map e' = en_Map e" "en_ID e' = en_ID e" "en_Pos e' = en_Pos e" "en_Job e' = en_Job e"
        by (auto simp: up)
      show ?thesis
        using e' False Some uint_sub_u64 [OF False]
        by (subst level_loop.simps) (intro exI [of _ e'] exI [of _ "Suc n"], simp add: algebra_simps)
    qed
  qed
qed

lemma job_once_simps [simp]:
  "en_JobExp (job_once x e) = en_JobExp e - x" "en_JobLevel (job_once x e) = i16 (en_JobLevel e + 1)"
  "en_SkillPoint (job_once x e) = en_SkillPoint e + 1" "en_BaseExp (job_once x e) = en_BaseExp e"
  "en_Level (job_once x e) = en_Level e" "en_StatusPoint (job_once x e) = en_StatusPoint e"
  "en_Map (job_once x e) = en_Map e" "en_ID (job_once x e) = en_ID e" "en_Pos (job_once x e) = en_Pos e"
  by (simp_all add: job_once_def)

lemma job_loop_exact:
  assumes "\<And>cap. MaxJobLevel curve ''Novice'' = Some cap \<Longrightarrow> cap \<le> 32767" and "in_i16 (en_JobLevel e)"
  shows "\<exists>e' n. job_loop curve e g = Some (e', g + n) \<and>
    en_JobLevel e' = en_JobLevel e + int n \<and> en_SkillPoint e' = en_SkillPoint e + of_nat n \<and>
    uint (en_JobExp e) = uint (en_JobExp e') + exp_cost (NextJobExp curve ''Novice'') (en_JobLevel e) n \<and>
    (case NextJobExp curve ''Novice'' (en_JobLevel e') of None \<Rightarrow> True | Some x \<Rightarrow> en_JobExp e' < x) \<and>
    en_BaseExp e' = en_BaseExp e \<and> en_Level e' = en_Level e \<and> en_StatusPoint e' = en_StatusPoint e \<and>
    en_Map e' = en_Map e \<and> en_ID e' = en_ID e \<and> en_Pos e' = en_Pos e"
  using assms
proof (induction "nat (32767 - en_JobLevel e)" arbitrary: e g rule: less_induct)
  case less
  have stop: ?case if "job_loop curve e g = Some (e, g)"
    "case NextJobExp curve ''Novice'' (en_JobLevel e) of None \<Rightarrow> True | Some x \<Rightarrow> en_JobExp e < x"
    using that by (intro exI [of _ e] exI [of _ 0]) simp
  show ?case
  proof (cases "MaxJobLevel curve ''Novice''")
    case None
    then have "NextJobExp curve ''Novice'' (en_JobLevel e) = None"
      by (simp add: NextJobExp_def MaxJobLevel_def split: option.split)
    with None show ?thesis
      by (intro stop) (subst job_loop.simps, simp_all)
  next
    case (Some m)
    show ?thesis
    proof (cases "en_JobLevel e \<ge> m")
      case True
      then have "NextJobExp curve ''Novice'' (en_JobLevel e) = None"
        using Some by (simp add: NextJobExp_def MaxJobLevel_def split: option.split)
      with Some True show ?thesis
        by (intro stop) (subst job_loop.simps, simp_all)
    next
      case below: False
      show ?thesis
      proof (cases "NextJobExp curve ''Novice'' (en_JobLevel e)")
        case None
        with Some below show ?thesis
          by (intro stop) (subst job_loop.simps, simp_all)
      next
        case next_: (Some x)
        show ?thesis
        proof (cases "en_JobExp e < x")
          case True
          with Some below next_ show ?thesis
            by (intro stop) (subst job_loop.simps, simp_all)
        next
          case False
          have cap: "en_JobLevel e < 32767"
            using less.prems(1) [OF Some] below by simp
          have up: "i16 (en_JobLevel e + 1) = en_JobLevel e + 1"
            using cap less.prems(2) by (intro i16_id) (auto simp: in_i16_def)
          let ?e = "job_once x e"
          have "in_i16 (en_JobLevel ?e)" "nat (32767 - en_JobLevel ?e) < nat (32767 - en_JobLevel e)"
            using cap less.prems(2) by (auto simp: up in_i16_def)
          from less.hyps [OF this(2) less.prems(1) this(1), of "Suc g"] obtain e' n where
            e': "job_loop curve ?e (Suc g) = Some (e', Suc g + n)" "en_JobLevel e' = en_JobLevel e + 1 + int n"
              "en_SkillPoint e' = en_SkillPoint e + 1 + of_nat n"
              "uint (en_JobExp e - x) = uint (en_JobExp e') + exp_cost (NextJobExp curve ''Novice'') (en_JobLevel e + 1) n"
              "case NextJobExp curve ''Novice'' (en_JobLevel e') of None \<Rightarrow> True | Some x \<Rightarrow> en_JobExp e' < x"
              "en_BaseExp e' = en_BaseExp e" "en_Level e' = en_Level e" "en_StatusPoint e' = en_StatusPoint e"
              "en_Map e' = en_Map e" "en_ID e' = en_ID e" "en_Pos e' = en_Pos e"
            by (auto simp: up)
          show ?thesis
            using e' False Some below next_ uint_sub_u64 [OF False]
            by (subst job_loop.simps) (intro exI [of _ e'] exI [of _ "Suc n"], simp add: algebra_simps)
        qed
      qed
    qed
  qed
qed

lemma uint_clampExpAdd: "uint (clampExpAdd a b) = min (2 ^ 64 - 1) (uint a + uint b)"
proof -
  have top: "uint (- 1 :: u64) = 2 ^ 64 - 1"
    by (simp add: unsigned_minus_1_eq_mask mask_eq_exp_minus_1)
  have m: "uint (- 1 - a) = 2 ^ 64 - 1 - uint a" for a :: u64
  proof -
    have "uint a \<le> uint (- 1 :: u64)"
      using uint_lt2p [of a] unfolding top by simp
    then show ?thesis
      using uint_sub_lem [of a "- 1"] unfolding top by simp
  qed
  show ?thesis
  proof (cases "- 1 - a < b")
    case True
    then show ?thesis
      using m [of a] top by (simp add: clampExpAdd_def word_less_def)
  next
    case False
    then have le: "uint a + uint b \<le> 2 ^ 64 - 1"
      using m [of a] by (simp add: word_less_def)
    then have "uint (a + b) = uint a + uint b"
      using uint_add_lem [of a b] by simp
    then show ?thesis
      using False le by (simp add: clampExpAdd_def)
  qed
qed

section \<open>Properties\<close>

definition demo_curve :: exp_registry where
  "demo_curve = \<lparr>er_baseCurves = [''Novice'' \<mapsto> [\<lparr>xr_Level = 1, xr_Exp = 9\<rparr>, \<lparr>xr_Level = 2, xr_Exp = 16\<rparr>]],
     er_jobCurves = [''Novice'' \<mapsto> [\<lparr>xr_Level = 1, xr_Exp = 10\<rparr>]],
     er_maxBaseLv = [''Novice'' \<mapsto> 99], er_maxJobLv = [''Novice'' \<mapsto> 10]\<rparr>"

definition demo_leveling :: leveling where
  "demo_leveling = \<lparr>lv_curve = Some demo_curve, lv_jobStats = Some []\<rparr>"

text \<open>
  C23. Granting experience to a Novice always returns, adds both rewards saturating at the uint64
  maximum, and converts the totals exactly: \<open>n\<close> base and \<open>k\<close> job levels are gained, each level's
  threshold is spent once, every base level gives 3 status points and every job level one skill
  point, and what is left is below the next threshold. (The level caps must fit an int16.)
\<close>

theorem grant_exp_exact:
  assumes e: "entity_at w c = Some e" "en_Job e = 0" and L: "lv_curve L = Some curve" "lv_jobStats L = Some stats"
    and caps: "\<forall>cap. MaxBaseLevel curve ''Novice'' = Some cap \<longrightarrow> cap \<le> 32767"
      "\<forall>cap. MaxJobLevel curve ''Novice'' = Some cap \<longrightarrow> cap \<le> 32767"
    and lv: "in_i16 (en_Level e)" "in_i16 (en_JobLevel e)"
  shows "\<exists>e' n k w'. GrantExp (Some L) c b j w = Some (Inr (en_BaseExp e', en_JobExp e'), w') \<and>
    entity_at w' = (entity_at w)(c \<mapsto> e') \<and>
    en_Level e' = en_Level e + int n \<and> en_StatusPoint e' = en_StatusPoint e + 3 * of_nat n \<and>
    en_JobLevel e' = en_JobLevel e + int k \<and> en_SkillPoint e' = en_SkillPoint e + of_nat k \<and>
    min (2 ^ 64 - 1) (uint (en_BaseExp e) + uint b) =
      uint (en_BaseExp e') + exp_cost (NextBaseExp curve ''Novice'') (en_Level e) n \<and>
    min (2 ^ 64 - 1) (uint (en_JobExp e) + uint j) =
      uint (en_JobExp e') + exp_cost (NextJobExp curve ''Novice'') (en_JobLevel e) k \<and>
    (case NextBaseExp curve ''Novice'' (en_Level e') of None \<Rightarrow> True | Some x \<Rightarrow> en_BaseExp e' < x) \<and>
    (case NextJobExp curve ''Novice'' (en_JobLevel e') of None \<Rightarrow> True | Some x \<Rightarrow> en_JobExp e' < x)"
proof -
  let ?e1 = "e\<lparr>en_BaseExp := clampExpAdd (en_BaseExp e) b, en_JobExp := clampExpAdd (en_JobExp e) j\<rparr>"
  obtain e2 n where e2: "level_loop curve stats ?e1 0 = Some (e2, n)"
      "en_Level e2 = en_Level e + int n" "en_StatusPoint e2 = en_StatusPoint e + 3 * of_nat n"
      "uint (clampExpAdd (en_BaseExp e) b) = uint (en_BaseExp e2) + exp_cost (NextBaseExp curve ''Novice'') (en_Level e) n"
      "case NextBaseExp curve ''Novice'' (en_Level e2) of None \<Rightarrow> True | Some x \<Rightarrow> en_BaseExp e2 < x"
      "en_JobExp e2 = clampExpAdd (en_JobExp e) j" "en_JobLevel e2 = en_JobLevel e" "en_SkillPoint e2 = en_SkillPoint e"
      "en_Job e2 = 0"
    using level_loop_exact [of curve ?e1 stats 0] caps(1) lv(1) e(2) by auto
  obtain e3 k where e3: "job_loop curve e2 0 = Some (e3, k)"
      "en_JobLevel e3 = en_JobLevel e + int k" "en_SkillPoint e3 = en_SkillPoint e + of_nat k"
      "uint (clampExpAdd (en_JobExp e) j) = uint (en_JobExp e3) + exp_cost (NextJobExp curve ''Novice'') (en_JobLevel e) k"
      "case NextJobExp curve ''Novice'' (en_JobLevel e3) of None \<Rightarrow> True | Some x \<Rightarrow> en_JobExp e3 < x"
      "en_BaseExp e3 = en_BaseExp e2" "en_Level e3 = en_Level e2" "en_StatusPoint e3 = en_StatusPoint e2"
    using job_loop_exact [of curve e2 0] caps(2) lv(2) e2(6-8) by auto
  obtain w2 where w2: "CheckLevelUp L c (put_entity c ?e1 w) = Some (Inr n, w2)" "entity_at w2 = (entity_at w)(c \<mapsto> e2)"
    using e(2) L e2(1) by (simp add: CheckLevelUp_def)
  obtain w3 where w3: "CheckJobLevelUp L c w2 = Some (Inr k, w3)" "entity_at w3 = (entity_at w)(c \<mapsto> e3)"
    using e2(9) L w2(2) e3(1) by (simp add: CheckJobLevelUp_def)
  have g: "GrantExp (Some L) c b j w =
      Some (Inr (en_BaseExp e3, en_JobExp e3), emit (OnExpChange c (en_BaseExp e3) (en_JobExp e3)) w3)"
    using e(1) w2(1) w3 by (simp add: GrantExp_def Let_def)
  have base: "case NextBaseExp curve ''Novice'' (en_Level e3) of None \<Rightarrow> True | Some x \<Rightarrow> en_BaseExp e3 < x"
    unfolding e3(6,7) by (rule e2(5))
  show ?thesis
    by (rule exI [of _ e3], rule exI [of _ n], rule exI [of _ k],
      rule exI [of _ "emit (OnExpChange c (en_BaseExp e3) (en_JobExp e3)) w3"])
      (intro conjI g base e3(2,3,5); simp add: w3(2) e3 e2 uint_clampExpAdd [symmetric, simplified])
qed

theorem grant_exp_exact_witness:
  "\<exists>x w' e' n. GrantExp (Some demo_leveling) 150001 30 4 demo_world = Some (Inr x, w') \<and>
     entity_at w' = [150001 \<mapsto> e'] \<and> en_Level e' = 1 + int n \<and> 30 = uint (en_BaseExp e') + exp_cost (NextBaseExp demo_curve ''Novice'') 1 n"
proof -
  have caps: "MaxBaseLevel demo_curve ''Novice'' = Some 99" "MaxJobLevel demo_curve ''Novice'' = Some 10"
    "lv_curve demo_leveling = Some demo_curve" "lv_jobStats demo_leveling = Some []"
    by (simp_all add: MaxBaseLevel_def MaxJobLevel_def demo_curve_def demo_leveling_def)
  show ?thesis
    using grant_exp_exact [of demo_world 150001 demo_pc demo_leveling demo_curve "[]" 30 4]
    by (auto simp: demo_world_add(3) caps in_i16_def) blast
qed

lemma takeSlice_nonempty: "dst \<noteq> [] \<Longrightarrow> takeSlice dst src = dst"
  by (simp add: takeSlice_def)

lemma takeSlice_idem [simp]: "takeSlice (takeSlice d s) s = takeSlice d s"
  by (auto simp: takeSlice_def)

lemma takeUint32_idem [simp]: "takeUint32 (takeUint32 d s) s = takeUint32 d s"
  by (auto simp: takeUint32_def)

lemma takeASPD_lookup: "map_of (takeASPD dst src) wp =
    (case map_of dst wp of Some a \<Rightarrow> Some a | None \<Rightarrow> map_of src wp)"
proof (induction src arbitrary: dst)
  case Nil
  then show ?case by (simp add: takeASPD_def split: option.split)
next
  case (Cons p src)
  obtain k a where p: "p = (k, a)"
    by (cases p)
  have "takeASPD dst (p # src) = takeASPD (if map_of dst k = None then AList.update k a dst else dst) src"
    by (simp add: takeASPD_def p)
  then show ?case
    using Cons.IH by (auto simp: p split: option.splits)
qed

lemma merge_lookup:
  assumes "distinct (keys src)"
  shows "jobstats_Get (jobstats_Merge reg src) jn =
    (case jobstats_Get src jn of
       None \<Rightarrow> jobstats_Get reg jn
     | Some se \<Rightarrow> Some (case jobstats_Get reg jn of None \<Rightarrow> se | Some de \<Rightarrow> mergeFrom de se))"
  using assms
proof (induction src arbitrary: reg)
  case Nil
  then show ?case by (simp add: jobstats_Merge_def jobstats_Get_def)
next
  case (Cons p src)
  obtain k se where p: "p = (k, se)"
    by (cases p)
  let ?reg = "case map_of reg k of None \<Rightarrow> AList.update k se reg | Some dst \<Rightarrow> AList.update k (mergeFrom dst se) reg"
  have "jobstats_Merge reg (p # src) = jobstats_Merge ?reg src"
    by (simp add: jobstats_Merge_def p split: option.split)
  moreover have "map_of src k = None"
    using Cons.prems by (simp add: p map_of_eq_None_iff)
  ultimately show ?case
    using Cons.IH [of ?reg] Cons.prems by (auto simp: p jobstats_Get_def split: option.splits)
qed

lemma empty_job_entry_simps [simp]: "je_MaxWeight empty_job_entry = 0" "je_BaseHp empty_job_entry = []"
  by (simp_all add: empty_job_entry_def)

text \<open>
  Remark. Merging the three job-stat files is "first wins" field by field: for every job of the merged-in
  registry, a table or number already set is kept, an unset one is taken over, each weapon's ASPD
  likewise, and jobs only one side knows keep that side's lookups.
\<close>

theorem merge_first_wins:
  assumes "distinct (keys src)" and "jobstats_Get reg jn = Some d" and "jobstats_Get src jn = Some s"
  shows "\<exists>m. jobstats_Get (jobstats_Merge reg src) jn = Some m \<and>
    je_BaseHp m = (if je_BaseHp d \<noteq> [] then je_BaseHp d else je_BaseHp s) \<and>
    je_BaseSp m = (if je_BaseSp d \<noteq> [] then je_BaseSp d else je_BaseSp s) \<and>
    je_MaxWeight m = (if je_MaxWeight d \<noteq> 0 then je_MaxWeight d else je_MaxWeight s) \<and>
    je_BonusStats m = (if je_BonusStats d \<noteq> [] then je_BonusStats d else je_BonusStats s) \<and>
    (\<forall>wp. map_of (je_BaseASPD m) wp = (case map_of (je_BaseASPD d) wp of Some a \<Rightarrow> Some a | None \<Rightarrow> map_of (je_BaseASPD s) wp))"
  using assms by (auto simp: merge_lookup mergeFrom_def takeSlice_def takeUint32_def takeASPD_lookup)

theorem merge_first_wins_witness:
  "\<exists>m. jobstats_Get (jobstats_Merge [(''Novice'', empty_job_entry\<lparr>je_MaxWeight := 20000\<rparr>)]
       [(''Novice'', empty_job_entry\<lparr>je_MaxWeight := 1, je_BaseHp := [\<lparr>hr_Level = 1, hr_Hp = 40, hr_Sp = 11\<rparr>]\<rparr>)]) ''Novice'' = Some m \<and>
     je_MaxWeight m = 20000 \<and> je_BaseHp m = [\<lparr>hr_Level = 1, hr_Hp = 40, hr_Sp = 11\<rparr>]"
proof -
  let ?d = "empty_job_entry\<lparr>je_MaxWeight := 20000\<rparr>"
  let ?s = "empty_job_entry\<lparr>je_MaxWeight := 1, je_BaseHp := [\<lparr>hr_Level = 1, hr_Hp = 40, hr_Sp = 11\<rparr>]\<rparr>"
  have g: "jobstats_Get [(''Novice'', ?d)] ''Novice'' = Some ?d" "jobstats_Get [(''Novice'', ?s)] ''Novice'' = Some ?s"
    by (simp_all add: jobstats_Get_def)
  show ?thesis
    using merge_first_wins [OF _ g] by auto
qed

end
