(* ===== verification/Gear.thy ===== *)
theory Gear
  imports Trade Databases
begin

text \<open>
  Worn and used items: \<open>EquipService\<close> (\<open>world/app/equip.go\<close>), \<open>ItemUseService\<close>
  (\<open>world/app/itemuse.go\<close>) and the script VM's inventory adapter (\<open>world/app/scriptinv.go\<close>), all three
  over the inventory port. The lemmas on worn slots and on draining a stack are proved once in the
  locale \<open>item_store\<close> and reach the game's database through its interpretation \<open>db_bag\<close>.
\<close>

section \<open>EquipService\<close>

fun unequip_conflicts :: "'s item_port \<Rightarrow> item list \<Rightarrow> item \<Rightarrow> u32 \<Rightarrow> 's \<Rightarrow> (unit, 's) out" where
  "unequip_conflicts I [] target position s = (Inr (), s)"
| "unequip_conflicts I (other # items) target position s =
     (if it_ID other = it_ID target then unequip_conflicts I items target position s
      else if it_Equip other AND position \<noteq> 0 then
        and_then (ip_SetEquip I (it_ID other) 0 s) (\<lambda>_ s. unequip_conflicts I items target position s)
      else unequip_conflicts I items target position s)"

definition Equip :: "'s item_port \<Rightarrow> item_registry option \<Rightarrow> u32 \<Rightarrow> u32 \<Rightarrow> int \<Rightarrow> u32 \<Rightarrow> 's \<Rightarrow> (unit, 's) out" where
  "Equip I db accountID charID serverRow position s =
     and_then (ip_LoadByChar I accountID charID s) (\<lambda>items s.
       if serverRow < 0 \<or> serverRow \<ge> int (length items) then (Inl ErrEquipRowNotFound, s)
       else
         let target = items ! nat serverRow
         in case itemEntry db (it_NameID target) of
              None \<Rightarrow> (Inl ErrNotEquippable, s)
            | Some entry \<Rightarrow>
                if ie_EquipLocations entry = 0 then (Inl ErrNotEquippable, s)
                else if ie_EquipLocations entry AND position = 0 then (Inl ErrWrongSlot, s)
                else and_then (unequip_conflicts I items target position s) (\<lambda>_ s.
                       ip_SetEquip I (it_ID target) position s))"

definition Unequip :: "'s item_port \<Rightarrow> u32 \<Rightarrow> u32 \<Rightarrow> int \<Rightarrow> 's \<Rightarrow> (unit, 's) out" where
  "Unequip I accountID charID serverRow s =
     and_then (ip_LoadByChar I accountID charID s) (\<lambda>items s.
       if serverRow < 0 \<or> serverRow \<ge> int (length items) then (Inl ErrEquipRowNotFound, s)
       else ip_SetEquip I (it_ID (items ! nat serverRow)) 0 s)"

definition profile_add :: "item_registry option \<Rightarrow> equipment \<Rightarrow> item \<Rightarrow> equipment" where
  "profile_add db eq it =
     (if \<not> IsEquipped it then eq
      else case itemEntry db (it_NameID it) of
        None \<Rightarrow> eq
      | Some entry \<Rightarrow>
          let eq = (if it_Equip it AND Arms \<noteq> 0 then
                eq\<lparr>eq_WeaponATK := i32 (eq_WeaponATK eq + ie_Attack entry),
                   eq_WeaponSubType := (if eq_WeaponSubType eq = [] then ie_SubType entry else eq_WeaponSubType eq)\<rparr>
              else eq)
          in eq\<lparr>eq_ItemDEF := i32 (eq_ItemDEF eq + ie_Defense entry)\<rparr>)"

definition EquipmentProfile :: "'s item_port \<Rightarrow> item_registry option \<Rightarrow> u32 \<Rightarrow> u32 \<Rightarrow> 's \<Rightarrow> (equipment, 's) out" where
  "EquipmentProfile I db accountID charID s =
     and_then (ip_LoadByChar I accountID charID s) (\<lambda>items s. (Inr (foldl (profile_add db) zero_equipment items), s))"

section \<open>ItemUseService\<close>

record item_use_ack =
  ua_ItemID :: u16
  ua_Remaining :: u16
  ua_HealedHP :: int
  ua_HealedSP :: int

definition isUsable :: "item_entry option \<Rightarrow> bool" where
  "isUsable entry = (case entry of None \<Rightarrow> False
     | Some e \<Rightarrow> ToLower (ie_Type e) \<in> {''healing'', ''usable'', ''delayconsume''})"

text \<open>\<open>draw n\<close> is the value of \<open>rand.Intn(n)\<close>, which panics (\<open>None\<close>) unless \<open>n\<close> is positive.\<close>

definition rollRange :: "(int \<Rightarrow> int) \<Rightarrow> int \<Rightarrow> int \<Rightarrow> int option" where
  "rollRange draw lo hi =
     (if hi \<le> lo then Some lo
      else let n = i32 (i32 (hi - lo) + 1) in if n \<le> 0 then None else Some (i32 (lo + i32 (draw n))))"

definition remainingStack :: "u32 \<Rightarrow> u16" where
  "remainingStack amount = (if amount \<le> 1 then 0 else ucast (amount - 1))"

text \<open>
  \<open>vitals\<close> is the world port. The two draws are the HP roll and the SP roll. The inner \<open>None\<close> is the panic
  of a roll, which happens after the unit is consumed.
\<close>

definition ItemUse ::
  "'s item_port \<Rightarrow> item_registry option \<Rightarrow> (u32 \<Rightarrow> int \<Rightarrow> int \<Rightarrow> 's \<Rightarrow> (int \<times> int, 's) out) \<Rightarrow> (int \<Rightarrow> int) \<Rightarrow> (int \<Rightarrow> int)
     \<Rightarrow> u32 \<Rightarrow> u32 \<Rightarrow> int \<Rightarrow> 's \<Rightarrow> (item_use_ack option, 's) out" where
  "ItemUse I db vitals drawHP drawSP accountID charID serverRow s =
     and_then (ip_LoadByChar I accountID charID s) (\<lambda>items s.
       if serverRow < 0 \<or> serverRow \<ge> int (length items) then (Inl ErrItemUseNotFound, s)
       else
         let target = items ! nat serverRow; entry = itemEntry db (it_NameID target)
         in if \<not> isUsable entry then (Inl ErrNotUsable, s)
            else and_then (ip_Remove I (it_ID target) 1 s) (\<lambda>_ s.
              let healed = (case Heal entry of
                    None \<Rightarrow> Some (0, 0)
                  | Some (hpMin, hpMax, spMin, spMax) \<Rightarrow>
                      (case (rollRange drawHP hpMin hpMax, rollRange drawSP spMin spMax) of
                         (Some hp, Some sp) \<Rightarrow> Some (hp, sp) | _ \<Rightarrow> None))
              in case healed of
                   None \<Rightarrow> (Inr None, s)
                 | Some (hp, sp) \<Rightarrow>
                     let ack = \<lparr>ua_ItemID = ucast (it_NameID target), ua_Remaining = remainingStack (it_Amount target),
                           ua_HealedHP = hp, ua_HealedSP = sp\<rparr>
                     in if hp \<noteq> 0 \<or> sp \<noteq> 0 then and_then (vitals charID hp sp s) (\<lambda>_ s. (Inr (Some ack), s))
                        else (Inr (Some ack), s)))"

section \<open>The script adapter\<close>

record 's script_inv =
  sv_inv :: "'s item_port"
  sv_items :: "item_registry option"
  sv_chars :: "'s char_port"

definition accountFor :: "'s script_inv \<Rightarrow> u32 \<Rightarrow> 's \<Rightarrow> (u32, 's) out" where
  "accountFor A charID s = and_then (cp_FindByID (sv_chars A) charID s) (\<lambda>c s. (Inr (ch_AccountID c), s))"

definition GetItem :: "'s script_inv \<Rightarrow> u32 \<Rightarrow> u32 \<Rightarrow> int \<Rightarrow> 's \<Rightarrow> bool \<times> 's" where
  "GetItem A charID nameID amount s =
     (if amount \<le> 0 then (False, s)
      else case accountFor A charID s of
        (Inl _, s) \<Rightarrow> (False, s)
      | (Inr _, s) \<Rightarrow> (case ip_Add (sv_inv A) charID nameID amount s of (Inl _, s) \<Rightarrow> (False, s) | (Inr _, s) \<Rightarrow> (True, s)))"

definition stack_total :: "u32 \<Rightarrow> item list \<Rightarrow> int" where
  "stack_total nameID items = foldl (\<lambda>total it. if it_NameID it \<noteq> nameID then total else total + uint (it_Amount it)) 0 items"

fun drain :: "'s item_port \<Rightarrow> u32 \<Rightarrow> item list \<Rightarrow> int \<Rightarrow> 's \<Rightarrow> bool \<times> 's" where
  "drain I nameID [] remaining s = (remaining = 0, s)"
| "drain I nameID (it # items) remaining s =
     (if remaining \<le> 0 then (remaining = 0, s)
      else if it_NameID it \<noteq> nameID then drain I nameID items remaining s
      else
        let take = min (uint (it_Amount it)) remaining
        in case ip_Remove I (it_ID it) take s of
             (Inl _, s) \<Rightarrow> (False, s)
           | (Inr _, s) \<Rightarrow> drain I nameID items (remaining - take) s)"

definition DelItem :: "'s script_inv \<Rightarrow> u32 \<Rightarrow> u32 \<Rightarrow> int \<Rightarrow> 's \<Rightarrow> bool \<times> 's" where
  "DelItem A charID nameID amount s =
     (if amount \<le> 0 then (False, s)
      else case accountFor A charID s of
        (Inl _, s) \<Rightarrow> (False, s)
      | (Inr accountID, s) \<Rightarrow>
          case ip_LoadByChar (sv_inv A) accountID charID s of
            (Inl _, s) \<Rightarrow> (False, s)
          | (Inr items, s) \<Rightarrow>
              if stack_total nameID items < amount then (False, s) else drain (sv_inv A) nameID items amount s)"

definition CountItem :: "'s script_inv \<Rightarrow> u32 \<Rightarrow> u32 \<Rightarrow> 's \<Rightarrow> int \<times> 's" where
  "CountItem A charID nameID s =
     (case accountFor A charID s of
        (Inl _, s) \<Rightarrow> (0, s)
      | (Inr accountID, s) \<Rightarrow>
          case ip_LoadByChar (sv_inv A) accountID charID s of
            (Inl _, s) \<Rightarrow> (0, s) | (Inr items, s) \<Rightarrow> (stack_total nameID items, s))"

definition script_Equip :: "'s script_inv \<Rightarrow> u32 \<Rightarrow> int \<Rightarrow> u32 \<Rightarrow> 's \<Rightarrow> bool \<times> 's" where
  "script_Equip A charID index slot s =
     (case accountFor A charID s of
        (Inl _, s) \<Rightarrow> (False, s)
      | (Inr accountID, s) \<Rightarrow>
          case Equip (sv_inv A) (sv_items A) accountID charID index slot s of
            (Inl _, s) \<Rightarrow> (False, s) | (Inr _, s) \<Rightarrow> (True, s))"

definition script_Unequip :: "'s script_inv \<Rightarrow> u32 \<Rightarrow> int \<Rightarrow> 's \<Rightarrow> bool \<times> 's" where
  "script_Unequip A charID index s =
     (case accountFor A charID s of
        (Inl _, s) \<Rightarrow> (False, s)
      | (Inr accountID, s) \<Rightarrow>
          case Unequip (sv_inv A) accountID charID index s of (Inl _, s) \<Rightarrow> (False, s) | (Inr _, s) \<Rightarrow> (True, s))"

section \<open>What the services do to the table\<close>

definition take_off :: "u32 \<Rightarrow> item \<Rightarrow> item" where
  "take_off position it = (if it_Equip it AND position \<noteq> 0 then it\<lparr>it_Equip := 0\<rparr> else it)"

lemma take_off_simps [simp]: "it_ID (take_off p it) = it_ID it" "it_CharID (take_off p it) = it_CharID it"
  "it_Equip (take_off p it) = (if it_Equip it AND p \<noteq> 0 then 0 else it_Equip it)"
  by (simp_all add: take_off_def)

text \<open>Wearing row \<open>i\<close> of character \<open>c\<close> at \<open>p\<close>, on the whole table.\<close>

definition worn :: "u32 \<Rightarrow> u32 \<Rightarrow> u32 \<Rightarrow> (u32 \<Rightarrow> item option) \<Rightarrow> u32 \<Rightarrow> item option" where
  "worn c i p t = (\<lambda>j. case t j of None \<Rightarrow> None
     | Some it \<Rightarrow> Some (if j = i then it\<lparr>it_Equip := p\<rparr> else if it_CharID it = c then take_off p it else it))"

context item_store
begin

lemma unequip_conflicts_spec:
  assumes "inv s" and "distinct (map it_ID xs)" and "\<forall>it\<in>set xs. rows s (it_ID it) = Some it"
  shows "\<exists>s'. unequip_conflicts I xs target p s = (Inr (), s') \<and> inv s' \<and> room s' = room s \<and>
    rows s' = (\<lambda>j. if j \<in> it_ID ` set xs \<and> j \<noteq> it_ID target then map_option (take_off p) (rows s j) else rows s j)"
  using assms
proof (induction xs arbitrary: s)
  case (Cons it xs)
  have row: "rows s (it_ID it) = Some it" and new: "it_ID it \<notin> it_ID ` set xs"
    and tail: "distinct (map it_ID xs)" "\<forall>x\<in>set xs. rows s (it_ID x) = Some x"
    using Cons.prems by auto
  show ?case
  proof (cases "it_ID it \<noteq> it_ID target \<and> it_Equip it AND p \<noteq> 0")
    case True
    obtain s1 where s1: "ip_SetEquip I (it_ID it) 0 s = (Inr (), s1)" "inv s1" "room s1 = room s"
        "rows s1 = (rows s)(it_ID it \<mapsto> it\<lparr>it_Equip := 0\<rparr>)"
      using equip_ok [OF Cons.prems(1) row] by blast
    have rest: "\<forall>x\<in>set xs. rows s1 (it_ID x) = Some x"
      using tail(2) new by (auto simp: s1(4) image_iff)
    obtain s2 where s2: "unequip_conflicts I xs target p s1 = (Inr (), s2)" "inv s2" "room s2 = room s1"
        "rows s2 = (\<lambda>j. if j \<in> it_ID ` set xs \<and> j \<noteq> it_ID target then map_option (take_off p) (rows s1 j) else rows s1 j)"
      using Cons.IH [OF s1(2) tail(1) rest] by blast
    have "rows s2 = (\<lambda>j. if j \<in> it_ID ` set (it # xs) \<and> j \<noteq> it_ID target
        then map_option (take_off p) (rows s j) else rows s j)"
      unfolding s2(4) using True row new by (intro ext) (auto simp: s1(4) take_off_def)
    then show ?thesis
      using True s1(1,3) s2(1-3) by (intro exI [of _ s2]) simp
  next
    case False
    obtain s2 where s2: "unequip_conflicts I xs target p s = (Inr (), s2)" "inv s2" "room s2 = room s"
        "rows s2 = (\<lambda>j. if j \<in> it_ID ` set xs \<and> j \<noteq> it_ID target then map_option (take_off p) (rows s j) else rows s j)"
      using Cons.IH [OF Cons.prems(1) tail] by blast
    have "rows s2 = (\<lambda>j. if j \<in> it_ID ` set (it # xs) \<and> j \<noteq> it_ID target
        then map_option (take_off p) (rows s j) else rows s j)"
      unfolding s2(4) using False row by (intro ext) (auto simp: take_off_def)
    then show ?thesis
      using False s2(1-3) by (intro exI [of _ s2]) auto
  qed
qed simp

lemma load_rows:
  assumes "inv s" and "ip_LoadByChar I acc c s = (Inr xs, s')"
  shows "s' = s" and "distinct (map it_ID xs)" and "\<forall>it\<in>set xs. rows s (it_ID it) = Some it \<and> it_CharID it = c"
    and "it_ID ` set xs = {i. \<exists>it. rows s i = Some it \<and> it_CharID it = c}"
proof -
  obtain ys where ys: "ip_LoadByChar I acc c s = (Inr ys, s)" "distinct ys" "set ys = {it \<in> ran (rows s). it_CharID it = c}"
    using load_ok [OF assms(1), of acc c] by blast
  then have xs: "xs = ys" "s' = s"
    using assms(2) by auto
  show "s' = s"
    by (rule xs)
  show mem: "\<forall>it\<in>set xs. rows s (it_ID it) = Some it \<and> it_CharID it = c"
    using ys(3) xs(1) row_id [OF assms(1)] by (auto simp: ran_def)
  then have "inj_on it_ID (set xs)"
    by (metis inj_onI option.inject)
  then show "distinct (map it_ID xs)"
    using ys(2) xs(1) by (simp add: distinct_map)
  show "it_ID ` set xs = {i. \<exists>it. rows s i = Some it \<and> it_CharID it = c}"
    unfolding xs(1) ys(3) using row_id [OF assms(1)] by (force simp: ran_def)
qed

lemma Equip_spec:
  assumes "inv s" and ld: "ip_LoadByChar I acc c s = (Inr xs, s)" and "0 \<le> k" and "k < int (length xs)"
    and e: "itemEntry db (it_NameID (xs ! nat k)) = Some e" "ie_EquipLocations e AND p \<noteq> 0"
  shows "\<exists>s'. Equip I db acc c k p s = (Inr (), s') \<and> inv s' \<and> room s' = room s \<and>
    rows s' = worn c (it_ID (xs ! nat k)) p (rows s)"
proof -
  let ?t = "xs ! nat k"
  note lr = load_rows [OF assms(1) ld]
  have t: "?t \<in> set xs"
    using assms(3,4) by simp
  obtain s1 where s1: "unequip_conflicts I xs ?t p s = (Inr (), s1)" "inv s1" "room s1 = room s"
      "rows s1 = (\<lambda>j. if j \<in> it_ID ` set xs \<and> j \<noteq> it_ID ?t then map_option (take_off p) (rows s j) else rows s j)"
    using unequip_conflicts_spec [OF assms(1) lr(2), of ?t p] lr(3) by blast
  have row: "rows s (it_ID ?t) = Some ?t"
    using lr(3) t by blast
  then have "rows s1 (it_ID ?t) = Some ?t"
    by (simp add: s1(4))
  from equip_ok [OF s1(2) this, of p] obtain s2 where s2: "ip_SetEquip I (it_ID ?t) p s1 = (Inr (), s2)" "inv s2"
      "room s2 = room s1" "rows s2 = (rows s1)(it_ID ?t \<mapsto> ?t\<lparr>it_Equip := p\<rparr>)"
    by blast
  have "rows s2 = worn c (it_ID ?t) p (rows s)"
    unfolding s2(4) s1(4) lr(4) by (rule ext) (auto simp: worn_def row split: option.splits)
  moreover have "ie_EquipLocations e \<noteq> 0"
    using e(2) by auto
  ultimately show ?thesis
    using assms(3,4) s1 s2 e by (intro exI [of _ s2]) (simp add: Equip_def ld Let_def)
qed

lemma Equip_refused:
  assumes "inv s" and ld: "ip_LoadByChar I acc c s = (Inr xs, s)"
    and bad: "k < 0 \<or> int (length xs) \<le> k \<or>
      (\<forall>e. itemEntry db (it_NameID (xs ! nat k)) = Some e \<longrightarrow> ie_EquipLocations e AND p = 0)"
  shows "\<exists>e. Equip I db acc c k p s = (Inl e, s)"
  using bad by (auto simp: Equip_def ld Let_def split: option.splits)

lemma Unequip_spec:
  assumes "inv s" and ld: "ip_LoadByChar I acc c s = (Inr xs, s)"
  shows "if 0 \<le> k \<and> k < int (length xs)
    then \<exists>s'. Unequip I acc c k s = (Inr (), s') \<and> inv s' \<and> room s' = room s \<and>
      rows s' = (rows s)(it_ID (xs ! nat k) \<mapsto> (xs ! nat k)\<lparr>it_Equip := 0\<rparr>)
    else Unequip I acc c k s = (Inl ErrEquipRowNotFound, s)"
proof (cases "0 \<le> k \<and> k < int (length xs)")
  case True
  then have "xs ! nat k \<in> set xs"
    by (intro nth_mem) linarith
  then have "rows s (it_ID (xs ! nat k)) = Some (xs ! nat k)"
    using load_rows(3) [OF assms] by blast
  from equip_ok [OF assms(1) this, of 0] show ?thesis
    using True by (auto simp: Unequip_def ld)
next
  case False
  then show ?thesis
    by (auto simp: Unequip_def ld)
qed

end

text \<open>Stacks: the total the script reads is what the character holds, and a drain takes exactly that.\<close>

lemma stack_total_Cons:
  "stack_total m (it # xs) = (if it_NameID it = m then uint (it_Amount it) else 0) + stack_total m xs"
proof -
  have *: "foldl (\<lambda>t it. if it_NameID it \<noteq> m then t else t + uint (it_Amount it)) (a + b) xs
      = a + foldl (\<lambda>t it. if it_NameID it \<noteq> m then t else t + uint (it_Amount it)) b xs" for a b
    by (induction xs arbitrary: b) (simp_all add: add.assoc)
  show ?thesis
    using * [of "uint (it_Amount it)" 0] by (cases "it_NameID it = m") (simp_all add: stack_total_def)
qed

lemma stack_total_Nil [simp]: "stack_total m [] = 0"
  by (simp add: stack_total_def)

lemma stack_total_nonneg: "0 \<le> stack_total m xs"
  by (induction xs) (simp_all add: stack_total_Cons)

context item_store
begin

lemma stack_total_held:
  assumes "inv s" and ld: "ip_LoadByChar I acc c s = (Inr xs, s)"
  shows "stack_total m xs = held s c m"
proof -
  note lr = load_rows [OF assms]
  have "stack_total m xs = (\<Sum>it\<leftarrow>xs. if it_NameID it = m then uint (it_Amount it) else 0)"
    by (induction xs) (simp_all add: stack_total_Cons)
  also have "\<dots> = (\<Sum>it\<in>set xs. if it_NameID it = m then uint (it_Amount it) else 0)"
    using lr(2) by (intro sum_list_distinct_conv_sum_set) (auto simp: distinct_map)
  also have "\<dots> = (\<Sum>it\<in>set xs. units c m (rows s (it_ID it)))"
    using lr(3) by (intro sum.cong) (auto simp: units_Some)
  also have "\<dots> = (\<Sum>i\<in>it_ID ` set xs. units c m (rows s i))"
    using lr(2) by (subst sum.reindex) (auto simp: distinct_map)
  also have "\<dots> = (\<Sum>i\<in>UNIV. units c m (rows s i))"
    unfolding lr(4) by (rule sum.mono_neutral_left) (auto simp: units_def split: option.splits)
  finally show ?thesis
    by (simp add: held_def)
qed

lemma drain_spec:
  assumes "inv s" and "distinct (map it_ID xs)" and "\<forall>it\<in>set xs. rows s (it_ID it) = Some it \<and> it_CharID it = c"
    and "\<forall>it\<in>set xs. it_Amount it \<noteq> 0" and "0 \<le> n" and "n \<le> stack_total m xs"
  shows "\<exists>s'. drain I m xs n s = (True, s') \<and> inv s' \<and> room s' = room s \<and>
    (\<forall>c' k. held s' c' k = held s c' k - (if c' = c \<and> k = m then n else 0))"
  using assms
proof (induction xs arbitrary: s n)
  case (Cons it xs)
  have row: "rows s (it_ID it) = Some it" "it_CharID it = c" and new: "it_ID it \<notin> it_ID ` set xs"
    and tail: "distinct (map it_ID xs)" "\<forall>x\<in>set xs. rows s (it_ID x) = Some x \<and> it_CharID x = c"
      "\<forall>x\<in>set xs. it_Amount x \<noteq> 0"
    using Cons.prems by auto
  consider "n = 0" | "0 < n" "it_NameID it \<noteq> m" | "0 < n" "it_NameID it = m"
    using Cons.prems(5) by fastforce
  then show ?case
  proof cases
    case 1
    then show ?thesis
      using Cons.prems(1) by simp
  next
    case 2
    then show ?thesis
      using Cons.IH [OF Cons.prems(1) tail, of n] Cons.prems(6) by (simp add: stack_total_Cons)
  next
    case 3
    define tk where "tk = min (uint (it_Amount it)) n"
    have "uint (it_Amount it) \<noteq> 0"
      using Cons.prems(4) by (simp add: uint_0_iff)
    then have "0 < uint (it_Amount it)"
      using uint_ge_0 [of "it_Amount it"] by linarith
    then have tk: "0 < tk" "tk \<le> uint (it_Amount it)" "0 \<le> n - tk" "n - tk \<le> stack_total m xs"
      using 3 Cons.prems(6) stack_total_nonneg [of m xs] unfolding tk_def stack_total_Cons by (auto simp: min_def)
    obtain s1 where s1: "ip_Remove I (it_ID it) tk s = (Inr (), s1)" "inv s1" "room s1 = room s"
        "\<forall>j. j \<noteq> it_ID it \<longrightarrow> rows s1 j = rows s j"
        "\<forall>c' k. held s1 c' k = held s c' k - (if c' = it_CharID it \<and> k = it_NameID it then tk else 0)"
      using held_remove [OF Cons.prems(1) row(1) tk(1,2)] by blast
    have rest: "\<forall>x\<in>set xs. rows s1 (it_ID x) = Some x \<and> it_CharID x = c"
      using tail(2) new s1(4) by (auto simp: image_iff)
    obtain s2 where "drain I m xs (n - tk) s1 = (True, s2)" "inv s2" "room s2 = room s1"
        "\<forall>c' k. held s2 c' k = held s1 c' k - (if c' = c \<and> k = m then n - tk else 0)"
      using Cons.IH [OF s1(2) tail(1) rest tail(3) tk(3,4)] by blast
    then show ?thesis
      using 3 s1(1,3,5) row(2) by (intro exI [of _ s2]) (simp add: tk_def Let_def)
  qed
qed simp

end

section \<open>Worn slots stay disjoint\<close>

definition slots_disjoint :: "(u32 \<Rightarrow> item option) \<Rightarrow> bool" where
  "slots_disjoint t \<longleftrightarrow> (\<forall>i j a b. i \<noteq> j \<and> t i = Some a \<and> t j = Some b \<and> it_CharID a = it_CharID b \<longrightarrow>
     it_Equip a AND it_Equip b = 0)"

lemma slots_disjointD:
  "slots_disjoint t \<Longrightarrow> i \<noteq> j \<Longrightarrow> t i = Some a \<Longrightarrow> t j = Some b \<Longrightarrow> it_CharID a = it_CharID b \<Longrightarrow> it_Equip a AND it_Equip b = 0"
  unfolding slots_disjoint_def by blast

lemma slots_upd:
  assumes "slots_disjoint t"
    and "\<And>it. v = Some it \<Longrightarrow> it_Equip it = 0 \<or> (\<exists>a. t i = Some a \<and> it_Equip it = it_Equip a \<and> it_CharID it = it_CharID a)"
  shows "slots_disjoint (t(i := v))"
  unfolding slots_disjoint_def
proof (intro allI impI, elim conjE)
  fix j k a b
  assume jk: "j \<noteq> k" "(t(i := v)) j = Some a" "(t(i := v)) k = Some b" "it_CharID a = it_CharID b"
  show "it_Equip a AND it_Equip b = 0"
    using jk assms(2) slots_disjointD [OF assms(1) jk(1)] by (fastforce split: if_splits)
qed

lemma slots_worn:
  assumes "slots_disjoint t" and "t i = Some it" and "it_CharID it = c"
  shows "slots_disjoint (worn c i p t)"
  unfolding slots_disjoint_def
proof (intro allI impI, elim conjE)
  fix j k a b
  assume jk: "j \<noteq> k" "worn c i p t j = Some a" "worn c i p t k = Some b" "it_CharID a = it_CharID b"
  obtain a' b' where ab: "t j = Some a'" "t k = Some b'"
    using jk(2,3) by (auto simp: worn_def split: option.splits)
  have "it_CharID a = it_CharID a'" "it_CharID b = it_CharID b'"
    using jk(2,3) ab by (auto simp: worn_def split: if_splits)
  then have own: "it_Equip a' AND it_Equip b' = 0"
    using slots_disjointD [OF assms(1) jk(1) ab] jk(4) by simp
  have a: "a = (if j = i then a'\<lparr>it_Equip := p\<rparr> else if it_CharID a' = c then take_off p a' else a')"
    and b: "b = (if k = i then b'\<lparr>it_Equip := p\<rparr> else if it_CharID b' = c then take_off p b' else b')"
    using jk(2,3) ab by (simp_all add: worn_def)
  consider "j \<noteq> i" "k \<noteq> i" | "j = i" "k \<noteq> i" "it_CharID b' = c" | "k = i" "j \<noteq> i" "it_CharID a' = c"
    using jk(1,4) ab assms(2,3) by (auto simp: a b split: if_splits)
  then show "it_Equip a AND it_Equip b = 0"
  proof cases
    case 1
    then show ?thesis
      using own by (simp add: a b)
  next
    case 2
    then show ?thesis
      by (simp add: a b and.commute)
  next
    case 3
    then show ?thesis
      by (simp add: a b)
  qed
qed

text \<open>
  The histories of the in-memory table: rows are added (before the id counter wraps), removed by any
  amount, and put on and taken off by any request, granted or refused.
\<close>

inductive gear_reach :: "item_registry option \<Rightarrow> item_repo \<Rightarrow> bool" for db where
  start: "gear_reach db NewMemoryItemRepository"
| add: "gear_reach db r \<Longrightarrow> 0 < ir_room r \<Longrightarrow> gear_reach db (snd (ip_Add mem_item_port c m n r))"
| remove: "gear_reach db r \<Longrightarrow> gear_reach db (snd (ip_Remove mem_item_port i n r))"
| equip: "gear_reach db r \<Longrightarrow> gear_reach db (snd (Equip mem_item_port db acc c k p r))"
| unequip: "gear_reach db r \<Longrightarrow> gear_reach db (snd (Unequip mem_item_port acc c k r))"

lemma ir_Add_slots:
  assumes "ir_wf r" and "0 < ir_room r" and "slots_disjoint (ir_rows r)"
  shows "ir_wf (snd (ir_Add c m n r)) \<and> slots_disjoint (ir_rows (snd (ir_Add c m n r)))"
proof (cases "n \<le> 0")
  case False
  let ?n = "ir_next r + 1"
  let ?it = "zero_item\<lparr>it_ID := ?n, it_CharID := c, it_NameID := m, it_Amount := word_of_int n, it_Identify := 1\<rparr>"
  have "ir_wf (r\<lparr>ir_next := ?n, ir_items := AList.update ?n ?it (ir_items r)\<rparr>)"
    using ir_wf_update [OF ir_wf_next [OF assms(1)], of ?n ?it ?n] next_room(2) [OF assms(2)] by simp
  then show ?thesis
    using False slots_upd [OF assms(3), of "Some ?it" ?n] by (simp add: ir_Add_def Let_def zero_item_def)
qed (use assms in \<open>simp add: ir_Add_def\<close>)

lemma ir_Remove_slots:
  assumes "ir_wf r" and "slots_disjoint (ir_rows r)"
  shows "ir_wf (snd (ir_Remove i n r)) \<and> slots_disjoint (ir_rows (snd (ir_Remove i n r)))"
proof (cases "ir_rows r i")
  case (Some it)
  then have "it_ID it = i" "i \<le> ir_next r"
    using ir_wf_row [OF assms(1)] by auto
  moreover have "slots_disjoint ((ir_rows r)(i := None))" "slots_disjoint ((ir_rows r)(i \<mapsto> it\<lparr>it_Amount := a\<rparr>))" for a
    using Some by (auto intro!: slots_upd [OF assms(2)])
  ultimately show ?thesis
    using Some ir_wf_delete [OF assms(1)] ir_wf_update [OF assms(1), of _ i] assms
    by (simp add: ir_Remove_def)
qed (use assms in \<open>simp add: ir_Remove_def\<close>)

lemma mem_load:
  assumes "ir_wf r"
  obtains xs where "ip_LoadByChar mem_item_port acc c r = (Inr xs, r)"
  using mem_items.load_ok [OF assms, of acc c] by blast

lemma Equip_slots:
  assumes wf: "ir_wf r" and d: "slots_disjoint (ir_rows r)"
  shows "ir_wf (snd (Equip mem_item_port db acc c k p r)) \<and> slots_disjoint (ir_rows (snd (Equip mem_item_port db acc c k p r)))"
proof -
  obtain xs where ld: "ip_LoadByChar mem_item_port acc c r = (Inr xs, r)"
    by (rule mem_load [OF wf])
  show ?thesis
  proof (cases "\<exists>e. 0 \<le> k \<and> k < int (length xs) \<and> itemEntry db (it_NameID (xs ! nat k)) = Some e \<and> ie_EquipLocations e AND p \<noteq> 0")
    case True
    then obtain e where e: "0 \<le> k" "k < int (length xs)" "itemEntry db (it_NameID (xs ! nat k)) = Some e"
        "ie_EquipLocations e AND p \<noteq> 0"
      by blast
    have "xs ! nat k \<in> set xs"
      using e(1,2) by (intro nth_mem) linarith
    then have "ir_rows r (it_ID (xs ! nat k)) = Some (xs ! nat k)" "it_CharID (xs ! nat k) = c"
      using mem_items.load_rows(3) [OF wf ld] by auto
    then show ?thesis
      using mem_items.Equip_spec [OF wf ld e] slots_worn [OF d] by auto
  next
    case False
    then have "\<exists>e. Equip mem_item_port db acc c k p r = (Inl e, r)"
      by (intro mem_items.Equip_refused [OF wf ld]) force
    then show ?thesis
      using wf d by auto
  qed
qed

lemma Unequip_slots:
  assumes wf: "ir_wf r" and d: "slots_disjoint (ir_rows r)"
  shows "ir_wf (snd (Unequip mem_item_port acc c k r)) \<and> slots_disjoint (ir_rows (snd (Unequip mem_item_port acc c k r)))"
proof -
  obtain xs where ld: "ip_LoadByChar mem_item_port acc c r = (Inr xs, r)"
    by (rule mem_load [OF wf])
  have "slots_disjoint ((ir_rows r)(i \<mapsto> it\<lparr>it_Equip := 0\<rparr>))" for i it
    by (rule slots_upd [OF d]) auto
  then show ?thesis
    using mem_items.Unequip_spec [OF wf ld, of k] wf d by (auto split: if_splits)
qed

lemma gear_reach_wf: "gear_reach db r \<Longrightarrow> ir_wf r \<and> slots_disjoint (ir_rows r)"
proof (induction rule: gear_reach.induct)
  case start
  then show ?case by (simp add: NewMemoryItemRepository_def ir_wf_def slots_disjoint_def)
qed (use ir_Add_slots ir_Remove_slots Equip_slots Unequip_slots in \<open>auto simp: mem_item_port_def\<close>)

section \<open>On the game's database\<close>

definition mem_script :: "item_registry option \<Rightarrow> 'z game_db_scheme script_inv" where
  "mem_script db = \<lparr>sv_inv = db_item_port, sv_items = db, sv_chars = db_char_port\<rparr>"

lemma accountFor_mem: "map_of (cr_byID (db_chars s)) c = Some ch \<Longrightarrow> accountFor (mem_script db) c s = (Inr (ch_AccountID ch), s)"
  by (simp add: accountFor_def mem_script_def db_char_port_def lift_char_port_def mem_char_port_def zoom_def cr_FindByID_def)

lemma db_load:
  assumes "ir_wf (db_items s)"
  obtains xs where "ip_LoadByChar db_item_port acc c s = (Inr xs, s)"
  using db_bag.load_ok [OF assms, of acc c] by blast

record play_db = game_db +
  pd_world :: world

definition play_vitals :: "u32 \<Rightarrow> int \<Rightarrow> int \<Rightarrow> play_db \<Rightarrow> (int \<times> int, play_db) out" where
  "play_vitals i hp sp = zoom pd_world (\<lambda>w. pd_world_update (\<lambda>_. w)) (AddVitals i hp sp)"

text \<open>What \<open>rand.Intn\<close> documents.\<close>

definition is_dice :: "(int \<Rightarrow> int) \<Rightarrow> bool" where
  "is_dice draw \<longleftrightarrow> (\<forall>n>0. 0 \<le> draw n \<and> draw n < n)"

lemma rollRange_bounds:
  assumes "is_dice draw" and "0 \<le> lo" and "lo \<le> hi" and "hi < 2 ^ 31 - 1"
  shows "\<exists>v. rollRange draw lo hi = Some v \<and> lo \<le> v \<and> v \<le> hi"
proof (cases "hi \<le> lo")
  case False
  have n: "i32 (i32 (hi - lo) + 1) = hi - lo + 1"
    using assms False by (simp add: i32_id in_i32_def)
  have "0 \<le> draw (hi - lo + 1)" "draw (hi - lo + 1) < hi - lo + 1"
    using assms(1) [unfolded is_dice_def, rule_format, of "hi - lo + 1"] False by simp_all
  then show ?thesis
    using assms False by (simp add: rollRange_def n i32_id in_i32_def)
qed (use assms in \<open>simp add: rollRange_def\<close>)

section \<open>Properties\<close>

text \<open>
  C25. Two items worn by one character never share an equip slot, whatever sequence of inserts, removals,
  equip and unequip requests led to the table.
\<close>

theorem worn_slots_disjoint:
  assumes "gear_reach db r" and "i \<noteq> j" and "ir_rows r i = Some a" and "ir_rows r j = Some b" and "it_CharID a = it_CharID b"
  shows "it_Equip a AND it_Equip b = 0"
  using gear_reach_wf [OF assms(1)] slots_disjointD [OF _ assms(2-5)] by blast

definition demo_gear_db :: "item_registry option" where
  "demo_gear_db =
     (let e = \<lparr>ie_Id = 501, ie_AegisName = ''Red_Potion'', ie_Type = ''Healing'', ie_SubType = [], ie_Buy = 50, ie_Sell = 25,
            ie_Weight = 70, ie_Attack = 0, ie_Defense = 0, ie_Locations = [], ie_EquipLocations = 0, ie_heal = Some (45, 65, 0, 0)\<rparr>
      in Some (itemdb_build [[Some e, Some (e\<lparr>ie_Id := 1201, ie_AegisName := ''Knife'', ie_Type := ''Weapon'', ie_SubType := ''Dagger'',
           ie_Attack := 17, ie_heal := None, ie_Locations := [(''Right_Hand'', True)]\<rparr>)]]))"

definition demo_gear :: item_repo where
  "demo_gear = snd (Equip mem_item_port demo_gear_db 7 1 1 2 (snd (Equip mem_item_port demo_gear_db 7 1 0 2
     (snd (ip_Add mem_item_port 1 1201 1 (snd (ip_Add mem_item_port 1 1201 1 NewMemoryItemRepository)))))))"

theorem worn_slots_disjoint_witness:
  "gear_reach demo_gear_db demo_gear \<and> map_option it_Equip (ir_rows demo_gear 1) = Some 0 \<and>
   map_option it_Equip (ir_rows demo_gear 2) = Some 2 \<and> (0 :: u32) AND 2 = 0"
proof -
  have room: "0 < ir_room NewMemoryItemRepository" "0 < ir_room (snd (ip_Add mem_item_port 1 1201 1 NewMemoryItemRepository))"
    by (simp_all add: ir_room_def NewMemoryItemRepository_def mem_item_port_def ir_Add_def Let_def)
  have reach: "gear_reach demo_gear_db demo_gear"
    unfolding demo_gear_def by (intro gear_reach.intros room)
  have rows: "map_option (\<lambda>it. (it_CharID it, it_Equip it)) (ir_rows demo_gear 1) = Some (1, 0)"
      "map_option (\<lambda>it. (it_CharID it, it_Equip it)) (ir_rows demo_gear 2) = Some (1, 2)"
    by code_simp+
  then obtain a b where "ir_rows demo_gear 1 = Some a" "it_CharID a = 1" "it_Equip a = 0"
      "ir_rows demo_gear 2 = Some b" "it_CharID b = 1" "it_Equip b = 2"
    by auto
  then show ?thesis
    using reach worn_slots_disjoint [OF reach, of 1 2 a b] by simp
qed

text \<open>
  Remark. Wearing an item does exactly what was asked: a request for an owned row whose item may go into one of
  the requested slots succeeds, gives that row exactly the requested slots, takes off the character's other
  items that occupy one of them, and touches no other row.
\<close>

theorem equip_exact:
  fixes s :: "'z game_db_scheme"
  assumes "ir_wf (db_items s)" and "ip_LoadByChar db_item_port acc c s = (Inr xs, s)" and "0 \<le> k" and "k < int (length xs)"
    and "itemEntry db (it_NameID (xs ! nat k)) = Some e" and "ie_EquipLocations e AND p \<noteq> 0"
  shows "\<exists>s'. Equip db_item_port db acc c k p s = (Inr (), s') \<and> ir_wf (db_items s') \<and>
    bag_rows s' = worn c (it_ID (xs ! nat k)) p (bag_rows s)"
  using db_bag.Equip_spec [OF assms] by blast

definition demo_worn :: game_db where
  "demo_worn = demo_game\<lparr>db_items := demo_gear\<rparr>"

theorem equip_exact_witness:
  "\<exists>s'. Equip db_item_port demo_gear_db 7 1 0 2 demo_worn = (Inr (), s') \<and>
     map_option it_Equip (bag_rows s' 1) = Some 2 \<and> map_option it_Equip (bag_rows s' 2) = Some 0"
proof -
  have wf: "ir_wf (db_items demo_worn)"
    unfolding demo_worn_def by (simp, code_simp)
  obtain xs where ld: "ip_LoadByChar db_item_port 7 1 demo_worn = (Inr xs, demo_worn)"
    by (rule db_load [OF wf])
  have "case fst (ip_LoadByChar db_item_port 7 1 demo_worn) of Inl _ \<Rightarrow> False
      | Inr xs \<Rightarrow> map (\<lambda>it. (it_ID it, it_NameID it)) xs = [(1, 1201), (2, 1201)]"
    by code_simp
  then have "map (\<lambda>it. (it_ID it, it_NameID it)) xs = [(1, 1201), (2, 1201)]"
    by (simp add: ld)
  then have xs: "length xs = 2" "it_ID (xs ! 0) = 1" "it_NameID (xs ! 0) = 1201"
    by (auto simp: map_eq_Cons_conv)
  have "map_option ie_EquipLocations (itemEntry demo_gear_db 1201) = Some 2"
    by code_simp
  then obtain e where e: "itemEntry demo_gear_db 1201 = Some e" "ie_EquipLocations e = 2"
    by auto
  have rows: "map_option (\<lambda>it. (it_CharID it, it_Equip it)) (bag_rows demo_worn 1) = Some (1, 0)"
      "map_option (\<lambda>it. (it_CharID it, it_Equip it)) (bag_rows demo_worn 2) = Some (1, 2)"
    by code_simp+
  show ?thesis
    using equip_exact [OF wf ld, of 0 demo_gear_db e 2] xs e rows by (auto simp: worn_def)
qed

text \<open>
  Remark. A script's \<open>delitem\<close> is all or nothing: it answers true exactly when the character holds the amount, over
  any number of stacks, and then takes exactly that much of that item from that character; otherwise the
  state is untouched.
\<close>

theorem delitem_all_or_nothing:
  fixes s :: "'z game_db_scheme"
  assumes wf: "ir_wf (db_items s)" and ch: "map_of (cr_byID (db_chars s)) c = Some ch"
    and stacks: "\<forall>it\<in>ran (bag_rows s). it_Amount it \<noteq> 0"
  shows "if 0 < n \<and> n \<le> db_held s c m
    then \<exists>s'. DelItem (mem_script db) c m n s = (True, s') \<and> ir_wf (db_items s') \<and>
      (\<forall>c' k. db_held s' c' k = db_held s c' k - (if c' = c \<and> k = m then n else 0))
    else DelItem (mem_script db) c m n s = (False, s)"
proof -
  obtain xs where ld: "ip_LoadByChar db_item_port (ch_AccountID ch) c s = (Inr xs, s)"
    by (rule db_load [OF wf])
  note lr = db_bag.load_rows [OF wf ld]
  have total: "stack_total m xs = db_held s c m"
    using db_bag.stack_total_held [OF wf ld] by (simp add: db_held_eq [OF wf])
  have port: "sv_inv (mem_script db) = db_item_port"
    by (simp add: mem_script_def)
  show ?thesis
  proof (cases "0 < n \<and> n \<le> db_held s c m")
    case True
    have nz: "\<forall>it\<in>set xs. it_Amount it \<noteq> 0"
      using lr(3) stacks by (auto simp: ran_def)
    obtain s' where s': "drain db_item_port m xs n s = (True, s')" "ir_wf (db_items s')"
        "\<forall>c' k. db_bag.held s' c' k = db_bag.held s c' k - (if c' = c \<and> k = m then n else 0)"
      using db_bag.drain_spec [OF wf lr(2,3) nz, of n m] True total by auto
    then show ?thesis
      using True total by (auto simp: DelItem_def accountFor_mem [OF ch] port ld db_held_eq [OF wf] db_held_eq [OF s'(2)])
  next
    case False
    then show ?thesis
      using total by (auto simp: DelItem_def accountFor_mem [OF ch] port ld)
  qed
qed

definition demo_stacks :: game_db where
  "demo_stacks = demo_game\<lparr>db_items :=
     \<lparr>ir_items = [(1, zero_item\<lparr>it_ID := 1, it_CharID := 1, it_NameID := 501, it_Amount := 3\<rparr>),
        (2, zero_item\<lparr>it_ID := 2, it_CharID := 1, it_NameID := 501, it_Amount := 5\<rparr>)], ir_next = 2\<rparr>\<rparr>"

theorem delitem_all_or_nothing_witness:
  "(\<exists>s'. DelItem (mem_script None) 1 501 6 demo_stacks = (True, s') \<and> db_held s' 1 501 = 2) \<and>
   DelItem (mem_script None) 1 501 9 demo_stacks = (False, demo_stacks)"
proof -
  have wf: "ir_wf (db_items demo_stacks)"
    unfolding demo_stacks_def by (simp, code_simp)
  have held: "db_held demo_stacks 1 501 = 8"
    unfolding db_held_def demo_stacks_def by code_simp
  have "\<exists>ch. map_of (cr_byID (db_chars demo_stacks)) 1 = Some ch"
    by (simp add: demo_stacks_def demo_game_def demo_econ_def)
  then obtain ch where ch: "map_of (cr_byID (db_chars demo_stacks)) 1 = Some ch"
    by blast
  have "\<forall>it\<in>ran (bag_rows demo_stacks). it_Amount it \<noteq> 0"
    by (auto simp: demo_stacks_def ran_def split: if_splits)
  note * = delitem_all_or_nothing [OF wf ch this]
  show ?thesis
    using * [of 6 501 None] * [of 9 501 None] by (auto simp: held)
qed

text \<open>
  Remark. Using a potion: for a usable item with a heal range and a player on the map, one unit of that row is
  consumed, the healed amounts lie in the item's ranges, and the player's HP and SP rise by them up to the
  maxima; the other stacks and the other entities stay as they are.
\<close>

theorem use_consumes_then_heals:
  fixes s :: play_db
  assumes wf: "ir_wf (db_items s)" and ld: "ip_LoadByChar db_item_port acc c s = (Inr xs, s)"
    and k: "0 \<le> k" "k < int (length xs)" "it_Amount (xs ! nat k) \<noteq> 0"
    and e: "itemEntry db (it_NameID (xs ! nat k)) = Some e" "isUsable (Some e)" "ie_heal e = Some (lo, hi, slo, shi)"
    and rng: "0 < lo" "lo \<le> hi" "hi < 2 ^ 31 - 1" "0 \<le> slo" "slo \<le> shi" "shi < 2 ^ 31 - 1"
    and dice: "is_dice dh" "is_dice ds" and pc: "entity_at (pd_world s) c = Some pc"
  shows "\<exists>ack s'. ItemUse db_item_port db play_vitals dh ds acc c k s = (Inr (Some ack), s') \<and>
    ua_HealedHP ack \<in> {lo..hi} \<and> ua_HealedSP ack \<in> {slo..shi} \<and>
    (\<forall>c' m. db_held s' c' m = db_held s c' m - (if c' = c \<and> m = it_NameID (xs ! nat k) then 1 else 0)) \<and>
    entity_at (pd_world s') = (entity_at (pd_world s))(c \<mapsto>
      pc\<lparr>en_HP := clampVitals (en_HP pc) (ua_HealedHP ack) (en_MaxHP pc),
         en_SP := clampVitals (en_SP pc) (ua_HealedSP ack) (en_MaxSP pc)\<rparr>)"
proof -
  let ?t = "xs ! nat k"
  note lr = db_bag.load_rows [OF wf ld]
  have "?t \<in> set xs"
    using k(1,2) by (intro nth_mem) linarith
  then have row: "bag_rows s (it_ID ?t) = Some ?t" "it_CharID ?t = c"
    using lr(3) by auto
  have "uint (it_Amount ?t) \<noteq> 0"
    using k(3) by (simp add: uint_0_iff)
  then have one: "(1 :: int) \<le> uint (it_Amount ?t)"
    using uint_ge_0 [of "it_Amount ?t"] by linarith
  obtain s1 where s1: "ip_Remove db_item_port (it_ID ?t) 1 s = (Inr (), s1)" "ir_wf (db_items s1)"
      "\<forall>c' m. db_bag.held s1 c' m = db_bag.held s c' m - (if c' = it_CharID ?t \<and> m = it_NameID ?t then 1 else 0)"
    using db_bag.held_remove [OF wf row(1) _ one] by auto
  obtain r where r: "s1 = put_items r s"
    using db_item_frame(2) [OF s1(1)] by blast
  obtain hp where hp: "rollRange dh lo hi = Some hp" "lo \<le> hp" "hp \<le> hi"
    using rollRange_bounds [OF dice(1) less_imp_le [OF rng(1)] rng(2,3)] by blast
  obtain sp where sp: "rollRange ds slo shi = Some sp" "slo \<le> sp" "sp \<le> shi"
    using rollRange_bounds [OF dice(2) rng(4-6)] by blast
  let ?ack = "\<lparr>ua_ItemID = ucast (it_NameID ?t), ua_Remaining = remainingStack (it_Amount ?t), ua_HealedHP = hp, ua_HealedSP = sp\<rparr>"
  obtain w v where w: "AddVitals c hp sp (pd_world s) = (Inr v, w)" "entity_at w = (entity_at (pd_world s))(c \<mapsto>
      pc\<lparr>en_HP := clampVitals (en_HP pc) hp (en_MaxHP pc), en_SP := clampVitals (en_SP pc) sp (en_MaxSP pc)\<rparr>)"
    using pc by (simp add: AddVitals_def Let_def)
  let ?s2 = "s1\<lparr>pd_world := w\<rparr>"
  have "pd_world s1 = pd_world s"
    by (simp add: r)
  then have "play_vitals c hp sp s1 = (Inr v, ?s2)"
    by (simp add: play_vitals_def zoom_def w(1))
  then have run: "ItemUse db_item_port db play_vitals dh ds acc c k s = (Inr (Some ?ack), ?s2)"
    using k(1,2) e hp(1,2) sp(1) rng(1) s1(1) by (simp add: ItemUse_def ld Let_def Heal_def)
  have wf2: "ir_wf (db_items ?s2)" and held2: "db_held ?s2 = db_held s1"
    using s1(2) by (simp_all add: db_held_def fun_eq_iff)
  have "db_held s1 c' m = db_held s c' m - (if c' = c \<and> m = it_NameID ?t then 1 else 0)" for c' m
    using s1(3) row(2) by (simp add: db_held_eq [OF wf] db_held_eq [OF s1(2)])
  then show ?thesis
    using run w(2) hp(2,3) sp(2,3) held2 by (intro exI [of _ ?ack] exI [of _ ?s2]) simp
qed

definition demo_play :: play_db where
  "demo_play = game_db.extend (demo_stacks\<lparr>db_items := \<lparr>ir_items =
       [(1, zero_item\<lparr>it_ID := 1, it_CharID := 150001, it_NameID := 501, it_Amount := 3\<rparr>)], ir_next = 1\<rparr>\<rparr>)
     \<lparr>pd_world = demo_world\<rparr>"

theorem use_consumes_then_heals_witness:
  "\<exists>ack s'. ItemUse db_item_port demo_gear_db play_vitals (\<lambda>n. 0) (\<lambda>n. 0) 7 150001 0 demo_play = (Inr (Some ack), s') \<and>
     ua_HealedHP ack \<in> {45..65} \<and> ua_HealedSP ack = 0 \<and> db_held s' 150001 501 = 2 \<and>
     map_option en_HP (entity_at (pd_world s') 150001) = Some 40"
proof -
  have wf: "ir_wf (db_items demo_play)"
    unfolding demo_play_def by (simp add: game_db.defs, code_simp)
  obtain xs where ld: "ip_LoadByChar db_item_port 7 150001 demo_play = (Inr xs, demo_play)"
    by (rule db_load [OF wf])
  have "case ip_LoadByChar mem_item_port 7 150001 (db_items demo_play) of (Inl _, _) \<Rightarrow> False
      | (Inr xs, _) \<Rightarrow> map (\<lambda>it. (it_NameID it, it_Amount it)) xs = [(501, 3)]"
    unfolding demo_play_def by (simp add: game_db.defs, code_simp)
  then have xs: "length xs = 1" "it_NameID (xs ! 0) = 501" "it_Amount (xs ! 0) = 3"
    using ld by (auto simp: db_item_port_simps zoom_def map_eq_Cons_conv split: prod.splits sum.splits)
  have "map_option (\<lambda>e. (isUsable (Some e), ie_heal e)) (itemEntry demo_gear_db 501) = Some (True, Some (45, 65, 0, 0))"
    by code_simp
  then obtain e where e: "itemEntry demo_gear_db 501 = Some e" "isUsable (Some e)" "ie_heal e = Some (45, 65, 0, 0)"
    by auto
  have pc: "entity_at (pd_world demo_play) 150001 = Some demo_pc"
    by (simp add: demo_play_def game_db.defs demo_world_add(3))
  have held: "db_held demo_play 150001 501 = 3"
    unfolding db_held_def demo_play_def by (simp add: game_db.defs, code_simp)
  have dice: "is_dice (\<lambda>n. 0)"
    by (simp add: is_dice_def)
  obtain ack s' where r: "ItemUse db_item_port demo_gear_db play_vitals (\<lambda>n. 0) (\<lambda>n. 0) 7 150001 0 demo_play = (Inr (Some ack), s')"
      "ua_HealedHP ack \<in> {45..65}" "ua_HealedSP ack \<in> {0..0}"
      "\<forall>c' m. db_held s' c' m = db_held demo_play c' m - (if c' = 150001 \<and> m = it_NameID (xs ! nat 0) then 1 else 0)"
      "entity_at (pd_world s') = (entity_at (pd_world demo_play))(150001 \<mapsto>
        demo_pc\<lparr>en_HP := clampVitals (en_HP demo_pc) (ua_HealedHP ack) (en_MaxHP demo_pc),
          en_SP := clampVitals (en_SP demo_pc) (ua_HealedSP ack) (en_MaxSP demo_pc)\<rparr>)"
    using use_consumes_then_heals [OF wf ld, of 0 demo_gear_db e 45 65 0 0 "\<lambda>n. 0" "\<lambda>n. 0" demo_pc] xs e dice pc by auto
  then show ?thesis
    using xs held by (auto simp: clampVitals_def Let_def intro!: exI [of _ ack] exI [of _ s'])
qed

text \<open>
  Remark. Slot bits an item has no location for are accepted: \<open>Equip\<close> only tests that the requested position
  overlaps the item's locations, so a dagger asked for at all ten body slots is worn in all of them.
\<close>

theorem equip_beyond_locations:
  "map_option ie_EquipLocations (itemEntry demo_gear_db 1201) = Some HandRight \<and>
   (\<exists>s'. Equip db_item_port demo_gear_db 7 1 0 0x3FF demo_worn = (Inr (), s') \<and>
     map_option (\<lambda>it. (it_NameID it, it_Equip it)) (bag_rows s' 1) = Some (1201, 0x3FF))"
proof -
  have "map_option ie_EquipLocations (itemEntry demo_gear_db 1201) = Some HandRight"
    by code_simp
  moreover have "case Equip db_item_port demo_gear_db 7 1 0 0x3FF demo_worn of (Inl _, _) \<Rightarrow> False
      | (Inr _, s') \<Rightarrow> map_option (\<lambda>it. (it_NameID it, it_Equip it)) (bag_rows s' 1) = Some (1201, 0x3FF)"
    by code_simp
  ultimately show ?thesis
    by (auto split: prod.splits sum.splits)
qed

end
