(* ===== verification/Mail.thy ===== *)
theory Mail
  imports Trade
begin

text \<open>
  The mail (RODEX) bounded context: the \<open>Mail\<close> aggregate and its port (\<open>social/mail/domain\<close>), the
  in-memory repository (\<open>infra/memory.go\<close>) and \<open>MailService\<close> (\<open>app/service.go\<close>) over the economy and
  inventory ports. The locale \<open>post_office\<close> joins the contracts of the three stores; inside it a
  send is shown to move everything or nothing, and every operation to conserve items and never to
  create zeny. Strings are lists of runes; the clock reading of a call is an argument.
\<close>

declare map_of_eq_Some_iff [simp del]

section \<open>The mail aggregate\<close>

record attachment =
  att_MailID :: int
  att_Index :: int
  att_NameID :: u32
  att_Amount :: u32
  att_Refine :: u8
  att_Attribute :: u8
  att_Identify :: int
  att_Card0 :: u32
  att_Card1 :: u32
  att_Card2 :: u32
  att_Card3 :: u32
  att_Bound :: u8
  att_UniqueID :: u64
  att_Time :: int

record mail =
  mail_ID :: int
  mail_SenderID :: u32
  mail_SenderNam :: string
  mail_DestID :: u32
  mail_DestName :: string
  mail_Title :: string
  mail_Body :: string
  mail_Time :: int
  mail_Status :: u8
  mail_Zeny :: int
  mail_Type :: u16
  mail_Items :: "attachment list"

record recipient =
  rec_CharID :: u32
  rec_AccountID :: u32
  rec_Name :: string
  rec_Class :: u16
  rec_BaseLevel :: u16

definition TypeNormal :: u8 where "TypeNormal = 0"
definition StatusNew :: u8 where "StatusNew = 0"
definition StatusUnread :: u8 where "StatusUnread = 1"
definition StatusRead :: u8 where "StatusRead = 2"
definition MaxInbox :: nat where "MaxInbox = 30"
definition TitleMax :: nat where "TitleMax = 40"
definition BodyMax :: nat where "BodyMax = 500"

record 's mail_port =
  mp_Create :: "mail \<Rightarrow> 's \<Rightarrow> (mail, 's) out"
  mp_Inbox :: "u32 \<Rightarrow> 's \<Rightarrow> (mail list, 's) out"
  mp_Get :: "u32 \<Rightarrow> int \<Rightarrow> 's \<Rightarrow> (mail, 's) out"
  mp_SetStatus :: "int \<Rightarrow> u8 \<Rightarrow> 's \<Rightarrow> (unit, 's) out"
  mp_ClearZeny :: "int \<Rightarrow> 's \<Rightarrow> (unit, 's) out"
  mp_SetZeny :: "int \<Rightarrow> int \<Rightarrow> 's \<Rightarrow> (unit, 's) out"
  mp_ClearItems :: "int \<Rightarrow> 's \<Rightarrow> (unit, 's) out"
  mp_Delete :: "int \<Rightarrow> 's \<Rightarrow> (unit, 's) out"
  mp_LookupRecipient :: "string \<Rightarrow> 's \<Rightarrow> (recipient, 's) out"
  mp_CountUnread :: "u32 \<Rightarrow> 's \<Rightarrow> (nat, 's) out"

section \<open>The in-memory repository\<close>

record mail_repo =
  mr_next :: int
  mr_mails :: "(int \<times> mail) list"
  mr_chars :: "string \<rightharpoonup> recipient"

definition NewMemoryMailRepository :: mail_repo where
  "NewMemoryMailRepository = \<lparr>mr_next = 1, mr_mails = [], mr_chars = Map.empty\<rparr>"

definition RegisterLookup :: "recipient \<Rightarrow> mail_repo \<Rightarrow> mail_repo" where
  "RegisterLookup rec r = r\<lparr>mr_chars := (mr_chars r)(rec_Name rec \<mapsto> rec)\<rparr>"

definition filed_items :: "int \<Rightarrow> attachment list \<Rightarrow> attachment list" where
  "filed_items i items = map (\<lambda>(k, a). a\<lparr>att_MailID := i, att_Index := int k\<rparr>) (enumerate 0 items)"

definition mr_Create :: "mail \<Rightarrow> mail_repo \<Rightarrow> (mail, mail_repo) out" where
  "mr_Create m r =
     (let n = length (filter (\<lambda>x. mail_DestID x = mail_DestID m) (map snd (mr_mails r)))
      in if n \<ge> MaxInbox then (Inl ErrInboxFull, r)
         else
           let cp = m\<lparr>mail_ID := mr_next r, mail_Items := filed_items (mr_next r) (mail_Items m)\<rparr>
           in (Inr cp, r\<lparr>mr_next := i64 (mr_next r + 1), mr_mails := AList.update (mail_ID cp) cp (mr_mails r)\<rparr>))"

definition flip_new :: "u32 \<Rightarrow> mail \<Rightarrow> mail" where
  "flip_new c m = (if mail_DestID m = c \<and> mail_Status m = StatusNew then m\<lparr>mail_Status := StatusUnread\<rparr> else m)"

definition mr_Inbox :: "u32 \<Rightarrow> mail_repo \<Rightarrow> (mail list, mail_repo) out" where
  "mr_Inbox c r =
     (let mails = map (\<lambda>(i, m). (i, flip_new c m)) (mr_mails r)
      in (Inr (take MaxInbox (sort_key mail_ID (filter (\<lambda>m. mail_DestID m = c) (map snd mails)))),
          r\<lparr>mr_mails := mails\<rparr>))"

definition mr_Get :: "u32 \<Rightarrow> int \<Rightarrow> mail_repo \<Rightarrow> (mail, mail_repo) out" where
  "mr_Get c i r =
     (case map_of (mr_mails r) i of
        None \<Rightarrow> (Inl ErrMailNotFound, r)
      | Some m \<Rightarrow> if mail_DestID m \<noteq> c then (Inl ErrMailNotFound, r) else (Inr m, r))"

definition mr_edit :: "(mail \<Rightarrow> mail) \<Rightarrow> int \<Rightarrow> mail_repo \<Rightarrow> (unit, mail_repo) out" where
  "mr_edit f i r =
     (case map_of (mr_mails r) i of
        None \<Rightarrow> (Inl ErrMailNotFound, r)
      | Some m \<Rightarrow> (Inr (), r\<lparr>mr_mails := AList.update i (f m) (mr_mails r)\<rparr>))"

definition mr_SetStatus :: "int \<Rightarrow> u8 \<Rightarrow> mail_repo \<Rightarrow> (unit, mail_repo) out" where
  "mr_SetStatus i st = mr_edit (mail_Status_update (\<lambda>_. st)) i"

definition mr_ClearZeny :: "int \<Rightarrow> mail_repo \<Rightarrow> (unit, mail_repo) out" where
  "mr_ClearZeny i = mr_edit (mail_Zeny_update (\<lambda>_. 0)) i"

definition mr_SetZeny :: "int \<Rightarrow> int \<Rightarrow> mail_repo \<Rightarrow> (unit, mail_repo) out" where
  "mr_SetZeny i z = mr_edit (mail_Zeny_update (\<lambda>_. z)) i"

definition mr_ClearItems :: "int \<Rightarrow> mail_repo \<Rightarrow> (unit, mail_repo) out" where
  "mr_ClearItems i = mr_edit (mail_Items_update (\<lambda>_. [])) i"

definition mr_Delete :: "int \<Rightarrow> mail_repo \<Rightarrow> (unit, mail_repo) out" where
  "mr_Delete i r =
     (if map_of (mr_mails r) i = None then (Inl ErrMailNotFound, r)
      else (Inr (), r\<lparr>mr_mails := AList.delete i (mr_mails r)\<rparr>))"

definition mr_LookupRecipient :: "string \<Rightarrow> mail_repo \<Rightarrow> (recipient, mail_repo) out" where
  "mr_LookupRecipient name r =
     (case mr_chars r name of None \<Rightarrow> (Inl ErrRecipientNotFound, r) | Some rec \<Rightarrow> (Inr rec, r))"

definition mr_CountUnread :: "u32 \<Rightarrow> mail_repo \<Rightarrow> (nat, mail_repo) out" where
  "mr_CountUnread c r =
     (Inr (length (filter (\<lambda>m. mail_DestID m = c \<and> mail_Status m < StatusRead) (map snd (mr_mails r)))), r)"

definition mem_mail_port :: "mail_repo mail_port" where
  "mem_mail_port = \<lparr>mp_Create = mr_Create, mp_Inbox = mr_Inbox, mp_Get = mr_Get, mp_SetStatus = mr_SetStatus,
     mp_ClearZeny = mr_ClearZeny, mp_SetZeny = mr_SetZeny, mp_ClearItems = mr_ClearItems, mp_Delete = mr_Delete,
     mp_LookupRecipient = mr_LookupRecipient, mp_CountUnread = mr_CountUnread\<rparr>"

section \<open>MailService\<close>

definition maxZeny :: int where "maxZeny = 2000000000"
definition zenyFeePercent :: int where "zenyFeePercent = 2"
definition attachPrice :: int where "attachPrice = 2500"

text \<open>\<open>EconomyPort\<close>; the inventory port is \<open>ip_Add\<close> and \<open>ip_Remove\<close> of \<open>item_port\<close>.\<close>

record 's mail_econ =
  me_GetZeny :: "u32 \<Rightarrow> 's \<Rightarrow> (int, 's) out"
  me_DeductZeny :: "u32 \<Rightarrow> int \<Rightarrow> 's \<Rightarrow> (unit, 's) out"
  me_CreditZeny :: "u32 \<Rightarrow> int \<Rightarrow> 's \<Rightarrow> (unit, 's) out"

record 's mail_service =
  mv_repo :: "'s mail_port"
  mv_econ :: "'s mail_econ option"
  mv_inv :: "'s item_port option"

definition clampRunes :: "string \<Rightarrow> nat \<Rightarrow> string" where
  "clampRunes s n = (if length s > n then take n s else s)"

definition mail_charge :: "'s mail_service \<Rightarrow> u32 \<Rightarrow> int \<Rightarrow> nat \<Rightarrow> 's \<Rightarrow> (int, 's) out" where
  "mail_charge V c zeny nItems s =
     (let total = i64 (i64 (zeny + go_div (i64 (zeny * zenyFeePercent)) 100) + i64 (int nItems * attachPrice))
      in if total \<le> 0 then (Inr 0, s)
         else if total > maxZeny then (Inl (ErrText ''exceeds cap''), s)
         else case mv_econ V of
           None \<Rightarrow> (Inl (ErrText ''economy not wired''), s)
         | Some E \<Rightarrow>
             and_then (me_GetZeny E c s) (\<lambda>bal s.
               if bal < total then (Inl (ErrText ''need zeny''), s)
               else and_then (me_DeductZeny E c (i32 total) s) (\<lambda>_ s. (Inr total, s))))"

text \<open>\<open>errors.Join\<close>: nil for no errors.\<close>

fun errors_Join :: "err list \<Rightarrow> unit res" where
  "errors_Join [] = Inr ()"
| "errors_Join (e # es) = Inl (foldl Joined e es)"

fun readd_all :: "'s item_port \<Rightarrow> u32 \<Rightarrow> attachment list \<Rightarrow> err list \<Rightarrow> 's \<Rightarrow> err list \<times> 's" where
  "readd_all I c [] errs s = (errs, s)"
| "readd_all I c (it # items) errs s =
     (case ip_Add I c (att_NameID it) (uint (att_Amount it)) s of
        (Inl e, s) \<Rightarrow> readd_all I c items (errs @ [e]) s
      | (Inr _, s) \<Rightarrow> readd_all I c items errs s)"

definition compensate :: "'s mail_service \<Rightarrow> u32 \<Rightarrow> attachment list \<Rightarrow> int \<Rightarrow> 's \<Rightarrow> (unit, 's) out" where
  "compensate V c items charged s =
     (let (errs, s) =
        (case mv_econ V of
           None \<Rightarrow> ([], s)
         | Some E \<Rightarrow>
             if charged > 0 then
               (case me_CreditZeny E c (i32 charged) s of (Inl e, s) \<Rightarrow> ([e], s) | (Inr _, s) \<Rightarrow> ([], s))
             else ([], s));
        (errs, s) = (case mv_inv V of None \<Rightarrow> (errs, s) | Some I \<Rightarrow> readd_all I c items errs s)
      in (errors_Join errs, s))"

text \<open>\<open>moved\<close> are the attachments already lifted, \<open>items[:i]\<close>; a failed compensation is only text in the error.\<close>

fun lift_items :: "'s mail_service \<Rightarrow> 's item_port \<Rightarrow> u32 \<Rightarrow> int \<Rightarrow> attachment list \<Rightarrow> attachment list \<Rightarrow> 's \<Rightarrow> (unit, 's) out" where
  "lift_items V I c charged moved [] s = (Inr (), s)"
| "lift_items V I c charged moved (it # items) s =
     (case ip_Remove I (ucast (att_UniqueID it)) (uint (att_Amount it)) s of
        (Inl e, s) \<Rightarrow> (Inl e, snd (compensate V c moved charged s))
      | (Inr _, s) \<Rightarrow> lift_items V I c charged (moved @ [it]) items s)"

definition mail_lift :: "'s mail_service \<Rightarrow> u32 \<Rightarrow> attachment list \<Rightarrow> int \<Rightarrow> 's \<Rightarrow> (unit, 's) out" where
  "mail_lift V c items charged s =
     (if items = [] then (Inr (), s)
      else case mv_inv V of
        None \<Rightarrow> (Inl (ErrText ''inventory not wired''), s)
      | Some I \<Rightarrow> lift_items V I c charged [] items s)"

definition mail_Send ::
  "'s mail_service \<Rightarrow> int \<Rightarrow> u32 \<Rightarrow> string \<Rightarrow> string \<Rightarrow> string \<Rightarrow> string \<Rightarrow> int \<Rightarrow> attachment list \<Rightarrow> 's \<Rightarrow> (u32, 's) out" where
  "mail_Send V now c senderName receiverName title body zeny items s =
     (let title = clampRunes title TitleMax; body = clampRunes body BodyMax
      in if title = [] then (Inl ErrRecipientNotFound, s)
         else and_then (mp_LookupRecipient (mv_repo V) receiverName s) (\<lambda>rec s.
           if zeny < 0 then (Inl (ErrText ''negative zeny''), s)
           else and_then (mail_charge V c zeny (length items) s) (\<lambda>total s.
             and_then (mail_lift V c items total s) (\<lambda>_ s.
               let items = map (att_Time_update (\<lambda>_. now)) items;
                   m = \<lparr>mail_ID = 0, mail_SenderID = c, mail_SenderNam = senderName, mail_DestID = rec_CharID rec,
                     mail_DestName = rec_Name rec, mail_Title = title, mail_Body = body, mail_Time = now,
                     mail_Status = StatusNew, mail_Zeny = zeny, mail_Type = ucast TypeNormal, mail_Items = items\<rparr>
               in case mp_Create (mv_repo V) m s of
                    (Inl e, s) \<Rightarrow> (Inl e, snd (compensate V c items total s))
                  | (Inr _, s) \<Rightarrow> (Inr (rec_CharID rec), s)))))"

definition mail_Inbox :: "'s mail_service \<Rightarrow> u32 \<Rightarrow> 's \<Rightarrow> (mail list \<times> nat, 's) out" where
  "mail_Inbox V c s =
     and_then (mp_Inbox (mv_repo V) c s) (\<lambda>mails s.
       and_then (mp_CountUnread (mv_repo V) c s) (\<lambda>unread s. (Inr (mails, unread), s)))"

definition mail_Read :: "'s mail_service \<Rightarrow> u32 \<Rightarrow> int \<Rightarrow> 's \<Rightarrow> (mail, 's) out" where
  "mail_Read V c i s =
     and_then (mp_Get (mv_repo V) c i s) (\<lambda>m s.
       if mail_Status m \<noteq> StatusRead
       then and_then (mp_SetStatus (mv_repo V) i StatusRead s) (\<lambda>_ s. (Inr (m\<lparr>mail_Status := StatusRead\<rparr>), s))
       else (Inr m, s))"

definition mail_Delete :: "'s mail_service \<Rightarrow> u32 \<Rightarrow> int \<Rightarrow> 's \<Rightarrow> (unit, 's) out" where
  "mail_Delete V c i s =
     and_then (mp_Get (mv_repo V) c i s) (\<lambda>m s.
       if mail_Zeny m > 0 \<or> mail_Items m \<noteq> [] then (Inl ErrMailHasAttachment, s)
       else mp_Delete (mv_repo V) i s)"

definition CollectZeny :: "'s mail_service \<Rightarrow> u32 \<Rightarrow> int \<Rightarrow> 's \<Rightarrow> (unit, 's) out" where
  "CollectZeny V c i s =
     and_then (mp_Get (mv_repo V) c i s) (\<lambda>m s.
       if mail_Zeny m \<le> 0 then (Inl ErrMailNotFound, s)
       else case mv_econ V of
         None \<Rightarrow> (Inl (ErrText ''economy not wired''), s)
       | Some E \<Rightarrow>
           and_then (me_GetZeny E c s) (\<lambda>bal s.
             if i64 (bal + mail_Zeny m) > maxZeny then (Inl errZenyOverflow, s)
             else and_then (mp_ClearZeny (mv_repo V) i s) (\<lambda>_ s.
               case me_CreditZeny E c (i32 (mail_Zeny m)) s of
                 (Inl e, s) \<Rightarrow> (Inl e, snd (mp_SetZeny (mv_repo V) i (mail_Zeny m) s))
               | (Inr _, s) \<Rightarrow> (Inr (), s))))"

fun grant_items :: "'s item_port \<Rightarrow> u32 \<Rightarrow> attachment list \<Rightarrow> 's \<Rightarrow> (unit, 's) out" where
  "grant_items I c [] s = (Inr (), s)"
| "grant_items I c (it # items) s =
     and_then (ip_Add I c (att_NameID it) (uint (att_Amount it)) s) (\<lambda>_ s. grant_items I c items s)"

definition CollectItems :: "'s mail_service \<Rightarrow> u32 \<Rightarrow> int \<Rightarrow> 's \<Rightarrow> (unit, 's) out" where
  "CollectItems V c i s =
     and_then (mp_Get (mv_repo V) c i s) (\<lambda>m s.
       if mail_Items m = [] then (Inl ErrMailNotFound, s)
       else case mv_inv V of
         None \<Rightarrow> (Inl (ErrText ''inventory not wired''), s)
       | Some I \<Rightarrow>
           and_then (grant_items I c (mail_Items m) s) (\<lambda>_ s. mp_ClearItems (mv_repo V) i s))"

definition CheckReceiver :: "'s mail_service \<Rightarrow> string \<Rightarrow> 's \<Rightarrow> (recipient, 's) out" where
  "CheckReceiver V name s = mp_LookupRecipient (mv_repo V) name s"

definition UnreadCount :: "'s mail_service \<Rightarrow> u32 \<Rightarrow> 's \<Rightarrow> (nat, 's) out" where
  "UnreadCount V c s = mp_CountUnread (mv_repo V) c s"

section \<open>What the service relies on\<close>

text \<open>Units of item \<open>m\<close> among attachments; attachments name rows of \<open>c\<close> with their item id.\<close>

definition attach_sum :: "u32 \<Rightarrow> attachment list \<Rightarrow> int" where
  "attach_sum m items = sum_list (map (\<lambda>a. if att_NameID a = m then uint (att_Amount a) else 0) items)"

lemma attach_sum_simps [simp]:
  "attach_sum m [] = 0"
  "attach_sum m (a # items) = (if att_NameID a = m then uint (att_Amount a) else 0) + attach_sum m items"
  "attach_sum m (xs @ ys) = attach_sum m xs + attach_sum m ys"
  by (simp_all add: attach_sum_def)

lemma attach_sum_time [simp]: "attach_sum m (map (att_Time_update f) items) = attach_sum m items"
  by (induction items) simp_all

lemma filed_items_eq: "filed_items i items = map2 (\<lambda>k a. a\<lparr>att_MailID := i, att_Index := int k\<rparr>) [0..<length items] items"
  by (simp add: filed_items_def enumerate_eq_zip)

lemma attach_sum_map2: "length ks = length items \<Longrightarrow>
    attach_sum m (map2 (\<lambda>k a. a\<lparr>att_MailID := i, att_Index := f k\<rparr>) ks items) = attach_sum m items"
  by (induction ks items rule: list_induct2) simp_all

lemma attach_sum_filed [simp]: "attach_sum m (filed_items i items) = attach_sum m items"
  by (simp add: filed_items_eq attach_sum_map2)

definition positive_att :: "attachment list \<Rightarrow> bool" where
  "positive_att items \<longleftrightarrow> list_all (\<lambda>a. 0 < uint (att_Amount a)) items"

lemma positive_att_simps [simp]:
  "positive_att []" "positive_att (a # items) \<longleftrightarrow> 0 < uint (att_Amount a) \<and> positive_att items"
  "positive_att (xs @ ys) \<longleftrightarrow> positive_att xs \<and> positive_att ys"
  "positive_att (map (att_Time_update f) items) = positive_att items"
  by (auto simp: positive_att_def list_all_iff)

lemma positive_filed [simp]: "positive_att (filed_items i items) = positive_att items"
proof -
  have "length ks = length items \<Longrightarrow>
      positive_att (map2 (\<lambda>k a. a\<lparr>att_MailID := i, att_Index := int k\<rparr>) ks items) = positive_att items" for ks
    by (induction ks items rule: list_induct2) simp_all
  then show ?thesis by (simp add: filed_items_eq)
qed

definition owned_att :: "(u32 \<Rightarrow> item option) \<Rightarrow> u32 \<Rightarrow> attachment list \<Rightarrow> bool" where
  "owned_att rows c items \<longleftrightarrow> list_all (\<lambda>a. case rows (ucast (att_UniqueID a)) of
     None \<Rightarrow> True | Some it \<Rightarrow> it_CharID it = c \<and> it_NameID it = att_NameID a) items"

lemma owned_att_Cons: "owned_att r c (a # items) \<longleftrightarrow> owned_att r c [a] \<and> owned_att r c items"
  by (simp add: owned_att_def)

lemma owned_att_shrunk: "owned_att r c items \<Longrightarrow> shrunk r r' \<Longrightarrow> owned_att r' c items"
  unfolding owned_att_def shrunk_def list_all_iff by (fastforce split: option.splits)

text \<open>A method on the mail with id \<open>i\<close> that replaces it by \<open>f\<close> of it (\<open>None\<close> deletes).\<close>

definition edits_box ::
  "('s \<Rightarrow> bool) \<Rightarrow> ('s \<Rightarrow> nat) \<Rightarrow> ('s \<Rightarrow> int \<Rightarrow> mail option) \<Rightarrow> (int \<Rightarrow> 's \<Rightarrow> (unit, 's) out) \<Rightarrow> (mail \<Rightarrow> mail option) \<Rightarrow> bool" where
  "edits_box minv mroom boxes f g \<longleftrightarrow> (\<forall>s i. minv s \<longrightarrow>
     (case boxes s i of
        None \<Rightarrow> f i s = (Inl ErrMailNotFound, s)
      | Some m \<Rightarrow> (\<exists>s'. f i s = (Inr (), s') \<and> minv s' \<and> mroom s' = mroom s \<and> boxes s' = (boxes s)(i := g m))))"

lemma edits_boxD:
  assumes "edits_box minv mroom boxes f g" and "minv s"
  shows "boxes s i = None \<Longrightarrow> f i s = (Inl ErrMailNotFound, s)"
    and "boxes s i = Some m \<Longrightarrow> \<exists>s'. f i s = (Inr (), s') \<and> minv s' \<and> mroom s' = mroom s \<and> boxes s' = (boxes s)(i := g m)"
  using spec [OF spec [OF assms(1) [unfolded edits_box_def], of s], of i] assms(2) by auto

locale mail_store =
  fixes M :: "'s mail_port"
    and boxes :: "'s \<Rightarrow> int \<Rightarrow> mail option"
    and minv :: "'s \<Rightarrow> bool"
    and mroom :: "'s \<Rightarrow> nat"
  assumes finite_boxes: "minv s \<Longrightarrow> finite (dom (boxes s))"
    and create_ok: "minv s \<Longrightarrow> 0 < mroom s \<Longrightarrow>
        card {i. \<exists>x. boxes s i = Some x \<and> mail_DestID x = mail_DestID m} < MaxInbox \<Longrightarrow>
      \<exists>i s'. mp_Create M m s = (Inr (m\<lparr>mail_ID := i, mail_Items := filed_items i (mail_Items m)\<rparr>), s') \<and>
        minv s' \<and> mroom s \<le> mroom s' + 1 \<and> boxes s i = None \<and>
        boxes s' = (boxes s)(i \<mapsto> m\<lparr>mail_ID := i, mail_Items := filed_items i (mail_Items m)\<rparr>)"
    and create_full: "minv s \<Longrightarrow> MaxInbox \<le> card {i. \<exists>x. boxes s i = Some x \<and> mail_DestID x = mail_DestID m} \<Longrightarrow>
      mp_Create M m s = (Inl ErrInboxFull, s)"
    and inbox_ok: "minv s \<Longrightarrow> \<exists>xs s'. mp_Inbox M c s = (Inr xs, s') \<and> minv s' \<and> mroom s' = mroom s \<and>
      boxes s' = (\<lambda>i. map_option (flip_new c) (boxes s i))"
    and get_ok: "minv s \<Longrightarrow> mp_Get M c i s =
      (case boxes s i of None \<Rightarrow> Inl ErrMailNotFound
       | Some m \<Rightarrow> if mail_DestID m = c then Inr m else Inl ErrMailNotFound, s)"
    and set_status: "edits_box minv mroom boxes (\<lambda>i. mp_SetStatus M i st) (\<lambda>m. Some (m\<lparr>mail_Status := st\<rparr>))"
    and clear_zeny: "edits_box minv mroom boxes (mp_ClearZeny M) (\<lambda>m. Some (m\<lparr>mail_Zeny := 0\<rparr>))"
    and set_zeny: "edits_box minv mroom boxes (\<lambda>i. mp_SetZeny M i z) (\<lambda>m. Some (m\<lparr>mail_Zeny := z\<rparr>))"
    and clear_items: "edits_box minv mroom boxes (mp_ClearItems M) (\<lambda>m. Some (m\<lparr>mail_Items := []\<rparr>))"
    and delete_ok: "edits_box minv mroom boxes (mp_Delete M) (\<lambda>m. None)"
    and reads_pure: "snd (mp_LookupRecipient M n s) = s" "snd (mp_CountUnread M c s) = s"
begin

text \<open>What the mails hold: units of an item, and zeny.\<close>

definition posted :: "'s \<Rightarrow> u32 \<Rightarrow> int" where
  "posted s k = (\<Sum>i\<in>dom (boxes s). attach_sum k (mail_Items (the (boxes s i))))"

definition escrow :: "'s \<Rightarrow> int" where
  "escrow s = (\<Sum>i\<in>dom (boxes s). mail_Zeny (the (boxes s i)))"

end

lemma sum_dom_upd:
  fixes g :: "'v \<Rightarrow> int"
  assumes "finite (dom f)"
  shows "(\<Sum>k\<in>dom (f(i := v)). g (the ((f(i := v)) k))) = (\<Sum>k\<in>dom f. g (the (f k)))
    - (case f i of None \<Rightarrow> 0 | Some x \<Rightarrow> g x) + (case v of None \<Rightarrow> 0 | Some x \<Rightarrow> g x)"
proof -
  let ?D = "dom f - {i}"
  have split: "(\<Sum>k\<in>dom h. g (the (h k))) = (\<Sum>k\<in>dom h - {i}. g (the (h k))) + (case h i of None \<Rightarrow> 0 | Some x \<Rightarrow> g x)"
    if "finite (dom h)" for h
    using that by (cases "h i") (auto simp: sum.remove [of "dom h" i] domIff)
  have eq: "dom (f(i := v)) - {i} = ?D"
    by auto
  have "(\<Sum>k\<in>dom (f(i := v)) - {i}. g (the ((f(i := v)) k))) = (\<Sum>k\<in>?D. g (the (f k)))"
    unfolding eq by (intro sum.cong) auto
  then show ?thesis
    using split [of "f(i := v)"] split [OF assms] assms by simp
qed

definition mail_purse :: "'s mail_econ \<Rightarrow> 's econ_port" where
  "mail_purse E = \<lparr>ep_Deduct = me_DeductZeny E, ep_Credit = me_CreditZeny E\<rparr>"

lemma mail_purse_simps [simp]: "ep_Deduct (mail_purse E) = me_DeductZeny E" "ep_Credit (mail_purse E) = me_CreditZeny E"
  by (simp_all add: mail_purse_def)

text \<open>What a send costs, and a balance paid back.\<close>

definition postage :: "int \<Rightarrow> nat \<Rightarrow> int" where
  "postage zeny n = zeny + zeny * 2 div 100 + int n * 2500"

text \<open>The part of it that nobody receives, when the send answers \<open>r\<close>: the tax on the zeny and the price of the attachments.\<close>

definition spent_postage :: "'a res \<Rightarrow> int \<Rightarrow> nat \<Rightarrow> int" where
  "spent_postage r zeny n = (case r of Inl _ \<Rightarrow> 0 | Inr _ \<Rightarrow> zeny * 2 div 100 + int n * 2500)"

definition refund :: "int \<Rightarrow> u32 \<Rightarrow> (u32 \<Rightarrow> int option) \<Rightarrow> u32 \<Rightarrow> int option" where
  "refund n c b = (if 0 < n then b(c := map_option (\<lambda>x. x + n) (b c)) else b)"

definition sound_mail :: "mail \<Rightarrow> bool" where
  "sound_mail m \<longleftrightarrow> 0 \<le> mail_Zeny m \<and> mail_Zeny m < 2 ^ 61 \<and> positive_att (mail_Items m)"

lemma sound_flip [simp]: "sound_mail (flip_new c m) = sound_mail m"
  by (simp add: sound_mail_def flip_new_def)

locale post_office = mk: market "mail_purse E" bal pinv I rows inv room + ms: mail_store M boxes minv mroom
  for E :: "'s mail_econ" and bal pinv and I :: "'s item_port" and rows inv room and M :: "'s mail_port" and boxes minv mroom +
  assumes bal_nonneg: "bal s c = Some b \<Longrightarrow> 0 \<le> b"
    and zeny_pure: "snd (me_GetZeny E c s) = s"
    and zeny_bound: "fst (me_GetZeny E c s) = Inr b \<Longrightarrow> b < 2 ^ 31"
    and zeny_known: "pinv s \<Longrightarrow> c \<noteq> 0 \<Longrightarrow> bal s c = Some b \<Longrightarrow> b < 2 ^ 31 \<Longrightarrow> me_GetZeny E c s = (Inr b, s)"
    and game_frame: "me_DeductZeny E c n s = (r, s') \<or> me_CreditZeny E c n s = (r, s') \<or>
        (\<exists>x. ip_Add I c k n s = (x, s')) \<or> ip_Remove I i n s = (r, s') \<Longrightarrow>
      boxes s' = boxes s \<and> mroom s' = mroom s \<and> (minv s \<longrightarrow> minv s')"
    and mail_frame: "(\<exists>x. mp_Create M m s = (x, s')) \<or> (\<exists>x. mp_Inbox M c s = (x, s')) \<or> mp_SetStatus M j st s = (r, s') \<or>
        mp_ClearZeny M j s = (r, s') \<or> mp_SetZeny M j z s = (r, s') \<or> mp_ClearItems M j s = (r, s') \<or> mp_Delete M j s = (r, s') \<Longrightarrow>
      bal s' = bal s \<and> rows s' = rows s \<and> room s' = room s \<and> (inv s \<longrightarrow> inv s') \<and> (pinv s \<longrightarrow> pinv s')"
begin

abbreviation held :: "'s \<Rightarrow> u32 \<Rightarrow> u32 \<Rightarrow> int" where
  "held \<equiv> mk.held"

definition office :: "'s mail_service" where
  "office = \<lparr>mv_repo = M, mv_econ = Some E, mv_inv = Some I\<rparr>"

lemma office_simps [simp]: "mv_repo office = M" "mv_econ office = Some E" "mv_inv office = Some I"
  by (simp_all add: office_def)

text \<open>The stores are consistent and every mail is sound; \<open>same_post\<close> is what bag and purse calls keep.\<close>

definition ok :: "'s \<Rightarrow> bool" where
  "ok s \<longleftrightarrow> inv s \<and> pinv s \<and> minv s \<and> (\<forall>i m. boxes s i = Some m \<longrightarrow> sound_mail m)"

definition same_post :: "'s \<Rightarrow> 's \<Rightarrow> bool" where
  "same_post s s' \<longleftrightarrow> boxes s' = boxes s \<and> mroom s' = mroom s \<and> (minv s \<longrightarrow> minv s')"

lemma same_post_refl [simp]: "same_post s s"
  by (simp add: same_post_def)

lemma same_post_trans: "same_post s t \<Longrightarrow> same_post t u \<Longrightarrow> same_post s u"
  by (simp add: same_post_def)

lemma same_post_calls:
  "me_DeductZeny E c n s = (r, s') \<Longrightarrow> same_post s s'"
  "me_CreditZeny E c n s = (r, s') \<Longrightarrow> same_post s s'"
  "ip_Add I c k n s = (x, s') \<Longrightarrow> same_post s s'"
  "ip_Remove I i n s = (r, s') \<Longrightarrow> same_post s s'"
  unfolding same_post_def using game_frame by blast+

lemma held_same: "rows s' = rows s \<Longrightarrow> held s' = held s"
  by (rule mk.held_rows)

text \<open>Re-adding attachments to \<open>c\<close>'s bag.\<close>

lemma add_spec:
  assumes "inv s" "pinv s" "0 < room s" "0 < uint (att_Amount a)"
  shows "\<exists>it s'. ip_Add I c (att_NameID a) (uint (att_Amount a)) s = (Inr it, s') \<and> inv s' \<and> pinv s' \<and>
    same_post s s' \<and> bal s' = bal s \<and> room s \<le> room s' + 1 \<and>
    (\<forall>c' k. held s' c' k = held s c' k + (if c' = c then attach_sum k [a] else 0))"
proof -
  have n: "uint (att_Amount a) < 2 ^ 32"
    using uint_lt2p [of "att_Amount a"] by simp
  obtain it s' where s': "ip_Add I c (att_NameID a) (uint (att_Amount a)) s = (Inr it, s')" "inv s'" "room s \<le> room s' + 1"
      "\<forall>c' m'. held s' c' m' = held s c' m' + (if c' = c \<and> m' = att_NameID a then uint (att_Amount a) else 0)"
    using mk.held_add [OF assms(1,3,4) n] by blast
  then show ?thesis
    using same_post_calls(3) [OF s'(1)] mk.items_frame(1) [OF s'(1)] assms(2) by auto
qed

lemma readd_spec:
  assumes "inv s" "pinv s" "length items \<le> room s" "positive_att items"
  shows "\<exists>s'. readd_all I c items errs s = (errs, s') \<and> inv s' \<and> pinv s' \<and> same_post s s' \<and> bal s' = bal s \<and>
    (\<forall>c' k. held s' c' k = held s c' k + (if c' = c then attach_sum k items else 0))"
  using assms
proof (induction items arbitrary: s)
  case (Cons a items)
  obtain it s1 where s1: "ip_Add I c (att_NameID a) (uint (att_Amount a)) s = (Inr it, s1)" "inv s1" "pinv s1"
      "same_post s s1" "bal s1 = bal s" "room s \<le> room s1 + 1"
      "\<forall>c' k. held s1 c' k = held s c' k + (if c' = c then attach_sum k [a] else 0)"
    using add_spec [of s a c] Cons.prems by auto
  have "length items \<le> room s1"
    using s1(6) Cons.prems(3) by simp
  then obtain s2 where "readd_all I c items errs s1 = (errs, s2)" "inv s2" "pinv s2" "same_post s1 s2" "bal s2 = bal s1"
      "\<forall>c' k. held s2 c' k = held s1 c' k + (if c' = c then attach_sum k items else 0)"
    using Cons.IH [OF s1(2,3)] Cons.prems(4) by auto
  then show ?case
    using s1 same_post_trans [of s s1 s2] by auto
qed simp

text \<open>Paying back a charge that was taken, and the attachments lifted so far.\<close>

lemma compensate_spec:
  assumes inv: "inv s" "pinv s" and c: "c \<noteq> 0" and room: "length items \<le> room s" and pos: "positive_att items"
    and paid: "0 < n \<Longrightarrow> n < 2 ^ 31 \<and> accepts (bal s c) n"
  shows "\<exists>s'. snd (compensate office c items n s) = s' \<and> inv s' \<and> pinv s' \<and> same_post s s' \<and>
    bal s' = refund n c (bal s) \<and>
    (\<forall>c' k. held s' c' k = held s c' k + (if c' = c then attach_sum k items else 0))"
proof -
  have "\<exists>s1. (if n > 0 then (case me_CreditZeny E c (i32 n) s of (Inl e, s) \<Rightarrow> ([e], s) | (Inr _, s) \<Rightarrow> ([], s)) else ([], s)) = ([], s1) \<and>
      inv s1 \<and> pinv s1 \<and> same_post s s1 \<and> bal s1 = refund n c (bal s) \<and> rows s1 = rows s \<and> room s1 = room s"
  proof (cases "0 < n")
    case True
    then have "i32 n = n"
      using paid by (intro i32_id) (simp add: in_i32_def)
    moreover obtain s1 where s1: "me_CreditZeny E c n s = (Inr (), s1)" "pinv s1" "bal s1 = (bal s)(c := map_option (\<lambda>b. b + n) (bal s c))"
      using mk.gain_ok [OF inv(2) c True] paid [OF True] by auto
    moreover have "rows s1 = rows s \<and> inv s1 \<and> room s1 = room s"
      using mk.purse_frame(2) [of c n s] s1(1) inv(1) by simp
    ultimately show ?thesis
      using True same_post_calls(2) [OF s1(1)] by (simp add: refund_def)
  qed (simp add: refund_def inv)
  then obtain s1 where s1: "(if n > 0 then (case me_CreditZeny E c (i32 n) s of (Inl e, s) \<Rightarrow> ([e], s) | (Inr _, s) \<Rightarrow> ([], s)) else ([], s)) = ([], s1)"
      "inv s1" "pinv s1" "same_post s s1" "bal s1 = refund n c (bal s)" "rows s1 = rows s" "room s1 = room s"
    by blast
  obtain s2 where s2: "readd_all I c items [] s1 = ([], s2)" "inv s2" "pinv s2" "same_post s1 s2" "bal s2 = bal s1"
      "\<forall>c' k. held s2 c' k = held s1 c' k + (if c' = c then attach_sum k items else 0)"
    using readd_spec [OF s1(2,3), where items = items and errs = "[]" and c = c] room pos s1(7) by auto
  show ?thesis
    using s1 s2 same_post_trans [OF s1(4) s2(4)] held_same [OF s1(6)]
    by (intro exI [of _ s2]) (simp add: compensate_def)
qed

lemma remove_spec:
  assumes inv: "inv s" "pinv s" and own: "owned_att (rows s) c [a]" and pos: "0 < uint (att_Amount a)"
  shows "(\<exists>e. ip_Remove I (ucast (att_UniqueID a)) (uint (att_Amount a)) s = (Inl e, s)) \<or>
    (\<exists>s'. ip_Remove I (ucast (att_UniqueID a)) (uint (att_Amount a)) s = (Inr (), s') \<and> inv s' \<and> pinv s' \<and>
      same_post s s' \<and> bal s' = bal s \<and> room s' = room s \<and> shrunk (rows s) (rows s') \<and>
      (\<forall>c' k. held s' c' k = held s c' k - (if c' = c then attach_sum k [a] else 0)))"
proof (cases "rows s (ucast (att_UniqueID a))")
  case None
  then show ?thesis
    using mk.remove_missing by blast
next
  case (Some it)
  let ?n = "uint (att_Amount a)"
  show ?thesis
  proof (cases "?n \<le> uint (it_Amount it)")
    case True
    obtain s' where s': "ip_Remove I (ucast (att_UniqueID a)) ?n s = (Inr (), s')" "inv s'" "room s' = room s"
        "\<forall>c m. held s' c m = held s c m - (if c = it_CharID it \<and> m = it_NameID it then ?n else 0)"
      using mk.held_remove [OF inv(1) Some pos True] by blast
    have "rows s' = (rows s)(ucast (att_UniqueID a) := (if ?n = uint (it_Amount it) then None
        else Some (it\<lparr>it_Amount := it_Amount it - word_of_int ?n\<rparr>)))"
      using mk.remove_ok [OF inv(1) Some pos True] s'(1) by auto
    then have "shrunk (rows s) (rows s')"
      using Some by (auto simp: shrunk_def split: if_splits)
    moreover have "it_CharID it = c" "it_NameID it = att_NameID a"
      using own Some by (simp_all add: owned_att_def)
    ultimately show ?thesis
      using s' same_post_calls(4) [OF s'(1)] mk.items_frame(2) [OF s'(1)] inv(2) by auto
  next
    case False
    then show ?thesis
      using mk.remove_short [OF Some, of ?n] by auto
  qed
qed

lemma lift_spec:
  assumes "inv s" "pinv s" "c \<noteq> 0" "owned_att (rows s) c items" "positive_att items" "positive_att moved"
    and "length moved + length items \<le> room s" and "0 < n \<Longrightarrow> n < 2 ^ 31 \<and> accepts (bal s c) n"
  shows "\<exists>r s'. lift_items office I c n moved items s = (r, s') \<and> inv s' \<and> pinv s' \<and> same_post s s' \<and>
    (case r of
       Inl e \<Rightarrow> bal s' = refund n c (bal s) \<and>
         (\<forall>c' k. held s' c' k = held s c' k + (if c' = c then attach_sum k moved else 0))
     | Inr _ \<Rightarrow> bal s' = bal s \<and> room s' = room s \<and>
         (\<forall>c' k. held s' c' k = held s c' k - (if c' = c then attach_sum k items else 0)))"
  using assms
proof (induction items arbitrary: s moved)
  case (Cons a items)
  have own: "owned_att (rows s) c [a]" "owned_att (rows s) c items"
    using Cons.prems(4) owned_att_Cons [of "rows s" c a items] by simp_all
  from remove_spec [OF Cons.prems(1,2) own(1)] Cons.prems(5)
  consider (fail) e where "ip_Remove I (ucast (att_UniqueID a)) (uint (att_Amount a)) s = (Inl e, s)"
    | (gone) s1 where "ip_Remove I (ucast (att_UniqueID a)) (uint (att_Amount a)) s = (Inr (), s1)" "inv s1" "pinv s1"
        "same_post s s1" "bal s1 = bal s" "room s1 = room s" "shrunk (rows s) (rows s1)"
        "\<forall>c' k. held s1 c' k = held s c' k - (if c' = c then attach_sum k [a] else 0)"
    by auto
  then show ?case
  proof cases
    case fail
    obtain s' where "snd (compensate office c moved n s) = s'" "inv s'" "pinv s'" "same_post s s'"
        "bal s' = refund n c (bal s)" "\<forall>c' k. held s' c' k = held s c' k + (if c' = c then attach_sum k moved else 0)"
      using compensate_spec [OF Cons.prems(1-3) _ Cons.prems(6,8)] Cons.prems(7) by auto
    then show ?thesis
      using fail by simp
  next
    case gone
    have "length (moved @ [a]) + length items \<le> room s1"
      using Cons.prems(7) gone(6) by simp
    moreover have "positive_att (moved @ [a])" "positive_att items"
      using Cons.prems(5,6) by simp_all
    moreover have "0 < n \<Longrightarrow> n < 2 ^ 31 \<and> accepts (bal s1 c) n"
      using Cons.prems(8) gone(5) by simp
    ultimately obtain r s' where s': "lift_items office I c n (moved @ [a]) items s1 = (r, s')" "inv s'" "pinv s'" "same_post s1 s'"
        "case r of
           Inl e \<Rightarrow> bal s' = refund n c (bal s1) \<and>
             (\<forall>c' k. held s' c' k = held s1 c' k + (if c' = c then attach_sum k (moved @ [a]) else 0))
         | Inr _ \<Rightarrow> bal s' = bal s1 \<and> room s' = room s1 \<and>
             (\<forall>c' k. held s' c' k = held s1 c' k - (if c' = c then attach_sum k items else 0))"
      using Cons.IH [OF gone(2,3) Cons.prems(3) owned_att_shrunk [OF own(2) gone(7)]] by blast
    have "lift_items office I c n moved (a # items) s = (r, s')"
      using gone(1) s'(1) by simp
    then show ?thesis
      using s'(2-5) gone(5,6,8) same_post_trans [OF gone(4) s'(4)] by (cases r) auto
  qed
qed simp

lemma postage_bounds:
  assumes "0 \<le> zeny" "zeny < 2 ^ 61" "n < 2 ^ 40"
  shows "i64 (i64 (zeny + go_div (i64 (zeny * zenyFeePercent)) 100) + i64 (int n * attachPrice)) = postage zeny n"
    and "0 \<le> postage zeny n"
proof -
  have fee: "i64 (zeny * zenyFeePercent) = zeny * 2"
    using assms(1,2) by (intro i64_id [THEN trans]) (simp_all add: zenyFeePercent_def)
  have d: "go_div (zeny * 2) 100 = zeny * 2 div 100" "0 \<le> zeny * 2 div 100" "zeny * 2 div 100 \<le> zeny"
    using assms(1) by (simp_all add: go_div_nonneg)
  have att: "i64 (int n * attachPrice) = int n * 2500"
    using assms(3) by (intro i64_id [THEN trans]) (simp_all add: attachPrice_def)
  have "i64 (zeny + zeny * 2 div 100) = zeny + zeny * 2 div 100"
    using assms(1,2) d by (intro i64_id) simp
  moreover have "i64 (zeny + zeny * 2 div 100 + int n * 2500) = zeny + zeny * 2 div 100 + int n * 2500"
    using assms d by (intro i64_id) simp
  ultimately show "i64 (i64 (zeny + go_div (i64 (zeny * zenyFeePercent)) 100) + i64 (int n * attachPrice)) = postage zeny n"
    by (simp add: fee d(1) att postage_def)
  show "0 \<le> postage zeny n"
    using assms(1) d by (simp add: postage_def)
qed

lemma charge_spec:
  assumes inv: "inv s" "pinv s" and c: "c \<noteq> 0" and z: "0 \<le> zeny" "zeny < 2 ^ 61" "n < 2 ^ 40"
  shows "(\<exists>e. mail_charge office c zeny n s = (Inl e, s)) \<or>
    (\<exists>s'. mail_charge office c zeny n s = (Inr (postage zeny n), s') \<and> inv s' \<and> pinv s' \<and> same_post s s' \<and>
      rows s' = rows s \<and> room s' = room s \<and> refund (postage zeny n) c (bal s') = bal s \<and>
      (\<forall>c'. bal s' c' = map_option (\<lambda>b. b - (if c' = c then postage zeny n else 0)) (bal s c')) \<and>
      (0 < postage zeny n \<longrightarrow> postage zeny n < 2 ^ 31 \<and> accepts (bal s' c) (postage zeny n) \<and>
         pays (bal s c) (postage zeny n)))"
proof -
  let ?t = "postage zeny n"
  note t = postage_bounds [OF z]
  consider (free) "?t = 0" | (big) "maxZeny < ?t" | (paid) "0 < ?t" "?t \<le> maxZeny"
    using t(2) by linarith
  then show ?thesis
  proof cases
    case free
    then show ?thesis
      using inv by (simp add: mail_charge_def t refund_def option.map_ident)
  next
    case big
    then show ?thesis
      by (simp add: mail_charge_def t maxZeny_def)
  next
    case paid
    then have t31: "?t < 2 ^ 31" "i32 ?t = ?t"
      by (simp_all add: maxZeny_def i32_id in_i32_def)
    obtain g where g: "me_GetZeny E c s = (g, s)"
      using zeny_pure [of c s] by (metis prod.collapse)
    have run: "mail_charge office c zeny n s = (case g of Inl e \<Rightarrow> (Inl e, s)
        | Inr b \<Rightarrow> if b < ?t then (Inl (ErrText ''need zeny''), s)
            else and_then (me_DeductZeny E c ?t s) (\<lambda>_ s. (Inr ?t, s)))"
      using paid by (cases g) (simp_all add: mail_charge_def Let_def t t31 g)
    show ?thesis
    proof (cases "pays (bal s c) ?t")
      case False
      then obtain e where "me_DeductZeny E c ?t s = (Inl e, s)"
        using mk.pay_short [OF inv(2) c t31(1)] by auto
      then show ?thesis
        by (auto simp: run split: sum.split)
    next
      case True
      then obtain b where b: "bal s c = Some b" "b < 2 ^ 31" "?t \<le> b"
        by (auto simp: pays_iff)
      obtain s1 where s1: "me_DeductZeny E c ?t s = (Inr (), s1)" "pinv s1" "bal s1 = (bal s)(c := map_option (\<lambda>b. b - ?t) (bal s c))"
        using mk.pay_ok [OF inv(2) c paid(1) t31(1) True] by auto
      have f: "rows s1 = rows s" "inv s1" "room s1 = room s"
        using mk.purse_frame(1) [of c ?t s] s1(1) inv(1) by auto
      have "mail_charge office c zeny n s = (Inr ?t, s1)"
        using zeny_known [OF inv(2) c b(1,2)] g b(3) s1(1) by (simp add: run)
      then show ?thesis
        using f s1 b paid t31(1) same_post_calls(1) [OF s1(1)]
        by (auto simp: refund_def fun_eq_iff option.map_ident)
    qed
  qed
qed

text \<open>A send: everything moves, or nothing does.\<close>

lemma send_spec:
  assumes ok: "ok s" and c: "c \<noteq> 0" and z: "0 \<le> zeny" "zeny < 2 ^ 61" and n: "length items < 2 ^ 40"
    and own: "owned_att (rows s) c items" and pos: "positive_att items"
    and room: "length items \<le> room s" "0 < mroom s"
  shows "\<exists>r s'. mail_Send office now c sn rn title body zeny items s = (r, s') \<and> ok s' \<and>
    (case r of
       Inl e \<Rightarrow> held s' = held s \<and> bal s' = bal s \<and> boxes s' = boxes s
     | Inr d \<Rightarrow> (0 < postage zeny (length items) \<longrightarrow> pays (bal s c) (postage zeny (length items))) \<and>
         bal s' = (\<lambda>c'. map_option (\<lambda>b. b - (if c' = c then postage zeny (length items) else 0)) (bal s c')) \<and>
         (\<forall>c' k. held s' c' k = held s c' k - (if c' = c then attach_sum k items else 0)) \<and>
         (\<exists>i m. boxes s i = None \<and> boxes s' = (boxes s)(i \<mapsto> m) \<and> mail_DestID m = d \<and> mail_SenderID m = c \<and>
            mail_Zeny m = zeny \<and> sound_mail m \<and> (\<forall>k. attach_sum k (mail_Items m) = attach_sum k items)))"
proof -
  let ?t = "postage zeny (length items)"
  note st = ok [unfolded ok_def]
  have refuse: ?thesis if "mail_Send office now c sn rn title body zeny items s = (Inl e, s')" "inv s'" "pinv s'"
      "same_post s s'" "held s' = held s" "bal s' = bal s" for e s'
    using that st by (auto simp: ok_def same_post_def)
  have same: ?thesis if "mail_Send office now c sn rn title body zeny items s = (Inl e, s)" for e
    using refuse [OF that] st by simp
  obtain lk where lk: "mp_LookupRecipient M rn s = (lk, s)"
    using ms.reads_pure(1) [of rn s] by (metis prod.collapse)
  show ?thesis
  proof (cases "clampRunes title TitleMax = [] \<or> (\<exists>e. lk = Inl e)")
    case True
    then have "\<exists>e. mail_Send office now c sn rn title body zeny items s = (Inl e, s)"
      using lk by (elim disjE exE) (simp_all add: mail_Send_def Let_def)
    then show ?thesis
      using same by blast
  next
    case False
    then obtain rc where rc: "lk = Inr rc" "clampRunes title TitleMax \<noteq> []"
      by (cases lk) auto
    let ?ch = "mail_charge office c zeny (length items) s"
    let ?items = "map (att_Time_update (\<lambda>_. now)) items"
    define m where "m = \<lparr>mail_ID = 0, mail_SenderID = c, mail_SenderNam = sn, mail_DestID = rec_CharID rc,
      mail_DestName = rec_Name rc, mail_Title = clampRunes title TitleMax, mail_Body = clampRunes body BodyMax, mail_Time = now,
      mail_Status = StatusNew, mail_Zeny = zeny, mail_Type = ucast TypeNormal, mail_Items = ?items\<rparr>"
    have run: "mail_Send office now c sn rn title body zeny items s =
        and_then ?ch (\<lambda>total s. and_then (mail_lift office c items total s) (\<lambda>_ s.
          case mp_Create M m s of
            (Inl e, s) \<Rightarrow> (Inl e, snd (compensate office c ?items total s))
          | (Inr _, s) \<Rightarrow> (Inr (rec_CharID rc), s)))"
      using rc z(1) by (simp add: mail_Send_def Let_def lk m_def)
    from charge_spec [OF _ _ c z n, of s] st
    consider (broke) e where "?ch = (Inl e, s)"
      | (paid) s1 where "?ch = (Inr ?t, s1)" "inv s1" "pinv s1" "same_post s s1" "rows s1 = rows s" "room s1 = room s"
          "refund ?t c (bal s1) = bal s"
          "\<forall>c'. bal s1 c' = map_option (\<lambda>b. b - (if c' = c then ?t else 0)) (bal s c')"
          "0 < ?t \<longrightarrow> ?t < 2 ^ 31 \<and> accepts (bal s1 c) ?t \<and> pays (bal s c) ?t"
      by blast
    then show ?thesis
    proof cases
      case broke
      then show ?thesis by (intro same) (simp add: run)
    next
      case paid
      have lift: "mail_lift office c items ?t s1 = lift_items office I c ?t [] items s1"
        by (cases items) (simp_all add: mail_lift_def)
      obtain r s2 where s2: "lift_items office I c ?t [] items s1 = (r, s2)" "inv s2" "pinv s2" "same_post s1 s2"
          "case r of
             Inl e \<Rightarrow> bal s2 = refund ?t c (bal s1) \<and>
               (\<forall>c' k. held s2 c' k = held s1 c' k + (if c' = c then attach_sum k [] else 0))
           | Inr _ \<Rightarrow> bal s2 = bal s1 \<and> room s2 = room s1 \<and>
               (\<forall>c' k. held s2 c' k = held s1 c' k - (if c' = c then attach_sum k items else 0))"
        using lift_spec [OF paid(2,3) c, of items "[]" ?t] own pos room(1) paid(5,6,9)
        by (simp only: positive_att_simps list.size add_0 simp_thms) blast
      have sp: "same_post s s2"
        using same_post_trans [OF paid(4) s2(4)] .
      show ?thesis
      proof (cases r)
        case (Inl e)
        then have "held s2 = held s"
          using s2(5) held_same [OF paid(5)] by (simp add: fun_eq_iff)
        then show ?thesis
          using Inl s2 paid(1,7) by (intro refuse [of e s2]) (simp_all add: run lift sp)
      next
        case (Inr u)
        have s2': "bal s2 = bal s1" "room s2 = room s"
            "\<forall>c' k. held s2 c' k = held s c' k - (if c' = c then attach_sum k items else 0)"
          using s2(5) Inr paid(6) held_same [OF paid(5)] by simp_all
        have p2: "minv s2" "0 < mroom s2" "boxes s2 = boxes s"
          using sp st room by (simp_all add: same_post_def)
        have run2: "mail_Send office now c sn rn title body zeny items s =
            (case mp_Create M m s2 of
               (Inl e, s) \<Rightarrow> (Inl e, snd (compensate office c ?items ?t s))
             | (Inr _, s) \<Rightarrow> (Inr (rec_CharID rc), s))"
          using paid(1) s2(1) Inr by (simp add: run lift)
        show ?thesis
        proof (cases "card {i. \<exists>x. boxes s2 i = Some x \<and> mail_DestID x = mail_DestID m} < MaxInbox")
          case False
          then have "mp_Create M m s2 = (Inl ErrInboxFull, s2)"
            using ms.create_full [OF p2(1)] by simp
          moreover obtain s3 where s3: "snd (compensate office c ?items ?t s2) = s3" "inv s3" "pinv s3" "same_post s2 s3"
              "bal s3 = refund ?t c (bal s2)"
              "\<forall>c' k. held s3 c' k = held s2 c' k + (if c' = c then attach_sum k ?items else 0)"
            using compensate_spec [OF s2(2,3) c, of ?items ?t] room pos paid(9) s2'(1,2) by auto
          moreover have "held s3 = held s" "bal s3 = bal s"
            using s3(5,6) s2'(1,3) paid(7) by (simp_all add: fun_eq_iff)
          ultimately show ?thesis
            using same_post_trans [OF sp s3(4)] by (intro refuse [of ErrInboxFull s3]) (simp_all add: run2)
        next
          case True
          then obtain i s3 where s3: "mp_Create M m s2 = (Inr (m\<lparr>mail_ID := i, mail_Items := filed_items i (mail_Items m)\<rparr>), s3)"
              "minv s3" "boxes s2 i = None"
              "boxes s3 = (boxes s2)(i \<mapsto> m\<lparr>mail_ID := i, mail_Items := filed_items i (mail_Items m)\<rparr>)"
            using ms.create_ok [OF p2(1,2)] by blast
          have f: "bal s3 = bal s2" "rows s3 = rows s2" "inv s3" "pinv s3"
            using mail_frame s3(1) s2(2,3) by blast+
          let ?m = "m\<lparr>mail_ID := i, mail_Items := filed_items i (mail_Items m)\<rparr>"
          have snd_m: "sound_mail ?m"
            using z pos by (simp add: sound_mail_def m_def)
          have "mail_Send office now c sn rn title body zeny items s = (Inr (rec_CharID rc), s3)"
            using s3(1) by (simp add: run2)
          moreover have "ok s3"
            using f s3 p2(3) st snd_m by (auto simp: ok_def)
          moreover have "bal s3 = (\<lambda>c'. map_option (\<lambda>b. b - (if c' = c then ?t else 0)) (bal s c'))"
            using f(1) s2'(1) paid(8) by (simp add: fun_eq_iff)
          moreover have "boxes s i = None \<and> boxes s3 = (boxes s)(i \<mapsto> ?m) \<and> mail_DestID ?m = rec_CharID rc \<and>
              mail_SenderID ?m = c \<and> mail_Zeny ?m = zeny \<and> sound_mail ?m \<and>
              (\<forall>k. attach_sum k (mail_Items ?m) = attach_sum k items)"
            using s3(3,4) p2(3) snd_m by (simp add: m_def)
          ultimately show ?thesis
            using s2'(3) held_same [OF f(2)] paid(9)
            by (intro exI [of _ "Inr (rec_CharID rc)"] exI [of _ s3]) (simp only: sum.case simp_thms, blast)
        qed
      qed
    qed
  qed
qed

text \<open>Collecting zeny pays exactly the mail's zeny, or changes nothing.\<close>

lemma collect_zeny_spec:
  assumes ok: "ok s" and c: "c \<noteq> 0"
  shows "\<exists>r s'. CollectZeny office c i s = (r, s') \<and> ok s' \<and> held s' = held s \<and>
    (case r of
       Inl e \<Rightarrow> bal s' = bal s \<and> boxes s' = boxes s
     | Inr _ \<Rightarrow> \<exists>m. boxes s i = Some m \<and> mail_DestID m = c \<and> 0 < mail_Zeny m \<and> bal s c \<noteq> None \<and>
         bal s' = refund (mail_Zeny m) c (bal s) \<and> boxes s' = (boxes s)(i \<mapsto> m\<lparr>mail_Zeny := 0\<rparr>))"
proof -
  note st = ok [unfolded ok_def]
  obtain g where g: "me_GetZeny E c s = (g, s)"
    using zeny_pure [of c s] by (metis prod.collapse)
  have same: ?thesis if "CollectZeny office c i s = (Inl e, s)" for e
    using that ok by simp
  show ?thesis
  proof (cases "\<exists>m b. boxes s i = Some m \<and> mail_DestID m = c \<and> 0 < mail_Zeny m \<and> g = Inr b \<and> i64 (b + mail_Zeny m) \<le> maxZeny")
    case False
    then have "\<exists>e. CollectZeny office c i s = (Inl e, s)"
      using st by (cases g) (auto simp: CollectZeny_def ms.get_ok g not_le split: option.split)
    then show ?thesis
      using same by blast
  next
    case True
    then obtain m b where m: "boxes s i = Some m" "mail_DestID m = c" "0 < mail_Zeny m" "g = Inr b" "i64 (b + mail_Zeny m) \<le> maxZeny"
      by blast
    have z: "mail_Zeny m < 2 ^ 61"
      using st m(1) by (auto simp: sound_mail_def)
    obtain s1 where s1: "mp_ClearZeny M i s = (Inr (), s1)" "minv s1" "boxes s1 = (boxes s)(i \<mapsto> m\<lparr>mail_Zeny := 0\<rparr>)"
      using edits_boxD(2) [OF ms.clear_zeny _ m(1)] st by blast
    have f1: "bal s1 = bal s" "rows s1 = rows s" "inv s1" "pinv s1"
      using mail_frame [of undefined s s1] s1(1) st by blast+
    have run: "CollectZeny office c i s = (case me_CreditZeny E c (i32 (mail_Zeny m)) s1 of
        (Inl e, s) \<Rightarrow> (Inl e, snd (mp_SetZeny M i (mail_Zeny m) s)) | (Inr _, s) \<Rightarrow> (Inr (), s))"
      unfolding CollectZeny_def office_simps using st m s1(1) by (simp add: ms.get_ok g)
    show ?thesis
    proof (cases "0 < i32 (mail_Zeny m) \<and> accepts (bal s1 c) (i32 (mail_Zeny m))")
      case False
      then obtain e where e: "me_CreditZeny E c (i32 (mail_Zeny m)) s1 = (Inl e, s1)"
        using mk.gain_refused [OF f1(4) c, of "i32 (mail_Zeny m)"] by auto
      obtain s2 where s2: "mp_SetZeny M i (mail_Zeny m) s1 = (Inr (), s2)" "minv s2"
          "boxes s2 = (boxes s1)(i \<mapsto> m\<lparr>mail_Zeny := 0, mail_Zeny := mail_Zeny m\<rparr>)"
        using edits_boxD(2) [OF ms.set_zeny [where z = "mail_Zeny m"] s1(2), of i "m\<lparr>mail_Zeny := 0\<rparr>"] s1(3) by auto
      have f2: "bal s2 = bal s1" "rows s2 = rows s1" "inv s2" "pinv s2"
        using mail_frame [of undefined s1 s2] s2(1) f1(3,4) by blast+
      have "boxes s2 = boxes s"
        using s2(3) s1(3) m(1) by auto
      then show ?thesis
        using e s2(1,2) f1 f2 st held_same [of s2 s] by (simp add: run ok_def)
    next
      case True
      have b: "0 \<le> b \<and> b < 2 ^ 31"
      proof -
        obtain b' where b': "bal s c = Some b'" "b' < 2 ^ 31"
          using True f1(1) by (auto simp: accepts_iff)
        then have "b = b'"
          using zeny_known [OF _ c b'] st g m(4) by auto
        then show ?thesis
          using b' bal_nonneg by blast
      qed
      then have "b + mail_Zeny m \<le> maxZeny"
        using m(5) z m(3) i64_id [of "b + mail_Zeny m"] by simp
      then have i32: "i32 (mail_Zeny m) = mail_Zeny m"
        using b m(3) by (intro i32_id) (simp add: in_i32_def maxZeny_def)
      obtain s2 where s2: "me_CreditZeny E c (mail_Zeny m) s1 = (Inr (), s2)" "pinv s2"
          "bal s2 = (bal s1)(c := map_option (\<lambda>b. b + mail_Zeny m) (bal s1 c))"
        using mk.gain_ok [OF f1(4) c _, of "mail_Zeny m"] True i32 m(3) by auto
      have f2: "rows s2 = rows s1" "inv s2"
        using mk.purse_frame(2) [of c "mail_Zeny m" s1] s2(1) f1(3) by auto
      have "same_post s1 s2"
        using same_post_calls(2) [OF s2(1)] .
      then have p2: "boxes s2 = boxes s1" "minv s2"
        using s1(2) by (simp_all add: same_post_def)
      have "bal s c \<noteq> None"
        using True f1(1) by (auto simp: accepts_iff)
      moreover have "\<forall>j x. boxes s2 j = Some x \<longrightarrow> sound_mail x"
        using p2(1) s1(3) st m(1) by (auto simp: sound_mail_def)
      ultimately show ?thesis
        using s2 f1 f2 p2 s1(3) m st held_same [of s2 s] i32 by (simp add: run ok_def refund_def)
    qed
  qed
qed

lemma grant_spec:
  assumes "inv s" "pinv s" "length items \<le> room s" "positive_att items"
  shows "\<exists>s'. grant_items I c items s = (Inr (), s') \<and> inv s' \<and> pinv s' \<and> same_post s s' \<and> bal s' = bal s \<and>
    (\<forall>c' k. held s' c' k = held s c' k + (if c' = c then attach_sum k items else 0))"
  using assms
proof (induction items arbitrary: s)
  case (Cons a items)
  obtain it s1 where s1: "ip_Add I c (att_NameID a) (uint (att_Amount a)) s = (Inr it, s1)" "inv s1" "pinv s1"
      "same_post s s1" "bal s1 = bal s" "room s \<le> room s1 + 1"
      "\<forall>c' k. held s1 c' k = held s c' k + (if c' = c then attach_sum k [a] else 0)"
    using add_spec [of s a c] Cons.prems by auto
  have "length items \<le> room s1"
    using s1(6) Cons.prems(3) by simp
  then obtain s2 where "grant_items I c items s1 = (Inr (), s2)" "inv s2" "pinv s2" "same_post s1 s2" "bal s2 = bal s1"
      "\<forall>c' k. held s2 c' k = held s1 c' k + (if c' = c then attach_sum k items else 0)"
    using Cons.IH [OF s1(2,3)] Cons.prems(4) by auto
  then show ?case
    using s1 same_post_trans [of s s1 s2] by auto
qed simp

lemma collect_items_spec:
  assumes ok: "ok s" and room: "\<forall>m. boxes s i = Some m \<longrightarrow> length (mail_Items m) \<le> room s"
  shows "\<exists>r s'. CollectItems office c i s = (r, s') \<and> ok s' \<and> bal s' = bal s \<and>
    (case r of
       Inl e \<Rightarrow> held s' = held s \<and> boxes s' = boxes s
     | Inr _ \<Rightarrow> \<exists>m. boxes s i = Some m \<and> mail_DestID m = c \<and>
         (\<forall>c' k. held s' c' k = held s c' k + (if c' = c then attach_sum k (mail_Items m) else 0)) \<and>
         boxes s' = (boxes s)(i \<mapsto> m\<lparr>mail_Items := []\<rparr>))"
proof (cases "\<exists>m. boxes s i = Some m \<and> mail_DestID m = c \<and> mail_Items m \<noteq> []")
  case False
  then have "\<exists>e. CollectItems office c i s = (Inl e, s)"
    using ok by (auto simp: ok_def CollectItems_def ms.get_ok split: option.split)
  then show ?thesis
    using ok by auto
next
  case True
  then obtain m where m: "boxes s i = Some m" "mail_DestID m = c" "mail_Items m \<noteq> []"
    by blast
  note st = ok [unfolded ok_def]
  have "positive_att (mail_Items m)"
    using st m(1) by (simp add: sound_mail_def)
  then obtain s1 where s1: "grant_items I c (mail_Items m) s = (Inr (), s1)" "inv s1" "pinv s1" "same_post s s1" "bal s1 = bal s"
      "\<forall>c' k. held s1 c' k = held s c' k + (if c' = c then attach_sum k (mail_Items m) else 0)"
    using grant_spec [of s "mail_Items m" c] st room m(1) by auto
  have p1: "boxes s1 = boxes s" "minv s1"
    using s1(4) st by (simp_all add: same_post_def)
  obtain s2 where s2: "mp_ClearItems M i s1 = (Inr (), s2)" "minv s2" "boxes s2 = (boxes s1)(i \<mapsto> m\<lparr>mail_Items := []\<rparr>)"
    using edits_boxD(2) [OF ms.clear_items p1(2), of i m] m(1) p1(1) by auto
  have f2: "bal s2 = bal s1" "rows s2 = rows s1" "inv s2" "pinv s2"
    using mail_frame [of undefined s1 s2] s2(1) s1(2,3) by blast+
  have "CollectItems office c i s = (Inr (), s2)"
    using st m s1(1) s2(1) by (simp add: CollectItems_def ms.get_ok)
  moreover have "\<forall>j x. boxes s2 j = Some x \<longrightarrow> sound_mail x"
    using s2(3) p1(1) st m(1) by (auto simp: sound_mail_def)
  ultimately show ?thesis
    using s1(5,6) s2 f2 p1 m held_same [OF f2(2)] by (auto simp: ok_def)
qed

text \<open>Everything there is: units in bags and mails, zeny in purses and mails.\<close>

definition item_total :: "'s \<Rightarrow> u32 \<Rightarrow> int" where
  "item_total s k = (\<Sum>c\<in>UNIV. held s c k) + ms.posted s k"

definition zeny_total :: "'s \<Rightarrow> int" where
  "zeny_total s = (\<Sum>c\<in>UNIV. case bal s c of None \<Rightarrow> 0 | Some b \<Rightarrow> b) + ms.escrow s"

definition conserves :: "int \<Rightarrow> 's \<Rightarrow> 's \<Rightarrow> bool" where
  "conserves fee s s' \<longleftrightarrow> item_total s' = item_total s \<and> zeny_total s' + fee = zeny_total s"

lemma conserves_refl [simp]: "conserves 0 s s"
  by (simp add: conserves_def)

lemma conserves_trans: "conserves fee s t \<Longrightarrow> conserves fee' t u \<Longrightarrow> conserves (fee + fee') s u"
  by (auto simp: conserves_def)

lemma post_upd:
  assumes "minv s" and "boxes s' = (boxes s)(i := v)"
  shows "ms.posted s' k = ms.posted s k - (case boxes s i of None \<Rightarrow> 0 | Some m \<Rightarrow> attach_sum k (mail_Items m))
      + (case v of None \<Rightarrow> 0 | Some m \<Rightarrow> attach_sum k (mail_Items m))"
    and "ms.escrow s' = ms.escrow s - (case boxes s i of None \<Rightarrow> 0 | Some m \<Rightarrow> mail_Zeny m)
      + (case v of None \<Rightarrow> 0 | Some m \<Rightarrow> mail_Zeny m)"
  using sum_dom_upd [OF ms.finite_boxes [OF assms(1)], of "\<lambda>m. attach_sum k (mail_Items m)" i v]
    sum_dom_upd [OF ms.finite_boxes [OF assms(1)], of mail_Zeny i v]
  unfolding ms.posted_def ms.escrow_def assms(2) by simp_all

lemma post_same: "boxes s' = boxes s \<Longrightarrow> ms.posted s' = ms.posted s \<and> ms.escrow s' = ms.escrow s"
  by (simp add: ms.posted_def [abs_def] ms.escrow_def)

lemma held_total: "\<forall>c' k. held s' c' k = held s c' k + (if c' = c then x k else 0) \<Longrightarrow>
    (\<Sum>c'\<in>UNIV. held s' c' k) = (\<Sum>c'\<in>UNIV. held s c' k) + x k"
  by (simp add: sum.distrib)

lemma bal_total:
  assumes "bal s' = (\<lambda>c'. map_option (\<lambda>b. b + (if c' = c then x else 0)) (bal s c'))" and "bal s c \<noteq> None \<or> x = 0"
  shows "(\<Sum>c'\<in>UNIV. case bal s' c' of None \<Rightarrow> 0 | Some b \<Rightarrow> b) = (\<Sum>c'\<in>UNIV. case bal s c' of None \<Rightarrow> 0 | Some b \<Rightarrow> b) + x"
proof -
  have "(\<Sum>c'\<in>UNIV. case bal s' c' of None \<Rightarrow> 0 | Some b \<Rightarrow> b) =
      (\<Sum>c'\<in>UNIV. (case bal s c' of None \<Rightarrow> 0 | Some b \<Rightarrow> b) + (if c' = c then x else 0))"
    using assms by (intro sum.cong) (auto split: option.split)
  then show ?thesis
    by (simp add: sum.distrib)
qed

lemma send_conserves:
  assumes ok: "ok s" and args: "c \<noteq> 0" "0 \<le> zeny" "zeny < 2 ^ 61" "length items < 2 ^ 40"
    "owned_att (rows s) c items" "positive_att items" "length items \<le> room s" "0 < mroom s"
  shows "ok (snd (mail_Send office now c sn rn title body zeny items s)) \<and>
    conserves (spent_postage (fst (mail_Send office now c sn rn title body zeny items s)) zeny (length items))
      s (snd (mail_Send office now c sn rn title body zeny items s))"
proof -
  let ?t = "postage zeny (length items)"
  obtain r s' where s': "mail_Send office now c sn rn title body zeny items s = (r, s')" "ok s'"
      "case r of
         Inl e \<Rightarrow> held s' = held s \<and> bal s' = bal s \<and> boxes s' = boxes s
       | Inr d \<Rightarrow> (0 < ?t \<longrightarrow> pays (bal s c) ?t) \<and>
           bal s' = (\<lambda>c'. map_option (\<lambda>b. b - (if c' = c then ?t else 0)) (bal s c')) \<and>
           (\<forall>c' k. held s' c' k = held s c' k - (if c' = c then attach_sum k items else 0)) \<and>
           (\<exists>i m. boxes s i = None \<and> boxes s' = (boxes s)(i \<mapsto> m) \<and> mail_DestID m = d \<and> mail_SenderID m = c \<and>
              mail_Zeny m = zeny \<and> sound_mail m \<and> (\<forall>k. attach_sum k (mail_Items m) = attach_sum k items))"
    using send_spec [OF ok args] by blast
  have "conserves (spent_postage r zeny (length items)) s s'"
  proof (cases r)
    case (Inl e)
    then have "held s' = held s" "bal s' = bal s" "boxes s' = boxes s"
      using s'(3) by simp_all
    then show ?thesis
      using post_same [of s' s] Inl by (simp add: spent_postage_def conserves_def item_total_def zeny_total_def fun_eq_iff)
  next
    case (Inr d)
    then obtain i m where b: "bal s' = (\<lambda>c'. map_option (\<lambda>b. b - (if c' = c then ?t else 0)) (bal s c'))"
        "\<forall>c' k. held s' c' k = held s c' k + (if c' = c then - attach_sum k items else 0)"
        "boxes s i = None" "boxes s' = (boxes s)(i \<mapsto> m)" "mail_Zeny m = zeny" "\<forall>k. attach_sum k (mail_Items m) = attach_sum k items"
      using s'(3) by auto
    have minv: "minv s"
      using ok by (simp add: ok_def)
    have t: "zeny \<le> ?t" "?t = zeny + spent_postage r zeny (length items)"
      using args(2) Inr by (simp_all add: postage_def spent_postage_def)
    have "bal s' = (\<lambda>c'. map_option (\<lambda>b. b + (if c' = c then - ?t else 0)) (bal s c'))"
      unfolding b(1) by (simp add: fun_eq_iff map_option_case split: option.split)
    moreover have "bal s c \<noteq> None \<or> - ?t = 0"
    proof (cases "0 < ?t")
      case True
      then show ?thesis
        using s'(3) Inr by (auto simp: pays_iff)
    next
      case False
      then show ?thesis
        using t args(2) by simp
    qed
    ultimately show ?thesis
      using bal_total [where s = s and s' = s' and c = c and x = "- ?t"] held_total [OF b(2)] post_upd [OF minv b(4)] b(3,5,6) t
      by (simp add: conserves_def item_total_def zeny_total_def fun_eq_iff)
  qed
  then show ?thesis
    using s'(1,2) by simp
qed

lemma collect_zeny_conserves:
  assumes ok: "ok s" and c: "c \<noteq> 0"
  shows "ok (snd (CollectZeny office c i s)) \<and> conserves 0 s (snd (CollectZeny office c i s))"
proof -
  obtain r s' where s': "CollectZeny office c i s = (r, s')" "ok s'" "held s' = held s"
      "case r of
         Inl e \<Rightarrow> bal s' = bal s \<and> boxes s' = boxes s
       | Inr _ \<Rightarrow> \<exists>m. boxes s i = Some m \<and> mail_DestID m = c \<and> 0 < mail_Zeny m \<and> bal s c \<noteq> None \<and>
           bal s' = refund (mail_Zeny m) c (bal s) \<and> boxes s' = (boxes s)(i \<mapsto> m\<lparr>mail_Zeny := 0\<rparr>)"
    using collect_zeny_spec [OF ok c] by blast
  have "conserves 0 s s'"
  proof (cases r)
    case (Inl e)
    then show ?thesis
      using s'(3,4) post_same [of s' s] by (simp add: conserves_def item_total_def [abs_def] zeny_total_def)
  next
    case (Inr u)
    then obtain m where m: "boxes s i = Some m" "0 < mail_Zeny m" "bal s c \<noteq> None"
        "bal s' = refund (mail_Zeny m) c (bal s)" "boxes s' = (boxes s)(i \<mapsto> m\<lparr>mail_Zeny := 0\<rparr>)"
      using s'(4) by auto
    have "minv s"
      using ok by (simp add: ok_def)
    note p = post_upd [OF this m(5)]
    have "bal s' = (\<lambda>c'. map_option (\<lambda>b. b + (if c' = c then mail_Zeny m else 0)) (bal s c'))"
      using m(2,4) by (auto simp: refund_def fun_eq_iff option.map_ident)
    then show ?thesis
      using bal_total [where s = s and s' = s' and c = c and x = "mail_Zeny m"] m(1,3) s'(3) p
      by (simp add: conserves_def item_total_def [abs_def] zeny_total_def)
  qed
  then show ?thesis
    using s'(1,2) by simp
qed

lemma collect_items_conserves:
  assumes ok: "ok s" and room: "\<forall>m. boxes s i = Some m \<longrightarrow> length (mail_Items m) \<le> room s"
  shows "ok (snd (CollectItems office c i s)) \<and> conserves 0 s (snd (CollectItems office c i s))"
proof -
  obtain r s' where s': "CollectItems office c i s = (r, s')" "ok s'" "bal s' = bal s"
      "case r of
         Inl e \<Rightarrow> held s' = held s \<and> boxes s' = boxes s
       | Inr _ \<Rightarrow> \<exists>m. boxes s i = Some m \<and> mail_DestID m = c \<and>
           (\<forall>c' k. held s' c' k = held s c' k + (if c' = c then attach_sum k (mail_Items m) else 0)) \<and>
           boxes s' = (boxes s)(i \<mapsto> m\<lparr>mail_Items := []\<rparr>)"
    using collect_items_spec [OF assms] by blast
  have "conserves 0 s s'"
  proof (cases r)
    case (Inl e)
    then show ?thesis
      using s'(3,4) post_same [of s' s] by (simp add: conserves_def item_total_def [abs_def] zeny_total_def)
  next
    case (Inr u)
    then obtain m where m: "boxes s i = Some m" "boxes s' = (boxes s)(i \<mapsto> m\<lparr>mail_Items := []\<rparr>)"
        "\<forall>c' k. held s' c' k = held s c' k + (if c' = c then attach_sum k (mail_Items m) else 0)"
      using s'(4) by auto
    have "minv s"
      using ok by (simp add: ok_def)
    note p = post_upd [OF this m(2)]
    show ?thesis
      using held_total [OF m(3)] p m(1) s'(3) by (simp add: conserves_def item_total_def [abs_def] zeny_total_def)
  qed
  then show ?thesis
    using s'(1,2) by simp
qed

text \<open>Reading, listing and deleting: no mail with anything in it goes away.\<close>

lemma edit_conserves:
  assumes ok: "ok s" and run: "mp_SetStatus M i st s = (r, s') \<or> mp_Delete M i s = (r, s')" and minv: "minv s'"
    and m: "boxes s i = Some m" "boxes s' = (boxes s)(i := v)"
    and v: "v = Some (m\<lparr>mail_Status := st\<rparr>) \<or> v = None \<and> mail_Zeny m = 0 \<and> mail_Items m = []"
  shows "ok s' \<and> conserves 0 s s'"
proof -
  have f: "bal s' = bal s" "rows s' = rows s" "inv s'" "pinv s'"
    using mail_frame [of undefined s s'] run ok unfolding ok_def by blast+
  have "minv s"
    using ok by (simp add: ok_def)
  note p = post_upd [OF this m(2)]
  have "sound_mail (m\<lparr>mail_Status := st\<rparr>)"
    using ok m(1) by (auto simp: ok_def sound_mail_def)
  then have "ok s'"
    using ok f minv m v by (auto simp: ok_def split: if_splits)
  then show ?thesis
    using f(1) held_same [OF f(2)] p m(1) v
    by (auto simp: conserves_def item_total_def [abs_def] zeny_total_def)
qed

lemma read_conserves: "ok s \<Longrightarrow> ok (snd (mail_Read office c i s)) \<and> conserves 0 s (snd (mail_Read office c i s))"
proof -
  assume ok: "ok s"
  then have get: "mp_Get M c i s = (case boxes s i of None \<Rightarrow> Inl ErrMailNotFound
       | Some m \<Rightarrow> if mail_DestID m = c then Inr m else Inl ErrMailNotFound, s)"
    by (intro ms.get_ok) (simp add: ok_def)
  show ?thesis
  proof (cases "\<exists>m. boxes s i = Some m \<and> mail_DestID m = c \<and> mail_Status m \<noteq> StatusRead")
    case False
    then have "snd (mail_Read office c i s) = s"
      by (auto simp: mail_Read_def get split: option.split)
    then show ?thesis
      using ok by simp
  next
    case True
    then obtain m where m: "boxes s i = Some m" "mail_DestID m = c" "mail_Status m \<noteq> StatusRead"
      by blast
    obtain s' where s': "mp_SetStatus M i StatusRead s = (Inr (), s')" "minv s'" "boxes s' = (boxes s)(i \<mapsto> m\<lparr>mail_Status := StatusRead\<rparr>)"
      using edits_boxD(2) [OF ms.set_status _ m(1)] ok unfolding ok_def by blast
    then show ?thesis
      using edit_conserves [OF ok disjI1 [OF s'(1)] s'(2) m(1) s'(3)] m by (simp add: mail_Read_def get)
  qed
qed

lemma delete_conserves: "ok s \<Longrightarrow> ok (snd (mail_Delete office c i s)) \<and> conserves 0 s (snd (mail_Delete office c i s))"
proof -
  assume ok: "ok s"
  then have get: "mp_Get M c i s = (case boxes s i of None \<Rightarrow> Inl ErrMailNotFound
       | Some m \<Rightarrow> if mail_DestID m = c then Inr m else Inl ErrMailNotFound, s)"
    by (intro ms.get_ok) (simp add: ok_def)
  show ?thesis
  proof (cases "\<exists>m. boxes s i = Some m \<and> mail_DestID m = c \<and> \<not> 0 < mail_Zeny m \<and> mail_Items m = []")
    case False
    then have "snd (mail_Delete office c i s) = s"
      by (auto simp: mail_Delete_def get split: option.split)
    then show ?thesis
      using ok by simp
  next
    case True
    then obtain m where m: "boxes s i = Some m" "mail_DestID m = c" "\<not> 0 < mail_Zeny m" "mail_Items m = []"
      by blast
    have "sound_mail m"
      using ok m(1) by (simp add: ok_def)
    then have "mail_Zeny m = 0"
      using m(3) by (simp add: sound_mail_def)
    obtain s' where s': "mp_Delete M i s = (Inr (), s')" "minv s'" "boxes s' = (boxes s)(i := None)"
      using edits_boxD(2) [OF ms.delete_ok _ m(1)] ok unfolding ok_def by blast
    then show ?thesis
      using edit_conserves [OF ok disjI2 [OF s'(1)] s'(2) m(1) s'(3)] m \<open>mail_Zeny m = 0\<close> by (simp add: mail_Delete_def get)
  qed
qed

lemma inbox_conserves: "ok s \<Longrightarrow> ok (snd (mail_Inbox office c s)) \<and> conserves 0 s (snd (mail_Inbox office c s))"
proof -
  assume ok: "ok s"
  then obtain xs s' where s': "mp_Inbox M c s = (Inr xs, s')" "minv s'" "boxes s' = (\<lambda>i. map_option (flip_new c) (boxes s i))"
    using ms.inbox_ok [of s c] by (auto simp: ok_def)
  have f: "bal s' = bal s" "rows s' = rows s" "inv s'" "pinv s'"
    using mail_frame [of undefined s s'] s'(1) ok unfolding ok_def by blast+
  have dom: "dom (boxes s') = dom (boxes s)"
    by (auto simp: s'(3))
  have "mail_Items (flip_new c m) = mail_Items m" "mail_Zeny (flip_new c m) = mail_Zeny m" for m
    by (simp_all add: flip_new_def)
  then have "ms.posted s' = ms.posted s" "ms.escrow s' = ms.escrow s"
    unfolding ms.posted_def [abs_def] ms.escrow_def dom by (auto simp: s'(3) intro!: sum.cong ext)
  moreover have "ok s'"
    using ok f s'(2,3) by (auto simp: ok_def)
  moreover have "snd (mail_Inbox office c s) = s'"
    using ms.reads_pure(2) [of c s'] by (cases "mp_CountUnread M c s'" rule: prod.exhaust, cases "fst (mp_CountUnread M c s')")
      (simp_all add: mail_Inbox_def s'(1))
  ultimately show ?thesis
    using f(1) held_same [OF f(2)] by (simp add: conserves_def item_total_def [abs_def] zeny_total_def)
qed

text \<open>An attachment of no units stops the grant after the ones before it.\<close>

lemma grant_stops:
  assumes "inv s" "pinv s" "length items \<le> room s" "positive_att items" "att_Amount z = 0"
  shows "\<exists>s'. grant_items I c (items @ z # rest) s = (Inl ErrInsufficientAmount, s') \<and> inv s' \<and> pinv s' \<and>
    same_post s s' \<and> room s \<le> room s' + length items \<and>
    (\<forall>c' k. held s' c' k = held s c' k + (if c' = c then attach_sum k items else 0))"
  using assms
proof (induction items arbitrary: s)
  case Nil
  then show ?case by (simp add: mk.add_refused)
next
  case (Cons a items)
  obtain it s1 where s1: "ip_Add I c (att_NameID a) (uint (att_Amount a)) s = (Inr it, s1)" "inv s1" "pinv s1"
      "same_post s s1" "room s \<le> room s1 + 1"
      "\<forall>c' k. held s1 c' k = held s c' k + (if c' = c then attach_sum k [a] else 0)"
    using add_spec [of s a c] Cons.prems by auto
  have "length items \<le> room s1"
    using s1(5) Cons.prems(3) by simp
  then obtain s2 where "grant_items I c (items @ z # rest) s1 = (Inl ErrInsufficientAmount, s2)" "inv s2" "pinv s2"
      "same_post s1 s2" "room s1 \<le> room s2 + length items"
      "\<forall>c' k. held s2 c' k = held s1 c' k + (if c' = c then attach_sum k items else 0)"
    using Cons.IH [OF s1(2,3)] Cons.prems(4,5) by auto
  then show ?case
    using s1 same_post_trans [of s s1 s2] by auto
qed

lemma collect_again:
  assumes "inv s" "pinv s" "minv s" "boxes s i = Some m" "mail_DestID m = c"
    and "mail_Items m = items @ z # rest" "positive_att items" "att_Amount z = 0" "n * length items \<le> room s"
  shows "\<exists>s'. ((\<lambda>s. snd (CollectItems office c i s)) ^^ n) s = s' \<and> inv s' \<and> pinv s' \<and> same_post s s' \<and>
    room s \<le> room s' + n * length items \<and>
    (\<forall>c' k. held s' c' k = held s c' k + (if c' = c then int n * attach_sum k items else 0))"
  using assms(9)
proof (induction n)
  case 0
  then show ?case using assms by simp
next
  case (Suc n)
  then obtain t where t: "((\<lambda>s. snd (CollectItems office c i s)) ^^ n) s = t" "inv t" "pinv t" "same_post s t"
      "room s \<le> room t + n * length items"
      "\<forall>c' k. held t c' k = held s c' k + (if c' = c then int n * attach_sum k items else 0)"
    by auto
  have room: "length items \<le> room t"
    using t(5) Suc.prems by simp
  obtain u where u: "grant_items I c (items @ z # rest) t = (Inl ErrInsufficientAmount, u)" "inv u" "pinv u"
      "same_post t u" "room t \<le> room u + length items"
      "\<forall>c' k. held u c' k = held t c' k + (if c' = c then attach_sum k items else 0)"
    using grant_stops [OF t(2,3) room assms(7,8)] by blast
  have "minv t" "boxes t i = Some m"
    using t(4) assms(3,4) by (simp_all add: same_post_def)
  then have "CollectItems office c i t = (Inl ErrInsufficientAmount, u)"
    using u(1) assms(5,6) by (simp add: CollectItems_def ms.get_ok)
  then show ?case
    using t u same_post_trans [OF t(4) u(4)] by (auto simp: algebra_simps)
qed

end

section \<open>The in-memory stores\<close>

record mail_db = game_db +
  db_mail :: mail_repo

abbreviation put_mail :: "mail_repo \<Rightarrow> 'z mail_db_scheme \<Rightarrow> 'z mail_db_scheme" where
  "put_mail r \<equiv> db_mail_update (\<lambda>_. r)"

definition lift_mail_port :: "('s \<Rightarrow> 't) \<Rightarrow> ('t \<Rightarrow> 's \<Rightarrow> 's) \<Rightarrow> 't mail_port \<Rightarrow> 's mail_port" where
  "lift_mail_port get put R =
     \<lparr>mp_Create = (\<lambda>m. zoom get put (mp_Create R m)), mp_Inbox = (\<lambda>c. zoom get put (mp_Inbox R c)),
      mp_Get = (\<lambda>c i. zoom get put (mp_Get R c i)), mp_SetStatus = (\<lambda>i st. zoom get put (mp_SetStatus R i st)),
      mp_ClearZeny = (\<lambda>i. zoom get put (mp_ClearZeny R i)), mp_SetZeny = (\<lambda>i z. zoom get put (mp_SetZeny R i z)),
      mp_ClearItems = (\<lambda>i. zoom get put (mp_ClearItems R i)), mp_Delete = (\<lambda>i. zoom get put (mp_Delete R i)),
      mp_LookupRecipient = (\<lambda>n. zoom get put (mp_LookupRecipient R n)),
      mp_CountUnread = (\<lambda>c. zoom get put (mp_CountUnread R c))\<rparr>"

definition db_mail_port :: "'z mail_db_scheme mail_port" where
  "db_mail_port = lift_mail_port db_mail put_mail mem_mail_port"

text \<open>The economy adapter of \<open>social/mail/di.go\<close>.\<close>

definition mail_economyAdapter :: "'s economy \<Rightarrow> 's mail_econ" where
  "mail_economyAdapter E =
     \<lparr>me_GetZeny = GetZeny E,
      me_DeductZeny = (\<lambda>c n. DeductZenyFor E c n \<lparr>le_Reason = ''mail_send'', le_PeerCharID = 0, le_MapName = []\<rparr>),
      me_CreditZeny = (\<lambda>c n. CreditZenyFor E c n \<lparr>le_Reason = ''mail_collect'', le_PeerCharID = 0, le_MapName = []\<rparr>)\<rparr>"

definition mem_mail :: "'z mail_db_scheme mail_service" where
  "mem_mail = \<lparr>mv_repo = db_mail_port, mv_econ = Some (mail_economyAdapter mem_economy), mv_inv = Some db_item_port\<rparr>"

definition mr_wf :: "mail_repo \<Rightarrow> bool" where
  "mr_wf r \<longleftrightarrow> distinct (keys (mr_mails r)) \<and> 1 \<le> mr_next r \<and> (\<forall>i m. map_of (mr_mails r) i = Some m \<longrightarrow> i < mr_next r)"

definition mr_room :: "mail_repo \<Rightarrow> nat" where
  "mr_room r = nat (2 ^ 63 - 1 - mr_next r)"

abbreviation mr_boxes :: "mail_repo \<Rightarrow> int \<Rightarrow> mail option" where
  "mr_boxes r \<equiv> map_of (mr_mails r)"

lemma inbox_count:
  "distinct (keys al) \<Longrightarrow> card {i. \<exists>x. map_of al i = Some x \<and> P x} = length (filter P (map snd al))"
proof -
  assume d: "distinct (keys al)"
  have "{i. \<exists>x. map_of al i = Some x \<and> P x} = fst ` set (filter (\<lambda>p. P (snd p)) al)"
    using d by (force simp: map_of_in_set)
  moreover have "distinct (map fst (filter (\<lambda>p. P (snd p)) al))"
    using d by (rule distinct_map_filter)
  ultimately show ?thesis
    using distinct_card [of "map fst (filter (\<lambda>p. P (snd p)) al)"] by (simp add: filter_map comp_def)
qed

lemma mr_edit_edits: "edits_box mr_wf mr_room mr_boxes (\<lambda>i. mr_edit f i) (\<lambda>m. Some (f m))"
  unfolding edits_box_def
proof (intro allI impI)
  fix s i
  assume wf: "mr_wf s"
  show "case mr_boxes s i of None \<Rightarrow> mr_edit f i s = (Inl ErrMailNotFound, s)
    | Some m \<Rightarrow> \<exists>s'. mr_edit f i s = (Inr (), s') \<and> mr_wf s' \<and> mr_room s' = mr_room s \<and>
        mr_boxes s' = (mr_boxes s)(i := Some (f m))"
  proof (cases "mr_boxes s i")
    case (Some m)
    then show ?thesis
      using wf by (auto simp: mr_edit_def mr_wf_def mr_room_def)
  qed (simp add: mr_edit_def)
qed

interpretation mem_box: mail_store mem_mail_port mr_boxes mr_wf mr_room
proof (unfold_locales, goal_cases)
  case (1 s)
  then show ?case by (simp add: finite_dom_map_of)
next
  case (2 s m)
  have "mr_boxes s (mr_next s) = None"
    using 2(1) by (cases "mr_boxes s (mr_next s)") (auto simp: mr_wf_def)
  moreover have "i64 (mr_next s + 1) = mr_next s + 1"
    using 2(1,2) by (intro i64_id) (auto simp: mr_wf_def mr_room_def)
  ultimately show ?case
    using 2 inbox_count [of "mr_mails s" "\<lambda>x. mail_DestID x = mail_DestID m"]
    by (intro exI [of _ "mr_next s"])
      (auto simp: mem_mail_port_def mr_Create_def Let_def mr_wf_def mr_room_def)
next
  case (3 s m)
  then show ?case
    using inbox_count [of "mr_mails s" "\<lambda>x. mail_DestID x = mail_DestID m"]
    by (simp add: mem_mail_port_def mr_Create_def Let_def mr_wf_def)
next
  case (4 s c)
  have "keys (map (\<lambda>(i, m). (i, flip_new c m)) al) = keys al" for al :: "(int \<times> mail) list"
    by (induction al) auto
  moreover have "map_of (map (\<lambda>(i, m). (i, flip_new c m)) al) = (\<lambda>i. map_option (flip_new c) (map_of al i))" for al :: "(int \<times> mail) list"
    by (auto simp: map_of_map)
  ultimately show ?case
    using 4 by (simp del: map_map add: mem_mail_port_def mr_Inbox_def Let_def mr_wf_def mr_room_def)
next
  case (5 s c i)
  then show ?case by (simp add: mem_mail_port_def mr_Get_def split: option.split)
next
  case (6 st)
  show ?case
    using mr_edit_edits by (simp add: mem_mail_port_def mr_SetStatus_def)
next
  case 7
  show ?case
    using mr_edit_edits [of "mail_Zeny_update (\<lambda>_. 0)"] by (simp add: mem_mail_port_def mr_ClearZeny_def [abs_def])
next
  case (8 z)
  show ?case
    using mr_edit_edits by (simp add: mem_mail_port_def mr_SetZeny_def)
next
  case 9
  show ?case
    using mr_edit_edits [of "mail_Items_update (\<lambda>_. [])"] by (simp add: mem_mail_port_def mr_ClearItems_def [abs_def])
next
  case 10
  show ?case
    by (auto simp: edits_box_def mem_mail_port_def mr_Delete_def mr_wf_def mr_room_def split: option.split)
next
  case (11 n s)
  show ?case by (simp add: mem_mail_port_def mr_LookupRecipient_def split: option.split)
next
  case (12 c s)
  show ?case by (simp add: mem_mail_port_def mr_CountUnread_def)
qed

text \<open>The repository as a field of the game's stores.\<close>

locale mail_field = base: mail_store M boxes minv mroom + field_of get put
  for M :: "'t mail_port" and boxes minv mroom and get :: "'s \<Rightarrow> 't" and put
begin

lemma lift_edits:
  "edits_box minv mroom boxes f g \<Longrightarrow>
     edits_box (\<lambda>s. minv (get s)) (\<lambda>s. mroom (get s)) (\<lambda>s. boxes (get s)) (\<lambda>i. zoom get put (f i)) g"
  unfolding edits_box_def
proof (intro allI impI)
  fix s i
  assume e: "\<forall>s i. minv s \<longrightarrow> (case boxes s i of None \<Rightarrow> f i s = (Inl ErrMailNotFound, s)
      | Some m \<Rightarrow> \<exists>s'. f i s = (Inr (), s') \<and> minv s' \<and> mroom s' = mroom s \<and> boxes s' = (boxes s)(i := g m))"
    and wf: "minv (get s)"
  show "case boxes (get s) i of None \<Rightarrow> zoom get put (f i) s = (Inl ErrMailNotFound, s)
      | Some m \<Rightarrow> \<exists>s'. zoom get put (f i) s = (Inr (), s') \<and> minv (get s') \<and> mroom (get s') = mroom (get s) \<and>
          boxes (get s') = (boxes (get s))(i := g m)"
    using spec [OF spec [OF e, of "get s"], of i] wf by (cases "boxes (get s) i") (auto simp: zoom_eq)
qed

end

sublocale mail_field \<subseteq> lifted: mail_store "lift_mail_port get put M" "\<lambda>s. boxes (get s)" "\<lambda>s. minv (get s)" "\<lambda>s. mroom (get s)"
proof (unfold_locales, goal_cases)
  case (1 s)
  then show ?case by (rule base.finite_boxes)
next
  case (2 s m)
  then show ?case
    using base.create_ok [of "get s" m] by (fastforce simp: lift_mail_port_def zoom_eq)
next
  case (3 s m)
  then show ?case
    using base.create_full [of "get s" m] by (simp add: lift_mail_port_def zoom_id)
next
  case (4 s c)
  then show ?case
    using base.inbox_ok [of "get s" c] by (fastforce simp: lift_mail_port_def zoom_eq)
next
  case (5 s c i)
  then show ?case
    using base.get_ok [of "get s" c i] by (simp add: lift_mail_port_def zoom_def split: option.split)
next
  case (6 st)
  show ?case using lift_edits [OF base.set_status] by (simp add: lift_mail_port_def)
next
  case 7
  show ?case using lift_edits [OF base.clear_zeny] by (simp add: lift_mail_port_def)
next
  case (8 z)
  show ?case using lift_edits [OF base.set_zeny] by (simp add: lift_mail_port_def)
next
  case 9
  show ?case using lift_edits [OF base.clear_items] by (simp add: lift_mail_port_def)
next
  case 10
  show ?case using lift_edits [OF base.delete_ok] by (simp add: lift_mail_port_def)
next
  case (11 n s)
  show ?case
    using base.reads_pure(1) [of n "get s"] by (auto simp: lift_mail_port_def zoom_def split: prod.split)
next
  case (12 c s)
  show ?case
    using base.reads_pure(2) [of c "get s"] by (auto simp: lift_mail_port_def zoom_def split: prod.split)
qed

interpretation db_mail_field: mail_field mem_mail_port mr_boxes mr_wf mr_room
    "db_mail :: 'z mail_db_scheme \<Rightarrow> mail_repo" put_mail
  by unfold_locales simp_all

lemma mail_purse_mem: "mail_purse (mail_economyAdapter mem_economy) =
    entry_purse \<lparr>le_Reason = ''mail_send'', le_PeerCharID = 0, le_MapName = []\<rparr>
      \<lparr>le_Reason = ''mail_collect'', le_PeerCharID = 0, le_MapName = []\<rparr>"
  by (simp add: mail_purse_def mail_economyAdapter_def entry_purse_def)

lemma db_mail_frame:
  assumes "(\<exists>x. mp_Create db_mail_port m s = (x, s')) \<or> (\<exists>x. mp_Inbox db_mail_port c s = (x, s')) \<or>
    mp_SetStatus db_mail_port j st s = (r, s') \<or> mp_ClearZeny db_mail_port j s = (r, s') \<or>
    mp_SetZeny db_mail_port j z s = (r, s') \<or> mp_ClearItems db_mail_port j s = (r, s') \<or> mp_Delete db_mail_port j s = (r, s')"
  shows "\<exists>r. s' = put_mail r s"
  using assms by (auto simp: db_mail_port_def lift_mail_port_def zoom_def split: prod.splits)

lemma mail_game_frame:
  fixes s :: "'z mail_db_scheme"
  assumes "DeductZenyFor mem_economy c n entry s = (r, s') \<or> CreditZenyFor mem_economy c n entry s = (r, s') \<or>
    (\<exists>x. ip_Add db_item_port c k n s = (x, s')) \<or> ip_Remove db_item_port i n s = (r, s')"
  shows "db_mail s' = db_mail s"
  using assms economy_keeps_rest [of db_mail c n entry s] by (auto dest: db_item_frame)

lemmas mail_game_frames = mail_game_frame [OF disjI1] mail_game_frame [OF disjI2, OF disjI1]
  mail_game_frame [OF disjI2, OF disjI2, OF disjI1, OF exI] mail_game_frame [OF disjI2, OF disjI2, OF disjI2]

interpretation db_post: post_office "mail_economyAdapter mem_economy :: 'z mail_db_scheme mail_econ" db_balance
    "\<lambda>s. cr_wf (db_chars s)" db_item_port bag_rows "\<lambda>s. ir_wf (db_items s)" "\<lambda>s. ir_room (db_items s)"
    db_mail_port "\<lambda>s. mr_boxes (db_mail s)" "\<lambda>s. mr_wf (db_mail s)" "\<lambda>s. mr_room (db_mail s)"
proof (intro post_office.intro post_office_axioms.intro, goal_cases)
  case 1
  show ?case
    unfolding mail_purse_mem by (rule db_market.market_axioms)
next
  case 2
  show ?case
    unfolding db_mail_port_def by (rule db_mail_field.lifted.mail_store_axioms)
next
  case (3 s c b)
  then show ?case by (auto simp: db_balance_def)
next
  case (4 c s)
  show ?case by (simp add: mail_economyAdapter_def mem_GetZeny split: option.split)
next
  case (5 c s b)
  then show ?case
    using sint_u32_range [of "ch_Zeny (the (cr_chars (db_chars s) c))"]
    by (auto simp: mail_economyAdapter_def mem_GetZeny in_i32_def split: option.splits)
next
  case (6 s c b)
  then show ?case
    by (auto simp: mail_economyAdapter_def mem_GetZeny db_balance_def sint_u32_eq_uint split: option.split)
next
  case (7 c n s r s' k i)
  then have "db_mail s' = db_mail s"
    by (auto simp: mail_economyAdapter_def dest: mail_game_frames)
  then show ?case by simp
next
  case (8 m s s' c j st r z)
  then obtain t where "s' = put_mail t s"
    using db_mail_frame by blast
  then show ?case by (simp add: fun_eq_iff db_balance_def)
qed

section \<open>Properties\<close>

lemma mem_mail_office: "mem_mail = db_post.office"
  by (simp add: mem_mail_def db_post.office_def)

definition mailed_units :: "mail_repo \<Rightarrow> u32 \<Rightarrow> int" where
  "mailed_units r k = alist_sum (\<lambda>m. attach_sum k (mail_Items m)) (mr_mails r)"

definition mailed_zeny :: "mail_repo \<Rightarrow> int" where
  "mailed_zeny r = alist_sum mail_Zeny (mr_mails r)"

text \<open>All units of an item, in bags and mails; all zeny, in purses and mails.\<close>

definition all_units :: "'z mail_db_scheme \<Rightarrow> u32 \<Rightarrow> int" where
  "all_units s k = (\<Sum>c\<in>UNIV. db_held s c k) + mailed_units (db_mail s) k"

definition all_zeny :: "'z mail_db_scheme \<Rightarrow> int" where
  "all_zeny s = (\<Sum>c\<in>UNIV. case db_balance s c of None \<Rightarrow> 0 | Some b \<Rightarrow> b) + mailed_zeny (db_mail s)"

definition mail_wf :: "'z mail_db_scheme \<Rightarrow> bool" where
  "mail_wf s \<longleftrightarrow> cr_wf (db_chars s) \<and> ir_wf (db_items s) \<and> mr_wf (db_mail s) \<and>
     (\<forall>i m. map_of (mr_mails (db_mail s)) i = Some m \<longrightarrow> sound_mail m)"

lemma mail_wf_ok: "mail_wf s = db_post.ok s"
  by (auto simp: mail_wf_def db_post.ok_def)

lemma sum_dom_map_of:
  fixes g :: "'v \<Rightarrow> int"
  assumes "distinct (keys al)"
  shows "(\<Sum>i\<in>dom (map_of al). g (the (map_of al i))) = alist_sum g al"
  using assms
proof (induction al)
  case (Cons p al)
  have new: "map_of al (fst p) = None"
    using Cons.prems by (simp add: map_of_eq_None_iff)
  have eq: "map_of (p # al) = (map_of al)(fst p \<mapsto> snd p)" "alist_sum g (p # al) = g (snd p) + alist_sum g al"
    by (cases p, auto)+
  show ?case
    unfolding eq sum_dom_upd [OF finite_dom_map_of] new using Cons by simp
qed simp

lemma totals_eq:
  assumes "db_post.ok s"
  shows "db_post.item_total s = all_units s" and "db_post.zeny_total s = all_zeny s"
proof -
  have "mail_wf s"
    using assms by (simp only: mail_wf_ok)
  then have wf: "ir_wf (db_items s)" "distinct (keys (mr_mails (db_mail s)))"
    unfolding mail_wf_def mr_wf_def by blast+
  show "db_post.item_total s = all_units s"
    using db_held_eq [OF wf(1)] sum_dom_map_of [OF wf(2), of "\<lambda>m. attach_sum k (mail_Items m)" for k]
    by (simp add: fun_eq_iff db_post.item_total_def all_units_def mailed_units_def mem_box.posted_def db_mail_field.lifted.posted_def)
  show "db_post.zeny_total s = all_zeny s"
    using sum_dom_map_of [OF wf(2), of mail_Zeny]
    by (simp add: db_post.zeny_total_def all_zeny_def mailed_zeny_def mem_box.escrow_def db_mail_field.lifted.escrow_def)
qed

text \<open>
  One call on the mail service, with the postage it spends. The room premises say that the id counters of the tables do not
  wrap; attachments of a send name rows of the sender with their item id, a positive number of units each.
\<close>

inductive mail_step :: "'z mail_db_scheme \<Rightarrow> int \<Rightarrow> 'z mail_db_scheme \<Rightarrow> bool" where
  send: "c \<noteq> 0 \<Longrightarrow> 0 \<le> zeny \<Longrightarrow> zeny < 2 ^ 61 \<Longrightarrow> length items < 2 ^ 40 \<Longrightarrow> owned_att (bag_rows s) c items \<Longrightarrow>
    positive_att items \<Longrightarrow> length items \<le> ir_room (db_items s) \<Longrightarrow> 0 < mr_room (db_mail s) \<Longrightarrow>
    mail_Send mem_mail now c sn rn title body zeny items s = (r, s') \<Longrightarrow>
    mail_step s (spent_postage r zeny (length items)) s'"
| collect_zeny: "c \<noteq> 0 \<Longrightarrow> mail_step s 0 (snd (CollectZeny mem_mail c i s))"
| collect_items: "\<forall>m. map_of (mr_mails (db_mail s)) i = Some m \<longrightarrow> length (mail_Items m) \<le> ir_room (db_items s) \<Longrightarrow>
    mail_step s 0 (snd (CollectItems mem_mail c i s))"
| read: "mail_step s 0 (snd (mail_Read mem_mail c i s))"
| inbox: "mail_step s 0 (snd (mail_Inbox mem_mail c s))"
| delete: "mail_step s 0 (snd (mail_Delete mem_mail c i s))"

text \<open>A history, with the postage spent over it.\<close>

inductive mail_history :: "'z mail_db_scheme \<Rightarrow> int \<Rightarrow> 'z mail_db_scheme \<Rightarrow> bool" where
  none: "mail_history s 0 s"
| call: "mail_history s spent t \<Longrightarrow> mail_step t fee u \<Longrightarrow> mail_history s (spent + fee) u"

lemma mail_step_conserves: "mail_step s fee s' \<Longrightarrow> db_post.ok s \<Longrightarrow> db_post.ok s' \<and> db_post.conserves fee s s'"
proof (induction rule: mail_step.induct)
  case (send c zeny items s now sn rn title body r s')
  then have "db_post.ok (snd (r, s')) \<and> db_post.conserves (spent_postage (fst (r, s')) zeny (length items)) s (snd (r, s'))"
    using db_post.send_conserves [of s c zeny items now sn rn title body] unfolding mem_mail_office by metis
  then show ?case
    by simp
next
  case (collect_zeny c s i)
  then show ?case
    unfolding mem_mail_office by (intro db_post.collect_zeny_conserves)
next
  case (collect_items s i c)
  then show ?case
    unfolding mem_mail_office by (intro db_post.collect_items_conserves)
qed (simp_all add: mem_mail_office db_post.read_conserves db_post.inbox_conserves db_post.delete_conserves)

lemma mail_history_conserves: "mail_history s spent s' \<Longrightarrow> db_post.ok s \<Longrightarrow> db_post.ok s' \<and> db_post.conserves spent s s'"
proof (induction rule: mail_history.induct)
  case (call s spent t fee u)
  then show ?case
    using mail_step_conserves [of t fee u] db_post.conserves_trans by blast
qed simp

text \<open>
  C10. A send is all or nothing. It either answers the recipient's id, and then exactly the zeny, the
  2% tax and 2500 per attachment left the sender's purse (which covered them), exactly the attached
  units left the bag, and one new mail to that recipient holds them; or it fails, at whichever step,
  and every purse, every item count and every mail is as before.
\<close>

theorem mail_send_all_or_nothing:
  fixes s :: "'z mail_db_scheme"
  assumes wf: "mail_wf s" and c: "c \<noteq> 0" and z: "0 \<le> zeny" "zeny < 2 ^ 61" and n: "length items < 2 ^ 40"
    and own: "owned_att (bag_rows s) c items" "positive_att items"
    and room: "length items \<le> ir_room (db_items s)" "0 < mr_room (db_mail s)"
  shows "\<exists>r s'. mail_Send mem_mail now c sn rn title body zeny items s = (r, s') \<and> mail_wf s' \<and>
    (case r of
       Inl e \<Rightarrow> db_held s' = db_held s \<and> db_balance s' = db_balance s \<and>
         map_of (mr_mails (db_mail s')) = map_of (mr_mails (db_mail s))
     | Inr d \<Rightarrow> (let cost = zeny + zeny * 2 div 100 + int (length items) * 2500 in
         (0 < cost \<longrightarrow> pays (db_balance s c) cost) \<and>
         (\<forall>c'. db_balance s' c' = map_option (\<lambda>b. b - (if c' = c then cost else 0)) (db_balance s c')) \<and>
         (\<forall>c' k. db_held s' c' k = db_held s c' k - (if c' = c then attach_sum k items else 0)) \<and>
         (\<exists>i m. map_of (mr_mails (db_mail s)) i = None \<and>
            map_of (mr_mails (db_mail s')) = (map_of (mr_mails (db_mail s)))(i \<mapsto> m) \<and>
            mail_DestID m = d \<and> mail_SenderID m = c \<and> mail_Zeny m = zeny \<and>
            (\<forall>k. attach_sum k (mail_Items m) = attach_sum k items))))"
proof -
  obtain r s' where s': "mail_Send mem_mail now c sn rn title body zeny items s = (r, s')" "mail_wf s'"
      "case r of
         Inl e \<Rightarrow> db_post.held s' = db_post.held s \<and> db_balance s' = db_balance s \<and> mr_boxes (db_mail s') = mr_boxes (db_mail s)
       | Inr d \<Rightarrow> (0 < postage zeny (length items) \<longrightarrow> pays (db_balance s c) (postage zeny (length items))) \<and>
         db_balance s' = (\<lambda>c'. map_option (\<lambda>b. b - (if c' = c then postage zeny (length items) else 0)) (db_balance s c')) \<and>
         (\<forall>c' k. db_post.held s' c' k = db_post.held s c' k - (if c' = c then attach_sum k items else 0)) \<and>
         (\<exists>i m. mr_boxes (db_mail s) i = None \<and> mr_boxes (db_mail s') = (mr_boxes (db_mail s))(i \<mapsto> m) \<and> mail_DestID m = d \<and>
            mail_SenderID m = c \<and> mail_Zeny m = zeny \<and> sound_mail m \<and> (\<forall>k. attach_sum k (mail_Items m) = attach_sum k items))"
    using db_post.send_spec [OF wf [unfolded mail_wf_ok] c z n own room, of now sn rn title body]
    unfolding mem_mail_office [symmetric] mail_wf_ok by blast
  have h: "db_post.held s' = db_held s'" "db_post.held s = db_held s"
    using wf s'(2) by (simp_all add: db_held_eq mail_wf_def)
  show ?thesis
    using s' unfolding h postage_def Let_def by (cases r) (auto simp: fun_eq_iff)
qed

definition demo_recipient :: recipient where
  "demo_recipient = \<lparr>rec_CharID = 1, rec_AccountID = 7, rec_Name = ''a'', rec_Class = 0, rec_BaseLevel = 1\<rparr>"

definition demo_post :: mail_db where
  "demo_post = \<lparr>db_chars = db_chars demo_econ, db_ledger = db_ledger demo_econ, db_items = demo_trade_bags,
     db_storage = demo_box, db_mail = RegisterLookup demo_recipient NewMemoryMailRepository\<rparr>"

definition demo_attachment :: "u64 \<Rightarrow> u32 \<Rightarrow> u32 \<Rightarrow> attachment" where
  "demo_attachment row nameID amount = \<lparr>att_MailID = 0, att_Index = 0, att_NameID = nameID, att_Amount = amount,
     att_Refine = 0, att_Attribute = 0, att_Identify = 0, att_Card0 = 0, att_Card1 = 0, att_Card2 = 0, att_Card3 = 0,
     att_Bound = 0, att_UniqueID = row, att_Time = 0\<rparr>"

lemma demo_post_wf: "mail_wf demo_post" "2 \<le> ir_room (db_items demo_post)" "0 < mr_room (db_mail demo_post)"
  "db_balance demo_post = db_balance demo_econ"
  by (auto simp: mail_wf_def demo_post_def ir_wf_def ir_room_def demo_trade_bags_def RegisterLookup_def
      NewMemoryMailRepository_def mr_wf_def mr_room_def fun_eq_iff db_balance_def)

theorem mail_send_all_or_nothing_witness:
  "\<exists>s'. mail_Send mem_mail 5 2 ''b'' ''a'' ''hi'' ''thanks'' 100 [demo_attachment 2 909 2] demo_post = (Inr 1, s') \<and>
     db_balance s' 2 = Some (2147483647 - 2602) \<and> db_held s' 2 909 = 1"
proof -
  let ?r = "mail_Send mem_mail 5 2 ''b'' ''a'' ''hi'' ''thanks'' 100 [demo_attachment 2 909 2] demo_post"
  have "case ?r of (Inl _, _) \<Rightarrow> False | (Inr d, _) \<Rightarrow> d = 1"
    by code_simp
  then obtain s' where run: "?r = (Inr 1, s')"
    by (auto split: prod.splits sum.splits)
  have own: "owned_att (bag_rows demo_post) 2 [demo_attachment 2 909 2]" "positive_att [demo_attachment 2 909 2]"
    by code_simp+
  have "db_held demo_post 2 909 = 3"
    by code_simp
  moreover have "attach_sum 909 [demo_attachment 2 909 2] = 2"
    by (simp add: demo_attachment_def)
  ultimately show ?thesis
    using mail_send_all_or_nothing [OF demo_post_wf(1) _ _ _ _ own _ demo_post_wf(3), of 100 5 "''b''" "''a''" "''hi''" "''thanks''"]
      run demo_post_wf(2) by (simp add: Let_def demo_post_wf(4))
qed

text \<open>
  C5. The mail system neither makes nor loses property. Over any sequence of sends, collects, reads,
  listings and deletions, successful or failed, in which the attachments of each send name rows of the sender with positive
  amounts (and no id counter wraps), the units of every item in bags and mails together stay the same, and the
  zeny in purses and mails together, plus the postage of the successful sends (2% of the zeny and 2500 for each
  attachment), stays the same.
\<close>

theorem mail_conserves_value:
  fixes s s' :: "'z mail_db_scheme"
  assumes "mail_wf s" and "mail_history s spent s'"
  shows "mail_wf s' \<and> all_units s' = all_units s \<and> all_zeny s' + spent = all_zeny s"
proof -
  have "db_post.ok s'" "db_post.conserves spent s s'"
    using mail_history_conserves [OF assms(2)] assms(1) by (simp_all add: mail_wf_ok)
  then show ?thesis
    using assms(1) totals_eq [of s] totals_eq [of s'] by (simp add: mail_wf_ok db_post.conserves_def)
qed

theorem mail_conserves_value_witness:
  "\<exists>s'. mail_history demo_post 2502 s' \<and> db_held s' 1 909 = 2 \<and> db_held s' 2 909 = 1 \<and> all_units s' = all_units demo_post
     \<and> all_zeny s' = all_zeny demo_post - 2502"
proof -
  let ?send = "mail_Send mem_mail 5 2 ''b'' ''a'' ''hi'' ''thanks'' 100 [demo_attachment 2 909 2] demo_post"
  define s1 where "s1 = snd ?send"
  define s2 where "s2 = snd (CollectItems mem_mail 1 1 s1)"
  have own: "owned_att (bag_rows demo_post) 2 [demo_attachment 2 909 2]" "positive_att [demo_attachment 2 909 2]"
    by code_simp+
  have "spent_postage (fst ?send) 100 1 = 2502"
    by code_simp
  moreover have "mail_step demo_post (spent_postage (fst ?send) 100 (length [demo_attachment 2 909 2])) s1"
    unfolding s1_def using demo_post_wf own
    by (intro mail_step.send [where now = 5 and c = 2 and sn = "''b''" and rn = "''a''" and title = "''hi''" and body = "''thanks''"]) simp_all
  ultimately have 1: "mail_history demo_post 2502 s1"
    using mail_history.call [OF mail_history.none, of demo_post] by fastforce
  have "length (mail_Items (the (map_of (mr_mails (db_mail s1)) 1))) = 1" "ir_next (db_items s1) = 2"
    unfolding s1_def by code_simp+
  then have "mail_step s1 0 s2"
    unfolding s2_def by (intro mail_step.collect_items) (auto simp: ir_room_def)
  with 1 have r: "mail_history demo_post 2502 s2"
    using mail_history.call by fastforce
  have "db_held s2 1 909 = 2" "db_held s2 2 909 = 1"
    unfolding s2_def s1_def by code_simp+
  then show ?thesis
    using r mail_conserves_value [OF demo_post_wf(1) r] by force
qed

text \<open>
  Remark. A zero-unit attachment duplicates the others. Collecting a mail whose attachments are some
  ordinary ones, then one of amount 0, fails at that one after granting those before it and leaves
  the mail as it is, so \<open>n\<close> collects put \<open>n\<close> copies of them into the bag.
\<close>

theorem zero_amount_duplicates:
  fixes s :: "'z mail_db_scheme"
  assumes wf: "cr_wf (db_chars s)" "ir_wf (db_items s)" "mr_wf (db_mail s)"
    and m: "map_of (mr_mails (db_mail s)) i = Some m" "mail_DestID m = c" "mail_Items m = items @ z # rest"
    and att: "positive_att items" "att_Amount z = 0" and room: "n * length items \<le> ir_room (db_items s)"
  shows "\<exists>s'. ((\<lambda>s. snd (CollectItems mem_mail c i s)) ^^ n) s = s' \<and> map_of (mr_mails (db_mail s')) i = Some m \<and>
    (\<forall>k. db_held s' c k = db_held s c k + int n * attach_sum k items)"
proof -
  obtain s' where s': "((\<lambda>s. snd (CollectItems mem_mail c i s)) ^^ n) s = s'" "ir_wf (db_items s')" "db_post.same_post s s'"
      "\<forall>c' k. db_post.held s' c' k = db_post.held s c' k + (if c' = c then int n * attach_sum k items else 0)"
    using db_post.collect_again [OF wf(2,1,3) m att room] unfolding mem_mail_office [symmetric] by blast
  then show ?thesis
    using m(1) db_held_eq [OF wf(2)] db_held_eq [OF s'(2)] by (simp add: db_post.same_post_def)
qed

definition demo_parcel :: mail_db where
  "demo_parcel = snd (mail_Send mem_mail 5 2 ''b'' ''a'' ''hi'' ''thanks'' 0
     [demo_attachment 2 909 2, demo_attachment 2 909 0] demo_post)"

theorem zero_amount_duplicates_witness:
  "\<exists>s'. ((\<lambda>s. snd (CollectItems mem_mail 1 1 s)) ^^ 3) demo_parcel = s' \<and> db_held demo_parcel 1 909 = 0 \<and> db_held s' 1 909 = 6"
proof -
  define m where "m = the (map_of (mr_mails (db_mail demo_parcel)) 1)"
  have wf: "cr_wf (db_chars demo_parcel)" "ir_wf (db_items demo_parcel)" "mr_wf (db_mail demo_parcel)"
  proof -
    show "cr_wf (db_chars demo_parcel)" "ir_wf (db_items demo_parcel)"
      by code_simp+
    have "map fst (mr_mails (db_mail demo_parcel)) = [1]" "mr_next (db_mail demo_parcel) = 2"
      by code_simp+
    then show "mr_wf (db_mail demo_parcel)"
      by (auto simp: mr_wf_def map_eq_Cons_conv split: if_splits)
  qed
  have m: "map_of (mr_mails (db_mail demo_parcel)) 1 = Some m" "mail_DestID m = 1"
    "mail_Items m = [(demo_attachment 2 909 2)\<lparr>att_MailID := 1, att_Time := 5\<rparr>] @
       (demo_attachment 2 909 0)\<lparr>att_MailID := 1, att_Index := 1, att_Time := 5\<rparr> # []"
    unfolding m_def by code_simp+
  have "db_held demo_parcel 1 909 = 0" "ir_next (db_items demo_parcel) = 2"
    by code_simp+
  then show ?thesis
    using zero_amount_duplicates [OF wf m, where n = 3] by (simp add: demo_attachment_def ir_room_def)
qed

end
