(* ===== verification/Quest.thy ===== *)
theory Quest
  imports GoText
begin

text \<open>
  Quest variables (\<open>content/quest\<close>): the row and its port (\<open>domain/quest.go\<close>), the in-memory
  repository (\<open>infra/memory.go\<close>) and \<open>QuestService\<close> (\<open>app/service.go\<close>), which stores \<open>int64\<close> values
  as decimal text. The locale \<open>quest_store\<close> states what the service needs of the port.
\<close>

record quest_var =
  qv_CharID :: u32
  qv_NpcName :: string
  qv_VarName :: string
  qv_Value :: string

type_synonym quest_key = "u32 \<times> string \<times> string"

record 's quest_port =
  qp_Get :: "u32 \<Rightarrow> string \<Rightarrow> string \<Rightarrow> 's \<Rightarrow> (quest_var option, 's) out"
  qp_Set :: "u32 \<Rightarrow> string \<Rightarrow> string \<Rightarrow> string \<Rightarrow> 's \<Rightarrow> (unit, 's) out"
  qp_ListByChar :: "u32 \<Rightarrow> 's \<Rightarrow> (quest_var list, 's) out"

type_synonym quest_repo = "(quest_key \<times> quest_var) list"

definition NewMemoryQuestRepository :: quest_repo where
  "NewMemoryQuestRepository = []"

definition qr_Get :: "u32 \<Rightarrow> string \<Rightarrow> string \<Rightarrow> quest_repo \<Rightarrow> (quest_var option, quest_repo) out" where
  "qr_Get c npc var r = (Inr (map_of r (c, npc, var)), r)"

definition qr_Set :: "u32 \<Rightarrow> string \<Rightarrow> string \<Rightarrow> string \<Rightarrow> quest_repo \<Rightarrow> (unit, quest_repo) out" where
  "qr_Set c npc var v r =
     (Inr (), AList.update (c, npc, var) \<lparr>qv_CharID = c, qv_NpcName = npc, qv_VarName = var, qv_Value = v\<rparr> r)"

definition qr_ListByChar :: "u32 \<Rightarrow> quest_repo \<Rightarrow> (quest_var list, quest_repo) out" where
  "qr_ListByChar c r = (Inr (map snd (filter (\<lambda>(k, v). fst k = c) r)), r)"

definition mem_quest_port :: "quest_repo quest_port" where
  "mem_quest_port = \<lparr>qp_Get = qr_Get, qp_Set = qr_Set, qp_ListByChar = qr_ListByChar\<rparr>"

section \<open>QuestService\<close>

definition MaxNpcName :: nat where "MaxNpcName = 24"
definition MaxVarName :: nat where "MaxVarName = 32"

definition validateNames :: "string \<Rightarrow> string \<Rightarrow> err option" where
  "validateNames npc var =
     (if length npc = 0 \<or> length npc > MaxNpcName then Some ErrQuestInvalidName
      else if length var = 0 \<or> length var > MaxVarName then Some ErrQuestInvalidName
      else None)"

definition GetVar :: "'s quest_port \<Rightarrow> u32 \<Rightarrow> string \<Rightarrow> string \<Rightarrow> 's \<Rightarrow> (int, 's) out" where
  "GetVar Q c npc var s =
     (case validateNames npc var of
        Some e \<Rightarrow> (Inl e, s)
      | None \<Rightarrow> and_then (qp_Get Q c npc var s) (\<lambda>row s.
          case row of
            None \<Rightarrow> (Inr 0, s)
          | Some row \<Rightarrow> (case ParseInt (qv_Value row) of None \<Rightarrow> (Inr 0, s) | Some v \<Rightarrow> (Inr v, s))))"

definition SetVar :: "'s quest_port \<Rightarrow> u32 \<Rightarrow> string \<Rightarrow> string \<Rightarrow> int \<Rightarrow> 's \<Rightarrow> (unit, 's) out" where
  "SetVar Q c npc var v s =
     (case validateNames npc var of
        Some e \<Rightarrow> (Inl e, s)
      | None \<Rightarrow> qp_Set Q c npc var (FormatInt v) s)"

definition GetVarOfNPC :: "'s quest_port \<Rightarrow> u32 \<Rightarrow> string \<Rightarrow> string \<Rightarrow> 's \<Rightarrow> (int, 's) out" where
  "GetVarOfNPC Q c npc var s = GetVar Q c npc var s"

definition quest_ListByChar :: "'s quest_port \<Rightarrow> u32 \<Rightarrow> 's \<Rightarrow> (quest_var list, 's) out" where
  "quest_ListByChar Q c s = qp_ListByChar Q c s"

section \<open>What the service relies on\<close>

locale quest_store =
  fixes Q :: "'s quest_port"
    and rows :: "'s \<Rightarrow> quest_key \<Rightarrow> quest_var option"
  assumes get_row: "qp_Get Q c npc var s = (Inr (rows s (c, npc, var)), s)"
    and set_row: "\<exists>s'. qp_Set Q c npc var v s = (Inr (), s') \<and>
      rows s' = (rows s)((c, npc, var) \<mapsto> \<lparr>qv_CharID = c, qv_NpcName = npc, qv_VarName = var, qv_Value = v\<rparr>)"
begin

lemma set_get:
  assumes "- (2 ^ 63) \<le> v" and "v < 2 ^ 63"
  shows "case SetVar Q c npc var v s of
      (Inl e, s') \<Rightarrow> e = ErrQuestInvalidName \<and> s' = s \<and> (\<forall>c'. GetVar Q c' npc var s = (Inl e, s))
    | (Inr _, s') \<Rightarrow> GetVar Q c npc var s' = (Inr v, s') \<and>
        (\<forall>c' npc' var'. (c', npc', var') \<noteq> (c, npc, var) \<longrightarrow>
           fst (GetVar Q c' npc' var' s') = fst (GetVar Q c' npc' var' s))"
proof (cases "validateNames npc var")
  case None
  obtain s' where s': "qp_Set Q c npc var (FormatInt v) s = (Inr (), s')"
      "rows s' = (rows s)((c, npc, var) \<mapsto> \<lparr>qv_CharID = c, qv_NpcName = npc, qv_VarName = var, qv_Value = FormatInt v\<rparr>)"
    using set_row by blast
  have "fst (GetVar Q c' npc' var' s') = fst (GetVar Q c' npc' var' s)" if "(c', npc', var') \<noteq> (c, npc, var)" for c' npc' var'
    using that by (auto simp: GetVar_def get_row s'(2) split: option.split)
  moreover have "GetVar Q c npc var s' = (Inr v, s')"
    using None ParseInt_FormatInt [OF assms] by (simp add: GetVar_def get_row s'(2))
  ultimately show ?thesis
    using None s'(1) by (simp add: SetVar_def)
next
  case (Some e)
  then have "e = ErrQuestInvalidName"
    by (auto simp: validateNames_def split: if_splits)
  then show ?thesis
    using Some by (simp add: SetVar_def GetVar_def)
qed

end

interpretation mem_quests: quest_store mem_quest_port map_of
  by unfold_locales (simp_all add: mem_quest_port_def qr_Get_def qr_Set_def)

section \<open>Property\<close>

text \<open>
  Remark. Quest variables remember. A stored \<open>int64\<close> reads back as itself, whatever its sign and size, and
  no other variable changes; names that are empty or over the column width are refused by both calls
  without effect.
\<close>

theorem quest_var_roundtrip:
  assumes "- (2 ^ 63) \<le> v" and "v < 2 ^ 63"
  shows "case SetVar mem_quest_port c npc var v s of
      (Inl e, s') \<Rightarrow> e = ErrQuestInvalidName \<and> s' = s \<and> (\<forall>c'. GetVar mem_quest_port c' npc var s = (Inl e, s))
    | (Inr _, s') \<Rightarrow> GetVar mem_quest_port c npc var s' = (Inr v, s') \<and>
        (\<forall>c' npc' var'. (c', npc', var') \<noteq> (c, npc, var) \<longrightarrow>
           fst (GetVar mem_quest_port c' npc' var' s') = fst (GetVar mem_quest_port c' npc' var' s))"
  by (rule mem_quests.set_get [OF assms])

theorem quest_var_roundtrip_witness:
  "GetVar mem_quest_port 150001 ''Sage'' ''kills'' (snd (SetVar mem_quest_port 150001 ''Sage'' ''kills'' (-9223372036854775808) []))
     = (Inr (-9223372036854775808), snd (SetVar mem_quest_port 150001 ''Sage'' ''kills'' (-9223372036854775808) []))"
proof -
  have "fst (SetVar mem_quest_port 150001 ''Sage'' ''kills'' (-9223372036854775808) []) = Inr ()"
    by (simp add: SetVar_def validateNames_def MaxNpcName_def MaxVarName_def mem_quest_port_def qr_Set_def)
  then show ?thesis
    using quest_var_roundtrip [where v = "-9223372036854775808" and c = 150001 and npc = "''Sage''" and var = "''kills''" and s = "[]"]
    by (cases "SetVar mem_quest_port 150001 ''Sage'' ''kills'' (-9223372036854775808) []") (auto split: sum.splits)
qed

end
