(* ===== verification/Pathfinding.thy ===== *)
theory Pathfinding
  imports GoPrelude "HOL-Library.Multiset"
begin

text \<open>
  The A* pathfinder (\<open>pkg/ro/pathfinding\<close>) with the binary heap of Go's \<open>container/heap\<close> it pushes to
  and pops from, and the Bresenham line of sight. The grid interface is a parameter: its dimensions
  and walkability. The per-cell scratch arrays are functions of the cell index \<open>y * w + x\<close>; the code
  only indexes cells it has checked to be on the grid. Coordinates and costs are small (a map has at
  most 512 x 512 cells), so their \<open>int32\<close> arithmetic does not wrap; the bound is a hypothesis.
\<close>

section \<open>The grid\<close>

type_synonym point = "int \<times> int"

record walk_grid =
  grid_Width :: int
  grid_Height :: int
  grid_Walkable :: "int \<Rightarrow> int \<Rightarrow> bool"

definition MoveCost :: int where "MoveCost = 10"
definition MoveDiagonalCost :: int where "MoveDiagonalCost = 14"
definition MaxWalkPath :: nat where "MaxWalkPath = 32"
definition infCost :: int where "infCost = 2 ^ 30"

definition neighbors :: "point list" where
  "neighbors = [(0, 1), (0, -1), (1, 0), (-1, 0), (1, 1), (-1, 1), (1, -1), (-1, -1)]"

definition heuristic :: "int \<Rightarrow> int \<Rightarrow> int \<Rightarrow> int \<Rightarrow> int" where
  "heuristic x0 y0 x1 y1 = (\<bar>x1 - x0\<bar> + \<bar>y1 - y0\<bar>) * MoveCost"

section \<open>The open set\<close>

record path_node =
  pn_f :: int
  pn_g :: int
  pn_x :: int
  pn_y :: int

type_synonym queue = "path_node list"

definition heap_less :: "queue \<Rightarrow> nat \<Rightarrow> nat \<Rightarrow> bool" where
  "heap_less h i j \<longleftrightarrow> pn_f (h ! i) < pn_f (h ! j)"

definition heap_swap :: "nat \<Rightarrow> nat \<Rightarrow> queue \<Rightarrow> queue" where
  "heap_swap i j h = h[i := h ! j, j := h ! i]"

fun heap_up :: "nat \<Rightarrow> queue \<Rightarrow> queue" where
  "heap_up j h =
     (if j = 0 \<or> \<not> heap_less h j ((j - 1) div 2) then h
      else heap_up ((j - 1) div 2) (heap_swap ((j - 1) div 2) j h))"

function heap_down :: "nat \<Rightarrow> nat \<Rightarrow> queue \<Rightarrow> queue" where
  "heap_down i n h =
     (let j1 = 2 * i + 1
      in if j1 \<ge> n then h
         else let j = (if j1 + 1 < n \<and> heap_less h (j1 + 1) j1 then j1 + 1 else j1)
              in if \<not> heap_less h j i then h else heap_down j n (heap_swap i j h))"
  by pat_completeness auto
termination
  by (relation "measure (\<lambda>(i, n, h). n - i)") (auto simp: Let_def split: if_splits)

declare heap_up.simps [simp del] heap_down.simps [simp del]

definition heap_Push :: "path_node \<Rightarrow> queue \<Rightarrow> queue" where
  "heap_Push x h = heap_up (length h) (h @ [x])"

definition heap_Pop :: "queue \<Rightarrow> path_node \<times> queue" where
  "heap_Pop h =
     (let n = length h - 1; h = heap_down 0 n (heap_swap 0 n h)
      in (last h, butlast h))"

section \<open>FindPath\<close>

record search =
  se_gCost :: "int \<Rightarrow> int"
  se_parent :: "int \<Rightarrow> int"
  se_closed :: "int \<Rightarrow> bool"
  se_pq :: queue

definition fresh_search :: search where
  "fresh_search = \<lparr>se_gCost = (\<lambda>_. infCost), se_parent = (\<lambda>_. -1), se_closed = (\<lambda>_. False), se_pq = []\<rparr>"

definition onGrid :: "walk_grid \<Rightarrow> point \<Rightarrow> bool" where
  "onGrid G p = (case p of (x, y) \<Rightarrow> x \<ge> 0 \<and> y \<ge> 0 \<and> x < grid_Width G \<and> y < grid_Height G)"

definition validateEndpoints :: "walk_grid \<Rightarrow> point \<Rightarrow> point \<Rightarrow> err option" where
  "validateEndpoints G start target =
     (if \<not> onGrid G start then Some (ErrText ''start out of bounds'')
      else if \<not> onGrid G target then Some (ErrText ''target out of bounds'')
      else if \<not> grid_Walkable G (fst start) (snd start) then Some (ErrText ''start not walkable'')
      else if \<not> grid_Walkable G (fst target) (snd target) then Some (ErrText ''target not walkable'')
      else None)"

definition relax :: "walk_grid \<Rightarrow> path_node \<Rightarrow> point \<Rightarrow> point \<Rightarrow> search \<Rightarrow> search" where
  "relax G cur target d S =
     (let (dx, dy) = d; w = grid_Width G; nx = pn_x cur + dx; ny = pn_y cur + dy; nIdx = ny * w + nx
      in if nx < 0 \<or> ny < 0 \<or> nx \<ge> w \<or> ny \<ge> grid_Height G then S
         else if se_closed S nIdx then S
         else if \<not> grid_Walkable G nx ny then S
         else if dx \<noteq> 0 \<and> dy \<noteq> 0 \<and> \<not> grid_Walkable G (pn_x cur + dx) (pn_y cur) then S
         else if dx \<noteq> 0 \<and> dy \<noteq> 0 \<and> \<not> grid_Walkable G (pn_x cur) (pn_y cur + dy) then S
         else
           let newG = pn_g cur + (if dx \<noteq> 0 \<and> dy \<noteq> 0 then MoveDiagonalCost else MoveCost)
           in if newG \<ge> se_gCost S nIdx then S
              else S\<lparr>se_gCost := (se_gCost S)(nIdx := newG),
                     se_parent := (se_parent S)(nIdx := pn_y cur * w + pn_x cur),
                     se_pq := heap_Push \<lparr>pn_f = newG + heuristic nx ny (fst target) (snd target), pn_g = newG,
                       pn_x = nx, pn_y = ny\<rparr> (se_pq S)\<rparr>)"

definition expand :: "walk_grid \<Rightarrow> path_node \<Rightarrow> point \<Rightarrow> search \<Rightarrow> search" where
  "expand G cur target S = foldl (\<lambda>S d. relax G cur target d S) S neighbors"

text \<open>The parent chain of \<open>reconstructPath\<close>, from the target to the start; \<open>None\<close> is the fuel running out.\<close>

fun parent_chain :: "nat \<Rightarrow> (int \<Rightarrow> int) \<Rightarrow> int \<Rightarrow> int list option" where
  "parent_chain 0 parent cur = None"
| "parent_chain (Suc k) parent cur =
     (if cur = -1 then Some [] else map_option ((#) cur) (parent_chain k parent (parent cur)))"

definition reconstructPath :: "nat \<Rightarrow> (int \<Rightarrow> int) \<Rightarrow> int \<Rightarrow> int \<Rightarrow> point list option" where
  "reconstructPath k parent targetIdx w =
     map_option (\<lambda>chain.
       let out = rev (map (\<lambda>i. (i mod w, i div w)) chain)
       in if length out \<le> 1 then [] else take MaxWalkPath (tl out)) (parent_chain k parent targetIdx)"

fun search_loop :: "nat \<Rightarrow> nat \<Rightarrow> walk_grid \<Rightarrow> point \<Rightarrow> int \<Rightarrow> search \<Rightarrow> point list res option" where
  "search_loop 0 k G target targetIdx S = None"
| "search_loop (Suc n) k G target targetIdx S =
     (if se_pq S = [] then Some (Inl ErrNoPath)
      else
        let (cur, pq) = heap_Pop (se_pq S); S = S\<lparr>se_pq := pq\<rparr>; w = grid_Width G; curIdx = pn_y cur * w + pn_x cur
        in if se_closed S curIdx then search_loop n k G target targetIdx S
           else
             let S = S\<lparr>se_closed := (se_closed S)(curIdx := True)\<rparr>
             in if curIdx = targetIdx then map_option Inr (reconstructPath k (se_parent S) targetIdx w)
                else search_loop n k G target targetIdx (expand G cur target S))"

text \<open>\<open>n\<close> bounds the pops and \<open>k\<close> the length of the chain.\<close>

definition FindPath :: "nat \<Rightarrow> nat \<Rightarrow> walk_grid \<Rightarrow> point \<Rightarrow> point \<Rightarrow> point list res option" where
  "FindPath n k G start target =
     (case validateEndpoints G start target of
        Some e \<Rightarrow> Some (Inl e)
      | None \<Rightarrow>
          if fst start = fst target \<and> snd start = snd target then Some (Inr [])
          else
            let w = grid_Width G; startIdx = snd start * w + fst start; targetIdx = snd target * w + fst target;
                S = fresh_search\<lparr>se_gCost := (se_gCost fresh_search)(startIdx := 0),
                      se_parent := (se_parent fresh_search)(startIdx := -1),
                      se_pq := heap_Push \<lparr>pn_f = heuristic (fst start) (snd start) (fst target) (snd target), pn_g = 0,
                        pn_x = fst start, pn_y = snd start\<rparr> []\<rparr>
            in search_loop n k G target targetIdx S)"

section \<open>LineOfSight\<close>

fun los_loop :: "nat \<Rightarrow> walk_grid \<Rightarrow> point \<Rightarrow> point \<Rightarrow> int \<Rightarrow> int \<Rightarrow> int \<Rightarrow> int \<Rightarrow> int \<Rightarrow> int \<Rightarrow> int \<Rightarrow> bool option" where
  "los_loop 0 G from to dx dy sx sy x0 y0 err = None"
| "los_loop (Suc n) G from to dx dy sx sy x0 y0 err =
     (if (x0 \<noteq> fst from \<or> y0 \<noteq> snd from) \<and> (x0 \<noteq> fst to \<or> y0 \<noteq> snd to) \<and> \<not> grid_Walkable G x0 y0 then Some False
      else if x0 = fst to \<and> y0 = snd to then Some True
      else
        let e2 = 2 * err;
            (err, x0) = (if e2 \<ge> dy then (err + dy, x0 + sx) else (err, x0));
            (err, y0) = (if e2 \<le> dx then (err + dx, y0 + sy) else (err, y0))
        in los_loop n G from to dx dy sx sy x0 y0 err)"

definition LineOfSight :: "nat \<Rightarrow> walk_grid \<Rightarrow> point \<Rightarrow> point \<Rightarrow> bool option" where
  "LineOfSight n G from to =
     (let dx = \<bar>fst to - fst from\<bar>; dy = - \<bar>snd to - snd from\<bar>;
          sx = (if fst from \<ge> fst to then -1 else 1); sy = (if snd from \<ge> snd to then -1 else 1)
      in los_loop n G from to dx dy sx sy (fst from) (snd from) (dx + dy))"

section \<open>The heap keeps its nodes\<close>

lemma mset_heap_swap: "i < length h \<Longrightarrow> j < length h \<Longrightarrow> mset (heap_swap i j h) = mset h"
  by (simp add: heap_swap_def mset_swap)

lemma length_heap_swap [simp]: "length (heap_swap i j h) = length h"
  by (simp add: heap_swap_def)

lemma mset_heap_up: "j < length h \<Longrightarrow> mset (heap_up j h) = mset h"
proof (induction j h rule: heap_up.induct)
  case (1 j h)
  show ?case
  proof (cases "j = 0 \<or> \<not> heap_less h j ((j - 1) div 2)")
    case True
    then show ?thesis by (subst heap_up.simps) simp
  next
    case False
    then have "(j - 1) div 2 < length h"
      using 1(2) by linarith
    then show ?thesis
      using 1 False by (subst heap_up.simps) (simp add: mset_heap_swap)
  qed
qed

lemma mset_heap_down: "i < n \<Longrightarrow> n \<le> length h \<Longrightarrow> mset (heap_down i n h) = mset h"
proof (induction i n h rule: heap_down.induct)
  case (1 i n h)
  let ?j = "if 2 * i + 1 + 1 < n \<and> heap_less h (2 * i + 1 + 1) (2 * i + 1) then 2 * i + 1 + 1 else 2 * i + 1"
  show ?case
  proof (cases "2 * i + 1 \<ge> n \<or> \<not> heap_less h ?j i")
    case True
    then show ?thesis by (subst heap_down.simps) (auto simp: Let_def)
  next
    case False
    then have j: "?j < n"
      by (simp split: if_splits)
    have "mset (heap_down ?j n (heap_swap i ?j h)) = mset (heap_swap i ?j h)"
      using False j 1(3) by (intro 1(1) [OF refl]) auto
    moreover have "mset (heap_swap i ?j h) = mset h"
      using j 1(2,3) by (intro mset_heap_swap) linarith+
    ultimately show ?thesis
      using False by (subst heap_down.simps) (auto simp: Let_def split: if_splits)
  qed
qed

lemma mset_heap_Push: "mset (heap_Push x h) = add_mset x (mset h)"
  by (simp add: heap_Push_def mset_heap_up)

lemma heap_Pop_mset:
  assumes "h \<noteq> []"
  shows "add_mset (fst (heap_Pop h)) (mset (snd (heap_Pop h))) = mset h"
proof -
  let ?n = "length h - 1"
  let ?h = "heap_down 0 ?n (heap_swap 0 ?n h)"
  have sw: "mset (heap_swap 0 ?n h) = mset h"
    using assms by (intro mset_heap_swap) simp_all
  have "mset ?h = mset h"
  proof (cases "?n = 0")
    case True
    then have "heap_down 0 ?n (heap_swap 0 ?n h) = heap_swap 0 ?n h"
      by (subst heap_down.simps) simp
    then show ?thesis
      using sw by simp
  next
    case False
    then have "mset ?h = mset (heap_swap 0 ?n h)"
      by (intro mset_heap_down) simp_all
    then show ?thesis
      using sw by simp
  qed
  moreover from this have ne: "?h \<noteq> []"
    using assms by (metis mset.simps(1) mset_zero_iff)
  have "mset (butlast ?h @ [last ?h]) = mset ?h"
    by (simp only: append_butlast_last_id [OF ne])
  ultimately show ?thesis
    by (simp add: heap_Pop_def Let_def)
qed

lemma heap_Pop_facts:
  assumes "h \<noteq> []" and "heap_Pop h = (x, h')"
  shows "set h = insert x (set h')" and "length h = Suc (length h')"
proof -
  have m: "add_mset x (mset h') = mset h"
    using heap_Pop_mset [OF assms(1)] assms(2) by simp
  show "set h = insert x (set h')"
    using arg_cong [OF m, of set_mset] by simp
  show "length h = Suc (length h')"
    using arg_cong [OF m, of size] by simp
qed

lemma heap_Push_facts [simp]: "set (heap_Push x h) = insert x (set h)" "length (heap_Push x h) = Suc (length h)"
proof -
  show "set (heap_Push x h) = insert x (set h)"
    using arg_cong [OF mset_heap_Push [of x h], of set_mset] by simp
  show "length (heap_Push x h) = Suc (length h)"
    using arg_cong [OF mset_heap_Push [of x h], of size] by simp
qed

section \<open>Walks\<close>

text \<open>One step of a unit: onto a walkable neighbour cell, diagonally only past two walkable corners.\<close>

definition legal :: "walk_grid \<Rightarrow> point \<Rightarrow> point \<Rightarrow> bool" where
  "legal G p q \<longleftrightarrow> onGrid G q \<and> grid_Walkable G (fst q) (snd q) \<and> (fst q - fst p, snd q - snd p) \<in> set neighbors \<and>
     (fst q \<noteq> fst p \<and> snd q \<noteq> snd p \<longrightarrow> grid_Walkable G (fst q) (snd p) \<and> grid_Walkable G (fst p) (snd q))"

fun walk :: "walk_grid \<Rightarrow> point \<Rightarrow> point list \<Rightarrow> point \<Rightarrow> bool" where
  "walk G p [] t \<longleftrightarrow> p = t"
| "walk G p (q # qs) t \<longleftrightarrow> legal G p q \<and> walk G q qs t"

lemma walk_snoc: "walk G p (qs @ [q]) t \<longleftrightarrow> (\<exists>r. walk G p qs r \<and> legal G r q \<and> q = t)"
  by (induction qs arbitrary: p) auto

lemma walk_inBounds: "walk G p qs t \<Longrightarrow> list_all (onGrid G) qs"
  by (induction qs arbitrary: p) (auto simp: legal_def)

definition ix :: "walk_grid \<Rightarrow> point \<Rightarrow> int" where
  "ix G p = snd p * grid_Width G + fst p"

definition cell_of :: "walk_grid \<Rightarrow> int \<Rightarrow> point" where
  "cell_of G i = (i mod grid_Width G, i div grid_Width G)"

lemma cell_ix: "onGrid G p \<Longrightarrow> cell_of G (ix G p) = p"
  by (cases p) (auto simp: onGrid_def ix_def cell_of_def)

lemma ix_inj: "onGrid G p \<Longrightarrow> onGrid G q \<Longrightarrow> ix G p = ix G q \<longleftrightarrow> p = q"
  by (metis cell_ix)

lemma ix_range:
  assumes "onGrid G p"
  shows "0 \<le> ix G p" and "ix G p < grid_Width G * grid_Height G"
proof -
  have p: "0 \<le> fst p" "fst p < grid_Width G" "0 \<le> snd p" "snd p < grid_Height G"
    using assms by (auto simp: onGrid_def split: prod.splits)
  then show "0 \<le> ix G p"
    by (simp add: ix_def)
  have "snd p * grid_Width G \<le> (grid_Height G - 1) * grid_Width G"
    using p by (intro mult_right_mono) auto
  then show "ix G p < grid_Width G * grid_Height G"
    using p(2) by (simp add: ix_def algebra_simps)
qed

section \<open>The search invariant\<close>

declare split_paired_All [simp del] split_paired_Ex [simp del]

text \<open>\<open>cl\<close> lists the closed cells, the latest first: each one's parent was closed before it.\<close>

fun tree :: "(int \<Rightarrow> int) \<Rightarrow> int \<Rightarrow> int list \<Rightarrow> bool" where
  "tree par s [] \<longleftrightarrow> True"
| "tree par s (v # cl) \<longleftrightarrow> (v = s \<and> par v = -1 \<or> par v \<in> set cl) \<and> tree par s cl"

lemma tree_cong: "(\<And>v. v \<in> set cl \<Longrightarrow> par' v = par v) \<Longrightarrow> tree par' s cl = tree par s cl"
  by (induction cl) auto

definition disc :: "walk_grid \<Rightarrow> search \<Rightarrow> point \<Rightarrow> bool" where
  "disc G S q \<longleftrightarrow> se_gCost S (ix G q) < infCost"

definition node_cell :: "path_node \<Rightarrow> point" where
  "node_cell n = (pn_x n, pn_y n)"

definition linked :: "walk_grid \<Rightarrow> point \<Rightarrow> int list \<Rightarrow> search \<Rightarrow> point \<Rightarrow> bool" where
  "linked G start cl S q \<longleftrightarrow> q = start \<and> se_parent S (ix G q) = -1 \<or>
     (\<exists>p. onGrid G p \<and> ix G p \<in> set cl \<and> se_parent S (ix G q) = ix G p \<and> legal G p q)"

definition node_ok :: "walk_grid \<Rightarrow> int list \<Rightarrow> search \<Rightarrow> path_node \<Rightarrow> bool" where
  "node_ok G cl S n \<longleftrightarrow> onGrid G (node_cell n) \<and> disc G S (node_cell n) \<and> 0 \<le> pn_g n \<and> pn_g n \<le> 14 * int (length cl)"

definition core :: "walk_grid \<Rightarrow> point \<Rightarrow> int list \<Rightarrow> search \<Rightarrow> bool" where
  "core G start cl S \<longleftrightarrow>
     (\<forall>i. se_closed S i \<longleftrightarrow> i \<in> set cl) \<and> distinct cl \<and> tree (se_parent S) (ix G start) cl \<and>
     (\<forall>v\<in>set cl. \<exists>q. onGrid G q \<and> v = ix G q \<and> disc G S q) \<and>
     (\<forall>n\<in>set (se_pq S). node_ok G cl S n) \<and>
     (\<forall>q. onGrid G q \<longrightarrow> disc G S q \<longrightarrow> linked G start cl S q) \<and>
     (\<forall>q. onGrid G q \<longrightarrow> disc G S q \<longrightarrow> ix G q \<notin> set cl \<longrightarrow> q \<in> node_cell ` set (se_pq S)) \<and>
     se_gCost S (ix G start) = 0"

lemma coreD:
  assumes "core G start cl S"
  shows "se_closed S i \<longleftrightarrow> i \<in> set cl" and "distinct cl" and "tree (se_parent S) (ix G start) cl"
    and "v \<in> set cl \<Longrightarrow> \<exists>q. onGrid G q \<and> v = ix G q \<and> disc G S q"
    and "n \<in> set (se_pq S) \<Longrightarrow> node_ok G cl S n"
    and "onGrid G q \<Longrightarrow> disc G S q \<Longrightarrow> linked G start cl S q"
    and "onGrid G q \<Longrightarrow> disc G S q \<Longrightarrow> ix G q \<notin> set cl \<Longrightarrow> q \<in> node_cell ` set (se_pq S)"
    and "se_gCost S (ix G start) = 0"
  using assms unfolding core_def by simp_all

lemma closed_length:
  assumes "core G start cl S" and "0 \<le> grid_Width G * grid_Height G"
  shows "int (length cl) \<le> grid_Width G * grid_Height G"
proof -
  have sub: "set cl \<subseteq> {0..<grid_Width G * grid_Height G}"
    using coreD(4) [OF assms(1)] ix_range by fastforce
  have "length cl = card (set cl)"
    using coreD(2) [OF assms(1)] by (simp add: distinct_card)
  also have "\<dots> \<le> card {0..<grid_Width G * grid_Height G}"
    using sub by (intro card_mono) simp_all
  finally show ?thesis
    using assms(2) by simp
qed

text \<open>Relaxing one neighbour of the cell just closed.\<close>

lemma relax_spec:
  assumes core: "core G start cl S" and cur: "onGrid G (node_cell cur)" "ix G (node_cell cur) \<in> set cl"
    and g: "0 \<le> pn_g cur" "pn_g cur + 14 \<le> 14 * int (length cl)" "14 * int (length cl) < infCost"
    and start: "onGrid G start" and d: "d \<in> set neighbors"
  shows "core G start cl (relax G cur target d S)"
    and "disc G S q \<Longrightarrow> disc G (relax G cur target d S) q"
    and "length (se_pq (relax G cur target d S)) \<le> Suc (length (se_pq S))"
    and "legal G (node_cell cur) (pn_x cur + fst d, pn_y cur + snd d) \<Longrightarrow>
      disc G (relax G cur target d S) (pn_x cur + fst d, pn_y cur + snd d)"
proof -
  obtain dx dy where dxy: "d = (dx, dy)"
    by (cases d)
  define q0 where "q0 = (pn_x cur + dx, pn_y cur + dy)"
  define cost where "cost = (if dx \<noteq> 0 \<and> dy \<noteq> 0 then MoveDiagonalCost else MoveCost)"
  define newG where "newG = pn_g cur + cost"
  define ok where "ok \<longleftrightarrow> onGrid G q0 \<and> \<not> se_closed S (ix G q0) \<and> grid_Walkable G (fst q0) (snd q0) \<and>
    (dx \<noteq> 0 \<and> dy \<noteq> 0 \<longrightarrow> grid_Walkable G (fst q0) (pn_y cur) \<and> grid_Walkable G (pn_x cur) (snd q0))"
  define S' where "S' = S\<lparr>se_gCost := (se_gCost S)(ix G q0 := newG),
    se_parent := (se_parent S)(ix G q0 := ix G (node_cell cur)),
    se_pq := heap_Push \<lparr>pn_f = newG + heuristic (fst q0) (snd q0) (fst target) (snd target), pn_g = newG,
      pn_x = fst q0, pn_y = snd q0\<rparr> (se_pq S)\<rparr>"
  have run: "relax G cur target d S = (if ok \<and> newG < se_gCost S (ix G q0) then S' else S)"
    by (auto simp: relax_def dxy Let_def ok_def q0_def newG_def cost_def S'_def onGrid_def ix_def node_cell_def)
  have cost: "0 < cost" "cost \<le> 14"
    by (simp_all add: cost_def MoveCost_def MoveDiagonalCost_def)
  have new: "0 \<le> newG" "newG \<le> 14 * int (length cl)" "newG < infCost" "0 < newG"
    using g cost by (simp_all add: newG_def)
  have leg: "legal G (node_cell cur) q0 \<longleftrightarrow> onGrid G q0 \<and> grid_Walkable G (fst q0) (snd q0) \<and>
      (dx \<noteq> 0 \<and> dy \<noteq> 0 \<longrightarrow> grid_Walkable G (fst q0) (pn_y cur) \<and> grid_Walkable G (pn_x cur) (snd q0))"
    using d dxy by (auto simp: legal_def node_cell_def q0_def)
  have core': "core G start cl S' \<and> (\<forall>q. disc G S q \<longrightarrow> disc G S' q)" if do: "ok" "newG < se_gCost S (ix G q0)"
  proof -
    have q0: "onGrid G q0" "ix G q0 \<notin> set cl" "legal G (node_cell cur) q0"
      using do(1) coreD(1) [OF core] leg by (auto simp: ok_def)
    have ne: "start \<noteq> q0"
      using do(2) coreD(8) [OF core] new by auto
    have mono: "disc G S q \<Longrightarrow> disc G S' q" for q
      using new(3) by (auto simp: disc_def S'_def)
    have disc': "disc G S' q \<longleftrightarrow> q = q0 \<or> disc G S q" if "onGrid G q" for q
      using that q0(1) new(3) by (auto simp: disc_def S'_def ix_inj)
    have lk: "linked G start cl S' q" if q: "onGrid G q" "disc G S' q" for q
    proof (cases "q = q0")
      case True
      then show ?thesis
        using q0(3) cur by (auto simp: linked_def S'_def)
    next
      case False
      then have "se_parent S' (ix G q) = se_parent S (ix G q)"
        using q(1) q0(1) by (simp add: S'_def ix_inj)
      moreover have "linked G start cl S q"
        using q False disc' coreD(6) [OF core] by blast
      ultimately show ?thesis
        by (simp add: linked_def)
    qed
    have "v \<in> set cl \<Longrightarrow> se_parent S' v = se_parent S v" for v
      using q0(2) by (auto simp: S'_def)
    then have tr: "tree (se_parent S') (ix G start) cl"
      using coreD(3) [OF core] tree_cong [of cl "se_parent S'" "se_parent S"] by blast
    have closed: "\<exists>q. onGrid G q \<and> v = ix G q \<and> disc G S' q" if "v \<in> set cl" for v
      using coreD(4) [OF core that] mono by blast
    have nodes: "node_ok G cl S' n" if "n \<in> set (se_pq S')" for n
    proof (cases "n \<in> set (se_pq S)")
      case True
      then show ?thesis
        using coreD(5) [OF core] mono by (auto simp: node_ok_def)
    next
      case False
      then have "node_cell n = q0" "pn_g n = newG"
        using that by (auto simp: S'_def node_cell_def)
      then show ?thesis
        using q0(1) new disc' [OF q0(1)] by (simp add: node_ok_def)
    qed
    have open_: "q \<in> node_cell ` set (se_pq S')" if q: "onGrid G q" "disc G S' q" "ix G q \<notin> set cl" for q
      using q disc' coreD(7) [OF core] by (cases "q = q0") (auto simp: S'_def node_cell_def)
    have g0: "se_gCost S' (ix G start) = 0"
      using coreD(8) [OF core] ne start q0(1) by (simp add: S'_def ix_inj)
    have "se_closed S' = se_closed S"
      by (simp add: S'_def)
    then have "core G start cl S'"
      unfolding core_def using coreD(1,2) [OF core] tr closed nodes lk open_ g0 by simp
    then show ?thesis
      using mono by blast
  qed
  show "core G start cl (relax G cur target d S)"
    using core core' by (simp add: run)
  show "disc G S q \<Longrightarrow> disc G (relax G cur target d S) q"
    using core' by (simp add: run)
  show "length (se_pq (relax G cur target d S)) \<le> Suc (length (se_pq S))"
    by (simp add: run S'_def)
  show "disc G (relax G cur target d S) (pn_x cur + fst d, pn_y cur + snd d)"
    if l: "legal G (node_cell cur) (pn_x cur + fst d, pn_y cur + snd d)"
  proof -
    have l0: "legal G (node_cell cur) q0" "(pn_x cur + fst d, pn_y cur + snd d) = q0"
      using l by (simp_all add: dxy q0_def)
    have "disc G (relax G cur target d S) q0"
    proof (cases "ix G q0 \<in> set cl")
      case True
      then obtain q where "onGrid G q" "ix G q0 = ix G q" "disc G S q"
        using coreD(4) [OF core] by blast
      then have "disc G S q0"
        by (simp add: disc_def)
      then show ?thesis
        using core' by (simp add: run)
    next
      case False
      then have "ok"
        using l0(1) leg coreD(1) [OF core] by (simp add: ok_def)
      then show ?thesis
        using new(3) core' by (auto simp: run disc_def S'_def not_less)
    qed
    then show ?thesis
      by (simp only: l0(2))
  qed
qed

lemma expand_spec:
  assumes core: "core G start cl S" and cur: "onGrid G (node_cell cur)" "ix G (node_cell cur) \<in> set cl"
    and g: "0 \<le> pn_g cur" "pn_g cur + 14 \<le> 14 * int (length cl)" "14 * int (length cl) < infCost"
    and start: "onGrid G start"
  shows "core G start cl (expand G cur target S)"
    and "disc G S q \<Longrightarrow> disc G (expand G cur target S) q"
    and "length (se_pq (expand G cur target S)) \<le> length (se_pq S) + 8"
    and "legal G (node_cell cur) q \<Longrightarrow> disc G (expand G cur target S) q"
proof -
  note relax = relax_spec [OF _ cur g start]
  have fold: "set ds \<subseteq> set neighbors \<Longrightarrow> core G start cl T \<Longrightarrow>
      core G start cl (foldl (\<lambda>S d. relax G cur target d S) T ds) \<and>
      (\<forall>q. disc G T q \<longrightarrow> disc G (foldl (\<lambda>S d. relax G cur target d S) T ds) q) \<and>
      length (se_pq (foldl (\<lambda>S d. relax G cur target d S) T ds)) \<le> length (se_pq T) + length ds \<and>
      (\<forall>d\<in>set ds. legal G (node_cell cur) (pn_x cur + fst d, pn_y cur + snd d) \<longrightarrow>
         disc G (foldl (\<lambda>S d. relax G cur target d S) T ds) (pn_x cur + fst d, pn_y cur + snd d))" for ds T
  proof (induction ds arbitrary: T)
    case (Cons d ds)
    then have d: "d \<in> set neighbors"
      by simp
    let ?T = "relax G cur target d T"
    note r = relax [OF Cons.prems(2) d, where target = target]
    have "set ds \<subseteq> set neighbors"
      using Cons.prems(1) by simp
    note ih = Cons.IH [OF this r(1)]
    show ?case
      using ih r(2,4) le_trans [OF conjunct1 [OF conjunct2 [OF conjunct2 [OF ih]]], of "length (se_pq T) + length (d # ds)"] r(3)
      by auto
  qed simp
  note f = fold [OF subset_refl core]
  show "core G start cl (expand G cur target S)" "disc G S q \<Longrightarrow> disc G (expand G cur target S) q"
    using f by (simp_all add: expand_def)
  show "length (se_pq (expand G cur target S)) \<le> length (se_pq S) + 8"
    using f by (simp add: expand_def neighbors_def)
  show "disc G (expand G cur target S) q" if l: "legal G (node_cell cur) q"
  proof -
    let ?d = "(fst q - pn_x cur, snd q - pn_y cur)"
    have "?d \<in> set neighbors"
      using l by (simp add: legal_def node_cell_def)
    then show ?thesis
      using conjunct2 [OF conjunct2 [OF conjunct2 [OF f]]] l unfolding expand_def by fastforce
  qed
qed

text \<open>The parent chain of a closed cell is a walk from the start, backwards.\<close>

lemma parent_chain_walk:
  assumes "tree par (ix G start) cl" and start: "onGrid G start"
    and link: "\<And>v. v \<in> set cl \<Longrightarrow> \<exists>q. onGrid G q \<and> v = ix G q \<and>
      (q = start \<and> par v = -1 \<or> (\<exists>p. onGrid G p \<and> par v = ix G p \<and> legal G p q))"
    and "v \<in> set cl" and "length cl < k"
  shows "\<exists>qs q. onGrid G q \<and> v = ix G q \<and> parent_chain k par v = Some (map (ix G) (rev (start # qs))) \<and> walk G start qs q"
  using assms(1,4,5) link
proof (induction cl arbitrary: v k)
  case (Cons u cl)
  have nonneg: "w \<in> set (u # cl) \<Longrightarrow> w \<noteq> -1" for w
    using Cons.prems(4) ix_range(1) by fastforce
  show ?case
  proof (cases "v \<in> set cl")
    case True
    then show ?thesis
      using Cons.IH [of v k] Cons.prems by simp
  next
    case False
    then have v: "v = u"
      using Cons.prems(2) by simp
    obtain k' where k: "k = Suc k'" "length cl < k'"
      using Cons.prems(3) by (cases k) auto
    obtain q where q: "onGrid G q" "v = ix G q"
        "q = start \<and> par v = -1 \<or> (\<exists>p. onGrid G p \<and> par v = ix G p \<and> legal G p q)"
      using Cons.prems(4) [OF Cons.prems(2)] by blast
    from q(3) show ?thesis
    proof
      assume s: "q = start \<and> par v = -1"
      obtain k'' where "k' = Suc k''"
        using k(2) by (cases k') auto
      moreover have "v = ix G start" "par (ix G start) = -1"
        using s q(2) by auto
      ultimately have "parent_chain k par v = Some [ix G start]"
        using k(1) nonneg [OF Cons.prems(2)] by simp
      then show ?thesis
        using s q(1,2) by (intro exI [of _ "[]"] exI [of _ q]) simp
    next
      assume "\<exists>p. onGrid G p \<and> par v = ix G p \<and> legal G p q"
      then obtain p where p: "onGrid G p" "par v = ix G p" "legal G p q"
        by blast
      have "par v \<noteq> -1"
        using p(2) ix_range(1) [OF p(1)] by simp
      then have mem: "par v \<in> set cl"
        using Cons.prems(1) v by auto
      obtain qs r where r: "onGrid G r" "par v = ix G r" "parent_chain k' par (par v) = Some (map (ix G) (rev (start # qs)))"
          "walk G start qs r"
        using Cons.IH [OF _ mem k(2)] Cons.prems(1,4) by auto
      have "r = p"
        using r(1,2) p(1,2) ix_inj by metis
      then have "walk G start (qs @ [q]) q"
        using r(4) p(3) by (auto simp: walk_snoc)
      then show ?thesis
        using r(3) q(1,2) k(1) nonneg [OF Cons.prems(2)] by (intro exI [of _ "qs @ [q]"] exI [of _ q]) simp
    qed
  qed
qed simp

lemma reconstruct_spec:
  assumes core: "core G start cl S" and start: "onGrid G start" and t: "onGrid G target" "ix G target \<in> set cl"
    and k: "length cl < k"
  shows "\<exists>qs. reconstructPath k (se_parent S) (ix G target) (grid_Width G) = Some (take MaxWalkPath qs) \<and> walk G start qs target"
proof -
  have link: "\<exists>q. onGrid G q \<and> v = ix G q \<and> (q = start \<and> se_parent S v = -1 \<or>
      (\<exists>p. onGrid G p \<and> se_parent S v = ix G p \<and> legal G p q))" if v: "v \<in> set cl" for v
  proof -
    obtain q where q: "onGrid G q" "v = ix G q" "disc G S q"
      using coreD(4) [OF core v] by blast
    then show ?thesis
      using coreD(6) [OF core q(1,3)] unfolding linked_def by blast
  qed
  obtain qs q where q: "onGrid G q" "ix G target = ix G q"
      "parent_chain k (se_parent S) (ix G target) = Some (map (ix G) (rev (start # qs)))" "walk G start qs q"
    using parent_chain_walk [OF coreD(3) [OF core] start link t(2) k] by blast
  have "q = target"
    using q(1,2) t(1) ix_inj by metis
  moreover have "map (cell_of G \<circ> ix G) (start # qs) = start # qs"
    using walk_inBounds [OF q(4)] start by (auto simp: list_all_iff cell_ix intro!: map_idI)
  moreover have "(\<lambda>i. (i mod grid_Width G, i div grid_Width G)) = cell_of G"
    by (simp add: cell_of_def fun_eq_iff)
  ultimately show ?thesis
    using q(3,4) by (intro exI [of _ qs]) (simp add: reconstructPath_def Let_def rev_map comp_def)
qed

text \<open>Popping a node whose cell is closed, and closing the cell of a popped node.\<close>

lemma pop_closed:
  assumes core: "core G start cl S" and ne: "se_pq S \<noteq> []" and pop: "heap_Pop (se_pq S) = (cur, pq)"
    and c: "ix G (node_cell cur) \<in> set cl"
  shows "core G start cl (S\<lparr>se_pq := pq\<rparr>)"
proof -
  have set: "set (se_pq S) = insert cur (set pq)"
    using heap_Pop_facts(1) [OF ne pop] .
  have "q \<in> node_cell ` set pq" if "onGrid G q" "disc G S q" "ix G q \<notin> set cl" for q
    using coreD(7) [OF core that] that(3) c by (auto simp: set)
  moreover have "node_ok G cl S n" if "n \<in> set pq" for n
    using coreD(5) [OF core] that by (simp add: set)
  ultimately show ?thesis
    using core unfolding core_def by (simp add: disc_def linked_def node_ok_def)
qed

lemma pop_open:
  assumes core: "core G start cl S" and ne: "se_pq S \<noteq> []" and pop: "heap_Pop (se_pq S) = (cur, pq)"
    and c: "ix G (node_cell cur) \<notin> set cl"
    and S': "S' = S\<lparr>se_pq := pq, se_closed := (se_closed S)(ix G (node_cell cur) := True)\<rparr>"
  shows "core G start (ix G (node_cell cur) # cl) S'" and "node_ok G cl S cur"
    and "\<And>q. disc G S' q = disc G S q"
proof -
  let ?c = "node_cell cur"
  have set: "set (se_pq S) = insert cur (set pq)"
    using heap_Pop_facts(1) [OF ne pop] .
  show ok: "node_ok G cl S cur"
    using coreD(5) [OF core] by (simp add: set)
  then have cb: "onGrid G ?c" "disc G S ?c"
    by (simp_all add: node_ok_def)
  show disc: "disc G S' q = disc G S q" for q
    by (simp add: disc_def S')
  have "linked G start cl S ?c"
    using coreD(6) [OF core cb] .
  then have "tree (se_parent S') (ix G start) (ix G ?c # cl)"
    using coreD(3) [OF core] by (auto simp: linked_def S')
  moreover have "q \<in> node_cell ` set pq" if "onGrid G q" "disc G S q" "ix G q \<notin> set cl" "ix G q \<noteq> ix G ?c" for q
    using coreD(7) [OF core that(1-3)] that(4) by (auto simp: set)
  moreover have "node_ok G (ix G ?c # cl) S' n" if "n \<in> set pq" for n
    using coreD(5) [OF core, of n] that by (auto simp: set node_ok_def disc)
  moreover have "linked G start (ix G ?c # cl) S' q" if "onGrid G q" "disc G S q" for q
    using coreD(6) [OF core that] by (auto simp: linked_def S')
  moreover have "\<exists>q. onGrid G q \<and> v = ix G q \<and> disc G S q" if "v \<in> set (ix G ?c # cl)" for v
    using that cb coreD(4) [OF core] by auto
  ultimately show "core G start (ix G ?c # cl) S'"
    using coreD(1,2,8) [OF core] c unfolding core_def disc by (simp add: S' fun_eq_iff)
qed

text \<open>The frontier: every neighbour of a closed cell has been reached.\<close>

definition frontier :: "walk_grid \<Rightarrow> int list \<Rightarrow> search \<Rightarrow> bool" where
  "frontier G cl S \<longleftrightarrow> (\<forall>p q. onGrid G p \<longrightarrow> ix G p \<in> set cl \<longrightarrow> legal G p q \<longrightarrow> disc G S q)"

lemma exhausted:
  assumes core: "core G start cl S" and fr: "frontier G cl S" and "se_pq S = []" and start: "onGrid G start"
    and "walk G start qs t"
  shows "ix G t \<in> set cl"
proof -
  have closed: "ix G q \<in> set cl" if "onGrid G q" "disc G S q" for q
    using coreD(7) [OF core that] assms(3) by auto
  have "ix G p \<in> set cl \<Longrightarrow> onGrid G p \<Longrightarrow> walk G p qs t \<Longrightarrow> ix G t \<in> set cl" for p
  proof (induction qs arbitrary: p)
    case (Cons q qs)
    then have "disc G S q" "onGrid G q"
      using fr by (auto simp: frontier_def legal_def)
    then show ?case
      using Cons.IH [of q] Cons.prems(3) closed [of q] by simp
  qed simp
  moreover have "disc G S start"
    using coreD(8) [OF core] by (simp add: disc_def infCost_def)
  ultimately show ?thesis
    using closed start assms(5) by blast
qed

text \<open>What a finished search says of the walks from the start to the target.\<close>

definition search_answer :: "walk_grid \<Rightarrow> point \<Rightarrow> point \<Rightarrow> point list res \<Rightarrow> bool" where
  "search_answer G start target r \<longleftrightarrow>
     (case r of
        Inl e \<Rightarrow> e = ErrNoPath \<and> (\<nexists>qs. walk G start qs target)
      | Inr path \<Rightarrow> \<exists>qs. walk G start qs target \<and> path = take MaxWalkPath qs)"

lemma search_loop_spec:
  assumes start: "onGrid G start" and t: "onGrid G target" and small: "14 * (grid_Width G * grid_Height G) < infCost"
    and k: "nat (grid_Width G * grid_Height G) < k"
  shows "core G start cl S \<Longrightarrow> frontier G cl S \<Longrightarrow> ix G target \<notin> set cl \<Longrightarrow>
    9 * (nat (grid_Width G * grid_Height G) - length cl) + length (se_pq S) < n \<Longrightarrow>
    \<exists>r. search_loop n k G target (ix G target) S = Some r \<and> search_answer G start target r"
proof (induction n arbitrary: cl S)
  case (Suc n)
  note core = Suc.prems(1) and fr = Suc.prems(2) and out = Suc.prems(3) and fuel = Suc.prems(4)
  let ?N = "nat (grid_Width G * grid_Height G)"
  have pos: "0 \<le> grid_Width G * grid_Height G"
    using ix_range [OF start] by linarith
  show ?case
  proof (cases "se_pq S = []")
    case True
    have "\<nexists>qs. walk G start qs target"
      using exhausted [OF core fr True start] out by blast
    then show ?thesis
      using True by (simp add: search_answer_def)
  next
    case ne: False
    obtain cur pq where pop: "heap_Pop (se_pq S) = (cur, pq)"
      by (cases "heap_Pop (se_pq S)")
    have len: "length (se_pq S) = Suc (length pq)"
      using heap_Pop_facts(2) [OF ne pop] .
    let ?c = "node_cell cur"
    have ixc: "pn_y cur * grid_Width G + pn_x cur = ix G ?c"
      by (simp add: ix_def node_cell_def)
    show ?thesis
    proof (cases "ix G ?c \<in> set cl")
      case True
      have "frontier G cl (S\<lparr>se_pq := pq\<rparr>)"
        using fr by (simp add: frontier_def disc_def)
      then have "\<exists>r. search_loop n k G target (ix G target) (S\<lparr>se_pq := pq\<rparr>) = Some r \<and> search_answer G start target r"
        using fuel len by (intro Suc.IH [OF pop_closed [OF core ne pop True] _ out]) simp_all
      then show ?thesis
        using ne pop ixc True coreD(1) [OF core] by (simp add: Let_def)
    next
      case False
      define S' where "S' = S\<lparr>se_pq := pq, se_closed := (se_closed S)(ix G ?c := True)\<rparr>"
      note op = pop_open [OF core ne pop False S'_def]
      have lens: "int (length (ix G ?c # cl)) \<le> grid_Width G * grid_Height G"
        by (rule closed_length [OF op(1) pos])
      have run: "search_loop (Suc n) k G target (ix G target) S =
          (if ix G ?c = ix G target then map_option Inr (reconstructPath k (se_parent S') (ix G target) (grid_Width G))
           else search_loop n k G target (ix G target) (expand G cur target S'))"
        using ne pop ixc False coreD(1) [OF core] by (simp add: Let_def S'_def)
      show ?thesis
      proof (cases "ix G ?c = ix G target")
        case True
        have "length (ix G ?c # cl) < k"
          using lens k by linarith
        moreover have "ix G target \<in> set (ix G ?c # cl)"
          using True by simp
        ultimately show ?thesis
          using reconstruct_spec [OF op(1) start t] run True by (fastforce simp: search_answer_def)
      next
        case more: False
        have cur: "onGrid G ?c" "0 \<le> pn_g cur" "pn_g cur \<le> 14 * int (length cl)"
          using op(2) by (simp_all add: node_ok_def)
        have g: "pn_g cur + 14 \<le> 14 * int (length (ix G ?c # cl))" "14 * int (length (ix G ?c # cl)) < infCost"
          using cur(3) by simp (use lens small in linarith)
        have mem: "ix G ?c \<in> set (ix G ?c # cl)"
          by simp
        note ex = expand_spec [OF op(1) cur(1) mem cur(2) g start, where target = target]
        have "disc G (expand G cur target S') q" if "onGrid G p" "ix G p \<in> set (ix G ?c # cl)" "legal G p q" for p q
        proof (cases "ix G p = ix G ?c")
          case True
          then have "p = ?c"
            using that(1) cur(1) ix_inj by blast
          then show ?thesis
            using ex(4) that(3) by blast
        next
          case False
          then have "disc G S q"
            using fr that by (simp add: frontier_def)
          then show ?thesis
            using ex(2) op(3) by blast
        qed
        then have fr': "frontier G (ix G ?c # cl) (expand G cur target S')"
          by (simp add: frontier_def)
        have out': "ix G target \<notin> set (ix G ?c # cl)"
          using more out by auto
        have fuel': "9 * (?N - length (ix G ?c # cl)) + length (se_pq (expand G cur target S')) < n"
        proof -
          have "length (se_pq S') = length pq"
            by (simp add: S'_def)
          then have "length (se_pq (expand G cur target S')) \<le> length pq + 8"
            using ex(3) by simp
          moreover have "Suc (length cl) \<le> ?N"
            using lens by simp
          ultimately show ?thesis
            using fuel len by simp
        qed
        show ?thesis
          using Suc.IH [OF ex(1) fr' out' fuel'] run more by simp
      qed
    qed
  qed
qed simp

text \<open>
  C22. Functional correctness of \<open>FindPath\<close>. With room for nine pushes per cell it always answers. The answer
  is the refusal of an endpoint, or \<open>ErrNoPath\<close> exactly when no legal walk connects the endpoints, or the
  first 32 cells of a legal walk from the start to the target: unit steps over walkable cells of the
  grid that never cut a blocked corner.
\<close>

theorem find_path_correct:
  assumes "14 * (grid_Width G * grid_Height G) < infCost"
    and "9 * nat (grid_Width G * grid_Height G) + 1 < n" and "nat (grid_Width G * grid_Height G) < k"
  shows "\<exists>r. FindPath n k G start target = Some r \<and>
    (case r of
       Inl e \<Rightarrow> validateEndpoints G start target = Some e \<or>
         validateEndpoints G start target = None \<and> e = ErrNoPath \<and> (\<nexists>qs. walk G start qs target)
     | Inr path \<Rightarrow> validateEndpoints G start target = None \<and>
         (\<exists>qs. walk G start qs target \<and> path = take MaxWalkPath qs))"
proof (cases "validateEndpoints G start target")
  case (Some e)
  then show ?thesis
    by (simp add: FindPath_def)
next
  case None
  then have bounds: "onGrid G start" "onGrid G target"
    by (auto simp: validateEndpoints_def split: if_splits)
  show ?thesis
  proof (cases "start = target")
    case True
    then have "walk G start [] target" "FindPath n k G start target = Some (Inr [])"
      using None by (simp_all add: FindPath_def)
    then show ?thesis
      using None by (intro exI [of _ "Inr []"]) (auto intro!: exI [of _ "[]"])
  next
    case False
    define S where "S = fresh_search\<lparr>se_gCost := (se_gCost fresh_search)(ix G start := 0),
      se_parent := (se_parent fresh_search)(ix G start := -1),
      se_pq := heap_Push \<lparr>pn_f = heuristic (fst start) (snd start) (fst target) (snd target), pn_g = 0,
        pn_x = fst start, pn_y = snd start\<rparr> []\<rparr>"
    have disc: "disc G S q \<longleftrightarrow> ix G q = ix G start" for q
      by (simp add: disc_def S_def fresh_search_def infCost_def)
    have S: "\<exists>f. set (se_pq S) = {\<lparr>pn_f = f, pn_g = 0, pn_x = fst start, pn_y = snd start\<rparr>}"
        "se_parent S v = -1" "\<not> se_closed S v" "se_gCost S (ix G start) = 0" for v
      by (auto simp: S_def fresh_search_def)
    have "core G start [] S"
      using bounds(1) S unfolding core_def disc
      by (auto simp: node_ok_def disc linked_def ix_inj node_cell_def)
    moreover have "frontier G [] S"
      by (simp add: frontier_def)
    moreover have "length (se_pq S) = 1"
      by (simp add: S_def)
    ultimately obtain r where r: "search_loop n k G target (ix G target) S = Some r" "search_answer G start target r"
      using search_loop_spec [OF bounds assms(1,3), of "[]" S n] assms(2) by auto
    have "fst start \<noteq> fst target \<or> snd start \<noteq> snd target"
      using False by (simp add: prod_eq_iff)
    then have "FindPath n k G start target = Some r"
      using None r(1) by (auto simp: FindPath_def Let_def ix_def S_def)
    then show ?thesis
      using None r(2) by (auto simp: search_answer_def split: sum.splits)
  qed
qed

text \<open>A 5 x 3 field with two blocked cells.\<close>

definition field :: walk_grid where
  "field = \<lparr>grid_Width = 5, grid_Height = 3, grid_Walkable = (\<lambda>x y. (x, y) \<noteq> (1, 0) \<and> (x, y) \<noteq> (3, 1))\<rparr>"

theorem find_path_correct_witness:
  "\<exists>r. FindPath 200 20 field (4, 1) (0, 0) = Some r \<and>
    (case r of
       Inl e \<Rightarrow> validateEndpoints field (4, 1) (0, 0) = Some e \<or>
         validateEndpoints field (4, 1) (0, 0) = None \<and> e = ErrNoPath \<and> (\<nexists>qs. walk field (4, 1) qs (0, 0))
     | Inr path \<Rightarrow> validateEndpoints field (4, 1) (0, 0) = None \<and>
         (\<exists>qs. walk field (4, 1) qs (0, 0) \<and> path = take MaxWalkPath qs))"
  by (rule find_path_correct) (simp_all add: field_def infCost_def)

fun walk_cost :: "point \<Rightarrow> point list \<Rightarrow> int" where
  "walk_cost p [] = 0"
| "walk_cost p (q # qs) = (if fst q \<noteq> fst p \<and> snd q \<noteq> snd p then MoveDiagonalCost else MoveCost) + walk_cost q qs"

text \<open>
  Remark. \<open>FindPath\<close> is documented to return the shortest path. The Manhattan heuristic charges a diagonal step
  20 where it costs 14, so the search can close the target on a dearer walk: on a small field it
  returns a walk of cost 70 where one of cost 64 exists.
\<close>

theorem find_path_not_shortest:
  "(case FindPath 200 20 field (4, 1) (0, 0) of
      Some (Inr path) \<Rightarrow> walk field (4, 1) path (0, 0) \<and> walk_cost (4, 1) path = 70
    | _ \<Rightarrow> False) \<and>
   (\<exists>path. walk field (4, 1) path (0, 0) \<and> walk_cost (4, 1) path = 64)"
proof
  show "case FindPath 200 20 field (4, 1) (0, 0) of
      Some (Inr path) \<Rightarrow> walk field (4, 1) path (0, 0) \<and> walk_cost (4, 1) path = 70
    | _ \<Rightarrow> False"
    by code_simp
  show "\<exists>path. walk field (4, 1) path (0, 0) \<and> walk_cost (4, 1) path = 64"
    by (rule exI [of _ "[(4, 2), (3, 2), (2, 2), (1, 1), (0, 1), (0, 0)]"]) code_simp
qed

section \<open>The line of sight\<close>

text \<open>The \<open>i\<close>-th cell of the line rounds the true line on its minor axis, half a cell upwards.\<close>

definition line_length :: "point \<Rightarrow> point \<Rightarrow> int" where
  "line_length from to = max \<bar>fst to - fst from\<bar> \<bar>snd to - snd from\<bar>"

definition line_cell :: "point \<Rightarrow> point \<Rightarrow> int \<Rightarrow> point" where
  "line_cell from to i =
     (let N = line_length from to; dx = fst to - fst from; dy = snd to - snd from
      in (fst from + sgn dx * ((2 * \<bar>dx\<bar> * i + N) div (2 * N)), snd from + sgn dy * ((2 * \<bar>dy\<bar> * i + N) div (2 * N))))"

definition flip_grid :: "walk_grid \<Rightarrow> walk_grid" where
  "flip_grid G = \<lparr>grid_Width = grid_Height G, grid_Height = grid_Width G, grid_Walkable = (\<lambda>x y. grid_Walkable G y x)\<rparr>"

text \<open>The loop treats its axes alike, up to the sign of the error term.\<close>

lemma los_flip:
  "los_loop n G from to dx dy sx sy x0 y0 err =
   los_loop n (flip_grid G) (prod.swap from) (prod.swap to) (- dy) (- dx) sy sx y0 x0 (- err)"
proof (induction n arbitrary: x0 y0 err)
  case (Suc n)
  have walkable: "grid_Walkable (flip_grid G) y x = grid_Walkable G x y" for x y
    by (simp add: flip_grid_def)
  have both: "- (err + dy + dx) = - err - dx - dy" and one: "- (err + dy) = - err - dy" "- (err + dx) = - err - dx"
    by simp_all
  note ih = Suc.IH [of "x0 + sx" "y0 + sy" "err + dy + dx", unfolded both]
    Suc.IH [of "x0 + sx" y0 "err + dy", unfolded one] Suc.IH [of x0 "y0 + sy" "err + dx", unfolded one]
    Suc.IH [of x0 y0 err]
  show ?case
    using ih by (cases "dy \<le> 2 * err"; cases "2 * err \<le> dx") (auto simp: walkable)
qed simp

text \<open>Along the major axis, which the loop steps in every round.\<close>

lemma los_major:
  assumes ab: "0 < a" "0 \<le> b" "b \<le> a" and s: "sx = 1 \<or> sx = -1"
    and to: "to = (fx + sx * a, fy + sy * b)"
  shows "0 \<le> i \<Longrightarrow> i \<le> a \<Longrightarrow> a - i < int n \<Longrightarrow> j = (2 * b * i + a) div (2 * a) \<Longrightarrow> err = a * (1 + j) - b * (1 + i) \<Longrightarrow>
    los_loop n G (fx, fy) to a (- b) sx sy (fx + sx * i) (fy + sy * j) err =
    Some (list_all (\<lambda>i. grid_Walkable G (fx + sx * i) (fy + sy * ((2 * b * i + a) div (2 * a)))) [max 1 i..a - 1])"
proof (induction n arbitrary: i j err)
  case (Suc n)
  note j = Suc.prems(4) and err = Suc.prems(5)
  have jl: "2 * (a * j) \<le> 2 * (b * i) + a" and ju: "2 * (b * i) + a < 2 * (a * j) + 2 * a"
  proof -
    have "2 * b * i + a = 2 * a * j + (2 * b * i + a) mod (2 * a)"
      unfolding j by simp
    moreover have "0 \<le> (2 * b * i + a) mod (2 * a)" "(2 * b * i + a) mod (2 * a) < 2 * a"
      using ab(1) by simp_all
    ultimately show "2 * (a * j) \<le> 2 * (b * i) + a" "2 * (b * i) + a < 2 * (a * j) + 2 * a"
      by (simp_all add: algebra_simps)
  qed
  have e2: "2 * err = 2 * a + 2 * (a * j) - 2 * b - 2 * (b * i)"
    by (simp add: err algebra_simps)
  show ?case
  proof (cases "i = a")
    case True
    have "j = b"
      unfolding j True using ab(1) by (intro int_div_pos_eq [where r = a]) (simp_all add: algebra_simps)
    then show ?thesis
      using True to by simp
  next
    case False
    then have i: "i < a"
      using Suc.prems(2) by simp
    have ne: "fx + sx * i \<noteq> fx + sx * a"
      using False s by auto
    have j0: "i = 0 \<Longrightarrow> j = 0"
      using ab(1) j by simp
    have x: "- b \<le> 2 * err"
      using e2 ju ab by linarith
    define j' where "j' = (if 2 * err \<le> a then j + 1 else j)"
    have j': "j' = (2 * b * (i + 1) + a) div (2 * a)"
      using jl ju e2 ab
      by (intro int_div_pos_eq [symmetric, where r = "2 * b * (i + 1) + a - 2 * a * j'"])
        (auto simp: j'_def algebra_simps)
    have "los_loop n G (fx, fy) to a (- b) sx sy (fx + sx * (i + 1)) (fy + sy * j') (a * (1 + j') - b * (1 + (i + 1))) =
      Some (list_all (\<lambda>i. grid_Walkable G (fx + sx * i) (fy + sy * ((2 * b * i + a) div (2 * a)))) [max 1 (i + 1)..a - 1])"
      using Suc.prems(1,3) i j' by (intro Suc.IH) simp_all
    then have next_: "los_loop n G (fx, fy) to a (- b) sx sy (fx + sx * i + sx) (fy + sy * j') (err - b + (if 2 * err \<le> a then a else 0)) =
      Some (list_all (\<lambda>i. grid_Walkable G (fx + sx * i) (fy + sy * ((2 * b * i + a) div (2 * a)))) [i + 1..a - 1])"
      using Suc.prems(1) by (simp add: err j'_def algebra_simps split: if_splits)
    have step: "los_loop (Suc n) G (fx, fy) to a (- b) sx sy (fx + sx * i) (fy + sy * j) err =
      (if (fx + sx * i \<noteq> fx \<or> fy + sy * j \<noteq> fy) \<and> \<not> grid_Walkable G (fx + sx * i) (fy + sy * j) then Some False
       else los_loop n G (fx, fy) to a (- b) sx sy (fx + sx * i + sx) (fy + sy * j') (err - b + (if 2 * err \<le> a then a else 0)))"
      using x ne by (simp add: to j'_def algebra_simps)
    show ?thesis
    proof (cases "i = 0")
      case True
      then show ?thesis
        using step next_ j0 by simp
    next
      case False
      then have "1 \<le> i"
        using Suc.prems(1) by simp
      then have "[max 1 i..a - 1] = i # [i + 1..a - 1]"
        using i upto_rec1 [of i "a - 1"] by (simp add: max_def)
      moreover have "fx + sx * i \<noteq> fx"
        using False s by auto
      ultimately show ?thesis
        using step next_ j by simp
    qed
  qed
qed simp

lemma los_major_start:
  assumes "from = (fx, fy)" and "to = (tx, ty)" and "a = \<bar>tx - fx\<bar>" and "b = \<bar>ty - fy\<bar>" and "b \<le> a" and "0 < a" and "a < int n"
  shows "los_loop n G from to a (- b) (if fx \<ge> tx then -1 else 1) (if fy \<ge> ty then -1 else 1) fx fy (a - b) =
    Some (list_all (\<lambda>i. grid_Walkable G (fx + sgn (tx - fx) * ((2 * a * i + a) div (2 * a)))
      (fy + sgn (ty - fy) * ((2 * b * i + a) div (2 * a)))) [1..a - 1])"
proof -
  let ?sx = "if fx \<ge> tx then -1 else 1 :: int"
  let ?sy = "if fy \<ge> ty then -1 else 1 :: int"
  have to: "to = (fx + ?sx * a, fy + ?sy * b)"
    using assms(2-4) by (simp add: abs_if)
  have zero: "(2 * b * 0 + a) div (2 * a) = 0"
    using assms(6) by simp
  have major: "(2 * a * i + a) div (2 * a) = i" for i
    using assms(6) by (intro int_div_pos_eq [where r = a]) simp_all
  have sgn: "sgn (tx - fx) = ?sx"
    using assms(3,6) by (auto simp: sgn_if)
  have minor: "sgn (ty - fy) * ((2 * b * i + a) div (2 * a)) = ?sy * ((2 * b * i + a) div (2 * a))" for i
    using assms(4,6) by (cases "b = 0") (auto simp: sgn_if)
  have "los_loop n G (fx, fy) to a (- b) ?sx ?sy (fx + ?sx * 0) (fy + ?sy * 0) (a - b) =
    Some (list_all (\<lambda>i. grid_Walkable G (fx + ?sx * i) (fy + ?sy * ((2 * b * i + a) div (2 * a)))) [max 1 0..a - 1])"
    using assms(3-7) zero by (intro los_major [OF _ _ _ _ to]) auto
  then show ?thesis
    unfolding major sgn minor using assms(1) by simp
qed

text \<open>
  C35. \<open>LineOfSight\<close> decides exactly whether every cell of the rounded line strictly between the two points
  is walkable, in as many rounds as the line is long.
\<close>

theorem line_of_sight_exact:
  assumes "line_length from to < int n"
  shows "LineOfSight n G from to =
    Some (list_all (\<lambda>i. grid_Walkable G (fst (line_cell from to i)) (snd (line_cell from to i))) [1..line_length from to - 1])"
proof -
  obtain fx fy tx ty where pts: "from = (fx, fy)" "to = (tx, ty)"
    by (cases "from", cases to)
  define a b where "a = \<bar>tx - fx\<bar>" and "b = \<bar>ty - fy\<bar>"
  have N: "line_length from to = max a b"
    by (simp add: line_length_def pts a_def b_def)
  have run: "LineOfSight n G from to =
      los_loop n G from to a (- b) (if fx \<ge> tx then -1 else 1) (if fy \<ge> ty then -1 else 1) fx fy (a - b)"
    by (simp add: LineOfSight_def Let_def pts a_def b_def)
  consider "a = 0" "b = 0" | "b \<le> a" "0 < a" | "a < b"
    by (fastforce simp: a_def b_def)
  then show ?thesis
  proof cases
    case 1
    then have "from = to"
      by (simp add: pts a_def b_def)
    moreover obtain m where "n = Suc m"
      using assms N 1 by (cases n) simp_all
    ultimately show ?thesis
      using 1 N run by (simp add: pts)
  next
    case 2
    then show ?thesis
      using assms los_major_start [OF pts a_def b_def 2, of n G] N run
      by (simp add: max_def line_cell_def Let_def pts a_def [symmetric] b_def [symmetric])
  next
    case 3
    have pts': "prod.swap from = (fy, fx)" "prod.swap to = (ty, tx)"
      by (simp_all add: pts)
    have "0 < b" "a \<le> b" "b < int n"
      using 3 assms N by (simp_all add: a_def)
    then have "los_loop n (flip_grid G) (prod.swap from) (prod.swap to) b (- a) (if fy \<ge> ty then -1 else 1)
        (if fx \<ge> tx then -1 else 1) fy fx (b - a) =
      Some (list_all (\<lambda>i. grid_Walkable (flip_grid G) (fy + sgn (ty - fy) * ((2 * b * i + b) div (2 * b)))
        (fx + sgn (tx - fx) * ((2 * a * i + b) div (2 * b)))) [1..b - 1])"
      by (intro los_major_start [OF pts' b_def a_def])
    moreover have "los_loop n G from to a (- b) (if fx \<ge> tx then -1 else 1) (if fy \<ge> ty then -1 else 1) fx fy (a - b) =
      los_loop n (flip_grid G) (prod.swap from) (prod.swap to) b (- a) (if fy \<ge> ty then -1 else 1)
        (if fx \<ge> tx then -1 else 1) fy fx (b - a)"
      by (subst los_flip) simp
    ultimately show ?thesis
      using 3 N run
      by (simp add: flip_grid_def max_def line_cell_def Let_def pts a_def [symmetric] b_def [symmetric])
  qed
qed

theorem line_of_sight_exact_witness:
  "LineOfSight 5 field (4, 2) (0, 0) =
    Some (list_all (\<lambda>i. grid_Walkable field (fst (line_cell (4, 2) (0, 0) i)) (snd (line_cell (4, 2) (0, 0) i)))
      [1..line_length (4, 2) (0, 0) - 1])"
  by (rule line_of_sight_exact) (simp add: line_length_def)

end
