(* ===== verification/ScriptTyping.thy ===== *)
theory ScriptTyping
  imports ScriptCompiler "HOL-Library.Sublist"
begin

text \<open>
  The stack discipline of compiled scripts. Each code position gets a lower bound on the height of the
  stack there; every jump reaches a label whose bound is not above the height left at the jump. The
  compiler's output has such bounds, so a compiled script never pops an empty stack.
\<close>

section \<open>The effect of an instruction on the stack\<close>

definition pops :: "instruction \<Rightarrow> nat" where
  "pops ins =
     (if in_Op ins \<in> set binary_ops then 2
      else case in_Op ins of
        OpAssign \<Rightarrow> 1 | OpNeg \<Rightarrow> 1 | OpNot \<Rightarrow> 1 | OpBNot \<Rightarrow> 1 | OpJumpIfFalse \<Rightarrow> 1 | OpJumpIfTrue \<Rightarrow> 1 | OpPop \<Rightarrow> 1
      | OpIndexGet \<Rightarrow> 2 | OpIndexSet \<Rightarrow> 3 | OpFunc \<Rightarrow> nat (in_Operand ins) | _ \<Rightarrow> 0)"

definition pushes :: "instruction \<Rightarrow> nat" where
  "pushes ins =
     (if in_Op ins \<in> set binary_ops then 1
      else case in_Op ins of
        OpInt \<Rightarrow> 1 | OpStr \<Rightarrow> 1 | OpVar \<Rightarrow> 1 | OpNeg \<Rightarrow> 1 | OpNot \<Rightarrow> 1 | OpBNot \<Rightarrow> 1 | OpIndexGet \<Rightarrow> 1 | OpFunc \<Rightarrow> 1 | _ \<Rightarrow> 0)"

definition jump_ops :: "opcode list" where
  "jump_ops = [OpGoto, OpCallSub, OpJumpIfFalse, OpJumpIfTrue]"

definition leaving_ops :: "opcode list" where
  "leaving_ops = [OpGoto, OpCallSub, OpReturn, OpEOF]"

definition emitted_ops :: "opcode list" where
  "emitted_ops = binary_ops @ jump_ops @ leaving_ops @
     [OpInt, OpStr, OpVar, OpAssign, OpNeg, OpNot, OpBNot, OpLabel, OpFunc, OpIndexGet, OpIndexSet, OpPop]"

text \<open>\<open>d\<close> bounds the stack before the instruction, \<open>d'\<close> after it; \<open>P\<close> gives the bound of each label.\<close>

definition ins_ok :: "(string \<Rightarrow> nat) \<Rightarrow> instruction \<Rightarrow> nat \<Rightarrow> nat \<Rightarrow> bool" where
  "ins_ok P ins d d' \<longleftrightarrow>
     in_Op ins \<in> set emitted_ops \<and> pops ins \<le> d \<and>
     (in_Op ins \<notin> set leaving_ops \<longrightarrow> d' \<le> d - pops ins + pushes ins) \<and>
     (in_Op ins \<in> set jump_ops \<longrightarrow> P (in_Str ins) \<le> d - pops ins) \<and>
     (in_Op ins = OpCallSub \<longrightarrow> d' = 0)"

definition code_ok :: "(string \<Rightarrow> nat) \<Rightarrow> instruction list \<Rightarrow> (string \<rightharpoonup> nat) \<Rightarrow> nat list \<Rightarrow> bool" where
  "code_ok P code labels D \<longleftrightarrow>
     length D = length code + 1 \<and> (\<forall>i<length code. ins_ok P (code ! i) (D ! i) (D ! (i + 1))) \<and>
     (\<forall>l i. labels l = Some i \<longrightarrow> i < length code \<and> D ! i \<le> P l)"

section \<open>Running code that keeps the discipline\<close>

definition vm_ok :: "nat list \<Rightarrow> instruction list \<Rightarrow> 'h vm \<Rightarrow> bool" where
  "vm_ok D code vm \<longleftrightarrow>
     (vm_ip vm < length code \<longrightarrow> D ! vm_ip vm \<le> length (vm_stack vm)) \<and>
     (\<forall>r\<in>set (vm_callstack vm). r < length code \<longrightarrow> D ! r = 0)"

definition no_panic :: "nat list \<Rightarrow> instruction list \<Rightarrow> 'h outcome \<Rightarrow> bool" where
  "no_panic D code r \<longleftrightarrow>
     (case r of Running vm \<Rightarrow> vm_ok D code vm | Halted e \<Rightarrow> True | Failed m e \<Rightarrow> m = ''unknown builtin'' | Panicked \<Rightarrow> False)"

text \<open>The argument count of a call has not wrapped to a negative \<open>int32\<close>.\<close>

definition calls_fit :: "instruction list \<Rightarrow> bool" where
  "calls_fit code \<longleftrightarrow> list_all (\<lambda>ins. in_Op ins \<noteq> OpFunc \<or> 0 \<le> in_Operand ins) code"

lemma no_panic_simps [simp]:
  "no_panic D code (Running vm) = vm_ok D code vm" "no_panic D code (Halted e)"
  "no_panic D code (Failed m e) \<longleftrightarrow> m = ''unknown builtin''" "\<not> no_panic D code Panicked"
  by (simp_all add: no_panic_def)

lemma fall_ok:
  assumes "vm_ok D code vm" and "D ! (vm_ip vm + 1) \<le> length st"
  shows "no_panic D code (fall vm st)"
  using assms by (simp add: fall_def vm_ok_def)

lemma jump_ok:
  assumes "code_ok P code labels D" and "vm_ok D code vm" and "P l \<le> length (vm_stack vm)"
  shows "vm_ok D code (vm\<lparr>vm_ip := jump code labels l\<rparr>)"
  using assms by (fastforce simp: vm_ok_def jump_def code_ok_def split: option.split)

lemma pop1_ok: "1 \<le> length (vm_stack vm) \<Longrightarrow> (\<And>v st. vm_stack vm = v # st \<Longrightarrow> no_panic D code (f v st)) \<Longrightarrow> no_panic D code (pop1 vm f)"
  by (auto simp: pop1_def split: list.split)

lemma pop2_ok:
  "2 \<le> length (vm_stack vm) \<Longrightarrow> (\<And>a b st. vm_stack vm = b # a # st \<Longrightarrow> no_panic D code (f a b st)) \<Longrightarrow> no_panic D code (pop2 vm f)"
  by (auto simp: pop2_def split: list.split)

lemma binary_value_Some: "op \<in> set binary_ops \<Longrightarrow> \<exists>v. binary_value op a b = Some v"
  by (auto simp: binary_ops_def binary_value_def Let_def)

lemma call_builtin_ok:
  assumes "vm_ok D code vm" and "0 \<le> in_Operand ins" and "nat (in_Operand ins) \<le> length (vm_stack vm)"
    and "D ! (vm_ip vm + 1) \<le> length (vm_stack vm) - nat (in_Operand ins) + 1"
  shows "no_panic D code (call_builtin B ins vm)"
proof -
  have "no_panic D code (fall (vm\<lparr>vm_env := e\<rparr>) (ret # drop (nat (in_Operand ins)) (vm_stack vm)))" for e ret
    using assms by (intro fall_ok) (simp_all add: vm_ok_def)
  then show ?thesis
    using assms(2,3) by (auto simp: call_builtin_def Let_def split: option.split prod.split control.split)
qed

lemma vm_exec_ok:
  assumes "code_ok P code labels D" and "vm_ok D code vm" and "vm_ip vm < length code" and "ins = code ! vm_ip vm"
    and "calls_fit code"
  shows "no_panic D code (vm_exec code labels B ins vm)"
proof -
  have ins: "ins_ok P ins (D ! vm_ip vm) (D ! (vm_ip vm + 1))" and le: "D ! vm_ip vm \<le> length (vm_stack vm)"
    using assms by (auto simp: code_ok_def vm_ok_def)
  have arg: "in_Op ins = OpFunc \<Longrightarrow> 0 \<le> in_Operand ins"
    using assms(3-5) by (auto simp: calls_fit_def list_all_length)
  note ok = ins [unfolded ins_ok_def]
  have down: "in_Op ins \<notin> set leaving_ops \<Longrightarrow> D ! (vm_ip vm + 1) \<le> length (vm_stack vm) - pops ins + pushes ins"
    and to: "in_Op ins \<in> set jump_ops \<Longrightarrow> P (in_Str ins) \<le> length (vm_stack vm) - pops ins"
    using ok le by linarith+
  have env: "vm_ok D code (vm\<lparr>vm_env := e\<rparr>)" for e
    using assms(2) by (simp add: vm_ok_def)
  have jmp: "vm_ok D code (vm\<lparr>vm_ip := jump code labels (in_Str ins), vm_stack := st\<rparr>)" if "P (in_Str ins) \<le> length st" for st
    using jump_ok [OF assms(1), of "vm\<lparr>vm_ip := length code, vm_stack := st\<rparr>" "in_Str ins"] assms(2) that
    by (simp add: vm_ok_def)
  show ?thesis
  proof (cases "in_Op ins \<in> set binary_ops")
    case True
    then have p: "pops ins = 2" "pushes ins = 1" "in_Op ins \<notin> set leaving_ops"
      by (auto simp: pops_def pushes_def binary_ops_def leaving_ops_def)
    have "no_panic D code (case binary_value (in_Op ins) a b of Some v \<Rightarrow> fall vm (v # st) | None \<Rightarrow> Failed ''not a binary op'' e)"
      if "vm_stack vm = b # a # st" for a b st e
      using binary_value_Some [OF True, of a b] down p le that assms(2) by (auto intro!: fall_ok)
    then show ?thesis
      using True ok p le by (auto simp: vm_exec_binary intro!: pop2_ok)
  next
    case False
    have mem: "in_Op ins = OpGoto \<or> in_Op ins = OpCallSub \<or> in_Op ins = OpJumpIfFalse \<or> in_Op ins = OpJumpIfTrue \<or>
        in_Op ins = OpReturn \<or> in_Op ins = OpEOF \<or> in_Op ins = OpInt \<or> in_Op ins = OpStr \<or> in_Op ins = OpVar \<or>
        in_Op ins = OpAssign \<or> in_Op ins = OpNeg \<or> in_Op ins = OpNot \<or> in_Op ins = OpBNot \<or> in_Op ins = OpLabel \<or>
        in_Op ins = OpFunc \<or> in_Op ins = OpIndexGet \<or> in_Op ins = OpIndexSet \<or> in_Op ins = OpPop"
      using conjunct1 [OF ok] False by (auto simp: emitted_ops_def jump_ops_def leaving_ops_def)
    consider (push) "in_Op ins \<in> {OpInt, OpStr, OpVar}" | (one) "in_Op ins \<in> {OpNeg, OpNot, OpBNot}"
      | (drop) "in_Op ins \<in> {OpAssign, OpPop}" | (none) "in_Op ins = OpLabel" | (eof) "in_Op ins = OpEOF"
      | (cond) "in_Op ins \<in> {OpJumpIfFalse, OpJumpIfTrue}" | (go) "in_Op ins = OpGoto" | (sub) "in_Op ins = OpCallSub"
      | (ret) "in_Op ins = OpReturn" | (call) "in_Op ins = OpFunc" | (get) "in_Op ins = OpIndexGet" | (set) "in_Op ins = OpIndexSet"
      using mem by (elim disjE) simp_all
    then show ?thesis
    proof cases
      case push
      then have "pops ins = 0" "pushes ins = 1" "in_Op ins \<notin> set leaving_ops"
        by (auto simp: pops_def pushes_def binary_ops_def leaving_ops_def)
      then show ?thesis
        using push down le assms(2) by (auto simp: vm_exec_ops intro!: fall_ok)
    next
      case one
      then have "pops ins = 1" "pushes ins = 1" "in_Op ins \<notin> set leaving_ops"
        by (auto simp: pops_def pushes_def binary_ops_def leaving_ops_def)
      then show ?thesis
        using one ok down le assms(2) by (auto simp: vm_exec_ops intro!: pop1_ok fall_ok)
    next
      case drop
      then have "pops ins = 1" "pushes ins = 0" "in_Op ins \<notin> set leaving_ops"
        by (auto simp: pops_def pushes_def binary_ops_def leaving_ops_def)
      then show ?thesis
        using drop ok down le assms(2) env by (auto simp: vm_exec_ops intro!: pop1_ok fall_ok)
    next
      case none
      then have "pops ins = 0" "pushes ins = 0" "in_Op ins \<notin> set leaving_ops"
        by (auto simp: pops_def pushes_def binary_ops_def leaving_ops_def)
      then show ?thesis
        using none down le assms(2) by (auto simp: vm_exec_ops intro!: fall_ok)
    next
      case eof
      then show ?thesis
        by (simp add: vm_exec_ops)
    next
      case cond
      then have "pops ins = 1" "pushes ins = 0" "in_Op ins \<notin> set leaving_ops" "in_Op ins \<in> set jump_ops"
        by (auto simp: pops_def pushes_def binary_ops_def leaving_ops_def jump_ops_def)
      then show ?thesis
        using cond conjunct1 [OF conjunct2 [OF ok]] down to le assms(2) jmp by (auto simp: vm_exec_ops intro!: pop1_ok fall_ok)
    next
      case go
      then have "pops ins = 0" "in_Op ins \<in> set jump_ops"
        by (auto simp: pops_def binary_ops_def jump_ops_def)
      then have "P (in_Str ins) \<le> length (vm_stack vm)"
        using ok le by auto
      then show ?thesis
        using go jump_ok [OF assms(1,2)] by (simp add: vm_exec_ops)
    next
      case sub
      then have "pops ins = 0" "in_Op ins \<in> set jump_ops"
        by (auto simp: pops_def binary_ops_def jump_ops_def)
      then have "P (in_Str ins) \<le> length (vm_stack vm)" "D ! (vm_ip vm + 1) = 0"
        using ok le sub by auto
      then show ?thesis
        using sub jump_ok [OF assms(1,2)] by (auto simp: vm_exec_ops vm_ok_def)
    next
      case ret
      then show ?thesis
        using assms(2) by (auto simp: vm_exec_ops vm_ok_def split: list.split)
    next
      case call
      then have "pops ins = nat (in_Operand ins)" "pushes ins = 1" "in_Op ins \<notin> set leaving_ops"
        by (auto simp: pops_def pushes_def binary_ops_def leaving_ops_def)
      then have "no_panic D code (call_builtin B ins vm)"
        using ok le arg [OF call] assms(2) by (intro call_builtin_ok) auto
      then show ?thesis
        using call by (simp add: vm_exec_ops)
    next
      case get
      then have "pops ins = 2" "pushes ins = 1" "in_Op ins \<notin> set leaving_ops"
        by (auto simp: pops_def pushes_def binary_ops_def leaving_ops_def)
      then show ?thesis
        using get ok down le assms(2) by (auto simp: vm_exec_ops intro!: pop2_ok fall_ok)
    next
      case set
      then have p: "pops ins = 3" "pushes ins = 0" "in_Op ins \<notin> set leaving_ops"
        by (auto simp: pops_def pushes_def binary_ops_def leaving_ops_def)
      then obtain v i nm st where "vm_stack vm = v # i # nm # st"
        using ok le by (metis (no_types, lifting) Suc_le_length_iff le_trans numeral_3_eq_3)
      then show ?thesis
        using set p down le env by (auto simp: vm_exec_ops intro!: fall_ok)
    qed
  qed
qed

lemma vm_Run_ok:
  assumes "code_ok P (cs_Instructions cs) (cs_Labels cs) D" and "calls_fit (cs_Instructions cs)"
  shows "vm_ok D (cs_Instructions cs) vm \<Longrightarrow> vm_Run n cs B vm = Some r \<Longrightarrow> no_panic D (cs_Instructions cs) r"
proof (induction n arbitrary: vm)
  case (Suc n)
  have "no_panic D (cs_Instructions cs) (vm_step cs B vm)"
    using vm_exec_ok [OF assms(1) Suc.prems(1) _ refl assms(2)] by (simp add: vm_step_def)
  then show ?case
    using Suc.IH Suc.prems(2) by (cases "vm_step cs B vm") auto
qed simp

section \<open>The compiler keeps the discipline\<close>

text \<open>
  \<open>typed A d d' c c'\<close>: appending the code between the compiler states \<open>c\<close> and \<open>c'\<close> takes the bound from
  \<open>d\<close> to \<open>d'\<close>, for some bounds of the labels made on the way, given the bounds \<open>A\<close> of earlier labels.
\<close>

definition user_zero :: "(string \<Rightarrow> nat) \<Rightarrow> bool" where
  "user_zero P \<longleftrightarrow> (\<forall>l. (\<forall>j. l \<noteq> label_name j) \<longrightarrow> P l = 0)"

definition wt :: "(string \<Rightarrow> nat) \<Rightarrow> compiler \<Rightarrow> nat list \<Rightarrow> bool" where
  "wt P c D \<longleftrightarrow> code_ok P (c_Instructions c) (c_Labels c) D \<and> (\<forall>f\<in>set (c_loops c). P (fst f) = 0 \<and> P (snd f) = 0)"

definition extends_by :: "(nat \<times> nat) set \<Rightarrow> (nat \<Rightarrow> nat) \<Rightarrow> nat list \<Rightarrow> nat \<Rightarrow> nat \<Rightarrow> compiler \<Rightarrow> compiler \<Rightarrow> bool" where
  "extends_by A Q ds d d' c c' \<longleftrightarrow>
     (\<forall>P D. user_zero P \<longrightarrow> (\<forall>a\<in>A. P (label_name (fst a)) = snd a) \<longrightarrow>
        (\<forall>j. c_label c \<le> j \<longrightarrow> j < c_label c' \<longrightarrow> P (label_name j) = Q j) \<longrightarrow>
        wt P c D \<longrightarrow> last D = d \<longrightarrow> wt P c' (D @ ds) \<and> last (D @ ds) = d')"

definition typed :: "(nat \<times> nat) set \<Rightarrow> nat \<Rightarrow> nat \<Rightarrow> compiler \<Rightarrow> compiler \<Rightarrow> bool" where
  "typed A d d' c c' \<longleftrightarrow> c_label c \<le> c_label c' \<and> (\<exists>Q ds. extends_by A Q ds d d' c c')"

lemma extends_byD:
  assumes "extends_by A Q ds d d' c c'" and "user_zero P" and "\<forall>a\<in>A. P (label_name (fst a)) = snd a"
    and "\<forall>j. c_label c \<le> j \<longrightarrow> j < c_label c' \<longrightarrow> P (label_name j) = Q j" and "wt P c D" and "last D = d"
  shows "wt P c' (D @ ds)" and "last (D @ ds) = d'"
  using assms unfolding extends_by_def by simp_all

lemma typedI:
  assumes "c_label c \<le> c_label c'"
    and "\<And>P D. user_zero P \<Longrightarrow> (\<forall>a\<in>A. P (label_name (fst a)) = snd a) \<Longrightarrow>
      (\<forall>j. c_label c \<le> j \<longrightarrow> j < c_label c' \<longrightarrow> P (label_name j) = Q j) \<Longrightarrow> wt P c D \<Longrightarrow> last D = d \<Longrightarrow>
      wt P c' (D @ ds) \<and> last (D @ ds) = d'"
  shows "typed A d d' c c'"
proof -
  have "extends_by A Q ds d d' c c'"
    unfolding extends_by_def using assms(2) by simp
  then show ?thesis
    using assms(1) unfolding typed_def by blast
qed

lemma typedE:
  assumes "typed A d d' c c'"
  obtains Q ds where "c_label c \<le> c_label c'" and "extends_by A Q ds d d' c c'"
  using assms unfolding typed_def by blast

lemma typed_refl: "typed A d d c c"
  by (rule typedI [where ds = "[]"]) simp_all

lemma typed_mono:
  assumes "typed A d d' c c'" and "A \<subseteq> B"
  shows "typed B d d' c c'"
proof -
  obtain Q ds where Q: "c_label c \<le> c_label c'" "extends_by A Q ds d d' c c'"
    using assms(1) by (rule typedE)
  show ?thesis
  proof (rule typedI [where Q = Q and ds = ds])
    show "c_label c \<le> c_label c'"
      by (rule Q(1))
    fix P D
    assume P: "user_zero P" "\<forall>a\<in>B. P (label_name (fst a)) = snd a"
      "\<forall>j. c_label c \<le> j \<longrightarrow> j < c_label c' \<longrightarrow> P (label_name j) = Q j" "wt P c D" "last D = d"
    have "\<forall>a\<in>A. P (label_name (fst a)) = snd a"
      using P(2) assms(2) by blast
    then show "wt P c' (D @ ds) \<and> last (D @ ds) = d'"
      using extends_byD [OF Q(2) P(1) _ P(3-5)] by blast
  qed
qed

lemma typed_trans [trans]:
  assumes "typed A d d1 c c1" and "typed A d1 d' c1 c'"
  shows "typed A d d' c c'"
proof -
  obtain Q1 ds1 where 1: "c_label c \<le> c_label c1" "extends_by A Q1 ds1 d d1 c c1"
    using assms(1) by (rule typedE)
  obtain Q2 ds2 where 2: "c_label c1 \<le> c_label c'" "extends_by A Q2 ds2 d1 d' c1 c'"
    using assms(2) by (rule typedE)
  show ?thesis
  proof (rule typedI [where ds = "ds1 @ ds2" and Q = "\<lambda>j. if j < c_label c1 then Q1 j else Q2 j"])
    show "c_label c \<le> c_label c'"
      using 1(1) 2(1) by simp
    fix P D
    assume P: "user_zero P" "\<forall>a\<in>A. P (label_name (fst a)) = snd a"
      "\<forall>j. c_label c \<le> j \<longrightarrow> j < c_label c' \<longrightarrow> P (label_name j) = (if j < c_label c1 then Q1 j else Q2 j)"
      and D: "wt P c D" "last D = d"
    have "\<forall>j. c_label c \<le> j \<longrightarrow> j < c_label c1 \<longrightarrow> P (label_name j) = Q1 j"
      using P(3) 2(1) by simp
    note mid = extends_byD [OF 1(2) P(1,2) this D]
    have "\<forall>j. c_label c1 \<le> j \<longrightarrow> j < c_label c' \<longrightarrow> P (label_name j) = Q2 j"
      using P(3) 1(1) by simp
    note fin = extends_byD [OF 2(2) P(1,2) this mid]
    show "wt P c' (D @ ds1 @ ds2) \<and> last (D @ ds1 @ ds2) = d'"
      using fin by simp
  qed
qed

text \<open>A fresh label may be given any bound for the code that follows.\<close>

lemma typed_fresh:
  assumes "typed (insert (c_label c, v) A) d d' (snd (freshLabel c)) c'"
  shows "typed A d d' c c'"
proof -
  let ?c = "snd (freshLabel c)"
  have c: "c_label ?c = c_label c + 1" "wt P ?c D = wt P c D" for P D
    by (simp_all add: freshLabel_def wt_def)
  obtain Q ds where Q: "c_label ?c \<le> c_label c'" "extends_by (insert (c_label c, v) A) Q ds d d' ?c c'"
    using assms by (rule typedE)
  show ?thesis
  proof (rule typedI [where ds = ds and Q = "Q(c_label c := v)"])
    show "c_label c \<le> c_label c'"
      using Q(1) c by simp
    fix P D
    assume P: "user_zero P" "\<forall>a\<in>A. P (label_name (fst a)) = snd a"
      "\<forall>j. c_label c \<le> j \<longrightarrow> j < c_label c' \<longrightarrow> P (label_name j) = (Q(c_label c := v)) j"
      and D: "wt P c D" "last D = d"
    have "P (label_name (c_label c)) = v"
      using P(3) Q(1) c(1) by simp
    then have A: "\<forall>a\<in>insert (c_label c, v) A. P (label_name (fst a)) = snd a"
      using P(2) by simp
    have range: "\<forall>j. c_label ?c \<le> j \<longrightarrow> j < c_label c' \<longrightarrow> P (label_name j) = Q j"
      using P(3) c(1) by simp
    show "wt P c' (D @ ds) \<and> last (D @ ds) = d'"
      using extends_byD [OF Q(2) P(1) A range _ D(2)] D(1) c(2) by simp
  qed
qed

lemma code_ok_snoc:
  assumes "code_ok P code labels D" and "ins_ok P ins (last D) d'"
  shows "code_ok P (code @ [ins]) labels (D @ [d'])"
proof -
  have len: "length D = length code + 1" and ne: "D \<noteq> []"
    using assms(1) by (auto simp: code_ok_def)
  have "last D = D ! length code"
    using len ne by (simp add: last_conv_nth)
  then have "ins_ok P ((code @ [ins]) ! i) ((D @ [d']) ! i) ((D @ [d']) ! (i + 1))" if "i < length (code @ [ins])" for i
    using assms that len by (cases "i < length code") (auto simp: code_ok_def nth_append less_Suc_eq)
  moreover have "i < length (code @ [ins]) \<and> (D @ [d']) ! i \<le> P l" if "labels l = Some i" for l i
    using assms(1) that len by (fastforce simp: code_ok_def nth_append)
  ultimately show ?thesis
    using len by (simp add: code_ok_def)
qed

lemma typed_emit:
  assumes "\<And>P. user_zero P \<Longrightarrow> (\<forall>a\<in>A. P (label_name (fst a)) = snd a) \<Longrightarrow> ins_ok P \<lparr>in_Op = op, in_Operand = n, in_Str = s\<rparr> d d'"
  shows "typed A d d' c (emit_ins op n s c)"
  using assms by (intro typedI [where ds = "[d']"]) (auto simp: emit_ins_def wt_def intro!: code_ok_snoc)

lemma typed_emitOp:
  "(\<And>P. ins_ok P \<lparr>in_Op = op, in_Operand = 0, in_Str = []\<rparr> d d') \<Longrightarrow> typed A d d' c (emitOp op c)"
  unfolding emitOp_def by (rule typed_emit)

lemma typed_mark:
  assumes "\<And>P. user_zero P \<Longrightarrow> (\<forall>a\<in>A. P (label_name (fst a)) = snd a) \<Longrightarrow> d \<le> P l"
  shows "typed A d d c (markLabel l c)"
proof (rule typedI [where ds = "[d]"])
  show "c_label c \<le> c_label (markLabel l c)"
    by (simp add: markLabel_def emitOp_def emit_ins_def)
  fix P D
  assume P: "user_zero P" "\<forall>a\<in>A. P (label_name (fst a)) = snd a" and D: "wt P c D" "last D = d"
  let ?code = "c_Instructions c @ [\<lparr>in_Op = OpLabel, in_Operand = 0, in_Str = []\<rparr>]"
  have "ins_ok P \<lparr>in_Op = OpLabel, in_Operand = 0, in_Str = []\<rparr> d d"
    by (simp add: ins_ok_def emitted_ops_def pops_def binary_ops_def jump_ops_def)
  then have ok: "code_ok P ?code (c_Labels c) (D @ [d])"
    using D by (intro code_ok_snoc) (simp_all add: wt_def)
  have len: "length D = length (c_Instructions c) + 1" "D \<noteq> []"
    using D(1) by (auto simp: wt_def code_ok_def)
  then have "(D @ [d]) ! length (c_Instructions c) = d"
    using D(2) by (simp add: last_conv_nth nth_append)
  then have "code_ok P ?code ((c_Labels c)(l \<mapsto> length (c_Instructions c))) (D @ [d])"
    using ok assms [OF P] by (auto simp: code_ok_def)
  then show "wt P (markLabel l c) (D @ [d]) \<and> last (D @ [d]) = d"
    using D(1) by (simp add: markLabel_def emitOp_def emit_ins_def wt_def)
qed

lemma typed_pushLoop:
  assumes "(i, 0) \<in> A" and "(j, 0) \<in> A"
  shows "typed A d d c (pushLoop (label_name i) (label_name j) c)"
  using assms by (intro typedI [where ds = "[]"]) (auto simp: pushLoop_def wt_def)

lemma typed_popLoop: "typed A d d c (popLoop c)"
proof -
  have "set (tl (c_loops c)) \<subseteq> set (c_loops c)"
    by (cases "c_loops c") auto
  then show ?thesis
    by (intro typedI [where ds = "[]"]) (auto simp: popLoop_def wt_def)
qed

lemmas op_defs = ins_ok_def emitted_ops_def pops_def pushes_def binary_ops_def jump_ops_def leaving_ops_def

lemma and_then_okc_iff: "and_then r (\<lambda>_ c. okc (f c)) = (Inr (), c') \<longleftrightarrow> (\<exists>c1. r = (Inr (), c1) \<and> c' = f c1)"
  by (auto simp: and_then_Inr_iff okc_def)

lemma emit_res_iff: "emit_res r c = (Inr (), c') \<longleftrightarrow> (\<exists>op. r = Inr op \<and> c' = emitOp op c)"
  by (cases r) (auto simp: okc_def)

lemmas compile_simps = and_then_Inr_iff okc_def emit_res_iff

lemma binOp_ops: "binOp op = Inr code \<Longrightarrow> code \<in> set binary_ops"
  by (auto simp: binOp_def binOps_def binary_ops_def split: if_splits option.splits)

lemma compoundOp_ops: "compoundOp op = Inr code \<Longrightarrow> code \<in> set binary_ops"
  by (auto simp: compoundOp_def compoundOps_def binary_ops_def split: if_splits option.splits)

lemma typed_binary: "code \<in> set binary_ops \<Longrightarrow> typed A (d + 2) (d + 1) c (emitOp code c)"
  by (intro typed_emitOp) (auto simp: op_defs)

lemma typed_push:
  "op \<in> {OpInt, OpStr, OpVar} \<Longrightarrow> typed A d (d + 1) c (emit_ins op n s c)"
  by (intro typed_emit) (auto simp: op_defs)

lemma typed_unary: "unaryOp op = Inr code \<Longrightarrow> typed A (d + 1) (d + 1) c (emitOp code c)"
  by (intro typed_emitOp) (auto simp: op_defs unaryOp_def split: if_splits)

lemma typed_assign: "typed A (d + 1) d c (emit_ins OpAssign n s c)"
  by (intro typed_emit) (auto simp: op_defs)

lemma i32_le: "i32 (int n) \<le> int n"
  using signed_take_bit_int_less_eq_self_iff [of 31 "int n"]
  by (cases "int n < 2 ^ 31") (auto simp: i32_def signed_take_bit_int_eq_self_iff intro: order.trans)

lemma typed_call: "typed A (d + n) (d + 1) c (emit_ins OpFunc (i32 (int n)) f c)"
proof -
  have "nat (i32 (int n)) \<le> n"
    using i32_le [of n] by linarith
  then show ?thesis
    by (intro typed_emit) (auto simp: op_defs)
qed

text \<open>Jumps to a label with a known bound.\<close>

lemma typed_cond_jump:
  "(i, v) \<in> A \<Longrightarrow> v \<le> d \<Longrightarrow> op \<in> {OpJumpIfFalse, OpJumpIfTrue} \<Longrightarrow> typed A (d + 1) d c (emit_ins op n (label_name i) c)"
  by (intro typed_emit) (auto simp: op_defs)

lemma typed_goto: "(i, v) \<in> A \<Longrightarrow> v \<le> d \<Longrightarrow> typed A d d' c (emit_ins OpGoto n (label_name i) c)"
  by (intro typed_emit) (auto simp: op_defs)

lemma typed_mark_fresh: "(i, d) \<in> A \<Longrightarrow> typed A d d c (markLabel (label_name i) c)"
  by (intro typed_mark) auto

lemma snd_freshLabel [simp]: "fst (freshLabel c) = label_name (c_label c)" "c_label (snd (freshLabel c)) = Suc (c_label c)"
  by (simp_all add: freshLabel_def)

lemma emitJump_eq: "emitJump op c = (label_name (c_label c), emit_ins op 0 (label_name (c_label c)) (snd (freshLabel c)))"
  by (simp add: emitJump_def freshLabel_def)

lemma c_label_emit [simp]: "c_label (emit_ins op n s c) = c_label c"
  by (simp add: emit_ins_def)

lemma compileExprs_typed:
  assumes "\<And>e A d c c'. e \<in> set es \<Longrightarrow> compileExpr e c = (Inr (), c') \<Longrightarrow> typed A d (d + 1) c c'"
  shows "compileExprs es c = (Inr (), c') \<Longrightarrow> typed A d (d + length es) c c'"
  using assms
proof (induction es arbitrary: c d)
  case Nil
  then show ?case
    by (simp add: okc_def typed_refl)
next
  case (Cons e es)
  then obtain c1 where c1: "compileExpr e c = (Inr (), c1)" "compileExprs es c1 = (Inr (), c')"
    by (auto simp: compile_simps)
  have "typed A d (d + 1) c c1"
    using Cons.prems(2) [OF _ c1(1)] by simp
  moreover have "typed A (d + 1) (d + 1 + length es) c1 c'"
    by (rule Cons.IH [OF c1(2)], rule Cons.prems(2)) simp_all
  ultimately show ?case
    using typed_trans by fastforce
qed

lemma compileExpr_typed: "compileExpr e c = (Inr (), c') \<Longrightarrow> typed A d (d + 1) c c'"
proof (induction e arbitrary: A d c c')
  case (BinExpr op a b)
  show ?case
  proof (cases "shortcut op")
    case None
    then obtain c1 c2 code where c: "compileExpr a c = (Inr (), c1)" "compileExpr b c1 = (Inr (), c2)"
        "binOp op = Inr code" "c' = emitOp code c2"
      using BinExpr.prems by (auto simp: compile_simps)
    have "typed A (d + 1) (d + 2) c1 c2"
      using BinExpr.IH(2) [OF c(2), of A "d + 1"] by simp
    then show ?thesis
      using BinExpr.IH(1) [OF c(1)] typed_binary [OF binOp_ops [OF c(3)]] c(4) typed_trans by metis
  next
    case (Some jk)
    then obtain jmp k where jk: "jk = (jmp, k)" "jmp \<in> {OpJumpIfFalse, OpJumpIfTrue}"
      by (cases jk) (auto simp: shortcut_def split: if_splits)
    let ?n = "\<lambda>c. label_name (c_label c)"
    obtain c1 c3 where c: "compileExpr a c = (Inr (), c1)"
        "compileExpr b (emit_ins jmp 0 (?n c1) (snd (freshLabel c1))) = (Inr (), c3)"
        "c' = markLabel (?n c3) (emit_ins OpInt k [] (markLabel (?n c1) (emit_ins OpGoto 0 (?n c3) (snd (freshLabel c3)))))"
      using BinExpr.prems Some jk(1) by (auto simp: compile_simps emitJump_eq)
    let ?B = "insert (c_label c1, d) A" let ?C = "insert (c_label c3, d + 1) ?B"
    have "typed ?C (d + 1) d (snd (freshLabel c3)) (emit_ins OpGoto 0 (?n c3) (snd (freshLabel c3)))"
      by (rule typed_goto [where v = "d + 1"]) simp_all
    also have "typed ?C d d \<dots> (markLabel (?n c1) (emit_ins OpGoto 0 (?n c3) (snd (freshLabel c3))))"
      by (rule typed_mark_fresh) simp
    also have "typed ?C d (d + 1) \<dots> (emit_ins OpInt k [] (markLabel (?n c1) (emit_ins OpGoto 0 (?n c3) (snd (freshLabel c3)))))"
      by (rule typed_push) simp
    also have "typed ?C (d + 1) (d + 1) \<dots> c'"
      unfolding c(3) by (rule typed_mark_fresh) simp
    finally have tail: "typed ?B (d + 1) (d + 1) c3 c'"
      by (rule typed_fresh)
    have "typed ?B (d + 1) d (snd (freshLabel c1)) (emit_ins jmp 0 (?n c1) (snd (freshLabel c1)))"
      by (rule typed_cond_jump [where v = d]) (use jk(2) in simp_all)
    also have "typed ?B d (d + 1) \<dots> c3"
      by (rule BinExpr.IH(2) [OF c(2)])
    also note tail
    finally have "typed A (d + 1) (d + 1) c1 c'"
      by (rule typed_fresh)
    then show ?thesis
      by (rule typed_trans [OF BinExpr.IH(1) [OF c(1)]])
  qed
next
  case (TernaryExpr e a b)
  let ?n = "\<lambda>c. label_name (c_label c)"
  obtain c1 c3 c4 where c: "compileExpr e c = (Inr (), c1)"
      "compileExpr a (emit_ins OpJumpIfFalse 0 (?n c1) (snd (freshLabel c1))) = (Inr (), c3)"
      "compileExpr b (markLabel (?n c1) (emit_ins OpGoto 0 (?n c3) (snd (freshLabel c3)))) = (Inr (), c4)"
      "c' = markLabel (?n c3) c4"
    using TernaryExpr.prems by (auto simp: compile_simps emitJump_eq)
  let ?B = "insert (c_label c1, d) A" let ?C = "insert (c_label c3, d + 1) ?B"
  have "typed ?C (d + 1) d (snd (freshLabel c3)) (emit_ins OpGoto 0 (?n c3) (snd (freshLabel c3)))"
    by (rule typed_goto [where v = "d + 1"]) simp_all
  also have "typed ?C d d \<dots> (markLabel (?n c1) (emit_ins OpGoto 0 (?n c3) (snd (freshLabel c3))))"
    by (rule typed_mark_fresh) simp
  also have "typed ?C d (d + 1) \<dots> c4"
    by (rule TernaryExpr.IH(3) [OF c(3)])
  also have "typed ?C (d + 1) (d + 1) \<dots> c'"
    unfolding c(4) by (rule typed_mark_fresh) simp
  finally have tail: "typed ?B (d + 1) (d + 1) c3 c'"
    by (rule typed_fresh)
  have "typed ?B (d + 1) d (snd (freshLabel c1)) (emit_ins OpJumpIfFalse 0 (?n c1) (snd (freshLabel c1)))"
    by (rule typed_cond_jump [where v = d]) simp_all
  also have "typed ?B d (d + 1) \<dots> c3"
    by (rule TernaryExpr.IH(2) [OF c(2)])
  also note tail
  finally have "typed A (d + 1) (d + 1) c1 c'"
    by (rule typed_fresh)
  then show ?case
    by (rule typed_trans [OF TernaryExpr.IH(1) [OF c(1)]])
next
  case (CallExpr f args)
  then obtain c1 where c1: "compileExprs args c = (Inr (), c1)" "c' = emit_ins OpFunc (i32 (int (length args))) f c1"
    by (auto simp: compile_simps)
  have "typed A d (d + length args) c c1"
    using compileExprs_typed [OF _ c1(1)] CallExpr.IH by blast
  then show ?case
    using typed_call c1(2) typed_trans by blast
next
  case (UnaryExpr op e)
  then obtain c1 code where "compileExpr e c = (Inr (), c1)" "unaryOp op = Inr code" "c' = emitOp code c1"
    by (auto simp: compile_simps)
  then show ?case
    using UnaryExpr.IH typed_unary typed_trans by metis
next
  case (IndexExpr a b)
  then obtain c1 c2 where c: "compileExpr a c = (Inr (), c1)" "compileExpr b c1 = (Inr (), c2)" "c' = emitOp OpIndexGet c2"
    by (auto simp: compile_simps)
  have "typed A (d + 1) (d + 2) c1 c2"
    using IndexExpr.IH(2) [OF c(2), of A "d + 1"] by simp
  moreover have "typed A (d + 2) (d + 1) c2 c'"
    unfolding c(3) by (intro typed_emitOp) (auto simp: op_defs)
  ultimately show ?case
    using IndexExpr.IH(1) [OF c(1)] typed_trans by metis
qed (auto simp: compile_simps intro: typed_push [simplified])

section \<open>Statements\<close>

text \<open>The label names a script jumps to.\<close>

fun stmt_jumps :: "stmt \<Rightarrow> string list" and block_jumps :: "stmt list \<Rightarrow> string list" where
  "stmt_jumps (IfStmt e a b) = block_jumps a @ block_jumps b"
| "stmt_jumps (WhileStmt e a) = block_jumps a"
| "stmt_jumps (DoWhileStmt a e) = block_jumps a"
| "stmt_jumps (ForStmt i e p a) = block_jumps i @ block_jumps p @ block_jumps a"
| "stmt_jumps (CallStmt f args) = (if f = ''menu'' then case menu_pairs args of Inr (ps, ls) \<Rightarrow> ls | Inl e \<Rightarrow> [] else [])"
| "stmt_jumps (GotoStmt l) = [l]"
| "stmt_jumps (CallSubStmt l args) = [l]"
| "stmt_jumps (SwitchStmt e cs) = []"
| "stmt_jumps BreakStmt = []"
| "stmt_jumps ContinueStmt = []"
| "stmt_jumps (AssignStmt l op r) = []"
| "stmt_jumps (ReturnStmt e) = []"
| "stmt_jumps (LabelDecl l) = []"
| "block_jumps [] = []"
| "block_jumps (s # ss) = stmt_jumps s @ block_jumps ss"

text \<open>A name outside the compiler's own, which begin with \<open>__c\<close>.\<close>

definition user_label :: "string \<Rightarrow> bool" where
  "user_label l \<longleftrightarrow> \<not> prefix ''__c'' l"

lemma user_label_zero: "user_label l \<Longrightarrow> user_zero P \<Longrightarrow> P l = 0"
proof -
  assume "user_label l" "user_zero P"
  moreover from this(1) have "l \<noteq> label_name j" for j
    by (auto simp: user_label_def label_name_def)
  ultimately show "P l = 0"
    by (simp add: user_zero_def)
qed

lemma typed_user_jump: "user_label l \<Longrightarrow> op \<in> {OpJumpIfFalse, OpJumpIfTrue} \<Longrightarrow> typed A (d + 1) d c (emit_ins op n l c)"
  by (intro typed_emit) (auto simp: op_defs user_label_zero)

lemma typed_loop_jump:
  assumes "f \<in> set (c_loops c)" and "l = fst f \<or> l = snd f"
  shows "typed A 0 0 c (emit_ins OpGoto 0 l c)"
  using assms by (intro typedI [where ds = "[0]"]) (auto simp: emit_ins_def wt_def op_defs intro!: code_ok_snoc)

lemma compileAssign_typed: "compileAssign lhs op rhs c = (Inr (), c') \<Longrightarrow> typed A 0 0 c c'"
proof (induction lhs op rhs c rule: compileAssign.induct [case_names element int float str ident paren unary binary ternary call])
  case (element target idx op rhs c)
  then obtain c1 c2 c3 where c: "compileExpr target c = (Inr (), c1)" "compileExpr idx c1 = (Inr (), c2)"
      "compileExpr rhs c2 = (Inr (), c3)" "c' = emitOp OpIndexSet c3"
    by (auto simp: compile_simps)
  have "typed A 0 1 c c1" "typed A 1 2 c1 c2" "typed A 2 3 c2 c3"
    using compileExpr_typed [OF c(1), of A 0] compileExpr_typed [OF c(2), of A 1] compileExpr_typed [OF c(3), of A 2]
    by (simp_all add: numeral_eq_Suc)
  moreover have "typed A 3 0 c3 c'"
    unfolding c(4) by (intro typed_emitOp) (auto simp: op_defs)
  ultimately show ?case
    using typed_trans by blast
next
  case (ident x op rhs c)
  show ?case
  proof (cases "op = ''=''")
    case True
    then obtain c1 where c: "compileExpr rhs c = (Inr (), c1)" "c' = emit_ins OpAssign 0 x c1"
      using ident by (auto simp: compile_simps)
    then show ?thesis
      using compileExpr_typed [OF c(1), of A 0] typed_assign [of A 0 c1] typed_trans by force
  next
    case False
    then obtain c1 code where c: "compileExpr rhs (emit_ins OpVar 0 x c) = (Inr (), c1)" "compoundOp op = Inr code"
        "c' = emit_ins OpAssign 0 x (emitOp code c1)"
      using ident by (auto simp: compile_simps)
    have "typed A 0 1 c (emit_ins OpVar 0 x c)"
      using typed_push [of OpVar A 0] by simp
    also have "typed A 1 2 \<dots> c1"
      using compileExpr_typed [OF c(1), of A 1] by (simp add: numeral_eq_Suc)
    also have "typed A 2 1 c1 (emitOp code c1)"
      using typed_binary [OF compoundOp_ops [OF c(2)], of A 0] by (simp add: numeral_eq_Suc)
    also have "typed A 1 0 \<dots> c'"
      using typed_assign [of A 0] c(3) by simp
    finally show ?thesis .
  qed
qed simp_all

lemma menu_jumps_typed: "list_all user_label ls \<Longrightarrow> typed A 0 0 c (menu_jumps i ls c)"
proof (induction ls arbitrary: i c)
  case (Cons l ls)
  let ?c = "emit_ins OpVar 0 ''@menu'' c"
  have "typed A 0 1 c ?c"
    using typed_push [of OpVar A 0] by simp
  also have "typed A 1 2 \<dots> (emit_ins OpInt (i32 (int i + 1)) [] ?c)"
    using typed_push [of OpInt A 1] by (simp add: numeral_eq_Suc)
  also have "typed A 2 1 \<dots> (emitOp OpLEq (emit_ins OpInt (i32 (int i + 1)) [] ?c))"
    using typed_binary [of OpLEq A 0] by (simp add: numeral_eq_Suc binary_ops_def)
  also have "typed A 1 0 \<dots> (emit_ins OpJumpIfTrue 0 l (emitOp OpLEq (emit_ins OpInt (i32 (int i + 1)) [] ?c)))"
    using typed_user_jump [of l OpJumpIfTrue A 0] Cons.prems by simp
  also have "typed A 0 0 \<dots> (menu_jumps i (l # ls) c)"
    using Cons.IH Cons.prems by simp
  finally show ?case .
qed (simp add: typed_refl)

lemma compileExprs_typed': "compileExprs es c = (Inr (), c') \<Longrightarrow> typed A d (d + length es) c c'"
  using compileExprs_typed compileExpr_typed by blast

lemma compileMenu_typed:
  assumes "compileMenu args c = (Inr (), c')" and "case menu_pairs args of Inr (ps, ls) \<Rightarrow> list_all user_label ls | Inl e \<Rightarrow> True"
  shows "typed A 0 0 c c'"
proof -
  obtain ps ls c1 where c: "menu_pairs args = Inr (ps, ls)" "compileExprs ps c = (Inr (), c1)"
      "c' = menu_jumps 0 ls (emit_ins OpAssign 0 ''@menu'' (emit_ins OpFunc (i32 (int (length ps))) ''menu'' c1))"
    using assms(1) by (auto simp: compileMenu_def compile_simps split: if_splits sum.splits)
  have "typed A 0 (length ps) c c1"
    using compileExprs_typed' [OF c(2), of A 0] by simp
  also have "typed A (length ps) 1 \<dots> (emit_ins OpFunc (i32 (int (length ps))) ''menu'' c1)"
    using typed_call [of A 0] by simp
  also have "typed A 1 0 \<dots> (emit_ins OpAssign 0 ''@menu'' (emit_ins OpFunc (i32 (int (length ps))) ''menu'' c1))"
    using typed_assign [of A 0] by simp
  also have "typed A 0 0 \<dots> c'"
    using menu_jumps_typed assms(2) c(1,3) by simp
  finally show ?thesis .
qed

lemma typed_call0: "typed A n 0 c (emit_ins OpFunc (i32 (int n)) f c)"
proof -
  have "nat (i32 (int n)) \<le> n"
    using i32_le [of n] by linarith
  then show ?thesis
    by (intro typed_emit) (auto simp: op_defs)
qed

lemma compileInput_typed:
  assumes "compileInput args c = (Inr (), c')"
  shows "typed A 0 0 c c'"
proof -
  obtain x c1 where c: "args \<noteq> []" "compileExprs (tl args) (emit_ins OpStr 0 x c) = (Inr (), c1)"
      "c' = emit_ins OpFunc (i32 (int (length args))) ''input'' c1"
    using assms by (cases args) (auto simp: compileInput_def compile_simps split: if_splits option.splits)
  have "typed A 0 1 c (emit_ins OpStr 0 x c)"
    using typed_push [of OpStr A 0] by simp
  also have "typed A 1 (length args) \<dots> c1"
    using compileExprs_typed' [OF c(2), of A 1] c(1) by simp
  also have "typed A (length args) 0 \<dots> c'"
    unfolding c(3) by (rule typed_call0)
  finally show ?thesis .
qed

lemma compileBlock_typed:
  assumes "\<And>s A c c'. s \<in> set ss \<Longrightarrow> compileStmt s c = (Inr (), c') \<Longrightarrow> list_all user_label (stmt_jumps s) \<Longrightarrow> typed A 0 0 c c'"
  shows "compileBlockStmts ss c = (Inr (), c') \<Longrightarrow> list_all user_label (block_jumps ss) \<Longrightarrow> typed A 0 0 c c'"
  using assms
proof (induction ss arbitrary: c)
  case Nil
  then show ?case
    by (simp add: okc_def typed_refl)
next
  case (Cons s ss)
  obtain c1 where c1: "compileStmt s c = (Inr (), c1)" "compileBlockStmts ss c1 = (Inr (), c')"
    using Cons.prems(1) by (auto simp: compile_simps)
  have "typed A 0 0 c c1"
    using Cons.prems(3) [OF _ c1(1)] Cons.prems(2) by simp
  moreover have "typed A 0 0 c1 c'"
    by (rule Cons.IH [OF c1(2)]) (use Cons.prems(2,3) in auto)
  ultimately show ?case
    by (rule typed_trans)
qed

lemma freshLabel_eq: "freshLabel c = (label_name (c_label c), snd (freshLabel c))"
  by (simp add: freshLabel_def)

lemma let_fresh: "(let (l, c) = freshLabel c in f l c) = f (label_name (c_label c)) (snd (freshLabel c))"
  by (simp add: freshLabel_def)

lemma compileStmt_typed:
  "compileStmt s c = (Inr (), c') \<Longrightarrow> list_all user_label (stmt_jumps s) \<Longrightarrow> typed A 0 0 c c'"
proof (induction s arbitrary: A c c')
  case (IfStmt e a b)
  let ?n = "\<lambda>c. label_name (c_label c)"
  note block = compileBlock_typed [OF IfStmt.IH(1)] compileBlock_typed [OF IfStmt.IH(2)]
  have us: "list_all user_label (block_jumps a)" "list_all user_label (block_jumps b)"
    using IfStmt.prems(2) by simp_all
  obtain c1 c2 where c: "compileExpr e c = (Inr (), c1)"
      "compileBlockStmts a (emit_ins OpJumpIfFalse 0 (?n c1) (snd (freshLabel c1))) = (Inr (), c2)"
    using IfStmt.prems(1) by (auto simp: compile_simps emitJump_eq)
  let ?B = "insert (c_label c1, 0) A"
  have tail: "typed ?B 0 0 c2 c'"
  proof (cases "b = []")
    case True
    then have "c' = markLabel (?n c1) c2"
      using IfStmt.prems(1) c by (auto simp: compile_simps emitJump_eq)
    then show ?thesis
      using typed_mark_fresh by simp
  next
    case False
    obtain c3 where c3: "compileBlockStmts b (markLabel (?n c1) (emit_ins OpGoto 0 (?n c2) (snd (freshLabel c2)))) = (Inr (), c3)"
        "c' = markLabel (?n c2) c3"
      using IfStmt.prems(1) c False by (auto simp: compile_simps emitJump_eq)
    let ?C = "insert (c_label c2, 0) ?B"
    have "typed ?C 0 0 (snd (freshLabel c2)) (emit_ins OpGoto 0 (?n c2) (snd (freshLabel c2)))"
      by (rule typed_goto [where v = 0]) simp_all
    also have "typed ?C 0 0 \<dots> (markLabel (?n c1) (emit_ins OpGoto 0 (?n c2) (snd (freshLabel c2))))"
      by (rule typed_mark_fresh) simp
    also have "typed ?C 0 0 \<dots> c3"
      by (rule block(2) [OF _ _ _ c3(1) us(2)])
    also have "typed ?C 0 0 \<dots> c'"
      unfolding c3(2) by (rule typed_mark_fresh) simp
    finally show ?thesis
      by (rule typed_fresh)
  qed
  have "typed ?B 1 0 (snd (freshLabel c1)) (emit_ins OpJumpIfFalse 0 (?n c1) (snd (freshLabel c1)))"
    using typed_cond_jump [where v = 0 and d = 0 and A = ?B and i = "c_label c1"] by simp
  also have "typed ?B 0 0 \<dots> c2"
    by (rule block(1) [OF _ _ _ c(2) us(1)])
  also note tail
  finally have "typed A 1 0 c1 c'"
    by (rule typed_fresh)
  then show ?case
    using compileExpr_typed [OF c(1), of A 0] typed_trans by simp
next
  case (WhileStmt e a)
  let ?i = "c_label c" let ?j = "Suc (c_label c)"
  let ?c0 = "snd (freshLabel (snd (freshLabel c)))"
  obtain c1 c2 where c: "compileExpr e (markLabel (label_name ?i) ?c0) = (Inr (), c1)"
      "compileBlockStmts a (pushLoop (label_name ?i) (label_name ?j) (emit_ins OpJumpIfFalse 0 (label_name ?j) c1)) = (Inr (), c2)"
      "c' = markLabel (label_name ?j) (emit_ins OpGoto 0 (label_name ?i) (popLoop c2))"
    using WhileStmt.prems(1) by (auto simp: compile_simps let_fresh)
  let ?B = "insert (?j, 0) (insert (?i, 0) A)"
  have "typed ?B 0 0 ?c0 (markLabel (label_name ?i) ?c0)"
    by (rule typed_mark_fresh) simp
  also have "typed ?B 0 1 \<dots> c1"
    using compileExpr_typed [OF c(1), of ?B 0] by simp
  also have "typed ?B 1 0 \<dots> (emit_ins OpJumpIfFalse 0 (label_name ?j) c1)"
    using typed_cond_jump [where v = 0 and d = 0 and A = ?B and i = ?j] by simp
  also have "typed ?B 0 0 \<dots> (pushLoop (label_name ?i) (label_name ?j) (emit_ins OpJumpIfFalse 0 (label_name ?j) c1))"
    by (rule typed_pushLoop) simp_all
  also have "typed ?B 0 0 \<dots> c2"
    by (rule compileBlock_typed [OF WhileStmt.IH c(2)]) (use WhileStmt.prems(2) in simp_all)
  also have "typed ?B 0 0 \<dots> (popLoop c2)"
    by (rule typed_popLoop)
  also have "typed ?B 0 0 \<dots> (emit_ins OpGoto 0 (label_name ?i) (popLoop c2))"
    by (rule typed_goto [where v = 0]) simp_all
  also have "typed ?B 0 0 \<dots> c'"
    unfolding c(3) by (rule typed_mark_fresh) simp
  finally have "typed (insert (?i, 0) A) 0 0 (snd (freshLabel c)) c'"
    using typed_fresh [where c = "snd (freshLabel c)" and v = 0] by simp
  then show ?case
    by (rule typed_fresh)
next
  case (DoWhileStmt a e)
  let ?i = "c_label c" let ?j = "Suc (c_label c)" let ?k = "Suc (Suc (c_label c))"
  let ?c0 = "snd (freshLabel (snd (freshLabel (snd (freshLabel c)))))"
  obtain c1 c2 where c: "compileBlockStmts a (pushLoop (label_name ?j) (label_name ?k) (markLabel (label_name ?i) ?c0)) = (Inr (), c1)"
      "compileExpr e (markLabel (label_name ?j) (popLoop c1)) = (Inr (), c2)"
      "c' = markLabel (label_name ?k) (emit_ins OpJumpIfTrue 0 (label_name ?i) c2)"
    using DoWhileStmt.prems(1) by (auto simp: compile_simps let_fresh)
  let ?B = "insert (?k, 0) (insert (?j, 0) (insert (?i, 0) A))"
  have "typed ?B 0 0 ?c0 (markLabel (label_name ?i) ?c0)"
    by (rule typed_mark_fresh) simp
  also have "typed ?B 0 0 \<dots> (pushLoop (label_name ?j) (label_name ?k) (markLabel (label_name ?i) ?c0))"
    by (rule typed_pushLoop) simp_all
  also have "typed ?B 0 0 \<dots> c1"
    by (rule compileBlock_typed [OF DoWhileStmt.IH c(1)]) (use DoWhileStmt.prems(2) in simp_all)
  also have "typed ?B 0 0 \<dots> (popLoop c1)"
    by (rule typed_popLoop)
  also have "typed ?B 0 0 \<dots> (markLabel (label_name ?j) (popLoop c1))"
    by (rule typed_mark_fresh) simp
  also have "typed ?B 0 1 \<dots> c2"
    using compileExpr_typed [OF c(2), of ?B 0] by simp
  also have "typed ?B 1 0 \<dots> (emit_ins OpJumpIfTrue 0 (label_name ?i) c2)"
    using typed_cond_jump [where v = 0 and d = 0 and A = ?B and i = ?i] by simp
  also have "typed ?B 0 0 \<dots> c'"
    unfolding c(3) by (rule typed_mark_fresh) simp
  finally have "typed (insert (?j, 0) (insert (?i, 0) A)) 0 0 (snd (freshLabel (snd (freshLabel c)))) c'"
    using typed_fresh [where c = "snd (freshLabel (snd (freshLabel c)))" and v = 0] by simp
  then have "typed (insert (?i, 0) A) 0 0 (snd (freshLabel c)) c'"
    using typed_fresh [where c = "snd (freshLabel c)" and v = 0] by simp
  then show ?case
    by (rule typed_fresh)
next
  case (ForStmt init e post a)
  have us: "list_all user_label (block_jumps init)" "list_all user_label (block_jumps post)" "list_all user_label (block_jumps a)"
    using ForStmt.prems(2) by simp_all
  obtain c1 where c1: "compileBlockStmts init c = (Inr (), c1)"
    using ForStmt.prems(1) by (auto simp: compile_simps)
  let ?i = "c_label c1" let ?j = "Suc (c_label c1)"
  let ?c0 = "snd (freshLabel (snd (freshLabel c1)))"
  let ?B = "insert (?j, 0) (insert (?i, 0) A)"
  obtain c2 c3 c4 where c: "(case e of None \<Rightarrow> okc (markLabel (label_name ?i) ?c0)
        | Some e \<Rightarrow> and_then (compileExpr e (markLabel (label_name ?i) ?c0)) (\<lambda>_ c. okc (emit_ins OpJumpIfFalse 0 (label_name ?j) c))) = (Inr (), c2)"
      "compileBlockStmts a (pushLoop (label_name ?i) (label_name ?j) c2) = (Inr (), c3)"
      "compileBlockStmts post (popLoop c3) = (Inr (), c4)"
      "c' = markLabel (label_name ?j) (emit_ins OpGoto 0 (label_name ?i) c4)"
    using ForStmt.prems(1) c1 by (cases e) (auto simp: and_then_Inr_iff okc_def let_fresh)
  have "typed ?B 0 0 ?c0 (markLabel (label_name ?i) ?c0)"
    by (rule typed_mark_fresh) simp
  also have "typed ?B 0 0 \<dots> c2"
  proof (cases e)
    case None
    then show ?thesis
      using c(1) by (simp add: okc_def typed_refl)
  next
    case (Some x)
    then obtain c5 where c5: "compileExpr x (markLabel (label_name ?i) ?c0) = (Inr (), c5)" "c2 = emit_ins OpJumpIfFalse 0 (label_name ?j) c5"
      using c(1) by (auto simp: compile_simps)
    have "typed ?B 1 0 c5 c2"
      using typed_cond_jump [where v = 0 and d = 0 and A = ?B and i = ?j] c5(2) by simp
    then show ?thesis
      using compileExpr_typed [OF c5(1), of ?B 0] typed_trans by simp
  qed
  also have "typed ?B 0 0 \<dots> (pushLoop (label_name ?i) (label_name ?j) c2)"
    by (rule typed_pushLoop) simp_all
  also have "typed ?B 0 0 \<dots> c3"
    by (rule compileBlock_typed [OF ForStmt.IH(3) c(2) us(3)])
  also have "typed ?B 0 0 \<dots> (popLoop c3)"
    by (rule typed_popLoop)
  also have "typed ?B 0 0 \<dots> c4"
    by (rule compileBlock_typed [OF ForStmt.IH(2) c(3) us(2)])
  also have "typed ?B 0 0 \<dots> (emit_ins OpGoto 0 (label_name ?i) c4)"
    by (rule typed_goto [where v = 0]) simp_all
  also have "typed ?B 0 0 \<dots> c'"
    unfolding c(4) by (rule typed_mark_fresh) simp
  finally have "typed (insert (?i, 0) A) 0 0 (snd (freshLabel c1)) c'"
    using typed_fresh [where c = "snd (freshLabel c1)" and v = 0] by simp
  then have "typed A 0 0 c1 c'"
    by (rule typed_fresh)
  then show ?case
    by (intro typed_trans [OF compileBlock_typed [OF ForStmt.IH(1) c1 us(1)]])
next
  case BreakStmt
  then show ?case
    by (auto simp: compileBreak_def currentLoop_def okc_def split: list.splits intro!: typed_loop_jump [of "hd (c_loops c)"])
next
  case ContinueStmt
  then show ?case
    by (auto simp: compileContinue_def currentLoop_def okc_def split: list.splits intro!: typed_loop_jump [of "hd (c_loops c)"])
next
  case (AssignStmt lhs op rhs)
  then show ?case
    using compileAssign_typed by simp
next
  case (CallStmt f args)
  consider "f = ''set''" | "f = ''menu''" | "f = ''input''" | "f \<noteq> ''set''" "f \<noteq> ''menu''" "f \<noteq> ''input''"
    by blast
  then show ?case
  proof cases
    case 1
    then show ?thesis
      using CallStmt.prems compileAssign_typed by (auto simp: compileSet_def split: list.splits)
  next
    case 2
    then show ?thesis
      using CallStmt.prems by (intro compileMenu_typed) (auto split: sum.splits prod.splits)
  next
    case 3
    then show ?thesis
      using CallStmt.prems compileInput_typed by simp
  next
    case 4
    then obtain c1 where c: "compileExprs args c = (Inr (), c1)" "c' = emitOp OpPop (emit_ins OpFunc (i32 (int (length args))) f c1)"
      using CallStmt.prems(1) by (auto simp: compileCall_def compile_simps)
    have "typed A 0 (length args) c c1"
      using compileExprs_typed' [OF c(1), of A 0] by simp
    also have "typed A (length args) 1 \<dots> (emit_ins OpFunc (i32 (int (length args))) f c1)"
      using typed_call [of A 0] by simp
    also have "typed A 1 0 \<dots> c'"
      unfolding c(2) by (intro typed_emitOp) (auto simp: op_defs)
    finally show ?thesis .
  qed
next
  case (CallSubStmt l args)
  then obtain c1 where c: "compileExprs args c = (Inr (), c1)" "c' = emit_ins OpCallSub 0 l c1"
    by (auto simp: compile_simps)
  have "typed A 0 (length args) c c1"
    using compileExprs_typed' [OF c(1), of A 0] by simp
  also have "typed A (length args) 0 \<dots> c'"
    unfolding c(2) using CallSubStmt.prems(2) by (intro typed_emit) (auto simp: op_defs user_label_zero)
  finally show ?case .
next
  case (GotoStmt l)
  then show ?case
    by (auto simp: okc_def op_defs user_label_zero intro!: typed_emit)
next
  case (ReturnStmt e)
  then show ?case
    by (auto simp: okc_def op_defs intro!: typed_emitOp)
next
  case (LabelDecl l)
  then show ?case
    by (auto simp: okc_def intro!: typed_mark)
qed simp

lemma compileBlockStmts_typed:
  "compileBlockStmts ss c = (Inr (), c') \<Longrightarrow> list_all user_label (block_jumps ss) \<Longrightarrow> typed A 0 0 c c'"
  using compileBlock_typed compileStmt_typed by blast

section \<open>No compiled script underflows the stack\<close>

lemma label_name_inj: "label_name i = label_name j \<longleftrightarrow> i = j"
proof
  assume "label_name i = label_name j"
  then have "parse_digits 0 (format_nat i) = parse_digits 0 (format_nat j)"
    by (simp add: label_name_def)
  then show "i = j"
    unfolding parse_format_nat by simp
qed simp

lemma compile_body_ok:
  assumes "compile_body k name body = (Inr cs, k')" and "list_all user_label (block_jumps body)"
  shows "\<exists>P D. code_ok P (cs_Instructions cs) (cs_Labels cs) D \<and> D ! 0 = 0"
proof -
  let ?c0 = "\<lparr>c_Instructions = [], c_Labels = Map.empty, c_label = k, c_loops = []\<rparr>"
  obtain c where c: "compileBlockStmts body ?c0 = (Inr (), c)"
      "cs = \<lparr>cs_Name = name, cs_Instructions = c_Instructions (emitOp OpEOF c), cs_Labels = c_Labels c\<rparr>"
    using assms(1) by (auto simp: compile_body_def Let_def emitOp_def emit_ins_def split: prod.splits sum.splits)
  have "typed {} 0 0 ?c0 c"
    by (rule compileBlockStmts_typed [OF c(1) assms(2)])
  then obtain Q ds where Q: "extends_by {} Q ds 0 0 ?c0 c"
    by (rule typedE)
  define P where "P l = (if \<exists>j. l = label_name j then Q (THE j. l = label_name j) else 0)" for l
  have P: "P (label_name j) = Q j" for j
    by (auto simp: P_def label_name_inj)
  have "user_zero P"
    by (simp add: user_zero_def P_def)
  moreover have "wt P ?c0 [0]"
    by (simp add: wt_def code_ok_def)
  ultimately have wt: "wt P c ([0] @ ds)" "last ([0] @ ds) = 0"
    using extends_byD [OF Q, of P "[0]"] P by simp_all
  have "ins_ok P \<lparr>in_Op = OpEOF, in_Operand = 0, in_Str = []\<rparr> 0 0"
    by (auto simp: op_defs)
  then have "code_ok P (c_Instructions (emitOp OpEOF c)) (c_Labels c) (([0] @ ds) @ [0])"
    using wt code_ok_snoc [of P "c_Instructions c" "c_Labels c" "[0] @ ds" _ 0] by (simp add: wt_def emitOp_def emit_ins_def)
  then show ?thesis
    using c(2) by (intro exI [of _ P] exI [of _ "([0] @ ds) @ [0]"]) simp
qed

text \<open>A host that logs its messages and answers every menu with its first entry, and a small script.\<close>

definition log_host :: "string list script_host" where
  "log_host = \<lparr>host_Mes = (\<lambda>m h. h @ [m]), host_Next = (\<lambda>h. (True, h)), host_Select = (\<lambda>os h. (1, h)),
     host_Input = (\<lambda>h. (Some 7, h)), host_InputStr = (\<lambda>h. (Some ''text'', h)), host_Close = (\<lambda>h. h @ [''close'']),
     host_Warp = (\<lambda>m x y h. h), host_PercentHeal = (\<lambda>a b h. h), host_GetItem = (\<lambda>i n h. (True, h)),
     host_DelItem = (\<lambda>i n h. (True, h)), host_CountItem = (\<lambda>i h. (0, h)), host_Equip = (\<lambda>i s h. (True, h)),
     host_Unequip = (\<lambda>i h. (True, h)), host_GetQuestVar = (\<lambda>n v h. (0, h)), host_SetQuestVar = (\<lambda>n v x h. (True, h))\<rparr>"

definition countdown :: "stmt list" where
  "countdown =
     [AssignStmt (IdentExpr ''i'') ''='' (IntLit 3),
      WhileStmt (BinExpr ''>'' (IdentExpr ''i'') (IntLit 0))
        [CallStmt ''mes'' [BinExpr ''+'' (StrLit ''left: '') (IdentExpr ''i'')],
         AssignStmt (IdentExpr ''i'') ''-='' (IntLit 1)],
      CallStmt ''close'' []]"

text \<open>Evaluating the compiler by rewriting: the continuation waits for its argument.\<close>

lemma and_then_weak: "r = r' \<Longrightarrow> and_then r f = and_then r' f"
  by simp

lemma label_names: "label_name 0 = ''__c0''" "label_name (Suc 0) = ''__c1''"
  by code_simp+

lemmas compile_eval = compile_body_def emit_ins_def emitOp_def okc_def freshLabel_def markLabel_def emitJump_def pushLoop_def
  popLoop_def currentLoop_def compileCall_def compileSet_def compileInput_def compileBreak_def compileContinue_def binOp_def binOps_def
  unaryOp_def shortcut_def label_names compoundOp_def compoundOps_def i32_def Let_def

definition script_of :: "(opcode \<times> int \<times> string) list \<Rightarrow> (string \<times> nat) list \<Rightarrow> compiled_script" where
  "script_of code labels =
     \<lparr>cs_Name = ''test'', cs_Instructions = map (\<lambda>(op, n, s). \<lparr>in_Op = op, in_Operand = n, in_Str = s\<rparr>) code,
      cs_Labels = map_of labels\<rparr>"

definition countdown_script :: compiled_script where
  "countdown_script = script_of
     [(OpInt, 3, []), (OpAssign, 0, ''i''), (OpLabel, 0, []), (OpVar, 0, ''i''), (OpInt, 0, []), (OpLGT, 0, []),
      (OpJumpIfFalse, 0, ''__c1''), (OpStr, 0, ''left: ''), (OpVar, 0, ''i''), (OpAdd, 0, []), (OpFunc, 1, ''mes''), (OpPop, 0, []),
      (OpVar, 0, ''i''), (OpInt, 1, []), (OpSub, 0, []), (OpAssign, 0, ''i''), (OpGoto, 0, ''__c0''), (OpLabel, 0, []),
      (OpFunc, 0, ''close''), (OpPop, 0, []), (OpEOF, 0, [])]
     [(''__c1'', 17), (''__c0'', 2)]"

lemma compile_countdown: "compile_body 0 ''test'' countdown = (Inr countdown_script, 2)"
  by (simp add: countdown_def countdown_script_def script_of_def compile_eval fun_eq_iff cong: and_then_weak)

definition escape :: "stmt list" where
  "escape = [GotoStmt ''__c0'', CallStmt ''mes'' [BinExpr ''+'' (IntLit 1) (BinExpr ''&&'' (IntLit 1) (IntLit 1))]]"

definition escape_script :: compiled_script where
  "escape_script = script_of
     [(OpGoto, 0, ''__c0''), (OpInt, 1, []), (OpInt, 1, []), (OpJumpIfFalse, 0, ''__c0''), (OpInt, 1, []), (OpGoto, 0, ''__c1''),
      (OpLabel, 0, []), (OpInt, 0, []), (OpLabel, 0, []), (OpAdd, 0, []), (OpFunc, 1, ''mes''), (OpPop, 0, []), (OpEOF, 0, [])]
     [(''__c1'', 8), (''__c0'', 6)]"

lemma compile_escape: "compile_body 0 ''test'' escape = (Inr escape_script, 2)"
  by (simp add: escape_def escape_script_def script_of_def compile_eval fun_eq_iff cong: and_then_weak)

text \<open>
  C3. Type soundness of compiled scripts. Whatever statements a script is made of, whatever the builtins
  and the host answer and however long it runs: if its jumps stay off the label names the compiler
  reserves and no call has more arguments than an \<open>int32\<close> counts, the machine never pops an empty stack
  and never meets an opcode it does not know; its only error is an unknown builtin.
\<close>

theorem scripts_never_underflow:
  assumes "compile_body k name body = (Inr cs, k')" and "list_all user_label (block_jumps body)"
    and "calls_fit (cs_Instructions cs)" and "vm_Run n cs B (NewVM vars h) = Some r"
  shows "r \<noteq> Panicked \<and> (case r of Failed m e \<Rightarrow> m = ''unknown builtin'' | _ \<Rightarrow> True)"
proof -
  obtain P D where ok: "code_ok P (cs_Instructions cs) (cs_Labels cs) D" "D ! 0 = 0"
    using compile_body_ok [OF assms(1,2)] by blast
  have "vm_ok D (cs_Instructions cs) (NewVM vars h)"
    using ok(2) by (simp add: vm_ok_def NewVM_def)
  then have "no_panic D (cs_Instructions cs) r"
    by (rule vm_Run_ok [OF ok(1) assms(3) _ assms(4)])
  then show ?thesis
    by (cases r) simp_all
qed

theorem scripts_never_underflow_witness:
  "case vm_Run 100 countdown_script (DefaultBuiltins log_host) (NewVM Map.empty []) of
     Some r \<Rightarrow> r \<noteq> Panicked \<and> (case r of Failed m e \<Rightarrow> m = ''unknown builtin'' | _ \<Rightarrow> True)
   | None \<Rightarrow> False"
proof -
  have "case vm_Run 100 countdown_script (DefaultBuiltins log_host) (NewVM Map.empty []) of Some r \<Rightarrow> True | None \<Rightarrow> False"
    by code_simp
  then obtain r where r: "vm_Run 100 countdown_script (DefaultBuiltins log_host) (NewVM Map.empty []) = Some r"
    by (auto split: option.splits)
  have "list_all user_label (block_jumps countdown)"
    by code_simp
  moreover have "calls_fit (cs_Instructions countdown_script)"
    by code_simp
  ultimately show ?thesis
    using scripts_never_underflow [OF compile_countdown _ _ r] r by simp
qed

text \<open>
  Remark. The reserved names are not refused in a script: a \<open>goto\<close> to a name of the compiler's own enters the
  middle of an expression, and the machine pops an empty stack.
\<close>

theorem reserved_label_panics:
  "compile_body 0 ''test'' escape = (Inr escape_script, 2) \<and>
   (case vm_Run 20 escape_script (DefaultBuiltins log_host) (NewVM Map.empty []) of Some Panicked \<Rightarrow> True | _ \<Rightarrow> False)"
proof
  show "compile_body 0 ''test'' escape = (Inr escape_script, 2)"
    by (rule compile_escape)
  show "case vm_Run 20 escape_script (DefaultBuiltins log_host) (NewVM Map.empty []) of Some Panicked \<Rightarrow> True | _ \<Rightarrow> False"
    by code_simp
qed

end
