(* ===== verification/ScriptSemantics.thy ===== *)
theory ScriptSemantics
  imports ScriptTyping
begin

text \<open>
  What scripts mean, apart from bytecode: a big-step evaluator on syntax trees (\<open>eval_expr\<close>, \<open>exec_stmt\<close>)
  with the loops, \<open>break\<close>, \<open>continue\<close> and \<open>return\<close> of the language, and the proof that the compiled
  code (\<open>compiler.go\<close>) run by the machine (\<open>vm.go\<close>) does the same.
\<close>

section \<open>The reference evaluator\<close>

datatype ('a, 'h) eval = Val 'a "'h script_env" | Stop "'h script_env" | Fault string "'h script_env"

fun eval_bind :: "('a, 'h) eval \<Rightarrow> ('a \<Rightarrow> 'h script_env \<Rightarrow> ('b, 'h) eval) \<Rightarrow> ('b, 'h) eval" where
  "eval_bind (Val v e) f = f v e"
| "eval_bind (Stop e) f = Stop e"
| "eval_bind (Fault m e) f = Fault m e"

lemma eval_bind_cong [fundef_cong]:
  "r = r' \<Longrightarrow> (\<And>v e. r' = Val v e \<Longrightarrow> f v e = g v e) \<Longrightarrow> eval_bind r f = eval_bind r' g"
  by (cases r') auto

lemma eval_bind_assoc: "eval_bind (eval_bind r f) g = eval_bind r (\<lambda>v e. eval_bind (f v e) g)"
  by (cases r) auto

definition call_value :: "(string \<rightharpoonup> 'h builtin) \<Rightarrow> string \<Rightarrow> script_value list \<Rightarrow> 'h script_env \<Rightarrow> (script_value, 'h) eval" where
  "call_value B f args e =
     (case B f of
        None \<Rightarrow> Fault ''unknown builtin'' e
      | Some g \<Rightarrow> (case g args e of (ret, CtrlEnd, e) \<Rightarrow> Stop e | (ret, CtrlContinue, e) \<Rightarrow> Val ret e))"

definition binary_eval :: "opcode res \<Rightarrow> script_value \<Rightarrow> script_value \<Rightarrow> 'h script_env \<Rightarrow> (script_value, 'h) eval" where
  "binary_eval op a b e =
     (case op of
        Inl _ \<Rightarrow> Fault ''operator'' e
      | Inr code \<Rightarrow> (case binary_value code a b of Some v \<Rightarrow> Val v e | None \<Rightarrow> Fault ''operator'' e))"

definition unary_eval :: "string \<Rightarrow> script_value \<Rightarrow> 'h script_env \<Rightarrow> (script_value, 'h) eval" where
  "unary_eval op a e =
     (if op = ''-'' then Val (IntVal (i64 (- asInt a))) e
      else if op = ''!'' then Val (boolVal (IsZero a)) e
      else if op = ''~'' then Val (IntVal (Bit_Operations.not (asInt a))) e
      else Fault ''operator'' e)"

fun eval_expr :: "(string \<rightharpoonup> 'h builtin) \<Rightarrow> expr \<Rightarrow> 'h script_env \<Rightarrow> (script_value, 'h) eval"
  and eval_exprs :: "(string \<rightharpoonup> 'h builtin) \<Rightarrow> expr list \<Rightarrow> 'h script_env \<Rightarrow> (script_value list, 'h) eval" where
  "eval_expr B (IntLit n) e = Val (IntVal (i32 n)) e"
| "eval_expr B (FloatLit n) e = Val (IntVal (i32 n)) e"
| "eval_expr B (StrLit s) e = Val (StrVal s) e"
| "eval_expr B (IdentExpr x) e = Val (env_GetVar x e) e"
| "eval_expr B (ParenExpr a) e = eval_expr B a e"
| "eval_expr B (UnaryExpr op a) e = eval_bind (eval_expr B a e) (unary_eval op)"
| "eval_expr B (BinExpr op a b) e =
     (if op = ''&&'' then eval_bind (eval_expr B a e) (\<lambda>v e. if IsZero v then Val (IntVal 0) e else eval_expr B b e)
      else if op = ''||'' then eval_bind (eval_expr B a e) (\<lambda>v e. if IsZero v then eval_expr B b e else Val (IntVal 1) e)
      else eval_bind (eval_expr B a e) (\<lambda>v e. eval_bind (eval_expr B b e) (\<lambda>w e. binary_eval (binOp op) v w e)))"
| "eval_expr B (TernaryExpr t a b) e = eval_bind (eval_expr B t e) (\<lambda>v e. if IsZero v then eval_expr B b e else eval_expr B a e)"
| "eval_expr B (CallExpr f args) e = eval_bind (eval_exprs B args e) (call_value B f)"
| "eval_expr B (IndexExpr a i) e =
     eval_bind (eval_expr B a e) (\<lambda>v e. eval_bind (eval_expr B i e) (\<lambda>w e. Val (env_GetVar (element_name v w) e) e))"
| "eval_exprs B [] e = Val [] e"
| "eval_exprs B (a # as) e = eval_bind (eval_expr B a e) (\<lambda>v e. eval_bind (eval_exprs B as e) (\<lambda>vs e. Val (v # vs) e))"

text \<open>How a statement ends: normally, or on the way to the end or the next round of the loop.\<close>

datatype leaving = Normal | Breaking | Continuing

type_synonym 'h exec = "(leaving, 'h) eval option"

fun exec_assign :: "(string \<rightharpoonup> 'h builtin) \<Rightarrow> expr \<Rightarrow> string \<Rightarrow> expr \<Rightarrow> 'h script_env \<Rightarrow> (leaving, 'h) eval" where
  "exec_assign B (IndexExpr a i) op rhs e =
     eval_bind (eval_expr B a e) (\<lambda>v e. eval_bind (eval_expr B i e) (\<lambda>w e. eval_bind (eval_expr B rhs e) (\<lambda>x e.
       if op = ''='' then Val Normal (env_SetVar (element_name v w) x e)
       else eval_bind (binary_eval (compoundOp op) (env_GetVar (element_name v w) e) x e) (\<lambda>y e.
         Val Normal (env_SetVar (element_name v w) y e)))))"
| "exec_assign B (IdentExpr x) op rhs e =
     (if op = ''='' then eval_bind (eval_expr B rhs e) (\<lambda>v e. Val Normal (env_SetVar x v e))
      else let old = env_GetVar x e
           in eval_bind (eval_expr B rhs e) (\<lambda>v e. eval_bind (binary_eval (compoundOp op) old v e) (\<lambda>v e. Val Normal (env_SetVar x v e))))"
| "exec_assign B lhs op rhs e = Fault ''target'' e"

definition exec_call :: "(string \<rightharpoonup> 'h builtin) \<Rightarrow> string \<Rightarrow> expr list \<Rightarrow> 'h script_env \<Rightarrow> (leaving, 'h) eval" where
  "exec_call B f args e =
     (if f = ''set'' then (case args of [x, v] \<Rightarrow> exec_assign B x ''='' v e | _ \<Rightarrow> Fault ''set'' e)
      else if f = ''input'' then
        (case args of
           IdentExpr x # rest \<Rightarrow>
             eval_bind (eval_exprs B rest e) (\<lambda>vs e. eval_bind (call_value B f (StrVal x # vs) e) (\<lambda>_ e. Val Normal e))
         | _ \<Rightarrow> Fault ''input'' e)
      else eval_bind (eval_exprs B args e) (\<lambda>vs e. eval_bind (call_value B f vs e) (\<lambda>_ e. Val Normal e)))"

text \<open>
  \<open>None\<close> is the fuel of the loops running out. A \<open>continue\<close> in a \<open>for\<close> goes on with the post clause, as in
  the languages the syntax is taken from.
\<close>

fun exec_then :: "'h exec \<Rightarrow> ('h script_env \<Rightarrow> 'h exec) \<Rightarrow> 'h exec" where
  "exec_then (Some (Val Normal e)) f = f e"
| "exec_then r f = r"

fun after_body :: "'h exec \<Rightarrow> ('h script_env \<Rightarrow> 'h exec) \<Rightarrow> 'h exec" where
  "after_body (Some (Val Breaking e)) f = Some (Val Normal e)"
| "after_body (Some (Val l e)) f = f e"
| "after_body r f = r"

definition exec_test :: "(string \<rightharpoonup> 'h builtin) \<Rightarrow> expr option \<Rightarrow> 'h script_env \<Rightarrow> (bool, 'h) eval" where
  "exec_test B t e = (case t of None \<Rightarrow> Val True e | Some t \<Rightarrow> eval_bind (eval_expr B t e) (\<lambda>v e. Val (\<not> IsZero v) e))"

fun on_test :: "(bool, 'h) eval \<Rightarrow> ('h script_env \<Rightarrow> 'h exec) \<Rightarrow> ('h script_env \<Rightarrow> 'h exec) \<Rightarrow> 'h exec" where
  "on_test (Val b e) f g = (if b then f e else g e)"
| "on_test (Stop e) f g = Some (Stop e)"
| "on_test (Fault m e) f g = Some (Fault m e)"

lemma exec_then_cong [fundef_cong]: "r = r' \<Longrightarrow> (\<And>e. r' = Some (Val Normal e) \<Longrightarrow> f e = g e) \<Longrightarrow> exec_then r f = exec_then r' g"
  by (cases "(r', f)" rule: exec_then.cases) auto

lemma after_body_cong [fundef_cong]: "r = r' \<Longrightarrow> (\<And>l e. r' = Some (Val l e) \<Longrightarrow> f e = g e) \<Longrightarrow> after_body r f = after_body r' g"
  by (cases "(r', f)" rule: after_body.cases) auto

lemma on_test_cong [fundef_cong]:
  "r = r' \<Longrightarrow> (\<And>e. r' = Val True e \<Longrightarrow> f e = f' e) \<Longrightarrow> (\<And>e. r' = Val False e \<Longrightarrow> g e = g' e) \<Longrightarrow> on_test r f g = on_test r' f' g'"
  by (cases r') auto

function exec_stmt :: "nat \<Rightarrow> (string \<rightharpoonup> 'h builtin) \<Rightarrow> stmt \<Rightarrow> 'h script_env \<Rightarrow> 'h exec"
  and exec_block :: "nat \<Rightarrow> (string \<rightharpoonup> 'h builtin) \<Rightarrow> stmt list \<Rightarrow> 'h script_env \<Rightarrow> 'h exec"
  and exec_while :: "nat \<Rightarrow> (string \<rightharpoonup> 'h builtin) \<Rightarrow> expr option \<Rightarrow> stmt list \<Rightarrow> stmt list \<Rightarrow> 'h script_env \<Rightarrow> 'h exec"
  and exec_do :: "nat \<Rightarrow> (string \<rightharpoonup> 'h builtin) \<Rightarrow> expr \<Rightarrow> stmt list \<Rightarrow> 'h script_env \<Rightarrow> 'h exec" where
  "exec_stmt n B (AssignStmt lhs op rhs) e = Some (exec_assign B lhs op rhs e)"
| "exec_stmt n B (CallStmt f args) e = Some (exec_call B f args e)"
| "exec_stmt n B (IfStmt t a b) e = on_test (exec_test B (Some t) e) (exec_block n B a) (exec_block n B b)"
| "exec_stmt n B (WhileStmt t a) e = exec_while n B (Some t) a [] e"
| "exec_stmt n B (DoWhileStmt a t) e = exec_do n B t a e"
| "exec_stmt n B (ForStmt init t post a) e = exec_then (exec_block n B init e) (exec_while n B t a post)"
| "exec_stmt n B BreakStmt e = Some (Val Breaking e)"
| "exec_stmt n B ContinueStmt e = Some (Val Continuing e)"
| "exec_stmt n B (ReturnStmt v) e = Some (Stop e)"
| "exec_stmt n B (SwitchStmt v cs) e = None"
| "exec_stmt n B (GotoStmt l) e = None"
| "exec_stmt n B (CallSubStmt l args) e = None"
| "exec_stmt n B (LabelDecl l) e = None"
| "exec_block n B [] e = Some (Val Normal e)"
| "exec_block n B (s # ss) e = exec_then (exec_stmt n B s e) (exec_block n B ss)"
| "exec_while 0 B t a post e = None"
| "exec_while (Suc n) B t a post e =
     on_test (exec_test B t e)
       (\<lambda>e. after_body (exec_block n B a e) (\<lambda>e. exec_then (exec_block n B post e) (exec_while n B t a post)))
       (\<lambda>e. Some (Val Normal e))"
| "exec_do 0 B t a e = None"
| "exec_do (Suc n) B t a e =
     after_body (exec_block n B a e) (\<lambda>e. on_test (exec_test B (Some t) e) (exec_do n B t a) (\<lambda>e. Some (Val Normal e)))"
  by pat_completeness auto
termination
  by (relation "measures
      [\<lambda>x. case x of Inl (Inl (n, B, s, e)) \<Rightarrow> n | Inl (Inr (n, B, ss, e)) \<Rightarrow> n | Inr (Inl (n, B, t, a, p, e)) \<Rightarrow> n | Inr (Inr (n, B, t, a, e)) \<Rightarrow> n,
       \<lambda>x. case x of Inl (Inl (n, B, s, e)) \<Rightarrow> size s | Inl (Inr (n, B, ss, e)) \<Rightarrow> size_list size ss | _ \<Rightarrow> 0]") simp_all

section \<open>What compiling leaves alone\<close>

abbreviation pc :: "compiler \<Rightarrow> nat" where
  "pc c \<equiv> length (c_Instructions c)"

text \<open>From \<open>c\<close> to \<open>c'\<close> the code grows at the end, and only fresh labels and those numbered in \<open>M\<close> are bound.\<close>

definition grows :: "nat set \<Rightarrow> compiler \<Rightarrow> compiler \<Rightarrow> bool" where
  "grows M c c' \<longleftrightarrow> (\<exists>ins. c_Instructions c' = c_Instructions c @ ins) \<and> c_label c \<le> c_label c' \<and> c_loops c' = c_loops c \<and>
     (\<forall>l. (\<forall>j. j \<in> M \<or> c_label c \<le> j \<and> j < c_label c' \<longrightarrow> l \<noteq> label_name j) \<longrightarrow> c_Labels c' l = c_Labels c l)"

lemma growsD:
  assumes "grows M c c'"
  shows "\<exists>ins. c_Instructions c' = c_Instructions c @ ins" and "c_label c \<le> c_label c'" and "c_loops c' = c_loops c"
    and "(\<And>j. j \<in> M \<or> c_label c \<le> j \<and> j < c_label c' \<Longrightarrow> l \<noteq> label_name j) \<Longrightarrow> c_Labels c' l = c_Labels c l"
  using assms unfolding grows_def by blast+

lemma grows_label: "grows M c c' \<Longrightarrow> i \<notin> M \<Longrightarrow> i < c_label c \<Longrightarrow> c_Labels c' (label_name i) = c_Labels c (label_name i)"
  by (rule growsD(4)) (auto simp: label_name_inj)

lemma grows_refl: "grows M c c"
  by (simp add: grows_def)

lemma grows_trans [trans]:
  assumes "grows M c c1" and "grows M c1 c'"
  shows "grows M c c'"
proof -
  have "c_Labels c' l = c_Labels c l" if "\<And>j. j \<in> M \<or> c_label c \<le> j \<and> j < c_label c' \<Longrightarrow> l \<noteq> label_name j" for l
    using growsD(4) [OF assms(1), of l] growsD(4) [OF assms(2), of l] that growsD(2) [OF assms(1)] growsD(2) [OF assms(2)]
    by (metis le_trans order.strict_trans2)
  moreover have "\<exists>ins. c_Instructions c' = c_Instructions c @ ins"
    using growsD(1) [OF assms(1)] growsD(1) [OF assms(2)] by auto
  ultimately show ?thesis
    using growsD(2,3) [OF assms(1)] growsD(2,3) [OF assms(2)] unfolding grows_def by auto
qed

lemma grows_emit: "grows M c (emit_ins op n s c)"
  by (simp add: grows_def emit_ins_def)

lemma grows_emitOp: "grows M c (emitOp op c)"
  by (simp add: emitOp_def grows_emit)

lemma grows_mark: "i \<in> M \<Longrightarrow> grows M c (markLabel (label_name i) c)"
  by (auto simp: grows_def markLabel_def emitOp_def emit_ins_def)

lemma grows_mono: "grows M c c' \<Longrightarrow> M \<subseteq> N \<Longrightarrow> grows N c c'"
  unfolding grows_def by blast

lemma grows_fresh:
  assumes "grows (insert (c_label c) M) (snd (freshLabel c)) c'"
  shows "grows M c c'"
proof -
  have c: "c_Instructions (snd (freshLabel c)) = c_Instructions c" "c_Labels (snd (freshLabel c)) = c_Labels c"
      "c_loops (snd (freshLabel c)) = c_loops c"
    by (simp_all add: freshLabel_def)
  have lt: "c_label c < c_label c'"
    using growsD(2) [OF assms] by simp
  have "c_Labels c' l = c_Labels c l" if "\<And>j. j \<in> M \<or> c_label c \<le> j \<and> j < c_label c' \<Longrightarrow> l \<noteq> label_name j" for l
  proof -
    have "c_Labels c' l = c_Labels (snd (freshLabel c)) l"
    proof (rule growsD(4) [OF assms])
      fix j
      assume "j \<in> insert (c_label c) M \<or> c_label (snd (freshLabel c)) \<le> j \<and> j < c_label c'"
      then show "l \<noteq> label_name j"
        using that [of j] lt by auto
    qed
    then show ?thesis
      using c by simp
  qed
  then show ?thesis
    using growsD(1,3) [OF assms] c lt unfolding grows_def by auto
qed

abbreviation fresh :: "compiler \<Rightarrow> compiler" where
  "fresh c \<equiv> snd (freshLabel c)"

lemma grows_fork:
  assumes "\<And>M. grows M c c1" and "\<And>M. grows M (emit_ins op n s (fresh c1)) c3"
    and "\<And>M. grows M (markLabel (label_name (c_label c1)) (emit_ins op' n' s' (fresh c3))) c6"
  shows "grows M c (markLabel (label_name (c_label c3)) c6)"
proof -
  let ?M = "insert (c_label c1) M" let ?N = "insert (c_label c3) ?M"
  have "grows ?N (fresh c3) (emit_ins op' n' s' (fresh c3))"
    by (rule grows_emit)
  also have "grows ?N \<dots> (markLabel (label_name (c_label c1)) (emit_ins op' n' s' (fresh c3)))"
    by (rule grows_mark) simp
  also have "grows ?N \<dots> c6"
    by (rule assms(3))
  also have "grows ?N c6 (markLabel (label_name (c_label c3)) c6)"
    by (rule grows_mark) simp
  finally have "grows ?M c3 (markLabel (label_name (c_label c3)) c6)"
    by (rule grows_fresh)
  with grows_trans [OF grows_emit assms(2)] have "grows ?M (fresh c1) (markLabel (label_name (c_label c3)) c6)"
    by (rule grows_trans)
  then have "grows M c1 (markLabel (label_name (c_label c3)) c6)"
    by (rule grows_fresh)
  with assms(1) show ?thesis
    by (rule grows_trans)
qed

lemma compileExprs_grows:
  assumes "\<And>e M c c'. e \<in> set es \<Longrightarrow> compileExpr e c = (Inr (), c') \<Longrightarrow> grows M c c'"
  shows "compileExprs es c = (Inr (), c') \<Longrightarrow> grows M c c'"
  using assms
proof (induction es arbitrary: c)
  case Nil
  then show ?case
    by (simp add: okc_def grows_refl)
next
  case (Cons e es)
  then obtain c1 where c1: "compileExpr e c = (Inr (), c1)" "compileExprs es c1 = (Inr (), c')"
    by (auto simp: compile_simps)
  have "grows M c c1"
    using Cons.prems(2) [OF _ c1(1)] by simp
  also have "grows M c1 c'"
    by (rule Cons.IH [OF c1(2)]) (use Cons.prems(2) in auto)
  finally show ?case .
qed

lemma compileExpr_grows: "compileExpr e c = (Inr (), c') \<Longrightarrow> grows M c c'"
proof (induction e arbitrary: M c c')
  case (BinExpr op a b)
  show ?case
  proof (cases "shortcut op")
    case None
    then obtain c1 c2 code where c: "compileExpr a c = (Inr (), c1)" "compileExpr b c1 = (Inr (), c2)" "c' = emitOp code c2"
      using BinExpr.prems by (auto simp: compile_simps)
    show ?thesis
      using BinExpr.IH(1) [OF c(1)] BinExpr.IH(2) [OF c(2)] grows_emitOp c(3) grows_trans by metis
  next
    case (Some jk)
    let ?n = "\<lambda>c. label_name (c_label c)"
    obtain jmp k where "jk = (jmp, k)"
      by (cases jk)
    then obtain c1 c3 where c: "compileExpr a c = (Inr (), c1)"
        "compileExpr b (emit_ins jmp 0 (?n c1) (snd (freshLabel c1))) = (Inr (), c3)"
        "c' = markLabel (?n c3) (emit_ins OpInt k [] (markLabel (?n c1) (emit_ins OpGoto 0 (?n c3) (snd (freshLabel c3)))))"
      using BinExpr.prems Some by (auto simp: compile_simps emitJump_eq)
    let ?M = "insert (c_label c1) M" let ?N = "insert (c_label c3) ?M"
    have "grows ?N (snd (freshLabel c3)) (emit_ins OpGoto 0 (?n c3) (snd (freshLabel c3)))"
      by (rule grows_emit)
    also have "grows ?N \<dots> (markLabel (?n c1) (emit_ins OpGoto 0 (?n c3) (snd (freshLabel c3))))"
      by (rule grows_mark) simp
    also have "grows ?N \<dots> (emit_ins OpInt k [] (markLabel (?n c1) (emit_ins OpGoto 0 (?n c3) (snd (freshLabel c3)))))"
      by (rule grows_emit)
    also have "grows ?N \<dots> c'"
      unfolding c(3) by (rule grows_mark) simp
    finally have "grows ?M c3 c'"
      by (rule grows_fresh)
    with grows_trans [OF grows_emit BinExpr.IH(2) [OF c(2)]] have "grows ?M (snd (freshLabel c1)) c'"
      by (rule grows_trans)
    then have "grows M c1 c'"
      by (rule grows_fresh)
    with BinExpr.IH(1) [OF c(1)] show ?thesis
      by (rule grows_trans)
  qed
next
  case (TernaryExpr e a b)
  let ?n = "\<lambda>c. label_name (c_label c)"
  obtain c1 c3 c4 where c: "compileExpr e c = (Inr (), c1)"
      "compileExpr a (emit_ins OpJumpIfFalse 0 (?n c1) (snd (freshLabel c1))) = (Inr (), c3)"
      "compileExpr b (markLabel (?n c1) (emit_ins OpGoto 0 (?n c3) (snd (freshLabel c3)))) = (Inr (), c4)"
      "c' = markLabel (?n c3) c4"
    using TernaryExpr.prems by (auto simp: compile_simps emitJump_eq)
  show ?case
    unfolding c(4) by (rule grows_fork [OF TernaryExpr.IH(1) [OF c(1)] TernaryExpr.IH(2) [OF c(2)] TernaryExpr.IH(3) [OF c(3)]])
next
  case (CallExpr f args)
  then obtain c1 where c1: "compileExprs args c = (Inr (), c1)" "c' = emit_ins OpFunc (i32 (int (length args))) f c1"
    by (auto simp: compile_simps)
  have "grows M c c1"
    by (rule compileExprs_grows [OF CallExpr.IH c1(1)])
  also have "grows M c1 c'"
    unfolding c1(2) by (rule grows_emit)
  finally show ?case .
next
  case (UnaryExpr op e)
  then show ?case
    using grows_emitOp grows_trans by (fastforce simp: compile_simps)
next
  case (IndexExpr a b)
  then obtain c1 c2 where "compileExpr a c = (Inr (), c1)" "compileExpr b c1 = (Inr (), c2)" "c' = emitOp OpIndexGet c2"
    by (auto simp: compile_simps)
  then show ?case
    using IndexExpr.IH grows_emitOp grows_trans by metis
qed (auto simp: compile_simps grows_emit)

lemma compileExprs_grows': "compileExprs es c = (Inr (), c') \<Longrightarrow> grows M c c'"
  using compileExprs_grows compileExpr_grows by blast

section \<open>Running the code of an expression\<close>

abbreviation vm_at :: "nat \<Rightarrow> script_value list \<Rightarrow> 'h script_env \<Rightarrow> 'h vm" where
  "vm_at p st e \<equiv> \<lparr>vm_ip = p, vm_stack = st, vm_callstack = [], vm_env = e\<rparr>"

definition reaches :: "compiled_script \<Rightarrow> (string \<rightharpoonup> 'h builtin) \<Rightarrow> 'h vm \<Rightarrow> 'h vm \<Rightarrow> bool" where
  "reaches cs B = (\<lambda>v w. vm_step cs B v = Running w)\<^sup>*\<^sup>*"

definition fetch :: "compiled_script \<Rightarrow> nat \<Rightarrow> instruction \<Rightarrow> bool" where
  "fetch cs p ins \<longleftrightarrow> p < length (cs_Instructions cs) \<and> cs_Instructions cs ! p = ins"

text \<open>The script starts with the code compiled so far.\<close>

definition starts_with :: "compiled_script \<Rightarrow> compiler \<Rightarrow> bool" where
  "starts_with cs c \<longleftrightarrow> (\<exists>rest. cs_Instructions cs = c_Instructions c @ rest)"

text \<open>The script has the labels bound between \<open>c\<close> and \<open>c'\<close>.\<close>

definition labels_of :: "compiled_script \<Rightarrow> compiler \<Rightarrow> compiler \<Rightarrow> bool" where
  "labels_of cs c c' \<longleftrightarrow> (\<forall>j. c_label c \<le> j \<longrightarrow> j < c_label c' \<longrightarrow> cs_Labels cs (label_name j) = c_Labels c' (label_name j))"

lemma starts_with_grows: "grows M c c' \<Longrightarrow> starts_with cs c' \<Longrightarrow> starts_with cs c"
  using growsD(1) unfolding starts_with_def by fastforce

lemma labels_of_grows:
  assumes "labels_of cs c c'" and "grows M c2 c'" and "c_label c \<le> c_label c1" and "\<And>j. j \<in> M \<Longrightarrow> j < c_label c1"
  shows "labels_of cs c1 c2"
proof -
  have "cs_Labels cs (label_name j) = c_Labels c2 (label_name j)" if "c_label c1 \<le> j" "j < c_label c2" for j
  proof -
    have "j \<notin> M"
      using assms(4) that(1) by force
    then have "c_Labels c' (label_name j) = c_Labels c2 (label_name j)"
      using grows_label [OF assms(2)] that(2) by simp
    moreover have "cs_Labels cs (label_name j) = c_Labels c' (label_name j)"
      using assms(1,3) that growsD(2) [OF assms(2)] by (simp add: labels_of_def)
    ultimately show ?thesis
      by simp
  qed
  then show ?thesis
    by (simp add: labels_of_def)
qed

lemma labels_ofD: "labels_of cs c c' \<Longrightarrow> c_label c \<le> j \<Longrightarrow> j < c_label c' \<Longrightarrow> cs_Labels cs (label_name j) = c_Labels c' (label_name j)"
  by (simp add: labels_of_def)

lemma fetch_emit: "starts_with cs (emit_ins op n s c) \<Longrightarrow> fetch cs (pc c) \<lparr>in_Op = op, in_Operand = n, in_Str = s\<rparr>"
  by (auto simp: starts_with_def fetch_def emit_ins_def nth_append)

lemma pc_emit [simp]: "pc (emit_ins op n s c) = Suc (pc c)"
  by (simp add: emit_ins_def)

lemma fetch_mark: "starts_with cs (markLabel l c) \<Longrightarrow> fetch cs (pc c) \<lparr>in_Op = OpLabel, in_Operand = 0, in_Str = []\<rparr>"
  by (auto simp: starts_with_def fetch_def markLabel_def emitOp_def emit_ins_def nth_append)

lemma pc_simps [simp]: "pc (markLabel l c) = Suc (pc c)" "pc (emitOp op c) = Suc (pc c)" "pc (snd (freshLabel c)) = pc c"
  "pc (pushLoop a b c) = pc c" "pc (popLoop c) = pc c"
  by (simp_all add: markLabel_def emitOp_def emit_ins_def freshLabel_def pushLoop_def popLoop_def)

lemma c_Labels_simps [simp]:
  "c_Labels (markLabel l c) = (c_Labels c)(l \<mapsto> pc c)" "c_Labels (emit_ins op n s c) = c_Labels c" "c_Labels (snd (freshLabel c)) = c_Labels c"
  "c_Labels (pushLoop a b c) = c_Labels c" "c_Labels (popLoop c) = c_Labels c" "c_Labels (emitOp op c) = c_Labels c"
  by (simp_all add: markLabel_def emitOp_def emit_ins_def freshLabel_def pushLoop_def popLoop_def)

lemma c_label_simps [simp]:
  "c_label (markLabel l c) = c_label c" "c_label (emitOp op c) = c_label c" "c_label (pushLoop a b c) = c_label c"
  "c_label (popLoop c) = c_label c"
  by (simp_all add: markLabel_def emitOp_def emit_ins_def pushLoop_def popLoop_def)

lemma fetch_step: "fetch cs (vm_ip vm) ins \<Longrightarrow> vm_step cs B vm = vm_exec (cs_Instructions cs) (cs_Labels cs) B ins vm"
  by (simp add: fetch_def vm_step_def)

lemma reaches_refl: "reaches cs B v v"
  by (simp add: reaches_def)

lemma reaches_trans [trans]: "reaches cs B u v \<Longrightarrow> reaches cs B v w \<Longrightarrow> reaches cs B u w"
  unfolding reaches_def by (rule rtranclp_trans)

lemma reaches_step: "vm_step cs B v = Running w \<Longrightarrow> reaches cs B v w"
  unfolding reaches_def by (rule r_into_rtranclp)

text \<open>The machine carries out a result of the evaluator, ending a value in a machine that satisfies \<open>K\<close>.\<close>

definition carries :: "compiled_script \<Rightarrow> (string \<rightharpoonup> 'h builtin) \<Rightarrow> 'h vm \<Rightarrow> ('a, 'h) eval \<Rightarrow> ('a \<Rightarrow> 'h script_env \<Rightarrow> 'h vm \<Rightarrow> bool) \<Rightarrow> bool" where
  "carries cs B vm r K \<longleftrightarrow>
     (case r of
        Val v e \<Rightarrow> \<exists>w. reaches cs B vm w \<and> K v e w
      | Stop e \<Rightarrow> \<exists>w. reaches cs B vm w \<and> vm_step cs B w = Halted e
      | Fault m e \<Rightarrow> \<exists>w. reaches cs B vm w \<and> vm_step cs B w = Failed m e)"

lemma carries_first: "reaches cs B vm vm' \<Longrightarrow> carries cs B vm' r K \<Longrightarrow> carries cs B vm r K"
  unfolding carries_def by (cases r) (auto intro: reaches_trans)

lemma carries_bind:
  assumes "carries cs B vm r K" and "\<And>v e w. r = Val v e \<Longrightarrow> K v e w \<Longrightarrow> carries cs B w (f v e) K'"
  shows "carries cs B vm (eval_bind r f) K'"
proof (cases r)
  case (Val v e)
  then obtain w where "reaches cs B vm w" "K v e w"
    using assms(1) by (auto simp: carries_def)
  then show ?thesis
    using carries_first [OF _ assms(2) [OF Val]] Val by simp
qed (use assms(1) in \<open>simp_all add: carries_def\<close>)

lemma carries_eq:
  assumes "r' = eval_bind r f" and "carries cs B vm r K" and "\<And>v e w. K v e w \<Longrightarrow> carries cs B w (f v e) K'"
  shows "carries cs B vm r' K'"
  unfolding assms(1) by (rule carries_bind [OF assms(2)]) (rule assms(3))

lemma carries_mono: "carries cs B vm r K \<Longrightarrow> (\<And>v e w. r = Val v e \<Longrightarrow> K v e w \<Longrightarrow> K' v e w) \<Longrightarrow> carries cs B vm r K'"
  by (cases r) (auto simp: carries_def)

lemma carries_Val: "reaches cs B vm w \<Longrightarrow> K v e w \<Longrightarrow> carries cs B vm (Val v e) K"
  by (auto simp: carries_def)

abbreviation leaves :: "nat \<Rightarrow> script_value list \<Rightarrow> script_value \<Rightarrow> 'h script_env \<Rightarrow> 'h vm \<Rightarrow> bool" where
  "leaves p st v e w \<equiv> w = vm_at p (v # st) e"

text \<open>One instruction.\<close>

lemma run_push:
  "fetch cs p \<lparr>in_Op = OpInt, in_Operand = n, in_Str = s\<rparr> \<Longrightarrow> reaches cs B (vm_at p st e) (vm_at (Suc p) (IntVal n # st) e)"
  "fetch cs p \<lparr>in_Op = OpStr, in_Operand = n, in_Str = s\<rparr> \<Longrightarrow> reaches cs B (vm_at p st e) (vm_at (Suc p) (StrVal s # st) e)"
  "fetch cs p \<lparr>in_Op = OpVar, in_Operand = n, in_Str = s\<rparr> \<Longrightarrow> reaches cs B (vm_at p st e) (vm_at (Suc p) (env_GetVar s e # st) e)"
  "fetch cs p \<lparr>in_Op = OpLabel, in_Operand = n, in_Str = s\<rparr> \<Longrightarrow> reaches cs B (vm_at p st e) (vm_at (Suc p) st e)"
  "fetch cs p \<lparr>in_Op = OpPop, in_Operand = n, in_Str = s\<rparr> \<Longrightarrow> reaches cs B (vm_at p (v # st) e) (vm_at (Suc p) st e)"
  "fetch cs p \<lparr>in_Op = OpAssign, in_Operand = n, in_Str = s\<rparr> \<Longrightarrow> reaches cs B (vm_at p (v # st) e) (vm_at (Suc p) st (env_SetVar s v e))"
  "fetch cs p \<lparr>in_Op = OpIndexGet, in_Operand = n, in_Str = s\<rparr> \<Longrightarrow>
     reaches cs B (vm_at p (i # nm # st) e) (vm_at (Suc p) (env_GetVar (element_name nm i) e # st) e)"
  "fetch cs p \<lparr>in_Op = OpIndexSet, in_Operand = n, in_Str = s\<rparr> \<Longrightarrow>
     reaches cs B (vm_at p (v # i # nm # st) e) (vm_at (Suc p) st (env_SetVar (element_name nm i) v e))"
  by (intro reaches_step, simp add: fetch_step vm_exec_ops fall_def pop1_def pop2_def)+

lemma run_jump:
  "fetch cs p \<lparr>in_Op = OpGoto, in_Operand = n, in_Str = l\<rparr> \<Longrightarrow> cs_Labels cs l = Some q \<Longrightarrow> reaches cs B (vm_at p st e) (vm_at q st e)"
  "fetch cs p \<lparr>in_Op = OpJumpIfFalse, in_Operand = n, in_Str = l\<rparr> \<Longrightarrow> cs_Labels cs l = Some q \<Longrightarrow>
     reaches cs B (vm_at p (v # st) e) (vm_at (if IsZero v then q else Suc p) st e)"
  "fetch cs p \<lparr>in_Op = OpJumpIfTrue, in_Operand = n, in_Str = l\<rparr> \<Longrightarrow> cs_Labels cs l = Some q \<Longrightarrow>
     reaches cs B (vm_at p (v # st) e) (vm_at (if IsZero v then Suc p else q) st e)"
  by (intro reaches_step, simp add: fetch_step vm_exec_ops fall_def pop1_def jump_def)+

lemma run_unary:
  assumes "fetch cs p \<lparr>in_Op = code, in_Operand = n, in_Str = s\<rparr>" and "unaryOp op = Inr code"
  shows "carries cs B (vm_at p (v # st) e) (unary_eval op v e) (leaves (Suc p) st)"
proof -
  from assms(2) consider "op = ''-''" "code = OpNeg" | "op = ''!''" "code = OpNot" | "op = ''~''" "code = OpBNot"
    by (auto simp: unaryOp_def split: if_splits)
  then show ?thesis
    using assms(1)
    by cases (auto intro!: carries_Val reaches_step simp: unary_eval_def fetch_step vm_exec_ops fall_def pop1_def)
qed

lemma run_binary:
  assumes "fetch cs p \<lparr>in_Op = code, in_Operand = n, in_Str = s\<rparr>" and "op = Inr code" and "code \<in> set binary_ops"
  shows "carries cs B (vm_at p (w # v # st) e) (binary_eval op v w e) (leaves (Suc p) st)"
proof -
  obtain x where x: "binary_value code v w = Some x"
    using binary_value_Some [OF assms(3)] by blast
  have "vm_step cs B (vm_at p (w # v # st) e) = Running (vm_at (Suc p) (x # st) e)"
    using assms(1,3) x by (simp add: fetch_step vm_exec_binary fall_def pop2_def)
  then show ?thesis
    using x assms(2) by (auto simp: binary_eval_def intro!: carries_Val reaches_step)
qed

lemma run_call:
  assumes "fetch cs p \<lparr>in_Op = OpFunc, in_Operand = int (length vs), in_Str = f\<rparr>"
  shows "carries cs B (vm_at p (rev vs @ st) e) (call_value B f vs e) (leaves (Suc p) st)"
proof -
  let ?vm = "vm_at p (rev vs @ st) e"
  have step: "vm_step cs B ?vm =
      (case B f of None \<Rightarrow> Failed ''unknown builtin'' e
       | Some g \<Rightarrow> (case g vs e of (ret, CtrlEnd, e) \<Rightarrow> Halted e | (ret, CtrlContinue, e) \<Rightarrow> Running (vm_at (Suc p) (ret # st) e)))"
    using assms by (auto simp: fetch_step vm_exec_ops call_builtin_def fall_def split: option.split prod.split control.split)
  show ?thesis
  proof (cases "B f")
    case None
    then show ?thesis
      using step by (auto simp: call_value_def carries_def intro!: exI [of _ ?vm] reaches_refl)
  next
    case (Some g)
    obtain ret k e' where g: "g vs e = (ret, k, e')"
      by (cases "g vs e")
    show ?thesis
    proof (cases k)
      case CtrlContinue
      then show ?thesis
        using step Some g by (auto simp: call_value_def intro!: carries_Val reaches_step)
    next
      case CtrlEnd
      then show ?thesis
        using step Some g by (auto simp: call_value_def carries_def intro!: exI [of _ ?vm] reaches_refl)
    qed
  qed
qed

lemma carries_last:
  assumes "carries cs B vm r K" and "\<And>v e w. K v e w \<Longrightarrow> \<exists>w'. reaches cs B w w' \<and> K' v e w'"
  shows "carries cs B vm r K'"
  using assms unfolding carries_def by (cases r) (auto intro: reaches_trans, meson reaches_trans)

lemma starts_with_back:
  "starts_with cs (emit_ins op n s c) \<Longrightarrow> starts_with cs c" "starts_with cs (markLabel l c) \<Longrightarrow> starts_with cs c"
  "starts_with cs (snd (freshLabel c)) \<longleftrightarrow> starts_with cs c" "starts_with cs (pushLoop a b c) \<longleftrightarrow> starts_with cs c"
  "starts_with cs (popLoop c) \<longleftrightarrow> starts_with cs c" "starts_with cs (emitOp op c) \<Longrightarrow> starts_with cs c"
  by (auto simp: starts_with_def emit_ins_def markLabel_def emitOp_def freshLabel_def pushLoop_def popLoop_def)

text \<open>Calls with fewer arguments than an \<open>int32\<close> counts.\<close>

fun small_calls :: "expr \<Rightarrow> bool" and small_exprs :: "expr list \<Rightarrow> bool" where
  "small_calls (UnaryExpr op a) \<longleftrightarrow> small_calls a"
| "small_calls (BinExpr op a b) \<longleftrightarrow> small_calls a \<and> small_calls b"
| "small_calls (TernaryExpr t a b) \<longleftrightarrow> small_calls t \<and> small_calls a \<and> small_calls b"
| "small_calls (CallExpr f args) \<longleftrightarrow> length args < 2 ^ 31 \<and> small_exprs args"
| "small_calls (IndexExpr a i) \<longleftrightarrow> small_calls a \<and> small_calls i"
| "small_calls (ParenExpr a) \<longleftrightarrow> small_calls a"
| "small_calls (IntLit n) \<longleftrightarrow> True"
| "small_calls (FloatLit n) \<longleftrightarrow> True"
| "small_calls (StrLit s) \<longleftrightarrow> True"
| "small_calls (IdentExpr x) \<longleftrightarrow> True"
| "small_exprs [] \<longleftrightarrow> True"
| "small_exprs (e # es) \<longleftrightarrow> small_calls e \<and> small_exprs es"

lemma small_exprs_iff: "small_exprs es \<longleftrightarrow> (\<forall>e\<in>set es. small_calls e)"
  by (induction es) auto

lemma i32_small: "n < 2 ^ 31 \<Longrightarrow> i32 (int n) = int n"
  by (rule i32_id) (simp add: in_i32_def)

definition expr_ok :: "compiled_script \<Rightarrow> (string \<rightharpoonup> 'h builtin) \<Rightarrow> expr \<Rightarrow> bool" where
  "expr_ok cs B x \<longleftrightarrow>
     (\<forall>c c' st e. compileExpr x c = (Inr (), c') \<longrightarrow> small_calls x \<longrightarrow> starts_with cs c' \<longrightarrow> labels_of cs c c' \<longrightarrow>
        carries cs B (vm_at (pc c) st e) (eval_expr B x e) (leaves (pc c') st))"

lemma expr_okD:
  "expr_ok cs B x \<Longrightarrow> compileExpr x c = (Inr (), c') \<Longrightarrow> small_calls x \<Longrightarrow> starts_with cs c' \<Longrightarrow> labels_of cs c c' \<Longrightarrow>
     carries cs B (vm_at (pc c) st e) (eval_expr B x e) (leaves (pc c') st)"
  by (simp add: expr_ok_def)

lemma run_exprs:
  assumes "\<And>x. x \<in> set es \<Longrightarrow> expr_ok cs B x"
  shows "compileExprs es c = (Inr (), c') \<Longrightarrow> small_exprs es \<Longrightarrow> starts_with cs c' \<Longrightarrow> labels_of cs c c' \<Longrightarrow>
    carries cs B (vm_at (pc c) st e) (eval_exprs B es e) (\<lambda>vs e w. w = vm_at (pc c') (rev vs @ st) e \<and> length vs = length es)"
  using assms
proof (induction es arbitrary: c st e)
  case Nil
  then show ?case
    by (auto simp: okc_def intro!: carries_Val reaches_refl)
next
  case (Cons x es)
  obtain c1 where c1: "compileExpr x c = (Inr (), c1)" "compileExprs es c1 = (Inr (), c')"
    using Cons.prems(1) by (auto simp: compile_simps)
  note g = compileExpr_grows [OF c1(1), of "{}"] compileExprs_grows' [OF c1(2), of "{}"]
  have l1: "labels_of cs c c1"
    by (rule labels_of_grows [OF Cons.prems(4) g(2)]) simp_all
  have l2: "labels_of cs c1 c'"
    by (rule labels_of_grows [OF Cons.prems(4) grows_refl [of "{}"]]) (use growsD(2) [OF g(1)] in simp_all)
  have x: "carries cs B (vm_at (pc c) st e) (eval_expr B x e) (leaves (pc c1) st)"
    using Cons.prems(2,5) by (intro expr_okD [OF _ c1(1) _ starts_with_grows [OF g(2) Cons.prems(3)] l1]) simp_all
  have xs: "carries cs B (vm_at (pc c1) (v # st) e') (eval_exprs B es e') (\<lambda>vs e w. w = vm_at (pc c') (rev vs @ v # st) e \<and> length vs = length es)" for v e'
    using Cons.IH [OF c1(2) _ Cons.prems(3) l2] Cons.prems(2,5) by simp
  have "carries cs B (vm_at (pc c1) (v # st) e') (eval_bind (eval_exprs B es e') (\<lambda>vs e. Val (v # vs) e))
      (\<lambda>vs e w. w = vm_at (pc c') (rev vs @ st) e \<and> length vs = length (x # es))" for v e'
    by (rule carries_bind [OF xs]) (auto intro!: carries_Val reaches_refl)
  then show ?case
    by (intro carries_eq [OF eval_exprs.simps(2) x]) simp
qed

lemma expr_ok_binary:
  assumes "expr_ok cs B a" and "expr_ok cs B b" and "shortcut op = None"
  shows "expr_ok cs B (BinExpr op a b)"
  unfolding expr_ok_def
proof (intro allI impI)
  fix c c' st e
  assume p: "compileExpr (BinExpr op a b) c = (Inr (), c')" "small_calls (BinExpr op a b)" "starts_with cs c'" "labels_of cs c c'"
  obtain c1 c2 code where c: "compileExpr a c = (Inr (), c1)" "compileExpr b c1 = (Inr (), c2)"
      "binOp op = Inr code" "c' = emitOp code c2"
    using p(1) assms(3) by (auto simp: compile_simps)
  note g = compileExpr_grows [OF c(1), of "{}"] compileExpr_grows [OF c(2), of "{}"] grows_emitOp [of "{}" c2 code]
  have s2: "starts_with cs c2"
    using p(3) unfolding c(4) by (rule starts_with_back)
  have l1: "labels_of cs c c1"
    by (rule labels_of_grows [OF p(4) grows_trans [OF g(2), of c']]) (use g(3) c(4) in simp_all)
  have l2: "labels_of cs c1 c2"
    by (rule labels_of_grows [OF p(4), of "{}"]) (use g(3) c(4) growsD(2) [OF g(1)] in simp_all)
  have ra: "carries cs B (vm_at (pc c) st e) (eval_expr B a e) (leaves (pc c1) st)"
    using p(2) by (intro expr_okD [OF assms(1) c(1) _ starts_with_grows [OF g(2) s2] l1]) simp
  have rb: "carries cs B (vm_at (pc c1) (v # st) e') (eval_expr B b e') (leaves (pc c2) (v # st))" for v e'
    using p(2) by (intro expr_okD [OF assms(2) c(2) _ s2 l2]) simp
  have "fetch cs (pc c2) \<lparr>in_Op = code, in_Operand = 0, in_Str = []\<rparr>"
    using p(3) fetch_emit unfolding c(4) emitOp_def by blast
  then have op: "carries cs B (vm_at (pc c2) (w # v # st) e') (binary_eval (binOp op) v w e') (leaves (pc c') st)" for v w e'
    using run_binary [OF _ c(3) binOp_ops [OF c(3)]] c(4) by simp
  have "carries cs B (vm_at (pc c1) (v # st) e') (eval_bind (eval_expr B b e') (\<lambda>w e. binary_eval (binOp op) v w e)) (leaves (pc c') st)" for v e'
    by (rule carries_bind [OF rb]) (simp add: op)
  moreover have "eval_expr B (BinExpr op a b) e =
      eval_bind (eval_expr B a e) (\<lambda>v e. eval_bind (eval_expr B b e) (\<lambda>w e. binary_eval (binOp op) v w e))"
    using assms(3) by (simp add: shortcut_def split: if_splits)
  ultimately show "carries cs B (vm_at (pc c) st e) (eval_expr B (BinExpr op a b) e) (leaves (pc c') st)"
    by (intro carries_eq [OF _ ra]) simp_all
qed


text \<open>The script holds the code compiled between two states, at its place and with its labels.\<close>

definition loaded :: "compiled_script \<Rightarrow> compiler \<Rightarrow> compiler \<Rightarrow> bool" where
  "loaded cs c c' \<longleftrightarrow> starts_with cs c' \<and> labels_of cs c c'"

lemma loaded_first:
  assumes "loaded cs c c'" and "grows M c1 c'" and "\<And>j. j \<in> M \<Longrightarrow> j < c_label c \<or> c_label c1 \<le> j"
  shows "loaded cs c c1"
proof -
  have "cs_Labels cs (label_name j) = c_Labels c1 (label_name j)" if "c_label c \<le> j" "j < c_label c1" for j
    using labels_ofD [of cs c c' j] grows_label [OF assms(2), of j] growsD(2) [OF assms(2)] assms(1,3) that
    by (fastforce simp: loaded_def)
  then show ?thesis
    using starts_with_grows [OF assms(2)] assms(1) by (simp add: loaded_def labels_of_def)
qed

lemma loaded_second: "loaded cs c c' \<Longrightarrow> grows M c c1 \<Longrightarrow> loaded cs c1 c'"
  using growsD(2) unfolding loaded_def labels_of_def by fastforce

lemma loaded_label:
  assumes "loaded cs c c'" and "grows M c1 c'" and "c_label c \<le> j" and "j < c_label c1" and "j \<notin> M"
  shows "cs_Labels cs (label_name j) = c_Labels c1 (label_name j)"
  using labels_ofD [of cs c c' j] assms(1,3,4) growsD(2) [OF assms(2)] grows_label [OF assms(2,5,4)] by (simp add: loaded_def)

lemma loaded_fetch: "loaded cs c c' \<Longrightarrow> grows M (emit_ins op n s c1) c' \<Longrightarrow> fetch cs (pc c1) \<lparr>in_Op = op, in_Operand = n, in_Str = s\<rparr>"
  using fetch_emit starts_with_grows unfolding loaded_def by blast

lemma loaded_fetchOp: "loaded cs c c' \<Longrightarrow> grows M (emitOp op c1) c' \<Longrightarrow> fetch cs (pc c1) \<lparr>in_Op = op, in_Operand = 0, in_Str = []\<rparr>"
  unfolding emitOp_def by (rule loaded_fetch)

lemma loaded_mark: "loaded cs c c' \<Longrightarrow> grows M (markLabel l c1) c' \<Longrightarrow> fetch cs (pc c1) \<lparr>in_Op = OpLabel, in_Operand = 0, in_Str = []\<rparr>"
  using fetch_mark starts_with_grows unfolding loaded_def by blast

lemma expr_ok_iff:
  "expr_ok cs B x \<longleftrightarrow>
     (\<forall>c c' st e. compileExpr x c = (Inr (), c') \<longrightarrow> small_calls x \<longrightarrow> loaded cs c c' \<longrightarrow>
        carries cs B (vm_at (pc c) st e) (eval_expr B x e) (leaves (pc c') st))"
  by (auto simp: expr_ok_def loaded_def)

lemma expr_okL:
  "expr_ok cs B x \<Longrightarrow> compileExpr x c = (Inr (), c') \<Longrightarrow> small_calls x \<Longrightarrow> loaded cs c c' \<Longrightarrow>
     carries cs B (vm_at (pc c) st e) (eval_expr B x e) (leaves (pc c') st)"
  by (simp add: expr_ok_iff)

lemma expr_ok_literal: "expr_ok cs B (IntLit n)" "expr_ok cs B (FloatLit n)" "expr_ok cs B (StrLit s)" "expr_ok cs B (IdentExpr x)"
  unfolding expr_ok_iff
  by (auto simp: compile_simps intro!: carries_Val dest: loaded_fetch [OF _ grows_refl] intro: run_push)

lemma expr_ok_paren: "expr_ok cs B a \<Longrightarrow> expr_ok cs B (ParenExpr a)"
  by (simp add: expr_ok_def)

lemma expr_ok_unary:
  assumes "expr_ok cs B a"
  shows "expr_ok cs B (UnaryExpr op a)"
  unfolding expr_ok_iff
proof (intro allI impI)
  fix c c' st e
  assume p: "compileExpr (UnaryExpr op a) c = (Inr (), c')" "small_calls (UnaryExpr op a)" "loaded cs c c'"
  obtain c1 code where c: "compileExpr a c = (Inr (), c1)" "unaryOp op = Inr code" "c' = emitOp code c1"
    using p(1) by (auto simp: compile_simps)
  have ra: "carries cs B (vm_at (pc c) st e) (eval_expr B a e) (leaves (pc c1) st)"
    using p(2) by (intro expr_okL [OF assms c(1) _ loaded_first [OF p(3), of "{}"]]) (simp_all add: c(3) grows_emitOp)
  have "fetch cs (pc c1) \<lparr>in_Op = code, in_Operand = 0, in_Str = []\<rparr>"
    using loaded_fetch [OF p(3), of "{}"] grows_refl unfolding c(3) emitOp_def by blast
  from run_unary [OF this c(2)] show "carries cs B (vm_at (pc c) st e) (eval_expr B (UnaryExpr op a) e) (leaves (pc c') st)"
    by (intro carries_eq [OF eval_expr.simps(6) ra]) (simp add: c(3))
qed

lemma expr_ok_index:
  assumes "expr_ok cs B a" and "expr_ok cs B i"
  shows "expr_ok cs B (IndexExpr a i)"
  unfolding expr_ok_iff
proof (intro allI impI)
  fix c c' st e
  assume p: "compileExpr (IndexExpr a i) c = (Inr (), c')" "small_calls (IndexExpr a i)" "loaded cs c c'"
  obtain c1 c2 where c: "compileExpr a c = (Inr (), c1)" "compileExpr i c1 = (Inr (), c2)" "c' = emitOp OpIndexGet c2"
    using p(1) by (auto simp: compile_simps)
  note g = compileExpr_grows [OF c(1), of "{}"] compileExpr_grows [OF c(2), of "{}"]
  have l: "loaded cs c c2"
    by (rule loaded_first [OF p(3), of "{}"]) (simp_all add: c(3) grows_emitOp)
  have ra: "carries cs B (vm_at (pc c) st e) (eval_expr B a e) (leaves (pc c1) st)"
    using p(2) by (intro expr_okL [OF assms(1) c(1) _ loaded_first [OF l g(2)]]) simp_all
  have ri: "carries cs B (vm_at (pc c1) (v # st) e') (eval_expr B i e') (leaves (pc c2) (v # st))" for v e'
    using p(2) by (intro expr_okL [OF assms(2) c(2) _ loaded_second [OF l g(1)]]) simp
  have "fetch cs (pc c2) \<lparr>in_Op = OpIndexGet, in_Operand = 0, in_Str = []\<rparr>"
    using loaded_fetch [OF p(3), of "{}"] grows_refl unfolding c(3) emitOp_def by blast
  then have "carries cs B (vm_at (pc c2) (w # v # st) e') (Val (env_GetVar (element_name v w) e') e') (leaves (pc c') st)" for v w e'
    by (intro carries_Val run_push(7)) (simp_all add: c(3) run_push(7))
  then have "carries cs B (vm_at (pc c1) (v # st) e') (eval_bind (eval_expr B i e') (\<lambda>w e. Val (env_GetVar (element_name v w) e) e))
      (leaves (pc c') st)" for v e'
    by (intro carries_eq [OF refl ri]) simp
  then show "carries cs B (vm_at (pc c) st e) (eval_expr B (IndexExpr a i) e) (leaves (pc c') st)"
    by (intro carries_eq [OF eval_expr.simps(10) ra]) simp
qed

lemma expr_ok_call:
  assumes "\<And>x. x \<in> set args \<Longrightarrow> expr_ok cs B x"
  shows "expr_ok cs B (CallExpr f args)"
  unfolding expr_ok_iff
proof (intro allI impI)
  fix c c' st e
  assume p: "compileExpr (CallExpr f args) c = (Inr (), c')" "small_calls (CallExpr f args)" "loaded cs c c'"
  obtain c1 where c: "compileExprs args c = (Inr (), c1)" "c' = emit_ins OpFunc (int (length args)) f c1"
    using p(1,2) by (auto simp: compile_simps i32_small)
  have l: "loaded cs c c1"
    by (rule loaded_first [OF p(3), of "{}"]) (simp_all add: c(2) grows_emit)
  have r: "carries cs B (vm_at (pc c) st e) (eval_exprs B args e) (\<lambda>vs e w. w = vm_at (pc c1) (rev vs @ st) e \<and> length vs = length args)"
    using l p(2) by (intro run_exprs [OF assms c(1)]) (simp_all add: loaded_def)
  have "fetch cs (pc c1) \<lparr>in_Op = OpFunc, in_Operand = int (length args), in_Str = f\<rparr>"
    using loaded_fetch [OF p(3), of "{}"] grows_refl unfolding c(2) by blast
  then have "carries cs B (vm_at (pc c1) (rev vs @ st) e') (call_value B f vs e') (leaves (pc c') st)" if "length vs = length args" for vs e'
    using run_call [of cs "pc c1" vs f] that by (simp add: c(2))
  then show "carries cs B (vm_at (pc c) st e) (eval_expr B (CallExpr f args) e) (leaves (pc c') st)"
    by (intro carries_eq [OF eval_expr.simps(9) r]) auto
qed


lemma loaded_part: "loaded cs c c' \<Longrightarrow> grows M c c1 \<Longrightarrow> grows N c2 c' \<Longrightarrow> (\<And>j. j \<in> N \<Longrightarrow> j < c_label c1 \<or> c_label c2 \<le> j) \<Longrightarrow> loaded cs c1 c2"
  using loaded_first loaded_second by blast

lemmas run_label = run_push(4)

lemma expr_ok_shortcut:
  assumes "expr_ok cs B a" and "expr_ok cs B b" and "shortcut op = Some (jmp, k)"
  shows "expr_ok cs B (BinExpr op a b)"
  unfolding expr_ok_iff
proof (intro allI impI)
  fix c c' st e
  assume p: "compileExpr (BinExpr op a b) c = (Inr (), c')" "small_calls (BinExpr op a b)" "loaded cs c c'"
  let ?n = "\<lambda>c. label_name (c_label c)"
  obtain c1 c3 where c: "compileExpr a c = (Inr (), c1)" "compileExpr b (emit_ins jmp 0 (?n c1) (snd (freshLabel c1))) = (Inr (), c3)"
      "c' = markLabel (?n c3) (emit_ins OpInt k [] (markLabel (?n c1) (emit_ins OpGoto 0 (?n c3) (snd (freshLabel c3)))))"
    using p(1) assms(3) by (auto simp: compile_simps emitJump_eq)
  define c2 where "c2 = emit_ins jmp 0 (?n c1) (snd (freshLabel c1))"
  define c4 where "c4 = emit_ins OpGoto 0 (?n c3) (snd (freshLabel c3))"
  define c5 where "c5 = markLabel (?n c1) c4"
  define c6 where "c6 = emit_ins OpInt k [] c5"
  let ?M = "{c_label c1, c_label c3}"
  note b = c(2) [folded c2_def]
  have c': "c' = markLabel (?n c3) c6"
    by (simp add: c(3) c4_def c5_def c6_def)
  have pcs: "pc c2 = Suc (pc c1)" "pc c4 = Suc (pc c3)" "pc c5 = Suc (Suc (pc c3))" "pc c6 = Suc (Suc (Suc (pc c3)))" "pc c' = Suc (pc c6)"
    by (simp_all add: c2_def c4_def c5_def c6_def c')
  have ls: "c_label c2 = Suc (c_label c1)" "c_label c' = Suc (c_label c3)" "c_label c4 = Suc (c_label c3)"
      "c_label c5 = Suc (c_label c3)"
    by (simp_all add: c2_def c4_def c5_def c6_def c')
  have g0: "grows {} c c1" and g2: "grows N c2 c3" for N
    using compileExpr_grows [OF c(1)] compileExpr_grows [OF b] by auto
  have lt: "c_label c \<le> c_label c1" "Suc (c_label c1) \<le> c_label c3"
    using growsD(2) [OF g0] growsD(2) [OF g2] ls(1) by simp_all
  have g6: "grows {c_label c3} c6 c'"
    unfolding c' by (rule grows_mark) simp
  have "grows {c_label c3} c5 c6"
    unfolding c6_def by (rule grows_emit)
  from this g6 have g5: "grows {c_label c3} c5 c'"
    by (rule grows_trans)
  have "grows ?M c4 c5"
    unfolding c5_def by (rule grows_mark) simp
  from grows_trans [OF this grows_mono [OF g5]] have g4: "grows ?M c4 c'"
    by simp
  have "grows ?M (snd (freshLabel c3)) c4"
    unfolding c4_def by (rule grows_emit)
  from grows_trans [OF this g4] have g3: "grows ?M (snd (freshLabel c3)) c'" .
  then have g3': "grows ?M c3 c'"
    using grows_fresh [of c3 ?M c'] by (simp add: insert_commute)
  have g2': "grows ?M c2 c'"
    by (rule grows_trans [OF g2 g3'])
  have "grows ?M (snd (freshLabel c1)) c2"
    unfolding c2_def by (rule grows_emit)
  from grows_fresh [of c1, OF grows_mono [OF grows_trans [OF this g2']]] have g1: "grows ?M c1 c'"
    by blast
  have n1: "cs_Labels cs (?n c1) = Some (pc c4)"
    using loaded_label [OF p(3) g5, of "c_label c1"] lt ls by (simp add: c5_def)
  have n3: "cs_Labels cs (?n c3) = Some (pc c6)"
    using loaded_label [OF p(3) grows_refl [of "{}"], of "c_label c3"] lt ls by (simp add: c')
  have fs: "fetch cs (pc c1) \<lparr>in_Op = jmp, in_Operand = 0, in_Str = ?n c1\<rparr>" "fetch cs (pc c3) \<lparr>in_Op = OpGoto, in_Operand = 0, in_Str = ?n c3\<rparr>"
      "fetch cs (pc c4) \<lparr>in_Op = OpLabel, in_Operand = 0, in_Str = []\<rparr>" "fetch cs (pc c5) \<lparr>in_Op = OpInt, in_Operand = k, in_Str = []\<rparr>"
      "fetch cs (pc c6) \<lparr>in_Op = OpLabel, in_Operand = 0, in_Str = []\<rparr>"
    using loaded_fetch [OF p(3), of ?M jmp 0 "?n c1" "snd (freshLabel c1)"] g2' loaded_fetch [OF p(3), of ?M OpGoto 0 "?n c3" "snd (freshLabel c3)"] g4
      loaded_mark [OF p(3), of _ "?n c1" c4] g5 loaded_fetch [OF p(3), of _ OpInt k "[]" c5] g6 loaded_mark [OF p(3), of "{}" "?n c3" c6] grows_refl
    by (simp_all add: c2_def c4_def c5_def c6_def c')
  have ra: "carries cs B (vm_at (pc c) st e) (eval_expr B a e) (leaves (pc c1) st)"
    using p(2) lt by (intro expr_okL [OF assms(1) c(1) _ loaded_first [OF p(3) g1]]) auto
  have "loaded cs c2 c3"
    by (rule loaded_part [OF p(3) _ g3', of "{}"])
      (use grows_trans [OF g0 grows_fresh [OF grows_emit]] ls in \<open>auto simp: c2_def\<close>)
  then have rb: "carries cs B (vm_at (pc c2) st e') (eval_expr B b e') (leaves (pc c3) st)" for e'
    using p(2) by (intro expr_okL [OF assms(2) b]) simp_all
  have fin: "reaches cs B (vm_at (pc c3) (w # st) e') (vm_at (pc c') (w # st) e')" for w e'
    using reaches_trans [OF run_jump(1) [OF fs(2) n3] run_label [OF fs(5)]] by (simp add: pcs)
  have rb': "carries cs B (vm_at (pc c2) st e') (eval_expr B b e') (leaves (pc c') st)" for e'
    by (rule carries_last [OF rb]) (auto intro: fin)
  have "reaches cs B (vm_at (pc c4) st e') (vm_at (pc c5) st e')" for e'
    using run_label [OF fs(3)] by (simp add: pcs)
  also have "reaches cs B (vm_at (pc c5) st e') (vm_at (pc c6) (IntVal k # st) e')" for e'
    using run_push(1) [OF fs(4)] by (simp add: pcs)
  also have "reaches cs B (vm_at (pc c6) (IntVal k # st) e') (vm_at (pc c') (IntVal k # st) e')" for e'
    using run_label [OF fs(5)] by (simp add: pcs)
  finally have cut: "carries cs B (vm_at (pc c4) st e') (Val (IntVal k) e') (leaves (pc c') st)" for e'
    by (auto intro: carries_Val)
  from assms(3) consider "op = ''&&''" "jmp = OpJumpIfFalse" "k = 0" | "op = ''||''" "jmp = OpJumpIfTrue" "k = 1"
    by (auto simp: shortcut_def split: if_splits)
  then show "carries cs B (vm_at (pc c) st e) (eval_expr B (BinExpr op a b) e) (leaves (pc c') st)"
  proof cases
    case 1
    have "carries cs B (vm_at (pc c1) (v # st) e') (if IsZero v then Val (IntVal 0) e' else eval_expr B b e') (leaves (pc c') st)" for v e'
      using carries_first [OF run_jump(2) [OF fs(1) [unfolded 1] n1], of B v st e'] cut [of e'] rb' [of e'] 1
      by (auto simp: pcs)
    then show ?thesis
      using 1 by (intro carries_eq [OF _ ra]) simp_all
  next
    case 2
    have "carries cs B (vm_at (pc c1) (v # st) e') (if IsZero v then eval_expr B b e' else Val (IntVal 1) e') (leaves (pc c') st)" for v e'
      using carries_first [OF run_jump(3) [OF fs(1) [unfolded 2] n1], of B v st e'] cut [of e'] rb' [of e'] 2
      by (auto simp: pcs)
    then show ?thesis
      using 2 by (intro carries_eq [OF _ ra]) simp_all
  qed
qed


text \<open>The code of a choice between two pieces: jump over the first when the test is zero, over the second after the first.\<close>

lemma fork:
  assumes "loaded cs c c'"
    and "c2 = emit_ins OpJumpIfFalse 0 (label_name (c_label c1)) (snd (freshLabel c1))"
    and "c5 = markLabel (label_name (c_label c1)) (emit_ins OpGoto 0 (label_name (c_label c3)) (snd (freshLabel c3)))"
    and "c' = markLabel (label_name (c_label c3)) c6"
    and "grows {} c c1" and "\<And>N. grows N c2 c3" and "\<And>N. grows N c5 c6"
  shows "loaded cs c c1" and "loaded cs c2 c3" and "loaded cs c5 c6"
    and "reaches cs B (vm_at (pc c1) (v # st) e) (vm_at (if IsZero v then pc c5 else pc c2) st e)"
    and "reaches cs B (vm_at (pc c3) st e) (vm_at (pc c') st e)"
    and "reaches cs B (vm_at (pc c6) st e) (vm_at (pc c') st e)"
    and "c_loops c2 = c_loops c" and "c_loops c5 = c_loops c" and "c_loops c' = c_loops c"
proof -
  let ?n = "\<lambda>c. label_name (c_label c)"
  define c4 where "c4 = emit_ins OpGoto 0 (?n c3) (snd (freshLabel c3))"
  note c5 = assms(3) [folded c4_def]
  let ?M = "{c_label c1, c_label c3}"
  have pcs: "pc c2 = Suc (pc c1)" "pc c4 = Suc (pc c3)" "pc c5 = Suc (pc c4)" "pc c' = Suc (pc c6)"
    by (simp_all add: assms(2,4) c4_def c5)
  have ls: "c_label c2 = Suc (c_label c1)" "c_label c4 = Suc (c_label c3)" "c_label c5 = Suc (c_label c3)" "c_label c' = c_label c6"
    by (simp_all add: assms(2,4) c4_def c5)
  have lt: "c_label c \<le> c_label c1" "Suc (c_label c1) \<le> c_label c3" "Suc (c_label c3) \<le> c_label c6"
    using growsD(2) [OF assms(5)] growsD(2) [OF assms(6)] growsD(2) [OF assms(7)] ls by simp_all
  have g6: "grows {c_label c3} c6 c'"
    unfolding assms(4) by (rule grows_mark) simp
  have g5: "grows {c_label c3} c5 c'"
    by (rule grows_trans [OF assms(7) g6])
  have "grows ?M c4 c5"
    unfolding c5 by (rule grows_mark) simp
  from grows_trans [OF this grows_mono [OF g5]] have g4: "grows ?M c4 c'"
    by simp
  have "grows ?M (snd (freshLabel c3)) c4"
    unfolding c4_def by (rule grows_emit)
  from grows_trans [OF this g4] have g3: "grows ?M c3 c'"
    using grows_fresh [of c3 ?M c'] by (simp add: insert_commute)
  have g2: "grows ?M c2 c'"
    by (rule grows_trans [OF assms(6) g3])
  have g12: "grows ?M (snd (freshLabel c1)) c2"
    unfolding assms(2) by (rule grows_emit)
  from grows_fresh [of c1, OF grows_mono [OF grows_trans [OF this g2]]] have g1: "grows ?M c1 c'"
    by blast
  show "c_loops c2 = c_loops c" "c_loops c' = c_loops c"
    using growsD(3) [OF assms(5)] growsD(3) [OF g12] growsD(3) [OF g1] by (simp_all add: freshLabel_def)
  then show "c_loops c5 = c_loops c"
    using growsD(3) [OF g5] by simp
  have n1: "cs_Labels cs (?n c1) = Some (pc c4)"
    using loaded_label [OF assms(1) g5, of "c_label c1"] lt ls by (simp add: c5)
  have n3: "cs_Labels cs (?n c3) = Some (pc c6)"
    using loaded_label [OF assms(1) grows_refl [of "{}"], of "c_label c3"] lt ls by (simp add: assms(4))
  have fs: "fetch cs (pc c1) \<lparr>in_Op = OpJumpIfFalse, in_Operand = 0, in_Str = ?n c1\<rparr>"
      "fetch cs (pc c3) \<lparr>in_Op = OpGoto, in_Operand = 0, in_Str = ?n c3\<rparr>"
      "fetch cs (pc c4) \<lparr>in_Op = OpLabel, in_Operand = 0, in_Str = []\<rparr>" "fetch cs (pc c6) \<lparr>in_Op = OpLabel, in_Operand = 0, in_Str = []\<rparr>"
    using loaded_fetch [OF assms(1), of ?M OpJumpIfFalse 0 "?n c1" "snd (freshLabel c1)"] g2
      loaded_fetch [OF assms(1), of ?M OpGoto 0 "?n c3" "snd (freshLabel c3)"] g4
      loaded_mark [OF assms(1), of _ "?n c1" c4] g5 loaded_mark [OF assms(1), of "{}" "?n c3" c6] grows_refl
    by (simp_all add: c4_def c5 assms(2,4))
  show "loaded cs c c1"
    by (rule loaded_first [OF assms(1) g1]) (use lt in auto)
  have "grows {} c c2"
    unfolding assms(2) by (rule grows_trans [OF assms(5) grows_fresh [OF grows_emit]])
  then show "loaded cs c2 c3"
    by (rule loaded_part [OF assms(1) _ g3]) (use ls in auto)
  have "grows {c_label c1} c2 c3"
    by (rule assms(6))
  also have "grows {c_label c1} c3 c5"
    by (rule grows_fresh) (use g3 in \<open>simp add: c5 c4_def grows_trans [OF grows_emit grows_mark]\<close>)
  finally have g25: "grows {c_label c1} c2 c5" .
  have "grows {c_label c1} (snd (freshLabel c1)) c5"
    unfolding assms(2) by (rule grows_trans [OF grows_emit g25 [unfolded assms(2)]])
  from grows_trans [OF assms(5) grows_fresh [OF this]] show "loaded cs c5 c6"
    by (rule loaded_part [OF assms(1) _ g6]) (use ls in auto)
  have to5: "reaches cs B (vm_at (pc c4) st e) (vm_at (pc c5) st e)"
    using run_label [OF fs(3)] by (simp add: pcs)
  show "reaches cs B (vm_at (pc c1) (v # st) e) (vm_at (if IsZero v then pc c5 else pc c2) st e)"
    using run_jump(2) [OF fs(1) n1, of B v st e] reaches_trans [OF _ to5] by (simp add: pcs split: if_splits)
  show to': "reaches cs B (vm_at (pc c6) st e) (vm_at (pc c') st e)"
    using run_label [OF fs(4)] by (simp add: pcs)
  show "reaches cs B (vm_at (pc c3) st e) (vm_at (pc c') st e)"
    by (rule reaches_trans [OF run_jump(1) [OF fs(2) n3] to'])
qed

lemma expr_ok_ternary:
  assumes "expr_ok cs B t" and "expr_ok cs B a" and "expr_ok cs B b"
  shows "expr_ok cs B (TernaryExpr t a b)"
  unfolding expr_ok_iff
proof (intro allI impI)
  fix c c' st e
  assume p: "compileExpr (TernaryExpr t a b) c = (Inr (), c')" "small_calls (TernaryExpr t a b)" "loaded cs c c'"
  let ?n = "\<lambda>c. label_name (c_label c)"
  obtain c1 c3 c6 where c: "compileExpr t c = (Inr (), c1)"
      "compileExpr a (emit_ins OpJumpIfFalse 0 (?n c1) (snd (freshLabel c1))) = (Inr (), c3)"
      "compileExpr b (markLabel (?n c1) (emit_ins OpGoto 0 (?n c3) (snd (freshLabel c3)))) = (Inr (), c6)"
      "c' = markLabel (?n c3) c6"
    using p(1) by (auto simp: compile_simps emitJump_eq)
  note f = fork [OF p(3) refl refl c(4) compileExpr_grows [OF c(1)] compileExpr_grows [OF c(2)] compileExpr_grows [OF c(3)]]
  have branch: "carries cs B (vm_at (pc c1) (v # st) e') (if IsZero v then eval_expr B b e' else eval_expr B a e') (leaves (pc c') st)" for v e'
  proof (cases "IsZero v")
    case True
    have "carries cs B (vm_at (pc (markLabel (?n c1) (emit_ins OpGoto 0 (?n c3) (snd (freshLabel c3))))) st e') (eval_expr B b e') (leaves (pc c6) st)"
      by (rule expr_okL [OF assms(3) c(3) _ f(3)]) (use p(2) in simp)
    then have "carries cs B (vm_at (pc (markLabel (?n c1) (emit_ins OpGoto 0 (?n c3) (snd (freshLabel c3))))) st e')
        (eval_expr B b e') (leaves (pc c') st)"
      by (rule carries_last) (auto intro: f(6))
    from carries_first [OF f(4) [where v = v, unfolded if_P [OF True]] this] True show ?thesis
      by simp
  next
    case False
    have "carries cs B (vm_at (pc (emit_ins OpJumpIfFalse 0 (?n c1) (snd (freshLabel c1)))) st e') (eval_expr B a e') (leaves (pc c3) st)"
      by (rule expr_okL [OF assms(2) c(2) _ f(2)]) (use p(2) in simp)
    then have "carries cs B (vm_at (pc (emit_ins OpJumpIfFalse 0 (?n c1) (snd (freshLabel c1)))) st e')
        (eval_expr B a e') (leaves (pc c') st)"
      by (rule carries_last) (auto intro: f(5))
    from carries_first [OF f(4) [where v = v, unfolded if_not_P [OF False]] this] False show ?thesis
      by simp
  qed
  have test: "carries cs B (vm_at (pc c) st e) (eval_expr B t e) (leaves (pc c1) st)"
    by (rule expr_okL [OF assms(1) c(1) _ f(1)]) (use p(2) in simp)
  show "carries cs B (vm_at (pc c) st e) (eval_expr B (TernaryExpr t a b) e) (leaves (pc c') st)"
    by (rule carries_eq [OF eval_expr.simps(8) test]) (use branch in simp)
qed

lemma compileExpr_correct: "expr_ok cs B x"
proof (induction x)
  case (BinExpr op a b)
  then show ?case
    by (cases "shortcut op") (auto intro: expr_ok_binary expr_ok_shortcut)
qed (auto intro: expr_ok_literal expr_ok_paren expr_ok_unary expr_ok_ternary expr_ok_call expr_ok_index)


section \<open>Running the code of a statement\<close>

text \<open>
  The scripts the evaluator speaks of: no labels of their own (and so no use for \<open>goto\<close>, \<open>callsub\<close> and
  \<open>menu\<close>), array elements assigned with \<open>=\<close> only, and no \<open>continue\<close> straight to a \<open>for\<close> with a post clause.
\<close>

fun free_continue :: "stmt \<Rightarrow> bool" and free_continues :: "stmt list \<Rightarrow> bool" where
  "free_continue ContinueStmt \<longleftrightarrow> True"
| "free_continue (IfStmt t a b) \<longleftrightarrow> free_continues a \<or> free_continues b"
| "free_continue (ForStmt init t post a) \<longleftrightarrow> free_continues init \<or> free_continues post"
| "free_continue s \<longleftrightarrow> False"
| "free_continues [] \<longleftrightarrow> False"
| "free_continues (s # ss) \<longleftrightarrow> free_continue s \<or> free_continues ss"

fun plain_assign :: "expr \<Rightarrow> string \<Rightarrow> expr \<Rightarrow> bool" where
  "plain_assign (IndexExpr a i) op rhs \<longleftrightarrow> op = ''='' \<and> small_calls a \<and> small_calls i \<and> small_calls rhs"
| "plain_assign lhs op rhs \<longleftrightarrow> small_calls rhs"

definition small_test :: "expr option \<Rightarrow> bool" where
  "small_test t \<longleftrightarrow> (case t of None \<Rightarrow> True | Some t \<Rightarrow> small_calls t)"

fun structured :: "stmt \<Rightarrow> bool" and structureds :: "stmt list \<Rightarrow> bool" where
  "structured (AssignStmt lhs op rhs) \<longleftrightarrow> plain_assign lhs op rhs"
| "structured (CallStmt f args) \<longleftrightarrow>
     f \<noteq> ''menu'' \<and> length args < 2 ^ 31 \<and> small_exprs args \<and> (f = ''set'' \<longrightarrow> (case args of [x, v] \<Rightarrow> plain_assign x ''='' v | _ \<Rightarrow> True))"
| "structured (IfStmt t a b) \<longleftrightarrow> small_calls t \<and> structureds a \<and> structureds b"
| "structured (WhileStmt t a) \<longleftrightarrow> small_calls t \<and> structureds a"
| "structured (DoWhileStmt a t) \<longleftrightarrow> small_calls t \<and> structureds a"
| "structured (ForStmt init t post a) \<longleftrightarrow>
     small_test t \<and> structureds init \<and> structureds post \<and> structureds a \<and> (post \<noteq> [] \<longrightarrow> \<not> free_continues a)"
| "structured BreakStmt \<longleftrightarrow> True"
| "structured ContinueStmt \<longleftrightarrow> True"
| "structured (ReturnStmt v) \<longleftrightarrow> True"
| "structured (SwitchStmt v cs) \<longleftrightarrow> True"
| "structured (GotoStmt l) \<longleftrightarrow> True"
| "structured (CallSubStmt l args) \<longleftrightarrow> True"
| "structured (LabelDecl l) \<longleftrightarrow> False"
| "structureds [] \<longleftrightarrow> True"
| "structureds (s # ss) \<longleftrightarrow> structured s \<and> structureds ss"

lemma and_then_assoc: "and_then (and_then r f) g = and_then r (\<lambda>v s. and_then (f v s) g)"
  by (cases r; cases "fst r") auto

lemma while_is_for: "compileStmt (WhileStmt t a) c = compileStmt (ForStmt [] (Some t) [] a) c"
  by (simp add: okc_def freshLabel_def and_then_assoc)

lemma grows_loop: "grows M (pushLoop x y c) c' \<Longrightarrow> grows M c (popLoop c')"
  by (auto simp: grows_def pushLoop_def popLoop_def)

lemma compileAssign_grows: "compileAssign lhs op rhs c = (Inr (), c') \<Longrightarrow> grows M c c'"
proof (cases "\<exists>a i. lhs = IndexExpr a i")
  case True
  assume p: "compileAssign lhs op rhs c = (Inr (), c')"
  from True obtain a i where "lhs = IndexExpr a i"
    by blast
  with p obtain c1 c2 c3 where "compileExpr a c = (Inr (), c1)" "compileExpr i c1 = (Inr (), c2)" "compileExpr rhs c2 = (Inr (), c3)"
      "c' = emitOp OpIndexSet c3"
    by (auto simp: compile_simps)
  then show ?thesis
    using compileExpr_grows grows_emitOp grows_trans by metis
next
  case False
  assume p: "compileAssign lhs op rhs c = (Inr (), c')"
  then obtain x where x: "lhs = IdentExpr x"
    using False by (cases lhs) (auto split: option.splits)
  show ?thesis
  proof (cases "op = ''=''")
    case True
    with p x obtain c1 where "compileExpr rhs c = (Inr (), c1)" "c' = emit_ins OpAssign 0 x c1"
      by (auto simp: compile_simps)
    then show ?thesis
      using compileExpr_grows grows_emit grows_trans by metis
  next
    case False
    with p x obtain c1 code where "compileExpr rhs (emit_ins OpVar 0 x c) = (Inr (), c1)" "c' = emit_ins OpAssign 0 x (emitOp code c1)"
      by (auto simp: compile_simps)
    then show ?thesis
      using compileExpr_grows grows_emit grows_emitOp grows_trans by metis
  qed
qed

lemma compileCall_grows:
  assumes "structured (CallStmt f args)" and "compileStmt (CallStmt f args) c = (Inr (), c')"
  shows "grows M c c'"
proof -
  consider "f = ''set''" | "f = ''input''" | "f \<noteq> ''set''" "f \<noteq> ''input''" "f \<noteq> ''menu''"
    using assms(1) by auto
  then show ?thesis
  proof cases
    case 1
    then show ?thesis
      using assms(2) compileAssign_grows by (auto simp: compileSet_def split: list.splits)
  next
    case 2
    then obtain x c1 where "compileExprs (tl args) (emit_ins OpStr 0 x c) = (Inr (), c1)"
        "c' = emit_ins OpFunc (i32 (int (length args))) ''input'' c1"
      using assms(2) by (auto simp: compileInput_def compile_simps split: if_splits option.splits)
    then show ?thesis
      using compileExprs_grows' grows_emit grows_trans by metis
  next
    case 3
    then obtain c1 where "compileExprs args c = (Inr (), c1)" "c' = emitOp OpPop (emit_ins OpFunc (i32 (int (length args))) f c1)"
      using assms(2) by (auto simp: compileCall_def compile_simps)
    then show ?thesis
      using compileExprs_grows' grows_emit grows_emitOp grows_trans by metis
  qed
qed


text \<open>The pieces of the compiled statements.\<close>

definition compile_test :: "expr option \<Rightarrow> string \<Rightarrow> compile" where
  "compile_test t fin c = (case t of None \<Rightarrow> okc c | Some t \<Rightarrow> and_then (compileExpr t c) (\<lambda>_ c. okc (emit_ins OpJumpIfFalse 0 fin c)))"

lemma if_code:
  assumes "compileStmt (IfStmt t a b) c = (Inr (), c')"
  obtains c1 c3 where "b = []" "compileExpr t c = (Inr (), c1)"
      "compileBlockStmts a (emit_ins OpJumpIfFalse 0 (label_name (c_label c1)) (fresh c1)) = (Inr (), c3)"
      "c' = markLabel (label_name (c_label c1)) c3"
    | c1 c3 c6 where "b \<noteq> []" "compileExpr t c = (Inr (), c1)"
      "compileBlockStmts a (emit_ins OpJumpIfFalse 0 (label_name (c_label c1)) (fresh c1)) = (Inr (), c3)"
      "compileBlockStmts b (markLabel (label_name (c_label c1)) (emit_ins OpGoto 0 (label_name (c_label c3)) (fresh c3))) = (Inr (), c6)"
      "c' = markLabel (label_name (c_label c3)) c6"
  using assms by (cases "b = []") (auto simp: compile_simps emitJump_eq)

lemma for_code:
  assumes "compileStmt (ForStmt init t post a) c = (Inr (), c')"
  obtains c0 where "compileBlockStmts init c = (Inr (), c0)" "compileStmt (ForStmt [] t post a) c0 = (Inr (), c')"
  using assms by (auto simp: compile_simps)

lemma loop_code:
  assumes "compileStmt (ForStmt [] t post a) c = (Inr (), c')"
  obtains c2 c3 c4 where
    "compile_test t (label_name (Suc (c_label c))) (markLabel (label_name (c_label c)) (fresh (fresh c))) = (Inr (), c2)"
    "compileBlockStmts a (pushLoop (label_name (c_label c)) (label_name (Suc (c_label c))) c2) = (Inr (), c3)"
    "compileBlockStmts post (popLoop c3) = (Inr (), c4)"
    "c' = markLabel (label_name (Suc (c_label c))) (emit_ins OpGoto 0 (label_name (c_label c)) c4)"
proof (cases t)
  case None
  then show ?thesis
    using assms that by (auto simp: compile_simps let_fresh compile_test_def)
next
  case (Some t')
  then show ?thesis
    using assms that by (fastforce simp: compile_simps let_fresh compile_test_def)
qed

lemma do_code:
  assumes "compileStmt (DoWhileStmt a t) c = (Inr (), c')"
  obtains c2 c4 where
    "compileBlockStmts a (pushLoop (label_name (Suc (c_label c))) (label_name (Suc (Suc (c_label c))))
       (markLabel (label_name (c_label c)) (fresh (fresh (fresh c))))) = (Inr (), c2)"
    "compileExpr t (markLabel (label_name (Suc (c_label c))) (popLoop c2)) = (Inr (), c4)"
    "c' = markLabel (label_name (Suc (Suc (c_label c)))) (emit_ins OpJumpIfTrue 0 (label_name (c_label c)) c4)"
  using assms that by (auto simp: compile_simps let_fresh)

lemma compile_test_grows: "compile_test t fin c = (Inr (), c') \<Longrightarrow> grows M c c'"
  using compileExpr_grows grows_emit grows_refl grows_trans
  by (fastforce simp: compile_test_def compile_simps split: option.splits)

lemma grows_fresh2: "grows (insert (c_label c) (insert (Suc (c_label c)) M)) (fresh (fresh c)) c' \<Longrightarrow> grows M c c'"
  using grows_fresh [of "fresh c"] grows_fresh [of c] by (simp add: insert_commute)

lemma grows_fresh3:
  "grows (insert (c_label c) (insert (Suc (c_label c)) (insert (Suc (Suc (c_label c))) M))) (fresh (fresh (fresh c))) c' \<Longrightarrow> grows M c c'"
  using grows_fresh [of "fresh (fresh c)"] grows_fresh2 [of c] by (simp add: insert_commute)

lemma compileStmt_grows:
  "structured s \<Longrightarrow> compileStmt s c = (Inr (), c') \<Longrightarrow> grows M c c'"
  "structureds ss \<Longrightarrow> compileBlockStmts ss c = (Inr (), c') \<Longrightarrow> grows M c c'"
proof (induction s and ss arbitrary: M c c' and M c c' rule: structured_structureds.induct)
  case (1 lhs op rhs)
  then show ?case
    using compileAssign_grows by simp
next
  case (2 f args)
  then show ?case
    using compileCall_grows by blast
next
  case (3 t a b)
  have s: "structureds a" "structureds b"
    using "3.prems"(1) by simp_all
  show ?case
    using "3.prems"(2)
  proof (cases rule: if_code)
    case (1 c1 c3)
    have "grows (insert (c_label c1) M) (fresh c1) (emit_ins OpJumpIfFalse 0 (label_name (c_label c1)) (fresh c1))"
      by (rule grows_emit)
    also have "grows (insert (c_label c1) M) \<dots> c3"
      by (rule "3.IH"(1) [OF s(1) 1(3)])
    also have "grows (insert (c_label c1) M) c3 c'"
      unfolding 1(4) by (rule grows_mark) simp
    finally have "grows M c1 c'"
      by (rule grows_fresh)
    with compileExpr_grows [OF 1(2)] show ?thesis
      by (rule grows_trans)
  next
    case (2 c1 c3 c6)
    show ?thesis
      unfolding 2(5) by (rule grows_fork [OF compileExpr_grows [OF 2(2)] "3.IH"(1) [OF s(1) 2(3)] "3.IH"(2) [OF s(2) 2(4)]])
  qed
next
  case (4 t a)
  obtain c2 c3 where c: "compile_test (Some t) (label_name (Suc (c_label c))) (markLabel (label_name (c_label c)) (fresh (fresh c))) = (Inr (), c2)"
      "compileBlockStmts a (pushLoop (label_name (c_label c)) (label_name (Suc (c_label c))) c2) = (Inr (), c3)"
      "c' = markLabel (label_name (Suc (c_label c))) (emit_ins OpGoto 0 (label_name (c_label c)) (popLoop c3))"
    using "4.prems"(2) unfolding while_is_for by (elim loop_code) (auto simp: okc_def)
  let ?M = "insert (c_label c) (insert (Suc (c_label c)) M)"
  have "grows ?M (fresh (fresh c)) (markLabel (label_name (c_label c)) (fresh (fresh c)))"
    by (rule grows_mark) simp
  also have "grows ?M \<dots> c2"
    by (rule compile_test_grows [OF c(1)])
  also have "grows ?M c2 (popLoop c3)"
    by (rule grows_loop, rule "4.IH" [OF _ c(2)]) (use "4.prems"(1) in simp)
  also have "grows ?M \<dots> (emit_ins OpGoto 0 (label_name (c_label c)) (popLoop c3))"
    by (rule grows_emit)
  also have "grows ?M \<dots> c'"
    unfolding c(3) by (rule grows_mark) simp
  finally show ?case
    by (rule grows_fresh2)
next
  case (5 a t)
  obtain c2 c4 where c: "compileBlockStmts a (pushLoop (label_name (Suc (c_label c))) (label_name (Suc (Suc (c_label c))))
       (markLabel (label_name (c_label c)) (fresh (fresh (fresh c))))) = (Inr (), c2)"
      "compileExpr t (markLabel (label_name (Suc (c_label c))) (popLoop c2)) = (Inr (), c4)"
      "c' = markLabel (label_name (Suc (Suc (c_label c)))) (emit_ins OpJumpIfTrue 0 (label_name (c_label c)) c4)"
    using "5.prems"(2) by (rule do_code)
  let ?M = "insert (c_label c) (insert (Suc (c_label c)) (insert (Suc (Suc (c_label c))) M))"
  have "grows ?M (fresh (fresh (fresh c))) (markLabel (label_name (c_label c)) (fresh (fresh (fresh c))))"
    by (rule grows_mark) simp
  also have "grows ?M \<dots> (popLoop c2)"
    by (rule grows_loop, rule "5.IH" [OF _ c(1)]) (use "5.prems"(1) in simp)
  also have "grows ?M \<dots> (markLabel (label_name (Suc (c_label c))) (popLoop c2))"
    by (rule grows_mark) simp
  also have "grows ?M \<dots> c4"
    by (rule compileExpr_grows [OF c(2)])
  also have "grows ?M c4 (emit_ins OpJumpIfTrue 0 (label_name (c_label c)) c4)"
    by (rule grows_emit)
  also have "grows ?M \<dots> c'"
    unfolding c(3) by (rule grows_mark) simp
  finally show ?case
    by (rule grows_fresh3)
next
  case (6 init t post a)
  obtain c0 where c0: "compileBlockStmts init c = (Inr (), c0)" "compileStmt (ForStmt [] t post a) c0 = (Inr (), c')"
    using "6.prems"(2) by (rule for_code)
  obtain c2 c3 c4 where c: "compile_test t (label_name (Suc (c_label c0))) (markLabel (label_name (c_label c0)) (fresh (fresh c0))) = (Inr (), c2)"
    "compileBlockStmts a (pushLoop (label_name (c_label c0)) (label_name (Suc (c_label c0))) c2) = (Inr (), c3)"
    "compileBlockStmts post (popLoop c3) = (Inr (), c4)"
    "c' = markLabel (label_name (Suc (c_label c0))) (emit_ins OpGoto 0 (label_name (c_label c0)) c4)"
    using c0(2) by (rule loop_code)
  let ?M = "insert (c_label c0) (insert (Suc (c_label c0)) M)"
  have "grows ?M (fresh (fresh c0)) (markLabel (label_name (c_label c0)) (fresh (fresh c0)))"
    by (rule grows_mark) simp
  also have "grows ?M \<dots> c2"
    by (rule compile_test_grows [OF c(1)])
  also have "grows ?M c2 (popLoop c3)"
    by (rule grows_loop, rule "6.IH"(3) [OF _ c(2)]) (use "6.prems"(1) in simp)
  also have "grows ?M \<dots> c4"
    by (rule "6.IH"(2) [OF _ c(3)]) (use "6.prems"(1) in simp)
  also have "grows ?M \<dots> (emit_ins OpGoto 0 (label_name (c_label c0)) c4)"
    by (rule grows_emit)
  also have "grows ?M \<dots> c'"
    unfolding c(4) by (rule grows_mark) simp
  finally have "grows M c0 c'"
    by (rule grows_fresh2)
  then show ?case
    using grows_trans [OF "6.IH"(1) [OF _ c0(1)]] "6.prems"(1) by simp
next
  case (12 l args)
  then show ?case
    using compileExprs_grows' grows_emit grows_trans by (fastforce simp: compile_simps)
next
  case (15 s ss)
  then obtain c1 where "compileStmt s c = (Inr (), c1)" "compileBlockStmts ss c1 = (Inr (), c')"
    by (auto simp: compile_simps)
  then show ?case
    using 15 grows_trans by fastforce
qed (auto simp: compileBreak_def compileContinue_def okc_def grows_emit grows_emitOp grows_refl split: option.splits)


text \<open>Where the machine is after a statement: behind it, or at a label of the innermost loop, with what \<open>input\<close> left on the stack.\<close>

definition lands :: "compiled_script \<Rightarrow> compiler \<Rightarrow> compiler \<Rightarrow> script_value list \<Rightarrow> leaving \<Rightarrow> 'h script_env \<Rightarrow> 'h vm \<Rightarrow> bool" where
  "lands cs c c' st l e w \<longleftrightarrow>
     (\<exists>junk q. w = vm_at q (junk @ st) e \<and>
        (case l of
           Normal \<Rightarrow> q = pc c'
         | Breaking \<Rightarrow> c_loops c \<noteq> [] \<and> cs_Labels cs (snd (hd (c_loops c))) = Some q
         | Continuing \<Rightarrow> c_loops c \<noteq> [] \<and> cs_Labels cs (fst (hd (c_loops c))) = Some q))"

definition bound :: "compiled_script \<Rightarrow> compiler \<Rightarrow> bool" where
  "bound cs c \<longleftrightarrow> (\<forall>x \<in> set (c_loops c). cs_Labels cs (fst x) \<noteq> None \<and> cs_Labels cs (snd x) \<noteq> None)"

lemma bound_cong: "c_loops c = c_loops c' \<Longrightarrow> bound cs c \<longleftrightarrow> bound cs c'"
  by (simp add: bound_def)

lemma lands_Normal: "lands cs c c' st Normal e (vm_at (pc c') (junk @ st) e)"
  by (auto simp: lands_def)

lemma lands_weaken:
  assumes "lands cs c1 c2 (junk @ st) l e w" and "c_loops c1 = c_loops c" and "pc c2 = pc c'"
  shows "lands cs c c' st l e w"
  using assms unfolding lands_def by (fastforce simp flip: append_assoc split: leaving.splits)

lemma lands_lasts:
  assumes "lands cs c1 c2 st l e w" and "c_loops c1 = c_loops c" and "\<And>st'. reaches cs B (vm_at (pc c2) st' e) (vm_at (pc c') st' e)"
  shows "\<exists>w'. reaches cs B w w' \<and> lands cs c c' st l e w'"
proof (cases l)
  case Normal
  then obtain junk where "w = vm_at (pc c2) (junk @ st) e"
    using assms(1) by (auto simp: lands_def)
  then show ?thesis
    using Normal assms(3) lands_Normal by blast
qed (use assms(1,2) reaches_refl in \<open>auto simp: lands_def intro!: exI [of _ w]\<close>)

definition stmt_ok :: "compiled_script \<Rightarrow> (string \<rightharpoonup> 'h builtin) \<Rightarrow> stmt \<Rightarrow> ('h script_env \<Rightarrow> 'h exec) \<Rightarrow> bool" where
  "stmt_ok cs B s f \<longleftrightarrow>
     (\<forall>c c' st e r. compileStmt s c = (Inr (), c') \<longrightarrow> structured s \<longrightarrow> loaded cs c c' \<longrightarrow> bound cs c \<longrightarrow> f e = Some r \<longrightarrow>
        carries cs B (vm_at (pc c) st e) r (lands cs c c' st))"

definition block_ok :: "compiled_script \<Rightarrow> (string \<rightharpoonup> 'h builtin) \<Rightarrow> nat \<Rightarrow> stmt list \<Rightarrow> bool" where
  "block_ok cs B n ss \<longleftrightarrow>
     (\<forall>c c' st e r. compileBlockStmts ss c = (Inr (), c') \<longrightarrow> structureds ss \<longrightarrow> loaded cs c c' \<longrightarrow> bound cs c \<longrightarrow> exec_block n B ss e = Some r \<longrightarrow>
        carries cs B (vm_at (pc c) st e) r (lands cs c c' st))"

lemma stmt_okI:
  "(\<And>c c' st e r. compileStmt s c = (Inr (), c') \<Longrightarrow> structured s \<Longrightarrow> loaded cs c c' \<Longrightarrow> bound cs c \<Longrightarrow> f e = Some r \<Longrightarrow>
      carries cs B (vm_at (pc c) st e) r (lands cs c c' st)) \<Longrightarrow> stmt_ok cs B s f"
  by (simp add: stmt_ok_def)

lemma stmt_okD:
  "stmt_ok cs B s f \<Longrightarrow> compileStmt s c = (Inr (), c') \<Longrightarrow> structured s \<Longrightarrow> loaded cs c c' \<Longrightarrow> bound cs c \<Longrightarrow> f e = Some r \<Longrightarrow>
     carries cs B (vm_at (pc c) st e) r (lands cs c c' st)"
  by (simp add: stmt_ok_def)

lemma block_okD:
  "block_ok cs B n ss \<Longrightarrow> compileBlockStmts ss c = (Inr (), c') \<Longrightarrow> structureds ss \<Longrightarrow> loaded cs c c' \<Longrightarrow> bound cs c \<Longrightarrow>
     exec_block n B ss e = Some r \<Longrightarrow> carries cs B (vm_at (pc c) st e) r (lands cs c c' st)"
  by (simp add: block_ok_def)

text \<open>One statement after another.\<close>

lemma carries_then:
  assumes "exec_then x f = Some r"
    and "\<And>r1. x = Some r1 \<Longrightarrow> carries cs B vm r1 (lands cs c c1 st)"
    and "\<And>e junk. x = Some (Val Normal e) \<Longrightarrow> f e = Some r \<Longrightarrow> carries cs B (vm_at (pc c1) (junk @ st) e) r (lands cs c c' st)"
  shows "carries cs B vm r (lands cs c c' st)"
proof (cases "\<exists>e. x = Some (Val Normal e)")
  case True
  then obtain e where x: "x = Some (Val Normal e)"
    by blast
  then obtain w where w: "reaches cs B vm w" "lands cs c c1 st Normal e w"
    using assms(2) by (auto simp: carries_def)
  then obtain junk where "w = vm_at (pc c1) (junk @ st) e"
    by (auto simp: lands_def)
  moreover have "f e = Some r"
    using assms(1) x by simp
  ultimately show ?thesis
    using carries_first [OF w(1)] assms(3) [OF x] by blast
next
  case False
  then have r: "x = Some r" "\<And>e. r \<noteq> Val Normal e"
    using assms(1) by (cases "(x, f)" rule: exec_then.cases; auto)+
  have "lands cs c c' st l e w" if "r = Val l e" "lands cs c c1 st l e w" for l e w
    using that r(2) by (cases l) (simp_all add: lands_def)
  then show ?thesis
    by (rule carries_mono [OF assms(2) [OF r(1)]])
qed

lemma block_ok_Nil: "block_ok cs B n []"
  using lands_Normal [where junk = "[]"] by (auto simp: block_ok_def okc_def intro!: carries_Val reaches_refl)

lemma block_ok_Cons:
  assumes "stmt_ok cs B s (exec_stmt n B s)" and "block_ok cs B n ss"
  shows "block_ok cs B n (s # ss)"
  unfolding block_ok_def
proof (intro allI impI)
  fix c c' st e r
  assume p: "compileBlockStmts (s # ss) c = (Inr (), c')" "structureds (s # ss)" "loaded cs c c'" "bound cs c" "exec_block n B (s # ss) e = Some r"
  obtain c1 where c: "compileStmt s c = (Inr (), c1)" "compileBlockStmts ss c1 = (Inr (), c')"
    using p(1) by (auto simp: compile_simps)
  have g: "grows {} c c1" "grows {} c1 c'"
    using compileStmt_grows(1) [OF _ c(1)] compileStmt_grows(2) [OF _ c(2)] p(2) by simp_all
  have loops: "c_loops c1 = c_loops c"
    by (rule growsD(3) [OF g(1)])
  show "carries cs B (vm_at (pc c) st e) r (lands cs c c' st)"
  proof (rule carries_then)
    show "exec_then (exec_stmt n B s e) (exec_block n B ss) = Some r"
      using p(5) by simp
    show "carries cs B (vm_at (pc c) st e) r1 (lands cs c c1 st)" if "exec_stmt n B s e = Some r1" for r1
      by (rule stmt_okD [OF assms(1) c(1) _ loaded_first [OF p(3) g(2)] p(4) that]) (use p(2) in simp_all)
    show "carries cs B (vm_at (pc c1) (junk @ st) e') r (lands cs c c' st)" if "exec_block n B ss e' = Some r" for e' junk
    proof (rule carries_last)
      show "carries cs B (vm_at (pc c1) (junk @ st) e') r (lands cs c1 c' (junk @ st))"
        by (rule block_okD [OF assms(2) c(2) _ loaded_second [OF p(3) g(1)] _ that])
          (use p(2,4) bound_cong [OF loops] in simp_all)
    qed (use lands_weaken loops reaches_refl in blast)
  qed
qed


lemmas expr_run = expr_okL [OF compileExpr_correct]

abbreviation goes_on :: "nat \<Rightarrow> script_value list \<Rightarrow> leaving \<Rightarrow> 'h script_env \<Rightarrow> 'h vm \<Rightarrow> bool" where
  "goes_on p st l e w \<equiv> l = Normal \<and> w = vm_at p st e"

lemma run_store:
  assumes "compileExpr rhs c = (Inr (), c1)" and "small_calls rhs" and "loaded cs c (emit_ins OpAssign 0 x c1)"
  shows "carries cs B (vm_at (pc c) st e) (eval_bind (eval_expr B rhs e) (\<lambda>v e. Val Normal (env_SetVar x v e))) (goes_on (Suc (pc c1)) st)"
proof -
  have "carries cs B (vm_at (pc c) st e) (eval_expr B rhs e) (leaves (pc c1) st)"
    by (rule expr_run [OF assms(1,2) loaded_first [OF assms(3) grows_emit [of "{}"]]]) simp
  then show ?thesis
    by (rule carries_eq [OF refl]) (auto intro!: carries_Val run_push(6) loaded_fetch [OF assms(3) grows_refl])
qed

lemma run_store_element:
  assumes "compileExpr a c = (Inr (), c1)" and "compileExpr i c1 = (Inr (), c2)" and "compileExpr rhs c2 = (Inr (), c3)"
    and "small_calls a" and "small_calls i" and "small_calls rhs" and "loaded cs c (emitOp OpIndexSet c3)"
  shows "carries cs B (vm_at (pc c) st e) (exec_assign B (IndexExpr a i) ''='' rhs e) (goes_on (Suc (pc c3)) st)"
proof -
  note g = compileExpr_grows [OF assms(1), of "{}"] compileExpr_grows [OF assms(2), of "{}"] compileExpr_grows [OF assms(3), of "{}"]
    grows_emitOp [of "{}" c3 OpIndexSet]
  have l: "loaded cs c c1" "loaded cs c1 c2" "loaded cs c2 c3"
    using loaded_first [OF assms(7) grows_trans [OF g(2) grows_trans [OF g(3,4)]]]
      loaded_part [OF assms(7) g(1) grows_trans [OF g(3,4)]] loaded_part [OF assms(7) grows_trans [OF g(1,2)] g(4)] by simp_all
  have "fetch cs (pc c3) \<lparr>in_Op = OpIndexSet, in_Operand = 0, in_Str = []\<rparr>"
    by (rule loaded_fetchOp [OF assms(7) grows_refl])
  then have store: "carries cs B (vm_at (pc c3) (x # w # v # st) e') (Val Normal (env_SetVar (element_name v w) x e')) (goes_on (Suc (pc c3)) st)" for v w x e'
    by (auto intro!: carries_Val run_push(8))
  have rhs: "carries cs B (vm_at (pc c2) (w # v # st) e') (eval_bind (eval_expr B rhs e') (\<lambda>x e. Val Normal (env_SetVar (element_name v w) x e)))
      (goes_on (Suc (pc c3)) st)" for v w e'
    by (rule carries_eq [OF refl expr_run [OF assms(3,6) l(3)]]) (use store in simp)
  have idx: "carries cs B (vm_at (pc c1) (v # st) e') (eval_bind (eval_expr B i e') (\<lambda>w e. eval_bind (eval_expr B rhs e) (\<lambda>x e.
      Val Normal (env_SetVar (element_name v w) x e)))) (goes_on (Suc (pc c3)) st)" for v e'
    by (rule carries_eq [OF refl expr_run [OF assms(2,5) l(2)]]) (use rhs in simp)
  show ?thesis
    by (rule carries_eq [OF _ expr_run [OF assms(1,4) l(1)]], simp) (use idx in simp)
qed

lemma run_compound:
  assumes "compileExpr rhs (emit_ins OpVar 0 x c) = (Inr (), c1)" and "compoundOp op = Inr code" and "small_calls rhs"
    and "loaded cs c (emit_ins OpAssign 0 x (emitOp code c1))"
  shows "carries cs B (vm_at (pc c) st e)
      (eval_bind (eval_expr B rhs e) (\<lambda>v e'. eval_bind (binary_eval (compoundOp op) (env_GetVar x e) v e') (\<lambda>v e. Val Normal (env_SetVar x v e))))
      (goes_on (Suc (Suc (pc c1))) st)"
proof -
  note g = compileExpr_grows [OF assms(1), of "{}"] grows_trans [OF grows_emitOp [of "{}" c1 code] grows_emit [of "{}" _ OpAssign 0 x]]
  have "fetch cs (pc c) \<lparr>in_Op = OpVar, in_Operand = 0, in_Str = x\<rparr>"
    by (rule loaded_fetch [OF assms(4) grows_trans [OF g]])
  from run_push(3) [OF this] have first: "reaches cs B (vm_at (pc c) st e) (vm_at (pc (emit_ins OpVar 0 x c)) (env_GetVar x e # st) e)"
    by simp
  have "loaded cs (emit_ins OpVar 0 x c) c1"
    by (rule loaded_part [OF assms(4) grows_emit g(2)]) simp
  note rhs = expr_run [OF assms(1,3) this]
  have "fetch cs (pc c1) \<lparr>in_Op = code, in_Operand = 0, in_Str = []\<rparr>"
    by (rule loaded_fetchOp [OF assms(4) grows_emit])
  note op = run_binary [OF this assms(2) compoundOp_ops [OF assms(2)]]
  have "fetch cs (pc (emitOp code c1)) \<lparr>in_Op = OpAssign, in_Operand = 0, in_Str = x\<rparr>"
    by (rule loaded_fetch [OF assms(4) grows_refl])
  from run_push(6) [OF this] have store: "reaches cs B (vm_at (Suc (pc c1)) (v # st) e') (vm_at (Suc (Suc (pc c1))) st (env_SetVar x v e'))" for v e'
    by simp
  have "carries cs B (vm_at (pc c1) (w # v # st) e') (eval_bind (binary_eval (compoundOp op) v w e') (\<lambda>v e. Val Normal (env_SetVar x v e)))
      (goes_on (Suc (Suc (pc c1))) st)" for v w e'
    by (rule carries_eq [OF refl op]) (auto intro!: carries_Val store)
  then show ?thesis
    by (intro carries_first [OF first] carries_eq [OF refl rhs]) simp
qed

lemma run_assign:
  assumes "compileAssign lhs op rhs c = (Inr (), c')" and "plain_assign lhs op rhs" and "loaded cs c c'"
  shows "carries cs B (vm_at (pc c) st e) (exec_assign B lhs op rhs e) (goes_on (pc c') st)"
proof -
  consider a i where "lhs = IndexExpr a i" | x where "lhs = IdentExpr x" "op = ''=''" | x where "lhs = IdentExpr x" "op \<noteq> ''=''"
    using assms(1) by (cases lhs) auto
  then show ?thesis
  proof cases
    case 1
    then obtain c1 c2 c3 where c: "compileExpr a c = (Inr (), c1)" "compileExpr i c1 = (Inr (), c2)" "compileExpr rhs c2 = (Inr (), c3)"
        "c' = emitOp OpIndexSet c3"
      using assms(1) by (auto simp: compile_simps)
    then show ?thesis
      using run_store_element [OF c(1-3)] assms(2,3) 1 by simp
  next
    case 2
    then obtain c1 where "compileExpr rhs c = (Inr (), c1)" "c' = emit_ins OpAssign 0 x c1"
      using assms(1) by (auto simp: compile_simps)
    then show ?thesis
      using run_store assms(2,3) 2 by simp
  next
    case 3
    then obtain c1 code where "compileExpr rhs (emit_ins OpVar 0 x c) = (Inr (), c1)" "compoundOp op = Inr code"
        "c' = emit_ins OpAssign 0 x (emitOp code c1)"
      using assms(1) by (auto simp: compile_simps)
    then show ?thesis
      using run_compound assms(2,3) 3 by (simp add: Let_def)
  qed
qed


lemma run_call_code:
  assumes "compileExprs args c = (Inr (), c1)" and "small_exprs args" and "length vs0 + length args < 2 ^ 31"
    and "loaded cs c c'" and "grows {} (emit_ins OpFunc (i32 (int (length vs0 + length args))) f c1) c'"
  shows "carries cs B (vm_at (pc c) (rev vs0 @ st) e) (eval_bind (eval_exprs B args e) (\<lambda>vs e. call_value B f (vs0 @ vs) e)) (leaves (Suc (pc c1)) st)"
proof -
  have "loaded cs c c1"
    by (rule loaded_first [OF assms(4) grows_trans [OF grows_emit assms(5)]]) simp
  then have args: "carries cs B (vm_at (pc c) (rev vs0 @ st) e) (eval_exprs B args e)
      (\<lambda>vs e w. w = vm_at (pc c1) (rev vs @ rev vs0 @ st) e \<and> length vs = length args)"
    by (intro run_exprs [OF compileExpr_correct assms(1,2)]) (simp_all add: loaded_def)
  have "fetch cs (pc c1) \<lparr>in_Op = OpFunc, in_Operand = int (length vs0 + length args), in_Str = f\<rparr>"
    using loaded_fetch [OF assms(4,5)] i32_small [OF assms(3)] by simp
  then have "carries cs B (vm_at (pc c1) (rev vs @ rev vs0 @ st) e') (call_value B f (vs0 @ vs) e') (leaves (Suc (pc c1)) st)"
    if "length vs = length args" for vs e'
    using run_call [of cs "pc c1" "vs0 @ vs" f] that by simp
  then show ?thesis
    by (intro carries_eq [OF refl args]) auto
qed

lemma call_ok: "stmt_ok cs B (CallStmt f args) (exec_stmt n B (CallStmt f args))"
proof (rule stmt_okI)
  fix c c' st e r
  assume p: "compileStmt (CallStmt f args) c = (Inr (), c')" "structured (CallStmt f args)" "loaded cs c c'"
    "exec_stmt n B (CallStmt f args) e = Some r"
  have r: "r = exec_call B f args e"
    using p(4) by simp
  consider "f = ''set''" | "f = ''input''" | "f \<noteq> ''set''" "f \<noteq> ''input''" "f \<noteq> ''menu''"
    using p(2) by auto
  then show "carries cs B (vm_at (pc c) st e) r (lands cs c c' st)"
  proof cases
    case 1
    then obtain x v where a: "args = [x, v]" "compileAssign x ''='' v c = (Inr (), c')"
      using p(1) by (auto simp: compileSet_def split: list.splits)
    have "carries cs B (vm_at (pc c) st e) (exec_assign B x ''='' v e) (goes_on (pc c') st)"
      by (rule run_assign [OF a(2) _ p(3)]) (use p(2) 1 a in simp)
    then show ?thesis
      unfolding r by (simp add: 1 a(1) exec_call_def)
        (auto elim!: carries_mono intro: lands_Normal [where junk = "[]", simplified])
  next
    case 2
    then obtain x c1 where x: "args \<noteq> []" "hd args = IdentExpr x" "compileExprs (tl args) (emit_ins OpStr 0 x c) = (Inr (), c1)"
        "c' = emit_ins OpFunc (i32 (int (length args))) f c1"
      using p(1) by (auto simp: compileInput_def compile_simps split: if_splits option.splits elim: varName.elims)
    then obtain rest where a: "args = IdentExpr x # rest"
      by (cases args) auto
    have "fetch cs (pc c) \<lparr>in_Op = OpStr, in_Operand = 0, in_Str = x\<rparr>"
      by (rule loaded_fetch [OF p(3) grows_trans [OF compileExprs_grows' [OF x(3)]]]) (use grows_emit in \<open>simp add: x(4)\<close>)
    from run_push(2) [OF this] have first: "reaches cs B (vm_at (pc c) st e) (vm_at (pc (emit_ins OpStr 0 x c)) (rev [StrVal x] @ st) e)"
      by simp
    have call: "carries cs B (vm_at (pc (emit_ins OpStr 0 x c)) (rev [StrVal x] @ st) e)
        (eval_bind (eval_exprs B rest e) (\<lambda>vs e. call_value B f ([StrVal x] @ vs) e)) (leaves (Suc (pc c1)) st)"
      by (rule run_call_code [OF _ _ _ loaded_second [OF p(3) grows_emit]])
        (use p(2) a x(3,4) grows_refl in \<open>auto simp: 2 add.commute\<close>)
    have "carries cs B (vm_at (pc c) st e) (eval_bind (eval_bind (eval_exprs B rest e) (\<lambda>vs e. call_value B f ([StrVal x] @ vs) e))
        (\<lambda>v e. Val Normal e)) (lands cs c c' st)"
      by (rule carries_first [OF first], rule carries_eq [OF refl call]) (auto intro!: carries_Val reaches_refl simp: lands_def x(4))
    then show ?thesis
      unfolding r by (simp add: 2 a exec_call_def eval_bind_assoc)
  next
    case 3
    then obtain c1 where c1: "compileExprs args c = (Inr (), c1)" "c' = emitOp OpPop (emit_ins OpFunc (i32 (int (length args))) f c1)"
      using p(1) by (auto simp: compileCall_def compile_simps)
    have "fetch cs (pc (emit_ins OpFunc (i32 (int (length args))) f c1)) \<lparr>in_Op = OpPop, in_Operand = 0, in_Str = []\<rparr>"
      by (rule loaded_fetchOp [OF p(3)], unfold c1(2), rule grows_refl [of "{}"])
    from run_push(5) [OF this] have pop: "reaches cs B (vm_at (Suc (pc c1)) (v # st) e') (vm_at (pc c') st e')" for v e'
      by (simp add: c1(2))
    have "carries cs B (vm_at (pc c) (rev [] @ st) e) (eval_bind (eval_exprs B args e) (\<lambda>vs e. call_value B f ([] @ vs) e)) (leaves (Suc (pc c1)) st)"
      by (rule run_call_code [OF c1(1) _ _ p(3)]) (use p(2) c1(2) grows_emitOp in auto)
    then have "carries cs B (vm_at (pc c) (rev [] @ st) e) (eval_bind (eval_bind (eval_exprs B args e) (\<lambda>vs e. call_value B f ([] @ vs) e))
        (\<lambda>v e. Val Normal e)) (lands cs c c' st)"
      by (rule carries_eq [OF refl])
        (auto intro!: carries_Val pop lands_Normal [where junk = "[]", simplified])
    then show ?thesis
      unfolding r using 3 by (simp add: exec_call_def eval_bind_assoc)
  qed
qed

lemma leaving_ok:
  "stmt_ok cs B BreakStmt (exec_stmt n B BreakStmt)" "stmt_ok cs B ContinueStmt (exec_stmt n B ContinueStmt)"
  "stmt_ok cs B (ReturnStmt v) (exec_stmt n B (ReturnStmt v))"
proof -
  have jump: "carries cs B (vm_at (pc c) st e) (Val l e) (lands cs c (emit_ins OpGoto 0 x c) st)"
    if j: "loaded cs c (emit_ins OpGoto 0 x c)" "cs_Labels cs x \<noteq> None" "c_loops c \<noteq> []"
      "l = Breaking \<and> x = snd (hd (c_loops c)) \<or> l = Continuing \<and> x = fst (hd (c_loops c))" for c st e l x
  proof -
    obtain q where q: "cs_Labels cs x = Some q"
      using j(2) by blast
    show ?thesis
      by (rule carries_Val [OF run_jump(1) [OF loaded_fetch [OF j(1) grows_refl] q]])
        (use j(3,4) q in \<open>auto simp: lands_def\<close>)
  qed
  show "stmt_ok cs B BreakStmt (exec_stmt n B BreakStmt)"
    by (rule stmt_okI) (auto simp: compileBreak_def currentLoop_def okc_def bound_def intro!: jump split: list.splits)
  show "stmt_ok cs B ContinueStmt (exec_stmt n B ContinueStmt)"
    by (rule stmt_okI) (auto simp: compileContinue_def currentLoop_def okc_def bound_def intro!: jump split: list.splits)
  have "carries cs B (vm_at (pc c) st e) (Stop e) (lands cs c (emitOp OpReturn c) st)" if "loaded cs c (emitOp OpReturn c)" for c st e
    using loaded_fetchOp [OF that grows_refl] reaches_refl
    by (auto simp: carries_def fetch_step vm_exec_ops intro!: exI [of _ "vm_at (pc c) st e"])
  then show "stmt_ok cs B (ReturnStmt v) (exec_stmt n B (ReturnStmt v))"
    by (intro stmt_okI) (auto simp: okc_def)
qed


abbreviation tests :: "nat \<Rightarrow> nat \<Rightarrow> script_value list \<Rightarrow> bool \<Rightarrow> 'h script_env \<Rightarrow> 'h vm \<Rightarrow> bool" where
  "tests p q st b e w \<equiv> w = vm_at (if b then p else q) st e"

lemma carries_test:
  assumes "on_test x f g = Some r" and "carries cs B vm x (tests p q st)"
    and "\<And>e. f e = Some r \<Longrightarrow> carries cs B (vm_at p st e) r K" and "\<And>e. g e = Some r \<Longrightarrow> carries cs B (vm_at q st e) r K"
  shows "carries cs B vm r K"
proof (cases x)
  case (Val b e)
  then have "reaches cs B vm (vm_at (if b then p else q) st e)"
    using assms(2) by (auto simp: carries_def)
  moreover have "carries cs B (vm_at (if b then p else q) st e) r K"
    using assms(1) Val by (cases b) (simp_all add: assms(3,4))
  ultimately show ?thesis
    by (rule carries_first)
qed (use assms(1,2) in \<open>auto simp: carries_def\<close>)

lemma run_test:
  assumes "compileExpr t c = (Inr (), c1)" and "small_calls t" and "loaded cs c c1"
    and "\<And>v e. reaches cs B (vm_at (pc c1) (v # st) e) (vm_at (if IsZero v then q else p) st e)"
  shows "carries cs B (vm_at (pc c) st e) (exec_test B (Some t) e) (tests p q st)"
proof -
  have "exec_test B (Some t) e = eval_bind (eval_expr B t e) (\<lambda>v e. Val (\<not> IsZero v) e)"
    by (simp add: exec_test_def)
  then show ?thesis
    by (rule carries_eq [OF _ expr_run [OF assms(1-3)]]) (simp, rule carries_Val [OF assms(4)], simp)
qed

lemma block_at:
  assumes "block_ok cs B n ss" and "compileBlockStmts ss c1 = (Inr (), c2)" and "structureds ss" and "loaded cs c1 c2"
    and "exec_block n B ss e = Some r" and "bound cs c" and "c_loops c1 = c_loops c"
    and "\<And>st e. reaches cs B (vm_at (pc c2) st e) (vm_at (pc c') st e)"
  shows "carries cs B (vm_at (pc c1) st e) r (lands cs c c' st)"
proof (rule carries_last)
  show "carries cs B (vm_at (pc c1) st e) r (lands cs c1 c2 st)"
    using assms(6) bound_cong [OF assms(7)] by (intro block_okD [OF assms(1-4) _ assms(5)]) simp
qed (use lands_lasts [OF _ assms(7,8)] in blast)

lemma if_ok:
  assumes a: "block_ok cs B n a" and b: "block_ok cs B n b"
  shows "stmt_ok cs B (IfStmt t a b) (exec_stmt n B (IfStmt t a b))"
proof (rule stmt_okI)
  fix c c' st e r
  assume p: "compileStmt (IfStmt t a b) c = (Inr (), c')" "structured (IfStmt t a b)" "loaded cs c c'" "bound cs c"
    and "exec_stmt n B (IfStmt t a b) e = Some r"
  then have x: "on_test (exec_test B (Some t) e) (exec_block n B a) (exec_block n B b) = Some r"
    by simp
  have s: "small_calls t" "structureds a" "structureds b"
    using p(2) by simp_all
  show "carries cs B (vm_at (pc c) st e) r (lands cs c c' st)"
    using p(1)
  proof (cases rule: if_code)
    case (2 c1 c3 c6)
    note f = fork [OF p(3) refl refl 2(5) compileExpr_grows [OF 2(2)] compileStmt_grows(2) [OF s(2) 2(3)] compileStmt_grows(2) [OF s(3) 2(4)]]
    show ?thesis
    proof (rule carries_test [OF x run_test [OF 2(2) s(1) f(1,4)]])
    qed (use block_at [OF a 2(3) s(2) f(2) _ p(4) f(7,5)] block_at [OF b 2(4) s(3) f(3) _ p(4) f(8,6)] in blast)+
  next
    case (1 c1 c3)
    let ?n = "label_name (c_label c1)"
    define c2 where "c2 = emit_ins OpJumpIfFalse 0 ?n (fresh c1)"
    note a' = 1(3) [folded c2_def]
    have g: "grows {c_label c1} c3 c'" "grows {c_label c1} c2 c3" "grows {} c c1"
      using grows_mark [of "c_label c1" "{c_label c1}" c3] compileStmt_grows(2) [OF s(2) a'] compileExpr_grows [OF 1(2)]
      by (simp_all add: 1(4))
    have g2: "grows {c_label c1} c2 c'"
      by (rule grows_trans [OF g(2,1)])
    have g12: "grows {c_label c1} (fresh c1) c2"
      unfolding c2_def by (rule grows_emit)
    have g1: "grows {c_label c1} c1 c'"
      by (rule grows_fresh) (use grows_trans [OF g12 g2] in simp)
    have ls: "c_label c2 = Suc (c_label c1)" "c_label c' = c_label c3"
      by (simp_all add: c2_def 1(4))
    have pc2: "pc c2 = Suc (pc c1)"
      by (simp add: c2_def)
    have n: "cs_Labels cs ?n = Some (pc c3)"
      using loaded_label [OF p(3) grows_refl [of "{}"], of "c_label c1"] growsD(2) [OF g(2)] growsD(2) [OF g(3)] ls by (simp add: 1(4))
    have l1: "loaded cs c c1"
      by (rule loaded_first [OF p(3) g1]) (use growsD(2) [OF g(3)] in auto)
    have l2: "loaded cs c2 c3"
      by (rule loaded_part [OF p(3) _ g(1)]) (use grows_trans [OF g(3) grows_fresh [OF grows_emit]] ls in \<open>auto simp: c2_def\<close>)
    have loops: "c_loops c2 = c_loops c"
      using growsD(3) [OF g12] growsD(3) [OF g(3)] by (simp add: freshLabel_def)
    have jump: "fetch cs (pc c1) \<lparr>in_Op = OpJumpIfFalse, in_Operand = 0, in_Str = ?n\<rparr>"
      using loaded_fetch [OF p(3) g2 [unfolded c2_def]] by simp
    have fin: "reaches cs B (vm_at (pc c3) st e) (vm_at (pc c') st e)" for st :: "script_value list" and e :: "'a script_env"
      using run_label [OF loaded_mark [OF p(3) [unfolded 1(4)] grows_refl [of "{}"]]] by (simp add: 1(4))
    show ?thesis
    proof (rule carries_test [OF x run_test [OF 1(2) s(1) l1, of B st "pc c3" "pc c2"]])
      show "reaches cs B (vm_at (pc c1) (v # st) e) (vm_at (if IsZero v then pc c3 else pc c2) st e)" for v e
        using run_jump(2) [OF jump n, of B v st e] unfolding pc2 .
      show "carries cs B (vm_at (pc c2) st e) r (lands cs c c' st)" if "exec_block n B a e = Some r" for e
        by (rule block_at [OF a a' s(2) l2 that p(4) loops fin])
      show "carries cs B (vm_at (pc c3) st e) r (lands cs c c' st)" if "exec_block n B b e = Some r" for e
        using that 1(1) fin [of st e] by (auto intro!: carries_Val lands_Normal [where junk = "[]", simplified])
    qed
  qed
qed


text \<open>The loops: the test at the start label, the body inside the loop frame, the way back, and the end label.\<close>

lemma loop_parts:
  assumes "loaded cs c c'"
    and "c1 = markLabel (label_name (c_label c)) (fresh (fresh c))"
    and "\<And>M. grows M c1 c2" and "\<And>M. grows M c2 (popLoop c3)" and "\<And>M. grows M (popLoop c3) c4"
    and "c' = markLabel (label_name (Suc (c_label c))) (emit_ins OpGoto 0 (label_name (c_label c)) c4)"
  shows "loaded cs c1 c2" and "loaded cs c2 c3" and "loaded cs (popLoop c3) c4"
    and "cs_Labels cs (label_name (c_label c)) = Some (pc c)" and "cs_Labels cs (label_name (Suc (c_label c))) = Some (Suc (pc c4))"
    and "reaches cs B (vm_at (pc c) st e) (vm_at (pc c1) st e)"
    and "reaches cs B (vm_at (pc c4) st e) (vm_at (pc c) st e)"
    and "reaches cs B (vm_at (Suc (pc c4)) st e) (vm_at (pc c') st e)"
    and "c_loops c2 = c_loops c" and "c_loops (popLoop c3) = c_loops c"
proof -
  let ?s = "label_name (c_label c)" and ?f = "label_name (Suc (c_label c))"
  let ?M = "{Suc (c_label c)}"
  have ls: "c_label c1 = Suc (Suc (c_label c))" "c_label c1 \<le> c_label c2" "c_label c2 \<le> c_label c3" "c_label c3 \<le> c_label c4" "c_label c' = c_label c4"
    using growsD(2) [OF assms(3)] growsD(2) [OF assms(4)] growsD(2) [OF assms(5)] by (simp_all add: assms(2,6))
  have pcs: "pc c1 = Suc (pc c)" "pc c' = Suc (Suc (pc c4))"
    by (simp_all add: assms(2,6))
  have g5: "grows ?M (emit_ins OpGoto 0 ?s c4) c'"
    unfolding assms(6) by (rule grows_mark) simp
  have g4: "grows ?M c4 c'"
    by (rule grows_trans [OF grows_emit g5])
  have g3: "grows ?M (popLoop c3) c'"
    by (rule grows_trans [OF assms(5) g4])
  have g2: "grows ?M c2 c'"
    by (rule grows_trans [OF assms(4) g3])
  have g1: "grows ?M c1 c'"
    by (rule grows_trans [OF assms(3) g2])
  have "grows {c_label c} (fresh (fresh c)) c1"
    unfolding assms(2) by (rule grows_mark) simp
  then have "grows {c_label c, Suc (c_label c)} (fresh (fresh c)) c1"
    by (rule grows_mono) simp
  then have g0: "grows {} c c1"
    by (rule grows_fresh2)
  show "loaded cs c1 c2"
    by (rule loaded_part [OF assms(1) g0 g2]) (use ls in auto)
  have "loaded cs c2 (popLoop c3)"
    by (rule loaded_part [OF assms(1) grows_trans [OF g0 assms(3)] g3]) (use ls in auto)
  then show "loaded cs c2 c3"
    by (simp add: loaded_def labels_of_def starts_with_def popLoop_def)
  show "loaded cs (popLoop c3) c4"
    by (rule loaded_part [OF assms(1) grows_trans [OF g0 grows_trans [OF assms(3,4)]] g4]) (use ls in auto)
  show s: "cs_Labels cs ?s = Some (pc c)"
    using loaded_label [OF assms(1) g1, of "c_label c"] ls by (simp add: assms(2))
  show f: "cs_Labels cs ?f = Some (Suc (pc c4))"
    using loaded_label [OF assms(1) grows_refl [of "{}"], of "Suc (c_label c)"] ls by (simp add: assms(6))
  show "reaches cs B (vm_at (pc c) st e) (vm_at (pc c1) st e)"
    using run_label [OF loaded_mark [OF assms(1) g1 [unfolded assms(2)]]] by (simp add: pcs)
  show "reaches cs B (vm_at (pc c4) st e) (vm_at (pc c) st e)"
    by (rule run_jump(1) [OF loaded_fetch [OF assms(1) g5] s])
  show "reaches cs B (vm_at (Suc (pc c4)) st e) (vm_at (pc c') st e)"
    using run_label [OF loaded_mark [OF assms(1) [unfolded assms(6)] grows_refl [of "{}"]]] by (simp add: pcs)
  show "c_loops c2 = c_loops c"
    using growsD(3) [OF g0] growsD(3) [OF assms(3)] by simp
  then show "c_loops (popLoop c3) = c_loops c"
    using growsD(3) [OF assms(4)] by simp
qed

lemma test_at:
  assumes "compile_test t fin c1 = (Inr (), c2)" and "small_test t" and "loaded cs c1 c2" and "cs_Labels cs fin = Some q"
  shows "carries cs B (vm_at (pc c1) st e) (exec_test B t e) (tests (pc c2) q st)"
proof (cases t)
  case None
  then show ?thesis
    using assms(1) by (auto simp: compile_test_def exec_test_def okc_def intro!: carries_Val reaches_refl)
next
  case (Some t')
  then obtain c0 where c: "compileExpr t' c1 = (Inr (), c0)" "c2 = emit_ins OpJumpIfFalse 0 fin c0"
    using assms(1) by (auto simp: compile_test_def compile_simps)
  have jump: "reaches cs B (vm_at (pc c0) (v # st) e) (vm_at (if IsZero v then q else pc c2) st e)" for v e
    using run_jump(2) [OF loaded_fetch [OF assms(3) [unfolded c(2)] grows_refl [of "{}"]] assms(4), of B v st e]
    unfolding c(2) pc_emit pc_simps .
  show ?thesis
    unfolding Some
    by (rule run_test [OF c(1) _ _ jump]) (use assms(2,3) Some loaded_first [OF assms(3) [unfolded c(2)] grows_emit [of "{}"]] in \<open>simp_all add: small_test_def\<close>)
qed

lemma lands_shift: "carries cs B w r (lands cs c c' (junk @ st)) \<Longrightarrow> carries cs B w r (lands cs c c' st)"
  by (erule carries_mono) (rule lands_weaken, auto)

text \<open>The body of a loop: what it does besides breaking is up to the rest of the round.\<close>

lemma carries_body:
  assumes "after_body x f = Some r"
    and "\<And>r1. x = Some r1 \<Longrightarrow> carries cs B vm r1 (lands cs (pushLoop cont brk c2) c3 st)"
    and "cs_Labels cs brk = Some q" and "\<And>st e. reaches cs B (vm_at q st e) (vm_at (pc c') st e)"
    and "\<And>e st junk. x = Some (Val Normal e) \<Longrightarrow> f e = Some r \<Longrightarrow> carries cs B (vm_at (pc c3) (junk @ st) e) r (lands cs c c' (junk @ st))"
    and "\<And>e st junk p. x = Some (Val Continuing e) \<Longrightarrow> cs_Labels cs cont = Some p \<Longrightarrow> f e = Some r \<Longrightarrow>
       carries cs B (vm_at p (junk @ st) e) r (lands cs c c' (junk @ st))"
  shows "carries cs B vm r (lands cs c c' st)"
proof -
  obtain r1 where r1: "x = Some r1"
    using assms(1) by (cases x) auto
  note body = assms(2) [OF r1]
  show ?thesis
  proof (cases r1)
    case (Val l e)
    then obtain w where w: "reaches cs B vm w" "lands cs (pushLoop cont brk c2) c3 st l e w"
      using body by (auto simp: carries_def)
    then obtain junk p where j: "w = vm_at p (junk @ st) e"
        "case l of Normal \<Rightarrow> p = pc c3 | Breaking \<Rightarrow> cs_Labels cs brk = Some p | Continuing \<Rightarrow> cs_Labels cs cont = Some p"
      by (cases l) (auto simp: lands_def pushLoop_def)
    show ?thesis
    proof (cases l)
      case Normal
      then have "carries cs B w r (lands cs c c' (junk @ st))"
        using assms(1,5) r1 Val j by simp
      then show ?thesis
        using carries_first [OF w(1)] lands_shift by blast
    next
      case Continuing
      then have "carries cs B w r (lands cs c c' (junk @ st))"
        using assms(1,6) r1 Val j by simp
      then show ?thesis
        using carries_first [OF w(1)] lands_shift by blast
    next
      case Breaking
      then have "r = Val Normal e" "p = q"
        using assms(1,3) r1 Val j by auto
      then show ?thesis
        using reaches_trans [OF w(1)] assms(4) lands_Normal j(1) by (auto intro!: carries_Val)
    qed
  qed (use body assms(1) r1 in \<open>auto simp: carries_def\<close>)
qed


text \<open>Without a \<open>continue\<close> of its own a statement does not end in one.\<close>

lemma exec_then_Some:
  "exec_then x f = Some r \<longleftrightarrow> (\<exists>e. x = Some (Val Normal e) \<and> f e = Some r) \<or> (x = Some r \<and> (\<forall>e. r \<noteq> Val Normal e))"
  by (cases "(x, f)" rule: exec_then.cases) auto

lemma eval_bind_Val: "eval_bind r f = Val v e \<longleftrightarrow> (\<exists>w e'. r = Val w e' \<and> f w e' = Val v e)"
  by (cases r) auto

lemma on_test_Val: "on_test x f g = Some (Val l e) \<longleftrightarrow> (\<exists>b e'. x = Val b e' \<and> (if b then f e' else g e') = Some (Val l e))"
  by (cases x) auto

lemma after_body_Val:
  "after_body x f = Some (Val l e) \<longleftrightarrow>
     (x = Some (Val Breaking e) \<and> l = Normal) \<or> (\<exists>k e'. x = Some (Val k e') \<and> k \<noteq> Breaking \<and> f e' = Some (Val l e))"
  by (cases "(x, f)" rule: after_body.cases) auto

lemma exec_assign_Normal: "exec_assign B lhs op rhs e = Val l e' \<Longrightarrow> l = Normal"
  by (cases "(B, lhs, op, rhs, e)" rule: exec_assign.cases) (auto simp: eval_bind_Val Let_def split: if_splits)

lemma exec_call_Normal: "exec_call B f args e = Val l e' \<Longrightarrow> l = Normal"
  by (auto simp: exec_call_def eval_bind_Val dest: exec_assign_Normal split: if_splits list.splits expr.splits)

lemma no_continue:
  "\<not> free_continue s \<Longrightarrow> exec_stmt n B s e \<noteq> Some (Val Continuing e')"
  "\<not> free_continues ss \<Longrightarrow> exec_block n B ss e \<noteq> Some (Val Continuing e')"
  "\<not> free_continues post \<Longrightarrow> exec_while n B t a post e \<noteq> Some (Val Continuing e')"
  "exec_do n B u a e \<noteq> Some (Val Continuing e')"
proof (induction n B s e and n B ss e and n B t a post e and n B u a e arbitrary: e' and e' and e' and e'
    rule: exec_stmt_exec_block_exec_while_exec_do.induct)
qed (auto simp: exec_then_Some on_test_Val after_body_Val eval_bind_Val exec_test_def split: if_splits
      dest: exec_assign_Normal exec_call_Normal)


lemma loaded_loop [simp]: "loaded cs (pushLoop x y c) c' \<longleftrightarrow> loaded cs c c'"
  by (simp add: loaded_def labels_of_def)

lemma bound_loop:
  assumes "bound cs c" and "c_loops c2 = c_loops c" and "cs_Labels cs x = Some p" and "cs_Labels cs y = Some q"
  shows "bound cs (pushLoop x y c2)"
  using assms by (simp add: bound_def pushLoop_def)

lemma loop_ok:
  assumes a: "block_ok cs B n a" and post: "block_ok cs B n post"
    and again: "stmt_ok cs B (ForStmt [] t post a) (exec_while n B t a post)"
  shows "stmt_ok cs B (ForStmt [] t post a) (exec_while (Suc n) B t a post)"
proof (rule stmt_okI)
  fix c c' st e r
  assume p: "compileStmt (ForStmt [] t post a) c = (Inr (), c')" "structured (ForStmt [] t post a)" "loaded cs c c'" "bound cs c"
    and run: "exec_while (Suc n) B t a post e = Some r"
  let ?rest = "\<lambda>e. exec_then (exec_block n B post e) (exec_while n B t a post)"
  from run have x: "on_test (exec_test B t e) (\<lambda>e. after_body (exec_block n B a e) ?rest) (\<lambda>e. Some (Val Normal e)) = Some r"
    by simp
  have s: "small_test t" "structureds a" "structureds post" "post \<noteq> [] \<Longrightarrow> \<not> free_continues a"
    using p(2) by simp_all
  let ?s = "label_name (c_label c)" and ?f = "label_name (Suc (c_label c))"
  define c1 where "c1 = markLabel ?s (fresh (fresh c))"
  obtain c2 c3 c4 where c: "compile_test t ?f c1 = (Inr (), c2)" "compileBlockStmts a (pushLoop ?s ?f c2) = (Inr (), c3)"
      "compileBlockStmts post (popLoop c3) = (Inr (), c4)" "c' = markLabel ?f (emit_ins OpGoto 0 ?s c4)"
    using p(1) unfolding c1_def by (rule loop_code)
  note l = loop_parts [OF p(3) c1_def compile_test_grows [OF c(1)] grows_loop [OF compileStmt_grows(2) [OF s(2) c(2)]]
      compileStmt_grows(2) [OF s(3) c(3)] c(4)]
  have round: "carries cs B (vm_at (pc c4) (junk @ st) e) r (lands cs c c' (junk @ st))" if "exec_while n B t a post e = Some r" for e st junk
    by (rule carries_first [OF l(7) stmt_okD [OF again p that]])
  have rest: "carries cs B (vm_at (pc c3) st e) r (lands cs c c' st)" if "?rest e = Some r" for e st
  proof (rule carries_then [OF that])
    show "carries cs B (vm_at (pc c3) st e) r1 (lands cs c c4 st)" if "exec_block n B post e = Some r1" for r1
      using block_at [OF post c(3) s(3) l(3) that p(4) l(10) reaches_refl] by simp
  qed (use round lands_shift in blast)
  show "carries cs B (vm_at (pc c) st e) r (lands cs c c' st)"
  proof (rule carries_first [OF l(6) carries_test [OF x test_at [OF c(1) s(1) l(1,5)]]])
    fix e
    assume b: "after_body (exec_block n B a e) ?rest = Some r"
    show "carries cs B (vm_at (pc c2) st e) r (lands cs c c' st)"
    proof (rule carries_body [OF b _ l(5,8)])
      show "carries cs B (vm_at (pc c2) st e) r1 (lands cs (pushLoop ?s ?f c2) c3 st)" if "exec_block n B a e = Some r1" for r1
        using block_okD [OF a c(2) s(2) _ bound_loop [OF p(4) l(9,4,5)] that] l(2) by simp
      show "carries cs B (vm_at p (junk @ st) e') r (lands cs c c' (junk @ st))"
        if "exec_block n B a e = Some (Val Continuing e')" "cs_Labels cs ?s = Some p" "?rest e' = Some r" for e' st junk p
      proof -
        have "post = []"
          using that(1) s(4) no_continue(2) by blast
        then have "exec_while n B t a post e' = Some r"
          using that(3) by simp
        from stmt_okD [OF again p this] show ?thesis
          using that(2) l(4) by simp
      qed
    qed (use rest in blast)
  next
    show "carries cs B (vm_at (Suc (pc c4)) st e) r (lands cs c c' st)" if "Some (Val Normal e) = Some r" for e
      using that l(8) [of B st e] by (auto intro!: carries_Val lands_Normal [where junk = "[]", simplified])
  qed
qed


lemma do_parts:
  assumes "loaded cs c c'"
    and "c1 = markLabel (label_name (c_label c)) (fresh (fresh (fresh c)))"
    and "\<And>M. grows M c1 (popLoop c2)" and "c3 = markLabel (label_name (Suc (c_label c))) (popLoop c2)" and "\<And>M. grows M c3 c4"
    and "c' = markLabel (label_name (Suc (Suc (c_label c)))) (emit_ins OpJumpIfTrue 0 (label_name (c_label c)) c4)"
  shows "loaded cs c1 c2" and "loaded cs c3 c4"
    and "cs_Labels cs (label_name (Suc (c_label c))) = Some (pc c2)"
    and "cs_Labels cs (label_name (Suc (Suc (c_label c)))) = Some (Suc (pc c4))"
    and "reaches cs B (vm_at (pc c) st e) (vm_at (pc c1) st e)"
    and "reaches cs B (vm_at (pc c2) st e) (vm_at (pc c3) st e)"
    and "reaches cs B (vm_at (pc c4) (v # st) e) (vm_at (if IsZero v then Suc (pc c4) else pc c) st e)"
    and "reaches cs B (vm_at (Suc (pc c4)) st e) (vm_at (pc c') st e)"
    and "c_loops c1 = c_loops c"
proof -
  let ?s = "label_name (c_label c)" and ?t = "label_name (Suc (c_label c))" and ?f = "label_name (Suc (Suc (c_label c)))"
  let ?M = "{Suc (c_label c), Suc (Suc (c_label c))}" and ?F = "{Suc (Suc (c_label c))}"
  have ls: "c_label c1 = Suc (Suc (Suc (c_label c)))" "c_label c1 \<le> c_label c2" "c_label c3 = c_label c2" "c_label c2 \<le> c_label c4" "c_label c' = c_label c4"
    using growsD(2) [OF assms(3)] growsD(2) [OF assms(5)] by (simp_all add: assms(2,4,6))
  have pcs: "pc c1 = Suc (pc c)" "pc c3 = Suc (pc c2)" "pc c' = Suc (Suc (pc c4))"
    by (simp_all add: assms(2,4,6))
  have g5: "grows ?F (emit_ins OpJumpIfTrue 0 ?s c4) c'"
    unfolding assms(6) by (rule grows_mark) simp
  have g4: "grows ?F c4 c'"
    by (rule grows_trans [OF grows_emit g5])
  have g3: "grows ?F c3 c'"
    by (rule grows_trans [OF assms(5) g4])
  have "grows ?M (popLoop c2) c3"
    unfolding assms(4) by (rule grows_mark) simp
  moreover have "grows ?M c3 c'"
    using g3 by (rule grows_mono) simp
  ultimately have g2: "grows ?M (popLoop c2) c'"
    by (rule grows_trans)
  have g1: "grows ?M c1 c'"
    by (rule grows_trans [OF assms(3) g2])
  have "grows {c_label c, Suc (c_label c), Suc (Suc (c_label c))} (fresh (fresh (fresh c))) c1"
    unfolding assms(2) by (rule grows_mark) simp
  then have g0: "grows {} c c1"
    by (rule grows_fresh3)
  have "loaded cs c1 (popLoop c2)"
    by (rule loaded_part [OF assms(1) g0 g2]) (use ls in auto)
  then show "loaded cs c1 c2"
    by (simp add: loaded_def labels_of_def starts_with_def popLoop_def)
  have "grows {Suc (c_label c)} c1 c3"
    using grows_trans [OF assms(3) grows_mark] by (simp add: assms(4))
  then have "grows {Suc (c_label c)} c c3"
    using g0 grows_mono grows_trans by blast
  then show "loaded cs c3 c4"
    by (rule loaded_part [OF assms(1) _ g4]) (use ls in auto)
  have s: "cs_Labels cs ?s = Some (pc c)"
    using loaded_label [OF assms(1) g1, of "c_label c"] ls by (simp add: assms(2))
  show t: "cs_Labels cs ?t = Some (pc c2)"
    using loaded_label [OF assms(1) g3, of "Suc (c_label c)"] ls by (simp add: assms(4))
  show f: "cs_Labels cs ?f = Some (Suc (pc c4))"
    using loaded_label [OF assms(1) grows_refl [of "{}"], of "Suc (Suc (c_label c))"] ls by (simp add: assms(6))
  show "reaches cs B (vm_at (pc c) st e) (vm_at (pc c1) st e)"
    using run_label [OF loaded_mark [OF assms(1) g1 [unfolded assms(2)]]] by (simp add: pcs)
  show "reaches cs B (vm_at (pc c2) st e) (vm_at (pc c3) st e)"
    using run_label [OF loaded_mark [OF assms(1) g3 [unfolded assms(4)]]] by (simp add: pcs)
  show "reaches cs B (vm_at (pc c4) (v # st) e) (vm_at (if IsZero v then Suc (pc c4) else pc c) st e)"
    by (rule run_jump(3) [OF loaded_fetch [OF assms(1) g5] s])
  show "reaches cs B (vm_at (Suc (pc c4)) st e) (vm_at (pc c') st e)"
    using run_label [OF loaded_mark [OF assms(1) [unfolded assms(6)] grows_refl [of "{}"]]] by (simp add: pcs)
  show "c_loops c1 = c_loops c"
    using growsD(3) [OF g0] by simp
qed

lemma do_ok:
  assumes a: "block_ok cs B n a" and again: "stmt_ok cs B (DoWhileStmt a t) (exec_do n B t a)"
  shows "stmt_ok cs B (DoWhileStmt a t) (exec_do (Suc n) B t a)"
proof (rule stmt_okI)
  fix c c' st e r
  assume p: "compileStmt (DoWhileStmt a t) c = (Inr (), c')" "structured (DoWhileStmt a t)" "loaded cs c c'" "bound cs c"
    and run: "exec_do (Suc n) B t a e = Some r"
  let ?rest = "\<lambda>e. on_test (exec_test B (Some t) e) (exec_do n B t a) (\<lambda>e. Some (Val Normal e))"
  from run have x: "after_body (exec_block n B a e) ?rest = Some r"
    by simp
  have s: "small_calls t" "structureds a"
    using p(2) by simp_all
  let ?s = "label_name (c_label c)" and ?t = "label_name (Suc (c_label c))" and ?f = "label_name (Suc (Suc (c_label c)))"
  define c1 where "c1 = markLabel ?s (fresh (fresh (fresh c)))"
  obtain c2 c4 where c: "compileBlockStmts a (pushLoop ?t ?f c1) = (Inr (), c2)" "compileExpr t (markLabel ?t (popLoop c2)) = (Inr (), c4)"
      "c' = markLabel ?f (emit_ins OpJumpIfTrue 0 ?s c4)"
    using p(1) unfolding c1_def by (rule do_code)
  note l = do_parts [OF p(3) c1_def grows_loop [OF compileStmt_grows(2) [OF s(2) c(1)]] refl compileExpr_grows [OF c(2)] c(3)]
  have rest: "carries cs B (vm_at (pc c2) st e) r (lands cs c c' st)" if "?rest e = Some r" for e st
  proof (rule carries_first [OF l(6) carries_test [OF that run_test [OF c(2) s(1) l(2,7)]]])
    show "carries cs B (vm_at (pc c) st e) r (lands cs c c' st)" if "exec_do n B t a e = Some r" for e
      by (rule stmt_okD [OF again p that])
    show "carries cs B (vm_at (Suc (pc c4)) st e) r (lands cs c c' st)" if "Some (Val Normal e) = Some r" for e
      using that l(8) [of B st e] by (auto intro!: carries_Val lands_Normal [where junk = "[]", simplified])
  qed
  show "carries cs B (vm_at (pc c) st e) r (lands cs c c' st)"
  proof (rule carries_first [OF l(5) carries_body [OF x _ l(4,8)]])
    show "carries cs B (vm_at (pc c1) st e) r1 (lands cs (pushLoop ?t ?f c1) c2 st)" if "exec_block n B a e = Some r1" for r1
      using block_okD [OF a c(1) s(2) _ bound_loop [OF p(4) l(9,3,4)] that] l(1) by simp
    show "carries cs B (vm_at p (junk @ st) e') r (lands cs c c' (junk @ st))"
      if "cs_Labels cs ?t = Some p" "?rest e' = Some r" for e' st junk p
      using rest [OF that(2)] that(1) l(3) by simp
  qed (use rest in blast)
qed

text \<open>Every structured statement, by induction on the fuel and then on the statement.\<close>

lemma for_ok:
  assumes init: "block_ok cs B n init" and loop: "stmt_ok cs B (ForStmt [] t post a) (exec_while n B t a post)"
  shows "stmt_ok cs B (ForStmt init t post a) (exec_stmt n B (ForStmt init t post a))"
proof (rule stmt_okI)
  fix c c' st e r
  assume p: "compileStmt (ForStmt init t post a) c = (Inr (), c')" "structured (ForStmt init t post a)" "loaded cs c c'" "bound cs c"
    and run: "exec_stmt n B (ForStmt init t post a) e = Some r"
  from run have x: "exec_then (exec_block n B init e) (exec_while n B t a post) = Some r"
    by simp
  obtain c0 where c: "compileBlockStmts init c = (Inr (), c0)" "compileStmt (ForStmt [] t post a) c0 = (Inr (), c')"
    using p(1) by (rule for_code)
  have s: "structureds init" "structured (ForStmt [] t post a)"
    using p(2) by simp_all
  note g = compileStmt_grows(2) [OF s(1) c(1), of "{}"] compileStmt_grows(1) [OF s(2) c(2), of "{}"]
  have loops: "c_loops c0 = c_loops c"
    by (rule growsD(3) [OF g(1)])
  have b: "bound cs c0"
    using p(4) bound_cong [OF loops] by simp
  show "carries cs B (vm_at (pc c) st e) r (lands cs c c' st)"
  proof (rule carries_then [OF x])
    show "carries cs B (vm_at (pc c) st e) r1 (lands cs c c0 st)" if "exec_block n B init e = Some r1" for r1
      by (rule block_okD [OF init c(1) s(1) loaded_first [OF p(3) g(2)] p(4) that]) simp
    show "carries cs B (vm_at (pc c0) (junk @ st) e') r (lands cs c c' st)" if "exec_while n B t a post e' = Some r" for e' junk
      using stmt_okD [OF loop c(2) s(2) loaded_second [OF p(3) g(1)] b that]
      by (rule carries_mono) (use lands_weaken loops in blast)
  qed
qed

lemma assign_ok: "stmt_ok cs B (AssignStmt lhs op rhs) (exec_stmt n B (AssignStmt lhs op rhs))"
proof (rule stmt_okI)
  fix c c' st e r
  assume p: "compileStmt (AssignStmt lhs op rhs) c = (Inr (), c')" "structured (AssignStmt lhs op rhs)" "loaded cs c c'"
    "exec_stmt n B (AssignStmt lhs op rhs) e = Some r"
  have "carries cs B (vm_at (pc c) st e) (exec_assign B lhs op rhs e) (goes_on (pc c') st)"
    using p(1,2,3) by (intro run_assign) simp_all
  then show "carries cs B (vm_at (pc c) st e) r (lands cs c c' st)"
    using p(4) by (auto elim!: carries_mono intro: lands_Normal [where junk = "[]", simplified])
qed

lemma stmts_ok:
  assumes "\<And>t a post. stmt_ok cs B (ForStmt [] t post a) (exec_while n B t a post)"
    and "\<And>t a. stmt_ok cs B (DoWhileStmt a t) (exec_do n B t a)"
  shows "stmt_ok cs B s (exec_stmt n B s)" and "block_ok cs B n ss"
proof (induction s and ss rule: structured_structureds.induct)
  case (4 t a)
  show ?case
    using assms(1) [of "Some t" "[]" a] unfolding stmt_ok_def while_is_for exec_stmt.simps by (simp add: small_test_def)
next
  case (6 init t post a)
  show ?case
    by (rule for_ok [OF "6.IH"(1) assms(1)])
next
  case (5 a t)
  show ?case
    using assms(2) [of a t] by (simp add: stmt_ok_def)
next
  case (3 t a b)
  then show ?case
    by (rule if_ok)
next
  case (15 s ss)
  then show ?case
    by (rule block_ok_Cons)
qed (simp_all only: assign_ok call_ok leaving_ok block_ok_Nil, simp_all add: stmt_ok_def)

lemma all_ok:
  "(\<forall>s. stmt_ok cs B s (exec_stmt n B s)) \<and> (\<forall>ss. block_ok cs B n ss) \<and>
   (\<forall>t a post. stmt_ok cs B (ForStmt [] t post a) (exec_while n B t a post)) \<and> (\<forall>t a. stmt_ok cs B (DoWhileStmt a t) (exec_do n B t a))"
proof (induction n)
  case 0
  have "stmt_ok cs B (ForStmt [] t post a) (exec_while 0 B t a post)" "stmt_ok cs B (DoWhileStmt a u) (exec_do 0 B u a)" for t u a post
    by (simp_all only: stmt_ok_def exec_while.simps exec_do.simps option.distinct simp_thms)
  then show ?case
    using stmts_ok [of cs B 0] by blast
next
  case (Suc n)
  have "stmt_ok cs B (ForStmt [] t post a) (exec_while (Suc n) B t a post)" "stmt_ok cs B (DoWhileStmt a u) (exec_do (Suc n) B u a)" for t u a post
    by (rule loop_ok; use Suc in blast) (rule do_ok; use Suc in blast)
  then show ?case
    using stmts_ok [of cs B "Suc n"] by blast
qed


section \<open>Compiled scripts\<close>

lemma run_of_reaches:
  assumes "reaches cs B v w" and "vm_step cs B w = r" and "\<And>u. r \<noteq> Running u"
  shows "\<exists>m. vm_Run m cs B v = Some r"
  using assms(1) unfolding reaches_def
proof (induction rule: converse_rtranclp_induct)
  case base
  have "vm_Run 1 cs B w = Some r"
    using assms(2,3) by (cases r) auto
  then show ?case
    by blast
next
  case (step y z)
  then obtain m where "vm_Run m cs B z = Some r"
    by blast
  then have "vm_Run (Suc m) cs B y = Some r"
    using step(1) by simp
  then show ?case
    by blast
qed

fun ending :: "('a, 'h) eval \<Rightarrow> 'h outcome" where
  "ending (Val l e) = Halted e"
| "ending (Stop e) = Halted e"
| "ending (Fault m e) = Failed m e"

text \<open>
  C1. The compiler and the machine implement the structured part of the language. The bodies meant
  (\<open>structureds\<close>) consist of calls, assignments, \<open>if\<close>, \<open>while\<close>, \<open>do\<close> and \<open>for\<close> loops, \<open>break\<close>,
  \<open>continue\<close> and \<open>return\<close>, under four conditions: no label is declared and no \<open>menu\<close> statement occurs (so
  nothing jumps; the evaluator has no value for \<open>goto\<close>, \<open>callsub\<close> and \<open>switch\<close>); an array element is assigned with \<open>=\<close>
  only, since a compound operator is dropped there (\<open>array_elements_overwritten\<close>); a \<open>for\<close> with a post clause has
  no \<open>continue\<close> of its own, since that skips the post clause (\<open>for_continue_never_halts\<close>); and a call has fewer
  than \<open>2\<^sup>3\<^sup>1\<close> arguments. For such a body that compiles: when the evaluator on syntax trees finishes it, the
  compiled bytecode run by the machine halts as well, with the same error, or with the same variables
  and the same host. (The reference names an array element by the value of its array expression, as the code does.)
\<close>

theorem compiled_script_correct:
  assumes "compile_body k name body = (Inr cs, k')" and "structureds body"
    and "exec_block n B body \<lparr>ev_vars = vars, ev_host = h\<rparr> = Some r"
  shows "\<exists>m. vm_Run m cs B (NewVM vars h) = Some (ending r)"
proof -
  let ?c0 = "\<lparr>c_Instructions = [], c_Labels = Map.empty, c_label = k, c_loops = []\<rparr>" and ?e = "\<lparr>ev_vars = vars, ev_host = h\<rparr>"
  obtain c where c: "compileBlockStmts body ?c0 = (Inr (), c)"
      "cs = \<lparr>cs_Name = name, cs_Instructions = c_Instructions (emitOp OpEOF c), cs_Labels = c_Labels (emitOp OpEOF c)\<rparr>"
    using assms(1) by (auto simp: compile_body_def Let_def split: prod.splits sum.splits)
  have l: "loaded cs ?c0 c"
    by (simp add: loaded_def starts_with_def labels_of_def c(2)) (simp add: emitOp_def emit_ins_def)
  have "block_ok cs B n body"
    using all_ok by blast
  from block_okD [OF this c(1) assms(2) l _ assms(3), of "[]"]
  have run: "carries cs B (vm_at 0 [] ?e) r (lands cs ?c0 c [])"
    by (simp add: bound_def)
  have eof: "vm_step cs B (vm_at (pc c) st e) = Halted e" for st e
    by (simp add: vm_step_def c(2) emitOp_def emit_ins_def vm_exec_ops)
  have "\<exists>w. reaches cs B (vm_at 0 [] ?e) w \<and> vm_step cs B w = ending r"
  proof (cases r)
    case (Val l e)
    then show ?thesis
      using run eof by (cases l) (auto simp: carries_def lands_def)
  qed (use run in \<open>auto simp: carries_def\<close>)
  moreover have "ending r \<noteq> Running u" for u
    by (cases r) simp_all
  ultimately show ?thesis
    using run_of_reaches unfolding NewVM_def by metis
qed

lemma countdown_exec:
  "case exec_block 5 (DefaultBuiltins log_host) countdown \<lparr>ev_vars = Map.empty, ev_host = []\<rparr> of
     Some (Stop e) \<Rightarrow> ev_host e = [''left: 3'', ''left: 2'', ''left: 1'', ''close''] | _ \<Rightarrow> False"
  by code_simp

lemma stop_caseD: "(case x of Some (Stop e) \<Rightarrow> P e | _ \<Rightarrow> False) \<Longrightarrow> \<exists>e. x = Some (Stop e) \<and> P e"
  by (simp split: option.splits eval.splits)

theorem compiled_script_correct_witness:
  "\<exists>m. case vm_Run m countdown_script (DefaultBuiltins log_host) (NewVM Map.empty []) of
         Some (Halted e) \<Rightarrow> ev_host e = [''left: 3'', ''left: 2'', ''left: 1'', ''close''] | _ \<Rightarrow> False"
proof -
  obtain e where e: "exec_block 5 (DefaultBuiltins log_host) countdown \<lparr>ev_vars = Map.empty, ev_host = []\<rparr> = Some (Stop e)"
      "ev_host e = [''left: 3'', ''left: 2'', ''left: 1'', ''close'']"
    using stop_caseD [OF countdown_exec] by (elim exE conjE) (rule that)
  have "structureds countdown"
    by (simp add: countdown_def)
  from compiled_script_correct [OF compile_countdown this e(1)] obtain m where
    m: "vm_Run m countdown_script (DefaultBuiltins log_host) (NewVM Map.empty []) = Some (Halted e)"
    by (auto simp only: ending.simps)
  show ?thesis
    by (rule exI [of _ m]) (simp only: m option.case outcome.case e(2))
qed

text \<open>A \<open>for\<close> loop that skips its second round with \<open>continue\<close>, and what it compiles to.\<close>

definition skip_two :: "stmt list" where
  "skip_two =
     [ForStmt [AssignStmt (IdentExpr ''i'') ''='' (IntLit 1)] (Some (BinExpr ''<'' (IdentExpr ''i'') (IntLit 4)))
        [AssignStmt (IdentExpr ''i'') ''+='' (IntLit 1)]
        [IfStmt (BinExpr ''=='' (IdentExpr ''i'') (IntLit 2)) [ContinueStmt] [],
         CallStmt ''mes'' [IdentExpr ''i'']]]"

definition skip_script :: compiled_script where
  "skip_script = script_of
     [(OpInt, 1, []), (OpAssign, 0, ''i''), (OpLabel, 0, []), (OpVar, 0, ''i''), (OpInt, 4, []), (OpLLT, 0, []),
      (OpJumpIfFalse, 0, ''__c1''), (OpVar, 0, ''i''), (OpInt, 2, []), (OpLEq, 0, []), (OpJumpIfFalse, 0, ''__c2''),
      (OpGoto, 0, ''__c0''), (OpLabel, 0, []), (OpVar, 0, ''i''), (OpFunc, 1, ''mes''), (OpPop, 0, []),
      (OpVar, 0, ''i''), (OpInt, 1, []), (OpAdd, 0, []), (OpAssign, 0, ''i''), (OpGoto, 0, ''__c0''), (OpLabel, 0, []), (OpEOF, 0, [])]
     [(''__c1'', 21), (''__c2'', 12), (''__c0'', 2)]"

lemma label_name_two: "label_name (Suc (Suc 0)) = ''__c2''"
  by code_simp

lemma compile_skip_two: "compile_body 0 ''test'' skip_two = (Inr skip_script, 3)"
  by (simp add: skip_two_def skip_script_def script_of_def compile_eval label_name_two fun_eq_iff cong: and_then_weak)

lemma skip_two_exec:
  "case exec_block 5 (DefaultBuiltins log_host) skip_two \<lparr>ev_vars = Map.empty, ev_host = []\<rparr> of
     Some (Val l e) \<Rightarrow> ev_host e = [''1'', ''3''] | _ \<Rightarrow> False"
  by code_simp

text \<open>A machine that comes round to where it was never halts.\<close>

lemma vm_Run_later:
  assumes "(\<lambda>v w. vm_step cs B v = Running w)\<^sup>+\<^sup>+ v w" and "vm_Run n cs B v = Some r"
  shows "\<exists>m<n. vm_Run m cs B w = Some r"
  using assms
proof (induction arbitrary: n rule: converse_tranclp_induct)
  case (base v)
  then show ?case
    by (cases n) auto
next
  case (step v u)
  then obtain k where "n = Suc k" "vm_Run k cs B u = Some r"
    by (cases n) auto
  then show ?case
    using step.IH less_Suc_eq by blast
qed

lemma vm_Run_cycle:
  assumes "(\<lambda>v w. vm_step cs B v = Running w)\<^sup>+\<^sup>+ v v"
  shows "vm_Run n cs B v = None"
proof (induction n rule: less_induct)
  case (less n)
  then show ?case
    using vm_Run_later [OF assms] by (cases "vm_Run n cs B v") fastforce+
qed

lemma vm_Run_to_cycle:
  assumes "reaches cs B v w" and "\<And>n. vm_Run n cs B w = None"
  shows "vm_Run n cs B v = None"
proof (cases "v = w")
  case False
  then have "(\<lambda>v w. vm_step cs B v = Running w)\<^sup>+\<^sup>+ v w"
    using assms(1) rtranclpD unfolding reaches_def by metis
  then show ?thesis
    using vm_Run_later assms(2) by (cases "vm_Run n cs B v") fastforce+
qed (use assms(2) in simp)

fun steps :: "nat \<Rightarrow> compiled_script \<Rightarrow> (string \<rightharpoonup> 'h builtin) \<Rightarrow> 'h vm \<Rightarrow> 'h vm option" where
  "steps 0 cs B v = Some v"
| "steps (Suc n) cs B v = (case vm_step cs B v of Running w \<Rightarrow> steps n cs B w | _ \<Rightarrow> None)"

lemma steps_reaches: "steps n cs B v = Some w \<Longrightarrow> reaches cs B v w"
proof (induction n arbitrary: v)
  case (Suc n)
  then obtain u where "vm_step cs B v = Running u" "steps n cs B u = Some w"
    by (auto split: outcome.splits)
  then show ?case
    using Suc.IH reaches_step reaches_trans by blast
qed (simp add: reaches_refl)

lemma skip_arrives:
  "case steps 20 skip_script (DefaultBuiltins log_host) (NewVM Map.empty []) of
     Some w \<Rightarrow> vm_ip w = 2 \<and> vm_stack w = [] \<and> vm_callstack w = [] \<and> env_GetVar ''i'' (vm_env w) = IntVal 2
   | None \<Rightarrow> False"
  by code_simp

lemma skip_code:
  "fetch skip_script 2 \<lparr>in_Op = OpLabel, in_Operand = 0, in_Str = []\<rparr>" "fetch skip_script 3 \<lparr>in_Op = OpVar, in_Operand = 0, in_Str = ''i''\<rparr>"
  "fetch skip_script 4 \<lparr>in_Op = OpInt, in_Operand = 4, in_Str = []\<rparr>" "fetch skip_script 5 \<lparr>in_Op = OpLLT, in_Operand = 0, in_Str = []\<rparr>"
  "fetch skip_script 6 \<lparr>in_Op = OpJumpIfFalse, in_Operand = 0, in_Str = ''__c1''\<rparr>"
  "fetch skip_script 7 \<lparr>in_Op = OpVar, in_Operand = 0, in_Str = ''i''\<rparr>" "fetch skip_script 8 \<lparr>in_Op = OpInt, in_Operand = 2, in_Str = []\<rparr>"
  "fetch skip_script 9 \<lparr>in_Op = OpLEq, in_Operand = 0, in_Str = []\<rparr>"
  "fetch skip_script 10 \<lparr>in_Op = OpJumpIfFalse, in_Operand = 0, in_Str = ''__c2''\<rparr>"
  "fetch skip_script 11 \<lparr>in_Op = OpGoto, in_Operand = 0, in_Str = ''__c0''\<rparr>"
  by code_simp+

lemma skip_labels:
  "cs_Labels skip_script ''__c0'' = Some 2" "cs_Labels skip_script ''__c1'' = Some 21" "cs_Labels skip_script ''__c2'' = Some 12"
  by code_simp+

lemma run_compare:
  "fetch cs p \<lparr>in_Op = OpLLT, in_Operand = n, in_Str = s\<rparr> \<Longrightarrow>
     reaches cs B (vm_at p (IntVal j # IntVal i # st) e) (vm_at (Suc p) (boolVal (i < j) # st) e)"
  "fetch cs p \<lparr>in_Op = OpLEq, in_Operand = n, in_Str = s\<rparr> \<Longrightarrow>
     reaches cs B (vm_at p (IntVal j # IntVal i # st) e) (vm_at (Suc p) (boolVal (i = j) # st) e)"
  by (intro reaches_step, simp add: fetch_step vm_exec_binary binary_ops_def binary_value_def fall_def pop2_def)+

lemma skip_round:
  assumes "env_GetVar ''i'' e = IntVal 2"
  shows "(\<lambda>v w. vm_step skip_script B v = Running w)\<^sup>+\<^sup>+ (vm_at 2 [] e) (vm_at 2 [] e)"
proof (rule tranclp_rtranclp_tranclp [OF tranclp.r_into_trancl])
  show "vm_step skip_script B (vm_at 2 [] e) = Running (vm_at 3 [] e)"
    using skip_code(1) by (simp add: fetch_step vm_exec_ops fall_def)
  have "reaches skip_script B (vm_at 3 [] e) (vm_at 4 [IntVal 2] e)"
    using run_push(3) [OF skip_code(2), of B "[]" e] by (simp add: assms)
  also have "reaches skip_script B (vm_at 4 [IntVal 2] e) (vm_at 5 [IntVal 4, IntVal 2] e)"
    using run_push(1) [OF skip_code(3), of B "[IntVal 2]" e] by simp
  also have "reaches skip_script B (vm_at 5 [IntVal 4, IntVal 2] e) (vm_at 6 [boolVal True] e)"
    using run_compare(1) [OF skip_code(4), of B 4 2 "[]" e] by simp
  also have "reaches skip_script B (vm_at 6 [boolVal True] e) (vm_at 7 [] e)"
    using run_jump(2) [OF skip_code(5) skip_labels(2), of B "boolVal True" "[]" e] by (simp add: boolVal_def)
  also have "reaches skip_script B (vm_at 7 [] e) (vm_at 8 [IntVal 2] e)"
    using run_push(3) [OF skip_code(6), of B "[]" e] by (simp add: assms)
  also have "reaches skip_script B (vm_at 8 [IntVal 2] e) (vm_at 9 [IntVal 2, IntVal 2] e)"
    using run_push(1) [OF skip_code(7), of B "[IntVal 2]" e] by simp
  also have "reaches skip_script B (vm_at 9 [IntVal 2, IntVal 2] e) (vm_at 10 [boolVal True] e)"
    using run_compare(2) [OF skip_code(8), of B 2 2 "[]" e] by simp
  also have "reaches skip_script B (vm_at 10 [boolVal True] e) (vm_at 11 [] e)"
    using run_jump(2) [OF skip_code(9) skip_labels(3), of B "boolVal True" "[]" e] by (simp add: boolVal_def)
  also have "reaches skip_script B (vm_at 11 [] e) (vm_at 2 [] e)"
    by (rule run_jump(1) [OF skip_code(10) skip_labels(1)])
  finally show "(\<lambda>v w. vm_step skip_script B v = Running w)\<^sup>*\<^sup>* (vm_at 3 [] e) (vm_at 2 [] e)"
    unfolding reaches_def .
qed

text \<open>
  C28. A \<open>continue\<close> in a \<open>for\<close> loop is compiled as a jump to the test, not to the post clause: a loop that the
  evaluator finishes, having shown 1 and 3, never halts when compiled.
\<close>

theorem for_continue_never_halts:
  "compile_body 0 ''test'' skip_two = (Inr skip_script, 3) \<and>
   (case exec_block 5 (DefaultBuiltins log_host) skip_two \<lparr>ev_vars = Map.empty, ev_host = []\<rparr> of
      Some (Val l e) \<Rightarrow> ev_host e = [''1'', ''3''] | _ \<Rightarrow> False) \<and>
   (\<forall>n. vm_Run n skip_script (DefaultBuiltins log_host) (NewVM Map.empty []) = None)"
proof (intro conjI allI)
  obtain w where "steps 20 skip_script (DefaultBuiltins log_host) (NewVM Map.empty []) = Some w"
      "vm_ip w = 2" "vm_stack w = []" "vm_callstack w = []" "env_GetVar ''i'' (vm_env w) = IntVal 2"
    using skip_arrives by (cases "steps 20 skip_script (DefaultBuiltins log_host) (NewVM Map.empty [])") auto
  moreover from this have "w = vm_at 2 [] (vm_env w)"
    by simp
  ultimately show "vm_Run n skip_script (DefaultBuiltins log_host) (NewVM Map.empty []) = None" for n
    using vm_Run_to_cycle [OF steps_reaches] vm_Run_cycle [OF skip_round] by metis
qed (rule compile_skip_two, rule skip_two_exec)

text \<open>Five into an array element, two added to it, and the same element of another array.\<close>

definition elements :: "stmt list" where
  "elements =
     [AssignStmt (IndexExpr (IdentExpr ''a'') (IntLit 1)) ''='' (IntLit 5),
      AssignStmt (IndexExpr (IdentExpr ''a'') (IntLit 1)) ''+='' (IntLit 2),
      CallStmt ''mes'' [IndexExpr (IdentExpr ''a'') (IntLit 1)],
      CallStmt ''mes'' [IndexExpr (IdentExpr ''b'') (IntLit 1)]]"

definition elements_script :: compiled_script where
  "elements_script = script_of
     [(OpVar, 0, ''a''), (OpInt, 1, []), (OpInt, 5, []), (OpIndexSet, 0, []),
      (OpVar, 0, ''a''), (OpInt, 1, []), (OpInt, 2, []), (OpIndexSet, 0, []),
      (OpVar, 0, ''a''), (OpInt, 1, []), (OpIndexGet, 0, []), (OpFunc, 1, ''mes''), (OpPop, 0, []),
      (OpVar, 0, ''b''), (OpInt, 1, []), (OpIndexGet, 0, []), (OpFunc, 1, ''mes''), (OpPop, 0, []), (OpEOF, 0, [])] []"

lemma compile_elements: "compile_body 0 ''test'' elements = (Inr elements_script, 0)"
  by (simp add: elements_def elements_script_def script_of_def compile_eval fun_eq_iff cong: and_then_weak)

text \<open>
  Remark. Array elements. A compound assignment to an element is compiled as a plain one, and the element's
  cell is named after the array's value rather than its name, so that the elements of all unset arrays are
  one: after \<open>a[1] = 5; a[1] += 2;\<close> both \<open>a[1]\<close> and \<open>b[1]\<close> show 2.
\<close>

theorem array_elements_overwritten:
  "compile_body 0 ''test'' elements = (Inr elements_script, 0) \<and>
   (case vm_Run 20 elements_script (DefaultBuiltins log_host) (NewVM Map.empty []) of
      Some (Halted e) \<Rightarrow> ev_host e = [''2'', ''2''] | _ \<Rightarrow> False)"
proof
  show "case vm_Run 20 elements_script (DefaultBuiltins log_host) (NewVM Map.empty []) of
      Some (Halted e) \<Rightarrow> ev_host e = [''2'', ''2''] | _ \<Rightarrow> False"
    by code_simp
qed (rule compile_elements)

end
