(* ===== verification/Spec2Isabelle.thy ===== *)
theory Spec2Isabelle
  imports MapAnswers Frames Character Trade Leveling Gear Mobs Mail Guild Friend Quest Pathfinding ScriptSemantics
begin

text \<open>
  \<^bold>\<open>goAthena: a verification development of the Ragnarok Online server under \<open>src/\<close>.\<close>

  \<^bold>\<open>The program.\<close> goAthena is one Go process with three TCP listeners (login, character, map) in
  \<open>internal/modules/gateway\<close>, bounded contexts behind ports (\<open>account\<close>, \<open>character\<close>, \<open>economy\<close>,
  \<open>inventory\<close>, \<open>commerce\<close>, \<open>social\<close>, \<open>content\<close>, \<open>world\<close>) under \<open>internal/modules\<close>, and pure game
  libraries in \<open>pkg/ro\<close> (packets, area of interest, statistics, combat, skill trees, path finding, the NPC
  script language). A listener cuts its byte stream into frames with the packet length database, a handler
  decodes the frame, calls application services, and the services change repositories and the live
  world. The in-memory repositories are the ones modelled: they are the port's reference
  implementation, used by the program's own tests and its development profile.

  \<^bold>\<open>Conventions.\<close> Go's sized integers are words (\<open>u8\<close> to \<open>u64\<close>, signed reading by \<open>sint\<close>), so wrap-around
  is the code's. A method is a function from the state to \<open>(error + 'a) \<times> state\<close>, and \<open>and_then\<close> is the
  early return on \<open>err != nil\<close>; the error values are \<open>go_error\<close> in \<open>GoPrelude\<close>. Each mutex-protected
  method is one atomic step; histories of methods are lists of operations or inductive step relations,
  and the invariants hold after every history. Maps are \<open>\<rightharpoonup>\<close> or association lists where Go's unspecified
  iteration order matters, and then the order is a parameter. Clocks, random numbers, database rows and
  the files of the game data are parameters. A packet is a list of bytes.

  \<^bold>\<open>The theories, from the leaves up.\<close>

  \<^item> \<open>GoPrelude\<close>: words, errors, \<open>and_then\<close>, lists and maps with the lemmas and collections all other
    theories use. \<open>GoText\<close>: Go's \<open>strings\<close>/\<open>strconv\<close> on ASCII strings.

  \<^item> \<open>Character\<close> (\<open>character/{domain,app,infra/memory}\<close>): the character table, creation, deletion and
    authorization against the session table. Creation keeps slots distinct and within the limit.

  \<^item> \<open>Economy\<close> (\<open>economy/*\<close>): the zeny value object, the ledger and the service. Money and ledger
    reconcile after every history; a deduction is all or nothing; an account may be credited into a frozen state.

  \<^item> \<open>Inventory\<close>, \<open>Storage\<close>, \<open>BagTransfer\<close> (\<open>inventory/*\<close>, \<open>commerce/storage/*\<close>, \<open>world/app/storage.go\<close>): bag and
    warehouse rows, merging, counting, and the transfer between the two. The locale of an item store is
    interpreted on both repositories; the transfer moves exactly, or loses units when the warehouse is full.

  \<^item> \<open>Shop\<close> (\<open>commerce/shop\<close>): buying and selling with the money of \<open>Economy\<close> and the bag of \<open>Inventory\<close>.
    \<open>Trade\<close> (\<open>world/app/trade.go\<close>): the two-sided session machine; sessions stay paired and a swap is all or nothing,
    unless a payment lands on \<open>2^31\<close> zeny. \<open>Mail\<close> (\<open>social/mail\<close>): sending with postage and attachments, reading,
    collecting, deleting; units are conserved, and so is money when the postage spent is counted.

  \<^item> \<open>AoiGrid\<close>, \<open>World\<close>, \<open>WorldPersist\<close> (\<open>pkg/ro/aoi\<close>, \<open>world/app/world.go\<close>, \<open>world/infra/memory.go\<close>): the tower
    grid, the entity registry with its vitals, and entering and leaving against the character table.
    Viewport queries are exactly the registered entities on the canvas in range, after any calls but a relocation onto a
    map without a grid.

  \<^item> \<open>Stats\<close>, \<open>Leveling\<close>, \<open>Databases\<close>, \<open>Combat\<close> (\<open>pkg/ro/statcalc\<close>, \<open>jobexp\<close>, \<open>jobbasepoints\<close>, \<open>combat\<close>, \<open>attrfix\<close>,
    \<open>sizefix\<close>, \<open>itemdb\<close>, \<open>mobdb\<close>, \<open>equip\<close>; \<open>world/app/leveling.go\<close>, \<open>combat.go\<close>): formulas at their widths, the level-up
    loop, and the melee kernel against a textbook reference, absorbing (negative) rates included.

  \<^item> \<open>Gear\<close> (\<open>world/app/{equip,itemuse,scriptinv}.go\<close>), \<open>SkillTree\<close>, \<open>Skill\<close> (\<open>pkg/ro/skilldb\<close>, \<open>skilltree\<close>;
    \<open>world/app/skill.go\<close>): worn slots, consumables, skill trees that inherit from their direct ancestors, with the cycle check, casting and learning.

  \<^item> \<open>Mobs\<close> (\<open>world/app/{spawn,flooritem,seeder,mobai}.go\<close>): spawning, respawn timers, floor items, the
    seeder, and the monster AI tick. \<open>Pathfinding\<close> (\<open>pkg/ro/pathfinding\<close>): A* with Go's binary heap, line of sight.

  \<^item> \<open>Party\<close>, \<open>Guild\<close>, \<open>Friend\<close> (\<open>social/*\<close>), \<open>Quest\<close> (\<open>content/quest\<close>): rosters and variables.

  \<^item> \<open>ScriptVM\<close>, \<open>ScriptCompiler\<close>, \<open>ScriptTyping\<close>, \<open>ScriptSemantics\<close> (\<open>pkg/ro/script\<close>): the stack machine, the
    single-pass compiler from syntax trees, the stack discipline of its output, and an independent big-step
    evaluator that compiled code is proved to agree with, outside the constructs named there (among them a
    \<open>continue\<close> in a \<open>for\<close> with a post clause, where the two are proved to differ).

  \<^item> \<open>Wire\<close>, \<open>PacketLogin\<close>, \<open>PacketMap\<close>, \<open>PacketServer\<close>, \<open>PacketTrade\<close>, \<open>PacketSocial\<close>, \<open>PacketDB\<close>, \<open>Framing\<close>, \<open>Frames\<close>
    (\<open>pkg/ro/packet\<close>; \<open>OnTraffic\<close> of \<open>gateway/app/{login,char,map}.go\<close>): every encoder and parser, the packet
    length database with all registered packets, the framing loops as instances of the locale \<open>framing\<close>,
    and their composition: whatever the network does to the stream, the frames the client's encoders
    write reach their handlers whole and in order, but for the item pickup request, which has no handler and is skipped;
    the listeners' events do not depend on chunking. The map server's replies have the lengths its database
    registers, but for the group list.

  \<^item> \<open>Account\<close>, \<open>RateLimit\<close>, \<open>LoginGate\<close> (\<open>account/{app,domain,infra/memory}\<close>; \<open>gateway/app/{ratelimit,login,char}.go\<close>):
    authentication with MD5 written out, the login throttle (its \<open>float64\<close> tokens are exact rationals), the login
    handler and the six handlers of character select, on a joint state of accounts, sessions and
    characters. Authentication decides exactly, the throttle bounds every address by its capacity (at least one) and the refill, no identity exists
    without a login, and requests leave other accounts alone.

  \<^item> \<open>MapGate\<close>, \<open>SocialGate\<close>, \<open>GuildGate\<close>, \<open>NetGate\<close>, \<open>SocialRuns\<close>, \<open>MapAnswers\<close> (\<open>gateway/app/{map,friend,party,guild}.go\<close>):
    entering and leaving a map, the connection registry, broadcasts, the friend, party and guild handlers with
    their pending invitations, and the listener as a step relation in which waiting jobs run in any order and
    connections close at any time. The locale \<open>consent\<close> is the protocol of an offer and its acceptance, interpreted on
    friendships, parties, guilds and on sessions: nobody joins, or gets an identity, without both sides. Parties and guilds
    are tracked through the state before and after each step, so that the group founded, asked for and joined is one.

  \<^bold>\<open>Groups of lemmas.\<close> Each component theory has its operations, an invariant with a preservation lemma for
  each operation, branch lemmas (what a refusal leaves unchanged, what a success changes), and the
  lemmas of a history. The properties are the lemmas tagged \<open>C\<close> and a number; \<open>Remark\<close> marks further
  theorems of the same kind. Each property with a hypothesis is followed by a witness that applies it to
  concrete data. The locales are \<open>framing\<close>, \<open>consent\<close>, the account
  store, and those of the item stores and rosters; each is interpreted on the model's own definitions.

  \<^bold>\<open>Bounds and fuel.\<close> No loop is cut short. Framing loops run on a measure (each round consumes at least one
  byte), A* on the number of unclosed cells, the depth-first cycle check on the unvisited nodes, the level-up
  loop on the remaining levels. Scripts may run forever: the machine takes a number of steps, and the
  theorems give a number that is enough when the evaluator finishes; the evaluator's fuel is
  monotone, and a program that never halts is proved to exceed every bound. A monster's chase is bounded by its distance.

  \<^bold>\<open>What modelling showed.\<close> Several theorems state behaviour that a reader of the comments would not expect:
  units lost on a full warehouse, a credit at the cap that freezes an account, a \<open>continue\<close> in a
  \<open>for\<close> loop that never ends, a mailbox request parsed one byte off its encoder, a map login
  that accepts the characters of other accounts, full friend lists reported as refusals, leave notices that
  name their recipient. The manifest lists them as findings.

  \<^bold>\<open>Not modelled.\<close> The SQL repositories (\<open>gorm.go\<close>), migrations, Valkey, telemetry, configuration, process start-up
  and the command-line programs are input and output. Readers of text formats
  (\<open>athenaconf\<close>, \<open>constdb\<close>, \<open>rathenadb\<close>, \<open>packetdb\<close>, YAML tables) feed the data that is a parameter here. The
  script lexer and parser produce the syntax trees the compiler starts from. Of the map server's handlers,
  those for the world, shops, trade, storage, skills, NPCs, mail and chat (\<open>gateway/app/dispatch.go\<close>, \<open>mail.go\<close>,
  \<open>chat.go\<close>) are glue: each decodes with a parser of \<open>PacketMap\<close>, calls a service modelled above and encodes the
  reply; in \<open>NetGate\<close> their effect on the shared state is the step \<open>Elsewhere\<close>, which may change anything but
  the identities, connections and invitations. Dialog goroutines and the tick are not modelled.
  Generated constants of protocol versions other than the one built are left out.
\<close>

end
